(* ===== verification/Prelude.thy ===== *)
theory Prelude
  imports Main "HOL-Library.Word" "HOL-Library.Char_ord" "HOL-Library.List_Lexorder"
begin

text \<open>
  Shared vocabulary of the development: Go's 64-bit integers, the parts of the packages
  \<^verbatim>\<open>strings\<close>, \<^verbatim>\<open>unicode/utf8\<close> and \<^verbatim>\<open>sort\<close> that the Collector calls, and the generic lemmas on
  lists that the component theories use.

  A Go \<^verbatim>\<open>string\<close> or \<^verbatim>\<open>[]byte\<close> is a \<^typ>\<open>string\<close>, a list of 8-bit characters. A Go \<^verbatim>\<open>int\<close> or
  \<^verbatim>\<open>int64\<close> is an \<^typ>\<open>int\<close>; where the code depends on overflow the two's complement result is
  written out with \<open>wrap64\<close>. An operation that can fail returns \<open>'e + 'a\<close>, \<open>Inl\<close> being the
  error.
\<close>

named_theorems go_defs \<open>definitions of small operations that proofs unfold together\<close>

section \<open>Machine integers\<close>

type_synonym go_int = int

definition wrap64 :: "int \<Rightarrow> int" where
  "wrap64 x = (x + 2 ^ 63) mod 2 ^ 64 - 2 ^ 63"

lemma wrap64_range: "- (2 ^ 63) \<le> wrap64 x \<and> wrap64 x < 2 ^ 63"
proof -
  have "0 \<le> (x + 2 ^ 63) mod (2 ^ 64 :: int)" and "(x + 2 ^ 63) mod (2 ^ 64 :: int) < 2 ^ 64"
    by simp_all
  then show ?thesis by (simp add: wrap64_def)
qed

lemma wrap64_id: "- (2 ^ 63) \<le> x \<Longrightarrow> x < 2 ^ 63 \<Longrightarrow> wrap64 x = x"
  by (simp add: wrap64_def)

lemma wrap64_overflow: "2 ^ 63 \<le> x \<Longrightarrow> x < 2 ^ 64 \<Longrightarrow> wrap64 x = x - 2 ^ 64"
proof -
  assume "2 ^ 63 \<le> x" and "x < 2 ^ 64"
  then have "(x + 2 ^ 63 - 2 ^ 64) mod 2 ^ 64 = x + 2 ^ 63 - 2 ^ 64" by (intro mod_pos_pos_trivial) auto
  then have "(x + 2 ^ 63) mod 2 ^ 64 = x + 2 ^ 63 - 2 ^ 64" by (simp only: minus_mod_self2)
  then show ?thesis by (simp add: wrap64_def)
qed

lemma wrap64_nonneg: "0 \<le> x \<Longrightarrow> x < 2 ^ 64 \<Longrightarrow> 0 \<le> wrap64 x \<Longrightarrow> wrap64 x = x"
  by (cases "x < 2 ^ 63") (auto simp: wrap64_id wrap64_overflow)

section \<open>Errors\<close>

type_synonym ('e, 'a) result = "'e + 'a"

abbreviation Ok :: "'a \<Rightarrow> 'e + 'a" where "Ok \<equiv> Inr"
abbreviation Err :: "'e \<Rightarrow> 'e + 'a" where "Err \<equiv> Inl"

section \<open>Splitting and joining strings\<close>

text \<open>\<^verbatim>\<open>strings.Cut(s, sep)\<close> for a separator of one byte: before, after, found.\<close>

fun cut :: "char \<Rightarrow> string \<Rightarrow> string \<times> string \<times> bool" where
  "cut c [] = ([], [], False)"
| "cut c (x # xs) =
     (if x = c then ([], xs, True)
      else (case cut c xs of (a, b, f) \<Rightarrow> (x # a, b, f)))"

text \<open>\<^verbatim>\<open>strings.Split(s, sep)\<close> for a separator of one byte; the result is never empty.\<close>

fun split_on :: "char \<Rightarrow> string \<Rightarrow> string list" where
  "split_on c [] = [[]]"
| "split_on c (x # xs) =
     (if x = c then [] # split_on c xs
      else (case split_on c xs of [] \<Rightarrow> [[x]] | y # ys \<Rightarrow> (x # y) # ys))"

text \<open>\<^verbatim>\<open>strings.Join(elems, sep)\<close>.\<close>

fun join :: "char \<Rightarrow> string list \<Rightarrow> string" where
  "join c [] = []"
| "join c [x] = x"
| "join c (x # y # ys) = x @ c # join c (y # ys)"

lemma cut_notin: "c \<notin> set s \<Longrightarrow> cut c s = (s, [], False)"
  by (induction s) auto

lemma cut_append: "c \<notin> set a \<Longrightarrow> cut c (a @ c # b) = (a, b, True)"
  by (induction a) auto

lemma cut_not_found: "cut c s = (a, b, False) \<Longrightarrow> b = []"
  by (induction s arbitrary: a) (auto split: if_splits prod.splits)

lemma split_on_nonempty [simp]: "split_on c s \<noteq> []"
  by (induction s) (auto split: list.splits)

lemma split_on_notin: "c \<notin> set s \<Longrightarrow> split_on c s = [s]"
  by (induction s) auto

lemma split_on_append: "c \<notin> set a \<Longrightarrow> split_on c (a @ c # b) = a # split_on c b"
  by (induction a) (auto split: list.splits)

lemma split_on_join:
  "xs \<noteq> [] \<Longrightarrow> \<forall>x \<in> set xs. c \<notin> set x \<Longrightarrow> split_on c (join c xs) = xs"
proof (induction xs rule: join.induct)
  case (3 c x y ys)
  then show ?case by (simp add: split_on_append)
qed (auto simp: split_on_notin)

lemma join_snoc: "xs \<noteq> [] \<Longrightarrow> join c xs @ c # y = join c (xs @ [y])"
proof (induction c xs rule: join.induct)
  case (3 c x y' ys)
  then show ?case by simp
qed auto

section \<open>UTF-8\<close>

text \<open>
  \<^verbatim>\<open>utf8.DecodeRune\<close>: the first rune of a non-empty byte string and its width. An invalid or
  truncated encoding gives the replacement rune U+FFFD with width 1. The accepted ranges of the
  second byte exclude overlong forms, surrogates and values above U+10FFFF.
\<close>

definition rune_error :: nat where "rune_error = 0xFFFD"

definition byte_of :: "char \<Rightarrow> nat" where "byte_of c = of_char c"

definition is_cont :: "nat \<Rightarrow> bool" where "is_cont b \<longleftrightarrow> 0x80 \<le> b \<and> b \<le> 0xBF"

definition second_ok :: "nat \<Rightarrow> nat \<Rightarrow> bool" where
  "second_ok b0 b1 \<longleftrightarrow>
     (if b0 = 0xE0 then 0xA0 \<le> b1 \<and> b1 \<le> 0xBF
      else if b0 = 0xED then 0x80 \<le> b1 \<and> b1 \<le> 0x9F
      else if b0 = 0xF0 then 0x90 \<le> b1 \<and> b1 \<le> 0xBF
      else if b0 = 0xF4 then 0x80 \<le> b1 \<and> b1 \<le> 0x8F
      else is_cont b1)"

definition decode_rune :: "string \<Rightarrow> nat \<times> nat" where
  "decode_rune s =
     (let bs = map byte_of (take 4 s); b0 = bs ! 0 in
      if b0 < 0x80 then (b0, 1)
      else if 0xC2 \<le> b0 \<and> b0 \<le> 0xDF then
        (if length bs \<ge> 2 \<and> is_cont (bs ! 1)
         then ((b0 - 0xC0) * 64 + (bs ! 1 - 0x80), 2) else (rune_error, 1))
      else if 0xE0 \<le> b0 \<and> b0 \<le> 0xEF then
        (if length bs \<ge> 3 \<and> second_ok b0 (bs ! 1) \<and> is_cont (bs ! 2)
         then ((b0 - 0xE0) * 4096 + (bs ! 1 - 0x80) * 64 + (bs ! 2 - 0x80), 3)
         else (rune_error, 1))
      else if 0xF0 \<le> b0 \<and> b0 \<le> 0xF4 then
        (if length bs \<ge> 4 \<and> second_ok b0 (bs ! 1) \<and> is_cont (bs ! 2) \<and> is_cont (bs ! 3)
         then ((b0 - 0xF0) * 262144 + (bs ! 1 - 0x80) * 4096
                 + (bs ! 2 - 0x80) * 64 + (bs ! 3 - 0x80), 4)
         else (rune_error, 1))
      else (rune_error, 1))"

lemma decode_rune_width: "s \<noteq> [] \<Longrightarrow> 1 \<le> snd (decode_rune s) \<and> snd (decode_rune s) \<le> length s"
  by (auto simp: decode_rune_def Let_def Suc_le_eq)

text \<open>The runes of a string in order, each with the bytes it was decoded from.\<close>

function utf8_runes :: "string \<Rightarrow> (nat \<times> string) list" where
  "utf8_runes [] = []"
| "utf8_runes (c # cs) =
     (let (r, w) = decode_rune (c # cs)
      in (r, take w (c # cs)) # utf8_runes (drop w (c # cs)))"
  by pat_completeness auto
termination
proof (relation "measure length")
  fix c cs x r w
  assume "x = decode_rune (c # cs)" and "(r, w) = x"
  then have "1 \<le> w" using decode_rune_width [of "c # cs"] by (metis list.distinct(1) snd_conv)
  then show "(drop w (c # cs), c # cs) \<in> measure length" by (cases w) auto
qed simp

lemma concat_utf8_runes [simp]: "concat (map snd (utf8_runes s)) = s"
  by (induction s rule: utf8_runes.induct) (auto simp: Let_def split: prod.splits)

lemma utf8_runes_eq_Nil [simp]: "utf8_runes s = [] \<longleftrightarrow> s = []"
  by (cases s) (auto split: prod.splits)

section \<open>White space\<close>

text \<open>\<^verbatim>\<open>unicode.IsSpace\<close>.\<close>

definition is_space :: "nat \<Rightarrow> bool" where
  "is_space r \<longleftrightarrow>
     (0x09 \<le> r \<and> r \<le> 0x0D) \<or> r = 0x20 \<or> r = 0x85 \<or> r = 0xA0 \<or> r = 0x1680 \<or>
     (0x2000 \<le> r \<and> r \<le> 0x200A) \<or> r = 0x2028 \<or> r = 0x2029 \<or> r = 0x202F \<or>
     r = 0x205F \<or> r = 0x3000"

text \<open>\<^verbatim>\<open>strings.TrimSpace\<close>: the string without leading and trailing white space.\<close>

definition trim_space :: "string \<Rightarrow> string" where
  "trim_space s =
     concat (map snd
       (rev (dropWhile (\<lambda>(r, _). is_space r)
         (rev (dropWhile (\<lambda>(r, _). is_space r) (utf8_runes s))))))"

lemma dropWhile_none: "\<forall>x \<in> set xs. \<not> P x \<Longrightarrow> dropWhile P xs = xs"
  by (cases xs) auto

lemma trim_space_id:
  assumes "\<forall>(r, b) \<in> set (utf8_runes s). \<not> is_space r"
  shows "trim_space s = s"
proof -
  have "dropWhile (\<lambda>(r, _). is_space r) (utf8_runes s) = utf8_runes s"
    using assms by (intro dropWhile_none) auto
  moreover have "dropWhile (\<lambda>(r, _). is_space r) (rev (utf8_runes s)) = rev (utf8_runes s)"
    using assms by (intro dropWhile_none) auto
  ultimately show ?thesis by (simp add: trim_space_def)
qed

lemma decode_rune_ascii: "byte_of c < 0x80 \<Longrightarrow> decode_rune (c # cs) = (byte_of c, 1)"
  by (simp add: decode_rune_def Let_def)

lemma utf8_runes_ascii:
  "\<forall>c \<in> set s. byte_of c < 0x80 \<Longrightarrow> utf8_runes s = map (\<lambda>c. (byte_of c, [c])) s"
  by (induction s) (auto simp: decode_rune_ascii)

declare utf8_runes.simps(2) [simp del]

text \<open>An ASCII byte is always decoded as a rune of its own.\<close>

lemma is_cont_high: "is_cont b \<Longrightarrow> 0x80 \<le> b"
  by (simp add: is_cont_def)

lemma second_ok_high: "second_ok b0 b1 \<Longrightarrow> 0x80 \<le> b1"
  by (auto simp: second_ok_def is_cont_def split: if_splits)

lemma decode_rune_bytes:
  assumes "decode_rune (c # cs) = (r, w)"
  shows "(w = 1 \<and> r = byte_of c) \<or> (\<forall>d \<in> set (take w (c # cs)). 0x80 \<le> byte_of d)"
proof (cases "byte_of c < 0x80")
  case True
  then show ?thesis using assms by (simp add: decode_rune_ascii)
next
  case False
  have take2: "length cs \<ge> 1 \<Longrightarrow> take 2 (c # cs) = [c, cs ! 0]"
    by (cases cs) auto
  have take3: "length cs \<ge> 2 \<Longrightarrow> take 3 (c # cs) = [c, cs ! 0, cs ! 1]"
    by (cases cs; cases "tl cs") auto
  have take4: "length cs \<ge> 3 \<Longrightarrow> take 4 (c # cs) = [c, cs ! 0, cs ! 1, cs ! 2]"
    by (cases cs; cases "tl cs"; cases "tl (tl cs)") (auto simp: numeral_2_eq_2)
  have nth0: "length cs \<ge> 1 \<Longrightarrow> map byte_of (take 3 cs) ! 0 = byte_of (cs ! 0)"
    by (cases cs) auto
  have ws: "w \<in> {1, 2, 3, 4}"
    using assms by (auto simp: decode_rune_def Let_def split: if_splits)
  have w2: "w = 2 \<Longrightarrow> length cs \<ge> 1 \<and> is_cont (byte_of (cs ! 0))"
    and w3: "w = 3 \<Longrightarrow> length cs \<ge> 2 \<and> second_ok (byte_of c) (byte_of (cs ! 0)) \<and> is_cont (byte_of (cs ! 1))"
    and w4: "w = 4 \<Longrightarrow> length cs \<ge> 3 \<and> second_ok (byte_of c) (byte_of (cs ! 0)) \<and>
           is_cont (byte_of (cs ! 1)) \<and> is_cont (byte_of (cs ! 2))"
    using assms nth0 by (auto simp: decode_rune_def Let_def split: if_splits)
  have "0x80 \<le> byte_of d" if "d \<in> set (take w (c # cs))" for d
  proof -
    consider "w = 1" | "w = 2" | "w = 3" | "w = 4" using ws by auto
    then show ?thesis
    proof cases
      case 1 with that False show ?thesis by simp
    next
      case 2 with that False w2 [OF 2] take2 show ?thesis by (auto dest: is_cont_high)
    next
      case 3 with that False w3 [OF 3] take3 show ?thesis by (auto dest: is_cont_high second_ok_high)
    next
      case 4 with that False w4 [OF 4] take4 show ?thesis by (auto dest: is_cont_high second_ok_high)
    qed
  qed
  then show ?thesis by blast
qed

lemma utf8_runes_ascii_byte:
  "c \<in> set s \<Longrightarrow> byte_of c < 0x80 \<Longrightarrow> \<exists>b. (byte_of c, b) \<in> set (utf8_runes s)"
proof (induction s rule: utf8_runes.induct)
  case (2 d ds)
  obtain r w where dec: "decode_rune (d # ds) = (r, w)" by fastforce
  have runes: "utf8_runes (d # ds) = (r, take w (d # ds)) # utf8_runes (drop w (d # ds))"
    by (simp add: utf8_runes.simps(2) dec)
  have "c \<in> set (take w (d # ds)) \<or> c \<in> set (drop w (d # ds))"
    using "2.prems"(1) by (metis UnE append_take_drop_id set_append)
  then show ?case
  proof
    assume "c \<in> set (take w (d # ds))"
    then have "w = 1 \<and> r = byte_of d \<and> c = d"
      using decode_rune_bytes [OF dec] "2.prems"(2) by auto
    then show ?thesis by (auto simp: runes)
  next
    assume "c \<in> set (drop w (d # ds))"
    then obtain b where "(byte_of c, b) \<in> set (utf8_runes (drop w (d # ds)))"
      using "2.IH" [OF dec [symmetric] refl] "2.prems"(2) by blast
    then show ?thesis by (auto simp: runes)
  qed
qed simp

section \<open>Sorted lists without duplicates\<close>

text \<open>\<^verbatim>\<open>sort.Strings\<close> followed by \<^verbatim>\<open>slices.Compact\<close> depends on the set of strings only.\<close>

lemma distinct_remdups_adj_sorted: "sorted xs \<Longrightarrow> distinct (remdups_adj (xs :: 'a :: linorder list))"
proof (induction xs rule: remdups_adj.induct)
  case (3 x y xs)
  then show ?case by (cases "x = y") auto
qed auto

lemma remdups_adj_sort_unique:
  assumes "set xs = set (ys :: 'a :: linorder list)"
  shows "remdups_adj (sort xs) = remdups_adj (sort ys)"
proof (rule sorted_distinct_set_unique)
  show "sorted (remdups_adj (sort xs))" "sorted (remdups_adj (sort ys))"
    by (simp_all add: sorted_remdups_adj)
  show "distinct (remdups_adj (sort xs))" "distinct (remdups_adj (sort ys))"
    by (simp_all add: distinct_remdups_adj_sorted)
qed (simp add: assms)

end
