(* ===== verification/Identifiers.thy ===== *)
theory Identifiers
  imports Prelude
begin

text \<open>
  Component and pipeline identifiers: \<^verbatim>\<open>component/identifiable.go\<close>, \<^verbatim>\<open>pipeline/pipeline.go\<close> and
  \<^verbatim>\<open>pipeline/internal/globalsignal/signal.go\<close>. An identifier is written \<^verbatim>\<open>type[/name]\<close> in the
  configuration. The theory states the contract of a text codec as a locale and shows that the
  three types implement it: printing a well-formed value and parsing the text gives the value
  back, and parsing only produces well-formed values.

  The Unicode general categories C (other) and S (symbol) of the runes above U+009F are a
  parameter \<open>cs\<close> of the model: they are a data table of the Go distribution. Everything below
  U+00A0, and the category Z, is written out.
\<close>

section \<open>The contract of a text codec\<close>

locale text_codec =
  fixes marshal :: "'a \<Rightarrow> string"
    and unmarshal :: "'a \<Rightarrow> string \<Rightarrow> 'a \<times> 'e option"
    and wf :: "'a \<Rightarrow> bool"
  assumes unmarshal_marshal: "wf x \<Longrightarrow> unmarshal y (marshal x) = (x, None)"
    and unmarshal_wf: "unmarshal y s = (x, None) \<Longrightarrow> wf x"
begin

lemma marshal_inj: "wf x \<Longrightarrow> wf y \<Longrightarrow> marshal x = marshal y \<Longrightarrow> x = y"
proof -
  assume "wf x" "wf y" and eq: "marshal x = marshal y"
  then have "unmarshal x (marshal x) = (x, None)" and "unmarshal x (marshal y) = (y, None)"
    by (blast intro: unmarshal_marshal)+
  with eq have "(x, None :: 'e option) = (y, None)" by (elim subst) auto
  then show "x = y" by simp
qed

lemma marshal_inj_on: "inj_on marshal (Collect wf)"
  by (auto simp: inj_on_def intro: marshal_inj)

lemma normal_form: "unmarshal y s = (x, None) \<Longrightarrow> unmarshal z (marshal x) = (x, None)"
  by (blast intro: unmarshal_wf unmarshal_marshal)

end

section \<open>Errors\<close>

datatype id_error =
    EmptyID
  | EmptyBeforeSep string
  | EmptyAfterSep string
  | NameTooLong string nat
  | InvalidNameChars string
  | InvalidTypeChars string
  | UnknownSignal string
  | InID string id_error

section \<open>Character classes\<close>

definition is_alpha :: "char \<Rightarrow> bool" where
  "is_alpha c \<longleftrightarrow> (CHR ''a'' \<le> c \<and> c \<le> CHR ''z'') \<or> (CHR ''A'' \<le> c \<and> c \<le> CHR ''Z'')"

definition is_digit :: "char \<Rightarrow> bool" where
  "is_digit c \<longleftrightarrow> CHR ''0'' \<le> c \<and> c \<le> CHR ''9''"

definition is_word_char :: "char \<Rightarrow> bool" where
  "is_word_char c \<longleftrightarrow> is_digit c \<or> is_alpha c \<or> c = CHR ''_''"

text \<open>\<^verbatim>\<open>\pZ\<close>: the separators.\<close>

definition category_Z :: "nat \<Rightarrow> bool" where
  "category_Z r \<longleftrightarrow>
     r = 0x20 \<or> r = 0xA0 \<or> r = 0x1680 \<or> (0x2000 \<le> r \<and> r \<le> 0x200A) \<or> r = 0x2028 \<or>
     r = 0x2029 \<or> r = 0x202F \<or> r = 0x205F \<or> r = 0x3000"

text \<open>\<^verbatim>\<open>\pC\<close> and \<^verbatim>\<open>\pS\<close> below U+00A0: the controls, and the ASCII symbols.\<close>

definition category_CS_low :: "nat \<Rightarrow> bool" where
  "category_CS_low r \<longleftrightarrow>
     r \<le> 0x1F \<or> (0x7F \<le> r \<and> r \<le> 0x9F) \<or>
     r = 0x24 \<or> r = 0x2B \<or> r = 0x3C \<or> r = 0x3D \<or> r = 0x3E \<or> r = 0x5E \<or> r = 0x60 \<or>
     r = 0x7C \<or> r = 0x7E"

definition name_rune :: "(nat \<Rightarrow> bool) \<Rightarrow> nat \<Rightarrow> bool" where
  "name_rune cs r \<longleftrightarrow> \<not> category_Z r \<and> \<not> (if r < 0xA0 then category_CS_low r else cs r)"

lemma name_rune_not_space: "name_rune cs r \<Longrightarrow> \<not> is_space r"
  by (auto simp: name_rune_def category_Z_def category_CS_low_def is_space_def)

section \<open>Component types and identifiers\<close>

definition typeAndNameSeparator :: char where
  "typeAndNameSeparator = CHR ''/''"

fun typeRegexp_MatchString :: "string \<Rightarrow> bool" where
  "typeRegexp_MatchString [] = False"
| "typeRegexp_MatchString (c # cs) = (is_alpha c \<and> length cs \<le> 62 \<and> list_all is_word_char cs)"

definition nameRegexp_MatchString :: "(nat \<Rightarrow> bool) \<Rightarrow> string \<Rightarrow> bool" where
  "nameRegexp_MatchString cs s \<longleftrightarrow>
     s \<noteq> [] \<and> list_all (\<lambda>(r, _). name_rune cs r) (utf8_runes s)"

record Type =
  Type_name :: string

definition Type_String :: "Type \<Rightarrow> string" where
  "Type_String t = Type_name t"

definition NewType :: "string \<Rightarrow> (id_error, Type) result" where
  "NewType ty =
     (if ty = [] then Err EmptyID
      else if \<not> typeRegexp_MatchString ty then Err (InvalidTypeChars ty)
      else Ok \<lparr>Type_name = ty\<rparr>)"

text \<open>\<^verbatim>\<open>MustNewType\<close> panics on an invalid type: \<open>None\<close> is the panic.\<close>

definition MustNewType :: "string \<Rightarrow> Type option" where
  "MustNewType strType = (case NewType strType of Inl _ \<Rightarrow> None | Inr ty \<Rightarrow> Some ty)"

record ID =
  typeVal :: Type
  nameVal :: string

definition NewID :: "Type \<Rightarrow> ID" where
  "NewID t = \<lparr>typeVal = t, nameVal = []\<rparr>"

definition NewIDWithName :: "Type \<Rightarrow> string \<Rightarrow> ID" where
  "NewIDWithName t n = \<lparr>typeVal = t, nameVal = n\<rparr>"

definition MustNewID :: "string \<Rightarrow> ID option" where
  "MustNewID t = map_option NewID (MustNewType t)"

definition MustNewIDWithName :: "string \<Rightarrow> string \<Rightarrow> ID option" where
  "MustNewIDWithName t n = map_option (\<lambda>ty. NewIDWithName ty n) (MustNewType t)"

definition validateName :: "(nat \<Rightarrow> bool) \<Rightarrow> string \<Rightarrow> id_error option" where
  "validateName cs nameStr =
     (if length nameStr > 1024 then Some (NameTooLong nameStr (length nameStr))
      else if \<not> nameRegexp_MatchString cs nameStr then Some (InvalidNameChars nameStr)
      else None)"

definition ID_String :: "ID \<Rightarrow> string" where
  "ID_String i =
     (if nameVal i = [] then Type_String (typeVal i)
      else Type_String (typeVal i) @ typeAndNameSeparator # nameVal i)"

text \<open>
  The assignment \<^verbatim>\<open>id.typeVal, err = NewType(typeStr)\<close> clears the type when the type is invalid:
  the receiver is returned updated also on that error.
\<close>

definition ID_UnmarshalText :: "(nat \<Rightarrow> bool) \<Rightarrow> ID \<Rightarrow> string \<Rightarrow> ID \<times> id_error option" where
  "ID_UnmarshalText cs i idStr =
     (case cut typeAndNameSeparator idStr of (typeStr0, nameStr0, hasName) \<Rightarrow>
      let typeStr = trim_space typeStr0 in
      if typeStr = [] then
        (i, Some (if hasName then EmptyBeforeSep idStr else EmptyID))
      else
        let nameStr = (if hasName then trim_space nameStr0 else nameStr0);
            nameErr = (if hasName then
                         (if nameStr = [] then Some (EmptyAfterSep idStr)
                          else map_option (InID nameStr) (validateName cs nameStr))
                       else None)
        in case nameErr of
             Some e \<Rightarrow> (i, Some e)
           | None \<Rightarrow>
               (case NewType typeStr of
                  Inl e \<Rightarrow> (i\<lparr>typeVal := \<lparr>Type_name = []\<rparr>\<rparr>, Some (InID idStr e))
                | Inr t \<Rightarrow> (i\<lparr>typeVal := t, nameVal := nameStr\<rparr>, None)))"

definition valid_name :: "(nat \<Rightarrow> bool) \<Rightarrow> string \<Rightarrow> bool" where
  "valid_name cs n \<longleftrightarrow> n = [] \<or> validateName cs n = None"

definition valid_ID :: "(nat \<Rightarrow> bool) \<Rightarrow> ID \<Rightarrow> bool" where
  "valid_ID cs i \<longleftrightarrow>
     typeRegexp_MatchString (Type_name (typeVal i)) \<and> valid_name cs (nameVal i)"

section \<open>Signals and pipeline identifiers\<close>

record Signal =
  Signal_name :: string

definition SignalProfiles :: Signal where "SignalProfiles = \<lparr>Signal_name = ''profiles''\<rparr>"
definition SignalTraces :: Signal where "SignalTraces = \<lparr>Signal_name = ''traces''\<rparr>"
definition SignalMetrics :: Signal where "SignalMetrics = \<lparr>Signal_name = ''metrics''\<rparr>"
definition SignalLogs :: Signal where "SignalLogs = \<lparr>Signal_name = ''logs''\<rparr>"

lemmas Signal_consts = SignalProfiles_def SignalTraces_def SignalMetrics_def SignalLogs_def

definition Signal_String :: "Signal \<Rightarrow> string" where
  "Signal_String s = Signal_name s"

definition Signal_UnmarshalText :: "Signal \<Rightarrow> string \<Rightarrow> Signal \<times> id_error option" where
  "Signal_UnmarshalText s text =
     (if text = Signal_name SignalProfiles then (SignalProfiles, None)
      else if text = Signal_name SignalTraces then (SignalTraces, None)
      else if text = Signal_name SignalMetrics then (SignalMetrics, None)
      else if text = Signal_name SignalLogs then (SignalLogs, None)
      else (s, Some (UnknownSignal text)))"

definition valid_Signal :: "Signal \<Rightarrow> bool" where
  "valid_Signal s \<longleftrightarrow> s = SignalProfiles \<or> s = SignalTraces \<or> s = SignalMetrics \<or> s = SignalLogs"

record pipeline_ID =
  signal :: Signal
  pname :: string

definition pipeline_NewIDWithName :: "Signal \<Rightarrow> string \<Rightarrow> pipeline_ID" where
  "pipeline_NewIDWithName s n = \<lparr>signal = s, pname = n\<rparr>"

definition pipeline_NewID :: "Signal \<Rightarrow> pipeline_ID" where
  "pipeline_NewID s = pipeline_NewIDWithName s []"

definition pipeline_ID_String :: "pipeline_ID \<Rightarrow> string" where
  "pipeline_ID_String i =
     (if pname i = [] then Signal_String (signal i)
      else Signal_String (signal i) @ typeAndNameSeparator # pname i)"

definition pipeline_ID_UnmarshalText ::
  "(nat \<Rightarrow> bool) \<Rightarrow> pipeline_ID \<Rightarrow> string \<Rightarrow> pipeline_ID \<times> id_error option" where
  "pipeline_ID_UnmarshalText cs i idStr =
     (case cut typeAndNameSeparator idStr of (signalStr0, nameStr0, hasName) \<Rightarrow>
      let signalStr = trim_space signalStr0 in
      if signalStr = [] then
        (i, Some (if hasName then EmptyBeforeSep idStr else EmptyID))
      else
        let nameStr = (if hasName then trim_space nameStr0 else nameStr0);
            nameErr = (if hasName then
                         (if nameStr = [] then Some (EmptyAfterSep idStr)
                          else map_option (InID nameStr) (validateName cs nameStr))
                       else None)
        in case nameErr of
             Some e \<Rightarrow> (i, Some e)
           | None \<Rightarrow>
               (case Signal_UnmarshalText (signal i) signalStr of
                  (s', Some e) \<Rightarrow> (i\<lparr>signal := s'\<rparr>, Some (InID idStr e))
                | (s', None) \<Rightarrow> (i\<lparr>signal := s', pname := nameStr\<rparr>, None)))"

definition valid_pipeline_ID :: "(nat \<Rightarrow> bool) \<Rightarrow> pipeline_ID \<Rightarrow> bool" where
  "valid_pipeline_ID cs i \<longleftrightarrow> valid_Signal (signal i) \<and> valid_name cs (pname i)"

section \<open>Parsing inverts printing\<close>

lemma char_le_byte: "c \<le> d \<longleftrightarrow> byte_of c \<le> byte_of d"
  by (simp add: less_eq_char_def byte_of_def)

lemma is_word_char_byte:
  "is_word_char c \<Longrightarrow> byte_of c < 0x80 \<and> \<not> is_space (byte_of c) \<and> c \<noteq> typeAndNameSeparator"
  by (auto simp: is_word_char_def is_digit_def is_alpha_def is_space_def char_le_byte byte_of_def
      typeAndNameSeparator_def)

lemma is_alpha_word: "is_alpha c \<Longrightarrow> is_word_char c"
  by (simp add: is_word_char_def)

lemma typeRegexp_word: "typeRegexp_MatchString s \<Longrightarrow> s \<noteq> [] \<and> (\<forall>c \<in> set s. is_word_char c)"
  by (cases s) (auto simp: list_all_iff is_alpha_word)

lemma word_string:
  assumes "\<forall>c \<in> set s. is_word_char c"
  shows "trim_space s = s" and "typeAndNameSeparator \<notin> set s"
proof -
  have "utf8_runes s = map (\<lambda>c. (byte_of c, [c])) s"
    using assms is_word_char_byte by (intro utf8_runes_ascii) blast
  then show "trim_space s = s"
    using assms is_word_char_byte by (intro trim_space_id) auto
  show "typeAndNameSeparator \<notin> set s" using assms is_word_char_byte by blast
qed

lemma valid_name_trim: "valid_name cs n \<Longrightarrow> trim_space n = n"
proof (cases "n = []")
  case True
  then show ?thesis by (simp add: trim_space_def)
next
  case False
  moreover assume "valid_name cs n"
  ultimately show ?thesis
    by (intro trim_space_id)
      (auto simp: valid_name_def validateName_def nameRegexp_MatchString_def list_all_iff
        dest: name_rune_not_space split: if_splits)
qed

lemma valid_name_no_space: "valid_name cs n \<Longrightarrow> CHR '' '' \<notin> set n"
proof
  assume v: "valid_name cs n" and "CHR '' '' \<in> set n"
  then obtain b where "(byte_of (CHR '' ''), b) \<in> set (utf8_runes n)"
    using utf8_runes_ascii_byte [of "CHR '' ''" n] by (auto simp: byte_of_def)
  moreover have "n \<noteq> []" using \<open>CHR '' '' \<in> set n\<close> by auto
  moreover have "\<not> name_rune cs (byte_of (CHR '' ''))"
    by (simp add: name_rune_def category_Z_def byte_of_def)
  ultimately show False
    using v by (auto simp: valid_name_def validateName_def nameRegexp_MatchString_def list_all_iff
        split: if_splits)
qed

lemma valid_Signal_word:
  assumes "valid_Signal s"
  shows "Signal_name s \<noteq> [] \<and> (\<forall>c \<in> set (Signal_name s). is_word_char c)"
  using assms
  by (auto simp: valid_Signal_def Signal_consts is_word_char_def is_alpha_def char_le_byte byte_of_def)

lemma valid_Signal_cases:
  assumes "valid_Signal s"
  obtains "s = SignalProfiles" | "s = SignalTraces" | "s = SignalMetrics" | "s = SignalLogs"
  using assms by (auto simp: valid_Signal_def)

lemma Signal_UnmarshalText_None:
  "Signal_UnmarshalText s text = (x, None) \<longleftrightarrow> valid_Signal x \<and> text = Signal_name x"
proof
  assume "Signal_UnmarshalText s text = (x, None)"
  then show "valid_Signal x \<and> text = Signal_name x"
    by (simp add: Signal_UnmarshalText_def valid_Signal_def split: if_splits)
next
  assume "valid_Signal x \<and> text = Signal_name x"
  then show "Signal_UnmarshalText s text = (x, None)"
    by (elim conjE valid_Signal_cases; simp add: Signal_UnmarshalText_def; simp add: Signal_consts)
qed

interpretation signal_codec: text_codec Signal_String Signal_UnmarshalText valid_Signal
  by unfold_locales (auto simp: Signal_String_def Signal_UnmarshalText_None)

lemma cut_id:
  assumes "typeAndNameSeparator \<notin> set t"
  shows "cut typeAndNameSeparator (if n = [] then t else t @ typeAndNameSeparator # n) =
           (t, n, n \<noteq> [])"
  using assms by (simp add: cut_notin cut_append)

lemma ID_UnmarshalText_String:
  assumes "valid_ID cs i"
  shows "ID_UnmarshalText cs j (ID_String i) = (i, None)"
proof -
  let ?t = "Type_name (typeVal i)"
  have t: "typeRegexp_MatchString ?t" and n: "valid_name cs (nameVal i)"
    using assms by (auto simp: valid_ID_def)
  have w: "?t \<noteq> []" "trim_space ?t = ?t" "typeAndNameSeparator \<notin> set ?t"
    using typeRegexp_word [OF t] word_string by auto
  have c: "cut typeAndNameSeparator (ID_String i) = (?t, nameVal i, nameVal i \<noteq> [])"
    unfolding ID_String_def Type_String_def by (rule cut_id [OF w(3)])
  show ?thesis
    using w t n
    by (auto simp: ID_UnmarshalText_def c valid_name_trim [OF n] NewType_def valid_name_def)
qed

lemma ID_UnmarshalText_valid:
  assumes "ID_UnmarshalText cs j s = (i, None)"
  shows "valid_ID cs i"
  using assms
  by (auto simp: ID_UnmarshalText_def valid_ID_def valid_name_def NewType_def Let_def
      dest: cut_not_found split: prod.splits if_splits option.splits sum.splits)

interpretation component_codec: text_codec ID_String "ID_UnmarshalText cs" "valid_ID cs" for cs
  by unfold_locales (erule ID_UnmarshalText_String ID_UnmarshalText_valid)+

lemma pipeline_ID_UnmarshalText_String:
  assumes "valid_pipeline_ID cs i"
  shows "pipeline_ID_UnmarshalText cs j (pipeline_ID_String i) = (i, None)"
proof -
  let ?t = "Signal_name (signal i)"
  have t: "valid_Signal (signal i)" and n: "valid_name cs (pname i)"
    using assms by (auto simp: valid_pipeline_ID_def)
  have w: "?t \<noteq> []" "trim_space ?t = ?t" "typeAndNameSeparator \<notin> set ?t"
    using valid_Signal_word [OF t] word_string by auto
  have c: "cut typeAndNameSeparator (pipeline_ID_String i) = (?t, pname i, pname i \<noteq> [])"
    unfolding pipeline_ID_String_def Signal_String_def by (rule cut_id [OF w(3)])
  have u: "Signal_UnmarshalText (signal j) ?t = (signal i, None)"
    using t by (simp add: Signal_UnmarshalText_None)
  show ?thesis
    using w t n
    by (auto simp: pipeline_ID_UnmarshalText_def c valid_name_trim [OF n] u valid_name_def)
qed

lemma pipeline_ID_UnmarshalText_valid:
  assumes "pipeline_ID_UnmarshalText cs j s = (i, None)"
  shows "valid_pipeline_ID cs i"
  using assms
  by (auto simp: pipeline_ID_UnmarshalText_def valid_pipeline_ID_def valid_name_def Let_def
      Signal_UnmarshalText_None dest: cut_not_found split: prod.splits if_splits option.splits)

interpretation pipeline_codec:
  text_codec pipeline_ID_String "pipeline_ID_UnmarshalText cs" "valid_pipeline_ID cs" for cs
  by unfold_locales (erule pipeline_ID_UnmarshalText_String pipeline_ID_UnmarshalText_valid)+

lemma nameRegexp_ascii:
  "list_all (\<lambda>c. byte_of c < 0x80) s \<Longrightarrow>
     nameRegexp_MatchString cs s \<longleftrightarrow> s \<noteq> [] \<and> list_all (\<lambda>c. name_rune cs (byte_of c)) s"
  by (simp add: nameRegexp_MatchString_def utf8_runes_ascii list_all_iff)

lemmas id_eval = valid_ID_def valid_pipeline_ID_def valid_name_def validateName_def nameRegexp_ascii
  name_rune_def category_Z_def category_CS_low_def is_alpha_def is_digit_def is_word_char_def
  char_le_byte byte_of_def

section \<open>Properties\<close>

text \<open>
  C28. A component identifier survives the configuration: printing any well-formed identifier and
  parsing the text restores it, whatever the receiver held; and whatever the parser accepts is
  well formed and is printed to a text that parses to the same identifier.
\<close>

theorem component_ID_roundtrip:
  "(valid_ID cs i \<longrightarrow> ID_UnmarshalText cs j (ID_String i) = (i, None)) \<and>
   (ID_UnmarshalText cs j s = (i, None) \<longrightarrow>
      valid_ID cs i \<and> ID_UnmarshalText cs k (ID_String i) = (i, None))"
  using component_codec.unmarshal_marshal component_codec.unmarshal_wf component_codec.normal_form
  by blast

theorem component_ID_roundtrip_witness:
  "let i = \<lparr>typeVal = \<lparr>Type_name = ''otlp''\<rparr>, nameVal = ''a/b''\<rparr>; u = ID_UnmarshalText (\<lambda>_. False) in
   u (NewID \<lparr>Type_name = []\<rparr>) (ID_String i) = (i, None) \<and> valid_ID (\<lambda>_. False) i \<and>
   u i (ID_String i) = (i, None)"
proof -
  let ?i = "\<lparr>typeVal = \<lparr>Type_name = ''otlp''\<rparr>, nameVal = ''a/b''\<rparr>"
  let ?j = "NewID \<lparr>Type_name = []\<rparr>"
  have "valid_ID (\<lambda>_. False) ?i" by (simp add: id_eval)
  then show ?thesis
    using component_ID_roundtrip [of "\<lambda>_. False" ?i ?j "ID_String ?i" ?i] unfolding Let_def by blast
qed

end
