(* ===== verification/Status.thy ===== *)
theory Status
  imports Identifiers
begin

text \<open>
  Component status: \<^verbatim>\<open>component/componentstatus/status.go\<close> and \<^verbatim>\<open>instance.go\<close>, and the state machine
  with its reporter in \<^verbatim>\<open>service/internal/status/status.go\<close>.

  The callbacks of the reporter are kept as the sequences of their calls: \<open>notified\<close> for
  \<^verbatim>\<open>onStatusChange\<close> and \<open>invalid\<close> for \<^verbatim>\<open>onInvalidTransition\<close>. \<^verbatim>\<open>time.Now()\<close> is the argument \<open>now\<close>. The
  map of state machines is keyed by the pointer \<^verbatim>\<open>*InstanceID\<close>, whose identity is the type
  variable \<open>'i\<close>. Each method runs under the reporter's mutex, so an execution is a sequence of
  method calls.
\<close>

section \<open>Statuses and events\<close>

text \<open>\<^verbatim>\<open>Status\<close> is an \<^verbatim>\<open>int32\<close>: \<open>OtherStatus\<close> is a value outside the enumeration.\<close>

datatype Status =
    StatusNone | StatusStarting | StatusOK | StatusRecoverableError | StatusPermanentError
  | StatusFatalError | StatusStopping | StatusStopped | OtherStatus int

fun Status_String :: "Status \<Rightarrow> string" where
  "Status_String StatusStarting = ''StatusStarting''"
| "Status_String StatusOK = ''StatusOK''"
| "Status_String StatusRecoverableError = ''StatusRecoverableError''"
| "Status_String StatusPermanentError = ''StatusPermanentError''"
| "Status_String StatusFatalError = ''StatusFatalError''"
| "Status_String StatusStopping = ''StatusStopping''"
| "Status_String StatusStopped = ''StatusStopped''"
| "Status_String _ = ''StatusNone''"

text \<open>The attributes are a \<^verbatim>\<open>pcommon.Map\<close>, kept as a list of keys and values of type \<open>'v\<close>.\<close>

record 'v Event =
  attributes :: "(string \<times> 'v) list"
  status :: Status
  err :: "string option"
  timestamp :: int

type_synonym 'v EventBuilderOption = "'v Event \<Rightarrow> 'v Event"

definition NewEvent :: "int \<Rightarrow> Status \<Rightarrow> 'v EventBuilderOption list \<Rightarrow> 'v Event" where
  "NewEvent now st opts =
     fold (\<lambda>opt event. opt event) opts
       \<lparr>attributes = [], status = st, err = None, timestamp = now\<rparr>"

definition WithAttributes :: "(string \<times> 'v) list \<Rightarrow> 'v EventBuilderOption" where
  "WithAttributes attrs = (\<lambda>e. e\<lparr>attributes := attrs\<rparr>)"

definition WithError :: "string \<Rightarrow> 'v EventBuilderOption" where
  "WithError msg = (\<lambda>e. e\<lparr>err := Some msg\<rparr>)"

definition NewRecoverableErrorEvent :: "int \<Rightarrow> string \<Rightarrow> 'v Event" where
  "NewRecoverableErrorEvent now msg = NewEvent now StatusRecoverableError [WithError msg]"

definition NewPermanentErrorEvent :: "int \<Rightarrow> string \<Rightarrow> 'v Event" where
  "NewPermanentErrorEvent now msg = NewEvent now StatusPermanentError [WithError msg]"

definition NewFatalErrorEvent :: "int \<Rightarrow> string \<Rightarrow> 'v Event" where
  "NewFatalErrorEvent now msg = NewEvent now StatusFatalError [WithError msg]"

definition StatusIsError :: "Status \<Rightarrow> bool" where
  "StatusIsError s \<longleftrightarrow>
     s = StatusRecoverableError \<or> s = StatusPermanentError \<or> s = StatusFatalError"

section \<open>The state machine\<close>

record 'v fsm =
  current :: "'v Event"
  transitions :: "Status \<Rightarrow> Status list"

datatype transition_error = InvalidStateTransition Status Status

definition fsm_transition :: "'v fsm \<Rightarrow> 'v Event \<Rightarrow> (transition_error, 'v fsm) result" where
  "fsm_transition m ev =
     (if status ev \<notin> set (transitions m (status (current m)))
      then Err (InvalidStateTransition (status (current m)) (status ev))
      else Ok (m\<lparr>current := ev\<rparr>))"

fun fsm_transitions :: "Status \<Rightarrow> Status list" where
  "fsm_transitions StatusNone = [StatusStarting]"
| "fsm_transitions StatusStarting =
     [StatusOK, StatusRecoverableError, StatusPermanentError, StatusFatalError, StatusStopping]"
| "fsm_transitions StatusOK =
     [StatusOK, StatusRecoverableError, StatusPermanentError, StatusFatalError, StatusStopping]"
| "fsm_transitions StatusRecoverableError =
     [StatusRecoverableError, StatusOK, StatusPermanentError, StatusFatalError, StatusStopping]"
| "fsm_transitions StatusPermanentError = [StatusStopping]"
| "fsm_transitions StatusFatalError = []"
| "fsm_transitions StatusStopping =
     [StatusRecoverableError, StatusPermanentError, StatusFatalError, StatusStopped]"
| "fsm_transitions StatusStopped = []"
| "fsm_transitions (OtherStatus _) = []"

definition newFSM :: "int \<Rightarrow> 'v fsm" where
  "newFSM now = \<lparr>current = NewEvent now StatusNone [], transitions = fsm_transitions\<rparr>"

section \<open>The reporter\<close>

record ('i, 'v) reporter =
  fsmMap :: "'i \<rightharpoonup> 'v fsm"
  notified :: "('i \<times> 'v Event) list"
  invalid :: "transition_error list"

definition NewReporter :: "('i, 'v) reporter" where
  "NewReporter = \<lparr>fsmMap = Map.empty, notified = [], invalid = []\<rparr>"

definition componentFSM :: "int \<Rightarrow> ('i, 'v) reporter \<Rightarrow> 'i \<Rightarrow> 'v fsm \<times> ('i, 'v) reporter" where
  "componentFSM now r i =
     (case fsmMap r i of
        Some m \<Rightarrow> (m, r)
      | None \<Rightarrow> let m = newFSM now in (m, r\<lparr>fsmMap := (fsmMap r)(i \<mapsto> m)\<rparr>))"

text \<open>
  The call \<^verbatim>\<open>fsm.transition(ev)\<close> on the machine stored for \<open>i\<close>, with its callback, and the call of
  \<^verbatim>\<open>onInvalidTransition\<close> when it fails.
\<close>

definition apply_transition ::
  "('i, 'v) reporter \<Rightarrow> 'i \<Rightarrow> 'v fsm \<Rightarrow> 'v Event \<Rightarrow> ('i, 'v) reporter" where
  "apply_transition r i m ev =
     (case fsm_transition m ev of
        Inl e \<Rightarrow> r\<lparr>invalid := invalid r @ [e]\<rparr>
      | Inr m' \<Rightarrow> r\<lparr>fsmMap := (fsmMap r)(i \<mapsto> m'), notified := notified r @ [(i, ev)]\<rparr>)"

definition ReportStatus :: "int \<Rightarrow> ('i, 'v) reporter \<Rightarrow> 'i \<Rightarrow> 'v Event \<Rightarrow> ('i, 'v) reporter" where
  "ReportStatus now r i ev =
     (case componentFSM now r i of (m, r') \<Rightarrow> apply_transition r' i m ev)"

definition ReportOKIfStarting :: "int \<Rightarrow> ('i, 'v) reporter \<Rightarrow> 'i \<Rightarrow> ('i, 'v) reporter" where
  "ReportOKIfStarting now r i =
     (case componentFSM now r i of (m, r') \<Rightarrow>
        if status (current m) = StatusStarting
        then apply_transition r' i m (NewEvent now StatusOK []) else r')"

section \<open>Executions\<close>

datatype ('i, 'v) report_call = CallReportStatus 'i "'v Event" | CallReportOKIfStarting 'i

fun report_step :: "('i, 'v) reporter \<Rightarrow> int \<times> ('i, 'v) report_call \<Rightarrow> ('i, 'v) reporter" where
  "report_step r (now, CallReportStatus i ev) = ReportStatus now r i ev"
| "report_step r (now, CallReportOKIfStarting i) = ReportOKIfStarting now r i"

definition report_run :: "('i, 'v) reporter \<Rightarrow> (int \<times> ('i, 'v) report_call) list \<Rightarrow> ('i, 'v) reporter"
  where "report_run r calls = foldl report_step r calls"

text \<open>The statuses announced for one instance, in order.\<close>

definition announced :: "('i, 'v) reporter \<Rightarrow> 'i \<Rightarrow> Status list" where
  "announced r i = map (status \<circ> snd) (filter (\<lambda>(j, _). j = i) (notified r))"

fun status_path :: "Status \<Rightarrow> Status list \<Rightarrow> bool" where
  "status_path s [] = True"
| "status_path s (t # ts) = (t \<in> set (fsm_transitions s) \<and> status_path t ts)"

lemma status_path_snoc:
  "status_path s (ts @ [t]) \<longleftrightarrow> status_path s ts \<and> t \<in> set (fsm_transitions (last (s # ts)))"
  by (induction ts arbitrary: s) auto

text \<open>Every machine is where the announcements for its instance have led.\<close>

fun instance_ok :: "'v fsm option \<Rightarrow> Status list \<Rightarrow> bool" where
  "instance_ok None ss = (ss = [])"
| "instance_ok (Some m) ss =
     (transitions m = fsm_transitions \<and> status_path StatusNone ss \<and>
      status (current m) = last (StatusNone # ss))"

definition reporter_inv :: "('i, 'v) reporter \<Rightarrow> bool" where
  "reporter_inv r \<longleftrightarrow> (\<forall>i. instance_ok (fsmMap r i) (announced r i))"

lemma status_NewEvent [simp]: "status (NewEvent now st []) = st"
  by (simp add: NewEvent_def)

lemma announced_simps [simp]:
  "announced (r\<lparr>fsmMap := f\<rparr>) i = announced r i"
  "announced (r\<lparr>invalid := e\<rparr>) i = announced r i"
  "announced (r\<lparr>fsmMap := f, notified := notified r @ [(j, ev)]\<rparr>) i =
     announced r i @ (if j = i then [status ev] else [])"
  by (auto simp: announced_def)

lemma reporter_inv_New: "reporter_inv NewReporter"
  by (simp add: reporter_inv_def NewReporter_def announced_def)

lemma instance_ok_new: "instance_ok None ss \<Longrightarrow> instance_ok (Some (newFSM now)) ss"
  by (simp add: newFSM_def)

lemma componentFSM_inv:
  assumes "reporter_inv r" and "componentFSM now r i = (m, r')"
  shows "reporter_inv r' \<and> fsmMap r' i = Some m \<and> (\<forall>j. announced r' j = announced r j)"
proof (cases "fsmMap r i")
  case None
  then have r': "r' = r\<lparr>fsmMap := (fsmMap r)(i \<mapsto> newFSM now)\<rparr>" and m: "m = newFSM now"
    using assms(2) by (auto simp: componentFSM_def Let_def)
  have "instance_ok (Some (newFSM now)) (announced r i)"
    using assms(1) None by (metis instance_ok_new reporter_inv_def)
  then show ?thesis using assms(1) unfolding reporter_inv_def r' m by simp
qed (use assms in \<open>auto simp: componentFSM_def\<close>)

lemma fsm_transition_ok:
  assumes "instance_ok (Some m) ss" and "fsm_transition m ev = Inr m'"
  shows "instance_ok (Some m') (ss @ [status ev])"
  using assms by (auto simp: fsm_transition_def status_path_snoc split: if_splits)

lemma apply_transition_inv:
  assumes "reporter_inv r" and "fsmMap r i = Some m"
  shows "reporter_inv (apply_transition r i m ev)"
proof (cases "fsm_transition m ev")
  case (Inl e)
  then show ?thesis using assms(1) by (simp add: apply_transition_def reporter_inv_def)
next
  case (Inr m')
  have "instance_ok (Some m) (announced r i)" using assms by (metis reporter_inv_def)
  then have "instance_ok (Some m') (announced r i @ [status ev])" using Inr by (rule fsm_transition_ok)
  then show ?thesis
    using assms(1) Inr by (simp add: apply_transition_def reporter_inv_def)
qed

lemma ReportStatus_inv:
  assumes "reporter_inv r" shows "reporter_inv (ReportStatus now r i ev)"
proof (cases "componentFSM now r i")
  case (Pair m r')
  with componentFSM_inv [OF assms Pair] show ?thesis
    by (simp add: ReportStatus_def apply_transition_inv)
qed

lemma ReportOKIfStarting_inv:
  assumes "reporter_inv r" shows "reporter_inv (ReportOKIfStarting now r i)"
proof (cases "componentFSM now r i")
  case (Pair m r')
  with componentFSM_inv [OF assms Pair] show ?thesis
    by (simp add: ReportOKIfStarting_def apply_transition_inv)
qed

lemma report_step_inv: "reporter_inv r \<Longrightarrow> reporter_inv (report_step r c)"
  by (induction r c rule: report_step.induct) (simp_all add: ReportStatus_inv ReportOKIfStarting_inv)

lemma report_run_inv: "reporter_inv r \<Longrightarrow> reporter_inv (report_run r calls)"
  unfolding report_run_def by (induction calls arbitrary: r) (auto simp: report_step_inv)

lemma announced_path:
  "status_path StatusNone (announced (report_run NewReporter calls) i)"
proof -
  let ?r = "report_run NewReporter calls"
  have "instance_ok (fsmMap ?r i) (announced ?r i)"
    using report_run_inv [OF reporter_inv_New, of calls] by (simp add: reporter_inv_def)
  then show ?thesis by (cases "fsmMap ?r i") auto
qed

lemma status_path_append:
  "status_path s (ts @ us) \<longleftrightarrow> status_path s ts \<and> status_path (last (s # ts)) us"
  by (induction ts arbitrary: s) auto

section \<open>Instance identifiers\<close>

record Kind =
  Kind_name :: string

definition pipelineDelim :: char where "pipelineDelim = CHR '' ''"

record InstanceID =
  componentID :: ID
  kind :: Kind
  pipelineIDs :: string

definition addPipelines :: "InstanceID \<Rightarrow> pipeline_ID list \<Rightarrow> InstanceID" where
  "addPipelines i ps =
     (let strIDs = split_on pipelineDelim (pipelineIDs i) @ map pipeline_ID_String ps
      in i\<lparr>pipelineIDs := join pipelineDelim (remdups_adj (sort strIDs)) @ [pipelineDelim]\<rparr>)"

definition NewInstanceID :: "ID \<Rightarrow> Kind \<Rightarrow> pipeline_ID list \<Rightarrow> InstanceID" where
  "NewInstanceID c k ps =
     addPipelines \<lparr>componentID = c, kind = k, pipelineIDs = []\<rparr> ps"

definition WithPipelines :: "InstanceID \<Rightarrow> pipeline_ID list \<Rightarrow> InstanceID" where
  "WithPipelines i ps =
     addPipelines \<lparr>componentID = componentID i, kind = kind i, pipelineIDs = pipelineIDs i\<rparr> ps"

text \<open>
  The loop of \<^verbatim>\<open>AllPipelineIDs\<close>: \<open>bs\<close> holds the bytes since the last delimiter. The callback \<open>f\<close> is
  kept as the list of its arguments; it stops the loop by returning false.
\<close>

definition zero_pipeline_ID :: pipeline_ID where
  "zero_pipeline_ID = \<lparr>signal = \<lparr>Signal_name = []\<rparr>, pname = []\<rparr>"

fun AllPipelineIDs_loop ::
  "(nat \<Rightarrow> bool) \<Rightarrow> (pipeline_ID \<Rightarrow> bool) \<Rightarrow> string \<Rightarrow> string \<Rightarrow> pipeline_ID list" where
  "AllPipelineIDs_loop cs f bs [] = []"
| "AllPipelineIDs_loop cs f bs (b # rest) =
     (if b \<noteq> pipelineDelim then AllPipelineIDs_loop cs f (bs @ [b]) rest
      else case pipeline_ID_UnmarshalText cs zero_pipeline_ID bs of
             (_, Some _) \<Rightarrow> AllPipelineIDs_loop cs f [] rest
           | (p, None) \<Rightarrow> p # (if f p then AllPipelineIDs_loop cs f [] rest else []))"

definition AllPipelineIDs ::
  "(nat \<Rightarrow> bool) \<Rightarrow> InstanceID \<Rightarrow> (pipeline_ID \<Rightarrow> bool) \<Rightarrow> pipeline_ID list" where
  "AllPipelineIDs cs i f = AllPipelineIDs_loop cs f [] (pipelineIDs i)"

section \<open>The encoding of a set of pipelines\<close>

lemma pipeline_ID_String_valid:
  assumes "valid_pipeline_ID cs p"
  shows "pipeline_ID_String p \<noteq> []" and "pipelineDelim \<notin> set (pipeline_ID_String p)"
proof -
  have w: "Signal_name (signal p) \<noteq> [] \<and> (\<forall>c \<in> set (Signal_name (signal p)). is_word_char c)"
    using assms by (intro valid_Signal_word) (simp add: valid_pipeline_ID_def)
  then show "pipeline_ID_String p \<noteq> []" by (simp add: pipeline_ID_String_def Signal_String_def)
  have d: "\<not> is_word_char pipelineDelim" "pipelineDelim \<noteq> typeAndNameSeparator"
    by (simp_all add: pipelineDelim_def typeAndNameSeparator_def id_eval)
  have "pipelineDelim \<notin> set (pname p)"
    using assms valid_name_no_space by (auto simp: valid_pipeline_ID_def pipelineDelim_def)
  then show "pipelineDelim \<notin> set (pipeline_ID_String p)"
    using w d by (auto simp: pipeline_ID_String_def Signal_String_def)
qed

fun parse_until :: "(nat \<Rightarrow> bool) \<Rightarrow> (pipeline_ID \<Rightarrow> bool) \<Rightarrow> string list \<Rightarrow> pipeline_ID list" where
  "parse_until cs f [] = []"
| "parse_until cs f (x # xs) =
     (case pipeline_ID_UnmarshalText cs zero_pipeline_ID x of
        (_, Some _) \<Rightarrow> parse_until cs f xs
      | (p, None) \<Rightarrow> p # (if f p then parse_until cs f xs else []))"

lemma AllPipelineIDs_loop_word:
  "pipelineDelim \<notin> set x \<Longrightarrow>
     AllPipelineIDs_loop cs f bs (x @ rest) = AllPipelineIDs_loop cs f (bs @ x) rest"
  by (induction x arbitrary: bs) auto

lemma AllPipelineIDs_loop_words:
  "\<forall>x \<in> set xs. pipelineDelim \<notin> set x \<Longrightarrow>
     AllPipelineIDs_loop cs f [] (concat (map (\<lambda>x. x @ [pipelineDelim]) xs)) = parse_until cs f xs"
  by (induction xs) (auto simp: AllPipelineIDs_loop_word split: prod.splits option.splits)

lemma join_delim:
  "xs \<noteq> [] \<Longrightarrow> join c xs @ [c] = concat (map (\<lambda>x. x @ [c]) xs)"
  by (induction c xs rule: join.induct) auto

lemma parse_empty [simp]: "pipeline_ID_UnmarshalText cs i [] = (i, Some EmptyID)"
  by (simp add: pipeline_ID_UnmarshalText_def trim_space_def)

lemma parse_until_strings:
  assumes "\<forall>x \<in> set xs. x = [] \<or> (\<exists>p. valid_pipeline_ID cs p \<and> x = pipeline_ID_String p)"
  shows "map pipeline_ID_String (parse_until cs (\<lambda>_. True) xs) = filter (\<lambda>x. x \<noteq> []) xs \<and>
         (\<forall>p \<in> set (parse_until cs (\<lambda>_. True) xs). valid_pipeline_ID cs p)"
  using assms
  by (induction xs) (auto simp: pipeline_ID_UnmarshalText_String pipeline_ID_String_valid)

text \<open>The strings encoded in an instance identifier made from the pipelines \<open>ps\<close>.\<close>

definition pipeline_strings :: "pipeline_ID list \<Rightarrow> string list" where
  "pipeline_strings ps = remdups_adj (sort ([] # map pipeline_ID_String ps))"

lemma set_pipeline_strings: "set (pipeline_strings ps) = insert [] (pipeline_ID_String ` set ps)"
  by (simp add: pipeline_strings_def set_insort_key)

lemma pipeline_strings_nonempty: "pipeline_strings ps \<noteq> []"
  using set_pipeline_strings [of ps] by (metis empty_iff empty_set insertI1)

lemma pipelineIDs_New:
  "NewInstanceID c k ps =
     \<lparr>componentID = c, kind = k, pipelineIDs = join pipelineDelim (pipeline_strings ps) @ [pipelineDelim]\<rparr>"
  by (simp add: NewInstanceID_def addPipelines_def pipeline_strings_def Let_def)

lemma pipeline_strings_delim:
  assumes "\<forall>p \<in> set ps. valid_pipeline_ID cs p"
  shows "\<forall>x \<in> set (pipeline_strings ps). pipelineDelim \<notin> set x"
  using assms pipeline_ID_String_valid(2) by (auto simp: set_pipeline_strings)

lemma AllPipelineIDs_New:
  assumes "\<forall>p \<in> set ps. valid_pipeline_ID cs p"
  shows "AllPipelineIDs cs (NewInstanceID c k ps) f = parse_until cs f (pipeline_strings ps)"
  using pipeline_strings_delim [OF assms] pipeline_strings_nonempty
  by (simp add: AllPipelineIDs_def pipelineIDs_New join_delim AllPipelineIDs_loop_words)

lemma WithPipelines_New:
  assumes "\<forall>p \<in> set ps. valid_pipeline_ID cs p"
  shows "WithPipelines (NewInstanceID c k ps) qs = NewInstanceID c k (ps @ qs)"
proof -
  have "split_on pipelineDelim (join pipelineDelim (pipeline_strings ps) @ [pipelineDelim]) =
          pipeline_strings ps @ [[]]"
    using pipeline_strings_delim [OF assms] pipeline_strings_nonempty
    by (simp add: join_snoc split_on_join)
  moreover have "remdups_adj (sort (pipeline_strings ps @ [[]] @ map pipeline_ID_String qs)) =
                   pipeline_strings (ps @ qs)"
    unfolding pipeline_strings_def
    by (rule remdups_adj_sort_unique) (auto simp: set_insort_key)
  ultimately show ?thesis
    by (simp add: WithPipelines_def addPipelines_def pipelineIDs_New Let_def)
qed

lemma sorted_pipeline_strings: "sorted (pipeline_strings ps)"
  unfolding pipeline_strings_def by (intro sorted_remdups_adj sorted_sort)

lemma distinct_pipeline_strings: "distinct (pipeline_strings ps)"
  unfolding pipeline_strings_def by (intro distinct_remdups_adj_sorted sorted_sort)

text \<open>All pipelines of an instance, in the order they are visited.\<close>

abbreviation instance_pipelines :: "(nat \<Rightarrow> bool) \<Rightarrow> InstanceID \<Rightarrow> pipeline_ID list" where
  "instance_pipelines cs i \<equiv> AllPipelineIDs cs i (\<lambda>_. True)"

lemma instance_pipelines_strings:
  assumes "\<forall>p \<in> set ps. valid_pipeline_ID cs p"
  shows "map pipeline_ID_String (instance_pipelines cs (NewInstanceID c k ps)) =
           filter (\<lambda>x. x \<noteq> []) (pipeline_strings ps)"
    and "\<forall>p \<in> set (instance_pipelines cs (NewInstanceID c k ps)). valid_pipeline_ID cs p"
  using parse_until_strings [of "pipeline_strings ps" cs] assms
  by (auto simp: AllPipelineIDs_New [OF assms] set_pipeline_strings)

lemma set_instance_pipelines:
  assumes ps: "\<forall>p \<in> set ps. valid_pipeline_ID cs p"
  shows "set (instance_pipelines cs (NewInstanceID c k ps)) = set ps" (is "set ?l = _")
proof -
  have "pipeline_ID_String ` set ?l = pipeline_ID_String ` set ps"
    using arg_cong [OF instance_pipelines_strings(1) [OF ps], of set] pipeline_ID_String_valid(1) ps
    by (auto simp: set_pipeline_strings)
  moreover have "inj_on pipeline_ID_String (Collect (valid_pipeline_ID cs))"
    by (rule pipeline_codec.marshal_inj_on)
  ultimately show ?thesis
    using instance_pipelines_strings(2) [OF ps] ps by (subst (asm) inj_on_image_eq_iff) auto
qed

lemma NewInstanceID_eq_iff:
  assumes ps: "\<forall>p \<in> set ps. valid_pipeline_ID cs p" and qs: "\<forall>p \<in> set qs. valid_pipeline_ID cs p"
  shows "NewInstanceID c k ps = NewInstanceID c' k' qs \<longleftrightarrow> c = c' \<and> k = k' \<and> set ps = set qs"
proof
  assume eq: "NewInstanceID c k ps = NewInstanceID c' k' qs"
  then have "set ps = set qs" using set_instance_pipelines [OF ps] set_instance_pipelines [OF qs] by metis
  with eq show "c = c' \<and> k = k' \<and> set ps = set qs" by (simp add: pipelineIDs_New)
next
  assume "c = c' \<and> k = k' \<and> set ps = set qs"
  moreover from this have "pipeline_strings ps = pipeline_strings qs"
    unfolding pipeline_strings_def by (intro remdups_adj_sort_unique) simp
  ultimately show "NewInstanceID c k ps = NewInstanceID c' k' qs" by (simp add: pipelineIDs_New)
qed

section \<open>Properties\<close>

text \<open>
  C25. However reports for different instances are interleaved, the statuses announced for one
  instance form a path of the state machine that starts at \<open>StatusNone\<close>; a status that has no
  successor (a fatal error, or stopped) is the last one announced for its instance.
\<close>

theorem announced_statuses_follow_fsm:
  fixes calls :: "(int \<times> ('i, 'v) report_call) list"
  shows "status_path StatusNone (announced (report_run NewReporter calls) i) \<and>
    (\<forall>pre s post. announced (report_run NewReporter calls) i = pre @ s # post \<longrightarrow>
       s \<in> {StatusFatalError, StatusStopped} \<longrightarrow> post = [])"
proof (intro conjI allI impI)
  show p: "status_path StatusNone (announced (report_run NewReporter calls) i)"
    by (rule announced_path)
  fix pre s post
  assume "announced (report_run NewReporter calls) i = pre @ s # post"
    and s: "s \<in> {StatusFatalError, StatusStopped}"
  with p have "status_path s post" by (simp add: status_path_append)
  with s show "post = []" by (cases post) auto
qed

theorem announced_statuses_follow_fsm_witness:
  "let calls = [(0, CallReportStatus (7 :: nat) (NewEvent 0 StatusStarting [])),
                (1, CallReportOKIfStarting 7), (2, CallReportOKIfStarting 8),
                (3, CallReportStatus 7 (NewFatalErrorEvent 3 ''x'')),
                (4, CallReportStatus 7 (NewEvent 4 StatusStopping [] :: int Event))]
   in announced (report_run NewReporter calls) 7 = [StatusStarting, StatusOK, StatusFatalError] \<and>
      status_path StatusNone (announced (report_run NewReporter calls) 7)"
proof -
  let ?calls = "[(0, CallReportStatus (7 :: nat) (NewEvent 0 StatusStarting [])),
                (1, CallReportOKIfStarting 7), (2, CallReportOKIfStarting 8),
                (3, CallReportStatus 7 (NewFatalErrorEvent 3 ''x'')),
                (4, CallReportStatus 7 (NewEvent 4 StatusStopping [] :: int Event))]"
  have "announced (report_run NewReporter ?calls) 7 = [StatusStarting, StatusOK, StatusFatalError]"
    by (simp add: report_run_def NewReporter_def ReportStatus_def ReportOKIfStarting_def
        componentFSM_def apply_transition_def fsm_transition_def newFSM_def announced_def Let_def
        NewFatalErrorEvent_def WithError_def NewEvent_def)
  then show ?thesis
    using announced_statuses_follow_fsm [of ?calls 7] by (simp add: Let_def)
qed

text \<open>
  Repeated statuses: the state machine accepts a second report of the status it is in exactly
  for \<open>StatusOK\<close> and \<open>StatusRecoverableError\<close>; every report either is announced and becomes the
  current status, or is rejected with the two statuses and changes nothing.
\<close>

theorem fsm_transition_repeats:
  fixes m :: "'v fsm"
  assumes "transitions m = fsm_transitions"
  shows "(status ev = status (current m) \<longrightarrow>
      ((\<exists>m'. fsm_transition m ev = Inr m') \<longleftrightarrow> status ev \<in> {StatusOK, StatusRecoverableError})) \<and>
    (case fsm_transition m ev of
       Inl e \<Rightarrow> e = InvalidStateTransition (status (current m)) (status ev) \<and>
                status ev \<notin> set (fsm_transitions (status (current m)))
     | Inr m' \<Rightarrow> current m' = ev \<and> transitions m' = fsm_transitions \<and>
                status ev \<in> set (fsm_transitions (status (current m))))"
proof -
  have "s \<in> set (fsm_transitions s) \<longleftrightarrow> s \<in> {StatusOK, StatusRecoverableError}" for s
    by (cases s) auto
  then show ?thesis using assms by (auto simp: fsm_transition_def)
qed

theorem fsm_transition_repeats_witness:
  "transitions (newFSM 0 :: int fsm) = fsm_transitions \<and>
   fsm_transition (newFSM 0 :: int fsm) (NewEvent 1 StatusOK []) =
     Inl (InvalidStateTransition StatusNone StatusOK)"
proof -
  have h: "transitions (newFSM 0 :: int fsm) = fsm_transitions" by (simp add: newFSM_def)
  have "status (current (newFSM 0 :: int fsm)) = StatusNone" by (simp add: newFSM_def)
  then show ?thesis
    using fsm_transition_repeats [OF h, of "NewEvent 1 StatusOK []"] h
    by (auto split: sum.splits)
qed

text \<open>
  C29. An instance identifier is a faithful encoding of a set of pipelines: it lists each pipeline
  it was made with exactly once, in the order of their names; two identifiers are equal exactly
  when component, kind and the set of pipelines agree; adding pipelines later gives the
  identifier of all of them.
\<close>

theorem instance_id_encodes_pipeline_set:
  assumes ps: "\<forall>p \<in> set ps. valid_pipeline_ID cs p"
    and qs: "\<forall>p \<in> set qs. valid_pipeline_ID cs p"
  shows "set (AllPipelineIDs cs (NewInstanceID c k ps) (\<lambda>_. True)) = set ps \<and>
    sorted (map pipeline_ID_String (AllPipelineIDs cs (NewInstanceID c k ps) (\<lambda>_. True))) \<and>
    distinct (AllPipelineIDs cs (NewInstanceID c k ps) (\<lambda>_. True)) \<and>
    (NewInstanceID c k ps = NewInstanceID c' k' qs \<longleftrightarrow> c = c' \<and> k = k' \<and> set ps = set qs) \<and>
    WithPipelines (NewInstanceID c k ps) qs = NewInstanceID c k (ps @ qs)"
proof (intro conjI)
  show "sorted (map pipeline_ID_String (instance_pipelines cs (NewInstanceID c k ps)))"
    by (simp add: instance_pipelines_strings [OF ps] sorted_wrt_filter sorted_pipeline_strings)
  have "distinct (map pipeline_ID_String (instance_pipelines cs (NewInstanceID c k ps)))"
    by (simp add: instance_pipelines_strings [OF ps] distinct_pipeline_strings)
  then show "distinct (instance_pipelines cs (NewInstanceID c k ps))"
    by (simp add: distinct_map)
qed (fact set_instance_pipelines [OF ps] NewInstanceID_eq_iff [OF ps qs] WithPipelines_New [OF ps])+

theorem instance_id_encodes_pipeline_set_witness:
  "let ps = [pipeline_NewID SignalTraces, pipeline_NewIDWithName SignalLogs ''a''];
       c = NewID \<lparr>Type_name = ''otlp''\<rparr>; k = \<lparr>Kind_name = ''Receiver''\<rparr>
   in (\<forall>p \<in> set ps. valid_pipeline_ID (\<lambda>_. False) p) \<and>
      set (AllPipelineIDs (\<lambda>_. False) (NewInstanceID c k ps) (\<lambda>_. True)) = set ps \<and>
      NewInstanceID c k ps = NewInstanceID c k (rev ps)"
proof -
  let ?ps = "[pipeline_NewID SignalTraces, pipeline_NewIDWithName SignalLogs ''a'']"
  have h: "\<forall>p \<in> set ?ps. valid_pipeline_ID (\<lambda>_. False) p"
    by (simp add: id_eval pipeline_NewID_def pipeline_NewIDWithName_def valid_Signal_def)
  then have h': "\<forall>p \<in> set (rev ?ps). valid_pipeline_ID (\<lambda>_. False) p" by simp
  show ?thesis
    using h instance_id_encodes_pipeline_set [OF h h'] by (auto simp: Let_def)
qed

end
