(* ===== verification/Featuregate.thy ===== *)
theory Featuregate
  imports Identifiers
begin

text \<open>
  Feature gates: \<^verbatim>\<open>featuregate/stage.go\<close>, \<^verbatim>\<open>gate.go\<close>, \<^verbatim>\<open>registry.go\<close> and \<^verbatim>\<open>flag.go\<close>.

  The registry's \<^verbatim>\<open>sync.Map\<close> is an association list without duplicate keys; the order of the list
  stands for the unspecified order of \<^verbatim>\<open>Range\<close>. A version is a value of the parameter type \<open>'v\<close>:
  parsing and comparing versions (\<^verbatim>\<open>hashicorp/go-version\<close>) and the validity of a URL are arguments,
  collected in the record \<open>version_lib\<close>.
  A panic of a \<^verbatim>\<open>Must\<close> function is \<open>None\<close>. Errors combined by \<^verbatim>\<open>multierr\<close> are a list.
\<close>

section \<open>Stages, gates, errors\<close>

text \<open>\<^verbatim>\<open>Stage\<close> is an \<^verbatim>\<open>int8\<close>: \<open>OtherStage\<close> is a value outside the enumeration.\<close>

datatype Stage = StageAlpha | StageBeta | StageStable | StageDeprecated | OtherStage int

fun Stage_String :: "Stage \<Rightarrow> string" where
  "Stage_String StageAlpha = ''Alpha''"
| "Stage_String StageBeta = ''Beta''"
| "Stage_String StageStable = ''Stable''"
| "Stage_String StageDeprecated = ''Deprecated''"
| "Stage_String (OtherStage _) = ''Unknown''"

record 'v Gate =
  gate_id :: string
  description :: string
  referenceURL :: string
  fromVersion :: "'v option"
  toVersion :: "'v option"
  stage :: Stage
  enabled :: bool

datatype gate_error =
    EmptyGateID | InvalidGateIDChars
  | InvalidGateID string gate_error
  | InvalidReferenceURL string | InvalidFromVersion string | InvalidToVersion string
  | OptionFailed gate_error
  | UnknownStage Stage string
  | NoRemovalVersion Stage string
  | ToBeforeFrom
  | AlreadyRegistered string
  | NoSuchGate string "string list"
  | StableCannotBeDisabled string
  | DeprecatedCannotBeEnabled string
  | EmptyIdentifierAt nat

section \<open>Registration\<close>

type_synonym 'v Registry = "(string \<times> 'v Gate) list"

definition NewRegistry :: "'v Registry" where
  "NewRegistry = []"

text \<open>
  \<^verbatim>\<open>RegisterOption\<close> has an unexported method, so the four options of the package are all there are;
  \<open>ext\<close> below carries the two external functions they call.
\<close>

datatype RegisterOption =
    Description string | ReferenceURL string | FromVersion string | ToVersion string

type_synonym 'v registerOptionFunc = "'v Gate \<Rightarrow> (gate_error, 'v Gate) result"

definition WithRegisterDescription :: "string \<Rightarrow> 'v registerOptionFunc" where
  "WithRegisterDescription d = (\<lambda>g. Ok (g\<lparr>description := d\<rparr>))"

definition WithRegisterReferenceURL :: "(string \<Rightarrow> bool) \<Rightarrow> string \<Rightarrow> 'v registerOptionFunc" where
  "WithRegisterReferenceURL url_ok u =
     (\<lambda>g. if \<not> url_ok u then Err (InvalidReferenceURL u) else Ok (g\<lparr>referenceURL := u\<rparr>))"

definition WithRegisterFromVersion :: "(string \<Rightarrow> 'v option) \<Rightarrow> string \<Rightarrow> 'v registerOptionFunc" where
  "WithRegisterFromVersion newVersion s =
     (\<lambda>g. case newVersion s of None \<Rightarrow> Err (InvalidFromVersion s)
          | Some v \<Rightarrow> Ok (g\<lparr>fromVersion := Some v\<rparr>))"

definition WithRegisterToVersion :: "(string \<Rightarrow> 'v option) \<Rightarrow> string \<Rightarrow> 'v registerOptionFunc" where
  "WithRegisterToVersion newVersion s =
     (\<lambda>g. case newVersion s of None \<Rightarrow> Err (InvalidToVersion s)
          | Some v \<Rightarrow> Ok (g\<lparr>toVersion := Some v\<rparr>))"

record 'v version_lib =
  url_ok :: "string \<Rightarrow> bool"
  newVersion :: "string \<Rightarrow> 'v option"
  vless :: "'v \<Rightarrow> 'v \<Rightarrow> bool"

fun option_apply :: "'v version_lib \<Rightarrow> RegisterOption \<Rightarrow> 'v registerOptionFunc" where
  "option_apply ext (Description d) = WithRegisterDescription d"
| "option_apply ext (ReferenceURL u) = WithRegisterReferenceURL (url_ok ext) u"
| "option_apply ext (FromVersion v) = WithRegisterFromVersion (newVersion ext) v"
| "option_apply ext (ToVersion v) = WithRegisterToVersion (newVersion ext) v"

definition gate_segment :: "string \<Rightarrow> bool" where
  "gate_segment s \<longleftrightarrow> s \<noteq> [] \<and> list_all is_word_char s"

text \<open>\<^verbatim>\<open>^[0-9a-zA-Z_]+(\.[0-9a-zA-Z_]+)*$\<close>: word segments separated by single dots.\<close>

definition idRegexp_MatchString :: "string \<Rightarrow> bool" where
  "idRegexp_MatchString s \<longleftrightarrow> list_all gate_segment (split_on CHR ''.'' s)"

definition validateID :: "string \<Rightarrow> gate_error option" where
  "validateID i =
     (if i = [] then Some EmptyGateID
      else if \<not> idRegexp_MatchString i then Some InvalidGateIDChars
      else None)"

fun apply_options ::
  "'v version_lib \<Rightarrow> RegisterOption list \<Rightarrow> 'v Gate \<Rightarrow> (gate_error, 'v Gate) result" where
  "apply_options ext [] g = Ok g"
| "apply_options ext (opt # opts) g =
     (case option_apply ext opt g of
        Inl e \<Rightarrow> Err (OptionFailed e) | Inr g' \<Rightarrow> apply_options ext opts g')"

definition Register ::
  "'v version_lib \<Rightarrow> 'v Registry \<Rightarrow> string \<Rightarrow> Stage \<Rightarrow> RegisterOption list \<Rightarrow>
     'v Registry \<times> (gate_error, 'v Gate) result" where
  "Register ext r i st opts =
     (case validateID i of
        Some e \<Rightarrow> (r, Err (InvalidGateID i e))
      | None \<Rightarrow>
          (case apply_options ext opts
                  \<lparr>gate_id = i, description = [], referenceURL = [], fromVersion = None,
                   toVersion = None, stage = st, enabled = False\<rparr> of
             Inl e \<Rightarrow> (r, Err e)
           | Inr g0 \<Rightarrow>
               (case stage g0 of
                  OtherStage _ \<Rightarrow> (r, Err (UnknownStage st i))
                | s \<Rightarrow>
                    let g = g0\<lparr>enabled := s \<in> {StageBeta, StageStable}\<rparr> in
                    if (s = StageStable \<or> s = StageDeprecated) \<and> toVersion g = None
                    then (r, Err (NoRemovalVersion s i))
                    else if (case (fromVersion g, toVersion g) of
                               (Some from, Some to) \<Rightarrow> vless ext to from | _ \<Rightarrow> False)
                    then (r, Err ToBeforeFrom)
                    else if map_of r i \<noteq> None then (r, Err (AlreadyRegistered i))
                    else (r @ [(i, g)], Ok g))))"

definition MustRegister ::
  "'v version_lib \<Rightarrow> 'v Registry \<Rightarrow> string \<Rightarrow> Stage \<Rightarrow> RegisterOption list \<Rightarrow>
     ('v Registry \<times> 'v Gate) option" where
  "MustRegister ext r i st opts =
     (case Register ext r i st opts of (_, Inl _) \<Rightarrow> None | (r', Inr g) \<Rightarrow> Some (r', g))"

section \<open>Visiting and setting\<close>

text \<open>The gates in the order in which \<^verbatim>\<open>VisitAll\<close> calls its argument.\<close>

definition VisitAll :: "'v Registry \<Rightarrow> 'v Gate list" where
  "VisitAll r = sort_key gate_id (map snd r)"

definition set_enabled :: "string \<Rightarrow> bool \<Rightarrow> 'v Registry \<Rightarrow> 'v Registry" where
  "set_enabled i b r = map (\<lambda>(k, g). (k, if k = i then g\<lparr>enabled := b\<rparr> else g)) r"

definition Registry_Set :: "'v Registry \<Rightarrow> string \<Rightarrow> bool \<Rightarrow> 'v Registry \<times> gate_error option" where
  "Registry_Set r i b =
     (case map_of r i of
        None \<Rightarrow> (r, Some (NoSuchGate i (map gate_id (VisitAll r))))
      | Some g \<Rightarrow>
          if stage g = StageStable then (r, if \<not> b then Some (StableCannotBeDisabled i) else None)
          else if stage g = StageDeprecated
          then (r, if b then Some (DeprecatedCannotBeEnabled i) else None)
          else (set_enabled i b r, None))"

section \<open>The command-line flag\<close>

definition flag_id :: "'v Gate \<Rightarrow> string" where
  "flag_id g = (if \<not> enabled g then CHR ''-'' # gate_id g else gate_id g)"

text \<open>The receiver's registry is \<open>None\<close> for the zero value that the flag package creates.\<close>

definition flagValue_String :: "'v Registry option \<Rightarrow> string" where
  "flagValue_String reg =
     (case reg of None \<Rightarrow> [] | Some r \<Rightarrow> join CHR '','' (map flag_id (VisitAll r)))"

definition parse_flag_id :: "string \<Rightarrow> string \<times> bool" where
  "parse_flag_id s =
     (if hd s = CHR ''-'' then (tl s, False)
      else if hd s = CHR ''+'' then (tl s, True)
      else (s, True))"

fun flagValue_Set_loop ::
  "'v Registry \<Rightarrow> nat \<Rightarrow> string list \<Rightarrow> 'v Registry \<times> gate_error list" where
  "flagValue_Set_loop r n [] = (r, [])"
| "flagValue_Set_loop r n (s # ss) =
     (if s = [] then
        (case flagValue_Set_loop r (Suc n) ss of (r', es) \<Rightarrow> (r', EmptyIdentifierAt n # es))
      else
        case parse_flag_id s of (i, val) \<Rightarrow>
        case Registry_Set r i val of (r1, e) \<Rightarrow>
        case flagValue_Set_loop r1 (Suc n) ss of (r', es) \<Rightarrow>
          (r', (case e of None \<Rightarrow> es | Some err \<Rightarrow> err # es)))"

definition flagValue_Set :: "'v Registry \<Rightarrow> string \<Rightarrow> 'v Registry \<times> gate_error list" where
  "flagValue_Set r s = (if s = [] then (r, []) else flagValue_Set_loop r 0 (split_on CHR '','' s))"

section \<open>Invariant\<close>

definition gate_ok :: "'v version_lib \<Rightarrow> 'v Gate \<Rightarrow> bool" where
  "gate_ok ext g \<longleftrightarrow>
     validateID (gate_id g) = None \<and>
     (case stage g of
        StageStable \<Rightarrow> enabled g \<and> toVersion g \<noteq> None
      | StageDeprecated \<Rightarrow> \<not> enabled g \<and> toVersion g \<noteq> None
      | OtherStage _ \<Rightarrow> False
      | _ \<Rightarrow> True) \<and>
     (\<forall>from to. fromVersion g = Some from \<longrightarrow> toVersion g = Some to \<longrightarrow> \<not> vless ext to from)"

definition registry_inv :: "'v version_lib \<Rightarrow> 'v Registry \<Rightarrow> bool" where
  "registry_inv ext r \<longleftrightarrow>
     distinct (map fst r) \<and> (\<forall>(i, g) \<in> set r. gate_id g = i \<and> gate_ok ext g)"

definition same_gates :: "'v Registry \<Rightarrow> 'v Registry \<Rightarrow> bool" where
  "same_gates r R \<longleftrightarrow>
     list_all2 (\<lambda>(i, g) (j, h). j = i \<and> h\<lparr>enabled := enabled g\<rparr> = g) r R"

text \<open>The value that the last entry naming gate \<open>i\<close> asks for, \<open>b\<close> if no entry names it.\<close>

definition last_setting :: "string list \<Rightarrow> string \<Rightarrow> bool \<Rightarrow> bool" where
  "last_setting ss i b =
     fold (\<lambda>s acc. if s \<noteq> [] \<and> fst (parse_flag_id s) = i then snd (parse_flag_id s) else acc) ss b"

datatype registry_call =
    CallRegister string Stage "RegisterOption list" | CallSet string bool | CallFlag string

fun run_registry_call :: "'v version_lib \<Rightarrow> registry_call \<Rightarrow> 'v Registry \<Rightarrow> 'v Registry" where
  "run_registry_call ext (CallRegister i st opts) r = fst (Register ext r i st opts)"
| "run_registry_call ext (CallSet i b) r = fst (Registry_Set r i b)"
| "run_registry_call ext (CallFlag s) r = fst (flagValue_Set r s)"

definition registry_run :: "'v version_lib \<Rightarrow> registry_call list \<Rightarrow> 'v Registry" where
  "registry_run ext cs = fold (run_registry_call ext) cs NewRegistry"

section \<open>Lemmas\<close>

lemma set_split_on: "set s \<subseteq> insert c (\<Union>x \<in> set (split_on c s). set x)"
proof (induction s)
  case (Cons a s)
  then show ?case by (cases "split_on c s") auto
qed simp

lemma gate_id_chars:
  assumes "validateID i = None"
  shows "i \<noteq> []" "CHR '','' \<notin> set i" "hd i \<noteq> CHR ''-''" "hd i \<noteq> CHR ''+''"
proof -
  have ne: "i \<noteq> []" and ok: "idRegexp_MatchString i"
    using assms by (auto simp: validateID_def split: if_splits)
  have "is_word_char c \<or> c = CHR ''.''" if "c \<in> set i" for c
    using ok that set_split_on [of i "CHR ''.''"]
    by (fastforce simp: idRegexp_MatchString_def gate_segment_def list_all_iff)
  moreover have "hd i \<in> set i" using ne by simp
  moreover have "\<not> is_word_char (CHR '','')" "\<not> is_word_char (CHR ''-'')" "\<not> is_word_char (CHR ''+'')"
    by code_simp+
  ultimately show "i \<noteq> []" "CHR '','' \<notin> set i" "hd i \<noteq> CHR ''-''" "hd i \<noteq> CHR ''+''"
    using ne by (blast, fastforce, force, force)
qed

lemma option_apply_keeps:
  "option_apply ext opt g = Inr g' \<Longrightarrow> gate_id g' = gate_id g \<and> stage g' = stage g"
  by (cases opt)
    (auto simp: WithRegisterDescription_def WithRegisterReferenceURL_def
      WithRegisterFromVersion_def WithRegisterToVersion_def split: if_splits option.splits)

lemma apply_options_keeps:
  "apply_options ext opts g = Inr g' \<Longrightarrow> gate_id g' = gate_id g \<and> stage g' = stage g"
  by (induction opts arbitrary: g) (auto dest: option_apply_keeps split: sum.splits)

lemma map_fst_set_enabled [simp]: "map fst (set_enabled i b r) = map fst r"
  by (auto simp: set_enabled_def)

lemma in_set_enabled:
  "(k, g) \<in> set (set_enabled i b r) \<longleftrightarrow>
     (\<exists>h. (k, h) \<in> set r \<and> g = (if k = i then h\<lparr>enabled := b\<rparr> else h))"
  unfolding set_enabled_def by (induction r) (auto simp del: if_split)

lemma Register_cases:
  obtains (err) e where "Register ext r i st opts = (r, Err e)"
  | (ok) g where "Register ext r i st opts = (r @ [(i, g)], Ok g)" "map_of r i = None"
      "gate_id g = i" "gate_ok ext g" "stage g = st" "enabled g \<longleftrightarrow> st \<in> {StageBeta, StageStable}"
proof (cases "Register ext r i st opts")
  case (Pair r' res)
  show thesis
  proof (cases res)
    case (Inl e)
    then show thesis
      using Pair by (auto simp: Register_def Let_def intro!: err
          split: option.splits sum.splits Stage.splits if_splits)
  next
    case (Inr g)
    then show thesis
      using Pair by (intro ok [of g])
        (auto simp: Register_def Let_def gate_ok_def dest!: apply_options_keeps
          split: option.splits sum.splits Stage.splits if_splits)
  qed
qed

lemma registry_inv_Register:
  assumes "registry_inv ext r"
  shows "registry_inv ext (fst (Register ext r i st opts))"
  by (cases rule: Register_cases [of ext r i st opts])
    (use assms in \<open>auto simp: registry_inv_def map_of_eq_None_iff\<close>)

lemma gate_ok_enabled:
  "gate_ok ext g \<Longrightarrow> stage g \<noteq> StageStable \<Longrightarrow> stage g \<noteq> StageDeprecated \<Longrightarrow>
     gate_ok ext (g\<lparr>enabled := b\<rparr>)"
  by (auto simp: gate_ok_def split: Stage.splits)

lemma registry_inv_set_enabled:
  assumes inv: "registry_inv ext r" and h: "map_of r i = Some h"
    and st: "stage h \<noteq> StageStable" "stage h \<noteq> StageDeprecated"
  shows "registry_inv ext (set_enabled i b r)"
proof -
  have "gate_id g = k \<and> gate_ok ext g" if g: "(k, g) \<in> set (set_enabled i b r)" for k g
  proof -
    obtain h' where h': "(k, h') \<in> set r" "g = (if k = i then h'\<lparr>enabled := b\<rparr> else h')"
      using g by (auto simp: in_set_enabled)
    moreover have "h' = h" if "k = i"
      using inv h'(1) h that by (auto simp: registry_inv_def dest: map_of_is_SomeI)
    ultimately show ?thesis
      using inv st by (auto simp: registry_inv_def gate_ok_enabled)
  qed
  moreover have "distinct (map fst (set_enabled i b r))"
    using inv by (simp add: registry_inv_def)
  ultimately show ?thesis
    unfolding registry_inv_def by blast
qed

lemma registry_inv_Set:
  assumes "registry_inv ext r"
  shows "registry_inv ext (fst (Registry_Set r i b))"
  using assms registry_inv_set_enabled [OF assms]
  by (simp add: Registry_Set_def split: option.split)

lemma registry_inv_flag_loop:
  "registry_inv ext r \<Longrightarrow> registry_inv ext (fst (flagValue_Set_loop r n ss))"
proof (induction r n ss rule: flagValue_Set_loop.induct)
  case (2 r n s ss)
  then show ?case
    using registry_inv_Set [of ext r]
    by (auto split: prod.splits) (metis fst_conv)+
qed simp

lemma registry_inv_flag: "registry_inv ext r \<Longrightarrow> registry_inv ext (fst (flagValue_Set r s))"
  by (simp add: flagValue_Set_def registry_inv_flag_loop)

lemma registry_inv_run_from:
  "registry_inv ext r \<Longrightarrow> registry_inv ext (fold (run_registry_call ext) cs r)"
proof (induction cs arbitrary: r)
  case (Cons c cs)
  then show ?case
    by (cases c) (simp_all add: registry_inv_Register registry_inv_Set registry_inv_flag)
qed simp

subsection \<open>What a list of settings does\<close>

lemma map_of_set_enabled:
  "map_of (set_enabled i b r) k =
     (if k = i then map_option (\<lambda>g. g\<lparr>enabled := b\<rparr>) (map_of r k) else map_of r k)"
  unfolding set_enabled_def by (induction r) auto

lemma Registry_Set_other: "k \<noteq> i \<Longrightarrow> map_of (fst (Registry_Set r i b)) k = map_of r k"
  by (simp add: Registry_Set_def map_of_set_enabled split: option.split)

lemma Registry_Set_same:
  assumes "map_of r i = Some g"
  shows "map_of (fst (Registry_Set r i b)) i =
     Some (if stage g \<in> {StageStable, StageDeprecated} then g else g\<lparr>enabled := b\<rparr>)"
  using assms by (simp add: Registry_Set_def map_of_set_enabled)

lemma last_setting_Cons:
  "last_setting (s # ss) i b =
     last_setting ss i (if s \<noteq> [] \<and> fst (parse_flag_id s) = i then snd (parse_flag_id s) else b)"
  by (simp add: last_setting_def)

lemma flag_loop_setting:
  assumes "map_of r i = Some g"
  shows "map_of (fst (flagValue_Set_loop r n ss)) i =
     Some (if stage g \<in> {StageStable, StageDeprecated} then g
           else g\<lparr>enabled := last_setting ss i (enabled g)\<rparr>)"
  using assms
proof (induction ss arbitrary: r n g)
  case Nil
  then show ?case by (simp add: last_setting_def)
next
  case (Cons s ss)
  show ?case
  proof (cases "s = []")
    case True
    then show ?thesis
      using Cons by (simp add: last_setting_Cons split_beta)
  next
    case False
    obtain k b where kb: "parse_flag_id s = (k, b)" by force
    define r1 where "r1 = fst (Registry_Set r k b)"
    define g1 where "g1 = (if k = i \<and> stage g \<notin> {StageStable, StageDeprecated}
                           then g\<lparr>enabled := b\<rparr> else g)"
    have "map_of r1 i = Some g1"
      using Cons.prems Registry_Set_same [of r i g b] Registry_Set_other [of i k r b]
      by (cases "k = i") (auto simp: r1_def g1_def)
    note IH = Cons.IH [OF this, of "Suc n"]
    have "fst (flagValue_Set_loop r n (s # ss)) = fst (flagValue_Set_loop r1 (Suc n) ss)"
      using False kb by (simp add: r1_def split_beta)
    then show ?thesis
      using IH False kb by (simp add: g1_def last_setting_Cons)
  qed
qed

subsection \<open>Printing a registry and applying the result\<close>

text \<open>\<open>R\<close> has the gates of \<open>r\<close>, and those named in \<open>S\<close> are set as in \<open>r\<close>.\<close>

definition agree :: "string set \<Rightarrow> 'v Registry \<Rightarrow> 'v Registry \<Rightarrow> bool" where
  "agree S r R \<longleftrightarrow>
     list_all2 (\<lambda>(i, g) (j, h). j = i \<and> h\<lparr>enabled := enabled g\<rparr> = g \<and> (i \<in> S \<longrightarrow> h = g)) r R"

lemma agree_all: "agree S r R \<Longrightarrow> fst ` set r \<subseteq> S \<Longrightarrow> R = r"
  unfolding agree_def by (induction r R rule: list_all2_induct) auto

lemma same_gates_agree: "same_gates r R \<longleftrightarrow> agree {} r R"
  by (simp add: same_gates_def agree_def)

lemma agree_set_enabled:
  assumes "agree S r R" "distinct (map fst r)" "(i, g) \<in> set r"
  shows "agree (insert i S) r (set_enabled i (enabled g) R)"
proof -
  have "h = g" if "(i, h) \<in> set r" for h
    using assms(2,3) that by (metis map_of_is_SomeI option.inject)
  then show ?thesis
    using assms(1) unfolding agree_def set_enabled_def list_all2_map2
    by (elim list.rel_mono_strong) (auto split: prod.splits)
qed

lemma agree_Registry_Set:
  assumes agr: "agree S r R" and r: "registry_inv ext r" and R: "registry_inv ext R"
    and g: "(i, g) \<in> set r"
  shows "\<exists>R'. Registry_Set R i (enabled g) = (R', None) \<and> agree (insert i S) r R'"
proof -
  obtain h where h: "(i, h) \<in> set R" "h\<lparr>enabled := enabled g\<rparr> = g"
    using agr g unfolding agree_def by (fastforce simp: list_all2_conv_all_nth in_set_conv_nth)
  have st: "stage h = stage g" using h(2) by (metis Gate.select_convs(6) Gate.surjective Gate.update_convs(7))
  have lookup: "map_of R i = Some h"
    using R h(1) by (auto simp: registry_inv_def)
  have ok: "gate_ok ext g" "gate_ok ext h"
    using r R g h(1) by (auto simp: registry_inv_def)
  have set: "agree (insert i S) r (set_enabled i (enabled g) R)"
    using agr r g by (auto simp: registry_inv_def intro: agree_set_enabled)
  have noop: "set_enabled i (enabled g) R = R" if "enabled h = enabled g"
  proof -
    have "(k, if k = i then h'\<lparr>enabled := enabled g\<rparr> else h') = (k, h')" if "(k, h') \<in> set R" for k h'
    proof (cases "k = i")
      case True
      then have "h' = h" using R h(1) that by (meson eq_key_imp_eq_value registry_inv_def)
      then show ?thesis using \<open>enabled h = enabled g\<close> by simp
    qed simp
    then show ?thesis by (auto simp: set_enabled_def intro!: map_idI)
  qed
  show ?thesis
    using set noop lookup st ok by (cases "stage g") (auto simp: Registry_Set_def gate_ok_def)
qed

lemma parse_flag_id_flag_id:
  assumes "validateID (gate_id g) = None"
  shows "flag_id g \<noteq> []" "CHR '','' \<notin> set (flag_id g)"
    "parse_flag_id (flag_id g) = (gate_id g, enabled g)"
  using gate_id_chars [OF assms] by (auto simp: flag_id_def parse_flag_id_def)

lemma flag_loop_agree:
  assumes "agree S r R" "registry_inv ext r" "registry_inv ext R" "\<forall>g \<in> set gs. (gate_id g, g) \<in> set r"
  shows "\<exists>R'. flagValue_Set_loop R n (map flag_id gs) = (R', []) \<and> agree (S \<union> gate_id ` set gs) r R'"
  using assms
proof (induction gs arbitrary: S R n)
  case (Cons g gs)
  then have g: "(gate_id g, g) \<in> set r" by simp
  then have "validateID (gate_id g) = None"
    using Cons.prems(2) by (auto simp: registry_inv_def gate_ok_def)
  note parse = parse_flag_id_flag_id [OF this]
  obtain R1 where R1: "Registry_Set R (gate_id g) (enabled g) = (R1, None)"
    "agree (insert (gate_id g) S) r R1"
    using agree_Registry_Set [OF Cons.prems(1-3) g] by blast
  have "registry_inv ext R1"
    using registry_inv_Set [OF Cons.prems(3), of "gate_id g" "enabled g"] R1(1) by simp
  then show ?case
    using Cons.IH [OF R1(2) Cons.prems(2), of "Suc n"] Cons.prems(4) R1(1) parse by auto
qed simp

lemma set_VisitAll: "set (VisitAll r) = snd ` set r"
  by (simp add: VisitAll_def)

lemma registry_inv_VisitAll:
  "registry_inv ext r \<Longrightarrow> g \<in> set (VisitAll r) \<Longrightarrow> (gate_id g, g) \<in> set r \<and> validateID (gate_id g) = None"
  by (auto simp: set_VisitAll registry_inv_def gate_ok_def)

section \<open>Properties\<close>

text \<open>
  C31. Whatever sequence of \<^verbatim>\<open>Register\<close>, \<^verbatim>\<open>Set\<close> and flag settings is applied to a new registry, errors
  included, the identifiers of its gates are valid and pairwise different; a stable gate is enabled, a
  deprecated gate is disabled, both have a removal version; no gate has an unknown stage; and no gate
  is removed before the version that introduced it.
\<close>

theorem registry_invariant: "registry_inv ext (registry_run ext cs)"
  unfolding registry_run_def
  by (rule registry_inv_run_from) (simp add: registry_inv_def NewRegistry_def)

text \<open>
  C32. Printing the flag value of a registry and setting the flag to the printed text restores the
  registry: applied to any registry with the same gates, whatever their current settings, the text is
  accepted without error and leaves exactly the printed registry.
\<close>

theorem flag_value_roundtrip:
  assumes r: "registry_inv ext r" and R: "registry_inv ext R" and same: "same_gates r R"
  shows "flagValue_Set R (flagValue_String (Some r)) = (r, [])"
proof (cases "r = []")
  case True
  then show ?thesis
    using same by (simp add: flagValue_Set_def flagValue_String_def VisitAll_def same_gates_def)
next
  case False
  let ?ids = "map flag_id (VisitAll r)"
  have ids: "\<forall>s \<in> set ?ids. s \<noteq> [] \<and> CHR '','' \<notin> set s"
    using registry_inv_VisitAll [OF r] parse_flag_id_flag_id by auto
  have ne: "?ids \<noteq> []"
    using False by (metis Nil_is_map_conv VisitAll_def length_0_conv length_map length_sort)
  then have split: "split_on CHR '','' (join CHR '','' ?ids) = ?ids"
    using ids by (intro split_on_join) auto
  moreover have "join CHR '','' ?ids \<noteq> []"
    using ids ne split by (metis list.set_intros(1) split_on.simps(1))
  moreover obtain R' where "flagValue_Set_loop R 0 ?ids = (R', [])"
    "agree (gate_id ` set (VisitAll r)) r R'"
    using flag_loop_agree [of "{}" r R ext "VisitAll r" 0] registry_inv_VisitAll [OF r] r R same
    by (auto simp: same_gates_agree)
  moreover have "fst ` set r \<subseteq> gate_id ` set (VisitAll r)"
    using r by (force simp: set_VisitAll registry_inv_def)
  ultimately show ?thesis
    by (auto simp: flagValue_Set_def flagValue_String_def dest: agree_all)
qed

definition sample_lib :: "nat version_lib" where
  "sample_lib = \<lparr>url_ok = (\<lambda>_. True), newVersion = (\<lambda>s. Some (length s)), vless = (<)\<rparr>"

definition sample_registry :: "nat Registry" where
  "sample_registry = registry_run sample_lib
     [CallRegister ''b.x'' StageAlpha [], CallRegister ''a'' StageBeta [],
      CallRegister ''s'' StageStable [ToVersion ''v1''], CallRegister ''a'' StageAlpha []]"

theorem flag_value_roundtrip_witness:
  "flagValue_String (Some sample_registry) = ''a,-b.x,s''
   \<and> flagValue_Set (set_enabled ''b.x'' True sample_registry) ''a,-b.x,s'' = (sample_registry, [])"
proof -
  have inv: "registry_inv sample_lib sample_registry"
    unfolding sample_registry_def registry_run_def
    by (rule registry_inv_run_from) (simp add: registry_inv_def NewRegistry_def)
  have at: "same_gates sample_registry (set_enabled ''b.x'' True sample_registry)"
    "flagValue_String (Some sample_registry) = ''a,-b.x,s''"
    "map_option stage (map_of sample_registry ''b.x'') = Some StageAlpha"
    by code_simp+
  then have "registry_inv sample_lib (set_enabled ''b.x'' True sample_registry)"
    by (auto intro!: registry_inv_set_enabled [OF inv])
  then show ?thesis
    using flag_value_roundtrip [OF inv _ at(1)] at(2) by simp
qed

text \<open>
  Setting the flag to a comma-separated list changes a gate only as the last entry that names it
  says, and never a stable or a deprecated gate; entries for other gates and entries that are
  rejected have no influence on it.
\<close>

theorem flag_last_setting_wins:
  assumes "map_of r i = Some g" and "s \<noteq> []"
  shows "map_of (fst (flagValue_Set r s)) i =
     Some (if stage g \<in> {StageStable, StageDeprecated} then g
           else g\<lparr>enabled := last_setting (split_on CHR '','' s) i (enabled g)\<rparr>)"
  using assms flag_loop_setting [OF assms(1)] by (simp add: flagValue_Set_def)

theorem flag_last_setting_wins_witness:
  "map_option enabled (map_of (fst (flagValue_Set sample_registry ''b.x,nope,,-b.x,+b.x'')) ''b.x'') = Some True"
proof -
  define g :: "nat Gate" where "g = the (map_of sample_registry ''b.x'')"
  have "map_of sample_registry ''b.x'' = Some g" "stage g = StageAlpha"
    "last_setting (split_on CHR '','' ''b.x,nope,,-b.x,+b.x'') ''b.x'' (enabled g) = True"
    unfolding g_def by code_simp+
  then show ?thesis
    using flag_last_setting_wins [of sample_registry "''b.x''" g "''b.x,nope,,-b.x,+b.x''"] by simp
qed

end
