(* ===== verification/Wire.thy ===== *)
theory Wire
  imports Prelude
begin

unbundle bit_operations_syntax

text \<open>
  The wire primitives of \<^verbatim>\<open>pdata/internal/proto\<close> (\<^verbatim>\<open>size.go\<close>, \<^verbatim>\<open>marshal.go\<close>, \<^verbatim>\<open>unmarshal.go\<close>): the
  variable-length integers of protocol buffers, written backwards into a buffer and read
  forwards, and the routine that skips an unknown field.

  A buffer is a list of bytes. Positions are Go \<^verbatim>\<open>int\<close>s; where the code adds an attacker-controlled
  length to a position the sum wraps (\<open>wrap64\<close>). An index out of range is the error \<open>IndexPanic\<close>.
\<close>

type_synonym byte = "8 word"
type_synonym u64 = "64 word"

datatype proto_error =
    ErrInvalidLength | ErrIntOverflow | ErrUnexpectedEndOfGroup | ErrUnexpectedEOF
  | IllegalWireType int | IllegalField int | IndexPanic | ErrRecursionDepth
  | WrongWireType int string | InvalidFieldLen int string | ErrUnmarshalID string

section \<open>Sizes\<close>

text \<open>\<^verbatim>\<open>bits.Len64\<close>: the number of bits needed to write a value.\<close>

fun bit_len :: "nat \<Rightarrow> nat" where
  "bit_len n = (if n = 0 then 0 else Suc (bit_len (n div 2)))"

declare bit_len.simps [simp del]

definition Len64 :: "u64 \<Rightarrow> nat" where
  "Len64 x = bit_len (unat x)"

definition Sov :: "u64 \<Rightarrow> nat" where
  "Sov x = (Len64 (x OR 1) + 6) div 7"

definition Soz :: "u64 \<Rightarrow> nat" where
  "Soz x = Sov (push_bit 1 x XOR signed_drop_bit 63 x)"

section \<open>Writing\<close>

text \<open>The loop of \<^verbatim>\<open>EncodeVarint\<close>; \<open>None\<close> is an index out of range.\<close>

function EncodeVarint_loop :: "byte list \<Rightarrow> int \<Rightarrow> u64 \<Rightarrow> byte list option" where
  "EncodeVarint_loop buf offset v =
     (if offset < 0 \<or> int (length buf) \<le> offset then None
      else if v \<ge> 0x80
      then EncodeVarint_loop (buf[nat offset := ucast (v AND 0x7F OR 0x80)]) (offset + 1) (drop_bit 7 v)
      else Some (buf[nat offset := ucast v]))"
  by pat_completeness auto
termination
proof (relation "measure (\<lambda>(buf, offset, v). unat v)")
  fix buf :: "byte list" and offset and v :: u64
  assume "v \<ge> 0x80"
  then have "unat v > 0" by (auto simp: word_le_nat_alt)
  then have "unat (drop_bit 7 v) < unat v"
    by (simp add: drop_bit_eq_div unat_div)
  then show "((buf[nat offset := ucast (v AND 0x7F OR 0x80)], offset + 1, drop_bit 7 v),
              (buf, offset, v)) \<in> measure (\<lambda>(buf, offset, v). unat v)" by simp
qed simp

declare EncodeVarint_loop.simps [simp del]

definition EncodeVarint :: "byte list \<Rightarrow> int \<Rightarrow> u64 \<Rightarrow> (byte list \<times> int) option" where
  "EncodeVarint buf offset v =
     (let base = offset - int (Sov v)
      in map_option (\<lambda>buf'. (buf', base)) (EncodeVarint_loop buf base v))"

section \<open>Reading\<close>

function ConsumeVarint_loop ::
  "byte list \<Rightarrow> int \<Rightarrow> nat \<Rightarrow> u64 \<Rightarrow> (proto_error, u64 \<times> int) result" where
  "ConsumeVarint_loop buf pos shift num =
     (if shift \<ge> 64 then Err ErrIntOverflow
      else if pos \<ge> int (length buf) then Err ErrUnexpectedEOF
      else if pos < 0 then Err IndexPanic
      else let b = buf ! nat pos; num' = num OR push_bit shift (ucast (b AND 0x7F))
           in if b < 0x80 then Ok (num', pos + 1)
              else ConsumeVarint_loop buf (pos + 1) (shift + 7) num')"
  by pat_completeness auto
termination by (relation "measure (\<lambda>(buf, pos, shift, num). 64 - shift)") auto

declare ConsumeVarint_loop.simps [simp del]

definition ConsumeVarint :: "byte list \<Rightarrow> int \<Rightarrow> (proto_error, u64 \<times> int) result" where
  "ConsumeVarint buf pos = ConsumeVarint_loop buf pos 0 0"

text \<open>\<^verbatim>\<open>binary.LittleEndian\<close>.\<close>

fun little_endian :: "byte list \<Rightarrow> nat" where
  "little_endian [] = 0"
| "little_endian (b # bs) = unat b + 256 * little_endian bs"

definition ConsumeI64 :: "byte list \<Rightarrow> int \<Rightarrow> (proto_error, u64 \<times> int) result" where
  "ConsumeI64 buf pos0 =
     (let pos = wrap64 (pos0 + 8) in
      if pos < 0 \<or> pos > int (length buf) then Err ErrUnexpectedEOF
      else if pos - 8 < 0 then Err IndexPanic
      else Ok (of_nat (little_endian (take 8 (drop (nat (pos - 8)) buf))), pos))"

definition ConsumeI32 :: "byte list \<Rightarrow> int \<Rightarrow> (proto_error, 32 word \<times> int) result" where
  "ConsumeI32 buf pos0 =
     (let pos = wrap64 (pos0 + 4) in
      if pos < 0 \<or> pos > int (length buf) then Err ErrUnexpectedEOF
      else if pos - 4 < 0 then Err IndexPanic
      else Ok (of_nat (little_endian (take 4 (drop (nat (pos - 4)) buf))), pos))"

definition ConsumeLen :: "byte list \<Rightarrow> int \<Rightarrow> (proto_error, int \<times> int) result" where
  "ConsumeLen buf pos0 =
     (case ConsumeVarint buf pos0 of
        Inl e \<Rightarrow> Err e
      | Inr (num, pos1) \<Rightarrow>
          let len = sint num in
          if len < 0 then Err ErrInvalidLength
          else let pos = wrap64 (pos1 + len) in
               if pos < 0 \<or> pos > int (length buf) then Err ErrUnexpectedEOF
               else Ok (len, pos))"

definition ConsumeTag :: "byte list \<Rightarrow> int \<Rightarrow> (proto_error, int \<times> int \<times> int) result" where
  "ConsumeTag buf pos0 =
     (case ConsumeVarint buf pos0 of
        Inl e \<Rightarrow> Err e
      | Inr (tag, pos) \<Rightarrow>
          let fieldNum = sint (ucast (drop_bit 3 tag) :: 32 word);
              wireType = sint (ucast (tag AND 0x7) :: 8 word)
          in if fieldNum \<le> 0 then Err (IllegalField fieldNum)
             else Ok (fieldNum, wireType, pos))"

section \<open>Readers stay inside the buffer\<close>

lemma ConsumeVarint_loop_pos:
  "ConsumeVarint_loop buf pos shift num = Inr (v, pos') \<Longrightarrow>
     0 \<le> pos \<and> pos < pos' \<and> pos' \<le> int (length buf)"
proof (induction buf pos shift num rule: ConsumeVarint_loop.induct)
  case (1 buf pos shift num)
  show ?case
    using "1.prems" "1.IH" [OF _ _ _ refl refl]
    by (auto simp: ConsumeVarint_loop.simps [of buf pos shift num] Let_def split: if_splits)
qed

lemma ConsumeVarint_loop_no_panic:
  "0 \<le> pos \<Longrightarrow> ConsumeVarint_loop buf pos shift num \<noteq> Inl IndexPanic"
proof (induction buf pos shift num rule: ConsumeVarint_loop.induct)
  case (1 buf pos shift num)
  show ?case
    using "1.prems" "1.IH" [OF _ _ _ refl refl]
    by (auto simp: ConsumeVarint_loop.simps [of buf pos shift num] Let_def)
qed

lemmas ConsumeVarint_pos = ConsumeVarint_loop_pos [where shift = 0 and num = 0, folded ConsumeVarint_def]

lemmas ConsumeVarint_no_panic =
  ConsumeVarint_loop_no_panic [where shift = 0 and num = 0, folded ConsumeVarint_def]

lemma ConsumeTag_pos:
  "ConsumeTag buf pos = Inr (f, w, pos') \<Longrightarrow> 0 \<le> pos \<and> pos < pos' \<and> pos' \<le> int (length buf)"
  by (auto simp: ConsumeTag_def Let_def split: sum.splits if_splits dest: ConsumeVarint_pos)

section \<open>Skipping an unknown field\<close>

definition WireTypeVarint :: int where "WireTypeVarint = 0"
definition WireTypeI64 :: int where "WireTypeI64 = 1"
definition WireTypeLen :: int where "WireTypeLen = 2"
definition WireTypeStartGroup :: int where "WireTypeStartGroup = 3"
definition WireTypeEndGroup :: int where "WireTypeEndGroup = 4"
definition WireTypeI32 :: int where "WireTypeI32 = 5"

lemmas WireType_defs = WireTypeVarint_def WireTypeI64_def WireTypeLen_def WireTypeStartGroup_def
  WireTypeEndGroup_def WireTypeI32_def

text \<open>
  The loop of \<^verbatim>\<open>ConsumeUnknown\<close>; \<open>depth\<close> counts the open groups. After the switch the loop returns
  when no group is open and reads the next tag otherwise.
\<close>

function ConsumeUnknown_loop ::
  "byte list \<Rightarrow> int \<Rightarrow> int \<Rightarrow> int \<Rightarrow> (proto_error, int) result" where
  "ConsumeUnknown_loop buf pos wireType depth =
     (if pos < int (length buf) then
        if wireType = WireTypeVarint then map_sum id snd (ConsumeVarint buf pos)
        else if wireType = WireTypeI64 then map_sum id snd (ConsumeI64 buf pos)
        else if wireType = WireTypeLen then map_sum id snd (ConsumeLen buf pos)
        else if wireType = WireTypeI32 then map_sum id snd (ConsumeI32 buf pos)
        else if wireType = WireTypeEndGroup \<and> depth = 0 then Err ErrUnexpectedEndOfGroup
        else if wireType \<noteq> WireTypeStartGroup \<and> wireType \<noteq> WireTypeEndGroup
        then Err (IllegalWireType wireType)
        else
          let depth' = (if wireType = WireTypeStartGroup then depth + 1 else depth - 1) in
          if depth' = 0 then Ok pos
          else case ConsumeTag buf pos of
                 Inl e \<Rightarrow> Err e
               | Inr (_, wireType', pos') \<Rightarrow> ConsumeUnknown_loop buf pos' wireType' depth'
      else Err ErrUnexpectedEOF)"
  by pat_completeness auto
termination
  by (relation "measure (\<lambda>(buf, pos, w, d). nat (int (length buf) - pos))")
    (auto dest: ConsumeTag_pos)

declare ConsumeUnknown_loop.simps [simp del]

definition ConsumeUnknown :: "byte list \<Rightarrow> int \<Rightarrow> int \<Rightarrow> (proto_error, int) result" where
  "ConsumeUnknown buf pos wireType = ConsumeUnknown_loop buf pos wireType 0"

section \<open>The bytes of a varint\<close>

function varint_bytes :: "u64 \<Rightarrow> byte list" where
  "varint_bytes v =
     (if v \<ge> 0x80 then ucast (v AND 0x7F OR 0x80) # varint_bytes (drop_bit 7 v) else [ucast v])"
  by pat_completeness auto
termination
  by (relation "measure unat") (auto simp: drop_bit_eq_div unat_div word_le_nat_alt)

declare varint_bytes.simps [simp del]

lemma bit_len_div: "bit_len (n div 128) = bit_len n - 7"
proof -
  have step: "bit_len (m div 2) = bit_len m - 1" for m
    by (cases "m = 0") (simp_all add: bit_len.simps [of m] bit_len.simps [of 0])
  have "n div 128 = n div 2 div 2 div 2 div 2 div 2 div 2 div 2" by (simp add: div_mult2_eq [symmetric])
  then have "bit_len (n div 128) = bit_len n - 1 - 1 - 1 - 1 - 1 - 1 - 1" by (simp only: step)
  then show ?thesis by linarith
qed

lemma bit_len_less: "n < 2 ^ k \<longleftrightarrow> bit_len n \<le> k"
proof (induction n arbitrary: k rule: bit_len.induct)
  case (1 n)
  show ?case
  proof (cases k)
    case 0
    then show ?thesis by (simp add: bit_len.simps [of n])
  next
    case (Suc j)
    have "n < 2 ^ Suc j \<longleftrightarrow> n div 2 < 2 ^ j" by (simp add: less_mult_imp_div_less) linarith
    then show ?thesis using 1 Suc by (cases "n = 0") (simp_all add: bit_len.simps [of n] bit_len.simps [of 0])
  qed
qed

lemma Len64_or_one: "Len64 (v OR 1) = Suc (bit_len (unat v div 2))"
proof -
  have "drop_bit 1 (v OR 1) = drop_bit 1 v"
    by (rule bit_word_eqI) (auto simp: bit_simps)
  then have "unat (v OR 1) div 2 = unat v div 2"
    by (metis drop_bit_eq_div power_one_right unat_drop_bit_eq)
  moreover have "bit (v OR 1) 0" by (simp add: bit_simps)
  then have "unat (v OR 1) \<noteq> 0" by (auto simp: unat_eq_zero)
  ultimately show ?thesis by (simp add: Len64_def bit_len.simps [of "unat (v OR 1)"])
qed

lemma unat_drop7: "unat (drop_bit 7 (v :: u64)) = unat v div 128"
  by (simp add: drop_bit_eq_div unat_div)

lemma length_varint_bytes: "length (varint_bytes v) = Sov v"
proof (induction v rule: varint_bytes.induct)
  case (1 v)
  let ?b = "bit_len (unat v div 2)"
  show ?case
  proof (cases "v \<ge> 0x80")
    case True
    then have "\<not> unat v div 2 < 2 ^ 6" by (simp add: word_le_nat_alt)
    then have b: "\<not> ?b \<le> 6" using bit_len_less [of "unat v div 2" 6] by simp
    have "bit_len (unat (drop_bit 7 v) div 2) = ?b - 7"
      by (simp only: unat_drop7 flip: bit_len_div) (simp add: div_mult2_eq [symmetric] mult.commute)
    then have "Sov v = Suc (Sov (drop_bit 7 v))"
      using b by (simp add: Sov_def Len64_or_one)
    then show ?thesis using 1 True by (simp add: varint_bytes.simps [of v])
  next
    case False
    then have "unat v div 2 < 2 ^ 6" by (simp add: word_le_nat_alt)
    then have "?b \<le> 6" using bit_len_less [of "unat v div 2" 6] by simp
    then have "Sov v = 1" by (simp add: Sov_def Len64_or_one)
    then show ?thesis using False by (simp add: varint_bytes.simps [of v])
  qed
qed

lemma Sov_bounds: "1 \<le> Sov v \<and> Sov v \<le> 10"
proof -
  have "unat v < 2 ^ 64" using unsigned_less [of v] by simp
  then have "unat v div 2 < 2 ^ 63" by (intro less_mult_imp_div_less) simp
  then have "bit_len (unat v div 2) \<le> 63" by (simp only: bit_len_less)
  then show ?thesis by (simp add: Sov_def Len64_or_one) linarith
qed

section \<open>Writing and reading agree\<close>

lemma EncodeVarint_loop_bytes:
  "0 \<le> offset \<Longrightarrow> offset + int (length (varint_bytes v)) \<le> int (length buf) \<Longrightarrow>
     EncodeVarint_loop buf offset v =
       Some (take (nat offset) buf @ varint_bytes v @ drop (nat offset + length (varint_bytes v)) buf)"
proof (induction buf offset v rule: EncodeVarint_loop.induct)
  case (1 buf offset v)
  obtain n where n: "offset = int n" using "1.prems"(1) by (metis nonneg_int_cases)
  show ?case
  proof (cases "v \<ge> 0x80")
    case True
    let ?x = "ucast (v AND 0x7F OR 0x80) :: byte"
    have vb: "varint_bytes v = ?x # varint_bytes (drop_bit 7 v)"
      using True by (simp add: varint_bytes.simps [of v])
    have lt: "n < length buf" using "1.prems"(2) vb n by simp
    have IH: "EncodeVarint_loop (buf[n := ?x]) (int n + 1) (drop_bit 7 v) =
        Some (take (Suc n) (buf[n := ?x]) @ varint_bytes (drop_bit 7 v) @
              drop (Suc n + length (varint_bytes (drop_bit 7 v))) (buf[n := ?x]))"
      using "1.IH" True lt "1.prems"(2) vb n by (simp add: nat_add_distrib add.commute)
    have "take (Suc n) (buf[n := ?x]) = take n buf @ [?x]"
      using lt by (simp add: take_Suc_conv_app_nth)
    then show ?thesis
      using IH True lt vb by (simp add: n EncodeVarint_loop.simps [of buf "int n" v])
  next
    case False
    then have vb: "varint_bytes v = [ucast v]" by (simp add: varint_bytes.simps [of v])
    then have lt: "n < length buf" using "1.prems"(2) n by simp
    then show ?thesis
      using False vb by (simp add: n EncodeVarint_loop.simps [of buf "int n" v] upd_conv_take_nth_drop)
  qed
qed

lemma and7F: "(w :: 'a::len word) AND 0x7F = take_bit 7 w"
proof -
  have "(0x7F :: 'a word) = mask 7" by (simp add: mask_eq_exp_minus_1)
  then show ?thesis by (simp only: take_bit_eq_mask)
qed

lemma bit80: "bit (0x80 :: u64) n \<longleftrightarrow> n = 7"
proof -
  have "(0x80 :: u64) = 2 ^ 7" by simp
  then show ?thesis by (simp only: bit_exp_iff possible_bit_word) auto
qed

lemma or80: "take_bit 7 (w :: u64) OR 0x80 = take_bit 7 w + 0x80"
proof -
  have "take_bit 7 w AND 0x80 = 0"
    by (rule bit_word_eqI) (simp only: bit_and_iff bit_take_bit_iff bit80, simp)
  then show ?thesis by (simp add: disjunctive_add_eq_or)
qed

lemma unat_chunk: "unat (ucast ((w :: u64) AND 0x7F OR 0x80) :: byte) = unat w mod 128 + 128"
proof -
  have "unat (take_bit 7 w) = unat w mod 128" by (simp add: unsigned_take_bit_eq take_bit_eq_mod unat_mod)
  moreover have "unat w mod 128 < 128" by simp
  ultimately have "unat (take_bit 7 w + 0x80) = unat w mod 128 + 128"
    by (subst unat_add_lem [THEN iffD1]) simp_all
  then show ?thesis using \<open>unat w mod 128 < 128\<close> unfolding and7F or80
    by (simp add: unsigned_ucast_eq take_bit_eq_mod unat_mod)
qed

lemma chunk_high: "\<not> (ucast ((w::u64) AND 0x7F OR 0x80) :: byte) < 0x80"
  by (simp add: word_less_nat_alt unat_chunk)

lemma chunk_low: "ucast ((ucast (w AND 0x7F OR 0x80) :: byte) AND 0x7F) = (take_bit 7 w :: u64)"
proof (rule word_unat_eq_iff [THEN iffD2])
  have "unat ((ucast (w AND 0x7F OR 0x80) :: byte) AND 0x7F) = unat w mod 128"
    by (simp add: and7F [where 'a=8] unsigned_take_bit_eq take_bit_eq_mod unat_mod unat_chunk)
  then show "unat (ucast ((ucast (w AND 0x7F OR 0x80) :: byte) AND 0x7F) :: u64) = unat (take_bit 7 w)"
    by (simp add: unsigned_ucast_eq unsigned_take_bit_eq take_bit_eq_mod unat_mod)
qed

lemma chunk_last: "w < 0x80 \<Longrightarrow> ucast ((ucast w :: byte) AND 0x7F) = (w :: u64) \<and> (ucast w :: byte) < 0x80"
  by (simp add: and7F word_unat_eq_iff word_less_nat_alt unsigned_ucast_eq unsigned_take_bit_eq take_bit_eq_mod unat_mod)

lemma take_bit_extend:
  "take_bit s v OR push_bit s (take_bit 7 (drop_bit s v)) = take_bit (s + 7) (v :: u64)"
  by (rule bit_word_eqI) (auto simp: bit_simps)

lemma take_or_push: "take_bit s v OR push_bit s (drop_bit s v) = (v :: u64)"
proof (rule bit_word_eqI)
  fix n assume "n < LENGTH(64)"
  then show "bit (take_bit s v OR push_bit s (drop_bit s v)) n = bit v n"
    by (cases "n < s") (simp_all add: bit_simps)
qed

lemma shift_bound:
  assumes "drop_bit s (v :: u64) \<ge> 0x80" shows "s + 7 < 64"
proof (rule ccontr)
  assume "\<not> s + 7 < 64"
  have "unat v < 2 ^ 64" using unsigned_less [of v] by simp
  also have "\<dots> \<le> 2 ^ (s + 7)" using \<open>\<not> s + 7 < 64\<close> by (intro power_increasing) auto
  finally have "unat v div 2 ^ s < 128" by (simp add: less_mult_imp_div_less power_add mult.commute)
  moreover have "unat (drop_bit s v) = unat v div 2 ^ s"
    by (simp only: unat_drop_bit_eq, simp only: drop_bit_eq_div)
  ultimately show False using assms by (simp add: word_le_nat_alt)
qed

lemma ConsumeVarint_loop_bytes:
  assumes "drop (nat pos) buf = varint_bytes (drop_bit s v) @ rest" and "0 \<le> pos" and "s < 64"
  shows "ConsumeVarint_loop buf pos s (take_bit s v) =
           Inr (v, pos + int (length (varint_bytes (drop_bit s v))))"
  using assms
proof (induction "64 - s" arbitrary: s pos rule: less_induct)
  case less
  let ?w = "drop_bit s v"
  obtain n where n: "pos = int n" using less.prems(2) by (metis nonneg_int_cases)
  have ne: "varint_bytes ?w \<noteq> []" by (simp add: varint_bytes.simps [of ?w])
  then have lt: "n < length buf" using less.prems(1) n by (metis append_is_Nil_conv drop_all leI nat_int)
  have hd: "buf ! n = hd (varint_bytes ?w)"
    using less.prems(1) n lt ne by (metis hd_append2 hd_drop_conv_nth nat_int)
  show ?case
  proof (cases "?w \<ge> 0x80")
    case True
    then have vb: "varint_bytes ?w = ucast (?w AND 0x7F OR 0x80) # varint_bytes (drop_bit 7 ?w)"
      by (simp add: varint_bytes.simps [of ?w])
    have s7: "s + 7 < 64" by (rule shift_bound [OF True])
    have dd: "drop_bit 7 ?w = drop_bit (s + 7) v" by (simp add: add.commute)
    have "drop (nat (pos + 1)) buf = varint_bytes (drop_bit (s + 7) v) @ rest"
      using arg_cong [OF less.prems(1), of tl] vb dd n
      by (simp add: nat_add_distrib tl_drop flip: drop_Suc)
    then have "ConsumeVarint_loop buf (pos + 1) (s + 7) (take_bit (s + 7) v) =
        Inr (v, pos + 1 + int (length (varint_bytes (drop_bit (s + 7) v))))"
      using s7 less.prems(2) by (intro less.hyps) auto
    then show ?thesis
      using hd vb lt less.prems(3) dd chunk_high [of ?w]
      by (simp add: n ConsumeVarint_loop.simps [of buf "int n" s] chunk_low take_bit_extend)
  next
    case False
    then have vb: "varint_bytes ?w = [ucast ?w]" by (simp add: varint_bytes.simps [of ?w])
    have "take_bit s v OR push_bit s ?w = v" by (rule take_or_push)
    then show ?thesis
      using hd vb lt less.prems(3) chunk_last [of ?w] False
      by (simp add: n ConsumeVarint_loop.simps [of buf "int n" s])
  qed
qed

lemma ConsumeVarint_bytes:
  assumes "drop (nat pos) buf = varint_bytes v @ rest" and "0 \<le> pos"
  shows "ConsumeVarint buf pos = Inr (v, pos + int (Sov v))"
  using ConsumeVarint_loop_bytes [of pos buf 0 v rest] assms
  by (simp add: ConsumeVarint_def length_varint_bytes)

text \<open>A length that does not fit behind the current position makes the sum wrap below zero.\<close>

lemma ConsumeLen_pos:
  assumes h: "ConsumeLen buf pos = Inr (len, pos')" and b: "length buf < 2 ^ 62"
  shows "0 \<le> len \<and> pos + len < pos' \<and> pos' \<le> int (length buf)"
proof -
  obtain num p where p: "ConsumeVarint buf pos = Inr (num, p)" and l: "len = sint num" "0 \<le> len"
    and w: "pos' = wrap64 (p + len)" "0 \<le> pos'" "pos' \<le> int (length buf)"
    using h by (auto simp: ConsumeLen_def Let_def split: sum.splits if_splits)
  have "0 \<le> p + len \<and> p + len < 2 ^ 64" using ConsumeVarint_pos [OF p] b sint_lt [of num] l by simp
  then have "pos' = p + len" using w by (simp add: wrap64_nonneg)
  then show ?thesis using ConsumeVarint_pos [OF p] l(2) w(3) by simp
qed

lemma ConsumeLen_no_panic: "0 \<le> pos \<Longrightarrow> ConsumeLen buf pos \<noteq> Inl IndexPanic"
  using ConsumeVarint_no_panic [of pos buf]
  by (auto simp: ConsumeLen_def Let_def split: sum.splits)

lemma ConsumeTag_no_panic: "0 \<le> pos \<Longrightarrow> ConsumeTag buf pos \<noteq> Inl IndexPanic"
  using ConsumeVarint_no_panic [of pos buf]
  by (auto simp: ConsumeTag_def Let_def split: sum.splits)

lemma ConsumeTag_field: "ConsumeTag buf pos = Inr (f, w, pos') \<Longrightarrow> 0 < f"
  by (auto simp: ConsumeTag_def Let_def split: sum.splits if_splits)

lemma ConsumeFixed:
  assumes "0 \<le> pos" and "pos \<le> int (length buf)" and "length buf < 2 ^ 62"
  shows "ConsumeI64 buf pos =
      (if pos + 8 \<le> int (length buf)
       then Inr (of_nat (little_endian (take 8 (drop (nat pos) buf))), pos + 8)
       else Inl ErrUnexpectedEOF)"
    and "ConsumeI32 buf pos =
      (if pos + 4 \<le> int (length buf)
       then Inr (of_nat (little_endian (take 4 (drop (nat pos) buf))), pos + 4)
       else Inl ErrUnexpectedEOF)"
proof -
  have "wrap64 (pos + 8) = pos + 8" "wrap64 (pos + 4) = pos + 4"
    using assms by (auto intro!: wrap64_id)
  then show "ConsumeI64 buf pos = (if pos + 8 \<le> int (length buf)
       then Inr (of_nat (little_endian (take 8 (drop (nat pos) buf))), pos + 8)
       else Inl ErrUnexpectedEOF)"
    and "ConsumeI32 buf pos = (if pos + 4 \<le> int (length buf)
       then Inr (of_nat (little_endian (take 4 (drop (nat pos) buf))), pos + 4)
       else Inl ErrUnexpectedEOF)"
    using assms by (auto simp: ConsumeI64_def ConsumeI32_def Let_def)
qed

section \<open>Fixed-width integers\<close>

text \<open>\<^verbatim>\<open>binary.LittleEndian.PutUint64\<close> and \<^verbatim>\<open>PutUint32\<close>: the lowest bytes of a number, least significant first.\<close>

fun le_bytes :: "nat \<Rightarrow> nat \<Rightarrow> byte list" where
  "le_bytes 0 n = []"
| "le_bytes (Suc k) n = of_nat (n mod 256) # le_bytes k (n div 256)"

lemma length_le_bytes [simp]: "length (le_bytes k n) = k"
  by (induction k arbitrary: n) simp_all

lemma little_endian_le_bytes: "n < 256 ^ k \<Longrightarrow> little_endian (le_bytes k n) = n"
proof (induction k arbitrary: n)
  case (Suc k)
  have "n div 256 < 256 ^ k" using Suc.prems by (simp add: less_mult_imp_div_less mult.commute)
  moreover have "unat (of_nat (n mod 256) :: byte) = n mod 256"
    by (simp add: unsigned_of_nat take_bit_nat_eq_self)
  ultimately show ?case using Suc.IH by simp
qed simp

lemma little_endian_word:
  "of_nat (little_endian (le_bytes 8 (unat (w :: u64)))) = w"
  "of_nat (little_endian (le_bytes 4 (unat (v :: 32 word)))) = v"
proof -
  have "unat w < 256 ^ 8" "unat v < 256 ^ 4" using unsigned_less [of w] unsigned_less [of v] by simp_all
  then show "of_nat (little_endian (le_bytes 8 (unat w))) = w" "of_nat (little_endian (le_bytes 4 (unat v))) = v"
    by (simp_all add: little_endian_le_bytes)
qed

section \<open>Properties\<close>

text \<open>
  C24. Varints round-trip in place: if the \<^verbatim>\<open>Sov(v)\<close> bytes before \<^verbatim>\<open>offset\<close> are inside the buffer,
  \<^verbatim>\<open>EncodeVarint\<close> fills exactly those bytes, leaves every other byte alone, returns their start, and
  \<^verbatim>\<open>ConsumeVarint\<close> there reads \<open>v\<close> back and stops at \<^verbatim>\<open>offset\<close>. The size is between 1 and 10 bytes.
\<close>

theorem varint_roundtrip:
  assumes "int (Sov v) \<le> offset" and "offset \<le> int (length buf)"
  shows "\<exists>buf'. EncodeVarint buf offset v = Some (buf', offset - int (Sov v)) \<and>
    length buf' = length buf \<and>
    (\<forall>i < length buf. int i < offset - int (Sov v) \<or> offset \<le> int i \<longrightarrow> buf' ! i = buf ! i) \<and>
    ConsumeVarint buf' (offset - int (Sov v)) = Inr (v, offset) \<and> 1 \<le> Sov v \<and> Sov v \<le> 10"
proof -
  obtain n where n: "offset - int (Sov v) = int n"
    using assms(1) by (metis diff_ge_0_iff_ge nonneg_int_cases)
  let ?buf' = "take n buf @ varint_bytes v @ drop (n + Sov v) buf"
  have len: "n + Sov v \<le> length buf" using n assms(2) by linarith
  have "EncodeVarint_loop buf (int n) v = Some ?buf'"
    using EncodeVarint_loop_bytes [of "int n" v buf] len by (simp add: length_varint_bytes)
  then have enc: "EncodeVarint buf offset v = Some (?buf', offset - int (Sov v))"
    by (simp add: EncodeVarint_def n)
  have "ConsumeVarint ?buf' (int n) = Inr (v, int n + int (Sov v))"
    using len by (intro ConsumeVarint_bytes [where rest = "drop (n + Sov v) buf"]) simp_all
  then have dec: "ConsumeVarint ?buf' (offset - int (Sov v)) = Inr (v, offset)" using n by simp
  have "?buf' ! i = buf ! i" if "i < length buf" "int i < offset - int (Sov v) \<or> offset \<le> int i" for i
    using that len n by (auto simp: nth_append length_varint_bytes)
  then show ?thesis
    using enc dec len Sov_bounds [of v] by (auto simp: length_varint_bytes)
qed

theorem varint_roundtrip_witness:
  "int (Sov 300) \<le> 3 \<and> (3 :: int) \<le> int (length [1, 2, 3, 4 :: byte]) \<and>
   (\<exists>buf'. EncodeVarint [1, 2, 3, 4] 3 300 = Some (buf', 1) \<and> ConsumeVarint buf' 1 = Inr (300, 3))"
proof -
  have s: "Sov 300 = 2" by (simp add: Sov_def Len64_def bit_len.simps)
  show ?thesis
    using varint_roundtrip [of 300 3 "[1, 2, 3, 4]"] by (auto simp: s)
qed

text \<open>
  Reading untrusted bytes is safe: from any position inside the buffer no reader indexes out of
  range, and a reader that succeeds has moved forward and stopped inside the buffer. In
  particular a length that overflows the position is rejected.
\<close>

theorem readers_stay_in_buffer:
  assumes "0 \<le> pos" and "pos \<le> int (length buf)" and "length buf < 2 ^ 62"
  shows "(case ConsumeVarint buf pos of Inl e \<Rightarrow> e \<noteq> IndexPanic
          | Inr (v, pos') \<Rightarrow> pos < pos' \<and> pos' \<le> int (length buf)) \<and>
    (case ConsumeTag buf pos of Inl e \<Rightarrow> e \<noteq> IndexPanic
     | Inr (f, w, pos') \<Rightarrow> 0 < f \<and> pos < pos' \<and> pos' \<le> int (length buf)) \<and>
    (case ConsumeLen buf pos of Inl e \<Rightarrow> e \<noteq> IndexPanic
     | Inr (len, pos') \<Rightarrow> 0 \<le> len \<and> pos + len < pos' \<and> pos' \<le> int (length buf)) \<and>
    (case ConsumeI64 buf pos of Inl e \<Rightarrow> e \<noteq> IndexPanic
     | Inr (v, pos') \<Rightarrow> pos' = pos + 8 \<and> pos' \<le> int (length buf)) \<and>
    (case ConsumeI32 buf pos of Inl e \<Rightarrow> e \<noteq> IndexPanic
     | Inr (v, pos') \<Rightarrow> pos' = pos + 4 \<and> pos' \<le> int (length buf))"
  using ConsumeVarint_no_panic [OF assms(1), of buf] ConsumeLen_no_panic [OF assms(1), of buf]
    ConsumeTag_no_panic [OF assms(1), of buf] ConsumeLen_pos [OF _ assms(3), of pos]
    ConsumeFixed [OF assms] ConsumeTag_field [of buf pos]
  by (auto split: sum.splits dest: ConsumeVarint_pos ConsumeTag_pos)

theorem readers_stay_in_buffer_witness:
  "ConsumeLen [0x02, 0x61, 0x62] 0 = Inr (2, 3) \<and>
   (case ConsumeLen [0x02, 0x61, 0x62] 0 of Inl e \<Rightarrow> e \<noteq> IndexPanic
    | Inr (len, pos') \<Rightarrow> 0 \<le> len \<and> 0 + len < pos' \<and> pos' \<le> int (length [0x02, 0x61, 0x62 :: byte]))"
proof -
  have "ConsumeLen [0x02, 0x61, 0x62] 0 = Inr (2, 3)"
    by (simp add: ConsumeLen_def ConsumeVarint_def ConsumeVarint_loop.simps wrap64_def Let_def)
  moreover have "case ConsumeLen [0x02, 0x61, 0x62] 0 of Inl e \<Rightarrow> e \<noteq> IndexPanic
     | Inr (len, pos') \<Rightarrow> 0 \<le> len \<and> 0 + len < pos' \<and> pos' \<le> int (length [0x02, 0x61, 0x62 :: byte])"
    using readers_stay_in_buffer [of 0 "[0x02, 0x61, 0x62]"] by simp
  ultimately show ?thesis by blast
qed



end
