(* ===== verification/Pdata.thy ===== *)
theory Pdata
  imports Wire
begin

text \<open>
  The OTLP data model as the exporter helper and the batch processor use it:
  \<^verbatim>\<open>pdata/plog\<close>, \<^verbatim>\<open>pdata/ptrace\<close>, \<^verbatim>\<open>pdata/pmetric\<close> and the messages of \<^verbatim>\<open>pdata/internal\<close> below them.

  Logs and traces have the same shape, a list of resources that hold scopes that hold items; metrics
  add one level, a metric with its data points. A resource, a scope, a log record, a span and a data
  point are leaves here: the type variables \<open>'res\<close>, \<open>'sc\<close>, \<open>'it\<close>, with their encoded sizes, natural
  numbers, as arguments.
  A slice of pointers is a list; a function that mutates its argument returns the new value. Sizes
  are unbounded integers: they count bytes held in memory.
\<close>

section \<open>Messages\<close>

text \<open>\<^verbatim>\<open>ScopeLogs\<close>, \<^verbatim>\<open>ScopeSpans\<close> and \<^verbatim>\<open>ScopeMetrics\<close>; \<^verbatim>\<open>ResourceLogs\<close>, \<^verbatim>\<open>ResourceSpans\<close> and
  \<^verbatim>\<open>ResourceMetrics\<close>.\<close>

record ('sc, 'it) ScopeItems =
  Scope :: 'sc
  ScopeSchemaUrl :: string
  Items :: "'it list"

record ('res, 'sc, 'it) ResourceItems =
  Resource :: 'res
  SchemaUrl :: string
  Scopes :: "('sc, 'it) ScopeItems list"
  DeprecatedScopes :: "('sc, 'it) ScopeItems list"

type_synonym ('res, 'sc, 'it) Data = "('res, 'sc, 'it) ResourceItems list"

text \<open>Metrics: \<open>'n\<close>, \<open>'h\<close>, \<open>'e\<close>, \<open>'s\<close> are number, histogram, exponential-histogram and summary points. An
  aggregation temporality is an \<^verbatim>\<open>int32\<close>.\<close>

datatype ('n, 'h, 'e, 's) MetricData =
    EmptyData
  | Gauge "'n list"
  | Sum "'n list" (SumTemporality: int) (IsMonotonic: bool)
  | Histogram "'h list" int
  | ExponentialHistogram "'e list" int
  | Summary "'s list"

record ('md, 'n, 'h, 'e, 's) Metric =
  Name :: string
  Description :: string
  Unit :: string
  MData :: "('n, 'h, 'e, 's) MetricData"
  Metadata :: "'md list"

section \<open>Slices\<close>

text \<open>
  \<^verbatim>\<open>RemoveIf\<close> of the generated slices, on the array of pointers. The callback reads and writes the
  variables it captures, a value of type \<open>'s\<close>, and the element it is given, and says whether the
  element is to be removed. A deleted or moved position is \<open>None\<close>; calling the callback on a deleted
  position would dereference a nil pointer, the result \<open>None\<close>.
\<close>

type_synonym ('s, 'a) callback = "'s \<Rightarrow> 'a \<Rightarrow> bool \<times> 's \<times> 'a"

function RemoveIf_loop ::
  "('s, 'a) callback \<Rightarrow> 's \<Rightarrow> 'a option list \<Rightarrow> nat \<Rightarrow> nat \<Rightarrow> ('s \<times> 'a option list) option" where
  "RemoveIf_loop f s arr i newLen =
     (if i < length arr then
        (case arr ! i of
           None \<Rightarrow> None
         | Some x \<Rightarrow>
             (case f s x of (remove, s', x') \<Rightarrow>
                if remove then RemoveIf_loop f s' (arr[i := None]) (Suc i) newLen
                else if newLen = i then RemoveIf_loop f s' (arr[i := Some x']) (Suc i) (Suc newLen)
                else RemoveIf_loop f s' (arr[newLen := Some x', i := None]) (Suc i) (Suc newLen)))
      else Some (s, take newLen arr))"
  by pat_completeness auto
termination
  by (relation "measure (\<lambda>(f, s, arr, i, newLen). length arr - i)") auto

declare RemoveIf_loop.simps [simp del]

text \<open>The captured variables and the slice afterwards. That the loop never meets a nil pointer, and
  leaves none in the slice, is part of the property below.\<close>

definition RemoveIf :: "('s, 'a) callback \<Rightarrow> 's \<Rightarrow> 'a list \<Rightarrow> 's \<times> 'a list" where
  "RemoveIf f s xs =
     (case RemoveIf_loop f s (map Some xs) 0 0 of
        None \<Rightarrow> (s, xs)
      | Some (s', arr) \<Rightarrow> (s', map the arr))"

text \<open>The reference: one pass over the list that keeps what the callback does not remove.\<close>

fun remove_if :: "('s, 'a) callback \<Rightarrow> 's \<Rightarrow> 'a list \<Rightarrow> 's \<times> 'a list" where
  "remove_if f s [] = (s, [])"
| "remove_if f s (x # xs) =
     (case f s x of (remove, s', x') \<Rightarrow>
      case remove_if f s' xs of (s'', ys) \<Rightarrow> (s'', if remove then ys else x' # ys))"

text \<open>\<^verbatim>\<open>MoveAndAppendTo\<close>: the two new slices, source first.\<close>

definition MoveAndAppendTo :: "'a list \<Rightarrow> 'a list \<Rightarrow> 'a list \<times> 'a list" where
  "MoveAndAppendTo es dest = ([], if dest = [] then es else dest @ es)"

section \<open>Counts\<close>

definition LogRecordCount :: "('res, 'sc, 'it) Data \<Rightarrow> int" where
  "LogRecordCount ld = (\<Sum>rs\<leftarrow>ld. \<Sum>ill\<leftarrow>Scopes rs. int (length (Items ill)))"

definition SpanCount :: "('res, 'sc, 'it) Data \<Rightarrow> int" where
  "SpanCount td = (\<Sum>rs\<leftarrow>td. \<Sum>ils\<leftarrow>Scopes rs. int (length (Items ils)))"

fun data_points_len :: "('n, 'h, 'e, 's) MetricData \<Rightarrow> nat" where
  "data_points_len EmptyData = 0"
| "data_points_len (Gauge dps) = length dps"
| "data_points_len (Sum dps _ _) = length dps"
| "data_points_len (Histogram dps _) = length dps"
| "data_points_len (ExponentialHistogram dps _) = length dps"
| "data_points_len (Summary dps) = length dps"

definition MetricCount :: "('res, 'sc, 'it) Data \<Rightarrow> int" where
  "MetricCount md = (\<Sum>rm\<leftarrow>md. \<Sum>ilm\<leftarrow>Scopes rm. int (length (Items ilm)))"

definition DataPointCount :: "('res, 'sc, ('md, 'n, 'h, 'e, 's) Metric) Data \<Rightarrow> int" where
  "DataPointCount md =
     (\<Sum>rm\<leftarrow>md. \<Sum>ilm\<leftarrow>Scopes rm. \<Sum>m\<leftarrow>Items ilm. int (data_points_len (MData m)))"

section \<open>Encoded sizes\<close>

text \<open>A length-delimited field with a one-byte tag: tag, length, payload.\<close>

definition field_size :: "int \<Rightarrow> int" where
  "field_size l = 1 + int (Sov (word_of_int l)) + l"

definition string_size :: "string \<Rightarrow> int" where
  "string_size s = (let l = int (length s) in if l > 0 then field_size l else 0)"

definition ScopeItems_SizeProto :: "('sc \<Rightarrow> nat) \<Rightarrow> ('it \<Rightarrow> nat) \<Rightarrow> ('sc, 'it) ScopeItems \<Rightarrow> int" where
  "ScopeItems_SizeProto scope_sz item_sz sl =
     field_size (int (scope_sz (Scope sl))) + (\<Sum>x\<leftarrow>Items sl. field_size (int (item_sz x)))
     + string_size (ScopeSchemaUrl sl)"

definition ResourceItems_SizeProto ::
  "('res \<Rightarrow> nat) \<Rightarrow> ('sc \<Rightarrow> nat) \<Rightarrow> ('it \<Rightarrow> nat) \<Rightarrow> ('res, 'sc, 'it) ResourceItems \<Rightarrow> int" where
  "ResourceItems_SizeProto res_sz scope_sz item_sz rl =
     field_size (int (res_sz (Resource rl)))
     + (\<Sum>sl\<leftarrow>Scopes rl. field_size (ScopeItems_SizeProto scope_sz item_sz sl))
     + string_size (SchemaUrl rl)
     + (\<Sum>sl\<leftarrow>DeprecatedScopes rl. 1 + field_size (ScopeItems_SizeProto scope_sz item_sz sl))"

definition Data_SizeProto ::
  "('res \<Rightarrow> nat) \<Rightarrow> ('sc \<Rightarrow> nat) \<Rightarrow> ('it \<Rightarrow> nat) \<Rightarrow> ('res, 'sc, 'it) Data \<Rightarrow> int" where
  "Data_SizeProto res_sz scope_sz item_sz ld =
     (\<Sum>rl\<leftarrow>ld. field_size (ResourceItems_SizeProto res_sz scope_sz item_sz rl))"

text \<open>Sizes of a metric: the leaf sizes are those of the four point types and of the metadata.\<close>

record ('md, 'n, 'h, 'e, 's) point_sizes =
  metadata_sz :: "'md \<Rightarrow> nat"
  number_sz :: "'n \<Rightarrow> nat"
  histogram_sz :: "'h \<Rightarrow> nat"
  exponential_sz :: "'e \<Rightarrow> nat"
  summary_sz :: "'s \<Rightarrow> nat"

definition temporality_size :: "int \<Rightarrow> int" where
  "temporality_size t = (if t \<noteq> 0 then 1 + int (Sov (word_of_int t)) else 0)"

fun MetricData_SizeProto :: "('md, 'n, 'h, 'e, 's) point_sizes \<Rightarrow> ('n, 'h, 'e, 's) MetricData \<Rightarrow> int" where
  "MetricData_SizeProto psz EmptyData = 0"
| "MetricData_SizeProto psz (Gauge dps) = (\<Sum>d\<leftarrow>dps. field_size (int (number_sz psz d)))"
| "MetricData_SizeProto psz (Sum dps t mon) =
     (\<Sum>d\<leftarrow>dps. field_size (int (number_sz psz d))) + temporality_size t + (if mon then 2 else 0)"
| "MetricData_SizeProto psz (Histogram dps t) =
     (\<Sum>d\<leftarrow>dps. field_size (int (histogram_sz psz d))) + temporality_size t"
| "MetricData_SizeProto psz (ExponentialHistogram dps t) =
     (\<Sum>d\<leftarrow>dps. field_size (int (exponential_sz psz d))) + temporality_size t"
| "MetricData_SizeProto psz (Summary dps) = (\<Sum>d\<leftarrow>dps. field_size (int (summary_sz psz d)))"

definition Metric_SizeProto :: "('md, 'n, 'h, 'e, 's) point_sizes \<Rightarrow> ('md, 'n, 'h, 'e, 's) Metric \<Rightarrow> int" where
  "Metric_SizeProto psz m =
     string_size (Name m) + string_size (Description m) + string_size (Unit m)
     + (case MData m of EmptyData \<Rightarrow> 0 | d \<Rightarrow> field_size (MetricData_SizeProto psz d))
     + (\<Sum>kv\<leftarrow>Metadata m. field_size (int (metadata_sz psz kv)))"

section \<open>Lemmas\<close>

text \<open>The loop invariant: \<open>newLen\<close> kept elements, then positions that were deleted, then the
  elements still to be visited.\<close>

lemma RemoveIf_loop_remove_if:
  "RemoveIf_loop f s (map Some kept @ replicate n None @ map Some xs) (length kept + n) (length kept) =
     (case remove_if f s xs of (s', ys) \<Rightarrow> Some (s', map Some (kept @ ys)))"
proof (induction xs arbitrary: s kept n)
  case Nil
  then show ?case by (simp add: RemoveIf_loop.simps)
next
  case (Cons x xs)
  let ?arr = "map Some kept @ replicate n None @ Some x # map Some xs"
  obtain remove s' x' where fx: "f s x = (remove, s', x')" by (metis prod_cases3)
  have at: "?arr ! (length kept + n) = Some x"
    by (simp add: nth_append)
  have upd: "?arr[length kept + n := v] = map Some kept @ replicate n None @ v # map Some xs" for v
    by (simp add: list_update_append)
  show ?case
  proof (cases remove)
    case True
    have "?arr[length kept + n := None] = map Some kept @ replicate (Suc n) None @ map Some xs"
      by (simp add: upd replicate_append_same [symmetric])
    then show ?thesis
      using Cons [of s' kept "Suc n"] fx at True
      by (simp add: RemoveIf_loop.simps [of f s] split: prod.splits)
  next
    case False
    have "(if n = 0 then ?arr[length kept + n := Some x']
           else ?arr[length kept := Some x', length kept + n := None])
        = map Some (kept @ [x']) @ replicate n None @ map Some xs"
    proof (cases n)
      case 0
      then show ?thesis using upd [of "Some x'"] by simp
    next
      case (Suc m)
      then have "?arr[length kept := Some x', length kept + n := None]
        = map Some kept @ Some x' # (replicate m None @ Some x # map Some xs)[m := None]"
        by (simp add: list_update_append)
      also have "(replicate m None @ Some x # map Some xs)[m := None] = replicate n None @ map Some xs"
        using Suc by (simp add: list_update_append replicate_append_same [symmetric])
      finally show ?thesis using Suc by simp
    qed
    then show ?thesis
      using Cons [of s' "kept @ [x']" n] fx at False
      by (cases "n = 0") (simp_all add: RemoveIf_loop.simps [of f s] split: prod.splits)
  qed
qed

lemma RemoveIf_remove_if [simp]: "RemoveIf f s xs = remove_if f s xs"
  using RemoveIf_loop_remove_if [of f s "[]" 0 xs]
  by (simp add: RemoveIf_def split: prod.splits)

lemma remove_if_append:
  "remove_if f s (xs @ ys) =
     (case remove_if f s xs of (s1, xs') \<Rightarrow> case remove_if f s1 ys of (s2, ys') \<Rightarrow> (s2, xs' @ ys'))"
  by (induction xs arbitrary: s) (simp_all split: prod.splits)

lemma remove_if_idle:
  assumes "\<And>x. x \<in> set xs \<Longrightarrow> f s x = (False, s, x)"
  shows "remove_if f s xs = (s, xs)"
  using assms by (induction xs) auto

text \<open>
  A callback that moves items out of the elements of a slice until its capacity, the first captured
  variable, is used up: \<open>items\<close> are the items of an element, \<open>out\<close> those of the destination.
\<close>

lemma remove_if_moves:
  assumes run: "remove_if f (c, r, d) xs = ((c', r', d'), ys)"
    and idle: "\<And>r d x. f (0, r, d) x = (False, (0, r, d), x)"
    and step: "\<And>c r d x b c' r' d' x'. f (c, r, d) x = (b, (c', r', d'), x') \<Longrightarrow> c \<noteq> 0 \<Longrightarrow>
      \<exists>new. items x = new @ (if b then [] else items x') \<and> out d' = out d @ new \<and> (\<not> b \<longrightarrow> c' = (0 :: int))"
  shows "\<exists>new. concat (map items xs) = new @ concat (map items ys) \<and> out d' = out d @ new"
  using run
proof (induction xs arbitrary: c r d ys)
  case (Cons x xs)
  have stop: "remove_if f (0, r, d) zs = ((0, r, d), zs)" for r d zs
    by (rule remove_if_idle) (rule idle)
  show ?case
  proof (cases "c = 0")
    case True
    then have "((c', r', d'), ys) = ((0, r, d), x # xs)" using Cons.prems stop by metis
    then show ?thesis by simp
  next
    case False
    obtain b c1 r1 d1 x1 where fx: "f (c, r, d) x = (b, (c1, r1, d1), x1)" by (metis prod_cases3)
    obtain new where new: "items x = new @ (if b then [] else items x1)" "out d1 = out d @ new" "\<not> b \<longrightarrow> c1 = 0"
      using step [OF fx False] by blast
    show ?thesis
    proof (cases b)
      case True
      then have "remove_if f (c1, r1, d1) xs = ((c', r', d'), ys)"
        using Cons.prems fx by (simp split: prod.splits)
      from Cons.IH [OF this] show ?thesis using new True by auto
    next
      case False
      then have "ys = x1 # xs" "d' = d1" using Cons.prems fx new(3) stop by simp_all
      then show ?thesis using new False by simp
    qed
  qed
qed simp

text \<open>Such a callback fills the capacity when every item counts one.\<close>

lemma remove_if_counts:
  assumes run: "remove_if f (c, r, d) xs = ((c', r', d'), ys)" and c: "0 \<le> c"
    and idle: "\<And>r d x. f (0, r, d) x = (False, (0, r, d), x)"
    and step: "\<And>c r d x b c' r' d' x'. f (c, r, d) x = (b, (c', r', d'), x') \<Longrightarrow> 0 < c \<Longrightarrow>
      int (length (out d')) = int (length (out d)) + min c (size_of x) \<and> c' = max 0 (c - size_of x) \<and>
      r' = r + min c (size_of x)"
    and nonneg: "\<And>x. 0 \<le> size_of x"
  shows "int (length (out d')) = int (length (out d)) + min c (sum_list (map size_of xs)) \<and>
    r' = r + min c (sum_list (map size_of xs))"
  using run c
proof (induction xs arbitrary: c r d ys)
  case (Cons x xs)
  have stop: "remove_if f (0, r, d) zs = ((0, r, d), zs)" for r d zs
    by (rule remove_if_idle) (rule idle)
  have rest: "0 \<le> sum_list (map size_of xs)" by (rule sum_list_nonneg) (auto simp: nonneg)
  show ?case
  proof (cases "c = 0")
    case True
    then have "((c', r', d'), ys) = ((0, r, d), x # xs)" using Cons.prems stop by metis
    then show ?thesis using True rest nonneg [of x] by simp
  next
    case False
    obtain b c1 r1 d1 x1 where fx: "f (c, r, d) x = (b, (c1, r1, d1), x1)" by (metis prod_cases3)
    note new = step [OF fx]
    obtain zs where "remove_if f (c1, r1, d1) xs = ((c', r', d'), zs)"
      using Cons.prems fx by (simp split: prod.splits)
    from Cons.IH [OF this] show ?thesis
      using new False Cons.prems(2) rest nonneg [of x] by auto
  qed
qed simp

lemma remove_if_invariant:
  assumes "remove_if f s xs = (s', ys)" and "I s" and "\<And>s x b s' x'. f s x = (b, s', x') \<Longrightarrow> I s \<Longrightarrow> I s'"
  shows "I s'"
  using assms(1,2)
proof (induction xs arbitrary: s ys)
  case (Cons x xs)
  obtain b s1 x1 where fx: "f s x = (b, s1, x1)" by (metis prod_cases3)
  then obtain zs where "remove_if f s1 xs = (s', zs)" using Cons.prems by (simp split: prod.splits)
  then show ?case using Cons.IH assms(3) [OF fx Cons.prems(2)] by blast
qed simp

lemma int_length_concat_map: "int (length (concat (map f xs))) = (\<Sum>x\<leftarrow>xs. int (length (f x)))"
  by (induction xs) simp_all

lemma LogRecordCount_nonneg [simp]: "0 \<le> LogRecordCount ld"
  by (auto simp: LogRecordCount_def intro!: sum_list_nonneg)

section \<open>Properties\<close>

text \<open>
  \<^verbatim>\<open>RemoveIf\<close> compacts a slice in place as one pass over a list would: the callback is called once
  on every element in order and never on a nil pointer, no nil pointer is left, the elements kept stay
  in order, and the captured variables end as after that pass. For a callback that only tests,
  the result is the list without the elements it accepts.
\<close>

theorem RemoveIf_compacts_in_place:
  "RemoveIf_loop f s (map Some xs) 0 0 =
     Some (fst (remove_if f s xs), map Some (snd (remove_if f s xs)))
   \<and> RemoveIf f s xs = remove_if f s xs
   \<and> RemoveIf (\<lambda>n x. (P x, n + 1, x)) 0 xs = (length xs, filter (\<lambda>x. \<not> P x) xs)"
proof -
  have "remove_if (\<lambda>n x. (P x, n + 1, x)) n xs = (n + length xs, filter (\<lambda>x. \<not> P x) xs)" for n :: nat
    by (induction xs arbitrary: n) simp_all
  then show ?thesis
    using RemoveIf_loop_remove_if [of f s "[]" 0 xs] by (simp split: prod.splits)
qed

end
