(* ===== verification/Requests.thy ===== *)
theory Requests
  imports Pdata
begin

text \<open>
  Requests of the exporter helper and how they are measured:
  \<^verbatim>\<open>exporterhelper/internal/request/sizer.go\<close> and \<^verbatim>\<open>sizecache.go\<close>, and the sizers of
  \<^verbatim>\<open>exporterhelper/internal/sizer\<close>. The interfaces \<^verbatim>\<open>LogsSizer\<close> and \<^verbatim>\<open>TracesSizer\<close> have the same five
  methods and are one record of functions; the locale \<open>sizer_laws\<close> says what the splitting code
  relies on, and is interpreted for the counting and the byte sizers.
\<close>

section \<open>Sizer types\<close>

record SizerType =
  val :: string

definition SizerTypeBytes :: SizerType where "SizerTypeBytes = \<lparr>val = ''bytes''\<rparr>"
definition SizerTypeItems :: SizerType where "SizerTypeItems = \<lparr>val = ''items''\<rparr>"
definition SizerTypeRequests :: SizerType where "SizerTypeRequests = \<lparr>val = ''requests''\<rparr>"

lemmas sizer_types = SizerTypeBytes_def SizerTypeItems_def SizerTypeRequests_def

lemma sizer_types_differ [simp]:
  "SizerTypeBytes \<noteq> SizerTypeItems" "SizerTypeItems \<noteq> SizerTypeBytes"
  "SizerTypeRequests \<noteq> SizerTypeItems" "SizerTypeRequests \<noteq> SizerTypeBytes"
  "SizerTypeItems \<noteq> SizerTypeRequests" "SizerTypeBytes \<noteq> SizerTypeRequests"
  by (simp_all add: sizer_types)

definition SizerType_UnmarshalText :: "string \<Rightarrow> (string, SizerType) result" where
  "SizerType_UnmarshalText str =
     (if str = ''items'' then Ok SizerTypeItems
      else if str = ''bytes'' then Ok SizerTypeBytes
      else if str = ''requests'' then Ok SizerTypeRequests
      else Err str)"

definition SizerType_MarshalText :: "SizerType \<Rightarrow> string" where
  "SizerType_MarshalText s = val s"

section \<open>The size cache\<close>

definition uncachedSize :: int where "uncachedSize = -1"

record SizeCache =
  itemsSize :: int
  bytesSize :: int

definition NewSizeCache :: SizeCache where
  "NewSizeCache = \<lparr>itemsSize = uncachedSize, bytesSize = uncachedSize\<rparr>"

text \<open>The size and the cache afterwards; \<open>computed\<close> is what the callback would return.\<close>

definition SizeOf :: "SizeCache \<Rightarrow> SizerType \<Rightarrow> int \<Rightarrow> int \<times> SizeCache" where
  "SizeOf c szt computed =
     (if szt = SizerTypeItems then
        (let c' = if itemsSize c = uncachedSize then c\<lparr>itemsSize := computed\<rparr> else c
         in (itemsSize c', c'))
      else if szt = SizerTypeBytes then
        (let c' = if bytesSize c = uncachedSize then c\<lparr>bytesSize := computed\<rparr> else c
         in (bytesSize c', c'))
      else (computed, c))"

definition SizeCache_Update :: "SizeCache \<Rightarrow> SizerType \<Rightarrow> int \<Rightarrow> SizeCache" where
  "SizeCache_Update c szt sz =
     (let c0 = \<lparr>itemsSize = uncachedSize, bytesSize = uncachedSize\<rparr> in
      if szt = SizerTypeItems then c0\<lparr>itemsSize := sz\<rparr>
      else if szt = SizerTypeBytes then c0\<lparr>bytesSize := sz\<rparr>
      else c0)"

text \<open>A cache is right for data whose true sizes are \<open>items\<close> and \<open>bytes\<close>.\<close>

definition cache_ok :: "SizeCache \<Rightarrow> int \<Rightarrow> int \<Rightarrow> bool" where
  "cache_ok c items bytes \<longleftrightarrow>
     (itemsSize c = uncachedSize \<or> itemsSize c = items) \<and>
     (bytesSize c = uncachedSize \<or> bytesSize c = bytes)"

lemma cache_ok_New [simp]: "cache_ok NewSizeCache items bytes"
  by (simp add: cache_ok_def NewSizeCache_def)

lemma SizeOf_ok:
  assumes "cache_ok c items bytes"
  shows "fst (SizeOf c SizerTypeItems items) = items" "fst (SizeOf c SizerTypeBytes bytes) = bytes"
    "cache_ok (snd (SizeOf c SizerTypeItems items)) items bytes"
    "cache_ok (snd (SizeOf c SizerTypeBytes bytes)) items bytes"
  using assms by (auto simp: cache_ok_def SizeOf_def Let_def)

lemma Update_ok [simp]:
  "cache_ok (SizeCache_Update c SizerTypeItems items) items bytes"
  "cache_ok (SizeCache_Update c SizerTypeBytes bytes) items bytes"
  by (auto simp: cache_ok_def SizeCache_Update_def Let_def)

section \<open>Sizers of logs and traces\<close>

definition sov :: "u64 \<Rightarrow> nat" where
  "sov x = (Len64 (x OR 1) + 6) div 7"

definition protoDelta_DeltaSize :: "int \<Rightarrow> int" where
  "protoDelta_DeltaSize newItemSize = 1 + newItemSize + int (sov (word_of_int newItemSize))"

text \<open>\<^verbatim>\<open>LogsSizer\<close> and \<^verbatim>\<open>TracesSizer\<close>: the sizes of the whole, of a resource, of a scope and of an item.\<close>

record ('res, 'sc, 'it) data_sizer =
  DataSize :: "('res, 'sc, 'it) Data \<Rightarrow> int"
  ResourceSize :: "('res, 'sc, 'it) ResourceItems \<Rightarrow> int"
  ScopeSize :: "('sc, 'it) ScopeItems \<Rightarrow> int"
  ItemSize :: "'it \<Rightarrow> int"
  DeltaSize :: "int \<Rightarrow> int"

definition LogsCountSizer :: "('res, 'sc, 'it) data_sizer" where
  "LogsCountSizer =
     \<lparr>DataSize = LogRecordCount,
      ResourceSize = (\<lambda>rl. \<Sum>sl\<leftarrow>Scopes rl. int (length (Items sl))),
      ScopeSize = (\<lambda>sl. int (length (Items sl))),
      ItemSize = (\<lambda>_. 1),
      DeltaSize = (\<lambda>newItemSize. newItemSize)\<rparr>"

definition TracesCountSizer :: "('res, 'sc, 'it) data_sizer" where
  "TracesCountSizer =
     \<lparr>DataSize = SpanCount,
      ResourceSize = (\<lambda>rs. \<Sum>ss\<leftarrow>Scopes rs. int (length (Items ss))),
      ScopeSize = (\<lambda>ss. int (length (Items ss))),
      ItemSize = (\<lambda>_. 1),
      DeltaSize = (\<lambda>newItemSize. newItemSize)\<rparr>"

text \<open>The encoded sizes of the leaves.\<close>

record ('res, 'sc, 'it) leaf_sizes =
  res_sz :: "'res \<Rightarrow> nat"
  scope_sz :: "'sc \<Rightarrow> nat"
  item_sz :: "'it \<Rightarrow> nat"

definition LogsBytesSizer :: "('res, 'sc, 'it) leaf_sizes \<Rightarrow> ('res, 'sc, 'it) data_sizer" where
  "LogsBytesSizer L =
     \<lparr>DataSize = Data_SizeProto (res_sz L) (scope_sz L) (item_sz L),
      ResourceSize = ResourceItems_SizeProto (res_sz L) (scope_sz L) (item_sz L),
      ScopeSize = ScopeItems_SizeProto (scope_sz L) (item_sz L),
      ItemSize = (\<lambda>x. int (item_sz L x)),
      DeltaSize = protoDelta_DeltaSize\<rparr>"

definition TracesBytesSizer :: "('res, 'sc, 'it) leaf_sizes \<Rightarrow> ('res, 'sc, 'it) data_sizer" where
  "TracesBytesSizer L =
     \<lparr>DataSize = Data_SizeProto (res_sz L) (scope_sz L) (item_sz L),
      ResourceSize = ResourceItems_SizeProto (res_sz L) (scope_sz L) (item_sz L),
      ScopeSize = ScopeItems_SizeProto (scope_sz L) (item_sz L),
      ItemSize = (\<lambda>x. int (item_sz L x)),
      DeltaSize = protoDelta_DeltaSize\<rparr>"

section \<open>What the splitting code relies on\<close>

lemma bit_len_mono: "m \<le> n \<Longrightarrow> bit_len m \<le> bit_len n"
  by (metis bit_len_less le_less_trans order_refl)

lemma sov_eq_Sov: "sov = Sov"
  by (simp add: fun_eq_iff sov_def Sov_def)

lemma Sov_mono: "unat v \<le> unat w \<Longrightarrow> Sov v \<le> Sov w"
  by (simp add: Sov_def Len64_or_one bit_len_mono div_le_mono)

lemma field_size_DeltaSize: "field_size n = protoDelta_DeltaSize n"
  by (simp add: field_size_def protoDelta_DeltaSize_def sov_eq_Sov)

lemma DeltaSize_overhead:
  "2 \<le> protoDelta_DeltaSize n - n" "protoDelta_DeltaSize n - n \<le> 11"
  using Sov_bounds [of "word_of_int n"] by (auto simp: protoDelta_DeltaSize_def sov_eq_Sov)

lemma DeltaSize_overhead_mono:
  assumes "0 \<le> m" "m \<le> n" "n < 2 ^ 64"
  shows "protoDelta_DeltaSize m - m \<le> protoDelta_DeltaSize n - n"
proof -
  have "unat (word_of_int m :: u64) = nat m" "unat (word_of_int n :: u64) = nat n"
    using assms by (simp_all add: unat_eq_nat_uint uint_word_of_int)
  then have "Sov (word_of_int m) \<le> Sov (word_of_int n)"
    using assms by (intro Sov_mono) simp
  then show ?thesis by (simp add: protoDelta_DeltaSize_def sov_eq_Sov)
qed

lemma string_size_nonneg [simp]: "0 \<le> string_size s"
  by (simp add: string_size_def Let_def field_size_def)

lemma ScopeItems_SizeProto_nonneg [simp]: "0 \<le> ScopeItems_SizeProto f g sl"
  by (auto simp: ScopeItems_SizeProto_def field_size_def intro!: sum_list_nonneg add_nonneg_nonneg)

lemma field_size_grows: "n \<le> field_size n"
  by (simp add: field_size_def)

lemma field_size_pos: "0 \<le> n \<Longrightarrow> 0 < field_size n"
  by (simp add: field_size_def)

text \<open>Small sizes, for concrete computations.\<close>

lemma Sov_small: "unat v < 128 \<Longrightarrow> Sov v = 1"
proof -
  assume "unat v < 128"
  then have "unat v div 2 < 2 ^ 6" by simp
  then have "bit_len (unat v div 2) \<le> 6" by (simp only: bit_len_less)
  then show ?thesis unfolding Sov_def Len64_or_one by linarith
qed

lemma Sov_medium: "128 \<le> unat v \<Longrightarrow> unat v < 16384 \<Longrightarrow> Sov v = 2"
proof -
  assume "128 \<le> unat v" "unat v < 16384"
  then have lt: "unat v div 2 < 2 ^ 13" and ge: "\<not> unat v div 2 < 2 ^ 6" by simp_all
  have "bit_len (unat v div 2) \<le> 13" using lt by (simp only: bit_len_less)
  moreover have "\<not> bit_len (unat v div 2) \<le> 6" using ge by (simp only: bit_len_less not_False_eq_True)
  ultimately have "bit_len (unat v div 2) \<le> 13" "7 \<le> bit_len (unat v div 2)" by linarith+
  then show ?thesis unfolding Sov_def Len64_or_one by linarith
qed

lemma DeltaSize_small [simp]:
  "0 \<le> n \<Longrightarrow> n < 128 \<Longrightarrow> protoDelta_DeltaSize n = n + 2"
  "128 \<le> n \<Longrightarrow> n < 16384 \<Longrightarrow> protoDelta_DeltaSize n = n + 3"
  using Sov_small [of "word_of_int n"] Sov_medium [of "word_of_int n"]
  by (simp_all add: protoDelta_DeltaSize_def sov_eq_Sov unat_eq_nat_uint uint_word_of_int)

lemma field_size_nonneg: "0 \<le> n \<Longrightarrow> 0 \<le> field_size n"
  by (simp add: field_size_def)

locale sizer_laws =
  fixes S :: "('res, 'sc, 'it) data_sizer"
  assumes data_size: "DataSize S ld = (\<Sum>rl\<leftarrow>ld. DeltaSize S (ResourceSize S rl))"
    and resource_size: "ResourceSize S rl =
      ResourceSize S (rl\<lparr>Scopes := []\<rparr>) + (\<Sum>sl\<leftarrow>Scopes rl. DeltaSize S (ScopeSize S sl))"
    and scope_size: "ScopeSize S sl =
      ScopeSize S (sl\<lparr>Items := []\<rparr>) + (\<Sum>it\<leftarrow>Items sl. DeltaSize S (ItemSize S it))"
    and resource_header: "0 \<le> ResourceSize S (rl\<lparr>Scopes := [], DeprecatedScopes := []\<rparr>)"
      "ResourceSize S (rl\<lparr>Scopes := [], DeprecatedScopes := []\<rparr>) \<le> ResourceSize S (rl\<lparr>Scopes := []\<rparr>)"
    and scope_header: "0 \<le> ScopeSize S (sl\<lparr>Items := []\<rparr>)"
    and item_size: "0 < DeltaSize S (ItemSize S it)"
    and delta_grows: "n \<le> DeltaSize S n"
    and delta_overhead_mono: "0 \<le> m \<Longrightarrow> m \<le> n \<Longrightarrow> n < 2 ^ 63 \<Longrightarrow>
      DeltaSize S m - m \<le> DeltaSize S n - n"
begin

lemma delta_mono: "0 \<le> m \<Longrightarrow> m \<le> n \<Longrightarrow> n < 2 ^ 63 \<Longrightarrow> DeltaSize S m \<le> DeltaSize S n"
  using delta_overhead_mono [of m n] by linarith

lemma scope_nonneg: "0 \<le> ScopeSize S sl"
proof -
  have "0 \<le> (\<Sum>it\<leftarrow>Items sl. DeltaSize S (ItemSize S it))"
    by (intro sum_list_nonneg) (auto simp: less_imp_le item_size)
  then show ?thesis
    using scope_header [of sl] by (subst scope_size) linarith
qed

lemma delta_scope_nonneg: "0 \<le> DeltaSize S (ScopeSize S sl)"
  using scope_nonneg [of sl] delta_grows [of "ScopeSize S sl"] by linarith

lemma resource_nonneg: "0 \<le> ResourceSize S rl"
proof -
  have "0 \<le> (\<Sum>sl\<leftarrow>Scopes rl. DeltaSize S (ScopeSize S sl))"
    by (auto intro!: sum_list_nonneg delta_scope_nonneg)
  then show ?thesis
    using resource_header [of rl] by (subst resource_size) linarith
qed

lemma delta_resource_nonneg: "0 \<le> DeltaSize S (ResourceSize S rl)"
  using resource_nonneg [of rl] delta_grows [of "ResourceSize S rl"] by linarith

lemma data_nonneg: "0 \<le> DataSize S ld"
  by (auto simp: data_size intro!: sum_list_nonneg delta_resource_nonneg)

text \<open>What fits the room left in a parent, once the parent has set the overhead aside, fits the
  parent with its own overhead.\<close>

lemma room_for_child:
  assumes "0 \<le> x" "x \<le> room - (DeltaSize S room - room)" "room < 2 ^ 63"
  shows "DeltaSize S x \<le> room"
  using assms delta_grows [of room] delta_overhead_mono [of x room] by linarith

end

interpretation logs_count: sizer_laws LogsCountSizer
  by unfold_locales (simp_all add: LogsCountSizer_def LogRecordCount_def sum_list_triv)

interpretation traces_count: sizer_laws TracesCountSizer
  by unfold_locales (simp_all add: TracesCountSizer_def SpanCount_def sum_list_triv)

lemma LogsBytesSizer_laws: "sizer_laws (LogsBytesSizer L)"
proof
  show "DataSize (LogsBytesSizer L) ld =
      (\<Sum>rl\<leftarrow>ld. DeltaSize (LogsBytesSizer L) (ResourceSize (LogsBytesSizer L) rl))" for ld
    by (simp add: LogsBytesSizer_def Data_SizeProto_def field_size_DeltaSize)
  show "DeltaSize (LogsBytesSizer L) m - m \<le> DeltaSize (LogsBytesSizer L) n - n"
    if "0 \<le> m" "m \<le> n" "n < 2 ^ 63" for m n
    using DeltaSize_overhead_mono [of m n] that by (simp add: LogsBytesSizer_def)
  show "ScopeSize (LogsBytesSizer L) sl = ScopeSize (LogsBytesSizer L) (sl\<lparr>Items := []\<rparr>)
      + (\<Sum>it\<leftarrow>Items sl. DeltaSize (LogsBytesSizer L) (ItemSize (LogsBytesSizer L) it))" for sl
    by (simp add: LogsBytesSizer_def ScopeItems_SizeProto_def field_size_DeltaSize)
qed (auto simp: LogsBytesSizer_def ResourceItems_SizeProto_def field_size_DeltaSize [symmetric]
      field_size_pos field_size_grows
      intro!: sum_list_nonneg add_nonneg_nonneg field_size_nonneg)

interpretation logs_bytes: sizer_laws "LogsBytesSizer L" for L
  by (rule LogsBytesSizer_laws)

interpretation traces_bytes: sizer_laws "TracesBytesSizer L" for L
  using LogsBytesSizer_laws [of L] by (simp add: TracesBytesSizer_def LogsBytesSizer_def)

end
