(* ===== verification/QueueConfig.thy ===== *)
theory QueueConfig
  imports Requests
begin

text \<open>
  The configuration of queueing and batching: \<^verbatim>\<open>exporterhelper/internal/queuebatch/config.go\<close>. A duration
  is its number of nanoseconds. The lower-casing of the standard library is the argument \<open>lower\<close>,
  because it depends on the Unicode tables. An error is a constructor that carries the values
  printed in its message. \<^verbatim>\<open>Validate\<close> of a nil receiver is the case \<open>None\<close>.
\<close>

record PartitionConfig =
  MetadataKeys :: "string list"
  CacheSize :: int
  IdleTimeout :: int

record BatchConfig =
  FlushTimeout :: int
  BatchSizer :: SizerType
  MinSize :: int
  MaxSize :: int
  Partition :: PartitionConfig

record Config =
  WaitForResult :: bool
  QueueSizer :: SizerType
  QueueSize :: int
  BlockOnOverflow :: bool
  StorageID :: "string option"
  NumConsumers :: int
  Batch :: "BatchConfig option"

datatype config_error =
    NumConsumersNotPositive
  | QueueSizeNotPositive
  | WaitForResultWithStorage
  | MinSizeAboveQueueSize
  | UnsupportedBatchSizer string
  | FlushTimeoutNotPositive int
  | MinSizeNegative int
  | MaxSizeNegative int
  | MaxSizeBelowMinSize int int
  | IdleTimeoutNotPositive int
  | DuplicateMetadataKey string
  | CacheSizeNotPositive int

definition NewDefaultPartitionConfig :: PartitionConfig where
  "NewDefaultPartitionConfig = \<lparr>MetadataKeys = [], CacheSize = 10000, IdleTimeout = 90 * 1000000000\<rparr>"

definition NewDefaultBatchConfig :: BatchConfig where
  "NewDefaultBatchConfig =
     \<lparr>FlushTimeout = 200 * 1000000, BatchSizer = SizerTypeItems, MinSize = 8192, MaxSize = 0,
      Partition = NewDefaultPartitionConfig\<rparr>"

definition Config_Validate :: "Config \<Rightarrow> config_error option" where
  "Config_Validate c =
     (if NumConsumers c \<le> 0 then Some NumConsumersNotPositive
      else if QueueSize c \<le> 0 then Some QueueSizeNotPositive
      else if StorageID c \<noteq> None \<and> WaitForResult c then Some WaitForResultWithStorage
      else case Batch c of
          None \<Rightarrow> None
        | Some b \<Rightarrow>
            if BatchSizer b = QueueSizer c \<and> MinSize b > QueueSize c then Some MinSizeAboveQueueSize else None)"

definition BatchConfig_Validate :: "BatchConfig option \<Rightarrow> config_error option" where
  "BatchConfig_Validate cfg =
     (case cfg of
        None \<Rightarrow> None
      | Some c \<Rightarrow>
          if BatchSizer c \<noteq> SizerTypeItems \<and> BatchSizer c \<noteq> SizerTypeBytes
          then Some (UnsupportedBatchSizer (val (BatchSizer c)))
          else if FlushTimeout c \<le> 0 then Some (FlushTimeoutNotPositive (FlushTimeout c))
          else if MinSize c < 0 then Some (MinSizeNegative (MinSize c))
          else if MaxSize c < 0 then Some (MaxSizeNegative (MaxSize c))
          else if MaxSize c > 0 \<and> MaxSize c < MinSize c then Some (MaxSizeBelowMinSize (MaxSize c) (MinSize c))
          else None)"

fun duplicate_key :: "(string \<Rightarrow> string) \<Rightarrow> string set \<Rightarrow> string list \<Rightarrow> string option" where
  "duplicate_key lower uniq [] = None"
| "duplicate_key lower uniq (k # ks) =
     (if lower k \<in> uniq then Some (lower k) else duplicate_key lower (insert (lower k) uniq) ks)"

definition PartitionConfig_Validate :: "(string \<Rightarrow> string) \<Rightarrow> PartitionConfig option \<Rightarrow> config_error option" where
  "PartitionConfig_Validate lower cfg =
     (case cfg of
        None \<Rightarrow> None
      | Some c \<Rightarrow>
          if IdleTimeout c \<le> 0 then Some (IdleTimeoutNotPositive (IdleTimeout c))
          else case duplicate_key lower {} (MetadataKeys c) of
              Some l \<Rightarrow> Some (DuplicateMetadataKey l)
            | None \<Rightarrow> if CacheSize c \<le> 0 then Some (CacheSizeNotPositive (CacheSize c)) else None)"

lemma duplicate_key_None:
  "duplicate_key lower uniq ks = None \<longleftrightarrow> distinct (map lower ks) \<and> lower ` set ks \<inter> uniq = {}"
  by (induction ks arbitrary: uniq) auto

lemma duplicate_key_Some:
  "duplicate_key lower uniq ks = Some l \<longleftrightarrow>
     (\<exists>pre k post. ks = pre @ k # post \<and> lower k = l \<and> l \<in> uniq \<union> lower ` set pre \<and>
        distinct (map lower pre) \<and> lower ` set pre \<inter> uniq = {})"
  (is "_ \<longleftrightarrow> ?first uniq ks")
proof (induction ks arbitrary: uniq)
  case (Cons k ks)
  show ?case
  proof (cases "lower k \<in> uniq")
    case True
    have "?first uniq (k # ks)" if "lower k = l"
      by (rule exI [of _ "[]"], rule exI [of _ k], rule exI [of _ ks]) (use that True in simp)
    moreover have "lower k = l" if "?first uniq (k # ks)"
      using that True by (auto simp: Cons_eq_append_conv)
    ultimately show ?thesis unfolding duplicate_key.simps if_P [OF True] option.inject by blast
  next
    case False
    have "?first uniq (k # ks)" if found: "?first (insert (lower k) uniq) ks"
    proof -
      obtain pre k' post where "ks = pre @ k' # post" "lower k' = l" "l \<in> insert (lower k) uniq \<union> lower ` set pre"
        "distinct (map lower pre)" "lower ` set pre \<inter> insert (lower k) uniq = {}" using found by blast
      then show ?thesis
        by (intro exI [of _ "k # pre"] exI [of _ k'] exI [of _ post]) (use False in auto)
    qed
    moreover have "?first (insert (lower k) uniq) ks" if found: "?first uniq (k # ks)"
    proof -
      obtain pre k' post where first: "k # ks = pre @ k' # post" "lower k' = l" "l \<in> uniq \<union> lower ` set pre"
        "distinct (map lower pre)" "lower ` set pre \<inter> uniq = {}" using found by blast
      then obtain pre' where "pre = k # pre'" using False by (cases pre) auto
      then show ?thesis
        using first by (intro exI [of _ pre'] exI [of _ k'] exI [of _ post]) auto
    qed
    ultimately show ?thesis unfolding duplicate_key.simps if_not_P [OF False] Cons.IH by (rule iffI)
  qed
qed simp

section \<open>Properties\<close>

text \<open>
  A partition configuration with a positive idle timeout is refused for a metadata key exactly if that key is the
  first that repeats an earlier one up to case, and it is accepted exactly if no two keys are equal up to case and
  the cache size is positive.
\<close>

theorem partition_config_reports_first_duplicate:
  assumes "0 < IdleTimeout c"
  shows "(PartitionConfig_Validate lower (Some c) = Some (DuplicateMetadataKey l) \<longleftrightarrow>
      (\<exists>pre k post. MetadataKeys c = pre @ k # post \<and> lower k = l \<and> l \<in> lower ` set pre \<and> distinct (map lower pre))) \<and>
    (PartitionConfig_Validate lower (Some c) = None \<longleftrightarrow> distinct (map lower (MetadataKeys c)) \<and> 0 < CacheSize c)"
  using assms duplicate_key_Some [of lower "{}" "MetadataKeys c" l] duplicate_key_None [of lower "{}" "MetadataKeys c"]
  by (auto simp: PartitionConfig_Validate_def split: option.splits)

theorem partition_config_reports_first_duplicate_witness:
  "(PartitionConfig_Validate id (Some (NewDefaultPartitionConfig\<lparr>MetadataKeys := [''a'', ''b'']\<rparr>)) = None) =
   (distinct (map id [''a'', ''b'']) \<and> (0::int) < 10000)"
  using partition_config_reports_first_duplicate [of "NewDefaultPartitionConfig\<lparr>MetadataKeys := [''a'', ''b'']\<rparr>" id "''b''"]
  by (simp add: NewDefaultPartitionConfig_def)

end
