(* ===== verification/PartitionBatcher.thy ===== *)
theory PartitionBatcher
  imports QueueConfig "HOL-Library.Multiset" "HOL-Library.Sublist"
begin

text \<open>
  The batcher of one partition: \<^verbatim>\<open>exporterhelper/internal/queuebatch/partition_batcher.go\<close>.

  A request, a context and an export error are values of the parameter types \<open>'r\<close>, \<open>'c\<close>, \<open>'e\<close>. The
  requests' methods, the merging of contexts and the clock are the record \<open>batch_env\<close>. An error is
  the list of errors that \<^verbatim>\<open>multierr\<close> has joined, empty for nil. A callback of the queue is a
  number; a reference-counting callback is an address in the list \<open>refs\<close>. A flush hands a request and
  its callbacks to a worker: it is recorded in \<open>flushes\<close> until \<open>exported\<close>, the end of the worker's
  call. The timer is nil until \<^verbatim>\<open>Start\<close>, then it counts its resets; resetting a nil timer
  panics, and a state that has panicked is not used again. \<open>emptyCalls\<close> counts the decisions to call
  \<^verbatim>\<open>onEmpty\<close>: the code makes the call after it has released the lock.
\<close>

section \<open>State\<close>

datatype Done = QueueDone nat | RefDone nat

record 'e refCountDone =
  rc_done :: nat
  refCount :: int
  rc_err :: "'e list"

record ('c, 'r) batch =
  b_ctx :: 'c
  b_req :: 'r
  b_done :: "Done list"

record ('c, 'r, 'e) partitionBatcher =
  cfg :: BatchConfig
  currentBatch :: "('c, 'r) batch option"
  active :: bool
  onEmpty :: bool
  lastDataTime :: int
  timer :: "nat option"
  panicked :: bool
  emptyCalls :: nat
  refs :: "'e refCountDone list"
  called :: "(nat \<times> 'e list) list"
  flushes :: "('c, 'r) batch list"

record ('c, 'r, 'e) batch_env =
  MergeSplit :: "'r \<Rightarrow> int \<Rightarrow> SizerType \<Rightarrow> 'r option \<Rightarrow> 'r list \<times> 'e list \<times> 'r"
  Sizeof :: "'r \<Rightarrow> int"
  background :: 'c
  mergeCtx :: "('c \<Rightarrow> 'c \<Rightarrow> 'c) option"
  contextWithMergedLinks :: "'c \<Rightarrow> 'c \<Rightarrow> 'c \<Rightarrow> 'c"

definition newPartitionBatcher :: "BatchConfig \<Rightarrow> bool \<Rightarrow> int \<Rightarrow> ('c, 'r, 'e) partitionBatcher" where
  "newPartitionBatcher c has_onEmpty now =
     \<lparr>cfg = c, currentBatch = None, active = True, onEmpty = has_onEmpty, lastDataTime = now,
      timer = None, panicked = False, emptyCalls = 0, refs = [], called = [], flushes = []\<rparr>"

section \<open>Callbacks\<close>

definition newRefCountDone ::
  "nat \<Rightarrow> int \<Rightarrow> ('c, 'r, 'e) partitionBatcher \<Rightarrow> Done \<times> ('c, 'r, 'e) partitionBatcher" where
  "newRefCountDone d n qb =
     (RefDone (length (refs qb)), qb\<lparr>refs := refs qb @ [\<lparr>rc_done = d, refCount = n, rc_err = []\<rparr>]\<rparr>)"

definition refCountDone_OnDone ::
  "nat \<Rightarrow> 'e list \<Rightarrow> ('c, 'r, 'e) partitionBatcher \<Rightarrow> ('c, 'r, 'e) partitionBatcher" where
  "refCountDone_OnDone a err qb =
     (let rcd = (refs qb ! a)\<lparr>rc_err := rc_err (refs qb ! a) @ err, refCount := refCount (refs qb ! a) - 1\<rparr>;
          qb' = qb\<lparr>refs := (refs qb)[a := rcd]\<rparr>
      in if refCount rcd = 0 then qb'\<lparr>called := called qb' @ [(rc_done rcd, rc_err rcd)]\<rparr> else qb')"

fun OnDone :: "Done \<Rightarrow> 'e list \<Rightarrow> ('c, 'r, 'e) partitionBatcher \<Rightarrow> ('c, 'r, 'e) partitionBatcher" where
  "OnDone (QueueDone i) err qb = qb\<lparr>called := called qb @ [(i, err)]\<rparr>"
| "OnDone (RefDone a) err qb = refCountDone_OnDone a err qb"

definition multiDone_OnDone ::
  "Done list \<Rightarrow> 'e list \<Rightarrow> ('c, 'r, 'e) partitionBatcher \<Rightarrow> ('c, 'r, 'e) partitionBatcher" where
  "multiDone_OnDone ds err qb = fold (\<lambda>d. OnDone d err) ds qb"

section \<open>Consuming and flushing\<close>

definition resetTimer :: "('c, 'r, 'e) partitionBatcher \<Rightarrow> ('c, 'r, 'e) partitionBatcher" where
  "resetTimer qb = (if FlushTimeout (cfg qb) > 0 then
        (case timer qb of None \<Rightarrow> qb\<lparr>panicked := True\<rparr> | Some n \<Rightarrow> qb\<lparr>timer := Some (Suc n)\<rparr>)
      else qb)"

definition flush ::
  "'c \<Rightarrow> 'r \<Rightarrow> Done list \<Rightarrow> ('c, 'r, 'e) partitionBatcher \<Rightarrow> ('c, 'r, 'e) partitionBatcher" where
  "flush ctx req ds qb = qb\<lparr>flushes := flushes qb @ [\<lparr>b_ctx = ctx, b_req = req, b_done = ds\<rparr>]\<rparr>"

definition flush_all ::
  "'c \<Rightarrow> 'r list \<Rightarrow> Done \<Rightarrow> ('c, 'r, 'e) partitionBatcher \<Rightarrow> ('c, 'r, 'e) partitionBatcher" where
  "flush_all ctx reqList d qb = fold (\<lambda>req. flush ctx req [d]) reqList qb"

text \<open>The block that both branches of \<^verbatim>\<open>consumeInternal\<close> share: one reference for every request, one
  for a split error, which is reported at once.\<close>

definition share_done ::
  "nat \<Rightarrow> 'r list \<Rightarrow> 'e list \<Rightarrow> ('c, 'r, 'e) partitionBatcher \<Rightarrow> Done \<times> ('c, 'r, 'e) partitionBatcher" where
  "share_done i reqList err qb =
     (let numRefs = int (length reqList) + (if err \<noteq> [] then 1 else 0) in
      if numRefs > 1 then
        (case newRefCountDone i numRefs qb of (d, qb1) \<Rightarrow> (d, if err \<noteq> [] then OnDone d err qb1 else qb1))
      else (QueueDone i, qb))"

text \<open>The last request becomes the current batch if it is smaller than \<^verbatim>\<open>MinSize\<close>; the requests to
  flush are returned.\<close>

definition keep_last ::
  "('c, 'r, 'e) batch_env \<Rightarrow> 'c \<Rightarrow> 'r list \<Rightarrow> Done \<Rightarrow> ('c, 'r, 'e) partitionBatcher \<Rightarrow>
     'r list \<times> ('c, 'r, 'e) partitionBatcher" where
  "keep_last env ctx reqList d qb =
     (let lastReq = last reqList in
      if Sizeof env lastReq < MinSize (cfg qb) then
        (butlast reqList,
         resetTimer (qb\<lparr>currentBatch := Some \<lparr>b_ctx = ctx, b_req = lastReq, b_done = [d]\<rparr>\<rparr>))
      else (reqList, qb))"

text \<open>The end of the branch with a current batch \<open>b\<close>: it takes the first request and is flushed if there
  are more or if it is big enough; then the others.\<close>

definition merged_batch ::
  "('c, 'r, 'e) batch_env \<Rightarrow> 'c \<Rightarrow> 'r list \<Rightarrow> Done \<Rightarrow> ('c, 'r) batch \<Rightarrow> ('c, 'r) batch" where
  "merged_batch env ctx reqList d b =
     (let mergedCtx = (case mergeCtx env of None \<Rightarrow> background env | Some f \<Rightarrow> f (b_ctx b) ctx) in
      \<lparr>b_ctx = contextWithMergedLinks env mergedCtx (b_ctx b) ctx, b_req = hd reqList, b_done = b_done b @ [d]\<rparr>)"

definition extend_current ::
  "('c, 'r, 'e) batch_env \<Rightarrow> 'c \<Rightarrow> 'r list \<Rightarrow> Done \<Rightarrow> ('c, 'r) batch \<Rightarrow> ('c, 'r, 'e) partitionBatcher \<Rightarrow>
     ('c, 'r, 'e) partitionBatcher" where
  "extend_current env ctx reqList d b qb =
     (let cur = merged_batch env ctx reqList d b in
      if length reqList > 1 \<or> Sizeof env (b_req cur) \<ge> MinSize (cfg qb) then
        (let qb1 = qb\<lparr>currentBatch := None\<rparr> in
         case (if tl reqList \<noteq> [] then keep_last env ctx (tl reqList) d qb1 else ([], qb1)) of (reqList', qb2) \<Rightarrow>
           flush_all ctx reqList' d (flush (b_ctx cur) (b_req cur) (b_done cur) qb2))
      else qb\<lparr>currentBatch := Some cur\<rparr>)"

definition consumeInternal ::
  "('c, 'r, 'e) batch_env \<Rightarrow> int \<Rightarrow> 'c \<Rightarrow> 'r \<Rightarrow> nat \<Rightarrow> ('c, 'r, 'e) partitionBatcher \<Rightarrow>
     bool \<times> ('c, 'r, 'e) partitionBatcher" where
  "consumeInternal env now ctx req i qb0 =
     (let isActive = active qb0; qb = qb0\<lparr>lastDataTime := now\<rparr> in
      case currentBatch qb of
        None \<Rightarrow>
          (case MergeSplit env req (MaxSize (cfg qb)) (BatchSizer (cfg qb)) None of (reqList, err, _) \<Rightarrow>
             if reqList = [] then (isActive, OnDone (QueueDone i) err qb)
             else
               (case share_done i reqList err qb of (d, qb1) \<Rightarrow>
                case keep_last env ctx reqList d qb1 of (reqList', qb2) \<Rightarrow>
                  (isActive, flush_all ctx reqList' d qb2)))
      | Some b \<Rightarrow>
          (case MergeSplit env (b_req b) (MaxSize (cfg qb)) (BatchSizer (cfg qb)) (Some req) of (reqList, err, recv) \<Rightarrow>
             if reqList = [] then
               (isActive, OnDone (QueueDone i) err (qb\<lparr>currentBatch := Some (b\<lparr>b_req := recv\<rparr>)\<rparr>))
             else
               (case share_done i reqList err qb of (d, qb1) \<Rightarrow> (isActive, extend_current env ctx reqList d b qb1))))"

definition flushCurrentBatchOrRemovePartition ::
  "int \<Rightarrow> ('c, 'r, 'e) partitionBatcher \<Rightarrow> ('c, 'r, 'e) partitionBatcher" where
  "flushCurrentBatchOrRemovePartition now qb =
     (case currentBatch qb of
        None \<Rightarrow>
          if now - lastDataTime qb \<ge> IdleTimeout (Partition (cfg qb)) \<and> onEmpty qb
          then qb\<lparr>emptyCalls := Suc (emptyCalls qb)\<rparr>
          else if timer qb \<noteq> None then resetTimer qb else qb
      | Some b \<Rightarrow>
          flush (b_ctx b) (b_req b) (b_done b)
            (resetTimer (qb\<lparr>lastDataTime := now, currentBatch := None\<rparr>)))"

definition Consume ::
  "('c, 'r, 'e) batch_env \<Rightarrow> int \<Rightarrow> 'c \<Rightarrow> 'r \<Rightarrow> nat \<Rightarrow> ('c, 'r, 'e) partitionBatcher \<Rightarrow>
     ('c, 'r, 'e) partitionBatcher" where
  "Consume env now ctx req i qb =
     (case consumeInternal env now ctx req i qb of (isActive, qb') \<Rightarrow>
        if \<not> isActive then flushCurrentBatchOrRemovePartition now qb' else qb')"

text \<open>The goroutine that \<^verbatim>\<open>Start\<close> spawns calls \<open>flushCurrentBatchOrRemovePartition\<close> when the timer fires.\<close>

definition Start :: "('c, 'r, 'e) partitionBatcher \<Rightarrow> ('c, 'r, 'e) partitionBatcher" where
  "Start qb = (if FlushTimeout (cfg qb) \<le> 0 then qb else qb\<lparr>timer := Some 0\<rparr>)"

definition shutdownInternal :: "int \<Rightarrow> ('c, 'r, 'e) partitionBatcher \<Rightarrow> ('c, 'r, 'e) partitionBatcher" where
  "shutdownInternal now qb =
     (if \<not> active qb then qb
      else flushCurrentBatchOrRemovePartition now (qb\<lparr>active := False, onEmpty := False\<rparr>))"

text \<open>A worker finishes the export of a flushed request: the callbacks get its result.\<close>

definition exported :: "nat \<Rightarrow> 'e list \<Rightarrow> ('c, 'r, 'e) partitionBatcher \<Rightarrow> ('c, 'r, 'e) partitionBatcher" where
  "exported k res qb =
     multiDone_OnDone (b_done (flushes qb ! k)) res (qb\<lparr>flushes := take k (flushes qb) @ drop (Suc k) (flushes qb)\<rparr>)"

section \<open>Accounting for the callbacks\<close>

text \<open>
  \<open>accounted D ids qb\<close>: if the callbacks \<open>D\<close> are still to be called, then every reference count is the
  number of its outstanding references, and the callbacks of the queue that were called, are
  outstanding, or wait behind a live reference count are together \<open>ids\<close>.
\<close>

fun queue_id :: "Done \<Rightarrow> nat multiset" where
  "queue_id (QueueDone i) = {#i#}"
| "queue_id (RefDone a) = {#}"

definition queue_ids :: "Done multiset \<Rightarrow> nat multiset" where
  "queue_ids D = (\<Sum>d \<in># D. queue_id d)"

definition live_ids :: "'e refCountDone list \<Rightarrow> nat multiset" where
  "live_ids rs = mset (map rc_done (filter (\<lambda>rc. refCount rc > 0) rs))"

definition accounted :: "Done multiset \<Rightarrow> nat multiset \<Rightarrow> ('c, 'r, 'e) partitionBatcher \<Rightarrow> bool" where
  "accounted D ids qb \<longleftrightarrow>
     (\<forall>a. int (count D (RefDone a)) = (if a < length (refs qb) then refCount (refs qb ! a) else 0)) \<and>
     mset (map fst (called qb)) + queue_ids D + live_ids (refs qb) = ids"

lemma queue_ids_simps [simp]:
  "queue_ids {#} = {#}" "queue_ids (add_mset d D) = queue_id d + queue_ids D"
  "queue_ids (D + E) = queue_ids D + queue_ids E"
  by (simp_all add: queue_ids_def)

lemma queue_ids_replicate_ref [simp]: "queue_ids (replicate_mset n (RefDone a)) = {#}"
  by (induction n) simp_all

lemma live_ids_simps [simp]:
  "live_ids [] = {#}" "live_ids (rs @ ss) = live_ids rs + live_ids ss"
  "live_ids (rc # rs) = (if refCount rc > 0 then add_mset (rc_done rc) (live_ids rs) else live_ids rs)"
  by (simp_all add: live_ids_def)

lemma live_ids_update:
  assumes "a < length rs" "refCount (rs ! a) > 0" "rc_done rc = rc_done (rs ! a)"
  shows "live_ids rs = live_ids (rs[a := rc]) + (if refCount rc > 0 then {#} else {#rc_done rc#})"
proof -
  have "rs = take a rs @ rs ! a # drop (Suc a) rs" using assms(1) by (rule id_take_nth_drop)
  then have "live_ids rs = live_ids (take a rs) + live_ids [rs ! a] + live_ids (drop (Suc a) rs)"
    by (metis append_Cons append_Nil live_ids_simps(2) add.assoc)
  moreover have "live_ids (rs[a := rc]) = live_ids (take a rs) + live_ids [rc] + live_ids (drop (Suc a) rs)"
    using assms(1) by (simp add: upd_conv_take_nth_drop)
  ultimately show ?thesis using assms(2,3) by simp
qed

lemma accounted_cong:
  "refs qb = refs qb' \<Longrightarrow> called qb = called qb' \<Longrightarrow> accounted D ids qb = accounted D ids qb'"
  by (simp add: accounted_def)

lemma accounted_refOnDone:
  assumes acc: "accounted (add_mset (RefDone a) D) ids qb"
  shows "accounted D ids (refCountDone_OnDone a err qb)"
proof -
  define rc where "rc = (refs qb ! a)\<lparr>rc_err := rc_err (refs qb ! a) @ err, refCount := refCount (refs qb ! a) - 1\<rparr>"
  define rs where "rs = (refs qb)[a := rc]"
  have counts: "int (count (add_mset (RefDone a) D) (RefDone b)) =
      (if b < length (refs qb) then refCount (refs qb ! b) else 0)" for b
    using acc unfolding accounted_def by blast
  have a: "a < length (refs qb)" "refCount (refs qb ! a) = int (count D (RefDone a)) + 1"
    using counts [of a] by (simp_all split: if_splits)
  have rc: "refCount rc = int (count D (RefDone a))" "rc_done rc = rc_done (refs qb ! a)"
    using a(2) by (simp_all add: rc_def)
  have live: "live_ids (refs qb) = live_ids rs + (if refCount rc > 0 then {#} else {#rc_done rc#})"
    unfolding rs_def using a rc by (intro live_ids_update) simp_all
  have refs': "int (count D (RefDone b)) = (if b < length rs then refCount (rs ! b) else 0)" for b
    using counts [of b] a(1) rc(1) by (cases "b = a") (simp_all add: rs_def split: if_splits)
  have total: "mset (map fst (called qb)) + queue_ids D + live_ids (refs qb) = ids"
    using acc by (simp add: accounted_def)
  have result: "refs (refCountDone_OnDone a err qb) = rs"
    "called (refCountDone_OnDone a err qb) =
       called qb @ (if refCount rc = 0 then [(rc_done rc, rc_err rc)] else [])"
    by (simp_all add: refCountDone_OnDone_def Let_def rc_def rs_def)
  have "mset (map fst (called (refCountDone_OnDone a err qb))) + queue_ids D + live_ids rs = ids"
    unfolding result(2) total [symmetric] live using rc(1) by (cases "refCount rc = 0") simp_all
  then show ?thesis
    unfolding accounted_def result(1) using refs' by blast
qed

lemma accounted_OnDone: "accounted (add_mset d D) ids qb \<Longrightarrow> accounted D ids (OnDone d err qb)"
  by (cases d) (simp_all add: accounted_refOnDone, simp add: accounted_def)

lemma accounted_multiDone: "accounted (mset ds + D) ids qb \<Longrightarrow> accounted D ids (multiDone_OnDone ds err qb)"
  unfolding multiDone_OnDone_def
  by (induction ds arbitrary: qb) (simp_all add: accounted_OnDone)

lemma accounted_share_done:
  fixes qb qb' :: "('c, 'r, 'e) partitionBatcher"
  assumes acc: "accounted D ids qb" and share: "share_done i reqList err qb = (d, qb')" and "reqList \<noteq> []"
  shows "accounted (replicate_mset (length reqList) d + D) (add_mset i ids) qb'"
proof (cases "int (length reqList) + (if err \<noteq> [] then 1 else 0) > 1")
  case True
  define n where "n = length reqList + (if err \<noteq> [] then 1 else 0)"
  define rc :: "'e refCountDone" where "rc = \<lparr>rc_done = i, refCount = int n, rc_err = []\<rparr>"
  define qb1 where "qb1 = qb\<lparr>refs := refs qb @ [rc]\<rparr>"
  have n: "int (length reqList) + (if err \<noteq> [] then 1 else 0) = int n" "1 < n"
    using True by (simp_all add: n_def split: if_splits)
  have d: "d = RefDone (length (refs qb))" and qb': "qb' = (if err \<noteq> [] then OnDone d err qb1 else qb1)"
    using share n by (auto simp: share_done_def newRefCountDone_def qb1_def rc_def Let_def)
  have fresh: "count D (RefDone (length (refs qb))) = 0"
    using acc by (simp add: accounted_def) (metis less_irrefl of_nat_eq_0_iff)
  have old: "int (count D (RefDone b)) = (if b < length (refs qb) then refCount (refs qb ! b) else 0)" for b
    using acc unfolding accounted_def by blast
  have "accounted (replicate_mset n d + D) (add_mset i ids) qb1"
    unfolding accounted_def
  proof (intro conjI allI)
    fix b
    show "int (count (replicate_mset n d + D) (RefDone b)) =
        (if b < length (refs qb1) then refCount (refs qb1 ! b) else 0)"
      using old [of b] fresh by (simp add: d qb1_def rc_def nth_append)
    show "mset (map fst (called qb1)) + queue_ids (replicate_mset n d + D) + live_ids (refs qb1) = add_mset i ids"
      using acc n(2) by (simp add: accounted_def d qb1_def rc_def)
  qed
  then show ?thesis
    using accounted_OnDone [of d "replicate_mset (length reqList) d + D" "add_mset i ids" qb1 err]
    by (simp add: qb' n_def split: if_splits)
next
  case False
  then have "length reqList = 1" "d = QueueDone i" "qb' = qb"
    using assms(2,3) by (cases reqList; simp add: share_done_def split: if_splits)+
  then show ?thesis using acc by (simp add: accounted_def)
qed

section \<open>What consuming a request does\<close>

definition cur_list :: "('c, 'r, 'e) partitionBatcher \<Rightarrow> ('c, 'r) batch list" where
  "cur_list qb = (case currentBatch qb of None \<Rightarrow> [] | Some b \<Rightarrow> [b])"

definition dones :: "('c, 'r) batch list \<Rightarrow> Done multiset" where
  "dones bs = mset (concat (map b_done bs))"

lemma dones_simps [simp]:
  "dones [] = {#}" "dones (b # bs) = mset (b_done b) + dones bs" "dones (bs @ cs) = dones bs + dones cs"
  by (simp_all add: dones_def)

lemma cur_list_simps [simp]:
  "currentBatch qb = None \<Longrightarrow> cur_list qb = []" "currentBatch qb = Some b \<Longrightarrow> cur_list qb = [b]"
  by (simp_all add: cur_list_def)

lemma resetTimer_frame [simp]:
  "currentBatch (resetTimer qb) = currentBatch qb" "flushes (resetTimer qb) = flushes qb"
  "refs (resetTimer qb) = refs qb" "called (resetTimer qb) = called qb" "cfg (resetTimer qb) = cfg qb"
  "active (resetTimer qb) = active qb" "timer (resetTimer qb) = None \<longleftrightarrow> timer qb = None"
  by (simp_all add: resetTimer_def split: option.splits)

lemma OnDone_frame [simp]:
  "currentBatch (OnDone d err qb) = currentBatch qb" "flushes (OnDone d err qb) = flushes qb"
  "cfg (OnDone d err qb) = cfg qb" "timer (OnDone d err qb) = timer qb"
  "panicked (OnDone d err qb) = panicked qb"
  by (cases d; simp add: refCountDone_OnDone_def Let_def)+

lemma flush_all_eq:
  "flush_all ctx rs d qb = qb\<lparr>flushes := flushes qb @ map (\<lambda>r. \<lparr>b_ctx = ctx, b_req = r, b_done = [d]\<rparr>) rs\<rparr>"
  unfolding flush_all_def by (induction rs arbitrary: qb) (simp_all add: flush_def)

lemma dones_map_single: "dones (map (\<lambda>r. \<lparr>b_ctx = ctx, b_req = r, b_done = [d]\<rparr>) rs) = replicate_mset (length rs) d"
  by (induction rs) simp_all

lemma share_done_frame:
  assumes "share_done i rs err qb = (d, qb')"
  shows "currentBatch qb' = currentBatch qb" "flushes qb' = flushes qb" "cfg qb' = cfg qb"
    "timer qb' = timer qb" "panicked qb' = panicked qb"
  using assms by (auto simp: share_done_def newRefCountDone_def refCountDone_OnDone_def Let_def split: if_splits)

lemma keep_last_shape:
  assumes "keep_last env ctx rs d qb = (rs', qb')" "rs \<noteq> []" "currentBatch qb = None"
  shows "refs qb' = refs qb" "called qb' = called qb" "flushes qb' = flushes qb"
    "rs' @ map b_req (cur_list qb') = rs" "dones (cur_list qb') + replicate_mset (length rs') d = replicate_mset (length rs) d"
  using assms
  by (auto simp: keep_last_def Let_def cur_list_def replicate_mset_Suc [symmetric] simp del: replicate_mset_Suc
      split: if_splits)

lemma extend_current_shape:
  assumes ne: "rs \<noteq> []"
  shows "\<exists>F. refs (extend_current env ctx rs d b qb) = refs qb \<and> called (extend_current env ctx rs d b qb) = called qb \<and>
    flushes (extend_current env ctx rs d b qb) = flushes qb @ F \<and>
    map b_req (F @ cur_list (extend_current env ctx rs d b qb)) = rs \<and>
    dones (F @ cur_list (extend_current env ctx rs d b qb)) = mset (b_done b) + replicate_mset (length rs) d"
proof -
  let ?cur = "merged_batch env ctx rs d b" and ?qb1 = "qb\<lparr>currentBatch := None\<rparr>"
  let ?single = "\<lambda>r. \<lparr>b_ctx = ctx, b_req = r, b_done = [d]\<rparr>"
  have cur: "b_req ?cur = hd rs" "b_done ?cur = b_done b @ [d]" by (simp_all add: merged_batch_def Let_def)
  show ?thesis
  proof (cases "length rs > 1 \<or> Sizeof env (b_req ?cur) \<ge> MinSize (cfg qb)")
    case True
    obtain rs' qb2 where keep: "(if tl rs \<noteq> [] then keep_last env ctx (tl rs) d ?qb1 else ([], ?qb1)) = (rs', qb2)"
      by fastforce
    have out: "extend_current env ctx rs d b qb =
        flush_all ctx rs' d (flush (b_ctx ?cur) (b_req ?cur) (b_done ?cur) qb2)"
      using True keep by (simp only: extend_current_def Let_def if_True prod.case)
    have rest: "refs qb2 = refs qb" "called qb2 = called qb" "flushes qb2 = flushes qb"
      "rs' @ map b_req (cur_list qb2) = tl rs"
      "dones (cur_list qb2) + replicate_mset (length rs') d = replicate_mset (length (tl rs)) d"
      using keep keep_last_shape [of env ctx "tl rs" d ?qb1 rs' qb2] by (auto split: if_splits simp del: length_tl)
    have same: "cur_list (extend_current env ctx rs d b qb) = cur_list qb2"
      by (simp add: out flush_all_eq flush_def cur_list_def)
    have len: "length rs = Suc (length (tl rs))" using ne by (cases rs) simp_all
    show ?thesis
      unfolding same using rest cur ne
      by (intro exI [of _ "\<lparr>b_ctx = b_ctx ?cur, b_req = b_req ?cur, b_done = b_done ?cur\<rparr> # map ?single rs'"])
        (simp add: out flush_all_eq flush_def dones_map_single comp_def len ac_simps del: length_tl)
  next
    case False
    then have "rs = [hd rs]" using ne by (cases rs) auto
    moreover have "extend_current env ctx rs d b qb = qb\<lparr>currentBatch := Some ?cur\<rparr>"
      using False by (simp only: extend_current_def Let_def if_False)
    ultimately show ?thesis
      using cur by (intro exI [of _ "[]"]) (simp, metis length_Cons list.size(3) replicate_mset_0 replicate_mset_Suc)
  qed
qed

text \<open>
  A request that \<^verbatim>\<open>MergeSplit\<close> answers with a nonempty list: the requests of that list are the new
  flushes followed by the current batch, and each of them got one reference to the callback.
\<close>

lemma consumeInternal_nonempty:
  fixes qb :: "('c, 'r, 'e) partitionBatcher"
  assumes run: "consumeInternal env now ctx req i qb = (a, qb')"
    and ms: "(case currentBatch qb of
        None \<Rightarrow> MergeSplit env req (MaxSize (cfg qb)) (BatchSizer (cfg qb)) None
      | Some b \<Rightarrow> MergeSplit env (b_req b) (MaxSize (cfg qb)) (BatchSizer (cfg qb)) (Some req)) = (rs, err, recv)"
    and ne: "rs \<noteq> []"
  shows "\<exists>d qb1 F. share_done i rs err (qb\<lparr>lastDataTime := now\<rparr>) = (d, qb1) \<and>
    refs qb' = refs qb1 \<and> called qb' = called qb1 \<and> flushes qb' = flushes qb @ F \<and>
    map b_req (F @ cur_list qb') = rs \<and>
    dones (F @ cur_list qb') = dones (cur_list qb) + replicate_mset (length rs) d"
proof -
  obtain d qb1 where share: "share_done i rs err (qb\<lparr>lastDataTime := now\<rparr>) = (d, qb1)" by fastforce
  note frame = share_done_frame [OF share]
  let ?single = "\<lambda>r. \<lparr>b_ctx = ctx, b_req = r, b_done = [d]\<rparr>"
  show ?thesis
  proof (cases "currentBatch qb")
    case None
    obtain rs' qb2 where keep: "keep_last env ctx rs d qb1 = (rs', qb2)" by fastforce
    have qb': "qb' = flush_all ctx rs' d qb2"
      using run ms ne None share keep by (simp add: consumeInternal_def)
    have "currentBatch qb1 = None" using frame None by simp
    note shape = keep_last_shape [OF keep ne this]
    have cur: "cur_list qb' = cur_list qb2" by (simp add: qb' flush_all_eq cur_list_def)
    show ?thesis
      unfolding cur using share shape frame None
      by (intro exI [of _ d] exI [of _ qb1] exI [of _ "map ?single rs'"])
        (simp add: qb' flush_all_eq dones_map_single comp_def add.commute)
  next
    case (Some b)
    have qb': "qb' = extend_current env ctx rs d b qb1"
      using run ms ne Some share by (simp add: consumeInternal_def)
    show ?thesis
      using extend_current_shape [OF ne, of env ctx d b qb1] share frame Some unfolding qb' by auto
  qed
qed

section \<open>Runs\<close>

text \<open>
  \<open>batcher_run env qb cs fs\<close>: after some critical sections of any number of goroutines, in any order,
  the batcher is in the state \<open>qb\<close>; \<open>cs\<close> are the consumed requests with their callbacks and \<open>fs\<close> the
  requests handed to workers, both in the order of the critical sections. \<open>fits r r2\<close> is the
  condition on the arguments of \<^verbatim>\<open>MergeSplit\<close> under which its contract holds.
\<close>

inductive batcher_run ::
  "('c, 'r, 'e) batch_env \<Rightarrow> ('r \<Rightarrow> 'r option \<Rightarrow> bool) \<Rightarrow> ('c, 'r, 'e) partitionBatcher \<Rightarrow>
     (nat \<times> 'r) list \<Rightarrow> 'r list \<Rightarrow> bool"
  for env fits where
  started: "batcher_run env fits (Start (newPartitionBatcher c has_onEmpty now)) [] []"
| consumed: "batcher_run env fits qb cs fs \<Longrightarrow>
    (case currentBatch qb of None \<Rightarrow> fits req None | Some b \<Rightarrow> fits (b_req b) (Some req)) \<Longrightarrow>
    consumeInternal env now ctx req i qb = (a, qb') \<Longrightarrow>
    batcher_run env fits qb' (cs @ [(i, req)]) (fs @ map b_req (drop (length (flushes qb)) (flushes qb')))"
| flushed: "batcher_run env fits qb cs fs \<Longrightarrow>
    qb' = flushCurrentBatchOrRemovePartition now qb \<Longrightarrow>
    batcher_run env fits qb' cs (fs @ map b_req (drop (length (flushes qb)) (flushes qb')))"
| deactivated: "batcher_run env fits qb cs fs \<Longrightarrow>
    batcher_run env fits (qb\<lparr>active := False, onEmpty := False\<rparr>) cs fs"
| exported: "batcher_run env fits qb cs fs \<Longrightarrow> k < length (flushes qb) \<Longrightarrow>
    batcher_run env fits (exported k res qb) cs fs"

definition pending :: "('c, 'r, 'e) partitionBatcher \<Rightarrow> Done multiset" where
  "pending qb = dones (flushes qb) + dones (cur_list qb)"

lemma consumeInternal_empty:
  assumes "consumeInternal env now ctx req i qb = (a, qb')"
    and "(case currentBatch qb of
        None \<Rightarrow> MergeSplit env req (MaxSize (cfg qb)) (BatchSizer (cfg qb)) None
      | Some b \<Rightarrow> MergeSplit env (b_req b) (MaxSize (cfg qb)) (BatchSizer (cfg qb)) (Some req)) = ([], err, recv)"
  shows "flushes qb' = flushes qb" "refs qb' = refs qb" "called qb' = called qb @ [(i, err)]"
    "cur_list qb' = map (\<lambda>b. b\<lparr>b_req := recv\<rparr>) (cur_list qb)"
  using assms by (auto simp: consumeInternal_def cur_list_def split: option.splits)

lemma flushCurrent_shape:
  "\<exists>F. flushes (flushCurrentBatchOrRemovePartition now qb) = flushes qb @ F \<and>
     map b_req (F @ cur_list (flushCurrentBatchOrRemovePartition now qb)) = map b_req (cur_list qb) \<and>
     dones (F @ cur_list (flushCurrentBatchOrRemovePartition now qb)) = dones (cur_list qb) \<and>
     refs (flushCurrentBatchOrRemovePartition now qb) = refs qb \<and>
     called (flushCurrentBatchOrRemovePartition now qb) = called qb"
  by (cases "currentBatch qb")
    (auto simp: flushCurrentBatchOrRemovePartition_def flush_def cur_list_def)

lemma consumeInternal_accounted:
  assumes acc: "accounted (pending qb) ids qb" and run: "consumeInternal env now ctx req i qb = (a, qb')"
  shows "accounted (pending qb') (add_mset i ids) qb'"
proof -
  obtain rs err recv where ms: "(case currentBatch qb of
        None \<Rightarrow> MergeSplit env req (MaxSize (cfg qb)) (BatchSizer (cfg qb)) None
      | Some b \<Rightarrow> MergeSplit env (b_req b) (MaxSize (cfg qb)) (BatchSizer (cfg qb)) (Some req)) = (rs, err, recv)"
    by (metis prod_cases3)
  show ?thesis
  proof (cases "rs = []")
    case True
    note same = consumeInternal_empty [OF run ms [unfolded True]]
    have "dones (cur_list qb') = dones (cur_list qb)" by (simp add: same(4) dones_def comp_def)
    then show ?thesis using acc same by (simp add: accounted_def pending_def)
  next
    case False
    obtain d qb1 F where out: "share_done i rs err (qb\<lparr>lastDataTime := now\<rparr>) = (d, qb1)"
        "refs qb' = refs qb1" "called qb' = called qb1" "flushes qb' = flushes qb @ F"
        "dones (F @ cur_list qb') = dones (cur_list qb) + replicate_mset (length rs) d"
      using consumeInternal_nonempty [OF run ms False] by blast
    have "accounted (pending qb) ids (qb\<lparr>lastDataTime := now\<rparr>)" using acc by (simp add: accounted_def)
    from accounted_share_done [OF this out(1) False]
    have "accounted (replicate_mset (length rs) d + pending qb) (add_mset i ids) qb'"
      using out(2,3) by (simp add: accounted_def)
    moreover have "pending qb' = replicate_mset (length rs) d + pending qb"
      using out(4,5) by (simp add: pending_def ac_simps)
    ultimately show ?thesis by simp
  qed
qed

lemma multiDone_frame [simp]:
  "currentBatch (multiDone_OnDone ds err qb) = currentBatch qb" "flushes (multiDone_OnDone ds err qb) = flushes qb"
  unfolding multiDone_OnDone_def by (induction ds arbitrary: qb) simp_all

lemma exported_accounted:
  assumes acc: "accounted (pending qb) ids qb" and k: "k < length (flushes qb)"
  shows "accounted (pending (exported k res qb)) ids (exported k res qb)"
proof -
  let ?qb = "qb\<lparr>flushes := take k (flushes qb) @ drop (Suc k) (flushes qb)\<rparr>"
  have "flushes qb = take k (flushes qb) @ flushes qb ! k # drop (Suc k) (flushes qb)"
    using k by (rule id_take_nth_drop)
  then have "dones (flushes qb) = dones (take k (flushes qb) @ flushes qb ! k # drop (Suc k) (flushes qb))"
    by (rule arg_cong)
  then have "dones (flushes qb) = mset (b_done (flushes qb ! k)) + dones (flushes ?qb)"
    unfolding dones_simps by (simp add: ac_simps)
  then have "pending qb = mset (b_done (flushes qb ! k)) + pending ?qb"
    by (simp add: pending_def cur_list_def ac_simps)
  then have "accounted (mset (b_done (flushes qb ! k)) + pending ?qb) ids ?qb"
    using acc by (simp add: accounted_def)
  then have "accounted (pending ?qb) ids (exported k res qb)"
    unfolding exported_def by (rule accounted_multiDone)
  then show ?thesis by (simp add: exported_def pending_def cur_list_def)
qed

lemma batcher_run_accounted:
  "batcher_run env fits qb cs fs \<Longrightarrow> accounted (pending qb) (mset (map fst cs)) qb"
proof (induction rule: batcher_run.induct)
  case (started c has_onEmpty now)
  then show ?case by (simp add: accounted_def pending_def Start_def newPartitionBatcher_def cur_list_def)
next
  case (consumed qb cs fs req now ctx i a qb')
  from consumeInternal_accounted [OF consumed.IH consumed.hyps(3)] show ?case by simp
next
  case (flushed qb cs fs qb' now)
  obtain F where F: "flushes qb' = flushes qb @ F" "dones (F @ cur_list qb') = dones (cur_list qb)"
      "refs qb' = refs qb" "called qb' = called qb"
    using flushCurrent_shape [of now qb] flushed.hyps(2) by blast
  then have "pending qb' = pending qb" by (simp add: pending_def add.assoc)
  then show ?case using flushed.IH F(3,4) by (simp add: accounted_def)
next
  case (deactivated qb cs fs)
  then show ?case by (simp add: accounted_def pending_def cur_list_def)
next
  case (exported qb cs fs k res)
  then show ?case by (intro exported_accounted)
qed

lemma accounted_drained:
  assumes "accounted {#} ids qb"
  shows "mset (map fst (called qb)) = ids"
proof -
  have counts: "int (count {#} (RefDone a)) = (if a < length (refs qb) then refCount (refs qb ! a) else 0)" for a
    using assms unfolding accounted_def by blast
  have "refCount (refs qb ! a) = 0" if "a < length (refs qb)" for a
    using counts [of a] that by simp
  then have "\<forall>rc \<in> set (refs qb). \<not> refCount rc > 0" by (metis in_set_conv_nth less_irrefl)
  then have "live_ids (refs qb) = {#}" by (simp add: live_ids_def filter_empty_conv)
  then show ?thesis using assms by (simp add: accounted_def)
qed

section \<open>The timer\<close>

definition timer_ok :: "('c, 'r, 'e) partitionBatcher \<Rightarrow> bool" where
  "timer_ok qb \<longleftrightarrow> \<not> panicked qb \<and> (FlushTimeout (cfg qb) > 0 \<longrightarrow> timer qb \<noteq> None)"

lemma timer_ok_resetTimer: "timer_ok qb \<Longrightarrow> timer_ok (resetTimer qb)"
  by (auto simp: timer_ok_def resetTimer_def split: option.splits)

lemma timer_ok_cong:
  "cfg qb' = cfg qb \<Longrightarrow> timer qb' = timer qb \<Longrightarrow> panicked qb' = panicked qb \<Longrightarrow> timer_ok qb \<Longrightarrow> timer_ok qb'"
  by (simp add: timer_ok_def)

lemma timer_ok_keep_last:
  assumes "keep_last env ctx rs d qb = (rs', qb')" "timer_ok qb"
  shows "timer_ok qb'"
proof -
  have "timer_ok (qb\<lparr>currentBatch := b\<rparr>)" for b using assms(2) by (simp add: timer_ok_def)
  then show ?thesis
    using assms timer_ok_resetTimer by (auto simp: keep_last_def Let_def split: if_splits)
qed

lemma timer_ok_flush [simp]:
  "timer_ok (flush_all ctx rs d qb) = timer_ok qb" "timer_ok (flush ctx r ds qb) = timer_ok qb"
  "timer_ok (qb\<lparr>currentBatch := b\<rparr>) = timer_ok qb" "timer_ok (qb\<lparr>lastDataTime := n\<rparr>) = timer_ok qb"
  "timer_ok (qb\<lparr>called := c\<rparr>) = timer_ok qb"
  by (simp_all add: timer_ok_def flush_all_eq flush_def)

lemma timer_ok_extend_current:
  assumes "timer_ok qb"
  shows "timer_ok (extend_current env ctx rs d b qb)"
proof -
  obtain rs' qb2 where keep: "(if tl rs \<noteq> [] then keep_last env ctx (tl rs) d (qb\<lparr>currentBatch := None\<rparr>)
      else ([], qb\<lparr>currentBatch := None\<rparr>)) = (rs', qb2)" by fastforce
  then have "timer_ok qb2"
    using assms timer_ok_keep_last [of env ctx "tl rs" d "qb\<lparr>currentBatch := None\<rparr>" rs' qb2]
    by (auto split: if_splits)
  then show ?thesis using assms unfolding extend_current_def Let_def keep by simp
qed

lemma timer_ok_OnDone [simp]: "timer_ok (OnDone d err qb) = timer_ok qb"
  by (simp add: timer_ok_def)

lemma timer_ok_consumeInternal:
  assumes ok: "timer_ok qb" and run: "consumeInternal env now ctx req i qb = (a, qb')"
  shows "timer_ok qb'"
proof -
  have share: "timer_ok qb1" if "share_done i rs err (qb\<lparr>lastDataTime := now\<rparr>) = (d, qb1)" for rs err d qb1
    using share_done_frame [OF that] ok by (simp add: timer_ok_def)
  obtain rs err recv where ms: "(case currentBatch qb of
        None \<Rightarrow> MergeSplit env req (MaxSize (cfg qb)) (BatchSizer (cfg qb)) None
      | Some b \<Rightarrow> MergeSplit env (b_req b) (MaxSize (cfg qb)) (BatchSizer (cfg qb)) (Some req)) = (rs, err, recv)"
    by (metis prod_cases3)
  obtain d qb1 where sh: "share_done i rs err (qb\<lparr>lastDataTime := now\<rparr>) = (d, qb1)" by fastforce
  obtain rs' qb2 where keep: "keep_last env ctx rs d qb1 = (rs', qb2)" by fastforce
  have "timer_ok qb2" "timer_ok (extend_current env ctx rs d b qb1)" for b
    using timer_ok_keep_last [OF keep share [OF sh]] timer_ok_extend_current [OF share [OF sh]] by simp_all
  then show ?thesis
    using run ms sh keep ok by (cases "currentBatch qb"; cases "rs = []") (auto simp: consumeInternal_def)
qed

lemma batcher_run_timer: "batcher_run env fits qb cs fs \<Longrightarrow> timer_ok qb"
proof (induction rule: batcher_run.induct)
  case (started c has_onEmpty now)
  then show ?case by (simp add: timer_ok_def Start_def newPartitionBatcher_def)
next
  case (consumed qb cs fs req now ctx i a qb')
  from timer_ok_consumeInternal [OF consumed.IH consumed.hyps(3)] show ?case .
next
  case (flushed qb cs fs qb' now)
  then show ?case
    by (auto simp: flushCurrentBatchOrRemovePartition_def timer_ok_def flush_def resetTimer_def split: option.splits)
next
  case (deactivated qb cs fs)
  then show ?case by (simp add: timer_ok_def)
next
  case (exported qb cs fs k res)
  have "timer_ok (multiDone_OnDone ds res qb) = timer_ok qb" for ds and qb :: "('a, 'b, 'c) partitionBatcher"
    unfolding multiDone_OnDone_def by (induction ds arbitrary: qb) simp_all
  then show ?case using exported.IH by (simp add: exported_def timer_ok_def)
qed

section \<open>What the batcher relies on from a request\<close>

text \<open>
  The contract of \<^verbatim>\<open>MergeSplit\<close>: \<open>items\<close> are the items of a request in order. The returned requests hold
  no item twice and invent none; without an error they hold all of them; and if nothing is
  returned, the receiver holds no item that was not there.
\<close>

definition arg_items :: "('r \<Rightarrow> 'i list) \<Rightarrow> 'r option \<Rightarrow> 'i list" where
  "arg_items items r = (case r of None \<Rightarrow> [] | Some r2 \<Rightarrow> items r2)"

definition held :: "('r \<Rightarrow> 'i list) \<Rightarrow> ('c, 'r, 'e) partitionBatcher \<Rightarrow> 'i list" where
  "held items qb = concat (map (\<lambda>b. items (b_req b)) (cur_list qb))"

locale merge_split_contract =
  fixes items :: "'r \<Rightarrow> 'i list"
    and ms :: "'r \<Rightarrow> int \<Rightarrow> SizerType \<Rightarrow> 'r option \<Rightarrow> 'r list \<times> 'e list \<times> 'r"
    and fits :: "'r \<Rightarrow> 'r option \<Rightarrow> bool"
  assumes keeps: "fits r r2 \<Longrightarrow> ms r m s r2 = (rs, err, recv) \<Longrightarrow>
      subseq (concat (map items rs)) (items r @ arg_items items r2)"
    and exact: "fits r r2 \<Longrightarrow> ms r m s r2 = (rs, [], recv) \<Longrightarrow>
      concat (map items rs) = items r @ arg_items items r2"
    and stays: "fits r r2 \<Longrightarrow> ms r m s r2 = ([], err, recv) \<Longrightarrow>
      subseq (items recv) (items r @ arg_items items r2)"
begin

lemma consume_keeps:
  assumes env: "MergeSplit env = ms" and run: "consumeInternal env now ctx req i qb = (a, qb')"
    and fit: "case currentBatch qb of None \<Rightarrow> fits req None | Some b \<Rightarrow> fits (b_req b) (Some req)"
  shows "subseq (concat (map items (map b_req (drop (length (flushes qb)) (flushes qb')))) @ held items qb')
    (held items qb @ items req)"
proof -
  define r r2 where "r = (case currentBatch qb of None \<Rightarrow> req | Some b \<Rightarrow> b_req b)"
    and "r2 = (case currentBatch qb of None \<Rightarrow> None | Some b \<Rightarrow> Some req)"
  obtain rs err recv where out: "ms r (MaxSize (cfg qb)) (BatchSizer (cfg qb)) r2 = (rs, err, recv)"
    by (metis prod_cases3)
  have fits: "fits r r2" using fit by (simp add: r_def r2_def split: option.splits)
  have its: "items r @ arg_items items r2 = held items qb @ items req"
    by (simp add: r_def r2_def held_def arg_items_def cur_list_def split: option.splits)
  have call: "(case currentBatch qb of
        None \<Rightarrow> MergeSplit env req (MaxSize (cfg qb)) (BatchSizer (cfg qb)) None
      | Some b \<Rightarrow> MergeSplit env (b_req b) (MaxSize (cfg qb)) (BatchSizer (cfg qb)) (Some req)) = (rs, err, recv)"
    using out env by (simp add: r_def r2_def split: option.splits)
  show ?thesis
  proof (cases "rs = []")
    case True
    note same = consumeInternal_empty [OF run call [unfolded True]]
    have "held items qb' = (if cur_list qb = [] then [] else items recv)"
      unfolding held_def same(4) by (simp add: cur_list_def split: option.splits)
    then show ?thesis
      using stays [OF fits out [unfolded True]] same(1) its by simp
  next
    case False
    obtain F where F: "flushes qb' = flushes qb @ F" "map b_req (F @ cur_list qb') = rs"
      using consumeInternal_nonempty [OF run call False] by blast
    have "concat (map items rs) = concat (map items (map b_req F)) @ held items qb'"
      unfolding F(2) [symmetric] by (simp add: held_def comp_def)
    then show ?thesis using keeps [OF fits out] F(1) its by simp
  qed
qed

lemma run_keeps:
  assumes "batcher_run env fits qb cs fs" "MergeSplit env = ms"
  shows "subseq (concat (map items fs) @ held items qb) (concat (map (\<lambda>c. items (snd c)) cs))"
  using assms
proof (induction rule: batcher_run.induct)
  case (started c has_onEmpty now)
  then show ?case by (simp add: held_def cur_list_def Start_def newPartitionBatcher_def)
next
  case (consumed qb cs fs req now ctx i a qb')
  note new = consume_keeps [OF consumed.prems consumed.hyps(3,2)]
  have "subseq (concat (map items fs) @ held items qb @ items req) (concat (map (\<lambda>c. items (snd c)) cs) @ items req)"
    using list_emb_append_mono [OF consumed.IH [OF consumed.prems], of "items req" "items req"] by simp
  then have "subseq (concat (map items fs) @ concat (map items (map b_req (drop (length (flushes qb)) (flushes qb')))) @ held items qb')
      (concat (map (\<lambda>c. items (snd c)) cs) @ items req)"
    using subseq_order.trans [OF list_emb_append_mono [OF subseq_order.refl new]] by blast
  then show ?case by simp
next
  case (flushed qb cs fs qb' now)
  obtain F where F: "flushes qb' = flushes qb @ F" and same: "map b_req (F @ cur_list qb') = map b_req (cur_list qb)"
    using flushCurrent_shape [of now qb] flushed.hyps(2) by blast
  have "concat (map items (map b_req (drop (length (flushes qb)) (flushes qb')))) @ held items qb' =
      concat (map items (map b_req (F @ cur_list qb')))" using F by (simp add: held_def comp_def)
  also have "... = held items qb" unfolding same by (simp add: held_def comp_def)
  finally show ?case using flushed.IH [OF flushed.prems] by simp
next
  case (deactivated qb cs fs)
  then show ?case by (simp add: held_def cur_list_def)
next
  case (exported qb cs fs k res)
  then show ?case by (simp add: held_def cur_list_def exported_def)
qed

end

section \<open>Properties\<close>

text \<open>
  C1. Whatever goroutines consume, fire the timer, shut down and finish exports in whatever order, the
  callback of a consumed request is never called more often than the request was consumed; and
  once nothing is batched and no export is running, the callbacks that were called are exactly
  those of the consumed requests, each exactly once.
\<close>

theorem callbacks_called_exactly_once:
  assumes "batcher_run env fits qb cs fs"
  shows "mset (map fst (called qb)) \<subseteq># mset (map fst cs) \<and>
    (currentBatch qb = None \<and> flushes qb = [] \<longrightarrow> mset (map fst (called qb)) = mset (map fst cs))"
proof -
  have acc: "accounted (pending qb) (mset (map fst cs)) qb" using assms by (rule batcher_run_accounted)
  then have "mset (map fst cs) = mset (map fst (called qb)) + (queue_ids (pending qb) + live_ids (refs qb))"
    by (simp add: accounted_def add.assoc)
  then have "mset (map fst (called qb)) \<subseteq># mset (map fst cs)" by simp
  moreover have "mset (map fst (called qb)) = mset (map fst cs)" if "currentBatch qb = None" "flushes qb = []"
    using accounted_drained acc that by (simp add: pending_def)
  ultimately show ?thesis by blast
qed

text \<open>An environment in which a request is a list of numbers, split into halves above the maximal size.\<close>

definition sample_env :: "(unit, nat list, string) batch_env" where
  "sample_env = \<lparr>MergeSplit = \<lambda>r m s r2. let all = r @ (case r2 of None \<Rightarrow> [] | Some x \<Rightarrow> x) in
       (if int (length all) > m then [take (nat m) all, drop (nat m) all] else [all], [], all),
     Sizeof = \<lambda>r. int (length r), background = (), mergeCtx = None, contextWithMergedLinks = \<lambda>_ _ _. ()\<rparr>"

definition sample_config :: BatchConfig where
  "sample_config = NewDefaultBatchConfig\<lparr>MinSize := 2, MaxSize := 2\<rparr>"

definition sample_0 :: "(unit, nat list, string) partitionBatcher" where
  "sample_0 = Start (newPartitionBatcher sample_config False 0)"

definition sample_1 :: "(unit, nat list, string) partitionBatcher" where
  "sample_1 = snd (consumeInternal sample_env 1 () [10, 11, 12] 7 sample_0)"

definition sample_2 :: "(unit, nat list, string) partitionBatcher" where
  "sample_2 = exported 0 [''late''] (exported 0 [] (flushCurrentBatchOrRemovePartition 2 sample_1))"

lemmas sample_defs = sample_env_def sample_config_def NewDefaultBatchConfig_def sample_0_def Start_def
  newPartitionBatcher_def

lemma sample_1_eq:
  "sample_1 = sample_0\<lparr>lastDataTime := 1, timer := Some 1,
     refs := [\<lparr>rc_done = 7, refCount = 2, rc_err = []\<rparr>],
     currentBatch := Some \<lparr>b_ctx = (), b_req = [12], b_done = [RefDone 0]\<rparr>,
     flushes := [\<lparr>b_ctx = (), b_req = [10, 11], b_done = [RefDone 0]\<rparr>]\<rparr>"
  by (simp add: sample_1_def sample_defs consumeInternal_def share_done_def newRefCountDone_def keep_last_def
      resetTimer_def flush_all_def flush_def Let_def)

lemma sample_2_parts:
  "currentBatch sample_2 = None" "flushes sample_2 = []" "called sample_2 = [(7, [''late''])]"
  by (simp_all add: sample_2_def sample_1_eq sample_defs flushCurrentBatchOrRemovePartition_def flush_def
      resetTimer_def exported_def multiDone_OnDone_def refCountDone_OnDone_def Let_def)

lemma sample_runs:
  "batcher_run sample_env (\<lambda>_ _. True) sample_1 [(7, [10, 11, 12])] [[10, 11]]"
  "batcher_run sample_env (\<lambda>_ _. True) sample_2 [(7, [10, 11, 12])] [[10, 11], [12]]"
proof -
  let ?run = "batcher_run sample_env (\<lambda>_ _. True)" and ?qb = "flushCurrentBatchOrRemovePartition 2 sample_1"
  have "?run sample_0 [] []" unfolding sample_0_def by (rule batcher_run.started)
  moreover have "consumeInternal sample_env 1 () [10, 11, 12] 7 sample_0 =
      (fst (consumeInternal sample_env 1 () [10, 11, 12] 7 sample_0), sample_1)"
    by (simp add: sample_1_def)
  ultimately have "?run sample_1 ([] @ [(7, [10, 11, 12])])
      ([] @ map b_req (drop (length (flushes sample_0)) (flushes sample_1)))"
    by (intro batcher_run.consumed) (simp_all add: option.case_eq_if)
  then show one: "?run sample_1 [(7, [10, 11, 12])] [[10, 11]]" by (simp add: sample_1_eq sample_defs)
  have two: "?run ?qb [(7, [10, 11, 12])] ([[10, 11]] @ map b_req (drop (length (flushes sample_1)) (flushes ?qb)))"
    using one by (rule batcher_run.flushed) simp
  have len: "length (flushes ?qb) = 2" "map b_req (drop (length (flushes sample_1)) (flushes ?qb)) = [[12]]"
    by (simp_all add: flushCurrentBatchOrRemovePartition_def sample_1_eq flush_def resetTimer_def sample_defs)
  have "?run (exported 0 [] ?qb) [(7, [10, 11, 12])] [[10, 11], [12]]"
    using batcher_run.exported [OF two, of 0 "[]"] len by simp
  moreover have "0 < length (flushes (exported 0 [] ?qb))" using len(1) by (simp add: exported_def)
  ultimately show "?run sample_2 [(7, [10, 11, 12])] [[10, 11], [12]]"
    unfolding sample_2_def by (rule batcher_run.exported)
qed

theorem callbacks_called_exactly_once_witness:
  "currentBatch sample_2 = None \<and> flushes sample_2 = [] \<and> called sample_2 = [(7, [''late''])] \<and>
   mset (map fst (called sample_2)) = mset (map fst [(7, [10, 11, 12 :: nat])])"
  using callbacks_called_exactly_once [OF sample_runs(2)] sample_2_parts by blast

text \<open>
  After \<^verbatim>\<open>Start\<close> no sequence of steps resets a timer that is nil: the batcher never panics, and if
  there is a flush timeout its timer exists at every moment.
\<close>

theorem batcher_never_panics:
  assumes "batcher_run env fits qb cs fs"
  shows "\<not> panicked qb \<and> (FlushTimeout (cfg qb) > 0 \<longrightarrow> timer qb \<noteq> None)"
  using batcher_run_timer [OF assms] by (simp add: timer_ok_def)

theorem batcher_never_panics_witness: "\<not> panicked sample_1 \<and> timer sample_1 \<noteq> None"
proof -
  have "FlushTimeout (cfg sample_1) > 0" by (simp add: sample_1_eq sample_defs)
  then show ?thesis using batcher_never_panics [OF sample_runs(1)] by blast
qed

end
