(* ===== verification/LogsBatch.thy ===== *)
theory LogsBatch
  imports Requests "HOL-Library.Sublist"
begin

text \<open>
  Merging and splitting of log requests: \<^verbatim>\<open>exporterhelper/internal/queuebatch/logs_batch.go\<close> and the
  request type of \<^verbatim>\<open>logs.go\<close>. The variables captured by the callbacks of \<^verbatim>\<open>RemoveIf\<close> are the capacity
  left, the size removed from the source, and the destination. A function that mutates its source
  returns the source as its last component. The splitting loop is a partial function: that it returns
  is proved, for both sizers. The receiver of \<^verbatim>\<open>MergeSplit\<close>, which is mutated, is the last component of the result.
\<close>

section \<open>Requests\<close>

record ('res, 'sc, 'it) data_request =
  data :: "('res, 'sc, 'it) Data"
  sizes :: SizeCache

type_synonym ('res, 'sc, 'it) logsRequest = "('res, 'sc, 'it) data_request"

definition newLogsRequest :: "('res, 'sc, 'it) Data \<Rightarrow> ('res, 'sc, 'it) logsRequest" where
  "newLogsRequest ld = \<lparr>data = ld, sizes = NewSizeCache\<rparr>"

definition logs_ItemsCount :: "('res, 'sc, 'it) logsRequest \<Rightarrow> int \<times> ('res, 'sc, 'it) logsRequest" where
  "logs_ItemsCount req =
     (case SizeOf (sizes req) SizerTypeItems (LogRecordCount (data req)) of (n, c) \<Rightarrow>
        (n, req\<lparr>sizes := c\<rparr>))"

definition logs_size ::
  "('res, 'sc, 'it) logsRequest \<Rightarrow> ('res, 'sc, 'it) data_sizer \<Rightarrow> SizerType \<Rightarrow>
     int \<times> ('res, 'sc, 'it) logsRequest" where
  "logs_size req sz szt =
     (case SizeOf (sizes req) szt (DataSize sz (data req)) of (n, c) \<Rightarrow> (n, req\<lparr>sizes := c\<rparr>))"

definition logs_BytesSize ::
  "('res, 'sc, 'it) leaf_sizes \<Rightarrow> ('res, 'sc, 'it) logsRequest \<Rightarrow> int \<times> ('res, 'sc, 'it) logsRequest" where
  "logs_BytesSize L req =
     (case SizeOf (sizes req) SizerTypeBytes (Data_SizeProto (res_sz L) (scope_sz L) (item_sz L) (data req)) of
        (n, c) \<Rightarrow> (n, req\<lparr>sizes := c\<rparr>))"

datatype split_error =
    UnknownSizerType
  | InvalidInputType
  | CannotSplitFurther int
  | OversizedItems int

text \<open>The second request of a merge is nil, of the same type, or of another type.\<close>

datatype 'a request_arg = NilRequest | SameType 'a | OtherType

section \<open>Extraction\<close>

definition extractScopeLogs_record ::
  "('res, 'sc, 'it) data_sizer \<Rightarrow> int \<Rightarrow> (int \<times> int \<times> ('sc, 'it) ScopeItems, 'it) callback" where
  "extractScopeLogs_record sz maxRecordSize = (\<lambda>(capacityLeft, removedSize, destSL) srcLR.
     if capacityLeft = 0 then (False, (capacityLeft, removedSize, destSL), srcLR)
     else
       let rlSize = DeltaSize sz (ItemSize sz srcLR) in
       if rlSize > maxRecordSize then (True, (capacityLeft, removedSize + rlSize, destSL), srcLR)
       else if rlSize > capacityLeft then (False, (0, removedSize, destSL), srcLR)
       else (True, (capacityLeft - rlSize, removedSize + rlSize,
                    destSL\<lparr>Items := Items destSL @ [srcLR]\<rparr>), srcLR))"

definition extractScopeLogs ::
  "('sc, 'it) ScopeItems \<Rightarrow> int \<Rightarrow> int \<Rightarrow> ('res, 'sc, 'it) data_sizer \<Rightarrow>
     ('sc, 'it) ScopeItems \<times> int \<times> ('sc, 'it) ScopeItems" where
  "extractScopeLogs srcSL capacity maxScopeSize sz =
     (let destSL = \<lparr>Scope = Scope srcSL, ScopeSchemaUrl = ScopeSchemaUrl srcSL, Items = []\<rparr>;
          capacityLeft = capacity - (DeltaSize sz capacity - capacity) - ScopeSize sz destSL;
          maxRecordSize = maxScopeSize - (DeltaSize sz maxScopeSize - maxScopeSize) - ScopeSize sz destSL
      in case RemoveIf (extractScopeLogs_record sz maxRecordSize) (capacityLeft, 0, destSL) (Items srcSL) of
           ((_, removedSize, destSL'), records) \<Rightarrow> (destSL', removedSize, srcSL\<lparr>Items := records\<rparr>))"

definition extractResourceLogs_scope ::
  "('res, 'sc, 'it) data_sizer \<Rightarrow> int \<Rightarrow>
     (int \<times> int \<times> ('res, 'sc, 'it) ResourceItems, ('sc, 'it) ScopeItems) callback" where
  "extractResourceLogs_scope sz maxScopeSize = (\<lambda>(capacityLeft, removedSize, destRL) srcSL.
     if capacityLeft = 0 then (False, (capacityLeft, removedSize, destRL), srcSL)
     else
       let rawSlSize = ScopeSize sz srcSL; slSize = DeltaSize sz rawSlSize in
       if slSize > capacityLeft then
         (case extractScopeLogs srcSL capacityLeft maxScopeSize sz of (extSrcSL, extSlSize, srcSL') \<Rightarrow>
            let destRL' = if length (Items extSrcSL) > 0
                          then destRL\<lparr>Scopes := Scopes destRL @ [extSrcSL]\<rparr> else destRL in
            if length (Items srcSL') = 0 then (True, (0, removedSize + slSize, destRL'), srcSL')
            else (False, (0, removedSize + (slSize - DeltaSize sz (rawSlSize - extSlSize)), destRL'), srcSL'))
       else (True, (capacityLeft - slSize, removedSize + slSize,
                    destRL\<lparr>Scopes := Scopes destRL @ [srcSL]\<rparr>), srcSL))"

definition extractResourceLogs ::
  "('res, 'sc, 'it) ResourceItems \<Rightarrow> int \<Rightarrow> int \<Rightarrow> ('res, 'sc, 'it) data_sizer \<Rightarrow>
     ('res, 'sc, 'it) ResourceItems \<times> int \<times> ('res, 'sc, 'it) ResourceItems" where
  "extractResourceLogs srcRL capacity maxSize sz =
     (let destRL = \<lparr>Resource = Resource srcRL, SchemaUrl = SchemaUrl srcRL, Scopes = [], DeprecatedScopes = []\<rparr>;
          capacityLeft = capacity - (DeltaSize sz capacity - capacity) - ResourceSize sz destRL;
          maxScopeSize = maxSize - (DeltaSize sz maxSize - maxSize) - ResourceSize sz destRL
      in case RemoveIf (extractResourceLogs_scope sz maxScopeSize) (capacityLeft, 0, destRL) (Scopes srcRL) of
           ((_, removedSize, destRL'), sls) \<Rightarrow> (destRL', removedSize, srcRL\<lparr>Scopes := sls\<rparr>))"

definition extractLogs_resource ::
  "('res, 'sc, 'it) data_sizer \<Rightarrow> int \<Rightarrow>
     (int \<times> int \<times> ('res, 'sc, 'it) Data, ('res, 'sc, 'it) ResourceItems) callback" where
  "extractLogs_resource sz capacity = (\<lambda>(capacityLeft, removedSize, destLogs) srcRL.
     if capacityLeft = 0 then (False, (capacityLeft, removedSize, destLogs), srcRL)
     else
       let rawRlSize = ResourceSize sz srcRL; rlSize = DeltaSize sz rawRlSize in
       if rlSize > capacityLeft then
         (case extractResourceLogs srcRL capacityLeft capacity sz of (extSrcRL, extRlSize, srcRL') \<Rightarrow>
            let destLogs' = if length (Scopes extSrcRL) > 0 then destLogs @ [extSrcRL] else destLogs in
            if length (Scopes srcRL') = 0 then (True, (0, removedSize + rlSize, destLogs'), srcRL')
            else (False, (0, removedSize + (rlSize - DeltaSize sz (rawRlSize - extRlSize)), destLogs'), srcRL'))
       else (True, (capacityLeft - rlSize, removedSize + rlSize, destLogs @ [srcRL]), srcRL))"

definition extractLogs ::
  "('res, 'sc, 'it) Data \<Rightarrow> int \<Rightarrow> ('res, 'sc, 'it) data_sizer \<Rightarrow>
     ('res, 'sc, 'it) Data \<times> int \<times> ('res, 'sc, 'it) Data" where
  "extractLogs srcLogs capacity sz =
     (let capacityLeft = capacity - DataSize sz []
      in case RemoveIf (extractLogs_resource sz capacity) (capacityLeft, 0, []) srcLogs of
           ((_, removedSize, destLogs), rls) \<Rightarrow> (destLogs, removedSize, rls))"

section \<open>Merge and split\<close>

definition logs_mergeTo ::
  "('res, 'sc, 'it) logsRequest \<Rightarrow> ('res, 'sc, 'it) logsRequest \<Rightarrow>
     ('res, 'sc, 'it) data_sizer \<Rightarrow> SizerType \<Rightarrow> ('res, 'sc, 'it) logsRequest \<times> ('res, 'sc, 'it) logsRequest" where
  "logs_mergeTo req dst sz szt =
     (case logs_size dst sz szt of (dn, dst1) \<Rightarrow>
      case logs_size req sz szt of (rn, req1) \<Rightarrow>
      let dst2 = dst1\<lparr>sizes := SizeCache_Update (sizes dst1) szt (dn + rn)\<rparr>;
          req2 = req1\<lparr>sizes := SizeCache_Update (sizes req1) szt 0\<rparr>
      in case MoveAndAppendTo (data req2) (data dst2) of (rd, dd) \<Rightarrow>
           (req2\<lparr>data := rd\<rparr>, dst2\<lparr>data := dd\<rparr>))"

partial_function (option) logs_split_loop ::
  "int \<Rightarrow> ('res, 'sc, 'it) data_sizer \<Rightarrow> SizerType \<Rightarrow> ('res, 'sc, 'it) logsRequest \<Rightarrow>
     ('res, 'sc, 'it) logsRequest list \<Rightarrow> int \<Rightarrow>
     (('res, 'sc, 'it) logsRequest list \<times> split_error option \<times> ('res, 'sc, 'it) logsRequest) option" where
  "logs_split_loop maxSize sz szt req res droppedItems =
     (case logs_size req sz szt of (n, req1) \<Rightarrow>
      if n > maxSize then
        (case extractLogs (data req1) maxSize sz of (ld, removedSize, src) \<Rightarrow>
           if removedSize = 0 then
             Some (res, Some (CannotSplitFurther (droppedItems + LogRecordCount src)), req1\<lparr>data := src\<rparr>)
           else
             (case logs_size (req1\<lparr>data := src\<rparr>) sz szt of (n2, req2) \<Rightarrow>
                logs_split_loop maxSize sz szt
                  (req2\<lparr>sizes := SizeCache_Update (sizes req2) szt (n2 - removedSize)\<rparr>)
                  (if LogRecordCount ld > 0 then res @ [newLogsRequest ld] else res)
                  (droppedItems + (LogRecordCount (data req1) - LogRecordCount src - LogRecordCount ld))))
      else
        Some (if LogRecordCount (data req1) > 0 then res @ [req1] else res,
              if droppedItems > 0 then Some (OversizedItems droppedItems) else None, req1))"

definition logs_split ::
  "('res, 'sc, 'it) logsRequest \<Rightarrow> int \<Rightarrow> ('res, 'sc, 'it) data_sizer \<Rightarrow> SizerType \<Rightarrow>
     (('res, 'sc, 'it) logsRequest list \<times> split_error option \<times> ('res, 'sc, 'it) logsRequest) option" where
  "logs_split req maxSize sz szt =
     (case logs_size req sz szt of (n, req1) \<Rightarrow>
      if n \<le> maxSize then Some ([req1], None, req1)
      else logs_split_loop maxSize sz szt req1 [] 0)"

definition logs_sizer :: "('res, 'sc, 'it) leaf_sizes \<Rightarrow> SizerType \<Rightarrow> ('res, 'sc, 'it) data_sizer option" where
  "logs_sizer L szt =
     (if szt = SizerTypeItems then Some LogsCountSizer
      else if szt = SizerTypeBytes then Some (LogsBytesSizer L)
      else None)"

definition logs_MergeSplit ::
  "('res, 'sc, 'it) leaf_sizes \<Rightarrow> ('res, 'sc, 'it) logsRequest \<Rightarrow> int \<Rightarrow> SizerType \<Rightarrow>
     ('res, 'sc, 'it) logsRequest request_arg \<Rightarrow>
     (('res, 'sc, 'it) logsRequest list \<times> split_error option \<times> ('res, 'sc, 'it) logsRequest) option" where
  "logs_MergeSplit L req maxSize szt r2 =
     (case logs_sizer L szt of
        None \<Rightarrow> Some ([], Some UnknownSizerType, req)
      | Some sz \<Rightarrow>
          (case r2 of
             OtherType \<Rightarrow> Some ([], Some InvalidInputType, req)
           | NilRequest \<Rightarrow> if maxSize = 0 then Some ([req], None, req) else logs_split req maxSize sz szt
           | SameType req2 \<Rightarrow>
               let req' = snd (logs_mergeTo req2 req sz szt) in
               if maxSize = 0 then Some ([req'], None, req') else logs_split req' maxSize sz szt))"

section \<open>What is kept and what is dropped\<close>

text \<open>
  An item is known with the headers of its resource and of its scope. \<open>drops P xs ys\<close>: \<open>ys\<close> is \<open>xs\<close>
  without some of the elements that satisfy \<open>P\<close>.
\<close>

definition scope_items :: "('sc, 'it) ScopeItems \<Rightarrow> (('sc, 'it) ScopeItems \<times> 'it) list" where
  "scope_items sl = map (Pair (sl\<lparr>Items := []\<rparr>)) (Items sl)"

definition resource_items ::
  "('res, 'sc, 'it) ResourceItems \<Rightarrow>
     (('res, 'sc, 'it) ResourceItems \<times> ('sc, 'it) ScopeItems \<times> 'it) list" where
  "resource_items rl =
     map (Pair (rl\<lparr>Scopes := [], DeprecatedScopes := []\<rparr>)) (concat (map scope_items (Scopes rl)))"

definition data_items ::
  "('res, 'sc, 'it) Data \<Rightarrow>
     (('res, 'sc, 'it) ResourceItems \<times> ('sc, 'it) ScopeItems \<times> 'it) list" where
  "data_items ld = concat (map resource_items ld)"

inductive drops :: "('a \<Rightarrow> bool) \<Rightarrow> 'a list \<Rightarrow> 'a list \<Rightarrow> bool" for P where
  drops_Nil: "drops P [] []"
| drops_keep: "drops P xs ys \<Longrightarrow> drops P (x # xs) (x # ys)"
| drops_drop: "P x \<Longrightarrow> drops P xs ys \<Longrightarrow> drops P (x # xs) ys"

lemma drops_refl [intro, simp]: "drops P xs xs"
  by (induction xs) (auto intro: drops.intros)

lemma drops_append: "drops P xs ys \<Longrightarrow> drops P xs' ys' \<Longrightarrow> drops P (xs @ xs') (ys @ ys')"
  by (induction rule: drops.induct) (auto intro: drops.intros)

lemma drops_filter: "drops P xs (filter (\<lambda>x. \<not> P x) xs)"
  by (induction xs) (auto intro: drops.intros)

lemma drops_map: "drops P xs ys \<Longrightarrow> (\<And>x. P x \<Longrightarrow> Q (f x)) \<Longrightarrow> drops Q (map f xs) (map f ys)"
  by (induction rule: drops.induct) (auto intro: drops.intros)

lemma drops_length: "drops P xs ys \<Longrightarrow> length ys \<le> length xs"
  by (induction rule: drops.induct) auto

lemma drops_all_kept: "drops P xs ys \<Longrightarrow> length ys = length xs \<Longrightarrow> ys = xs"
  by (induction rule: drops.induct) (auto dest: drops_length)

lemma drops_none: "drops P xs ys \<Longrightarrow> (\<And>x. x \<in> set xs \<Longrightarrow> \<not> P x) \<Longrightarrow> ys = xs"
  by (induction rule: drops.induct) auto

lemma drops_subseq: "drops P xs ys \<Longrightarrow> subseq ys xs"
  by (induction rule: drops.induct) auto

lemma length_scope_items:
  "int (length (concat (map scope_items sls))) = (\<Sum>sl\<leftarrow>sls. int (length (Items sl)))"
  by (induction sls) (simp_all add: scope_items_def)

lemma LogRecordCount_items: "LogRecordCount ld = int (length (data_items ld))"
  by (induction ld)
    (simp_all add: LogRecordCount_def data_items_def resource_items_def length_scope_items)

definition max_scope_size :: "('res, 'sc, 'it) data_sizer \<Rightarrow> int \<Rightarrow> ('res, 'sc, 'it) ResourceItems \<Rightarrow> int" where
  "max_scope_size sz maxSize rl = maxSize - (DeltaSize sz maxSize - maxSize) - ResourceSize sz rl"

definition max_record_size :: "('res, 'sc, 'it) data_sizer \<Rightarrow> int \<Rightarrow> ('sc, 'it) ScopeItems \<Rightarrow> int" where
  "max_record_size sz maxScope sl = maxScope - (DeltaSize sz maxScope - maxScope) - ScopeSize sz sl"

text \<open>An item that the code takes to be too big for a batch of its own.\<close>

definition oversized ::
  "('res, 'sc, 'it) data_sizer \<Rightarrow> int \<Rightarrow>
     ('res, 'sc, 'it) ResourceItems \<times> ('sc, 'it) ScopeItems \<times> 'it \<Rightarrow> bool" where
  "oversized sz maxSize = (\<lambda>(rl, sl, it).
     DeltaSize sz (ItemSize sz it) > max_record_size sz (max_scope_size sz maxSize rl) sl)"

text \<open>The size cache of a request agrees with the sizes \<open>fi\<close> and \<open>fb\<close> of its data.\<close>

definition request_ok ::
  "(('res, 'sc, 'it) Data \<Rightarrow> int) \<Rightarrow> (('res, 'sc, 'it) Data \<Rightarrow> int) \<Rightarrow> ('res, 'sc, 'it) data_request \<Rightarrow> bool" where
  "request_ok fi fb req \<longleftrightarrow> cache_ok (sizes req) (fi (data req)) (fb (data req))"

definition request_items ::
  "('res, 'sc, 'it) data_request list \<Rightarrow>
     (('res, 'sc, 'it) ResourceItems \<times> ('sc, 'it) ScopeItems \<times> 'it) list" where
  "request_items reqs = concat (map (\<lambda>r. data_items (data r)) reqs)"

text \<open>The number of items that the error of a split reports as dropped.\<close>

fun reported_drops :: "split_error option \<Rightarrow> int" where
  "reported_drops (Some (CannotSplitFurther n)) = n"
| "reported_drops (Some (OversizedItems n)) = n"
| "reported_drops _ = 0"

text \<open>
  The contract of a merge and split of requests that hold the items \<open>its\<close>. Every request returned is
  within the limit, has a right size cache, and holds items unless it is the only one. Their items are
  \<open>its\<close> in order, without some oversized ones, and without the rest \<open>rest\<close> when splitting got stuck.
  The error reports exactly the number of items that are missing.
\<close>

definition split_contract ::
  "('res, 'sc, 'it) data_sizer \<Rightarrow> (('res, 'sc, 'it) Data \<Rightarrow> int) \<Rightarrow> (('res, 'sc, 'it) Data \<Rightarrow> int) \<Rightarrow> int \<Rightarrow>
     (('res, 'sc, 'it) ResourceItems \<times> ('sc, 'it) ScopeItems \<times> 'it) list \<Rightarrow>
     ('res, 'sc, 'it) data_request list \<Rightarrow> split_error option \<Rightarrow> bool" where
  "split_contract sz fi fb maxSize its out err \<longleftrightarrow>
     (\<forall>r \<in> set out. DataSize sz (data r) \<le> maxSize \<and> request_ok fi fb r \<and>
        (data_items (data r) = [] \<longrightarrow> out = [r])) \<and>
     (\<exists>rest. drops (oversized sz maxSize) its (request_items out @ rest) \<and>
        (rest \<noteq> [] \<longrightarrow> (\<exists>n. err = Some (CannotSplitFurther n)))) \<and>
     reported_drops err = int (length its) - int (length (request_items out)) \<and>
     err \<notin> {Some UnknownSizerType, Some InvalidInputType}"

section \<open>Lemmas\<close>

lemma new_scope: "\<lparr>Scope = Scope sl, ScopeSchemaUrl = ScopeSchemaUrl sl, Items = []\<rparr> = sl\<lparr>Items := []\<rparr>"
  by simp

lemma new_resource:
  "\<lparr>Resource = Resource rl, SchemaUrl = SchemaUrl rl, Scopes = [], DeprecatedScopes = []\<rparr> =
     rl\<lparr>Scopes := [], DeprecatedScopes := []\<rparr>"
  by simp

lemma logs_size_ok:
  assumes "request_ok fi fb req"
    and "szt = SizerTypeItems \<and> DataSize sz = fi \<or> szt = SizerTypeBytes \<and> DataSize sz = fb"
  obtains req1 where "logs_size req sz szt = (DataSize sz (data req), req1)"
    "data req1 = data req" "request_ok fi fb req1"
  using assms SizeOf_ok [of "sizes req" "fi (data req)" "fb (data req)"]
    that [of "snd (logs_size req sz szt)"]
  by (auto simp: logs_size_def request_ok_def split_beta)

lemma update_size_ok:
  assumes "szt = SizerTypeItems \<and> DataSize sz = fi \<or> szt = SizerTypeBytes \<and> DataSize sz = fb"
    and "n = DataSize sz (data req)"
  shows "request_ok fi fb (req\<lparr>sizes := SizeCache_Update c szt n\<rparr>)"
  using assms by (auto simp: request_ok_def)

lemma logs_size_cached:
  assumes "logs_size req sz szt = (n, req1)" "szt = SizerTypeItems \<or> szt = SizerTypeBytes" "n \<noteq> uncachedSize"
  shows "logs_size (req1\<lparr>data := d\<rparr>) sz szt = (n, req1\<lparr>data := d\<rparr>)"
  using assms by (auto simp: logs_size_def SizeOf_def Let_def split: if_splits)

lemma newLogsRequest_ok [simp]: "request_ok fi fb (newLogsRequest ld)" "data (newLogsRequest ld) = ld"
  by (simp_all add: newLogsRequest_def request_ok_def)

context sizer_laws
begin

abbreviation item_delta where "item_delta it \<equiv> DeltaSize S (ItemSize S it)"
abbreviation scope_delta where "scope_delta sl \<equiv> DeltaSize S (ScopeSize S sl)"
abbreviation resource_delta where "resource_delta rl \<equiv> DeltaSize S (ResourceSize S rl)"

lemma length_le_item_deltas: "int (length its) \<le> sum_list (map item_delta its)"
proof (induction its)
  case (Cons it its)
  then show ?case using item_size [of it] by simp
qed simp

lemma length_le_scope_size: "int (length (scope_items sl)) \<le> ScopeSize S sl"
  using length_le_item_deltas [of "Items sl"] scope_header [of sl] scope_size [of sl]
  by (simp add: scope_items_def)

lemma length_le_scope_delta: "int (length (scope_items sl)) \<le> scope_delta sl"
  using length_le_scope_size [of sl] delta_grows [of "ScopeSize S sl"] by linarith

lemma length_le_scope_deltas: "int (length (concat (map scope_items sls))) \<le> sum_list (map scope_delta sls)"
proof (induction sls)
  case (Cons sl sls)
  then show ?case using length_le_scope_delta [of sl] by simp
qed simp

lemma length_le_resource_delta: "int (length (resource_items rl)) \<le> resource_delta rl"
  using length_le_scope_deltas [of "Scopes rl"] resource_header [of rl] resource_size [of rl]
    delta_grows [of "ResourceSize S rl"]
  by (simp add: resource_items_def)

lemma extractScopeLogs_loop:
  assumes "remove_if (extractScopeLogs_record S maxRec) (c, r, d) xs = ((c', r', d'), ys)"
  shows "\<exists>pre. xs = pre @ ys \<and> r' = r + sum_list (map item_delta pre) \<and>
    d' = d\<lparr>Items := Items d @ filter (\<lambda>it. \<not> item_delta it > maxRec) pre\<rparr> \<and>
    sum_list (map item_delta (filter (\<lambda>it. \<not> item_delta it > maxRec) pre)) \<le> max 0 c"
  using assms
proof (induction xs arbitrary: c r d)
  case Nil
  then show ?case by simp
next
  case (Cons x xs)
  show ?case
  proof (cases "c = 0 \<or> (\<not> item_delta x > maxRec \<and> item_delta x > c)")
    case True
    have "remove_if (extractScopeLogs_record S maxRec) (0, r, d) zs = ((0, r, d), zs)" for zs
      by (rule remove_if_idle) (simp add: extractScopeLogs_record_def)
    then have "ys = x # xs" "r' = r" "d' = d"
      using Cons.prems True by (auto simp: extractScopeLogs_record_def Let_def split: prod.splits if_splits)
    then show ?thesis by simp
  next
    case step: False
    show ?thesis
    proof (cases "item_delta x > maxRec")
      case True
      then obtain pre where "xs = pre @ ys" "r' = r + item_delta x + sum_list (map item_delta pre)"
        "d' = d\<lparr>Items := Items d @ filter (\<lambda>it. \<not> item_delta it > maxRec) pre\<rparr>"
        "sum_list (map item_delta (filter (\<lambda>it. \<not> item_delta it > maxRec) pre)) \<le> max 0 c"
        using Cons.IH [of c "r + item_delta x" d] Cons.prems step
        by (auto simp: extractScopeLogs_record_def Let_def split: prod.splits)
      then show ?thesis using True by (intro exI [of _ "x # pre"]) simp
    next
      case False
      then obtain pre where "xs = pre @ ys" "r' = r + item_delta x + sum_list (map item_delta pre)"
        "d' = d\<lparr>Items := (Items d @ [x]) @ filter (\<lambda>it. \<not> item_delta it > maxRec) pre\<rparr>"
        "sum_list (map item_delta (filter (\<lambda>it. \<not> item_delta it > maxRec) pre)) \<le> max 0 (c - item_delta x)"
        using Cons.IH [of "c - item_delta x" "r + item_delta x" "d\<lparr>Items := Items d @ [x]\<rparr>"] Cons.prems step
        by (auto simp: extractScopeLogs_record_def Let_def split: prod.splits)
      then show ?thesis
        using False step item_size [of x] by (intro exI [of _ "x # pre"]) (simp add: not_less)
    qed
  qed
qed

text \<open>
  One call of \<open>extractScopeLogs\<close>: the source loses a prefix of its records and exactly their size; the
  destination gets the prefix without its oversized records, under the same header, and fits the
  capacity.
\<close>

lemma extractScopeLogs_spec:
  assumes "extractScopeLogs sl cap maxScope S = (dest, removed, sl')"
  obtains pre where "Items sl = pre @ Items sl'"
    "Items dest = filter (\<lambda>it. \<not> item_delta it > max_record_size S maxScope (sl\<lparr>Items := []\<rparr>)) pre"
    "sl'\<lparr>Items := []\<rparr> = sl\<lparr>Items := []\<rparr>" "dest\<lparr>Items := []\<rparr> = sl\<lparr>Items := []\<rparr>"
    "ScopeSize S sl' = ScopeSize S sl - removed"
    "int (length pre) \<le> removed"
    "Items dest \<noteq> [] \<Longrightarrow> ScopeSize S dest \<le> cap - (DeltaSize S cap - cap)"
proof -
  let ?h = "sl\<lparr>Items := []\<rparr>"
  let ?m = "max_record_size S maxScope ?h"
  let ?c = "cap - (DeltaSize S cap - cap) - ScopeSize S ?h"
  obtain c' ys where loop: "remove_if (extractScopeLogs_record S ?m) (?c, 0, ?h) (Items sl) = ((c', removed, dest), ys)"
    and sl': "sl' = sl\<lparr>Items := ys\<rparr>"
    using assms by (auto simp: extractScopeLogs_def new_scope Let_def max_record_size_def split: prod.splits)
  obtain pre where pre: "Items sl = pre @ ys" "removed = sum_list (map item_delta pre)"
    "dest = ?h\<lparr>Items := filter (\<lambda>it. \<not> item_delta it > ?m) pre\<rparr>"
    "sum_list (map item_delta (filter (\<lambda>it. \<not> item_delta it > ?m) pre)) \<le> max 0 ?c"
    using extractScopeLogs_loop [OF loop] by auto
  have "ScopeSize S dest \<le> cap - (DeltaSize S cap - cap)" if ne: "Items dest \<noteq> []"
  proof -
    have sz: "ScopeSize S dest = ScopeSize S ?h + sum_list (map item_delta (Items dest))"
      using scope_size [of dest] pre(3) by simp
    obtain it its where "Items dest = it # its" using ne by (cases "Items dest") auto
    moreover have "0 \<le> sum_list (map item_delta its)"
      by (intro sum_list_nonneg) (auto simp: less_imp_le item_size)
    ultimately have "0 < sum_list (map item_delta (Items dest))"
      using item_size [of it] by simp
    then show ?thesis using sz pre(3,4) by simp
  qed
  moreover have "ScopeSize S sl' = ScopeSize S sl - removed"
    using scope_size [of sl] scope_size [of sl'] sl' pre(1,2) by simp
  moreover have "int (length pre) \<le> removed"
    unfolding pre(2) by (rule length_le_item_deltas)
  ultimately show thesis
    using that [of pre] pre sl' by auto
qed

lemma extractScopeLogs_items:
  assumes "extractScopeLogs sl cap maxScope S = (dest, removed, sl')"
  shows "\<exists>pre. scope_items sl = pre @ scope_items sl' \<and> int (length pre) \<le> removed \<and>
    drops (\<lambda>(h, it). item_delta it > max_record_size S maxScope h) pre (scope_items dest)"
proof -
  let ?h = "sl\<lparr>Items := []\<rparr>"
  obtain pre where pre: "Items sl = pre @ Items sl'"
    "Items dest = filter (\<lambda>it. \<not> item_delta it > max_record_size S maxScope ?h) pre"
    "sl'\<lparr>Items := []\<rparr> = ?h" "dest\<lparr>Items := []\<rparr> = ?h" "int (length pre) \<le> removed"
    using extractScopeLogs_spec [OF assms] by metis
  have "drops (\<lambda>(h, it). item_delta it > max_record_size S maxScope h)
      (map (Pair ?h) pre) (map (Pair ?h) (Items dest))"
    unfolding pre(2) by (rule drops_map [OF drops_filter]) simp
  then show ?thesis
    using pre by (intro exI [of _ "map (Pair ?h) pre"]) (simp add: scope_items_def)
qed

text \<open>The loop over the scopes of one resource.\<close>

lemma extractResourceLogs_loop:
  assumes "remove_if (extractResourceLogs_scope S maxScope) (c, r, d) xs = ((c', r', d'), ys)"
    and "c < 2 ^ 63"
  shows "\<exists>ext pre. d' = d\<lparr>Scopes := Scopes d @ ext\<rparr> \<and>
    concat (map scope_items xs) = pre @ concat (map scope_items ys) \<and>
    drops (\<lambda>(h, it). item_delta it > max_record_size S maxScope h) pre (concat (map scope_items ext)) \<and>
    sum_list (map scope_delta ys) = sum_list (map scope_delta xs) - (r' - r) \<and>
    (ext \<noteq> [] \<longrightarrow> sum_list (map scope_delta ext) \<le> c) \<and>
    ((\<forall>x \<in> set xs. ScopeSize S x < 2 ^ 63) \<longrightarrow> r + int (length pre) \<le> r')"
  using assms
proof (induction xs arbitrary: c r d)
  case Nil
  then show ?case by (intro exI [of _ "[]"]) simp
next
  case (Cons x xs)
  have idle: "remove_if (extractResourceLogs_scope S maxScope) (0, r, d) zs = ((0, r, d), zs)" for r d zs
    by (rule remove_if_idle) (simp add: extractResourceLogs_scope_def)
  consider (stop) "c = 0" | (part) "c \<noteq> 0" "scope_delta x > c" | (all) "c \<noteq> 0" "scope_delta x \<le> c" by linarith
  then show ?case
  proof cases
    case stop
    then have "((c', r', d'), ys) = ((0, r, d), x # xs)" using Cons.prems(1) idle by metis
    then show ?thesis by (intro exI [of _ "[]"]) simp
  next
    case part
    obtain e er x' where e: "extractScopeLogs x c maxScope S = (e, er, x')" by (metis prod_cases3)
    obtain pre where pre: "scope_items x = pre @ scope_items x'" "int (length pre) \<le> er"
      "drops (\<lambda>(h, it). item_delta it > max_record_size S maxScope h) pre (scope_items e)"
      using extractScopeLogs_items [OF e] by blast
    have spec: "ScopeSize S x' = ScopeSize S x - er"
      "Items e \<noteq> [] \<Longrightarrow> ScopeSize S e \<le> c - (DeltaSize S c - c)"
      using extractScopeLogs_spec [OF e] by metis+
    define ext where "ext = (if Items e = [] then [] else [e])"
    have ext: "concat (map scope_items ext) = scope_items e" "ext \<noteq> [] \<longrightarrow> sum_list (map scope_delta ext) \<le> c"
      using spec(2) room_for_child [of "ScopeSize S e" c] scope_nonneg [of e] Cons.prems(2)
      by (auto simp: ext_def scope_items_def)
    have "d' = d\<lparr>Scopes := Scopes d @ ext\<rparr>"
      "ys = (if Items x' = [] then xs else x' # xs)"
      "r' = r + (if Items x' = [] then scope_delta x else scope_delta x - scope_delta x')"
      using Cons.prems part e idle spec(1)
      by (auto simp: extractResourceLogs_scope_def Let_def ext_def split: if_splits)
    moreover have "scope_items x' = []" if "Items x' = []" using that by (simp add: scope_items_def)
    moreover have "scope_delta x' + er \<le> scope_delta x" if "ScopeSize S x < 2 ^ 63"
      using delta_overhead_mono [of "ScopeSize S x'" "ScopeSize S x"] spec(1) pre(2) scope_nonneg [of x'] that
      by linarith
    moreover have "er \<le> scope_delta x"
      using spec(1) scope_nonneg [of x'] delta_grows [of "ScopeSize S x"] by linarith
    ultimately show ?thesis
      using pre ext by (intro exI [of _ ext] exI [of _ pre]) auto
  next
    case all
    then obtain ext pre where "d' = d\<lparr>Scopes := (Scopes d @ [x]) @ ext\<rparr>"
      "concat (map scope_items xs) = pre @ concat (map scope_items ys)"
      "drops (\<lambda>(h, it). item_delta it > max_record_size S maxScope h) pre (concat (map scope_items ext))"
      "sum_list (map scope_delta ys) = sum_list (map scope_delta xs) - (r' - (r + scope_delta x))"
      "ext \<noteq> [] \<longrightarrow> sum_list (map scope_delta ext) \<le> c - scope_delta x"
      "(\<forall>x \<in> set xs. ScopeSize S x < 2 ^ 63) \<longrightarrow> r + scope_delta x + int (length pre) \<le> r'"
      using Cons.IH [of "c - scope_delta x" "r + scope_delta x" "d\<lparr>Scopes := Scopes d @ [x]\<rparr>"]
        Cons.prems delta_scope_nonneg [of x]
      by (auto simp: extractResourceLogs_scope_def Let_def split: prod.splits)
    then show ?thesis
      using all length_le_scope_delta [of x]
      by (intro exI [of _ "x # ext"] exI [of _ "scope_items x @ pre"]) (auto intro: drops_append)
  qed
qed

lemma extractResourceLogs_spec:
  assumes "extractResourceLogs rl cap maxSize S = (dest, removed, rl')" and "cap < 2 ^ 63"
  shows "\<exists>pre. resource_items rl = pre @ resource_items rl' \<and>
      drops (oversized S maxSize) pre (resource_items dest) \<and>
      (ResourceSize S rl < 2 ^ 63 \<longrightarrow> int (length pre) \<le> removed)"
    "ResourceSize S rl' = ResourceSize S rl - removed"
    "Scopes dest \<noteq> [] \<Longrightarrow> ResourceSize S dest \<le> cap - (DeltaSize S cap - cap)"
proof -
  let ?h = "rl\<lparr>Scopes := [], DeprecatedScopes := []\<rparr>"
  let ?m = "max_scope_size S maxSize ?h"
  let ?c = "cap - (DeltaSize S cap - cap) - ResourceSize S ?h"
  obtain c' ys where loop: "remove_if (extractResourceLogs_scope S ?m) (?c, 0, ?h) (Scopes rl) = ((c', removed, dest), ys)"
    and rl': "rl' = rl\<lparr>Scopes := ys\<rparr>"
    using assms(1) by (auto simp: extractResourceLogs_def new_resource Let_def max_scope_size_def split: prod.splits)
  have "?c < 2 ^ 63"
    using assms(2) delta_grows [of cap] resource_header(1) [of rl] by linarith
  from extractResourceLogs_loop [OF loop this] obtain ext pre where
    ext: "dest = ?h\<lparr>Scopes := ext\<rparr>" "ext \<noteq> [] \<longrightarrow> sum_list (map scope_delta ext) \<le> ?c"
    and pre: "concat (map scope_items (Scopes rl)) = pre @ concat (map scope_items ys)"
      "drops (\<lambda>(h, it). item_delta it > max_record_size S ?m h) pre (concat (map scope_items ext))"
    and size: "sum_list (map scope_delta ys) = sum_list (map scope_delta (Scopes rl)) - removed"
    and len: "(\<forall>x \<in> set (Scopes rl). ScopeSize S x < 2 ^ 63) \<longrightarrow> int (length pre) \<le> removed"
    by auto
  have "ScopeSize S x < 2 ^ 63" if "x \<in> set (Scopes rl)" "ResourceSize S rl < 2 ^ 63" for x
  proof -
    have "scope_delta x \<le> sum_list (map scope_delta (Scopes rl))"
      using that(1) delta_scope_nonneg by (auto intro!: member_le_sum_list)
    then show ?thesis
      using delta_grows [of "ScopeSize S x"] resource_header [of rl] resource_size [of rl] that(2) by linarith
  qed
  then show "\<exists>pre. resource_items rl = pre @ resource_items rl' \<and>
      drops (oversized S maxSize) pre (resource_items dest) \<and>
      (ResourceSize S rl < 2 ^ 63 \<longrightarrow> int (length pre) \<le> removed)"
    using pre rl' ext(1) len
    by (intro exI [of _ "map (Pair ?h) pre"])
      (auto simp: resource_items_def oversized_def intro: drops_map)
  show "ResourceSize S rl' = ResourceSize S rl - removed"
    using resource_size [of rl] resource_size [of rl'] rl' size by simp
  show "ResourceSize S dest \<le> cap - (DeltaSize S cap - cap)" if "Scopes dest \<noteq> []"
  proof -
    have h: "dest\<lparr>Scopes := []\<rparr> = ?h" "Scopes dest = ext" using ext(1) by simp_all
    then have "sum_list (map scope_delta ext) \<le> ?c" using ext(2) that by blast
    then show ?thesis using resource_size [of dest] unfolding h by linarith
  qed
qed

text \<open>The loop over the resources.\<close>

lemma extractLogs_loop:
  assumes "remove_if (extractLogs_resource S maxSize) (c, r, d) xs = ((c', r', d'), ys)" and "c < 2 ^ 63"
  shows "\<exists>ext pre. d' = d @ ext \<and> data_items xs = pre @ data_items ys \<and>
    drops (oversized S maxSize) pre (data_items ext) \<and>
    DataSize S ys = DataSize S xs - (r' - r) \<and>
    (ext \<noteq> [] \<longrightarrow> DataSize S ext \<le> c) \<and>
    ((\<forall>x \<in> set xs. ResourceSize S x < 2 ^ 63) \<longrightarrow> r + int (length pre) \<le> r')"
  using assms
proof (induction xs arbitrary: c r d)
  case Nil
  then show ?case by (intro exI [of _ "[]"]) (simp add: data_items_def)
next
  case (Cons x xs)
  have idle: "remove_if (extractLogs_resource S maxSize) (0, r, d) zs = ((0, r, d), zs)" for r d zs
    by (rule remove_if_idle) (simp add: extractLogs_resource_def)
  consider (stop) "c = 0" | (part) "c \<noteq> 0" "resource_delta x > c" | (all) "c \<noteq> 0" "resource_delta x \<le> c"
    by linarith
  then show ?case
  proof cases
    case stop
    then have "((c', r', d'), ys) = ((0, r, d), x # xs)" using Cons.prems(1) idle by metis
    then show ?thesis by (intro exI [of _ "[]"]) (simp add: data_items_def)
  next
    case part
    obtain e er x' where e: "extractResourceLogs x c maxSize S = (e, er, x')" by (metis prod_cases3)
    note spec = extractResourceLogs_spec [OF e Cons.prems(2)]
    obtain pre where pre: "resource_items x = pre @ resource_items x'"
      "drops (oversized S maxSize) pre (resource_items e)"
      "ResourceSize S x < 2 ^ 63 \<longrightarrow> int (length pre) \<le> er"
      using spec(1) by blast
    define ext where "ext = (if Scopes e = [] then [] else [e])"
    have ext: "data_items ext = resource_items e" "ext \<noteq> [] \<longrightarrow> DataSize S ext \<le> c"
      using spec(3) room_for_child [of "ResourceSize S e" c] resource_nonneg [of e] Cons.prems(2)
      by (auto simp: ext_def data_items_def resource_items_def data_size)
    have "d' = d @ ext"
      "ys = (if Scopes x' = [] then xs else x' # xs)"
      "r' = r + (if Scopes x' = [] then resource_delta x else resource_delta x - resource_delta x')"
      using Cons.prems part e idle spec(2)
      by (auto simp: extractLogs_resource_def Let_def ext_def split: if_splits)
    moreover have "resource_items x' = []" if "Scopes x' = []" using that by (simp add: resource_items_def)
    moreover have "resource_delta x' + er \<le> resource_delta x" if "ResourceSize S x < 2 ^ 63"
      using delta_overhead_mono [of "ResourceSize S x'" "ResourceSize S x"] spec(2) pre(3)
        resource_nonneg [of x'] that by linarith
    moreover have "er \<le> resource_delta x"
      using spec(2) resource_nonneg [of x'] delta_grows [of "ResourceSize S x"] by linarith
    ultimately show ?thesis
      using pre ext by (intro exI [of _ ext] exI [of _ pre]) (auto simp: data_items_def data_size)
  next
    case all
    then obtain ext pre where "d' = (d @ [x]) @ ext" "data_items xs = pre @ data_items ys"
      "drops (oversized S maxSize) pre (data_items ext)"
      "DataSize S ys = DataSize S xs - (r' - (r + resource_delta x))"
      "ext \<noteq> [] \<longrightarrow> DataSize S ext \<le> c - resource_delta x"
      "(\<forall>x \<in> set xs. ResourceSize S x < 2 ^ 63) \<longrightarrow> r + resource_delta x + int (length pre) \<le> r'"
      using Cons.IH [of "c - resource_delta x" "r + resource_delta x" "d @ [x]"]
        Cons.prems delta_resource_nonneg [of x]
      by (auto simp: extractLogs_resource_def Let_def split: prod.splits)
    then show ?thesis
      using all length_le_resource_delta [of x]
      by (intro exI [of _ "x # ext"] exI [of _ "resource_items x @ pre"])
        (auto simp: data_items_def data_size intro: drops_append)
  qed
qed

text \<open>One call of \<open>extractLogs\<close>.\<close>

lemma extractLogs_spec:
  assumes "extractLogs src maxSize S = (dest, removed, src')" and "0 \<le> maxSize" and "maxSize < 2 ^ 63"
    and "DataSize S src < 2 ^ 63"
  obtains pre where "data_items src = pre @ data_items src'"
    "drops (oversized S maxSize) pre (data_items dest)" "int (length pre) \<le> removed"
    "DataSize S src' = DataSize S src - removed" "DataSize S dest \<le> maxSize"
proof -
  obtain c' where loop: "remove_if (extractLogs_resource S maxSize) (maxSize, 0, []) src = ((c', removed, dest), src')"
    using assms(1) data_size [of "[]"] by (auto simp: extractLogs_def split: prod.splits)
  obtain pre where spec: "data_items src = pre @ data_items src'"
    "drops (oversized S maxSize) pre (data_items dest)"
    "DataSize S src' = DataSize S src - removed" "dest \<noteq> [] \<longrightarrow> DataSize S dest \<le> maxSize"
    "(\<forall>x \<in> set src. ResourceSize S x < 2 ^ 63) \<longrightarrow> int (length pre) \<le> removed"
    using extractLogs_loop [OF loop assms(3)] by auto
  have "ResourceSize S x < 2 ^ 63" if x: "x \<in> set src" for x
  proof -
    have "resource_delta x \<le> DataSize S src"
      using x delta_resource_nonneg by (auto simp: data_size intro!: member_le_sum_list)
    then show ?thesis
      using delta_grows [of "ResourceSize S x"] assms(4) by linarith
  qed
  moreover have "DataSize S dest \<le> maxSize"
    using spec(4) data_size [of "[]"] assms(2) by (cases "dest = []") auto
  ultimately show thesis
    using spec by (intro that [of pre]) auto
qed

lemma logs_split_loop_step:
  assumes kind: "szt = SizerTypeItems \<and> DataSize S = fi \<or> szt = SizerTypeBytes \<and> DataSize S = fb"
    and req: "request_ok fi fb req" "maxSize < DataSize S (data req)"
    and ex: "extractLogs (data req) maxSize S = (ld, removed, src)" "removed \<noteq> 0"
    and src: "DataSize S src = DataSize S (data req) - removed"
  obtains req2 where "data req2 = src" "request_ok fi fb req2"
    "logs_split_loop maxSize S szt req res droppedItems =
       logs_split_loop maxSize S szt req2 (res @ (if data_items ld = [] then [] else [newLogsRequest ld]))
         (droppedItems + (LogRecordCount (data req) - LogRecordCount src - LogRecordCount ld))"
proof -
  obtain req1 where req1: "logs_size req S szt = (DataSize S (data req), req1)" "data req1 = data req"
    using logs_size_ok [OF req(1) kind] by blast
  define req2 where "req2 = req1\<lparr>data := src, sizes := SizeCache_Update (sizes req1) szt (DataSize S src)\<rparr>"
  have "logs_size (req1\<lparr>data := src\<rparr>) S szt = (DataSize S (data req), req1\<lparr>data := src\<rparr>)"
    using logs_size_cached [OF req1(1)] kind data_nonneg [of "data req"] by (auto simp: uncachedSize_def)
  then show thesis
    using that [of req2] update_size_ok [OF kind] req1 req(2) ex src
      logs_split_loop.simps [of maxSize S szt req res droppedItems]
    by (auto simp: req2_def LogRecordCount_items)
qed

lemma logs_split_loop_spec:
  assumes kind: "szt = SizerTypeItems \<and> DataSize S = fi \<or> szt = SizerTypeBytes \<and> DataSize S = fb"
    and limit: "0 \<le> maxSize" "maxSize < 2 ^ 63"
    and "request_ok fi fb req" "DataSize S (data req) < 2 ^ 63" "0 \<le> droppedItems"
  shows "\<exists>out err fin rest.
    logs_split_loop maxSize S szt req res droppedItems = Some (res @ out, err, fin) \<and>
    drops (oversized S maxSize) (data_items (data req)) (request_items out @ rest) \<and>
    (rest \<noteq> [] \<longrightarrow> (\<exists>n. err = Some (CannotSplitFurther n))) \<and>
    (\<forall>r \<in> set out. DataSize S (data r) \<le> maxSize \<and> data_items (data r) \<noteq> [] \<and> request_ok fi fb r) \<and>
    reported_drops err = droppedItems + int (length (data_items (data req))) - int (length (request_items out)) \<and>
    err \<notin> {Some UnknownSizerType, Some InvalidInputType}"
  using assms(4-6)
proof (induction "nat (DataSize S (data req))" arbitrary: req res droppedItems rule: less_induct)
  case less
  obtain req1 where req1: "logs_size req S szt = (DataSize S (data req), req1)"
    "data req1 = data req" "request_ok fi fb req1"
    using logs_size_ok [OF less.prems(1) kind] .
  obtain ld removed src where ex: "extractLogs (data req) maxSize S = (ld, removed, src)" by (metis prod_cases3)
  obtain pre where pre: "data_items (data req) = pre @ data_items src"
    "drops (oversized S maxSize) pre (data_items ld)" "int (length pre) \<le> removed"
    and spec: "DataSize S src = DataSize S (data req) - removed" "DataSize S ld \<le> maxSize"
    using extractLogs_spec [OF ex limit less.prems(2)] .
  have nonneg: "0 \<le> DataSize S (data req)" "0 \<le> DataSize S src" by (rule data_nonneg)+
  note unfold = logs_split_loop.simps [of maxSize S szt req res droppedItems]
  consider (small) "DataSize S (data req) \<le> maxSize"
    | (stuck) "maxSize < DataSize S (data req)" "removed = 0"
    | (step) "maxSize < DataSize S (data req)" "removed \<noteq> 0" by linarith
  then show ?case
  proof cases
    case small
    then show ?thesis
      using req1 less.prems unfold
      by (intro exI [of _ "if data_items (data req) = [] then [] else [req1]"]
          exI [of _ "if droppedItems > 0 then Some (OversizedItems droppedItems) else None"]
          exI [of _ req1] exI [of _ "[]"])
        (auto simp: LogRecordCount_items request_items_def)
  next
    case stuck
    then show ?thesis
      using req1 ex pre unfold
      by (intro exI [of _ "[]"] exI [of _ "Some (CannotSplitFurther (droppedItems + LogRecordCount src))"]
          exI [of _ "req1\<lparr>data := src\<rparr>"] exI [of _ "data_items (data req)"])
        (auto simp: LogRecordCount_items request_items_def)
  next
    case step
    define first where "first = (if data_items ld = [] then [] else [newLogsRequest ld])"
    define dropped where "dropped = droppedItems + (int (length pre) - int (length (data_items ld)))"
    obtain req2 where req2: "data req2 = src" "request_ok fi fb req2"
      and again: "logs_split_loop maxSize S szt req res droppedItems =
        logs_split_loop maxSize S szt req2 (res @ first) dropped"
      using logs_split_loop_step [OF kind less.prems(1) step(1) ex step(2) spec(1)] pre(1)
      by (auto simp: first_def dropped_def LogRecordCount_items)
    have dropped: "0 \<le> dropped"
      using less.prems(3) drops_length [OF pre(2)] by (simp add: dropped_def)
    have smaller: "nat (DataSize S (data req2)) < nat (DataSize S (data req))" "DataSize S (data req2) < 2 ^ 63"
      using step spec nonneg pre(3) less.prems(2) req2(1) by auto
    obtain out err fin rest where IH:
      "logs_split_loop maxSize S szt req2 (res @ first) dropped = Some ((res @ first) @ out, err, fin)"
      "drops (oversized S maxSize) (data_items src) (request_items out @ rest)"
      "rest \<noteq> [] \<longrightarrow> (\<exists>n. err = Some (CannotSplitFurther n))"
      "\<forall>r \<in> set out. DataSize S (data r) \<le> maxSize \<and> data_items (data r) \<noteq> [] \<and> request_ok fi fb r"
      "reported_drops err = dropped + int (length (data_items src)) - int (length (request_items out))"
      "err \<notin> {Some UnknownSizerType, Some InvalidInputType}"
      using less.hyps [OF smaller(1) req2(2) smaller(2) dropped, of "res @ first"] unfolding req2(1) by blast
    have items: "request_items (first @ out) = data_items ld @ request_items out"
      by (simp add: request_items_def first_def)
    then have "drops (oversized S maxSize) (data_items (data req)) (request_items (first @ out) @ rest)"
      using drops_append [OF pre(2) IH(2)] pre(1) by simp
    moreover have "\<forall>r \<in> set (first @ out). DataSize S (data r) \<le> maxSize \<and> data_items (data r) \<noteq> [] \<and>
        request_ok fi fb r"
      using IH(4) spec(2) by (auto simp: first_def)
    ultimately show ?thesis
      using again IH(1,3,5,6) pre(1) items
      by (intro exI [of _ "first @ out"] exI [of _ err] exI [of _ fin] exI [of _ rest]) (simp add: dropped_def)
  qed
qed

lemma logs_split_spec:
  assumes kind: "szt = SizerTypeItems \<and> DataSize S = fi \<or> szt = SizerTypeBytes \<and> DataSize S = fb"
    and limit: "0 \<le> maxSize" "maxSize < 2 ^ 63"
    and req: "request_ok fi fb req" "DataSize S (data req) < 2 ^ 63"
  shows "\<exists>out err fin. logs_split req maxSize S szt = Some (out, err, fin) \<and>
    split_contract S fi fb maxSize (data_items (data req)) out err"
proof -
  obtain req1 where req1: "logs_size req S szt = (DataSize S (data req), req1)"
    "data req1 = data req" "request_ok fi fb req1"
    using logs_size_ok [OF req(1) kind] .
  show ?thesis
  proof (cases "DataSize S (data req) \<le> maxSize")
    case True
    then show ?thesis
      using req1 by (auto simp: logs_split_def split_contract_def request_items_def intro!: exI [of _ "[]"])
  next
    case False
    obtain out err fin rest where "logs_split_loop maxSize S szt req1 [] 0 = Some (out, err, fin)"
      "drops (oversized S maxSize) (data_items (data req)) (request_items out @ rest)"
      "rest \<noteq> [] \<longrightarrow> (\<exists>n. err = Some (CannotSplitFurther n))"
      "\<forall>r \<in> set out. DataSize S (data r) \<le> maxSize \<and> data_items (data r) \<noteq> [] \<and> request_ok fi fb r"
      "reported_drops err = int (length (data_items (data req))) - int (length (request_items out))"
      "err \<notin> {Some UnknownSizerType, Some InvalidInputType}"
      using logs_split_loop_spec [OF kind limit req1(3), of 0 "[]"] req(2) req1(2)
      by (simp only: append_Nil order_refl add_0) blast
    then show ?thesis
      using False req1(1) by (intro exI [of _ out] exI [of _ err] exI [of _ fin]) (auto simp: logs_split_def split_contract_def)
  qed
qed

lemma logs_mergeTo_spec:
  assumes kind: "szt = SizerTypeItems \<and> DataSize S = fi \<or> szt = SizerTypeBytes \<and> DataSize S = fb"
    and "request_ok fi fb req2" "request_ok fi fb req"
  obtains req' emptied where "logs_mergeTo req2 req S szt = (emptied, req')"
    "request_ok fi fb req'" "data req' = data req @ data req2" "data emptied = []" "request_ok fi fb emptied"
proof -
  obtain r2 where r2: "logs_size req2 S szt = (DataSize S (data req2), r2)" "data r2 = data req2"
    using logs_size_ok [OF assms(2) kind] by blast
  obtain r1 where r1: "logs_size req S szt = (DataSize S (data req), r1)" "data r1 = data req"
    using logs_size_ok [OF assms(3) kind] by blast
  have [simp]: "DataSize S (data req @ data req2) = DataSize S (data req) + DataSize S (data req2)"
    by (simp add: data_size)
  have [simp]: "DataSize S [] = 0" by (simp add: data_size)
  show thesis
    using that r1 r2 kind by (auto simp: logs_mergeTo_def MoveAndAppendTo_def request_ok_def Let_def)
qed

end

text \<open>Both sizers of log requests.\<close>

definition bytes_of :: "('res, 'sc, 'it) leaf_sizes \<Rightarrow> ('res, 'sc, 'it) Data \<Rightarrow> int" where
  "bytes_of L = Data_SizeProto (res_sz L) (scope_sz L) (item_sz L)"

abbreviation logs_request_ok :: "('res, 'sc, 'it) leaf_sizes \<Rightarrow> ('res, 'sc, 'it) logsRequest \<Rightarrow> bool" where
  "logs_request_ok L \<equiv> request_ok LogRecordCount (bytes_of L)"

lemma logs_sizer_cases:
  assumes "logs_sizer L szt = Some sz"
  shows "sizer_laws sz"
    "szt = SizerTypeItems \<and> DataSize sz = LogRecordCount \<or> szt = SizerTypeBytes \<and> DataSize sz = bytes_of L"
  using assms logs_count.sizer_laws_axioms LogsBytesSizer_laws
  by (auto simp: logs_sizer_def LogsCountSizer_def LogsBytesSizer_def bytes_of_def split: if_splits)

subsection \<open>Counting items\<close>

lemma count_sizer [simp]:
  "DataSize LogsCountSizer = LogRecordCount"
  "ResourceSize LogsCountSizer rl = (\<Sum>sl\<leftarrow>Scopes rl. int (length (Items sl)))"
  "ScopeSize LogsCountSizer sl = int (length (Items sl))"
  "ItemSize LogsCountSizer it = 1" "DeltaSize LogsCountSizer n = n"
  by (simp_all add: LogsCountSizer_def)

lemma count_record_loop:
  assumes "remove_if (extractScopeLogs_record LogsCountSizer m) (c, r, d) xs = ((c', r', d'), ys)"
    and "0 \<le> c" "1 \<le> m"
  shows "int (length (Items d')) = int (length (Items d)) + min c (int (length xs))"
  using assms
proof (induction xs arbitrary: c r d)
  case (Cons x xs)
  have idle: "remove_if (extractScopeLogs_record LogsCountSizer m) (0, r, d) zs = ((0, r, d), zs)" for r d zs
    by (rule remove_if_idle) (simp add: extractScopeLogs_record_def)
  show ?case
  proof (cases "c = 0")
    case True
    then have "((c', r', d'), ys) = ((0, r, d), x # xs)" using Cons.prems(1) idle by metis
    then show ?thesis using True by simp
  next
    case False
    then show ?thesis
      using Cons.IH [of "c - 1" "r + 1" "d\<lparr>Items := Items d @ [x]\<rparr>"] Cons.prems
      by (auto simp: extractScopeLogs_record_def Let_def split: prod.splits)
  qed
qed simp

lemma count_extractScopeLogs:
  assumes "extractScopeLogs sl c m LogsCountSizer = (dest, removed, sl')" "0 \<le> c" "1 \<le> m"
  shows "int (length (Items dest)) = min c (int (length (Items sl)))"
  using assms count_record_loop [where r = 0 and d = "sl\<lparr>Items := []\<rparr>" and m = m and c = c]
  by (fastforce simp: extractScopeLogs_def new_scope Let_def split: prod.splits)

lemma count_scope_loop:
  fixes d :: "('res, 'sc, 'it) ResourceItems"
  assumes "remove_if (extractResourceLogs_scope LogsCountSizer m) (c, r, d) xs = ((c', r', d'), ys)"
    and "0 \<le> c" "1 \<le> m"
  shows "int (length (concat (map scope_items (Scopes d')))) =
    int (length (concat (map scope_items (Scopes d)))) + min c (int (length (concat (map scope_items xs))))"
  using assms
proof (induction xs arbitrary: c r d)
  case (Cons x xs)
  have idle: "remove_if (extractResourceLogs_scope LogsCountSizer m) (0, r, d) zs = ((0, r, d), zs)"
    for r zs and d :: "('res, 'sc, 'it) ResourceItems"
    by (rule remove_if_idle) (simp add: extractResourceLogs_scope_def)
  have len: "int (length (scope_items sl)) = int (length (Items sl))" for sl :: "('sc, 'it) ScopeItems"
    by (simp add: scope_items_def)
  consider (stop) "c = 0" | (part) "c \<noteq> 0" "int (length (Items x)) > c" | (all) "c \<noteq> 0" "int (length (Items x)) \<le> c"
    by linarith
  then show ?case
  proof cases
    case stop
    then have "((c', r', d'), ys) = ((0, r, d), x # xs)" using Cons.prems(1) idle by metis
    then show ?thesis using stop by simp
  next
    case part
    obtain e er x' where e: "extractScopeLogs x c m (LogsCountSizer :: ('res, 'sc, 'it) data_sizer) = (e, er, x')"
      by (metis prod_cases3)
    have n: "int (length (Items e)) = c"
      using count_extractScopeLogs [OF e] Cons.prems part by simp
    then have "Items e \<noteq> []" using part by auto
    then have "d' = d\<lparr>Scopes := Scopes d @ [e]\<rparr>"
      using Cons.prems part e idle
      by (auto simp: extractResourceLogs_scope_def Let_def split: if_splits)
    then show ?thesis using part n len by simp
  next
    case all
    then show ?thesis
      using Cons.IH [of "c - int (length (Items x))" "r + int (length (Items x))" "d\<lparr>Scopes := Scopes d @ [x]\<rparr>"]
        Cons.prems len
      by (auto simp: extractResourceLogs_scope_def Let_def split: prod.splits)
  qed
qed simp

lemma count_resource_size [simp]:
  "(\<Sum>sl\<leftarrow>Scopes rl. int (length (Items sl))) = int (length (resource_items rl))"
  by (simp add: resource_items_def length_scope_items)

lemma count_extractResourceLogs:
  assumes "extractResourceLogs rl c m LogsCountSizer = (dest, removed, rl')" "0 \<le> c" "1 \<le> m"
  shows "int (length (resource_items dest)) = min c (int (length (resource_items rl)))"
  using assms count_scope_loop [where r = 0 and d = "rl\<lparr>Scopes := [], DeprecatedScopes := []\<rparr>" and m = m and c = c]
  by (fastforce simp: extractResourceLogs_def new_resource resource_items_def Let_def split: prod.splits)

lemma count_resource_loop:
  fixes d :: "('res, 'sc, 'it) Data"
  assumes "remove_if (extractLogs_resource LogsCountSizer m) (c, r, d) xs = ((c', r', d'), ys)"
    and "0 \<le> c" "1 \<le> m"
  shows "int (length (data_items d')) = int (length (data_items d)) + min c (int (length (data_items xs)))"
  using assms
proof (induction xs arbitrary: c r d)
  case (Cons x xs)
  have idle: "remove_if (extractLogs_resource LogsCountSizer m) (0, r, d) zs = ((0, r, d), zs)"
    for r zs and d :: "('res, 'sc, 'it) Data"
    by (rule remove_if_idle) (simp add: extractLogs_resource_def)
  let ?n = "int (length (resource_items x))"
  consider (stop) "c = 0" | (part) "c \<noteq> 0" "?n > c" | (all) "c \<noteq> 0" "?n \<le> c" by linarith
  then show ?case
  proof cases
    case stop
    then have "((c', r', d'), ys) = ((0, r, d), x # xs)" using Cons.prems(1) idle by metis
    then show ?thesis using stop by (simp add: data_items_def)
  next
    case part
    obtain e er x' where e: "extractResourceLogs x c m LogsCountSizer = (e, er, x')" by (metis prod_cases3)
    have n: "int (length (resource_items e)) = c"
      using count_extractResourceLogs [OF e] Cons.prems part by simp
    then have "Scopes e \<noteq> []" using part by (auto simp: resource_items_def)
    then have "d' = d @ [e]"
      using Cons.prems part e idle by (auto simp: extractLogs_resource_def Let_def split: if_splits)
    then show ?thesis using part n by (simp add: data_items_def)
  next
    case all
    then show ?thesis
      using Cons.IH [of "c - ?n" "r + ?n" "d @ [x]"] Cons.prems
      by (auto simp: extractLogs_resource_def data_items_def Let_def split: prod.splits)
  qed
qed (simp add: data_items_def)

lemma count_extractLogs:
  assumes "extractLogs src m LogsCountSizer = (dest, removed, src')" "1 \<le> m"
  shows "int (length (data_items dest)) = min m (int (length (data_items src)))"
  using assms count_resource_loop [where r = 0 and d = "[]" and m = m and c = m]
  by (fastforce simp: extractLogs_def LogRecordCount_items data_items_def split: prod.splits)

lemma count_not_oversized:
  "1 \<le> maxSize \<Longrightarrow> x \<in> set (data_items ld) \<Longrightarrow> \<not> oversized LogsCountSizer maxSize x"
  by (auto simp: data_items_def resource_items_def scope_items_def oversized_def max_scope_size_def
      max_record_size_def)

lemma count_split_loop:
  assumes limit: "1 \<le> maxSize" "maxSize < 2 ^ 63"
    and "request_ok LogRecordCount fb req" "LogRecordCount (data req) < 2 ^ 63"
  shows "\<exists>out fin. logs_split_loop maxSize LogsCountSizer SizerTypeItems req res 0 = Some (res @ out, None, fin) \<and>
    request_items out = data_items (data req) \<and>
    (\<forall>r \<in> set (butlast out). int (length (data_items (data r))) = maxSize) \<and>
    (\<forall>r \<in> set out. 0 < length (data_items (data r)) \<and> int (length (data_items (data r))) \<le> maxSize)"
  using assms(3-4)
proof (induction "length (data_items (data req))" arbitrary: req res rule: less_induct)
  case less
  have kind: "SizerTypeItems = SizerTypeItems \<and> DataSize LogsCountSizer = LogRecordCount \<or>
    SizerTypeItems = SizerTypeBytes \<and> DataSize LogsCountSizer = fb" by simp
  show ?case
  proof (cases "int (length (data_items (data req))) \<le> maxSize")
    case True
    obtain req1 where "logs_size req LogsCountSizer SizerTypeItems = (LogRecordCount (data req), req1)"
      "data req1 = data req" using logs_size_ok [OF less.prems(1) kind] by auto
    then show ?thesis
      using True logs_split_loop.simps [of maxSize LogsCountSizer SizerTypeItems req res 0]
      by (intro exI [of _ "if data_items (data req) = [] then [] else [req1]"] exI [of _ req1])
        (auto simp: LogRecordCount_items request_items_def)
  next
    case False
    obtain ld removed src where ex: "extractLogs (data req) maxSize LogsCountSizer = (ld, removed, src)"
      by (metis prod_cases3)
    obtain pre where pre: "data_items (data req) = pre @ data_items src"
      "drops (oversized LogsCountSizer maxSize) pre (data_items ld)" "int (length pre) \<le> removed"
      "LogRecordCount src = LogRecordCount (data req) - removed"
      using logs_count.extractLogs_spec [OF ex] limit less.prems(2) by auto
    have n: "int (length (data_items ld)) = maxSize"
      using count_extractLogs [OF ex] limit False by simp
    have "data_items ld = pre"
      by (rule drops_none [OF pre(2)]) (use count_not_oversized [OF limit(1), of _ "data req"] pre(1) in auto)
    note whole = this pre(1)
    have pos: "removed \<noteq> 0" "data_items ld \<noteq> []" using n whole pre(3) limit by auto
    obtain req2 where req2: "data req2 = src" "request_ok LogRecordCount fb req2"
      and again: "logs_split_loop maxSize LogsCountSizer SizerTypeItems req res 0 =
        logs_split_loop maxSize LogsCountSizer SizerTypeItems req2 (res @ [newLogsRequest ld]) 0"
      using logs_count.logs_split_loop_step [OF kind less.prems(1) _ ex pos(1)] False pre(4) whole pos(2)
      by (auto simp: LogRecordCount_items)
    obtain out fin where out:
      "logs_split_loop maxSize LogsCountSizer SizerTypeItems req2 (res @ [newLogsRequest ld]) 0 =
        Some ((res @ [newLogsRequest ld]) @ out, None, fin)"
      "request_items out = data_items src"
      "\<forall>r \<in> set (butlast out). int (length (data_items (data r))) = maxSize"
      "\<forall>r \<in> set out. 0 < length (data_items (data r)) \<and> int (length (data_items (data r))) \<le> maxSize"
      using less.hyps [of req2 "res @ [newLogsRequest ld]"] req2 whole pos(2) less.prems(2)
      by (auto simp: LogRecordCount_items)
    then show ?thesis
      using again whole n limit
      by (intro exI [of _ "newLogsRequest ld # out"] exI [of _ fin]) (auto simp: request_items_def)
  qed
qed

lemma logs_MergeSplit_spec:
  assumes sizer: "logs_sizer L szt = Some sz"
    and limit: "0 < maxSize" "maxSize < 2 ^ 63"
    and reqs: "logs_request_ok L req" "logs_request_ok L req2" "DataSize sz (data req @ data req2) < 2 ^ 63"
  shows "\<exists>out err fin. logs_MergeSplit L req maxSize szt (SameType req2) = Some (out, err, fin) \<and>
    split_contract sz LogRecordCount (bytes_of L) maxSize
      (data_items (data req) @ data_items (data req2)) out err"
proof -
  note laws = logs_sizer_cases [OF sizer]
  obtain req' emptied where merged: "logs_mergeTo req2 req sz szt = (emptied, req')"
    "logs_request_ok L req'" "data req' = data req @ data req2"
    using sizer_laws.logs_mergeTo_spec [OF laws reqs(2,1)] .
  have "data_items (data req') = data_items (data req) @ data_items (data req2)"
    using merged(3) by (simp add: data_items_def)
  then show ?thesis
    using sizer_laws.logs_split_spec [OF laws _ limit(2) merged(2)] limit(1) reqs(3) merged sizer
    by (simp add: logs_MergeSplit_def)
qed

lemma logs_MergeSplit_items:
  assumes "0 < maxSize" "maxSize < 2 ^ 63"
    and "logs_request_ok L req" "logs_request_ok L req2" "LogRecordCount (data req @ data req2) < 2 ^ 63"
    and "data_items (data req @ data req2) \<noteq> []"
  shows "\<exists>out fin. logs_MergeSplit L req maxSize SizerTypeItems (SameType req2) = Some (out, None, fin) \<and>
    request_items out = data_items (data req) @ data_items (data req2) \<and>
    (\<forall>r \<in> set (butlast out). LogRecordCount (data r) = maxSize) \<and>
    0 < LogRecordCount (data (last out)) \<and> LogRecordCount (data (last out)) \<le> maxSize"
proof -
  have kind: "SizerTypeItems = SizerTypeItems \<and> DataSize LogsCountSizer = LogRecordCount \<or>
    SizerTypeItems = SizerTypeBytes \<and> DataSize LogsCountSizer = bytes_of L" by simp
  obtain req' emptied where merged: "logs_mergeTo req2 req LogsCountSizer SizerTypeItems = (emptied, req')"
    "logs_request_ok L req'" "data req' = data req @ data req2"
    using logs_count.logs_mergeTo_spec [OF kind assms(4,3)] .
  obtain req1 where req1: "logs_size req' LogsCountSizer SizerTypeItems = (LogRecordCount (data req'), req1)"
    "data req1 = data req'" "logs_request_ok L req1"
    using logs_size_ok [OF merged(2) kind] by auto
  have items: "data_items (data req') = data_items (data req) @ data_items (data req2)"
    using merged(3) by (simp add: data_items_def)
  have MS: "logs_MergeSplit L req maxSize SizerTypeItems (SameType req2) =
      (if LogRecordCount (data req') \<le> maxSize then Some ([req1], None, req1)
       else logs_split_loop maxSize LogsCountSizer SizerTypeItems req1 [] 0)"
    using merged(1) req1(1) assms(1) by (simp add: logs_MergeSplit_def logs_sizer_def logs_split_def)
  show ?thesis
  proof (cases "LogRecordCount (data req') \<le> maxSize")
    case True
    then show ?thesis
      using MS req1(2) items assms(6) merged(3) by (simp add: request_items_def LogRecordCount_items)
  next
    case False
    obtain out fin where "logs_split_loop maxSize LogsCountSizer SizerTypeItems req1 [] 0 = Some (out, None, fin)"
      "request_items out = data_items (data req')"
      "\<forall>r \<in> set (butlast out). int (length (data_items (data r))) = maxSize"
      "\<forall>r \<in> set out. 0 < length (data_items (data r)) \<and> int (length (data_items (data r))) \<le> maxSize"
      using count_split_loop [of maxSize "bytes_of L" req1 "[]"] assms(1,2,5) req1 merged(3) by auto
    moreover from this have "out \<noteq> []" using assms(6) merged(3) by (auto simp: request_items_def)
    ultimately show ?thesis
      using MS False items by (simp add: LogRecordCount_items)
  qed
qed

section \<open>Properties\<close>

text \<open>
  C4. Merging two log requests and splitting the result, by items or by bytes, always returns, and the
  returned requests partition the input: each is within the limit and has a right size cache; together
  they hold the records of the two requests in their order, each under its own resource and scope, without
  records that are too big for a batch and, only when splitting is reported as stuck, without a remainder;
  and the error reports exactly how many records are missing.
\<close>

theorem logs_MergeSplit_contract:
  assumes sizer: "logs_sizer L szt = Some sz"
    and limit: "0 < maxSize" "maxSize < 2 ^ 63"
    and reqs: "logs_request_ok L req" "logs_request_ok L req2" "DataSize sz (data req @ data req2) < 2 ^ 63"
  shows "\<exists>out err fin. logs_MergeSplit L req maxSize szt (SameType req2) = Some (out, err, fin) \<and>
    split_contract sz LogRecordCount (bytes_of L) maxSize
      (data_items (data req) @ data_items (data req2)) out err"
  using assms by (rule logs_MergeSplit_spec)

definition sample_leaves :: "(nat, nat, nat) leaf_sizes" where
  "sample_leaves = \<lparr>res_sz = id, scope_sz = id, item_sz = id\<rparr>"

text \<open>A request with one resource and one scope without attributes, and records of the given sizes.\<close>

definition sample_request :: "nat \<Rightarrow> nat list \<Rightarrow> (nat, nat, nat) logsRequest" where
  "sample_request r its = newLogsRequest
     [\<lparr>Resource = r, SchemaUrl = [],
       Scopes = [\<lparr>Scope = 0, ScopeSchemaUrl = [], Items = its\<rparr>], DeprecatedScopes = []\<rparr>]"

lemma sample_request_ok [simp]: "request_ok fi fb (sample_request r its)"
  by (simp add: sample_request_def)

lemma sample_request_bytes:
  "bytes_of sample_leaves (data (sample_request 0 [5, 6])) = 23"
  "bytes_of sample_leaves (data (sample_request 1 [7])) = 18"
  by (simp_all add: bytes_of_def sample_leaves_def sample_request_def newLogsRequest_def Data_SizeProto_def
      ResourceItems_SizeProto_def ScopeItems_SizeProto_def field_size_DeltaSize string_size_def)

theorem logs_MergeSplit_contract_witness:
  "\<exists>out err fin. logs_MergeSplit sample_leaves (sample_request 0 [5, 6]) 20 SizerTypeBytes
       (SameType (sample_request 1 [7])) = Some (out, err, fin) \<and>
     split_contract (LogsBytesSizer sample_leaves) LogRecordCount (bytes_of sample_leaves) 20
       (data_items (data (sample_request 0 [5, 6])) @ data_items (data (sample_request 1 [7]))) out err"
proof -
  have "logs_sizer sample_leaves SizerTypeBytes = Some (LogsBytesSizer sample_leaves)"
    by (simp add: logs_sizer_def)
  moreover have "DataSize (LogsBytesSizer sample_leaves)
      (data (sample_request 0 [5, 6]) @ data (sample_request 1 [7])) < 2 ^ 63"
    using sample_request_bytes by (simp add: LogsBytesSizer_def bytes_of_def Data_SizeProto_def)
  ultimately show ?thesis
    using logs_MergeSplit_contract [of sample_leaves SizerTypeBytes "LogsBytesSizer sample_leaves" 20
        "sample_request 0 [5, 6]" "sample_request 1 [7]"] by simp
qed

text \<open>
  Splitting by items is exact: no record is lost and no error is reported, every request but the
  last holds exactly the maximal number of records, and the last one at most that many.
\<close>

theorem logs_MergeSplit_items_exact:
  assumes "0 < maxSize" "maxSize < 2 ^ 63"
    and "logs_request_ok L req" "logs_request_ok L req2" "LogRecordCount (data req @ data req2) < 2 ^ 63"
    and "data_items (data req @ data req2) \<noteq> []"
  shows "\<exists>out fin. logs_MergeSplit L req maxSize SizerTypeItems (SameType req2) = Some (out, None, fin) \<and>
    request_items out = data_items (data req) @ data_items (data req2) \<and>
    (\<forall>r \<in> set (butlast out). LogRecordCount (data r) = maxSize) \<and>
    0 < LogRecordCount (data (last out)) \<and> LogRecordCount (data (last out)) \<le> maxSize"
  using assms by (rule logs_MergeSplit_items)

theorem logs_MergeSplit_items_exact_witness:
  "\<exists>out fin. logs_MergeSplit sample_leaves (sample_request 0 [5, 6]) 2 SizerTypeItems
       (SameType (sample_request 1 [7])) = Some (out, None, fin) \<and>
     length (request_items out) = 3 \<and> list_all (\<lambda>r. LogRecordCount (data r) = 2) (butlast out)"
proof -
  have "LogRecordCount (data (sample_request 0 [5, 6]) @ data (sample_request 1 [7])) = 3"
    "length (data_items (data (sample_request 0 [5, 6]))) = 2" "length (data_items (data (sample_request 1 [7]))) = 1"
    by (simp_all add: sample_request_def newLogsRequest_def LogRecordCount_def data_items_def
        resource_items_def scope_items_def)
  moreover from this have "data_items (data (sample_request 0 [5, 6]) @ data (sample_request 1 [7])) \<noteq> []"
    by (auto simp: LogRecordCount_items)
  ultimately show ?thesis
    using logs_MergeSplit_items_exact [of 2 sample_leaves "sample_request 0 [5, 6]" "sample_request 1 [7]"]
    by (auto simp: list_all_iff)
qed

text \<open>
  The other branches of \<^verbatim>\<open>MergeSplit\<close>: a sizer type other than items and bytes and a second request
  of another type are refused before anything is merged; with no limit the one request returned
  holds the resources of both in order and its cached size is their sum.
\<close>

theorem logs_MergeSplit_no_limit_and_errors:
  assumes "logs_request_ok L req" "logs_request_ok L req2" "logs_sizer L szt = Some sz"
  shows "logs_MergeSplit L req maxSize SizerTypeRequests r2 = Some ([], Some UnknownSizerType, req) \<and>
    logs_MergeSplit L req maxSize szt OtherType = Some ([], Some InvalidInputType, req) \<and>
    (\<exists>req'. logs_MergeSplit L req 0 szt (SameType req2) = Some ([req'], None, req') \<and>
      data req' = data req @ data req2 \<and> logs_request_ok L req' \<and>
      fst (logs_size req' sz szt) = DataSize sz (data req) + DataSize sz (data req2))"
proof -
  note laws = logs_sizer_cases [OF assms(3)]
  obtain req' emptied where merged: "logs_mergeTo req2 req sz szt = (emptied, req')"
    "logs_request_ok L req'" "data req' = data req @ data req2"
    using sizer_laws.logs_mergeTo_spec [OF laws assms(2,1)] .
  obtain req1 where "logs_size req' sz szt = (DataSize sz (data req'), req1)"
    using logs_size_ok [OF merged(2) laws(2)] by blast
  moreover have "DataSize sz (data req') = DataSize sz (data req) + DataSize sz (data req2)"
    using merged(3) by (simp add: sizer_laws.data_size [OF laws(1)])
  ultimately have "logs_MergeSplit L req 0 szt (SameType req2) = Some ([req'], None, req') \<and>
      data req' = data req @ data req2 \<and> logs_request_ok L req' \<and>
      fst (logs_size req' sz szt) = DataSize sz (data req) + DataSize sz (data req2)"
    using merged assms(3) by (simp add: logs_MergeSplit_def)
  moreover have "logs_sizer L SizerTypeRequests = None" by (simp add: logs_sizer_def)
  ultimately show ?thesis
    using assms(3) by (auto simp: logs_MergeSplit_def [of _ _ _ SizerTypeRequests] logs_MergeSplit_def [of _ _ _ _ OtherType])
qed

theorem logs_MergeSplit_no_limit_and_errors_witness:
  "\<exists>req'. logs_MergeSplit sample_leaves (sample_request 0 [5]) 0 SizerTypeItems
      (SameType (sample_request 1 [7])) = Some ([req'], None, req') \<and>
     data req' = data (sample_request 0 [5]) @ data (sample_request 1 [7])"
  using logs_MergeSplit_no_limit_and_errors
    [of sample_leaves "sample_request 0 [5]" "sample_request 1 [7]" SizerTypeItems LogsCountSizer]
  by (auto simp: logs_sizer_def)

lemmas logs_eval = logs_MergeSplit_def logs_sizer_def logs_mergeTo_def logs_split_def logs_size_def
  SizeOf_def SizeCache_Update_def MoveAndAppendTo_def Let_def sample_request_def newLogsRequest_def
  NewSizeCache_def uncachedSize_def extractLogs_def extractLogs_resource_def extractResourceLogs_def
  extractResourceLogs_scope_def extractScopeLogs_def extractScopeLogs_record_def LogsBytesSizer_def
  sample_leaves_def Data_SizeProto_def ResourceItems_SizeProto_def ScopeItems_SizeProto_def
  string_size_def field_size_DeltaSize LogRecordCount_def resource_items_def scope_items_def
  bytes_of_def logs_split_loop.simps

text \<open>
  The room computed for a record is one byte short where the length prefix of an enclosing message
  grows: a record whose request is exactly the maximal 129 bytes is exported when it arrives alone,
  but is dropped as oversized once it is merged into a batch that holds something else.
\<close>

theorem logs_fitting_record_dropped_after_merge:
  "bytes_of sample_leaves (data (sample_request 0 [119])) = 129 \<and>
   map_option (\<lambda>(out, err, fin). (map data out, err))
     (logs_MergeSplit sample_leaves (sample_request 0 [119]) 129 SizerTypeBytes NilRequest) =
     Some ([data (sample_request 0 [119])], None) \<and>
   map_option (\<lambda>(out, err, fin). (map data out, err))
     (logs_MergeSplit sample_leaves (sample_request 0 [0]) 129 SizerTypeBytes
       (SameType (sample_request 0 [119]))) =
     Some ([data (sample_request 0 [0])], Some (OversizedItems 1))"
  by (simp add: logs_eval)


end
