(* ===== verification/MetricsBatch.thy ===== *)
theory MetricsBatch
  imports LogsBatch
begin

text \<open>
  Merging and splitting of metric requests: \<^verbatim>\<open>exporterhelper/internal/queuebatch/metrics_batch.go\<close>, the
  request type of \<^verbatim>\<open>metrics.go\<close> and \<^verbatim>\<open>sizer/metrics_sizer.go\<close>. The items are data points, one level
  deeper than log records. An extracted node that has been moved to the destination is left empty,
  so the test that follows the move sees an empty node.
\<close>

section \<open>Sizers\<close>

record ('res, 'sc, 'md, 'n, 'h, 'e, 's) MetricsSizer =
  MetricsSize :: "('res, 'sc, ('md, 'n, 'h, 'e, 's) Metric) Data \<Rightarrow> int"
  ResourceMetricsSize :: "('res, 'sc, ('md, 'n, 'h, 'e, 's) Metric) ResourceItems \<Rightarrow> int"
  ScopeMetricsSize :: "('sc, ('md, 'n, 'h, 'e, 's) Metric) ScopeItems \<Rightarrow> int"
  MetricSize :: "('md, 'n, 'h, 'e, 's) Metric \<Rightarrow> int"
  MDeltaSize :: "int \<Rightarrow> int"
  NumberDataPointSize :: "'n \<Rightarrow> int"
  HistogramDataPointSize :: "'h \<Rightarrow> int"
  ExponentialHistogramDataPointSize :: "'e \<Rightarrow> int"
  SummaryDataPointSize :: "'s \<Rightarrow> int"

definition MetricsCountSizer :: "('res, 'sc, 'md, 'n, 'h, 'e, 's) MetricsSizer" where
  "MetricsCountSizer =
     \<lparr>MetricsSize = DataPointCount,
      ResourceMetricsSize = (\<lambda>rm. \<Sum>sm\<leftarrow>Scopes rm. \<Sum>m\<leftarrow>Items sm. int (data_points_len (MData m))),
      ScopeMetricsSize = (\<lambda>sm. \<Sum>m\<leftarrow>Items sm. int (data_points_len (MData m))),
      MetricSize = (\<lambda>m. int (data_points_len (MData m))),
      MDeltaSize = (\<lambda>newItemSize. newItemSize),
      NumberDataPointSize = (\<lambda>_. 1), HistogramDataPointSize = (\<lambda>_. 1),
      ExponentialHistogramDataPointSize = (\<lambda>_. 1), SummaryDataPointSize = (\<lambda>_. 1)\<rparr>"

text \<open>The encoded sizes of the leaves of metrics.\<close>

record ('res, 'sc, 'md, 'n, 'h, 'e, 's) metric_leaves = "('md, 'n, 'h, 'e, 's) point_sizes" +
  mres_sz :: "'res \<Rightarrow> nat"
  mscope_sz :: "'sc \<Rightarrow> nat"

definition metric_nat_size ::
  "('res, 'sc, 'md, 'n, 'h, 'e, 's) metric_leaves \<Rightarrow> ('md, 'n, 'h, 'e, 's) Metric \<Rightarrow> nat" where
  "metric_nat_size L m = nat (Metric_SizeProto (point_sizes.truncate L) m)"

definition MetricsBytesSizer ::
  "('res, 'sc, 'md, 'n, 'h, 'e, 's) metric_leaves \<Rightarrow> ('res, 'sc, 'md, 'n, 'h, 'e, 's) MetricsSizer" where
  "MetricsBytesSizer L =
     \<lparr>MetricsSize = Data_SizeProto (mres_sz L) (mscope_sz L) (metric_nat_size L),
      ResourceMetricsSize = ResourceItems_SizeProto (mres_sz L) (mscope_sz L) (metric_nat_size L),
      ScopeMetricsSize = ScopeItems_SizeProto (mscope_sz L) (metric_nat_size L),
      MetricSize = Metric_SizeProto (point_sizes.truncate L),
      MDeltaSize = protoDelta_DeltaSize,
      NumberDataPointSize = (\<lambda>d. int (number_sz L d)),
      HistogramDataPointSize = (\<lambda>d. int (histogram_sz L d)),
      ExponentialHistogramDataPointSize = (\<lambda>d. int (exponential_sz L d)),
      SummaryDataPointSize = (\<lambda>d. int (summary_sz L d))\<rparr>"

section \<open>Extraction of data points\<close>

text \<open>The callback shared, word for word, by the five functions below: \<open>dp_size\<close> is the size of a
  data point and the last captured variable holds the points moved so far.\<close>

definition extractDataPoint ::
  "(int \<Rightarrow> int) \<Rightarrow> ('d \<Rightarrow> int) \<Rightarrow> (int \<times> int \<times> 'd list, 'd) callback" where
  "extractDataPoint delta dp_size = (\<lambda>(capacityLeft, removedSize, dest) srcDP.
     if capacityLeft = 0 then (False, (capacityLeft, removedSize, dest), srcDP)
     else
       let rdSize = delta (dp_size srcDP) in
       if rdSize > capacityLeft then (False, (0, removedSize, dest), srcDP)
       else (True, (capacityLeft - rdSize, removedSize + rdSize, dest @ [srcDP]), srcDP))"

definition point_capacity ::
  "('res, 'sc, 'md, 'n, 'h, 'e, 's) MetricsSizer \<Rightarrow> int \<Rightarrow> ('md, 'n, 'h, 'e, 's) Metric \<Rightarrow> int" where
  "point_capacity sz capacity destMetric =
     capacity - (MDeltaSize sz capacity - capacity) - MetricSize sz destMetric"

text \<open>Each returns the data of the destination metric, the size removed, and the points left in the source.\<close>

definition extractGaugeDataPoints where
  "extractGaugeDataPoints dps destMetric capacity sz =
     (case RemoveIf (extractDataPoint (MDeltaSize sz) (NumberDataPointSize sz))
             (point_capacity sz capacity (destMetric\<lparr>MData := Gauge []\<rparr>), 0, []) dps of
        ((_, removedSize, dest), dps') \<Rightarrow> (destMetric\<lparr>MData := Gauge dest\<rparr>, removedSize, dps'))"

definition extractSumDataPoints where
  "extractSumDataPoints dps destMetric capacity sz =
     (case RemoveIf (extractDataPoint (MDeltaSize sz) (NumberDataPointSize sz))
             (point_capacity sz capacity (destMetric\<lparr>MData := Sum [] 0 False\<rparr>), 0, []) dps of
        ((_, removedSize, dest), dps') \<Rightarrow> (destMetric\<lparr>MData := Sum dest 0 False\<rparr>, removedSize, dps'))"

definition extractHistogramDataPoints where
  "extractHistogramDataPoints dps destMetric capacity sz =
     (case RemoveIf (extractDataPoint (MDeltaSize sz) (HistogramDataPointSize sz))
             (point_capacity sz capacity (destMetric\<lparr>MData := Histogram [] 0\<rparr>), 0, []) dps of
        ((_, removedSize, dest), dps') \<Rightarrow> (destMetric\<lparr>MData := Histogram dest 0\<rparr>, removedSize, dps'))"

definition extractExponentialHistogramDataPoints where
  "extractExponentialHistogramDataPoints dps destMetric capacity sz =
     (case RemoveIf (extractDataPoint (MDeltaSize sz) (ExponentialHistogramDataPointSize sz))
             (point_capacity sz capacity (destMetric\<lparr>MData := ExponentialHistogram [] 0\<rparr>), 0, []) dps of
        ((_, removedSize, dest), dps') \<Rightarrow>
          (destMetric\<lparr>MData := ExponentialHistogram dest 0\<rparr>, removedSize, dps'))"

definition extractSummaryDataPoints where
  "extractSummaryDataPoints dps destMetric capacity sz =
     (case RemoveIf (extractDataPoint (MDeltaSize sz) (SummaryDataPointSize sz))
             (point_capacity sz capacity (destMetric\<lparr>MData := Summary []\<rparr>), 0, []) dps of
        ((_, removedSize, dest), dps') \<Rightarrow> (destMetric\<lparr>MData := Summary dest\<rparr>, removedSize, dps'))"

definition dataPointsLen :: "('md, 'n, 'h, 'e, 's) Metric \<Rightarrow> nat" where
  "dataPointsLen m = data_points_len (MData m)"

definition extractMetricDataPoints ::
  "('md, 'n, 'h, 'e, 's) Metric \<Rightarrow> int \<Rightarrow> ('res, 'sc, 'md, 'n, 'h, 'e, 's) MetricsSizer \<Rightarrow>
     ('md, 'n, 'h, 'e, 's) Metric \<times> int \<times> ('md, 'n, 'h, 'e, 's) Metric" where
  "extractMetricDataPoints srcMetric capacity sz =
     (let destMetric = \<lparr>Name = Name srcMetric, Description = Description srcMetric, Unit = Unit srcMetric,
                        MData = EmptyData, Metadata = Metadata srcMetric\<rparr> in
      case MData srcMetric of
        EmptyData \<Rightarrow> (destMetric, 0, srcMetric)
      | Gauge dps \<Rightarrow>
          (case extractGaugeDataPoints dps destMetric capacity sz of (dest, removedSize, dps') \<Rightarrow>
             (dest, removedSize, srcMetric\<lparr>MData := Gauge dps'\<rparr>))
      | Sum dps t mon \<Rightarrow>
          (case extractSumDataPoints dps destMetric capacity sz of (dest, removedSize, dps') \<Rightarrow>
             (dest\<lparr>MData := (case MData dest of Sum ds _ _ \<Rightarrow> Sum ds t mon | d \<Rightarrow> d)\<rparr>, removedSize,
              srcMetric\<lparr>MData := Sum dps' t mon\<rparr>))
      | Histogram dps t \<Rightarrow>
          (case extractHistogramDataPoints dps destMetric capacity sz of (dest, removedSize, dps') \<Rightarrow>
             (dest\<lparr>MData := (case MData dest of Histogram ds _ \<Rightarrow> Histogram ds t | d \<Rightarrow> d)\<rparr>, removedSize,
              srcMetric\<lparr>MData := Histogram dps' t\<rparr>))
      | ExponentialHistogram dps t \<Rightarrow>
          (case extractExponentialHistogramDataPoints dps destMetric capacity sz of (dest, removedSize, dps') \<Rightarrow>
             (dest\<lparr>MData := (case MData dest of ExponentialHistogram ds _ \<Rightarrow> ExponentialHistogram ds t | d \<Rightarrow> d)\<rparr>,
              removedSize, srcMetric\<lparr>MData := ExponentialHistogram dps' t\<rparr>))
      | Summary dps \<Rightarrow>
          (case extractSummaryDataPoints dps destMetric capacity sz of (dest, removedSize, dps') \<Rightarrow>
             (dest, removedSize, srcMetric\<lparr>MData := Summary dps'\<rparr>)))"

section \<open>Extraction of metrics\<close>

definition extractScopeMetrics_metric where
  "extractScopeMetrics_metric sz = (\<lambda>(capacityLeft, removedSize, destSM) srcM.
     if capacityLeft = 0 then (False, (capacityLeft, removedSize, destSM), srcM)
     else
       let rawRmSize = MetricSize sz srcM; rmSize = MDeltaSize sz rawRmSize in
       if rmSize > capacityLeft then
         (case extractMetricDataPoints srcM capacityLeft sz of (extSrcDP, extRmSize, srcM') \<Rightarrow>
            let removedSize' = removedSize + extRmSize
                  + (rmSize - rawRmSize - (MDeltaSize sz (rawRmSize - extRmSize) - (rawRmSize - extRmSize)));
                (destSM', extSrcDP') =
                  (if dataPointsLen extSrcDP > 0
                   then (destSM\<lparr>Items := Items destSM @ [extSrcDP]\<rparr>, extSrcDP\<lparr>MData := EmptyData\<rparr>)
                   else (destSM, extSrcDP))
            in (dataPointsLen extSrcDP' \<noteq> 0, (0, removedSize', destSM'), srcM'))
       else (True, (capacityLeft - rmSize, removedSize + rmSize,
                    destSM\<lparr>Items := Items destSM @ [srcM]\<rparr>), srcM))"

definition extractScopeMetrics where
  "extractScopeMetrics srcSM capacity sz =
     (let destSM = \<lparr>Scope = Scope srcSM, ScopeSchemaUrl = ScopeSchemaUrl srcSM, Items = []\<rparr>;
          capacityLeft = capacity - (MDeltaSize sz capacity - capacity) - ScopeMetricsSize sz destSM
      in case RemoveIf (extractScopeMetrics_metric sz) (capacityLeft, 0, destSM) (Items srcSM) of
           ((_, removedSize, destSM'), ms) \<Rightarrow> (destSM', removedSize, srcSM\<lparr>Items := ms\<rparr>))"

definition extractResourceMetrics_scope where
  "extractResourceMetrics_scope sz = (\<lambda>(capacityLeft, removedSize, destRM) srcSM.
     if capacityLeft = 0 then (False, (capacityLeft, removedSize, destRM), srcSM)
     else
       let rawSmSize = ScopeMetricsSize sz srcSM; smSize = MDeltaSize sz rawSmSize in
       if smSize > capacityLeft then
         (case extractScopeMetrics srcSM capacityLeft sz of (extSrcSM, extSmSize, srcSM') \<Rightarrow>
            let removedSize' = removedSize + extSmSize
                  + (smSize - rawSmSize - (MDeltaSize sz (rawSmSize - extSmSize) - (rawSmSize - extSmSize)));
                (destRM', extSrcSM') =
                  (if length (Items extSrcSM) > 0
                   then (destRM\<lparr>Scopes := Scopes destRM @ [extSrcSM]\<rparr>, extSrcSM\<lparr>Items := []\<rparr>)
                   else (destRM, extSrcSM))
            in (length (Items extSrcSM') \<noteq> 0, (0, removedSize', destRM'), srcSM'))
       else (True, (capacityLeft - smSize, removedSize + smSize,
                    destRM\<lparr>Scopes := Scopes destRM @ [srcSM]\<rparr>), srcSM))"

definition extractResourceMetrics where
  "extractResourceMetrics srcRM capacity sz =
     (let destRM = \<lparr>Resource = Resource srcRM, SchemaUrl = SchemaUrl srcRM, Scopes = [], DeprecatedScopes = []\<rparr>;
          capacityLeft = capacity - (MDeltaSize sz capacity - capacity) - ResourceMetricsSize sz destRM
      in case RemoveIf (extractResourceMetrics_scope sz) (capacityLeft, 0, destRM) (Scopes srcRM) of
           ((_, removedSize, destRM'), sms) \<Rightarrow> (destRM', removedSize, srcRM\<lparr>Scopes := sms\<rparr>))"

definition extractMetrics_resource where
  "extractMetrics_resource sz = (\<lambda>(capacityLeft, removedSize, destMetrics) srcRM.
     if capacityLeft = 0 then (False, (capacityLeft, removedSize, destMetrics), srcRM)
     else
       let rawRlSize = ResourceMetricsSize sz srcRM; rlSize = MDeltaSize sz rawRlSize in
       if rlSize > capacityLeft then
         (case extractResourceMetrics srcRM capacityLeft sz of (extSrcRM, extRmSize, srcRM') \<Rightarrow>
            let removedSize' = removedSize + extRmSize
                  + (rlSize - rawRlSize - (MDeltaSize sz (rawRlSize - extRmSize) - (rawRlSize - extRmSize)));
                (destMetrics', extSrcRM') =
                  (if length (Scopes extSrcRM) > 0
                   then (destMetrics @ [extSrcRM], extSrcRM\<lparr>Scopes := []\<rparr>)
                   else (destMetrics, extSrcRM))
            in (length (Scopes extSrcRM') \<noteq> 0, (0, removedSize', destMetrics'), srcRM'))
       else (True, (capacityLeft - rlSize, removedSize + rlSize, destMetrics @ [srcRM]), srcRM))"

definition extractMetrics where
  "extractMetrics srcMetrics capacity sz =
     (let capacityLeft = capacity - MetricsSize sz []
      in case RemoveIf (extractMetrics_resource sz) (capacityLeft, 0, []) srcMetrics of
           ((_, removedSize, destMetrics), rms) \<Rightarrow> (destMetrics, removedSize, rms))"

section \<open>Merge and split\<close>

type_synonym ('res, 'sc, 'md, 'n, 'h, 'e, 's) metricsRequest =
  "('res, 'sc, ('md, 'n, 'h, 'e, 's) Metric) data_request"

definition newMetricsRequest where
  "newMetricsRequest md = \<lparr>data = md, sizes = NewSizeCache\<rparr>"

definition metrics_size ::
  "('res, 'sc, 'md, 'n, 'h, 'e, 's) metricsRequest \<Rightarrow> ('res, 'sc, 'md, 'n, 'h, 'e, 's) MetricsSizer \<Rightarrow>
     SizerType \<Rightarrow> int \<times> ('res, 'sc, 'md, 'n, 'h, 'e, 's) metricsRequest" where
  "metrics_size req sz szt =
     (case SizeOf (sizes req) szt (MetricsSize sz (data req)) of (n, c) \<Rightarrow> (n, req\<lparr>sizes := c\<rparr>))"

definition metrics_ItemsCount ::
  "('res, 'sc, 'md, 'n, 'h, 'e, 's) metricsRequest \<Rightarrow>
     int \<times> ('res, 'sc, 'md, 'n, 'h, 'e, 's) metricsRequest" where
  "metrics_ItemsCount req =
     (case SizeOf (sizes req) SizerTypeItems (DataPointCount (data req)) of (n, c) \<Rightarrow>
        (n, req\<lparr>sizes := c\<rparr>))"

definition metrics_mergeTo where
  "metrics_mergeTo req dst sz szt =
     (case metrics_size dst sz szt of (dn, dst1) \<Rightarrow>
      case metrics_size req sz szt of (rn, req1) \<Rightarrow>
      let dst2 = dst1\<lparr>sizes := SizeCache_Update (sizes dst1) szt (dn + rn)\<rparr>;
          req2 = req1\<lparr>sizes := SizeCache_Update (sizes req1) szt 0\<rparr>
      in case MoveAndAppendTo (data req2) (data dst2) of (rd, dd) \<Rightarrow>
           (req2\<lparr>data := rd\<rparr>, dst2\<lparr>data := dd\<rparr>))"

datatype metrics_error = MUnknownSizerType | MInvalidInputType | OneDatapointTooBig int

partial_function (option) metrics_split_loop ::
  "int \<Rightarrow> ('res, 'sc, 'md, 'n, 'h, 'e, 's) MetricsSizer \<Rightarrow> SizerType \<Rightarrow>
     ('res, 'sc, 'md, 'n, 'h, 'e, 's) metricsRequest \<Rightarrow> ('res, 'sc, 'md, 'n, 'h, 'e, 's) metricsRequest list \<Rightarrow>
     (('res, 'sc, 'md, 'n, 'h, 'e, 's) metricsRequest list \<times> metrics_error option \<times> ('res, 'sc, 'md, 'n, 'h, 'e, 's) metricsRequest) option" where
  "metrics_split_loop maxSize sz szt req res =
     (case metrics_size req sz szt of (n, req1) \<Rightarrow>
      if n > maxSize then
        (case extractMetrics (data req1) maxSize sz of (md, rmSize, src) \<Rightarrow>
           if DataPointCount md = 0 then Some (res, Some (OneDatapointTooBig (DataPointCount src)), req1\<lparr>data := src\<rparr>)
           else
             (case metrics_size (req1\<lparr>data := src\<rparr>) sz szt of (n2, req2) \<Rightarrow>
                metrics_split_loop maxSize sz szt
                  (req2\<lparr>sizes := SizeCache_Update (sizes req2) szt (n2 - rmSize)\<rparr>)
                  (res @ [newMetricsRequest md])))
      else Some (res @ [req1], None, req1))"

definition metrics_split where
  "metrics_split req maxSize sz szt = metrics_split_loop maxSize sz szt req []"

definition metrics_sizer ::
  "('res, 'sc, 'md, 'n, 'h, 'e, 's) metric_leaves \<Rightarrow> SizerType \<Rightarrow>
     ('res, 'sc, 'md, 'n, 'h, 'e, 's) MetricsSizer option" where
  "metrics_sizer L szt =
     (if szt = SizerTypeItems then Some MetricsCountSizer
      else if szt = SizerTypeBytes then Some (MetricsBytesSizer L)
      else None)"

definition metrics_MergeSplit where
  "metrics_MergeSplit L req maxSize szt r2 =
     (case metrics_sizer L szt of
        None \<Rightarrow> Some ([], Some MUnknownSizerType, req)
      | Some sz \<Rightarrow>
          (case r2 of
             OtherType \<Rightarrow> Some ([], Some MInvalidInputType, req)
           | NilRequest \<Rightarrow> if maxSize = 0 then Some ([req], None, req) else metrics_split req maxSize sz szt
           | SameType req2 \<Rightarrow>
               let req' = snd (metrics_mergeTo req2 req sz szt) in
               if maxSize = 0 then Some ([req'], None, req') else metrics_split req' maxSize sz szt))"

section \<open>The data points of a request\<close>

text \<open>A data point is known with the headers of its resource, its scope and its metric, the last with
  the type, the temporality and the monotonicity of the data.\<close>

datatype ('n, 'h, 'e, 's) DataPoint =
    NumberPoint 'n | HistogramPoint 'h | ExponentialPoint 'e | SummaryPoint 's

fun data_points :: "('n, 'h, 'e, 's) MetricData \<Rightarrow> ('n, 'h, 'e, 's) DataPoint list" where
  "data_points EmptyData = []"
| "data_points (Gauge dps) = map NumberPoint dps"
| "data_points (Sum dps _ _) = map NumberPoint dps"
| "data_points (Histogram dps _) = map HistogramPoint dps"
| "data_points (ExponentialHistogram dps _) = map ExponentialPoint dps"
| "data_points (Summary dps) = map SummaryPoint dps"

fun without_points :: "('n, 'h, 'e, 's) MetricData \<Rightarrow> ('n, 'h, 'e, 's) MetricData" where
  "without_points EmptyData = EmptyData"
| "without_points (Gauge _) = Gauge []"
| "without_points (Sum _ t mon) = Sum [] t mon"
| "without_points (Histogram _ t) = Histogram [] t"
| "without_points (ExponentialHistogram _ t) = ExponentialHistogram [] t"
| "without_points (Summary _) = Summary []"

definition metric_points where
  "metric_points m = map (Pair (m\<lparr>MData := without_points (MData m)\<rparr>)) (data_points (MData m))"

definition scope_points where
  "scope_points sm = map (Pair (sm\<lparr>Items := []\<rparr>)) (concat (map metric_points (Items sm)))"

definition resource_points where
  "resource_points rm =
     map (Pair (rm\<lparr>Scopes := [], DeprecatedScopes := []\<rparr>)) (concat (map scope_points (Scopes rm)))"

definition metrics_points where
  "metrics_points md = concat (map resource_points md)"

definition request_points where
  "request_points reqs = concat (map (\<lambda>r. metrics_points (data r)) reqs)"

lemma length_data_points [simp]: "length (data_points d) = data_points_len d"
  by (cases d) simp_all

lemma length_metric_points [simp]: "length (metric_points m) = data_points_len (MData m)"
  by (simp add: metric_points_def)

lemma no_points [simp]:
  "data_points_len (MData m) = 0 \<Longrightarrow> metric_points m = []"
  "Items sm = [] \<Longrightarrow> scope_points sm = []"
  "Scopes rm = [] \<Longrightarrow> resource_points rm = []"
  by (simp flip: length_0_conv) (simp_all add: scope_points_def resource_points_def)

lemma length_points:
  "int (length (scope_points sm)) = (\<Sum>m\<leftarrow>Items sm. int (data_points_len (MData m)))"
  "int (length (resource_points rm)) = (\<Sum>sm\<leftarrow>Scopes rm. \<Sum>m\<leftarrow>Items sm. int (data_points_len (MData m)))"
  "int (length (metrics_points md)) = DataPointCount md"
proof -
  show sc: "int (length (scope_points sm)) = (\<Sum>m\<leftarrow>Items sm. int (data_points_len (MData m)))" for sm
    by (simp add: scope_points_def int_length_concat_map del: length_concat)
  show rs: "int (length (resource_points rm)) = (\<Sum>sm\<leftarrow>Scopes rm. \<Sum>m\<leftarrow>Items sm. int (data_points_len (MData m)))" for rm
    by (simp add: resource_points_def int_length_concat_map sc)
  show "int (length (metrics_points md)) = DataPointCount md"
    by (simp add: metrics_points_def DataPointCount_def int_length_concat_map rs)
qed

section \<open>Nothing is lost\<close>

lemma extractDataPoint_loop:
  assumes "remove_if (extractDataPoint delta dp_size) (c, r, d) xs = ((c', r', d'), ys)"
  shows "\<exists>pre. xs = pre @ ys \<and> d' = d @ pre"
proof -
  have "\<exists>new. concat (map (\<lambda>x. [x]) xs) = new @ concat (map (\<lambda>x. [x]) ys) \<and> id d' = id d @ new"
    using assms by (rule remove_if_moves) (auto simp: extractDataPoint_def Let_def split: if_splits)
  then show ?thesis by simp
qed

lemma extractMetricDataPoints_points:
  assumes "extractMetricDataPoints m cap sz = (dest, removed, m')"
  shows "metric_points m = metric_points dest @ metric_points m'"
proof -
  note loop = extractDataPoint_loop [where r = 0 and d = "[]"]
  show ?thesis
    using assms
    by (cases "MData m")
      (fastforce simp: extractMetricDataPoints_def Let_def metric_points_def extractGaugeDataPoints_def
        extractSumDataPoints_def extractHistogramDataPoints_def extractExponentialHistogramDataPoints_def
        extractSummaryDataPoints_def split: prod.splits dest!: loop)+
qed

lemma extractScopeMetrics_points:
  assumes "extractScopeMetrics sm cap sz = (dest, removed, sm')"
  shows "scope_points sm = scope_points dest @ scope_points sm'"
proof -
  let ?h = "sm\<lparr>Items := []\<rparr>"
  let ?out = "\<lambda>d. concat (map metric_points (Items d))"
  obtain c c' ys where run: "remove_if (extractScopeMetrics_metric sz) (c, 0, ?h) (Items sm) = ((c', removed, dest), ys)"
    and sm': "sm' = sm\<lparr>Items := ys\<rparr>"
    using assms by (auto simp: extractScopeMetrics_def Let_def new_scope split: prod.splits)
  have "\<exists>new. ?out sm = new @ concat (map metric_points ys) \<and> ?out dest = ?out ?h @ new"
    using run by (rule remove_if_moves)
      (auto simp: extractScopeMetrics_metric_def Let_def dataPointsLen_def
        dest: extractMetricDataPoints_points split: prod.splits if_splits)
  moreover have "(\<lambda>(c, r, d). d\<lparr>Items := []\<rparr> = ?h) (c', removed, dest)"
    using run by (rule remove_if_invariant)
      (auto simp: extractScopeMetrics_metric_def Let_def split: prod.splits if_splits)
  ultimately show ?thesis
    using sm' by (auto simp: scope_points_def)
qed

lemma extractResourceMetrics_points:
  assumes "extractResourceMetrics rm cap sz = (dest, removed, rm')"
  shows "resource_points rm = resource_points dest @ resource_points rm'"
proof -
  let ?h = "rm\<lparr>Scopes := [], DeprecatedScopes := []\<rparr>"
  let ?out = "\<lambda>d. concat (map scope_points (Scopes d))"
  obtain c c' ys where run: "remove_if (extractResourceMetrics_scope sz) (c, 0, ?h) (Scopes rm) = ((c', removed, dest), ys)"
    and rm': "rm' = rm\<lparr>Scopes := ys\<rparr>"
    using assms by (auto simp: extractResourceMetrics_def Let_def new_resource split: prod.splits)
  have "\<exists>new. ?out rm = new @ concat (map scope_points ys) \<and> ?out dest = ?out ?h @ new"
    using run by (rule remove_if_moves)
      (auto simp: extractResourceMetrics_scope_def Let_def
        dest: extractScopeMetrics_points split: prod.splits if_splits)
  moreover have "(\<lambda>(c, r, d). d\<lparr>Scopes := [], DeprecatedScopes := []\<rparr> = ?h) (c', removed, dest)"
    using run by (rule remove_if_invariant)
      (auto simp: extractResourceMetrics_scope_def Let_def split: prod.splits if_splits)
  ultimately show ?thesis
    using rm' by (auto simp: resource_points_def)
qed

lemma extractMetrics_points:
  assumes "extractMetrics src cap sz = (dest, removed, src')"
  shows "metrics_points src = metrics_points dest @ metrics_points src'"
proof -
  obtain c c' where run: "remove_if (extractMetrics_resource sz) (c, 0, []) src = ((c', removed, dest), src')"
    using assms by (auto simp: extractMetrics_def split: prod.splits)
  have "\<exists>new. concat (map resource_points src) = new @ concat (map resource_points src') \<and>
      metrics_points dest = metrics_points [] @ new"
    using run by (rule remove_if_moves)
      (auto simp: extractMetrics_resource_def metrics_points_def Let_def
        dest: extractResourceMetrics_points split: prod.splits if_splits)
  then show ?thesis by (auto simp: metrics_points_def)
qed

lemma metrics_size_keeps: "metrics_size req sz szt = (n, req1) \<Longrightarrow> data req1 = data req"
  by (auto simp: metrics_size_def split: prod.splits)

lemma metrics_split_loop_spec:
  "\<exists>out err fin rest. metrics_split_loop maxSize sz szt req res = Some (res @ out, err, fin) \<and>
     metrics_points (data req) = request_points out @ rest \<and>
     (case err of None \<Rightarrow> rest = [] | Some e \<Rightarrow> e = OneDatapointTooBig (int (length rest))) \<and>
     (out = [] \<longrightarrow> metrics_points (data fin) = rest)"
proof (induction "length (metrics_points (data req))" arbitrary: req res rule: less_induct)
  case less
  obtain n req1 where req1: "metrics_size req sz szt = (n, req1)" by force
  obtain md rmSize src where ex: "extractMetrics (data req) maxSize sz = (md, rmSize, src)" by (metis prod_cases3)
  note pts = extractMetrics_points [OF ex]
  note unfold = metrics_split_loop.simps [of maxSize sz szt req res]
  consider (small) "n \<le> maxSize" | (stuck) "n > maxSize" "DataPointCount md = 0"
    | (step) "n > maxSize" "DataPointCount md \<noteq> 0" by linarith
  then show ?case
  proof cases
    case small
    then show ?thesis
      using req1 unfold metrics_size_keeps [OF req1]
      by (intro exI [of _ "[req1]"] exI [of _ None] exI [of _ req1] exI [of _ "[]"]) (simp add: request_points_def)
  next
    case stuck
    have "metrics_points md = []" using stuck(2) length_points(3) [of md] by simp
    then show ?thesis
      using stuck req1 ex pts unfold metrics_size_keeps [OF req1] length_points(3) [of src]
      by (intro exI [of _ "[]"] exI [of _ "Some (OneDatapointTooBig (DataPointCount src))"]
          exI [of _ "req1\<lparr>data := src\<rparr>"]
          exI [of _ "metrics_points src"]) (simp add: request_points_def)
  next
    case step
    obtain n2 req2 where req2: "metrics_size (req1\<lparr>data := src\<rparr>) sz szt = (n2, req2)" by force
    define req3 where "req3 = req2\<lparr>sizes := SizeCache_Update (sizes req2) szt (n2 - rmSize)\<rparr>"
    have data3: "data req3 = src" using metrics_size_keeps [OF req2] by (simp add: req3_def)
    have again: "metrics_split_loop maxSize sz szt req res =
        metrics_split_loop maxSize sz szt req3 (res @ [newMetricsRequest md])"
      using step req1 req2 ex unfold metrics_size_keeps [OF req1] by (simp add: req3_def)
    have "metrics_points md \<noteq> []" using step(2) length_points(3) [of md] by auto
    then obtain out err fin rest where
      "metrics_split_loop maxSize sz szt req3 (res @ [newMetricsRequest md]) =
        Some ((res @ [newMetricsRequest md]) @ out, err, fin)"
      "metrics_points src = request_points out @ rest"
      "case err of None \<Rightarrow> rest = [] | Some e \<Rightarrow> e = OneDatapointTooBig (int (length rest))"
      using less.hyps [of req3 "res @ [newMetricsRequest md]"] data3 pts by auto
    then show ?thesis
      using again pts
      by (intro exI [of _ "newMetricsRequest md # out"] exI [of _ err] exI [of _ fin] exI [of _ rest])
        (simp add: request_points_def newMetricsRequest_def)
  qed
qed

lemma metrics_mergeTo_data: "data (snd (metrics_mergeTo req2 req sz szt)) = data req @ data req2"
proof -
  have "data (snd (metrics_size r sz szt)) = data r" for r
    by (simp add: metrics_size_def split_beta)
  then show ?thesis by (simp add: metrics_mergeTo_def MoveAndAppendTo_def Let_def split_beta)
qed

section \<open>Counting data points\<close>

lemma metrics_count_sizer [simp]:
  "MetricsSize MetricsCountSizer = DataPointCount"
  "ResourceMetricsSize MetricsCountSizer rm = int (length (resource_points rm))"
  "ScopeMetricsSize MetricsCountSizer sm = int (length (scope_points sm))"
  "MetricSize MetricsCountSizer m = int (data_points_len (MData m))"
  "MDeltaSize MetricsCountSizer n = n"
  "NumberDataPointSize MetricsCountSizer d1 = 1" "HistogramDataPointSize MetricsCountSizer d2 = 1"
  "ExponentialHistogramDataPointSize MetricsCountSizer d3 = 1" "SummaryDataPointSize MetricsCountSizer d4 = 1"
  by (simp_all add: MetricsCountSizer_def length_points)

lemma count_point_loop:
  assumes "remove_if (extractDataPoint delta dp_size) (c, r, d) xs = ((c', r', d'), ys)"
    and "0 \<le> c" "\<And>n. delta n = n" "\<And>x. dp_size x = 1"
  shows "int (length d') = int (length d) + min c (int (length xs)) \<and> r' = r + min c (int (length xs))"
proof -
  have "int (length (id d')) = int (length (id d)) + min c (sum_list (map (\<lambda>_. 1) xs)) \<and>
      r' = r + min c (sum_list (map (\<lambda>_. 1) xs))"
    using assms(1,2) by (rule remove_if_counts)
      (auto simp: extractDataPoint_def Let_def assms(3,4) split: if_splits)
  then show ?thesis by (simp add: sum_list_triv)
qed

lemmas count_point_loops =
  count_point_loop [OF _ _ metrics_count_sizer(5) metrics_count_sizer(6)]
  count_point_loop [OF _ _ metrics_count_sizer(5) metrics_count_sizer(7)]
  count_point_loop [OF _ _ metrics_count_sizer(5) metrics_count_sizer(8)]
  count_point_loop [OF _ _ metrics_count_sizer(5) metrics_count_sizer(9)]

lemma count_extractMetricDataPoints:
  assumes "extractMetricDataPoints m c MetricsCountSizer = (dest, removed, m')" and "0 \<le> c"
  shows "int (data_points_len (MData dest)) = min c (int (data_points_len (MData m))) \<and>
    removed = min c (int (data_points_len (MData m)))"
  using assms
  by (cases "MData m")
    (auto simp: extractMetricDataPoints_def Let_def extractGaugeDataPoints_def extractSumDataPoints_def
      extractHistogramDataPoints_def extractExponentialHistogramDataPoints_def extractSummaryDataPoints_def
      point_capacity_def split: prod.splits dest: count_point_loops)

lemma count_extractScopeMetrics:
  fixes sm :: "('sc, ('md, 'n, 'h, 'e, 's) Metric) ScopeItems"
  assumes "extractScopeMetrics sm c (MetricsCountSizer :: ('res, 'sc, 'md, 'n, 'h, 'e, 's) MetricsSizer) =
      (dest, removed, sm')" and "0 \<le> c"
  shows "int (length (scope_points dest)) = min c (int (length (scope_points sm))) \<and>
    removed = min c (int (length (scope_points sm)))"
proof -
  let ?K = "MetricsCountSizer :: ('res, 'sc, 'md, 'n, 'h, 'e, 's) MetricsSizer"
  let ?size = "\<lambda>m :: ('md, 'n, 'h, 'e, 's) Metric. int (data_points_len (MData m))"
  obtain c' ys where run: "remove_if (extractScopeMetrics_metric ?K) (c, 0, sm\<lparr>Items := []\<rparr>) (Items sm) =
      ((c', removed, dest), ys)"
    using assms(1) by (auto simp: extractScopeMetrics_def Let_def new_scope split: prod.splits)
  have "int (length (concat (map metric_points (Items dest)))) =
      int (length (concat (map metric_points (Items (sm\<lparr>Items := []\<rparr>))))) + min c (sum_list (map ?size (Items sm))) \<and>
      removed = 0 + min c (sum_list (map ?size (Items sm)))"
    using run assms(2)
  proof (rule remove_if_counts)
    show "extractScopeMetrics_metric ?K (0, r, d) x = (False, (0, r, d), x)" for r d x
      by (simp add: extractScopeMetrics_metric_def)
    show "int (length (concat (map metric_points (Items d')))) =
        int (length (concat (map metric_points (Items d)))) + min c (?size x) \<and>
        c' = max 0 (c - ?size x) \<and> r' = r + min c (?size x)"
      if "extractScopeMetrics_metric ?K (c, r, d) x = (b, (c', r', d'), x')" "0 < c" for c r d x b c' r' d' x'
      using that count_extractMetricDataPoints [of x c]
      by (auto simp: extractScopeMetrics_metric_def Let_def dataPointsLen_def split: prod.splits if_splits)
  qed simp
  then show ?thesis
    by (simp add: length_points int_length_concat_map scope_points_def)
qed

lemma count_extractResourceMetrics:
  fixes rm :: "('res, 'sc, ('md, 'n, 'h, 'e, 's) Metric) ResourceItems"
  assumes "extractResourceMetrics rm c MetricsCountSizer = (dest, removed, rm')" and "0 \<le> c"
  shows "int (length (resource_points dest)) = min c (int (length (resource_points rm))) \<and>
    removed = min c (int (length (resource_points rm)))"
proof -
  let ?K = "MetricsCountSizer :: ('res, 'sc, 'md, 'n, 'h, 'e, 's) MetricsSizer"
  let ?size = "\<lambda>sm :: ('sc, ('md, 'n, 'h, 'e, 's) Metric) ScopeItems. int (length (scope_points sm))"
  let ?h = "rm\<lparr>Scopes := [], DeprecatedScopes := []\<rparr>"
  obtain c' ys where run: "remove_if (extractResourceMetrics_scope ?K) (c, 0, ?h) (Scopes rm) = ((c', removed, dest), ys)"
    using assms(1) by (auto simp: extractResourceMetrics_def Let_def new_resource split: prod.splits)
  have "int (length (concat (map scope_points (Scopes dest)))) =
      int (length (concat (map scope_points (Scopes ?h)))) + min c (sum_list (map ?size (Scopes rm))) \<and>
      removed = 0 + min c (sum_list (map ?size (Scopes rm)))"
    using run assms(2)
  proof (rule remove_if_counts)
    show "extractResourceMetrics_scope ?K (0, r, d) x = (False, (0, r, d), x)" for r d x
      by (simp add: extractResourceMetrics_scope_def)
    show "int (length (concat (map scope_points (Scopes d')))) =
        int (length (concat (map scope_points (Scopes d)))) + min c (?size x) \<and>
        c' = max 0 (c - ?size x) \<and> r' = r + min c (?size x)"
      if "extractResourceMetrics_scope ?K (c, r, d) x = (b, (c', r', d'), x')" "0 < c" for c r d x b c' r' d' x'
      using that count_extractScopeMetrics [where 'res = 'res, of x c]
      by (auto simp: extractResourceMetrics_scope_def Let_def split: prod.splits if_splits)
  qed simp
  then show ?thesis
    by (simp add: resource_points_def int_length_concat_map)
qed

lemma count_extractMetrics:
  fixes src :: "('res, 'sc, ('md, 'n, 'h, 'e, 's) Metric) Data"
  assumes "extractMetrics src c MetricsCountSizer = (dest, removed, src')" and "0 \<le> c"
  shows "DataPointCount dest = min c (DataPointCount src) \<and> removed = min c (DataPointCount src)"
proof -
  let ?K = "MetricsCountSizer :: ('res, 'sc, 'md, 'n, 'h, 'e, 's) MetricsSizer"
  let ?size = "\<lambda>rm :: ('res, 'sc, ('md, 'n, 'h, 'e, 's) Metric) ResourceItems. int (length (resource_points rm))"
  obtain c' where run: "remove_if (extractMetrics_resource ?K) (c, 0, []) src = ((c', removed, dest), src')"
    using assms(1) by (auto simp: extractMetrics_def DataPointCount_def split: prod.splits)
  have "int (length (metrics_points dest)) =
      int (length (metrics_points ([] :: ('res, 'sc, ('md, 'n, 'h, 'e, 's) Metric) Data))) + min c (sum_list (map ?size src)) \<and>
      removed = 0 + min c (sum_list (map ?size src))"
    using run assms(2)
  proof (rule remove_if_counts)
    show "extractMetrics_resource ?K (0, r, d) x = (False, (0, r, d), x)" for r d x
      by (simp add: extractMetrics_resource_def)
    show "int (length (metrics_points d')) = int (length (metrics_points d)) + min c (?size x) \<and>
        c' = max 0 (c - ?size x) \<and> r' = r + min c (?size x)"
      if "extractMetrics_resource ?K (c, r, d) x = (b, (c', r', d'), x')" "0 < c" for c r d x b c' r' d' x'
      using that count_extractResourceMetrics [of x c]
      by (auto simp: extractMetrics_resource_def metrics_points_def Let_def split: prod.splits if_splits)
  qed simp
  moreover have "sum_list (map ?size src) = DataPointCount src"
    by (simp add: length_points(3) [symmetric] metrics_points_def int_length_concat_map)
  ultimately show ?thesis
    by (simp add: length_points(3) [symmetric]) (simp add: metrics_points_def)
qed

text \<open>The cached number of data points is right, or nothing is cached.\<close>

definition points_cached_ok :: "('res, 'sc, 'md, 'n, 'h, 'e, 's) metricsRequest \<Rightarrow> bool" where
  "points_cached_ok req \<longleftrightarrow> itemsSize (sizes req) \<in> {uncachedSize, DataPointCount (data req)}"

lemma metrics_size_count:
  assumes "points_cached_ok req"
  obtains req1 where "metrics_size req MetricsCountSizer SizerTypeItems = (DataPointCount (data req), req1)"
    "data req1 = data req" "itemsSize (sizes req1) = DataPointCount (data req)"
  using assms that [of "snd (metrics_size req MetricsCountSizer SizerTypeItems)"]
  by (auto simp: points_cached_ok_def metrics_size_def SizeOf_def Let_def split_beta)

lemma DataPointCount_nonneg [simp]: "0 \<le> DataPointCount md"
  by (simp add: length_points(3) [symmetric])

lemma count_metrics_split_loop:
  assumes "0 < maxSize" and "points_cached_ok req"
  shows "\<exists>out fin. metrics_split_loop maxSize MetricsCountSizer SizerTypeItems req res = Some (res @ out, None, fin) \<and>
    out \<noteq> [] \<and> request_points out = metrics_points (data req) \<and>
    (\<forall>r \<in> set (butlast out). DataPointCount (data r) = maxSize) \<and>
    DataPointCount (data (last out)) \<le> maxSize \<and> (\<forall>r \<in> set out. points_cached_ok r)"
  using assms(2)
proof (induction "nat (DataPointCount (data req))" arbitrary: req res rule: less_induct)
  case less
  obtain req1 where req1: "metrics_size req MetricsCountSizer SizerTypeItems = (DataPointCount (data req), req1)"
    "data req1 = data req" "itemsSize (sizes req1) = DataPointCount (data req)"
    using metrics_size_count [OF less.prems] .
  note unfold = metrics_split_loop.simps [of maxSize MetricsCountSizer SizerTypeItems req res]
  show ?case
  proof (cases "DataPointCount (data req) \<le> maxSize")
    case True
    then show ?thesis
      using req1 unfold by (intro exI [of _ "[req1]"] exI [of _ req1]) (simp add: request_points_def points_cached_ok_def)
  next
    case False
    obtain md n src where ex: "extractMetrics (data req) maxSize MetricsCountSizer = (md, n, src)"
      by (metis prod_cases3)
    have cnt: "DataPointCount md = maxSize" "n = maxSize"
      using count_extractMetrics [OF ex] assms(1) False by auto
    have pts: "metrics_points (data req) = metrics_points md @ metrics_points src"
      by (rule extractMetrics_points [OF ex])
    then have rest: "DataPointCount src = DataPointCount (data req) - maxSize"
      using cnt(1) by (simp add: length_points(3) [symmetric])
    define req3 where "req3 = req1\<lparr>data := src, sizes := SizeCache_Update (sizes req1) SizerTypeItems (DataPointCount src)\<rparr>"
    have "metrics_size (req1\<lparr>data := src\<rparr>) MetricsCountSizer SizerTypeItems = (DataPointCount (data req), req1\<lparr>data := src\<rparr>)"
      using req1(3) False assms(1) by (simp add: metrics_size_def SizeOf_def uncachedSize_def Let_def)
    then have again: "metrics_split_loop maxSize MetricsCountSizer SizerTypeItems req res =
        metrics_split_loop maxSize MetricsCountSizer SizerTypeItems req3 (res @ [newMetricsRequest md])"
      using False req1 ex cnt rest assms(1) unfold by (simp add: req3_def)
    have "points_cached_ok req3" by (simp add: req3_def points_cached_ok_def SizeCache_Update_def Let_def)
    then obtain out fin where
      "metrics_split_loop maxSize MetricsCountSizer SizerTypeItems req3 (res @ [newMetricsRequest md]) =
        Some ((res @ [newMetricsRequest md]) @ out, None, fin)" "out \<noteq> []"
      "request_points out = metrics_points src" "\<forall>r \<in> set (butlast out). DataPointCount (data r) = maxSize"
      "DataPointCount (data (last out)) \<le> maxSize" "\<forall>r \<in> set out. points_cached_ok r"
      using less.hyps [of req3 "res @ [newMetricsRequest md]"] rest assms(1) False by (auto simp: req3_def)
    then show ?thesis
      using again pts cnt(1)
      by (intro exI [of _ "newMetricsRequest md # out"] exI [of _ fin])
        (auto simp: request_points_def newMetricsRequest_def points_cached_ok_def NewSizeCache_def)
  qed
qed

section \<open>Properties\<close>

text \<open>
  C7. Merging two metric requests and splitting the result always returns, whatever the sizer and the
  limit, and loses nothing silently: the data points of the returned requests, each under its resource,
  scope and metric with the metric's type, temporality and monotonicity, are those of the two requests
  in order; only when a data point is too big is a remainder missing, and the error reports its
  exact number of points.
\<close>

theorem metrics_MergeSplit_conserves_points:
  assumes "metrics_sizer L szt = Some sz"
  shows "\<exists>out err fin rest. metrics_MergeSplit L req maxSize szt (SameType req2) = Some (out, err, fin) \<and>
    metrics_points (data req) @ metrics_points (data req2) = request_points out @ rest \<and>
    (case err of None \<Rightarrow> rest = [] | Some e \<Rightarrow> e = OneDatapointTooBig (int (length rest)))"
proof -
  let ?req = "snd (metrics_mergeTo req2 req sz szt)"
  have pts: "metrics_points (data ?req) = metrics_points (data req) @ metrics_points (data req2)"
    by (simp add: metrics_mergeTo_data metrics_points_def)
  show ?thesis
  proof (cases "maxSize = 0")
    case True
    then show ?thesis
      using assms pts
      by (intro exI [of _ "[?req]"] exI [of _ None] exI [of _ ?req] exI [of _ "[]"])
        (simp add: metrics_MergeSplit_def request_points_def Let_def)
  next
    case False
    then show ?thesis
      using assms pts metrics_split_loop_spec [of maxSize sz szt ?req "[]"]
      by (simp add: metrics_MergeSplit_def metrics_split_def Let_def) blast
  qed
qed

definition sample_points :: "(nat, nat, nat, nat, nat, nat, nat) metric_leaves" where
  "sample_points = \<lparr>metadata_sz = id, number_sz = id, histogram_sz = id, exponential_sz = id,
     summary_sz = id, mres_sz = id, mscope_sz = id\<rparr>"

text \<open>One gauge without a name whose points have the given encoded sizes.\<close>

definition sample_gauge :: "nat list \<Rightarrow> (nat, nat, nat, nat, nat, nat, nat) metricsRequest" where
  "sample_gauge dps = newMetricsRequest
     [\<lparr>Resource = 0, SchemaUrl = [],
       Scopes = [\<lparr>Scope = 0, ScopeSchemaUrl = [],
         Items = [\<lparr>Name = [], Description = [], Unit = [], MData = Gauge dps, Metadata = []\<rparr>]\<rparr>],
       DeprecatedScopes = []\<rparr>]"

theorem metrics_MergeSplit_conserves_points_witness:
  "\<exists>out err fin rest. metrics_MergeSplit sample_points (sample_gauge [1, 2]) 40 SizerTypeBytes
       (SameType (sample_gauge [3])) = Some (out, err, fin) \<and>
     metrics_points (data (sample_gauge [1, 2])) @ metrics_points (data (sample_gauge [3])) =
       request_points out @ rest \<and>
     (case err of None \<Rightarrow> rest = [] | Some e \<Rightarrow> e = OneDatapointTooBig (int (length rest)))"
  by (rule metrics_MergeSplit_conserves_points [where sz = "MetricsBytesSizer sample_points"])
    (simp add: metrics_sizer_def)

text \<open>
  Splitting metrics by data points is exact: no point is lost and no error is reported, every
  request but the last holds exactly the maximal number of points, the last at most that many, and the
  cached counts stay right.
\<close>

theorem metrics_MergeSplit_items_exact:
  assumes "0 < maxSize" "points_cached_ok req" "points_cached_ok req2"
  shows "\<exists>out fin. metrics_MergeSplit L req maxSize SizerTypeItems (SameType req2) = Some (out, None, fin) \<and>
    out \<noteq> [] \<and> request_points out = metrics_points (data req) @ metrics_points (data req2) \<and>
    (\<forall>r \<in> set (butlast out). DataPointCount (data r) = maxSize) \<and>
    DataPointCount (data (last out)) \<le> maxSize \<and> (\<forall>r \<in> set out. points_cached_ok r)"
proof -
  let ?req = "snd (metrics_mergeTo req2 req MetricsCountSizer SizerTypeItems)"
  have data: "data ?req = data req @ data req2" by (rule metrics_mergeTo_data)
  obtain r1 where r1: "metrics_size req MetricsCountSizer SizerTypeItems = (DataPointCount (data req), r1)"
    using metrics_size_count [OF assms(2)] by blast
  obtain r2 where r2: "metrics_size req2 MetricsCountSizer SizerTypeItems = (DataPointCount (data req2), r2)"
    using metrics_size_count [OF assms(3)] by blast
  have "itemsSize (sizes ?req) = DataPointCount (data req) + DataPointCount (data req2)"
    by (simp add: metrics_mergeTo_def r1 r2 MoveAndAppendTo_def SizeCache_Update_def Let_def)
  then have "points_cached_ok ?req"
    unfolding points_cached_ok_def data by (simp add: DataPointCount_def)
  from count_metrics_split_loop [OF assms(1) this, of "[]"] show ?thesis
    using assms(1) data
    by (simp add: metrics_MergeSplit_def metrics_sizer_def metrics_split_def metrics_points_def Let_def)
qed

theorem metrics_MergeSplit_items_exact_witness:
  "\<exists>out fin. metrics_MergeSplit sample_points (sample_gauge [1, 2]) 2 SizerTypeItems
       (SameType (sample_gauge [3])) = Some (out, None, fin) \<and>
     request_points out = metrics_points (data (sample_gauge [1, 2])) @ metrics_points (data (sample_gauge [3])) \<and>
     list_all (\<lambda>r. DataPointCount (data r) = 2) (butlast out)"
  using metrics_MergeSplit_items_exact [of 2 "sample_gauge [1, 2]" "sample_gauge [3]" sample_points]
  by (auto simp: list_all_iff points_cached_ok_def sample_gauge_def newMetricsRequest_def NewSizeCache_def)

text \<open>The computation behind the last property, bottom up: a gauge, its scope, its resource.\<close>

abbreviation sample_metric :: "nat list \<Rightarrow> (nat, nat, nat, nat, nat) Metric" where
  "sample_metric dps \<equiv> \<lparr>Name = [], Description = [], Unit = [], MData = Gauge dps, Metadata = []\<rparr>"

abbreviation sample_scope where
  "sample_scope dps \<equiv> \<lparr>Scope = 0 :: nat, ScopeSchemaUrl = [], Items = [sample_metric dps]\<rparr>"

abbreviation sample_resource where
  "sample_resource dps \<equiv>
     \<lparr>Resource = 0 :: nat, SchemaUrl = [], Scopes = [sample_scope dps], DeprecatedScopes = []\<rparr>"

lemma sample_sizer [simp]:
  "MDeltaSize (MetricsBytesSizer sample_points) = protoDelta_DeltaSize"
  "NumberDataPointSize (MetricsBytesSizer sample_points) = int"
  by (simp_all add: MetricsBytesSizer_def sample_points_def fun_eq_iff)

lemma sample_sizes:
  fixes dps :: "nat list"
  defines "n \<equiv> protoDelta_DeltaSize (\<Sum>d\<leftarrow>dps. protoDelta_DeltaSize (int d))"
  shows "MetricSize (MetricsBytesSizer sample_points) (sample_metric dps) = n"
    "ScopeMetricsSize (MetricsBytesSizer sample_points) (sample_scope dps) = 2 + protoDelta_DeltaSize n"
    "ScopeMetricsSize (MetricsBytesSizer sample_points) \<lparr>Scope = 0, ScopeSchemaUrl = [], Items = []\<rparr> = 2"
    "ResourceMetricsSize (MetricsBytesSizer sample_points) (sample_resource dps) =
       2 + protoDelta_DeltaSize (2 + protoDelta_DeltaSize n)"
    "ResourceMetricsSize (MetricsBytesSizer sample_points)
       \<lparr>Resource = 0, SchemaUrl = [], Scopes = [], DeprecatedScopes = []\<rparr> = 2"
    "MetricsSize (MetricsBytesSizer sample_points) [sample_resource dps] =
       protoDelta_DeltaSize (2 + protoDelta_DeltaSize (2 + protoDelta_DeltaSize n))"
    "MetricsSize (MetricsBytesSizer sample_points) [] = 0"
proof -
  have m: "Metric_SizeProto (point_sizes.truncate sample_points) (sample_metric dps) = n"
    by (simp add: n_def Metric_SizeProto_def sample_points_def point_sizes.truncate_def string_size_def
        field_size_DeltaSize)
  have "0 \<le> (\<Sum>d\<leftarrow>dps. protoDelta_DeltaSize (int d))"
    by (rule sum_list_nonneg) (auto simp: protoDelta_DeltaSize_def)
  then have "0 \<le> n"
    using DeltaSize_overhead(1) [of "\<Sum>d\<leftarrow>dps. protoDelta_DeltaSize (int d)"] by (simp add: n_def)
  then have "int (metric_nat_size sample_points (sample_metric dps)) = n"
    by (simp add: metric_nat_size_def m)
  moreover have leaves: "mres_sz sample_points = id" "mscope_sz sample_points = id"
    by (simp_all add: sample_points_def)
  ultimately show "MetricSize (MetricsBytesSizer sample_points) (sample_metric dps) = n"
    "ScopeMetricsSize (MetricsBytesSizer sample_points) (sample_scope dps) = 2 + protoDelta_DeltaSize n"
    "ScopeMetricsSize (MetricsBytesSizer sample_points) \<lparr>Scope = 0, ScopeSchemaUrl = [], Items = []\<rparr> = 2"
    "ResourceMetricsSize (MetricsBytesSizer sample_points) (sample_resource dps) =
       2 + protoDelta_DeltaSize (2 + protoDelta_DeltaSize n)"
    "ResourceMetricsSize (MetricsBytesSizer sample_points)
       \<lparr>Resource = 0, SchemaUrl = [], Scopes = [], DeprecatedScopes = []\<rparr> = 2"
    "MetricsSize (MetricsBytesSizer sample_points) [sample_resource dps] =
       protoDelta_DeltaSize (2 + protoDelta_DeltaSize (2 + protoDelta_DeltaSize n))"
    "MetricsSize (MetricsBytesSizer sample_points) [] = 0"
    by (simp_all add: MetricsBytesSizer_def m Data_SizeProto_def ResourceItems_SizeProto_def
        ScopeItems_SizeProto_def leaves string_size_def field_size_DeltaSize)
qed

lemma sample_extract_points:
  "extractMetricDataPoints (sample_metric [27, 27, 27, 27, 27, 27]) 150 (MetricsBytesSizer sample_points) =
     (sample_metric [27, 27, 27, 27, 27], 145, sample_metric [27])"
  by (simp add: extractMetricDataPoints_def extractGaugeDataPoints_def point_capacity_def
      extractDataPoint_def sample_sizes Let_def)

lemma sample_extract_scope:
  "extractScopeMetrics (sample_scope [27, 27, 27, 27, 27, 27]) 155 (MetricsBytesSizer sample_points) =
     (sample_scope [27, 27, 27, 27, 27], 146, sample_scope [27])"
  by (simp add: extractScopeMetrics_def extractScopeMetrics_metric_def sample_extract_points
      dataPointsLen_def sample_sizes Let_def)

lemma sample_extract_resource:
  "extractResourceMetrics (sample_resource [27, 27, 27, 27, 27, 27]) 160 (MetricsBytesSizer sample_points) =
     (sample_resource [27, 27, 27, 27, 27], 147, sample_resource [27])"
  by (simp add: extractResourceMetrics_def extractResourceMetrics_scope_def sample_extract_scope
      sample_sizes Let_def)

lemma sample_extract_metrics:
  "extractMetrics [sample_resource [27, 27, 27, 27, 27, 27]] 160 (MetricsBytesSizer sample_points) =
     ([sample_resource [27, 27, 27, 27, 27]], 148, [sample_resource [27]])"
  by (simp add: extractMetrics_def extractMetrics_resource_def sample_extract_resource sample_sizes Let_def)


end
