(* ===== verification/Batching.thy ===== *)
theory Batching
  imports PartitionBatcher MetricsBatch
begin

text \<open>
  The batcher over metric requests. \<open>metrics_ms\<close> is \<^verbatim>\<open>MergeSplit\<close> of \<^verbatim>\<open>queuebatch/metrics_batch.go\<close> as the
  batcher calls it; it satisfies the contract that the batcher relies on without a condition on the
  requests, so the batcher's theorem holds for every run over metrics.
\<close>

definition metrics_ms ::
  "('res, 'sc, 'md, 'n, 'h, 'e, 's) metric_leaves \<Rightarrow> ('res, 'sc, 'md, 'n, 'h, 'e, 's) metricsRequest \<Rightarrow> int \<Rightarrow>
     SizerType \<Rightarrow> ('res, 'sc, 'md, 'n, 'h, 'e, 's) metricsRequest option \<Rightarrow>
     ('res, 'sc, 'md, 'n, 'h, 'e, 's) metricsRequest list \<times> metrics_error list \<times>
     ('res, 'sc, 'md, 'n, 'h, 'e, 's) metricsRequest" where
  "metrics_ms L r m s r2 =
     (case the (metrics_MergeSplit L r m s (case r2 of None \<Rightarrow> NilRequest | Some x \<Rightarrow> SameType x)) of
        (rs, err, recv) \<Rightarrow> (rs, (case err of None \<Rightarrow> [] | Some e \<Rightarrow> [e]), recv))"

definition points_of :: "('res, 'sc, 'md, 'n, 'h, 'e, 's) metricsRequest \<Rightarrow> _" where
  "points_of r = metrics_points (data r)"

lemma metrics_ms_returns:
  "\<exists>out err fin rest. metrics_MergeSplit L r m s (case r2 of None \<Rightarrow> NilRequest | Some x \<Rightarrow> SameType x) =
       Some (out, err, fin) \<and>
     (points_of r @ arg_items points_of r2 = request_points out @ rest \<or> (out = [] \<and> err \<noteq> None \<and> fin = r)) \<and>
     (err = None \<longrightarrow> rest = []) \<and> (out = [] \<longrightarrow> fin = r \<or> points_of fin = rest)"
proof (cases "metrics_sizer L s")
  case None
  then show ?thesis by (simp add: metrics_MergeSplit_def)
next
  case (Some sz)
  define req where "req = (case r2 of None \<Rightarrow> r | Some x \<Rightarrow> snd (metrics_mergeTo x r sz s))"
  have pts: "points_of req = points_of r @ arg_items points_of r2"
    by (simp add: req_def points_of_def arg_items_def metrics_mergeTo_data metrics_points_def split: option.splits)
  have MS: "metrics_MergeSplit L r m s (case r2 of None \<Rightarrow> NilRequest | Some x \<Rightarrow> SameType x) =
      (if m = 0 then Some ([req], None, req) else metrics_split_loop m sz s req [])"
    using Some by (simp add: metrics_MergeSplit_def metrics_split_def req_def Let_def split: option.splits)
  show ?thesis
  proof (cases "m = 0")
    case True
    then show ?thesis unfolding MS using pts by (simp add: request_points_def points_of_def)
  next
    case False
    obtain out err fin rest where "metrics_split_loop m sz s req [] = Some ([] @ out, err, fin)"
      "points_of req = request_points out @ rest"
      "case err of None \<Rightarrow> rest = [] | Some e \<Rightarrow> e = OneDatapointTooBig (int (length rest))"
      "out = [] \<longrightarrow> points_of fin = rest"
      using metrics_split_loop_spec [of m sz s req "[]"] unfolding points_of_def by blast
    then show ?thesis unfolding MS using False pts
      by (intro exI [of _ out] exI [of _ err] exI [of _ fin] exI [of _ rest]) (auto split: option.splits)
  qed
qed

interpretation metrics: merge_split_contract points_of "metrics_ms L" "\<lambda>_ _. True" for L
proof
  fix r r2 m s rs err recv
  assume out: "metrics_ms L r m s r2 = (rs, err, recv)"
  have conc: "concat (map points_of out) = request_points out" for out
    by (simp add: request_points_def points_of_def [abs_def])
  show "subseq (concat (map points_of rs)) (points_of r @ arg_items points_of r2)"
    using metrics_ms_returns [of L r m s r2] out by (auto simp: metrics_ms_def conc request_points_def)
next
  fix r r2 m s rs recv
  assume out: "metrics_ms L r m s r2 = (rs, [], recv)"
  have conc: "concat (map points_of out) = request_points out" for out
    by (simp add: request_points_def points_of_def [abs_def])
  show "concat (map points_of rs) = points_of r @ arg_items points_of r2"
    using metrics_ms_returns [of L r m s r2] out by (auto simp: metrics_ms_def conc split: option.splits)
next
  fix r r2 m s err recv
  assume out: "metrics_ms L r m s r2 = ([], err, recv)"
  show "subseq (points_of recv) (points_of r @ arg_items points_of r2)"
    using metrics_ms_returns [of L r m s r2] out by (auto simp: metrics_ms_def request_points_def)
qed


text \<open>The batcher over metrics with the default configuration, on which one gauge with two points is consumed.\<close>

definition sample_metrics_env ::
  "(unit, (nat, nat, nat, nat, nat, nat, nat) metricsRequest, metrics_error) batch_env" where
  "sample_metrics_env = \<lparr>MergeSplit = metrics_ms sample_points, Sizeof = \<lambda>r. DataPointCount (data r),
     background = (), mergeCtx = None, contextWithMergedLinks = \<lambda>_ _ _. ()\<rparr>"

definition sample_metrics_start ::
  "(unit, (nat, nat, nat, nat, nat, nat, nat) metricsRequest, metrics_error) partitionBatcher" where
  "sample_metrics_start = Start (newPartitionBatcher NewDefaultBatchConfig False 0)"

definition sample_metrics_end ::
  "(unit, (nat, nat, nat, nat, nat, nat, nat) metricsRequest, metrics_error) partitionBatcher" where
  "sample_metrics_end = snd (consumeInternal sample_metrics_env 1 () (sample_gauge [1, 2]) 7 sample_metrics_start)"


end
