(* ===== verification/Cond.thy ===== *)
theory Cond
  imports Prelude
begin

text \<open>
  The condition variable of the queues, \<^verbatim>\<open>exporterhelper/internal/queue/cond.go\<close>, as the steps of the
  goroutines that use it. The record counts the goroutines at each point of \<^verbatim>\<open>Wait\<close> and \<^verbatim>\<open>Signal\<close>:
  \<open>selecting\<close> at the select of \<^verbatim>\<open>Wait\<close>, \<open>cancelled\<close> after \<^verbatim>\<open>ctx.Done\<close> and before the lock, \<open>consuming\<close>
  at \<^verbatim>\<open><-c.ch\<close> with the lock held, \<open>sending\<close> at the blocking send of \<^verbatim>\<open>Signal\<close>, which has released the
  lock. \<open>ch\<close> is the number of buffered signals, \<open>slots\<close> the capacity of the channel. A step that
  needs the lock is possible only while nobody is \<open>consuming\<close>.
\<close>

record cond =
  slots :: nat
  ch :: nat
  waiting :: int
  selecting :: nat
  cancelled :: nat
  consuming :: nat
  sending :: nat

definition newCond :: "nat \<Rightarrow> cond" where
  "newCond numCPU = \<lparr>slots = numCPU, ch = 0, waiting = 0, selecting = 0, cancelled = 0, consuming = 0, sending = 0\<rparr>"

definition Signal :: "cond \<Rightarrow> cond" where
  "Signal c =
     (if waiting c = 0 then c
      else if ch c < slots c then c\<lparr>waiting := waiting c - 1, ch := Suc (ch c)\<rparr>
      else c\<lparr>waiting := waiting c - 1, sending := Suc (sending c)\<rparr>)"

definition Wait_enter :: "cond \<Rightarrow> cond" where
  "Wait_enter c = c\<lparr>waiting := waiting c + 1, selecting := Suc (selecting c)\<rparr>"

definition Wait_cancelled :: "cond \<Rightarrow> cond" where
  "Wait_cancelled c =
     (if waiting c = 0 then c\<lparr>cancelled := cancelled c - 1, consuming := Suc (consuming c)\<rparr>
      else c\<lparr>cancelled := cancelled c - 1, waiting := waiting c - 1\<rparr>)"

inductive cond_step :: "cond \<Rightarrow> cond \<Rightarrow> bool" where
  signal: "consuming c = 0 \<Longrightarrow> cond_step c (Signal c)"
| wait: "consuming c = 0 \<Longrightarrow> cond_step c (Wait_enter c)"
| sent: "sending c > 0 \<Longrightarrow> ch c < slots c \<Longrightarrow> cond_step c (c\<lparr>sending := sending c - 1, ch := Suc (ch c)\<rparr>)"
| received: "selecting c > 0 \<Longrightarrow> ch c > 0 \<Longrightarrow> cond_step c (c\<lparr>selecting := selecting c - 1, ch := ch c - 1\<rparr>)"
| ctx_done: "selecting c > 0 \<Longrightarrow> cond_step c (c\<lparr>selecting := selecting c - 1, cancelled := Suc (cancelled c)\<rparr>)"
| locked: "consuming c = 0 \<Longrightarrow> cancelled c > 0 \<Longrightarrow> cond_step c (Wait_cancelled c)"
| consumed: "consuming c > 0 \<Longrightarrow> ch c > 0 \<Longrightarrow> cond_step c (c\<lparr>consuming := consuming c - 1, ch := ch c - 1\<rparr>)"

inductive cond_reach :: "nat \<Rightarrow> cond \<Rightarrow> bool" for numCPU where
  init: "cond_reach numCPU (newCond numCPU)"
| step: "cond_reach numCPU c \<Longrightarrow> cond_step c c' \<Longrightarrow> cond_reach numCPU c'"

text \<open>Every goroutine inside \<^verbatim>\<open>Wait\<close> is matched by a count in \<^verbatim>\<open>waiting\<close> or by a signal on its way.\<close>

definition cond_inv :: "nat \<Rightarrow> cond \<Rightarrow> bool" where
  "cond_inv numCPU c \<longleftrightarrow> slots c = numCPU \<and> ch c \<le> slots c \<and> 0 \<le> waiting c \<and> consuming c \<le> 1 \<and>
     (consuming c = 1 \<longrightarrow> waiting c = 0) \<and>
     waiting c + int (ch c) + int (sending c) = int (selecting c) + int (cancelled c) + int (consuming c)"

lemma cond_inv_step: "cond_step c c' \<Longrightarrow> cond_inv n c \<Longrightarrow> cond_inv n c'"
  by (induction rule: cond_step.induct)
    (auto simp: cond_inv_def Signal_def Wait_enter_def Wait_cancelled_def of_nat_diff split: if_splits)

lemma cond_reach_inv: "cond_reach n c \<Longrightarrow> cond_inv n c"
  by (induction rule: cond_reach.induct) (simp add: cond_inv_def newCond_def, rule cond_inv_step)

text \<open>
  C18. A cancelled waiter never blocks forever with the lock: whenever it waits for a signal that it has to
  consume, one is in the channel, or the channel is empty and a signalling goroutine can put one there
  without the lock, after which the waiter proceeds. The signals in the channel never exceed its
  capacity and the number of waiters is never negative.
\<close>

theorem cancelled_waiter_proceeds:
  assumes "cond_reach numCPU c" "0 < numCPU"
  shows "ch c \<le> numCPU \<and> 0 \<le> waiting c \<and>
    (consuming c > 0 \<longrightarrow>
      (\<exists>c'. cond_step c c' \<and> consuming c' < consuming c) \<or>
      (\<exists>c1 c2. cond_step c c1 \<and> sending c1 < sending c \<and> cond_step c1 c2 \<and> consuming c2 < consuming c))"
proof -
  have inv: "cond_inv numCPU c" using assms(1) by (rule cond_reach_inv)
  have progress: "(\<exists>c'. cond_step c c' \<and> consuming c' < consuming c) \<or>
      (\<exists>c1 c2. cond_step c c1 \<and> sending c1 < sending c \<and> cond_step c1 c2 \<and> consuming c2 < consuming c)"
    if busy: "consuming c > 0"
  proof (cases "ch c > 0")
    case True
    then show ?thesis using cond_step.consumed [OF busy] busy by fastforce
  next
    case False
    let ?c1 = "c\<lparr>sending := sending c - 1, ch := Suc (ch c)\<rparr>"
    have "sending c > 0" using inv busy False by (auto simp: cond_inv_def)
    moreover have "cond_step ?c1 (?c1\<lparr>consuming := consuming ?c1 - 1, ch := ch ?c1 - 1\<rparr>)"
      using busy by (intro cond_step.consumed) simp_all
    ultimately show ?thesis
      using cond_step.sent [of c] False assms(2) inv busy by (fastforce simp: cond_inv_def)
  qed
  then show ?thesis using inv by (simp add: cond_inv_def)
qed

text \<open>One slot; two waiters are signalled, the second signal blocks, and both waiters are cancelled.\<close>

definition sample_cond :: cond where
  "sample_cond = \<lparr>slots = 1, ch = 1, waiting = 0, selecting = 0, cancelled = 1, consuming = 1, sending = 1\<rparr>"

lemma sample_cond_reach: "cond_reach 1 sample_cond"
proof -
  let ?c = "\<lambda>k w s x y z. \<lparr>slots = 1, ch = k, waiting = w, selecting = s, cancelled = x, consuming = y, sending = z\<rparr>"
  have 0: "cond_reach 1 (?c 0 0 0 0 0 0)" using cond_reach.init [of 1] by (simp add: newCond_def)
  have 1: "cond_reach 1 (?c 0 1 1 0 0 0)" using cond_reach.step [OF 0 cond_step.wait] by (simp add: Wait_enter_def)
  have 2: "cond_reach 1 (?c 0 2 2 0 0 0)" using cond_reach.step [OF 1 cond_step.wait] by (simp add: Wait_enter_def numeral_2_eq_2)
  have 3: "cond_reach 1 (?c 1 1 2 0 0 0)" using cond_reach.step [OF 2 cond_step.signal] by (simp add: Signal_def)
  have 4: "cond_reach 1 (?c 1 0 2 0 0 1)" using cond_reach.step [OF 3 cond_step.signal] by (simp add: Signal_def)
  have 5: "cond_reach 1 (?c 1 0 1 1 0 1)" using cond_reach.step [OF 4 cond_step.ctx_done] by simp
  have 6: "cond_reach 1 (?c 1 0 0 2 0 1)" using cond_reach.step [OF 5 cond_step.ctx_done] by (simp add: numeral_2_eq_2)
  show ?thesis using cond_reach.step [OF 6 cond_step.locked] by (simp add: Wait_cancelled_def sample_cond_def)
qed

theorem cancelled_waiter_proceeds_witness:
  "consuming sample_cond > 0 \<and>
   ((\<exists>c'. cond_step sample_cond c' \<and> consuming c' < consuming sample_cond) \<or>
    (\<exists>c1 c2. cond_step sample_cond c1 \<and> sending c1 < sending sample_cond \<and> cond_step c1 c2 \<and>
       consuming c2 < consuming sample_cond))"
proof -
  have "consuming sample_cond > 0" by (simp add: sample_cond_def)
  then show ?thesis using cancelled_waiter_proceeds [OF sample_cond_reach] by simp
qed

end
