(* ===== verification/LinkedQueue.thy ===== *)
theory LinkedQueue
  imports Prelude
begin

text \<open>
  The linked list of the memory queue, \<^verbatim>\<open>linkedQueue\<close> in \<^verbatim>\<open>exporterhelper/internal/queue/memory_queue.go\<close>.
  A pointer to a node is an address in the list \<open>nodes\<close>, nil is \<open>None\<close>; a new node gets the next
  address. A nil dereference is the result \<open>None\<close>. The locale \<open>fifo\<close> is what the memory queue
  relies on, and the pointer structure is an interpretation of it.
\<close>

record ('c, 'r) node =
  n_ctx :: 'c
  n_data :: 'r
  n_done :: nat
  n_next :: "nat option"
  queued :: bool
  abandoned :: bool

record ('c, 'r) linkedQueue =
  nodes :: "('c, 'r) node list"
  head :: "nat option"
  tail :: "nat option"

definition empty_linkedQueue :: "('c, 'r) linkedQueue" where
  "empty_linkedQueue = \<lparr>nodes = [], head = None, tail = None\<rparr>"

definition push :: "'c \<Rightarrow> 'r \<Rightarrow> nat \<Rightarrow> ('c, 'r) linkedQueue \<Rightarrow> nat \<times> ('c, 'r) linkedQueue" where
  "push ctx el d l =
     (let n = length (nodes l);
          l1 = l\<lparr>nodes := nodes l @
            [\<lparr>n_ctx = ctx, n_data = el, n_done = d, n_next = None, queued = True, abandoned = False\<rparr>]\<rparr>
      in case tail l1 of
           None \<Rightarrow> (n, l1\<lparr>head := Some n, tail := Some n\<rparr>)
         | Some t \<Rightarrow> (n, l1\<lparr>nodes := (nodes l1)[t := (nodes l1 ! t)\<lparr>n_next := Some n\<rparr>], tail := Some n\<rparr>))"

definition hasElements :: "('c, 'r) linkedQueue \<Rightarrow> bool" where
  "hasElements l \<longleftrightarrow> head l \<noteq> None"

definition pop :: "('c, 'r) linkedQueue \<Rightarrow> (nat \<times> ('c, 'r) linkedQueue) option" where
  "pop l =
     (case head l of
        None \<Rightarrow> None
      | Some n \<Rightarrow>
          let l1 = l\<lparr>head := n_next (nodes l ! n)\<rparr>;
              l2 = (if head l1 = None then l1\<lparr>tail := None\<rparr> else l1)
          in Some (n, l2\<lparr>nodes := (nodes l2)[n := (nodes l2 ! n)\<lparr>n_next := None, queued := False\<rparr>]\<rparr>))"

section \<open>The list that the pointers represent\<close>

fun chain :: "('c, 'r) node list \<Rightarrow> nat option \<Rightarrow> nat list \<Rightarrow> bool" where
  "chain h p [] \<longleftrightarrow> p = None"
| "chain h p (a # as) \<longleftrightarrow> p = Some a \<and> a < length h \<and> chain h (n_next (h ! a)) as"

definition represents :: "('c, 'r) linkedQueue \<Rightarrow> nat list \<Rightarrow> bool" where
  "represents l as \<longleftrightarrow> chain (nodes l) (head l) as \<and> distinct as \<and>
     tail l = (if as = [] then None else Some (last as)) \<and>
     (\<forall>a < length (nodes l). queued (nodes l ! a) \<longleftrightarrow> a \<in> set as)"

lemma chain_bound: "chain h p as \<Longrightarrow> a \<in> set as \<Longrightarrow> a < length h"
  by (induction as arbitrary: p) auto

lemma chain_cong:
  "chain h p as \<Longrightarrow> length h \<le> length h' \<Longrightarrow> \<forall>a \<in> set as. n_next (h' ! a) = n_next (h ! a) \<Longrightarrow> chain h' p as"
  by (induction as arbitrary: p) auto

lemma chain_snoc:
  assumes "chain h p as" "as \<noteq> []" "distinct as" "length h < length h'" "n_next (h' ! length h) = None"
    and "n_next (h' ! last as) = Some (length h)"
    and "\<forall>a \<in> set (butlast as). n_next (h' ! a) = n_next (h ! a)"
  shows "chain h' p (as @ [length h])"
  using assms
proof (induction as arbitrary: p)
  case (Cons a as)
  then show ?case by (cases "as = []") auto
qed simp

lemma represents_empty: "represents empty_linkedQueue []"
  by (simp add: represents_def empty_linkedQueue_def)

lemma represents_hasElements: "represents l as \<Longrightarrow> hasElements l \<longleftrightarrow> as \<noteq> []"
  by (cases as) (auto simp: represents_def hasElements_def)

lemma represents_push:
  assumes rep: "represents l as" and push: "push ctx el d l = (n, l')"
  shows "represents l' (as @ [n]) \<and> n = length (nodes l)"
proof (cases "as = []")
  case True
  then show ?thesis
    using rep push by (auto simp: represents_def push_def Let_def nth_append less_Suc_eq)
next
  case False
  let ?new = "\<lparr>n_ctx = ctx, n_data = el, n_done = d, n_next = None, queued = True, abandoned = False\<rparr>"
  let ?h = "nodes l @ [?new]" and ?t = "last as"
  have chain: "chain (nodes l) (head l) as" "distinct as" using rep by (simp_all add: represents_def)
  have t: "?t < length (nodes l)" "tail l = Some ?t"
    using rep False chain_bound [OF chain(1), of ?t] by (simp_all add: represents_def)
  have l': "l' = l\<lparr>nodes := ?h[?t := (?h ! ?t)\<lparr>n_next := Some n\<rparr>], tail := Some n\<rparr>" and n: "n = length (nodes l)"
    using push t(2) by (auto simp: push_def Let_def)
  have notlast: "a \<noteq> ?t" "a < length (nodes l)" if "a \<in> set (butlast as)" for a
  proof -
    have "distinct (butlast as @ [?t])" using chain(2) False by simp
    then show "a \<noteq> ?t" using that by auto
    show "a < length (nodes l)" using chain_bound [OF chain(1)] that by (simp add: in_set_butlastD)
  qed
  have "chain (nodes l') (head l') (as @ [length (nodes l)])"
    unfolding l' using chain False t n notlast
    by (simp, intro chain_snoc [OF chain(1) False chain(2)]) (auto simp: nth_append nth_list_update)
  moreover have "n \<notin> set as" using chain_bound [OF chain(1)] n by blast
  moreover have "queued (nodes l' ! a) \<longleftrightarrow> a \<in> set (as @ [n])" if "a < length (nodes l')" for a
    using rep that t(1) False unfolding l' n
    by (cases "a = ?t") (auto simp: represents_def nth_append nth_list_update less_Suc_eq)
  ultimately show ?thesis using chain(2) n l' by (simp add: represents_def)
qed

lemma represents_pop:
  assumes rep: "represents l (a # as)"
  shows "\<exists>l'. pop l = Some (a, l') \<and> represents l' as \<and>
    nodes l' = (nodes l)[a := (nodes l ! a)\<lparr>n_next := None, queued := False\<rparr>]"
proof -
  let ?h = "(nodes l)[a := (nodes l ! a)\<lparr>n_next := None, queued := False\<rparr>]"
  have a: "head l = Some a" "a < length (nodes l)" "chain (nodes l) (n_next (nodes l ! a)) as" "a \<notin> set as" "distinct as"
    using rep by (simp_all add: represents_def)
  have "\<forall>b \<in> set as. ?h ! b = nodes l ! b" using a(4) by (metis nth_list_update_neq)
  then have "chain ?h (n_next (nodes l ! a)) as" by (intro chain_cong [OF a(3)]) simp_all
  moreover have "queued (?h ! b) \<longleftrightarrow> b \<in> set as" if "b < length (nodes l)" for b
    using rep that a(2,4) by (auto simp: represents_def nth_list_update)
  moreover have "n_next (nodes l ! a) = None \<longleftrightarrow> as = []" using a(3) by (cases as) auto
  moreover have "as \<noteq> [] \<Longrightarrow> tail l = Some (last as)" using rep by (simp add: represents_def)
  ultimately show ?thesis
    using a by (auto simp: pop_def represents_def Let_def)
qed

section \<open>Queues\<close>

text \<open>A queue, used by a sequence of operations. A dequeue from the empty queue has the output \<open>None\<close>.\<close>

datatype 'a queue_op = Enq 'a | Deq

fun queue_run ::
  "('a \<Rightarrow> 'q \<Rightarrow> 'q) \<Rightarrow> ('q \<Rightarrow> ('a \<times> 'q) option) \<Rightarrow> 'a queue_op list \<Rightarrow> 'q \<Rightarrow> 'a option list" where
  "queue_run enq deq [] q = []"
| "queue_run enq deq (Enq x # ops) q = queue_run enq deq ops (enq x q)"
| "queue_run enq deq (Deq # ops) q =
     (case deq q of
        None \<Rightarrow> None # queue_run enq deq ops q
      | Some (x, q') \<Rightarrow> Some x # queue_run enq deq ops q')"

definition list_enq :: "'a \<Rightarrow> 'a list \<Rightarrow> 'a list" where
  "list_enq x xs = xs @ [x]"

fun list_deq :: "'a list \<Rightarrow> ('a \<times> 'a list) option" where
  "list_deq [] = None"
| "list_deq (x # xs) = Some (x, xs)"

locale fifo =
  fixes new :: 'q
    and enq :: "'a \<Rightarrow> 'q \<Rightarrow> 'q"
    and deq :: "'q \<Rightarrow> ('a \<times> 'q) option"
    and rep :: "'q \<Rightarrow> 'a list \<Rightarrow> bool"
  assumes rep_new: "rep new []"
    and rep_enq: "rep q xs \<Longrightarrow> rep (enq x q) (xs @ [x])"
    and rep_deq_Nil: "rep q [] \<Longrightarrow> deq q = None"
    and rep_deq: "rep q (x # xs) \<Longrightarrow> \<exists>q'. deq q = Some (x, q') \<and> rep q' xs"
begin

lemma simulates: "rep q xs \<Longrightarrow> queue_run enq deq ops q = queue_run list_enq list_deq ops xs"
proof (induction ops arbitrary: q xs)
  case (Cons op ops)
  show ?case
  proof (cases op)
    case (Enq x)
    then show ?thesis using Cons.IH [OF rep_enq [OF Cons.prems, of x]] by (simp add: list_enq_def)
  next
    case Deq
    show ?thesis
    proof (cases xs)
      case Nil
      then show ?thesis using Deq Cons rep_deq_Nil by simp
    next
      case (Cons y ys)
      obtain q' where "deq q = Some (y, q')" "rep q' ys" using rep_deq Cons.prems Cons by blast
      then show ?thesis using Deq Cons Cons.IH [of q' ys] by simp
    qed
  qed
qed simp

lemma refines: "queue_run enq deq ops new = queue_run list_enq list_deq ops []"
  using rep_new by (rule simulates)

end

definition content :: "('c, 'r) node \<Rightarrow> 'c \<times> 'r \<times> nat" where
  "content n = (n_ctx n, n_data n, n_done n)"

definition linked_enq :: "'c \<times> 'r \<times> nat \<Rightarrow> ('c, 'r) linkedQueue \<Rightarrow> ('c, 'r) linkedQueue" where
  "linked_enq x l = (case x of (ctx, el, d) \<Rightarrow> snd (push ctx el d l))"

definition linked_deq :: "('c, 'r) linkedQueue \<Rightarrow> (('c \<times> 'r \<times> nat) \<times> ('c, 'r) linkedQueue) option" where
  "linked_deq l =
     (if hasElements l then map_option (\<lambda>(n, l'). (content (nodes l' ! n), l')) (pop l) else None)"

definition linked_rep :: "('c, 'r) linkedQueue \<Rightarrow> ('c \<times> 'r \<times> nat) list \<Rightarrow> bool" where
  "linked_rep l xs \<longleftrightarrow> (\<exists>as. represents l as \<and> xs = map (\<lambda>a. content (nodes l ! a)) as)"

lemma push_content:
  assumes "push ctx el d l = (n, l')"
  shows "length (nodes l') = Suc (length (nodes l))"
    "a < length (nodes l) \<Longrightarrow> content (nodes l' ! a) = content (nodes l ! a) \<and> abandoned (nodes l' ! a) = abandoned (nodes l ! a)"
  using assms
  by (auto simp: push_def Let_def split: option.splits)
    (cases "a = the (tail l)"; auto simp: content_def nth_append)+

lemma push_new:
  assumes "push ctx el d l = (n, l')" "represents l as"
  shows "content (nodes l' ! n) = (ctx, el, d)" "\<not> abandoned (nodes l' ! n)"
proof -
  have "t < length (nodes l)" if "tail l = Some t" for t
    using assms(2) that chain_bound [of "nodes l" "head l" as "last as"] by (auto simp: represents_def split: if_splits)
  then show "content (nodes l' ! n) = (ctx, el, d)" "\<not> abandoned (nodes l' ! n)"
    using assms(1) by (auto simp: push_def Let_def content_def nth_append nth_list_update split: option.splits)
qed

lemma linked_rep_enq:
  fixes l :: "('c, 'r) linkedQueue"
  assumes "linked_rep l xs"
  shows "linked_rep (linked_enq x l) (xs @ [x])"
proof -
  obtain as where as: "represents l as" "xs = map (\<lambda>a. content (nodes l ! a)) as"
    using assms by (auto simp: linked_rep_def)
  obtain ctx el d where x: "x = (ctx, el, d)" by (metis prod_cases3)
  obtain n l' where push: "push ctx el d l = (n, l')" by force
  have "represents l' (as @ [n])" using represents_push [OF as(1) push] by blast
  moreover have "a < length (nodes l)" if "a \<in> set as" for a
    using as(1) chain_bound that by (auto simp: represents_def)
  then have "map (\<lambda>a. content (nodes l' ! a)) as = xs" using push_content(2) [OF push] as(2) by simp
  ultimately show ?thesis
    unfolding linked_rep_def linked_enq_def x using push push_new(1) [OF push as(1)]
    by (intro exI [of _ "as @ [n]"]) simp
qed

lemma linked_rep_deq:
  fixes l :: "('c, 'r) linkedQueue"
  assumes "linked_rep l (x # xs)"
  shows "\<exists>l'. linked_deq l = Some (x, l') \<and> linked_rep l' xs"
proof -
  obtain a as where as: "represents l (a # as)" "x = content (nodes l ! a)" "xs = map (\<lambda>a. content (nodes l ! a)) as"
    using assms by (auto simp: linked_rep_def)
  obtain l' where pop: "pop l = Some (a, l')" "represents l' as"
    "nodes l' = (nodes l)[a := (nodes l ! a)\<lparr>n_next := None, queued := False\<rparr>]"
    using represents_pop [OF as(1)] by blast
  have same: "content (nodes l' ! b) = content (nodes l ! b)" for b
    unfolding pop(3) by (cases "b = a"; cases "a < length (nodes l)") (simp_all add: content_def list_update_beyond)
  have "hasElements l" using represents_hasElements [OF as(1)] by simp
  then have "linked_deq l = Some (x, l')" using pop(1) same as(2) by (simp add: linked_deq_def)
  moreover have "linked_rep l' xs" using pop(2) same as(3) by (auto simp: linked_rep_def)
  ultimately show ?thesis by blast
qed

lemma linked_rep_deq_Nil: "linked_rep l [] \<Longrightarrow> linked_deq l = None"
  using represents_hasElements by (auto simp: linked_rep_def linked_deq_def)

interpretation linked: fifo empty_linkedQueue linked_enq linked_deq linked_rep
  by unfold_locales
    (simp add: linked_rep_def represents_empty, erule linked_rep_enq, erule linked_rep_deq_Nil, erule linked_rep_deq)

text \<open>
  C22. The linked list implements a first-in first-out queue: every sequence of pushes and guarded pops on
  nodes with head and tail pointers has the same outputs as on a list, and no pop dereferences nil.
\<close>

theorem linkedQueue_refines_list:
  "queue_run linked_enq linked_deq ops empty_linkedQueue = queue_run list_enq list_deq ops []"
  by (rule linked.refines)

end
