(* ===== verification/MemoryQueue.thy ===== *)
theory MemoryQueue
  imports LinkedQueue "HOL-Library.Multiset"
begin

text \<open>
  The in-memory queue, \<^verbatim>\<open>exporterhelper/internal/queue/memory_queue.go\<close>. A critical section under \<^verbatim>\<open>mu\<close> is
  one function; sizes are int64 and wrap. The callbacks \<^verbatim>\<open>blockingDone\<close> are addresses in \<open>dones\<close>, and
  \<open>donePool\<close> holds those that \<^verbatim>\<open>sync.Pool\<close> may hand out again: \<^verbatim>\<open>Get\<close> returns one of them or a new
  one, as the argument \<open>pick\<close> says. \<open>refs\<close> are the references that were taken with \<^verbatim>\<open>Ref\<close> and not
  released. The sizer and \<^verbatim>\<open>context.WithoutCancel\<close> are arguments. A goroutine that waits for space or
  for elements tries again at any time, which includes every wake-up by a signal.
\<close>

section \<open>State\<close>

record ('r, 'e) blockingDone =
  bd_el :: "'r option"
  elSize :: int
  bd_ch :: "'e option list"

record ('c, 'r, 'e) memoryQueue =
  hasRefCounter :: bool
  cap :: int
  donePool :: "nat list"
  items :: "('c, 'r) linkedQueue"
  qsize :: int
  stopped :: bool
  waitForResult :: bool
  blockOnOverflow :: bool
  dones :: "('r, 'e) blockingDone list"
  refs :: "'r list"

definition newMemoryQueue :: "int \<Rightarrow> bool \<Rightarrow> bool \<Rightarrow> bool \<Rightarrow> ('c, 'r, 'e) memoryQueue" where
  "newMemoryQueue capacity wait block counter =
     \<lparr>hasRefCounter = (counter \<and> \<not> wait), cap = capacity, donePool = [], items = empty_linkedQueue, qsize = 0,
      stopped = False, waitForResult = wait, blockOnOverflow = block, dones = [], refs = []\<rparr>"

section \<open>Offering\<close>

datatype offer_check = Ignored | InvalidSize | SizeTooLarge | Accepted

definition Offer_check :: "int \<Rightarrow> ('c, 'r, 'e) memoryQueue \<Rightarrow> offer_check" where
  "Offer_check n mq =
     (if n = 0 then Ignored else if n \<le> 0 then InvalidSize else if n > cap mq then SizeTooLarge else Accepted)"

definition Ref :: "'r \<Rightarrow> ('c, 'r, 'e) memoryQueue \<Rightarrow> ('c, 'r, 'e) memoryQueue" where
  "Ref el mq = (if hasRefCounter mq then mq\<lparr>refs := el # refs mq\<rparr> else mq)"

definition Unref :: "'r \<Rightarrow> ('c, 'r, 'e) memoryQueue \<Rightarrow> ('c, 'r, 'e) memoryQueue" where
  "Unref el mq = (if hasRefCounter mq then mq\<lparr>refs := remove1 el (refs mq)\<rparr> else mq)"

definition pool_Get :: "nat option \<Rightarrow> ('c, 'r, 'e) memoryQueue \<Rightarrow> nat \<times> ('c, 'r, 'e) memoryQueue" where
  "pool_Get pick mq =
     (case pick of
        Some d \<Rightarrow> (d, mq\<lparr>donePool := remove1 d (donePool mq)\<rparr>)
      | None \<Rightarrow> (length (dones mq), mq\<lparr>dones := dones mq @ [\<lparr>bd_el = None, elSize = 0, bd_ch = []\<rparr>]\<rparr>))"

definition blockingDone_reset :: "nat \<Rightarrow> 'r \<Rightarrow> int \<Rightarrow> ('c, 'r, 'e) memoryQueue \<Rightarrow> ('c, 'r, 'e) memoryQueue" where
  "blockingDone_reset d el n mq =
     mq\<lparr>dones := (dones mq)[d := (dones mq ! d)\<lparr>bd_el := Some el, elSize := n\<rparr>]\<rparr>"

text \<open>One round of the loop in \<^verbatim>\<open>add\<close>: the element is added, the queue is full, or the caller waits.\<close>

datatype add_result = Added nat nat | QueueIsFull | WaitForSpace

definition add ::
  "('c \<Rightarrow> 'c) \<Rightarrow> nat option \<Rightarrow> 'c \<Rightarrow> 'r \<Rightarrow> int \<Rightarrow> ('c, 'r, 'e) memoryQueue \<Rightarrow>
     add_result \<times> ('c, 'r, 'e) memoryQueue" where
  "add withoutCancel pick ctx el n mq =
     (if wrap64 (qsize mq + n) > cap mq then
        (if \<not> blockOnOverflow mq then QueueIsFull else WaitForSpace, mq)
      else
        (case pool_Get pick (mq\<lparr>qsize := wrap64 (qsize mq + n)\<rparr>) of (d, mq1) \<Rightarrow>
         let mq2 = blockingDone_reset d el n mq1;
             ctx' = (if \<not> waitForResult mq2 then withoutCancel ctx else ctx)
         in case push ctx' el d (items mq2) of (a, l) \<Rightarrow> (Added a d, mq2\<lparr>items := l\<rparr>)))"

section \<open>Reading and finishing\<close>

definition freeCapacity :: "nat \<Rightarrow> ('c, 'r, 'e) memoryQueue \<Rightarrow> ('c, 'r, 'e) memoryQueue" where
  "freeCapacity d mq = mq\<lparr>qsize := wrap64 (qsize mq - elSize (dones mq ! d))\<rparr>"

definition abandon :: "nat \<Rightarrow> nat \<Rightarrow> ('c, 'r, 'e) memoryQueue \<Rightarrow> bool \<times> ('c, 'r, 'e) memoryQueue" where
  "abandon a d mq =
     (let l = items mq in
      if \<not> queued (nodes l ! a) then (False, mq)
      else (True, freeCapacity d (mq\<lparr>items := l\<lparr>nodes := (nodes l)[a := (nodes l ! a)\<lparr>abandoned := True\<rparr>]\<rparr>\<rparr>)))"

datatype read_result = Got nat | Closed | Blocked | NilPanic

partial_function (option) Read ::
  "('c, 'r, 'e) memoryQueue \<Rightarrow> (read_result \<times> ('c, 'r, 'e) memoryQueue) option" where
  "Read mq =
     (if hasElements (items mq) then
        (case pop (items mq) of
           None \<Rightarrow> Some (NilPanic, mq)
         | Some (a, l) \<Rightarrow>
             if waitForResult mq \<and> abandoned (nodes l ! a) then Read (mq\<lparr>items := l\<rparr>)
             else Some (Got a, mq\<lparr>items := l\<rparr>))
      else if stopped mq then Some (Closed, mq)
      else Some (Blocked, mq))"

definition onDone :: "nat \<Rightarrow> 'e option \<Rightarrow> ('c, 'r, 'e) memoryQueue \<Rightarrow> ('c, 'r, 'e) memoryQueue" where
  "onDone d err mq =
     (let mq1 = (case bd_el (dones mq ! d) of None \<Rightarrow> mq | Some el \<Rightarrow> Unref el mq);
          mq2 = mq1\<lparr>dones := (dones mq1)[d := (dones mq1 ! d)\<lparr>bd_el := None\<rparr>]\<rparr>;
          mq3 = freeCapacity d mq2
      in if waitForResult mq3
         then mq3\<lparr>dones := (dones mq3)[d := (dones mq3 ! d)\<lparr>bd_ch := bd_ch (dones mq3 ! d) @ [err]\<rparr>]\<rparr>
         else mq3\<lparr>donePool := d # donePool mq3\<rparr>)"

text \<open>The end of \<^verbatim>\<open>Offer\<close> with \<^verbatim>\<open>waitForResult\<close>: the result is taken from the channel, and the callback goes back to
  the pool unless the context was cancelled before (\<open>put\<close> is false).\<close>

definition receive_result :: "bool \<Rightarrow> nat \<Rightarrow> ('c, 'r, 'e) memoryQueue \<Rightarrow> ('e option \<times> ('c, 'r, 'e) memoryQueue) option" where
  "receive_result put d mq =
     (case bd_ch (dones mq ! d) of
        [] \<Rightarrow> None
      | err # rest \<Rightarrow>
          let mq1 = mq\<lparr>dones := (dones mq)[d := (dones mq ! d)\<lparr>bd_ch := rest\<rparr>]\<rparr>
          in Some (err, if put then mq1\<lparr>donePool := d # donePool mq1\<rparr> else mq1))"

definition memoryQueue_Shutdown :: "('c, 'r, 'e) memoryQueue \<Rightarrow> ('c, 'r, 'e) memoryQueue" where
  "memoryQueue_Shutdown mq = mq\<lparr>stopped := True\<rparr>"

section \<open>Reading returns\<close>

definition same_elements :: "('c, 'r) linkedQueue \<Rightarrow> ('c, 'r) linkedQueue \<Rightarrow> bool" where
  "same_elements l l' \<longleftrightarrow> length (nodes l') = length (nodes l) \<and>
     (\<forall>b. content (nodes l' ! b) = content (nodes l ! b) \<and> abandoned (nodes l' ! b) = abandoned (nodes l ! b))"

lemma same_elements_refl [simp]: "same_elements l l"
  by (simp add: same_elements_def)

lemma same_elements_trans: "same_elements l l1 \<Longrightarrow> same_elements l1 l2 \<Longrightarrow> same_elements l l2"
  by (simp add: same_elements_def)

lemma pop_spec:
  assumes "represents l (a # as)"
  obtains l' where "pop l = Some (a, l')" "represents l' as" "same_elements l l'"
proof -
  obtain l' where l': "pop l = Some (a, l')" "represents l' as"
    "nodes l' = (nodes l)[a := (nodes l ! a)\<lparr>n_next := None, queued := False\<rparr>]"
    using represents_pop [OF assms] by blast
  have "same_elements l l'"
    unfolding same_elements_def l'(3)
    by (intro conjI allI; cases "a < length (nodes l)")
      (auto simp: content_def nth_list_update list_update_beyond)
  then show ?thesis using that l' by blast
qed

definition dropped :: "('c, 'r, 'e) memoryQueue \<Rightarrow> nat \<Rightarrow> bool" where
  "dropped mq a \<longleftrightarrow> waitForResult mq \<and> abandoned (nodes (items mq) ! a)"

lemma Read_spec:
  assumes "represents (items mq) q"
  shows "\<exists>l. same_elements (items mq) l \<and>
    (case dropWhile (dropped mq) q of
       [] \<Rightarrow> Read mq = Some (if stopped mq then Closed else Blocked, mq\<lparr>items := l\<rparr>) \<and> represents l []
     | a # r \<Rightarrow> Read mq = Some (Got a, mq\<lparr>items := l\<rparr>) \<and> represents l r)"
  using assms
proof (induction q arbitrary: mq)
  case Nil
  have "\<not> hasElements (items mq)" using represents_hasElements [OF Nil] by simp
  then show ?case using Nil by (intro exI [of _ "items mq"]) (simp add: Read.simps)
next
  case (Cons a q)
  obtain l where l: "pop (items mq) = Some (a, l)" "represents l q" "same_elements (items mq) l"
    using pop_spec [OF Cons.prems] .
  have has: "hasElements (items mq)" using represents_hasElements [OF Cons.prems] by simp
  have flag: "abandoned (nodes l ! b) = abandoned (nodes (items mq) ! b)" for b using l(3) by (simp add: same_elements_def)
  show ?case
  proof (cases "dropped mq a")
    case True
    then have again: "Read mq = Read (mq\<lparr>items := l\<rparr>)"
      using has l(1) flag by (subst Read.simps) (simp add: dropped_def)
    have "dropped (mq\<lparr>items := l\<rparr>) = dropped mq" using flag by (simp add: dropped_def fun_eq_iff)
    then obtain l' where l': "same_elements l l'" "case dropWhile (dropped mq) q of
        [] \<Rightarrow> Read mq = Some (if stopped mq then Closed else Blocked, mq\<lparr>items := l'\<rparr>) \<and> represents l' []
      | a # r \<Rightarrow> Read mq = Some (Got a, mq\<lparr>items := l'\<rparr>) \<and> represents l' r"
      using Cons.IH [of "mq\<lparr>items := l\<rparr>"] l(2) unfolding again
      by (cases "dropWhile (dropped mq) q") auto
    show ?thesis
      using l'(2) True same_elements_trans [OF l(3) l'(1)] by (intro exI [of _ l']) simp
  next
    case False
    then have "\<not> (waitForResult mq \<and> abandoned (nodes l ! a))" using flag by (simp add: dropped_def)
    then have "Read mq = Some (Got a, mq\<lparr>items := l\<rparr>)"
      using has l(1) by (subst Read.simps) (simp only: if_True if_False option.case prod.case)
    then show ?thesis using False l by (intro exI [of _ l]) simp
  qed
qed

section \<open>Runs\<close>

text \<open>
  \<open>queue_reach sizer wc mq off acc del out\<close>: some goroutines have offered, read, finished and abandoned
  elements, in any order. \<open>off\<close> are the elements whose \<^verbatim>\<open>Offer\<close> is at the loop of \<^verbatim>\<open>add\<close>, \<open>acc\<close> the nodes
  of the accepted elements in order, \<open>del\<close> the nodes handed to consumers in order, \<open>out\<close> those of
  \<open>del\<close> whose callback was not called. Each consumer calls a callback at most once, and only the
  caller of an \<^verbatim>\<open>Offer\<close> with \<^verbatim>\<open>waitForResult\<close> abandons its element.
\<close>

inductive queue_reach ::
  "('r \<Rightarrow> int) \<Rightarrow> ('c \<Rightarrow> 'c) \<Rightarrow> ('c, 'r, 'e) memoryQueue \<Rightarrow> 'r list \<Rightarrow> nat list \<Rightarrow> nat list \<Rightarrow> nat list \<Rightarrow> bool"
  for sizer wc where
  created: "queue_reach sizer wc (newMemoryQueue capacity wait block counter) [] [] [] []"
    if "0 < capacity" "capacity < 2 ^ 62"
| offered: "queue_reach sizer wc (Ref el mq) (el # off) acc del out"
    if "queue_reach sizer wc mq off acc del out" "Offer_check (sizer el) mq = Accepted"
| added: "queue_reach sizer wc mq' (remove1 el off) (acc @ [a]) del out"
    if "queue_reach sizer wc mq off acc del out" "el \<in> set off"
      "case pick of None \<Rightarrow> True | Some d \<Rightarrow> d \<in> set (donePool mq)"
      "add wc pick ctx el (sizer el) mq = (Added a d, mq')"
| refused: "queue_reach sizer wc (Unref el mq') (remove1 el off) acc del out"
    if "queue_reach sizer wc mq off acc del out" "el \<in> set off"
      "add wc pick ctx el (sizer el) mq = (r, mq')" "r \<in> {QueueIsFull, WaitForSpace}"
| read_one: "queue_reach sizer wc mq' off acc (del @ [a]) (out @ [a])"
    if "queue_reach sizer wc mq off acc del out" "Read mq = Some (Got a, mq')"
| read_none: "queue_reach sizer wc mq' off acc del out"
    if "queue_reach sizer wc mq off acc del out" "Read mq = Some (r, mq')" "r \<in> {Closed, Blocked}"
| finished: "queue_reach sizer wc (onDone (n_done (nodes (items mq) ! a)) err mq) off acc del (remove1 a out)"
    if "queue_reach sizer wc mq off acc del out" "a \<in> set out"
| abandoned: "queue_reach sizer wc mq' off acc del out"
    if "queue_reach sizer wc mq off acc del out" "waitForResult mq" "a \<in> set acc"
      "\<not> abandoned (nodes (items mq) ! a)" "abandon a (n_done (nodes (items mq) ! a)) mq = (r, mq')"
| received: "queue_reach sizer wc mq' off acc del out"
    if "queue_reach sizer wc mq off acc del out" "waitForResult mq" "receive_result put d mq = Some (err, mq')"
      "d < length (dones mq)"
| shut_down: "queue_reach sizer wc (memoryQueue_Shutdown mq) off acc del out"
    if "queue_reach sizer wc mq off acc del out"

section \<open>The invariant\<close>

text \<open>
  \<open>L\<close> are the live nodes: queued and not abandoned, or with a consumer. Their callbacks are distinct,
  describe them and are not in the pool; the size is the sum of their sizes; the references are those
  of the live elements and of the elements that are being offered.
\<close>

definition ndata :: "('c, 'r, 'e) memoryQueue \<Rightarrow> nat \<Rightarrow> 'r" where
  "ndata mq a = n_data (nodes (items mq) ! a)"

definition ndone :: "('c, 'r, 'e) memoryQueue \<Rightarrow> nat \<Rightarrow> nat" where
  "ndone mq a = n_done (nodes (items mq) ! a)"

definition given_up :: "('c, 'r, 'e) memoryQueue \<Rightarrow> nat \<Rightarrow> bool" where
  "given_up mq a = abandoned (nodes (items mq) ! a)"

definition live :: "('c, 'r, 'e) memoryQueue \<Rightarrow> nat list \<Rightarrow> nat list \<Rightarrow> nat list" where
  "live mq q out = filter (\<lambda>a. \<not> given_up mq a) q @ out"

definition order_inv ::
  "('c, 'r, 'e) memoryQueue \<Rightarrow> nat list \<Rightarrow> nat list \<Rightarrow> nat list \<Rightarrow> nat list \<Rightarrow> nat list \<Rightarrow> bool" where
  "order_inv mq acc del out popped q \<longleftrightarrow> represents (items mq) q \<and> acc = popped @ q \<and> distinct acc \<and>
     (\<forall>a \<in> set acc. a < length (nodes (items mq))) \<and> del = filter (\<lambda>a. \<not> given_up mq a) popped \<and>
     set out \<subseteq> set del \<and> distinct out \<and> (\<not> waitForResult mq \<longrightarrow> (\<forall>a \<in> set acc. \<not> given_up mq a))"

definition done_ok :: "('c, 'r, 'e) memoryQueue \<Rightarrow> ('r \<Rightarrow> int) \<Rightarrow> nat \<Rightarrow> bool" where
  "done_ok mq sizer a \<longleftrightarrow> ndone mq a < length (dones mq) \<and> ndone mq a \<notin> set (donePool mq) \<and>
     dones mq ! ndone mq a = \<lparr>bd_el = Some (ndata mq a), elSize = sizer (ndata mq a), bd_ch = []\<rparr>"

definition dones_inv :: "('c, 'r, 'e) memoryQueue \<Rightarrow> ('r \<Rightarrow> int) \<Rightarrow> nat list \<Rightarrow> bool" where
  "dones_inv mq sizer L \<longleftrightarrow> distinct (map (ndone mq) L) \<and> (\<forall>a \<in> set L. done_ok mq sizer a) \<and>
     distinct (donePool mq) \<and> (\<forall>d \<in> set (donePool mq). d < length (dones mq) \<and> bd_ch (dones mq ! d) = []) \<and>
     (\<forall>d < length (dones mq). length (bd_ch (dones mq ! d)) \<le> 1)"

definition size_inv :: "('c, 'r, 'e) memoryQueue \<Rightarrow> ('r \<Rightarrow> int) \<Rightarrow> 'r list \<Rightarrow> nat list \<Rightarrow> bool" where
  "size_inv mq sizer off L \<longleftrightarrow> cap mq < 2 ^ 62 \<and> qsize mq = sum_list (map (\<lambda>a. sizer (ndata mq a)) L) \<and>
     qsize mq \<le> cap mq \<and> (\<forall>el \<in> set off \<union> ndata mq ` set L. 0 < sizer el \<and> sizer el \<le> cap mq) \<and>
     mset (refs mq) = (if hasRefCounter mq then mset off + mset (map (ndata mq) L) else {#}) \<and>
     \<not> (waitForResult mq \<and> hasRefCounter mq)"

definition queue_inv ::
  "('r \<Rightarrow> int) \<Rightarrow> ('c, 'r, 'e) memoryQueue \<Rightarrow> 'r list \<Rightarrow> nat list \<Rightarrow> nat list \<Rightarrow> nat list \<Rightarrow> bool" where
  "queue_inv sizer mq off acc del out \<longleftrightarrow> (\<exists>popped q. order_inv mq acc del out popped q \<and>
     dones_inv mq sizer (live mq q out) \<and> size_inv mq sizer off (live mq q out))"

lemma dones_inv_perm: "mset L = mset L' \<Longrightarrow> dones_inv mq sizer L \<Longrightarrow> dones_inv mq sizer L'"
  unfolding dones_inv_def using mset_eq_setD [of L L'] mset_eq_imp_distinct_iff [of "map (ndone mq) L" "map (ndone mq) L'"]
  by simp

lemma size_inv_perm: "mset L = mset L' \<Longrightarrow> size_inv mq sizer off L \<Longrightarrow> size_inv mq sizer off L'"
proof -
  assume eq: "mset L = mset L'"
  then have "sum_list (map (\<lambda>a. sizer (ndata mq a)) L) = sum_list (map (\<lambda>a. sizer (ndata mq a)) L')"
    by (metis mset_map sum_mset_sum_list)
  then show "size_inv mq sizer off L \<Longrightarrow> size_inv mq sizer off L'"
    unfolding size_inv_def using mset_eq_setD [OF eq] eq by simp
qed

lemma size_nonneg: "size_inv mq sizer off L \<Longrightarrow> 0 \<le> qsize mq"
  unfolding size_inv_def by (metis (no_types, lifting) UnCI image_eqI less_imp_le imageE list.set_map sum_list_nonneg)

lemma same_elements_view:
  assumes "same_elements (items mq) l"
  shows "ndata (mq\<lparr>items := l\<rparr>) = ndata mq" "ndone (mq\<lparr>items := l\<rparr>) = ndone mq"
    "given_up (mq\<lparr>items := l\<rparr>) = given_up mq"
  using assms by (auto simp: same_elements_def content_def ndata_def ndone_def given_up_def fun_eq_iff)

lemma same_elements_inv:
  assumes "same_elements (items mq) l"
  shows "dones_inv (mq\<lparr>items := l\<rparr>) sizer L = dones_inv mq sizer L"
    "size_inv (mq\<lparr>items := l\<rparr>) sizer off L = size_inv mq sizer off L"
  using same_elements_view [OF assms] by (simp_all add: dones_inv_def size_inv_def done_ok_def)

section \<open>Every step keeps the invariant\<close>

lemma queue_invE:
  assumes "queue_inv sizer mq off acc del out"
  obtains popped q where "order_inv mq acc del out popped q" "dones_inv mq sizer (live mq q out)"
    "size_inv mq sizer off (live mq q out)"
  using assms unfolding queue_inv_def by blast

lemma order_parts:
  assumes "order_inv mq acc del out popped q"
  shows "distinct popped" "distinct q" "set popped \<inter> set q = {}" "distinct out"
    "set out \<subseteq> {a \<in> set popped. \<not> given_up mq a}" "acc = popped @ q"
  using assms unfolding order_inv_def by auto

lemma live_distinct:
  assumes "order_inv mq acc del out popped q"
  shows "distinct (live mq q out)" "set (live mq q out) \<subseteq> set acc" "\<forall>a \<in> set (live mq q out). \<not> given_up mq a"
proof -
  note parts = order_parts [OF assms]
  then show "distinct (live mq q out)" unfolding live_def distinct_append by auto
  show "set (live mq q out) \<subseteq> set acc" "\<forall>a \<in> set (live mq q out). \<not> given_up mq a"
    using parts(5,6) unfolding live_def by auto
qed

lemma view_cong:
  assumes "items mq' = items mq"
  shows "ndata mq' = ndata mq" "ndone mq' = ndone mq" "given_up mq' = given_up mq" "live mq' = live mq"
  using assms by (simp_all add: ndata_def ndone_def given_up_def live_def fun_eq_iff)

lemma order_inv_cong:
  "items mq' = items mq \<Longrightarrow> waitForResult mq' = waitForResult mq \<Longrightarrow>
     order_inv mq' acc del out popped q = order_inv mq acc del out popped q"
  unfolding order_inv_def given_up_def by simp

lemma inv_created: "0 < c \<Longrightarrow> c < 2 ^ 62 \<Longrightarrow> queue_inv sizer (newMemoryQueue c wait block counter) [] [] [] []"
  unfolding queue_inv_def
  by (intro exI [of _ "[]"])
    (simp add: order_inv_def dones_inv_def size_inv_def live_def newMemoryQueue_def represents_empty)

text \<open>Steps that change neither the nodes nor the callbacks of live nodes.\<close>

lemma inv_refs:
  assumes inv: "queue_inv sizer mq off acc del out"
    and "mset rs = (if hasRefCounter mq then mset (refs mq) + mset off' - mset off else {#})"
    and "\<forall>el \<in> set off'. 0 < sizer el \<and> sizer el \<le> cap mq"
  shows "queue_inv sizer (mq\<lparr>refs := rs\<rparr>) off' acc del out"
proof -
  obtain popped q where q: "order_inv mq acc del out popped q" "dones_inv mq sizer (live mq q out)"
    "size_inv mq sizer off (live mq q out)" using inv by (rule queue_invE)
  let ?mq = "mq\<lparr>refs := rs\<rparr>"
  note view = view_cong [of ?mq mq, simplified]
  have "order_inv ?mq acc del out popped q" using q(1) order_inv_cong [of ?mq mq] by simp
  moreover have "dones_inv ?mq sizer (live ?mq q out)" using q(2) view by (simp add: dones_inv_def done_ok_def)
  moreover have "size_inv ?mq sizer off' (live ?mq q out)"
    using q(3) view assms(2,3) by (auto simp: size_inv_def)
  ultimately show ?thesis unfolding queue_inv_def by blast
qed

lemma inv_offered:
  assumes inv: "queue_inv sizer mq off acc del out" and check: "Offer_check (sizer el) mq = Accepted"
  shows "queue_inv sizer (Ref el mq) (el # off) acc del out"
proof -
  obtain popped q where q: "size_inv mq sizer off (live mq q out)" using inv by (rule queue_invE)
  have "mset (if hasRefCounter mq then el # refs mq else refs mq) =
      (if hasRefCounter mq then mset (refs mq) + mset (el # off) - mset off else {#})"
    using q by (simp add: size_inv_def)
  moreover have "Ref el mq = mq\<lparr>refs := if hasRefCounter mq then el # refs mq else refs mq\<rparr>" by (simp add: Ref_def)
  moreover have "\<forall>e \<in> set (el # off). 0 < sizer e \<and> sizer e \<le> cap mq"
    using q check by (auto simp: size_inv_def Offer_check_def split: if_splits)
  ultimately show ?thesis using inv_refs [OF inv] by (simp add: q)
qed

lemma inv_refused:
  assumes inv: "queue_inv sizer mq off acc del out" and el: "el \<in> set off"
    and add: "add wc pick ctx el (sizer el) mq = (r, mq')" "r \<in> {QueueIsFull, WaitForSpace}"
  shows "queue_inv sizer (Unref el mq') (remove1 el off) acc del out"
proof -
  obtain popped q where q: "size_inv mq sizer off (live mq q out)" using inv by (rule queue_invE)
  have mq': "mq' = mq" using add by (auto simp: add_def Let_def split: if_splits prod.splits)
  have "mset (if hasRefCounter mq then remove1 el (refs mq) else refs mq) =
      (if hasRefCounter mq then mset (refs mq) + mset (remove1 el off) - mset off else {#})"
    using q el by (simp add: size_inv_def multiset_eq_iff)
  moreover have "Unref el mq = mq\<lparr>refs := if hasRefCounter mq then remove1 el (refs mq) else refs mq\<rparr>"
    by (simp add: Unref_def)
  moreover have "\<forall>e \<in> set (remove1 el off). 0 < sizer e \<and> sizer e \<le> cap mq"
    using q set_remove1_subset [of el off] by (auto simp: size_inv_def)
  ultimately show ?thesis using inv_refs [OF inv] unfolding mq' by simp
qed

lemma inv_items:
  assumes same: "same_elements (items mq) l" and inv: "dones_inv mq sizer L" "size_inv mq sizer off L"
    and order: "order_inv (mq\<lparr>items := l\<rparr>) acc del out popped q" and perm: "mset L = mset (live mq q out)"
  shows "queue_inv sizer (mq\<lparr>items := l\<rparr>) off acc del out"
proof -
  have "live (mq\<lparr>items := l\<rparr>) q out = live mq q out" using same_elements_view(3) [OF same] by (simp add: live_def)
  then show ?thesis
    unfolding queue_inv_def using order same_elements_inv [OF same] dones_inv_perm [OF perm inv(1)] size_inv_perm [OF perm inv(2)]
    by metis
qed

lemma dropped_given_up:
  assumes "order_inv mq acc del out popped q" "a \<in> set q"
  shows "dropped mq a = given_up mq a"
  using assms by (auto simp: order_inv_def dropped_def given_up_def)

lemma inv_read_none:
  assumes inv: "queue_inv sizer mq off acc del out" and read: "Read mq = Some (r, mq')" "r \<in> {Closed, Blocked}"
  shows "queue_inv sizer mq' off acc del out"
proof -
  obtain popped q where q: "order_inv mq acc del out popped q" "dones_inv mq sizer (live mq q out)"
    "size_inv mq sizer off (live mq q out)" using inv by (rule queue_invE)
  have rep: "represents (items mq) q" using q(1) by (simp add: order_inv_def)
  have none: "dropWhile (dropped mq) q = []"
    using Read_spec [OF rep] read by (cases "dropWhile (dropped mq) q") auto
  obtain l where l: "same_elements (items mq) l" "mq' = mq\<lparr>items := l\<rparr>" "represents l []"
    using Read_spec [OF rep] read none by auto
  have gone: "filter (\<lambda>a. \<not> given_up mq a) q = []"
    using none dropped_given_up [OF q(1)] by (simp add: filter_empty_conv)
  have "order_inv (mq\<lparr>items := l\<rparr>) acc del out (popped @ q) []"
    using q(1) l gone same_elements_view(3) [OF l(1)] unfolding order_inv_def
    by (auto simp: same_elements_def)
  then show ?thesis
    unfolding l(2) by (rule inv_items [OF l(1) q(2,3)]) (simp add: live_def gone)
qed

lemma inv_read_one:
  assumes inv: "queue_inv sizer mq off acc del out" and read: "Read mq = Some (Got a, mq')"
  shows "queue_inv sizer mq' off acc (del @ [a]) (out @ [a])"
proof -
  obtain popped q where q: "order_inv mq acc del out popped q" "dones_inv mq sizer (live mq q out)"
    "size_inv mq sizer off (live mq q out)" using inv by (rule queue_invE)
  have rep: "represents (items mq) q" using q(1) by (simp add: order_inv_def)
  obtain r l where l: "dropWhile (dropped mq) q = a # r" "same_elements (items mq) l" "mq' = mq\<lparr>items := l\<rparr>" "represents l r"
    using Read_spec [OF rep] read by (cases "dropWhile (dropped mq) q") (auto split: if_splits)
  define w where "w = takeWhile (dropped mq) q"
  have split: "q = w @ a # r" unfolding w_def l(1) [symmetric] by simp
  have gone: "filter (\<lambda>a. \<not> given_up mq a) w = []"
    using dropped_given_up [OF q(1)] set_takeWhileD [of _ "dropped mq" q] unfolding w_def filter_empty_conv by blast
  have "\<not> dropped mq a" using hd_dropWhile [of "dropped mq" q] l(1) by simp
  then have keep: "\<not> given_up mq a" using dropped_given_up [OF q(1), of a] split by simp
  have fresh: "a \<notin> set out" using q(1) unfolding order_inv_def split by auto
  have "order_inv (mq\<lparr>items := l\<rparr>) acc (del @ [a]) (out @ [a]) (popped @ w @ [a]) r"
    using q(1) l(2,4) gone keep fresh same_elements_view(3) [OF l(2)] unfolding order_inv_def split
    by (auto simp: same_elements_def)
  then show ?thesis
    unfolding l(3) by (rule inv_items [OF l(2) q(2,3)]) (simp add: live_def split gone keep)
qed

lemma inv_shut_down:
  assumes "queue_inv sizer mq off acc del out"
  shows "queue_inv sizer (memoryQueue_Shutdown mq) off acc del out"
proof -
  obtain popped q where q: "order_inv mq acc del out popped q" "dones_inv mq sizer (live mq q out)"
    "size_inv mq sizer off (live mq q out)" using assms by (rule queue_invE)
  let ?mq = "memoryQueue_Shutdown mq"
  have same: "items ?mq = items mq" "waitForResult ?mq = waitForResult mq" by (simp_all add: memoryQueue_Shutdown_def)
  have "dones_inv ?mq sizer (live ?mq q out)" "size_inv ?mq sizer off (live ?mq q out)"
    using q(2,3) view_cong [OF same(1)] by (simp_all add: dones_inv_def done_ok_def size_inv_def memoryQueue_Shutdown_def)
  then show ?thesis using q(1) order_inv_cong [OF same] unfolding queue_inv_def by blast
qed

lemma inv_received:
  assumes inv: "queue_inv sizer mq off acc del out" and recv: "receive_result put d mq = Some (err, mq')"
    and d: "d < length (dones mq)"
  shows "queue_inv sizer mq' off acc del out"
proof -
  obtain popped q where q: "order_inv mq acc del out popped q" "dones_inv mq sizer (live mq q out)"
    "size_inv mq sizer off (live mq q out)" using inv by (rule queue_invE)
  obtain rest where ch: "bd_ch (dones mq ! d) = err # rest"
    and mq': "mq' = (let mq1 = mq\<lparr>dones := (dones mq)[d := (dones mq ! d)\<lparr>bd_ch := rest\<rparr>]\<rparr>
        in if put then mq1\<lparr>donePool := d # donePool mq1\<rparr> else mq1)"
    using recv by (auto simp: receive_result_def Let_def split: list.splits)
  have one: "rest = []" using q(2) d ch by (force simp: dones_inv_def)
  have notpool: "d \<notin> set (donePool mq)" using q(2) ch by (auto simp: dones_inv_def)
  have notlive: "ndone mq a \<noteq> d" if "a \<in> set (live mq q out)" for a
    using q(2) that ch by (auto simp: dones_inv_def done_ok_def)
  have same: "items mq' = items mq" "waitForResult mq' = waitForResult mq" by (simp_all add: mq' Let_def)
  have fields: "dones mq' = (dones mq)[d := (dones mq ! d)\<lparr>bd_ch := []\<rparr>]"
    "donePool mq' = (if put then d # donePool mq else donePool mq)"
    "cap mq' = cap mq" "qsize mq' = qsize mq" "refs mq' = refs mq" "hasRefCounter mq' = hasRefCounter mq"
    by (simp_all add: mq' one Let_def)
  note view = view_cong [OF same(1)]
  have "done_ok mq' sizer a" if "a \<in> set (live mq q out)" for a
    using q(2) that notlive [OF that] unfolding dones_inv_def done_ok_def view fields by auto
  then have "dones_inv mq' sizer (live mq' q out)"
    using q(2) notpool d unfolding dones_inv_def view fields by (auto simp: nth_list_update)
  moreover have "size_inv mq' sizer off (live mq' q out)" using q(3) unfolding size_inv_def view fields same(2) .
  ultimately show ?thesis using q(1) order_inv_cong [OF same] unfolding queue_inv_def by blast
qed

lemma remove_live:
  assumes "distinct L" "a \<in> set L" "mset L' = mset (remove1 a L)"
  shows "mset L = add_mset a (mset L')" "a \<notin> set L'"
proof -
  show "mset L = add_mset a (mset L')" using assms(2,3) by simp
  have "set L' = set (remove1 a L)" using assms(3) by (rule mset_eq_setD)
  then show "a \<notin> set L'" using assms(1) by simp
qed

text \<open>A live node \<open>a\<close> is finished or abandoned: its size is given back.\<close>

lemma size_after_free:
  assumes inv: "size_inv mq sizer off L" and L: "mset L = add_mset a (mset L')"
    and ok: "elSize (dones mq ! d) = sizer (ndata mq a)"
  shows "wrap64 (qsize mq - elSize (dones mq ! d)) = sum_list (map (\<lambda>b. sizer (ndata mq b)) L')"
    "sum_list (map (\<lambda>b. sizer (ndata mq b)) L') \<le> cap mq"
proof -
  have "size_inv mq sizer off (a # L')" using size_inv_perm [OF _ inv, of "a # L'"] L by simp
  then have total: "qsize mq = sizer (ndata mq a) + sum_list (map (\<lambda>b. sizer (ndata mq b)) L')"
    and bounds: "cap mq < 2 ^ 62" "qsize mq \<le> cap mq" "0 < sizer (ndata mq a)"
    and each: "\<forall>b \<in> set L'. 0 < sizer (ndata mq b)"
    by (auto simp: size_inv_def)
  have "0 \<le> sum_list (map (\<lambda>b. sizer (ndata mq b)) L')"
    using each by (intro sum_list_nonneg) auto
  then show "wrap64 (qsize mq - elSize (dones mq ! d)) = sum_list (map (\<lambda>b. sizer (ndata mq b)) L')"
    "sum_list (map (\<lambda>b. sizer (ndata mq b)) L') \<le> cap mq"
    using total bounds ok by (simp_all add: wrap64_id)
qed

lemma size_inv_free:
  assumes inv: "size_inv mq sizer off L" and L: "distinct L" "a \<in> set L"
    and ok: "elSize (dones mq ! d) = sizer (ndata mq a)"
    and new: "ndata mq' = ndata mq" "cap mq' = cap mq" "hasRefCounter mq' = hasRefCounter mq"
      "waitForResult mq' = waitForResult mq" "qsize mq' = wrap64 (qsize mq - elSize (dones mq ! d))"
      "mset (refs mq') = (if hasRefCounter mq then mset (refs mq) - {#ndata mq a#} else mset (refs mq))"
  shows "size_inv mq' sizer off (remove1 a L)"
proof -
  note rm = remove_live [OF L, of "remove1 a L", OF refl]
  have "mset (refs mq') = (if hasRefCounter mq then mset off + mset (map (ndata mq) (remove1 a L)) else {#})"
    using inv L(2) unfolding size_inv_def new(6) by (auto simp: image_mset_Diff)
  moreover have "qsize mq' = sum_list (map (\<lambda>b. sizer (ndata mq b)) (remove1 a L))" "qsize mq' \<le> cap mq"
    using size_after_free [OF inv rm(1) ok] unfolding new(5) by simp_all
  moreover have "\<forall>el \<in> set off \<union> ndata mq ` set (remove1 a L). 0 < sizer el \<and> sizer el \<le> cap mq"
    using inv set_remove1_subset [of a L] unfolding size_inv_def by blast
  ultimately show ?thesis using inv unfolding size_inv_def new(1-4) by blast
qed

lemma distinct_dones_remove:
  "distinct L \<Longrightarrow> inj_on (ndone mq) (set L) \<Longrightarrow> distinct (map (ndone mq) (remove1 a L))"
  using set_remove1_subset [of a L] by (simp add: distinct_map inj_on_subset)

lemma inv_abandoned:
  assumes inv: "queue_inv sizer mq off acc del out" and wait: "waitForResult mq" and a: "a \<in> set acc"
    and flag: "\<not> abandoned (nodes (items mq) ! a)"
    and give: "abandon a (n_done (nodes (items mq) ! a)) mq = (r, mq')"
  shows "queue_inv sizer mq' off acc del out"
proof (cases "queued (nodes (items mq) ! a)")
  case False
  then show ?thesis using give inv by (simp add: abandon_def Let_def)
next
  case True
  obtain popped q where q: "order_inv mq acc del out popped q" "dones_inv mq sizer (live mq q out)"
    "size_inv mq sizer off (live mq q out)" using inv by (rule queue_invE)
  let ?L = "live mq q out" and ?h = "(nodes (items mq))[a := (nodes (items mq) ! a)\<lparr>abandoned := True\<rparr>]"
  have bound: "a < length (nodes (items mq))" using q(1) a by (simp add: order_inv_def)
  have rep: "represents (items mq) q" using q(1) by (simp add: order_inv_def)
  then have inq: "a \<in> set q" using True bound by (simp add: represents_def)
  have notup: "\<not> given_up mq a" using flag by (simp add: given_up_def)
  have mq': "mq' = freeCapacity (ndone mq a) (mq\<lparr>items := (items mq)\<lparr>nodes := ?h\<rparr>\<rparr>)"
    using give True by (simp add: abandon_def Let_def ndone_def)
  have view: "ndata mq' = ndata mq" "ndone mq' = ndone mq" "given_up mq' = (given_up mq)(a := True)"
    using bound by (auto simp: mq' freeCapacity_def ndata_def ndone_def given_up_def fun_eq_iff nth_list_update)
  have notin: "a \<notin> set popped" "a \<notin> set out" "distinct q" "distinct popped"
    using order_parts [OF q(1)] inq by auto
  have L': "live mq' q out = remove1 a ?L"
    using notin inq notup unfolding live_def view(3)
    by (simp add: remove1_append distinct_remove1_removeAll removeAll_filter_not_eq) (auto intro: filter_cong)
  have inL: "a \<in> set ?L" using inq notup by (simp add: live_def)
  have ok: "done_ok mq sizer a" using q(2) inL by (simp add: dones_inv_def)
  have nodes': "items mq' = (items mq)\<lparr>nodes := ?h\<rparr>" by (simp add: mq' freeCapacity_def)
  have fields: "dones mq' = dones mq" "donePool mq' = donePool mq" "cap mq' = cap mq" "refs mq' = refs mq"
    "hasRefCounter mq' = hasRefCounter mq" "waitForResult mq' = waitForResult mq"
    "qsize mq' = wrap64 (qsize mq - elSize (dones mq ! ndone mq a))"
    by (simp_all add: mq' freeCapacity_def)
  have flags: "n_next (?h ! b) = n_next (nodes (items mq) ! b)" "queued (?h ! b) = queued (nodes (items mq) ! b)" for b
    using bound by (simp_all add: nth_list_update)
  have "chain (nodes (items mq)) (head (items mq)) q" using rep by (simp add: represents_def)
  then have "chain ?h (head (items mq)) q" by (rule chain_cong) (auto simp only: flags length_list_update)
  then have "represents (items mq') q"
    using rep unfolding represents_def nodes' by (simp add: flags)
  moreover have "filter (\<lambda>b. \<not> given_up mq' b) popped = filter (\<lambda>b. \<not> given_up mq b) popped"
    using notin(1) unfolding view(3) by (intro filter_cong) auto
  moreover have "length (nodes (items mq')) = length (nodes (items mq))" by (simp add: nodes')
  ultimately have "order_inv mq' acc del out popped q"
    using q(1) wait unfolding order_inv_def fields(6) by auto
  moreover have "dones_inv mq' sizer (live mq' q out)"
  proof -
    have "inj_on (ndone mq) (set ?L)" "\<forall>b \<in> set (remove1 a ?L). done_ok mq sizer b"
      using q(2) set_remove1_subset [of a ?L] by (auto simp: dones_inv_def distinct_map)
    then show ?thesis
      using q(2) distinct_dones_remove [OF live_distinct(1) [OF q(1)]]
      unfolding dones_inv_def done_ok_def view(1,2) fields(1,2) L' by blast
  qed
  moreover have "size_inv mq' sizer off (live mq' q out)"
    unfolding L'
  proof (rule size_inv_free [OF q(3) live_distinct(1) [OF q(1)] inL, of "ndone mq a"])
    show "elSize (dones mq ! ndone mq a) = sizer (ndata mq a)" using ok by (simp add: done_ok_def)
    show "mset (refs mq') = (if hasRefCounter mq then mset (refs mq) - {#ndata mq a#} else mset (refs mq))"
      using q(3) wait by (simp add: size_inv_def fields(4))
  qed (use view fields in simp_all)
  ultimately show ?thesis unfolding queue_inv_def by blast
qed

lemma inv_finished:
  assumes inv: "queue_inv sizer mq off acc del out" and a: "a \<in> set out"
  shows "queue_inv sizer (onDone (n_done (nodes (items mq) ! a)) err mq) off acc del (remove1 a out)"
proof -
  obtain popped q where q: "order_inv mq acc del out popped q" "dones_inv mq sizer (live mq q out)"
    "size_inv mq sizer off (live mq q out)" using inv by (rule queue_invE)
  let ?L = "live mq q out" and ?d = "ndone mq a"
  define mq' where "mq' = onDone (n_done (nodes (items mq) ! a)) err mq"
  have inL: "a \<in> set ?L" using a by (simp add: live_def)
  then have "done_ok mq sizer a" using q(2) by (simp add: dones_inv_def)
  then have d: "?d < length (dones mq)" "?d \<notin> set (donePool mq)"
    "dones mq ! ?d = \<lparr>bd_el = Some (ndata mq a), elSize = sizer (ndata mq a), bd_ch = []\<rparr>"
    by (simp_all add: done_ok_def)
  have fields: "items mq' = items mq" "waitForResult mq' = waitForResult mq" "cap mq' = cap mq"
    "hasRefCounter mq' = hasRefCounter mq"
    "qsize mq' = wrap64 (qsize mq - elSize (dones mq ! ?d))"
    "refs mq' = (if hasRefCounter mq then remove1 (ndata mq a) (refs mq) else refs mq)"
    "dones mq' = (dones mq)[?d := \<lparr>bd_el = None, elSize = sizer (ndata mq a),
       bd_ch = (if waitForResult mq then [err] else [])\<rparr>]"
    "donePool mq' = (if waitForResult mq then donePool mq else ?d # donePool mq)"
    using d by (simp_all add: mq'_def onDone_def Let_def Unref_def freeCapacity_def ndone_def)
  note view = view_cong [OF fields(1)]
  have notq: "a \<notin> set q" using order_parts [OF q(1)] a by auto
  then have L': "live mq' q (remove1 a out) = remove1 a ?L" unfolding view(4) by (simp add: live_def remove1_append)
  note L = remove_live [OF live_distinct(1) [OF q(1)] inL, of "live mq' q (remove1 a out)", OF arg_cong [OF L', of mset]]
  have sub: "set (live mq' q (remove1 a out)) \<subseteq> set ?L" unfolding L' by (rule set_remove1_subset)
  have inj: "inj_on (ndone mq) (set ?L)" "\<forall>b \<in> set ?L. done_ok mq sizer b"
    using q(2) by (simp_all add: dones_inv_def distinct_map)
  then have other: "ndone mq b \<noteq> ?d" if "b \<in> set (live mq' q (remove1 a out))" for b
    using that L(2) sub inL by (metis inj_onD subsetD)
  have "order_inv mq acc del (remove1 a out) popped q"
    using q(1) set_remove1_subset [of a out] unfolding order_inv_def by auto
  then have "order_inv mq' acc del (remove1 a out) popped q" using order_inv_cong [OF fields(1,2)] by blast
  moreover have "done_ok mq' sizer b" if "b \<in> set (live mq' q (remove1 a out))" for b
    using inj(2) sub that other [OF that] unfolding done_ok_def view(1,2) fields(7,8) by auto
  then have "dones_inv mq' sizer (live mq' q (remove1 a out))"
  proof -
    assume ok: "\<And>b. b \<in> set (live mq' q (remove1 a out)) \<Longrightarrow> done_ok mq' sizer b"
    have "distinct (map (ndone mq) (remove1 a ?L))"
      using live_distinct(1) [OF q(1)] inj(1) by (rule distinct_dones_remove)
    moreover have "distinct (donePool mq')" "\<forall>e \<in> set (donePool mq'). e < length (dones mq') \<and> bd_ch (dones mq' ! e) = []"
      "\<forall>e < length (dones mq'). length (bd_ch (dones mq' ! e)) \<le> 1"
      using q(2) d unfolding dones_inv_def fields(7,8) by (auto simp: nth_list_update)
    ultimately show ?thesis using ok unfolding dones_inv_def view(2) L' by blast
  qed
  moreover have "size_inv mq' sizer off (live mq' q (remove1 a out))"
    unfolding L'
    by (rule size_inv_free [OF q(3) live_distinct(1) [OF q(1)] inL, of ?d]) (use view fields d in simp_all)
  ultimately show ?thesis unfolding queue_inv_def mq'_def [symmetric] by blast
qed

lemma pool_Get_spec:
  assumes inv: "dones_inv mq sizer L" and pick: "case pick of None \<Rightarrow> True | Some d \<Rightarrow> d \<in> set (donePool mq)"
    and get: "pool_Get pick (mq\<lparr>qsize := z\<rparr>) = (d, mq1)" and mq2: "mq2 = blockingDone_reset d el n mq1"
  shows "d < length (dones mq2)" "d \<notin> set (donePool mq2)" "d \<notin> ndone mq ` set L"
    "dones mq2 ! d = \<lparr>bd_el = Some el, elSize = n, bd_ch = []\<rparr>"
    "\<forall>e. e < length (dones mq) \<and> e \<noteq> d \<longrightarrow> dones mq2 ! e = dones mq ! e"
    "length (dones mq) \<le> length (dones mq2)" "\<forall>e < length (dones mq2). e = d \<or> e < length (dones mq)"
    "set (donePool mq2) \<subseteq> set (donePool mq)" "distinct (donePool mq2)"
    "items mq2 = items mq" "cap mq2 = cap mq" "qsize mq2 = z" "refs mq2 = refs mq"
    "hasRefCounter mq2 = hasRefCounter mq" "waitForResult mq2 = waitForResult mq"
proof -
  have pool: "distinct (donePool mq)" "\<forall>e \<in> set (donePool mq). e < length (dones mq) \<and> bd_ch (dones mq ! e) = []"
    and L: "\<forall>a \<in> set L. ndone mq a < length (dones mq) \<and> ndone mq a \<notin> set (donePool mq)"
    using inv by (auto simp: dones_inv_def done_ok_def)
  show "d < length (dones mq2)" "d \<notin> set (donePool mq2)" "d \<notin> ndone mq ` set L"
    "dones mq2 ! d = \<lparr>bd_el = Some el, elSize = n, bd_ch = []\<rparr>"
    "\<forall>e. e < length (dones mq) \<and> e \<noteq> d \<longrightarrow> dones mq2 ! e = dones mq ! e"
    "length (dones mq) \<le> length (dones mq2)" "\<forall>e < length (dones mq2). e = d \<or> e < length (dones mq)"
    "set (donePool mq2) \<subseteq> set (donePool mq)" "distinct (donePool mq2)"
    "items mq2 = items mq" "cap mq2 = cap mq" "qsize mq2 = z" "refs mq2 = refs mq"
    "hasRefCounter mq2 = hasRefCounter mq" "waitForResult mq2 = waitForResult mq"
    using get pick pool L set_remove1_subset [of d "donePool mq"]
    by (cases pick; auto simp: mq2 pool_Get_def blockingDone_reset_def nth_append nth_list_update)+
qed

lemma pool_Get_channels:
  assumes inv: "dones_inv mq sizer L" and pick: "case pick of None \<Rightarrow> True | Some d \<Rightarrow> d \<in> set (donePool mq)"
    and get: "pool_Get pick (mq\<lparr>qsize := z\<rparr>) = (d, mq1)" and mq2: "mq2 = blockingDone_reset d el n mq1"
  shows "\<forall>e \<in> set (donePool mq2). e < length (dones mq2) \<and> bd_ch (dones mq2 ! e) = []"
    "\<forall>e < length (dones mq2). length (bd_ch (dones mq2 ! e)) \<le> 1"
proof -
  note spec = pool_Get_spec [OF assms]
  have pool: "\<forall>e \<in> set (donePool mq). e < length (dones mq) \<and> bd_ch (dones mq ! e) = []"
    and chans: "\<forall>e < length (dones mq). length (bd_ch (dones mq ! e)) \<le> 1"
    using inv unfolding dones_inv_def by blast+
  show "\<forall>e \<in> set (donePool mq2). e < length (dones mq2) \<and> bd_ch (dones mq2 ! e) = []"
  proof
    fix e assume e: "e \<in> set (donePool mq2)"
    then have "e \<noteq> d" "e < length (dones mq)" "bd_ch (dones mq ! e) = []" using spec(2,8) pool by blast+
    then show "e < length (dones mq2) \<and> bd_ch (dones mq2 ! e) = []" using spec(5,6) by simp
  qed
  show "\<forall>e < length (dones mq2). length (bd_ch (dones mq2 ! e)) \<le> 1"
  proof (intro allI impI)
    fix e assume "e < length (dones mq2)"
    then consider "e = d" | "e \<noteq> d" "e < length (dones mq)" using spec(7) by blast
    then show "length (bd_ch (dones mq2 ! e)) \<le> 1" using spec(4,5) chans by cases simp_all
  qed
qed

lemma size_inv_add:
  assumes inv: "size_inv mq sizer off L" and el: "el \<in> set off" and fit: "wrap64 (qsize mq + sizer el) \<le> cap mq"
    and new: "cap mq' = cap mq" "hasRefCounter mq' = hasRefCounter mq" "waitForResult mq' = waitForResult mq"
      "refs mq' = refs mq" "qsize mq' = wrap64 (qsize mq + sizer el)" "ndata mq' a = el"
      "map (ndata mq') L = map (ndata mq) L"
  shows "size_inv mq' sizer (remove1 el off) (a # L)"
proof -
  have el_ok: "0 < sizer el" "sizer el \<le> cap mq" "cap mq < 2 ^ 62" "qsize mq \<le> cap mq"
    using inv el by (auto simp: size_inv_def)
  then have z: "wrap64 (qsize mq + sizer el) = qsize mq + sizer el" using size_nonneg [OF inv] by (simp add: wrap64_id)
  have sum: "sum_list (map (\<lambda>b. sizer (ndata mq' b)) L) = sum_list (map (\<lambda>b. sizer (ndata mq b)) L)"
    using arg_cong [OF new(7), of "\<lambda>xs. sum_list (map sizer xs)"] by (simp add: comp_def)
  have data: "ndata mq' ` set L = ndata mq ` set L" using arg_cong [OF new(7), of set] by simp
  have "mset (refs mq) = (if hasRefCounter mq then mset (remove1 el off) + mset (map (ndata mq') (a # L)) else {#})"
    using inv el unfolding size_inv_def list.map new(6,7) by simp
  moreover have "\<forall>e \<in> set (remove1 el off) \<union> ndata mq' ` set (a # L). 0 < sizer e \<and> sizer e \<le> cap mq"
    using inv el_ok set_remove1_subset [of el off] unfolding list.set image_insert data new(6)
    by (auto simp: size_inv_def)
  moreover have "qsize mq + sizer el = sum_list (map (\<lambda>b. sizer (ndata mq' b)) (a # L))"
    using inv sum new(6) by (simp add: size_inv_def)
  ultimately show ?thesis using inv fit z unfolding size_inv_def new(1-5) by simp
qed

lemma inv_added:
  assumes inv: "queue_inv sizer mq off acc del out" and el: "el \<in> set off"
    and pick: "case pick of None \<Rightarrow> True | Some d \<Rightarrow> d \<in> set (donePool mq)"
    and add: "add wc pick ctx el (sizer el) mq = (Added a d, mq')"
  shows "queue_inv sizer mq' (remove1 el off) (acc @ [a]) del out"
proof -
  obtain popped q where q: "order_inv mq acc del out popped q" "dones_inv mq sizer (live mq q out)"
    "size_inv mq sizer off (live mq q out)" using inv by (rule queue_invE)
  let ?L = "live mq q out" and ?z = "wrap64 (qsize mq + sizer el)"
  obtain d1 mq1 where get: "pool_Get pick (mq\<lparr>qsize := ?z\<rparr>) = (d1, mq1)" by force
  define mq2 where "mq2 = blockingDone_reset d1 el (sizer el) mq1"
  define ctx' where "ctx' = (if \<not> waitForResult mq2 then wc ctx else ctx)"
  obtain a1 l where push: "push ctx' el d1 (items mq2) = (a1, l)" by force
  have fit: "?z \<le> cap mq" using add by (auto simp: add_def split: if_splits)
  then have out': "a1 = a" "d1 = d" "mq' = mq2\<lparr>items := l\<rparr>"
    using add get push by (auto simp: add_def Let_def mq2_def ctx'_def)
  note pool = pool_Get_channels [OF q(2) pick get mq2_def]
  note get = pool_Get_spec [OF q(2) pick get mq2_def, unfolded out'(2)]
  note push = push [unfolded out'(1,2) get(10)]
  have rep: "represents (items mq) q" using q(1) by (simp add: order_inv_def)
  have rep': "represents l (q @ [a])" and a: "a = length (nodes (items mq))"
    using represents_push [OF rep push] by blast+
  have old: "ndata mq' b = ndata mq b" "ndone mq' b = ndone mq b" "given_up mq' b = given_up mq b"
    if "b < length (nodes (items mq))" for b
    using push_content(2) [OF push that] by (simp_all add: out'(3) ndata_def ndone_def given_up_def content_def)
  have new: "ndata mq' a = el" "ndone mq' a = d" "\<not> given_up mq' a"
    using push_new [OF push rep] by (simp_all add: out'(3) ndata_def ndone_def given_up_def content_def)
  have bound: "\<forall>b \<in> set acc. b < length (nodes (items mq))" using q(1) by (simp add: order_inv_def)
  have inacc: "set q \<subseteq> set acc" "set popped \<subseteq> set acc" "set ?L \<subseteq> set acc"
    using order_parts(6) [OF q(1)] live_distinct(2) [OF q(1)] by auto
  have onL: "map (ndata mq') ?L = map (ndata mq) ?L" "map (ndone mq') ?L = map (ndone mq) ?L"
    using old(1,2) bound inacc(3) by (auto intro!: map_cong)
  have keep: "filter (\<lambda>b. \<not> given_up mq' b) xs = filter (\<lambda>b. \<not> given_up mq b) xs" if "set xs \<subseteq> set acc" for xs
    using old(3) bound that by (intro filter_cong) auto
  have perm: "mset (a # ?L) = mset (live mq' (q @ [a]) out)"
    unfolding live_def using keep [OF inacc(1)] new(3) by simp
  have order: "order_inv mq' (acc @ [a]) del out popped (q @ [a])"
    using q(1) rep' a old(3) bound new(3) keep [OF inacc(2)] push_content(1) [OF push] get(15)
    unfolding order_inv_def out'(3) by (auto simp: less_Suc_eq)
  have "done_ok mq' sizer b" if "b \<in> set ?L" for b
  proof -
    have "done_ok mq sizer b" "ndone mq b \<noteq> d" "b < length (nodes (items mq))"
      using q(2) that get(3) bound inacc(3) by (auto simp: dones_inv_def)
    then show ?thesis using get(5,6,8) old by (auto simp: done_ok_def out'(3))
  qed
  moreover have "done_ok mq' sizer a" using get(1,2,4) new by (simp add: done_ok_def out'(3))
  moreover have "distinct (map (ndone mq') (a # ?L))" 
    using q(2) get(3) arg_cong [OF onL(2), of set] unfolding list.map distinct.simps new(2) onL(2)
    by (simp add: dones_inv_def)
  moreover have "dones mq' = dones mq2" "donePool mq' = donePool mq2" by (simp_all add: out'(3))
  ultimately have "dones_inv mq' sizer (a # ?L)" using get(9) pool by (simp add: dones_inv_def)
  moreover have "size_inv mq' sizer (remove1 el off) (a # ?L)"
    by (rule size_inv_add [OF q(3) el fit]) (use get new onL out'(3) in simp_all)
  ultimately show ?thesis
    using order dones_inv_perm [OF perm] size_inv_perm [OF perm] unfolding queue_inv_def by blast
qed

lemma queue_reach_inv: "queue_reach sizer wc mq off acc del out \<Longrightarrow> queue_inv sizer mq off acc del out"
proof (induction rule: queue_reach.induct)
  case (created capacity wait block counter)
  then show ?case by (rule inv_created)
next
  case (offered mq off acc del out el)
  show ?case by (rule inv_offered [OF offered.IH offered.hyps(2)])
next
  case (added mq off acc del out el pick ctx a d mq')
  show ?case by (rule inv_added [OF added.IH added.hyps(2-4)])
next
  case (refused mq off acc del out el pick ctx r mq')
  show ?case by (rule inv_refused [OF refused.IH refused.hyps(2-4)])
next
  case (read_one mq off acc del out a mq')
  show ?case by (rule inv_read_one [OF read_one.IH read_one.hyps(2)])
next
  case (read_none mq off acc del out r mq')
  show ?case by (rule inv_read_none [OF read_none.IH read_none.hyps(2,3)])
next
  case (finished mq off acc del out a err)
  show ?case by (rule inv_finished [OF finished.IH finished.hyps(2)])
next
  case (abandoned mq off acc del out a r mq')
  show ?case by (rule inv_abandoned [OF abandoned.IH abandoned.hyps(2-5)])
next
  case (received mq off acc del out put d err mq')
  show ?case by (rule inv_received [OF received.IH received.hyps(3,4)])
next
  case (shut_down mq off acc del out)
  show ?case by (rule inv_shut_down [OF shut_down.IH])
qed

section \<open>Properties\<close>


text \<open>
  C5. Elements are delivered first in, first out, at most once, and never after their caller has given up:
  the nodes handed to consumers are, in order, those of the accepted nodes that left the queue and were
  not abandoned, and the remaining accepted nodes are the queue.
\<close>

theorem queue_delivers_in_order:
  assumes "queue_reach sizer wc mq off acc del out"
  shows "\<exists>popped q. acc = popped @ q \<and> represents (items mq) q \<and>
    del = filter (\<lambda>a. \<not> given_up mq a) popped \<and> distinct del"
proof -
  obtain popped q where q: "order_inv mq acc del out popped q"
    using queue_reach_inv [OF assms] by (rule queue_invE)
  then have "distinct popped" by (rule order_parts(1))
  then show ?thesis using q unfolding order_inv_def by auto
qed

text \<open>
  C26. A read always returns its decision, never dereferences nil, and reports the queue as closed only when
  it was shut down and holds no element whose caller still waits: after a shutdown everything
  is drained first. A consumer that reports a result finds room in the channel of the callback, so it never
  blocks while it holds the lock.
\<close>

theorem queue_read_returns:
  assumes "queue_reach sizer wc mq off acc del out"
  shows "(\<exists>r mq'. Read mq = Some (r, mq') \<and> r \<noteq> NilPanic \<and>
      (r = Closed \<longrightarrow> stopped mq \<and> represents (items mq') [] \<and> qsize mq = sum_list (map (\<lambda>a. sizer (ndata mq a)) out))) \<and>
    (\<forall>a \<in> set out. bd_ch (dones mq ! ndone mq a) = [])"
proof -
  obtain popped q where q: "order_inv mq acc del out popped q" "dones_inv mq sizer (live mq q out)"
    "size_inv mq sizer off (live mq q out)" using queue_reach_inv [OF assms] by (rule queue_invE)
  have rep: "represents (items mq) q" using q(1) by (simp add: order_inv_def)
  have "live mq q out = out" if "dropWhile (dropped mq) q = []"
    using that dropped_given_up [OF q(1)] by (simp add: live_def filter_empty_conv)
  then have sum: "qsize mq = sum_list (map (\<lambda>a. sizer (ndata mq a)) out)" if "dropWhile (dropped mq) q = []"
    using q(3) that by (simp add: size_inv_def)
  have "\<exists>r mq'. Read mq = Some (r, mq') \<and> r \<noteq> NilPanic \<and>
      (r = Closed \<longrightarrow> stopped mq \<and> represents (items mq') [] \<and> qsize mq = sum_list (map (\<lambda>a. sizer (ndata mq a)) out))"
    using Read_spec [OF rep] sum by (cases "dropWhile (dropped mq) q") (auto split: if_splits)
  moreover have "\<forall>a \<in> set out. bd_ch (dones mq ! ndone mq a) = []"
    using q(2) by (auto simp: dones_inv_def done_ok_def live_def)
  ultimately show ?thesis by blast
qed

text \<open>
  C35. The capacity check is computed in int64: with a capacity above \<open>2^62\<close> two elements whose sizes are
  within the capacity can overflow the sum, and the second is accepted although both together exceed the
  capacity; the size of the queue is then negative.
\<close>

theorem queue_capacity_check_overflows:
  assumes "0 < n" "n \<le> cap mq" "0 \<le> qsize mq" "qsize mq \<le> cap mq" "cap mq < 2 ^ 63" "2 ^ 63 \<le> qsize mq + n"
  shows "Offer_check n mq = Accepted \<and> cap mq < qsize mq + n \<and>
    (\<exists>a d mq'. add wc None ctx el n mq = (Added a d, mq') \<and> qsize mq' < 0)"
proof -
  have wrap: "wrap64 (qsize mq + n) = qsize mq + n - 2 ^ 64" using assms by (intro wrap64_overflow) simp_all
  obtain d mq1 where get: "pool_Get None (mq\<lparr>qsize := wrap64 (qsize mq + n)\<rparr>) = (d, mq1)" by force
  then have "qsize mq1 = wrap64 (qsize mq + n)" by (auto simp: pool_Get_def)
  moreover obtain a l where "push (if \<not> waitForResult (blockingDone_reset d el n mq1) then wc ctx else ctx) el d
      (items (blockingDone_reset d el n mq1)) = (a, l)" by force
  ultimately have "\<exists>a d mq'. add wc None ctx el n mq = (Added a d, mq') \<and> qsize mq' < 0"
    using get assms wrap by (simp add: add_def Let_def blockingDone_reset_def)
  then show ?thesis using assms by (simp add: Offer_check_def)
qed

definition sample_big :: "(unit, nat, unit) memoryQueue" where
  "sample_big = (newMemoryQueue (2 ^ 63 - 1) False False False)\<lparr>qsize := 2 ^ 62\<rparr>"

theorem queue_capacity_check_overflows_witness:
  "cap sample_big < qsize sample_big + 2 ^ 62 \<and>
   (\<exists>a d mq'. add id None () 0 (2 ^ 62) sample_big = (Added a d, mq') \<and> qsize mq' < 0)"
  using queue_capacity_check_overflows [of "2 ^ 62" sample_big id "()" 0]
  by (simp add: sample_big_def newMemoryQueue_def)

text \<open>One element of size five is offered to a queue of capacity ten and read.\<close>

definition sample_q0 :: "(unit, nat, unit) memoryQueue" where
  "sample_q0 = newMemoryQueue 10 False False True"

definition sample_q1 :: "(unit, nat, unit) memoryQueue" where
  "sample_q1 = snd (add id None () 5 5 (Ref 5 sample_q0))"

definition sample_q2 :: "(unit, nat, unit) memoryQueue" where
  "sample_q2 = sample_q1\<lparr>items := snd (the (pop (items sample_q1)))\<rparr>"

lemma sample_q1_eq:
  "sample_q1 = sample_q0\<lparr>qsize := 5, refs := [5],
     dones := [\<lparr>bd_el = Some 5, elSize = 5, bd_ch = []\<rparr>],
     items := \<lparr>nodes = [\<lparr>n_ctx = (), n_data = 5, n_done = 0, n_next = None, queued = True, abandoned = False\<rparr>],
       head = Some 0, tail = Some 0\<rparr>\<rparr>"
  by (simp add: sample_q1_def sample_q0_def newMemoryQueue_def Ref_def add_def wrap64_id pool_Get_def
      blockingDone_reset_def push_def empty_linkedQueue_def Let_def)

lemma sample_reach:
  "queue_reach int id sample_q1 [] [0] [] []" "queue_reach int id sample_q2 [] [0] [0] [0]"
proof -
  have "queue_reach int id sample_q0 [] [] [] []" unfolding sample_q0_def by (rule queue_reach.created) simp_all
  then have one: "queue_reach int id (Ref 5 sample_q0) [5] [] [] []"
    by (rule queue_reach.offered) (simp add: Offer_check_def sample_q0_def newMemoryQueue_def)
  have "add id None () 5 (int 5) (Ref 5 sample_q0) = (Added 0 0, sample_q1)"
    unfolding sample_q1_def
    by (simp add: sample_q0_def newMemoryQueue_def Ref_def add_def wrap64_id pool_Get_def
        blockingDone_reset_def push_def empty_linkedQueue_def Let_def)
  then show added: "queue_reach int id sample_q1 [] [0] [] []"
    using queue_reach.added [OF one, of 5 None "()" 0 0 sample_q1] by simp
  have "Read sample_q1 = Some (Got 0, sample_q2)"
    by (subst Read.simps) (simp add: sample_q2_def sample_q1_eq sample_q0_def newMemoryQueue_def hasElements_def pop_def Let_def)
  from queue_reach.read_one [OF added this] show "queue_reach int id sample_q2 [] [0] [0] [0]" by simp
qed


theorem queue_delivers_in_order_witness:
  "\<exists>popped q. [0] = popped @ q \<and> represents (items sample_q2) q \<and>
    [0] = filter (\<lambda>a. \<not> given_up sample_q2 a) popped \<and> distinct [0 :: nat]"
  by (rule queue_delivers_in_order [OF sample_reach(2)])

theorem queue_read_returns_witness:
  "(\<exists>r mq'. Read sample_q2 = Some (r, mq') \<and> r \<noteq> NilPanic) \<and> bd_ch (dones sample_q2 ! ndone sample_q2 0) = []"
  using queue_read_returns [OF sample_reach(2)] by auto

end
