(* ===== verification/MemoryLimiter.thy ===== *)
theory MemoryLimiter
  imports Wire
begin

text \<open>
  The memory limiter: \<^verbatim>\<open>internal/memorylimiter/memorylimiter.go\<close> and \<^verbatim>\<open>config.go\<close>. Amounts of memory are
  uint64 and wrap, durations are int64 nanoseconds. The measured allocations, the clock and the total memory
  are arguments of the operations that read them; \<open>scale\<close> is the product with 0.95 in floating point,
  rounded to a duration. \<open>statuses\<close> are the reported status events and \<open>gcRuns\<close> counts forced
  collections; logging is left out.
\<close>

section \<open>Configuration\<close>

record limiter_config =
  CheckInterval :: int
  MinGCIntervalWhenSoftLimited :: int
  MinGCIntervalWhenHardLimited :: int
  MaxGCIntervalWhenSoftLimited :: int
  MaxGCIntervalWhenHardLimited :: int
  GarbageCollector :: bool
  MemoryLimitMiB :: "32 word"
  MemorySpikeLimitMiB :: "32 word"
  MemoryLimitPercentage :: "32 word"
  MemorySpikePercentage :: "32 word"

datatype limiter_error =
    CheckIntervalOutOfRange | InconsistentGCMinInterval | NegativeGCMaxSoftInterval | NegativeGCMaxHardInterval
  | InconsistentGCMaxSoftInterval | InconsistentGCMaxHardInterval | InconsistentGCMaxInterval
  | LimitOutOfRange | LimitPercentageOutOfRange | SpikeLimitOutOfRange | SpikeLimitPercentageOutOfRange

definition NewDefaultConfig :: limiter_config where
  "NewDefaultConfig =
     \<lparr>CheckInterval = 0, MinGCIntervalWhenSoftLimited = 10 * 1000000000, MinGCIntervalWhenHardLimited = 0,
      MaxGCIntervalWhenSoftLimited = 30 * 1000000000, MaxGCIntervalWhenHardLimited = 30 * 1000000000,
      GarbageCollector = True, MemoryLimitMiB = 0, MemorySpikeLimitMiB = 0, MemoryLimitPercentage = 0,
      MemorySpikePercentage = 0\<rparr>"

definition limiter_Validate :: "limiter_config \<Rightarrow> limiter_error option" where
  "limiter_Validate c =
     (if CheckInterval c \<le> 0 then Some CheckIntervalOutOfRange
      else if MinGCIntervalWhenSoftLimited c < MinGCIntervalWhenHardLimited c then Some InconsistentGCMinInterval
      else if MaxGCIntervalWhenSoftLimited c < 0 then Some NegativeGCMaxSoftInterval
      else if MaxGCIntervalWhenHardLimited c < 0 then Some NegativeGCMaxHardInterval
      else if MaxGCIntervalWhenSoftLimited c > 0 \<and> MaxGCIntervalWhenSoftLimited c < MinGCIntervalWhenSoftLimited c
        then Some InconsistentGCMaxSoftInterval
      else if MaxGCIntervalWhenHardLimited c > 0 \<and> MaxGCIntervalWhenHardLimited c < MinGCIntervalWhenHardLimited c
        then Some InconsistentGCMaxHardInterval
      else if MaxGCIntervalWhenSoftLimited c > 0 \<and> MaxGCIntervalWhenHardLimited c > 0 \<and>
          MaxGCIntervalWhenSoftLimited c < MaxGCIntervalWhenHardLimited c
        then Some InconsistentGCMaxInterval
      else if MemoryLimitMiB c = 0 \<and> MemoryLimitPercentage c = 0 then Some LimitOutOfRange
      else if MemoryLimitPercentage c > 100 \<or> MemorySpikePercentage c > 100 then Some LimitPercentageOutOfRange
      else if MemoryLimitMiB c > 0 \<and> MemoryLimitMiB c \<le> MemorySpikeLimitMiB c then Some SpikeLimitOutOfRange
      else if MemoryLimitPercentage c > 0 \<and> MemoryLimitPercentage c \<le> MemorySpikePercentage c
        then Some SpikeLimitPercentageOutOfRange
      else None)"

section \<open>Limits\<close>

definition mibBytes :: u64 where "mibBytes = 1024 * 1024"

record memUsageChecker =
  memAllocLimit :: u64
  memSpikeLimit :: u64

definition aboveSoftLimit :: "memUsageChecker \<Rightarrow> u64 \<Rightarrow> bool" where
  "aboveSoftLimit d alloc \<longleftrightarrow> alloc \<ge> memAllocLimit d - memSpikeLimit d"

definition aboveHardLimit :: "memUsageChecker \<Rightarrow> u64 \<Rightarrow> bool" where
  "aboveHardLimit d alloc \<longleftrightarrow> alloc \<ge> memAllocLimit d"

definition newFixedMemUsageChecker :: "u64 \<Rightarrow> u64 \<Rightarrow> memUsageChecker" where
  "newFixedMemUsageChecker limit spike =
     \<lparr>memAllocLimit = limit, memSpikeLimit = (if spike = 0 then limit div 5 else spike)\<rparr>"

definition newPercentageMemUsageChecker :: "u64 \<Rightarrow> u64 \<Rightarrow> u64 \<Rightarrow> memUsageChecker" where
  "newPercentageMemUsageChecker totalMemory limit spike =
     newFixedMemUsageChecker (limit * totalMemory div 100) (spike * totalMemory div 100)"

text \<open>\<open>totalMemory\<close> is the result of \<^verbatim>\<open>GetMemoryFn\<close>: \<open>None\<close> for an error.\<close>

definition getMemUsageChecker :: "limiter_config \<Rightarrow> u64 option \<Rightarrow> memUsageChecker option" where
  "getMemUsageChecker c totalMemory =
     (if MemoryLimitMiB c \<noteq> 0 then
        Some (newFixedMemUsageChecker (ucast (MemoryLimitMiB c) * mibBytes) (ucast (MemorySpikeLimitMiB c) * mibBytes))
      else map_option (\<lambda>t. newPercentageMemUsageChecker t (ucast (MemoryLimitPercentage c))
             (ucast (MemorySpikePercentage c))) totalMemory)"

section \<open>The limiter\<close>

datatype limiter_status = ReportOK | ReportRefused

record MemoryLimiter =
  usageChecker :: memUsageChecker
  memCheckWait :: int
  mustRefuse :: bool
  minSoft :: int
  minHard :: int
  maxSoft :: int
  maxHard :: int
  lastGCDone :: int
  gcDisabled :: bool
  currentSoftGCInterval :: int
  currentHardGCInterval :: int
  lastAlloc :: u64
  refCounter :: int
  tickerStopped :: bool
  monitoring :: bool
  statuses :: "limiter_status list"
  gcRuns :: nat

definition NewMemoryLimiter :: "limiter_config \<Rightarrow> u64 option \<Rightarrow> int \<Rightarrow> MemoryLimiter option" where
  "NewMemoryLimiter c totalMemory now =
     map_option (\<lambda>checker.
       \<lparr>usageChecker = checker, memCheckWait = CheckInterval c, mustRefuse = False,
        minSoft = MinGCIntervalWhenSoftLimited c, minHard = MinGCIntervalWhenHardLimited c,
        maxSoft = MaxGCIntervalWhenSoftLimited c, maxHard = MaxGCIntervalWhenHardLimited c,
        lastGCDone = now, gcDisabled = (\<not> GarbageCollector c), currentSoftGCInterval = 0,
        currentHardGCInterval = 0, lastAlloc = 0, refCounter = 0, tickerStopped = False, monitoring = False,
        statuses = [], gcRuns = 0\<rparr>) (getMemUsageChecker c totalMemory)"

definition limiter_Start :: "MemoryLimiter \<Rightarrow> MemoryLimiter" where
  "limiter_Start ml =
     (let ml1 = ml\<lparr>refCounter := refCounter ml + 1\<rparr>
      in if refCounter ml1 = 1 then ml1\<lparr>monitoring := True\<rparr> else ml1)"

definition limiter_Shutdown :: "MemoryLimiter \<Rightarrow> MemoryLimiter" where
  "limiter_Shutdown ml =
     (if refCounter ml = 0 then ml
      else if refCounter ml = 1 then ml\<lparr>tickerStopped := True, monitoring := False, refCounter := refCounter ml - 1\<rparr>
      else ml\<lparr>refCounter := refCounter ml - 1\<rparr>)"

definition nextBackoffInterval :: "(int \<Rightarrow> int) \<Rightarrow> int \<Rightarrow> int \<Rightarrow> int \<Rightarrow> int \<Rightarrow> int" where
  "nextBackoffInterval scale wait current configMin configMax =
     (if configMax = 0 then configMin
      else let minInterval = max configMin (scale wait); maxInterval = max configMax configMin
           in min (wrap64 (max current minInterval * 2)) maxInterval)"

definition checkLimitAndBackoff ::
  "(int \<Rightarrow> int) \<Rightarrow> u64 \<Rightarrow> bool \<Rightarrow> MemoryLimiter \<Rightarrow> bool \<times> MemoryLimiter" where
  "checkLimitAndBackoff scale alloc didGC ml =
     (let isAbove = aboveSoftLimit (usageChecker ml) alloc;
          gcWasEffective = (\<not> isAbove \<or> alloc \<le> lastAlloc ml * (100 - 5) div 100);
          ml1 = ml\<lparr>lastAlloc := alloc\<rparr>
      in if gcWasEffective then (isAbove, ml1\<lparr>currentSoftGCInterval := 0, currentHardGCInterval := 0\<rparr>)
         else if \<not> didGC then (isAbove, ml1)
         else (isAbove, ml1\<lparr>
           currentSoftGCInterval := nextBackoffInterval scale (memCheckWait ml1) (currentSoftGCInterval ml1) (minSoft ml1) (maxSoft ml1),
           currentHardGCInterval := nextBackoffInterval scale (memCheckWait ml1) (currentHardGCInterval ml1) (minHard ml1) (maxHard ml1)\<rparr>))"

text \<open>\<open>alloc\<close> is measured first, \<open>alloc_gc\<close> after a forced collection, which ends at the time \<open>done_at\<close>.\<close>

definition doGCandReadMemStats :: "int \<Rightarrow> MemoryLimiter \<Rightarrow> MemoryLimiter" where
  "doGCandReadMemStats done_at ml = ml\<lparr>gcRuns := Suc (gcRuns ml), lastGCDone := done_at\<rparr>"

definition CheckMemLimits ::
  "(int \<Rightarrow> int) \<Rightarrow> u64 \<Rightarrow> u64 \<Rightarrow> int \<Rightarrow> int \<Rightarrow> MemoryLimiter \<Rightarrow> MemoryLimiter" where
  "CheckMemLimits scale alloc alloc_gc now done_at ml =
     (case checkLimitAndBackoff scale alloc False ml of (isAbove, ml1) \<Rightarrow>
      if \<not> isAbove then
        (if mustRefuse ml1 then ml1\<lparr>statuses := statuses ml1 @ [ReportOK]\<rparr> else ml1)\<lparr>mustRefuse := False\<rparr>
      else
        let gateInterval = (if aboveHardLimit (usageChecker ml1) alloc
              then max (minHard ml1) (currentHardGCInterval ml1) else max (minSoft ml1) (currentSoftGCInterval ml1));
            (above2, ml2) = (if \<not> gcDisabled ml1 \<and> now - lastGCDone ml1 > gateInterval
              then checkLimitAndBackoff scale alloc_gc True (doGCandReadMemStats done_at ml1) else (isAbove, ml1));
            ml3 = (if \<not> mustRefuse ml2 \<and> above2 then ml2\<lparr>statuses := statuses ml2 @ [ReportRefused]\<rparr> else ml2);
            ml4 = (if \<not> above2 then ml3\<lparr>statuses := statuses ml3 @ [ReportOK]\<rparr> else ml3)
        in ml4\<lparr>mustRefuse := above2\<rparr>)"

section \<open>Limits are ordered\<close>

lemma unat_less32: "unat (w :: 32 word) < 2 ^ 32"
  using unsigned_less [of w] by simp

lemma unat_ucast32: "unat (ucast (w :: 32 word) :: u64) = unat w"
  using unat_less32 [of w] by (simp add: unsigned_ucast_eq take_bit_nat_eq_self)

lemma unat_mib: "unat (ucast (w :: 32 word) * mibBytes) = unat w * 1048576"
proof -
  have "unat (ucast w :: u64) * unat mibBytes < 2 ^ 64" by (use unat_less32 [of w] in \<open>simp add: unat_ucast32 mibBytes_def\<close>)
  then show ?thesis by (simp add: unat_mult_lem [THEN iffD1] unat_ucast32 mibBytes_def)
qed

lemma unat_percent:
  assumes "unat p \<le> 100" "unat t * 100 < 2 ^ 64"
  shows "unat (p * t div 100 :: u64) = unat p * unat t div 100"
proof -
  have "unat p * unat t \<le> 100 * unat t" using assms(1) by (rule mult_le_mono1)
  then have "unat p * unat t < 2 ^ 64" using assms(2) by linarith
  then have "unat (p * t) = unat p * unat t" by (intro unat_mult_lem [THEN iffD1]) simp
  then show ?thesis by (simp add: unat_div)
qed

lemma fixed_ordered:
  assumes "unat spike \<le> unat limit"
  shows "memSpikeLimit (newFixedMemUsageChecker limit spike) \<le> memAllocLimit (newFixedMemUsageChecker limit spike)"
  using assms by (simp add: newFixedMemUsageChecker_def word_le_nat_alt unat_div)

lemma usage_checker_ordered:
  assumes valid: "limiter_Validate c = None" and get: "getMemUsageChecker c tm = Some d"
    and small: "case tm of None \<Rightarrow> True | Some t \<Rightarrow> unat t * 100 < 2 ^ 64"
  shows "memSpikeLimit d \<le> memAllocLimit d"
proof (cases "MemoryLimitMiB c = 0")
  case False
  then have "MemorySpikeLimitMiB c < MemoryLimitMiB c"
    using valid by (auto simp: limiter_Validate_def word_neq_0_conv split: if_splits)
  then have "unat (ucast (MemorySpikeLimitMiB c) * mibBytes) \<le> unat (ucast (MemoryLimitMiB c) * mibBytes)"
    unfolding unat_mib by (simp add: word_less_nat_alt)
  then show ?thesis using get False fixed_ordered by (auto simp: getMemUsageChecker_def)
next
  case True
  obtain t where t: "tm = Some t" "d = newPercentageMemUsageChecker t (ucast (MemoryLimitPercentage c)) (ucast (MemorySpikePercentage c))"
    using get True by (auto simp: getMemUsageChecker_def)
  have "MemorySpikePercentage c < MemoryLimitPercentage c" "MemoryLimitPercentage c \<le> 100"
    using valid True by (auto simp: limiter_Validate_def word_neq_0_conv split: if_splits)
  then have pct: "unat (MemorySpikePercentage c) \<le> unat (MemoryLimitPercentage c)" "unat (MemoryLimitPercentage c) \<le> 100"
    by (simp_all add: word_less_nat_alt word_le_nat_alt)
  have "unat t * 100 < 2 ^ 64" using small t(1) by simp
  then have "unat (ucast (MemorySpikePercentage c) * t div 100) \<le> unat (ucast (MemoryLimitPercentage c) * t div 100)"
    using pct by (simp add: unat_percent unat_ucast32 div_le_mono)
  then show ?thesis unfolding t(2) newPercentageMemUsageChecker_def by (rule fixed_ordered)
qed

section \<open>Properties\<close>

text \<open>
  A valid configuration gives limits in order: the spike limit is at most the memory limit, so the soft limit
  is their difference and does not wrap, and memory above the hard limit is above the soft limit. For a
  limit in percent this needs that a hundred times the total memory fits into 64 bits.
\<close>

theorem limiter_soft_limit_below_hard_limit:
  assumes "limiter_Validate c = None" "getMemUsageChecker c tm = Some d"
    and "case tm of None \<Rightarrow> True | Some t \<Rightarrow> unat t * 100 < 2 ^ 64"
  shows "unat (memAllocLimit d - memSpikeLimit d) = unat (memAllocLimit d) - unat (memSpikeLimit d) \<and>
    memSpikeLimit d \<le> memAllocLimit d \<and> (aboveHardLimit d alloc \<longrightarrow> aboveSoftLimit d alloc)"
proof -
  have le: "memSpikeLimit d \<le> memAllocLimit d" using assms by (rule usage_checker_ordered)
  then have diff: "unat (memAllocLimit d - memSpikeLimit d) = unat (memAllocLimit d) - unat (memSpikeLimit d)"
    by (rule unat_sub)
  have "aboveSoftLimit d alloc" if "aboveHardLimit d alloc"
    using that diff by (simp add: aboveHardLimit_def aboveSoftLimit_def word_le_nat_alt)
  then show ?thesis using le diff by blast
qed

definition sample_limiter_config :: limiter_config where
  "sample_limiter_config = NewDefaultConfig\<lparr>CheckInterval := 1000000000, MemoryLimitMiB := 100, MemorySpikeLimitMiB := 20\<rparr>"

theorem limiter_soft_limit_below_hard_limit_witness:
  "limiter_Validate sample_limiter_config = None \<and>
   (case getMemUsageChecker sample_limiter_config None of
      None \<Rightarrow> False
    | Some d \<Rightarrow> unat (memAllocLimit d - memSpikeLimit d) = 80 * 1048576 \<and> memSpikeLimit d \<le> memAllocLimit d)"
proof -
  have valid: "limiter_Validate sample_limiter_config = None"
    by (simp add: limiter_Validate_def sample_limiter_config_def NewDefaultConfig_def)
  let ?d = "\<lparr>memAllocLimit = 104857600, memSpikeLimit = 20971520\<rparr>"
  have d: "getMemUsageChecker sample_limiter_config None = Some ?d"
    by (simp add: getMemUsageChecker_def sample_limiter_config_def NewDefaultConfig_def newFixedMemUsageChecker_def mibBytes_def)
  from limiter_soft_limit_below_hard_limit [OF valid d] show ?thesis using valid d by simp
qed

text \<open>
  C20. A check decides by the last measurement: afterwards data is refused exactly if the memory measured last, after
  a forced collection if there was one, is above the soft limit. It forces at most one collection, and only if
  that is enabled, memory was above the soft limit, and the last one is longer ago than the configured minimum
  for the limit that was exceeded.
\<close>

theorem limiter_check_decides_by_last_measurement:
  "let ml' = CheckMemLimits scale alloc alloc_gc now done_at ml in
    mustRefuse ml' = aboveSoftLimit (usageChecker ml) (lastAlloc ml') \<and> usageChecker ml' = usageChecker ml \<and>
    (if gcRuns ml' = gcRuns ml then lastAlloc ml' = alloc \<and> lastGCDone ml' = lastGCDone ml
     else gcRuns ml' = Suc (gcRuns ml) \<and> lastAlloc ml' = alloc_gc \<and> lastGCDone ml' = done_at \<and> \<not> gcDisabled ml \<and>
       aboveSoftLimit (usageChecker ml) alloc \<and>
       now - lastGCDone ml > (if aboveHardLimit (usageChecker ml) alloc then minHard ml else minSoft ml))"
  unfolding CheckMemLimits_def checkLimitAndBackoff_def doGCandReadMemStats_def Let_def
  by (auto split: if_splits)

text \<open>The checks of successive ticks; each has its measurements and times.\<close>

definition limiter_ticks :: "(int \<Rightarrow> int) \<Rightarrow> (u64 \<times> u64 \<times> int \<times> int) list \<Rightarrow> MemoryLimiter \<Rightarrow> MemoryLimiter" where
  "limiter_ticks scale ts ml =
     foldl (\<lambda>ml (alloc, alloc_gc, now, done_at). CheckMemLimits scale alloc alloc_gc now done_at ml) ml ts"

definition interval_ok :: "int \<Rightarrow> int \<Rightarrow> int \<Rightarrow> bool" where
  "interval_ok cur lo hi \<longleftrightarrow> cur = 0 \<or> lo \<le> cur \<and> cur \<le> max hi lo"

definition backoff_ok :: "(int \<Rightarrow> int) \<Rightarrow> MemoryLimiter \<Rightarrow> bool" where
  "backoff_ok scale ml \<longleftrightarrow> 0 \<le> minHard ml \<and> minHard ml \<le> minSoft ml \<and> minSoft ml < 2 ^ 62 \<and>
     maxSoft ml < 2 ^ 62 \<and> maxHard ml < 2 ^ 62 \<and> 0 \<le> scale (memCheckWait ml) \<and> scale (memCheckWait ml) < 2 ^ 62 \<and>
     interval_ok (currentSoftGCInterval ml) (minSoft ml) (maxSoft ml) \<and>
     interval_ok (currentHardGCInterval ml) (minHard ml) (maxHard ml)"

lemma nextBackoffInterval_ok:
  assumes "0 \<le> lo" "lo < 2 ^ 62" "hi < 2 ^ 62" "0 \<le> scale w" "scale w < 2 ^ 62" "interval_ok cur lo hi"
  shows "interval_ok (nextBackoffInterval scale w cur lo hi) lo hi"
proof (cases "hi = 0")
  case True
  then show ?thesis by (simp add: nextBackoffInterval_def interval_ok_def)
next
  case False
  let ?m = "max cur (max lo (scale w))"
  have m: "lo \<le> ?m" "0 \<le> ?m" "?m < 2 ^ 62" using assms by (auto simp: interval_ok_def)
  then have "wrap64 (?m * 2) = ?m * 2" by (intro wrap64_id) simp_all
  moreover have "lo \<le> ?m * 2" using m(1,2) by linarith
  ultimately show ?thesis using False by (simp add: nextBackoffInterval_def interval_ok_def Let_def)
qed

lemma checkLimitAndBackoff_ok:
  assumes "backoff_ok scale ml" "checkLimitAndBackoff scale alloc didGC ml = (b, ml')"
  shows "backoff_ok scale ml'"
  using assms nextBackoffInterval_ok [of "minSoft ml" "maxSoft ml" scale "memCheckWait ml" "currentSoftGCInterval ml"]
    nextBackoffInterval_ok [of "minHard ml" "maxHard ml" scale "memCheckWait ml" "currentHardGCInterval ml"]
  by (auto simp: checkLimitAndBackoff_def backoff_ok_def Let_def interval_ok_def [of 0] split: if_splits)

lemma backoff_ok_frame:
  "backoff_ok scale (ml\<lparr>mustRefuse := r\<rparr>) = backoff_ok scale ml"
  "backoff_ok scale (ml\<lparr>statuses := st\<rparr>) = backoff_ok scale ml"
  "backoff_ok scale (doGCandReadMemStats t ml) = backoff_ok scale ml"
  by (simp_all add: backoff_ok_def doGCandReadMemStats_def)

lemma CheckMemLimits_ok:
  assumes "backoff_ok scale ml"
  shows "backoff_ok scale (CheckMemLimits scale alloc alloc_gc now done_at ml)"
proof -
  obtain b ml1 where one: "checkLimitAndBackoff scale alloc False ml = (b, ml1)" by force
  obtain b2 ml2 where two: "checkLimitAndBackoff scale alloc_gc True (doGCandReadMemStats done_at ml1) = (b2, ml2)" by force
  have "backoff_ok scale ml1" using checkLimitAndBackoff_ok [OF assms one] .
  moreover from this have "backoff_ok scale ml2"
    using checkLimitAndBackoff_ok [OF _ two] by (simp add: backoff_ok_frame)
  ultimately show ?thesis
    by (simp add: CheckMemLimits_def one two Let_def backoff_ok_frame)
qed

lemma limiter_ticks_ok: "backoff_ok scale ml \<Longrightarrow> backoff_ok scale (limiter_ticks scale ts ml)"
  unfolding limiter_ticks_def by (induction ts arbitrary: ml) (auto simp: CheckMemLimits_ok)

text \<open>
  The backoff between forced collections stays bounded for ever: with a valid configuration whose durations are
  non-negative and below \<open>2^62\<close> nanoseconds, after any number of checks each interval is zero or between the
  configured minimum and the larger of minimum and maximum; doubling never overflows.
\<close>

theorem limiter_backoff_bounded:
  assumes "limiter_Validate c = None" "NewMemoryLimiter c tm now = Some ml"
    and "0 \<le> MinGCIntervalWhenHardLimited c" "MinGCIntervalWhenSoftLimited c < 2 ^ 62"
    and "MaxGCIntervalWhenSoftLimited c < 2 ^ 62" "MaxGCIntervalWhenHardLimited c < 2 ^ 62"
    and "0 \<le> scale (CheckInterval c)" "scale (CheckInterval c) < 2 ^ 62"
  shows "interval_ok (currentSoftGCInterval (limiter_ticks scale ts ml))
      (minSoft (limiter_ticks scale ts ml)) (maxSoft (limiter_ticks scale ts ml)) \<and>
    interval_ok (currentHardGCInterval (limiter_ticks scale ts ml))
      (minHard (limiter_ticks scale ts ml)) (maxHard (limiter_ticks scale ts ml))"
proof -
  have "MinGCIntervalWhenHardLimited c \<le> MinGCIntervalWhenSoftLimited c"
    using assms(1) by (auto simp: limiter_Validate_def split: if_splits)
  then have "backoff_ok scale ml"
    using assms(2-) by (auto simp: NewMemoryLimiter_def backoff_ok_def interval_ok_def)
  from limiter_ticks_ok [OF this] show ?thesis by (simp add: backoff_ok_def)
qed

definition sample_limiter :: MemoryLimiter where
  "sample_limiter = the (NewMemoryLimiter sample_limiter_config None 0)"

theorem limiter_backoff_bounded_witness:
  "interval_ok (currentSoftGCInterval (limiter_ticks (\<lambda>w. w * 95 div 100) [(90000000, 90000000, 20000000000, 20000000001)] sample_limiter))
      (minSoft (limiter_ticks (\<lambda>w. w * 95 div 100) [(90000000, 90000000, 20000000000, 20000000001)] sample_limiter))
      (maxSoft (limiter_ticks (\<lambda>w. w * 95 div 100) [(90000000, 90000000, 20000000000, 20000000001)] sample_limiter))"
proof -
  have valid: "limiter_Validate sample_limiter_config = None"
    by (simp add: limiter_Validate_def sample_limiter_config_def NewDefaultConfig_def)
  have new: "NewMemoryLimiter sample_limiter_config None 0 = Some sample_limiter"
    by (simp add: sample_limiter_def NewMemoryLimiter_def getMemUsageChecker_def sample_limiter_config_def NewDefaultConfig_def)
  show ?thesis
    using limiter_backoff_bounded [OF valid new, of "\<lambda>w. w * 95 div 100" "[(90000000, 90000000, 20000000000, 20000000001)]"]
    by (simp add: sample_limiter_config_def NewDefaultConfig_def)
qed

end
