(* ===== verification/Fanout.thy ===== *)
theory Fanout
  imports Prelude "HOL-Library.Multiset"
begin

text \<open>
  The fan-out consumer of \<^verbatim>\<open>internal/fanoutconsumer\<close>; its files for logs, traces, metrics and profiles have the
  same code, modelled from \<^verbatim>\<open>logs.go\<close>. Telemetry data is a cell of a store with its content and its
  read-only flag; \<^verbatim>\<open>CopyTo\<close> into new data is a new cell. A consumer that declares \<^verbatim>\<open>MutatesData\<close> may change
  the cell it gets, which panics if the cell is read-only. Each call is recorded with the cell
  and the content that the consumer found there.
\<close>

record ('d, 'e) logs_consumer =
  MutatesData :: bool
  change :: "'d \<Rightarrow> 'd"
  answer :: "'d \<Rightarrow> 'e list"

record ('d, 'e) fan_state =
  cells :: "('d \<times> bool) list"
  calls :: "(('d, 'e) logs_consumer \<times> nat \<times> 'd) list"
  fan_panic :: bool

record ('d, 'e) logsConsumer =
  mutable :: "('d, 'e) logs_consumer list"
  readonly :: "('d, 'e) logs_consumer list"

definition deliver :: "('d, 'e) logs_consumer \<Rightarrow> nat \<Rightarrow> ('d, 'e) fan_state \<Rightarrow> 'e list \<times> ('d, 'e) fan_state" where
  "deliver c a s =
     (let (d, ro) = cells s ! a;
          s1 = s\<lparr>calls := calls s @ [(c, a, d)]\<rparr>
      in (answer c d,
          if MutatesData c then s1\<lparr>cells := (cells s1)[a := (change c d, ro)], fan_panic := fan_panic s1 \<or> ro\<rparr> else s1))"

definition cloneLogs :: "nat \<Rightarrow> ('d, 'e) fan_state \<Rightarrow> nat \<times> ('d, 'e) fan_state" where
  "cloneLogs a s = (length (cells s), s\<lparr>cells := cells s @ [(fst (cells s ! a), False)]\<rparr>)"

definition IsReadOnly :: "nat \<Rightarrow> ('d, 'e) fan_state \<Rightarrow> bool" where
  "IsReadOnly a s = snd (cells s ! a)"

definition MarkReadOnly :: "nat \<Rightarrow> ('d, 'e) fan_state \<Rightarrow> ('d, 'e) fan_state" where
  "MarkReadOnly a s = s\<lparr>cells := (cells s)[a := (fst (cells s ! a), True)]\<rparr>"

text \<open>\<open>None\<close> stands for the single consumer that is returned unwrapped.\<close>

definition NewLogs :: "('d, 'e) logs_consumer list \<Rightarrow> ('d, 'e) logsConsumer option" where
  "NewLogs lcs =
     (if length lcs = 1 \<and> \<not> MutatesData (lcs ! 0) then None
      else Some \<lparr>mutable = filter MutatesData lcs, readonly = filter (\<lambda>c. \<not> MutatesData c) lcs\<rparr>)"

definition Capabilities :: "('d, 'e) logsConsumer \<Rightarrow> bool" where
  "Capabilities lsc \<longleftrightarrow> length (mutable lsc) > 0 \<and> length (readonly lsc) = 0"

definition send_clone :: "nat \<Rightarrow> ('d, 'e) logs_consumer \<Rightarrow> 'e list \<times> ('d, 'e) fan_state \<Rightarrow> 'e list \<times> ('d, 'e) fan_state" where
  "send_clone a c es =
     (case es of (errs, s) \<Rightarrow> case cloneLogs a s of (b, s1) \<Rightarrow> case deliver c b s1 of (e, s2) \<Rightarrow> (errs @ e, s2))"

definition send :: "nat \<Rightarrow> ('d, 'e) logs_consumer \<Rightarrow> 'e list \<times> ('d, 'e) fan_state \<Rightarrow> 'e list \<times> ('d, 'e) fan_state" where
  "send a c es = (case es of (errs, s) \<Rightarrow> case deliver c a s of (e, s2) \<Rightarrow> (errs @ e, s2))"

definition ConsumeLogs :: "('d, 'e) logsConsumer \<Rightarrow> nat \<Rightarrow> ('d, 'e) fan_state \<Rightarrow> 'e list \<times> ('d, 'e) fan_state" where
  "ConsumeLogs lsc a s =
     (let es1 = (if length (mutable lsc) > 0 then
            (let es = fold (send_clone a) (butlast (mutable lsc)) ([], s); lastConsumer = last (mutable lsc)
             in if length (readonly lsc) = 0 \<and> \<not> IsReadOnly a (snd es) then send a lastConsumer es
                else send_clone a lastConsumer es)
          else ([], s));
          es2 = (if length (readonly lsc) > 1 \<and> \<not> IsReadOnly a (snd es1) then (fst es1, MarkReadOnly a (snd es1)) else es1)
      in fold (send a) (readonly lsc) es2)"

definition fan_out :: "('d, 'e) logs_consumer list \<Rightarrow> nat \<Rightarrow> ('d, 'e) fan_state \<Rightarrow> 'e list \<times> ('d, 'e) fan_state" where
  "fan_out lcs a s =
     (case NewLogs lcs of None \<Rightarrow> send a (lcs ! 0) ([], s) | Some lsc \<Rightarrow> ConsumeLogs lsc a s)"

section \<open>Lemmas\<close>

text \<open>The calls that sending copies of \<open>d\<close> to \<open>cs\<close> makes when the store has \<open>n\<close> cells.\<close>

definition clone_calls :: "('d, 'e) logs_consumer list \<Rightarrow> nat \<Rightarrow> 'd \<Rightarrow> (('d, 'e) logs_consumer \<times> nat \<times> 'd) list" where
  "clone_calls cs n d = map (\<lambda>i. (cs ! i, n + i, d)) [0..<length cs]"

lemma clone_calls_Cons: "clone_calls (c # cs) n d = (c, n, d) # clone_calls cs (Suc n) d"
proof -
  have "[0..<length (c # cs)] = 0 # map Suc [0..<length cs]" by (simp add: map_Suc_upt upt_conv_Cons del: upt_Suc)
  then show ?thesis by (simp add: clone_calls_def comp_def del: upt_Suc)
qed

lemma send_clones:
  assumes "a < length (cells s)" "cells s ! a = (d, ro)"
  shows "\<exists>s'. fold (send_clone a) cs (errs, s) = (errs @ concat (map (\<lambda>c. answer c d) cs), s') \<and>
    calls s' = calls s @ clone_calls cs (length (cells s)) d \<and> fan_panic s' = fan_panic s \<and>
    a < length (cells s') \<and> cells s' ! a = (d, ro) \<and> length (cells s') = length (cells s) + length cs"
  using assms
proof (induction cs arbitrary: errs s)
  case Nil
  then show ?case by (simp add: clone_calls_def)
next
  case (Cons c cs)
  define s1 where "s1 = snd (send_clone a c (errs, s))"
  have one: "send_clone a c (errs, s) = (errs @ answer c d, s1)" "calls s1 = calls s @ [(c, length (cells s), d)]"
    "fan_panic s1 = fan_panic s" "a < length (cells s1)" "cells s1 ! a = (d, ro)" "length (cells s1) = Suc (length (cells s))"
    using Cons.prems by (auto simp: s1_def send_clone_def cloneLogs_def deliver_def Let_def nth_append)
  from Cons.IH [OF one(4,5), of "errs @ answer c d"] show ?case
    using one by (auto simp: clone_calls_Cons)
qed

lemma send_readonly:
  assumes "cells s ! a = (d, ro)" "\<forall>c \<in> set cs. \<not> MutatesData c"
  shows "fold (send a) cs (errs, s) =
    (errs @ concat (map (\<lambda>c. answer c d) cs), s\<lparr>calls := calls s @ map (\<lambda>c. (c, a, d)) cs\<rparr>)"
  using assms by (induction cs arbitrary: errs s) (simp_all add: send_def deliver_def)

text \<open>No cell that a mutating consumer got was given to another consumer.\<close>

definition mutating_cells :: "(('d, 'e) logs_consumer \<times> nat \<times> 'd) list \<Rightarrow> nat list" where
  "mutating_cells cs = map (\<lambda>(c, b, x). b) (filter (\<lambda>(c, b, x). MutatesData c) cs)"

definition reading_cells :: "(('d, 'e) logs_consumer \<times> nat \<times> 'd) list \<Rightarrow> nat list" where
  "reading_cells cs = map (\<lambda>(c, b, x). b) (filter (\<lambda>(c, b, x). \<not> MutatesData c) cs)"

definition isolated :: "(('d, 'e) logs_consumer \<times> nat \<times> 'd) list \<Rightarrow> bool" where
  "isolated cs \<longleftrightarrow> distinct (mutating_cells cs) \<and> set (mutating_cells cs) \<inter> set (reading_cells cs) = {}"

lemma clone_calls_mutating:
  assumes "\<forall>c \<in> set cs. MutatesData c"
  shows "mutating_cells (clone_calls cs n d) = [n..<n + length cs]" "reading_cells (clone_calls cs n d) = []"
    "map fst (clone_calls cs n d) = cs" "\<forall>(c, b, x) \<in> set (clone_calls cs n d). x = d"
  using assms
  by (induction cs arbitrary: n)
    (auto simp: clone_calls_Cons mutating_cells_def reading_cells_def upt_conv_Cons clone_calls_def [of "[]"]
      simp del: upt_Suc)

lemma reading_calls:
  assumes "\<forall>c \<in> set cs. \<not> MutatesData c"
  shows "mutating_cells (map (\<lambda>c. (c, a, d)) cs) = []" "set (reading_cells (map (\<lambda>c. (c, a, d)) cs)) \<subseteq> {a}"
  using assms by (induction cs) (auto simp: mutating_cells_def reading_cells_def)

lemma cells_append [simp]:
  "mutating_cells (xs @ ys) = mutating_cells xs @ mutating_cells ys"
  "reading_cells (xs @ ys) = reading_cells xs @ reading_cells ys"
  by (simp_all add: mutating_cells_def reading_cells_def)

text \<open>What \<^verbatim>\<open>ConsumeLogs\<close> calls, in its two cases.\<close>

lemma ConsumeLogs_exclusive:
  assumes cell: "a < length (cells s)" "cells s ! a = (d, False)" and m: "mutable lsc \<noteq> []" "readonly lsc = []"
    and mut: "\<forall>c \<in> set (mutable lsc). MutatesData c"
  shows "\<exists>s'. ConsumeLogs lsc a s = (concat (map (\<lambda>c. answer c d) (mutable lsc)), s') \<and> fan_panic s' = fan_panic s \<and>
    calls s' = calls s @ clone_calls (butlast (mutable lsc)) (length (cells s)) d @ [(last (mutable lsc), a, d)]"
proof -
  obtain s1 where s1: "fold (send_clone a) (butlast (mutable lsc)) ([], s) =
      (concat (map (\<lambda>c. answer c d) (butlast (mutable lsc))), s1)"
    "calls s1 = calls s @ clone_calls (butlast (mutable lsc)) (length (cells s)) d" "fan_panic s1 = fan_panic s"
    "cells s1 ! a = (d, False)"
    using send_clones [OF cell, of "butlast (mutable lsc)" "[]"] by auto
  have split: "concat (map (\<lambda>c. answer c d) (mutable lsc)) =
      concat (map (\<lambda>c. answer c d) (butlast (mutable lsc))) @ answer (last (mutable lsc)) d"
    using append_butlast_last_id [OF m(1)] by (metis (no_types, lifting) concat.simps concat_append list.simps(8,9) map_append append_Nil2)
  have "MutatesData (last (mutable lsc))" using mut m(1) by simp
  then show ?thesis
    using s1 m split by (simp add: ConsumeLogs_def Let_def IsReadOnly_def send_def deliver_def)
qed

lemma ConsumeLogs_shared:
  assumes cell: "a < length (cells s)" "cells s ! a = (d, ro)" and shared: "readonly lsc \<noteq> [] \<or> ro"
    and ro: "\<forall>c \<in> set (readonly lsc). \<not> MutatesData c"
  shows "\<exists>s'. ConsumeLogs lsc a s =
      (concat (map (\<lambda>c. answer c d) (mutable lsc)) @ concat (map (\<lambda>c. answer c d) (readonly lsc)), s') \<and>
    fan_panic s' = fan_panic s \<and>
    calls s' = calls s @ clone_calls (mutable lsc) (length (cells s)) d @ map (\<lambda>c. (c, a, d)) (readonly lsc)"
proof -
  let ?m = "mutable lsc" and ?r = "readonly lsc"
  obtain s1 where s1: "fold (send_clone a) ?m ([], s) = (concat (map (\<lambda>c. answer c d) ?m), s1)"
    "calls s1 = calls s @ clone_calls ?m (length (cells s)) d" "fan_panic s1 = fan_panic s"
    "a < length (cells s1)" "cells s1 ! a = (d, ro)"
    using send_clones [OF cell, of ?m "[]"] by auto
  have clones: "(if length ?m > 0 then
      (let es = fold (send_clone a) (butlast ?m) ([], s)
       in if length ?r = 0 \<and> \<not> IsReadOnly a (snd es) then send a (last ?m) es else send_clone a (last ?m) es)
      else ([], s)) = (concat (map (\<lambda>c. answer c d) ?m), s1)"
  proof (cases "?m = []")
    case True
    then show ?thesis using s1(1) by simp
  next
    case False
    obtain es where es: "fold (send_clone a) (butlast ?m) ([], s) = es" "cells (snd es) ! a = (d, ro)"
      using send_clones [OF cell, of "butlast ?m" "[]"] by auto
    have "fold (send_clone a) ?m ([], s) = send_clone a (last ?m) es"
      using es(1) arg_cong [OF append_butlast_last_id [OF False], of "\<lambda>xs. fold (send_clone a) xs ([], s)"] by simp
    then show ?thesis using False es s1(1) shared by (auto simp: Let_def IsReadOnly_def)
  qed
  define s2 where "s2 = (if length ?r > 1 \<and> \<not> IsReadOnly a s1 then MarkReadOnly a s1 else s1)"
  have s2: "calls s2 = calls s1" "fan_panic s2 = fan_panic s1" "\<exists>ro'. cells s2 ! a = (d, ro')"
    using s1(4,5) by (auto simp: s2_def MarkReadOnly_def)
  have "ConsumeLogs lsc a s = fold (send a) ?r (concat (map (\<lambda>c. answer c d) ?m), s2)"
    unfolding ConsumeLogs_def Let_def [of "last ?m"] using clones
    by (simp add: Let_def s2_def split: if_splits)
  then show ?thesis using s2 s1(2,3) send_readonly [OF _ ro] by fastforce
qed

text \<open>The result of sending \<open>d\<close> to \<open>lcs\<close>.\<close>

definition fan_ok ::
  "('d, 'e) logs_consumer list \<Rightarrow> 'd \<Rightarrow> ('d, 'e) fan_state \<Rightarrow> 'e list \<times> ('d, 'e) fan_state \<Rightarrow> bool" where
  "fan_ok lcs d s es \<longleftrightarrow> (case es of (errs, s') \<Rightarrow>
    mset (map fst (calls s')) = mset lcs \<and> (\<forall>(c, b, x) \<in> set (calls s'). x = d) \<and> isolated (calls s') \<and>
    fan_panic s' = fan_panic s \<and> mset errs = mset (concat (map (\<lambda>c. answer c d) lcs)))"

lemma fan_ok_perm:
  assumes "mset lcs = mset lcs'"
  shows "fan_ok lcs d s es = fan_ok lcs' d s es"
proof -
  have sum: "mset (concat (map (\<lambda>c. answer c d) xs)) = (\<Sum>c \<in># mset xs. mset (answer c d))" for xs
    by (induction xs) simp_all
  have "mset (concat (map (\<lambda>c. answer c d) lcs)) = mset (concat (map (\<lambda>c. answer c d) lcs'))"
    unfolding sum assms by (rule refl)
  then show ?thesis unfolding fan_ok_def assms by (simp only:)
qed

lemma exclusive_ok:
  assumes cell: "a < length (cells s)" "cells s ! a = (d, False)" "calls s = []" and m: "mutable lsc \<noteq> []" "readonly lsc = []"
    and mut: "\<forall>c \<in> set (mutable lsc). MutatesData c"
  shows "fan_ok (mutable lsc) d s (ConsumeLogs lsc a s)"
proof -
  obtain s' where s': "ConsumeLogs lsc a s = (concat (map (\<lambda>c. answer c d) (mutable lsc)), s')" "fan_panic s' = fan_panic s"
    "calls s' = clone_calls (butlast (mutable lsc)) (length (cells s)) d @ [(last (mutable lsc), a, d)]"
    using ConsumeLogs_exclusive [OF cell(1,2) m mut] cell(3) by auto
  have "\<forall>c \<in> set (butlast (mutable lsc)). MutatesData c" using mut by (auto dest: in_set_butlastD)
  note cl = clone_calls_mutating [OF this, of "length (cells s)" d]
  have last: "MutatesData (last (mutable lsc))" using mut m(1) by simp
  have "mutating_cells [(last (mutable lsc), a, d)] = [a]" "reading_cells [(last (mutable lsc), a, d)] = []"
    using last by (simp_all add: mutating_cells_def reading_cells_def)
  then have "isolated (calls s')" using cell(1) unfolding isolated_def s'(3) by (simp add: cl)
  moreover have "map fst (calls s') = mutable lsc" unfolding s'(3) using m(1) by (simp add: cl(3))
  moreover have "\<forall>(c, b, x) \<in> set (calls s'). x = d" unfolding s'(3) using cl(4) by auto
  ultimately show ?thesis unfolding fan_ok_def s'(1) prod.case using s'(2) by (simp only: concat_append map_append simp_thms)
qed

lemma shared_ok:
  assumes cell: "a < length (cells s)" "cells s ! a = (d, ro)" "calls s = []" and shared: "readonly lsc \<noteq> [] \<or> ro"
    and kinds: "\<forall>c \<in> set (mutable lsc). MutatesData c" "\<forall>c \<in> set (readonly lsc). \<not> MutatesData c"
  shows "fan_ok (mutable lsc @ readonly lsc) d s (ConsumeLogs lsc a s)"
proof -
  obtain s' where s': "ConsumeLogs lsc a s =
      (concat (map (\<lambda>c. answer c d) (mutable lsc)) @ concat (map (\<lambda>c. answer c d) (readonly lsc)), s')"
    "fan_panic s' = fan_panic s"
    "calls s' = clone_calls (mutable lsc) (length (cells s)) d @ map (\<lambda>c. (c, a, d)) (readonly lsc)"
    using ConsumeLogs_shared [OF cell(1,2) shared kinds(2)] cell(3) by auto
  note cl = clone_calls_mutating [OF kinds(1), of "length (cells s)" d]
  note rd = reading_calls [OF kinds(2), of a d]
  have "isolated (calls s')" using cell(1) rd unfolding isolated_def s'(3) by (auto simp: cl)
  moreover have "map fst (calls s') = mutable lsc @ readonly lsc" unfolding s'(3) by (simp add: cl(3) comp_def)
  moreover have "\<forall>(c, b, x) \<in> set (calls s'). x = d" unfolding s'(3) using cl(4) by auto
  ultimately show ?thesis unfolding fan_ok_def s'(1) prod.case using s'(2) by (simp only: concat_append map_append simp_thms)
qed

lemma unwrapped_ok:
  assumes "cells s ! a = (d, ro)" "calls s = []" "\<not> MutatesData c"
  shows "fan_ok [c] d s (send a c ([], s))"
  using assms by (auto simp: fan_ok_def send_def deliver_def isolated_def mutating_cells_def)

lemma nobody_ok: "calls s = [] \<Longrightarrow> mutable lsc = [] \<Longrightarrow> readonly lsc = [] \<Longrightarrow> fan_ok [] d s (ConsumeLogs lsc a s)"
  by (simp add: fan_ok_def ConsumeLogs_def isolated_def mutating_cells_def)

section \<open>Properties\<close>

text \<open>
  C8. Fanning out reaches every consumer exactly once with the original content and keeps them apart: whatever the
  consumers that mutate do to their data, every consumer finds the content that was sent; data given to a
  mutating consumer is given to nobody else and is never read-only, so nothing panics; and all errors are
  returned.
\<close>

theorem fan_out_isolates_consumers:
  assumes "a < length (cells s)" "cells s ! a = (d, ro)" "calls s = []"
  shows "case fan_out lcs a s of (errs, s') \<Rightarrow>
    mset (map fst (calls s')) = mset lcs \<and> (\<forall>(c, b, x) \<in> set (calls s'). x = d) \<and> isolated (calls s') \<and>
    fan_panic s' = fan_panic s \<and> mset errs = mset (concat (map (\<lambda>c. answer c d) lcs))"
proof -
  let ?m = "filter MutatesData lcs" and ?r = "filter (\<lambda>c. \<not> MutatesData c) lcs"
  have "fan_ok lcs d s (fan_out lcs a s)"
  proof (cases "NewLogs lcs")
    case None
    then obtain c where "lcs = [c]" "\<not> MutatesData c" by (auto simp: NewLogs_def length_Suc_conv split: if_splits)
    then show ?thesis using None unwrapped_ok [OF assms(2,3)] by (simp add: fan_out_def)
  next
    case (Some lsc)
    have lsc: "mutable lsc = ?m" "readonly lsc = ?r" using Some by (auto simp: NewLogs_def split: if_splits)
    have kinds: "\<forall>c \<in> set (mutable lsc). MutatesData c" "\<forall>c \<in> set (readonly lsc). \<not> MutatesData c"
      unfolding lsc by simp_all
    have perm: "mset (mutable lsc @ readonly lsc) = mset lcs" unfolding lsc by simp
    consider "mutable lsc = []" "readonly lsc = []" | "mutable lsc \<noteq> []" "readonly lsc = []" "\<not> ro" | "readonly lsc \<noteq> [] \<or> ro"
      by blast
    then have "fan_ok (mutable lsc @ readonly lsc) d s (ConsumeLogs lsc a s)"
    proof cases
      case 1
      then show ?thesis using nobody_ok [OF assms(3)] by simp
    next
      case 2
      then show ?thesis using exclusive_ok [OF assms(1) _ assms(3) 2(1,2) kinds(1), of d] assms(2) by simp
    next
      case 3
      then show ?thesis using shared_ok [OF assms _ kinds] by blast
    qed
    then show ?thesis using fan_ok_perm [OF perm] Some by (simp add: fan_out_def)
  qed
  then show ?thesis unfolding fan_ok_def .
qed

definition sample_mutator :: "(nat, string) logs_consumer" where
  "sample_mutator = \<lparr>MutatesData = True, change = (\<lambda>d. d + 1), answer = (\<lambda>d. [])\<rparr>"

definition sample_reader :: "(nat, string) logs_consumer" where
  "sample_reader = \<lparr>MutatesData = False, change = id, answer = (\<lambda>d. if d = 7 then [''full''] else [])\<rparr>"

definition sample_fan :: "(nat, string) fan_state" where
  "sample_fan = \<lparr>cells = [(7, False)], calls = [], fan_panic = False\<rparr>"

theorem fan_out_isolates_consumers_witness:
  "case fan_out [sample_mutator, sample_reader, sample_mutator] 0 sample_fan of (errs, s') \<Rightarrow>
    mset (map fst (calls s')) = mset [sample_mutator, sample_reader, sample_mutator] \<and> isolated (calls s') \<and>
    fan_panic s' = False \<and> mset errs = {#''full''#}"
  using fan_out_isolates_consumers [of 0 sample_fan 7 False "[sample_mutator, sample_reader, sample_mutator]"]
  by (auto simp: sample_fan_def sample_mutator_def sample_reader_def)

end
