(* ===== verification/PersistentQueue.thy ===== *)
theory PersistentQueue
  imports Requests Wire "HOL-Library.Multiset"
begin

text \<open>
  The persistent queue, \<^verbatim>\<open>exporterhelper/internal/queue/persistent_queue.go\<close>, over the storage interface of
  \<^verbatim>\<open>extension/xextension/storage\<close>, with the client of \<^verbatim>\<open>exporterhelper/internal/storagetest\<close> as the
  instance of that interface in the repository.

  A storage client is a record of its methods over a state \<open>'s\<close>, so a client may fail at any call. The
  encoding of requests and of the metadata message (a protobuf package) are further arguments, collected in
  \<open>pqEnv\<close>. A critical section under \<^verbatim>\<open>mu\<close> is one function from the queue and the storage to a result, the
  queue and the storage. A goroutine that waits for space or elements tries again at any time. Indexes are
  64-bit words; sizes are int64 and wrap.
\<close>

section \<open>Errors\<close>

text \<open>The error chains that \<^verbatim>\<open>experr.IsShutdownErr\<close> searches; a wrapping error may have several causes.\<close>

datatype 'x go_error = Plain 'x | shutdownErr "'x go_error" | Wrapping 'x "'x go_error list"

definition NewShutdownErr :: "'x go_error \<Rightarrow> 'x go_error" where
  "NewShutdownErr err = shutdownErr err"

fun is_shutdown :: "'x go_error \<Rightarrow> bool" where
  "is_shutdown (Plain x) = False"
| "is_shutdown (shutdownErr e) = True"
| "is_shutdown (Wrapping x es) = (\<exists>e \<in> set es. is_shutdown e)"

definition IsShutdownErr :: "'x go_error option \<Rightarrow> bool" where
  "IsShutdownErr err = (case err of None \<Rightarrow> False | Some e \<Rightarrow> is_shutdown e)"

datatype 'e pq_error =
    ErrQueueIsFull | ErrValueNotSet | ErrInvalidValue | ErrNoStorageClient | ErrWrongExtensionType
  | OfStorage 'e | OfProto 'e | OfEncoding 'e | FailedDeleting 'e | FailedUpdating 'e

section \<open>Storage clients\<close>

datatype OpType = Get | Set | Delete

record Operation =
  op_Key :: string
  op_Value :: "byte list option"
  op_Type :: OpType

definition SetOperation :: "string \<Rightarrow> byte list \<Rightarrow> Operation" where
  "SetOperation key v = \<lparr>op_Key = key, op_Value = Some v, op_Type = Set\<rparr>"

definition GetOperation :: "string \<Rightarrow> Operation" where
  "GetOperation key = \<lparr>op_Key = key, op_Value = None, op_Type = Get\<rparr>"

definition DeleteOperation :: "string \<Rightarrow> Operation" where
  "DeleteOperation key = \<lparr>op_Key = key, op_Value = None, op_Type = Delete\<rparr>"

lemmas operation_defs = SetOperation_def GetOperation_def DeleteOperation_def

record ('s, 'e) Client =
  Client_Get :: "string \<Rightarrow> 's \<Rightarrow> ('e, byte list option) result \<times> 's"
  Client_Set :: "string \<Rightarrow> byte list \<Rightarrow> 's \<Rightarrow> 'e option \<times> 's"
  Client_Delete :: "string \<Rightarrow> 's \<Rightarrow> 'e option \<times> 's"
  Client_Batch :: "Operation list \<Rightarrow> 's \<Rightarrow> ('e option \<times> Operation list) \<times> 's"
  Client_Close :: "'s \<Rightarrow> 'e option \<times> 's"

text \<open>The effect of a batch on a map, and the operations with the values that were read put in place.\<close>

type_synonym store = "string \<rightharpoonup> byte list"

definition exec_op :: "Operation \<Rightarrow> store \<Rightarrow> Operation \<times> store" where
  "exec_op op m =
     (case op_Type op of
        Get \<Rightarrow> (case m (op_Key op) of None \<Rightarrow> (op, m) | Some v \<Rightarrow> (op\<lparr>op_Value := Some v\<rparr>, m))
      | Set \<Rightarrow> (op, m(op_Key op := op_Value op))
      | Delete \<Rightarrow> (op, m(op_Key op := None)))"

fun exec_ops :: "Operation list \<Rightarrow> store \<Rightarrow> Operation list \<times> store" where
  "exec_ops [] m = ([], m)"
| "exec_ops (op # ops) m =
     (case exec_op op m of (op', m1) \<Rightarrow> case exec_ops ops m1 of (ops', m2) \<Rightarrow> (op' # ops', m2))"

text \<open>
  The client of \<^verbatim>\<open>mock_storage.go\<close>. The map is shared by all clients of the extension; a call on a closed
  client panics, which \<open>panicked\<close> records.
\<close>

record mockStorage =
  st :: store
  closed :: bool
  panicked :: bool

definition MockStorageClient_Batch :: "Operation list \<Rightarrow> mockStorage \<Rightarrow> ('e option \<times> Operation list) \<times> mockStorage" where
  "MockStorageClient_Batch ops m =
     (if closed m then ((None, ops), m\<lparr>panicked := True\<rparr>)
      else case exec_ops ops (st m) of (ops', st') \<Rightarrow> ((None, ops'), m\<lparr>st := st'\<rparr>))"

definition MockStorageClient_Get :: "string \<Rightarrow> mockStorage \<Rightarrow> ('e, byte list option) result \<times> mockStorage" where
  "MockStorageClient_Get s m =
     (case MockStorageClient_Batch [GetOperation s] m of
        ((Some e, _), m') \<Rightarrow> (Err e, m')
      | ((None, ops), m') \<Rightarrow> (Ok (op_Value (hd ops)), m'))"

definition MockStorageClient_Set :: "string \<Rightarrow> byte list \<Rightarrow> mockStorage \<Rightarrow> 'e option \<times> mockStorage" where
  "MockStorageClient_Set s bytes m =
     (case MockStorageClient_Batch [SetOperation s bytes] m of ((err, _), m') \<Rightarrow> (err, m'))"

definition MockStorageClient_Delete :: "string \<Rightarrow> mockStorage \<Rightarrow> 'e option \<times> mockStorage" where
  "MockStorageClient_Delete s m =
     (case MockStorageClient_Batch [DeleteOperation s] m of ((err, _), m') \<Rightarrow> (err, m'))"

definition MockStorageClient_Close :: "mockStorage \<Rightarrow> 'e option \<times> mockStorage" where
  "MockStorageClient_Close m = (None, m\<lparr>closed := True\<rparr>)"

definition MockStorageClient :: "(mockStorage, 'e) Client" where
  "MockStorageClient =
     \<lparr>Client_Get = MockStorageClient_Get, Client_Set = MockStorageClient_Set, Client_Delete = MockStorageClient_Delete,
      Client_Batch = MockStorageClient_Batch, Client_Close = MockStorageClient_Close\<rparr>"

definition mock_GetClient :: "'e option \<Rightarrow> mockStorage \<Rightarrow> ('e, mockStorage) result" where
  "mock_GetClient getClientError m =
     (case getClientError of Some e \<Rightarrow> Err e | None \<Rightarrow> Ok (m\<lparr>closed := False\<rparr>))"

section \<open>State\<close>

record PersistentMetadata =
  ItemsSize :: int
  BytesSize :: int
  ReadIndex :: u64
  WriteIndex :: u64
  CurrentlyDispatchedItems :: "u64 list"

definition zero_metadata :: PersistentMetadata where
  "zero_metadata = \<lparr>ItemsSize = 0, BytesSize = 0, ReadIndex = 0, WriteIndex = 0, CurrentlyDispatchedItems = []\<rparr>"

record ('c, 'r, 's, 'e) pqEnv =
  client :: "('s, 'e) Client"
  proto_Marshal :: "PersistentMetadata \<Rightarrow> ('e, byte list) result"
  proto_Unmarshal :: "byte list \<Rightarrow> ('e, PersistentMetadata) result"
  enc_Marshal :: "'c \<Rightarrow> 'r \<Rightarrow> ('e, byte list) result"
  enc_Unmarshal :: "byte list option \<Rightarrow> ('e, 'c \<times> 'r) result"
  itemsSizer :: "'r \<Rightarrow> int"
  bytesSizer :: "'r \<Rightarrow> int"

record persistentQueue =
  pq_capacity :: int
  pq_sizerType :: SizerType
  pq_blockOnOverflow :: bool
  has_client :: bool
  metadata :: PersistentMetadata
  refClient :: int
  pq_stopped :: bool

definition newPersistentQueue :: "int \<Rightarrow> SizerType \<Rightarrow> bool \<Rightarrow> persistentQueue" where
  "newPersistentQueue capacity szt block =
     \<lparr>pq_capacity = capacity, pq_sizerType = szt, pq_blockOnOverflow = block, has_client = False,
      metadata = zero_metadata, refClient = 0, pq_stopped = False\<rparr>"

definition activeSizer :: "('c, 'r, 's, 'e) pqEnv \<Rightarrow> SizerType \<Rightarrow> 'r \<Rightarrow> int" where
  "activeSizer E szt req =
     (if szt = SizerTypeBytes then bytesSizer E req else if szt = SizerTypeItems then itemsSizer E req else 1)"

definition requestSize :: "PersistentMetadata \<Rightarrow> int" where
  "requestSize md = wrap64 (sint (WriteIndex md - ReadIndex md) + int (length (CurrentlyDispatchedItems md)))"

definition internalSize :: "persistentQueue \<Rightarrow> int" where
  "internalSize pq =
     (if pq_sizerType pq = SizerTypeBytes then BytesSize (metadata pq)
      else if pq_sizerType pq = SizerTypeItems then ItemsSize (metadata pq)
      else requestSize (metadata pq))"

text \<open>\<^verbatim>\<open>strconv.FormatUint(index, 10)\<close>.\<close>

fun decimal :: "nat \<Rightarrow> string" where
  "decimal n = (if n < 10 then [char_of (48 + n)] else decimal (n div 10) @ [char_of (48 + n mod 10)])"

declare decimal.simps [simp del]

definition getItemKey :: "u64 \<Rightarrow> string" where
  "getItemKey index = decimal (unat index)"

definition metadataKey :: string where "metadataKey = ''qmv0''"
definition legacyReadIndexKey :: string where "legacyReadIndexKey = ''ri''"
definition legacyWriteIndexKey :: string where "legacyWriteIndexKey = ''wi''"
definition legacyCurrentlyDispatchedItemsKey :: string where "legacyCurrentlyDispatchedItemsKey = ''di''"

lemmas key_defs = metadataKey_def legacyReadIndexKey_def legacyWriteIndexKey_def legacyCurrentlyDispatchedItemsKey_def

section \<open>Writing\<close>

definition putInternal ::
  "('c, 'r, 's, 'e) pqEnv \<Rightarrow> 'c \<Rightarrow> 'r \<Rightarrow> persistentQueue \<Rightarrow> 's \<Rightarrow> 'e pq_error option \<times> persistentQueue \<times> 's" where
  "putInternal E ctx req pq s =
     (let md = (metadata pq)\<lparr>WriteIndex := WriteIndex (metadata pq) + 1\<rparr>;
          pq1 = pq\<lparr>metadata := md\<rparr>
      in case proto_Marshal E md of
           Inl e \<Rightarrow> (Some (OfProto e), pq1, s)
         | Inr metadataBuf \<Rightarrow>
             (case enc_Marshal E ctx req of
                Inl e \<Rightarrow> (Some (OfEncoding e), pq1, s)
              | Inr reqBuf \<Rightarrow>
                  (case Client_Batch (client E)
                     [SetOperation metadataKey metadataBuf, SetOperation (getItemKey (WriteIndex md - 1)) reqBuf] s of
                     ((Some e, _), s1) \<Rightarrow> (Some (OfStorage e), pq1, s1)
                   | ((None, _), s1) \<Rightarrow> (None, pq1, s1))))"

text \<open>One round of the loop in \<^verbatim>\<open>Offer\<close>.\<close>

datatype 'e pq_offer = WaitForSpace | OfferReturns "'e pq_error option"

definition pq_Offer ::
  "('c, 'r, 's, 'e) pqEnv \<Rightarrow> 'c \<Rightarrow> 'r \<Rightarrow> persistentQueue \<Rightarrow> 's \<Rightarrow> 'e pq_offer \<times> persistentQueue \<times> 's" where
  "pq_Offer E ctx req pq s =
     (if wrap64 (internalSize pq + activeSizer E (pq_sizerType pq) req) > pq_capacity pq then
        (if \<not> pq_blockOnOverflow pq then (OfferReturns (Some ErrQueueIsFull), pq, s) else (WaitForSpace, pq, s))
      else
        (let md = metadata pq;
             md1 = md\<lparr>ItemsSize := wrap64 (ItemsSize md + itemsSizer E req), BytesSize := wrap64 (BytesSize md + bytesSizer E req)\<rparr>
         in case putInternal E ctx req (pq\<lparr>metadata := md1\<rparr>) s of (err, pq', s') \<Rightarrow> (OfferReturns err, pq', s')))"

section \<open>Reading and finishing\<close>

definition remove_dispatched :: "u64 \<Rightarrow> u64 list \<Rightarrow> u64 list" where
  "remove_dispatched index xs =
     (let i = length (takeWhile (\<lambda>x. x \<noteq> index) xs)
      in if i < length xs then butlast (xs[i := last xs]) else xs)"

definition reset_drained :: "PersistentMetadata \<Rightarrow> PersistentMetadata" where
  "reset_drained md = (if requestSize md = 0 then md\<lparr>BytesSize := 0, ItemsSize := 0\<rparr> else md)"

definition itemDispatchingFinish ::
  "('c, 'r, 's, 'e) pqEnv \<Rightarrow> u64 \<Rightarrow> persistentQueue \<Rightarrow> 's \<Rightarrow> 'e pq_error option \<times> persistentQueue \<times> 's" where
  "itemDispatchingFinish E index pq s =
     (let md0 = metadata pq;
          md = reset_drained (md0\<lparr>CurrentlyDispatchedItems := remove_dispatched index (CurrentlyDispatchedItems md0)\<rparr>);
          pq1 = pq\<lparr>metadata := md\<rparr>
      in case proto_Marshal E md of
           Inl e \<Rightarrow> (Some (OfProto e), pq1, s)
         | Inr metadataBytes \<Rightarrow>
             let setOp = SetOperation metadataKey metadataBytes; deleteOp = DeleteOperation (getItemKey index)
             in case Client_Batch (client E) [setOp, deleteOp] s of
                  ((None, _), s1) \<Rightarrow> (None, pq1, s1)
                | ((Some _, _), s1) \<Rightarrow>
                    (case Client_Batch (client E) [deleteOp] s1 of
                       ((Some e, _), s2) \<Rightarrow> (Some (FailedDeleting e), pq1, s2)
                     | ((None, _), s2) \<Rightarrow>
                         (case Client_Batch (client E) [setOp] s2 of
                            ((Some e, _), s3) \<Rightarrow> (Some (FailedUpdating e), pq1, s3)
                          | ((None, _), s3) \<Rightarrow> (None, pq1, s3))))"

definition getNextItem ::
  "('c, 'r, 's, 'e) pqEnv \<Rightarrow> persistentQueue \<Rightarrow> 's \<Rightarrow> (u64 \<times> 'r \<times> 'c) option \<times> persistentQueue \<times> 's" where
  "getNextItem E pq s =
     (let md0 = metadata pq; index = ReadIndex md0;
          md = md0\<lparr>ReadIndex := index + 1, CurrentlyDispatchedItems := CurrentlyDispatchedItems md0 @ [index]\<rparr>;
          pq1 = pq\<lparr>metadata := md\<rparr>
      in case proto_Marshal E md of
           Inl _ \<Rightarrow> (None, pq1, s)
         | Inr metadataBytes \<Rightarrow>
             (case Client_Batch (client E) [SetOperation metadataKey metadataBytes, GetOperation (getItemKey index)] s of
                ((err, ops), s1) \<Rightarrow>
                  (case (case err of Some e \<Rightarrow> Err e | None \<Rightarrow> enc_Unmarshal E (op_Value (ops ! 1))) of
                     Inl _ \<Rightarrow> (case itemDispatchingFinish E index pq1 s1 of (_, pq2, s2) \<Rightarrow> (None, pq2, s2))
                   | Inr (restoredCtx, req) \<Rightarrow>
                       (Some (index, req, restoredCtx), pq1\<lparr>refClient := refClient pq1 + 1\<rparr>, s1))))"

record indexDone =
  id_index :: u64
  id_itemsSize :: int
  id_bytesSize :: int

datatype ('c, 'r) pq_read = Got 'c 'r indexDone | Closed | Blocked

lemma itemDispatchingFinish_queue:
  "itemDispatchingFinish E index pq s = (err, pq', s') \<Longrightarrow>
   pq' = pq\<lparr>metadata := reset_drained ((metadata pq)\<lparr>CurrentlyDispatchedItems :=
      remove_dispatched index (CurrentlyDispatchedItems (metadata pq))\<rparr>)\<rparr>"
  by (auto simp: itemDispatchingFinish_def Let_def split: sum.splits prod.splits option.splits)

lemma reset_drained_fields [simp]:
  "ReadIndex (reset_drained md) = ReadIndex md" "WriteIndex (reset_drained md) = WriteIndex md"
  "CurrentlyDispatchedItems (reset_drained md) = CurrentlyDispatchedItems md"
  by (simp_all add: reset_drained_def)

lemma getNextItem_indexes:
  assumes "getNextItem E pq s = (r, pq', s')"
  shows "ReadIndex (metadata pq') = ReadIndex (metadata pq) + 1 \<and> WriteIndex (metadata pq') = WriteIndex (metadata pq)"
  using assms
  by (auto simp: getNextItem_def Let_def split: sum.splits prod.splits option.splits dest!: itemDispatchingFinish_queue)

lemma unat_distance_step:
  fixes w r :: u64
  assumes "w \<noteq> r"
  shows "unat (w - (r + 1)) < unat (w - r)"
proof -
  have nz: "w - r \<noteq> 0" using assms by simp
  have "unat (w - r - 1) = unat (w - r) - 1" by (rule unat_minus_one [OF nz])
  moreover have "0 < unat (w - r)" using nz by (intro unat_gt_0 [THEN iffD2])
  ultimately have "unat (w - r - 1) < unat (w - r)" by linarith
  then show ?thesis by (simp only: diff_diff_eq)
qed

text \<open>
  One round of the inner loop of \<^verbatim>\<open>Read\<close>: the next item is taken, and the sizes are reset when that drained the
  queue. Without a request the round ends with \<^verbatim>\<open>hasMoreSpace.Signal()\<close>.
\<close>

definition Read_round ::
  "('c, 'r, 's, 'e) pqEnv \<Rightarrow> persistentQueue \<Rightarrow> 's \<Rightarrow> ('c \<times> 'r \<times> indexDone) option \<times> persistentQueue \<times> 's" where
  "Read_round E pq s =
     (case getNextItem E pq s of (consumed, pq1, s1) \<Rightarrow>
        (map_option (\<lambda>(index, req, reqCtx).
           (reqCtx, req, \<lparr>id_index = index, id_itemsSize = itemsSizer E req, id_bytesSize = bytesSizer E req\<rparr>)) consumed,
         pq1\<lparr>metadata := reset_drained (metadata pq1)\<rparr>, s1))"

lemma Read_round_indexes:
  assumes "Read_round E pq s = (r, pq', s')"
  shows "ReadIndex (metadata pq') = ReadIndex (metadata pq) + 1 \<and> WriteIndex (metadata pq') = WriteIndex (metadata pq)"
  using assms by (auto simp: Read_round_def split: prod.splits dest!: getNextItem_indexes)

text \<open>
  The inner loop, which does not look at \<^verbatim>\<open>stopped\<close>. Every round moves the read index, so it ends whatever the storage
  does. \<open>Blocked\<close> is the call of \<^verbatim>\<open>hasMoreElements.Wait\<close>, after which the outer loop starts again.
\<close>

function Read_loop ::
  "('c, 'r, 's, 'e) pqEnv \<Rightarrow> persistentQueue \<Rightarrow> 's \<Rightarrow> ('c, 'r) pq_read \<times> persistentQueue \<times> 's" where
  "Read_loop E pq s =
     (if ReadIndex (metadata pq) \<noteq> WriteIndex (metadata pq) then
        (case Read_round E pq s of
           (Some (reqCtx, req, d), pq1, s1) \<Rightarrow> (Got reqCtx req d, pq1, s1)
         | (None, pq1, s1) \<Rightarrow> Read_loop E pq1 s1)
      else (Blocked, pq, s))"
  by pat_completeness auto
termination
  by (relation "measure (\<lambda>(E, pq, s). unat (WriteIndex (metadata pq) - ReadIndex (metadata pq)))")
    (auto dest!: Read_round_indexes [OF sym] intro!: unat_distance_step)

declare Read_loop.simps [simp del]

text \<open>\<^verbatim>\<open>Read\<close> until it returns or waits, with the lock held throughout.\<close>

definition pq_Read ::
  "('c, 'r, 's, 'e) pqEnv \<Rightarrow> persistentQueue \<Rightarrow> 's \<Rightarrow> ('c, 'r) pq_read \<times> persistentQueue \<times> 's" where
  "pq_Read E pq s = (if pq_stopped pq then (Closed, pq, s) else Read_loop E pq s)"

definition unrefClient :: "('c, 'r, 's, 'e) pqEnv \<Rightarrow> persistentQueue \<Rightarrow> 's \<Rightarrow> 'e option \<times> persistentQueue \<times> 's" where
  "unrefClient E pq s =
     (let pq1 = pq\<lparr>refClient := refClient pq - 1\<rparr>
      in if refClient pq1 = 0 then (case Client_Close (client E) s of (err, s1) \<Rightarrow> (err, pq1, s1))
         else (None, pq1, s))"

text \<open>\<^verbatim>\<open>onDone\<close> up to the deferred \<^verbatim>\<open>unrefClient\<close>, and the whole of it.\<close>

definition onDone_body ::
  "('c, 'r, 's, 'e) pqEnv \<Rightarrow> indexDone \<Rightarrow> 'x go_error option \<Rightarrow> persistentQueue \<Rightarrow> 's \<Rightarrow> persistentQueue \<times> 's" where
  "onDone_body E d consumeErr pq s =
     (if IsShutdownErr consumeErr then (pq, s)
      else
        (let md = metadata pq;
             md1 = md\<lparr>BytesSize := max 0 (wrap64 (BytesSize md - id_bytesSize d)),
                       ItemsSize := max 0 (wrap64 (ItemsSize md - id_itemsSize d))\<rparr>
         in case itemDispatchingFinish E (id_index d) (pq\<lparr>metadata := md1\<rparr>) s of (_, pq1, s1) \<Rightarrow> (pq1, s1)))"

definition pq_onDone ::
  "('c, 'r, 's, 'e) pqEnv \<Rightarrow> indexDone \<Rightarrow> 'x go_error option \<Rightarrow> persistentQueue \<Rightarrow> 's \<Rightarrow> persistentQueue \<times> 's" where
  "pq_onDone E d consumeErr pq s =
     (case onDone_body E d consumeErr pq s of (pq1, s1) \<Rightarrow>
        case unrefClient E pq1 s1 of (_, pq2, s2) \<Rightarrow> (pq2, s2))"

definition pq_Shutdown :: "('c, 'r, 's, 'e) pqEnv \<Rightarrow> persistentQueue \<Rightarrow> 's \<Rightarrow> 'e option \<times> persistentQueue \<times> 's" where
  "pq_Shutdown E pq s =
     (if \<not> has_client pq then (None, pq, s) else unrefClient E (pq\<lparr>pq_stopped := True\<rparr>) s)"

section \<open>Starting\<close>

definition bytesToItemIndex :: "byte list option \<Rightarrow> ('e pq_error, u64) result" where
  "bytesToItemIndex buf =
     (case buf of
        None \<Rightarrow> Err ErrValueNotSet
      | Some b \<Rightarrow> if length b < 8 then Err ErrInvalidValue else Ok (of_nat (little_endian (take 8 b))))"

fun read_indexes :: "nat \<Rightarrow> byte list \<Rightarrow> u64 list" where
  "read_indexes 0 b = []"
| "read_indexes (Suc n) b = of_nat (little_endian (take 8 b)) # read_indexes n (drop 8 b)"

definition bytesToItemIndexArray :: "byte list option \<Rightarrow> ('e pq_error, u64 list) result" where
  "bytesToItemIndexArray buf =
     (case buf of
        None \<Rightarrow> Ok []
      | Some b \<Rightarrow>
          if length b = 0 then Ok []
          else if length b < 4 then Err ErrInvalidValue
          else let n = little_endian (take 4 b) in
               if n = 0 then Ok []
               else if length (drop 4 b) < n * 8 then Err ErrInvalidValue
               else Ok (read_indexes n (drop 4 b)))"

fun requeue :: "('c, 'r, 's, 'e) pqEnv \<Rightarrow> Operation list \<Rightarrow> persistentQueue \<Rightarrow> 's \<Rightarrow> persistentQueue \<times> 's" where
  "requeue E [] pq s = (pq, s)"
| "requeue E (op # ops) pq s =
     (case op_Value op of
        None \<Rightarrow> requeue E ops pq s
      | Some v \<Rightarrow>
          (case enc_Unmarshal E (Some v) of
             Inl _ \<Rightarrow> requeue E ops pq s
           | Inr (reqCtx, req) \<Rightarrow> (case putInternal E reqCtx req pq s of (_, pq1, s1) \<Rightarrow> requeue E ops pq1 s1)))"

definition retrieve_and_cleanup ::
  "('c, 'r, 's, 'e) pqEnv \<Rightarrow> u64 list \<Rightarrow> 's \<Rightarrow> ('e option \<times> Operation list) \<times> 's" where
  "retrieve_and_cleanup E dispatchedItems s =
     (case Client_Batch (client E) (map (\<lambda>it. GetOperation (getItemKey it)) dispatchedItems) s of
        (retrieved, s1) \<Rightarrow>
          (case Client_Batch (client E) (map (\<lambda>it. DeleteOperation (getItemKey it)) dispatchedItems) s1 of
             (_, s2) \<Rightarrow> (retrieved, s2)))"

definition enqueueNotDispatchedReqs ::
  "('c, 'r, 's, 'e) pqEnv \<Rightarrow> u64 list \<Rightarrow> persistentQueue \<Rightarrow> 's \<Rightarrow> persistentQueue \<times> 's" where
  "enqueueNotDispatchedReqs E dispatchedItems pq s =
     (if length dispatchedItems = 0 then (pq, s)
      else case retrieve_and_cleanup E dispatchedItems s of
        ((retrieveErr, retrieveBatch), s2) \<Rightarrow>
          if retrieveErr \<noteq> None then (pq, s2) else requeue E retrieveBatch pq s2)"

definition retrieveAndEnqueueNotDispatchedReqs ::
  "('c, 'r, 's, 'e) pqEnv \<Rightarrow> persistentQueue \<Rightarrow> 's \<Rightarrow> persistentQueue \<times> 's" where
  "retrieveAndEnqueueNotDispatchedReqs E pq s =
     (case Client_Get (client E) legacyCurrentlyDispatchedItemsKey s of
        (Inl _, s1) \<Rightarrow> (pq, s1)
      | (Inr itemKeysBuf, s1) \<Rightarrow>
          (case bytesToItemIndexArray itemKeysBuf :: ('e pq_error, u64 list) result of
             Inl _ \<Rightarrow> (pq, s1)
           | Inr dispatchedItems \<Rightarrow> enqueueNotDispatchedReqs E dispatchedItems pq s1))"

definition legacy_indexes ::
  "('c, 'r, 's, 'e) pqEnv \<Rightarrow> 's \<Rightarrow> ('e pq_error, u64 \<times> u64) result \<times> 's" where
  "legacy_indexes E s =
     (case Client_Batch (client E) [GetOperation legacyReadIndexKey, GetOperation legacyWriteIndexKey] s of
        ((Some e, _), s1) \<Rightarrow> (Err (OfStorage e), s1)
      | ((None, ops), s1) \<Rightarrow>
          (case bytesToItemIndex (op_Value (ops ! 0)) of
             Inl e \<Rightarrow> (Err e, s1)
           | Inr ri \<Rightarrow>
               (case bytesToItemIndex (op_Value (ops ! 1)) of Inl e \<Rightarrow> (Err e, s1) | Inr wi \<Rightarrow> (Ok (ri, wi), s1))))"

definition loadLegacyMetadata ::
  "('c, 'r, 's, 'e) pqEnv \<Rightarrow> persistentQueue \<Rightarrow> 's \<Rightarrow> persistentQueue \<times> 's" where
  "loadLegacyMetadata E pq s =
     (case legacy_indexes E s of
        (r, s1) \<Rightarrow>
          let (ri, wi) = (case r of Inl _ \<Rightarrow> (0, 0) | Inr p \<Rightarrow> p);
              pq1 = pq\<lparr>metadata := (metadata pq)\<lparr>ReadIndex := ri, WriteIndex := wi\<rparr>\<rparr>
          in case retrieveAndEnqueueNotDispatchedReqs E pq1 s1 of
               (pq2, s2) \<Rightarrow>
                 (case proto_Marshal E (metadata pq2) of
                    Inl _ \<Rightarrow> (pq2, s2)
                  | Inr metadataBytes \<Rightarrow>
                      (case Client_Set (client E) metadataKey metadataBytes s2 of
                         (Some _, s3) \<Rightarrow> (pq2, s3)
                       | (None, s3) \<Rightarrow>
                           (case Client_Batch (client E)
                              [DeleteOperation legacyReadIndexKey, DeleteOperation legacyWriteIndexKey,
                               DeleteOperation legacyCurrentlyDispatchedItemsKey] s3 of
                              (_, s4) \<Rightarrow> (pq2, s4)))))"

definition loadQueueMetadata ::
  "('c, 'r, 's, 'e) pqEnv \<Rightarrow> 's \<Rightarrow> ('e pq_error, PersistentMetadata) result \<times> 's" where
  "loadQueueMetadata E s =
     (case Client_Get (client E) metadataKey s of
        (Inl e, s1) \<Rightarrow> (Err (OfStorage e), s1)
      | (Inr None, s1) \<Rightarrow> (Err ErrValueNotSet, s1)
      | (Inr (Some buf), s1) \<Rightarrow>
          if length buf = 0 then (Err ErrValueNotSet, s1)
          else (case proto_Unmarshal E buf of Inl e \<Rightarrow> (Err (OfProto e), s1) | Inr md \<Rightarrow> (Ok md, s1)))"

definition initClient ::
  "('c, 'r, 's, 'e) pqEnv \<Rightarrow> persistentQueue \<Rightarrow> 's \<Rightarrow> persistentQueue \<times> 's" where
  "initClient E pq s =
     (let pq0 = pq\<lparr>has_client := True, refClient := 1\<rparr>
      in case loadQueueMetadata E s of
           (Inr md, s1) \<Rightarrow>
             (case enqueueNotDispatchedReqs E (CurrentlyDispatchedItems md) (pq0\<lparr>metadata := md\<rparr>) s1 of
                (pq1, s2) \<Rightarrow> (pq1\<lparr>metadata := (metadata pq1)\<lparr>CurrentlyDispatchedItems := []\<rparr>\<rparr>, s2))
         | (Inl e, s1) \<Rightarrow>
             if e \<noteq> ErrValueNotSet then (pq0\<lparr>metadata := zero_metadata\<rparr>, s1)
             else loadLegacyMetadata E pq0 s1)"

text \<open>An extension of the host: a storage extension, whose \<^verbatim>\<open>GetClient\<close> gives a client or fails, or another one.\<close>

datatype ('s, 'e) host_extension = StorageExtension "('e, 's) result" | OtherExtension

definition toStorageClient :: "('id \<rightharpoonup> ('s, 'e) host_extension) \<Rightarrow> 'id \<Rightarrow> ('e pq_error, 's) result" where
  "toStorageClient extensions storageID =
     (case extensions storageID of
        None \<Rightarrow> Err ErrNoStorageClient
      | Some OtherExtension \<Rightarrow> Err ErrWrongExtensionType
      | Some (StorageExtension (Inl e)) \<Rightarrow> Err (OfStorage e)
      | Some (StorageExtension (Inr s)) \<Rightarrow> Ok s)"

definition pq_Start ::
  "('c, 'r, 's, 'e) pqEnv \<Rightarrow> ('id \<rightharpoonup> ('s, 'e) host_extension) \<Rightarrow> 'id \<Rightarrow> persistentQueue \<Rightarrow>
     ('e pq_error, persistentQueue \<times> 's) result" where
  "pq_Start E extensions storageID pq =
     (case toStorageClient extensions storageID of Inl e \<Rightarrow> Err e | Inr s \<Rightarrow> Ok (initClient E pq s))"

section \<open>Keys and index ranges\<close>

fun read_decimal :: "nat \<Rightarrow> string \<Rightarrow> nat" where
  "read_decimal n [] = n"
| "read_decimal n (c # cs) = read_decimal (n * 10 + (of_char c - 48)) cs"

lemma read_decimal_append: "read_decimal n (xs @ [c]) = read_decimal n xs * 10 + (of_char c - 48)"
  by (induction xs arbitrary: n) simp_all

lemma read_decimal_decimal: "read_decimal 0 (decimal n) = n"
proof (induction n rule: decimal.induct)
  case (1 n)
  have digit: "of_char (char_of (48 + m) :: char) = (48 + m :: nat)" if "m < 10" for m
    using that by simp
  show ?case
  proof (cases "n < 10")
    case True
    then show ?thesis using digit [of n] by (simp add: decimal.simps [of n])
  next
    case False
    then have "decimal n = decimal (n div 10) @ [char_of (48 + n mod 10)]" by (simp add: decimal.simps [of n])
    then show ?thesis using 1 [OF False] digit [of "n mod 10"] by (simp add: read_decimal_append)
  qed
qed

lemma decimal_head: "\<exists>c cs. decimal n = c # cs \<and> (of_char c :: nat) < 58"
proof (induction n rule: decimal.induct)
  case (1 n)
  then show ?case by (cases "n < 10") (auto simp: decimal.simps [of n])
qed

lemma getItemKey_inject [simp]: "getItemKey i = getItemKey j \<longleftrightarrow> i = j"
  unfolding getItemKey_def by (metis read_decimal_decimal word_unat_eq_iff)

lemma getItemKey_head: "\<exists>c cs. getItemKey i = c # cs \<and> c \<notin> {CHR ''q'', CHR ''r'', CHR ''w'', CHR ''d''}"
proof -
  obtain c cs where c: "decimal (unat i) = c # cs" "(of_char c :: nat) < 58" using decimal_head by blast
  have "c \<notin> {CHR ''q'', CHR ''r'', CHR ''w'', CHR ''d''}" using c(2) by auto
  then show ?thesis using c(1) by (simp add: getItemKey_def)
qed

lemma getItemKey_reserved [simp]:
  "getItemKey i \<noteq> metadataKey" "getItemKey i \<noteq> legacyReadIndexKey" "getItemKey i \<noteq> legacyWriteIndexKey"
  "getItemKey i \<noteq> legacyCurrentlyDispatchedItemsKey"
  "metadataKey \<noteq> getItemKey i" "legacyReadIndexKey \<noteq> getItemKey i" "legacyWriteIndexKey \<noteq> getItemKey i"
  "legacyCurrentlyDispatchedItemsKey \<noteq> getItemKey i"
  using getItemKey_head [of i] by (auto simp: key_defs)

lemma reserved_keys [simp]:
  "legacyReadIndexKey \<noteq> metadataKey" "legacyWriteIndexKey \<noteq> metadataKey"
  "legacyCurrentlyDispatchedItemsKey \<noteq> metadataKey" "metadataKey \<noteq> legacyReadIndexKey"
  "metadataKey \<noteq> legacyWriteIndexKey" "metadataKey \<noteq> legacyCurrentlyDispatchedItemsKey"
  by (simp_all add: key_defs)

definition index_range :: "u64 \<Rightarrow> u64 \<Rightarrow> u64 list" where
  "index_range ri wi = map of_nat [unat ri ..< unat wi]"

lemma set_index_range [simp]: "i \<in> set (index_range ri wi) \<longleftrightarrow> ri \<le> i \<and> i < wi"
proof
  assume "i \<in> set (index_range ri wi)"
  then obtain n where n: "unat ri \<le> n" "n < unat wi" "i = of_nat n" by (auto simp: index_range_def)
  have "n < 2 ^ LENGTH(64)" using n(2) unsigned_less [of wi] by (rule less_trans)
  then have "unat i = n" unfolding n(3) by (simp add: unsigned_of_nat take_bit_nat_eq_self)
  then show "ri \<le> i \<and> i < wi" using n by (simp add: word_le_nat_alt word_less_nat_alt)
next
  assume "ri \<le> i \<and> i < wi"
  then have "unat i \<in> set [unat ri ..< unat wi]" by (simp add: word_le_nat_alt word_less_nat_alt)
  then have "of_nat (unat i) \<in> set (index_range ri wi)" unfolding index_range_def set_map by (rule imageI)
  then show "i \<in> set (index_range ri wi)" by simp
qed

lemma unat_Suc_index: "wi \<noteq> -1 \<Longrightarrow> unat (wi + 1 :: u64) = Suc (unat wi)"
  by (metis Suc_eq_plus1 add.commute add_eq_0_iff unatSuc)

lemma index_range_snoc: "ri \<le> wi \<Longrightarrow> wi \<noteq> -1 \<Longrightarrow> index_range ri (wi + 1) = index_range ri wi @ [wi]"
  by (simp add: index_range_def unat_Suc_index word_le_nat_alt)

lemma index_range_Cons:
  assumes "ri < wi"
  shows "index_range ri wi = ri # index_range (ri + 1) wi"
proof -
  have "ri \<noteq> -1" using assms by (metis word_n1_ge leD)
  then have "unat (ri + 1) = Suc (unat ri)" by (rule unat_Suc_index)
  then show ?thesis using assms by (simp add: index_range_def word_less_nat_alt upt_conv_Cons)
qed

lemma index_range_empty [simp]: "index_range ri ri = []"
  by (simp add: index_range_def)

end
