(* ===== verification/PersistentRecovery.thy ===== *)
theory PersistentRecovery
  imports PersistentQueue
begin

text \<open>
  What the persistent queue keeps in its storage. The locale \<open>storage_contract\<close> states the documented
  behaviour of a storage client that does not fail; the client of \<^verbatim>\<open>mock_storage.go\<close> is its instance. Over such
  a client every request that was accepted and not finished is in the storage after every operation, so that
  a queue that starts on this storage, after a shutdown or a crash, reads it again.
\<close>

section \<open>The contract of a storage client\<close>

locale storage_contract =
  fixes c :: "('s, 'e) Client" and data :: "'s \<Rightarrow> store" and isopen :: "'s \<Rightarrow> bool" and reopen :: "'s \<Rightarrow> 's"
  assumes Batch: "isopen s \<Longrightarrow> \<exists>s'. Client_Batch c ops s = ((None, fst (exec_ops ops (data s))), s') \<and>
      data s' = snd (exec_ops ops (data s)) \<and> isopen s'"
    and Get: "isopen s \<Longrightarrow> \<exists>s'. Client_Get c k s = (Ok (data s k), s') \<and> data s' = data s \<and> isopen s'"
    and Set: "isopen s \<Longrightarrow> \<exists>s'. Client_Set c k v s = (None, s') \<and> data s' = (data s)(k \<mapsto> v) \<and> isopen s'"
    and Close: "data (snd (Client_Close c s)) = data s"
    and Reopen: "isopen (reopen s)" "data (reopen s) = data s"

interpretation mock: storage_contract MockStorageClient st "\<lambda>m. \<not> closed m" "\<lambda>m. m\<lparr>closed := False\<rparr>"
  by unfold_locales
    (auto simp: MockStorageClient_def MockStorageClient_Batch_def MockStorageClient_Get_def MockStorageClient_Set_def
      MockStorageClient_Close_def operation_defs exec_op_def split: prod.splits option.splits)

text \<open>The encodings: what was marshalled is unmarshalled again, and no bytes are the empty message.\<close>

definition int64_metadata :: "PersistentMetadata \<Rightarrow> bool" where
  "int64_metadata md \<longleftrightarrow> wrap64 (ItemsSize md) = ItemsSize md \<and> wrap64 (BytesSize md) = BytesSize md"

definition codec_ok :: "('c, 'r, 's, 'e) pqEnv \<Rightarrow> bool" where
  "codec_ok E \<longleftrightarrow>
     (\<forall>md. int64_metadata md \<longrightarrow> (\<exists>b. proto_Marshal E md = Ok b \<and> proto_Unmarshal E b = Ok md)) \<and>
     proto_Unmarshal E [] = Ok zero_metadata \<and>
     (\<forall>ctx r. \<exists>b ctx'. enc_Marshal E ctx r = Ok b \<and> enc_Unmarshal E (Some b) = Ok (ctx', r))"

section \<open>What the storage holds\<close>

text \<open>The request that is stored for an index.\<close>

definition stored_item :: "('c, 'r, 's, 'e) pqEnv \<Rightarrow> store \<Rightarrow> u64 \<Rightarrow> 'r option" where
  "stored_item E d i =
     (case d (getItemKey i) of
        None \<Rightarrow> None
      | Some b \<Rightarrow> (case enc_Unmarshal E (Some b) of Inl _ \<Rightarrow> None | Inr (_, r) \<Rightarrow> Some r))"

definition readable :: "('c, 'r, 's, 'e) pqEnv \<Rightarrow> store \<Rightarrow> PersistentMetadata \<Rightarrow> 'r list" where
  "readable E d md = map (\<lambda>i. the (stored_item E d i)) (index_range (ReadIndex md) (WriteIndex md))"

text \<open>
  The metadata in the storage agree with the metadata \<open>md\<close> of the queue, except that the list of
  dispatched items may have further indexes, which are not stored any more.
\<close>

definition stored_metadata :: "('c, 'r, 's, 'e) pqEnv \<Rightarrow> store \<Rightarrow> PersistentMetadata \<Rightarrow> bool" where
  "stored_metadata E d md \<longleftrightarrow>
     (\<exists>b ms. d metadataKey = Some b \<and> proto_Unmarshal E b = Ok ms \<and> int64_metadata ms \<and>
        ReadIndex ms = ReadIndex md \<and> WriteIndex ms = WriteIndex md \<and>
        distinct (CurrentlyDispatchedItems ms) \<and> (\<forall>i \<in> set (CurrentlyDispatchedItems ms). i < ReadIndex md) \<and>
        set (CurrentlyDispatchedItems md) \<subseteq> set (CurrentlyDispatchedItems ms))"

definition in_use :: "PersistentMetadata \<Rightarrow> u64 \<Rightarrow> bool" where
  "in_use md i \<longleftrightarrow> i \<in> set (CurrentlyDispatchedItems md) \<or> (ReadIndex md \<le> i \<and> i < WriteIndex md)"

definition store_inv :: "('c, 'r, 's, 'e) pqEnv \<Rightarrow> store \<Rightarrow> PersistentMetadata \<Rightarrow> (u64 \<times> 'r) list \<Rightarrow> bool" where
  "store_inv E d md held \<longleftrightarrow>
     ReadIndex md \<le> WriteIndex md \<and> int64_metadata md \<and> stored_metadata E d md \<and>
     d legacyReadIndexKey = None \<and> d legacyWriteIndexKey = None \<and> d legacyCurrentlyDispatchedItemsKey = None \<and>
     distinct (CurrentlyDispatchedItems md) \<and> distinct (map fst held) \<and>
     set (CurrentlyDispatchedItems md) = fst ` set held \<and>
     (\<forall>i. d (getItemKey i) \<noteq> None \<longleftrightarrow> in_use md i) \<and> (\<forall>i. in_use md i \<longrightarrow> stored_item E d i \<noteq> None) \<and>
     (\<forall>(i, r) \<in> set held. stored_item E d i = Some r)"

lemma stored_item_upd [simp]:
  "stored_item E (d(metadataKey := v)) i = stored_item E d i"
  "stored_item E (d(getItemKey j := w)) i =
     (if i = j then (case w of None \<Rightarrow> None
        | Some b \<Rightarrow> (case enc_Unmarshal E (Some b) of Inl _ \<Rightarrow> None | Inr (_, r) \<Rightarrow> Some r))
      else stored_item E d i)"
  by (simp_all add: stored_item_def)

lemma store_invD:
  assumes "store_inv E d md held"
  shows "ReadIndex md \<le> WriteIndex md" "int64_metadata md" "stored_metadata E d md"
    "d legacyReadIndexKey = None" "d legacyWriteIndexKey = None" "d legacyCurrentlyDispatchedItemsKey = None"
    "distinct (CurrentlyDispatchedItems md)" "distinct (map fst held)"
    "set (CurrentlyDispatchedItems md) = fst ` set held"
    "\<And>i. d (getItemKey i) \<noteq> None \<longleftrightarrow> in_use md i" "\<And>i. in_use md i \<Longrightarrow> stored_item E d i \<noteq> None"
    "\<And>i r. (i, r) \<in> set held \<Longrightarrow> stored_item E d i = Some r"
  using assms unfolding store_inv_def by (simp_all only: split_beta Ball_def) auto

lemma CDI_below:
  "store_inv E d md held \<Longrightarrow> i \<in> set (CurrentlyDispatchedItems md) \<Longrightarrow> i < ReadIndex md"
  by (drule store_invD(3)) (unfold stored_metadata_def, blast)

lemma readable_cong:
  assumes "\<And>i. ReadIndex md \<le> i \<Longrightarrow> i < WriteIndex md \<Longrightarrow> stored_item E d i = stored_item E d' i"
    "ReadIndex md' = ReadIndex md" "WriteIndex md' = WriteIndex md"
  shows "readable E d md = readable E d' md'"
  using assms by (auto simp: readable_def)

lemma readable_dispatched [simp]: "readable E d (md\<lparr>CurrentlyDispatchedItems := is\<rparr>) = readable E d md"
  by (simp add: readable_def)

text \<open>A request is written behind the last one. \<open>ms\<close> is what is stored as metadata.\<close>

lemma store_inv_put:
  assumes inv: "store_inv E d md held" and top: "WriteIndex md \<noteq> -1"
    and ms: "proto_Unmarshal E mb = Ok ms" "int64_metadata ms" "ReadIndex ms = ReadIndex md"
      "WriteIndex ms = WriteIndex md + 1" "distinct (CurrentlyDispatchedItems ms)"
      "\<forall>i \<in> set (CurrentlyDispatchedItems ms). i < ReadIndex md"
      "set (CurrentlyDispatchedItems md) \<subseteq> set (CurrentlyDispatchedItems ms)"
    and rb: "enc_Unmarshal E (Some rb) = Ok (ctx, r)"
    and md': "ReadIndex md' = ReadIndex md" "WriteIndex md' = WriteIndex md + 1"
      "CurrentlyDispatchedItems md' = CurrentlyDispatchedItems md" "int64_metadata md'"
  shows "store_inv E (d(metadataKey \<mapsto> mb, getItemKey (WriteIndex md) \<mapsto> rb)) md' held"
    and "readable E (d(metadataKey \<mapsto> mb, getItemKey (WriteIndex md) \<mapsto> rb)) md' = readable E d md @ [r]"
proof -
  let ?d = "d(metadataKey \<mapsto> mb, getItemKey (WriteIndex md) \<mapsto> rb)"
  note D = store_invD [OF inv]
  note le = D(1)
  have range: "index_range (ReadIndex md) (WriteIndex md + 1) = index_range (ReadIndex md) (WriteIndex md) @ [WriteIndex md]"
    using le top by (rule index_range_snoc)
  have use: "in_use md' i \<longleftrightarrow> in_use md i \<or> i = WriteIndex md" for i
  proof -
    have "i \<in> set (index_range (ReadIndex md) (WriteIndex md + 1)) \<longleftrightarrow>
        i \<in> set (index_range (ReadIndex md) (WriteIndex md)) \<or> i = WriteIndex md"
      unfolding range by auto
    then show ?thesis by (auto simp: in_use_def md')
  qed
  have new: "\<not> in_use md (WriteIndex md)" using CDI_below [OF inv] le by (fastforce simp: in_use_def)
  have item: "stored_item E ?d i = (if i = WriteIndex md then Some r else stored_item E d i)" for i
    by (simp add: rb)
  have heldup: "stored_item E ?d i = Some x" if "(i, x) \<in> set held" for i x
  proof -
    have "i \<in> fst ` set held" using that by force
    then have "in_use md i" by (simp add: in_use_def D(9))
    then have "i \<noteq> WriteIndex md" using new by blast
    then show ?thesis using D(12) [OF that] unfolding item by simp
  qed
  have le': "ReadIndex md \<le> WriteIndex md + 1"
    using le top by (simp add: word_le_nat_alt unat_Suc_index)
  have stored: "stored_metadata E ?d md'"
    unfolding stored_metadata_def md' using ms by (intro exI [of _ mb] exI [of _ ms]) simp
  show "store_inv E ?d md' held"
    unfolding store_inv_def
  proof (intro conjI)
    show "\<forall>i. ?d (getItemKey i) \<noteq> None \<longleftrightarrow> in_use md' i" using D(10) unfolding use by simp
    show "\<forall>i. in_use md' i \<longrightarrow> stored_item E ?d i \<noteq> None" using D(11) unfolding item use by simp
    show "\<forall>(i, x) \<in> set held. stored_item E ?d i = Some x" using heldup by blast
    show "ReadIndex md' \<le> WriteIndex md'" using le' md' by simp
  qed (use D(4-9) md' stored in \<open>simp_all\<close>)
  show "readable E ?d md' = readable E d md @ [r]"
    unfolding readable_def md' range by (auto simp: item rb)
qed

text \<open>The next request is taken: its index becomes one of the dispatched items.\<close>

lemma store_inv_take:
  assumes inv: "store_inv E d md held" and some: "ReadIndex md \<noteq> WriteIndex md"
    and ms: "proto_Unmarshal E mb = Ok ms" "int64_metadata ms" "ReadIndex ms = ReadIndex md + 1"
      "WriteIndex ms = WriteIndex md" "CurrentlyDispatchedItems ms = CurrentlyDispatchedItems md @ [ReadIndex md]"
    and r: "stored_item E d (ReadIndex md) = Some r"
    and md': "ReadIndex md' = ReadIndex md + 1" "WriteIndex md' = WriteIndex md"
      "CurrentlyDispatchedItems md' = CurrentlyDispatchedItems md @ [ReadIndex md]" "int64_metadata md'"
    and held': "set held' = insert (ReadIndex md, r) (set held)" "distinct (map fst held')"
  shows "store_inv E (d(metadataKey \<mapsto> mb)) md' held'"
    and "readable E d md = r # readable E (d(metadataKey \<mapsto> mb)) md'"
proof -
  let ?d = "d(metadataKey \<mapsto> mb)"
  note D = store_invD [OF inv]
  have less: "ReadIndex md < WriteIndex md" using D(1) some by simp
  have "ReadIndex md \<noteq> -1" using less by (metis word_n1_ge leD)
  then have suc: "unat (ReadIndex md + 1) = Suc (unat (ReadIndex md))" by (rule unat_Suc_index)
  have mem: "i < ReadIndex md + 1" if "i \<in> set (CurrentlyDispatchedItems md @ [ReadIndex md])" for i
    using that CDI_below [OF inv, of i] suc by (auto simp: word_less_nat_alt)
  have fresh: "ReadIndex md \<notin> set (CurrentlyDispatchedItems md)" using CDI_below [OF inv] by blast
  have use: "in_use md' i \<longleftrightarrow> in_use md i" for i
    unfolding in_use_def md' using suc less by (auto simp: word_less_nat_alt word_le_nat_alt word_unat_eq_iff)
  have stored: "stored_metadata E ?d md'"
    unfolding stored_metadata_def md' using ms mem fresh D(7) by (intro exI [of _ mb] exI [of _ ms]) simp
  show "store_inv E ?d md' held'"
    unfolding store_inv_def
  proof (intro conjI)
    show "\<forall>i. ?d (getItemKey i) \<noteq> None \<longleftrightarrow> in_use md' i" using D(10) unfolding use by simp
    show "\<forall>i. in_use md' i \<longrightarrow> stored_item E ?d i \<noteq> None" using D(11) unfolding use by simp
    show "\<forall>(i, x) \<in> set held'. stored_item E ?d i = Some x" using D(12) r unfolding held' by auto
    show "ReadIndex md' \<le> WriteIndex md'" using less suc md' by (simp add: word_less_nat_alt word_le_nat_alt)
    show "set (CurrentlyDispatchedItems md') = fst ` set held'" unfolding held' md' using D(9) by simp
  qed (use D(4-8) md' stored fresh held'(2) in \<open>simp_all\<close>)
  show "readable E d md = r # readable E ?d md'"
    unfolding readable_def md' index_range_Cons [OF less] by (simp add: r)
qed

lemma mset_remove_dispatched: "mset (remove_dispatched i xs) = mset xs - {#i#}"
proof (cases "i \<in> set xs")
  case True
  then obtain ys zs where xs: "xs = ys @ i # zs" "i \<notin> set ys" using split_list_first by metis
  have all: "\<forall>y \<in> set ys. y \<noteq> i" using xs(2) by metis
  have "takeWhile (\<lambda>x. x \<noteq> i) xs = ys" unfolding xs(1) using all by (simp add: takeWhile_tail)
  then have "remove_dispatched i xs = butlast (ys @ last xs # zs)" by (simp add: remove_dispatched_def xs(1))
  moreover have "mset (butlast (ys @ last xs # zs)) = mset ys + mset zs"
  proof (cases zs rule: rev_cases)
    case (snoc ws w)
    then show ?thesis by (simp add: xs(1) butlast_append)
  qed (simp add: butlast_append)
  ultimately show ?thesis by (simp add: xs(1))
next
  case False
  then have "\<forall>x \<in> set xs. x \<noteq> i" by metis
  then have whole: "takeWhile (\<lambda>x. x \<noteq> i) xs = xs" by (simp only: takeWhile_eq_all_conv)
  show ?thesis using False unfolding remove_dispatched_def whole by simp
qed

lemma set_remove_dispatched: "distinct xs \<Longrightarrow> set (remove_dispatched i xs) = set xs - {i} \<and> distinct (remove_dispatched i xs)"
proof -
  assume "distinct xs"
  moreover have "mset (remove_dispatched i xs) = mset (remove1 i xs)" by (simp add: mset_remove_dispatched)
  ultimately show ?thesis
    by (metis distinct_remove1 mset_eq_imp_distinct_iff mset_eq_setD set_remove1_eq)
qed

text \<open>A request is finished: its index leaves the dispatched items and its bytes leave the storage.\<close>

lemma store_inv_finish:
  assumes inv: "store_inv E d md held" and h: "(i, r) \<in> set held"
    and ms: "proto_Unmarshal E mb = Ok ms" "int64_metadata ms" "ReadIndex ms = ReadIndex md"
      "WriteIndex ms = WriteIndex md" "CurrentlyDispatchedItems ms = remove_dispatched i (CurrentlyDispatchedItems md)"
    and held': "set held' = set held - {(i, r)}" "distinct (map fst held')"
  shows "store_inv E (d(metadataKey \<mapsto> mb, getItemKey i := None)) ms held'"
    and "readable E (d(metadataKey \<mapsto> mb, getItemKey i := None)) ms = readable E d md"
proof -
  let ?d = "d(metadataKey \<mapsto> mb, getItemKey i := None)"
  note D = store_invD [OF inv]
  have iin: "i \<in> set (CurrentlyDispatchedItems md)" using h D(9) by force
  have below: "i < ReadIndex md" by (rule CDI_below [OF inv iin])
  have rem: "set (CurrentlyDispatchedItems ms) = set (CurrentlyDispatchedItems md) - {i}" "distinct (CurrentlyDispatchedItems ms)"
    using set_remove_dispatched [OF D(7), of i] ms(5) by simp_all
  have use: "in_use ms j \<longleftrightarrow> in_use md j \<and> j \<noteq> i" for j
    using below by (auto simp: in_use_def rem ms(3,4))
  have uniq: "j = i \<Longrightarrow> x = r" if "(j, x) \<in> set held" for j x
    using that h D(8) by (metis eq_key_imp_eq_value)
  have kept: "stored_item E ?d j = Some x" if "(j, x) \<in> set held'" for j x
  proof -
    have mem: "(j, x) \<in> set held" "(j, x) \<noteq> (i, r)" using that held'(1) by auto
    then have "j \<noteq> i" using uniq by blast
    then show ?thesis using D(12) [OF mem(1)] by simp
  qed
  have fst': "fst ` set held' = fst ` set held - {i}"
    unfolding held' using uniq by force
  have stored: "stored_metadata E ?d ms"
    unfolding stored_metadata_def using ms rem CDI_below [OF inv] by (intro exI [of _ mb] exI [of _ ms]) auto
  show "store_inv E ?d ms held'"
    unfolding store_inv_def
  proof (intro conjI)
    show "\<forall>j. ?d (getItemKey j) \<noteq> None \<longleftrightarrow> in_use ms j" using D(10) unfolding use by auto
    show "\<forall>j. in_use ms j \<longrightarrow> stored_item E ?d j \<noteq> None" using D(11) unfolding use by simp
    show "\<forall>(j, x) \<in> set held'. stored_item E ?d j = Some x" using kept by blast
    show "set (CurrentlyDispatchedItems ms) = fst ` set held'" unfolding fst' rem D(9) ..
  qed (use D(1) D(4-6) ms rem stored held'(2) in \<open>simp_all\<close>)
  show "readable E ?d ms = readable E d md"
    using below by (intro readable_cong) (auto simp: ms)
qed

text \<open>The requests that were dispatched are read, deleted and written again.\<close>

lemma exec_gets:
  "exec_ops (map (\<lambda>i. GetOperation (getItemKey i)) is) d =
   (map (\<lambda>i. (GetOperation (getItemKey i))\<lparr>op_Value := d (getItemKey i)\<rparr>) is, d)"
  by (induction "is") (auto simp: exec_op_def GetOperation_def split: option.splits)

lemma exec_deletes:
  "snd (exec_ops (map (\<lambda>i. DeleteOperation (getItemKey i)) is) d) = (\<lambda>k. if k \<in> getItemKey ` set is then None else d k)"
proof (induction "is" arbitrary: d)
  case (Cons i "is")
  have "snd (exec_ops (map (\<lambda>i. DeleteOperation (getItemKey i)) (i # is)) d) =
      snd (exec_ops (map (\<lambda>i. DeleteOperation (getItemKey i)) is) (d(getItemKey i := None)))"
    by (simp add: exec_op_def DeleteOperation_def split: prod.split)
  then show ?case unfolding Cons.IH by (auto simp: fun_eq_iff)
qed simp

definition decoded :: "('c, 'r, 's, 'e) pqEnv \<Rightarrow> Operation list \<Rightarrow> 'r list" where
  "decoded E ops = List.map_filter (\<lambda>op. case op_Value op of None \<Rightarrow> None
     | Some v \<Rightarrow> (case enc_Unmarshal E (Some v) of Inl _ \<Rightarrow> None | Inr (_, r) \<Rightarrow> Some r)) ops"

lemma decoded_gets:
  "decoded E (map (\<lambda>i. (GetOperation (getItemKey i))\<lparr>op_Value := d (getItemKey i)\<rparr>) is) = List.map_filter (stored_item E d) is"
  by (induction "is") (auto simp: decoded_def map_filter_simps stored_item_def split: option.splits sum.splits)

lemma mset_dispatched:
  assumes inv: "store_inv E d md held" and "distinct is" and sub: "set (CurrentlyDispatchedItems md) \<subseteq> set is"
    and below: "\<forall>i \<in> set is. i < ReadIndex md"
  shows "mset (List.map_filter (stored_item E d) is) = mset (map snd held)"
proof -
  note D = store_invD [OF inv]
  have dom: "stored_item E d i \<noteq> None \<longleftrightarrow> i \<in> fst ` set held" if "i \<in> set is" for i
  proof
    assume "stored_item E d i \<noteq> None"
    then have "in_use md i" using D(10) [of i] by (auto simp: stored_item_def split: option.splits)
    then show "i \<in> fst ` set held" using below that D(9) by (auto simp: in_use_def)
  next
    assume "i \<in> fst ` set held"
    then show "stored_item E d i \<noteq> None" using D(9) D(11) [of i] by (simp add: in_use_def)
  qed
  have "List.map_filter (stored_item E d) is = map (\<lambda>i. the (stored_item E d i)) (filter (\<lambda>i. stored_item E d i \<noteq> None) is)"
    by (simp add: map_filter_def comp_def)
  moreover have "mset (filter (\<lambda>i. stored_item E d i \<noteq> None) is) = mset (map fst held)"
  proof (rule iffD1 [OF set_eq_iff_mset_eq_distinct])
    show "set (filter (\<lambda>i. stored_item E d i \<noteq> None) is) = set (map fst held)"
      using dom sub unfolding D(9) by auto
  qed (use assms(2) D(8) in simp_all)
  moreover have "map (\<lambda>i. the (stored_item E d i)) (map fst held) = map snd held"
    using D(12) by (auto simp: comp_def)
  ultimately show ?thesis by (metis mset_map)
qed

lemma store_inv_deleted:
  assumes inv: "store_inv E d md held" and sub: "set (CurrentlyDispatchedItems md) \<subseteq> set is"
    and below: "\<forall>i \<in> set is. i < ReadIndex md"
    and md': "ReadIndex md' = ReadIndex md" "WriteIndex md' = WriteIndex md" "CurrentlyDispatchedItems md' = []" "int64_metadata md'"
  shows "store_inv E (\<lambda>k. if k \<in> getItemKey ` set is then None else d k) md' []"
    and "readable E (\<lambda>k. if k \<in> getItemKey ` set is then None else d k) md' = readable E d md"
proof -
  let ?d = "\<lambda>k. if k \<in> getItemKey ` set is then None else d k"
  note D = store_invD [OF inv]
  have key: "getItemKey i \<in> getItemKey ` set is \<longleftrightarrow> i \<in> set is" for i by auto
  have reserved: "k \<notin> getItemKey ` set is"
    if "k \<in> {metadataKey, legacyReadIndexKey, legacyWriteIndexKey, legacyCurrentlyDispatchedItemsKey}" for k
    using that by auto
  have item: "stored_item E ?d i = (if i \<in> set is then None else stored_item E d i)" for i
    by (simp add: stored_item_def key)
  have use: "in_use md' i \<longleftrightarrow> in_use md i \<and> i \<notin> set is" for i
    using sub below by (auto simp: in_use_def md')
  have stored: "stored_metadata E ?d md'"
    using D(3) reserved [of metadataKey] unfolding stored_metadata_def md' by auto
  show "store_inv E ?d md' []"
    unfolding store_inv_def
  proof (intro conjI)
    show "\<forall>i. ?d (getItemKey i) \<noteq> None \<longleftrightarrow> in_use md' i" using D(10) unfolding use key by auto
    show "\<forall>i. in_use md' i \<longrightarrow> stored_item E ?d i \<noteq> None" using D(11) unfolding use item by simp
  qed (use D(1) D(4-6) md' stored reserved in \<open>simp_all\<close>)
  show "readable E ?d md' = readable E d md"
    using below by (intro readable_cong) (auto simp: item md')
qed

section \<open>The operations on a storage that does not fail\<close>

locale reliable_queue = storage_contract "client E" data isopen reopen
  for E :: "('c, 'r, 's, 'e) pqEnv" and data :: "'s \<Rightarrow> store" and isopen :: "'s \<Rightarrow> bool" and reopen :: "'s \<Rightarrow> 's" +
  assumes codec: "codec_ok E"
begin

lemma proto_Marshal_ok:
  assumes "int64_metadata md"
  obtains b where "proto_Marshal E md = Ok b" "proto_Unmarshal E b = Ok md"
  using codec assms unfolding codec_ok_def by blast

lemma enc_Marshal_ok:
  obtains b ctx' where "enc_Marshal E ctx r = Ok b" "enc_Unmarshal E (Some b) = Ok (ctx', r)"
  using codec unfolding codec_ok_def by blast

lemma Batch_ok:
  assumes "isopen s"
  obtains s' where "Client_Batch (client E) ops s = ((None, fst (exec_ops ops (data s))), s')"
    "data s' = snd (exec_ops ops (data s))" "isopen s'"
  using Batch [OF assms] by blast

lemma putInternal_ok:
  assumes "isopen s" and md: "int64_metadata (metadata pq)"
  obtains mb rb ctx' s' where
    "putInternal E ctx r pq s = (None, pq\<lparr>metadata := (metadata pq)\<lparr>WriteIndex := WriteIndex (metadata pq) + 1\<rparr>\<rparr>, s')"
    "proto_Unmarshal E mb = Ok ((metadata pq)\<lparr>WriteIndex := WriteIndex (metadata pq) + 1\<rparr>)"
    "enc_Unmarshal E (Some rb) = Ok (ctx', r)" "isopen s'"
    "data s' = (data s)(metadataKey \<mapsto> mb, getItemKey (WriteIndex (metadata pq)) \<mapsto> rb)"
proof -
  let ?md = "(metadata pq)\<lparr>WriteIndex := WriteIndex (metadata pq) + 1\<rparr>"
  have "int64_metadata ?md" using md by (simp add: int64_metadata_def)
  then obtain mb where mb: "proto_Marshal E ?md = Ok mb" "proto_Unmarshal E mb = Ok ?md" by (rule proto_Marshal_ok)
  obtain rb ctx' where rb: "enc_Marshal E ctx r = Ok rb" "enc_Unmarshal E (Some rb) = Ok (ctx', r)"
    by (rule enc_Marshal_ok)
  let ?ops = "[SetOperation metadataKey mb, SetOperation (getItemKey (WriteIndex ?md - 1)) rb]"
  obtain s' where s': "Client_Batch (client E) ?ops s = ((None, fst (exec_ops ?ops (data s))), s')"
      "data s' = snd (exec_ops ?ops (data s))" "isopen s'"
    by (rule Batch_ok [OF assms(1)])
  have "putInternal E ctx r pq s = (None, pq\<lparr>metadata := ?md\<rparr>, s')"
    unfolding putInternal_def Let_def mb(1) rb(1) sum.case s'(1) prod.case option.case ..
  moreover have "data s' = (data s)(metadataKey \<mapsto> mb, getItemKey (WriteIndex (metadata pq)) \<mapsto> rb)"
    unfolding s'(2) by (simp add: operation_defs exec_op_def)
  ultimately show ?thesis using that mb(2) rb(2) s'(3) by blast
qed

lemma itemDispatchingFinish_ok:
  fixes i :: u64
  assumes "isopen s" and md: "int64_metadata (metadata pq)"
  defines "md' \<equiv> reset_drained ((metadata pq)\<lparr>CurrentlyDispatchedItems := remove_dispatched i (CurrentlyDispatchedItems (metadata pq))\<rparr>)"
  obtains mb s' where
    "itemDispatchingFinish E i pq s = (None, pq\<lparr>metadata := md'\<rparr>, s')" "proto_Unmarshal E mb = Ok md'" "int64_metadata md'"
    "isopen s'" "data s' = (data s)(metadataKey \<mapsto> mb, getItemKey i := None)"
proof -
  have ok: "int64_metadata md'" using md by (simp add: md'_def int64_metadata_def reset_drained_def wrap64_def)
  then obtain mb where mb: "proto_Marshal E md' = Ok mb" "proto_Unmarshal E mb = Ok md'" by (rule proto_Marshal_ok)
  let ?ops = "[SetOperation metadataKey mb, DeleteOperation (getItemKey i)]"
  obtain s' where s': "Client_Batch (client E) ?ops s = ((None, fst (exec_ops ?ops (data s))), s')"
      "data s' = snd (exec_ops ?ops (data s))" "isopen s'"
    by (rule Batch_ok [OF assms(1)])
  have "itemDispatchingFinish E i pq s = (None, pq\<lparr>metadata := md'\<rparr>, s')"
    unfolding itemDispatchingFinish_def Let_def md'_def [symmetric] mb(1) sum.case s'(1) prod.case option.case ..
  moreover have "data s' = (data s)(metadataKey \<mapsto> mb, getItemKey i := None)"
    unfolding s'(2) by (simp add: operation_defs exec_op_def)
  ultimately show ?thesis using that mb(2) ok s'(3) by blast
qed

lemma getNextItem_ok:
  assumes "isopen s" and md: "int64_metadata (metadata pq)"
    and item: "stored_item E (data s) (ReadIndex (metadata pq)) = Some r"
  defines "md' \<equiv> (metadata pq)\<lparr>ReadIndex := ReadIndex (metadata pq) + 1,
      CurrentlyDispatchedItems := CurrentlyDispatchedItems (metadata pq) @ [ReadIndex (metadata pq)]\<rparr>"
  obtains ctx mb s' where
    "getNextItem E pq s = (Some (ReadIndex (metadata pq), r, ctx), pq\<lparr>metadata := md', refClient := refClient pq + 1\<rparr>, s')"
    "proto_Unmarshal E mb = Ok md'" "int64_metadata md'" "isopen s'" "data s' = (data s)(metadataKey \<mapsto> mb)"
proof -
  have ok: "int64_metadata md'" using md by (simp add: md'_def int64_metadata_def)
  then obtain mb where mb: "proto_Marshal E md' = Ok mb" "proto_Unmarshal E mb = Ok md'" by (rule proto_Marshal_ok)
  let ?i = "ReadIndex (metadata pq)"
  let ?ops = "[SetOperation metadataKey mb, GetOperation (getItemKey ?i)]"
  obtain s' where s': "Client_Batch (client E) ?ops s = ((None, fst (exec_ops ?ops (data s))), s')"
      "data s' = snd (exec_ops ?ops (data s))" "isopen s'"
    by (rule Batch_ok [OF assms(1)])
  obtain b ctx where b: "data s (getItemKey ?i) = Some b" "enc_Unmarshal E (Some b) = Ok (ctx, r)"
    using item by (auto simp: stored_item_def split: option.splits sum.splits)
  have val: "op_Value (fst (exec_ops ?ops (data s)) ! 1) = Some b"
    by (simp add: operation_defs exec_op_def b(1))
  have "getNextItem E pq s = (Some (?i, r, ctx), pq\<lparr>metadata := md', refClient := refClient pq + 1\<rparr>, s')"
    unfolding getNextItem_def Let_def md'_def [symmetric] mb(1) sum.case s'(1) prod.case option.case val b(2)
    by simp
  moreover have "data s' = (data s)(metadataKey \<mapsto> mb)"
    unfolding s'(2) by (simp add: operation_defs exec_op_def b(1))
  ultimately show ?thesis using that mb(2) ok s'(3) by blast
qed

lemma put_ok:
  fixes K :: "u64 list"
  assumes "isopen s" and inv: "store_inv E (data s) ((metadata pq)\<lparr>CurrentlyDispatchedItems := K\<rparr>) held"
    and top: "WriteIndex (metadata pq) \<noteq> -1"
    and L: "distinct (CurrentlyDispatchedItems (metadata pq))" "\<forall>i \<in> set (CurrentlyDispatchedItems (metadata pq)). i < ReadIndex (metadata pq)"
      "set K \<subseteq> set (CurrentlyDispatchedItems (metadata pq))"
  defines "md' \<equiv> (metadata pq)\<lparr>WriteIndex := WriteIndex (metadata pq) + 1\<rparr>"
  obtains s' where "putInternal E ctx r pq s = (None, pq\<lparr>metadata := md'\<rparr>, s')" "isopen s'"
    "store_inv E (data s') (md'\<lparr>CurrentlyDispatchedItems := K\<rparr>) held"
    "readable E (data s') md' = readable E (data s) (metadata pq) @ [r]"
proof -
  have ok: "int64_metadata (metadata pq)" using store_invD(2) [OF inv] by (simp add: int64_metadata_def)
  then have ok': "int64_metadata md'" by (simp add: md'_def int64_metadata_def)
  obtain mb rb ctx' s' where put: "putInternal E ctx r pq s = (None, pq\<lparr>metadata := md'\<rparr>, s')"
      "proto_Unmarshal E mb = Ok md'" "enc_Unmarshal E (Some rb) = Ok (ctx', r)" "isopen s'"
      "data s' = (data s)(metadataKey \<mapsto> mb, getItemKey (WriteIndex (metadata pq)) \<mapsto> rb)"
    unfolding md'_def by (rule putInternal_ok [OF assms(1) ok])
  have w: "WriteIndex ((metadata pq)\<lparr>CurrentlyDispatchedItems := K\<rparr>) = WriteIndex (metadata pq)" by simp
  note P = store_inv_put [OF inv, unfolded w, OF top put(2) ok' _ _ _ _ _ put(3), where md' = "md'\<lparr>CurrentlyDispatchedItems := K\<rparr>"]
  have "store_inv E (data s') (md'\<lparr>CurrentlyDispatchedItems := K\<rparr>) held"
    unfolding put(5) by (rule P(1)) (use L ok' in \<open>simp_all add: int64_metadata_def md'_def\<close>)
  moreover have "readable E (data s') (md'\<lparr>CurrentlyDispatchedItems := K\<rparr>) =
      readable E (data s) ((metadata pq)\<lparr>CurrentlyDispatchedItems := K\<rparr>) @ [r]"
    unfolding put(5) by (rule P(2)) (use L ok' in \<open>simp_all add: int64_metadata_def md'_def\<close>)
  ultimately show ?thesis using that put(1,4) by simp
qed

lemma requeue_ok:
  assumes "isopen s" "store_inv E (data s) ((metadata pq)\<lparr>CurrentlyDispatchedItems := []\<rparr>) []"
    "unat (WriteIndex (metadata pq)) + length (decoded E ops) < 2 ^ 64"
    "distinct (CurrentlyDispatchedItems (metadata pq))" "\<forall>i \<in> set (CurrentlyDispatchedItems (metadata pq)). i < ReadIndex (metadata pq)"
  shows "\<exists>md' s'. requeue E ops pq s = (pq\<lparr>metadata := md'\<rparr>, s') \<and> isopen s' \<and>
     store_inv E (data s') (md'\<lparr>CurrentlyDispatchedItems := []\<rparr>) [] \<and>
     readable E (data s') md' = readable E (data s) (metadata pq) @ decoded E ops"
  using assms
proof (induction ops arbitrary: pq s)
  case Nil
  then show ?case by (intro exI [of _ "metadata pq"] exI [of _ s]) (simp add: decoded_def map_filter_simps)
next
  case (Cons op ops)
  show ?case
  proof (cases "\<exists>v ctx r. op_Value op = Some v \<and> enc_Unmarshal E (Some v) = Ok (ctx, r)")
    case False
    then have "requeue E (op # ops) pq s = requeue E ops pq s" "decoded E (op # ops) = decoded E ops"
      by (auto simp: decoded_def map_filter_simps split: option.splits sum.splits)
    then show ?thesis using Cons by simp
  next
    case True
    then obtain v ctx r where op: "op_Value op = Some v" "enc_Unmarshal E (Some v) = Ok (ctx, r)" by blast
    then have dec: "decoded E (op # ops) = r # decoded E ops" by (simp add: decoded_def map_filter_simps)
    let ?md' = "(metadata pq)\<lparr>WriteIndex := WriteIndex (metadata pq) + 1\<rparr>"
    have top: "WriteIndex (metadata pq) \<noteq> -1"
    proof
      assume "WriteIndex (metadata pq) = -1"
      then have "unat (WriteIndex (metadata pq)) = 2 ^ 64 - 1" by (simp add: unsigned_minus_1_eq_mask mask_eq_exp_minus_1)
      then show False using Cons.prems(3) unfolding dec by simp
    qed
    obtain s1 where put: "putInternal E ctx r pq s = (None, pq\<lparr>metadata := ?md'\<rparr>, s1)" "isopen s1"
        "store_inv E (data s1) (?md'\<lparr>CurrentlyDispatchedItems := []\<rparr>) []"
        "readable E (data s1) ?md' = readable E (data s) (metadata pq) @ [r]"
      by (rule put_ok [OF Cons.prems(1,2) top Cons.prems(4,5)]) simp
    have "\<exists>md2 s2. requeue E ops (pq\<lparr>metadata := ?md'\<rparr>) s1 = ((pq\<lparr>metadata := ?md'\<rparr>)\<lparr>metadata := md2\<rparr>, s2) \<and> isopen s2 \<and>
       store_inv E (data s2) (md2\<lparr>CurrentlyDispatchedItems := []\<rparr>) [] \<and>
       readable E (data s2) md2 = readable E (data s1) (metadata (pq\<lparr>metadata := ?md'\<rparr>)) @ decoded E ops"
      using Cons.prems(3-5) put(2,3) unfolding dec
      by (intro Cons.IH) (simp_all add: unat_Suc_index [OF top])
    moreover have "requeue E (op # ops) pq s = requeue E ops (pq\<lparr>metadata := ?md'\<rparr>) s1" using op put(1) by simp
    ultimately show ?thesis unfolding dec using put(4) by auto
  qed
qed

lemma enqueue_ok:
  assumes "isopen s" and inv: "store_inv E (data s) md held" and room: "unat (WriteIndex md) + length held < 2 ^ 64"
    and ix: "ReadIndex (metadata pq) = ReadIndex md" "WriteIndex (metadata pq) = WriteIndex md" "int64_metadata (metadata pq)"
    and L: "distinct (CurrentlyDispatchedItems (metadata pq))" "\<forall>i \<in> set (CurrentlyDispatchedItems (metadata pq)). i < ReadIndex md"
      "set (CurrentlyDispatchedItems md) \<subseteq> set (CurrentlyDispatchedItems (metadata pq))"
  shows "\<exists>md' s'. enqueueNotDispatchedReqs E (CurrentlyDispatchedItems (metadata pq)) pq s = (pq\<lparr>metadata := md'\<rparr>, s') \<and>
     isopen s' \<and> store_inv E (data s') (md'\<lparr>CurrentlyDispatchedItems := []\<rparr>) [] \<and>
     readable E (data s') md' = readable E (data s) md @ List.map_filter (stored_item E (data s)) (CurrentlyDispatchedItems (metadata pq))"
proof -
  let ?is = "CurrentlyDispatchedItems (metadata pq)" and ?md0 = "(metadata pq)\<lparr>CurrentlyDispatchedItems := []\<rparr>"
  let ?gets = "map (\<lambda>i. GetOperation (getItemKey i)) ?is" and ?dels = "map (\<lambda>i. DeleteOperation (getItemKey i)) ?is"
  let ?ops = "map (\<lambda>i. (GetOperation (getItemKey i))\<lparr>op_Value := data s (getItemKey i)\<rparr>) ?is"
  have md0: "ReadIndex ?md0 = ReadIndex md" "WriteIndex ?md0 = WriteIndex md" "CurrentlyDispatchedItems ?md0 = []" "int64_metadata ?md0"
    using ix by (simp_all add: int64_metadata_def)
  note del = store_inv_deleted [OF inv L(3,2) md0]
  have count: "mset (List.map_filter (stored_item E (data s)) ?is) = mset (map snd held)"
    by (rule mset_dispatched [OF inv L(1,3,2)])
  have len: "length (decoded E ?ops) = length held"
    using arg_cong [OF count, of size] by (simp add: decoded_gets)
  obtain s1 where s1: "Client_Batch (client E) ?gets s = ((None, ?ops), s1)" "data s1 = data s" "isopen s1"
    using Batch_ok [OF assms(1), of ?gets] by (auto simp: exec_gets)
  obtain s2 where s2: "Client_Batch (client E) ?dels s1 = ((None, fst (exec_ops ?dels (data s))), s2)" "isopen s2"
      "data s2 = (\<lambda>k. if k \<in> getItemKey ` set ?is then None else data s k)"
    using Batch_ok [OF s1(3), of ?dels] unfolding s1(2) exec_deletes by blast
  have step: "enqueueNotDispatchedReqs E ?is pq s = requeue E (if ?is = [] then [] else ?ops) pq (if ?is = [] then s else s2)"
    by (simp add: enqueueNotDispatchedReqs_def retrieve_and_cleanup_def s1(1) s2(1))
  show ?thesis
  proof (cases "?is = []")
    case True
    then have "?md0 = metadata pq" "data s = (\<lambda>k. if k \<in> getItemKey ` set ?is then None else data s k)" by simp_all
    then show ?thesis
      using assms(1) del True unfolding step by (intro exI [of _ "metadata pq"] exI [of _ s]) (simp add: map_filter_simps)
  next
    case False
    have "\<exists>md' s'. requeue E ?ops pq s2 = (pq\<lparr>metadata := md'\<rparr>, s') \<and> isopen s' \<and>
        store_inv E (data s') (md'\<lparr>CurrentlyDispatchedItems := []\<rparr>) [] \<and>
        readable E (data s') md' = readable E (data s2) (metadata pq) @ decoded E ?ops"
      using s2(2) del(1) room len ix L(1,2) unfolding s2(3) [symmetric] by (intro requeue_ok) simp_all
    then show ?thesis using False del(2) unfolding step s2(3) by (simp add: decoded_gets)
  qed
qed

lemma loadLegacyMetadata_fresh:
  assumes "isopen s" "data s legacyReadIndexKey = None" "data s legacyWriteIndexKey = None"
    "data s legacyCurrentlyDispatchedItemsKey = None" "\<And>i. data s (getItemKey i) = None" "metadata pq = zero_metadata"
  shows "\<exists>s'. loadLegacyMetadata E pq s = (pq, s') \<and> isopen s' \<and> store_inv E (data s') zero_metadata []"
proof -
  let ?gets = "[GetOperation legacyReadIndexKey, GetOperation legacyWriteIndexKey]"
  let ?dels = "[DeleteOperation legacyReadIndexKey, DeleteOperation legacyWriteIndexKey,
      DeleteOperation legacyCurrentlyDispatchedItemsKey]"
  obtain s1 where s1: "Client_Batch (client E) ?gets s = ((None, fst (exec_ops ?gets (data s))), s1)"
      "data s1 = data s" "isopen s1"
    using Batch_ok [OF assms(1), of ?gets] assms(2,3) by (auto simp: exec_op_def operation_defs)
  have legacy: "legacy_indexes E s = (Err ErrValueNotSet, s1)"
    unfolding legacy_indexes_def s1(1) using assms(2,3) by (simp add: exec_op_def operation_defs bytesToItemIndex_def)
  obtain s2 where s2: "Client_Get (client E) legacyCurrentlyDispatchedItemsKey s1 = (Ok None, s2)" "data s2 = data s" "isopen s2"
    using Get [OF s1(3)] s1(2) assms(4) by metis
  have pq: "pq\<lparr>metadata := zero_metadata\<lparr>ReadIndex := 0, WriteIndex := 0\<rparr>\<rparr> = pq"
    using assms(6) by (simp add: zero_metadata_def)
  have enq: "retrieveAndEnqueueNotDispatchedReqs E pq s1 = (pq, s2)"
    unfolding retrieveAndEnqueueNotDispatchedReqs_def s2(1)
    by (simp add: bytesToItemIndexArray_def enqueueNotDispatchedReqs_def)
  have z: "int64_metadata zero_metadata" by (simp add: int64_metadata_def zero_metadata_def wrap64_def)
  then obtain mb where mb: "proto_Marshal E zero_metadata = Ok mb" "proto_Unmarshal E mb = Ok zero_metadata" by (rule proto_Marshal_ok)
  obtain s3 where s3: "Client_Set (client E) metadataKey mb s2 = (None, s3)" "data s3 = (data s)(metadataKey \<mapsto> mb)" "isopen s3"
    using Set [OF s2(3)] s2(2) by metis
  obtain s4 where s4: "Client_Batch (client E) ?dels s3 = ((None, fst (exec_ops ?dels (data s3))), s4)"
      "data s4 = snd (exec_ops ?dels (data s3))" "isopen s4"
    by (rule Batch_ok [OF s3(3)])
  have "loadLegacyMetadata E pq s = (pq, s4)"
    by (simp add: loadLegacyMetadata_def legacy pq enq assms(6) mb(1) s3(1) s4(1))
  moreover have "store_inv E (data s4) zero_metadata []"
    using z mb(2) assms(2-5) unfolding s4(2) s3(2)
    by (auto simp: store_inv_def stored_metadata_def in_use_def zero_metadata_def exec_op_def operation_defs)
  ultimately show ?thesis using s4(3) by blast
qed

lemma initClient_fresh:
  assumes "isopen s" "data s = Map.empty"
  shows "\<exists>pq s'. initClient E (newPersistentQueue capacity szt block) s = (pq, s') \<and> isopen s' \<and>
     store_inv E (data s') (metadata pq) [] \<and> readable E (data s') (metadata pq) = [] \<and> refClient pq = 1 \<and> \<not> pq_stopped pq \<and> has_client pq"
proof -
  let ?pq = "(newPersistentQueue capacity szt block)\<lparr>has_client := True, refClient := 1\<rparr>"
  obtain s1 where s1: "Client_Get (client E) metadataKey s = (Ok None, s1)" "data s1 = Map.empty" "isopen s1"
    using Get [OF assms(1)] assms(2) by metis
  have "metadata ?pq = zero_metadata" by (simp add: newPersistentQueue_def)
  then obtain s2 where "loadLegacyMetadata E ?pq s1 = (?pq, s2)" "isopen s2" "store_inv E (data s2) zero_metadata []"
    using loadLegacyMetadata_fresh [OF s1(3), of ?pq] s1(2) by auto
  moreover have "initClient E (newPersistentQueue capacity szt block) s = loadLegacyMetadata E ?pq s1"
    by (simp add: initClient_def loadQueueMetadata_def s1(1))
  ultimately show ?thesis by (simp add: newPersistentQueue_def readable_def) (simp add: zero_metadata_def)
qed

lemma initClient_recovers:
  assumes "isopen s" and inv: "store_inv E (data s) md held" and room: "unat (WriteIndex md) + length held < 2 ^ 64"
  shows "\<exists>pq s'. initClient E (newPersistentQueue capacity szt block) s = (pq, s') \<and> isopen s' \<and>
     store_inv E (data s') (metadata pq) [] \<and> mset (readable E (data s') (metadata pq)) = mset (readable E (data s) md) + mset (map snd held) \<and>
     refClient pq = 1 \<and> \<not> pq_stopped pq \<and> has_client pq"
proof -
  let ?pq = "(newPersistentQueue capacity szt block)\<lparr>has_client := True, refClient := 1\<rparr>"
  note D = store_invD [OF inv]
  obtain b ms where b: "data s metadataKey = Some b" "proto_Unmarshal E b = Ok ms" and ok: "int64_metadata ms"
      and ix: "ReadIndex ms = ReadIndex md" "WriteIndex ms = WriteIndex md"
      and L: "distinct (CurrentlyDispatchedItems ms)" "\<forall>i \<in> set (CurrentlyDispatchedItems ms). i < ReadIndex md"
        "set (CurrentlyDispatchedItems md) \<subseteq> set (CurrentlyDispatchedItems ms)"
    using D(3) unfolding stored_metadata_def by blast
  obtain s1 where s1: "Client_Get (client E) metadataKey s = (Ok (Some b), s1)" "data s1 = data s" "isopen s1"
    using Get [OF assms(1)] b(1) by metis
  have count: "mset (List.map_filter (stored_item E (data s)) (CurrentlyDispatchedItems ms)) = mset (map snd held)"
    by (rule mset_dispatched [OF inv L(1) L(3) L(2)])
  show ?thesis
  proof (cases "b = []")
    case True
    then have "ms = zero_metadata" using b(2) codec by (simp add: codec_ok_def)
    then have z: "ReadIndex md = 0" "WriteIndex md = 0" "CurrentlyDispatchedItems md = []" "held = []"
      using ix L D(9) by (simp_all add: zero_metadata_def)
    have none: "data s1 (getItemKey i) = None" for i using D(10) [of i] z by (auto simp: in_use_def s1(2))
    have "metadata ?pq = zero_metadata" by (simp add: newPersistentQueue_def)
    then obtain s2 where "loadLegacyMetadata E ?pq s1 = (?pq, s2)" "isopen s2" "store_inv E (data s2) zero_metadata []"
      using loadLegacyMetadata_fresh [OF s1(3), of ?pq] D(4-6) none unfolding s1(2) by auto
    moreover have "initClient E (newPersistentQueue capacity szt block) s = loadLegacyMetadata E ?pq s1"
      by (simp add: initClient_def loadQueueMetadata_def s1(1) True)
    ultimately show ?thesis by (simp add: newPersistentQueue_def readable_def z) (simp add: zero_metadata_def)
  next
    case False
    then have load: "loadQueueMetadata E s = (Ok ms, s1)" by (simp add: loadQueueMetadata_def s1(1) b(2))
    have pq0: "metadata (?pq\<lparr>metadata := ms\<rparr>) = ms" by simp
    obtain md' s' where "enqueueNotDispatchedReqs E (CurrentlyDispatchedItems ms) (?pq\<lparr>metadata := ms\<rparr>) s1 = (?pq\<lparr>metadata := md'\<rparr>, s')"
       "isopen s'" "store_inv E (data s') (md'\<lparr>CurrentlyDispatchedItems := []\<rparr>) []"
       "readable E (data s') md' = readable E (data s) md @ List.map_filter (stored_item E (data s)) (CurrentlyDispatchedItems ms)"
      using enqueue_ok [OF s1(3), of md held "?pq\<lparr>metadata := ms\<rparr>", unfolded s1(2) pq0, OF inv room ix ok L] by auto
    then show ?thesis using count unfolding initClient_def Let_def load
      by (simp add: newPersistentQueue_def)
  qed
qed

lemma store_inv_sizes:
  assumes "store_inv E d md held" "int64_metadata md'" "ReadIndex md' = ReadIndex md" "WriteIndex md' = WriteIndex md"
    "CurrentlyDispatchedItems md' = CurrentlyDispatchedItems md"
  shows "store_inv E d md' held" "readable E d md' = readable E d md"
proof -
  have "stored_metadata E d md' = stored_metadata E d md" "in_use md' = in_use md"
    using assms(3-5) by (simp_all add: stored_metadata_def in_use_def fun_eq_iff)
  then show "store_inv E d md' held" using assms unfolding store_inv_def by simp
qed (simp add: readable_def assms(3,4))

lemma int64_reset: "int64_metadata md \<Longrightarrow> int64_metadata (reset_drained md)"
  by (simp add: int64_metadata_def reset_drained_def wrap64_def)

lemma Offer_ok:
  assumes "isopen s" and inv: "store_inv E (data s) (metadata pq) held" and top: "WriteIndex (metadata pq) \<noteq> -1"
    and offer: "pq_Offer E ctx r pq s = (res, pq', s')"
  shows "if res = OfferReturns None
    then isopen s' \<and> store_inv E (data s') (metadata pq') held \<and> readable E (data s') (metadata pq') = readable E (data s) (metadata pq) @ [r] \<and>
      refClient pq' = refClient pq \<and> pq_stopped pq' = pq_stopped pq \<and> has_client pq' = has_client pq
    else pq' = pq \<and> s' = s"
proof (cases "wrap64 (internalSize pq + activeSizer E (pq_sizerType pq) r) > pq_capacity pq")
  case True
  then show ?thesis using offer by (auto simp: pq_Offer_def split: if_splits)
next
  case False
  let ?md1 = "(metadata pq)\<lparr>ItemsSize := wrap64 (ItemsSize (metadata pq) + itemsSizer E r),
      BytesSize := wrap64 (BytesSize (metadata pq) + bytesSizer E r)\<rparr>"
  let ?pq1 = "pq\<lparr>metadata := ?md1\<rparr>"
  have "int64_metadata ?md1" by (simp add: int64_metadata_def wrap64_def)
  then have inv1: "store_inv E (data s) ((metadata ?pq1)\<lparr>CurrentlyDispatchedItems := CurrentlyDispatchedItems (metadata pq)\<rparr>) held"
    and rd: "readable E (data s) (metadata ?pq1) = readable E (data s) (metadata pq)"
    using store_inv_sizes [OF inv, of ?md1] by simp_all
  have top1: "WriteIndex (metadata ?pq1) \<noteq> -1" using top by simp
  note L = store_invD(7) [OF inv] CDI_below [OF inv]
  obtain s1 where s1: "putInternal E ctx r ?pq1 s = (None, ?pq1\<lparr>metadata := (metadata ?pq1)\<lparr>WriteIndex := WriteIndex (metadata ?pq1) + 1\<rparr>\<rparr>, s1)"
     "isopen s1" "store_inv E (data s1) ((metadata ?pq1)\<lparr>WriteIndex := WriteIndex (metadata ?pq1) + 1, CurrentlyDispatchedItems := CurrentlyDispatchedItems (metadata pq)\<rparr>) held"
     "readable E (data s1) ((metadata ?pq1)\<lparr>WriteIndex := WriteIndex (metadata ?pq1) + 1\<rparr>) = readable E (data s) (metadata ?pq1) @ [r]"
    by (rule put_ok [OF assms(1) inv1 top1]) (use L in simp_all)
  have "pq_Offer E ctx r pq s = (OfferReturns None, ?pq1\<lparr>metadata := (metadata ?pq1)\<lparr>WriteIndex := WriteIndex (metadata ?pq1) + 1\<rparr>\<rparr>, s1)"
    using False s1(1) by (simp add: pq_Offer_def Let_def)
  then show ?thesis using offer s1 rd by (auto simp del: fun_upd_apply)
qed

lemma Read_ok:
  assumes "isopen s" and inv: "store_inv E (data s) (metadata pq) held" and live: "\<not> pq_stopped pq"
  shows "case readable E (data s) (metadata pq) of
      [] \<Rightarrow> pq_Read E pq s = (Blocked, pq, s)
    | r # rs \<Rightarrow> \<exists>ctx d md' s'. pq_Read E pq s = (Got ctx r d, pq\<lparr>metadata := md', refClient := refClient pq + 1\<rparr>, s') \<and> isopen s' \<and>
        readable E (data s') md' = rs \<and> id_index d = ReadIndex (metadata pq) \<and>
        (\<forall>held'. set held' = insert (id_index d, r) (set held) \<longrightarrow> distinct (map fst held') \<longrightarrow> store_inv E (data s') md' held')"
proof (cases "ReadIndex (metadata pq) = WriteIndex (metadata pq)")
  case True
  then have "readable E (data s) (metadata pq) = []" by (simp add: readable_def)
  then show ?thesis using True live by (simp add: pq_Read_def Read_loop.simps)
next
  case False
  let ?i = "ReadIndex (metadata pq)"
  note D = store_invD [OF inv]
  have "in_use (metadata pq) ?i" using D(1) False by (simp add: in_use_def order_less_le)
  then obtain r where r: "stored_item E (data s) ?i = Some r" using D(11) [of ?i] by blast
  define md' where "md' = (metadata pq)\<lparr>ReadIndex := ?i + 1, CurrentlyDispatchedItems := CurrentlyDispatchedItems (metadata pq) @ [?i]\<rparr>"
  obtain ctx mb s' where next_item: "getNextItem E pq s = (Some (?i, r, ctx), pq\<lparr>metadata := md', refClient := refClient pq + 1\<rparr>, s')"
      and mb: "proto_Unmarshal E mb = Ok md'" "int64_metadata md'" "isopen s'" "data s' = (data s)(metadataKey \<mapsto> mb)"
    unfolding md'_def by (rule getNextItem_ok [OF assms(1) D(2) r])
  let ?d = "\<lparr>id_index = ?i, id_itemsSize = itemsSizer E r, id_bytesSize = bytesSizer E r\<rparr>"
  have fields: "ReadIndex md' = ?i + 1" "WriteIndex md' = WriteIndex (metadata pq)"
    "CurrentlyDispatchedItems md' = CurrentlyDispatchedItems (metadata pq) @ [?i]"
    by (simp_all add: md'_def)
  note T = store_inv_take [OF inv False mb(1,2) fields r, of "reset_drained md'", simplified, OF fields int64_reset [OF mb(2)]]
  have "pq_Read E pq s = (Got ctx r ?d, pq\<lparr>metadata := reset_drained md', refClient := refClient pq + 1\<rparr>, s')"
    using live False unfolding pq_Read_def by (subst Read_loop.simps) (simp add: next_item Read_round_def)
  moreover have "?i \<notin> fst ` set held" using CDI_below [OF inv, of ?i] D(9) by auto
  then have "distinct (map fst ((?i, r) # held))" using D(8) by simp
  then have "readable E (data s) (metadata pq) = r # readable E (data s') (reset_drained md')"
    using T(2) [of "(?i, r) # held"] unfolding mb(4) by simp
  moreover have "store_inv E (data s') (reset_drained md') held'"
    if "set held' = insert (?i, r) (set held)" "distinct (map fst held')" for held'
    unfolding mb(4) by (rule T(1) [OF that])
  ultimately show ?thesis using mb(3)
    by (simp only: list.case) (intro exI [of _ ctx] exI [of _ ?d] exI [of _ "reset_drained md'"] exI [of _ s'], simp)
qed

lemma unref_ok:
  assumes "unrefClient E pq s = (e, pq', s')"
  shows "pq' = pq\<lparr>refClient := refClient pq - 1\<rparr> \<and> data s' = data s \<and> (refClient pq' \<noteq> 0 \<longrightarrow> s' = s)"
  using assms Close [of s] by (auto simp: unrefClient_def Let_def split: if_splits prod.splits)

lemma onDone_ok:
  assumes "isopen s" and inv: "store_inv E (data s) (metadata pq) held" and h: "(id_index d, r) \<in> set held"
    and held': "set held' = set held - {(id_index d, r)}" "distinct (map fst held')"
    and err: "\<not> IsShutdownErr err" and onDone: "pq_onDone E d err pq s = (pq', s')"
  shows "store_inv E (data s') (metadata pq') held' \<and> readable E (data s') (metadata pq') = readable E (data s) (metadata pq) \<and>
    refClient pq' = refClient pq - 1 \<and> pq_stopped pq' = pq_stopped pq \<and> has_client pq' = has_client pq \<and> (refClient pq' \<noteq> 0 \<longrightarrow> isopen s')"
proof -
  define pq1 where "pq1 = pq\<lparr>metadata := (metadata pq)\<lparr>BytesSize := max 0 (wrap64 (BytesSize (metadata pq) - id_bytesSize d)),
      ItemsSize := max 0 (wrap64 (ItemsSize (metadata pq) - id_itemsSize d))\<rparr>\<rparr>"
  have "wrap64 (max 0 (wrap64 x)) = max 0 (wrap64 x)" for x
    by (rule wrap64_id) (use wrap64_range [of x] in auto)
  then have ok1: "int64_metadata (metadata pq1)" by (simp add: pq1_def int64_metadata_def)
  have inv1: "store_inv E (data s) (metadata pq1) held" "readable E (data s) (metadata pq1) = readable E (data s) (metadata pq)"
    using store_inv_sizes [OF inv ok1] by (simp_all add: pq1_def)
  define md2 where "md2 = reset_drained ((metadata pq1)\<lparr>CurrentlyDispatchedItems := remove_dispatched (id_index d) (CurrentlyDispatchedItems (metadata pq1))\<rparr>)"
  obtain mb s1 where fin: "itemDispatchingFinish E (id_index d) pq1 s = (None, pq1\<lparr>metadata := md2\<rparr>, s1)"
      and mb: "proto_Unmarshal E mb = Ok md2" "int64_metadata md2" "isopen s1" "data s1 = (data s)(metadataKey \<mapsto> mb, getItemKey (id_index d) := None)"
    unfolding md2_def by (rule itemDispatchingFinish_ok [OF assms(1) ok1])
  have fields: "ReadIndex md2 = ReadIndex (metadata pq1)" "WriteIndex md2 = WriteIndex (metadata pq1)"
    "CurrentlyDispatchedItems md2 = remove_dispatched (id_index d) (CurrentlyDispatchedItems (metadata pq1))"
    by (simp_all add: md2_def)
  note F = store_inv_finish [OF inv1(1) h mb(1,2) fields held']
  obtain e where "unrefClient E (pq1\<lparr>metadata := md2\<rparr>) s1 = (e, pq', s')"
    using onDone err fin by (auto simp: pq_onDone_def onDone_body_def Let_def pq1_def split: prod.splits)
  note unref_ok [OF this]
  then show ?thesis using F mb(3,4) inv1(2) by (auto simp: pq1_def)
qed

end

section \<open>Runs\<close>

text \<open>
  \<open>pq_run E data isopen reopen pq s acc fin out intr\<close>: a queue was created on an empty storage, and then
  goroutines offered, read and finished requests in any order, and the process was stopped or crashed and
  started again on the same storage any number of times, between two critical sections. \<open>acc\<close> are the
  requests that were accepted, \<open>fin\<close> those that were finished, \<open>out\<close> those that consumers have, \<open>intr\<close> those
  that were given back with a shutdown error. An offer can also come after \<^verbatim>\<open>Shutdown\<close>, which \<^verbatim>\<open>Offer\<close> does not
  check, as long as the client is not closed; \<^verbatim>\<open>Shutdown\<close> is called once. \<open>PersistentSafety\<close> shows what an offer on a
  closed client and a second \<^verbatim>\<open>Shutdown\<close> do. The write index stays below \<open>2 ^ 64\<close>. \<^verbatim>\<open>Read\<close> is one critical section:
  inside its loop it can give up the lock only in the \<^verbatim>\<open>Signal\<close> after a dropped item, and over a storage that does
  not fail no item is dropped.
\<close>

inductive pq_run ::
  "('c, 'r, 's, 'e) pqEnv \<Rightarrow> ('s \<Rightarrow> store) \<Rightarrow> ('s \<Rightarrow> bool) \<Rightarrow> ('s \<Rightarrow> 's) \<Rightarrow> persistentQueue \<Rightarrow> 's \<Rightarrow>
     'r list \<Rightarrow> 'r list \<Rightarrow> (indexDone \<times> 'r) list \<Rightarrow> (indexDone \<times> 'r) list \<Rightarrow> bool"
  for E data isopen reopen where
  created: "pq_run E data isopen reopen pq s' [] [] [] []"
    if "isopen s" "data s = Map.empty" "initClient E (newPersistentQueue capacity szt block) s = (pq, s')"
| offered: "pq_run E data isopen reopen pq' s' (if res = OfferReturns None then acc @ [req] else acc) fin out intr"
    if "pq_run E data isopen reopen pq s acc fin out intr" "refClient pq \<noteq> 0" "WriteIndex (metadata pq) \<noteq> -1"
      "pq_Offer E ctx req pq s = (res, pq', s')"
| read_one: "pq_run E data isopen reopen pq' s' acc fin (out @ [(d, req)]) intr"
    if "pq_run E data isopen reopen pq s acc fin out intr" "pq_Read E pq s = (Got ctx req d, pq', s')"
| read_none: "pq_run E data isopen reopen pq' s' acc fin out intr"
    if "pq_run E data isopen reopen pq s acc fin out intr" "pq_Read E pq s = (r, pq', s')" "r \<in> {Closed, Blocked}"
| finished: "pq_run E data isopen reopen pq' s' acc (fin @ [req]) (remove1 (d, req) out) intr"
    if "pq_run E data isopen reopen pq s acc fin out intr" "(d, req) \<in> set out" "\<not> IsShutdownErr (err :: string go_error option)"
      "pq_onDone E d err pq s = (pq', s')"
| interrupted: "pq_run E data isopen reopen pq' s' acc fin (remove1 (d, req) out) ((d, req) # intr)"
    if "pq_run E data isopen reopen pq s acc fin out intr" "(d, req) \<in> set out" "IsShutdownErr (err :: string go_error option)"
      "pq_onDone E d err pq s = (pq', s')"
| shut_down: "pq_run E data isopen reopen pq' s' acc fin out intr"
    if "pq_run E data isopen reopen pq s acc fin out intr" "\<not> pq_stopped pq" "pq_Shutdown E pq s = (err, pq', s')"
| restarted: "pq_run E data isopen reopen pq' s' acc fin [] []"
    if "pq_run E data isopen reopen pq s acc fin out intr"
      "unat (WriteIndex (metadata pq)) + length out + length intr < 2 ^ 64"
      "initClient E (newPersistentQueue capacity szt block) (reopen s) = (pq', s')"

definition held_items :: "(indexDone \<times> 'r) list \<Rightarrow> (u64 \<times> 'r) list" where
  "held_items xs = map (\<lambda>(d, r). (id_index d, r)) xs"

lemma held_items_simps [simp]:
  "held_items (xs @ ys) = held_items xs @ held_items ys" "held_items [] = []"
  "held_items ((d, r) # xs) = (id_index d, r) # held_items xs" "length (held_items xs) = length xs"
  "map snd (held_items xs) = map snd xs"
  by (auto simp: held_items_def)

lemma held_items_remove1:
  assumes "(d, r) \<in> set xs" "distinct (map fst (held_items (xs @ ys)))"
  shows "set (held_items (remove1 (d, r) xs @ ys)) = set (held_items (xs @ ys)) - {(id_index d, r)}"
    and "distinct (map fst (held_items (remove1 (d, r) xs @ ys)))"
    and "(id_index d, r) \<in> set (held_items (xs @ ys))"
    and "distinct (map fst (held_items (remove1 (d, r) xs @ (d, r) # ys)))"
    and "set (held_items (remove1 (d, r) xs @ (d, r) # ys)) = set (held_items (xs @ ys))"
    and "add_mset r (mset (map snd (remove1 (d, r) xs))) = mset (map snd xs)"
    and "Suc (length (remove1 (d, r) xs)) = length xs"
proof -
  obtain as bs where xs: "xs = as @ (d, r) # bs" "(d, r) \<notin> set as" using split_list_first [OF assms(1)] by blast
  then have rem: "remove1 (d, r) xs = as @ bs" by (simp add: remove1_append)
  have "id_index d \<notin> fst ` set (held_items (as @ bs @ ys))" using assms(2) by (auto simp: xs(1))
  then have notin: "(id_index d, r) \<notin> set (held_items (as @ bs @ ys))" by force
  show "set (held_items (remove1 (d, r) xs @ ys)) = set (held_items (xs @ ys)) - {(id_index d, r)}"
    using notin unfolding rem by (auto simp: xs(1))
  show "distinct (map fst (held_items (remove1 (d, r) xs @ ys)))"
    and "distinct (map fst (held_items (remove1 (d, r) xs @ (d, r) # ys)))"
    using assms(2) unfolding rem by (auto simp: xs(1))
  show "(id_index d, r) \<in> set (held_items (xs @ ys))"
    and "set (held_items (remove1 (d, r) xs @ (d, r) # ys)) = set (held_items (xs @ ys))"
    and "add_mset r (mset (map snd (remove1 (d, r) xs))) = mset (map snd xs)"
    and "Suc (length (remove1 (d, r) xs)) = length xs"
    unfolding rem by (auto simp: xs(1))
qed

context reliable_queue
begin

text \<open>What holds after every step of a run over a storage that does not fail.\<close>

definition run_inv :: "persistentQueue \<Rightarrow> 's \<Rightarrow> 'r list \<Rightarrow> 'r list \<Rightarrow> (indexDone \<times> 'r) list \<Rightarrow> (indexDone \<times> 'r) list \<Rightarrow> bool" where
  "run_inv pq s acc fin out intr \<longleftrightarrow>
     store_inv E (data s) (metadata pq) (held_items (out @ intr)) \<and> has_client pq \<and>
     refClient pq = (if pq_stopped pq then 0 else 1) + int (length out) \<and> (refClient pq \<noteq> 0 \<longrightarrow> isopen s) \<and>
     mset acc = mset fin + mset (map snd out) + mset (map snd intr) + mset (readable E (data s) (metadata pq))"

lemma run_inv_recovers:
  assumes "run_inv pq s acc fin out intr" "unat (WriteIndex (metadata pq)) + length out + length intr < 2 ^ 64"
    "initClient E (newPersistentQueue capacity szt block) (reopen s) = (pq', s')"
  shows "run_inv pq' s' acc fin [] []"
proof -
  have inv: "store_inv E (data (reopen s)) (metadata pq) (held_items (out @ intr))"
    using assms(1) by (simp add: run_inv_def Reopen)
  have room: "unat (WriteIndex (metadata pq)) + length (held_items (out @ intr)) < 2 ^ 64" using assms(2) by simp
  show ?thesis
    using initClient_recovers [OF Reopen(1) [of s] inv room, of capacity szt block] assms(1,3)
    by (auto simp: run_inv_def Reopen(2))
qed

lemma run_inv_read:
  assumes "run_inv pq s acc fin out intr" "pq_Read E pq s = (r, pq', s')"
  shows "case r of Got ctx req d \<Rightarrow> run_inv pq' s' acc fin (out @ [(d, req)]) intr | _ \<Rightarrow> pq' = pq \<and> s' = s"
proof (cases "pq_stopped pq")
  case True
  then show ?thesis using assms(2) by (auto simp: pq_Read_def)
next
  case False
  have inv: "store_inv E (data s) (metadata pq) (held_items (out @ intr))" and op: "isopen s"
    using assms(1) False by (auto simp: run_inv_def)
  show ?thesis
  proof (cases "readable E (data s) (metadata pq)")
    case Nil
    then show ?thesis using Read_ok [OF op inv False] assms(2) by auto
  next
    case (Cons x xs)
    obtain ctx d md' where read: "r = Got ctx x d" "pq' = pq\<lparr>metadata := md', refClient := refClient pq + 1\<rparr>" "isopen s'"
        "readable E (data s') md' = xs" "id_index d = ReadIndex (metadata pq)"
        and keep: "\<And>h. set h = insert (id_index d, x) (set (held_items (out @ intr))) \<Longrightarrow> distinct (map fst h) \<Longrightarrow> store_inv E (data s') md' h"
      using Read_ok [OF op inv False] assms(2) unfolding Cons by auto
    have "id_index d \<notin> fst ` set (held_items (out @ intr))"
      using CDI_below [OF inv, of "id_index d"] store_invD(9) [OF inv] read(5) by auto
    then have "store_inv E (data s') md' (held_items ((out @ [(d, x)]) @ intr))"
      using store_invD(8) [OF inv] by (intro keep) auto
    then show ?thesis using assms(1) read Cons unfolding run_inv_def by simp
  qed
qed

lemma run_inv_done:
  assumes inv: "run_inv pq s acc fin out intr" and mem: "(d, req) \<in> set out" and "pq_onDone E d err pq s = (pq', s')"
  shows "if IsShutdownErr err then run_inv pq' s' acc fin (remove1 (d, req) out) ((d, req) # intr)
    else run_inv pq' s' acc (fin @ [req]) (remove1 (d, req) out) intr"
proof -
  have store: "store_inv E (data s) (metadata pq) (held_items (out @ intr))" and op: "isopen s"
    using inv mem by (auto simp: run_inv_def split: if_splits)
  note H = held_items_remove1 [OF mem store_invD(8) [OF store]]
  have len: "int (length out) = int (length (remove1 (d, req) out)) + 1" using H(7) by simp
  have acc: "mset (map snd out) = add_mset req (mset (map snd (remove1 (d, req) out)))" using H(6) by simp
  show ?thesis
  proof (cases "IsShutdownErr err")
    case True
    then obtain e where "unrefClient E pq s = (e, pq', s')"
      using assms(3) by (auto simp: pq_onDone_def onDone_body_def split: prod.splits)
    note U = unref_ok [OF this]
    have "store_inv E (data s) (metadata pq) (held_items (remove1 (d, req) out @ (d, req) # intr))"
      using store H(4,5) unfolding store_inv_def by metis
    then show ?thesis using U inv True op len acc unfolding run_inv_def by auto
  next
    case False
    show ?thesis
      using onDone_ok [OF op store H(3) H(1,2) False assms(3)] inv False len acc unfolding run_inv_def by auto
  qed
qed

lemma run_inv: "pq_run E data isopen reopen pq s acc fin out intr \<Longrightarrow> run_inv pq s acc fin out intr"
proof (induction rule: pq_run.induct)
  case (created s capacity szt block pq s')
  then show ?case using initClient_fresh [OF created(1,2), of capacity szt block] by (auto simp: run_inv_def)
next
  case (offered pq s acc fin out intr ctx req res pq' s')
  have "isopen s" "store_inv E (data s) (metadata pq) (held_items (out @ intr))"
    using offered.IH offered.hyps(2) by (auto simp: run_inv_def)
  from Offer_ok [OF this offered.hyps(3,4)] show ?case using offered.IH offered.hyps(2)
    by (cases "res = OfferReturns None") (simp_all add: run_inv_def)
next
  case (read_one pq s acc fin out intr ctx req d pq' s')
  then show ?case using run_inv_read [OF read_one.IH read_one.hyps(2)] by simp
next
  case (read_none pq s acc fin out intr r pq' s')
  then show ?case using run_inv_read [OF read_none.IH read_none.hyps(2)] by auto
next
  case (finished pq s acc fin out intr d req err pq' s')
  then show ?case using run_inv_done [OF finished.IH finished.hyps(2,4)] by simp
next
  case (interrupted pq s acc fin out intr d req err pq' s')
  then show ?case using run_inv_done [OF interrupted.IH interrupted.hyps(2,4)] by simp
next
  case (shut_down pq s acc fin out intr err pq' s')
  then have "unrefClient E (pq\<lparr>pq_stopped := True\<rparr>) s = (err, pq', s')" by (simp add: pq_Shutdown_def run_inv_def)
  note U = unref_ok [OF this]
  then show ?case using shut_down.IH shut_down.hyps(2) by (auto simp: run_inv_def)
next
  case (restarted pq s acc fin out intr capacity szt block pq' s')
  show ?case by (rule run_inv_recovers [OF restarted.IH restarted.hyps(2,3)])
qed

end

section \<open>An instance\<close>

text \<open>
  The metadata message in the wire format of \<^verbatim>\<open>meta.proto\<close>: fields with the value zero are left out, the others
  are a tag and eight bytes, least significant first; the list is written element by element.
\<close>

definition fixed64 :: "byte \<Rightarrow> u64 \<Rightarrow> byte list" where
  "fixed64 tag w = tag # le_bytes 8 (unat w)"

definition metadata_Marshal :: "PersistentMetadata \<Rightarrow> byte list" where
  "metadata_Marshal md =
     (if ItemsSize md = 0 then [] else fixed64 0x09 (word_of_int (ItemsSize md))) @
     (if BytesSize md = 0 then [] else fixed64 0x11 (word_of_int (BytesSize md))) @
     (if ReadIndex md = 0 then [] else fixed64 0x19 (ReadIndex md)) @
     (if WriteIndex md = 0 then [] else fixed64 0x21 (WriteIndex md)) @
     concat (map (fixed64 0x29) (CurrentlyDispatchedItems md))"

definition set_field :: "byte \<Rightarrow> u64 \<Rightarrow> PersistentMetadata \<Rightarrow> PersistentMetadata" where
  "set_field tag v md =
     (if tag = 0x09 then md\<lparr>ItemsSize := sint v\<rparr> else if tag = 0x11 then md\<lparr>BytesSize := sint v\<rparr>
      else if tag = 0x19 then md\<lparr>ReadIndex := v\<rparr> else if tag = 0x21 then md\<lparr>WriteIndex := v\<rparr>
      else if tag = 0x29 then md\<lparr>CurrentlyDispatchedItems := CurrentlyDispatchedItems md @ [v]\<rparr> else md)"

fun metadata_Unmarshal :: "byte list \<Rightarrow> PersistentMetadata \<Rightarrow> (string, PersistentMetadata) result" where
  "metadata_Unmarshal [] md = Ok md"
| "metadata_Unmarshal (tag # bs) md =
     (if length bs < 8 then Err ''unexpected EOF''
      else metadata_Unmarshal (drop 8 bs) (set_field tag (of_nat (little_endian (take 8 bs))) md))"

lemma metadata_Unmarshal_fixed64:
  "metadata_Unmarshal (fixed64 tag w @ bs) md = metadata_Unmarshal bs (set_field tag w md)"
proof -
  have "unat w < 256 ^ 8" using unsigned_less [of w] by simp
  then have "little_endian (le_bytes 8 (unat w)) = unat w" by (rule little_endian_le_bytes)
  then show ?thesis by (simp add: fixed64_def)
qed

lemma metadata_Unmarshal_list:
  "metadata_Unmarshal (concat (map (fixed64 0x29) is)) md = Ok (md\<lparr>CurrentlyDispatchedItems := CurrentlyDispatchedItems md @ is\<rparr>)"
  by (induction "is" arbitrary: md) (simp_all add: metadata_Unmarshal_fixed64 set_field_def)

lemma sint_of_int64: "wrap64 x = x \<Longrightarrow> sint (word_of_int x :: u64) = x"
  using wrap64_range [of x] by (simp add: signed_of_int signed_take_bit_int_eq_self)

lemma metadata_roundtrip: "int64_metadata md \<Longrightarrow> metadata_Unmarshal (metadata_Marshal md) zero_metadata = Ok md"
  unfolding metadata_Marshal_def int64_metadata_def
  by (auto simp: metadata_Unmarshal_fixed64 metadata_Unmarshal_list set_field_def sint_of_int64 zero_metadata_def)

text \<open>Requests are lists of bytes, stored as they are; the storage is the mock client.\<close>

definition mock_env :: "(unit, byte list, mockStorage, string) pqEnv" where
  "mock_env = \<lparr>client = MockStorageClient, proto_Marshal = (\<lambda>md. Ok (metadata_Marshal md)),
     proto_Unmarshal = (\<lambda>b. metadata_Unmarshal b zero_metadata), enc_Marshal = (\<lambda>_ r. Ok r),
     enc_Unmarshal = (\<lambda>b. case b of None \<Rightarrow> Ok ((), []) | Some r \<Rightarrow> Ok ((), r)),
     itemsSizer = (\<lambda>r. int (length r)), bytesSizer = (\<lambda>r. int (length r))\<rparr>"

lemma codec_ok_mock: "codec_ok mock_env"
  unfolding codec_ok_def by (auto simp: mock_env_def metadata_roundtrip)

interpretation mock_queue: reliable_queue mock_env st "\<lambda>m. \<not> closed m" "\<lambda>m. m\<lparr>closed := False\<rparr>"
proof (intro reliable_queue.intro reliable_queue_axioms.intro)
  show "storage_contract (client mock_env) st (\<lambda>m. \<not> closed m) (\<lambda>m. m\<lparr>closed := False\<rparr>)"
    using mock.storage_contract_axioms by (simp add: mock_env_def)
qed (rule codec_ok_mock)

section \<open>No accepted request is lost\<close>

lemma run_accounts:
  assumes "reliable_queue E data isopen reopen" "pq_run E data isopen reopen pq s acc fin out intr"
  shows "mset acc = mset fin + mset (map snd out) + mset (map snd intr) + mset (readable E (data s) (metadata pq))"
  using reliable_queue.run_inv [OF assms, unfolded reliable_queue.run_inv_def [OF assms(1)]] by blast

lemma run_reads_first:
  assumes "reliable_queue E data isopen reopen" "pq_run E data isopen reopen pq s acc fin out intr" "\<not> pq_stopped pq"
  shows "case readable E (data s) (metadata pq) of
      [] \<Rightarrow> fst (pq_Read E pq s) = Blocked
    | r # _ \<Rightarrow> \<exists>ctx d. fst (pq_Read E pq s) = Got ctx r d"
proof -
  have "isopen s" "store_inv E (data s) (metadata pq) (held_items (out @ intr))"
    using reliable_queue.run_inv [OF assms(1,2), unfolded reliable_queue.run_inv_def [OF assms(1)]] assms(3) by auto
  from reliable_queue.Read_ok [OF assms(1) this assms(3)] show ?thesis
    by (cases "readable E (data s) (metadata pq)") auto
qed

lemma run_recovers:
  assumes "reliable_queue E data isopen reopen" "pq_run E data isopen reopen pq s acc fin out intr"
    and "unat (WriteIndex (metadata pq)) + length out + length intr < 2 ^ 64"
  shows "case initClient E (newPersistentQueue capacity szt block) (reopen s) of
      (pq', s') \<Rightarrow> mset acc = mset fin + mset (readable E (data s') (metadata pq'))"
  using reliable_queue.run_inv_recovers [OF assms(1) reliable_queue.run_inv [OF assms(1,2)] assms(3), of capacity szt block]
  by (auto simp: reliable_queue.run_inv_def [OF assms(1)] split: prod.split)

text \<open>
  C2. Over a storage that does not fail, in every interleaving of offers, reads and callbacks and over any number of
  crashes and restarts, the requests that were accepted are exactly those that are finished, with a
  consumer, given back at shutdown, or stored between the read and the write index. A read hands out the first
  of the latter, and blocks only if there is none. If the process crashes now, the queue that starts on the
  same storage can read every accepted request that is not finished, once.
\<close>

theorem persistent_queue_loses_no_request:
  assumes "reliable_queue E data isopen reopen" "pq_run E data isopen reopen pq s acc fin out intr"
  shows "mset acc = mset fin + mset (map snd out) + mset (map snd intr) + mset (readable E (data s) (metadata pq)) \<and>
    (\<not> pq_stopped pq \<longrightarrow>
      (case readable E (data s) (metadata pq) of
         [] \<Rightarrow> fst (pq_Read E pq s) = Blocked
       | r # _ \<Rightarrow> \<exists>ctx d. fst (pq_Read E pq s) = Got ctx r d)) \<and>
    (unat (WriteIndex (metadata pq)) + length out + length intr < 2 ^ 64 \<longrightarrow>
      (case initClient E (newPersistentQueue capacity szt block) (reopen s) of
         (pq', s') \<Rightarrow> mset acc = mset fin + mset (readable E (data s') (metadata pq'))))"
  by (intro conjI impI run_accounts [OF assms] run_reads_first [OF assms] run_recovers [OF assms])

text \<open>Two requests are offered to a new queue and the first one is read.\<close>

abbreviation mock_run where
  "mock_run \<equiv> pq_run mock_env st (\<lambda>m. \<not> closed m) (\<lambda>m. m\<lparr>closed := False\<rparr>)"

definition sample_new :: "persistentQueue \<times> mockStorage" where
  "sample_new = initClient mock_env (newPersistentQueue 10 SizerTypeRequests False) \<lparr>st = Map.empty, closed = False, panicked = False\<rparr>"

definition sample_one :: "persistentQueue \<times> mockStorage" where
  "sample_one = snd (pq_Offer mock_env () [1] (fst sample_new) (snd sample_new))"

definition sample_two :: "persistentQueue \<times> mockStorage" where
  "sample_two = snd (pq_Offer mock_env () [2, 3] (fst sample_one) (snd sample_one))"

definition sample_done :: indexDone where
  "sample_done = \<lparr>id_index = 0, id_itemsSize = 1, id_bytesSize = 1\<rparr>"

definition sample_read :: "persistentQueue \<times> mockStorage" where
  "sample_read = snd (pq_Read mock_env (fst sample_two) (snd sample_two))"

lemma sample_results:
  "fst (pq_Offer mock_env () [1] (fst sample_new) (snd sample_new)) = OfferReturns None"
  "fst (pq_Offer mock_env () [2, 3] (fst sample_one) (snd sample_one)) = OfferReturns None"
  "fst (pq_Read mock_env (fst sample_two) (snd sample_two)) = Got () [1] sample_done"
  by code_simp+

lemma sample_run: "mock_run (fst sample_read) (snd sample_read) [[1], [2, 3]] [] [(sample_done, [1])] []"
proof -
  have new: "mock_run (fst sample_new) (snd sample_new) [] [] [] []"
    by (rule pq_run.created [of _ "\<lparr>st = Map.empty, closed = False, panicked = False\<rparr>"]) (simp_all add: sample_new_def)
  have flags: "refClient (fst sample_new) \<noteq> 0" "WriteIndex (metadata (fst sample_new)) \<noteq> -1"
    "refClient (fst sample_one) \<noteq> 0" "WriteIndex (metadata (fst sample_one)) \<noteq> -1"
    by code_simp+
  have one: "mock_run (fst sample_one) (snd sample_one) (if OfferReturns None = OfferReturns (None :: string pq_error option) then [] @ [[1]] else []) [] [] []"
    by (rule pq_run.offered [OF new flags(1,2), where ctx = "()"])
      (simp add: sample_one_def prod_eq_iff sample_results)
  have two: "mock_run (fst sample_two) (snd sample_two) (if OfferReturns None = OfferReturns (None :: string pq_error option) then [[1]] @ [[2, 3]] else [[1]]) [] [] []"
    by (rule pq_run.offered [OF one [simplified] flags(3,4), where ctx = "()"])
      (simp add: sample_two_def prod_eq_iff sample_results)
  have "mock_run (fst sample_read) (snd sample_read) [[1], [2, 3]] [] ([] @ [(sample_done, [1])]) []"
    by (rule pq_run.read_one [where ctx = "()"], rule two [simplified])
      (simp add: sample_read_def prod_eq_iff sample_results)
  then show ?thesis by simp
qed

theorem persistent_queue_loses_no_request_witness:
  "readable mock_env (st (snd sample_read)) (metadata (fst sample_read)) = [[2, 3]] \<and>
   fst (pq_Read mock_env (fst sample_read) (snd sample_read)) \<noteq> Blocked \<and>
   (case initClient mock_env (newPersistentQueue 10 SizerTypeRequests False) ((snd sample_read)\<lparr>closed := False\<rparr>) of
      (pq', s') \<Rightarrow> {#[1], [2, 3]#} = mset (readable mock_env (st s') (metadata pq')))"
proof -
  have rd: "readable mock_env (st (snd sample_read)) (metadata (fst sample_read)) = [[2, 3]]" by code_simp
  have side: "\<not> pq_stopped (fst sample_read)" "unat (WriteIndex (metadata (fst sample_read))) = 2"
    by code_simp+
  note T = persistent_queue_loses_no_request [OF mock_queue.reliable_queue_axioms sample_run,
      where capacity = 10 and szt = SizerTypeRequests and block = False]
  show ?thesis using T side rd by auto
qed

end
