(* ===== verification/PersistentSafety.thy ===== *)
theory PersistentSafety
  imports PersistentRecovery
begin

text \<open>
  What the persistent queue keeps whatever its storage does: the client is closed once, after the last
  request is finished, and not used afterwards; the metadata stay well-formed. The last section shows what a
  crash inside the recovery at start leaves behind.
\<close>

section \<open>The client is not used after it is closed\<close>

text \<open>
  A client together with a monitor: \<open>misused\<close> records a call of a closed client, which is the panic of
  \<^verbatim>\<open>MockStorageClient\<close>.
\<close>

record 's checkedStorage =
  inner :: 's
  was_closed :: bool
  misused :: bool

definition monitored :: "('s \<Rightarrow> 'a \<times> 's) \<Rightarrow> 's checkedStorage \<Rightarrow> 'a \<times> 's checkedStorage" where
  "monitored f x = (case f (inner x) of (a, s) \<Rightarrow> (a, x\<lparr>inner := s, misused := misused x \<or> was_closed x\<rparr>))"

definition checked :: "('s, 'e) Client \<Rightarrow> ('s checkedStorage, 'e) Client" where
  "checked c = \<lparr>Client_Get = \<lambda>k. monitored (Client_Get c k), Client_Set = \<lambda>k v. monitored (Client_Set c k v),
     Client_Delete = \<lambda>k. monitored (Client_Delete c k), Client_Batch = \<lambda>ops. monitored (Client_Batch c ops),
     Client_Close = \<lambda>x. (case monitored (Client_Close c) x of (e, x') \<Rightarrow> (e, x'\<lparr>was_closed := True\<rparr>))\<rparr>"

definition usable :: "'s checkedStorage \<Rightarrow> bool" where
  "usable x \<longleftrightarrow> \<not> was_closed x \<and> \<not> misused x"

lemma monitored_usable: "monitored f x = (a, x') \<Longrightarrow> usable x \<Longrightarrow> usable x'"
  by (auto simp: monitored_def usable_def split: prod.splits)

lemma client_usable:
  assumes "client E = checked c" "usable s"
  shows "Client_Batch (client E) ops s = (r, s') \<Longrightarrow> usable s'"
    and "Client_Get (client E) k s = (g, s') \<Longrightarrow> usable s'"
    and "Client_Set (client E) k v s = (e, s') \<Longrightarrow> usable s'"
    and "Client_Close (client E) s = (e, s') \<Longrightarrow> was_closed s' \<and> \<not> misused s'"
  using assms monitored_usable [OF _ assms(2)]
  by (auto simp: checked_def monitored_def usable_def split: prod.splits)

text \<open>The fields of the queue that the operations on the metadata leave alone.\<close>

definition same_client :: "persistentQueue \<Rightarrow> persistentQueue \<Rightarrow> bool" where
  "same_client pq pq' \<longleftrightarrow> refClient pq' = refClient pq \<and> pq_stopped pq' = pq_stopped pq \<and> has_client pq' = has_client pq"

lemma same_client_refl [simp]: "same_client pq pq" "same_client pq (pq\<lparr>metadata := md\<rparr>)"
  by (simp_all add: same_client_def)

lemma same_client_metadata [simp]: "same_client (pq\<lparr>metadata := md\<rparr>) pq' = same_client pq pq'"
  by (simp add: same_client_def)

lemma same_client_trans: "same_client a b \<Longrightarrow> same_client b d \<Longrightarrow> same_client a d"
  by (simp add: same_client_def)

lemma putInternal_usable:
  assumes "client E = checked c" "usable s" "putInternal E ctx r pq s = (err, pq', s')"
  shows "usable s' \<and> same_client pq pq'"
  using assms(2,3) client_usable(1) [OF assms(1,2)]
  by (auto simp: putInternal_def Let_def split: sum.splits prod.splits option.splits)

lemma pq_Offer_usable:
  assumes "client E = checked c" "usable s" "pq_Offer E ctx r pq s = (res, pq', s')"
  shows "usable s' \<and> same_client pq pq'"
proof -
  consider "pq' = pq" "s' = s" | md err where "putInternal E ctx r (pq\<lparr>metadata := md\<rparr>) s = (err, pq', s')"
    using assms(3) unfolding pq_Offer_def Let_def by (auto split: if_splits prod.splits)
  then show ?thesis
  proof cases
    case 1
    then show ?thesis using assms(2) by simp
  next
    case 2
    then show ?thesis using putInternal_usable [OF assms(1,2)] by fastforce
  qed
qed

lemma itemDispatchingFinish_usable:
  assumes "client E = checked c" "usable s" "itemDispatchingFinish E i pq s = (err, pq', s')"
  shows "usable s' \<and> same_client pq pq'"
proof -
  note B = client_usable(1) [OF assms(1)]
  have "usable s'"
    using assms(2,3) unfolding itemDispatchingFinish_def Let_def
    by (auto split: sum.splits prod.splits option.splits) (blast intro: B)+
  then show ?thesis using itemDispatchingFinish_queue [OF assms(3)] by simp
qed

lemma getNextItem_usable:
  assumes "client E = checked c" "usable s" "getNextItem E pq s = (r, pq', s')"
  shows "usable s' \<and> same_client (if r = None then pq else pq\<lparr>refClient := refClient pq + 1\<rparr>) pq'"
  using assms(2,3) client_usable(1) [OF assms(1,2)]
  by (fastforce simp: getNextItem_def Let_def same_client_def split: sum.splits prod.splits option.splits
      dest: itemDispatchingFinish_usable [OF assms(1)])

lemma Read_round_usable:
  assumes "client E = checked c" "usable s" "Read_round E pq s = (r, pq', s')"
  shows "usable s' \<and> same_client (if r = None then pq else pq\<lparr>refClient := refClient pq + 1\<rparr>) pq'"
  using assms(3) getNextItem_usable [OF assms(1,2)]
  by (fastforce simp: Read_round_def same_client_def split: prod.splits)

lemma Read_loop_usable:
  assumes "client E = checked c" "usable s" "Read_loop E pq s = (r, pq', s')"
  shows "usable s' \<and> same_client (case r of Got _ _ _ \<Rightarrow> pq\<lparr>refClient := refClient pq + 1\<rparr> | _ \<Rightarrow> pq) pq'"
  using assms
proof (induction E pq s rule: Read_loop.induct)
  case (1 E pq s)
  show ?case
  proof (cases "ReadIndex (metadata pq) \<noteq> WriteIndex (metadata pq)")
    case False
    then show ?thesis using "1.prems" by (auto simp: Read_loop.simps [of E pq s])
  next
    case True
    obtain x pq1 s1 where g: "Read_round E pq s = (x, pq1, s1)" by (cases "Read_round E pq s") auto
    note G = Read_round_usable [OF "1.prems"(1,2) g]
    show ?thesis
    proof (cases x)
      case None
      then have "Read_loop E pq1 s1 = (r, pq', s')"
        using "1.prems"(3) True g by (simp add: Read_loop.simps [of E pq s])
      then have "usable s' \<and> same_client (case r of Got _ _ _ \<Rightarrow> pq1\<lparr>refClient := refClient pq1 + 1\<rparr> | _ \<Rightarrow> pq1) pq'"
        using "1.IH" [OF True g [symmetric] None refl "1.prems"(1)] G by blast
      then show ?thesis using G None by (cases r) (auto simp: same_client_def)
    next
      case (Some y)
      then show ?thesis using "1.prems"(3) True g G
        by (cases y) (auto simp: Read_loop.simps [of E pq s] same_client_def)
    qed
  qed
qed

lemma unrefClient_usable:
  assumes "client E = checked c" "usable s" "unrefClient E pq s = (e, pq', s')"
  shows "same_client (pq\<lparr>refClient := refClient pq - 1\<rparr>) pq' \<and> \<not> misused s' \<and> (was_closed s' \<longleftrightarrow> refClient pq' = 0)"
  using assms(2,3) client_usable(4) [OF assms(1,2)]
  by (auto simp: unrefClient_def Let_def same_client_def usable_def split: if_splits prod.splits)

lemma onDone_body_usable:
  assumes "client E = checked c" "usable s" "onDone_body E d err pq s = (pq', s')"
  shows "usable s' \<and> same_client pq pq'"
proof (cases "IsShutdownErr err")
  case False
  then obtain e md where "itemDispatchingFinish E (id_index d) (pq\<lparr>metadata := md\<rparr>) s = (e, pq', s')"
    using assms(3) by (auto simp: onDone_body_def Let_def split: prod.splits)
  then show ?thesis using itemDispatchingFinish_usable [OF assms(1,2)] by fastforce
qed (use assms(2,3) in \<open>auto simp: onDone_body_def\<close>)

lemma pq_onDone_usable:
  assumes "client E = checked c" "usable s" "pq_onDone E d err pq s = (pq', s')"
  shows "same_client (pq\<lparr>refClient := refClient pq - 1\<rparr>) pq' \<and> \<not> misused s' \<and> (was_closed s' \<longleftrightarrow> refClient pq' = 0)"
proof -
  obtain pq1 s1 e' where f: "onDone_body E d err pq s = (pq1, s1)" and u: "unrefClient E pq1 s1 = (e', pq', s')"
    using assms(3) by (auto simp: pq_onDone_def split: prod.splits)
  note F = onDone_body_usable [OF assms(1,2) f]
  then show ?thesis using unrefClient_usable [OF assms(1) _ u] by (simp add: same_client_def)
qed

lemma requeue_usable:
  "client E = checked c \<Longrightarrow> usable s \<Longrightarrow> requeue E ops pq s = (pq', s') \<Longrightarrow> usable s' \<and> same_client pq pq'"
proof (induction ops arbitrary: pq s)
  case (Cons op ops)
  have IH: "usable s1 \<Longrightarrow> requeue E ops pq1 s1 = (pq', s') \<Longrightarrow> usable s' \<and> same_client pq1 pq'" for pq1 s1
    using Cons.IH [OF Cons.prems(1)] .
  show ?case
  proof (cases "\<exists>v x. op_Value op = Some v \<and> enc_Unmarshal E (Some v) = Ok x")
    case False
    then have "requeue E ops pq s = (pq', s')" using Cons.prems(3) by (auto split: option.splits sum.splits)
    then show ?thesis using IH Cons.prems(2) by blast
  next
    case True
    then obtain ctx r e pq1 s1 where p: "putInternal E ctx r pq s = (e, pq1, s1)" and q: "requeue E ops pq1 s1 = (pq', s')"
      using Cons.prems(3) by (auto split: prod.splits)
    note P = putInternal_usable [OF Cons.prems(1,2) p]
    then show ?thesis using IH [OF _ q] same_client_trans by blast
  qed
qed simp

lemma enqueue_usable:
  assumes "client E = checked c" "usable s" "enqueueNotDispatchedReqs E is pq s = (pq', s')"
  shows "usable s' \<and> same_client pq pq'"
proof -
  note B = client_usable(1) [OF assms(1)]
  have step: "retrieve_and_cleanup E is s = (x, s1) \<Longrightarrow> usable s1" for x s1
    using assms(2) by (auto simp: retrieve_and_cleanup_def split: prod.splits) (blast intro: B)
  show ?thesis
    using assms(2,3) step by (auto simp: enqueueNotDispatchedReqs_def split: if_splits prod.splits
        dest: requeue_usable [OF assms(1)])
qed

lemma legacy_usable:
  assumes "client E = checked c" "usable s" "loadLegacyMetadata E pq s = (pq', s')"
  shows "usable s' \<and> same_client pq pq'"
proof -
  note B = client_usable(1) [OF assms(1)] and G = client_usable(2) [OF assms(1)] and S = client_usable(3) [OF assms(1)]
  obtain r s1 where l: "legacy_indexes E s = (r, s1)" by fastforce
  have s1: "usable s1" using l assms(2)
    by (auto simp: legacy_indexes_def split: prod.splits option.splits sum.splits intro: B)
  define pq1 where "pq1 = pq\<lparr>metadata := (metadata pq)\<lparr>ReadIndex := fst (case r of Inl _ \<Rightarrow> (0, 0) | Inr p \<Rightarrow> p),
      WriteIndex := snd (case r of Inl _ \<Rightarrow> (0, 0) | Inr p \<Rightarrow> p)\<rparr>\<rparr>"
  obtain pq2 s2 where q: "retrieveAndEnqueueNotDispatchedReqs E pq1 s1 = (pq2, s2)" by fastforce
  have s2: "usable s2 \<and> same_client pq1 pq2" using q s1
    by (auto simp: retrieveAndEnqueueNotDispatchedReqs_def split: prod.splits sum.splits
        intro: G dest: enqueue_usable [OF assms(1), rotated])
  have "usable s' \<and> pq' = pq2"
    using assms(3) l q s2 unfolding loadLegacyMetadata_def pq1_def Let_def
    by (auto split: prod.splits option.splits sum.splits) (blast intro: S B)+
  then show ?thesis using s2 by (simp add: pq1_def)
qed

lemma initClient_usable:
  assumes "client E = checked c" "usable s" "initClient E pq s = (pq', s')"
  shows "usable s' \<and> refClient pq' = 1 \<and> pq_stopped pq' = pq_stopped pq \<and> has_client pq'"
proof -
  obtain r s1 where l: "loadQueueMetadata E s = (r, s1)" by fastforce
  have s1: "usable s1" using l assms(2) client_usable(2) [OF assms(1)]
    by (auto simp: loadQueueMetadata_def split: prod.splits option.splits sum.splits if_splits)
  show ?thesis
    using assms(3) l s1 unfolding initClient_def Let_def
    by (auto split: sum.splits prod.splits if_splits simp: same_client_def
        dest!: legacy_usable [OF assms(1) s1] enqueue_usable [OF assms(1) s1])
qed

text \<open>A client that was closed stays so, and a call of its \<^verbatim>\<open>Batch\<close> is a misuse.\<close>

definition stale :: "'s checkedStorage \<Rightarrow> bool" where
  "stale x \<longleftrightarrow> was_closed x \<or> misused x"

lemma stale_Batch:
  "client E = checked c \<Longrightarrow> stale s \<Longrightarrow> Client_Batch (client E) ops s = (r, s') \<Longrightarrow> misused s'"
  by (auto simp: checked_def monitored_def stale_def split: prod.splits)

lemma stale_finish:
  assumes "client E = checked c" "misused s" "itemDispatchingFinish E i pq s = (err, pq', s')"
  shows "misused s'"
proof -
  have B: "misused t \<Longrightarrow> Client_Batch (client E) ops t = (r, t') \<Longrightarrow> misused t'" for t t' ops r
    using stale_Batch [OF assms(1), of t ops r t'] by (simp add: stale_def)
  show ?thesis using assms(2,3) unfolding itemDispatchingFinish_def Let_def
    by (auto split: sum.splits prod.splits option.splits) (blast intro: B)+
qed

lemma stale_round:
  assumes "client E = checked c" "\<And>md. \<exists>b. proto_Marshal E md = Ok b" "stale s" "Read_round E pq s = (r, pq', s')"
  shows "misused s'"
proof -
  obtain y pq1 where g: "getNextItem E pq s = (y, pq1, s')"
    using assms(4) by (auto simp: Read_round_def split: prod.splits)
  have "proto_Marshal E md \<noteq> Inl e" for md e using assms(2) [of md] by auto
  then show ?thesis
    using g stale_Batch [OF assms(1,3)] unfolding getNextItem_def Let_def
    by (auto split: sum.splits prod.splits option.splits dest: stale_finish [OF assms(1), rotated])
qed

lemma stale_loop:
  assumes "client E = checked c" "\<And>md. \<exists>b. proto_Marshal E md = Ok b" "stale s"
    "ReadIndex (metadata pq) \<noteq> WriteIndex (metadata pq)" "Read_loop E pq s = (r, pq', s')"
  shows "misused s'"
  using assms
proof (induction E pq s rule: Read_loop.induct)
  case (1 E pq s)
  obtain x pq1 s1 where g: "Read_round E pq s = (x, pq1, s1)" by (cases "Read_round E pq s") auto
  have G: "misused s1" by (rule stale_round [OF "1.prems"(1,2,3) g])
  show ?case
  proof (cases x)
    case None
    then have loop: "Read_loop E pq1 s1 = (r, pq', s')"
      using "1.prems"(4,5) g by (simp add: Read_loop.simps [of E pq s])
    show ?thesis
    proof (cases "ReadIndex (metadata pq1) = WriteIndex (metadata pq1)")
      case True
      then show ?thesis using loop G by (simp add: Read_loop.simps [of E pq1])
    next
      case False
      have "stale s1" using G by (simp add: stale_def)
      from "1.IH" [OF "1.prems"(4) g [symmetric] None refl "1.prems"(1,2) this False loop] show ?thesis .
    qed
  next
    case (Some y)
    then show ?thesis using "1.prems"(4,5) g G by (cases y) (auto simp: Read_loop.simps [of E pq s])
  qed
qed

lemma stale_Offer:
  assumes "client E = checked c" "\<And>md. \<exists>b. proto_Marshal E md = Ok b" "enc_Marshal E ctx r = Ok b" "stale s"
    "wrap64 (internalSize pq + activeSizer E (pq_sizerType pq) r) \<le> pq_capacity pq" "pq_Offer E ctx r pq s = (res, pq', s')"
  shows "misused s'"
proof -
  obtain md err where p: "putInternal E ctx r (pq\<lparr>metadata := md\<rparr>) s = (err, pq', s')"
    using assms(5,6) unfolding pq_Offer_def Let_def by (auto split: if_splits prod.splits)
  have "proto_Marshal E md \<noteq> Inl e" for md e using assms(2) [of md] by auto
  then show ?thesis using p assms(3) stale_Batch [OF assms(1,4)]
    by (auto simp: putInternal_def Let_def split: sum.splits prod.splits option.splits)
qed

text \<open>
  \<open>client_run E pq s out leaving loops\<close>: the queue was started and used in any interleaving. The consumers have the
  requests \<open>out\<close>. \<^verbatim>\<open>hasMoreSpace.Signal\<close> gives up the lock when its channel is full (\<open>Cond\<close>): \<open>leaving\<close> callbacks
  gave it up before their deferred \<^verbatim>\<open>unrefClient\<close>, and \<open>loops\<close> calls of \<^verbatim>\<open>Read\<close> gave it up in the inner loop, after an
  item that could not be read; when they get the lock back they go on with the loop, which does not check
  \<^verbatim>\<open>stopped\<close>. The run includes \<^verbatim>\<open>Offer\<close> after \<^verbatim>\<open>Shutdown\<close>. It ends where an \<^verbatim>\<open>Offer\<close> or such a \<^verbatim>\<open>Read\<close> finds the client
  closed, and it has one \<^verbatim>\<open>Shutdown\<close>; the theorem says what these three calls do.
\<close>

inductive client_run ::
  "('c, 'r, 's checkedStorage, 'e) pqEnv \<Rightarrow> persistentQueue \<Rightarrow> 's checkedStorage \<Rightarrow> indexDone list \<Rightarrow> nat \<Rightarrow> nat \<Rightarrow> bool"
  for E where
  started: "client_run E pq s' [] 0 0"
    if "usable s" "initClient E (newPersistentQueue capacity szt block) s = (pq, s')"
| offered: "client_run E pq' s' out leaving loops"
    if "client_run E pq s out leaving loops" "\<not> was_closed s" "pq_Offer E ctx req pq s = (res, pq', s')"
| read_one: "client_run E pq' s' (out @ [d]) leaving loops"
    if "client_run E pq s out leaving loops" "pq_Read E pq s = (Got ctx req d, pq', s')"
| read_none: "client_run E pq' s' out leaving loops"
    if "client_run E pq s out leaving loops" "pq_Read E pq s = (r, pq', s')" "r \<in> {Closed, Blocked}"
| read_unlocks: "client_run E pq' s' out leaving (Suc loops)"
    if "client_run E pq s out leaving loops" "\<not> pq_stopped pq" "ReadIndex (metadata pq) \<noteq> WriteIndex (metadata pq)"
      "Read_round E pq s = (None, pq', s')"
| loop_one: "client_run E pq' s' (out @ [d]) leaving loops"
    if "client_run E pq s out leaving (Suc loops)" "\<not> was_closed s" "Read_loop E pq s = (Got ctx req d, pq', s')"
| loop_none: "client_run E pq' s' out leaving loops"
    if "client_run E pq s out leaving (Suc loops)" "\<not> was_closed s" "Read_loop E pq s = (Blocked, pq', s')"
| loop_unlocks: "client_run E pq' s' out leaving (Suc loops)"
    if "client_run E pq s out leaving (Suc loops)" "\<not> was_closed s" "ReadIndex (metadata pq) \<noteq> WriteIndex (metadata pq)"
      "Read_round E pq s = (None, pq', s')"
| finished: "client_run E pq' s' (remove1 d out) leaving loops"
    if "client_run E pq s out leaving loops" "d \<in> set out" "pq_onDone E d (err :: string go_error option) pq s = (pq', s')"
| finish_unlocks: "client_run E pq' s' (remove1 d out) (Suc leaving) loops"
    if "client_run E pq s out leaving loops" "d \<in> set out" "\<not> IsShutdownErr (err :: string go_error option)"
      "onDone_body E d err pq s = (pq', s')"
| left: "client_run E pq' s' out leaving loops"
    if "client_run E pq s out (Suc leaving) loops" "unrefClient E pq s = (e, pq', s')"
| shut_down: "client_run E pq' s' out leaving loops"
    if "client_run E pq s out leaving loops" "\<not> pq_stopped pq" "pq_Shutdown E pq s = (e, pq', s')"

definition client_inv :: "persistentQueue \<Rightarrow> 's checkedStorage \<Rightarrow> indexDone list \<Rightarrow> nat \<Rightarrow> bool" where
  "client_inv pq s out leaving \<longleftrightarrow> \<not> misused s \<and> (was_closed s \<longleftrightarrow> refClient pq = 0) \<and> has_client pq \<and>
     refClient pq = (if pq_stopped pq then 0 else 1) + int (length out) + int leaving"

lemma client_inv_same:
  "client_inv pq s out leaving \<Longrightarrow> usable s' \<Longrightarrow> same_client pq pq' \<Longrightarrow> \<not> was_closed s \<Longrightarrow> client_inv pq' s' out leaving"
  by (auto simp: client_inv_def same_client_def usable_def)

lemma client_inv_taken:
  "client_inv pq s out leaving \<Longrightarrow> usable s' \<Longrightarrow> same_client (pq\<lparr>refClient := refClient pq + 1\<rparr>) pq' \<Longrightarrow>
   client_inv pq' s' (out @ [d]) leaving"
  by (auto simp: client_inv_def same_client_def usable_def split: if_splits)

lemma client_inv_closed:
  assumes "client_inv pq s out leaving"
  shows "was_closed s \<longleftrightarrow> pq_stopped pq \<and> out = [] \<and> leaving = 0"
  using assms by (cases out) (auto simp: client_inv_def)

lemma client_inv_usable:
  assumes "client_inv pq s out leaving"
  shows "\<not> was_closed s \<Longrightarrow> usable s" "\<not> pq_stopped pq \<Longrightarrow> usable s" "out \<noteq> [] \<Longrightarrow> usable s" "leaving \<noteq> 0 \<Longrightarrow> usable s"
  using client_inv_closed [OF assms] assms by (auto simp: client_inv_def usable_def)

lemma client_run_inv:
  assumes "client E = checked c"
  shows "client_run E pq s out leaving loops \<Longrightarrow> client_inv pq s out leaving"
proof (induction rule: client_run.induct)
  case (started s capacity szt block pq s')
  then show ?case using initClient_usable [OF assms started] by (simp add: client_inv_def usable_def newPersistentQueue_def)
next
  case (offered pq s out leaving loops ctx req res pq' s')
  note us = client_inv_usable(1) [OF offered.IH offered.hyps(2)]
  from pq_Offer_usable [OF assms us offered.hyps(3)] show ?case
    using client_inv_same [OF offered.IH, of s' pq'] offered.hyps(2) by simp
next
  case (read_one pq s out leaving loops ctx req d pq' s')
  then have live: "\<not> pq_stopped pq" "Read_loop E pq s = (Got ctx req d, pq', s')" by (auto simp: pq_Read_def split: if_splits)
  from Read_loop_usable [OF assms client_inv_usable(2) [OF read_one.IH live(1)] live(2)] show ?case
    using client_inv_taken [OF read_one.IH, of s' pq'] by simp
next
  case (read_none pq s out leaving loops r pq' s')
  show ?case
  proof (cases "pq_stopped pq")
    case True
    then show ?thesis using read_none by (simp add: pq_Read_def)
  next
    case False
    note us = client_inv_usable(2) [OF read_none.IH False]
    from False have "Read_loop E pq s = (r, pq', s')" using read_none.hyps(2) by (simp add: pq_Read_def)
    from Read_loop_usable [OF assms us this] show ?thesis
      using client_inv_same [OF read_none.IH, of s' pq'] read_none.hyps(3) us by (auto simp: usable_def)
  qed
next
  case (read_unlocks pq s out leaving loops pq' s')
  note us = client_inv_usable(2) [OF read_unlocks.IH read_unlocks.hyps(2)]
  from Read_round_usable [OF assms us read_unlocks.hyps(4)] show ?case
    using client_inv_same [OF read_unlocks.IH, of s' pq'] us by (simp add: usable_def)
next
  case (loop_one pq s out leaving loops ctx req d pq' s')
  from Read_loop_usable [OF assms client_inv_usable(1) [OF loop_one.IH loop_one.hyps(2)] loop_one.hyps(3)] show ?case
    using client_inv_taken [OF loop_one.IH, of s' pq'] by simp
next
  case (loop_none pq s out leaving loops pq' s')
  from Read_loop_usable [OF assms client_inv_usable(1) [OF loop_none.IH loop_none.hyps(2)] loop_none.hyps(3)] show ?case
    using client_inv_same [OF loop_none.IH, of s' pq'] loop_none.hyps(2) by simp
next
  case (loop_unlocks pq s out leaving loops pq' s')
  from Read_round_usable [OF assms client_inv_usable(1) [OF loop_unlocks.IH loop_unlocks.hyps(2)] loop_unlocks.hyps(4)] show ?case
    using client_inv_same [OF loop_unlocks.IH, of s' pq'] loop_unlocks.hyps(2) by simp
next
  case (finished pq s out leaving loops d err pq' s')
  have len: "length out = Suc (length (remove1 d out))" and us: "usable s"
    using finished.hyps(2) client_inv_usable(3) [OF finished.IH] by (auto simp: length_remove1 dest: length_pos_if_in_set)
  from pq_onDone_usable [OF assms us finished.hyps(3)] show ?case using finished.IH len
    by (auto simp: client_inv_def same_client_def)
next
  case (finish_unlocks pq s out leaving loops d err pq' s')
  have len: "length out = Suc (length (remove1 d out))" and us: "usable s"
    using finish_unlocks.hyps(2) client_inv_usable(3) [OF finish_unlocks.IH] by (auto simp: length_remove1 dest: length_pos_if_in_set)
  from onDone_body_usable [OF assms us finish_unlocks.hyps(4)] show ?case using finish_unlocks.IH len us
    by (auto simp: client_inv_def same_client_def usable_def)
next
  case (left pq s out leaving loops e pq' s')
  have us: "usable s" by (rule client_inv_usable(4) [OF left.IH]) simp
  from unrefClient_usable [OF assms us left.hyps(2)] show ?case using left.IH
    by (auto simp: client_inv_def same_client_def)
next
  case (shut_down pq s out leaving loops e pq' s')
  note us = client_inv_usable(2) [OF shut_down.IH shut_down.hyps(2)]
  have "unrefClient E (pq\<lparr>pq_stopped := True\<rparr>) s = (e, pq', s')"
    using shut_down.IH shut_down.hyps(3) by (simp add: pq_Shutdown_def client_inv_def)
  from unrefClient_usable [OF assms us this] show ?case using shut_down.IH shut_down.hyps(2)
    by (auto simp: client_inv_def same_client_def)
qed


text \<open>
  One request is offered and read; the queue is shut down, and the client is closed by the callback. In the second run an
  item that cannot be decoded is dropped while another one is queued, and \<^verbatim>\<open>Shutdown\<close> comes before \<^verbatim>\<open>Read\<close> goes on.
\<close>

definition checked_env :: "(unit, byte list, mockStorage checkedStorage, string) pqEnv" where
  "checked_env = \<lparr>client = checked MockStorageClient, proto_Marshal = proto_Marshal mock_env,
     proto_Unmarshal = proto_Unmarshal mock_env, enc_Marshal = enc_Marshal mock_env,
     enc_Unmarshal = (\<lambda>b. if b = Some [0] then Err ''corrupt'' else enc_Unmarshal mock_env b),
     itemsSizer = itemsSizer mock_env, bytesSizer = bytesSizer mock_env\<rparr>"

definition empty_checked :: "mockStorage checkedStorage" where
  "empty_checked = \<lparr>inner = \<lparr>st = Map.empty, closed = False, panicked = False\<rparr>, was_closed = False, misused = False\<rparr>"

definition checked_new :: "persistentQueue \<times> mockStorage checkedStorage" where
  "checked_new = initClient checked_env (newPersistentQueue 10 SizerTypeItems False) empty_checked"

definition checked_one :: "persistentQueue \<times> mockStorage checkedStorage" where
  "checked_one = snd (pq_Offer checked_env () [1] (fst checked_new) (snd checked_new))"

definition checked_read :: "persistentQueue \<times> mockStorage checkedStorage" where
  "checked_read = snd (pq_Read checked_env (fst checked_one) (snd checked_one))"

definition checked_stop :: "persistentQueue \<times> mockStorage checkedStorage" where
  "checked_stop = snd (pq_Shutdown checked_env (fst checked_read) (snd checked_read))"

definition checked_end :: "persistentQueue \<times> mockStorage checkedStorage" where
  "checked_end = pq_onDone checked_env sample_done (None :: string go_error option) (fst checked_stop) (snd checked_stop)"

definition corrupt_two :: "persistentQueue \<times> mockStorage checkedStorage" where
  "corrupt_two = (case snd (pq_Offer checked_env () [0] (fst checked_new) (snd checked_new)) of (pq, s) \<Rightarrow>
     snd (pq_Offer checked_env () [1] pq s))"

definition corrupt_dropped :: "persistentQueue \<times> mockStorage checkedStorage" where
  "corrupt_dropped = snd (Read_round checked_env (fst corrupt_two) (snd corrupt_two))"

definition corrupt_stop :: "persistentQueue \<times> mockStorage checkedStorage" where
  "corrupt_stop = snd (pq_Shutdown checked_env (fst corrupt_dropped) (snd corrupt_dropped))"

lemma checked_steps:
  "fst (pq_Read checked_env (fst checked_one) (snd checked_one)) = Got () [1] sample_done"
  "\<not> pq_stopped (fst checked_read)"
  "\<not> was_closed (snd checked_new)"
  "\<not> was_closed (snd (snd (pq_Offer checked_env () [0] (fst checked_new) (snd checked_new))))"
  "\<not> pq_stopped (fst corrupt_two)" "ReadIndex (metadata (fst corrupt_two)) \<noteq> WriteIndex (metadata (fst corrupt_two))"
  "fst (Read_round checked_env (fst corrupt_two) (snd corrupt_two)) = None" "\<not> pq_stopped (fst corrupt_dropped)"
  by code_simp+

lemma checked_new_run: "client_run checked_env (fst checked_new) (snd checked_new) [] 0 0"
  by (rule client_run.started [of empty_checked]) (simp_all add: checked_new_def empty_checked_def usable_def)

lemma checked_stop_run: "client_run checked_env (fst checked_stop) (snd checked_stop) [sample_done] 0 0"
proof -
  have one: "client_run checked_env (fst checked_one) (snd checked_one) [] 0 0"
    by (rule client_run.offered [OF checked_new_run checked_steps(3)]) (simp add: checked_one_def prod_eq_iff)
  have "client_run checked_env (fst checked_read) (snd checked_read) ([] @ [sample_done]) 0 0"
    by (rule client_run.read_one [OF one]) (simp add: checked_read_def prod_eq_iff checked_steps)
  then have read: "client_run checked_env (fst checked_read) (snd checked_read) [sample_done] 0 0" by simp
  show ?thesis
    by (rule client_run.shut_down [OF read checked_steps(2)]) (simp add: checked_stop_def prod_eq_iff)
qed

lemma checked_end_run: "client_run checked_env (fst checked_end) (snd checked_end) [] 0 0"
  using client_run.finished [OF checked_stop_run, of sample_done None] by (simp add: checked_end_def prod_eq_iff)

lemma corrupt_run: "client_run checked_env (fst corrupt_stop) (snd corrupt_stop) [] 0 (Suc 0)"
proof -
  let ?o = "snd (pq_Offer checked_env () [0] (fst checked_new) (snd checked_new))"
  have one: "client_run checked_env (fst ?o) (snd ?o) [] 0 0"
    by (rule client_run.offered [OF checked_new_run checked_steps(3)]) (simp add: prod_eq_iff)
  have two: "client_run checked_env (fst corrupt_two) (snd corrupt_two) [] 0 0"
    by (rule client_run.offered [OF one checked_steps(4)]) (simp add: corrupt_two_def prod_eq_iff split_beta)
  have dropped: "client_run checked_env (fst corrupt_dropped) (snd corrupt_dropped) [] 0 (Suc 0)"
    by (rule client_run.read_unlocks [OF two checked_steps(5,6)]) (simp add: corrupt_dropped_def prod_eq_iff checked_steps)
  show ?thesis
    by (rule client_run.shut_down [OF dropped checked_steps(8)]) (simp add: corrupt_stop_def prod_eq_iff)
qed


section \<open>The metadata stay well-formed\<close>

text \<open>
  The read index is not behind the write index, the dispatched items are different indexes that were read, and the
  sizes are not negative.
\<close>

definition metadata_pre :: "PersistentMetadata \<Rightarrow> bool" where
  "metadata_pre md \<longleftrightarrow> ReadIndex md \<le> WriteIndex md \<and> unat (WriteIndex md) < 2 ^ 63 \<and>
     distinct (CurrentlyDispatchedItems md) \<and> (\<forall>i \<in> set (CurrentlyDispatchedItems md). i < ReadIndex md) \<and>
     0 \<le> ItemsSize md \<and> ItemsSize md < 2 ^ 63 \<and> 0 \<le> BytesSize md \<and> BytesSize md < 2 ^ 63"

text \<open>The sizes are zero when nothing is queued or dispatched.\<close>

definition metadata_wf :: "PersistentMetadata \<Rightarrow> bool" where
  "metadata_wf md \<longleftrightarrow> metadata_pre md \<and>
     (ReadIndex md = WriteIndex md \<and> CurrentlyDispatchedItems md = [] \<longrightarrow> ItemsSize md = 0 \<and> BytesSize md = 0)"

lemma requestSize_exact:
  assumes "metadata_pre md"
  shows "requestSize md = int (unat (WriteIndex md) - unat (ReadIndex md)) + int (length (CurrentlyDispatchedItems md))"
    and "requestSize md < 2 ^ 63"
proof -
  let ?r = "ReadIndex md" and ?w = "WriteIndex md" and ?l = "CurrentlyDispatchedItems md"
  have le: "?r \<le> ?w" and top: "unat ?w < 2 ^ 63" using assms by (simp_all add: metadata_pre_def)
  have d: "unat (?w - ?r) = unat ?w - unat ?r" using le by (simp add: unat_sub word_le_nat_alt)
  then have "uint (?w - ?r) < 2 ^ 63" using top by (simp add: uint_nat)
  then have s: "sint (?w - ?r) = int (unat ?w - unat ?r)" using d by (simp add: sint_uint signed_take_bit_int_eq_self uint_nat)
  have "inj_on unat (set ?l)" by (simp add: inj_on_def word_unat_eq_iff)
  then have "length ?l = card (unat ` set ?l)" using assms by (simp add: metadata_pre_def distinct_card card_image)
  also have "\<dots> \<le> card {..< unat ?r}" using assms by (intro card_mono) (auto simp: metadata_pre_def word_less_nat_alt)
  finally have "length ?l \<le> unat ?r" by simp
  then have "(unat ?w - unat ?r) + length ?l < 2 ^ 63" using top le unfolding word_le_nat_alt by linarith
  then have bound: "int (unat ?w - unat ?r) + int (length ?l) < 2 ^ 63" by (metis of_nat_add of_nat_less_numeral_power_cancel_iff)
  then show eq: "requestSize md = int (unat ?w - unat ?r) + int (length ?l)"
    unfolding requestSize_def s by (intro wrap64_id) simp_all
  show "requestSize md < 2 ^ 63" using bound unfolding eq .
qed

lemma reset_drained_wf: "metadata_pre md \<Longrightarrow> metadata_wf (reset_drained md)"
proof -
  assume pre: "metadata_pre md"
  have "requestSize md = 0" if "ReadIndex md = WriteIndex md" "CurrentlyDispatchedItems md = []"
    using requestSize_exact(1) [OF pre] that by simp
  then show ?thesis using pre by (auto simp: metadata_wf_def metadata_pre_def reset_drained_def)
qed

lemma putInternal_queue:
  "putInternal E ctx r pq s = (err, pq', s') \<Longrightarrow>
   pq' = pq\<lparr>metadata := (metadata pq)\<lparr>WriteIndex := WriteIndex (metadata pq) + 1\<rparr>\<rparr>"
  by (auto simp: putInternal_def Let_def split: sum.splits prod.splits option.splits)

text \<open>The clauses of \<open>metadata_pre\<close> hold afterwards, and the clause on the sizes if it held before.\<close>

definition keeps_metadata :: "persistentQueue \<Rightarrow> persistentQueue \<Rightarrow> bool" where
  "keeps_metadata pq pq' \<longleftrightarrow> metadata_pre (metadata pq') \<and> (metadata_wf (metadata pq) \<longrightarrow> metadata_wf (metadata pq'))"

lemma keeps_metadata_wf: "metadata_wf (metadata pq') \<Longrightarrow> keeps_metadata pq pq'"
  by (simp add: keeps_metadata_def metadata_wf_def)

lemma keeps_metadata_refl: "metadata_pre (metadata pq) \<Longrightarrow> metadata pq' = metadata pq \<Longrightarrow> keeps_metadata pq pq'"
  by (simp add: keeps_metadata_def)

lemma pq_Offer_keeps:
  assumes pre: "metadata_pre (metadata pq)" and room: "unat (WriteIndex (metadata pq)) + 1 < 2 ^ 63"
    and sizes: "0 \<le> itemsSizer E r" "0 \<le> bytesSizer E r"
      "ItemsSize (metadata pq) + itemsSizer E r < 2 ^ 63" "BytesSize (metadata pq) + bytesSizer E r < 2 ^ 63"
    and offer: "pq_Offer E ctx r pq s = (res, pq', s')"
  shows "keeps_metadata pq pq'"
proof -
  let ?md1 = "(metadata pq)\<lparr>ItemsSize := wrap64 (ItemsSize (metadata pq) + itemsSizer E r),
      BytesSize := wrap64 (BytesSize (metadata pq) + bytesSizer E r)\<rparr>"
  consider "pq' = pq" | err where "putInternal E ctx r (pq\<lparr>metadata := ?md1\<rparr>) s = (err, pq', s')"
    using offer unfolding pq_Offer_def Let_def by (auto split: if_splits prod.splits)
  then show ?thesis
  proof cases
    case 2
    have "WriteIndex (metadata pq) \<noteq> -1"
    proof
      assume "WriteIndex (metadata pq) = -1"
      then have "unat (WriteIndex (metadata pq)) = 2 ^ 64 - 1" by (simp add: unsigned_minus_1_eq_mask mask_eq_exp_minus_1)
      then show False using room by simp
    qed
    then have suc: "unat (WriteIndex (metadata pq) + 1) = Suc (unat (WriteIndex (metadata pq)))" by (rule unat_Suc_index)
    have "wrap64 (ItemsSize (metadata pq) + itemsSizer E r) = ItemsSize (metadata pq) + itemsSizer E r"
      "wrap64 (BytesSize (metadata pq) + bytesSizer E r) = BytesSize (metadata pq) + bytesSizer E r"
      using pre sizes by (auto simp: metadata_pre_def intro!: wrap64_id)
    moreover have "ReadIndex (metadata pq) < WriteIndex (metadata pq) + 1"
      using pre suc by (simp add: metadata_pre_def word_le_nat_alt word_less_nat_alt)
    ultimately show ?thesis
      using putInternal_queue [OF 2] pre sizes room suc
      by (intro keeps_metadata_wf) (auto simp: metadata_wf_def metadata_pre_def)
  qed (use pre in \<open>simp add: keeps_metadata_refl\<close>)
qed

lemma finish_wf:
  assumes "metadata_pre (metadata pq)" "itemDispatchingFinish E i pq s = (err, pq', s')"
  shows "metadata_wf (metadata pq')"
proof -
  have "metadata_pre ((metadata pq)\<lparr>CurrentlyDispatchedItems := remove_dispatched i (CurrentlyDispatchedItems (metadata pq))\<rparr>)"
    using assms(1) set_remove_dispatched [of "CurrentlyDispatchedItems (metadata pq)" i] by (auto simp: metadata_pre_def)
  then show ?thesis using itemDispatchingFinish_queue [OF assms(2)] by (simp add: reset_drained_wf)
qed

lemma getNextItem_wf:
  assumes pre: "metadata_pre (metadata pq)" and some: "ReadIndex (metadata pq) \<noteq> WriteIndex (metadata pq)"
    and g: "getNextItem E pq s = (x, pq', s')"
  shows "metadata_wf (metadata pq')"
proof -
  let ?i = "ReadIndex (metadata pq)"
  let ?md = "(metadata pq)\<lparr>ReadIndex := ?i + 1, CurrentlyDispatchedItems := CurrentlyDispatchedItems (metadata pq) @ [?i]\<rparr>"
  have less: "?i < WriteIndex (metadata pq)" using pre some by (simp add: metadata_pre_def order_less_le)
  then have "?i \<noteq> -1" by (metis word_n1_ge leD)
  then have suc: "unat (?i + 1) = Suc (unat ?i)" by (rule unat_Suc_index)
  have up: "j < ?i + 1" if "j < ?i \<or> j = ?i" for j using that suc by (auto simp: word_less_nat_alt)
  have md: "metadata_pre ?md"
    using pre less suc up by (auto simp: metadata_pre_def word_less_nat_alt word_le_nat_alt)
  then have wf': "metadata_wf ?md" by (simp add: metadata_wf_def)
  consider "metadata pq' = ?md" | err s1 where "itemDispatchingFinish E ?i (pq\<lparr>metadata := ?md\<rparr>) s1 = (err, pq', s')"
    using g unfolding getNextItem_def Let_def by (auto split: sum.splits prod.splits option.splits)
  then show ?thesis
  proof cases
    case 1
    then show ?thesis using wf' by simp
  next
    case 2
    then show ?thesis using md finish_wf [of "pq\<lparr>metadata := ?md\<rparr>"] by simp
  qed
qed

lemma Read_round_wf:
  assumes "metadata_pre (metadata pq)" "ReadIndex (metadata pq) \<noteq> WriteIndex (metadata pq)" "Read_round E pq s = (x, pq', s')"
  shows "metadata_wf (metadata pq')"
  using assms(3) getNextItem_wf [OF assms(1,2)] reset_drained_wf
  by (fastforce simp: Read_round_def metadata_wf_def split: prod.splits)

lemma Read_loop_keeps: "metadata_pre (metadata pq) \<Longrightarrow> Read_loop E pq s = (r, pq', s') \<Longrightarrow> keeps_metadata pq pq'"
proof (induction E pq s rule: Read_loop.induct)
  case (1 E pq s)
  show ?case
  proof (cases "ReadIndex (metadata pq) \<noteq> WriteIndex (metadata pq)")
    case False
    then have "pq' = pq" using "1.prems"(2) by (auto simp: Read_loop.simps [of E pq s])
    then show ?thesis using "1.prems"(1) by (simp add: keeps_metadata_refl)
  next
    case True
    obtain x pq1 s1 where g: "Read_round E pq s = (x, pq1, s1)" by (cases "Read_round E pq s") auto
    note wf = Read_round_wf [OF "1.prems"(1) True g]
    then have pre: "metadata_pre (metadata pq1)" by (simp add: metadata_wf_def)
    show ?thesis
    proof (cases x)
      case None
      then have "Read_loop E pq1 s1 = (r, pq', s')" using "1.prems"(2) True g by (simp add: Read_loop.simps [of E pq s])
      from "1.IH" [OF True g [symmetric] None refl pre this] wf show ?thesis
        by (intro keeps_metadata_wf) (simp add: keeps_metadata_def)
    next
      case (Some y)
      then show ?thesis using "1.prems"(2) True g wf
        by (cases y) (auto simp: Read_loop.simps [of E pq s] intro: keeps_metadata_wf)
    qed
  qed
qed

lemma unrefClient_metadata: "unrefClient E p t = (e, p', t') \<Longrightarrow> metadata p' = metadata p"
  by (auto simp: unrefClient_def Let_def split: if_splits prod.splits)

lemma pq_onDone_keeps:
  assumes "metadata_pre (metadata pq)" "0 \<le> id_itemsSize d" "0 \<le> id_bytesSize d" "id_itemsSize d < 2 ^ 63" "id_bytesSize d < 2 ^ 63"
    "pq_onDone E d err pq s = (pq', s')"
  shows "keeps_metadata pq pq'"
proof -
  obtain pq1 s1 e' where body: "onDone_body E d err pq s = (pq1, s1)" and u: "unrefClient E pq1 s1 = (e', pq', s')"
    using assms(6) by (auto simp: pq_onDone_def split: prod.splits)
  note md = unrefClient_metadata [OF u]
  show ?thesis
  proof (cases "IsShutdownErr err")
    case True
    then show ?thesis using body md assms(1) by (auto simp: onDone_body_def intro: keeps_metadata_refl)
  next
    case False
    let ?md = "(metadata pq)\<lparr>BytesSize := max 0 (wrap64 (BytesSize (metadata pq) - id_bytesSize d)),
        ItemsSize := max 0 (wrap64 (ItemsSize (metadata pq) - id_itemsSize d))\<rparr>"
    have "metadata_pre ?md" using assms(1) wrap64_range by (auto simp: metadata_pre_def)
    moreover obtain e where "itemDispatchingFinish E (id_index d) (pq\<lparr>metadata := ?md\<rparr>) s = (e, pq1, s1)"
      using body False unfolding onDone_body_def Let_def by (auto split: prod.splits)
    ultimately have "metadata_wf (metadata pq1)" using finish_wf [of "pq\<lparr>metadata := ?md\<rparr>"] by simp
    then show ?thesis using md by (simp add: keeps_metadata_wf)
  qed
qed

lemma pq_Shutdown_keeps: "metadata_pre (metadata pq) \<Longrightarrow> pq_Shutdown E pq s = (e, pq', s') \<Longrightarrow> keeps_metadata pq pq'"
  using unrefClient_metadata [of E "pq\<lparr>pq_stopped := True\<rparr>" s e pq' s']
  by (intro keeps_metadata_refl) (simp_all add: pq_Shutdown_def split: if_splits)

lemma requeue_metadata:
  "requeue E ops pq s = (pq', s') \<Longrightarrow>
   \<exists>k \<le> length ops. metadata pq' = (metadata pq)\<lparr>WriteIndex := WriteIndex (metadata pq) + of_nat k\<rparr>"
proof (induction ops arbitrary: pq s)
  case (Cons op ops)
  show ?case
  proof (cases "\<exists>v x. op_Value op = Some v \<and> enc_Unmarshal E (Some v) = Ok x")
    case False
    then have "requeue E ops pq s = (pq', s')" using Cons.prems by (auto split: option.splits sum.splits)
    then obtain k where "k \<le> length ops" "metadata pq' = (metadata pq)\<lparr>WriteIndex := WriteIndex (metadata pq) + of_nat k\<rparr>"
      using Cons.IH by blast
    then show ?thesis by (intro exI [of _ k]) simp
  next
    case True
    then obtain ctx r e pq1 s1 where p: "putInternal E ctx r pq s = (e, pq1, s1)" and q: "requeue E ops pq1 s1 = (pq', s')"
      using Cons.prems by (auto split: prod.splits)
    obtain k where "k \<le> length ops" "metadata pq' = (metadata pq1)\<lparr>WriteIndex := WriteIndex (metadata pq1) + of_nat k\<rparr>"
      using Cons.IH [OF q] by blast
    then show ?thesis using putInternal_queue [OF p] by (intro exI [of _ "Suc k"]) simp
  qed
qed (auto intro: exI [of _ 0])

lemma initClient_metadata:
  assumes "\<forall>ops t err ops' t'. Client_Batch (client E) ops t = ((err, ops'), t') \<longrightarrow> length ops' = length ops"
    and "loadQueueMetadata E s = (Ok md, s1)" "initClient E pq s = (pq', s')"
  shows "\<exists>k \<le> length (CurrentlyDispatchedItems md).
    metadata pq' = md\<lparr>WriteIndex := WriteIndex md + of_nat k, CurrentlyDispatchedItems := []\<rparr>"
proof -
  let ?is = "CurrentlyDispatchedItems md" and ?pq = "pq\<lparr>has_client := True, refClient := 1, metadata := md\<rparr>"
  obtain pq1 where enq: "enqueueNotDispatchedReqs E ?is ?pq s1 = (pq1, s')"
      and pq': "metadata pq' = (metadata pq1)\<lparr>CurrentlyDispatchedItems := []\<rparr>"
    using assms(2,3) by (auto simp: initClient_def Let_def split: prod.splits)
  have len: "length ops' = length ?is" if "retrieve_and_cleanup E ?is s1 = ((err, ops'), s2)" for err ops' s2
    using that assms(1) by (fastforce simp: retrieve_and_cleanup_def split: prod.splits)
  consider "metadata pq1 = md" | ops s2 where "length ops = length ?is" "requeue E ops ?pq s2 = (pq1, s')"
    using enq len by (auto simp: enqueueNotDispatchedReqs_def split: if_splits prod.splits)
  then have "\<exists>k \<le> length ?is. metadata pq1 = md\<lparr>WriteIndex := WriteIndex md + of_nat k\<rparr>"
  proof cases
    case 1
    then show ?thesis by (intro exI [of _ 0]) simp
  next
    case 2
    then show ?thesis using requeue_metadata [OF 2(2)] by simp
  qed
  then show ?thesis using pq' by auto
qed

lemma initClient_pre:
  assumes "\<forall>ops t err ops' t'. Client_Batch (client E) ops t = ((err, ops'), t') \<longrightarrow> length ops' = length ops"
    and "loadQueueMetadata E s = (Ok md, s1)" "initClient E pq s = (pq', s')"
    and pre: "metadata_pre md" and room: "unat (WriteIndex md) + length (CurrentlyDispatchedItems md) < 2 ^ 63"
  shows "metadata_pre (metadata pq') \<and> CurrentlyDispatchedItems (metadata pq') = [] \<and>
    ReadIndex (metadata pq') = ReadIndex md \<and> WriteIndex md \<le> WriteIndex (metadata pq') \<and>
    ItemsSize (metadata pq') = ItemsSize md \<and> BytesSize (metadata pq') = BytesSize md"
proof -
  obtain k where k: "k \<le> length (CurrentlyDispatchedItems md)"
      "metadata pq' = md\<lparr>WriteIndex := WriteIndex md + of_nat k, CurrentlyDispatchedItems := []\<rparr>"
    using initClient_metadata [OF assms(1-3)] by blast
  have small: "unat (WriteIndex md) + k < 2 ^ 63" using k(1) room by linarith
  then have "unat (WriteIndex md) + k < 2 ^ LENGTH(64)" by simp
  then have "unat (of_nat (unat (WriteIndex md) + k) :: u64) = unat (WriteIndex md) + k"
    by (simp only: unsigned_of_nat take_bit_nat_eq_self of_nat_id)
  then have "unat (WriteIndex md + of_nat k) = unat (WriteIndex md) + k" by simp
  then show ?thesis using pre small k(2) by (auto simp: metadata_pre_def word_le_nat_alt)
qed


text \<open>A storage on which every call fails. Both queued requests are dropped, and the size is zero again.\<close>

definition failing_env :: "(unit, byte list, unit, string) pqEnv" where
  "failing_env = \<lparr>client = \<lparr>Client_Get = \<lambda>_ s. (Err ''disk full'', s), Client_Set = \<lambda>_ _ s. (Some ''disk full'', s),
       Client_Delete = \<lambda>_ s. (Some ''disk full'', s), Client_Batch = \<lambda>ops s. ((Some ''disk full'', ops), s),
       Client_Close = \<lambda>s. (None, s)\<rparr>,
     proto_Marshal = proto_Marshal mock_env, proto_Unmarshal = proto_Unmarshal mock_env, enc_Marshal = enc_Marshal mock_env,
     enc_Unmarshal = enc_Unmarshal mock_env, itemsSizer = itemsSizer mock_env, bytesSizer = bytesSizer mock_env\<rparr>"

definition two_queued :: persistentQueue where
  "two_queued = \<lparr>pq_capacity = 10, pq_sizerType = SizerTypeItems, pq_blockOnOverflow = False, has_client = True,
     metadata = \<lparr>ItemsSize = 7, BytesSize = 7, ReadIndex = 3, WriteIndex = 5, CurrentlyDispatchedItems = []\<rparr>,
     refClient = 1, pq_stopped = False\<rparr>"

text \<open>A start over such a storage: the stored metadata can be read, nothing else. The dispatched request still counts.\<close>

definition readonly_env :: "(unit, byte list, unit, string) pqEnv" where
  "readonly_env = failing_env\<lparr>client := (client failing_env)\<lparr>Client_Get := \<lambda>k s. (Ok (Some
     (metadata_Marshal \<lparr>ItemsSize = 7, BytesSize = 7, ReadIndex = 5, WriteIndex = 5, CurrentlyDispatchedItems = [4]\<rparr>)), s)\<rparr>\<rparr>"

definition one_dispatched :: persistentQueue where
  "one_dispatched = two_queued\<lparr>metadata :=
     \<lparr>ItemsSize = 7, BytesSize = 7, ReadIndex = 5, WriteIndex = 5, CurrentlyDispatchedItems = [4]\<rparr>\<rparr>"


section \<open>A crash inside the recovery\<close>

lemma requeue_nothing: "decoded E ops = [] \<Longrightarrow> requeue E ops pq s = (pq, s)"
proof (induction ops)
  case (Cons op ops)
  then have "decoded E ops = []" "\<nexists>v x. op_Value op = Some v \<and> enc_Unmarshal E (Some v) = Ok x"
    by (auto simp: decoded_def map_filter_simps split: option.splits sum.splits)
  then show ?case using Cons.IH by (auto split: option.splits sum.splits)
qed simp

context reliable_queue
begin

lemma retrieve_and_cleanup_ok:
  assumes "isopen s"
  obtains s' where "retrieve_and_cleanup E is s =
      ((None, map (\<lambda>i. (GetOperation (getItemKey i))\<lparr>op_Value := data s (getItemKey i)\<rparr>) is), s')" "isopen s'"
    "data s' = (\<lambda>k. if k \<in> getItemKey ` set is then None else data s k)"
proof -
  let ?gets = "map (\<lambda>i. GetOperation (getItemKey i)) is" and ?dels = "map (\<lambda>i. DeleteOperation (getItemKey i)) is"
  obtain s1 where s1: "Client_Batch (client E) ?gets s =
      ((None, map (\<lambda>i. (GetOperation (getItemKey i))\<lparr>op_Value := data s (getItemKey i)\<rparr>) is), s1)" "data s1 = data s" "isopen s1"
    using Batch_ok [OF assms(1), of ?gets] by (auto simp: exec_gets)
  obtain s2 where s2: "Client_Batch (client E) ?dels s1 = ((None, fst (exec_ops ?dels (data s))), s2)" "isopen s2"
      "data s2 = (\<lambda>k. if k \<in> getItemKey ` set is then None else data s k)"
    using Batch_ok [OF s1(3), of ?dels] unfolding s1(2) exec_deletes by blast
  show ?thesis using that s1(1) s2 by (simp add: retrieve_and_cleanup_def)
qed

lemma initClient_nothing_left:
  assumes "isopen s" "data s metadataKey = Some b" "b \<noteq> []" "proto_Unmarshal E b = Ok ms"
    and none: "\<And>i. i \<in> set (CurrentlyDispatchedItems ms) \<Longrightarrow> data s (getItemKey i) = None"
  shows "\<exists>s'. initClient E (newPersistentQueue capacity szt block) s =
      ((newPersistentQueue capacity szt block)\<lparr>has_client := True, refClient := 1, metadata := ms\<lparr>CurrentlyDispatchedItems := []\<rparr>\<rparr>, s')
    \<and> data s' = data s"
proof -
  let ?is = "CurrentlyDispatchedItems ms"
  obtain s1 where s1: "Client_Get (client E) metadataKey s = (Ok (Some b), s1)" "data s1 = data s" "isopen s1"
    using Get [OF assms(1)] assms(2) by metis
  have load: "loadQueueMetadata E s = (Ok ms, s1)" using assms(3,4) by (simp add: loadQueueMetadata_def s1(1))
  obtain s2 where s2: "retrieve_and_cleanup E ?is s1 =
      ((None, map (\<lambda>i. (GetOperation (getItemKey i))\<lparr>op_Value := data s1 (getItemKey i)\<rparr>) ?is), s2)"
      "data s2 = (\<lambda>k. if k \<in> getItemKey ` set ?is then None else data s1 k)"
    by (rule retrieve_and_cleanup_ok [OF s1(3)])
  have "List.map_filter (stored_item E (data s1)) ?is = []"
    using none unfolding s1(2) by (auto simp: map_filter_def stored_item_def filter_empty_conv)
  then have "decoded E (map (\<lambda>i. (GetOperation (getItemKey i))\<lparr>op_Value := data s1 (getItemKey i)\<rparr>) ?is) = []"
    by (simp only: decoded_gets)
  from requeue_nothing [OF this]
  have enq: "enqueueNotDispatchedReqs E ?is q s1 = (q, if ?is = [] then s1 else s2)" for q
    unfolding enqueueNotDispatchedReqs_def s2(1) by simp
  have "data s2 = data s" unfolding s2(2) s1(2) using none by (auto simp: fun_eq_iff)
  then show ?thesis using s1(2) by (auto simp: initClient_def Let_def load enq)
qed

end

text \<open>
  C21. The recovery at start deletes the dispatched requests before it writes them again. If the process stops between the two,
  the next start finds none of them, although they were accepted and not finished; and it still counts their sizes, so
  that a queue with nothing to read can refuse every request as being full.
\<close>

theorem crash_in_recovery_loses_requests:
  assumes "reliable_queue E data isopen reopen" "pq_run E data isopen reopen pq s acc fin out intr"
    "loadQueueMetadata E (reopen s) = (Ok ms, s0)"
    "retrieve_and_cleanup E (CurrentlyDispatchedItems ms) s0 = (retrieved, s1)"
    "initClient E (newPersistentQueue capacity szt block) (reopen s1) = (pq', s')"
  shows "mset (readable E (data s') (metadata pq')) + (mset (map snd out) + mset (map snd intr)) + mset fin = mset acc \<and>
    ItemsSize (metadata pq') = ItemsSize ms \<and>
    (readable E (data s) (metadata pq) = [] \<longrightarrow> szt = SizerTypeItems \<longrightarrow> wrap64 (ItemsSize ms + itemsSizer E r) > capacity \<longrightarrow>
      pq_Read E pq' s' = (Blocked, pq', s') \<and>
      pq_Offer E ctx r pq' s' = (if block then WaitForSpace else OfferReturns (Some ErrQueueIsFull), pq', s'))"
proof -
  note inv = reliable_queue.run_inv [OF assms(1,2), unfolded reliable_queue.run_inv_def [OF assms(1)]]
  have contract: "storage_contract (client E) data isopen reopen" using assms(1) by (simp add: reliable_queue_def)
  note Re = storage_contract.Reopen [OF contract]
  have store: "store_inv E (data s) (metadata pq) (held_items (out @ intr))" using inv by blast
  obtain b ms' where b: "data s metadataKey = Some b" "proto_Unmarshal E b = Ok ms'" "int64_metadata ms'"
      "ReadIndex ms' = ReadIndex (metadata pq)" "WriteIndex ms' = WriteIndex (metadata pq)"
      "\<forall>i \<in> set (CurrentlyDispatchedItems ms'). i < ReadIndex (metadata pq)"
      "set (CurrentlyDispatchedItems (metadata pq)) \<subseteq> set (CurrentlyDispatchedItems ms')"
    using store_invD(3) [OF store] unfolding stored_metadata_def by blast
  obtain s0' where "Client_Get (client E) metadataKey (reopen s) = (Ok (Some b), s0')" "data s0' = data s" "isopen s0'"
    using storage_contract.Get [OF contract Re(1) [of s], of metadataKey] b(1) Re(2) [of s] by auto
  then have s0: "b \<noteq> []" "ms = ms'" "data s0 = data s" "isopen s0"
    using assms(3) b(2) by (auto simp: loadQueueMetadata_def split: if_splits)
  note ms = b [folded s0(2)]
  let ?is = "CurrentlyDispatchedItems ms" and ?md = "ms\<lparr>CurrentlyDispatchedItems := []\<rparr>"
  obtain s1' where s1': "retrieve_and_cleanup E ?is s0 =
      ((None, map (\<lambda>i. (GetOperation (getItemKey i))\<lparr>op_Value := data s0 (getItemKey i)\<rparr>) ?is), s1')"
    "data s1' = (\<lambda>k. if k \<in> getItemKey ` set ?is then None else data s0 k)"
    by (rule reliable_queue.retrieve_and_cleanup_ok [OF assms(1) s0(4)])
  then have "s1' = s1" using assms(4) by simp
  note s1 = s1'(2) [unfolded this s0(3), folded Re(2) [of s1]]
  have "data (reopen s1) metadataKey = Some b" unfolding s1 using ms(1) by auto
  from reliable_queue.initClient_nothing_left [OF assms(1) Re(1) this s0(1) ms(2), of capacity szt block]
  have start: "pq' = (newPersistentQueue capacity szt block)\<lparr>has_client := True, refClient := 1, metadata := ?md\<rparr>" "data s' = data (reopen s1)"
    using assms(5) unfolding s1 by auto
  have rd: "readable E (data s') (metadata pq') = readable E (data s) (metadata pq)"
    using store_inv_deleted(2) [OF store ms(7,6), of ?md] ms(3-5) unfolding start(2) s1 by (simp add: start(1) int64_metadata_def)
  moreover have "pq_Read E pq' s' = (Blocked, pq', s')" if "readable E (data s) (metadata pq) = []"
  proof -
    have "ReadIndex ms = WriteIndex ms"
      using that store_invD(1) [OF store] ms(4,5) index_range_Cons [of "ReadIndex ms" "WriteIndex ms"]
      by (force simp: readable_def order_less_le)
    then show ?thesis by (simp add: pq_Read_def Read_loop.simps start(1) newPersistentQueue_def)
  qed
  ultimately show ?thesis using inv by (auto simp: start(1) newPersistentQueue_def pq_Offer_def internalSize_def activeSizer_def)
qed

text \<open>The only request, of size 1, was read when the process stopped; the capacity is 1.\<close>

definition lost_new :: "persistentQueue \<times> mockStorage" where
  "lost_new = initClient mock_env (newPersistentQueue 1 SizerTypeItems False) \<lparr>st = Map.empty, closed = False, panicked = False\<rparr>"

definition lost_one :: "persistentQueue \<times> mockStorage" where
  "lost_one = snd (pq_Offer mock_env () [1] (fst lost_new) (snd lost_new))"

definition lost_read :: "persistentQueue \<times> mockStorage" where
  "lost_read = snd (pq_Read mock_env (fst lost_one) (snd lost_one))"

definition lost_metadata :: PersistentMetadata where
  "lost_metadata = \<lparr>ItemsSize = 1, BytesSize = 1, ReadIndex = 1, WriteIndex = 1, CurrentlyDispatchedItems = [0]\<rparr>"

definition lost_cleaned :: mockStorage where
  "lost_cleaned = snd (retrieve_and_cleanup mock_env [0] (snd (loadQueueMetadata mock_env ((snd lost_read)\<lparr>closed := False\<rparr>))))"

definition lost_start :: "persistentQueue \<times> mockStorage" where
  "lost_start = initClient mock_env (newPersistentQueue 1 SizerTypeItems False) (lost_cleaned\<lparr>closed := False\<rparr>)"

lemma lost_steps:
  "fst (pq_Offer mock_env () [1] (fst lost_new) (snd lost_new)) = OfferReturns None"
  "fst (pq_Read mock_env (fst lost_one) (snd lost_one)) = Got () [1] sample_done"
  "refClient (fst lost_new) \<noteq> 0" "WriteIndex (metadata (fst lost_new)) \<noteq> -1"
  "fst (loadQueueMetadata mock_env ((snd lost_read)\<lparr>closed := False\<rparr>)) = Ok lost_metadata"
  "readable mock_env (st (snd lost_read)) (metadata (fst lost_read)) = []"
  by code_simp+

lemma lost_run: "mock_run (fst lost_read) (snd lost_read) [[1]] [] [(sample_done, [1])] []"
proof -
  have new: "mock_run (fst lost_new) (snd lost_new) [] [] [] []"
    by (rule pq_run.created [of _ "\<lparr>st = Map.empty, closed = False, panicked = False\<rparr>"]) (simp_all add: lost_new_def)
  have one: "mock_run (fst lost_one) (snd lost_one) (if OfferReturns None = OfferReturns (None :: string pq_error option) then [] @ [[1]] else []) [] [] []"
    by (rule pq_run.offered [OF new lost_steps(3,4), where ctx = "()"]) (simp add: lost_one_def prod_eq_iff lost_steps)
  have "mock_run (fst lost_read) (snd lost_read) [[1]] [] ([] @ [(sample_done, [1])]) []"
    by (rule pq_run.read_one [where ctx = "()"], rule one [simplified]) (simp add: lost_read_def prod_eq_iff lost_steps)
  then show ?thesis by simp
qed

theorem crash_in_recovery_loses_requests_witness:
  "readable mock_env (st (snd lost_start)) (metadata (fst lost_start)) = [] \<and>
   pq_Read mock_env (fst lost_start) (snd lost_start) = (Blocked, lost_start) \<and>
   pq_Offer mock_env () [2] (fst lost_start) (snd lost_start) = (OfferReturns (Some ErrQueueIsFull), lost_start)"
proof -
  have "loadQueueMetadata mock_env ((snd lost_read)\<lparr>closed := False\<rparr>) =
      (Ok lost_metadata, snd (loadQueueMetadata mock_env ((snd lost_read)\<lparr>closed := False\<rparr>)))"
    by (simp add: prod_eq_iff lost_steps(5))
  moreover have "retrieve_and_cleanup mock_env (CurrentlyDispatchedItems lost_metadata)
      (snd (loadQueueMetadata mock_env ((snd lost_read)\<lparr>closed := False\<rparr>))) =
      (fst (retrieve_and_cleanup mock_env [0] (snd (loadQueueMetadata mock_env ((snd lost_read)\<lparr>closed := False\<rparr>)))), lost_cleaned)"
    by (simp add: lost_cleaned_def lost_metadata_def)
  moreover have "initClient mock_env (newPersistentQueue 1 SizerTypeItems False) (lost_cleaned\<lparr>closed := False\<rparr>) = (fst lost_start, snd lost_start)"
    by (simp add: lost_start_def)
  ultimately show ?thesis
    using crash_in_recovery_loses_requests [OF mock_queue.reliable_queue_axioms lost_run, where ctx = "()" and r = "[2]"] lost_steps(6)
    by (fastforce simp: lost_metadata_def mock_env_def wrap64_def)
qed

end
