(* ===== verification/ProtoCodec.thy ===== *)
theory ProtoCodec
  imports Wire
begin

text \<open>
  The vocabulary of the generated protobuf code in \<^verbatim>\<open>pdata/internal/generated_proto_*.go\<close>. Every message has a
  \<^verbatim>\<open>MarshalProto\<close> that writes its fields backwards into a buffer, and an \<^verbatim>\<open>UnmarshalProto\<close> that reads tags and
  fields in a loop; the bodies are sequences of a few kinds of blocks, one definition each here.

  A writer takes the buffer and the position down to which it is filled, and \<open>None\<close> is an index out of range.
  A reader of a field takes the wire type, the buffer, the position and the message so far. \<open>None\<close> stands for a
  loop that does not end. Strings and byte slices are lists of bytes, floating point numbers are their 64 bits,
  and a pointer to a message is its value.
\<close>

section \<open>Writing\<close>

type_synonym writer = "byte list \<times> int \<Rightarrow> (byte list \<times> int) option"

fun writes :: "writer list \<Rightarrow> writer" where
  "writes [] s = Some s"
| "writes (w # ws) s = (case w s of None \<Rightarrow> None | Some s' \<Rightarrow> writes ws s')"

text \<open>\<^verbatim>\<open>pos--; buf[pos] = b\<close>\<close>

definition put_byte :: "byte \<Rightarrow> writer" where
  "put_byte b = (\<lambda>(buf, pos).
     let p = pos - 1 in if p < 0 \<or> int (length buf) \<le> p then None else Some (buf[nat p := b], p))"

text \<open>\<^verbatim>\<open>pos -= l; copy(buf[pos:], s)\<close>\<close>

definition put_raw :: "byte list \<Rightarrow> writer" where
  "put_raw bs = (\<lambda>(buf, pos).
     let p = pos - int (length bs)
     in if p < 0 \<or> int (length buf) < pos then None else Some (take (nat p) buf @ bs @ drop (nat pos) buf, p))"

definition put_varint :: "u64 \<Rightarrow> writer" where
  "put_varint v = (\<lambda>(buf, pos). EncodeVarint buf pos v)"

definition put_fixed64 :: "u64 \<Rightarrow> writer" where
  "put_fixed64 v = put_raw (le_bytes 8 (unat v))"

definition put_fixed32 :: "32 word \<Rightarrow> writer" where
  "put_fixed32 v = put_raw (le_bytes 4 (unat v))"

text \<open>The bytes of a tag, written from the last one.\<close>

definition put_tag :: "byte list \<Rightarrow> writer" where
  "put_tag tag = writes (map put_byte (rev tag))"

text \<open>The blocks of \<^verbatim>\<open>MarshalProto\<close>, by the kind of field.\<close>

definition w_fixed64 :: "byte list \<Rightarrow> u64 \<Rightarrow> writer" where
  "w_fixed64 tag v = (if v \<noteq> 0 then writes [put_fixed64 v, put_tag tag] else Some)"

definition w_fixed32 :: "byte list \<Rightarrow> 32 word \<Rightarrow> writer" where
  "w_fixed32 tag v = (if v \<noteq> 0 then writes [put_fixed32 v, put_tag tag] else Some)"

text \<open>A comparison with \<^verbatim>\<open>float64(0)\<close> holds for both zeros.\<close>

definition double_is_zero :: "u64 \<Rightarrow> bool" where
  "double_is_zero v \<longleftrightarrow> v = 0 \<or> v = 0x8000000000000000"

definition w_double :: "byte list \<Rightarrow> u64 \<Rightarrow> writer" where
  "w_double tag v = (if \<not> double_is_zero v then writes [put_fixed64 v, put_tag tag] else Some)"

definition w_present64 :: "byte list \<Rightarrow> u64 \<Rightarrow> writer" where
  "w_present64 tag v = writes [put_fixed64 v, put_tag tag]"

definition w_optional64 :: "byte list \<Rightarrow> u64 option \<Rightarrow> writer" where
  "w_optional64 tag x = (case x of None \<Rightarrow> Some | Some v \<Rightarrow> w_present64 tag v)"

definition w_varint :: "byte list \<Rightarrow> u64 \<Rightarrow> writer" where
  "w_varint tag v = (if v \<noteq> 0 then writes [put_varint v, put_tag tag] else Some)"

definition w_present_varint :: "byte list \<Rightarrow> u64 \<Rightarrow> writer" where
  "w_present_varint tag v = writes [put_varint v, put_tag tag]"

definition w_bool :: "byte list \<Rightarrow> bool \<Rightarrow> writer" where
  "w_bool tag b = (if b then writes [put_byte 1, put_tag tag] else Some)"

definition w_present_bool :: "byte list \<Rightarrow> bool \<Rightarrow> writer" where
  "w_present_bool tag b = writes [put_byte (if b then 1 else 0), put_tag tag]"

text \<open>\<^verbatim>\<open>(uint32(v)<<1)^uint32(v>>31)\<close>\<close>

definition zigzag32 :: "32 word \<Rightarrow> 32 word" where
  "zigzag32 v = push_bit 1 v XOR signed_drop_bit 31 v"

definition w_sint32 :: "byte list \<Rightarrow> 32 word \<Rightarrow> writer" where
  "w_sint32 tag v = (if v \<noteq> 0 then writes [put_varint (ucast (zigzag32 v)), put_tag tag] else Some)"

definition w_present_bytes :: "byte list \<Rightarrow> byte list \<Rightarrow> writer" where
  "w_present_bytes tag s = writes [put_raw s, put_varint (of_nat (length s)), put_tag tag]"

definition w_bytes :: "byte list \<Rightarrow> byte list \<Rightarrow> writer" where
  "w_bytes tag s = (if length s > 0 then w_present_bytes tag s else Some)"

definition w_repeated_bytes :: "byte list \<Rightarrow> byte list list \<Rightarrow> writer" where
  "w_repeated_bytes tag ss = writes (map (w_present_bytes tag) (rev ss))"

text \<open>\<^verbatim>\<open>l = m.MarshalProto(buf[:pos]); pos -= l; pos = proto.EncodeVarint(buf, pos, uint64(l))\<close> and the tag.\<close>

definition w_message :: "byte list \<Rightarrow> writer \<Rightarrow> writer" where
  "w_message tag m = (\<lambda>(buf, pos).
     case m (buf, pos) of
       None \<Rightarrow> None
     | Some (buf1, pos1) \<Rightarrow> writes [put_varint (word_of_int (pos - pos1)), put_tag tag] (buf1, pos1))"

definition w_repeated :: "byte list \<Rightarrow> ('a \<Rightarrow> writer) \<Rightarrow> 'a list \<Rightarrow> writer" where
  "w_repeated tag m xs = writes (map (\<lambda>x. w_message tag (m x)) (rev xs))"

text \<open>A pointer to a message that may be nil.\<close>

definition w_optional_message :: "byte list \<Rightarrow> ('a \<Rightarrow> writer) \<Rightarrow> 'a option \<Rightarrow> writer" where
  "w_optional_message tag m x = (case x of None \<Rightarrow> Some | Some v \<Rightarrow> w_message tag (m v))"

definition w_packed64 :: "byte list \<Rightarrow> u64 list \<Rightarrow> writer" where
  "w_packed64 tag vs =
     (if length vs > 0
      then writes (map put_fixed64 (rev vs) @ [put_varint (of_nat (length vs * 8)), put_tag tag]) else Some)"

definition w_packed_varint :: "byte list \<Rightarrow> u64 list \<Rightarrow> writer" where
  "w_packed_varint tag vs =
     (if length vs > 0 then w_message tag (writes (map put_varint (rev vs))) else Some)"

text \<open>The sizes: a field with its length in front, \<open>k\<close> being the number of bytes of the tag.\<close>

definition size_len :: "nat \<Rightarrow> nat \<Rightarrow> nat" where
  "size_len k l = k + Sov (of_nat l) + l"

definition size_bytes :: "nat \<Rightarrow> byte list \<Rightarrow> nat" where
  "size_bytes k s = (if length s > 0 then size_len k (length s) else 0)"

definition size_optional :: "nat \<Rightarrow> ('a \<Rightarrow> nat) \<Rightarrow> 'a option \<Rightarrow> nat" where
  "size_optional k sz x = (case x of None \<Rightarrow> 0 | Some v \<Rightarrow> size_len k (sz v))"

definition size_packed64 :: "nat \<Rightarrow> u64 list \<Rightarrow> nat" where
  "size_packed64 k vs = (if length vs > 0 then size_len k (length vs * 8) else 0)"

definition size_packed_varint :: "nat \<Rightarrow> u64 list \<Rightarrow> nat" where
  "size_packed_varint k vs = (if length vs > 0 then size_len k (sum_list (map Sov vs)) else 0)"

section \<open>Reading\<close>

type_synonym 'm unmarshalled = "(proto_error, 'm) result option"

type_synonym 'm reader = "int \<Rightarrow> byte list \<Rightarrow> int \<Rightarrow> 'm \<Rightarrow> ('m \<times> int) unmarshalled"

text \<open>The loop of \<^verbatim>\<open>UnmarshalProto\<close>; \<open>h\<close> is the switch over the field numbers.\<close>

partial_function (option) fields :: "(int \<Rightarrow> 'm reader) \<Rightarrow> byte list \<Rightarrow> int \<Rightarrow> 'm \<Rightarrow> 'm unmarshalled" where
  "fields h buf pos m =
     (if pos < int (length buf) then
        (case ConsumeTag buf pos of
           Inl e \<Rightarrow> Some (Err e)
         | Inr (fieldNum, wireType, pos1) \<Rightarrow>
             (case h fieldNum wireType buf pos1 m of
                None \<Rightarrow> None
              | Some (Inl e) \<Rightarrow> Some (Err e)
              | Some (Inr (m1, pos2)) \<Rightarrow> fields h buf pos2 m1))
      else Some (Ok m))"

declare fields.simps [code]

definition unmarshal :: "(int \<Rightarrow> 'm reader) \<Rightarrow> byte list \<Rightarrow> 'm \<Rightarrow> 'm unmarshalled" where
  "unmarshal h buf m = fields h buf 0 m"

definition slice :: "byte list \<Rightarrow> int \<Rightarrow> int \<Rightarrow> byte list" where
  "slice buf a b = take (nat (b - a)) (drop (nat a) buf)"

text \<open>The cases of the switch, by the kind of field.\<close>

definition r_varint :: "string \<Rightarrow> (u64 \<Rightarrow> 'm \<Rightarrow> 'm) \<Rightarrow> 'm reader" where
  "r_varint name put wireType buf pos m =
     (if wireType \<noteq> WireTypeVarint then Some (Err (WrongWireType wireType name))
      else case ConsumeVarint buf pos of Inl e \<Rightarrow> Some (Err e) | Inr (num, pos') \<Rightarrow> Some (Ok (put num m, pos')))"

definition r_fixed64 :: "string \<Rightarrow> (u64 \<Rightarrow> 'm \<Rightarrow> 'm) \<Rightarrow> 'm reader" where
  "r_fixed64 name put wireType buf pos m =
     (if wireType \<noteq> WireTypeI64 then Some (Err (WrongWireType wireType name))
      else case ConsumeI64 buf pos of Inl e \<Rightarrow> Some (Err e) | Inr (num, pos') \<Rightarrow> Some (Ok (put num m, pos')))"

definition r_fixed32 :: "string \<Rightarrow> (32 word \<Rightarrow> 'm \<Rightarrow> 'm) \<Rightarrow> 'm reader" where
  "r_fixed32 name put wireType buf pos m =
     (if wireType \<noteq> WireTypeI32 then Some (Err (WrongWireType wireType name))
      else case ConsumeI32 buf pos of Inl e \<Rightarrow> Some (Err e) | Inr (num, pos') \<Rightarrow> Some (Ok (put num m, pos')))"

text \<open>A field with a length; \<open>f\<close> is what is done with its bytes.\<close>

definition r_len :: "string \<Rightarrow> (byte list \<Rightarrow> 'm \<Rightarrow> 'm unmarshalled) \<Rightarrow> 'm reader" where
  "r_len name f wireType buf pos m =
     (if wireType \<noteq> WireTypeLen then Some (Err (WrongWireType wireType name))
      else case ConsumeLen buf pos of
             Inl e \<Rightarrow> Some (Err e)
           | Inr (len, pos') \<Rightarrow>
               (case f (slice buf (pos' - len) pos') m of
                  None \<Rightarrow> None
                | Some (Inl e) \<Rightarrow> Some (Err e)
                | Some (Inr m') \<Rightarrow> Some (Ok (m', pos'))))"

definition r_bytes :: "string \<Rightarrow> (byte list \<Rightarrow> 'm \<Rightarrow> 'm) \<Rightarrow> 'm reader" where
  "r_bytes name put = r_len name (\<lambda>s m. Some (Ok (put s m)))"

text \<open>A message in a field: \<open>get\<close> is the message that is unmarshalled into, \<open>put\<close> puts it back.\<close>

definition r_message ::
  "string \<Rightarrow> (byte list \<Rightarrow> 'v \<Rightarrow> 'v unmarshalled) \<Rightarrow> ('m \<Rightarrow> 'v) \<Rightarrow> ('v \<Rightarrow> 'm \<Rightarrow> 'm) \<Rightarrow> 'm reader" where
  "r_message name u get put = r_len name (\<lambda>s m.
     case u s (get m) of None \<Rightarrow> None | Some (Inl e) \<Rightarrow> Some (Err e) | Some (Inr v) \<Rightarrow> Some (Ok (put v m)))"

fun packed64 :: "nat \<Rightarrow> byte list \<Rightarrow> int \<Rightarrow> (proto_error, u64 list \<times> int) result" where
  "packed64 0 buf startPos = Ok ([], startPos)"
| "packed64 (Suc n) buf startPos =
     (case ConsumeI64 buf startPos of
        Inl e \<Rightarrow> Err e
      | Inr (num, p) \<Rightarrow> (case packed64 n buf p of Inl e \<Rightarrow> Err e | Inr (nums, p') \<Rightarrow> Ok (num # nums, p')))"

definition r_packed64 :: "string \<Rightarrow> (u64 list \<Rightarrow> 'm \<Rightarrow> 'm) \<Rightarrow> (u64 \<Rightarrow> 'm \<Rightarrow> 'm) \<Rightarrow> 'm reader" where
  "r_packed64 name put add wireType buf pos m =
     (if wireType = WireTypeLen then
        (case ConsumeLen buf pos of
           Inl e \<Rightarrow> Some (Err e)
         | Inr (len, pos') \<Rightarrow>
             (case packed64 (nat (len div 8)) (take (nat pos') buf) (pos' - len) of
                Inl e \<Rightarrow> Some (Err e)
              | Inr (nums, startPos) \<Rightarrow>
                  if startPos \<noteq> pos' then Some (Err (InvalidFieldLen (pos' - startPos) name))
                  else Some (Ok (put nums m, pos'))))
      else r_fixed64 name add wireType buf pos m)"

function packed_varint :: "byte list \<Rightarrow> int \<Rightarrow> (proto_error, u64 list) result" where
  "packed_varint buf startPos =
     (if startPos < int (length buf) then
        (case ConsumeVarint buf startPos of
           Inl e \<Rightarrow> Err e
         | Inr (num, p) \<Rightarrow> (case packed_varint buf p of Inl e \<Rightarrow> Err e | Inr nums \<Rightarrow> Ok (num # nums)))
      else Ok [])"
  by pat_completeness auto
termination
  by (relation "measure (\<lambda>(buf, pos). nat (int (length buf) - pos))") (auto dest: ConsumeVarint_pos)

declare packed_varint.simps [simp del]

text \<open>The check \<^verbatim>\<open>startPos != pos\<close> behind the loop never holds, because \<^verbatim>\<open>ConsumeVarint\<close> stays inside \<^verbatim>\<open>buf[:pos]\<close>.\<close>

definition r_packed_varint :: "string \<Rightarrow> (u64 list \<Rightarrow> 'm \<Rightarrow> 'm) \<Rightarrow> 'm reader" where
  "r_packed_varint name add wireType buf pos m =
     (if wireType = WireTypeLen then
        (case ConsumeLen buf pos of
           Inl e \<Rightarrow> Some (Err e)
         | Inr (len, pos') \<Rightarrow>
             (case packed_varint (take (nat pos') buf) (pos' - len) of
                Inl e \<Rightarrow> Some (Err e)
              | Inr nums \<Rightarrow> Some (Ok (add nums m, pos'))))
      else r_varint name (\<lambda>num. add [num]) wireType buf pos m)"

definition r_unknown :: "'m reader" where
  "r_unknown wireType buf pos m =
     (case ConsumeUnknown buf pos wireType of Inl e \<Rightarrow> Some (Err e) | Inr pos' \<Rightarrow> Some (Ok (m, pos')))"

section \<open>What a writer writes\<close>

definition emits :: "writer \<Rightarrow> byte list \<Rightarrow> bool" where
  "emits w bs \<longleftrightarrow> (\<forall>buf pos. int (length bs) \<le> pos \<and> pos \<le> int (length buf) \<longrightarrow>
     w (buf, pos) = Some (take (nat (pos - int (length bs))) buf @ bs @ drop (nat pos) buf, pos - int (length bs)))"

lemma emitsD:
  "emits w bs \<Longrightarrow> int (length bs) \<le> pos \<Longrightarrow> pos \<le> int (length buf) \<Longrightarrow>
   w (buf, pos) = Some (take (nat (pos - int (length bs))) buf @ bs @ drop (nat pos) buf, pos - int (length bs))"
  by (simp add: emits_def)

named_theorems emits_intros \<open>what the blocks of MarshalProto write\<close>

lemma emits_Some [emits_intros]: "emits Some []"
  by (simp add: emits_def)

lemma emits_put_raw [emits_intros]: "emits (put_raw bs) bs"
  by (auto simp: emits_def put_raw_def Let_def)

lemma emits_put_byte: "emits (put_byte b) [b]"
  by (auto simp: emits_def put_byte_def Let_def upd_conv_take_nth_drop Suc_nat_eq_nat_zadd1 nat_diff_distrib)

lemma emits_put_varint: "emits (put_varint v) (varint_bytes v)"
proof (unfold emits_def, intro allI impI)
  fix buf :: "byte list" and pos :: int
  assume a: "int (length (varint_bytes v)) \<le> pos \<and> pos \<le> int (length buf)"
  have "EncodeVarint_loop buf (pos - int (Sov v)) v =
      Some (take (nat (pos - int (Sov v))) buf @ varint_bytes v @ drop (nat (pos - int (Sov v)) + length (varint_bytes v)) buf)"
    using a by (intro EncodeVarint_loop_bytes) (simp_all add: length_varint_bytes)
  moreover have "nat (pos - int (Sov v)) + length (varint_bytes v) = nat pos"
    using a unfolding length_varint_bytes by linarith
  ultimately show "put_varint v (buf, pos) =
      Some (take (nat (pos - int (length (varint_bytes v)))) buf @ varint_bytes v @ drop (nat pos) buf, pos - int (length (varint_bytes v)))"
    by (simp add: put_varint_def EncodeVarint_def Let_def length_varint_bytes)
qed

lemma emits_seq:
  assumes "emits w bs" "emits (writes ws) cs"
  shows "emits (writes (w # ws)) (cs @ bs)"
proof (unfold emits_def, intro allI impI)
  fix buf :: "byte list" and pos :: int
  assume a: "int (length (cs @ bs)) \<le> pos \<and> pos \<le> int (length buf)"
  let ?p = "pos - int (length bs)" and ?b = "take (nat (pos - int (length bs))) buf @ bs @ drop (nat pos) buf"
  have "w (buf, pos) = Some (?b, ?p)" using a by (intro emitsD [OF assms(1)]) simp_all
  moreover have "length ?b = length buf" using a by simp linarith
  then have "writes ws (?b, ?p) = Some (take (nat (?p - int (length cs))) ?b @ cs @ drop (nat ?p) ?b, ?p - int (length cs))"
    using a by (intro emitsD [OF assms(2)]) simp_all
  moreover have "nat ?p \<le> length buf" "nat (?p - int (length cs)) \<le> nat ?p" using a by linarith+
  then have "take (nat (?p - int (length cs))) ?b = take (nat (?p - int (length cs))) buf" "drop (nat ?p) ?b = bs @ drop (nat pos) buf"
    by (simp_all add: min_absorb1 min_absorb2)
  ultimately show "writes (w # ws) (buf, pos) =
      Some (take (nat (pos - int (length (cs @ bs)))) buf @ (cs @ bs) @ drop (nat pos) buf, pos - int (length (cs @ bs)))"
    by (simp add: algebra_simps)
qed

lemma emits_writes_Nil [emits_intros]: "emits (writes []) []"
  by (simp add: emits_def)

lemma emits_writes: "list_all2 emits ws bss \<Longrightarrow> emits (writes ws) (concat (rev bss))"
proof (induction ws bss rule: list_all2_induct)
  case (Cons w ws b bss)
  then show ?case using emits_seq [of w b ws "concat (rev bss)"] by (simp del: writes.simps)
qed (simp add: emits_def)

lemma emits_put_tag: "emits (put_tag tag) tag"
proof -
  have "list_all2 emits (map put_byte (rev tag)) (map (\<lambda>b. [b]) (rev tag))"
    by (simp add: list_all2_map1 list_all2_map2 list_all2_same emits_put_byte)
  then have "emits (put_tag tag) (concat (rev (map (\<lambda>b. [b]) (rev tag))))"
    unfolding put_tag_def by (rule emits_writes)
  then show ?thesis by (simp add: rev_map)
qed

lemma emits_pair: "emits a bs \<Longrightarrow> emits b cs \<Longrightarrow> emits (writes [a, b]) (cs @ bs)"
  using emits_writes [of "[a, b]" "[bs, cs]"] by (simp del: writes.simps)

text \<open>The bytes of a field; the ones of a message are those of its fields, the field that is written last being first.\<close>

definition len_bytes :: "byte list \<Rightarrow> byte list \<Rightarrow> byte list" where
  "len_bytes tag bs = tag @ varint_bytes (of_nat (length bs)) @ bs"

definition b_fixed64 :: "byte list \<Rightarrow> u64 \<Rightarrow> byte list" where
  "b_fixed64 tag v = (if v = 0 then [] else tag @ le_bytes 8 (unat v))"

definition b_fixed32 :: "byte list \<Rightarrow> 32 word \<Rightarrow> byte list" where
  "b_fixed32 tag v = (if v = 0 then [] else tag @ le_bytes 4 (unat v))"

definition b_present64 :: "byte list \<Rightarrow> u64 \<Rightarrow> byte list" where
  "b_present64 tag v = tag @ le_bytes 8 (unat v)"

definition b_double :: "byte list \<Rightarrow> u64 \<Rightarrow> byte list" where
  "b_double tag v = (if double_is_zero v then [] else b_present64 tag v)"

definition b_optional64 :: "byte list \<Rightarrow> u64 option \<Rightarrow> byte list" where
  "b_optional64 tag x = (case x of None \<Rightarrow> [] | Some v \<Rightarrow> b_present64 tag v)"

definition b_present_varint :: "byte list \<Rightarrow> u64 \<Rightarrow> byte list" where
  "b_present_varint tag v = tag @ varint_bytes v"

definition b_varint :: "byte list \<Rightarrow> u64 \<Rightarrow> byte list" where
  "b_varint tag v = (if v = 0 then [] else b_present_varint tag v)"

definition b_present_bool :: "byte list \<Rightarrow> bool \<Rightarrow> byte list" where
  "b_present_bool tag b = tag @ [if b then 1 else 0]"

definition b_bool :: "byte list \<Rightarrow> bool \<Rightarrow> byte list" where
  "b_bool tag b = (if b then b_present_bool tag b else [])"

definition b_bytes :: "byte list \<Rightarrow> byte list \<Rightarrow> byte list" where
  "b_bytes tag s = (if s = [] then [] else len_bytes tag s)"

definition b_sint32 :: "byte list \<Rightarrow> 32 word \<Rightarrow> byte list" where
  "b_sint32 tag v = (if v = 0 then [] else tag @ varint_bytes (ucast (zigzag32 v)))"

definition b_repeated :: "byte list \<Rightarrow> byte list list \<Rightarrow> byte list" where
  "b_repeated tag bss = concat (map (len_bytes tag) bss)"

definition b_optional :: "byte list \<Rightarrow> ('a \<Rightarrow> byte list) \<Rightarrow> 'a option \<Rightarrow> byte list" where
  "b_optional tag b x = (case x of None \<Rightarrow> [] | Some v \<Rightarrow> len_bytes tag (b v))"

definition b_packed64 :: "byte list \<Rightarrow> u64 list \<Rightarrow> byte list" where
  "b_packed64 tag vs = (if vs = [] then [] else len_bytes tag (concat (map (\<lambda>v. le_bytes 8 (unat v)) vs)))"

definition b_packed_varint :: "byte list \<Rightarrow> u64 list \<Rightarrow> byte list" where
  "b_packed_varint tag vs = (if vs = [] then [] else len_bytes tag (concat (map varint_bytes vs)))"

lemma emits_w_fixed64 [emits_intros]: "emits (w_fixed64 tag v) (b_fixed64 tag v)"
  using emits_pair [OF emits_put_raw emits_put_tag] emits_Some
  by (simp add: w_fixed64_def b_fixed64_def put_fixed64_def del: writes.simps)

lemma emits_w_fixed32 [emits_intros]: "emits (w_fixed32 tag v) (b_fixed32 tag v)"
  using emits_pair [OF emits_put_raw emits_put_tag] emits_Some
  by (simp add: w_fixed32_def b_fixed32_def put_fixed32_def del: writes.simps)

lemma emits_w_present64 [emits_intros]: "emits (w_present64 tag v) (b_present64 tag v)"
  using emits_pair [OF emits_put_raw emits_put_tag]
  by (simp add: w_present64_def b_present64_def put_fixed64_def del: writes.simps)

lemma emits_w_double [emits_intros]: "emits (w_double tag v) (b_double tag v)"
  using emits_w_present64 emits_Some by (simp add: w_double_def b_double_def w_present64_def del: writes.simps)

lemma emits_w_optional64 [emits_intros]: "emits (w_optional64 tag x) (b_optional64 tag x)"
  using emits_w_present64 emits_Some by (simp add: w_optional64_def b_optional64_def split: option.split)

lemma emits_w_present_varint [emits_intros]: "emits (w_present_varint tag v) (b_present_varint tag v)"
  using emits_pair [OF emits_put_varint emits_put_tag] by (simp add: w_present_varint_def b_present_varint_def del: writes.simps)

lemma emits_w_varint [emits_intros]: "emits (w_varint tag v) (b_varint tag v)"
  using emits_w_present_varint emits_Some by (simp add: w_varint_def b_varint_def w_present_varint_def del: writes.simps)

lemma emits_w_present_bool [emits_intros]: "emits (w_present_bool tag b) (b_present_bool tag b)"
  using emits_pair [OF emits_put_byte emits_put_tag] by (simp add: w_present_bool_def b_present_bool_def del: writes.simps)

lemma emits_w_bool [emits_intros]: "emits (w_bool tag b) (b_bool tag b)"
  using emits_w_present_bool [of tag True] emits_Some
  by (simp add: w_bool_def b_bool_def w_present_bool_def del: writes.simps)

lemma emits_w_sint32 [emits_intros]: "emits (w_sint32 tag v) (b_sint32 tag v)"
  using emits_pair [OF emits_put_varint emits_put_tag] emits_Some
  by (simp add: w_sint32_def b_sint32_def del: writes.simps)

lemma emits_w_present_bytes [emits_intros]: "emits (w_present_bytes tag s) (len_bytes tag s)"
proof -
  have "list_all2 emits [put_raw s, put_varint (of_nat (length s)), put_tag tag] [s, varint_bytes (of_nat (length s)), tag]"
    by (simp add: emits_put_raw emits_put_varint emits_put_tag)
  from emits_writes [OF this] show ?thesis by (simp add: w_present_bytes_def len_bytes_def del: writes.simps)
qed

lemma emits_w_bytes [emits_intros]: "emits (w_bytes tag s) (b_bytes tag s)"
  using emits_w_present_bytes emits_Some by (simp add: w_bytes_def b_bytes_def)

lemma emits_map_rev:
  assumes "\<And>x. x \<in> set xs \<Longrightarrow> emits (w x) (b x)"
  shows "emits (writes (map w (rev xs))) (concat (map b xs))"
proof -
  have "list_all2 emits (map w (rev xs)) (map b (rev xs))"
    using assms by (simp add: list_all2_map1 list_all2_map2 list.rel_refl_strong)
  from emits_writes [OF this] show ?thesis by (simp add: rev_map)
qed

lemma emits_w_repeated_bytes [emits_intros]: "emits (w_repeated_bytes tag ss) (b_repeated tag ss)"
  unfolding w_repeated_bytes_def b_repeated_def by (rule emits_map_rev) (rule emits_w_present_bytes)

lemma emits_w_message [emits_intros]:
  assumes "emits m bs"
  shows "emits (w_message tag m) (len_bytes tag bs)"
proof (unfold emits_def, intro allI impI)
  fix buf :: "byte list" and pos :: int
  assume a: "int (length (len_bytes tag bs)) \<le> pos \<and> pos \<le> int (length buf)"
  let ?v = "of_nat (length bs) :: u64"
  have m: "m (buf, pos) = Some (take (nat (pos - int (length bs))) buf @ bs @ drop (nat pos) buf, pos - int (length bs))"
    using a by (intro emitsD [OF assms]) (simp_all add: len_bytes_def)
  have "emits (writes [m, put_varint ?v, put_tag tag]) (len_bytes tag bs)"
    using emits_writes [of "[m, put_varint ?v, put_tag tag]" "[bs, varint_bytes ?v, tag]"] assms
    by (simp add: len_bytes_def emits_put_varint emits_put_tag del: writes.simps)
  from emitsD [OF this] a have "writes [m, put_varint ?v, put_tag tag] (buf, pos) =
      Some (take (nat (pos - int (length (len_bytes tag bs)))) buf @ len_bytes tag bs @ drop (nat pos) buf, pos - int (length (len_bytes tag bs)))"
    by blast
  then show "w_message tag m (buf, pos) =
      Some (take (nat (pos - int (length (len_bytes tag bs)))) buf @ len_bytes tag bs @ drop (nat pos) buf, pos - int (length (len_bytes tag bs)))"
    by (simp add: w_message_def m)
qed

lemma emits_w_repeated [emits_intros]:
  assumes "\<And>x. x \<in> set xs \<Longrightarrow> emits (m x) (b x)"
  shows "emits (w_repeated tag m xs) (b_repeated tag (map b xs))"
proof -
  have "emits (writes (map (\<lambda>x. w_message tag (m x)) (rev xs))) (concat (map (\<lambda>x. len_bytes tag (b x)) xs))"
    by (rule emits_map_rev) (rule emits_w_message, rule assms)
  then show ?thesis by (simp add: w_repeated_def b_repeated_def comp_def)
qed

lemma emits_w_optional_message [emits_intros]:
  "(\<And>v. x = Some v \<Longrightarrow> emits (m v) (b v)) \<Longrightarrow> emits (w_optional_message tag m x) (b_optional tag b x)"
  by (cases x) (simp_all add: w_optional_message_def b_optional_def emits_Some emits_w_message)

lemma emits_w_packed_varint [emits_intros]: "emits (w_packed_varint tag vs) (b_packed_varint tag vs)"
  using emits_w_message [OF emits_map_rev [of vs put_varint varint_bytes, OF emits_put_varint], of tag] emits_Some
  by (simp add: w_packed_varint_def b_packed_varint_def del: writes.simps)

lemma emits_w_packed64 [emits_intros]: "emits (w_packed64 tag vs) (b_packed64 tag vs)"
proof (cases "vs = []")
  case False
  let ?bs = "map (\<lambda>v. le_bytes 8 (unat v)) vs"
  have len: "length (concat ?bs) = length vs * 8" by (induction vs) simp_all
  have "list_all2 emits (map put_fixed64 (rev vs) @ [put_varint (of_nat (length vs * 8)), put_tag tag])
      (rev ?bs @ [varint_bytes (of_nat (length vs * 8)), tag])"
    by (intro list_all2_appendI)
      (simp_all add: rev_map list_all2_map1 list_all2_map2 list.rel_refl_strong put_fixed64_def emits_put_raw emits_put_varint emits_put_tag)
  from emits_writes [OF this] show ?thesis
    using False by (simp add: w_packed64_def b_packed64_def len_bytes_def len del: writes.simps)
qed (simp add: w_packed64_def b_packed64_def emits_Some)

section \<open>The sizes are the lengths\<close>

named_theorems size_simps \<open>lengths of the bytes of fields\<close>

lemma length_len_bytes [size_simps]: "length (len_bytes tag bs) = size_len (length tag) (length bs)"
  by (simp add: len_bytes_def size_len_def length_varint_bytes)

lemma length_field_bytes [size_simps]:
  "length (b_fixed64 tag v) = (if v \<noteq> 0 then length tag + 8 else 0)"
  "length (b_fixed32 tag v32) = (if v32 \<noteq> 0 then length tag + 4 else 0)"
  "length (b_present64 tag v) = length tag + 8"
  "length (b_double tag v) = (if \<not> double_is_zero v then length tag + 8 else 0)"
  "length (b_optional64 tag x) = (if x \<noteq> None then length tag + 8 else 0)"
  "length (b_present_varint tag v) = length tag + Sov v"
  "length (b_varint tag v) = (if v \<noteq> 0 then length tag + Sov v else 0)"
  "length (b_present_bool tag b) = length tag + 1"
  "length (b_bool tag b) = (if b then length tag + 1 else 0)"
  "length (b_bytes tag s) = size_bytes (length tag) s"
  "length (b_repeated tag bss) = (\<Sum>b\<leftarrow>bss. size_len (length tag) (length b))"
  by (auto simp: b_fixed64_def b_fixed32_def b_present64_def b_double_def b_optional64_def b_present_varint_def b_varint_def
      b_present_bool_def b_bool_def b_bytes_def b_repeated_def size_bytes_def length_len_bytes length_varint_bytes
      length_concat comp_def split: option.split)

lemma length_packed [size_simps]:
  "length (b_packed64 tag vs) = size_packed64 (length tag) vs"
  "length (b_packed_varint tag vs) = size_packed_varint (length tag) vs"
proof -
  have "length (concat (map (\<lambda>v. le_bytes 8 (unat v)) vs)) = length vs * 8" by (induction vs) simp_all
  moreover have "length (concat (map varint_bytes vs)) = sum_list (map Sov vs)"
    by (induction vs) (simp_all add: length_varint_bytes)
  ultimately show "length (b_packed64 tag vs) = size_packed64 (length tag) vs"
    "length (b_packed_varint tag vs) = size_packed_varint (length tag) vs"
    by (simp_all add: b_packed64_def b_packed_varint_def size_packed64_def size_packed_varint_def length_len_bytes)
qed

lemma length_b_optional [size_simps]:
  "length (b_optional tag b x) = size_optional (length tag) (\<lambda>v. length (b v)) x"
  by (simp add: b_optional_def size_optional_def length_len_bytes split: option.split)

lemma w_repeated_cong [fundef_cong]:
  assumes "xs = ys" "\<And>x. x \<in> set ys \<Longrightarrow> f x = g x" "tag = tag'"
  shows "w_repeated tag f xs = w_repeated tag' g ys"
proof -
  have "map (\<lambda>x. w_message tag (f x)) (rev xs) = map (\<lambda>x. w_message tag' (g x)) (rev ys)"
    using assms by simp
  then show ?thesis by (simp only: w_repeated_def)
qed

text \<open>The conversions \<^verbatim>\<open>uint64(v)\<close> of 32-bit values, and back.\<close>

lemma u64_of_32 [simp]:
  "ucast (scast i :: u64) = (i :: 32 word)"
  "ucast (ucast i :: u64) = (i :: 32 word)"
  by (rule bit_word_eqI, simp add: bit_simps)+

lemma u64_of_32_zero [size_simps]:
  "(scast i :: u64) = 0 \<longleftrightarrow> i = (0 :: 32 word)"
  "(ucast i :: u64) = 0 \<longleftrightarrow> i = (0 :: 32 word)"
  by (metis u64_of_32(1) ucast_0 scast_0, metis u64_of_32(2) ucast_0)

section \<open>Reading what was written\<close>

text \<open>\<open>reads h bs m m'\<close>: the loop turns \<open>m\<close> into \<open>m'\<close> on the bytes \<open>bs\<close>, wherever they are in a buffer.\<close>

definition reads :: "(int \<Rightarrow> 'm reader) \<Rightarrow> byte list \<Rightarrow> 'm \<Rightarrow> 'm \<Rightarrow> bool" where
  "reads h bs m m' \<longleftrightarrow> (\<forall>pre suf. length (pre @ bs @ suf) < 2 ^ 62 \<longrightarrow>
     fields h (pre @ bs @ suf) (int (length pre)) m = fields h (pre @ bs @ suf) (int (length (pre @ bs))) m')"

lemma reads_Nil: "reads h [] m m"
  by (simp add: reads_def)

lemma reads_append: "reads h bs m m1 \<Longrightarrow> reads h cs m1 m2 \<Longrightarrow> reads h (bs @ cs) m m2"
  unfolding reads_def
proof (intro allI impI)
  fix pre suf :: "byte list"
  assume 1: "\<forall>pre suf. length (pre @ bs @ suf) < 2 ^ 62 \<longrightarrow>
      fields h (pre @ bs @ suf) (int (length pre)) m = fields h (pre @ bs @ suf) (int (length (pre @ bs))) m1"
    and 2: "\<forall>pre suf. length (pre @ cs @ suf) < 2 ^ 62 \<longrightarrow>
      fields h (pre @ cs @ suf) (int (length pre)) m1 = fields h (pre @ cs @ suf) (int (length (pre @ cs))) m2"
    and l: "length (pre @ (bs @ cs) @ suf) < 2 ^ 62"
  show "fields h (pre @ (bs @ cs) @ suf) (int (length pre)) m = fields h (pre @ (bs @ cs) @ suf) (int (length (pre @ bs @ cs))) m2"
    using 1 [rule_format, of pre "cs @ suf"] 2 [rule_format, of "pre @ bs" suf] l by simp
qed

lemma unmarshal_reads: "reads h bs m m' \<Longrightarrow> length bs < 2 ^ 62 \<Longrightarrow> unmarshal h bs m = Some (Ok m')"
  unfolding reads_def unmarshal_def
  by (drule spec [of _ "[]"], drule spec [of _ "[]"]) (simp add: fields.simps)

text \<open>A tag that is read as a field number and a wire type.\<close>

definition tag_of :: "byte list \<Rightarrow> int \<Rightarrow> int \<Rightarrow> bool" where
  "tag_of tag f w \<longleftrightarrow> tag \<noteq> [] \<and> (\<exists>v. tag = varint_bytes v \<and> sint (ucast (drop_bit 3 v) :: 32 word) = f \<and> 0 < f \<and>
     sint (ucast (v AND 0x7) :: 8 word) = w)"

lemma tag_of_consume:
  assumes "tag_of tag f w"
  shows "ConsumeTag (pre @ tag @ rest) (int (length pre)) = Inr (f, w, int (length (pre @ tag)))"
proof -
  obtain v where v: "tag = varint_bytes v" "sint (ucast (drop_bit 3 v) :: 32 word) = f" "0 < f" "sint (ucast (v AND 0x7) :: 8 word) = w"
    using assms by (auto simp: tag_of_def)
  have "ConsumeVarint (pre @ tag @ rest) (int (length pre)) = Inr (v, int (length pre) + int (Sov v))"
    by (rule ConsumeVarint_bytes [where rest = rest]) (simp_all add: v(1))
  then show ?thesis using v by (simp add: ConsumeTag_def Let_def length_varint_bytes)
qed

lemma reads_field:
  assumes tag: "tag_of tag f w"
    and h: "\<And>pre suf. length (pre @ bs @ suf) < 2 ^ 62 \<Longrightarrow>
      h f w (pre @ bs @ suf) (int (length pre)) m = Some (Ok (m', int (length (pre @ bs))))"
  shows "reads h (tag @ bs) m m'"
  unfolding reads_def
proof (intro allI impI)
  fix pre suf :: "byte list"
  let ?buf = "pre @ (tag @ bs) @ suf"
  assume l: "length ?buf < 2 ^ 62"
  have t: "ConsumeTag ?buf (int (length pre)) = Inr (f, w, int (length (pre @ tag)))"
    using tag_of_consume [OF tag, of pre "bs @ suf"] by simp
  have "h f w ?buf (int (length (pre @ tag))) m = Some (Ok (m', int (length (pre @ tag @ bs))))"
    using h [of "pre @ tag" suf] l by simp
  moreover have "0 < length tag" using tag by (simp add: tag_of_def)
  then have "int (length pre) < int (length ?buf)" unfolding length_append by linarith
  ultimately show "fields h ?buf (int (length pre)) m = fields h ?buf (int (length (pre @ tag @ bs))) m'"
    using t by (subst fields.simps) simp
qed

lemma ConsumeI64_at:
  assumes "length (pre @ le_bytes 8 (unat v) @ suf) < 2 ^ 62"
  shows "ConsumeI64 (pre @ le_bytes 8 (unat v) @ suf) (int (length pre)) = Inr (v, int (length pre) + 8)"
  using ConsumeFixed(1) [of "int (length pre)" "pre @ le_bytes 8 (unat v) @ suf"] assms
  by (simp add: little_endian_word)

lemma ConsumeI32_at:
  assumes "length (pre @ le_bytes 4 (unat v) @ suf) < 2 ^ 62"
  shows "ConsumeI32 (pre @ le_bytes 4 (unat v) @ suf) (int (length pre)) = Inr (v, int (length pre) + 4)"
  using ConsumeFixed(2) [of "int (length pre)" "pre @ le_bytes 4 (unat v) @ suf"] assms
  by (simp add: little_endian_word)

lemma ConsumeVarint_at:
  "ConsumeVarint (pre @ varint_bytes v @ suf) (int (length pre)) = Inr (v, int (length pre) + int (length (varint_bytes v)))"
  unfolding length_varint_bytes by (rule ConsumeVarint_bytes [where rest = suf]) simp_all

lemma ConsumeLen_at:
  assumes "length (pre @ varint_bytes (of_nat (length bs)) @ bs @ suf) < 2 ^ 62"
  shows "ConsumeLen (pre @ varint_bytes (of_nat (length bs)) @ bs @ suf) (int (length pre)) =
    Inr (int (length bs), int (length (pre @ varint_bytes (of_nat (length bs) :: u64) @ bs)))"
proof -
  let ?v = "of_nat (length bs) :: u64"
  have "length bs < 2 ^ 62" using assms by simp
  then have s: "sint ?v = int (length bs)" by (simp add: signed_of_nat signed_take_bit_int_eq_self)
  have "wrap64 (int (length pre) + int (length (varint_bytes ?v)) + int (length bs)) =
      int (length pre) + int (length (varint_bytes ?v)) + int (length bs)"
    using assms by (intro wrap64_id) simp_all
  then show ?thesis by (simp add: ConsumeLen_def ConsumeVarint_at Let_def s)
qed

text \<open>The blocks of \<^verbatim>\<open>MarshalProto\<close> and the cases of \<^verbatim>\<open>UnmarshalProto\<close> fit together, kind by kind.\<close>

lemma reads_present64:
  assumes "tag_of tag f WireTypeI64" "h f = r_fixed64 name put"
  shows "reads h (b_present64 tag v) m (put v m)"
  unfolding b_present64_def
  by (rule reads_field [OF assms(1)]) (simp add: assms(2) r_fixed64_def ConsumeI64_at)

lemma reads_fixed64:
  assumes "tag_of tag f WireTypeI64" "h f = r_fixed64 name put" "put 0 m = m"
  shows "reads h (b_fixed64 tag v) m (put v m)"
  using reads_present64 [of tag f h name put v m] assms reads_Nil [of h m]
  by (cases "v = 0") (simp_all add: b_fixed64_def b_present64_def)

lemma reads_double:
  assumes "tag_of tag f WireTypeI64" "h f = r_fixed64 name put" "double_is_zero v \<Longrightarrow> put v m = m"
  shows "reads h (b_double tag v) m (put v m)"
  using reads_present64 [of tag f h name put v m] assms reads_Nil [of h m] by (simp add: b_double_def)

lemma reads_optional64:
  assumes "tag_of tag f WireTypeI64" "h f = r_fixed64 name (\<lambda>v. put (Some v))" "put None m = m"
  shows "reads h (b_optional64 tag x) m (put x m)"
  using reads_present64 [of tag f h name "\<lambda>v. put (Some v)" _ m] assms reads_Nil [of h m]
  by (cases x) (simp_all add: b_optional64_def)

lemma reads_fixed32:
  assumes "tag_of tag f WireTypeI32" "h f = r_fixed32 name put" "put 0 m = m"
  shows "reads h (b_fixed32 tag v) m (put v m)"
proof (cases "v = 0")
  case False
  have "reads h (tag @ le_bytes 4 (unat v)) m (put v m)"
    by (rule reads_field [OF assms(1)]) (simp add: assms(2) r_fixed32_def ConsumeI32_at)
  then show ?thesis using False by (simp add: b_fixed32_def)
qed (use assms(3) in \<open>simp add: b_fixed32_def reads_Nil\<close>)

lemma reads_present_varint:
  assumes "tag_of tag f WireTypeVarint" "h f = r_varint name put"
  shows "reads h (b_present_varint tag v) m (put v m)"
  unfolding b_present_varint_def
  by (rule reads_field [OF assms(1)]) (simp add: assms(2) r_varint_def ConsumeVarint_at)

lemma reads_varint:
  assumes "tag_of tag f WireTypeVarint" "h f = r_varint name put" "put 0 m = m"
  shows "reads h (b_varint tag v) m (put v m)"
  using reads_present_varint [of tag f h name put v m] assms reads_Nil [of h m] by (simp add: b_varint_def)

lemma varint_bytes_small: "v < 0x80 \<Longrightarrow> varint_bytes v = [ucast v]"
  by (subst varint_bytes.simps) (simp add: not_le [symmetric])

lemma reads_present_bool:
  assumes "tag_of tag f WireTypeVarint" "h f = r_varint name (\<lambda>num. put (num \<noteq> 0))"
  shows "reads h (b_present_bool tag b) m (put b m)"
proof -
  have "b_present_bool tag b = b_present_varint tag (if b then 1 else 0)"
    by (simp add: b_present_bool_def b_present_varint_def varint_bytes_small)
  then show ?thesis
    using reads_present_varint [of tag f h name "\<lambda>num. put (num \<noteq> 0)" "if b then 1 else 0" m] assms by (cases b) simp_all
qed

lemma reads_bool:
  assumes "tag_of tag f WireTypeVarint" "h f = r_varint name (\<lambda>num. put (num \<noteq> 0))" "put False m = m"
  shows "reads h (b_bool tag b) m (put b m)"
  using reads_present_bool [of tag f h name put True m] assms reads_Nil [of h m] by (cases b) (simp_all add: b_bool_def)

text \<open>\<^verbatim>\<open>int32(uint32(num>>1) ^ uint32(int32((num&1)<<31)>>31))\<close>\<close>

definition unzigzag32 :: "u64 \<Rightarrow> 32 word" where
  "unzigzag32 num = ucast (drop_bit 1 num) XOR signed_drop_bit 31 (ucast (push_bit 31 (num AND 1)))"

lemma reads_len:
  assumes "tag_of tag f WireTypeLen" "h f = r_len name g" "length bs < 2 ^ 62 \<Longrightarrow> g bs m = Some (Ok m')"
  shows "reads h (len_bytes tag bs) m m'"
  unfolding len_bytes_def
proof (rule reads_field [OF assms(1)])
  fix pre suf :: "byte list"
  let ?v = "of_nat (length bs) :: u64"
  assume l: "length (pre @ (varint_bytes ?v @ bs) @ suf) < 2 ^ 62"
  have c: "ConsumeLen (pre @ (varint_bytes ?v @ bs) @ suf) (int (length pre)) =
      Inr (int (length bs), int (length (pre @ varint_bytes ?v @ bs)))"
    using ConsumeLen_at [of pre bs suf] l by simp
  have sl: "slice (pre @ (varint_bytes ?v @ bs) @ suf) (int (length (pre @ varint_bytes ?v @ bs)) - int (length bs))
      (int (length (pre @ varint_bytes ?v @ bs))) = bs"
  proof -
    have "nat (int (length (pre @ varint_bytes ?v @ bs)) - int (length bs)) = length (pre @ varint_bytes ?v)" by simp
    then show ?thesis by (simp add: slice_def)
  qed
  have "g bs m = Some (Ok m')" using assms(3) l by simp
  then show "h f WireTypeLen (pre @ (varint_bytes ?v @ bs) @ suf) (int (length pre)) m =
      Some (Ok (m', int (length (pre @ varint_bytes ?v @ bs))))"
    unfolding assms(2) r_len_def c sum.case prod.case sl by simp
qed

lemma reads_present_bytes:
  assumes "tag_of tag f WireTypeLen" "h f = r_bytes name put"
  shows "reads h (len_bytes tag s) m (put s m)"
  by (rule reads_len [OF assms(1)]) (simp_all add: assms(2) r_bytes_def)

lemma reads_bytes:
  assumes "tag_of tag f WireTypeLen" "h f = r_bytes name put" "put [] m = m"
  shows "reads h (b_bytes tag s) m (put s m)"
  using reads_present_bytes [of tag f h name put s m] assms reads_Nil [of h m] by (simp add: b_bytes_def)

lemma reads_message:
  assumes "tag_of tag f WireTypeLen" "h f = r_message name u get put" "length bs < 2 ^ 62 \<Longrightarrow> u bs (get m) = Some (Ok v)"
  shows "reads h (len_bytes tag bs) m (put v m)"
proof -
  let ?g = "\<lambda>s m. case u s (get m) of None \<Rightarrow> None | Some (Inl e) \<Rightarrow> Some (Err e) | Some (Inr v) \<Rightarrow> Some (Ok (put v m))"
  have "h f = r_len name ?g" by (simp add: assms(2) r_message_def)
  then show ?thesis by (rule reads_len [where h = h and f = f, OF assms(1)]) (simp add: assms(3))
qed

text \<open>A repeated field: \<open>S ys\<close> is the message in which the field has the value \<open>ys\<close>.\<close>

lemma reads_repeated:
  assumes "tag_of tag f WireTypeLen" "h f = r_message name u get put"
    "\<And>x ys. x \<in> set xs \<Longrightarrow> length (b x) < 2 ^ 62 \<Longrightarrow> u (b x) (get (S ys)) = Some (Ok x)"
    "\<And>x ys. put x (S ys) = S (ys @ [x])"
  shows "reads h (b_repeated tag (map b xs)) (S ys) (S (ys @ xs))"
  using assms(3)
proof (induction xs arbitrary: ys)
  case (Cons x xs)
  have "reads h (len_bytes tag (b x)) (S ys) (put x (S ys))"
    using Cons.prems by (intro reads_message [where h = h and f = f, OF assms(1,2)]) simp
  moreover have "reads h (b_repeated tag (map b xs)) (S (ys @ [x])) (S ((ys @ [x]) @ xs))"
    using Cons.prems by (intro Cons.IH) simp
  ultimately show ?case using reads_append by (fastforce simp: b_repeated_def assms(4))
qed (simp add: b_repeated_def reads_Nil)

lemma reads_repeated_bytes:
  assumes "tag_of tag f WireTypeLen" "h f = r_bytes name put" "\<And>x ys. put x (S ys) = S (ys @ [x])"
  shows "reads h (b_repeated tag xs) (S ys) (S (ys @ xs))"
proof (induction xs arbitrary: ys)
  case (Cons x xs)
  show ?case
    using reads_append [OF reads_present_bytes [where h = h and f = f, OF assms(1,2), of x "S ys"]] Cons.IH [of "ys @ [x]"]
    by (fastforce simp: b_repeated_def assms(3))
qed (simp add: b_repeated_def reads_Nil)

lemma packed64_at:
  assumes "length (pre @ concat (map (\<lambda>v. le_bytes 8 (unat v)) vs)) < 2 ^ 62"
  shows "packed64 (length vs) (pre @ concat (map (\<lambda>v. le_bytes 8 (unat v)) vs)) (int (length pre)) =
    Ok (vs, int (length (pre @ concat (map (\<lambda>v. le_bytes 8 (unat v)) vs))))"
  using assms
proof (induction vs arbitrary: pre)
  case (Cons v vs)
  let ?tl = "concat (map (\<lambda>v. le_bytes 8 (unat v)) vs)"
  have "ConsumeI64 (pre @ le_bytes 8 (unat v) @ ?tl) (int (length pre)) = Inr (v, int (length pre) + 8)"
    using Cons.prems by (intro ConsumeI64_at) simp
  moreover have "packed64 (length vs) ((pre @ le_bytes 8 (unat v)) @ ?tl) (int (length (pre @ le_bytes 8 (unat v)))) =
      Ok (vs, int (length ((pre @ le_bytes 8 (unat v)) @ ?tl)))"
    using Cons.prems by (intro Cons.IH) simp
  ultimately show ?case by (simp add: add.commute)
qed simp

lemma packed_varint_at:
  "packed_varint (pre @ concat (map varint_bytes vs)) (int (length pre)) = Ok vs"
proof (induction vs arbitrary: pre)
  case (Cons v vs)
  have "varint_bytes v \<noteq> []" by (simp add: varint_bytes.simps [of v])
  moreover have "ConsumeVarint (pre @ varint_bytes v @ concat (map varint_bytes vs)) (int (length pre)) =
      Inr (v, int (length (pre @ varint_bytes v)))"
    using ConsumeVarint_at [of pre v "concat (map varint_bytes vs)"] by simp
  ultimately show ?case using Cons.IH [of "pre @ varint_bytes v"]
    by (subst packed_varint.simps) (simp add: length_greater_0_conv [symmetric] del: length_greater_0_conv)
qed (simp add: packed_varint.simps)

lemma reads_packed64:
  assumes "tag_of tag f WireTypeLen" "h f = r_packed64 name put add" "put [] m = m"
  shows "reads h (b_packed64 tag vs) m (put vs m)"
proof (cases "vs = []")
  case False
  let ?bs = "concat (map (\<lambda>v. le_bytes 8 (unat v)) vs)"
  have len: "length ?bs = length vs * 8" by (induction vs) simp_all
  have "reads h (tag @ varint_bytes (of_nat (length ?bs)) @ ?bs) m (put vs m)"
  proof (rule reads_field [OF assms(1)])
    fix pre suf :: "byte list"
    let ?v = "of_nat (length ?bs) :: u64"
    assume l: "length (pre @ (varint_bytes ?v @ ?bs) @ suf) < 2 ^ 62"
    have c: "ConsumeLen (pre @ (varint_bytes ?v @ ?bs) @ suf) (int (length pre)) =
        Inr (int (length ?bs), int (length (pre @ varint_bytes ?v @ ?bs)))"
      using ConsumeLen_at [of pre ?bs suf] l by simp
    have p: "packed64 (length vs) ((pre @ varint_bytes ?v) @ ?bs) (int (length (pre @ varint_bytes ?v))) =
        Ok (vs, int (length ((pre @ varint_bytes ?v) @ ?bs)))"
      using l by (intro packed64_at) simp
    show "h f WireTypeLen (pre @ (varint_bytes ?v @ ?bs) @ suf) (int (length pre)) m =
        Some (Ok (put vs m, int (length (pre @ varint_bytes ?v @ ?bs))))"
      unfolding assms(2) r_packed64_def c using p len by simp
  qed
  then show ?thesis using False by (simp add: b_packed64_def len_bytes_def)
qed (use assms(3) in \<open>simp add: b_packed64_def reads_Nil\<close>)

lemma reads_packed_varint:
  assumes "tag_of tag f WireTypeLen" "h f = r_packed_varint name add" "add [] m = m"
  shows "reads h (b_packed_varint tag vs) m (add vs m)"
proof (cases "vs = []")
  case False
  let ?bs = "concat (map varint_bytes vs)"
  have "reads h (tag @ varint_bytes (of_nat (length ?bs)) @ ?bs) m (add vs m)"
  proof (rule reads_field [OF assms(1)])
    fix pre suf :: "byte list"
    let ?v = "of_nat (length ?bs) :: u64"
    assume l: "length (pre @ (varint_bytes ?v @ ?bs) @ suf) < 2 ^ 62"
    have c: "ConsumeLen (pre @ (varint_bytes ?v @ ?bs) @ suf) (int (length pre)) =
        Inr (int (length ?bs), int (length (pre @ varint_bytes ?v @ ?bs)))"
      using ConsumeLen_at [of pre ?bs suf] l by simp
    have p: "packed_varint ((pre @ varint_bytes ?v) @ ?bs) (int (length (pre @ varint_bytes ?v))) = Ok vs"
      by (rule packed_varint_at)
    show "h f WireTypeLen (pre @ (varint_bytes ?v @ ?bs) @ suf) (int (length pre)) m =
        Some (Ok (add vs m, int (length (pre @ varint_bytes ?v @ ?bs))))"
      unfolding assms(2) r_packed_varint_def c using p by simp
  qed
  then show ?thesis using False by (simp add: b_packed_varint_def len_bytes_def)
qed (use assms(3) in \<open>simp add: b_packed_varint_def reads_Nil\<close>)

lemma tag_of_byte:
  assumes "b < 0x80" "f = int (unat b div 8)" "0 < f" "w = int (unat b mod 8)"
  shows "tag_of [b] f w"
proof -
  let ?v = "ucast b :: u64"
  have b: "unat b < 128" using assms(1) by (simp add: word_less_nat_alt)
  then have u: "unat ?v = unat b" by (simp add: unsigned_ucast_eq take_bit_nat_eq_self)
  have "?v < 0x80" using b u by (simp add: word_less_nat_alt)
  moreover have "ucast ?v = b" by (rule bit_word_eqI) (simp add: bit_simps)
  ultimately have "varint_bytes ?v = [b]" by (simp add: varint_bytes_small)
  moreover have d: "unat (drop_bit 3 ?v) = unat b div 8" by (simp add: drop_bit_eq_div unat_div u)
  then have "unat (ucast (drop_bit 3 ?v) :: 32 word) = unat b div 8" using b by (simp add: unsigned_ucast_eq take_bit_nat_eq_self)
  then have "sint (ucast (drop_bit 3 ?v) :: 32 word) = f"
    using b assms(2) by (simp add: sint_uint uint_nat signed_take_bit_int_eq_self)
  moreover have "?v AND 0x7 = take_bit 3 ?v"
  proof -
    have "(0x7 :: u64) = mask 3" by (simp add: mask_eq_exp_minus_1)
    then show ?thesis by (simp only: take_bit_eq_mask)
  qed
  then have "unat (?v AND 0x7) = unat b mod 8" by (simp add: take_bit_eq_mod unat_mod u)
  then have "unat (ucast (?v AND 0x7) :: 8 word) = unat b mod 8" by (simp add: unsigned_ucast_eq take_bit_nat_eq_self)
  then have "sint (ucast (?v AND 0x7) :: 8 word) = w"
    using assms(4) by (simp add: sint_uint uint_nat signed_take_bit_int_eq_self)
  ultimately show ?thesis using assms(3) unfolding tag_of_def by (intro conjI exI [of _ ?v]) simp_all
qed

lemma tag_of_two_bytes:
  "tag_of [0x85, 0x1] 16 WireTypeI32"
  "tag_of [0xc2, 0x3e] 1000 WireTypeLen"
proof -
  have v: "varint_bytes 0x85 = [0x85, 0x1]" "varint_bytes 0x1f42 = [0xc2, 0x3e]"
    by (simp_all add: varint_bytes.simps [of "0x85"] varint_bytes.simps [of "0x1f42"] varint_bytes_small)
  show "tag_of [0x85, 0x1] 16 WireTypeI32"
    unfolding tag_of_def WireType_defs by (intro conjI exI [of _ "0x85"]) (simp_all add: v)
  show "tag_of [0xc2, 0x3e] 1000 WireTypeLen"
    unfolding tag_of_def WireType_defs by (intro conjI exI [of _ "0x1f42"]) (simp_all add: v)
qed

lemma bit_zigzag32: "bit (zigzag32 v) n \<longleftrightarrow> n < 32 \<and> (bit v 31 \<noteq> (0 < n \<and> bit v (n - 1)))"
  unfolding zigzag32_def bit_xor_iff bit_push_bit_iff bit_signed_drop_bit_iff possible_bit_word
  by (cases "n = 0") (auto dest: bit_imp_le_length)

lemma unzigzag32_zigzag32: "unzigzag32 (ucast (zigzag32 v)) = v"
proof (rule bit_word_eqI)
  fix n
  assume n: "n < LENGTH(32)"
  have m: "bit (ucast (push_bit 31 ((ucast (zigzag32 v) :: u64) AND 1)) :: 32 word) 31 \<longleftrightarrow> bit (zigzag32 v) 0"
    by (simp only: bit_ucast_iff bit_push_bit_iff bit_and_iff bit_1_iff) simp
  have "bit (ucast (drop_bit 1 (ucast (zigzag32 v) :: u64)) :: 32 word) n \<longleftrightarrow> bit (zigzag32 v) (Suc n)"
    using n by (simp only: bit_ucast_iff bit_drop_bit_eq comp_def) simp
  moreover have "bit (signed_drop_bit 31 (ucast (push_bit 31 ((ucast (zigzag32 v) :: u64) AND 1)) :: 32 word)) n \<longleftrightarrow> bit (zigzag32 v) 0"
    using n m by (cases "n = 0") (simp_all only: bit_signed_drop_bit_iff, simp_all)
  ultimately show "bit (unzigzag32 (ucast (zigzag32 v))) n \<longleftrightarrow> bit v n"
    using n by (cases "n = 31") (auto simp: unzigzag32_def bit_xor_iff bit_zigzag32)
qed

lemma Soz_zigzag32: "Soz (scast v) = Sov (ucast (zigzag32 v))"
proof -
  have "push_bit 1 (scast v :: u64) XOR signed_drop_bit 63 (scast v) = ucast (zigzag32 v)"
  proof (rule bit_word_eqI)
    fix n
    assume n: "n < LENGTH(64)"
    have s: "bit (scast v :: u64) k \<longleftrightarrow> k < 64 \<and> bit v (if k < 31 then k else 31)" for k
      by (simp add: bit_simps)
    show "bit (push_bit 1 (scast v :: u64) XOR signed_drop_bit 63 (scast v)) n \<longleftrightarrow> bit (ucast (zigzag32 v) :: u64) n"
      using n by (simp only: bit_xor_iff bit_push_bit_iff bit_signed_drop_bit_iff bit_ucast_iff bit_zigzag32 s) auto
  qed
  then show ?thesis by (simp only: Soz_def)
qed

lemma length_sint32 [size_simps]: "length (b_sint32 tag v) = (if v \<noteq> 0 then length tag + Soz (scast v) else 0)"
  by (simp add: b_sint32_def Soz_zigzag32 length_varint_bytes)

lemma reads_sint32:
  assumes "tag_of tag f WireTypeVarint" "h f = r_varint name (\<lambda>num. put (unzigzag32 num))" "put 0 m = m"
  shows "reads h (b_sint32 tag v) m (put v m)"
  using reads_present_varint [of tag f h name "\<lambda>num. put (unzigzag32 num)" "ucast (zigzag32 v)" m] assms reads_Nil [of h m]
  by (cases "v = 0") (simp_all add: b_sint32_def b_present_varint_def unzigzag32_zigzag32)

text \<open>The rules in the form in which the messages use them: \<open>b\<close> gives the bytes of a nested message, and \<open>S\<close> sets a
repeated field.\<close>

lemma reads_submessage:
  assumes "tag_of tag f WireTypeLen" "h f = r_message name u get put" "length (b x) < 2 ^ 62 \<Longrightarrow> u (b x) (get m) = Some (Ok x)"
  shows "reads h (len_bytes tag (b x)) m (put x m)"
  using reads_message [where h = h and f = f, OF assms(1,2)] assms(3) by blast

lemma reads_optional_message:
  assumes "tag_of tag f WireTypeLen" "h f = r_message name u get (\<lambda>v. put (Some v))" "put None m = m"
    "\<And>v. x = Some v \<Longrightarrow> length (b v) < 2 ^ 62 \<Longrightarrow> u (b v) (get m) = Some (Ok v)"
  shows "reads h (b_optional tag b x) m (put x m)"
proof (cases x)
  case (Some v)
  then show ?thesis
    using reads_submessage [where h = h and f = f and b = b and x = v and m = m, OF assms(1,2)] assms(4)
    by (simp add: b_optional_def)
qed (simp add: b_optional_def assms(3) reads_Nil)

lemma reads_submessages:
  assumes "tag_of tag f WireTypeLen" "h f = r_message name u (\<lambda>_. z) put" "S [] m = m"
    "\<And>x ys. put x (S ys m) = S (ys @ [x]) m" "\<And>x. x \<in> set xs \<Longrightarrow> length (b x) < 2 ^ 62 \<Longrightarrow> u (b x) z = Some (Ok x)"
  shows "reads h (b_repeated tag (map b xs)) m (S xs m)"
  using reads_repeated [where h = h and f = f and xs = xs and b = b and ys = "[]" and S = "\<lambda>ys. S ys m", OF assms(1,2)] assms(3-5)
  by simp

lemma reads_strings:
  assumes "tag_of tag f WireTypeLen" "h f = r_bytes name put" "S [] m = m" "\<And>x ys. put x (S ys m) = S (ys @ [x]) m"
  shows "reads h (b_repeated tag xs) m (S xs m)"
  using reads_repeated_bytes [where h = h and f = f and xs = xs and ys = "[]" and S = "\<lambda>ys. S ys m", OF assms(1,2)] assms(3,4)
  by simp

lemma reads_done: "m = m' \<Longrightarrow> reads h [] m m'"
  by (simp add: reads_Nil)

lemma map_u64_of_32 [simp]:
  "map ((ucast :: u64 \<Rightarrow> 32 word) \<circ> scast) vs = vs" "map ((ucast :: u64 \<Rightarrow> 32 word) \<circ> ucast) vs = vs"
  by (induction vs) simp_all

lemma length_concat_rev [size_simps]: "length (concat (rev bss)) = sum_list (map length bss)"
  by (induction bss) simp_all

text \<open>A nested message that cannot be read makes the reading of the whole fail with its error.\<close>

definition fails :: "(int \<Rightarrow> 'm reader) \<Rightarrow> byte list \<Rightarrow> 'm \<Rightarrow> proto_error \<Rightarrow> bool" where
  "fails h bs m e \<longleftrightarrow> (\<forall>pre suf. length (pre @ bs @ suf) < 2 ^ 62 \<longrightarrow>
     fields h (pre @ bs @ suf) (int (length pre)) m = Some (Err e))"

lemma fails_append: "fails h bs m e \<Longrightarrow> fails h (bs @ cs) m e"
  unfolding fails_def by (metis append_assoc)

lemma reads_fails: "reads h bs m m1 \<Longrightarrow> fails h cs m1 e \<Longrightarrow> fails h (bs @ cs) m e"
  unfolding reads_def fails_def by (metis append_assoc)

lemma unmarshal_fails: "fails h bs m e \<Longrightarrow> length bs < 2 ^ 62 \<Longrightarrow> unmarshal h bs m = Some (Err e)"
  unfolding fails_def unmarshal_def
  by (drule spec [of _ "[]"], drule spec [of _ "[]"]) simp

lemma fails_message:
  assumes tag: "tag_of tag f WireTypeLen" and h: "h f = r_message name u get put"
    and u: "length bs < 2 ^ 62 \<Longrightarrow> u bs (get m) = Some (Err e)"
  shows "fails h (len_bytes tag bs) m e"
  unfolding fails_def
proof (intro allI impI)
  fix pre suf :: "byte list"
  let ?v = "of_nat (length bs) :: u64" and ?buf = "pre @ len_bytes tag bs @ suf"
  assume l: "length ?buf < 2 ^ 62"
  have t: "ConsumeTag ?buf (int (length pre)) = Inr (f, WireTypeLen, int (length (pre @ tag)))"
    using tag_of_consume [OF tag, of pre "varint_bytes ?v @ bs @ suf"] by (simp add: len_bytes_def)
  have c: "ConsumeLen ?buf (int (length (pre @ tag))) = Inr (int (length bs), int (length (pre @ tag @ varint_bytes ?v @ bs)))"
    using ConsumeLen_at [of "pre @ tag" bs suf] l by (simp add: len_bytes_def)
  have "nat (int (length (pre @ tag @ varint_bytes ?v @ bs)) - int (length bs)) = length (pre @ tag @ varint_bytes ?v)" by simp
  then have sl: "slice ?buf (int (length (pre @ tag @ varint_bytes ?v @ bs)) - int (length bs))
      (int (length (pre @ tag @ varint_bytes ?v @ bs))) = bs"
    by (simp add: slice_def len_bytes_def)
  have "u bs (get m) = Some (Err e)" using u l by (simp add: len_bytes_def)
  then have "h f WireTypeLen ?buf (int (length (pre @ tag))) m = Some (Err e)"
    unfolding h r_message_def r_len_def c sum.case prod.case sl by simp
  moreover have "0 < length tag" using tag by (simp add: tag_of_def)
  then have "int (length pre) < int (length ?buf)" unfolding length_append len_bytes_def by linarith
  ultimately show "fields h ?buf (int (length pre)) m = Some (Err e)"
    using t by (subst fields.simps) simp
qed

lemma fails_repeated:
  assumes "tag_of tag f WireTypeLen" "h f = r_message name u get put" "\<And>x ys. put x (S ys) = S (ys @ [x])"
    "\<And>x ys. x \<in> set xs \<Longrightarrow> length (b x) < 2 ^ 62 \<Longrightarrow> u (b x) (get (S ys)) = Some (if good x then Ok x else Err e)"
    "\<not> list_all good xs"
  shows "fails h (b_repeated tag (map b xs)) (S ys) e"
  using assms(4,5)
proof (induction xs arbitrary: ys)
  case (Cons x xs)
  have split: "b_repeated tag (map b (x # xs)) = len_bytes tag (b x) @ b_repeated tag (map b xs)"
    by (simp add: b_repeated_def)
  show ?case
  proof (cases "good x")
    case True
    have "reads h (len_bytes tag (b x)) (S ys) (put x (S ys))"
      using Cons.prems True by (intro reads_message [where h = h and f = f, OF assms(1,2)]) simp
    moreover have "fails h (b_repeated tag (map b xs)) (S (ys @ [x])) e"
      using Cons.prems True by (intro Cons.IH) simp_all
    ultimately show ?thesis unfolding split using reads_fails by (fastforce simp: assms(3))
  next
    case False
    have "fails h (len_bytes tag (b x)) (S ys) e"
      using Cons.prems False by (intro fails_message [where h = h and f = f, OF assms(1,2)]) simp
    then show ?thesis unfolding split by (rule fails_append)
  qed
qed simp

section \<open>Reading arbitrary bytes\<close>

text \<open>From every position in a buffer, a reader returns a position not before it or an error, and does not index out of range.\<close>

definition safe_reader :: "'m reader \<Rightarrow> bool" where
  "safe_reader r \<longleftrightarrow> (\<forall>w buf pos m. 0 \<le> pos \<and> pos \<le> int (length buf) \<and> length buf < 2 ^ 62 \<longrightarrow>
     (case r w buf pos m of
        None \<Rightarrow> False
      | Some (Inl e) \<Rightarrow> e \<noteq> IndexPanic
      | Some (Inr (m', pos')) \<Rightarrow> pos \<le> pos' \<and> pos' \<le> int (length buf)))"

definition safe_unmarshal :: "(byte list \<Rightarrow> 'm \<Rightarrow> 'm unmarshalled) \<Rightarrow> bool" where
  "safe_unmarshal u \<longleftrightarrow> (\<forall>buf m. length buf < 2 ^ 62 \<longrightarrow> u buf m \<noteq> None \<and> u buf m \<noteq> Some (Err IndexPanic))"

named_theorems safe_intros \<open>readers that are safe on every input\<close>

lemma safe_r_varint [safe_intros]: "safe_reader (r_varint name put)"
  unfolding safe_reader_def r_varint_def
  by (auto split: sum.splits dest: ConsumeVarint_pos ConsumeVarint_no_panic)

lemma safe_r_fixed64 [safe_intros]: "safe_reader (r_fixed64 name put)"
  unfolding safe_reader_def r_fixed64_def by (auto simp: ConsumeFixed)

lemma safe_r_fixed32 [safe_intros]: "safe_reader (r_fixed32 name put)"
  unfolding safe_reader_def r_fixed32_def by (auto simp: ConsumeFixed)

lemma length_slice: "0 \<le> a \<Longrightarrow> length (slice buf a b) \<le> length buf"
  by (simp add: slice_def)

lemma safe_r_len:
  assumes "\<And>bs m. length bs < 2 ^ 62 \<Longrightarrow> f bs m \<noteq> None \<and> f bs m \<noteq> Some (Err IndexPanic)"
  shows "safe_reader (r_len name f)"
proof (unfold safe_reader_def, intro allI impI)
  fix w pos m and buf :: "byte list"
  assume a: "0 \<le> pos \<and> pos \<le> int (length buf) \<and> length buf < 2 ^ 62"
  show "case r_len name f w buf pos m of None \<Rightarrow> False | Some (Inl e) \<Rightarrow> e \<noteq> IndexPanic
      | Some (Inr (m', pos')) \<Rightarrow> pos \<le> pos' \<and> pos' \<le> int (length buf)"
  proof (cases "w = WireTypeLen")
    case True
    show ?thesis
    proof (cases "ConsumeLen buf pos")
      case (Inl e)
      then show ?thesis using True ConsumeLen_no_panic [of pos buf] a by (auto simp: r_len_def)
    next
      case (Inr x)
      then obtain len pos' where c: "ConsumeLen buf pos = Inr (len, pos')" by (cases x) auto
      have p: "0 \<le> len" "pos + len < pos'" "pos' \<le> int (length buf)" using ConsumeLen_pos [OF c] a by auto
      have "length (slice buf (pos' - len) pos') < 2 ^ 62"
        using length_slice [of "pos' - len" buf pos'] p a by linarith
      from assms [OF this, of m] show ?thesis using True c p by (auto simp: r_len_def split: option.splits sum.splits)
    qed
  qed (auto simp: r_len_def)
qed

lemma safe_r_bytes [safe_intros]: "safe_reader (r_bytes name put)"
  unfolding r_bytes_def by (rule safe_r_len) simp

lemma safe_r_message [safe_intros]: "safe_unmarshal u \<Longrightarrow> safe_reader (r_message name u get put)"
  unfolding r_message_def
  by (rule safe_r_len) (auto simp: safe_unmarshal_def split: option.splits sum.splits)

lemma packed64_safe:
  "0 \<le> p \<Longrightarrow> p \<le> int (length buf) \<Longrightarrow> length buf < 2 ^ 62 \<Longrightarrow> packed64 n buf p \<noteq> Err IndexPanic"
  by (induction n arbitrary: p) (auto simp: ConsumeFixed split: sum.splits if_splits)

lemma safe_r_packed64 [safe_intros]: "safe_reader (r_packed64 name put add)"
proof (unfold safe_reader_def, intro allI impI)
  fix w pos m and buf :: "byte list"
  assume a: "0 \<le> pos \<and> pos \<le> int (length buf) \<and> length buf < 2 ^ 62"
  show "case r_packed64 name put add w buf pos m of None \<Rightarrow> False | Some (Inl e) \<Rightarrow> e \<noteq> IndexPanic
      | Some (Inr (m', pos')) \<Rightarrow> pos \<le> pos' \<and> pos' \<le> int (length buf)"
  proof (cases "w = WireTypeLen")
    case True
    show ?thesis
    proof (cases "ConsumeLen buf pos")
      case (Inl e)
      then show ?thesis using True ConsumeLen_no_panic [of pos buf] a by (auto simp: r_packed64_def)
    next
      case (Inr x)
      then obtain len pos' where c: "ConsumeLen buf pos = Inr (len, pos')" by (cases x) auto
      have p: "0 \<le> len" "pos + len < pos'" "pos' \<le> int (length buf)" using ConsumeLen_pos [OF c] a by auto
      have "packed64 (nat (len div 8)) (take (nat pos') buf) (pos' - len) \<noteq> Err IndexPanic"
        using p a by (intro packed64_safe) (simp, simp, simp, linarith)
      then show ?thesis using True c p by (auto simp: r_packed64_def split: sum.splits)
    qed
  next
    case False
    then show ?thesis using safe_r_fixed64 [of name add] a by (simp add: r_packed64_def safe_reader_def)
  qed
qed

lemma packed_varint_safe: "0 \<le> p \<Longrightarrow> packed_varint buf p \<noteq> Err IndexPanic"
proof (induction buf p rule: packed_varint.induct)
  case (1 buf p)
  show ?case
  proof (cases "ConsumeVarint buf p")
    case (Inl e)
    then show ?thesis using ConsumeVarint_no_panic [OF "1.prems", of buf] by (auto simp: packed_varint.simps [of buf p])
  next
    case (Inr x)
    then obtain num q where c: "ConsumeVarint buf p = Inr (num, q)" by (cases x) auto
    then have "packed_varint buf q \<noteq> Err IndexPanic" if "p < int (length buf)"
      using "1.IH" [OF that c refl] ConsumeVarint_pos [OF c] by simp
    then show ?thesis using c by (auto simp: packed_varint.simps [of buf p] split: sum.splits)
  qed
qed

lemma safe_r_packed_varint [safe_intros]: "safe_reader (r_packed_varint name add)"
proof (unfold safe_reader_def, intro allI impI)
  fix w pos m and buf :: "byte list"
  assume a: "0 \<le> pos \<and> pos \<le> int (length buf) \<and> length buf < 2 ^ 62"
  show "case r_packed_varint name add w buf pos m of None \<Rightarrow> False | Some (Inl e) \<Rightarrow> e \<noteq> IndexPanic
      | Some (Inr (m', pos')) \<Rightarrow> pos \<le> pos' \<and> pos' \<le> int (length buf)"
  proof (cases "w = WireTypeLen")
    case True
    show ?thesis
    proof (cases "ConsumeLen buf pos")
      case (Inl e)
      then show ?thesis using True ConsumeLen_no_panic [of pos buf] a by (auto simp: r_packed_varint_def)
    next
      case (Inr x)
      then obtain len pos' where c: "ConsumeLen buf pos = Inr (len, pos')" by (cases x) auto
      have p: "0 \<le> len" "pos + len < pos'" "pos' \<le> int (length buf)" using ConsumeLen_pos [OF c] a by auto
      have "packed_varint (take (nat pos') buf) (pos' - len) \<noteq> Err IndexPanic"
        using p a by (intro packed_varint_safe) simp
      then show ?thesis using True c p by (auto simp: r_packed_varint_def split: sum.splits)
    qed
  next
    case False
    then show ?thesis using safe_r_varint [of name "\<lambda>num. add [num]"] a by (simp add: r_packed_varint_def safe_reader_def)
  qed
qed

definition stays :: "byte list \<Rightarrow> int \<Rightarrow> (proto_error, int) result \<Rightarrow> bool" where
  "stays buf pos r \<longleftrightarrow> (case r of Inl e \<Rightarrow> e \<noteq> IndexPanic | Inr pos' \<Rightarrow> pos \<le> pos' \<and> pos' \<le> int (length buf))"

lemma stays_scalar:
  assumes "0 \<le> pos" "pos \<le> int (length buf)" "length buf < 2 ^ 62"
  shows "stays buf pos (map_sum id snd (ConsumeVarint buf pos))" "stays buf pos (map_sum id snd (ConsumeLen buf pos))"
    "stays buf pos (map_sum id snd (ConsumeI64 buf pos))" "stays buf pos (map_sum id snd (ConsumeI32 buf pos))"
proof -
  show "stays buf pos (map_sum id snd (ConsumeVarint buf pos))"
    using ConsumeVarint_no_panic [OF assms(1), of buf]
    by (cases "ConsumeVarint buf pos") (auto simp: stays_def dest: ConsumeVarint_pos)
  show "stays buf pos (map_sum id snd (ConsumeLen buf pos))"
    using ConsumeLen_no_panic [OF assms(1), of buf] assms
    by (cases "ConsumeLen buf pos") (auto simp: stays_def dest: ConsumeLen_pos)
  show "stays buf pos (map_sum id snd (ConsumeI64 buf pos))" "stays buf pos (map_sum id snd (ConsumeI32 buf pos))"
    by (simp_all add: stays_def ConsumeFixed [OF assms])
qed

lemma ConsumeUnknown_loop_safe:
  assumes "0 \<le> pos" "pos \<le> int (length buf)" "length buf < 2 ^ 62"
  shows "stays buf pos (ConsumeUnknown_loop buf pos w d)"
  using assms(1,2)
proof (induction "nat (int (length buf) - pos)" arbitrary: pos w d rule: less_induct)
  case less
  have group: "stays buf pos (case ConsumeTag buf pos of Inl e \<Rightarrow> Err e
      | Inr (_, w', pos') \<Rightarrow> ConsumeUnknown_loop buf pos' w' d')" for d'
  proof (cases "ConsumeTag buf pos")
    case (Inl e)
    then show ?thesis using ConsumeTag_no_panic [OF less.prems(1), of buf] by (auto simp: stays_def)
  next
    case (Inr x)
    then obtain f w' pos' where c: "ConsumeTag buf pos = Inr (f, w', pos')" by (cases x) auto
    note p = ConsumeTag_pos [OF c]
    have "stays buf pos' (ConsumeUnknown_loop buf pos' w' d')" using p by (intro less.hyps) linarith+
    then show ?thesis using p by (auto simp: c stays_def split: sum.splits)
  qed
  have "stays buf pos (Err e)" if "e \<noteq> IndexPanic" for e using that by (simp add: stays_def)
  moreover have "stays buf pos (Ok pos)" using less.prems by (simp add: stays_def)
  ultimately show ?case
    using group stays_scalar [OF less.prems assms(3)]
    by (simp add: ConsumeUnknown_loop.simps [of buf pos w d] Let_def)
qed

lemma safe_r_unknown [safe_intros]: "safe_reader r_unknown"
proof (unfold safe_reader_def, intro allI impI)
  fix w pos and m :: 'a and buf :: "byte list"
  assume a: "0 \<le> pos \<and> pos \<le> int (length buf) \<and> length buf < 2 ^ 62"
  show "case r_unknown w buf pos m of None \<Rightarrow> False | Some (Inl e) \<Rightarrow> e \<noteq> IndexPanic
      | Some (Inr (m', pos')) \<Rightarrow> pos \<le> pos' \<and> pos' \<le> int (length buf)"
    using ConsumeUnknown_loop_safe [of pos buf w 0] a
    by (cases "ConsumeUnknown_loop buf pos w 0") (auto simp: r_unknown_def ConsumeUnknown_def stays_def)
qed

lemma safe_fields:
  assumes "\<And>f. safe_reader (h f)" "0 \<le> pos" "length buf < 2 ^ 62"
  shows "fields h buf pos m \<noteq> None \<and> fields h buf pos m \<noteq> Some (Err IndexPanic)"
  using assms(2)
proof (induction "nat (int (length buf) - pos)" arbitrary: pos m rule: less_induct)
  case less
  show ?case
  proof (cases "pos < int (length buf)")
    case True
    show ?thesis
    proof (cases "ConsumeTag buf pos")
      case (Inl e)
      then show ?thesis using True ConsumeTag_no_panic [OF less.prems, of buf] by (subst (1 2) fields.simps) auto
    next
      case (Inr x)
      then obtain f w p1 where c: "ConsumeTag buf pos = Inr (f, w, p1)" by (cases x) auto
      note p = ConsumeTag_pos [OF c]
      have r: "case h f w buf p1 m of None \<Rightarrow> False | Some (Inl e) \<Rightarrow> e \<noteq> IndexPanic
          | Some (Inr (m', pos')) \<Rightarrow> p1 \<le> pos' \<and> pos' \<le> int (length buf)"
        using assms(1,3) p by (simp add: safe_reader_def)
      have "fields h buf q m' \<noteq> None \<and> fields h buf q m' \<noteq> Some (Err IndexPanic)" if "p1 \<le> q" for q m'
        using that p True by (intro less.hyps) simp_all
      then show ?thesis using r True c
        by (subst (1 2) fields.simps) (auto split: option.splits sum.splits)
    qed
  next
    case False
    then show ?thesis by (subst (1 2) fields.simps) simp
  qed
qed

lemma safe_unmarshal_fields [safe_intros]: "(\<And>f. safe_reader (h f)) \<Longrightarrow> safe_unmarshal (unmarshal h)"
  unfolding safe_unmarshal_def unmarshal_def using safe_fields by fastforce

section \<open>What reading keeps\<close>

text \<open>A predicate of messages that a reader keeps, whatever it reads.\<close>

definition keeps :: "('m \<Rightarrow> bool) \<Rightarrow> 'm reader \<Rightarrow> bool" where
  "keeps I r \<longleftrightarrow> (\<forall>w buf pos m m' pos'. I m \<longrightarrow> r w buf pos m = Some (Ok (m', pos')) \<longrightarrow> I m')"

named_theorems keeps_intros \<open>readers that keep a predicate\<close>

lemma keeps_number [keeps_intros]:
  "(\<And>x m. I m \<Longrightarrow> I (put x m)) \<Longrightarrow> keeps I (r_varint name put)"
  "(\<And>x m. I m \<Longrightarrow> I (put x m)) \<Longrightarrow> keeps I (r_fixed64 name put)"
  "(\<And>x m. I m \<Longrightarrow> I (put' x m)) \<Longrightarrow> keeps I (r_fixed32 name put')"
  by (auto simp: keeps_def r_varint_def r_fixed64_def r_fixed32_def split: if_splits sum.splits)

lemma keeps_bytes [keeps_intros]: "(\<And>x m. I m \<Longrightarrow> I (put x m)) \<Longrightarrow> keeps I (r_bytes name put)"
  by (auto simp: keeps_def r_bytes_def r_len_def split: if_splits sum.splits)

lemma keeps_message [keeps_intros]:
  "(\<And>bs v m. I m \<Longrightarrow> u bs (get m) = Some (Ok v) \<Longrightarrow> I (put v m)) \<Longrightarrow> keeps I (r_message name u get put)"
  by (auto simp: keeps_def r_message_def r_len_def split: if_splits sum.splits option.splits)

lemma keeps_unknown [keeps_intros]: "keeps I r_unknown"
  by (auto simp: keeps_def r_unknown_def split: sum.splits)

lemma fields_keeps:
  assumes "\<And>n. keeps I (h n)" "fields h buf pos m = Some r"
  shows "I m \<longrightarrow> (\<forall>m'. r = Ok m' \<longrightarrow> I m')"
proof -
  have "h = h \<longrightarrow> I m \<longrightarrow> (\<forall>m'. r = Ok m' \<longrightarrow> I m')"
  proof (rule fields.raw_induct [where P = "\<lambda>g buf pos m r. g = h \<longrightarrow> I m \<longrightarrow> (\<forall>m'. r = Ok m' \<longrightarrow> I m')", OF _ assms(2)], intro impI allI)
    fix f g buf pos m r m'
    assume IH: "\<And>g buf pos m r. f g buf pos m = Some r \<Longrightarrow> g = h \<longrightarrow> I m \<longrightarrow> (\<forall>m'. r = Ok m' \<longrightarrow> I m')"
      and step: "(if pos < int (length buf) then case ConsumeTag buf pos of Inl e \<Rightarrow> Some (Err e)
        | Inr (fieldNum, wireType, pos1) \<Rightarrow> (case g fieldNum wireType buf pos1 m of None \<Rightarrow> None
          | Some (Inl e) \<Rightarrow> Some (Err e) | Some (Inr (m1, pos2)) \<Rightarrow> f g buf pos2 m1) else Some (Ok m)) = Some r"
      and a: "g = h" "I m" "r = Ok m'"
    show "I m'"
    proof (cases "pos < int (length buf)")
      case True
      with step a obtain n w p1 m1 p2 where "h n w buf p1 m = Some (Ok (m1, p2))" "f h buf p2 m1 = Some (Ok m')"
        by (auto split: sum.splits option.splits)
      moreover from this(1) a(2) assms(1) have "I m1" unfolding keeps_def by blast
      ultimately show ?thesis using IH by blast
    qed (use step a in simp)
  qed
  then show ?thesis by simp
qed

lemma unmarshal_keeps:
  assumes "unmarshal h buf m = Some (Ok m')" "\<And>n. keeps I (h n)" "I m"
  shows "I m'"
  using fields_keeps [OF assms(2) assms(1) [unfolded unmarshal_def]] assms(3) by simp

end
