(* ===== verification/ProtoValues.thy ===== *)
theory ProtoValues
  imports ProtoCodec
begin

text \<open>
  The attribute values, \<^verbatim>\<open>AnyValue\<close>, \<^verbatim>\<open>ArrayValue\<close>, \<^verbatim>\<open>KeyValueList\<close> and \<^verbatim>\<open>KeyValue\<close> of
  \<^verbatim>\<open>pdata/internal/generated_proto_*.go\<close>: messages that contain each other, so that their unmarshalling counts the
  depth and stops at \<^verbatim>\<open>proto.RecursionLimit\<close>.
\<close>

section \<open>Values\<close>

text \<open>\<open>None\<close> is a nil pointer in the wrapper of an array or a list; \<open>NoValue\<close> is an unset value.\<close>

datatype AnyValue =
    NoValue
  | StringValue "byte list"
  | BoolValue bool
  | IntValue u64
  | DoubleValue u64
  | ArrayValue "ArrayValue option"
  | KvlistValue "KeyValueList option"
  | BytesValue "byte list"
  | StringValueStrindex "32 word"
and ArrayValue = ArrayValues (array_Values: "AnyValue list")
and KeyValueList = KeyValues (list_Values: "KeyValue list")
and KeyValue = KeyValue (KeyValue_Key: "byte list") (KeyValue_Value: AnyValue) (KeyValue_KeyStrindex: "32 word")

fun AnyValue_SizeProto :: "AnyValue \<Rightarrow> nat"
  and ArrayValue_SizeProto :: "ArrayValue \<Rightarrow> nat"
  and KeyValueList_SizeProto :: "KeyValueList \<Rightarrow> nat"
  and KeyValue_SizeProto :: "KeyValue \<Rightarrow> nat" where
  "AnyValue_SizeProto NoValue = 0"
| "AnyValue_SizeProto (StringValue s) = size_len 1 (length s)"
| "AnyValue_SizeProto (BoolValue b) = 2"
| "AnyValue_SizeProto (IntValue i) = 1 + Sov i"
| "AnyValue_SizeProto (DoubleValue d) = 9"
| "AnyValue_SizeProto (ArrayValue (Some a)) = size_len 1 (ArrayValue_SizeProto a)"
| "AnyValue_SizeProto (ArrayValue None) = 0"
| "AnyValue_SizeProto (KvlistValue (Some l)) = size_len 1 (KeyValueList_SizeProto l)"
| "AnyValue_SizeProto (KvlistValue None) = 0"
| "AnyValue_SizeProto (BytesValue bs) = size_len 1 (length bs)"
| "AnyValue_SizeProto (StringValueStrindex i) = 1 + Sov (scast i)"
| "ArrayValue_SizeProto (ArrayValues vs) = (\<Sum>v\<leftarrow>vs. size_len 1 (AnyValue_SizeProto v))"
| "KeyValueList_SizeProto (KeyValues kvs) = (\<Sum>kv\<leftarrow>kvs. size_len 1 (KeyValue_SizeProto kv))"
| "KeyValue_SizeProto (KeyValue k v i) =
     size_bytes 1 k + size_len 1 (AnyValue_SizeProto v) + (if i \<noteq> 0 then 1 + Sov (scast i) else 0)"

fun AnyValue_MarshalProto :: "AnyValue \<Rightarrow> writer"
  and ArrayValue_MarshalProto :: "ArrayValue \<Rightarrow> writer"
  and KeyValueList_MarshalProto :: "KeyValueList \<Rightarrow> writer"
  and KeyValue_MarshalProto :: "KeyValue \<Rightarrow> writer" where
  "AnyValue_MarshalProto NoValue = Some"
| "AnyValue_MarshalProto (StringValue s) = w_present_bytes [0xa] s"
| "AnyValue_MarshalProto (BoolValue b) = w_present_bool [0x10] b"
| "AnyValue_MarshalProto (IntValue i) = w_present_varint [0x18] i"
| "AnyValue_MarshalProto (DoubleValue d) = w_present64 [0x21] d"
| "AnyValue_MarshalProto (ArrayValue (Some a)) = w_message [0x2a] (ArrayValue_MarshalProto a)"
| "AnyValue_MarshalProto (ArrayValue None) = Some"
| "AnyValue_MarshalProto (KvlistValue (Some l)) = w_message [0x32] (KeyValueList_MarshalProto l)"
| "AnyValue_MarshalProto (KvlistValue None) = Some"
| "AnyValue_MarshalProto (BytesValue bs) = w_present_bytes [0x3a] bs"
| "AnyValue_MarshalProto (StringValueStrindex i) = w_present_varint [0x40] (scast i)"
| "ArrayValue_MarshalProto (ArrayValues vs) = w_repeated [0xa] AnyValue_MarshalProto vs"
| "KeyValueList_MarshalProto (KeyValues kvs) = w_repeated [0xa] KeyValue_MarshalProto kvs"
| "KeyValue_MarshalProto (KeyValue k v i) =
     writes [w_bytes [0xa] k, w_message [0x12] (AnyValue_MarshalProto v), w_varint [0x18] (scast i)]"

definition RecursionLimit :: nat where
  "RecursionLimit = 100"

text \<open>The switches of \<^verbatim>\<open>unmarshalProto\<close>; the nested messages are read with \<open>u\<close> and \<open>u'\<close>.\<close>

definition AnyValue_field ::
  "(byte list \<Rightarrow> ArrayValue \<Rightarrow> ArrayValue unmarshalled) \<Rightarrow> (byte list \<Rightarrow> KeyValueList \<Rightarrow> KeyValueList unmarshalled) \<Rightarrow>
   int \<Rightarrow> AnyValue reader" where
  "AnyValue_field u u' fieldNum =
     (if fieldNum = 1 then r_bytes ''StringValue'' (\<lambda>s _. StringValue s)
      else if fieldNum = 2 then r_varint ''BoolValue'' (\<lambda>num _. BoolValue (num \<noteq> 0))
      else if fieldNum = 3 then r_varint ''IntValue'' (\<lambda>num _. IntValue num)
      else if fieldNum = 4 then r_fixed64 ''DoubleValue'' (\<lambda>num _. DoubleValue num)
      else if fieldNum = 5 then r_message ''ArrayValue'' u (\<lambda>_. ArrayValues []) (\<lambda>a _. ArrayValue (Some a))
      else if fieldNum = 6 then r_message ''KvlistValue'' u' (\<lambda>_. KeyValues []) (\<lambda>l _. KvlistValue (Some l))
      else if fieldNum = 7 then r_bytes ''BytesValue'' (\<lambda>bs _. BytesValue bs)
      else if fieldNum = 8 then r_varint ''StringValueStrindex'' (\<lambda>num _. StringValueStrindex (ucast num))
      else r_unknown)"

definition ArrayValue_field ::
  "(byte list \<Rightarrow> AnyValue \<Rightarrow> AnyValue unmarshalled) \<Rightarrow> int \<Rightarrow> ArrayValue reader" where
  "ArrayValue_field u fieldNum =
     (if fieldNum = 1
      then r_message ''Values'' u (\<lambda>_. NoValue) (\<lambda>v orig. ArrayValues (array_Values orig @ [v]))
      else r_unknown)"

definition KeyValueList_field ::
  "(byte list \<Rightarrow> KeyValue \<Rightarrow> KeyValue unmarshalled) \<Rightarrow> int \<Rightarrow> KeyValueList reader" where
  "KeyValueList_field u fieldNum =
     (if fieldNum = 1
      then r_message ''Values'' u (\<lambda>_. KeyValue [] NoValue 0) (\<lambda>kv orig. KeyValues (list_Values orig @ [kv]))
      else r_unknown)"

definition KeyValue_field ::
  "(byte list \<Rightarrow> AnyValue \<Rightarrow> AnyValue unmarshalled) \<Rightarrow> int \<Rightarrow> KeyValue reader" where
  "KeyValue_field u fieldNum =
     (if fieldNum = 1
      then r_bytes ''Key'' (\<lambda>s kv. KeyValue s (KeyValue_Value kv) (KeyValue_KeyStrindex kv))
      else if fieldNum = 2
      then r_message ''Value'' u KeyValue_Value (\<lambda>v kv. KeyValue (KeyValue_Key kv) v (KeyValue_KeyStrindex kv))
      else if fieldNum = 3
      then r_varint ''KeyStrindex'' (\<lambda>num kv. KeyValue (KeyValue_Key kv) (KeyValue_Value kv) (ucast num))
      else r_unknown)"

function AnyValue_unmarshalProto :: "nat \<Rightarrow> byte list \<Rightarrow> AnyValue \<Rightarrow> AnyValue unmarshalled"
  and ArrayValue_unmarshalProto :: "nat \<Rightarrow> byte list \<Rightarrow> ArrayValue \<Rightarrow> ArrayValue unmarshalled"
  and KeyValueList_unmarshalProto :: "nat \<Rightarrow> byte list \<Rightarrow> KeyValueList \<Rightarrow> KeyValueList unmarshalled"
  and KeyValue_unmarshalProto :: "nat \<Rightarrow> byte list \<Rightarrow> KeyValue \<Rightarrow> KeyValue unmarshalled" where
  "AnyValue_unmarshalProto depth =
     (if depth \<ge> RecursionLimit then (\<lambda>buf orig. Some (Err ErrRecursionDepth))
      else unmarshal (AnyValue_field (ArrayValue_unmarshalProto (depth + 1)) (KeyValueList_unmarshalProto (depth + 1))))"
| "ArrayValue_unmarshalProto depth =
     (if depth \<ge> RecursionLimit then (\<lambda>buf orig. Some (Err ErrRecursionDepth))
      else unmarshal (ArrayValue_field (AnyValue_unmarshalProto (depth + 1))))"
| "KeyValueList_unmarshalProto depth =
     (if depth \<ge> RecursionLimit then (\<lambda>buf orig. Some (Err ErrRecursionDepth))
      else unmarshal (KeyValueList_field (KeyValue_unmarshalProto (depth + 1))))"
| "KeyValue_unmarshalProto depth =
     (if depth \<ge> RecursionLimit then (\<lambda>buf orig. Some (Err ErrRecursionDepth))
      else unmarshal (KeyValue_field (AnyValue_unmarshalProto (depth + 1))))"
  by pat_completeness auto
termination
  by (relation "measure (\<lambda>x. RecursionLimit - (case x of Inl (Inl d) \<Rightarrow> d | Inl (Inr d) \<Rightarrow> d | Inr (Inl d) \<Rightarrow> d | Inr (Inr d) \<Rightarrow> d))")
    simp_all

declare AnyValue_unmarshalProto.simps [simp del]
declare ArrayValue_unmarshalProto.simps [simp del]
declare KeyValueList_unmarshalProto.simps [simp del]
declare KeyValue_unmarshalProto.simps [simp del]

definition AnyValue_UnmarshalProto :: "byte list \<Rightarrow> AnyValue \<Rightarrow> AnyValue unmarshalled" where
  "AnyValue_UnmarshalProto = AnyValue_unmarshalProto 0"

definition KeyValue_UnmarshalProto :: "byte list \<Rightarrow> KeyValue \<Rightarrow> KeyValue unmarshalled" where
  "KeyValue_UnmarshalProto = KeyValue_unmarshalProto 0"

section \<open>The bytes of a value\<close>

fun AnyValue_bytes :: "AnyValue \<Rightarrow> byte list"
  and ArrayValue_bytes :: "ArrayValue \<Rightarrow> byte list"
  and KeyValueList_bytes :: "KeyValueList \<Rightarrow> byte list"
  and KeyValue_bytes :: "KeyValue \<Rightarrow> byte list" where
  "AnyValue_bytes NoValue = []"
| "AnyValue_bytes (StringValue s) = len_bytes [0xa] s"
| "AnyValue_bytes (BoolValue b) = b_present_bool [0x10] b"
| "AnyValue_bytes (IntValue i) = b_present_varint [0x18] i"
| "AnyValue_bytes (DoubleValue d) = b_present64 [0x21] d"
| "AnyValue_bytes (ArrayValue (Some a)) = len_bytes [0x2a] (ArrayValue_bytes a)"
| "AnyValue_bytes (ArrayValue None) = []"
| "AnyValue_bytes (KvlistValue (Some l)) = len_bytes [0x32] (KeyValueList_bytes l)"
| "AnyValue_bytes (KvlistValue None) = []"
| "AnyValue_bytes (BytesValue bs) = len_bytes [0x3a] bs"
| "AnyValue_bytes (StringValueStrindex i) = b_present_varint [0x40] (scast i)"
| "ArrayValue_bytes (ArrayValues vs) = b_repeated [0xa] (map AnyValue_bytes vs)"
| "KeyValueList_bytes (KeyValues kvs) = b_repeated [0xa] (map KeyValue_bytes kvs)"
| "KeyValue_bytes (KeyValue k v i) =
     b_varint [0x18] (scast i) @ len_bytes [0x12] (AnyValue_bytes v) @ b_bytes [0xa] k"

lemma emits_KeyValue:
  assumes "emits (AnyValue_MarshalProto v) (AnyValue_bytes v)"
  shows "emits (KeyValue_MarshalProto (KeyValue k v i)) (KeyValue_bytes (KeyValue k v i))"
  using emits_writes [of "[w_bytes [0xa] k, w_message [0x12] (AnyValue_MarshalProto v), w_varint [0x18] (scast i)]"
      "[b_bytes [0xa] k, len_bytes [0x12] (AnyValue_bytes v), b_varint [0x18] (scast i)]"] assms
  by (simp add: emits_intros del: writes.simps)

lemma emits_value [emits_intros]:
  "emits (AnyValue_MarshalProto v) (AnyValue_bytes v)"
  "emits (ArrayValue_MarshalProto a) (ArrayValue_bytes a)"
  "emits (KeyValueList_MarshalProto l) (KeyValueList_bytes l)"
  "emits (KeyValue_MarshalProto kv) (KeyValue_bytes kv)"
proof (induction v and a and l and kv rule: AnyValue_bytes_ArrayValue_bytes_KeyValueList_bytes_KeyValue_bytes.induct)
  case (12 vs)
  then show ?case by (simp add: emits_w_repeated)
next
  case (13 kvs)
  then show ?case by (simp add: emits_w_repeated)
next
  case (14 k v i)
  then show ?case by (rule emits_KeyValue)
qed (simp_all add: emits_intros)

lemma value_size [size_simps]:
  "length (AnyValue_bytes v) = AnyValue_SizeProto v"
  "length (ArrayValue_bytes a) = ArrayValue_SizeProto a"
  "length (KeyValueList_bytes l) = KeyValueList_SizeProto l"
  "length (KeyValue_bytes kv) = KeyValue_SizeProto kv"
  by (induction v and a and l and kv rule: AnyValue_bytes_ArrayValue_bytes_KeyValueList_bytes_KeyValue_bytes.induct)
    (simp_all add: size_simps comp_def cong: map_cong)

section \<open>Reading a value back\<close>

text \<open>The number of calls of \<^verbatim>\<open>unmarshalProto\<close> inside each other that reading a value takes.\<close>

fun AnyValue_depth :: "AnyValue \<Rightarrow> nat"
  and ArrayValue_depth :: "ArrayValue \<Rightarrow> nat"
  and KeyValueList_depth :: "KeyValueList \<Rightarrow> nat"
  and KeyValue_depth :: "KeyValue \<Rightarrow> nat" where
  "AnyValue_depth (ArrayValue (Some a)) = Suc (ArrayValue_depth a)"
| "AnyValue_depth (KvlistValue (Some l)) = Suc (KeyValueList_depth l)"
| "AnyValue_depth _ = 1"
| "ArrayValue_depth (ArrayValues vs) = Suc (Max (insert 0 (AnyValue_depth ` set vs)))"
| "KeyValueList_depth (KeyValues kvs) = Suc (Max (insert 0 (KeyValue_depth ` set kvs)))"
| "KeyValue_depth (KeyValue k v i) = Suc (AnyValue_depth v)"

fun AnyValue_no_nil :: "AnyValue \<Rightarrow> bool"
  and ArrayValue_no_nil :: "ArrayValue \<Rightarrow> bool"
  and KeyValueList_no_nil :: "KeyValueList \<Rightarrow> bool"
  and KeyValue_no_nil :: "KeyValue \<Rightarrow> bool" where
  "AnyValue_no_nil (ArrayValue x) = (case x of None \<Rightarrow> False | Some a \<Rightarrow> ArrayValue_no_nil a)"
| "AnyValue_no_nil (KvlistValue x) = (case x of None \<Rightarrow> False | Some l \<Rightarrow> KeyValueList_no_nil l)"
| "AnyValue_no_nil _ = True"
| "ArrayValue_no_nil (ArrayValues vs) = list_all AnyValue_no_nil vs"
| "KeyValueList_no_nil (KeyValues kvs) = list_all KeyValue_no_nil kvs"
| "KeyValue_no_nil (KeyValue k v i) = AnyValue_no_nil v"

lemma unmarshalProto_deep:
  assumes "RecursionLimit \<le> depth"
  shows "AnyValue_unmarshalProto depth buf v = Some (Err ErrRecursionDepth)"
    "ArrayValue_unmarshalProto depth buf a = Some (Err ErrRecursionDepth)"
    "KeyValueList_unmarshalProto depth buf l = Some (Err ErrRecursionDepth)"
    "KeyValue_unmarshalProto depth buf kv = Some (Err ErrRecursionDepth)"
  using assms by (simp_all add: AnyValue_unmarshalProto.simps ArrayValue_unmarshalProto.simps
      KeyValueList_unmarshalProto.simps KeyValue_unmarshalProto.simps)

lemma AnyValue_scalar:
  assumes "depth < RecursionLimit \<Longrightarrow> reads (AnyValue_field (ArrayValue_unmarshalProto (depth + 1))
      (KeyValueList_unmarshalProto (depth + 1))) bs NoValue v" "length bs < 2 ^ 62" "AnyValue_depth v = 1"
  shows "AnyValue_unmarshalProto depth bs NoValue =
    Some (if depth + AnyValue_depth v \<le> RecursionLimit then Ok v else Err ErrRecursionDepth)"
proof (cases "depth < RecursionLimit")
  case True
  then show ?thesis using assms by (simp add: AnyValue_unmarshalProto.simps unmarshal_reads)
qed (use assms(3) in \<open>simp add: unmarshalProto_deep\<close>)

lemma AnyValue_nested:
  assumes "depth < RecursionLimit" "length (len_bytes tag bs) < 2 ^ 62"
    "tag_of tag f WireTypeLen"
    "AnyValue_field (ArrayValue_unmarshalProto (depth + 1)) (KeyValueList_unmarshalProto (depth + 1)) f =
       r_message name u get (\<lambda>x _. c x)"
    "length bs < 2 ^ 62 \<Longrightarrow> u bs (get NoValue) = Some (if good then Ok x else Err e)"
  shows "AnyValue_unmarshalProto depth (len_bytes tag bs) NoValue = Some (if good then Ok (c x) else Err e)"
proof (cases good)
  case True
  let ?h = "AnyValue_field (ArrayValue_unmarshalProto (depth + 1)) (KeyValueList_unmarshalProto (depth + 1))"
  have "reads ?h (len_bytes tag bs) NoValue (c x)"
    using reads_message [where h = ?h and f = f and m = NoValue and v = x, OF assms(3,4)] assms(5) True by simp
  then show ?thesis using True assms(1,2) by (simp add: AnyValue_unmarshalProto.simps unmarshal_reads)
next
  case False
  let ?h = "AnyValue_field (ArrayValue_unmarshalProto (depth + 1)) (KeyValueList_unmarshalProto (depth + 1))"
  have "fails ?h (len_bytes tag bs) NoValue e"
    using fails_message [where h = ?h and f = f and m = NoValue, OF assms(3,4)] assms(5) False by simp
  then show ?thesis using False assms(1,2) by (simp add: AnyValue_unmarshalProto.simps unmarshal_fails)
qed

lemma KeyValue_reads:
  assumes "length (AnyValue_bytes v) < 2 ^ 62 \<Longrightarrow> u (AnyValue_bytes v) NoValue = Some (Ok v)"
  shows "reads (KeyValue_field u) (KeyValue_bytes (KeyValue k v i)) (KeyValue [] NoValue 0) (KeyValue k v i)"
proof -
  let ?h = "KeyValue_field u"
  have 1: "reads ?h (b_varint [0x18] (scast i)) (KeyValue [] NoValue 0) (KeyValue [] NoValue i)"
    using reads_varint [of "[0x18]" 3 ?h "''KeyStrindex''"
        "\<lambda>num kv. KeyValue (KeyValue_Key kv) (KeyValue_Value kv) (ucast num)" "KeyValue [] NoValue 0" "scast i"]
    by (simp add: KeyValue_field_def tag_of_byte WireType_defs)
  have 2: "reads ?h (len_bytes [0x12] (AnyValue_bytes v)) (KeyValue [] NoValue i) (KeyValue [] v i)"
    using reads_message [of "[0x12]" 2 ?h "''Value''" u KeyValue_Value
        "\<lambda>v kv. KeyValue (KeyValue_Key kv) v (KeyValue_KeyStrindex kv)" "AnyValue_bytes v" "KeyValue [] NoValue i" v] assms
    by (simp add: KeyValue_field_def tag_of_byte WireType_defs)
  have 3: "reads ?h (b_bytes [0xa] k) (KeyValue [] v i) (KeyValue k v i)"
    using reads_bytes [of "[0xa]" 1 ?h "''Key''" "\<lambda>s kv. KeyValue s (KeyValue_Value kv) (KeyValue_KeyStrindex kv)"
        "KeyValue [] v i" k]
    by (simp add: KeyValue_field_def tag_of_byte WireType_defs)
  show ?thesis using reads_append [OF 1 reads_append [OF 2 3]] by simp
qed

lemma KeyValue_fails:
  assumes "length (AnyValue_bytes v) < 2 ^ 62 \<Longrightarrow> u (AnyValue_bytes v) NoValue = Some (Err e)"
  shows "fails (KeyValue_field u) (KeyValue_bytes (KeyValue k v i)) (KeyValue [] NoValue 0) e"
proof -
  let ?h = "KeyValue_field u"
  have 1: "reads ?h (b_varint [0x18] (scast i)) (KeyValue [] NoValue 0) (KeyValue [] NoValue i)"
    using reads_varint [of "[0x18]" 3 ?h "''KeyStrindex''"
        "\<lambda>num kv. KeyValue (KeyValue_Key kv) (KeyValue_Value kv) (ucast num)" "KeyValue [] NoValue 0" "scast i"]
    by (simp add: KeyValue_field_def tag_of_byte WireType_defs)
  have 2: "fails ?h (len_bytes [0x12] (AnyValue_bytes v)) (KeyValue [] NoValue i) e"
    using fails_message [of "[0x12]" 2 ?h "''Value''" u KeyValue_Value
        "\<lambda>v kv. KeyValue (KeyValue_Key kv) v (KeyValue_KeyStrindex kv)" "AnyValue_bytes v" "KeyValue [] NoValue i" e] assms
    by (simp add: KeyValue_field_def tag_of_byte WireType_defs)
  show ?thesis using reads_fails [OF 1 fails_append [OF 2]] by simp
qed

lemma depth_all:
  "list_all (\<lambda>x. Suc d + f x \<le> n) xs \<and> d < n \<longleftrightarrow> d + Suc (Max (insert 0 (f ` set xs))) \<le> (n :: nat)"
proof -
  have "d + Suc (Max (insert 0 (f ` set xs))) \<le> n \<longleftrightarrow> d < n \<and> Max (insert 0 (f ` set xs)) \<le> n - Suc d" by linarith
  also have "\<dots> \<longleftrightarrow> d < n \<and> list_all (\<lambda>x. f x \<le> n - Suc d) xs" by (simp add: list_all_iff del: Max_insert)
  also have "\<dots> \<longleftrightarrow> list_all (\<lambda>x. Suc d + f x \<le> n) xs \<and> d < n" by (auto simp: list_all_iff)
  finally show ?thesis by simp
qed

lemma unmarshal_repeated:
  assumes "tag_of tag f WireTypeLen" "h f = r_message name u get put" "\<And>x ys. put x (S ys) = S (ys @ [x])"
    "\<And>x ys. x \<in> set xs \<Longrightarrow> length (b x) < 2 ^ 62 \<Longrightarrow> u (b x) (get (S ys)) = Some (if good x then Ok x else Err e)"
    "length (b_repeated tag (map b xs)) < 2 ^ 62"
  shows "unmarshal h (b_repeated tag (map b xs)) (S []) = Some (if list_all good xs then Ok (S xs) else Err e)"
proof (cases "list_all good xs")
  case True
  have "u (b x) (get (S ys)) = Some (Ok x)" if "x \<in> set xs" "length (b x) < 2 ^ 62" for x ys
    using assms(4) [OF that] True that(1) by (simp add: list_all_iff)
  then have "reads h (b_repeated tag (map b xs)) (S []) (S ([] @ xs))"
    by (intro reads_repeated [where h = h and f = f, OF assms(1,2)]) (simp_all add: assms(3))
  then show ?thesis using True assms(5) by (simp add: unmarshal_reads)
next
  case False
  then show ?thesis using fails_repeated [where h = h and f = f, OF assms(1-4)] assms(5) by (simp add: unmarshal_fails)
qed

lemma scalar_roundtrip:
  assumes "AnyValue_depth v = 1" "AnyValue_no_nil v" "length (AnyValue_bytes v) < 2 ^ 62"
  shows "AnyValue_unmarshalProto depth (AnyValue_bytes v) NoValue =
    Some (if depth + AnyValue_depth v \<le> RecursionLimit then Ok v else Err ErrRecursionDepth)"
proof (rule AnyValue_scalar [OF _ assms(3,1)])
  let ?h = "AnyValue_field (ArrayValue_unmarshalProto (depth + 1)) (KeyValueList_unmarshalProto (depth + 1))"
  note fields = AnyValue_field_def tag_of_byte WireType_defs
  show "reads ?h (AnyValue_bytes v) NoValue v"
  proof (cases v)
    case (StringValue s)
    then show ?thesis
      using reads_present_bytes [of "[0xa]" 1 ?h "''StringValue''" "\<lambda>s _. StringValue s" s NoValue] by (simp add: fields)
  next
    case (BoolValue b)
    then show ?thesis
      using reads_present_bool [of "[0x10]" 2 ?h "''BoolValue''" "\<lambda>b _. BoolValue b" b NoValue] by (simp add: fields)
  next
    case (IntValue i)
    then show ?thesis
      using reads_present_varint [of "[0x18]" 3 ?h "''IntValue''" "\<lambda>num _. IntValue num" i NoValue] by (simp add: fields)
  next
    case (DoubleValue d)
    then show ?thesis
      using reads_present64 [of "[0x21]" 4 ?h "''DoubleValue''" "\<lambda>num _. DoubleValue num" d NoValue] by (simp add: fields)
  next
    case (BytesValue bs)
    then show ?thesis
      using reads_present_bytes [of "[0x3a]" 7 ?h "''BytesValue''" "\<lambda>s _. BytesValue s" bs NoValue] by (simp add: fields)
  next
    case (StringValueStrindex i)
    then show ?thesis
      using reads_present_varint [of "[0x40]" 8 ?h "''StringValueStrindex''" "\<lambda>num _. StringValueStrindex (ucast num)" "scast i" NoValue]
      by (simp add: fields)
  next
    case (ArrayValue x)
    then show ?thesis using assms by (cases x; cases "the x") simp_all
  next
    case (KvlistValue x)
    then show ?thesis using assms by (cases x; cases "the x") simp_all
  qed (simp add: reads_Nil)
qed

lemma array_roundtrip:
  assumes "\<And>v. v \<in> set vs \<Longrightarrow> length (AnyValue_bytes v) < 2 ^ 62 \<Longrightarrow> AnyValue_unmarshalProto (depth + 1) (AnyValue_bytes v) NoValue =
      Some (if Suc depth + AnyValue_depth v \<le> RecursionLimit then Ok v else Err ErrRecursionDepth)"
    "length (ArrayValue_bytes (ArrayValues vs)) < 2 ^ 62"
  shows "ArrayValue_unmarshalProto depth (ArrayValue_bytes (ArrayValues vs)) (ArrayValues []) =
    Some (if depth + ArrayValue_depth (ArrayValues vs) \<le> RecursionLimit then Ok (ArrayValues vs) else Err ErrRecursionDepth)"
proof -
  let ?u = "AnyValue_unmarshalProto (depth + 1)"
  have "unmarshal (ArrayValue_field ?u) (b_repeated [0xa] (map AnyValue_bytes vs)) (ArrayValues []) =
      Some (if list_all (\<lambda>v. Suc depth + AnyValue_depth v \<le> RecursionLimit) vs then Ok (ArrayValues vs) else Err ErrRecursionDepth)"
    using assms by (intro unmarshal_repeated [where f = 1 and name = "''Values''" and u = ?u and get = "\<lambda>_. NoValue"
          and put = "\<lambda>v orig. ArrayValues (array_Values orig @ [v])"])
      (simp_all add: ArrayValue_field_def tag_of_byte WireType_defs)
  then show ?thesis using depth_all [of depth AnyValue_depth RecursionLimit vs]
    by (cases "depth < RecursionLimit") (simp_all add: ArrayValue_unmarshalProto.simps del: Max_insert)
qed

lemma kvlist_roundtrip:
  assumes "\<And>kv. kv \<in> set kvs \<Longrightarrow> length (KeyValue_bytes kv) < 2 ^ 62 \<Longrightarrow>
      KeyValue_unmarshalProto (depth + 1) (KeyValue_bytes kv) (KeyValue [] NoValue 0) =
      Some (if Suc depth + KeyValue_depth kv \<le> RecursionLimit then Ok kv else Err ErrRecursionDepth)"
    "length (KeyValueList_bytes (KeyValues kvs)) < 2 ^ 62"
  shows "KeyValueList_unmarshalProto depth (KeyValueList_bytes (KeyValues kvs)) (KeyValues []) =
    Some (if depth + KeyValueList_depth (KeyValues kvs) \<le> RecursionLimit then Ok (KeyValues kvs) else Err ErrRecursionDepth)"
proof -
  let ?u = "KeyValue_unmarshalProto (depth + 1)"
  have "unmarshal (KeyValueList_field ?u) (b_repeated [0xa] (map KeyValue_bytes kvs)) (KeyValues []) =
      Some (if list_all (\<lambda>kv. Suc depth + KeyValue_depth kv \<le> RecursionLimit) kvs then Ok (KeyValues kvs) else Err ErrRecursionDepth)"
    using assms by (intro unmarshal_repeated [where f = 1 and name = "''Values''" and u = ?u and get = "\<lambda>_. KeyValue [] NoValue 0"
          and put = "\<lambda>kv orig. KeyValues (list_Values orig @ [kv])"])
      (simp_all add: KeyValueList_field_def tag_of_byte WireType_defs)
  then show ?thesis using depth_all [of depth KeyValue_depth RecursionLimit kvs]
    by (cases "depth < RecursionLimit") (simp_all add: KeyValueList_unmarshalProto.simps del: Max_insert)
qed

lemma keyvalue_roundtrip:
  assumes "length (AnyValue_bytes v) < 2 ^ 62 \<Longrightarrow> AnyValue_unmarshalProto (depth + 1) (AnyValue_bytes v) NoValue =
      Some (if Suc depth + AnyValue_depth v \<le> RecursionLimit then Ok v else Err ErrRecursionDepth)"
    "length (KeyValue_bytes (KeyValue k v i)) < 2 ^ 62"
  shows "KeyValue_unmarshalProto depth (KeyValue_bytes (KeyValue k v i)) (KeyValue [] NoValue 0) =
    Some (if depth + KeyValue_depth (KeyValue k v i) \<le> RecursionLimit then Ok (KeyValue k v i) else Err ErrRecursionDepth)"
proof (cases "Suc depth + AnyValue_depth v \<le> RecursionLimit")
  let ?u = "AnyValue_unmarshalProto (depth + 1)"
  case True
  then have "reads (KeyValue_field ?u) (KeyValue_bytes (KeyValue k v i)) (KeyValue [] NoValue 0) (KeyValue k v i)"
    using assms by (intro KeyValue_reads) simp
  then show ?thesis using assms True by (simp add: KeyValue_unmarshalProto.simps unmarshal_reads)
next
  let ?u = "AnyValue_unmarshalProto (depth + 1)"
  case False
  then have "fails (KeyValue_field ?u) (KeyValue_bytes (KeyValue k v i)) (KeyValue [] NoValue 0) ErrRecursionDepth"
    using assms by (intro KeyValue_fails) simp
  then show ?thesis using assms False by (simp add: KeyValue_unmarshalProto.simps unmarshal_fails)
qed

lemma value_roundtrip:
  "AnyValue_no_nil v \<Longrightarrow> length (AnyValue_bytes v) < 2 ^ 62 \<Longrightarrow>
     AnyValue_unmarshalProto depth (AnyValue_bytes v) NoValue =
       Some (if depth + AnyValue_depth v \<le> RecursionLimit then Ok v else Err ErrRecursionDepth)"
  "ArrayValue_no_nil a \<Longrightarrow> length (ArrayValue_bytes a) < 2 ^ 62 \<Longrightarrow>
     ArrayValue_unmarshalProto depth (ArrayValue_bytes a) (ArrayValues []) =
       Some (if depth + ArrayValue_depth a \<le> RecursionLimit then Ok a else Err ErrRecursionDepth)"
  "KeyValueList_no_nil l \<Longrightarrow> length (KeyValueList_bytes l) < 2 ^ 62 \<Longrightarrow>
     KeyValueList_unmarshalProto depth (KeyValueList_bytes l) (KeyValues []) =
       Some (if depth + KeyValueList_depth l \<le> RecursionLimit then Ok l else Err ErrRecursionDepth)"
  "KeyValue_no_nil kv \<Longrightarrow> length (KeyValue_bytes kv) < 2 ^ 62 \<Longrightarrow>
     KeyValue_unmarshalProto depth (KeyValue_bytes kv) (KeyValue [] NoValue 0) =
       Some (if depth + KeyValue_depth kv \<le> RecursionLimit then Ok kv else Err ErrRecursionDepth)"
proof (induction v and a and l and kv arbitrary: depth and depth and depth and depth
    rule: AnyValue_bytes_ArrayValue_bytes_KeyValueList_bytes_KeyValue_bytes.induct)
  case (6 a)
  show ?case
  proof (cases "depth < RecursionLimit")
    case True
    then show ?thesis
      using AnyValue_nested [of depth "[0x2a]" "ArrayValue_bytes a" 5 "''ArrayValue''" "ArrayValue_unmarshalProto (depth + 1)"
          "\<lambda>_. ArrayValues []" "\<lambda>a. ArrayValue (Some a)"] 6
      by (simp add: AnyValue_field_def tag_of_byte WireType_defs)
  qed (simp add: unmarshalProto_deep)
next
  case (8 l)
  show ?case
  proof (cases "depth < RecursionLimit")
    case True
    then show ?thesis
      using AnyValue_nested [of depth "[0x32]" "KeyValueList_bytes l" 6 "''KvlistValue''" "KeyValueList_unmarshalProto (depth + 1)"
          "\<lambda>_. KeyValues []" "\<lambda>l. KvlistValue (Some l)"] 8
      by (simp add: AnyValue_field_def tag_of_byte WireType_defs)
  qed (simp add: unmarshalProto_deep)
next
  case (12 vs)
  then show ?case by (intro array_roundtrip) (simp_all add: list_all_iff)
next
  case (13 kvs)
  then show ?case by (intro kvlist_roundtrip) (simp_all add: list_all_iff)
next
  case (14 k v i)
  then show ?case by (intro keyvalue_roundtrip) simp_all
qed (simp_all add: scalar_roundtrip del: AnyValue_bytes.simps)

definition AnyValue_wf :: "AnyValue \<Rightarrow> bool" where
  "AnyValue_wf v \<longleftrightarrow> AnyValue_no_nil v \<and> AnyValue_depth v \<le> RecursionLimit"

definition KeyValue_wf :: "KeyValue \<Rightarrow> bool" where
  "KeyValue_wf kv \<longleftrightarrow> KeyValue_no_nil kv \<and> KeyValue_depth kv \<le> RecursionLimit"

lemma AnyValue_roundtrip:
  "AnyValue_wf v \<Longrightarrow> length (AnyValue_bytes v) < 2 ^ 62 \<Longrightarrow> AnyValue_UnmarshalProto (AnyValue_bytes v) NoValue = Some (Ok v)"
  by (simp add: AnyValue_UnmarshalProto_def AnyValue_wf_def value_roundtrip)

lemma KeyValue_roundtrip:
  "KeyValue_wf kv \<Longrightarrow> length (KeyValue_bytes kv) < 2 ^ 62 \<Longrightarrow>
   KeyValue_UnmarshalProto (KeyValue_bytes kv) (KeyValue [] NoValue 0) = Some (Ok kv)"
  by (simp add: KeyValue_UnmarshalProto_def KeyValue_wf_def value_roundtrip)

section \<open>Reading arbitrary bytes\<close>

lemma safe_value:
  "safe_unmarshal (AnyValue_unmarshalProto depth)"
  "safe_unmarshal (ArrayValue_unmarshalProto depth1)"
  "safe_unmarshal (KeyValueList_unmarshalProto depth2)"
  "safe_unmarshal (KeyValue_unmarshalProto depth3)"
proof (induction depth and depth1 and depth2 and depth3
    rule: AnyValue_unmarshalProto_ArrayValue_unmarshalProto_KeyValueList_unmarshalProto_KeyValue_unmarshalProto.induct)
  case (1 depth)
  show ?case
  proof (cases "depth < RecursionLimit")
    case True
    then show ?thesis using 1
      by (auto simp: AnyValue_unmarshalProto.simps AnyValue_field_def intro!: safe_intros)
  qed (simp add: safe_unmarshal_def unmarshalProto_deep)
next
  case (2 depth)
  show ?case
  proof (cases "depth < RecursionLimit")
    case True
    then show ?thesis using 2
      by (auto simp: ArrayValue_unmarshalProto.simps ArrayValue_field_def intro!: safe_intros)
  qed (simp add: safe_unmarshal_def unmarshalProto_deep)
next
  case (3 depth)
  show ?case
  proof (cases "depth < RecursionLimit")
    case True
    then show ?thesis using 3
      by (auto simp: KeyValueList_unmarshalProto.simps KeyValueList_field_def intro!: safe_intros)
  qed (simp add: safe_unmarshal_def unmarshalProto_deep)
next
  case (4 depth)
  show ?case
  proof (cases "depth < RecursionLimit")
    case True
    then show ?thesis using 4
      by (auto simp: KeyValue_unmarshalProto.simps KeyValue_field_def intro!: safe_intros)
  qed (simp add: safe_unmarshal_def unmarshalProto_deep)
qed

lemma safe_AnyValue_UnmarshalProto [safe_intros]: "safe_unmarshal AnyValue_UnmarshalProto"
  by (simp add: AnyValue_UnmarshalProto_def safe_value)

lemma safe_KeyValue_UnmarshalProto [safe_intros]: "safe_unmarshal KeyValue_UnmarshalProto"
  by (simp add: KeyValue_UnmarshalProto_def safe_value)

text \<open>An array that was read is not nil.\<close>

lemma AnyValue_read_array:
  assumes "AnyValue_unmarshalProto d buf v = Some (Ok v')" "v \<noteq> ArrayValue None"
  shows "v' \<noteq> ArrayValue None"
proof -
  have "unmarshal (AnyValue_field (ArrayValue_unmarshalProto (d + 1)) (KeyValueList_unmarshalProto (d + 1))) buf v = Some (Ok v')"
    using assms(1) by (subst (asm) AnyValue_unmarshalProto.simps) (simp split: if_splits)
  then show ?thesis
    by (rule unmarshal_keeps [where I = "\<lambda>v. v \<noteq> ArrayValue None"]) (use assms(2) in \<open>auto simp: AnyValue_field_def intro!: keeps_intros\<close>)
qed

lemma KeyValue_read_array:
  assumes "KeyValue_unmarshalProto d buf kv = Some (Ok kv')" "KeyValue_Value kv \<noteq> ArrayValue None"
  shows "KeyValue_Value kv' \<noteq> ArrayValue None"
proof -
  have "unmarshal (KeyValue_field (AnyValue_unmarshalProto (d + 1))) buf kv = Some (Ok kv')"
    using assms(1) by (subst (asm) KeyValue_unmarshalProto.simps) (simp split: if_splits)
  then show ?thesis
    by (rule unmarshal_keeps [where I = "\<lambda>kv. KeyValue_Value kv \<noteq> ArrayValue None"])
      (use assms(2) AnyValue_read_array in \<open>auto simp: KeyValue_field_def intro!: keeps_intros\<close>)
qed

end
