(* ===== verification/ProtoCommon.thy ===== *)
theory ProtoCommon
  imports ProtoValues
begin

text \<open>
  The messages the signals share: the identifiers of traces, spans and profiles, entity references, resources and
  instrumentation scopes. An identifier, an array of bytes in the code, is the word that has these bytes from the most
  significant one.
\<close>

section \<open>Tags\<close>

lemma tags [simp]:
  "tag_of [0xd] 1 WireTypeI32"
  "tag_of [0x9] 1 WireTypeI64"
  "tag_of [0xa] 1 WireTypeLen"
  "tag_of [0x8] 1 WireTypeVarint"
  "tag_of [0x11] 2 WireTypeI64"
  "tag_of [0x12] 2 WireTypeLen"
  "tag_of [0x10] 2 WireTypeVarint"
  "tag_of [0x1d] 3 WireTypeI32"
  "tag_of [0x19] 3 WireTypeI64"
  "tag_of [0x1a] 3 WireTypeLen"
  "tag_of [0x18] 3 WireTypeVarint"
  "tag_of [0x21] 4 WireTypeI64"
  "tag_of [0x22] 4 WireTypeLen"
  "tag_of [0x20] 4 WireTypeVarint"
  "tag_of [0x29] 5 WireTypeI64"
  "tag_of [0x2a] 5 WireTypeLen"
  "tag_of [0x28] 5 WireTypeVarint"
  "tag_of [0x35] 6 WireTypeI32"
  "tag_of [0x31] 6 WireTypeI64"
  "tag_of [0x32] 6 WireTypeLen"
  "tag_of [0x30] 6 WireTypeVarint"
  "tag_of [0x39] 7 WireTypeI64"
  "tag_of [0x3a] 7 WireTypeLen"
  "tag_of [0x38] 7 WireTypeVarint"
  "tag_of [0x45] 8 WireTypeI32"
  "tag_of [0x41] 8 WireTypeI64"
  "tag_of [0x42] 8 WireTypeLen"
  "tag_of [0x40] 8 WireTypeVarint"
  "tag_of [0x4a] 9 WireTypeLen"
  "tag_of [0x52] 10 WireTypeLen"
  "tag_of [0x50] 10 WireTypeVarint"
  "tag_of [0x59] 11 WireTypeI64"
  "tag_of [0x5a] 11 WireTypeLen"
  "tag_of [0x61] 12 WireTypeI64"
  "tag_of [0x62] 12 WireTypeLen"
  "tag_of [0x60] 12 WireTypeVarint"
  "tag_of [0x69] 13 WireTypeI64"
  "tag_of [0x6a] 13 WireTypeLen"
  "tag_of [0x71] 14 WireTypeI64"
  "tag_of [0x70] 14 WireTypeVarint"
  "tag_of [0x7a] 15 WireTypeLen"
  by (simp_all add: tag_of_byte WireType_defs)

declare tag_of_two_bytes [simp]

section \<open>Identifiers\<close>

lemma le_bytes_Nil: "le_bytes k n = [] \<longleftrightarrow> k = 0"
  by (metis length_0_conv length_le_bytes)

subsection \<open>TraceID\<close>

type_synonym TraceID = "128 word"

definition TraceID_array :: "TraceID \<Rightarrow> byte list" where
  "TraceID_array tid = rev (le_bytes 16 (unat tid))"

definition TraceID_IsEmpty :: "TraceID \<Rightarrow> bool" where
  "TraceID_IsEmpty tid \<longleftrightarrow> tid = 0"

definition TraceID_SizeProto :: "TraceID \<Rightarrow> nat" where
  "TraceID_SizeProto tid = (if TraceID_IsEmpty tid then 0 else 16)"

definition TraceID_MarshalProto :: "TraceID \<Rightarrow> writer" where
  "TraceID_MarshalProto tid = (if TraceID_IsEmpty tid then Some else put_raw (TraceID_array tid))"

definition TraceID_UnmarshalProto :: "byte list \<Rightarrow> TraceID \<Rightarrow> TraceID unmarshalled" where
  "TraceID_UnmarshalProto buf tid =
     (if length buf = 0 then Some (Ok 0)
      else if length buf \<noteq> 16 then Some (Err (ErrUnmarshalID ''TraceID''))
      else Some (Ok (of_nat (little_endian (rev buf)))))"

definition TraceID_bytes :: "TraceID \<Rightarrow> byte list" where
  "TraceID_bytes tid = (if TraceID_IsEmpty tid then [] else TraceID_array tid)"

lemma emits_TraceID [emits_intros]: "emits (TraceID_MarshalProto tid) (TraceID_bytes tid)"
  by (simp add: TraceID_MarshalProto_def TraceID_bytes_def emits_intros)

lemma TraceID_size [size_simps]: "length (TraceID_bytes tid) = TraceID_SizeProto tid"
  by (simp add: TraceID_bytes_def TraceID_SizeProto_def TraceID_array_def)

lemma TraceID_roundtrip: "TraceID_UnmarshalProto (TraceID_bytes tid) 0 = Some (Ok tid)"
proof -
  have "unat tid < 256 ^ 16" using unsigned_less [of tid] by simp
  then show ?thesis
    by (simp add: TraceID_UnmarshalProto_def TraceID_bytes_def TraceID_array_def TraceID_IsEmpty_def little_endian_le_bytes le_bytes_Nil)
qed

lemma TraceID_safe [safe_intros]: "safe_unmarshal TraceID_UnmarshalProto"
  by (simp add: safe_unmarshal_def TraceID_UnmarshalProto_def)

subsection \<open>SpanID\<close>

type_synonym SpanID = "64 word"

definition SpanID_array :: "SpanID \<Rightarrow> byte list" where
  "SpanID_array tid = rev (le_bytes 8 (unat tid))"

definition SpanID_IsEmpty :: "SpanID \<Rightarrow> bool" where
  "SpanID_IsEmpty tid \<longleftrightarrow> tid = 0"

definition SpanID_SizeProto :: "SpanID \<Rightarrow> nat" where
  "SpanID_SizeProto tid = (if SpanID_IsEmpty tid then 0 else 8)"

definition SpanID_MarshalProto :: "SpanID \<Rightarrow> writer" where
  "SpanID_MarshalProto tid = (if SpanID_IsEmpty tid then Some else put_raw (SpanID_array tid))"

definition SpanID_UnmarshalProto :: "byte list \<Rightarrow> SpanID \<Rightarrow> SpanID unmarshalled" where
  "SpanID_UnmarshalProto buf tid =
     (if length buf = 0 then Some (Ok 0)
      else if length buf \<noteq> 8 then Some (Err (ErrUnmarshalID ''SpanID''))
      else Some (Ok (of_nat (little_endian (rev buf)))))"

definition SpanID_bytes :: "SpanID \<Rightarrow> byte list" where
  "SpanID_bytes tid = (if SpanID_IsEmpty tid then [] else SpanID_array tid)"

lemma emits_SpanID [emits_intros]: "emits (SpanID_MarshalProto tid) (SpanID_bytes tid)"
  by (simp add: SpanID_MarshalProto_def SpanID_bytes_def emits_intros)

lemma SpanID_size [size_simps]: "length (SpanID_bytes tid) = SpanID_SizeProto tid"
  by (simp add: SpanID_bytes_def SpanID_SizeProto_def SpanID_array_def)

lemma SpanID_roundtrip: "SpanID_UnmarshalProto (SpanID_bytes tid) 0 = Some (Ok tid)"
proof -
  have "unat tid < 256 ^ 8" using unsigned_less [of tid] by simp
  then show ?thesis
    by (simp add: SpanID_UnmarshalProto_def SpanID_bytes_def SpanID_array_def SpanID_IsEmpty_def little_endian_le_bytes le_bytes_Nil)
qed

lemma SpanID_safe [safe_intros]: "safe_unmarshal SpanID_UnmarshalProto"
  by (simp add: safe_unmarshal_def SpanID_UnmarshalProto_def)

subsection \<open>ProfileID\<close>

type_synonym ProfileID = "128 word"

definition ProfileID_array :: "ProfileID \<Rightarrow> byte list" where
  "ProfileID_array tid = rev (le_bytes 16 (unat tid))"

definition ProfileID_IsEmpty :: "ProfileID \<Rightarrow> bool" where
  "ProfileID_IsEmpty tid \<longleftrightarrow> tid = 0"

definition ProfileID_SizeProto :: "ProfileID \<Rightarrow> nat" where
  "ProfileID_SizeProto tid = (if ProfileID_IsEmpty tid then 0 else 16)"

definition ProfileID_MarshalProto :: "ProfileID \<Rightarrow> writer" where
  "ProfileID_MarshalProto tid = (if ProfileID_IsEmpty tid then Some else put_raw (ProfileID_array tid))"

definition ProfileID_UnmarshalProto :: "byte list \<Rightarrow> ProfileID \<Rightarrow> ProfileID unmarshalled" where
  "ProfileID_UnmarshalProto buf tid =
     (if length buf = 0 then Some (Ok 0)
      else if length buf \<noteq> 16 then Some (Err (ErrUnmarshalID ''ProfileID''))
      else Some (Ok (of_nat (little_endian (rev buf)))))"

definition ProfileID_bytes :: "ProfileID \<Rightarrow> byte list" where
  "ProfileID_bytes tid = (if ProfileID_IsEmpty tid then [] else ProfileID_array tid)"

lemma emits_ProfileID [emits_intros]: "emits (ProfileID_MarshalProto tid) (ProfileID_bytes tid)"
  by (simp add: ProfileID_MarshalProto_def ProfileID_bytes_def emits_intros)

lemma ProfileID_size [size_simps]: "length (ProfileID_bytes tid) = ProfileID_SizeProto tid"
  by (simp add: ProfileID_bytes_def ProfileID_SizeProto_def ProfileID_array_def)

lemma ProfileID_roundtrip: "ProfileID_UnmarshalProto (ProfileID_bytes tid) 0 = Some (Ok tid)"
proof -
  have "unat tid < 256 ^ 16" using unsigned_less [of tid] by simp
  then show ?thesis
    by (simp add: ProfileID_UnmarshalProto_def ProfileID_bytes_def ProfileID_array_def ProfileID_IsEmpty_def little_endian_le_bytes le_bytes_Nil)
qed

lemma ProfileID_safe [safe_intros]: "safe_unmarshal ProfileID_UnmarshalProto"
  by (simp add: safe_unmarshal_def ProfileID_UnmarshalProto_def)

section \<open>Messages\<close>

subsection \<open>EntityRef\<close>

record EntityRef =
  EntityRef_SchemaUrl :: "byte list"
  EntityRef_Type :: "byte list"
  EntityRef_IdKeys :: "byte list list"
  EntityRef_DescriptionKeys :: "byte list list"

definition EntityRef_zero :: EntityRef where
  "EntityRef_zero = \<lparr>EntityRef_SchemaUrl = [], EntityRef_Type = [], EntityRef_IdKeys = [], EntityRef_DescriptionKeys = []\<rparr>"

definition EntityRef_SizeProto :: "EntityRef \<Rightarrow> nat" where
  "EntityRef_SizeProto orig = sum_list [
     size_bytes 1 (EntityRef_SchemaUrl orig),
     size_bytes 1 (EntityRef_Type orig),
     \<Sum>s\<leftarrow>EntityRef_IdKeys orig. size_len 1 (length s),
     \<Sum>s\<leftarrow>EntityRef_DescriptionKeys orig. size_len 1 (length s)]"

definition EntityRef_MarshalProto :: "EntityRef \<Rightarrow> writer" where
  "EntityRef_MarshalProto orig = writes [
     w_bytes [0xa] (EntityRef_SchemaUrl orig),
     w_bytes [0x12] (EntityRef_Type orig),
     w_repeated_bytes [0x1a] (EntityRef_IdKeys orig),
     w_repeated_bytes [0x22] (EntityRef_DescriptionKeys orig)]"

definition EntityRef_field :: "int \<Rightarrow> EntityRef reader" where
  "EntityRef_field fieldNum =
     (if fieldNum = 1 then r_bytes ''SchemaUrl'' (\<lambda>s orig. orig\<lparr>EntityRef_SchemaUrl := s\<rparr>)
      else if fieldNum = 2 then r_bytes ''Type'' (\<lambda>s orig. orig\<lparr>EntityRef_Type := s\<rparr>)
      else if fieldNum = 3 then r_bytes ''IdKeys'' (\<lambda>s orig. orig\<lparr>EntityRef_IdKeys := EntityRef_IdKeys orig @ [s]\<rparr>)
      else if fieldNum = 4 then r_bytes ''DescriptionKeys'' (\<lambda>s orig. orig\<lparr>EntityRef_DescriptionKeys := EntityRef_DescriptionKeys orig @ [s]\<rparr>)
      else r_unknown)"

definition EntityRef_UnmarshalProto :: "byte list \<Rightarrow> EntityRef \<Rightarrow> EntityRef unmarshalled" where
  "EntityRef_UnmarshalProto = unmarshal EntityRef_field"

definition EntityRef_bytes :: "EntityRef \<Rightarrow> byte list" where
  "EntityRef_bytes orig = concat (rev [
     b_bytes [0xa] (EntityRef_SchemaUrl orig),
     b_bytes [0x12] (EntityRef_Type orig),
     b_repeated [0x1a] (EntityRef_IdKeys orig),
     b_repeated [0x22] (EntityRef_DescriptionKeys orig)])"

lemma emits_EntityRef [emits_intros]: "emits (EntityRef_MarshalProto orig) (EntityRef_bytes orig)"
  unfolding EntityRef_MarshalProto_def EntityRef_bytes_def by (rule emits_writes) (simp add: emits_intros)

lemma EntityRef_size [size_simps]: "length (EntityRef_bytes orig) = EntityRef_SizeProto orig"
  by (simp add: EntityRef_bytes_def EntityRef_SizeProto_def size_simps comp_def)

lemma EntityRef_fields:
  "EntityRef_field 1 = r_bytes ''SchemaUrl'' (\<lambda>s orig. orig\<lparr>EntityRef_SchemaUrl := s\<rparr>)"
  "EntityRef_field 2 = r_bytes ''Type'' (\<lambda>s orig. orig\<lparr>EntityRef_Type := s\<rparr>)"
  "EntityRef_field 3 = r_bytes ''IdKeys'' (\<lambda>s orig. orig\<lparr>EntityRef_IdKeys := EntityRef_IdKeys orig @ [s]\<rparr>)"
  "EntityRef_field 4 = r_bytes ''DescriptionKeys'' (\<lambda>s orig. orig\<lparr>EntityRef_DescriptionKeys := EntityRef_DescriptionKeys orig @ [s]\<rparr>)"
  by (simp_all add: EntityRef_field_def)

lemma EntityRef_eta: "\<lparr>EntityRef_SchemaUrl = EntityRef_SchemaUrl orig, EntityRef_Type = EntityRef_Type orig, EntityRef_IdKeys = EntityRef_IdKeys orig, EntityRef_DescriptionKeys = EntityRef_DescriptionKeys orig\<rparr> = (orig :: EntityRef)"
  by (cases orig) simp

lemmas EntityRef_steps =
  reads_bytes [where h = EntityRef_field and f = 1 and tag = "[0xa]", OF _ EntityRef_fields(1), THEN reads_append]
  reads_bytes [where h = EntityRef_field and f = 2 and tag = "[0x12]", OF _ EntityRef_fields(2), THEN reads_append]
  reads_strings [where h = EntityRef_field and f = 3 and tag = "[0x1a]" and S = "\<lambda>x orig. orig\<lparr>EntityRef_IdKeys := x\<rparr>", OF _ EntityRef_fields(3), THEN reads_append]
  reads_strings [where h = EntityRef_field and f = 4 and tag = "[0x22]" and S = "\<lambda>x orig. orig\<lparr>EntityRef_DescriptionKeys := x\<rparr>", OF _ EntityRef_fields(4), THEN reads_append]

lemma EntityRef_reads: "reads EntityRef_field (EntityRef_bytes orig) EntityRef_zero orig"
  unfolding EntityRef_bytes_def rev.simps append.simps concat.simps
  by (intro EntityRef_steps reads_done)
    (simp_all add: EntityRef_zero_def EntityRef_eta  split: option.splits)

lemma EntityRef_roundtrip:
  "length (EntityRef_bytes orig) < 2 ^ 62 \<Longrightarrow> EntityRef_UnmarshalProto (EntityRef_bytes orig) EntityRef_zero = Some (Ok orig)"
  by (simp add: EntityRef_UnmarshalProto_def unmarshal_reads EntityRef_reads)

lemma EntityRef_safe [safe_intros]: "safe_unmarshal EntityRef_UnmarshalProto"
  unfolding EntityRef_UnmarshalProto_def by (rule safe_unmarshal_fields) (auto simp: EntityRef_field_def intro!: safe_intros)

subsection \<open>Resource\<close>

record Resource =
  Resource_Attributes :: "KeyValue list"
  Resource_EntityRefs :: "EntityRef list"
  Resource_DroppedAttributesCount :: "32 word"

definition Resource_zero :: Resource where
  "Resource_zero = \<lparr>Resource_Attributes = [], Resource_EntityRefs = [], Resource_DroppedAttributesCount = 0\<rparr>"

definition Resource_SizeProto :: "Resource \<Rightarrow> nat" where
  "Resource_SizeProto orig = sum_list [
     \<Sum>x\<leftarrow>Resource_Attributes orig. size_len 1 (KeyValue_SizeProto x),
     if Resource_DroppedAttributesCount orig \<noteq> 0 then 1 + Sov (ucast (Resource_DroppedAttributesCount orig)) else 0,
     \<Sum>x\<leftarrow>Resource_EntityRefs orig. size_len 1 (EntityRef_SizeProto x)]"

definition Resource_MarshalProto :: "Resource \<Rightarrow> writer" where
  "Resource_MarshalProto orig = writes [
     w_repeated [0xa] KeyValue_MarshalProto (Resource_Attributes orig),
     w_varint [0x10] (ucast (Resource_DroppedAttributesCount orig)),
     w_repeated [0x1a] EntityRef_MarshalProto (Resource_EntityRefs orig)]"

definition Resource_field :: "int \<Rightarrow> Resource reader" where
  "Resource_field fieldNum =
     (if fieldNum = 1 then r_message ''Attributes'' KeyValue_UnmarshalProto (\<lambda>_. (KeyValue [] NoValue 0)) (\<lambda>v orig. orig\<lparr>Resource_Attributes := Resource_Attributes orig @ [v]\<rparr>)
      else if fieldNum = 2 then r_varint ''DroppedAttributesCount'' (\<lambda>num orig. orig\<lparr>Resource_DroppedAttributesCount := ucast num\<rparr>)
      else if fieldNum = 3 then r_message ''EntityRefs'' EntityRef_UnmarshalProto (\<lambda>_. EntityRef_zero) (\<lambda>v orig. orig\<lparr>Resource_EntityRefs := Resource_EntityRefs orig @ [v]\<rparr>)
      else r_unknown)"

definition Resource_UnmarshalProto :: "byte list \<Rightarrow> Resource \<Rightarrow> Resource unmarshalled" where
  "Resource_UnmarshalProto = unmarshal Resource_field"

definition Resource_bytes :: "Resource \<Rightarrow> byte list" where
  "Resource_bytes orig = concat (rev [
     b_repeated [0xa] (map KeyValue_bytes (Resource_Attributes orig)),
     b_varint [0x10] (ucast (Resource_DroppedAttributesCount orig)),
     b_repeated [0x1a] (map EntityRef_bytes (Resource_EntityRefs orig))])"

definition Resource_wf :: "Resource \<Rightarrow> bool" where
  "Resource_wf orig \<longleftrightarrow> list_all KeyValue_wf (Resource_Attributes orig)"

lemma emits_Resource [emits_intros]: "emits (Resource_MarshalProto orig) (Resource_bytes orig)"
  unfolding Resource_MarshalProto_def Resource_bytes_def by (rule emits_writes) (simp add: emits_intros)

lemma Resource_size [size_simps]: "length (Resource_bytes orig) = Resource_SizeProto orig"
  by (simp add: Resource_bytes_def Resource_SizeProto_def size_simps comp_def)

lemma Resource_fields:
  "Resource_field 1 = r_message ''Attributes'' KeyValue_UnmarshalProto (\<lambda>_. (KeyValue [] NoValue 0)) (\<lambda>v orig. orig\<lparr>Resource_Attributes := Resource_Attributes orig @ [v]\<rparr>)"
  "Resource_field 2 = r_varint ''DroppedAttributesCount'' (\<lambda>num orig. orig\<lparr>Resource_DroppedAttributesCount := ucast num\<rparr>)"
  "Resource_field 3 = r_message ''EntityRefs'' EntityRef_UnmarshalProto (\<lambda>_. EntityRef_zero) (\<lambda>v orig. orig\<lparr>Resource_EntityRefs := Resource_EntityRefs orig @ [v]\<rparr>)"
  by (simp_all add: Resource_field_def)

lemma Resource_eta: "\<lparr>Resource_Attributes = Resource_Attributes orig, Resource_EntityRefs = Resource_EntityRefs orig, Resource_DroppedAttributesCount = Resource_DroppedAttributesCount orig\<rparr> = (orig :: Resource)"
  by (cases orig) simp

lemmas Resource_steps =
  reads_submessages [where h = Resource_field and f = 1 and tag = "[0xa]" and S = "\<lambda>x orig. orig\<lparr>Resource_Attributes := x\<rparr>" and b = KeyValue_bytes, OF _ Resource_fields(1), THEN reads_append]
  reads_varint [where h = Resource_field and f = 2 and tag = "[0x10]", OF _ Resource_fields(2), THEN reads_append]
  reads_submessages [where h = Resource_field and f = 3 and tag = "[0x1a]" and S = "\<lambda>x orig. orig\<lparr>Resource_EntityRefs := x\<rparr>" and b = EntityRef_bytes, OF _ Resource_fields(3), THEN reads_append]

lemma Resource_reads: "Resource_wf orig \<Longrightarrow> reads Resource_field (Resource_bytes orig) Resource_zero orig"
  unfolding Resource_bytes_def rev.simps append.simps concat.simps
  by (intro Resource_steps reads_done)
    (simp_all add: Resource_zero_def Resource_eta Resource_wf_def list_all_iff double_is_zero_def EntityRef_roundtrip KeyValue_roundtrip split: option.splits)

lemma Resource_roundtrip:
  "Resource_wf orig \<Longrightarrow> length (Resource_bytes orig) < 2 ^ 62 \<Longrightarrow> Resource_UnmarshalProto (Resource_bytes orig) Resource_zero = Some (Ok orig)"
  by (simp add: Resource_UnmarshalProto_def unmarshal_reads Resource_reads)

lemma Resource_safe [safe_intros]: "safe_unmarshal Resource_UnmarshalProto"
  unfolding Resource_UnmarshalProto_def by (rule safe_unmarshal_fields) (auto simp: Resource_field_def intro!: safe_intros)

subsection \<open>InstrumentationScope\<close>

record InstrumentationScope =
  InstrumentationScope_Name :: "byte list"
  InstrumentationScope_Version :: "byte list"
  InstrumentationScope_Attributes :: "KeyValue list"
  InstrumentationScope_DroppedAttributesCount :: "32 word"

definition InstrumentationScope_zero :: InstrumentationScope where
  "InstrumentationScope_zero = \<lparr>InstrumentationScope_Name = [], InstrumentationScope_Version = [], InstrumentationScope_Attributes = [], InstrumentationScope_DroppedAttributesCount = 0\<rparr>"

definition InstrumentationScope_SizeProto :: "InstrumentationScope \<Rightarrow> nat" where
  "InstrumentationScope_SizeProto orig = sum_list [
     size_bytes 1 (InstrumentationScope_Name orig),
     size_bytes 1 (InstrumentationScope_Version orig),
     \<Sum>x\<leftarrow>InstrumentationScope_Attributes orig. size_len 1 (KeyValue_SizeProto x),
     if InstrumentationScope_DroppedAttributesCount orig \<noteq> 0 then 1 + Sov (ucast (InstrumentationScope_DroppedAttributesCount orig)) else 0]"

definition InstrumentationScope_MarshalProto :: "InstrumentationScope \<Rightarrow> writer" where
  "InstrumentationScope_MarshalProto orig = writes [
     w_bytes [0xa] (InstrumentationScope_Name orig),
     w_bytes [0x12] (InstrumentationScope_Version orig),
     w_repeated [0x1a] KeyValue_MarshalProto (InstrumentationScope_Attributes orig),
     w_varint [0x20] (ucast (InstrumentationScope_DroppedAttributesCount orig))]"

definition InstrumentationScope_field :: "int \<Rightarrow> InstrumentationScope reader" where
  "InstrumentationScope_field fieldNum =
     (if fieldNum = 1 then r_bytes ''Name'' (\<lambda>s orig. orig\<lparr>InstrumentationScope_Name := s\<rparr>)
      else if fieldNum = 2 then r_bytes ''Version'' (\<lambda>s orig. orig\<lparr>InstrumentationScope_Version := s\<rparr>)
      else if fieldNum = 3 then r_message ''Attributes'' KeyValue_UnmarshalProto (\<lambda>_. (KeyValue [] NoValue 0)) (\<lambda>v orig. orig\<lparr>InstrumentationScope_Attributes := InstrumentationScope_Attributes orig @ [v]\<rparr>)
      else if fieldNum = 4 then r_varint ''DroppedAttributesCount'' (\<lambda>num orig. orig\<lparr>InstrumentationScope_DroppedAttributesCount := ucast num\<rparr>)
      else r_unknown)"

definition InstrumentationScope_UnmarshalProto :: "byte list \<Rightarrow> InstrumentationScope \<Rightarrow> InstrumentationScope unmarshalled" where
  "InstrumentationScope_UnmarshalProto = unmarshal InstrumentationScope_field"

definition InstrumentationScope_bytes :: "InstrumentationScope \<Rightarrow> byte list" where
  "InstrumentationScope_bytes orig = concat (rev [
     b_bytes [0xa] (InstrumentationScope_Name orig),
     b_bytes [0x12] (InstrumentationScope_Version orig),
     b_repeated [0x1a] (map KeyValue_bytes (InstrumentationScope_Attributes orig)),
     b_varint [0x20] (ucast (InstrumentationScope_DroppedAttributesCount orig))])"

definition InstrumentationScope_wf :: "InstrumentationScope \<Rightarrow> bool" where
  "InstrumentationScope_wf orig \<longleftrightarrow> list_all KeyValue_wf (InstrumentationScope_Attributes orig)"

lemma emits_InstrumentationScope [emits_intros]: "emits (InstrumentationScope_MarshalProto orig) (InstrumentationScope_bytes orig)"
  unfolding InstrumentationScope_MarshalProto_def InstrumentationScope_bytes_def by (rule emits_writes) (simp add: emits_intros)

lemma InstrumentationScope_size [size_simps]: "length (InstrumentationScope_bytes orig) = InstrumentationScope_SizeProto orig"
  by (simp add: InstrumentationScope_bytes_def InstrumentationScope_SizeProto_def size_simps comp_def)

lemma InstrumentationScope_fields:
  "InstrumentationScope_field 1 = r_bytes ''Name'' (\<lambda>s orig. orig\<lparr>InstrumentationScope_Name := s\<rparr>)"
  "InstrumentationScope_field 2 = r_bytes ''Version'' (\<lambda>s orig. orig\<lparr>InstrumentationScope_Version := s\<rparr>)"
  "InstrumentationScope_field 3 = r_message ''Attributes'' KeyValue_UnmarshalProto (\<lambda>_. (KeyValue [] NoValue 0)) (\<lambda>v orig. orig\<lparr>InstrumentationScope_Attributes := InstrumentationScope_Attributes orig @ [v]\<rparr>)"
  "InstrumentationScope_field 4 = r_varint ''DroppedAttributesCount'' (\<lambda>num orig. orig\<lparr>InstrumentationScope_DroppedAttributesCount := ucast num\<rparr>)"
  by (simp_all add: InstrumentationScope_field_def)

lemma InstrumentationScope_eta: "\<lparr>InstrumentationScope_Name = InstrumentationScope_Name orig, InstrumentationScope_Version = InstrumentationScope_Version orig, InstrumentationScope_Attributes = InstrumentationScope_Attributes orig, InstrumentationScope_DroppedAttributesCount = InstrumentationScope_DroppedAttributesCount orig\<rparr> = (orig :: InstrumentationScope)"
  by (cases orig) simp

lemmas InstrumentationScope_steps =
  reads_bytes [where h = InstrumentationScope_field and f = 1 and tag = "[0xa]", OF _ InstrumentationScope_fields(1), THEN reads_append]
  reads_bytes [where h = InstrumentationScope_field and f = 2 and tag = "[0x12]", OF _ InstrumentationScope_fields(2), THEN reads_append]
  reads_submessages [where h = InstrumentationScope_field and f = 3 and tag = "[0x1a]" and S = "\<lambda>x orig. orig\<lparr>InstrumentationScope_Attributes := x\<rparr>" and b = KeyValue_bytes, OF _ InstrumentationScope_fields(3), THEN reads_append]
  reads_varint [where h = InstrumentationScope_field and f = 4 and tag = "[0x20]", OF _ InstrumentationScope_fields(4), THEN reads_append]

lemma InstrumentationScope_reads: "InstrumentationScope_wf orig \<Longrightarrow> reads InstrumentationScope_field (InstrumentationScope_bytes orig) InstrumentationScope_zero orig"
  unfolding InstrumentationScope_bytes_def rev.simps append.simps concat.simps
  by (intro InstrumentationScope_steps reads_done)
    (simp_all add: InstrumentationScope_zero_def InstrumentationScope_eta InstrumentationScope_wf_def list_all_iff double_is_zero_def KeyValue_roundtrip split: option.splits)

lemma InstrumentationScope_roundtrip:
  "InstrumentationScope_wf orig \<Longrightarrow> length (InstrumentationScope_bytes orig) < 2 ^ 62 \<Longrightarrow> InstrumentationScope_UnmarshalProto (InstrumentationScope_bytes orig) InstrumentationScope_zero = Some (Ok orig)"
  by (simp add: InstrumentationScope_UnmarshalProto_def unmarshal_reads InstrumentationScope_reads)

lemma InstrumentationScope_safe [safe_intros]: "safe_unmarshal InstrumentationScope_UnmarshalProto"
  unfolding InstrumentationScope_UnmarshalProto_def by (rule safe_unmarshal_fields) (auto simp: InstrumentationScope_field_def intro!: safe_intros)

end
