(* ===== verification/ProtoLogs.thy ===== *)
theory ProtoLogs
  imports ProtoCommon
begin

text \<open>
  The messages of log data and of the export of logs.
\<close>

subsection \<open>LogRecord\<close>

record LogRecord =
  LogRecord_Body :: AnyValue
  LogRecord_SeverityText :: "byte list"
  LogRecord_EventName :: "byte list"
  LogRecord_Attributes :: "KeyValue list"
  LogRecord_TimeUnixNano :: u64
  LogRecord_ObservedTimeUnixNano :: u64
  LogRecord_SeverityNumber :: "32 word"
  LogRecord_DroppedAttributesCount :: "32 word"
  LogRecord_Flags :: "32 word"
  LogRecord_TraceId :: TraceID
  LogRecord_SpanId :: SpanID

definition LogRecord_zero :: LogRecord where
  "LogRecord_zero = \<lparr>LogRecord_Body = NoValue, LogRecord_SeverityText = [], LogRecord_EventName = [], LogRecord_Attributes = [], LogRecord_TimeUnixNano = 0, LogRecord_ObservedTimeUnixNano = 0, LogRecord_SeverityNumber = 0, LogRecord_DroppedAttributesCount = 0, LogRecord_Flags = 0, LogRecord_TraceId = 0, LogRecord_SpanId = 0\<rparr>"

definition LogRecord_SizeProto :: "LogRecord \<Rightarrow> nat" where
  "LogRecord_SizeProto orig = sum_list [
     if LogRecord_TimeUnixNano orig \<noteq> 0 then 9 else 0,
     if LogRecord_ObservedTimeUnixNano orig \<noteq> 0 then 9 else 0,
     if LogRecord_SeverityNumber orig \<noteq> 0 then 1 + Sov (scast (LogRecord_SeverityNumber orig)) else 0,
     size_bytes 1 (LogRecord_SeverityText orig),
     size_len 1 (AnyValue_SizeProto (LogRecord_Body orig)),
     \<Sum>x\<leftarrow>LogRecord_Attributes orig. size_len 1 (KeyValue_SizeProto x),
     if LogRecord_DroppedAttributesCount orig \<noteq> 0 then 1 + Sov (ucast (LogRecord_DroppedAttributesCount orig)) else 0,
     if LogRecord_Flags orig \<noteq> 0 then 5 else 0,
     size_len 1 (TraceID_SizeProto (LogRecord_TraceId orig)),
     size_len 1 (SpanID_SizeProto (LogRecord_SpanId orig)),
     size_bytes 1 (LogRecord_EventName orig)]"

definition LogRecord_MarshalProto :: "LogRecord \<Rightarrow> writer" where
  "LogRecord_MarshalProto orig = writes [
     w_fixed64 [0x9] (LogRecord_TimeUnixNano orig),
     w_fixed64 [0x59] (LogRecord_ObservedTimeUnixNano orig),
     w_varint [0x10] (scast (LogRecord_SeverityNumber orig)),
     w_bytes [0x1a] (LogRecord_SeverityText orig),
     w_message [0x2a] (AnyValue_MarshalProto (LogRecord_Body orig)),
     w_repeated [0x32] KeyValue_MarshalProto (LogRecord_Attributes orig),
     w_varint [0x38] (ucast (LogRecord_DroppedAttributesCount orig)),
     w_fixed32 [0x45] (LogRecord_Flags orig),
     w_message [0x4a] (TraceID_MarshalProto (LogRecord_TraceId orig)),
     w_message [0x52] (SpanID_MarshalProto (LogRecord_SpanId orig)),
     w_bytes [0x62] (LogRecord_EventName orig)]"

definition LogRecord_field :: "int \<Rightarrow> LogRecord reader" where
  "LogRecord_field fieldNum =
     (if fieldNum = 1 then r_fixed64 ''TimeUnixNano'' (\<lambda>num orig. orig\<lparr>LogRecord_TimeUnixNano := num\<rparr>)
      else if fieldNum = 11 then r_fixed64 ''ObservedTimeUnixNano'' (\<lambda>num orig. orig\<lparr>LogRecord_ObservedTimeUnixNano := num\<rparr>)
      else if fieldNum = 2 then r_varint ''SeverityNumber'' (\<lambda>num orig. orig\<lparr>LogRecord_SeverityNumber := ucast num\<rparr>)
      else if fieldNum = 3 then r_bytes ''SeverityText'' (\<lambda>s orig. orig\<lparr>LogRecord_SeverityText := s\<rparr>)
      else if fieldNum = 5 then r_message ''Body'' AnyValue_UnmarshalProto LogRecord_Body (\<lambda>v orig. orig\<lparr>LogRecord_Body := v\<rparr>)
      else if fieldNum = 6 then r_message ''Attributes'' KeyValue_UnmarshalProto (\<lambda>_. (KeyValue [] NoValue 0)) (\<lambda>v orig. orig\<lparr>LogRecord_Attributes := LogRecord_Attributes orig @ [v]\<rparr>)
      else if fieldNum = 7 then r_varint ''DroppedAttributesCount'' (\<lambda>num orig. orig\<lparr>LogRecord_DroppedAttributesCount := ucast num\<rparr>)
      else if fieldNum = 8 then r_fixed32 ''Flags'' (\<lambda>num orig. orig\<lparr>LogRecord_Flags := num\<rparr>)
      else if fieldNum = 9 then r_message ''TraceId'' TraceID_UnmarshalProto LogRecord_TraceId (\<lambda>v orig. orig\<lparr>LogRecord_TraceId := v\<rparr>)
      else if fieldNum = 10 then r_message ''SpanId'' SpanID_UnmarshalProto LogRecord_SpanId (\<lambda>v orig. orig\<lparr>LogRecord_SpanId := v\<rparr>)
      else if fieldNum = 12 then r_bytes ''EventName'' (\<lambda>s orig. orig\<lparr>LogRecord_EventName := s\<rparr>)
      else r_unknown)"

definition LogRecord_UnmarshalProto :: "byte list \<Rightarrow> LogRecord \<Rightarrow> LogRecord unmarshalled" where
  "LogRecord_UnmarshalProto = unmarshal LogRecord_field"

definition LogRecord_bytes :: "LogRecord \<Rightarrow> byte list" where
  "LogRecord_bytes orig = concat (rev [
     b_fixed64 [0x9] (LogRecord_TimeUnixNano orig),
     b_fixed64 [0x59] (LogRecord_ObservedTimeUnixNano orig),
     b_varint [0x10] (scast (LogRecord_SeverityNumber orig)),
     b_bytes [0x1a] (LogRecord_SeverityText orig),
     len_bytes [0x2a] (AnyValue_bytes (LogRecord_Body orig)),
     b_repeated [0x32] (map KeyValue_bytes (LogRecord_Attributes orig)),
     b_varint [0x38] (ucast (LogRecord_DroppedAttributesCount orig)),
     b_fixed32 [0x45] (LogRecord_Flags orig),
     len_bytes [0x4a] (TraceID_bytes (LogRecord_TraceId orig)),
     len_bytes [0x52] (SpanID_bytes (LogRecord_SpanId orig)),
     b_bytes [0x62] (LogRecord_EventName orig)])"

definition LogRecord_wf :: "LogRecord \<Rightarrow> bool" where
  "LogRecord_wf orig \<longleftrightarrow> AnyValue_wf (LogRecord_Body orig) \<and>
     list_all KeyValue_wf (LogRecord_Attributes orig)"

lemma emits_LogRecord [emits_intros]: "emits (LogRecord_MarshalProto orig) (LogRecord_bytes orig)"
  unfolding LogRecord_MarshalProto_def LogRecord_bytes_def by (rule emits_writes) (simp add: emits_intros)

lemma LogRecord_size [size_simps]: "length (LogRecord_bytes orig) = LogRecord_SizeProto orig"
  by (simp add: LogRecord_bytes_def LogRecord_SizeProto_def size_simps comp_def)

lemma LogRecord_fields:
  "LogRecord_field 1 = r_fixed64 ''TimeUnixNano'' (\<lambda>num orig. orig\<lparr>LogRecord_TimeUnixNano := num\<rparr>)"
  "LogRecord_field 11 = r_fixed64 ''ObservedTimeUnixNano'' (\<lambda>num orig. orig\<lparr>LogRecord_ObservedTimeUnixNano := num\<rparr>)"
  "LogRecord_field 2 = r_varint ''SeverityNumber'' (\<lambda>num orig. orig\<lparr>LogRecord_SeverityNumber := ucast num\<rparr>)"
  "LogRecord_field 3 = r_bytes ''SeverityText'' (\<lambda>s orig. orig\<lparr>LogRecord_SeverityText := s\<rparr>)"
  "LogRecord_field 5 = r_message ''Body'' AnyValue_UnmarshalProto LogRecord_Body (\<lambda>v orig. orig\<lparr>LogRecord_Body := v\<rparr>)"
  "LogRecord_field 6 = r_message ''Attributes'' KeyValue_UnmarshalProto (\<lambda>_. (KeyValue [] NoValue 0)) (\<lambda>v orig. orig\<lparr>LogRecord_Attributes := LogRecord_Attributes orig @ [v]\<rparr>)"
  "LogRecord_field 7 = r_varint ''DroppedAttributesCount'' (\<lambda>num orig. orig\<lparr>LogRecord_DroppedAttributesCount := ucast num\<rparr>)"
  "LogRecord_field 8 = r_fixed32 ''Flags'' (\<lambda>num orig. orig\<lparr>LogRecord_Flags := num\<rparr>)"
  "LogRecord_field 9 = r_message ''TraceId'' TraceID_UnmarshalProto LogRecord_TraceId (\<lambda>v orig. orig\<lparr>LogRecord_TraceId := v\<rparr>)"
  "LogRecord_field 10 = r_message ''SpanId'' SpanID_UnmarshalProto LogRecord_SpanId (\<lambda>v orig. orig\<lparr>LogRecord_SpanId := v\<rparr>)"
  "LogRecord_field 12 = r_bytes ''EventName'' (\<lambda>s orig. orig\<lparr>LogRecord_EventName := s\<rparr>)"
  by (simp_all add: LogRecord_field_def)

lemma LogRecord_eta: "\<lparr>LogRecord_Body = LogRecord_Body orig, LogRecord_SeverityText = LogRecord_SeverityText orig, LogRecord_EventName = LogRecord_EventName orig, LogRecord_Attributes = LogRecord_Attributes orig, LogRecord_TimeUnixNano = LogRecord_TimeUnixNano orig, LogRecord_ObservedTimeUnixNano = LogRecord_ObservedTimeUnixNano orig, LogRecord_SeverityNumber = LogRecord_SeverityNumber orig, LogRecord_DroppedAttributesCount = LogRecord_DroppedAttributesCount orig, LogRecord_Flags = LogRecord_Flags orig, LogRecord_TraceId = LogRecord_TraceId orig, LogRecord_SpanId = LogRecord_SpanId orig\<rparr> = (orig :: LogRecord)"
  by (cases orig) simp

lemmas LogRecord_steps =
  reads_fixed64 [where h = LogRecord_field and f = 1 and tag = "[0x9]", OF _ LogRecord_fields(1), THEN reads_append]
  reads_fixed64 [where h = LogRecord_field and f = 11 and tag = "[0x59]", OF _ LogRecord_fields(2), THEN reads_append]
  reads_varint [where h = LogRecord_field and f = 2 and tag = "[0x10]", OF _ LogRecord_fields(3), THEN reads_append]
  reads_bytes [where h = LogRecord_field and f = 3 and tag = "[0x1a]", OF _ LogRecord_fields(4), THEN reads_append]
  reads_submessage [where h = LogRecord_field and f = 5 and tag = "[0x2a]" and b = AnyValue_bytes, OF _ LogRecord_fields(5), THEN reads_append]
  reads_submessages [where h = LogRecord_field and f = 6 and tag = "[0x32]" and S = "\<lambda>x orig. orig\<lparr>LogRecord_Attributes := x\<rparr>" and b = KeyValue_bytes, OF _ LogRecord_fields(6), THEN reads_append]
  reads_varint [where h = LogRecord_field and f = 7 and tag = "[0x38]", OF _ LogRecord_fields(7), THEN reads_append]
  reads_fixed32 [where h = LogRecord_field and f = 8 and tag = "[0x45]", OF _ LogRecord_fields(8), THEN reads_append]
  reads_submessage [where h = LogRecord_field and f = 9 and tag = "[0x4a]" and b = TraceID_bytes, OF _ LogRecord_fields(9), THEN reads_append]
  reads_submessage [where h = LogRecord_field and f = 10 and tag = "[0x52]" and b = SpanID_bytes, OF _ LogRecord_fields(10), THEN reads_append]
  reads_bytes [where h = LogRecord_field and f = 12 and tag = "[0x62]", OF _ LogRecord_fields(11), THEN reads_append]

lemma LogRecord_reads: "LogRecord_wf orig \<Longrightarrow> reads LogRecord_field (LogRecord_bytes orig) LogRecord_zero orig"
  unfolding LogRecord_bytes_def rev.simps append.simps concat.simps
  by (intro LogRecord_steps reads_done)
    (simp_all add: LogRecord_zero_def LogRecord_eta LogRecord_wf_def list_all_iff double_is_zero_def AnyValue_roundtrip KeyValue_roundtrip SpanID_roundtrip TraceID_roundtrip split: option.splits)

lemma LogRecord_roundtrip:
  "LogRecord_wf orig \<Longrightarrow> length (LogRecord_bytes orig) < 2 ^ 62 \<Longrightarrow> LogRecord_UnmarshalProto (LogRecord_bytes orig) LogRecord_zero = Some (Ok orig)"
  by (simp add: LogRecord_UnmarshalProto_def unmarshal_reads LogRecord_reads)

lemma LogRecord_safe [safe_intros]: "safe_unmarshal LogRecord_UnmarshalProto"
  unfolding LogRecord_UnmarshalProto_def by (rule safe_unmarshal_fields) (auto simp: LogRecord_field_def intro!: safe_intros)

subsection \<open>ScopeLogs\<close>

record ScopeLogs =
  ScopeLogs_SchemaUrl :: "byte list"
  ScopeLogs_LogRecords :: "LogRecord list"
  ScopeLogs_Scope :: InstrumentationScope

definition ScopeLogs_zero :: ScopeLogs where
  "ScopeLogs_zero = \<lparr>ScopeLogs_SchemaUrl = [], ScopeLogs_LogRecords = [], ScopeLogs_Scope = InstrumentationScope_zero\<rparr>"

definition ScopeLogs_SizeProto :: "ScopeLogs \<Rightarrow> nat" where
  "ScopeLogs_SizeProto orig = sum_list [
     size_len 1 (InstrumentationScope_SizeProto (ScopeLogs_Scope orig)),
     \<Sum>x\<leftarrow>ScopeLogs_LogRecords orig. size_len 1 (LogRecord_SizeProto x),
     size_bytes 1 (ScopeLogs_SchemaUrl orig)]"

definition ScopeLogs_MarshalProto :: "ScopeLogs \<Rightarrow> writer" where
  "ScopeLogs_MarshalProto orig = writes [
     w_message [0xa] (InstrumentationScope_MarshalProto (ScopeLogs_Scope orig)),
     w_repeated [0x12] LogRecord_MarshalProto (ScopeLogs_LogRecords orig),
     w_bytes [0x1a] (ScopeLogs_SchemaUrl orig)]"

definition ScopeLogs_field :: "int \<Rightarrow> ScopeLogs reader" where
  "ScopeLogs_field fieldNum =
     (if fieldNum = 1 then r_message ''Scope'' InstrumentationScope_UnmarshalProto ScopeLogs_Scope (\<lambda>v orig. orig\<lparr>ScopeLogs_Scope := v\<rparr>)
      else if fieldNum = 2 then r_message ''LogRecords'' LogRecord_UnmarshalProto (\<lambda>_. LogRecord_zero) (\<lambda>v orig. orig\<lparr>ScopeLogs_LogRecords := ScopeLogs_LogRecords orig @ [v]\<rparr>)
      else if fieldNum = 3 then r_bytes ''SchemaUrl'' (\<lambda>s orig. orig\<lparr>ScopeLogs_SchemaUrl := s\<rparr>)
      else r_unknown)"

definition ScopeLogs_UnmarshalProto :: "byte list \<Rightarrow> ScopeLogs \<Rightarrow> ScopeLogs unmarshalled" where
  "ScopeLogs_UnmarshalProto = unmarshal ScopeLogs_field"

definition ScopeLogs_bytes :: "ScopeLogs \<Rightarrow> byte list" where
  "ScopeLogs_bytes orig = concat (rev [
     len_bytes [0xa] (InstrumentationScope_bytes (ScopeLogs_Scope orig)),
     b_repeated [0x12] (map LogRecord_bytes (ScopeLogs_LogRecords orig)),
     b_bytes [0x1a] (ScopeLogs_SchemaUrl orig)])"

definition ScopeLogs_wf :: "ScopeLogs \<Rightarrow> bool" where
  "ScopeLogs_wf orig \<longleftrightarrow> InstrumentationScope_wf (ScopeLogs_Scope orig) \<and>
     list_all LogRecord_wf (ScopeLogs_LogRecords orig)"

lemma emits_ScopeLogs [emits_intros]: "emits (ScopeLogs_MarshalProto orig) (ScopeLogs_bytes orig)"
  unfolding ScopeLogs_MarshalProto_def ScopeLogs_bytes_def by (rule emits_writes) (simp add: emits_intros)

lemma ScopeLogs_size [size_simps]: "length (ScopeLogs_bytes orig) = ScopeLogs_SizeProto orig"
  by (simp add: ScopeLogs_bytes_def ScopeLogs_SizeProto_def size_simps comp_def)

lemma ScopeLogs_fields:
  "ScopeLogs_field 1 = r_message ''Scope'' InstrumentationScope_UnmarshalProto ScopeLogs_Scope (\<lambda>v orig. orig\<lparr>ScopeLogs_Scope := v\<rparr>)"
  "ScopeLogs_field 2 = r_message ''LogRecords'' LogRecord_UnmarshalProto (\<lambda>_. LogRecord_zero) (\<lambda>v orig. orig\<lparr>ScopeLogs_LogRecords := ScopeLogs_LogRecords orig @ [v]\<rparr>)"
  "ScopeLogs_field 3 = r_bytes ''SchemaUrl'' (\<lambda>s orig. orig\<lparr>ScopeLogs_SchemaUrl := s\<rparr>)"
  by (simp_all add: ScopeLogs_field_def)

lemma ScopeLogs_eta: "\<lparr>ScopeLogs_SchemaUrl = ScopeLogs_SchemaUrl orig, ScopeLogs_LogRecords = ScopeLogs_LogRecords orig, ScopeLogs_Scope = ScopeLogs_Scope orig\<rparr> = (orig :: ScopeLogs)"
  by (cases orig) simp

lemmas ScopeLogs_steps =
  reads_submessage [where h = ScopeLogs_field and f = 1 and tag = "[0xa]" and b = InstrumentationScope_bytes, OF _ ScopeLogs_fields(1), THEN reads_append]
  reads_submessages [where h = ScopeLogs_field and f = 2 and tag = "[0x12]" and S = "\<lambda>x orig. orig\<lparr>ScopeLogs_LogRecords := x\<rparr>" and b = LogRecord_bytes, OF _ ScopeLogs_fields(2), THEN reads_append]
  reads_bytes [where h = ScopeLogs_field and f = 3 and tag = "[0x1a]", OF _ ScopeLogs_fields(3), THEN reads_append]

lemma ScopeLogs_reads: "ScopeLogs_wf orig \<Longrightarrow> reads ScopeLogs_field (ScopeLogs_bytes orig) ScopeLogs_zero orig"
  unfolding ScopeLogs_bytes_def rev.simps append.simps concat.simps
  by (intro ScopeLogs_steps reads_done)
    (simp_all add: ScopeLogs_zero_def ScopeLogs_eta ScopeLogs_wf_def list_all_iff double_is_zero_def InstrumentationScope_roundtrip LogRecord_roundtrip split: option.splits)

lemma ScopeLogs_roundtrip:
  "ScopeLogs_wf orig \<Longrightarrow> length (ScopeLogs_bytes orig) < 2 ^ 62 \<Longrightarrow> ScopeLogs_UnmarshalProto (ScopeLogs_bytes orig) ScopeLogs_zero = Some (Ok orig)"
  by (simp add: ScopeLogs_UnmarshalProto_def unmarshal_reads ScopeLogs_reads)

lemma ScopeLogs_safe [safe_intros]: "safe_unmarshal ScopeLogs_UnmarshalProto"
  unfolding ScopeLogs_UnmarshalProto_def by (rule safe_unmarshal_fields) (auto simp: ScopeLogs_field_def intro!: safe_intros)

subsection \<open>ResourceLogs\<close>

record ResourceLogs =
  ResourceLogs_Resource :: Resource
  ResourceLogs_ScopeLogs :: "ScopeLogs list"
  ResourceLogs_SchemaUrl :: "byte list"
  ResourceLogs_DeprecatedScopeLogs :: "ScopeLogs list"

definition ResourceLogs_zero :: ResourceLogs where
  "ResourceLogs_zero = \<lparr>ResourceLogs_Resource = Resource_zero, ResourceLogs_ScopeLogs = [], ResourceLogs_SchemaUrl = [], ResourceLogs_DeprecatedScopeLogs = []\<rparr>"

definition ResourceLogs_SizeProto :: "ResourceLogs \<Rightarrow> nat" where
  "ResourceLogs_SizeProto orig = sum_list [
     size_len 1 (Resource_SizeProto (ResourceLogs_Resource orig)),
     \<Sum>x\<leftarrow>ResourceLogs_ScopeLogs orig. size_len 1 (ScopeLogs_SizeProto x),
     size_bytes 1 (ResourceLogs_SchemaUrl orig),
     \<Sum>x\<leftarrow>ResourceLogs_DeprecatedScopeLogs orig. size_len 2 (ScopeLogs_SizeProto x)]"

definition ResourceLogs_MarshalProto :: "ResourceLogs \<Rightarrow> writer" where
  "ResourceLogs_MarshalProto orig = writes [
     w_message [0xa] (Resource_MarshalProto (ResourceLogs_Resource orig)),
     w_repeated [0x12] ScopeLogs_MarshalProto (ResourceLogs_ScopeLogs orig),
     w_bytes [0x1a] (ResourceLogs_SchemaUrl orig),
     w_repeated [0xc2, 0x3e] ScopeLogs_MarshalProto (ResourceLogs_DeprecatedScopeLogs orig)]"

definition ResourceLogs_field :: "int \<Rightarrow> ResourceLogs reader" where
  "ResourceLogs_field fieldNum =
     (if fieldNum = 1 then r_message ''Resource'' Resource_UnmarshalProto ResourceLogs_Resource (\<lambda>v orig. orig\<lparr>ResourceLogs_Resource := v\<rparr>)
      else if fieldNum = 2 then r_message ''ScopeLogs'' ScopeLogs_UnmarshalProto (\<lambda>_. ScopeLogs_zero) (\<lambda>v orig. orig\<lparr>ResourceLogs_ScopeLogs := ResourceLogs_ScopeLogs orig @ [v]\<rparr>)
      else if fieldNum = 3 then r_bytes ''SchemaUrl'' (\<lambda>s orig. orig\<lparr>ResourceLogs_SchemaUrl := s\<rparr>)
      else if fieldNum = 1000 then r_message ''DeprecatedScopeLogs'' ScopeLogs_UnmarshalProto (\<lambda>_. ScopeLogs_zero) (\<lambda>v orig. orig\<lparr>ResourceLogs_DeprecatedScopeLogs := ResourceLogs_DeprecatedScopeLogs orig @ [v]\<rparr>)
      else r_unknown)"

definition ResourceLogs_UnmarshalProto :: "byte list \<Rightarrow> ResourceLogs \<Rightarrow> ResourceLogs unmarshalled" where
  "ResourceLogs_UnmarshalProto = unmarshal ResourceLogs_field"

definition ResourceLogs_bytes :: "ResourceLogs \<Rightarrow> byte list" where
  "ResourceLogs_bytes orig = concat (rev [
     len_bytes [0xa] (Resource_bytes (ResourceLogs_Resource orig)),
     b_repeated [0x12] (map ScopeLogs_bytes (ResourceLogs_ScopeLogs orig)),
     b_bytes [0x1a] (ResourceLogs_SchemaUrl orig),
     b_repeated [0xc2, 0x3e] (map ScopeLogs_bytes (ResourceLogs_DeprecatedScopeLogs orig))])"

definition ResourceLogs_wf :: "ResourceLogs \<Rightarrow> bool" where
  "ResourceLogs_wf orig \<longleftrightarrow> Resource_wf (ResourceLogs_Resource orig) \<and>
     list_all ScopeLogs_wf (ResourceLogs_ScopeLogs orig) \<and>
     list_all ScopeLogs_wf (ResourceLogs_DeprecatedScopeLogs orig)"

lemma emits_ResourceLogs [emits_intros]: "emits (ResourceLogs_MarshalProto orig) (ResourceLogs_bytes orig)"
  unfolding ResourceLogs_MarshalProto_def ResourceLogs_bytes_def by (rule emits_writes) (simp add: emits_intros)

lemma ResourceLogs_size [size_simps]: "length (ResourceLogs_bytes orig) = ResourceLogs_SizeProto orig"
  by (simp add: ResourceLogs_bytes_def ResourceLogs_SizeProto_def size_simps comp_def numeral_2_eq_2)

lemma ResourceLogs_fields:
  "ResourceLogs_field 1 = r_message ''Resource'' Resource_UnmarshalProto ResourceLogs_Resource (\<lambda>v orig. orig\<lparr>ResourceLogs_Resource := v\<rparr>)"
  "ResourceLogs_field 2 = r_message ''ScopeLogs'' ScopeLogs_UnmarshalProto (\<lambda>_. ScopeLogs_zero) (\<lambda>v orig. orig\<lparr>ResourceLogs_ScopeLogs := ResourceLogs_ScopeLogs orig @ [v]\<rparr>)"
  "ResourceLogs_field 3 = r_bytes ''SchemaUrl'' (\<lambda>s orig. orig\<lparr>ResourceLogs_SchemaUrl := s\<rparr>)"
  "ResourceLogs_field 1000 = r_message ''DeprecatedScopeLogs'' ScopeLogs_UnmarshalProto (\<lambda>_. ScopeLogs_zero) (\<lambda>v orig. orig\<lparr>ResourceLogs_DeprecatedScopeLogs := ResourceLogs_DeprecatedScopeLogs orig @ [v]\<rparr>)"
  by (simp_all add: ResourceLogs_field_def)

lemma ResourceLogs_eta: "\<lparr>ResourceLogs_Resource = ResourceLogs_Resource orig, ResourceLogs_ScopeLogs = ResourceLogs_ScopeLogs orig, ResourceLogs_SchemaUrl = ResourceLogs_SchemaUrl orig, ResourceLogs_DeprecatedScopeLogs = ResourceLogs_DeprecatedScopeLogs orig\<rparr> = (orig :: ResourceLogs)"
  by (cases orig) simp

lemmas ResourceLogs_steps =
  reads_submessage [where h = ResourceLogs_field and f = 1 and tag = "[0xa]" and b = Resource_bytes, OF _ ResourceLogs_fields(1), THEN reads_append]
  reads_submessages [where h = ResourceLogs_field and f = 2 and tag = "[0x12]" and S = "\<lambda>x orig. orig\<lparr>ResourceLogs_ScopeLogs := x\<rparr>" and b = ScopeLogs_bytes, OF _ ResourceLogs_fields(2), THEN reads_append]
  reads_bytes [where h = ResourceLogs_field and f = 3 and tag = "[0x1a]", OF _ ResourceLogs_fields(3), THEN reads_append]
  reads_submessages [where h = ResourceLogs_field and f = 1000 and tag = "[0xc2, 0x3e]" and S = "\<lambda>x orig. orig\<lparr>ResourceLogs_DeprecatedScopeLogs := x\<rparr>" and b = ScopeLogs_bytes, OF _ ResourceLogs_fields(4), THEN reads_append]

lemma ResourceLogs_reads: "ResourceLogs_wf orig \<Longrightarrow> reads ResourceLogs_field (ResourceLogs_bytes orig) ResourceLogs_zero orig"
  unfolding ResourceLogs_bytes_def rev.simps append.simps concat.simps
  by (intro ResourceLogs_steps reads_done)
    (simp_all add: ResourceLogs_zero_def ResourceLogs_eta ResourceLogs_wf_def list_all_iff double_is_zero_def Resource_roundtrip ScopeLogs_roundtrip split: option.splits)

lemma ResourceLogs_roundtrip:
  "ResourceLogs_wf orig \<Longrightarrow> length (ResourceLogs_bytes orig) < 2 ^ 62 \<Longrightarrow> ResourceLogs_UnmarshalProto (ResourceLogs_bytes orig) ResourceLogs_zero = Some (Ok orig)"
  by (simp add: ResourceLogs_UnmarshalProto_def unmarshal_reads ResourceLogs_reads)

lemma ResourceLogs_safe [safe_intros]: "safe_unmarshal ResourceLogs_UnmarshalProto"
  unfolding ResourceLogs_UnmarshalProto_def by (rule safe_unmarshal_fields) (auto simp: ResourceLogs_field_def intro!: safe_intros)

subsection \<open>LogsData\<close>

record LogsData =
  LogsData_ResourceLogs :: "ResourceLogs list"

definition LogsData_zero :: LogsData where
  "LogsData_zero = \<lparr>LogsData_ResourceLogs = []\<rparr>"

definition LogsData_SizeProto :: "LogsData \<Rightarrow> nat" where
  "LogsData_SizeProto orig = sum_list [
     \<Sum>x\<leftarrow>LogsData_ResourceLogs orig. size_len 1 (ResourceLogs_SizeProto x)]"

definition LogsData_MarshalProto :: "LogsData \<Rightarrow> writer" where
  "LogsData_MarshalProto orig = writes [
     w_repeated [0xa] ResourceLogs_MarshalProto (LogsData_ResourceLogs orig)]"

definition LogsData_field :: "int \<Rightarrow> LogsData reader" where
  "LogsData_field fieldNum =
     (if fieldNum = 1 then r_message ''ResourceLogs'' ResourceLogs_UnmarshalProto (\<lambda>_. ResourceLogs_zero) (\<lambda>v orig. orig\<lparr>LogsData_ResourceLogs := LogsData_ResourceLogs orig @ [v]\<rparr>)
      else r_unknown)"

definition LogsData_UnmarshalProto :: "byte list \<Rightarrow> LogsData \<Rightarrow> LogsData unmarshalled" where
  "LogsData_UnmarshalProto = unmarshal LogsData_field"

definition LogsData_bytes :: "LogsData \<Rightarrow> byte list" where
  "LogsData_bytes orig = concat (rev [
     b_repeated [0xa] (map ResourceLogs_bytes (LogsData_ResourceLogs orig))])"

definition LogsData_wf :: "LogsData \<Rightarrow> bool" where
  "LogsData_wf orig \<longleftrightarrow> list_all ResourceLogs_wf (LogsData_ResourceLogs orig)"

lemma emits_LogsData [emits_intros]: "emits (LogsData_MarshalProto orig) (LogsData_bytes orig)"
  unfolding LogsData_MarshalProto_def LogsData_bytes_def by (rule emits_writes) (simp add: emits_intros)

lemma LogsData_size [size_simps]: "length (LogsData_bytes orig) = LogsData_SizeProto orig"
  by (simp add: LogsData_bytes_def LogsData_SizeProto_def size_simps comp_def)

lemma LogsData_fields:
  "LogsData_field 1 = r_message ''ResourceLogs'' ResourceLogs_UnmarshalProto (\<lambda>_. ResourceLogs_zero) (\<lambda>v orig. orig\<lparr>LogsData_ResourceLogs := LogsData_ResourceLogs orig @ [v]\<rparr>)"
  by (simp_all add: LogsData_field_def)

lemma LogsData_eta: "\<lparr>LogsData_ResourceLogs = LogsData_ResourceLogs orig\<rparr> = (orig :: LogsData)"
  by (cases orig) simp

lemmas LogsData_steps =
  reads_submessages [where h = LogsData_field and f = 1 and tag = "[0xa]" and S = "\<lambda>x orig. orig\<lparr>LogsData_ResourceLogs := x\<rparr>" and b = ResourceLogs_bytes, OF _ LogsData_fields, THEN reads_append]

lemma LogsData_reads: "LogsData_wf orig \<Longrightarrow> reads LogsData_field (LogsData_bytes orig) LogsData_zero orig"
  unfolding LogsData_bytes_def rev.simps append.simps concat.simps
  by (intro LogsData_steps reads_done)
    (simp_all add: LogsData_zero_def LogsData_eta LogsData_wf_def list_all_iff double_is_zero_def ResourceLogs_roundtrip split: option.splits)

lemma LogsData_roundtrip:
  "LogsData_wf orig \<Longrightarrow> length (LogsData_bytes orig) < 2 ^ 62 \<Longrightarrow> LogsData_UnmarshalProto (LogsData_bytes orig) LogsData_zero = Some (Ok orig)"
  by (simp add: LogsData_UnmarshalProto_def unmarshal_reads LogsData_reads)

lemma LogsData_safe [safe_intros]: "safe_unmarshal LogsData_UnmarshalProto"
  unfolding LogsData_UnmarshalProto_def by (rule safe_unmarshal_fields) (auto simp: LogsData_field_def intro!: safe_intros)

subsection \<open>ExportLogsServiceRequest\<close>

record ExportLogsServiceRequest =
  ExportLogsServiceRequest_ResourceLogs :: "ResourceLogs list"

definition ExportLogsServiceRequest_zero :: ExportLogsServiceRequest where
  "ExportLogsServiceRequest_zero = \<lparr>ExportLogsServiceRequest_ResourceLogs = []\<rparr>"

definition ExportLogsServiceRequest_SizeProto :: "ExportLogsServiceRequest \<Rightarrow> nat" where
  "ExportLogsServiceRequest_SizeProto orig = sum_list [
     \<Sum>x\<leftarrow>ExportLogsServiceRequest_ResourceLogs orig. size_len 1 (ResourceLogs_SizeProto x)]"

definition ExportLogsServiceRequest_MarshalProto :: "ExportLogsServiceRequest \<Rightarrow> writer" where
  "ExportLogsServiceRequest_MarshalProto orig = writes [
     w_repeated [0xa] ResourceLogs_MarshalProto (ExportLogsServiceRequest_ResourceLogs orig)]"

definition ExportLogsServiceRequest_field :: "int \<Rightarrow> ExportLogsServiceRequest reader" where
  "ExportLogsServiceRequest_field fieldNum =
     (if fieldNum = 1 then r_message ''ResourceLogs'' ResourceLogs_UnmarshalProto (\<lambda>_. ResourceLogs_zero) (\<lambda>v orig. orig\<lparr>ExportLogsServiceRequest_ResourceLogs := ExportLogsServiceRequest_ResourceLogs orig @ [v]\<rparr>)
      else r_unknown)"

definition ExportLogsServiceRequest_UnmarshalProto :: "byte list \<Rightarrow> ExportLogsServiceRequest \<Rightarrow> ExportLogsServiceRequest unmarshalled" where
  "ExportLogsServiceRequest_UnmarshalProto = unmarshal ExportLogsServiceRequest_field"

definition ExportLogsServiceRequest_bytes :: "ExportLogsServiceRequest \<Rightarrow> byte list" where
  "ExportLogsServiceRequest_bytes orig = concat (rev [
     b_repeated [0xa] (map ResourceLogs_bytes (ExportLogsServiceRequest_ResourceLogs orig))])"

definition ExportLogsServiceRequest_wf :: "ExportLogsServiceRequest \<Rightarrow> bool" where
  "ExportLogsServiceRequest_wf orig \<longleftrightarrow> list_all ResourceLogs_wf (ExportLogsServiceRequest_ResourceLogs orig)"

lemma emits_ExportLogsServiceRequest [emits_intros]: "emits (ExportLogsServiceRequest_MarshalProto orig) (ExportLogsServiceRequest_bytes orig)"
  unfolding ExportLogsServiceRequest_MarshalProto_def ExportLogsServiceRequest_bytes_def by (rule emits_writes) (simp add: emits_intros)

lemma ExportLogsServiceRequest_size [size_simps]: "length (ExportLogsServiceRequest_bytes orig) = ExportLogsServiceRequest_SizeProto orig"
  by (simp add: ExportLogsServiceRequest_bytes_def ExportLogsServiceRequest_SizeProto_def size_simps comp_def)

lemma ExportLogsServiceRequest_fields:
  "ExportLogsServiceRequest_field 1 = r_message ''ResourceLogs'' ResourceLogs_UnmarshalProto (\<lambda>_. ResourceLogs_zero) (\<lambda>v orig. orig\<lparr>ExportLogsServiceRequest_ResourceLogs := ExportLogsServiceRequest_ResourceLogs orig @ [v]\<rparr>)"
  by (simp_all add: ExportLogsServiceRequest_field_def)

lemma ExportLogsServiceRequest_eta: "\<lparr>ExportLogsServiceRequest_ResourceLogs = ExportLogsServiceRequest_ResourceLogs orig\<rparr> = (orig :: ExportLogsServiceRequest)"
  by (cases orig) simp

lemmas ExportLogsServiceRequest_steps =
  reads_submessages [where h = ExportLogsServiceRequest_field and f = 1 and tag = "[0xa]" and S = "\<lambda>x orig. orig\<lparr>ExportLogsServiceRequest_ResourceLogs := x\<rparr>" and b = ResourceLogs_bytes, OF _ ExportLogsServiceRequest_fields, THEN reads_append]

lemma ExportLogsServiceRequest_reads: "ExportLogsServiceRequest_wf orig \<Longrightarrow> reads ExportLogsServiceRequest_field (ExportLogsServiceRequest_bytes orig) ExportLogsServiceRequest_zero orig"
  unfolding ExportLogsServiceRequest_bytes_def rev.simps append.simps concat.simps
  by (intro ExportLogsServiceRequest_steps reads_done)
    (simp_all add: ExportLogsServiceRequest_zero_def ExportLogsServiceRequest_eta ExportLogsServiceRequest_wf_def list_all_iff double_is_zero_def ResourceLogs_roundtrip split: option.splits)

lemma ExportLogsServiceRequest_roundtrip:
  "ExportLogsServiceRequest_wf orig \<Longrightarrow> length (ExportLogsServiceRequest_bytes orig) < 2 ^ 62 \<Longrightarrow> ExportLogsServiceRequest_UnmarshalProto (ExportLogsServiceRequest_bytes orig) ExportLogsServiceRequest_zero = Some (Ok orig)"
  by (simp add: ExportLogsServiceRequest_UnmarshalProto_def unmarshal_reads ExportLogsServiceRequest_reads)

lemma ExportLogsServiceRequest_safe [safe_intros]: "safe_unmarshal ExportLogsServiceRequest_UnmarshalProto"
  unfolding ExportLogsServiceRequest_UnmarshalProto_def by (rule safe_unmarshal_fields) (auto simp: ExportLogsServiceRequest_field_def intro!: safe_intros)

subsection \<open>ExportLogsPartialSuccess\<close>

record ExportLogsPartialSuccess =
  ExportLogsPartialSuccess_ErrorMessage :: "byte list"
  ExportLogsPartialSuccess_RejectedLogRecords :: u64

definition ExportLogsPartialSuccess_zero :: ExportLogsPartialSuccess where
  "ExportLogsPartialSuccess_zero = \<lparr>ExportLogsPartialSuccess_ErrorMessage = [], ExportLogsPartialSuccess_RejectedLogRecords = 0\<rparr>"

definition ExportLogsPartialSuccess_SizeProto :: "ExportLogsPartialSuccess \<Rightarrow> nat" where
  "ExportLogsPartialSuccess_SizeProto orig = sum_list [
     if ExportLogsPartialSuccess_RejectedLogRecords orig \<noteq> 0 then 1 + Sov ((ExportLogsPartialSuccess_RejectedLogRecords orig)) else 0,
     size_bytes 1 (ExportLogsPartialSuccess_ErrorMessage orig)]"

definition ExportLogsPartialSuccess_MarshalProto :: "ExportLogsPartialSuccess \<Rightarrow> writer" where
  "ExportLogsPartialSuccess_MarshalProto orig = writes [
     w_varint [0x8] (ExportLogsPartialSuccess_RejectedLogRecords orig),
     w_bytes [0x12] (ExportLogsPartialSuccess_ErrorMessage orig)]"

definition ExportLogsPartialSuccess_field :: "int \<Rightarrow> ExportLogsPartialSuccess reader" where
  "ExportLogsPartialSuccess_field fieldNum =
     (if fieldNum = 1 then r_varint ''RejectedLogRecords'' (\<lambda>num orig. orig\<lparr>ExportLogsPartialSuccess_RejectedLogRecords := num\<rparr>)
      else if fieldNum = 2 then r_bytes ''ErrorMessage'' (\<lambda>s orig. orig\<lparr>ExportLogsPartialSuccess_ErrorMessage := s\<rparr>)
      else r_unknown)"

definition ExportLogsPartialSuccess_UnmarshalProto :: "byte list \<Rightarrow> ExportLogsPartialSuccess \<Rightarrow> ExportLogsPartialSuccess unmarshalled" where
  "ExportLogsPartialSuccess_UnmarshalProto = unmarshal ExportLogsPartialSuccess_field"

definition ExportLogsPartialSuccess_bytes :: "ExportLogsPartialSuccess \<Rightarrow> byte list" where
  "ExportLogsPartialSuccess_bytes orig = concat (rev [
     b_varint [0x8] (ExportLogsPartialSuccess_RejectedLogRecords orig),
     b_bytes [0x12] (ExportLogsPartialSuccess_ErrorMessage orig)])"

lemma emits_ExportLogsPartialSuccess [emits_intros]: "emits (ExportLogsPartialSuccess_MarshalProto orig) (ExportLogsPartialSuccess_bytes orig)"
  unfolding ExportLogsPartialSuccess_MarshalProto_def ExportLogsPartialSuccess_bytes_def by (rule emits_writes) (simp add: emits_intros)

lemma ExportLogsPartialSuccess_size [size_simps]: "length (ExportLogsPartialSuccess_bytes orig) = ExportLogsPartialSuccess_SizeProto orig"
  by (simp add: ExportLogsPartialSuccess_bytes_def ExportLogsPartialSuccess_SizeProto_def size_simps comp_def)

lemma ExportLogsPartialSuccess_fields:
  "ExportLogsPartialSuccess_field 1 = r_varint ''RejectedLogRecords'' (\<lambda>num orig. orig\<lparr>ExportLogsPartialSuccess_RejectedLogRecords := num\<rparr>)"
  "ExportLogsPartialSuccess_field 2 = r_bytes ''ErrorMessage'' (\<lambda>s orig. orig\<lparr>ExportLogsPartialSuccess_ErrorMessage := s\<rparr>)"
  by (simp_all add: ExportLogsPartialSuccess_field_def)

lemma ExportLogsPartialSuccess_eta: "\<lparr>ExportLogsPartialSuccess_ErrorMessage = ExportLogsPartialSuccess_ErrorMessage orig, ExportLogsPartialSuccess_RejectedLogRecords = ExportLogsPartialSuccess_RejectedLogRecords orig\<rparr> = (orig :: ExportLogsPartialSuccess)"
  by (cases orig) simp

lemmas ExportLogsPartialSuccess_steps =
  reads_varint [where h = ExportLogsPartialSuccess_field and f = 1 and tag = "[0x8]", OF _ ExportLogsPartialSuccess_fields(1), THEN reads_append]
  reads_bytes [where h = ExportLogsPartialSuccess_field and f = 2 and tag = "[0x12]", OF _ ExportLogsPartialSuccess_fields(2), THEN reads_append]

lemma ExportLogsPartialSuccess_reads: "reads ExportLogsPartialSuccess_field (ExportLogsPartialSuccess_bytes orig) ExportLogsPartialSuccess_zero orig"
  unfolding ExportLogsPartialSuccess_bytes_def rev.simps append.simps concat.simps
  by (intro ExportLogsPartialSuccess_steps reads_done)
    (simp_all add: ExportLogsPartialSuccess_zero_def ExportLogsPartialSuccess_eta  split: option.splits)

lemma ExportLogsPartialSuccess_roundtrip:
  "length (ExportLogsPartialSuccess_bytes orig) < 2 ^ 62 \<Longrightarrow> ExportLogsPartialSuccess_UnmarshalProto (ExportLogsPartialSuccess_bytes orig) ExportLogsPartialSuccess_zero = Some (Ok orig)"
  by (simp add: ExportLogsPartialSuccess_UnmarshalProto_def unmarshal_reads ExportLogsPartialSuccess_reads)

lemma ExportLogsPartialSuccess_safe [safe_intros]: "safe_unmarshal ExportLogsPartialSuccess_UnmarshalProto"
  unfolding ExportLogsPartialSuccess_UnmarshalProto_def by (rule safe_unmarshal_fields) (auto simp: ExportLogsPartialSuccess_field_def intro!: safe_intros)

subsection \<open>ExportLogsServiceResponse\<close>

record ExportLogsServiceResponse =
  ExportLogsServiceResponse_PartialSuccess :: ExportLogsPartialSuccess

definition ExportLogsServiceResponse_zero :: ExportLogsServiceResponse where
  "ExportLogsServiceResponse_zero = \<lparr>ExportLogsServiceResponse_PartialSuccess = ExportLogsPartialSuccess_zero\<rparr>"

definition ExportLogsServiceResponse_SizeProto :: "ExportLogsServiceResponse \<Rightarrow> nat" where
  "ExportLogsServiceResponse_SizeProto orig = sum_list [
     size_len 1 (ExportLogsPartialSuccess_SizeProto (ExportLogsServiceResponse_PartialSuccess orig))]"

definition ExportLogsServiceResponse_MarshalProto :: "ExportLogsServiceResponse \<Rightarrow> writer" where
  "ExportLogsServiceResponse_MarshalProto orig = writes [
     w_message [0xa] (ExportLogsPartialSuccess_MarshalProto (ExportLogsServiceResponse_PartialSuccess orig))]"

definition ExportLogsServiceResponse_field :: "int \<Rightarrow> ExportLogsServiceResponse reader" where
  "ExportLogsServiceResponse_field fieldNum =
     (if fieldNum = 1 then r_message ''PartialSuccess'' ExportLogsPartialSuccess_UnmarshalProto ExportLogsServiceResponse_PartialSuccess (\<lambda>v orig. orig\<lparr>ExportLogsServiceResponse_PartialSuccess := v\<rparr>)
      else r_unknown)"

definition ExportLogsServiceResponse_UnmarshalProto :: "byte list \<Rightarrow> ExportLogsServiceResponse \<Rightarrow> ExportLogsServiceResponse unmarshalled" where
  "ExportLogsServiceResponse_UnmarshalProto = unmarshal ExportLogsServiceResponse_field"

definition ExportLogsServiceResponse_bytes :: "ExportLogsServiceResponse \<Rightarrow> byte list" where
  "ExportLogsServiceResponse_bytes orig = concat (rev [
     len_bytes [0xa] (ExportLogsPartialSuccess_bytes (ExportLogsServiceResponse_PartialSuccess orig))])"

lemma emits_ExportLogsServiceResponse [emits_intros]: "emits (ExportLogsServiceResponse_MarshalProto orig) (ExportLogsServiceResponse_bytes orig)"
  unfolding ExportLogsServiceResponse_MarshalProto_def ExportLogsServiceResponse_bytes_def by (rule emits_writes) (simp add: emits_intros)

lemma ExportLogsServiceResponse_size [size_simps]: "length (ExportLogsServiceResponse_bytes orig) = ExportLogsServiceResponse_SizeProto orig"
  by (simp add: ExportLogsServiceResponse_bytes_def ExportLogsServiceResponse_SizeProto_def size_simps comp_def)

lemma ExportLogsServiceResponse_fields:
  "ExportLogsServiceResponse_field 1 = r_message ''PartialSuccess'' ExportLogsPartialSuccess_UnmarshalProto ExportLogsServiceResponse_PartialSuccess (\<lambda>v orig. orig\<lparr>ExportLogsServiceResponse_PartialSuccess := v\<rparr>)"
  by (simp_all add: ExportLogsServiceResponse_field_def)

lemma ExportLogsServiceResponse_eta: "\<lparr>ExportLogsServiceResponse_PartialSuccess = ExportLogsServiceResponse_PartialSuccess orig\<rparr> = (orig :: ExportLogsServiceResponse)"
  by (cases orig) simp

lemmas ExportLogsServiceResponse_steps =
  reads_submessage [where h = ExportLogsServiceResponse_field and f = 1 and tag = "[0xa]" and b = ExportLogsPartialSuccess_bytes, OF _ ExportLogsServiceResponse_fields, THEN reads_append]

lemma ExportLogsServiceResponse_reads: "reads ExportLogsServiceResponse_field (ExportLogsServiceResponse_bytes orig) ExportLogsServiceResponse_zero orig"
  unfolding ExportLogsServiceResponse_bytes_def rev.simps append.simps concat.simps
  by (intro ExportLogsServiceResponse_steps reads_done)
    (simp_all add: ExportLogsServiceResponse_zero_def ExportLogsServiceResponse_eta ExportLogsPartialSuccess_roundtrip split: option.splits)

lemma ExportLogsServiceResponse_roundtrip:
  "length (ExportLogsServiceResponse_bytes orig) < 2 ^ 62 \<Longrightarrow> ExportLogsServiceResponse_UnmarshalProto (ExportLogsServiceResponse_bytes orig) ExportLogsServiceResponse_zero = Some (Ok orig)"
  by (simp add: ExportLogsServiceResponse_UnmarshalProto_def unmarshal_reads ExportLogsServiceResponse_reads)

lemma ExportLogsServiceResponse_safe [safe_intros]: "safe_unmarshal ExportLogsServiceResponse_UnmarshalProto"
  unfolding ExportLogsServiceResponse_UnmarshalProto_def by (rule safe_unmarshal_fields) (auto simp: ExportLogsServiceResponse_field_def intro!: safe_intros)

end
