(* ===== verification/ProtoTraces.thy ===== *)
theory ProtoTraces
  imports ProtoCommon
begin

text \<open>
  The messages of traces and of their export. The message \<^verbatim>\<open>Status\<close> is the record \<open>Status_msg\<close>.
\<close>

subsection \<open>SpanEvent\<close>

record SpanEvent =
  SpanEvent_Name :: "byte list"
  SpanEvent_Attributes :: "KeyValue list"
  SpanEvent_TimeUnixNano :: u64
  SpanEvent_DroppedAttributesCount :: "32 word"

definition SpanEvent_zero :: SpanEvent where
  "SpanEvent_zero = \<lparr>SpanEvent_Name = [], SpanEvent_Attributes = [], SpanEvent_TimeUnixNano = 0, SpanEvent_DroppedAttributesCount = 0\<rparr>"

definition SpanEvent_SizeProto :: "SpanEvent \<Rightarrow> nat" where
  "SpanEvent_SizeProto orig = sum_list [
     if SpanEvent_TimeUnixNano orig \<noteq> 0 then 9 else 0,
     size_bytes 1 (SpanEvent_Name orig),
     \<Sum>x\<leftarrow>SpanEvent_Attributes orig. size_len 1 (KeyValue_SizeProto x),
     if SpanEvent_DroppedAttributesCount orig \<noteq> 0 then 1 + Sov (ucast (SpanEvent_DroppedAttributesCount orig)) else 0]"

definition SpanEvent_MarshalProto :: "SpanEvent \<Rightarrow> writer" where
  "SpanEvent_MarshalProto orig = writes [
     w_fixed64 [0x9] (SpanEvent_TimeUnixNano orig),
     w_bytes [0x12] (SpanEvent_Name orig),
     w_repeated [0x1a] KeyValue_MarshalProto (SpanEvent_Attributes orig),
     w_varint [0x20] (ucast (SpanEvent_DroppedAttributesCount orig))]"

definition SpanEvent_field :: "int \<Rightarrow> SpanEvent reader" where
  "SpanEvent_field fieldNum =
     (if fieldNum = 1 then r_fixed64 ''TimeUnixNano'' (\<lambda>num orig. orig\<lparr>SpanEvent_TimeUnixNano := num\<rparr>)
      else if fieldNum = 2 then r_bytes ''Name'' (\<lambda>s orig. orig\<lparr>SpanEvent_Name := s\<rparr>)
      else if fieldNum = 3 then r_message ''Attributes'' KeyValue_UnmarshalProto (\<lambda>_. (KeyValue [] NoValue 0)) (\<lambda>v orig. orig\<lparr>SpanEvent_Attributes := SpanEvent_Attributes orig @ [v]\<rparr>)
      else if fieldNum = 4 then r_varint ''DroppedAttributesCount'' (\<lambda>num orig. orig\<lparr>SpanEvent_DroppedAttributesCount := ucast num\<rparr>)
      else r_unknown)"

definition SpanEvent_UnmarshalProto :: "byte list \<Rightarrow> SpanEvent \<Rightarrow> SpanEvent unmarshalled" where
  "SpanEvent_UnmarshalProto = unmarshal SpanEvent_field"

definition SpanEvent_bytes :: "SpanEvent \<Rightarrow> byte list" where
  "SpanEvent_bytes orig = concat (rev [
     b_fixed64 [0x9] (SpanEvent_TimeUnixNano orig),
     b_bytes [0x12] (SpanEvent_Name orig),
     b_repeated [0x1a] (map KeyValue_bytes (SpanEvent_Attributes orig)),
     b_varint [0x20] (ucast (SpanEvent_DroppedAttributesCount orig))])"

definition SpanEvent_wf :: "SpanEvent \<Rightarrow> bool" where
  "SpanEvent_wf orig \<longleftrightarrow> list_all KeyValue_wf (SpanEvent_Attributes orig)"

lemma emits_SpanEvent [emits_intros]: "emits (SpanEvent_MarshalProto orig) (SpanEvent_bytes orig)"
  unfolding SpanEvent_MarshalProto_def SpanEvent_bytes_def by (rule emits_writes) (simp add: emits_intros)

lemma SpanEvent_size [size_simps]: "length (SpanEvent_bytes orig) = SpanEvent_SizeProto orig"
  by (simp add: SpanEvent_bytes_def SpanEvent_SizeProto_def size_simps comp_def)

lemma SpanEvent_fields:
  "SpanEvent_field 1 = r_fixed64 ''TimeUnixNano'' (\<lambda>num orig. orig\<lparr>SpanEvent_TimeUnixNano := num\<rparr>)"
  "SpanEvent_field 2 = r_bytes ''Name'' (\<lambda>s orig. orig\<lparr>SpanEvent_Name := s\<rparr>)"
  "SpanEvent_field 3 = r_message ''Attributes'' KeyValue_UnmarshalProto (\<lambda>_. (KeyValue [] NoValue 0)) (\<lambda>v orig. orig\<lparr>SpanEvent_Attributes := SpanEvent_Attributes orig @ [v]\<rparr>)"
  "SpanEvent_field 4 = r_varint ''DroppedAttributesCount'' (\<lambda>num orig. orig\<lparr>SpanEvent_DroppedAttributesCount := ucast num\<rparr>)"
  by (simp_all add: SpanEvent_field_def)

lemma SpanEvent_eta: "\<lparr>SpanEvent_Name = SpanEvent_Name orig, SpanEvent_Attributes = SpanEvent_Attributes orig, SpanEvent_TimeUnixNano = SpanEvent_TimeUnixNano orig, SpanEvent_DroppedAttributesCount = SpanEvent_DroppedAttributesCount orig\<rparr> = (orig :: SpanEvent)"
  by (cases orig) simp

lemmas SpanEvent_steps =
  reads_fixed64 [where h = SpanEvent_field and f = 1 and tag = "[0x9]", OF _ SpanEvent_fields(1), THEN reads_append]
  reads_bytes [where h = SpanEvent_field and f = 2 and tag = "[0x12]", OF _ SpanEvent_fields(2), THEN reads_append]
  reads_submessages [where h = SpanEvent_field and f = 3 and tag = "[0x1a]" and S = "\<lambda>x orig. orig\<lparr>SpanEvent_Attributes := x\<rparr>" and b = KeyValue_bytes, OF _ SpanEvent_fields(3), THEN reads_append]
  reads_varint [where h = SpanEvent_field and f = 4 and tag = "[0x20]", OF _ SpanEvent_fields(4), THEN reads_append]

lemma SpanEvent_reads: "SpanEvent_wf orig \<Longrightarrow> reads SpanEvent_field (SpanEvent_bytes orig) SpanEvent_zero orig"
  unfolding SpanEvent_bytes_def rev.simps append.simps concat.simps
  by (intro SpanEvent_steps reads_done)
    (simp_all add: SpanEvent_zero_def SpanEvent_eta SpanEvent_wf_def list_all_iff double_is_zero_def KeyValue_roundtrip split: option.splits)

lemma SpanEvent_roundtrip:
  "SpanEvent_wf orig \<Longrightarrow> length (SpanEvent_bytes orig) < 2 ^ 62 \<Longrightarrow> SpanEvent_UnmarshalProto (SpanEvent_bytes orig) SpanEvent_zero = Some (Ok orig)"
  by (simp add: SpanEvent_UnmarshalProto_def unmarshal_reads SpanEvent_reads)

lemma SpanEvent_safe [safe_intros]: "safe_unmarshal SpanEvent_UnmarshalProto"
  unfolding SpanEvent_UnmarshalProto_def by (rule safe_unmarshal_fields) (auto simp: SpanEvent_field_def intro!: safe_intros)

subsection \<open>SpanLink\<close>

record SpanLink =
  SpanLink_TraceState :: "byte list"
  SpanLink_Attributes :: "KeyValue list"
  SpanLink_DroppedAttributesCount :: "32 word"
  SpanLink_Flags :: "32 word"
  SpanLink_TraceId :: TraceID
  SpanLink_SpanId :: SpanID

definition SpanLink_zero :: SpanLink where
  "SpanLink_zero = \<lparr>SpanLink_TraceState = [], SpanLink_Attributes = [], SpanLink_DroppedAttributesCount = 0, SpanLink_Flags = 0, SpanLink_TraceId = 0, SpanLink_SpanId = 0\<rparr>"

definition SpanLink_SizeProto :: "SpanLink \<Rightarrow> nat" where
  "SpanLink_SizeProto orig = sum_list [
     size_len 1 (TraceID_SizeProto (SpanLink_TraceId orig)),
     size_len 1 (SpanID_SizeProto (SpanLink_SpanId orig)),
     size_bytes 1 (SpanLink_TraceState orig),
     \<Sum>x\<leftarrow>SpanLink_Attributes orig. size_len 1 (KeyValue_SizeProto x),
     if SpanLink_DroppedAttributesCount orig \<noteq> 0 then 1 + Sov (ucast (SpanLink_DroppedAttributesCount orig)) else 0,
     if SpanLink_Flags orig \<noteq> 0 then 5 else 0]"

definition SpanLink_MarshalProto :: "SpanLink \<Rightarrow> writer" where
  "SpanLink_MarshalProto orig = writes [
     w_message [0xa] (TraceID_MarshalProto (SpanLink_TraceId orig)),
     w_message [0x12] (SpanID_MarshalProto (SpanLink_SpanId orig)),
     w_bytes [0x1a] (SpanLink_TraceState orig),
     w_repeated [0x22] KeyValue_MarshalProto (SpanLink_Attributes orig),
     w_varint [0x28] (ucast (SpanLink_DroppedAttributesCount orig)),
     w_fixed32 [0x35] (SpanLink_Flags orig)]"

definition SpanLink_field :: "int \<Rightarrow> SpanLink reader" where
  "SpanLink_field fieldNum =
     (if fieldNum = 1 then r_message ''TraceId'' TraceID_UnmarshalProto SpanLink_TraceId (\<lambda>v orig. orig\<lparr>SpanLink_TraceId := v\<rparr>)
      else if fieldNum = 2 then r_message ''SpanId'' SpanID_UnmarshalProto SpanLink_SpanId (\<lambda>v orig. orig\<lparr>SpanLink_SpanId := v\<rparr>)
      else if fieldNum = 3 then r_bytes ''TraceState'' (\<lambda>s orig. orig\<lparr>SpanLink_TraceState := s\<rparr>)
      else if fieldNum = 4 then r_message ''Attributes'' KeyValue_UnmarshalProto (\<lambda>_. (KeyValue [] NoValue 0)) (\<lambda>v orig. orig\<lparr>SpanLink_Attributes := SpanLink_Attributes orig @ [v]\<rparr>)
      else if fieldNum = 5 then r_varint ''DroppedAttributesCount'' (\<lambda>num orig. orig\<lparr>SpanLink_DroppedAttributesCount := ucast num\<rparr>)
      else if fieldNum = 6 then r_fixed32 ''Flags'' (\<lambda>num orig. orig\<lparr>SpanLink_Flags := num\<rparr>)
      else r_unknown)"

definition SpanLink_UnmarshalProto :: "byte list \<Rightarrow> SpanLink \<Rightarrow> SpanLink unmarshalled" where
  "SpanLink_UnmarshalProto = unmarshal SpanLink_field"

definition SpanLink_bytes :: "SpanLink \<Rightarrow> byte list" where
  "SpanLink_bytes orig = concat (rev [
     len_bytes [0xa] (TraceID_bytes (SpanLink_TraceId orig)),
     len_bytes [0x12] (SpanID_bytes (SpanLink_SpanId orig)),
     b_bytes [0x1a] (SpanLink_TraceState orig),
     b_repeated [0x22] (map KeyValue_bytes (SpanLink_Attributes orig)),
     b_varint [0x28] (ucast (SpanLink_DroppedAttributesCount orig)),
     b_fixed32 [0x35] (SpanLink_Flags orig)])"

definition SpanLink_wf :: "SpanLink \<Rightarrow> bool" where
  "SpanLink_wf orig \<longleftrightarrow> list_all KeyValue_wf (SpanLink_Attributes orig)"

lemma emits_SpanLink [emits_intros]: "emits (SpanLink_MarshalProto orig) (SpanLink_bytes orig)"
  unfolding SpanLink_MarshalProto_def SpanLink_bytes_def by (rule emits_writes) (simp add: emits_intros)

lemma SpanLink_size [size_simps]: "length (SpanLink_bytes orig) = SpanLink_SizeProto orig"
  by (simp add: SpanLink_bytes_def SpanLink_SizeProto_def size_simps comp_def)

lemma SpanLink_fields:
  "SpanLink_field 1 = r_message ''TraceId'' TraceID_UnmarshalProto SpanLink_TraceId (\<lambda>v orig. orig\<lparr>SpanLink_TraceId := v\<rparr>)"
  "SpanLink_field 2 = r_message ''SpanId'' SpanID_UnmarshalProto SpanLink_SpanId (\<lambda>v orig. orig\<lparr>SpanLink_SpanId := v\<rparr>)"
  "SpanLink_field 3 = r_bytes ''TraceState'' (\<lambda>s orig. orig\<lparr>SpanLink_TraceState := s\<rparr>)"
  "SpanLink_field 4 = r_message ''Attributes'' KeyValue_UnmarshalProto (\<lambda>_. (KeyValue [] NoValue 0)) (\<lambda>v orig. orig\<lparr>SpanLink_Attributes := SpanLink_Attributes orig @ [v]\<rparr>)"
  "SpanLink_field 5 = r_varint ''DroppedAttributesCount'' (\<lambda>num orig. orig\<lparr>SpanLink_DroppedAttributesCount := ucast num\<rparr>)"
  "SpanLink_field 6 = r_fixed32 ''Flags'' (\<lambda>num orig. orig\<lparr>SpanLink_Flags := num\<rparr>)"
  by (simp_all add: SpanLink_field_def)

lemma SpanLink_eta: "\<lparr>SpanLink_TraceState = SpanLink_TraceState orig, SpanLink_Attributes = SpanLink_Attributes orig, SpanLink_DroppedAttributesCount = SpanLink_DroppedAttributesCount orig, SpanLink_Flags = SpanLink_Flags orig, SpanLink_TraceId = SpanLink_TraceId orig, SpanLink_SpanId = SpanLink_SpanId orig\<rparr> = (orig :: SpanLink)"
  by (cases orig) simp

lemmas SpanLink_steps =
  reads_submessage [where h = SpanLink_field and f = 1 and tag = "[0xa]" and b = TraceID_bytes, OF _ SpanLink_fields(1), THEN reads_append]
  reads_submessage [where h = SpanLink_field and f = 2 and tag = "[0x12]" and b = SpanID_bytes, OF _ SpanLink_fields(2), THEN reads_append]
  reads_bytes [where h = SpanLink_field and f = 3 and tag = "[0x1a]", OF _ SpanLink_fields(3), THEN reads_append]
  reads_submessages [where h = SpanLink_field and f = 4 and tag = "[0x22]" and S = "\<lambda>x orig. orig\<lparr>SpanLink_Attributes := x\<rparr>" and b = KeyValue_bytes, OF _ SpanLink_fields(4), THEN reads_append]
  reads_varint [where h = SpanLink_field and f = 5 and tag = "[0x28]", OF _ SpanLink_fields(5), THEN reads_append]
  reads_fixed32 [where h = SpanLink_field and f = 6 and tag = "[0x35]", OF _ SpanLink_fields(6), THEN reads_append]

lemma SpanLink_reads: "SpanLink_wf orig \<Longrightarrow> reads SpanLink_field (SpanLink_bytes orig) SpanLink_zero orig"
  unfolding SpanLink_bytes_def rev.simps append.simps concat.simps
  by (intro SpanLink_steps reads_done)
    (simp_all add: SpanLink_zero_def SpanLink_eta SpanLink_wf_def list_all_iff double_is_zero_def KeyValue_roundtrip SpanID_roundtrip TraceID_roundtrip split: option.splits)

lemma SpanLink_roundtrip:
  "SpanLink_wf orig \<Longrightarrow> length (SpanLink_bytes orig) < 2 ^ 62 \<Longrightarrow> SpanLink_UnmarshalProto (SpanLink_bytes orig) SpanLink_zero = Some (Ok orig)"
  by (simp add: SpanLink_UnmarshalProto_def unmarshal_reads SpanLink_reads)

lemma SpanLink_safe [safe_intros]: "safe_unmarshal SpanLink_UnmarshalProto"
  unfolding SpanLink_UnmarshalProto_def by (rule safe_unmarshal_fields) (auto simp: SpanLink_field_def intro!: safe_intros)

subsection \<open>Status\<close>

record Status_msg =
  Status_msg_Message :: "byte list"
  Status_msg_Code :: "32 word"

definition Status_msg_zero :: Status_msg where
  "Status_msg_zero = \<lparr>Status_msg_Message = [], Status_msg_Code = 0\<rparr>"

definition Status_msg_SizeProto :: "Status_msg \<Rightarrow> nat" where
  "Status_msg_SizeProto orig = sum_list [
     size_bytes 1 (Status_msg_Message orig),
     if Status_msg_Code orig \<noteq> 0 then 1 + Sov (scast (Status_msg_Code orig)) else 0]"

definition Status_msg_MarshalProto :: "Status_msg \<Rightarrow> writer" where
  "Status_msg_MarshalProto orig = writes [
     w_bytes [0x12] (Status_msg_Message orig),
     w_varint [0x18] (scast (Status_msg_Code orig))]"

definition Status_msg_field :: "int \<Rightarrow> Status_msg reader" where
  "Status_msg_field fieldNum =
     (if fieldNum = 2 then r_bytes ''Message'' (\<lambda>s orig. orig\<lparr>Status_msg_Message := s\<rparr>)
      else if fieldNum = 3 then r_varint ''Code'' (\<lambda>num orig. orig\<lparr>Status_msg_Code := ucast num\<rparr>)
      else r_unknown)"

definition Status_msg_UnmarshalProto :: "byte list \<Rightarrow> Status_msg \<Rightarrow> Status_msg unmarshalled" where
  "Status_msg_UnmarshalProto = unmarshal Status_msg_field"

definition Status_msg_bytes :: "Status_msg \<Rightarrow> byte list" where
  "Status_msg_bytes orig = concat (rev [
     b_bytes [0x12] (Status_msg_Message orig),
     b_varint [0x18] (scast (Status_msg_Code orig))])"

lemma emits_Status_msg [emits_intros]: "emits (Status_msg_MarshalProto orig) (Status_msg_bytes orig)"
  unfolding Status_msg_MarshalProto_def Status_msg_bytes_def by (rule emits_writes) (simp add: emits_intros)

lemma Status_msg_size [size_simps]: "length (Status_msg_bytes orig) = Status_msg_SizeProto orig"
  by (simp add: Status_msg_bytes_def Status_msg_SizeProto_def size_simps comp_def)

lemma Status_msg_fields:
  "Status_msg_field 2 = r_bytes ''Message'' (\<lambda>s orig. orig\<lparr>Status_msg_Message := s\<rparr>)"
  "Status_msg_field 3 = r_varint ''Code'' (\<lambda>num orig. orig\<lparr>Status_msg_Code := ucast num\<rparr>)"
  by (simp_all add: Status_msg_field_def)

lemma Status_msg_eta: "\<lparr>Status_msg_Message = Status_msg_Message orig, Status_msg_Code = Status_msg_Code orig\<rparr> = (orig :: Status_msg)"
  by (cases orig) simp

lemmas Status_msg_steps =
  reads_bytes [where h = Status_msg_field and f = 2 and tag = "[0x12]", OF _ Status_msg_fields(1), THEN reads_append]
  reads_varint [where h = Status_msg_field and f = 3 and tag = "[0x18]", OF _ Status_msg_fields(2), THEN reads_append]

lemma Status_msg_reads: "reads Status_msg_field (Status_msg_bytes orig) Status_msg_zero orig"
  unfolding Status_msg_bytes_def rev.simps append.simps concat.simps
  by (intro Status_msg_steps reads_done)
    (simp_all add: Status_msg_zero_def Status_msg_eta  split: option.splits)

lemma Status_msg_roundtrip:
  "length (Status_msg_bytes orig) < 2 ^ 62 \<Longrightarrow> Status_msg_UnmarshalProto (Status_msg_bytes orig) Status_msg_zero = Some (Ok orig)"
  by (simp add: Status_msg_UnmarshalProto_def unmarshal_reads Status_msg_reads)

lemma Status_msg_safe [safe_intros]: "safe_unmarshal Status_msg_UnmarshalProto"
  unfolding Status_msg_UnmarshalProto_def by (rule safe_unmarshal_fields) (auto simp: Status_msg_field_def intro!: safe_intros)

subsection \<open>Span\<close>

record Span =
  Span_TraceState :: "byte list"
  Span_Name :: "byte list"
  Span_Attributes :: "KeyValue list"
  Span_Events :: "SpanEvent list"
  Span_Links :: "SpanLink list"
  Span_Status :: Status_msg
  Span_StartTimeUnixNano :: u64
  Span_EndTimeUnixNano :: u64
  Span_Flags :: "32 word"
  Span_Kind :: "32 word"
  Span_DroppedAttributesCount :: "32 word"
  Span_DroppedEventsCount :: "32 word"
  Span_DroppedLinksCount :: "32 word"
  Span_TraceId :: TraceID
  Span_SpanId :: SpanID
  Span_ParentSpanId :: SpanID

definition Span_zero :: Span where
  "Span_zero = \<lparr>Span_TraceState = [], Span_Name = [], Span_Attributes = [], Span_Events = [], Span_Links = [], Span_Status = Status_msg_zero, Span_StartTimeUnixNano = 0, Span_EndTimeUnixNano = 0, Span_Flags = 0, Span_Kind = 0, Span_DroppedAttributesCount = 0, Span_DroppedEventsCount = 0, Span_DroppedLinksCount = 0, Span_TraceId = 0, Span_SpanId = 0, Span_ParentSpanId = 0\<rparr>"

definition Span_SizeProto :: "Span \<Rightarrow> nat" where
  "Span_SizeProto orig = sum_list [
     size_len 1 (TraceID_SizeProto (Span_TraceId orig)),
     size_len 1 (SpanID_SizeProto (Span_SpanId orig)),
     size_bytes 1 (Span_TraceState orig),
     size_len 1 (SpanID_SizeProto (Span_ParentSpanId orig)),
     if Span_Flags orig \<noteq> 0 then 6 else 0,
     size_bytes 1 (Span_Name orig),
     if Span_Kind orig \<noteq> 0 then 1 + Sov (scast (Span_Kind orig)) else 0,
     if Span_StartTimeUnixNano orig \<noteq> 0 then 9 else 0,
     if Span_EndTimeUnixNano orig \<noteq> 0 then 9 else 0,
     \<Sum>x\<leftarrow>Span_Attributes orig. size_len 1 (KeyValue_SizeProto x),
     if Span_DroppedAttributesCount orig \<noteq> 0 then 1 + Sov (ucast (Span_DroppedAttributesCount orig)) else 0,
     \<Sum>x\<leftarrow>Span_Events orig. size_len 1 (SpanEvent_SizeProto x),
     if Span_DroppedEventsCount orig \<noteq> 0 then 1 + Sov (ucast (Span_DroppedEventsCount orig)) else 0,
     \<Sum>x\<leftarrow>Span_Links orig. size_len 1 (SpanLink_SizeProto x),
     if Span_DroppedLinksCount orig \<noteq> 0 then 1 + Sov (ucast (Span_DroppedLinksCount orig)) else 0,
     size_len 1 (Status_msg_SizeProto (Span_Status orig))]"

definition Span_MarshalProto :: "Span \<Rightarrow> writer" where
  "Span_MarshalProto orig = writes [
     w_message [0xa] (TraceID_MarshalProto (Span_TraceId orig)),
     w_message [0x12] (SpanID_MarshalProto (Span_SpanId orig)),
     w_bytes [0x1a] (Span_TraceState orig),
     w_message [0x22] (SpanID_MarshalProto (Span_ParentSpanId orig)),
     w_fixed32 [0x85, 0x1] (Span_Flags orig),
     w_bytes [0x2a] (Span_Name orig),
     w_varint [0x30] (scast (Span_Kind orig)),
     w_fixed64 [0x39] (Span_StartTimeUnixNano orig),
     w_fixed64 [0x41] (Span_EndTimeUnixNano orig),
     w_repeated [0x4a] KeyValue_MarshalProto (Span_Attributes orig),
     w_varint [0x50] (ucast (Span_DroppedAttributesCount orig)),
     w_repeated [0x5a] SpanEvent_MarshalProto (Span_Events orig),
     w_varint [0x60] (ucast (Span_DroppedEventsCount orig)),
     w_repeated [0x6a] SpanLink_MarshalProto (Span_Links orig),
     w_varint [0x70] (ucast (Span_DroppedLinksCount orig)),
     w_message [0x7a] (Status_msg_MarshalProto (Span_Status orig))]"

definition Span_field :: "int \<Rightarrow> Span reader" where
  "Span_field fieldNum =
     (if fieldNum = 1 then r_message ''TraceId'' TraceID_UnmarshalProto Span_TraceId (\<lambda>v orig. orig\<lparr>Span_TraceId := v\<rparr>)
      else if fieldNum = 2 then r_message ''SpanId'' SpanID_UnmarshalProto Span_SpanId (\<lambda>v orig. orig\<lparr>Span_SpanId := v\<rparr>)
      else if fieldNum = 3 then r_bytes ''TraceState'' (\<lambda>s orig. orig\<lparr>Span_TraceState := s\<rparr>)
      else if fieldNum = 4 then r_message ''ParentSpanId'' SpanID_UnmarshalProto Span_ParentSpanId (\<lambda>v orig. orig\<lparr>Span_ParentSpanId := v\<rparr>)
      else if fieldNum = 16 then r_fixed32 ''Flags'' (\<lambda>num orig. orig\<lparr>Span_Flags := num\<rparr>)
      else if fieldNum = 5 then r_bytes ''Name'' (\<lambda>s orig. orig\<lparr>Span_Name := s\<rparr>)
      else if fieldNum = 6 then r_varint ''Kind'' (\<lambda>num orig. orig\<lparr>Span_Kind := ucast num\<rparr>)
      else if fieldNum = 7 then r_fixed64 ''StartTimeUnixNano'' (\<lambda>num orig. orig\<lparr>Span_StartTimeUnixNano := num\<rparr>)
      else if fieldNum = 8 then r_fixed64 ''EndTimeUnixNano'' (\<lambda>num orig. orig\<lparr>Span_EndTimeUnixNano := num\<rparr>)
      else if fieldNum = 9 then r_message ''Attributes'' KeyValue_UnmarshalProto (\<lambda>_. (KeyValue [] NoValue 0)) (\<lambda>v orig. orig\<lparr>Span_Attributes := Span_Attributes orig @ [v]\<rparr>)
      else if fieldNum = 10 then r_varint ''DroppedAttributesCount'' (\<lambda>num orig. orig\<lparr>Span_DroppedAttributesCount := ucast num\<rparr>)
      else if fieldNum = 11 then r_message ''Events'' SpanEvent_UnmarshalProto (\<lambda>_. SpanEvent_zero) (\<lambda>v orig. orig\<lparr>Span_Events := Span_Events orig @ [v]\<rparr>)
      else if fieldNum = 12 then r_varint ''DroppedEventsCount'' (\<lambda>num orig. orig\<lparr>Span_DroppedEventsCount := ucast num\<rparr>)
      else if fieldNum = 13 then r_message ''Links'' SpanLink_UnmarshalProto (\<lambda>_. SpanLink_zero) (\<lambda>v orig. orig\<lparr>Span_Links := Span_Links orig @ [v]\<rparr>)
      else if fieldNum = 14 then r_varint ''DroppedLinksCount'' (\<lambda>num orig. orig\<lparr>Span_DroppedLinksCount := ucast num\<rparr>)
      else if fieldNum = 15 then r_message ''Status'' Status_msg_UnmarshalProto Span_Status (\<lambda>v orig. orig\<lparr>Span_Status := v\<rparr>)
      else r_unknown)"

definition Span_UnmarshalProto :: "byte list \<Rightarrow> Span \<Rightarrow> Span unmarshalled" where
  "Span_UnmarshalProto = unmarshal Span_field"

definition Span_bytes :: "Span \<Rightarrow> byte list" where
  "Span_bytes orig = concat (rev [
     len_bytes [0xa] (TraceID_bytes (Span_TraceId orig)),
     len_bytes [0x12] (SpanID_bytes (Span_SpanId orig)),
     b_bytes [0x1a] (Span_TraceState orig),
     len_bytes [0x22] (SpanID_bytes (Span_ParentSpanId orig)),
     b_fixed32 [0x85, 0x1] (Span_Flags orig),
     b_bytes [0x2a] (Span_Name orig),
     b_varint [0x30] (scast (Span_Kind orig)),
     b_fixed64 [0x39] (Span_StartTimeUnixNano orig),
     b_fixed64 [0x41] (Span_EndTimeUnixNano orig),
     b_repeated [0x4a] (map KeyValue_bytes (Span_Attributes orig)),
     b_varint [0x50] (ucast (Span_DroppedAttributesCount orig)),
     b_repeated [0x5a] (map SpanEvent_bytes (Span_Events orig)),
     b_varint [0x60] (ucast (Span_DroppedEventsCount orig)),
     b_repeated [0x6a] (map SpanLink_bytes (Span_Links orig)),
     b_varint [0x70] (ucast (Span_DroppedLinksCount orig)),
     len_bytes [0x7a] (Status_msg_bytes (Span_Status orig))])"

definition Span_wf :: "Span \<Rightarrow> bool" where
  "Span_wf orig \<longleftrightarrow> list_all KeyValue_wf (Span_Attributes orig) \<and>
     list_all SpanEvent_wf (Span_Events orig) \<and>
     list_all SpanLink_wf (Span_Links orig)"

lemma emits_Span [emits_intros]: "emits (Span_MarshalProto orig) (Span_bytes orig)"
  unfolding Span_MarshalProto_def Span_bytes_def by (rule emits_writes) (simp add: emits_intros)

lemma Span_size [size_simps]: "length (Span_bytes orig) = Span_SizeProto orig"
  by (simp add: Span_bytes_def Span_SizeProto_def size_simps comp_def)

lemma Span_fields:
  "Span_field 1 = r_message ''TraceId'' TraceID_UnmarshalProto Span_TraceId (\<lambda>v orig. orig\<lparr>Span_TraceId := v\<rparr>)"
  "Span_field 2 = r_message ''SpanId'' SpanID_UnmarshalProto Span_SpanId (\<lambda>v orig. orig\<lparr>Span_SpanId := v\<rparr>)"
  "Span_field 3 = r_bytes ''TraceState'' (\<lambda>s orig. orig\<lparr>Span_TraceState := s\<rparr>)"
  "Span_field 4 = r_message ''ParentSpanId'' SpanID_UnmarshalProto Span_ParentSpanId (\<lambda>v orig. orig\<lparr>Span_ParentSpanId := v\<rparr>)"
  "Span_field 16 = r_fixed32 ''Flags'' (\<lambda>num orig. orig\<lparr>Span_Flags := num\<rparr>)"
  "Span_field 5 = r_bytes ''Name'' (\<lambda>s orig. orig\<lparr>Span_Name := s\<rparr>)"
  "Span_field 6 = r_varint ''Kind'' (\<lambda>num orig. orig\<lparr>Span_Kind := ucast num\<rparr>)"
  "Span_field 7 = r_fixed64 ''StartTimeUnixNano'' (\<lambda>num orig. orig\<lparr>Span_StartTimeUnixNano := num\<rparr>)"
  "Span_field 8 = r_fixed64 ''EndTimeUnixNano'' (\<lambda>num orig. orig\<lparr>Span_EndTimeUnixNano := num\<rparr>)"
  "Span_field 9 = r_message ''Attributes'' KeyValue_UnmarshalProto (\<lambda>_. (KeyValue [] NoValue 0)) (\<lambda>v orig. orig\<lparr>Span_Attributes := Span_Attributes orig @ [v]\<rparr>)"
  "Span_field 10 = r_varint ''DroppedAttributesCount'' (\<lambda>num orig. orig\<lparr>Span_DroppedAttributesCount := ucast num\<rparr>)"
  "Span_field 11 = r_message ''Events'' SpanEvent_UnmarshalProto (\<lambda>_. SpanEvent_zero) (\<lambda>v orig. orig\<lparr>Span_Events := Span_Events orig @ [v]\<rparr>)"
  "Span_field 12 = r_varint ''DroppedEventsCount'' (\<lambda>num orig. orig\<lparr>Span_DroppedEventsCount := ucast num\<rparr>)"
  "Span_field 13 = r_message ''Links'' SpanLink_UnmarshalProto (\<lambda>_. SpanLink_zero) (\<lambda>v orig. orig\<lparr>Span_Links := Span_Links orig @ [v]\<rparr>)"
  "Span_field 14 = r_varint ''DroppedLinksCount'' (\<lambda>num orig. orig\<lparr>Span_DroppedLinksCount := ucast num\<rparr>)"
  "Span_field 15 = r_message ''Status'' Status_msg_UnmarshalProto Span_Status (\<lambda>v orig. orig\<lparr>Span_Status := v\<rparr>)"
  by (simp_all add: Span_field_def)

lemma Span_eta: "\<lparr>Span_TraceState = Span_TraceState orig, Span_Name = Span_Name orig, Span_Attributes = Span_Attributes orig, Span_Events = Span_Events orig, Span_Links = Span_Links orig, Span_Status = Span_Status orig, Span_StartTimeUnixNano = Span_StartTimeUnixNano orig, Span_EndTimeUnixNano = Span_EndTimeUnixNano orig, Span_Flags = Span_Flags orig, Span_Kind = Span_Kind orig, Span_DroppedAttributesCount = Span_DroppedAttributesCount orig, Span_DroppedEventsCount = Span_DroppedEventsCount orig, Span_DroppedLinksCount = Span_DroppedLinksCount orig, Span_TraceId = Span_TraceId orig, Span_SpanId = Span_SpanId orig, Span_ParentSpanId = Span_ParentSpanId orig\<rparr> = (orig :: Span)"
  by (cases orig) simp

lemmas Span_steps =
  reads_submessage [where h = Span_field and f = 1 and tag = "[0xa]" and b = TraceID_bytes, OF _ Span_fields(1), THEN reads_append]
  reads_submessage [where h = Span_field and f = 2 and tag = "[0x12]" and b = SpanID_bytes, OF _ Span_fields(2), THEN reads_append]
  reads_bytes [where h = Span_field and f = 3 and tag = "[0x1a]", OF _ Span_fields(3), THEN reads_append]
  reads_submessage [where h = Span_field and f = 4 and tag = "[0x22]" and b = SpanID_bytes, OF _ Span_fields(4), THEN reads_append]
  reads_fixed32 [where h = Span_field and f = 16 and tag = "[0x85, 0x1]", OF _ Span_fields(5), THEN reads_append]
  reads_bytes [where h = Span_field and f = 5 and tag = "[0x2a]", OF _ Span_fields(6), THEN reads_append]
  reads_varint [where h = Span_field and f = 6 and tag = "[0x30]", OF _ Span_fields(7), THEN reads_append]
  reads_fixed64 [where h = Span_field and f = 7 and tag = "[0x39]", OF _ Span_fields(8), THEN reads_append]
  reads_fixed64 [where h = Span_field and f = 8 and tag = "[0x41]", OF _ Span_fields(9), THEN reads_append]
  reads_submessages [where h = Span_field and f = 9 and tag = "[0x4a]" and S = "\<lambda>x orig. orig\<lparr>Span_Attributes := x\<rparr>" and b = KeyValue_bytes, OF _ Span_fields(10), THEN reads_append]
  reads_varint [where h = Span_field and f = 10 and tag = "[0x50]", OF _ Span_fields(11), THEN reads_append]
  reads_submessages [where h = Span_field and f = 11 and tag = "[0x5a]" and S = "\<lambda>x orig. orig\<lparr>Span_Events := x\<rparr>" and b = SpanEvent_bytes, OF _ Span_fields(12), THEN reads_append]
  reads_varint [where h = Span_field and f = 12 and tag = "[0x60]", OF _ Span_fields(13), THEN reads_append]
  reads_submessages [where h = Span_field and f = 13 and tag = "[0x6a]" and S = "\<lambda>x orig. orig\<lparr>Span_Links := x\<rparr>" and b = SpanLink_bytes, OF _ Span_fields(14), THEN reads_append]
  reads_varint [where h = Span_field and f = 14 and tag = "[0x70]", OF _ Span_fields(15), THEN reads_append]
  reads_submessage [where h = Span_field and f = 15 and tag = "[0x7a]" and b = Status_msg_bytes, OF _ Span_fields(16), THEN reads_append]

lemma Span_reads: "Span_wf orig \<Longrightarrow> reads Span_field (Span_bytes orig) Span_zero orig"
  unfolding Span_bytes_def rev.simps append.simps concat.simps
  by (intro Span_steps reads_done)
    (simp_all add: Span_zero_def Span_eta Span_wf_def list_all_iff double_is_zero_def KeyValue_roundtrip SpanEvent_roundtrip SpanID_roundtrip SpanLink_roundtrip Status_msg_roundtrip TraceID_roundtrip split: option.splits)

lemma Span_roundtrip:
  "Span_wf orig \<Longrightarrow> length (Span_bytes orig) < 2 ^ 62 \<Longrightarrow> Span_UnmarshalProto (Span_bytes orig) Span_zero = Some (Ok orig)"
  by (simp add: Span_UnmarshalProto_def unmarshal_reads Span_reads)

lemma Span_safe [safe_intros]: "safe_unmarshal Span_UnmarshalProto"
  unfolding Span_UnmarshalProto_def by (rule safe_unmarshal_fields) (auto simp: Span_field_def intro!: safe_intros)

subsection \<open>ScopeSpans\<close>

record ScopeSpans =
  ScopeSpans_SchemaUrl :: "byte list"
  ScopeSpans_Spans :: "Span list"
  ScopeSpans_Scope :: InstrumentationScope

definition ScopeSpans_zero :: ScopeSpans where
  "ScopeSpans_zero = \<lparr>ScopeSpans_SchemaUrl = [], ScopeSpans_Spans = [], ScopeSpans_Scope = InstrumentationScope_zero\<rparr>"

definition ScopeSpans_SizeProto :: "ScopeSpans \<Rightarrow> nat" where
  "ScopeSpans_SizeProto orig = sum_list [
     size_len 1 (InstrumentationScope_SizeProto (ScopeSpans_Scope orig)),
     \<Sum>x\<leftarrow>ScopeSpans_Spans orig. size_len 1 (Span_SizeProto x),
     size_bytes 1 (ScopeSpans_SchemaUrl orig)]"

definition ScopeSpans_MarshalProto :: "ScopeSpans \<Rightarrow> writer" where
  "ScopeSpans_MarshalProto orig = writes [
     w_message [0xa] (InstrumentationScope_MarshalProto (ScopeSpans_Scope orig)),
     w_repeated [0x12] Span_MarshalProto (ScopeSpans_Spans orig),
     w_bytes [0x1a] (ScopeSpans_SchemaUrl orig)]"

definition ScopeSpans_field :: "int \<Rightarrow> ScopeSpans reader" where
  "ScopeSpans_field fieldNum =
     (if fieldNum = 1 then r_message ''Scope'' InstrumentationScope_UnmarshalProto ScopeSpans_Scope (\<lambda>v orig. orig\<lparr>ScopeSpans_Scope := v\<rparr>)
      else if fieldNum = 2 then r_message ''Spans'' Span_UnmarshalProto (\<lambda>_. Span_zero) (\<lambda>v orig. orig\<lparr>ScopeSpans_Spans := ScopeSpans_Spans orig @ [v]\<rparr>)
      else if fieldNum = 3 then r_bytes ''SchemaUrl'' (\<lambda>s orig. orig\<lparr>ScopeSpans_SchemaUrl := s\<rparr>)
      else r_unknown)"

definition ScopeSpans_UnmarshalProto :: "byte list \<Rightarrow> ScopeSpans \<Rightarrow> ScopeSpans unmarshalled" where
  "ScopeSpans_UnmarshalProto = unmarshal ScopeSpans_field"

definition ScopeSpans_bytes :: "ScopeSpans \<Rightarrow> byte list" where
  "ScopeSpans_bytes orig = concat (rev [
     len_bytes [0xa] (InstrumentationScope_bytes (ScopeSpans_Scope orig)),
     b_repeated [0x12] (map Span_bytes (ScopeSpans_Spans orig)),
     b_bytes [0x1a] (ScopeSpans_SchemaUrl orig)])"

definition ScopeSpans_wf :: "ScopeSpans \<Rightarrow> bool" where
  "ScopeSpans_wf orig \<longleftrightarrow> InstrumentationScope_wf (ScopeSpans_Scope orig) \<and>
     list_all Span_wf (ScopeSpans_Spans orig)"

lemma emits_ScopeSpans [emits_intros]: "emits (ScopeSpans_MarshalProto orig) (ScopeSpans_bytes orig)"
  unfolding ScopeSpans_MarshalProto_def ScopeSpans_bytes_def by (rule emits_writes) (simp add: emits_intros)

lemma ScopeSpans_size [size_simps]: "length (ScopeSpans_bytes orig) = ScopeSpans_SizeProto orig"
  by (simp add: ScopeSpans_bytes_def ScopeSpans_SizeProto_def size_simps comp_def)

lemma ScopeSpans_fields:
  "ScopeSpans_field 1 = r_message ''Scope'' InstrumentationScope_UnmarshalProto ScopeSpans_Scope (\<lambda>v orig. orig\<lparr>ScopeSpans_Scope := v\<rparr>)"
  "ScopeSpans_field 2 = r_message ''Spans'' Span_UnmarshalProto (\<lambda>_. Span_zero) (\<lambda>v orig. orig\<lparr>ScopeSpans_Spans := ScopeSpans_Spans orig @ [v]\<rparr>)"
  "ScopeSpans_field 3 = r_bytes ''SchemaUrl'' (\<lambda>s orig. orig\<lparr>ScopeSpans_SchemaUrl := s\<rparr>)"
  by (simp_all add: ScopeSpans_field_def)

lemma ScopeSpans_eta: "\<lparr>ScopeSpans_SchemaUrl = ScopeSpans_SchemaUrl orig, ScopeSpans_Spans = ScopeSpans_Spans orig, ScopeSpans_Scope = ScopeSpans_Scope orig\<rparr> = (orig :: ScopeSpans)"
  by (cases orig) simp

lemmas ScopeSpans_steps =
  reads_submessage [where h = ScopeSpans_field and f = 1 and tag = "[0xa]" and b = InstrumentationScope_bytes, OF _ ScopeSpans_fields(1), THEN reads_append]
  reads_submessages [where h = ScopeSpans_field and f = 2 and tag = "[0x12]" and S = "\<lambda>x orig. orig\<lparr>ScopeSpans_Spans := x\<rparr>" and b = Span_bytes, OF _ ScopeSpans_fields(2), THEN reads_append]
  reads_bytes [where h = ScopeSpans_field and f = 3 and tag = "[0x1a]", OF _ ScopeSpans_fields(3), THEN reads_append]

lemma ScopeSpans_reads: "ScopeSpans_wf orig \<Longrightarrow> reads ScopeSpans_field (ScopeSpans_bytes orig) ScopeSpans_zero orig"
  unfolding ScopeSpans_bytes_def rev.simps append.simps concat.simps
  by (intro ScopeSpans_steps reads_done)
    (simp_all add: ScopeSpans_zero_def ScopeSpans_eta ScopeSpans_wf_def list_all_iff double_is_zero_def InstrumentationScope_roundtrip Span_roundtrip split: option.splits)

lemma ScopeSpans_roundtrip:
  "ScopeSpans_wf orig \<Longrightarrow> length (ScopeSpans_bytes orig) < 2 ^ 62 \<Longrightarrow> ScopeSpans_UnmarshalProto (ScopeSpans_bytes orig) ScopeSpans_zero = Some (Ok orig)"
  by (simp add: ScopeSpans_UnmarshalProto_def unmarshal_reads ScopeSpans_reads)

lemma ScopeSpans_safe [safe_intros]: "safe_unmarshal ScopeSpans_UnmarshalProto"
  unfolding ScopeSpans_UnmarshalProto_def by (rule safe_unmarshal_fields) (auto simp: ScopeSpans_field_def intro!: safe_intros)

subsection \<open>ResourceSpans\<close>

record ResourceSpans =
  ResourceSpans_Resource :: Resource
  ResourceSpans_ScopeSpans :: "ScopeSpans list"
  ResourceSpans_SchemaUrl :: "byte list"
  ResourceSpans_DeprecatedScopeSpans :: "ScopeSpans list"

definition ResourceSpans_zero :: ResourceSpans where
  "ResourceSpans_zero = \<lparr>ResourceSpans_Resource = Resource_zero, ResourceSpans_ScopeSpans = [], ResourceSpans_SchemaUrl = [], ResourceSpans_DeprecatedScopeSpans = []\<rparr>"

definition ResourceSpans_SizeProto :: "ResourceSpans \<Rightarrow> nat" where
  "ResourceSpans_SizeProto orig = sum_list [
     size_len 1 (Resource_SizeProto (ResourceSpans_Resource orig)),
     \<Sum>x\<leftarrow>ResourceSpans_ScopeSpans orig. size_len 1 (ScopeSpans_SizeProto x),
     size_bytes 1 (ResourceSpans_SchemaUrl orig),
     \<Sum>x\<leftarrow>ResourceSpans_DeprecatedScopeSpans orig. size_len 2 (ScopeSpans_SizeProto x)]"

definition ResourceSpans_MarshalProto :: "ResourceSpans \<Rightarrow> writer" where
  "ResourceSpans_MarshalProto orig = writes [
     w_message [0xa] (Resource_MarshalProto (ResourceSpans_Resource orig)),
     w_repeated [0x12] ScopeSpans_MarshalProto (ResourceSpans_ScopeSpans orig),
     w_bytes [0x1a] (ResourceSpans_SchemaUrl orig),
     w_repeated [0xc2, 0x3e] ScopeSpans_MarshalProto (ResourceSpans_DeprecatedScopeSpans orig)]"

definition ResourceSpans_field :: "int \<Rightarrow> ResourceSpans reader" where
  "ResourceSpans_field fieldNum =
     (if fieldNum = 1 then r_message ''Resource'' Resource_UnmarshalProto ResourceSpans_Resource (\<lambda>v orig. orig\<lparr>ResourceSpans_Resource := v\<rparr>)
      else if fieldNum = 2 then r_message ''ScopeSpans'' ScopeSpans_UnmarshalProto (\<lambda>_. ScopeSpans_zero) (\<lambda>v orig. orig\<lparr>ResourceSpans_ScopeSpans := ResourceSpans_ScopeSpans orig @ [v]\<rparr>)
      else if fieldNum = 3 then r_bytes ''SchemaUrl'' (\<lambda>s orig. orig\<lparr>ResourceSpans_SchemaUrl := s\<rparr>)
      else if fieldNum = 1000 then r_message ''DeprecatedScopeSpans'' ScopeSpans_UnmarshalProto (\<lambda>_. ScopeSpans_zero) (\<lambda>v orig. orig\<lparr>ResourceSpans_DeprecatedScopeSpans := ResourceSpans_DeprecatedScopeSpans orig @ [v]\<rparr>)
      else r_unknown)"

definition ResourceSpans_UnmarshalProto :: "byte list \<Rightarrow> ResourceSpans \<Rightarrow> ResourceSpans unmarshalled" where
  "ResourceSpans_UnmarshalProto = unmarshal ResourceSpans_field"

definition ResourceSpans_bytes :: "ResourceSpans \<Rightarrow> byte list" where
  "ResourceSpans_bytes orig = concat (rev [
     len_bytes [0xa] (Resource_bytes (ResourceSpans_Resource orig)),
     b_repeated [0x12] (map ScopeSpans_bytes (ResourceSpans_ScopeSpans orig)),
     b_bytes [0x1a] (ResourceSpans_SchemaUrl orig),
     b_repeated [0xc2, 0x3e] (map ScopeSpans_bytes (ResourceSpans_DeprecatedScopeSpans orig))])"

definition ResourceSpans_wf :: "ResourceSpans \<Rightarrow> bool" where
  "ResourceSpans_wf orig \<longleftrightarrow> Resource_wf (ResourceSpans_Resource orig) \<and>
     list_all ScopeSpans_wf (ResourceSpans_ScopeSpans orig) \<and>
     list_all ScopeSpans_wf (ResourceSpans_DeprecatedScopeSpans orig)"

lemma emits_ResourceSpans [emits_intros]: "emits (ResourceSpans_MarshalProto orig) (ResourceSpans_bytes orig)"
  unfolding ResourceSpans_MarshalProto_def ResourceSpans_bytes_def by (rule emits_writes) (simp add: emits_intros)

lemma ResourceSpans_size [size_simps]: "length (ResourceSpans_bytes orig) = ResourceSpans_SizeProto orig"
  by (simp add: ResourceSpans_bytes_def ResourceSpans_SizeProto_def size_simps comp_def numeral_2_eq_2)

lemma ResourceSpans_fields:
  "ResourceSpans_field 1 = r_message ''Resource'' Resource_UnmarshalProto ResourceSpans_Resource (\<lambda>v orig. orig\<lparr>ResourceSpans_Resource := v\<rparr>)"
  "ResourceSpans_field 2 = r_message ''ScopeSpans'' ScopeSpans_UnmarshalProto (\<lambda>_. ScopeSpans_zero) (\<lambda>v orig. orig\<lparr>ResourceSpans_ScopeSpans := ResourceSpans_ScopeSpans orig @ [v]\<rparr>)"
  "ResourceSpans_field 3 = r_bytes ''SchemaUrl'' (\<lambda>s orig. orig\<lparr>ResourceSpans_SchemaUrl := s\<rparr>)"
  "ResourceSpans_field 1000 = r_message ''DeprecatedScopeSpans'' ScopeSpans_UnmarshalProto (\<lambda>_. ScopeSpans_zero) (\<lambda>v orig. orig\<lparr>ResourceSpans_DeprecatedScopeSpans := ResourceSpans_DeprecatedScopeSpans orig @ [v]\<rparr>)"
  by (simp_all add: ResourceSpans_field_def)

lemma ResourceSpans_eta: "\<lparr>ResourceSpans_Resource = ResourceSpans_Resource orig, ResourceSpans_ScopeSpans = ResourceSpans_ScopeSpans orig, ResourceSpans_SchemaUrl = ResourceSpans_SchemaUrl orig, ResourceSpans_DeprecatedScopeSpans = ResourceSpans_DeprecatedScopeSpans orig\<rparr> = (orig :: ResourceSpans)"
  by (cases orig) simp

lemmas ResourceSpans_steps =
  reads_submessage [where h = ResourceSpans_field and f = 1 and tag = "[0xa]" and b = Resource_bytes, OF _ ResourceSpans_fields(1), THEN reads_append]
  reads_submessages [where h = ResourceSpans_field and f = 2 and tag = "[0x12]" and S = "\<lambda>x orig. orig\<lparr>ResourceSpans_ScopeSpans := x\<rparr>" and b = ScopeSpans_bytes, OF _ ResourceSpans_fields(2), THEN reads_append]
  reads_bytes [where h = ResourceSpans_field and f = 3 and tag = "[0x1a]", OF _ ResourceSpans_fields(3), THEN reads_append]
  reads_submessages [where h = ResourceSpans_field and f = 1000 and tag = "[0xc2, 0x3e]" and S = "\<lambda>x orig. orig\<lparr>ResourceSpans_DeprecatedScopeSpans := x\<rparr>" and b = ScopeSpans_bytes, OF _ ResourceSpans_fields(4), THEN reads_append]

lemma ResourceSpans_reads: "ResourceSpans_wf orig \<Longrightarrow> reads ResourceSpans_field (ResourceSpans_bytes orig) ResourceSpans_zero orig"
  unfolding ResourceSpans_bytes_def rev.simps append.simps concat.simps
  by (intro ResourceSpans_steps reads_done)
    (simp_all add: ResourceSpans_zero_def ResourceSpans_eta ResourceSpans_wf_def list_all_iff double_is_zero_def Resource_roundtrip ScopeSpans_roundtrip split: option.splits)

lemma ResourceSpans_roundtrip:
  "ResourceSpans_wf orig \<Longrightarrow> length (ResourceSpans_bytes orig) < 2 ^ 62 \<Longrightarrow> ResourceSpans_UnmarshalProto (ResourceSpans_bytes orig) ResourceSpans_zero = Some (Ok orig)"
  by (simp add: ResourceSpans_UnmarshalProto_def unmarshal_reads ResourceSpans_reads)

lemma ResourceSpans_safe [safe_intros]: "safe_unmarshal ResourceSpans_UnmarshalProto"
  unfolding ResourceSpans_UnmarshalProto_def by (rule safe_unmarshal_fields) (auto simp: ResourceSpans_field_def intro!: safe_intros)

subsection \<open>TracesData\<close>

record TracesData =
  TracesData_ResourceSpans :: "ResourceSpans list"

definition TracesData_zero :: TracesData where
  "TracesData_zero = \<lparr>TracesData_ResourceSpans = []\<rparr>"

definition TracesData_SizeProto :: "TracesData \<Rightarrow> nat" where
  "TracesData_SizeProto orig = sum_list [
     \<Sum>x\<leftarrow>TracesData_ResourceSpans orig. size_len 1 (ResourceSpans_SizeProto x)]"

definition TracesData_MarshalProto :: "TracesData \<Rightarrow> writer" where
  "TracesData_MarshalProto orig = writes [
     w_repeated [0xa] ResourceSpans_MarshalProto (TracesData_ResourceSpans orig)]"

definition TracesData_field :: "int \<Rightarrow> TracesData reader" where
  "TracesData_field fieldNum =
     (if fieldNum = 1 then r_message ''ResourceSpans'' ResourceSpans_UnmarshalProto (\<lambda>_. ResourceSpans_zero) (\<lambda>v orig. orig\<lparr>TracesData_ResourceSpans := TracesData_ResourceSpans orig @ [v]\<rparr>)
      else r_unknown)"

definition TracesData_UnmarshalProto :: "byte list \<Rightarrow> TracesData \<Rightarrow> TracesData unmarshalled" where
  "TracesData_UnmarshalProto = unmarshal TracesData_field"

definition TracesData_bytes :: "TracesData \<Rightarrow> byte list" where
  "TracesData_bytes orig = concat (rev [
     b_repeated [0xa] (map ResourceSpans_bytes (TracesData_ResourceSpans orig))])"

definition TracesData_wf :: "TracesData \<Rightarrow> bool" where
  "TracesData_wf orig \<longleftrightarrow> list_all ResourceSpans_wf (TracesData_ResourceSpans orig)"

lemma emits_TracesData [emits_intros]: "emits (TracesData_MarshalProto orig) (TracesData_bytes orig)"
  unfolding TracesData_MarshalProto_def TracesData_bytes_def by (rule emits_writes) (simp add: emits_intros)

lemma TracesData_size [size_simps]: "length (TracesData_bytes orig) = TracesData_SizeProto orig"
  by (simp add: TracesData_bytes_def TracesData_SizeProto_def size_simps comp_def)

lemma TracesData_fields:
  "TracesData_field 1 = r_message ''ResourceSpans'' ResourceSpans_UnmarshalProto (\<lambda>_. ResourceSpans_zero) (\<lambda>v orig. orig\<lparr>TracesData_ResourceSpans := TracesData_ResourceSpans orig @ [v]\<rparr>)"
  by (simp_all add: TracesData_field_def)

lemma TracesData_eta: "\<lparr>TracesData_ResourceSpans = TracesData_ResourceSpans orig\<rparr> = (orig :: TracesData)"
  by (cases orig) simp

lemmas TracesData_steps =
  reads_submessages [where h = TracesData_field and f = 1 and tag = "[0xa]" and S = "\<lambda>x orig. orig\<lparr>TracesData_ResourceSpans := x\<rparr>" and b = ResourceSpans_bytes, OF _ TracesData_fields, THEN reads_append]

lemma TracesData_reads: "TracesData_wf orig \<Longrightarrow> reads TracesData_field (TracesData_bytes orig) TracesData_zero orig"
  unfolding TracesData_bytes_def rev.simps append.simps concat.simps
  by (intro TracesData_steps reads_done)
    (simp_all add: TracesData_zero_def TracesData_eta TracesData_wf_def list_all_iff double_is_zero_def ResourceSpans_roundtrip split: option.splits)

lemma TracesData_roundtrip:
  "TracesData_wf orig \<Longrightarrow> length (TracesData_bytes orig) < 2 ^ 62 \<Longrightarrow> TracesData_UnmarshalProto (TracesData_bytes orig) TracesData_zero = Some (Ok orig)"
  by (simp add: TracesData_UnmarshalProto_def unmarshal_reads TracesData_reads)

lemma TracesData_safe [safe_intros]: "safe_unmarshal TracesData_UnmarshalProto"
  unfolding TracesData_UnmarshalProto_def by (rule safe_unmarshal_fields) (auto simp: TracesData_field_def intro!: safe_intros)

subsection \<open>ExportTraceServiceRequest\<close>

record ExportTraceServiceRequest =
  ExportTraceServiceRequest_ResourceSpans :: "ResourceSpans list"

definition ExportTraceServiceRequest_zero :: ExportTraceServiceRequest where
  "ExportTraceServiceRequest_zero = \<lparr>ExportTraceServiceRequest_ResourceSpans = []\<rparr>"

definition ExportTraceServiceRequest_SizeProto :: "ExportTraceServiceRequest \<Rightarrow> nat" where
  "ExportTraceServiceRequest_SizeProto orig = sum_list [
     \<Sum>x\<leftarrow>ExportTraceServiceRequest_ResourceSpans orig. size_len 1 (ResourceSpans_SizeProto x)]"

definition ExportTraceServiceRequest_MarshalProto :: "ExportTraceServiceRequest \<Rightarrow> writer" where
  "ExportTraceServiceRequest_MarshalProto orig = writes [
     w_repeated [0xa] ResourceSpans_MarshalProto (ExportTraceServiceRequest_ResourceSpans orig)]"

definition ExportTraceServiceRequest_field :: "int \<Rightarrow> ExportTraceServiceRequest reader" where
  "ExportTraceServiceRequest_field fieldNum =
     (if fieldNum = 1 then r_message ''ResourceSpans'' ResourceSpans_UnmarshalProto (\<lambda>_. ResourceSpans_zero) (\<lambda>v orig. orig\<lparr>ExportTraceServiceRequest_ResourceSpans := ExportTraceServiceRequest_ResourceSpans orig @ [v]\<rparr>)
      else r_unknown)"

definition ExportTraceServiceRequest_UnmarshalProto :: "byte list \<Rightarrow> ExportTraceServiceRequest \<Rightarrow> ExportTraceServiceRequest unmarshalled" where
  "ExportTraceServiceRequest_UnmarshalProto = unmarshal ExportTraceServiceRequest_field"

definition ExportTraceServiceRequest_bytes :: "ExportTraceServiceRequest \<Rightarrow> byte list" where
  "ExportTraceServiceRequest_bytes orig = concat (rev [
     b_repeated [0xa] (map ResourceSpans_bytes (ExportTraceServiceRequest_ResourceSpans orig))])"

definition ExportTraceServiceRequest_wf :: "ExportTraceServiceRequest \<Rightarrow> bool" where
  "ExportTraceServiceRequest_wf orig \<longleftrightarrow> list_all ResourceSpans_wf (ExportTraceServiceRequest_ResourceSpans orig)"

lemma emits_ExportTraceServiceRequest [emits_intros]: "emits (ExportTraceServiceRequest_MarshalProto orig) (ExportTraceServiceRequest_bytes orig)"
  unfolding ExportTraceServiceRequest_MarshalProto_def ExportTraceServiceRequest_bytes_def by (rule emits_writes) (simp add: emits_intros)

lemma ExportTraceServiceRequest_size [size_simps]: "length (ExportTraceServiceRequest_bytes orig) = ExportTraceServiceRequest_SizeProto orig"
  by (simp add: ExportTraceServiceRequest_bytes_def ExportTraceServiceRequest_SizeProto_def size_simps comp_def)

lemma ExportTraceServiceRequest_fields:
  "ExportTraceServiceRequest_field 1 = r_message ''ResourceSpans'' ResourceSpans_UnmarshalProto (\<lambda>_. ResourceSpans_zero) (\<lambda>v orig. orig\<lparr>ExportTraceServiceRequest_ResourceSpans := ExportTraceServiceRequest_ResourceSpans orig @ [v]\<rparr>)"
  by (simp_all add: ExportTraceServiceRequest_field_def)

lemma ExportTraceServiceRequest_eta: "\<lparr>ExportTraceServiceRequest_ResourceSpans = ExportTraceServiceRequest_ResourceSpans orig\<rparr> = (orig :: ExportTraceServiceRequest)"
  by (cases orig) simp

lemmas ExportTraceServiceRequest_steps =
  reads_submessages [where h = ExportTraceServiceRequest_field and f = 1 and tag = "[0xa]" and S = "\<lambda>x orig. orig\<lparr>ExportTraceServiceRequest_ResourceSpans := x\<rparr>" and b = ResourceSpans_bytes, OF _ ExportTraceServiceRequest_fields, THEN reads_append]

lemma ExportTraceServiceRequest_reads: "ExportTraceServiceRequest_wf orig \<Longrightarrow> reads ExportTraceServiceRequest_field (ExportTraceServiceRequest_bytes orig) ExportTraceServiceRequest_zero orig"
  unfolding ExportTraceServiceRequest_bytes_def rev.simps append.simps concat.simps
  by (intro ExportTraceServiceRequest_steps reads_done)
    (simp_all add: ExportTraceServiceRequest_zero_def ExportTraceServiceRequest_eta ExportTraceServiceRequest_wf_def list_all_iff double_is_zero_def ResourceSpans_roundtrip split: option.splits)

lemma ExportTraceServiceRequest_roundtrip:
  "ExportTraceServiceRequest_wf orig \<Longrightarrow> length (ExportTraceServiceRequest_bytes orig) < 2 ^ 62 \<Longrightarrow> ExportTraceServiceRequest_UnmarshalProto (ExportTraceServiceRequest_bytes orig) ExportTraceServiceRequest_zero = Some (Ok orig)"
  by (simp add: ExportTraceServiceRequest_UnmarshalProto_def unmarshal_reads ExportTraceServiceRequest_reads)

lemma ExportTraceServiceRequest_safe [safe_intros]: "safe_unmarshal ExportTraceServiceRequest_UnmarshalProto"
  unfolding ExportTraceServiceRequest_UnmarshalProto_def by (rule safe_unmarshal_fields) (auto simp: ExportTraceServiceRequest_field_def intro!: safe_intros)

subsection \<open>ExportTracePartialSuccess\<close>

record ExportTracePartialSuccess =
  ExportTracePartialSuccess_ErrorMessage :: "byte list"
  ExportTracePartialSuccess_RejectedSpans :: u64

definition ExportTracePartialSuccess_zero :: ExportTracePartialSuccess where
  "ExportTracePartialSuccess_zero = \<lparr>ExportTracePartialSuccess_ErrorMessage = [], ExportTracePartialSuccess_RejectedSpans = 0\<rparr>"

definition ExportTracePartialSuccess_SizeProto :: "ExportTracePartialSuccess \<Rightarrow> nat" where
  "ExportTracePartialSuccess_SizeProto orig = sum_list [
     if ExportTracePartialSuccess_RejectedSpans orig \<noteq> 0 then 1 + Sov ((ExportTracePartialSuccess_RejectedSpans orig)) else 0,
     size_bytes 1 (ExportTracePartialSuccess_ErrorMessage orig)]"

definition ExportTracePartialSuccess_MarshalProto :: "ExportTracePartialSuccess \<Rightarrow> writer" where
  "ExportTracePartialSuccess_MarshalProto orig = writes [
     w_varint [0x8] (ExportTracePartialSuccess_RejectedSpans orig),
     w_bytes [0x12] (ExportTracePartialSuccess_ErrorMessage orig)]"

definition ExportTracePartialSuccess_field :: "int \<Rightarrow> ExportTracePartialSuccess reader" where
  "ExportTracePartialSuccess_field fieldNum =
     (if fieldNum = 1 then r_varint ''RejectedSpans'' (\<lambda>num orig. orig\<lparr>ExportTracePartialSuccess_RejectedSpans := num\<rparr>)
      else if fieldNum = 2 then r_bytes ''ErrorMessage'' (\<lambda>s orig. orig\<lparr>ExportTracePartialSuccess_ErrorMessage := s\<rparr>)
      else r_unknown)"

definition ExportTracePartialSuccess_UnmarshalProto :: "byte list \<Rightarrow> ExportTracePartialSuccess \<Rightarrow> ExportTracePartialSuccess unmarshalled" where
  "ExportTracePartialSuccess_UnmarshalProto = unmarshal ExportTracePartialSuccess_field"

definition ExportTracePartialSuccess_bytes :: "ExportTracePartialSuccess \<Rightarrow> byte list" where
  "ExportTracePartialSuccess_bytes orig = concat (rev [
     b_varint [0x8] (ExportTracePartialSuccess_RejectedSpans orig),
     b_bytes [0x12] (ExportTracePartialSuccess_ErrorMessage orig)])"

lemma emits_ExportTracePartialSuccess [emits_intros]: "emits (ExportTracePartialSuccess_MarshalProto orig) (ExportTracePartialSuccess_bytes orig)"
  unfolding ExportTracePartialSuccess_MarshalProto_def ExportTracePartialSuccess_bytes_def by (rule emits_writes) (simp add: emits_intros)

lemma ExportTracePartialSuccess_size [size_simps]: "length (ExportTracePartialSuccess_bytes orig) = ExportTracePartialSuccess_SizeProto orig"
  by (simp add: ExportTracePartialSuccess_bytes_def ExportTracePartialSuccess_SizeProto_def size_simps comp_def)

lemma ExportTracePartialSuccess_fields:
  "ExportTracePartialSuccess_field 1 = r_varint ''RejectedSpans'' (\<lambda>num orig. orig\<lparr>ExportTracePartialSuccess_RejectedSpans := num\<rparr>)"
  "ExportTracePartialSuccess_field 2 = r_bytes ''ErrorMessage'' (\<lambda>s orig. orig\<lparr>ExportTracePartialSuccess_ErrorMessage := s\<rparr>)"
  by (simp_all add: ExportTracePartialSuccess_field_def)

lemma ExportTracePartialSuccess_eta: "\<lparr>ExportTracePartialSuccess_ErrorMessage = ExportTracePartialSuccess_ErrorMessage orig, ExportTracePartialSuccess_RejectedSpans = ExportTracePartialSuccess_RejectedSpans orig\<rparr> = (orig :: ExportTracePartialSuccess)"
  by (cases orig) simp

lemmas ExportTracePartialSuccess_steps =
  reads_varint [where h = ExportTracePartialSuccess_field and f = 1 and tag = "[0x8]", OF _ ExportTracePartialSuccess_fields(1), THEN reads_append]
  reads_bytes [where h = ExportTracePartialSuccess_field and f = 2 and tag = "[0x12]", OF _ ExportTracePartialSuccess_fields(2), THEN reads_append]

lemma ExportTracePartialSuccess_reads: "reads ExportTracePartialSuccess_field (ExportTracePartialSuccess_bytes orig) ExportTracePartialSuccess_zero orig"
  unfolding ExportTracePartialSuccess_bytes_def rev.simps append.simps concat.simps
  by (intro ExportTracePartialSuccess_steps reads_done)
    (simp_all add: ExportTracePartialSuccess_zero_def ExportTracePartialSuccess_eta  split: option.splits)

lemma ExportTracePartialSuccess_roundtrip:
  "length (ExportTracePartialSuccess_bytes orig) < 2 ^ 62 \<Longrightarrow> ExportTracePartialSuccess_UnmarshalProto (ExportTracePartialSuccess_bytes orig) ExportTracePartialSuccess_zero = Some (Ok orig)"
  by (simp add: ExportTracePartialSuccess_UnmarshalProto_def unmarshal_reads ExportTracePartialSuccess_reads)

lemma ExportTracePartialSuccess_safe [safe_intros]: "safe_unmarshal ExportTracePartialSuccess_UnmarshalProto"
  unfolding ExportTracePartialSuccess_UnmarshalProto_def by (rule safe_unmarshal_fields) (auto simp: ExportTracePartialSuccess_field_def intro!: safe_intros)

subsection \<open>ExportTraceServiceResponse\<close>

record ExportTraceServiceResponse =
  ExportTraceServiceResponse_PartialSuccess :: ExportTracePartialSuccess

definition ExportTraceServiceResponse_zero :: ExportTraceServiceResponse where
  "ExportTraceServiceResponse_zero = \<lparr>ExportTraceServiceResponse_PartialSuccess = ExportTracePartialSuccess_zero\<rparr>"

definition ExportTraceServiceResponse_SizeProto :: "ExportTraceServiceResponse \<Rightarrow> nat" where
  "ExportTraceServiceResponse_SizeProto orig = sum_list [
     size_len 1 (ExportTracePartialSuccess_SizeProto (ExportTraceServiceResponse_PartialSuccess orig))]"

definition ExportTraceServiceResponse_MarshalProto :: "ExportTraceServiceResponse \<Rightarrow> writer" where
  "ExportTraceServiceResponse_MarshalProto orig = writes [
     w_message [0xa] (ExportTracePartialSuccess_MarshalProto (ExportTraceServiceResponse_PartialSuccess orig))]"

definition ExportTraceServiceResponse_field :: "int \<Rightarrow> ExportTraceServiceResponse reader" where
  "ExportTraceServiceResponse_field fieldNum =
     (if fieldNum = 1 then r_message ''PartialSuccess'' ExportTracePartialSuccess_UnmarshalProto ExportTraceServiceResponse_PartialSuccess (\<lambda>v orig. orig\<lparr>ExportTraceServiceResponse_PartialSuccess := v\<rparr>)
      else r_unknown)"

definition ExportTraceServiceResponse_UnmarshalProto :: "byte list \<Rightarrow> ExportTraceServiceResponse \<Rightarrow> ExportTraceServiceResponse unmarshalled" where
  "ExportTraceServiceResponse_UnmarshalProto = unmarshal ExportTraceServiceResponse_field"

definition ExportTraceServiceResponse_bytes :: "ExportTraceServiceResponse \<Rightarrow> byte list" where
  "ExportTraceServiceResponse_bytes orig = concat (rev [
     len_bytes [0xa] (ExportTracePartialSuccess_bytes (ExportTraceServiceResponse_PartialSuccess orig))])"

lemma emits_ExportTraceServiceResponse [emits_intros]: "emits (ExportTraceServiceResponse_MarshalProto orig) (ExportTraceServiceResponse_bytes orig)"
  unfolding ExportTraceServiceResponse_MarshalProto_def ExportTraceServiceResponse_bytes_def by (rule emits_writes) (simp add: emits_intros)

lemma ExportTraceServiceResponse_size [size_simps]: "length (ExportTraceServiceResponse_bytes orig) = ExportTraceServiceResponse_SizeProto orig"
  by (simp add: ExportTraceServiceResponse_bytes_def ExportTraceServiceResponse_SizeProto_def size_simps comp_def)

lemma ExportTraceServiceResponse_fields:
  "ExportTraceServiceResponse_field 1 = r_message ''PartialSuccess'' ExportTracePartialSuccess_UnmarshalProto ExportTraceServiceResponse_PartialSuccess (\<lambda>v orig. orig\<lparr>ExportTraceServiceResponse_PartialSuccess := v\<rparr>)"
  by (simp_all add: ExportTraceServiceResponse_field_def)

lemma ExportTraceServiceResponse_eta: "\<lparr>ExportTraceServiceResponse_PartialSuccess = ExportTraceServiceResponse_PartialSuccess orig\<rparr> = (orig :: ExportTraceServiceResponse)"
  by (cases orig) simp

lemmas ExportTraceServiceResponse_steps =
  reads_submessage [where h = ExportTraceServiceResponse_field and f = 1 and tag = "[0xa]" and b = ExportTracePartialSuccess_bytes, OF _ ExportTraceServiceResponse_fields, THEN reads_append]

lemma ExportTraceServiceResponse_reads: "reads ExportTraceServiceResponse_field (ExportTraceServiceResponse_bytes orig) ExportTraceServiceResponse_zero orig"
  unfolding ExportTraceServiceResponse_bytes_def rev.simps append.simps concat.simps
  by (intro ExportTraceServiceResponse_steps reads_done)
    (simp_all add: ExportTraceServiceResponse_zero_def ExportTraceServiceResponse_eta ExportTracePartialSuccess_roundtrip split: option.splits)

lemma ExportTraceServiceResponse_roundtrip:
  "length (ExportTraceServiceResponse_bytes orig) < 2 ^ 62 \<Longrightarrow> ExportTraceServiceResponse_UnmarshalProto (ExportTraceServiceResponse_bytes orig) ExportTraceServiceResponse_zero = Some (Ok orig)"
  by (simp add: ExportTraceServiceResponse_UnmarshalProto_def unmarshal_reads ExportTraceServiceResponse_reads)

lemma ExportTraceServiceResponse_safe [safe_intros]: "safe_unmarshal ExportTraceServiceResponse_UnmarshalProto"
  unfolding ExportTraceServiceResponse_UnmarshalProto_def by (rule safe_unmarshal_fields) (auto simp: ExportTraceServiceResponse_field_def intro!: safe_intros)

end
