(* ===== verification/ProtoMetrics.thy ===== *)
theory ProtoMetrics
  imports ProtoCommon
begin

text \<open>
  The messages of metrics and of their export. The messages \<^verbatim>\<open>Sum\<close> and \<^verbatim>\<open>Metric\<close> are the records \<open>Sum_msg\<close> and
  \<open>Metric_msg\<close>. A field with a presence bit (\<^verbatim>\<open>HasSum\<close>, \<^verbatim>\<open>SetSum\<close>) is an option.
\<close>

subsection \<open>Exemplar\<close>

datatype Exemplar_Value =
    Exemplar_Value_None
  | Exemplar_AsDouble u64
  | Exemplar_AsInt u64

fun Exemplar_Value_SizeProto :: "Exemplar_Value \<Rightarrow> nat" where
  "Exemplar_Value_SizeProto Exemplar_Value_None = 0"
| "Exemplar_Value_SizeProto (Exemplar_AsDouble v) = 9"
| "Exemplar_Value_SizeProto (Exemplar_AsInt v) = 9"

fun Exemplar_Value_MarshalProto :: "Exemplar_Value \<Rightarrow> writer" where
  "Exemplar_Value_MarshalProto Exemplar_Value_None = Some"
| "Exemplar_Value_MarshalProto (Exemplar_AsDouble v) = w_present64 [0x19] v"
| "Exemplar_Value_MarshalProto (Exemplar_AsInt v) = w_present64 [0x31] v"

fun Exemplar_Value_bytes :: "Exemplar_Value \<Rightarrow> byte list" where
  "Exemplar_Value_bytes Exemplar_Value_None = []"
| "Exemplar_Value_bytes (Exemplar_AsDouble v) = b_present64 [0x19] v"
| "Exemplar_Value_bytes (Exemplar_AsInt v) = b_present64 [0x31] v"

record Exemplar =
  Exemplar_Value :: Exemplar_Value
  Exemplar_FilteredAttributes :: "KeyValue list"
  Exemplar_TimeUnixNano :: u64
  Exemplar_TraceId :: TraceID
  Exemplar_SpanId :: SpanID

definition Exemplar_zero :: Exemplar where
  "Exemplar_zero = \<lparr>Exemplar_Value = Exemplar_Value_None, Exemplar_FilteredAttributes = [], Exemplar_TimeUnixNano = 0, Exemplar_TraceId = 0, Exemplar_SpanId = 0\<rparr>"

definition Exemplar_SizeProto :: "Exemplar \<Rightarrow> nat" where
  "Exemplar_SizeProto orig = sum_list [
     \<Sum>x\<leftarrow>Exemplar_FilteredAttributes orig. size_len 1 (KeyValue_SizeProto x),
     if Exemplar_TimeUnixNano orig \<noteq> 0 then 9 else 0,
     Exemplar_Value_SizeProto (Exemplar_Value orig),
     size_len 1 (TraceID_SizeProto (Exemplar_TraceId orig)),
     size_len 1 (SpanID_SizeProto (Exemplar_SpanId orig))]"

definition Exemplar_MarshalProto :: "Exemplar \<Rightarrow> writer" where
  "Exemplar_MarshalProto orig = writes [
     w_repeated [0x3a] KeyValue_MarshalProto (Exemplar_FilteredAttributes orig),
     w_fixed64 [0x11] (Exemplar_TimeUnixNano orig),
     Exemplar_Value_MarshalProto (Exemplar_Value orig),
     w_message [0x2a] (TraceID_MarshalProto (Exemplar_TraceId orig)),
     w_message [0x22] (SpanID_MarshalProto (Exemplar_SpanId orig))]"

definition Exemplar_field :: "int \<Rightarrow> Exemplar reader" where
  "Exemplar_field fieldNum =
     (if fieldNum = 7 then r_message ''FilteredAttributes'' KeyValue_UnmarshalProto (\<lambda>_. (KeyValue [] NoValue 0)) (\<lambda>v orig. orig\<lparr>Exemplar_FilteredAttributes := Exemplar_FilteredAttributes orig @ [v]\<rparr>)
      else if fieldNum = 2 then r_fixed64 ''TimeUnixNano'' (\<lambda>num orig. orig\<lparr>Exemplar_TimeUnixNano := num\<rparr>)
      else if fieldNum = 3 then r_fixed64 ''AsDouble'' (\<lambda>num orig. orig\<lparr>Exemplar_Value := Exemplar_AsDouble num\<rparr>)
      else if fieldNum = 6 then r_fixed64 ''AsInt'' (\<lambda>num orig. orig\<lparr>Exemplar_Value := Exemplar_AsInt num\<rparr>)
      else if fieldNum = 5 then r_message ''TraceId'' TraceID_UnmarshalProto Exemplar_TraceId (\<lambda>v orig. orig\<lparr>Exemplar_TraceId := v\<rparr>)
      else if fieldNum = 4 then r_message ''SpanId'' SpanID_UnmarshalProto Exemplar_SpanId (\<lambda>v orig. orig\<lparr>Exemplar_SpanId := v\<rparr>)
      else r_unknown)"

definition Exemplar_UnmarshalProto :: "byte list \<Rightarrow> Exemplar \<Rightarrow> Exemplar unmarshalled" where
  "Exemplar_UnmarshalProto = unmarshal Exemplar_field"

definition Exemplar_bytes :: "Exemplar \<Rightarrow> byte list" where
  "Exemplar_bytes orig = concat (rev [
     b_repeated [0x3a] (map KeyValue_bytes (Exemplar_FilteredAttributes orig)),
     b_fixed64 [0x11] (Exemplar_TimeUnixNano orig),
     Exemplar_Value_bytes (Exemplar_Value orig),
     len_bytes [0x2a] (TraceID_bytes (Exemplar_TraceId orig)),
     len_bytes [0x22] (SpanID_bytes (Exemplar_SpanId orig))])"

definition Exemplar_wf :: "Exemplar \<Rightarrow> bool" where
  "Exemplar_wf orig \<longleftrightarrow> list_all KeyValue_wf (Exemplar_FilteredAttributes orig)"

lemma emits_Exemplar_Value [emits_intros]: "emits (Exemplar_Value_MarshalProto d) (Exemplar_Value_bytes d)"
  by (cases d rule: Exemplar_Value_bytes.cases) (simp_all add: emits_intros)

lemma Exemplar_Value_size [size_simps]: "length (Exemplar_Value_bytes d) = Exemplar_Value_SizeProto d"
  by (cases d rule: Exemplar_Value_bytes.cases) (simp_all add: size_simps)

lemma emits_Exemplar [emits_intros]: "emits (Exemplar_MarshalProto orig) (Exemplar_bytes orig)"
  unfolding Exemplar_MarshalProto_def Exemplar_bytes_def by (rule emits_writes) (simp add: emits_intros)

lemma Exemplar_size [size_simps]: "length (Exemplar_bytes orig) = Exemplar_SizeProto orig"
  by (simp add: Exemplar_bytes_def Exemplar_SizeProto_def size_simps comp_def)

lemma Exemplar_fields:
  "Exemplar_field 7 = r_message ''FilteredAttributes'' KeyValue_UnmarshalProto (\<lambda>_. (KeyValue [] NoValue 0)) (\<lambda>v orig. orig\<lparr>Exemplar_FilteredAttributes := Exemplar_FilteredAttributes orig @ [v]\<rparr>)"
  "Exemplar_field 2 = r_fixed64 ''TimeUnixNano'' (\<lambda>num orig. orig\<lparr>Exemplar_TimeUnixNano := num\<rparr>)"
  "Exemplar_field 3 = r_fixed64 ''AsDouble'' (\<lambda>num orig. orig\<lparr>Exemplar_Value := Exemplar_AsDouble num\<rparr>)"
  "Exemplar_field 6 = r_fixed64 ''AsInt'' (\<lambda>num orig. orig\<lparr>Exemplar_Value := Exemplar_AsInt num\<rparr>)"
  "Exemplar_field 5 = r_message ''TraceId'' TraceID_UnmarshalProto Exemplar_TraceId (\<lambda>v orig. orig\<lparr>Exemplar_TraceId := v\<rparr>)"
  "Exemplar_field 4 = r_message ''SpanId'' SpanID_UnmarshalProto Exemplar_SpanId (\<lambda>v orig. orig\<lparr>Exemplar_SpanId := v\<rparr>)"
  by (simp_all add: Exemplar_field_def)

lemma Exemplar_eta: "\<lparr>Exemplar_Value = Exemplar_Value orig, Exemplar_FilteredAttributes = Exemplar_FilteredAttributes orig, Exemplar_TimeUnixNano = Exemplar_TimeUnixNano orig, Exemplar_TraceId = Exemplar_TraceId orig, Exemplar_SpanId = Exemplar_SpanId orig\<rparr> = (orig :: Exemplar)"
  by (cases orig) simp

lemma Exemplar_Value_reads:
  assumes "Exemplar_Value m = Exemplar_Value_None"
  shows "reads Exemplar_field (Exemplar_Value_bytes d) m (m\<lparr>Exemplar_Value := d\<rparr>)"
proof (cases d rule: Exemplar_Value_bytes.cases)
  case 1
  then show ?thesis using assms by (cases m) (simp add: reads_Nil)
next
  case (2 v)
  then show ?thesis
    using reads_present64 [where h = Exemplar_field and f = 3 and tag = "[0x19]" and v = v and m = m, OF _ Exemplar_fields(3)] by simp
next
  case (3 v)
  then show ?thesis
    using reads_present64 [where h = Exemplar_field and f = 6 and tag = "[0x31]" and v = v and m = m, OF _ Exemplar_fields(4)] by simp
qed

lemmas Exemplar_steps =
  reads_submessages [where h = Exemplar_field and f = 7 and tag = "[0x3a]" and S = "\<lambda>x orig. orig\<lparr>Exemplar_FilteredAttributes := x\<rparr>" and b = KeyValue_bytes, OF _ Exemplar_fields(1), THEN reads_append]
  reads_fixed64 [where h = Exemplar_field and f = 2 and tag = "[0x11]", OF _ Exemplar_fields(2), THEN reads_append]
  Exemplar_Value_reads [THEN reads_append]
  reads_submessage [where h = Exemplar_field and f = 5 and tag = "[0x2a]" and b = TraceID_bytes, OF _ Exemplar_fields(5), THEN reads_append]
  reads_submessage [where h = Exemplar_field and f = 4 and tag = "[0x22]" and b = SpanID_bytes, OF _ Exemplar_fields(6), THEN reads_append]

lemma Exemplar_reads: "Exemplar_wf orig \<Longrightarrow> reads Exemplar_field (Exemplar_bytes orig) Exemplar_zero orig"
  unfolding Exemplar_bytes_def rev.simps append.simps concat.simps
  by (intro Exemplar_steps reads_done)
    (simp_all add: Exemplar_zero_def Exemplar_eta Exemplar_wf_def list_all_iff double_is_zero_def KeyValue_roundtrip SpanID_roundtrip TraceID_roundtrip split: option.splits)

lemma Exemplar_roundtrip:
  "Exemplar_wf orig \<Longrightarrow> length (Exemplar_bytes orig) < 2 ^ 62 \<Longrightarrow> Exemplar_UnmarshalProto (Exemplar_bytes orig) Exemplar_zero = Some (Ok orig)"
  by (simp add: Exemplar_UnmarshalProto_def unmarshal_reads Exemplar_reads)

lemma Exemplar_safe [safe_intros]: "safe_unmarshal Exemplar_UnmarshalProto"
  unfolding Exemplar_UnmarshalProto_def by (rule safe_unmarshal_fields) (auto simp: Exemplar_field_def intro!: safe_intros)

subsection \<open>NumberDataPoint\<close>

datatype NumberDataPoint_Value =
    NumberDataPoint_Value_None
  | NumberDataPoint_AsDouble u64
  | NumberDataPoint_AsInt u64

fun NumberDataPoint_Value_SizeProto :: "NumberDataPoint_Value \<Rightarrow> nat" where
  "NumberDataPoint_Value_SizeProto NumberDataPoint_Value_None = 0"
| "NumberDataPoint_Value_SizeProto (NumberDataPoint_AsDouble v) = 9"
| "NumberDataPoint_Value_SizeProto (NumberDataPoint_AsInt v) = 9"

fun NumberDataPoint_Value_MarshalProto :: "NumberDataPoint_Value \<Rightarrow> writer" where
  "NumberDataPoint_Value_MarshalProto NumberDataPoint_Value_None = Some"
| "NumberDataPoint_Value_MarshalProto (NumberDataPoint_AsDouble v) = w_present64 [0x21] v"
| "NumberDataPoint_Value_MarshalProto (NumberDataPoint_AsInt v) = w_present64 [0x31] v"

fun NumberDataPoint_Value_bytes :: "NumberDataPoint_Value \<Rightarrow> byte list" where
  "NumberDataPoint_Value_bytes NumberDataPoint_Value_None = []"
| "NumberDataPoint_Value_bytes (NumberDataPoint_AsDouble v) = b_present64 [0x21] v"
| "NumberDataPoint_Value_bytes (NumberDataPoint_AsInt v) = b_present64 [0x31] v"

record NumberDataPoint =
  NumberDataPoint_Value :: NumberDataPoint_Value
  NumberDataPoint_Attributes :: "KeyValue list"
  NumberDataPoint_Exemplars :: "Exemplar list"
  NumberDataPoint_StartTimeUnixNano :: u64
  NumberDataPoint_TimeUnixNano :: u64
  NumberDataPoint_Flags :: "32 word"

definition NumberDataPoint_zero :: NumberDataPoint where
  "NumberDataPoint_zero = \<lparr>NumberDataPoint_Value = NumberDataPoint_Value_None, NumberDataPoint_Attributes = [], NumberDataPoint_Exemplars = [], NumberDataPoint_StartTimeUnixNano = 0, NumberDataPoint_TimeUnixNano = 0, NumberDataPoint_Flags = 0\<rparr>"

definition NumberDataPoint_SizeProto :: "NumberDataPoint \<Rightarrow> nat" where
  "NumberDataPoint_SizeProto orig = sum_list [
     \<Sum>x\<leftarrow>NumberDataPoint_Attributes orig. size_len 1 (KeyValue_SizeProto x),
     if NumberDataPoint_StartTimeUnixNano orig \<noteq> 0 then 9 else 0,
     if NumberDataPoint_TimeUnixNano orig \<noteq> 0 then 9 else 0,
     NumberDataPoint_Value_SizeProto (NumberDataPoint_Value orig),
     \<Sum>x\<leftarrow>NumberDataPoint_Exemplars orig. size_len 1 (Exemplar_SizeProto x),
     if NumberDataPoint_Flags orig \<noteq> 0 then 1 + Sov (ucast (NumberDataPoint_Flags orig)) else 0]"

definition NumberDataPoint_MarshalProto :: "NumberDataPoint \<Rightarrow> writer" where
  "NumberDataPoint_MarshalProto orig = writes [
     w_repeated [0x3a] KeyValue_MarshalProto (NumberDataPoint_Attributes orig),
     w_fixed64 [0x11] (NumberDataPoint_StartTimeUnixNano orig),
     w_fixed64 [0x19] (NumberDataPoint_TimeUnixNano orig),
     NumberDataPoint_Value_MarshalProto (NumberDataPoint_Value orig),
     w_repeated [0x2a] Exemplar_MarshalProto (NumberDataPoint_Exemplars orig),
     w_varint [0x40] (ucast (NumberDataPoint_Flags orig))]"

definition NumberDataPoint_field :: "int \<Rightarrow> NumberDataPoint reader" where
  "NumberDataPoint_field fieldNum =
     (if fieldNum = 7 then r_message ''Attributes'' KeyValue_UnmarshalProto (\<lambda>_. (KeyValue [] NoValue 0)) (\<lambda>v orig. orig\<lparr>NumberDataPoint_Attributes := NumberDataPoint_Attributes orig @ [v]\<rparr>)
      else if fieldNum = 2 then r_fixed64 ''StartTimeUnixNano'' (\<lambda>num orig. orig\<lparr>NumberDataPoint_StartTimeUnixNano := num\<rparr>)
      else if fieldNum = 3 then r_fixed64 ''TimeUnixNano'' (\<lambda>num orig. orig\<lparr>NumberDataPoint_TimeUnixNano := num\<rparr>)
      else if fieldNum = 4 then r_fixed64 ''AsDouble'' (\<lambda>num orig. orig\<lparr>NumberDataPoint_Value := NumberDataPoint_AsDouble num\<rparr>)
      else if fieldNum = 6 then r_fixed64 ''AsInt'' (\<lambda>num orig. orig\<lparr>NumberDataPoint_Value := NumberDataPoint_AsInt num\<rparr>)
      else if fieldNum = 5 then r_message ''Exemplars'' Exemplar_UnmarshalProto (\<lambda>_. Exemplar_zero) (\<lambda>v orig. orig\<lparr>NumberDataPoint_Exemplars := NumberDataPoint_Exemplars orig @ [v]\<rparr>)
      else if fieldNum = 8 then r_varint ''Flags'' (\<lambda>num orig. orig\<lparr>NumberDataPoint_Flags := ucast num\<rparr>)
      else r_unknown)"

definition NumberDataPoint_UnmarshalProto :: "byte list \<Rightarrow> NumberDataPoint \<Rightarrow> NumberDataPoint unmarshalled" where
  "NumberDataPoint_UnmarshalProto = unmarshal NumberDataPoint_field"

definition NumberDataPoint_bytes :: "NumberDataPoint \<Rightarrow> byte list" where
  "NumberDataPoint_bytes orig = concat (rev [
     b_repeated [0x3a] (map KeyValue_bytes (NumberDataPoint_Attributes orig)),
     b_fixed64 [0x11] (NumberDataPoint_StartTimeUnixNano orig),
     b_fixed64 [0x19] (NumberDataPoint_TimeUnixNano orig),
     NumberDataPoint_Value_bytes (NumberDataPoint_Value orig),
     b_repeated [0x2a] (map Exemplar_bytes (NumberDataPoint_Exemplars orig)),
     b_varint [0x40] (ucast (NumberDataPoint_Flags orig))])"

definition NumberDataPoint_wf :: "NumberDataPoint \<Rightarrow> bool" where
  "NumberDataPoint_wf orig \<longleftrightarrow> list_all KeyValue_wf (NumberDataPoint_Attributes orig) \<and>
     list_all Exemplar_wf (NumberDataPoint_Exemplars orig)"

lemma emits_NumberDataPoint_Value [emits_intros]: "emits (NumberDataPoint_Value_MarshalProto d) (NumberDataPoint_Value_bytes d)"
  by (cases d rule: NumberDataPoint_Value_bytes.cases) (simp_all add: emits_intros)

lemma NumberDataPoint_Value_size [size_simps]: "length (NumberDataPoint_Value_bytes d) = NumberDataPoint_Value_SizeProto d"
  by (cases d rule: NumberDataPoint_Value_bytes.cases) (simp_all add: size_simps)

lemma emits_NumberDataPoint [emits_intros]: "emits (NumberDataPoint_MarshalProto orig) (NumberDataPoint_bytes orig)"
  unfolding NumberDataPoint_MarshalProto_def NumberDataPoint_bytes_def by (rule emits_writes) (simp add: emits_intros)

lemma NumberDataPoint_size [size_simps]: "length (NumberDataPoint_bytes orig) = NumberDataPoint_SizeProto orig"
  by (simp add: NumberDataPoint_bytes_def NumberDataPoint_SizeProto_def size_simps comp_def)

lemma NumberDataPoint_fields:
  "NumberDataPoint_field 7 = r_message ''Attributes'' KeyValue_UnmarshalProto (\<lambda>_. (KeyValue [] NoValue 0)) (\<lambda>v orig. orig\<lparr>NumberDataPoint_Attributes := NumberDataPoint_Attributes orig @ [v]\<rparr>)"
  "NumberDataPoint_field 2 = r_fixed64 ''StartTimeUnixNano'' (\<lambda>num orig. orig\<lparr>NumberDataPoint_StartTimeUnixNano := num\<rparr>)"
  "NumberDataPoint_field 3 = r_fixed64 ''TimeUnixNano'' (\<lambda>num orig. orig\<lparr>NumberDataPoint_TimeUnixNano := num\<rparr>)"
  "NumberDataPoint_field 4 = r_fixed64 ''AsDouble'' (\<lambda>num orig. orig\<lparr>NumberDataPoint_Value := NumberDataPoint_AsDouble num\<rparr>)"
  "NumberDataPoint_field 6 = r_fixed64 ''AsInt'' (\<lambda>num orig. orig\<lparr>NumberDataPoint_Value := NumberDataPoint_AsInt num\<rparr>)"
  "NumberDataPoint_field 5 = r_message ''Exemplars'' Exemplar_UnmarshalProto (\<lambda>_. Exemplar_zero) (\<lambda>v orig. orig\<lparr>NumberDataPoint_Exemplars := NumberDataPoint_Exemplars orig @ [v]\<rparr>)"
  "NumberDataPoint_field 8 = r_varint ''Flags'' (\<lambda>num orig. orig\<lparr>NumberDataPoint_Flags := ucast num\<rparr>)"
  by (simp_all add: NumberDataPoint_field_def)

lemma NumberDataPoint_eta: "\<lparr>NumberDataPoint_Value = NumberDataPoint_Value orig, NumberDataPoint_Attributes = NumberDataPoint_Attributes orig, NumberDataPoint_Exemplars = NumberDataPoint_Exemplars orig, NumberDataPoint_StartTimeUnixNano = NumberDataPoint_StartTimeUnixNano orig, NumberDataPoint_TimeUnixNano = NumberDataPoint_TimeUnixNano orig, NumberDataPoint_Flags = NumberDataPoint_Flags orig\<rparr> = (orig :: NumberDataPoint)"
  by (cases orig) simp

lemma NumberDataPoint_Value_reads:
  assumes "NumberDataPoint_Value m = NumberDataPoint_Value_None"
  shows "reads NumberDataPoint_field (NumberDataPoint_Value_bytes d) m (m\<lparr>NumberDataPoint_Value := d\<rparr>)"
proof (cases d rule: NumberDataPoint_Value_bytes.cases)
  case 1
  then show ?thesis using assms by (cases m) (simp add: reads_Nil)
next
  case (2 v)
  then show ?thesis
    using reads_present64 [where h = NumberDataPoint_field and f = 4 and tag = "[0x21]" and v = v and m = m, OF _ NumberDataPoint_fields(4)] by simp
next
  case (3 v)
  then show ?thesis
    using reads_present64 [where h = NumberDataPoint_field and f = 6 and tag = "[0x31]" and v = v and m = m, OF _ NumberDataPoint_fields(5)] by simp
qed

lemmas NumberDataPoint_steps =
  reads_submessages [where h = NumberDataPoint_field and f = 7 and tag = "[0x3a]" and S = "\<lambda>x orig. orig\<lparr>NumberDataPoint_Attributes := x\<rparr>" and b = KeyValue_bytes, OF _ NumberDataPoint_fields(1), THEN reads_append]
  reads_fixed64 [where h = NumberDataPoint_field and f = 2 and tag = "[0x11]", OF _ NumberDataPoint_fields(2), THEN reads_append]
  reads_fixed64 [where h = NumberDataPoint_field and f = 3 and tag = "[0x19]", OF _ NumberDataPoint_fields(3), THEN reads_append]
  NumberDataPoint_Value_reads [THEN reads_append]
  reads_submessages [where h = NumberDataPoint_field and f = 5 and tag = "[0x2a]" and S = "\<lambda>x orig. orig\<lparr>NumberDataPoint_Exemplars := x\<rparr>" and b = Exemplar_bytes, OF _ NumberDataPoint_fields(6), THEN reads_append]
  reads_varint [where h = NumberDataPoint_field and f = 8 and tag = "[0x40]", OF _ NumberDataPoint_fields(7), THEN reads_append]

lemma NumberDataPoint_reads: "NumberDataPoint_wf orig \<Longrightarrow> reads NumberDataPoint_field (NumberDataPoint_bytes orig) NumberDataPoint_zero orig"
  unfolding NumberDataPoint_bytes_def rev.simps append.simps concat.simps
  by (intro NumberDataPoint_steps reads_done)
    (simp_all add: NumberDataPoint_zero_def NumberDataPoint_eta NumberDataPoint_wf_def list_all_iff double_is_zero_def Exemplar_roundtrip KeyValue_roundtrip split: option.splits)

lemma NumberDataPoint_roundtrip:
  "NumberDataPoint_wf orig \<Longrightarrow> length (NumberDataPoint_bytes orig) < 2 ^ 62 \<Longrightarrow> NumberDataPoint_UnmarshalProto (NumberDataPoint_bytes orig) NumberDataPoint_zero = Some (Ok orig)"
  by (simp add: NumberDataPoint_UnmarshalProto_def unmarshal_reads NumberDataPoint_reads)

lemma NumberDataPoint_safe [safe_intros]: "safe_unmarshal NumberDataPoint_UnmarshalProto"
  unfolding NumberDataPoint_UnmarshalProto_def by (rule safe_unmarshal_fields) (auto simp: NumberDataPoint_field_def intro!: safe_intros)

subsection \<open>HistogramDataPoint\<close>

record HistogramDataPoint =
  HistogramDataPoint_Attributes :: "KeyValue list"
  HistogramDataPoint_BucketCounts :: "u64 list"
  HistogramDataPoint_ExplicitBounds :: "u64 list"
  HistogramDataPoint_Exemplars :: "Exemplar list"
  HistogramDataPoint_StartTimeUnixNano :: u64
  HistogramDataPoint_TimeUnixNano :: u64
  HistogramDataPoint_Count :: u64
  HistogramDataPoint_Sum :: "u64 option"
  HistogramDataPoint_Min :: "u64 option"
  HistogramDataPoint_Max :: "u64 option"
  HistogramDataPoint_Flags :: "32 word"

definition HistogramDataPoint_zero :: HistogramDataPoint where
  "HistogramDataPoint_zero = \<lparr>HistogramDataPoint_Attributes = [], HistogramDataPoint_BucketCounts = [], HistogramDataPoint_ExplicitBounds = [], HistogramDataPoint_Exemplars = [], HistogramDataPoint_StartTimeUnixNano = 0, HistogramDataPoint_TimeUnixNano = 0, HistogramDataPoint_Count = 0, HistogramDataPoint_Sum = None, HistogramDataPoint_Min = None, HistogramDataPoint_Max = None, HistogramDataPoint_Flags = 0\<rparr>"

definition HistogramDataPoint_SizeProto :: "HistogramDataPoint \<Rightarrow> nat" where
  "HistogramDataPoint_SizeProto orig = sum_list [
     \<Sum>x\<leftarrow>HistogramDataPoint_Attributes orig. size_len 1 (KeyValue_SizeProto x),
     if HistogramDataPoint_StartTimeUnixNano orig \<noteq> 0 then 9 else 0,
     if HistogramDataPoint_TimeUnixNano orig \<noteq> 0 then 9 else 0,
     if HistogramDataPoint_Count orig \<noteq> 0 then 9 else 0,
     if HistogramDataPoint_Sum orig \<noteq> None then 9 else 0,
     size_packed64 1 (HistogramDataPoint_BucketCounts orig),
     size_packed64 1 (HistogramDataPoint_ExplicitBounds orig),
     \<Sum>x\<leftarrow>HistogramDataPoint_Exemplars orig. size_len 1 (Exemplar_SizeProto x),
     if HistogramDataPoint_Flags orig \<noteq> 0 then 1 + Sov (ucast (HistogramDataPoint_Flags orig)) else 0,
     if HistogramDataPoint_Min orig \<noteq> None then 9 else 0,
     if HistogramDataPoint_Max orig \<noteq> None then 9 else 0]"

definition HistogramDataPoint_MarshalProto :: "HistogramDataPoint \<Rightarrow> writer" where
  "HistogramDataPoint_MarshalProto orig = writes [
     w_repeated [0x4a] KeyValue_MarshalProto (HistogramDataPoint_Attributes orig),
     w_fixed64 [0x11] (HistogramDataPoint_StartTimeUnixNano orig),
     w_fixed64 [0x19] (HistogramDataPoint_TimeUnixNano orig),
     w_fixed64 [0x21] (HistogramDataPoint_Count orig),
     w_optional64 [0x29] (HistogramDataPoint_Sum orig),
     w_packed64 [0x32] (HistogramDataPoint_BucketCounts orig),
     w_packed64 [0x3a] (HistogramDataPoint_ExplicitBounds orig),
     w_repeated [0x42] Exemplar_MarshalProto (HistogramDataPoint_Exemplars orig),
     w_varint [0x50] (ucast (HistogramDataPoint_Flags orig)),
     w_optional64 [0x59] (HistogramDataPoint_Min orig),
     w_optional64 [0x61] (HistogramDataPoint_Max orig)]"

definition HistogramDataPoint_field :: "int \<Rightarrow> HistogramDataPoint reader" where
  "HistogramDataPoint_field fieldNum =
     (if fieldNum = 9 then r_message ''Attributes'' KeyValue_UnmarshalProto (\<lambda>_. (KeyValue [] NoValue 0)) (\<lambda>v orig. orig\<lparr>HistogramDataPoint_Attributes := HistogramDataPoint_Attributes orig @ [v]\<rparr>)
      else if fieldNum = 2 then r_fixed64 ''StartTimeUnixNano'' (\<lambda>num orig. orig\<lparr>HistogramDataPoint_StartTimeUnixNano := num\<rparr>)
      else if fieldNum = 3 then r_fixed64 ''TimeUnixNano'' (\<lambda>num orig. orig\<lparr>HistogramDataPoint_TimeUnixNano := num\<rparr>)
      else if fieldNum = 4 then r_fixed64 ''Count'' (\<lambda>num orig. orig\<lparr>HistogramDataPoint_Count := num\<rparr>)
      else if fieldNum = 5 then r_fixed64 ''Sum'' (\<lambda>num orig. orig\<lparr>HistogramDataPoint_Sum := Some num\<rparr>)
      else if fieldNum = 6 then r_packed64 ''BucketCounts'' (\<lambda>nums orig. orig\<lparr>HistogramDataPoint_BucketCounts := nums\<rparr>) (\<lambda>num orig. orig\<lparr>HistogramDataPoint_BucketCounts := HistogramDataPoint_BucketCounts orig @ [num]\<rparr>)
      else if fieldNum = 7 then r_packed64 ''ExplicitBounds'' (\<lambda>nums orig. orig\<lparr>HistogramDataPoint_ExplicitBounds := nums\<rparr>) (\<lambda>num orig. orig\<lparr>HistogramDataPoint_ExplicitBounds := HistogramDataPoint_ExplicitBounds orig @ [num]\<rparr>)
      else if fieldNum = 8 then r_message ''Exemplars'' Exemplar_UnmarshalProto (\<lambda>_. Exemplar_zero) (\<lambda>v orig. orig\<lparr>HistogramDataPoint_Exemplars := HistogramDataPoint_Exemplars orig @ [v]\<rparr>)
      else if fieldNum = 10 then r_varint ''Flags'' (\<lambda>num orig. orig\<lparr>HistogramDataPoint_Flags := ucast num\<rparr>)
      else if fieldNum = 11 then r_fixed64 ''Min'' (\<lambda>num orig. orig\<lparr>HistogramDataPoint_Min := Some num\<rparr>)
      else if fieldNum = 12 then r_fixed64 ''Max'' (\<lambda>num orig. orig\<lparr>HistogramDataPoint_Max := Some num\<rparr>)
      else r_unknown)"

definition HistogramDataPoint_UnmarshalProto :: "byte list \<Rightarrow> HistogramDataPoint \<Rightarrow> HistogramDataPoint unmarshalled" where
  "HistogramDataPoint_UnmarshalProto = unmarshal HistogramDataPoint_field"

definition HistogramDataPoint_bytes :: "HistogramDataPoint \<Rightarrow> byte list" where
  "HistogramDataPoint_bytes orig = concat (rev [
     b_repeated [0x4a] (map KeyValue_bytes (HistogramDataPoint_Attributes orig)),
     b_fixed64 [0x11] (HistogramDataPoint_StartTimeUnixNano orig),
     b_fixed64 [0x19] (HistogramDataPoint_TimeUnixNano orig),
     b_fixed64 [0x21] (HistogramDataPoint_Count orig),
     b_optional64 [0x29] (HistogramDataPoint_Sum orig),
     b_packed64 [0x32] (HistogramDataPoint_BucketCounts orig),
     b_packed64 [0x3a] (HistogramDataPoint_ExplicitBounds orig),
     b_repeated [0x42] (map Exemplar_bytes (HistogramDataPoint_Exemplars orig)),
     b_varint [0x50] (ucast (HistogramDataPoint_Flags orig)),
     b_optional64 [0x59] (HistogramDataPoint_Min orig),
     b_optional64 [0x61] (HistogramDataPoint_Max orig)])"

definition HistogramDataPoint_wf :: "HistogramDataPoint \<Rightarrow> bool" where
  "HistogramDataPoint_wf orig \<longleftrightarrow> list_all KeyValue_wf (HistogramDataPoint_Attributes orig) \<and>
     list_all Exemplar_wf (HistogramDataPoint_Exemplars orig)"

lemma emits_HistogramDataPoint [emits_intros]: "emits (HistogramDataPoint_MarshalProto orig) (HistogramDataPoint_bytes orig)"
  unfolding HistogramDataPoint_MarshalProto_def HistogramDataPoint_bytes_def by (rule emits_writes) (simp add: emits_intros)

lemma HistogramDataPoint_size [size_simps]: "length (HistogramDataPoint_bytes orig) = HistogramDataPoint_SizeProto orig"
  by (simp add: HistogramDataPoint_bytes_def HistogramDataPoint_SizeProto_def size_simps comp_def)

lemma HistogramDataPoint_fields:
  "HistogramDataPoint_field 9 = r_message ''Attributes'' KeyValue_UnmarshalProto (\<lambda>_. (KeyValue [] NoValue 0)) (\<lambda>v orig. orig\<lparr>HistogramDataPoint_Attributes := HistogramDataPoint_Attributes orig @ [v]\<rparr>)"
  "HistogramDataPoint_field 2 = r_fixed64 ''StartTimeUnixNano'' (\<lambda>num orig. orig\<lparr>HistogramDataPoint_StartTimeUnixNano := num\<rparr>)"
  "HistogramDataPoint_field 3 = r_fixed64 ''TimeUnixNano'' (\<lambda>num orig. orig\<lparr>HistogramDataPoint_TimeUnixNano := num\<rparr>)"
  "HistogramDataPoint_field 4 = r_fixed64 ''Count'' (\<lambda>num orig. orig\<lparr>HistogramDataPoint_Count := num\<rparr>)"
  "HistogramDataPoint_field 5 = r_fixed64 ''Sum'' (\<lambda>num orig. orig\<lparr>HistogramDataPoint_Sum := Some num\<rparr>)"
  "HistogramDataPoint_field 6 = r_packed64 ''BucketCounts'' (\<lambda>nums orig. orig\<lparr>HistogramDataPoint_BucketCounts := nums\<rparr>) (\<lambda>num orig. orig\<lparr>HistogramDataPoint_BucketCounts := HistogramDataPoint_BucketCounts orig @ [num]\<rparr>)"
  "HistogramDataPoint_field 7 = r_packed64 ''ExplicitBounds'' (\<lambda>nums orig. orig\<lparr>HistogramDataPoint_ExplicitBounds := nums\<rparr>) (\<lambda>num orig. orig\<lparr>HistogramDataPoint_ExplicitBounds := HistogramDataPoint_ExplicitBounds orig @ [num]\<rparr>)"
  "HistogramDataPoint_field 8 = r_message ''Exemplars'' Exemplar_UnmarshalProto (\<lambda>_. Exemplar_zero) (\<lambda>v orig. orig\<lparr>HistogramDataPoint_Exemplars := HistogramDataPoint_Exemplars orig @ [v]\<rparr>)"
  "HistogramDataPoint_field 10 = r_varint ''Flags'' (\<lambda>num orig. orig\<lparr>HistogramDataPoint_Flags := ucast num\<rparr>)"
  "HistogramDataPoint_field 11 = r_fixed64 ''Min'' (\<lambda>num orig. orig\<lparr>HistogramDataPoint_Min := Some num\<rparr>)"
  "HistogramDataPoint_field 12 = r_fixed64 ''Max'' (\<lambda>num orig. orig\<lparr>HistogramDataPoint_Max := Some num\<rparr>)"
  by (simp_all add: HistogramDataPoint_field_def)

lemma HistogramDataPoint_eta: "\<lparr>HistogramDataPoint_Attributes = HistogramDataPoint_Attributes orig, HistogramDataPoint_BucketCounts = HistogramDataPoint_BucketCounts orig, HistogramDataPoint_ExplicitBounds = HistogramDataPoint_ExplicitBounds orig, HistogramDataPoint_Exemplars = HistogramDataPoint_Exemplars orig, HistogramDataPoint_StartTimeUnixNano = HistogramDataPoint_StartTimeUnixNano orig, HistogramDataPoint_TimeUnixNano = HistogramDataPoint_TimeUnixNano orig, HistogramDataPoint_Count = HistogramDataPoint_Count orig, HistogramDataPoint_Sum = HistogramDataPoint_Sum orig, HistogramDataPoint_Min = HistogramDataPoint_Min orig, HistogramDataPoint_Max = HistogramDataPoint_Max orig, HistogramDataPoint_Flags = HistogramDataPoint_Flags orig\<rparr> = (orig :: HistogramDataPoint)"
  by (cases orig) simp

lemmas HistogramDataPoint_steps =
  reads_submessages [where h = HistogramDataPoint_field and f = 9 and tag = "[0x4a]" and S = "\<lambda>x orig. orig\<lparr>HistogramDataPoint_Attributes := x\<rparr>" and b = KeyValue_bytes, OF _ HistogramDataPoint_fields(1), THEN reads_append]
  reads_fixed64 [where h = HistogramDataPoint_field and f = 2 and tag = "[0x11]", OF _ HistogramDataPoint_fields(2), THEN reads_append]
  reads_fixed64 [where h = HistogramDataPoint_field and f = 3 and tag = "[0x19]", OF _ HistogramDataPoint_fields(3), THEN reads_append]
  reads_fixed64 [where h = HistogramDataPoint_field and f = 4 and tag = "[0x21]", OF _ HistogramDataPoint_fields(4), THEN reads_append]
  reads_optional64 [where h = HistogramDataPoint_field and f = 5 and tag = "[0x29]" and put = "\<lambda>x orig. orig\<lparr>HistogramDataPoint_Sum := x\<rparr>", OF _ HistogramDataPoint_fields(5), THEN reads_append]
  reads_packed64 [where h = HistogramDataPoint_field and f = 6 and tag = "[0x32]", OF _ HistogramDataPoint_fields(6), THEN reads_append]
  reads_packed64 [where h = HistogramDataPoint_field and f = 7 and tag = "[0x3a]", OF _ HistogramDataPoint_fields(7), THEN reads_append]
  reads_submessages [where h = HistogramDataPoint_field and f = 8 and tag = "[0x42]" and S = "\<lambda>x orig. orig\<lparr>HistogramDataPoint_Exemplars := x\<rparr>" and b = Exemplar_bytes, OF _ HistogramDataPoint_fields(8), THEN reads_append]
  reads_varint [where h = HistogramDataPoint_field and f = 10 and tag = "[0x50]", OF _ HistogramDataPoint_fields(9), THEN reads_append]
  reads_optional64 [where h = HistogramDataPoint_field and f = 11 and tag = "[0x59]" and put = "\<lambda>x orig. orig\<lparr>HistogramDataPoint_Min := x\<rparr>", OF _ HistogramDataPoint_fields(10), THEN reads_append]
  reads_optional64 [where h = HistogramDataPoint_field and f = 12 and tag = "[0x61]" and put = "\<lambda>x orig. orig\<lparr>HistogramDataPoint_Max := x\<rparr>", OF _ HistogramDataPoint_fields(11), THEN reads_append]

lemma HistogramDataPoint_reads: "HistogramDataPoint_wf orig \<Longrightarrow> reads HistogramDataPoint_field (HistogramDataPoint_bytes orig) HistogramDataPoint_zero orig"
  unfolding HistogramDataPoint_bytes_def rev.simps append.simps concat.simps
  by (intro HistogramDataPoint_steps reads_done)
    (simp_all add: HistogramDataPoint_zero_def HistogramDataPoint_eta HistogramDataPoint_wf_def list_all_iff double_is_zero_def Exemplar_roundtrip KeyValue_roundtrip split: option.splits)

lemma HistogramDataPoint_roundtrip:
  "HistogramDataPoint_wf orig \<Longrightarrow> length (HistogramDataPoint_bytes orig) < 2 ^ 62 \<Longrightarrow> HistogramDataPoint_UnmarshalProto (HistogramDataPoint_bytes orig) HistogramDataPoint_zero = Some (Ok orig)"
  by (simp add: HistogramDataPoint_UnmarshalProto_def unmarshal_reads HistogramDataPoint_reads)

lemma HistogramDataPoint_safe [safe_intros]: "safe_unmarshal HistogramDataPoint_UnmarshalProto"
  unfolding HistogramDataPoint_UnmarshalProto_def by (rule safe_unmarshal_fields) (auto simp: HistogramDataPoint_field_def intro!: safe_intros)

subsection \<open>ExponentialHistogramDataPointBuckets\<close>

record ExponentialHistogramDataPointBuckets =
  ExponentialHistogramDataPointBuckets_BucketCounts :: "u64 list"
  ExponentialHistogramDataPointBuckets_Offset :: "32 word"

definition ExponentialHistogramDataPointBuckets_zero :: ExponentialHistogramDataPointBuckets where
  "ExponentialHistogramDataPointBuckets_zero = \<lparr>ExponentialHistogramDataPointBuckets_BucketCounts = [], ExponentialHistogramDataPointBuckets_Offset = 0\<rparr>"

definition ExponentialHistogramDataPointBuckets_SizeProto :: "ExponentialHistogramDataPointBuckets \<Rightarrow> nat" where
  "ExponentialHistogramDataPointBuckets_SizeProto orig = sum_list [
     if ExponentialHistogramDataPointBuckets_Offset orig \<noteq> 0 then 1 + Soz (scast (ExponentialHistogramDataPointBuckets_Offset orig)) else 0,
     size_packed_varint 1 (ExponentialHistogramDataPointBuckets_BucketCounts orig)]"

definition ExponentialHistogramDataPointBuckets_MarshalProto :: "ExponentialHistogramDataPointBuckets \<Rightarrow> writer" where
  "ExponentialHistogramDataPointBuckets_MarshalProto orig = writes [
     w_sint32 [0x8] (ExponentialHistogramDataPointBuckets_Offset orig),
     w_packed_varint [0x12] (ExponentialHistogramDataPointBuckets_BucketCounts orig)]"

definition ExponentialHistogramDataPointBuckets_field :: "int \<Rightarrow> ExponentialHistogramDataPointBuckets reader" where
  "ExponentialHistogramDataPointBuckets_field fieldNum =
     (if fieldNum = 1 then r_varint ''Offset'' (\<lambda>num orig. orig\<lparr>ExponentialHistogramDataPointBuckets_Offset := unzigzag32 num\<rparr>)
      else if fieldNum = 2 then r_packed_varint ''BucketCounts'' (\<lambda>nums orig. orig\<lparr>ExponentialHistogramDataPointBuckets_BucketCounts := ExponentialHistogramDataPointBuckets_BucketCounts orig @ nums\<rparr>)
      else r_unknown)"

definition ExponentialHistogramDataPointBuckets_UnmarshalProto :: "byte list \<Rightarrow> ExponentialHistogramDataPointBuckets \<Rightarrow> ExponentialHistogramDataPointBuckets unmarshalled" where
  "ExponentialHistogramDataPointBuckets_UnmarshalProto = unmarshal ExponentialHistogramDataPointBuckets_field"

definition ExponentialHistogramDataPointBuckets_bytes :: "ExponentialHistogramDataPointBuckets \<Rightarrow> byte list" where
  "ExponentialHistogramDataPointBuckets_bytes orig = concat (rev [
     b_sint32 [0x8] (ExponentialHistogramDataPointBuckets_Offset orig),
     b_packed_varint [0x12] (ExponentialHistogramDataPointBuckets_BucketCounts orig)])"

lemma emits_ExponentialHistogramDataPointBuckets [emits_intros]: "emits (ExponentialHistogramDataPointBuckets_MarshalProto orig) (ExponentialHistogramDataPointBuckets_bytes orig)"
  unfolding ExponentialHistogramDataPointBuckets_MarshalProto_def ExponentialHistogramDataPointBuckets_bytes_def by (rule emits_writes) (simp add: emits_intros)

lemma ExponentialHistogramDataPointBuckets_size [size_simps]: "length (ExponentialHistogramDataPointBuckets_bytes orig) = ExponentialHistogramDataPointBuckets_SizeProto orig"
  by (simp add: ExponentialHistogramDataPointBuckets_bytes_def ExponentialHistogramDataPointBuckets_SizeProto_def size_simps comp_def)

lemma ExponentialHistogramDataPointBuckets_fields:
  "ExponentialHistogramDataPointBuckets_field 1 = r_varint ''Offset'' (\<lambda>num orig. orig\<lparr>ExponentialHistogramDataPointBuckets_Offset := unzigzag32 num\<rparr>)"
  "ExponentialHistogramDataPointBuckets_field 2 = r_packed_varint ''BucketCounts'' (\<lambda>nums orig. orig\<lparr>ExponentialHistogramDataPointBuckets_BucketCounts := ExponentialHistogramDataPointBuckets_BucketCounts orig @ nums\<rparr>)"
  by (simp_all add: ExponentialHistogramDataPointBuckets_field_def)

lemma ExponentialHistogramDataPointBuckets_eta: "\<lparr>ExponentialHistogramDataPointBuckets_BucketCounts = ExponentialHistogramDataPointBuckets_BucketCounts orig, ExponentialHistogramDataPointBuckets_Offset = ExponentialHistogramDataPointBuckets_Offset orig\<rparr> = (orig :: ExponentialHistogramDataPointBuckets)"
  by (cases orig) simp

lemmas ExponentialHistogramDataPointBuckets_steps =
  reads_sint32 [where h = ExponentialHistogramDataPointBuckets_field and f = 1 and tag = "[0x8]" and put = "\<lambda>x orig. orig\<lparr>ExponentialHistogramDataPointBuckets_Offset := x\<rparr>", OF _ ExponentialHistogramDataPointBuckets_fields(1), THEN reads_append]
  reads_packed_varint [where h = ExponentialHistogramDataPointBuckets_field and f = 2 and tag = "[0x12]", OF _ ExponentialHistogramDataPointBuckets_fields(2), THEN reads_append]

lemma ExponentialHistogramDataPointBuckets_reads: "reads ExponentialHistogramDataPointBuckets_field (ExponentialHistogramDataPointBuckets_bytes orig) ExponentialHistogramDataPointBuckets_zero orig"
  unfolding ExponentialHistogramDataPointBuckets_bytes_def rev.simps append.simps concat.simps
  by (intro ExponentialHistogramDataPointBuckets_steps reads_done)
    (simp_all add: ExponentialHistogramDataPointBuckets_zero_def ExponentialHistogramDataPointBuckets_eta  split: option.splits)

lemma ExponentialHistogramDataPointBuckets_roundtrip:
  "length (ExponentialHistogramDataPointBuckets_bytes orig) < 2 ^ 62 \<Longrightarrow> ExponentialHistogramDataPointBuckets_UnmarshalProto (ExponentialHistogramDataPointBuckets_bytes orig) ExponentialHistogramDataPointBuckets_zero = Some (Ok orig)"
  by (simp add: ExponentialHistogramDataPointBuckets_UnmarshalProto_def unmarshal_reads ExponentialHistogramDataPointBuckets_reads)

lemma ExponentialHistogramDataPointBuckets_safe [safe_intros]: "safe_unmarshal ExponentialHistogramDataPointBuckets_UnmarshalProto"
  unfolding ExponentialHistogramDataPointBuckets_UnmarshalProto_def by (rule safe_unmarshal_fields) (auto simp: ExponentialHistogramDataPointBuckets_field_def intro!: safe_intros)

subsection \<open>ExponentialHistogramDataPoint\<close>

record ExponentialHistogramDataPoint =
  ExponentialHistogramDataPoint_Positive :: ExponentialHistogramDataPointBuckets
  ExponentialHistogramDataPoint_Negative :: ExponentialHistogramDataPointBuckets
  ExponentialHistogramDataPoint_Attributes :: "KeyValue list"
  ExponentialHistogramDataPoint_Exemplars :: "Exemplar list"
  ExponentialHistogramDataPoint_StartTimeUnixNano :: u64
  ExponentialHistogramDataPoint_TimeUnixNano :: u64
  ExponentialHistogramDataPoint_Count :: u64
  ExponentialHistogramDataPoint_Sum :: "u64 option"
  ExponentialHistogramDataPoint_ZeroCount :: u64
  ExponentialHistogramDataPoint_Min :: "u64 option"
  ExponentialHistogramDataPoint_Max :: "u64 option"
  ExponentialHistogramDataPoint_ZeroThreshold :: u64
  ExponentialHistogramDataPoint_Scale :: "32 word"
  ExponentialHistogramDataPoint_Flags :: "32 word"

definition ExponentialHistogramDataPoint_zero :: ExponentialHistogramDataPoint where
  "ExponentialHistogramDataPoint_zero = \<lparr>ExponentialHistogramDataPoint_Positive = ExponentialHistogramDataPointBuckets_zero, ExponentialHistogramDataPoint_Negative = ExponentialHistogramDataPointBuckets_zero, ExponentialHistogramDataPoint_Attributes = [], ExponentialHistogramDataPoint_Exemplars = [], ExponentialHistogramDataPoint_StartTimeUnixNano = 0, ExponentialHistogramDataPoint_TimeUnixNano = 0, ExponentialHistogramDataPoint_Count = 0, ExponentialHistogramDataPoint_Sum = None, ExponentialHistogramDataPoint_ZeroCount = 0, ExponentialHistogramDataPoint_Min = None, ExponentialHistogramDataPoint_Max = None, ExponentialHistogramDataPoint_ZeroThreshold = 0, ExponentialHistogramDataPoint_Scale = 0, ExponentialHistogramDataPoint_Flags = 0\<rparr>"

definition ExponentialHistogramDataPoint_SizeProto :: "ExponentialHistogramDataPoint \<Rightarrow> nat" where
  "ExponentialHistogramDataPoint_SizeProto orig = sum_list [
     \<Sum>x\<leftarrow>ExponentialHistogramDataPoint_Attributes orig. size_len 1 (KeyValue_SizeProto x),
     if ExponentialHistogramDataPoint_StartTimeUnixNano orig \<noteq> 0 then 9 else 0,
     if ExponentialHistogramDataPoint_TimeUnixNano orig \<noteq> 0 then 9 else 0,
     if ExponentialHistogramDataPoint_Count orig \<noteq> 0 then 9 else 0,
     if ExponentialHistogramDataPoint_Sum orig \<noteq> None then 9 else 0,
     if ExponentialHistogramDataPoint_Scale orig \<noteq> 0 then 1 + Soz (scast (ExponentialHistogramDataPoint_Scale orig)) else 0,
     if ExponentialHistogramDataPoint_ZeroCount orig \<noteq> 0 then 9 else 0,
     size_len 1 (ExponentialHistogramDataPointBuckets_SizeProto (ExponentialHistogramDataPoint_Positive orig)),
     size_len 1 (ExponentialHistogramDataPointBuckets_SizeProto (ExponentialHistogramDataPoint_Negative orig)),
     if ExponentialHistogramDataPoint_Flags orig \<noteq> 0 then 1 + Sov (ucast (ExponentialHistogramDataPoint_Flags orig)) else 0,
     \<Sum>x\<leftarrow>ExponentialHistogramDataPoint_Exemplars orig. size_len 1 (Exemplar_SizeProto x),
     if ExponentialHistogramDataPoint_Min orig \<noteq> None then 9 else 0,
     if ExponentialHistogramDataPoint_Max orig \<noteq> None then 9 else 0,
     if \<not> double_is_zero (ExponentialHistogramDataPoint_ZeroThreshold orig) then 9 else 0]"

definition ExponentialHistogramDataPoint_MarshalProto :: "ExponentialHistogramDataPoint \<Rightarrow> writer" where
  "ExponentialHistogramDataPoint_MarshalProto orig = writes [
     w_repeated [0xa] KeyValue_MarshalProto (ExponentialHistogramDataPoint_Attributes orig),
     w_fixed64 [0x11] (ExponentialHistogramDataPoint_StartTimeUnixNano orig),
     w_fixed64 [0x19] (ExponentialHistogramDataPoint_TimeUnixNano orig),
     w_fixed64 [0x21] (ExponentialHistogramDataPoint_Count orig),
     w_optional64 [0x29] (ExponentialHistogramDataPoint_Sum orig),
     w_sint32 [0x30] (ExponentialHistogramDataPoint_Scale orig),
     w_fixed64 [0x39] (ExponentialHistogramDataPoint_ZeroCount orig),
     w_message [0x42] (ExponentialHistogramDataPointBuckets_MarshalProto (ExponentialHistogramDataPoint_Positive orig)),
     w_message [0x4a] (ExponentialHistogramDataPointBuckets_MarshalProto (ExponentialHistogramDataPoint_Negative orig)),
     w_varint [0x50] (ucast (ExponentialHistogramDataPoint_Flags orig)),
     w_repeated [0x5a] Exemplar_MarshalProto (ExponentialHistogramDataPoint_Exemplars orig),
     w_optional64 [0x61] (ExponentialHistogramDataPoint_Min orig),
     w_optional64 [0x69] (ExponentialHistogramDataPoint_Max orig),
     w_double [0x71] (ExponentialHistogramDataPoint_ZeroThreshold orig)]"

definition ExponentialHistogramDataPoint_field :: "int \<Rightarrow> ExponentialHistogramDataPoint reader" where
  "ExponentialHistogramDataPoint_field fieldNum =
     (if fieldNum = 1 then r_message ''Attributes'' KeyValue_UnmarshalProto (\<lambda>_. (KeyValue [] NoValue 0)) (\<lambda>v orig. orig\<lparr>ExponentialHistogramDataPoint_Attributes := ExponentialHistogramDataPoint_Attributes orig @ [v]\<rparr>)
      else if fieldNum = 2 then r_fixed64 ''StartTimeUnixNano'' (\<lambda>num orig. orig\<lparr>ExponentialHistogramDataPoint_StartTimeUnixNano := num\<rparr>)
      else if fieldNum = 3 then r_fixed64 ''TimeUnixNano'' (\<lambda>num orig. orig\<lparr>ExponentialHistogramDataPoint_TimeUnixNano := num\<rparr>)
      else if fieldNum = 4 then r_fixed64 ''Count'' (\<lambda>num orig. orig\<lparr>ExponentialHistogramDataPoint_Count := num\<rparr>)
      else if fieldNum = 5 then r_fixed64 ''Sum'' (\<lambda>num orig. orig\<lparr>ExponentialHistogramDataPoint_Sum := Some num\<rparr>)
      else if fieldNum = 6 then r_varint ''Scale'' (\<lambda>num orig. orig\<lparr>ExponentialHistogramDataPoint_Scale := unzigzag32 num\<rparr>)
      else if fieldNum = 7 then r_fixed64 ''ZeroCount'' (\<lambda>num orig. orig\<lparr>ExponentialHistogramDataPoint_ZeroCount := num\<rparr>)
      else if fieldNum = 8 then r_message ''Positive'' ExponentialHistogramDataPointBuckets_UnmarshalProto ExponentialHistogramDataPoint_Positive (\<lambda>v orig. orig\<lparr>ExponentialHistogramDataPoint_Positive := v\<rparr>)
      else if fieldNum = 9 then r_message ''Negative'' ExponentialHistogramDataPointBuckets_UnmarshalProto ExponentialHistogramDataPoint_Negative (\<lambda>v orig. orig\<lparr>ExponentialHistogramDataPoint_Negative := v\<rparr>)
      else if fieldNum = 10 then r_varint ''Flags'' (\<lambda>num orig. orig\<lparr>ExponentialHistogramDataPoint_Flags := ucast num\<rparr>)
      else if fieldNum = 11 then r_message ''Exemplars'' Exemplar_UnmarshalProto (\<lambda>_. Exemplar_zero) (\<lambda>v orig. orig\<lparr>ExponentialHistogramDataPoint_Exemplars := ExponentialHistogramDataPoint_Exemplars orig @ [v]\<rparr>)
      else if fieldNum = 12 then r_fixed64 ''Min'' (\<lambda>num orig. orig\<lparr>ExponentialHistogramDataPoint_Min := Some num\<rparr>)
      else if fieldNum = 13 then r_fixed64 ''Max'' (\<lambda>num orig. orig\<lparr>ExponentialHistogramDataPoint_Max := Some num\<rparr>)
      else if fieldNum = 14 then r_fixed64 ''ZeroThreshold'' (\<lambda>num orig. orig\<lparr>ExponentialHistogramDataPoint_ZeroThreshold := num\<rparr>)
      else r_unknown)"

definition ExponentialHistogramDataPoint_UnmarshalProto :: "byte list \<Rightarrow> ExponentialHistogramDataPoint \<Rightarrow> ExponentialHistogramDataPoint unmarshalled" where
  "ExponentialHistogramDataPoint_UnmarshalProto = unmarshal ExponentialHistogramDataPoint_field"

definition ExponentialHistogramDataPoint_bytes :: "ExponentialHistogramDataPoint \<Rightarrow> byte list" where
  "ExponentialHistogramDataPoint_bytes orig = concat (rev [
     b_repeated [0xa] (map KeyValue_bytes (ExponentialHistogramDataPoint_Attributes orig)),
     b_fixed64 [0x11] (ExponentialHistogramDataPoint_StartTimeUnixNano orig),
     b_fixed64 [0x19] (ExponentialHistogramDataPoint_TimeUnixNano orig),
     b_fixed64 [0x21] (ExponentialHistogramDataPoint_Count orig),
     b_optional64 [0x29] (ExponentialHistogramDataPoint_Sum orig),
     b_sint32 [0x30] (ExponentialHistogramDataPoint_Scale orig),
     b_fixed64 [0x39] (ExponentialHistogramDataPoint_ZeroCount orig),
     len_bytes [0x42] (ExponentialHistogramDataPointBuckets_bytes (ExponentialHistogramDataPoint_Positive orig)),
     len_bytes [0x4a] (ExponentialHistogramDataPointBuckets_bytes (ExponentialHistogramDataPoint_Negative orig)),
     b_varint [0x50] (ucast (ExponentialHistogramDataPoint_Flags orig)),
     b_repeated [0x5a] (map Exemplar_bytes (ExponentialHistogramDataPoint_Exemplars orig)),
     b_optional64 [0x61] (ExponentialHistogramDataPoint_Min orig),
     b_optional64 [0x69] (ExponentialHistogramDataPoint_Max orig),
     b_double [0x71] (ExponentialHistogramDataPoint_ZeroThreshold orig)])"

definition ExponentialHistogramDataPoint_wf :: "ExponentialHistogramDataPoint \<Rightarrow> bool" where
  "ExponentialHistogramDataPoint_wf orig \<longleftrightarrow> list_all KeyValue_wf (ExponentialHistogramDataPoint_Attributes orig) \<and>
     list_all Exemplar_wf (ExponentialHistogramDataPoint_Exemplars orig) \<and>
     ExponentialHistogramDataPoint_ZeroThreshold orig \<noteq> 0x8000000000000000"

lemma emits_ExponentialHistogramDataPoint [emits_intros]: "emits (ExponentialHistogramDataPoint_MarshalProto orig) (ExponentialHistogramDataPoint_bytes orig)"
  unfolding ExponentialHistogramDataPoint_MarshalProto_def ExponentialHistogramDataPoint_bytes_def by (rule emits_writes) (simp add: emits_intros)

lemma ExponentialHistogramDataPoint_size [size_simps]: "length (ExponentialHistogramDataPoint_bytes orig) = ExponentialHistogramDataPoint_SizeProto orig"
  by (simp add: ExponentialHistogramDataPoint_bytes_def ExponentialHistogramDataPoint_SizeProto_def size_simps comp_def)

lemma ExponentialHistogramDataPoint_fields:
  "ExponentialHistogramDataPoint_field 1 = r_message ''Attributes'' KeyValue_UnmarshalProto (\<lambda>_. (KeyValue [] NoValue 0)) (\<lambda>v orig. orig\<lparr>ExponentialHistogramDataPoint_Attributes := ExponentialHistogramDataPoint_Attributes orig @ [v]\<rparr>)"
  "ExponentialHistogramDataPoint_field 2 = r_fixed64 ''StartTimeUnixNano'' (\<lambda>num orig. orig\<lparr>ExponentialHistogramDataPoint_StartTimeUnixNano := num\<rparr>)"
  "ExponentialHistogramDataPoint_field 3 = r_fixed64 ''TimeUnixNano'' (\<lambda>num orig. orig\<lparr>ExponentialHistogramDataPoint_TimeUnixNano := num\<rparr>)"
  "ExponentialHistogramDataPoint_field 4 = r_fixed64 ''Count'' (\<lambda>num orig. orig\<lparr>ExponentialHistogramDataPoint_Count := num\<rparr>)"
  "ExponentialHistogramDataPoint_field 5 = r_fixed64 ''Sum'' (\<lambda>num orig. orig\<lparr>ExponentialHistogramDataPoint_Sum := Some num\<rparr>)"
  "ExponentialHistogramDataPoint_field 6 = r_varint ''Scale'' (\<lambda>num orig. orig\<lparr>ExponentialHistogramDataPoint_Scale := unzigzag32 num\<rparr>)"
  "ExponentialHistogramDataPoint_field 7 = r_fixed64 ''ZeroCount'' (\<lambda>num orig. orig\<lparr>ExponentialHistogramDataPoint_ZeroCount := num\<rparr>)"
  "ExponentialHistogramDataPoint_field 8 = r_message ''Positive'' ExponentialHistogramDataPointBuckets_UnmarshalProto ExponentialHistogramDataPoint_Positive (\<lambda>v orig. orig\<lparr>ExponentialHistogramDataPoint_Positive := v\<rparr>)"
  "ExponentialHistogramDataPoint_field 9 = r_message ''Negative'' ExponentialHistogramDataPointBuckets_UnmarshalProto ExponentialHistogramDataPoint_Negative (\<lambda>v orig. orig\<lparr>ExponentialHistogramDataPoint_Negative := v\<rparr>)"
  "ExponentialHistogramDataPoint_field 10 = r_varint ''Flags'' (\<lambda>num orig. orig\<lparr>ExponentialHistogramDataPoint_Flags := ucast num\<rparr>)"
  "ExponentialHistogramDataPoint_field 11 = r_message ''Exemplars'' Exemplar_UnmarshalProto (\<lambda>_. Exemplar_zero) (\<lambda>v orig. orig\<lparr>ExponentialHistogramDataPoint_Exemplars := ExponentialHistogramDataPoint_Exemplars orig @ [v]\<rparr>)"
  "ExponentialHistogramDataPoint_field 12 = r_fixed64 ''Min'' (\<lambda>num orig. orig\<lparr>ExponentialHistogramDataPoint_Min := Some num\<rparr>)"
  "ExponentialHistogramDataPoint_field 13 = r_fixed64 ''Max'' (\<lambda>num orig. orig\<lparr>ExponentialHistogramDataPoint_Max := Some num\<rparr>)"
  "ExponentialHistogramDataPoint_field 14 = r_fixed64 ''ZeroThreshold'' (\<lambda>num orig. orig\<lparr>ExponentialHistogramDataPoint_ZeroThreshold := num\<rparr>)"
  by (simp_all add: ExponentialHistogramDataPoint_field_def)

lemma ExponentialHistogramDataPoint_eta: "\<lparr>ExponentialHistogramDataPoint_Positive = ExponentialHistogramDataPoint_Positive orig, ExponentialHistogramDataPoint_Negative = ExponentialHistogramDataPoint_Negative orig, ExponentialHistogramDataPoint_Attributes = ExponentialHistogramDataPoint_Attributes orig, ExponentialHistogramDataPoint_Exemplars = ExponentialHistogramDataPoint_Exemplars orig, ExponentialHistogramDataPoint_StartTimeUnixNano = ExponentialHistogramDataPoint_StartTimeUnixNano orig, ExponentialHistogramDataPoint_TimeUnixNano = ExponentialHistogramDataPoint_TimeUnixNano orig, ExponentialHistogramDataPoint_Count = ExponentialHistogramDataPoint_Count orig, ExponentialHistogramDataPoint_Sum = ExponentialHistogramDataPoint_Sum orig, ExponentialHistogramDataPoint_ZeroCount = ExponentialHistogramDataPoint_ZeroCount orig, ExponentialHistogramDataPoint_Min = ExponentialHistogramDataPoint_Min orig, ExponentialHistogramDataPoint_Max = ExponentialHistogramDataPoint_Max orig, ExponentialHistogramDataPoint_ZeroThreshold = ExponentialHistogramDataPoint_ZeroThreshold orig, ExponentialHistogramDataPoint_Scale = ExponentialHistogramDataPoint_Scale orig, ExponentialHistogramDataPoint_Flags = ExponentialHistogramDataPoint_Flags orig\<rparr> = (orig :: ExponentialHistogramDataPoint)"
  by (cases orig) simp

lemmas ExponentialHistogramDataPoint_steps =
  reads_submessages [where h = ExponentialHistogramDataPoint_field and f = 1 and tag = "[0xa]" and S = "\<lambda>x orig. orig\<lparr>ExponentialHistogramDataPoint_Attributes := x\<rparr>" and b = KeyValue_bytes, OF _ ExponentialHistogramDataPoint_fields(1), THEN reads_append]
  reads_fixed64 [where h = ExponentialHistogramDataPoint_field and f = 2 and tag = "[0x11]", OF _ ExponentialHistogramDataPoint_fields(2), THEN reads_append]
  reads_fixed64 [where h = ExponentialHistogramDataPoint_field and f = 3 and tag = "[0x19]", OF _ ExponentialHistogramDataPoint_fields(3), THEN reads_append]
  reads_fixed64 [where h = ExponentialHistogramDataPoint_field and f = 4 and tag = "[0x21]", OF _ ExponentialHistogramDataPoint_fields(4), THEN reads_append]
  reads_optional64 [where h = ExponentialHistogramDataPoint_field and f = 5 and tag = "[0x29]" and put = "\<lambda>x orig. orig\<lparr>ExponentialHistogramDataPoint_Sum := x\<rparr>", OF _ ExponentialHistogramDataPoint_fields(5), THEN reads_append]
  reads_sint32 [where h = ExponentialHistogramDataPoint_field and f = 6 and tag = "[0x30]" and put = "\<lambda>x orig. orig\<lparr>ExponentialHistogramDataPoint_Scale := x\<rparr>", OF _ ExponentialHistogramDataPoint_fields(6), THEN reads_append]
  reads_fixed64 [where h = ExponentialHistogramDataPoint_field and f = 7 and tag = "[0x39]", OF _ ExponentialHistogramDataPoint_fields(7), THEN reads_append]
  reads_submessage [where h = ExponentialHistogramDataPoint_field and f = 8 and tag = "[0x42]" and b = ExponentialHistogramDataPointBuckets_bytes, OF _ ExponentialHistogramDataPoint_fields(8), THEN reads_append]
  reads_submessage [where h = ExponentialHistogramDataPoint_field and f = 9 and tag = "[0x4a]" and b = ExponentialHistogramDataPointBuckets_bytes, OF _ ExponentialHistogramDataPoint_fields(9), THEN reads_append]
  reads_varint [where h = ExponentialHistogramDataPoint_field and f = 10 and tag = "[0x50]", OF _ ExponentialHistogramDataPoint_fields(10), THEN reads_append]
  reads_submessages [where h = ExponentialHistogramDataPoint_field and f = 11 and tag = "[0x5a]" and S = "\<lambda>x orig. orig\<lparr>ExponentialHistogramDataPoint_Exemplars := x\<rparr>" and b = Exemplar_bytes, OF _ ExponentialHistogramDataPoint_fields(11), THEN reads_append]
  reads_optional64 [where h = ExponentialHistogramDataPoint_field and f = 12 and tag = "[0x61]" and put = "\<lambda>x orig. orig\<lparr>ExponentialHistogramDataPoint_Min := x\<rparr>", OF _ ExponentialHistogramDataPoint_fields(12), THEN reads_append]
  reads_optional64 [where h = ExponentialHistogramDataPoint_field and f = 13 and tag = "[0x69]" and put = "\<lambda>x orig. orig\<lparr>ExponentialHistogramDataPoint_Max := x\<rparr>", OF _ ExponentialHistogramDataPoint_fields(13), THEN reads_append]
  reads_double [where h = ExponentialHistogramDataPoint_field and f = 14 and tag = "[0x71]", OF _ ExponentialHistogramDataPoint_fields(14), THEN reads_append]

lemma ExponentialHistogramDataPoint_reads: "ExponentialHistogramDataPoint_wf orig \<Longrightarrow> reads ExponentialHistogramDataPoint_field (ExponentialHistogramDataPoint_bytes orig) ExponentialHistogramDataPoint_zero orig"
  unfolding ExponentialHistogramDataPoint_bytes_def rev.simps append.simps concat.simps
  by (intro ExponentialHistogramDataPoint_steps reads_done)
    (simp_all add: ExponentialHistogramDataPoint_zero_def ExponentialHistogramDataPoint_eta ExponentialHistogramDataPoint_wf_def list_all_iff double_is_zero_def Exemplar_roundtrip ExponentialHistogramDataPointBuckets_roundtrip KeyValue_roundtrip split: option.splits)

lemma ExponentialHistogramDataPoint_roundtrip:
  "ExponentialHistogramDataPoint_wf orig \<Longrightarrow> length (ExponentialHistogramDataPoint_bytes orig) < 2 ^ 62 \<Longrightarrow> ExponentialHistogramDataPoint_UnmarshalProto (ExponentialHistogramDataPoint_bytes orig) ExponentialHistogramDataPoint_zero = Some (Ok orig)"
  by (simp add: ExponentialHistogramDataPoint_UnmarshalProto_def unmarshal_reads ExponentialHistogramDataPoint_reads)

lemma ExponentialHistogramDataPoint_safe [safe_intros]: "safe_unmarshal ExponentialHistogramDataPoint_UnmarshalProto"
  unfolding ExponentialHistogramDataPoint_UnmarshalProto_def by (rule safe_unmarshal_fields) (auto simp: ExponentialHistogramDataPoint_field_def intro!: safe_intros)

subsection \<open>SummaryDataPointValueAtQuantile\<close>

record SummaryDataPointValueAtQuantile =
  SummaryDataPointValueAtQuantile_Quantile :: u64
  SummaryDataPointValueAtQuantile_Value :: u64

definition SummaryDataPointValueAtQuantile_zero :: SummaryDataPointValueAtQuantile where
  "SummaryDataPointValueAtQuantile_zero = \<lparr>SummaryDataPointValueAtQuantile_Quantile = 0, SummaryDataPointValueAtQuantile_Value = 0\<rparr>"

definition SummaryDataPointValueAtQuantile_SizeProto :: "SummaryDataPointValueAtQuantile \<Rightarrow> nat" where
  "SummaryDataPointValueAtQuantile_SizeProto orig = sum_list [
     if \<not> double_is_zero (SummaryDataPointValueAtQuantile_Quantile orig) then 9 else 0,
     if \<not> double_is_zero (SummaryDataPointValueAtQuantile_Value orig) then 9 else 0]"

definition SummaryDataPointValueAtQuantile_MarshalProto :: "SummaryDataPointValueAtQuantile \<Rightarrow> writer" where
  "SummaryDataPointValueAtQuantile_MarshalProto orig = writes [
     w_double [0x9] (SummaryDataPointValueAtQuantile_Quantile orig),
     w_double [0x11] (SummaryDataPointValueAtQuantile_Value orig)]"

definition SummaryDataPointValueAtQuantile_field :: "int \<Rightarrow> SummaryDataPointValueAtQuantile reader" where
  "SummaryDataPointValueAtQuantile_field fieldNum =
     (if fieldNum = 1 then r_fixed64 ''Quantile'' (\<lambda>num orig. orig\<lparr>SummaryDataPointValueAtQuantile_Quantile := num\<rparr>)
      else if fieldNum = 2 then r_fixed64 ''Value'' (\<lambda>num orig. orig\<lparr>SummaryDataPointValueAtQuantile_Value := num\<rparr>)
      else r_unknown)"

definition SummaryDataPointValueAtQuantile_UnmarshalProto :: "byte list \<Rightarrow> SummaryDataPointValueAtQuantile \<Rightarrow> SummaryDataPointValueAtQuantile unmarshalled" where
  "SummaryDataPointValueAtQuantile_UnmarshalProto = unmarshal SummaryDataPointValueAtQuantile_field"

definition SummaryDataPointValueAtQuantile_bytes :: "SummaryDataPointValueAtQuantile \<Rightarrow> byte list" where
  "SummaryDataPointValueAtQuantile_bytes orig = concat (rev [
     b_double [0x9] (SummaryDataPointValueAtQuantile_Quantile orig),
     b_double [0x11] (SummaryDataPointValueAtQuantile_Value orig)])"

definition SummaryDataPointValueAtQuantile_wf :: "SummaryDataPointValueAtQuantile \<Rightarrow> bool" where
  "SummaryDataPointValueAtQuantile_wf orig \<longleftrightarrow> SummaryDataPointValueAtQuantile_Quantile orig \<noteq> 0x8000000000000000 \<and>
     SummaryDataPointValueAtQuantile_Value orig \<noteq> 0x8000000000000000"

lemma emits_SummaryDataPointValueAtQuantile [emits_intros]: "emits (SummaryDataPointValueAtQuantile_MarshalProto orig) (SummaryDataPointValueAtQuantile_bytes orig)"
  unfolding SummaryDataPointValueAtQuantile_MarshalProto_def SummaryDataPointValueAtQuantile_bytes_def by (rule emits_writes) (simp add: emits_intros)

lemma SummaryDataPointValueAtQuantile_size [size_simps]: "length (SummaryDataPointValueAtQuantile_bytes orig) = SummaryDataPointValueAtQuantile_SizeProto orig"
  by (simp add: SummaryDataPointValueAtQuantile_bytes_def SummaryDataPointValueAtQuantile_SizeProto_def size_simps comp_def)

lemma SummaryDataPointValueAtQuantile_fields:
  "SummaryDataPointValueAtQuantile_field 1 = r_fixed64 ''Quantile'' (\<lambda>num orig. orig\<lparr>SummaryDataPointValueAtQuantile_Quantile := num\<rparr>)"
  "SummaryDataPointValueAtQuantile_field 2 = r_fixed64 ''Value'' (\<lambda>num orig. orig\<lparr>SummaryDataPointValueAtQuantile_Value := num\<rparr>)"
  by (simp_all add: SummaryDataPointValueAtQuantile_field_def)

lemma SummaryDataPointValueAtQuantile_eta: "\<lparr>SummaryDataPointValueAtQuantile_Quantile = SummaryDataPointValueAtQuantile_Quantile orig, SummaryDataPointValueAtQuantile_Value = SummaryDataPointValueAtQuantile_Value orig\<rparr> = (orig :: SummaryDataPointValueAtQuantile)"
  by (cases orig) simp

lemmas SummaryDataPointValueAtQuantile_steps =
  reads_double [where h = SummaryDataPointValueAtQuantile_field and f = 1 and tag = "[0x9]", OF _ SummaryDataPointValueAtQuantile_fields(1), THEN reads_append]
  reads_double [where h = SummaryDataPointValueAtQuantile_field and f = 2 and tag = "[0x11]", OF _ SummaryDataPointValueAtQuantile_fields(2), THEN reads_append]

lemma SummaryDataPointValueAtQuantile_reads: "SummaryDataPointValueAtQuantile_wf orig \<Longrightarrow> reads SummaryDataPointValueAtQuantile_field (SummaryDataPointValueAtQuantile_bytes orig) SummaryDataPointValueAtQuantile_zero orig"
  unfolding SummaryDataPointValueAtQuantile_bytes_def rev.simps append.simps concat.simps
  by (intro SummaryDataPointValueAtQuantile_steps reads_done)
    (simp_all add: SummaryDataPointValueAtQuantile_zero_def SummaryDataPointValueAtQuantile_eta SummaryDataPointValueAtQuantile_wf_def list_all_iff double_is_zero_def  split: option.splits)

lemma SummaryDataPointValueAtQuantile_roundtrip:
  "SummaryDataPointValueAtQuantile_wf orig \<Longrightarrow> length (SummaryDataPointValueAtQuantile_bytes orig) < 2 ^ 62 \<Longrightarrow> SummaryDataPointValueAtQuantile_UnmarshalProto (SummaryDataPointValueAtQuantile_bytes orig) SummaryDataPointValueAtQuantile_zero = Some (Ok orig)"
  by (simp add: SummaryDataPointValueAtQuantile_UnmarshalProto_def unmarshal_reads SummaryDataPointValueAtQuantile_reads)

lemma SummaryDataPointValueAtQuantile_safe [safe_intros]: "safe_unmarshal SummaryDataPointValueAtQuantile_UnmarshalProto"
  unfolding SummaryDataPointValueAtQuantile_UnmarshalProto_def by (rule safe_unmarshal_fields) (auto simp: SummaryDataPointValueAtQuantile_field_def intro!: safe_intros)

subsection \<open>SummaryDataPoint\<close>

record SummaryDataPoint =
  SummaryDataPoint_Attributes :: "KeyValue list"
  SummaryDataPoint_QuantileValues :: "SummaryDataPointValueAtQuantile list"
  SummaryDataPoint_StartTimeUnixNano :: u64
  SummaryDataPoint_TimeUnixNano :: u64
  SummaryDataPoint_Count :: u64
  SummaryDataPoint_Sum :: u64
  SummaryDataPoint_Flags :: "32 word"

definition SummaryDataPoint_zero :: SummaryDataPoint where
  "SummaryDataPoint_zero = \<lparr>SummaryDataPoint_Attributes = [], SummaryDataPoint_QuantileValues = [], SummaryDataPoint_StartTimeUnixNano = 0, SummaryDataPoint_TimeUnixNano = 0, SummaryDataPoint_Count = 0, SummaryDataPoint_Sum = 0, SummaryDataPoint_Flags = 0\<rparr>"

definition SummaryDataPoint_SizeProto :: "SummaryDataPoint \<Rightarrow> nat" where
  "SummaryDataPoint_SizeProto orig = sum_list [
     \<Sum>x\<leftarrow>SummaryDataPoint_Attributes orig. size_len 1 (KeyValue_SizeProto x),
     if SummaryDataPoint_StartTimeUnixNano orig \<noteq> 0 then 9 else 0,
     if SummaryDataPoint_TimeUnixNano orig \<noteq> 0 then 9 else 0,
     if SummaryDataPoint_Count orig \<noteq> 0 then 9 else 0,
     if \<not> double_is_zero (SummaryDataPoint_Sum orig) then 9 else 0,
     \<Sum>x\<leftarrow>SummaryDataPoint_QuantileValues orig. size_len 1 (SummaryDataPointValueAtQuantile_SizeProto x),
     if SummaryDataPoint_Flags orig \<noteq> 0 then 1 + Sov (ucast (SummaryDataPoint_Flags orig)) else 0]"

definition SummaryDataPoint_MarshalProto :: "SummaryDataPoint \<Rightarrow> writer" where
  "SummaryDataPoint_MarshalProto orig = writes [
     w_repeated [0x3a] KeyValue_MarshalProto (SummaryDataPoint_Attributes orig),
     w_fixed64 [0x11] (SummaryDataPoint_StartTimeUnixNano orig),
     w_fixed64 [0x19] (SummaryDataPoint_TimeUnixNano orig),
     w_fixed64 [0x21] (SummaryDataPoint_Count orig),
     w_double [0x29] (SummaryDataPoint_Sum orig),
     w_repeated [0x32] SummaryDataPointValueAtQuantile_MarshalProto (SummaryDataPoint_QuantileValues orig),
     w_varint [0x40] (ucast (SummaryDataPoint_Flags orig))]"

definition SummaryDataPoint_field :: "int \<Rightarrow> SummaryDataPoint reader" where
  "SummaryDataPoint_field fieldNum =
     (if fieldNum = 7 then r_message ''Attributes'' KeyValue_UnmarshalProto (\<lambda>_. (KeyValue [] NoValue 0)) (\<lambda>v orig. orig\<lparr>SummaryDataPoint_Attributes := SummaryDataPoint_Attributes orig @ [v]\<rparr>)
      else if fieldNum = 2 then r_fixed64 ''StartTimeUnixNano'' (\<lambda>num orig. orig\<lparr>SummaryDataPoint_StartTimeUnixNano := num\<rparr>)
      else if fieldNum = 3 then r_fixed64 ''TimeUnixNano'' (\<lambda>num orig. orig\<lparr>SummaryDataPoint_TimeUnixNano := num\<rparr>)
      else if fieldNum = 4 then r_fixed64 ''Count'' (\<lambda>num orig. orig\<lparr>SummaryDataPoint_Count := num\<rparr>)
      else if fieldNum = 5 then r_fixed64 ''Sum'' (\<lambda>num orig. orig\<lparr>SummaryDataPoint_Sum := num\<rparr>)
      else if fieldNum = 6 then r_message ''QuantileValues'' SummaryDataPointValueAtQuantile_UnmarshalProto (\<lambda>_. SummaryDataPointValueAtQuantile_zero) (\<lambda>v orig. orig\<lparr>SummaryDataPoint_QuantileValues := SummaryDataPoint_QuantileValues orig @ [v]\<rparr>)
      else if fieldNum = 8 then r_varint ''Flags'' (\<lambda>num orig. orig\<lparr>SummaryDataPoint_Flags := ucast num\<rparr>)
      else r_unknown)"

definition SummaryDataPoint_UnmarshalProto :: "byte list \<Rightarrow> SummaryDataPoint \<Rightarrow> SummaryDataPoint unmarshalled" where
  "SummaryDataPoint_UnmarshalProto = unmarshal SummaryDataPoint_field"

definition SummaryDataPoint_bytes :: "SummaryDataPoint \<Rightarrow> byte list" where
  "SummaryDataPoint_bytes orig = concat (rev [
     b_repeated [0x3a] (map KeyValue_bytes (SummaryDataPoint_Attributes orig)),
     b_fixed64 [0x11] (SummaryDataPoint_StartTimeUnixNano orig),
     b_fixed64 [0x19] (SummaryDataPoint_TimeUnixNano orig),
     b_fixed64 [0x21] (SummaryDataPoint_Count orig),
     b_double [0x29] (SummaryDataPoint_Sum orig),
     b_repeated [0x32] (map SummaryDataPointValueAtQuantile_bytes (SummaryDataPoint_QuantileValues orig)),
     b_varint [0x40] (ucast (SummaryDataPoint_Flags orig))])"

definition SummaryDataPoint_wf :: "SummaryDataPoint \<Rightarrow> bool" where
  "SummaryDataPoint_wf orig \<longleftrightarrow> list_all KeyValue_wf (SummaryDataPoint_Attributes orig) \<and>
     SummaryDataPoint_Sum orig \<noteq> 0x8000000000000000 \<and>
     list_all SummaryDataPointValueAtQuantile_wf (SummaryDataPoint_QuantileValues orig)"

lemma emits_SummaryDataPoint [emits_intros]: "emits (SummaryDataPoint_MarshalProto orig) (SummaryDataPoint_bytes orig)"
  unfolding SummaryDataPoint_MarshalProto_def SummaryDataPoint_bytes_def by (rule emits_writes) (simp add: emits_intros)

lemma SummaryDataPoint_size [size_simps]: "length (SummaryDataPoint_bytes orig) = SummaryDataPoint_SizeProto orig"
  by (simp add: SummaryDataPoint_bytes_def SummaryDataPoint_SizeProto_def size_simps comp_def)

lemma SummaryDataPoint_fields:
  "SummaryDataPoint_field 7 = r_message ''Attributes'' KeyValue_UnmarshalProto (\<lambda>_. (KeyValue [] NoValue 0)) (\<lambda>v orig. orig\<lparr>SummaryDataPoint_Attributes := SummaryDataPoint_Attributes orig @ [v]\<rparr>)"
  "SummaryDataPoint_field 2 = r_fixed64 ''StartTimeUnixNano'' (\<lambda>num orig. orig\<lparr>SummaryDataPoint_StartTimeUnixNano := num\<rparr>)"
  "SummaryDataPoint_field 3 = r_fixed64 ''TimeUnixNano'' (\<lambda>num orig. orig\<lparr>SummaryDataPoint_TimeUnixNano := num\<rparr>)"
  "SummaryDataPoint_field 4 = r_fixed64 ''Count'' (\<lambda>num orig. orig\<lparr>SummaryDataPoint_Count := num\<rparr>)"
  "SummaryDataPoint_field 5 = r_fixed64 ''Sum'' (\<lambda>num orig. orig\<lparr>SummaryDataPoint_Sum := num\<rparr>)"
  "SummaryDataPoint_field 6 = r_message ''QuantileValues'' SummaryDataPointValueAtQuantile_UnmarshalProto (\<lambda>_. SummaryDataPointValueAtQuantile_zero) (\<lambda>v orig. orig\<lparr>SummaryDataPoint_QuantileValues := SummaryDataPoint_QuantileValues orig @ [v]\<rparr>)"
  "SummaryDataPoint_field 8 = r_varint ''Flags'' (\<lambda>num orig. orig\<lparr>SummaryDataPoint_Flags := ucast num\<rparr>)"
  by (simp_all add: SummaryDataPoint_field_def)

lemma SummaryDataPoint_eta: "\<lparr>SummaryDataPoint_Attributes = SummaryDataPoint_Attributes orig, SummaryDataPoint_QuantileValues = SummaryDataPoint_QuantileValues orig, SummaryDataPoint_StartTimeUnixNano = SummaryDataPoint_StartTimeUnixNano orig, SummaryDataPoint_TimeUnixNano = SummaryDataPoint_TimeUnixNano orig, SummaryDataPoint_Count = SummaryDataPoint_Count orig, SummaryDataPoint_Sum = SummaryDataPoint_Sum orig, SummaryDataPoint_Flags = SummaryDataPoint_Flags orig\<rparr> = (orig :: SummaryDataPoint)"
  by (cases orig) simp

lemmas SummaryDataPoint_steps =
  reads_submessages [where h = SummaryDataPoint_field and f = 7 and tag = "[0x3a]" and S = "\<lambda>x orig. orig\<lparr>SummaryDataPoint_Attributes := x\<rparr>" and b = KeyValue_bytes, OF _ SummaryDataPoint_fields(1), THEN reads_append]
  reads_fixed64 [where h = SummaryDataPoint_field and f = 2 and tag = "[0x11]", OF _ SummaryDataPoint_fields(2), THEN reads_append]
  reads_fixed64 [where h = SummaryDataPoint_field and f = 3 and tag = "[0x19]", OF _ SummaryDataPoint_fields(3), THEN reads_append]
  reads_fixed64 [where h = SummaryDataPoint_field and f = 4 and tag = "[0x21]", OF _ SummaryDataPoint_fields(4), THEN reads_append]
  reads_double [where h = SummaryDataPoint_field and f = 5 and tag = "[0x29]", OF _ SummaryDataPoint_fields(5), THEN reads_append]
  reads_submessages [where h = SummaryDataPoint_field and f = 6 and tag = "[0x32]" and S = "\<lambda>x orig. orig\<lparr>SummaryDataPoint_QuantileValues := x\<rparr>" and b = SummaryDataPointValueAtQuantile_bytes, OF _ SummaryDataPoint_fields(6), THEN reads_append]
  reads_varint [where h = SummaryDataPoint_field and f = 8 and tag = "[0x40]", OF _ SummaryDataPoint_fields(7), THEN reads_append]

lemma SummaryDataPoint_reads: "SummaryDataPoint_wf orig \<Longrightarrow> reads SummaryDataPoint_field (SummaryDataPoint_bytes orig) SummaryDataPoint_zero orig"
  unfolding SummaryDataPoint_bytes_def rev.simps append.simps concat.simps
  by (intro SummaryDataPoint_steps reads_done)
    (simp_all add: SummaryDataPoint_zero_def SummaryDataPoint_eta SummaryDataPoint_wf_def list_all_iff double_is_zero_def KeyValue_roundtrip SummaryDataPointValueAtQuantile_roundtrip split: option.splits)

lemma SummaryDataPoint_roundtrip:
  "SummaryDataPoint_wf orig \<Longrightarrow> length (SummaryDataPoint_bytes orig) < 2 ^ 62 \<Longrightarrow> SummaryDataPoint_UnmarshalProto (SummaryDataPoint_bytes orig) SummaryDataPoint_zero = Some (Ok orig)"
  by (simp add: SummaryDataPoint_UnmarshalProto_def unmarshal_reads SummaryDataPoint_reads)

lemma SummaryDataPoint_safe [safe_intros]: "safe_unmarshal SummaryDataPoint_UnmarshalProto"
  unfolding SummaryDataPoint_UnmarshalProto_def by (rule safe_unmarshal_fields) (auto simp: SummaryDataPoint_field_def intro!: safe_intros)

subsection \<open>Gauge\<close>

record Gauge =
  Gauge_DataPoints :: "NumberDataPoint list"

definition Gauge_zero :: Gauge where
  "Gauge_zero = \<lparr>Gauge_DataPoints = []\<rparr>"

definition Gauge_SizeProto :: "Gauge \<Rightarrow> nat" where
  "Gauge_SizeProto orig = sum_list [
     \<Sum>x\<leftarrow>Gauge_DataPoints orig. size_len 1 (NumberDataPoint_SizeProto x)]"

definition Gauge_MarshalProto :: "Gauge \<Rightarrow> writer" where
  "Gauge_MarshalProto orig = writes [
     w_repeated [0xa] NumberDataPoint_MarshalProto (Gauge_DataPoints orig)]"

definition Gauge_field :: "int \<Rightarrow> Gauge reader" where
  "Gauge_field fieldNum =
     (if fieldNum = 1 then r_message ''DataPoints'' NumberDataPoint_UnmarshalProto (\<lambda>_. NumberDataPoint_zero) (\<lambda>v orig. orig\<lparr>Gauge_DataPoints := Gauge_DataPoints orig @ [v]\<rparr>)
      else r_unknown)"

definition Gauge_UnmarshalProto :: "byte list \<Rightarrow> Gauge \<Rightarrow> Gauge unmarshalled" where
  "Gauge_UnmarshalProto = unmarshal Gauge_field"

definition Gauge_bytes :: "Gauge \<Rightarrow> byte list" where
  "Gauge_bytes orig = concat (rev [
     b_repeated [0xa] (map NumberDataPoint_bytes (Gauge_DataPoints orig))])"

definition Gauge_wf :: "Gauge \<Rightarrow> bool" where
  "Gauge_wf orig \<longleftrightarrow> list_all NumberDataPoint_wf (Gauge_DataPoints orig)"

lemma emits_Gauge [emits_intros]: "emits (Gauge_MarshalProto orig) (Gauge_bytes orig)"
  unfolding Gauge_MarshalProto_def Gauge_bytes_def by (rule emits_writes) (simp add: emits_intros)

lemma Gauge_size [size_simps]: "length (Gauge_bytes orig) = Gauge_SizeProto orig"
  by (simp add: Gauge_bytes_def Gauge_SizeProto_def size_simps comp_def)

lemma Gauge_fields:
  "Gauge_field 1 = r_message ''DataPoints'' NumberDataPoint_UnmarshalProto (\<lambda>_. NumberDataPoint_zero) (\<lambda>v orig. orig\<lparr>Gauge_DataPoints := Gauge_DataPoints orig @ [v]\<rparr>)"
  by (simp_all add: Gauge_field_def)

lemma Gauge_eta: "\<lparr>Gauge_DataPoints = Gauge_DataPoints orig\<rparr> = (orig :: Gauge)"
  by (cases orig) simp

lemmas Gauge_steps =
  reads_submessages [where h = Gauge_field and f = 1 and tag = "[0xa]" and S = "\<lambda>x orig. orig\<lparr>Gauge_DataPoints := x\<rparr>" and b = NumberDataPoint_bytes, OF _ Gauge_fields, THEN reads_append]

lemma Gauge_reads: "Gauge_wf orig \<Longrightarrow> reads Gauge_field (Gauge_bytes orig) Gauge_zero orig"
  unfolding Gauge_bytes_def rev.simps append.simps concat.simps
  by (intro Gauge_steps reads_done)
    (simp_all add: Gauge_zero_def Gauge_eta Gauge_wf_def list_all_iff double_is_zero_def NumberDataPoint_roundtrip split: option.splits)

lemma Gauge_roundtrip:
  "Gauge_wf orig \<Longrightarrow> length (Gauge_bytes orig) < 2 ^ 62 \<Longrightarrow> Gauge_UnmarshalProto (Gauge_bytes orig) Gauge_zero = Some (Ok orig)"
  by (simp add: Gauge_UnmarshalProto_def unmarshal_reads Gauge_reads)

lemma Gauge_safe [safe_intros]: "safe_unmarshal Gauge_UnmarshalProto"
  unfolding Gauge_UnmarshalProto_def by (rule safe_unmarshal_fields) (auto simp: Gauge_field_def intro!: safe_intros)

subsection \<open>Sum\<close>

record Sum_msg =
  Sum_msg_DataPoints :: "NumberDataPoint list"
  Sum_msg_AggregationTemporality :: "32 word"
  Sum_msg_IsMonotonic :: bool

definition Sum_msg_zero :: Sum_msg where
  "Sum_msg_zero = \<lparr>Sum_msg_DataPoints = [], Sum_msg_AggregationTemporality = 0, Sum_msg_IsMonotonic = False\<rparr>"

definition Sum_msg_SizeProto :: "Sum_msg \<Rightarrow> nat" where
  "Sum_msg_SizeProto orig = sum_list [
     \<Sum>x\<leftarrow>Sum_msg_DataPoints orig. size_len 1 (NumberDataPoint_SizeProto x),
     if Sum_msg_AggregationTemporality orig \<noteq> 0 then 1 + Sov (scast (Sum_msg_AggregationTemporality orig)) else 0,
     if Sum_msg_IsMonotonic orig then 2 else 0]"

definition Sum_msg_MarshalProto :: "Sum_msg \<Rightarrow> writer" where
  "Sum_msg_MarshalProto orig = writes [
     w_repeated [0xa] NumberDataPoint_MarshalProto (Sum_msg_DataPoints orig),
     w_varint [0x10] (scast (Sum_msg_AggregationTemporality orig)),
     w_bool [0x18] (Sum_msg_IsMonotonic orig)]"

definition Sum_msg_field :: "int \<Rightarrow> Sum_msg reader" where
  "Sum_msg_field fieldNum =
     (if fieldNum = 1 then r_message ''DataPoints'' NumberDataPoint_UnmarshalProto (\<lambda>_. NumberDataPoint_zero) (\<lambda>v orig. orig\<lparr>Sum_msg_DataPoints := Sum_msg_DataPoints orig @ [v]\<rparr>)
      else if fieldNum = 2 then r_varint ''AggregationTemporality'' (\<lambda>num orig. orig\<lparr>Sum_msg_AggregationTemporality := ucast num\<rparr>)
      else if fieldNum = 3 then r_varint ''IsMonotonic'' (\<lambda>num orig. orig\<lparr>Sum_msg_IsMonotonic := num \<noteq> 0\<rparr>)
      else r_unknown)"

definition Sum_msg_UnmarshalProto :: "byte list \<Rightarrow> Sum_msg \<Rightarrow> Sum_msg unmarshalled" where
  "Sum_msg_UnmarshalProto = unmarshal Sum_msg_field"

definition Sum_msg_bytes :: "Sum_msg \<Rightarrow> byte list" where
  "Sum_msg_bytes orig = concat (rev [
     b_repeated [0xa] (map NumberDataPoint_bytes (Sum_msg_DataPoints orig)),
     b_varint [0x10] (scast (Sum_msg_AggregationTemporality orig)),
     b_bool [0x18] (Sum_msg_IsMonotonic orig)])"

definition Sum_msg_wf :: "Sum_msg \<Rightarrow> bool" where
  "Sum_msg_wf orig \<longleftrightarrow> list_all NumberDataPoint_wf (Sum_msg_DataPoints orig)"

lemma emits_Sum_msg [emits_intros]: "emits (Sum_msg_MarshalProto orig) (Sum_msg_bytes orig)"
  unfolding Sum_msg_MarshalProto_def Sum_msg_bytes_def by (rule emits_writes) (simp add: emits_intros)

lemma Sum_msg_size [size_simps]: "length (Sum_msg_bytes orig) = Sum_msg_SizeProto orig"
  by (simp add: Sum_msg_bytes_def Sum_msg_SizeProto_def size_simps comp_def)

lemma Sum_msg_fields:
  "Sum_msg_field 1 = r_message ''DataPoints'' NumberDataPoint_UnmarshalProto (\<lambda>_. NumberDataPoint_zero) (\<lambda>v orig. orig\<lparr>Sum_msg_DataPoints := Sum_msg_DataPoints orig @ [v]\<rparr>)"
  "Sum_msg_field 2 = r_varint ''AggregationTemporality'' (\<lambda>num orig. orig\<lparr>Sum_msg_AggregationTemporality := ucast num\<rparr>)"
  "Sum_msg_field 3 = r_varint ''IsMonotonic'' (\<lambda>num orig. orig\<lparr>Sum_msg_IsMonotonic := num \<noteq> 0\<rparr>)"
  by (simp_all add: Sum_msg_field_def)

lemma Sum_msg_eta: "\<lparr>Sum_msg_DataPoints = Sum_msg_DataPoints orig, Sum_msg_AggregationTemporality = Sum_msg_AggregationTemporality orig, Sum_msg_IsMonotonic = Sum_msg_IsMonotonic orig\<rparr> = (orig :: Sum_msg)"
  by (cases orig) simp

lemmas Sum_msg_steps =
  reads_submessages [where h = Sum_msg_field and f = 1 and tag = "[0xa]" and S = "\<lambda>x orig. orig\<lparr>Sum_msg_DataPoints := x\<rparr>" and b = NumberDataPoint_bytes, OF _ Sum_msg_fields(1), THEN reads_append]
  reads_varint [where h = Sum_msg_field and f = 2 and tag = "[0x10]", OF _ Sum_msg_fields(2), THEN reads_append]
  reads_bool [where h = Sum_msg_field and f = 3 and tag = "[0x18]" and put = "\<lambda>x orig. orig\<lparr>Sum_msg_IsMonotonic := x\<rparr>", OF _ Sum_msg_fields(3), THEN reads_append]

lemma Sum_msg_reads: "Sum_msg_wf orig \<Longrightarrow> reads Sum_msg_field (Sum_msg_bytes orig) Sum_msg_zero orig"
  unfolding Sum_msg_bytes_def rev.simps append.simps concat.simps
  by (intro Sum_msg_steps reads_done)
    (simp_all add: Sum_msg_zero_def Sum_msg_eta Sum_msg_wf_def list_all_iff double_is_zero_def NumberDataPoint_roundtrip split: option.splits)

lemma Sum_msg_roundtrip:
  "Sum_msg_wf orig \<Longrightarrow> length (Sum_msg_bytes orig) < 2 ^ 62 \<Longrightarrow> Sum_msg_UnmarshalProto (Sum_msg_bytes orig) Sum_msg_zero = Some (Ok orig)"
  by (simp add: Sum_msg_UnmarshalProto_def unmarshal_reads Sum_msg_reads)

lemma Sum_msg_safe [safe_intros]: "safe_unmarshal Sum_msg_UnmarshalProto"
  unfolding Sum_msg_UnmarshalProto_def by (rule safe_unmarshal_fields) (auto simp: Sum_msg_field_def intro!: safe_intros)

subsection \<open>Histogram\<close>

record Histogram =
  Histogram_DataPoints :: "HistogramDataPoint list"
  Histogram_AggregationTemporality :: "32 word"

definition Histogram_zero :: Histogram where
  "Histogram_zero = \<lparr>Histogram_DataPoints = [], Histogram_AggregationTemporality = 0\<rparr>"

definition Histogram_SizeProto :: "Histogram \<Rightarrow> nat" where
  "Histogram_SizeProto orig = sum_list [
     \<Sum>x\<leftarrow>Histogram_DataPoints orig. size_len 1 (HistogramDataPoint_SizeProto x),
     if Histogram_AggregationTemporality orig \<noteq> 0 then 1 + Sov (scast (Histogram_AggregationTemporality orig)) else 0]"

definition Histogram_MarshalProto :: "Histogram \<Rightarrow> writer" where
  "Histogram_MarshalProto orig = writes [
     w_repeated [0xa] HistogramDataPoint_MarshalProto (Histogram_DataPoints orig),
     w_varint [0x10] (scast (Histogram_AggregationTemporality orig))]"

definition Histogram_field :: "int \<Rightarrow> Histogram reader" where
  "Histogram_field fieldNum =
     (if fieldNum = 1 then r_message ''DataPoints'' HistogramDataPoint_UnmarshalProto (\<lambda>_. HistogramDataPoint_zero) (\<lambda>v orig. orig\<lparr>Histogram_DataPoints := Histogram_DataPoints orig @ [v]\<rparr>)
      else if fieldNum = 2 then r_varint ''AggregationTemporality'' (\<lambda>num orig. orig\<lparr>Histogram_AggregationTemporality := ucast num\<rparr>)
      else r_unknown)"

definition Histogram_UnmarshalProto :: "byte list \<Rightarrow> Histogram \<Rightarrow> Histogram unmarshalled" where
  "Histogram_UnmarshalProto = unmarshal Histogram_field"

definition Histogram_bytes :: "Histogram \<Rightarrow> byte list" where
  "Histogram_bytes orig = concat (rev [
     b_repeated [0xa] (map HistogramDataPoint_bytes (Histogram_DataPoints orig)),
     b_varint [0x10] (scast (Histogram_AggregationTemporality orig))])"

definition Histogram_wf :: "Histogram \<Rightarrow> bool" where
  "Histogram_wf orig \<longleftrightarrow> list_all HistogramDataPoint_wf (Histogram_DataPoints orig)"

lemma emits_Histogram [emits_intros]: "emits (Histogram_MarshalProto orig) (Histogram_bytes orig)"
  unfolding Histogram_MarshalProto_def Histogram_bytes_def by (rule emits_writes) (simp add: emits_intros)

lemma Histogram_size [size_simps]: "length (Histogram_bytes orig) = Histogram_SizeProto orig"
  by (simp add: Histogram_bytes_def Histogram_SizeProto_def size_simps comp_def)

lemma Histogram_fields:
  "Histogram_field 1 = r_message ''DataPoints'' HistogramDataPoint_UnmarshalProto (\<lambda>_. HistogramDataPoint_zero) (\<lambda>v orig. orig\<lparr>Histogram_DataPoints := Histogram_DataPoints orig @ [v]\<rparr>)"
  "Histogram_field 2 = r_varint ''AggregationTemporality'' (\<lambda>num orig. orig\<lparr>Histogram_AggregationTemporality := ucast num\<rparr>)"
  by (simp_all add: Histogram_field_def)

lemma Histogram_eta: "\<lparr>Histogram_DataPoints = Histogram_DataPoints orig, Histogram_AggregationTemporality = Histogram_AggregationTemporality orig\<rparr> = (orig :: Histogram)"
  by (cases orig) simp

lemmas Histogram_steps =
  reads_submessages [where h = Histogram_field and f = 1 and tag = "[0xa]" and S = "\<lambda>x orig. orig\<lparr>Histogram_DataPoints := x\<rparr>" and b = HistogramDataPoint_bytes, OF _ Histogram_fields(1), THEN reads_append]
  reads_varint [where h = Histogram_field and f = 2 and tag = "[0x10]", OF _ Histogram_fields(2), THEN reads_append]

lemma Histogram_reads: "Histogram_wf orig \<Longrightarrow> reads Histogram_field (Histogram_bytes orig) Histogram_zero orig"
  unfolding Histogram_bytes_def rev.simps append.simps concat.simps
  by (intro Histogram_steps reads_done)
    (simp_all add: Histogram_zero_def Histogram_eta Histogram_wf_def list_all_iff double_is_zero_def HistogramDataPoint_roundtrip split: option.splits)

lemma Histogram_roundtrip:
  "Histogram_wf orig \<Longrightarrow> length (Histogram_bytes orig) < 2 ^ 62 \<Longrightarrow> Histogram_UnmarshalProto (Histogram_bytes orig) Histogram_zero = Some (Ok orig)"
  by (simp add: Histogram_UnmarshalProto_def unmarshal_reads Histogram_reads)

lemma Histogram_safe [safe_intros]: "safe_unmarshal Histogram_UnmarshalProto"
  unfolding Histogram_UnmarshalProto_def by (rule safe_unmarshal_fields) (auto simp: Histogram_field_def intro!: safe_intros)

subsection \<open>ExponentialHistogram\<close>

record ExponentialHistogram =
  ExponentialHistogram_DataPoints :: "ExponentialHistogramDataPoint list"
  ExponentialHistogram_AggregationTemporality :: "32 word"

definition ExponentialHistogram_zero :: ExponentialHistogram where
  "ExponentialHistogram_zero = \<lparr>ExponentialHistogram_DataPoints = [], ExponentialHistogram_AggregationTemporality = 0\<rparr>"

definition ExponentialHistogram_SizeProto :: "ExponentialHistogram \<Rightarrow> nat" where
  "ExponentialHistogram_SizeProto orig = sum_list [
     \<Sum>x\<leftarrow>ExponentialHistogram_DataPoints orig. size_len 1 (ExponentialHistogramDataPoint_SizeProto x),
     if ExponentialHistogram_AggregationTemporality orig \<noteq> 0 then 1 + Sov (scast (ExponentialHistogram_AggregationTemporality orig)) else 0]"

definition ExponentialHistogram_MarshalProto :: "ExponentialHistogram \<Rightarrow> writer" where
  "ExponentialHistogram_MarshalProto orig = writes [
     w_repeated [0xa] ExponentialHistogramDataPoint_MarshalProto (ExponentialHistogram_DataPoints orig),
     w_varint [0x10] (scast (ExponentialHistogram_AggregationTemporality orig))]"

definition ExponentialHistogram_field :: "int \<Rightarrow> ExponentialHistogram reader" where
  "ExponentialHistogram_field fieldNum =
     (if fieldNum = 1 then r_message ''DataPoints'' ExponentialHistogramDataPoint_UnmarshalProto (\<lambda>_. ExponentialHistogramDataPoint_zero) (\<lambda>v orig. orig\<lparr>ExponentialHistogram_DataPoints := ExponentialHistogram_DataPoints orig @ [v]\<rparr>)
      else if fieldNum = 2 then r_varint ''AggregationTemporality'' (\<lambda>num orig. orig\<lparr>ExponentialHistogram_AggregationTemporality := ucast num\<rparr>)
      else r_unknown)"

definition ExponentialHistogram_UnmarshalProto :: "byte list \<Rightarrow> ExponentialHistogram \<Rightarrow> ExponentialHistogram unmarshalled" where
  "ExponentialHistogram_UnmarshalProto = unmarshal ExponentialHistogram_field"

definition ExponentialHistogram_bytes :: "ExponentialHistogram \<Rightarrow> byte list" where
  "ExponentialHistogram_bytes orig = concat (rev [
     b_repeated [0xa] (map ExponentialHistogramDataPoint_bytes (ExponentialHistogram_DataPoints orig)),
     b_varint [0x10] (scast (ExponentialHistogram_AggregationTemporality orig))])"

definition ExponentialHistogram_wf :: "ExponentialHistogram \<Rightarrow> bool" where
  "ExponentialHistogram_wf orig \<longleftrightarrow> list_all ExponentialHistogramDataPoint_wf (ExponentialHistogram_DataPoints orig)"

lemma emits_ExponentialHistogram [emits_intros]: "emits (ExponentialHistogram_MarshalProto orig) (ExponentialHistogram_bytes orig)"
  unfolding ExponentialHistogram_MarshalProto_def ExponentialHistogram_bytes_def by (rule emits_writes) (simp add: emits_intros)

lemma ExponentialHistogram_size [size_simps]: "length (ExponentialHistogram_bytes orig) = ExponentialHistogram_SizeProto orig"
  by (simp add: ExponentialHistogram_bytes_def ExponentialHistogram_SizeProto_def size_simps comp_def)

lemma ExponentialHistogram_fields:
  "ExponentialHistogram_field 1 = r_message ''DataPoints'' ExponentialHistogramDataPoint_UnmarshalProto (\<lambda>_. ExponentialHistogramDataPoint_zero) (\<lambda>v orig. orig\<lparr>ExponentialHistogram_DataPoints := ExponentialHistogram_DataPoints orig @ [v]\<rparr>)"
  "ExponentialHistogram_field 2 = r_varint ''AggregationTemporality'' (\<lambda>num orig. orig\<lparr>ExponentialHistogram_AggregationTemporality := ucast num\<rparr>)"
  by (simp_all add: ExponentialHistogram_field_def)

lemma ExponentialHistogram_eta: "\<lparr>ExponentialHistogram_DataPoints = ExponentialHistogram_DataPoints orig, ExponentialHistogram_AggregationTemporality = ExponentialHistogram_AggregationTemporality orig\<rparr> = (orig :: ExponentialHistogram)"
  by (cases orig) simp

lemmas ExponentialHistogram_steps =
  reads_submessages [where h = ExponentialHistogram_field and f = 1 and tag = "[0xa]" and S = "\<lambda>x orig. orig\<lparr>ExponentialHistogram_DataPoints := x\<rparr>" and b = ExponentialHistogramDataPoint_bytes, OF _ ExponentialHistogram_fields(1), THEN reads_append]
  reads_varint [where h = ExponentialHistogram_field and f = 2 and tag = "[0x10]", OF _ ExponentialHistogram_fields(2), THEN reads_append]

lemma ExponentialHistogram_reads: "ExponentialHistogram_wf orig \<Longrightarrow> reads ExponentialHistogram_field (ExponentialHistogram_bytes orig) ExponentialHistogram_zero orig"
  unfolding ExponentialHistogram_bytes_def rev.simps append.simps concat.simps
  by (intro ExponentialHistogram_steps reads_done)
    (simp_all add: ExponentialHistogram_zero_def ExponentialHistogram_eta ExponentialHistogram_wf_def list_all_iff double_is_zero_def ExponentialHistogramDataPoint_roundtrip split: option.splits)

lemma ExponentialHistogram_roundtrip:
  "ExponentialHistogram_wf orig \<Longrightarrow> length (ExponentialHistogram_bytes orig) < 2 ^ 62 \<Longrightarrow> ExponentialHistogram_UnmarshalProto (ExponentialHistogram_bytes orig) ExponentialHistogram_zero = Some (Ok orig)"
  by (simp add: ExponentialHistogram_UnmarshalProto_def unmarshal_reads ExponentialHistogram_reads)

lemma ExponentialHistogram_safe [safe_intros]: "safe_unmarshal ExponentialHistogram_UnmarshalProto"
  unfolding ExponentialHistogram_UnmarshalProto_def by (rule safe_unmarshal_fields) (auto simp: ExponentialHistogram_field_def intro!: safe_intros)

subsection \<open>Summary\<close>

record Summary =
  Summary_DataPoints :: "SummaryDataPoint list"

definition Summary_zero :: Summary where
  "Summary_zero = \<lparr>Summary_DataPoints = []\<rparr>"

definition Summary_SizeProto :: "Summary \<Rightarrow> nat" where
  "Summary_SizeProto orig = sum_list [
     \<Sum>x\<leftarrow>Summary_DataPoints orig. size_len 1 (SummaryDataPoint_SizeProto x)]"

definition Summary_MarshalProto :: "Summary \<Rightarrow> writer" where
  "Summary_MarshalProto orig = writes [
     w_repeated [0xa] SummaryDataPoint_MarshalProto (Summary_DataPoints orig)]"

definition Summary_field :: "int \<Rightarrow> Summary reader" where
  "Summary_field fieldNum =
     (if fieldNum = 1 then r_message ''DataPoints'' SummaryDataPoint_UnmarshalProto (\<lambda>_. SummaryDataPoint_zero) (\<lambda>v orig. orig\<lparr>Summary_DataPoints := Summary_DataPoints orig @ [v]\<rparr>)
      else r_unknown)"

definition Summary_UnmarshalProto :: "byte list \<Rightarrow> Summary \<Rightarrow> Summary unmarshalled" where
  "Summary_UnmarshalProto = unmarshal Summary_field"

definition Summary_bytes :: "Summary \<Rightarrow> byte list" where
  "Summary_bytes orig = concat (rev [
     b_repeated [0xa] (map SummaryDataPoint_bytes (Summary_DataPoints orig))])"

definition Summary_wf :: "Summary \<Rightarrow> bool" where
  "Summary_wf orig \<longleftrightarrow> list_all SummaryDataPoint_wf (Summary_DataPoints orig)"

lemma emits_Summary [emits_intros]: "emits (Summary_MarshalProto orig) (Summary_bytes orig)"
  unfolding Summary_MarshalProto_def Summary_bytes_def by (rule emits_writes) (simp add: emits_intros)

lemma Summary_size [size_simps]: "length (Summary_bytes orig) = Summary_SizeProto orig"
  by (simp add: Summary_bytes_def Summary_SizeProto_def size_simps comp_def)

lemma Summary_fields:
  "Summary_field 1 = r_message ''DataPoints'' SummaryDataPoint_UnmarshalProto (\<lambda>_. SummaryDataPoint_zero) (\<lambda>v orig. orig\<lparr>Summary_DataPoints := Summary_DataPoints orig @ [v]\<rparr>)"
  by (simp_all add: Summary_field_def)

lemma Summary_eta: "\<lparr>Summary_DataPoints = Summary_DataPoints orig\<rparr> = (orig :: Summary)"
  by (cases orig) simp

lemmas Summary_steps =
  reads_submessages [where h = Summary_field and f = 1 and tag = "[0xa]" and S = "\<lambda>x orig. orig\<lparr>Summary_DataPoints := x\<rparr>" and b = SummaryDataPoint_bytes, OF _ Summary_fields, THEN reads_append]

lemma Summary_reads: "Summary_wf orig \<Longrightarrow> reads Summary_field (Summary_bytes orig) Summary_zero orig"
  unfolding Summary_bytes_def rev.simps append.simps concat.simps
  by (intro Summary_steps reads_done)
    (simp_all add: Summary_zero_def Summary_eta Summary_wf_def list_all_iff double_is_zero_def SummaryDataPoint_roundtrip split: option.splits)

lemma Summary_roundtrip:
  "Summary_wf orig \<Longrightarrow> length (Summary_bytes orig) < 2 ^ 62 \<Longrightarrow> Summary_UnmarshalProto (Summary_bytes orig) Summary_zero = Some (Ok orig)"
  by (simp add: Summary_UnmarshalProto_def unmarshal_reads Summary_reads)

lemma Summary_safe [safe_intros]: "safe_unmarshal Summary_UnmarshalProto"
  unfolding Summary_UnmarshalProto_def by (rule safe_unmarshal_fields) (auto simp: Summary_field_def intro!: safe_intros)

subsection \<open>Metric\<close>

datatype Metric_msg_Data =
    Metric_msg_Data_None
  | Metric_msg_Gauge "Gauge option"
  | Metric_msg_Sum "Sum_msg option"
  | Metric_msg_Histogram "Histogram option"
  | Metric_msg_ExponentialHistogram "ExponentialHistogram option"
  | Metric_msg_Summary "Summary option"

fun Metric_msg_Data_SizeProto :: "Metric_msg_Data \<Rightarrow> nat" where
  "Metric_msg_Data_SizeProto Metric_msg_Data_None = 0"
| "Metric_msg_Data_SizeProto (Metric_msg_Gauge (Some v)) = size_len 1 (Gauge_SizeProto v)"
| "Metric_msg_Data_SizeProto (Metric_msg_Gauge None) = 0"
| "Metric_msg_Data_SizeProto (Metric_msg_Sum (Some v)) = size_len 1 (Sum_msg_SizeProto v)"
| "Metric_msg_Data_SizeProto (Metric_msg_Sum None) = 0"
| "Metric_msg_Data_SizeProto (Metric_msg_Histogram (Some v)) = size_len 1 (Histogram_SizeProto v)"
| "Metric_msg_Data_SizeProto (Metric_msg_Histogram None) = 0"
| "Metric_msg_Data_SizeProto (Metric_msg_ExponentialHistogram (Some v)) = size_len 1 (ExponentialHistogram_SizeProto v)"
| "Metric_msg_Data_SizeProto (Metric_msg_ExponentialHistogram None) = 0"
| "Metric_msg_Data_SizeProto (Metric_msg_Summary (Some v)) = size_len 1 (Summary_SizeProto v)"
| "Metric_msg_Data_SizeProto (Metric_msg_Summary None) = 0"

fun Metric_msg_Data_MarshalProto :: "Metric_msg_Data \<Rightarrow> writer" where
  "Metric_msg_Data_MarshalProto Metric_msg_Data_None = Some"
| "Metric_msg_Data_MarshalProto (Metric_msg_Gauge (Some v)) = w_message [0x2a] (Gauge_MarshalProto v)"
| "Metric_msg_Data_MarshalProto (Metric_msg_Gauge None) = Some"
| "Metric_msg_Data_MarshalProto (Metric_msg_Sum (Some v)) = w_message [0x3a] (Sum_msg_MarshalProto v)"
| "Metric_msg_Data_MarshalProto (Metric_msg_Sum None) = Some"
| "Metric_msg_Data_MarshalProto (Metric_msg_Histogram (Some v)) = w_message [0x4a] (Histogram_MarshalProto v)"
| "Metric_msg_Data_MarshalProto (Metric_msg_Histogram None) = Some"
| "Metric_msg_Data_MarshalProto (Metric_msg_ExponentialHistogram (Some v)) = w_message [0x52] (ExponentialHistogram_MarshalProto v)"
| "Metric_msg_Data_MarshalProto (Metric_msg_ExponentialHistogram None) = Some"
| "Metric_msg_Data_MarshalProto (Metric_msg_Summary (Some v)) = w_message [0x5a] (Summary_MarshalProto v)"
| "Metric_msg_Data_MarshalProto (Metric_msg_Summary None) = Some"

fun Metric_msg_Data_bytes :: "Metric_msg_Data \<Rightarrow> byte list" where
  "Metric_msg_Data_bytes Metric_msg_Data_None = []"
| "Metric_msg_Data_bytes (Metric_msg_Gauge (Some v)) = len_bytes [0x2a] (Gauge_bytes v)"
| "Metric_msg_Data_bytes (Metric_msg_Gauge None) = []"
| "Metric_msg_Data_bytes (Metric_msg_Sum (Some v)) = len_bytes [0x3a] (Sum_msg_bytes v)"
| "Metric_msg_Data_bytes (Metric_msg_Sum None) = []"
| "Metric_msg_Data_bytes (Metric_msg_Histogram (Some v)) = len_bytes [0x4a] (Histogram_bytes v)"
| "Metric_msg_Data_bytes (Metric_msg_Histogram None) = []"
| "Metric_msg_Data_bytes (Metric_msg_ExponentialHistogram (Some v)) = len_bytes [0x52] (ExponentialHistogram_bytes v)"
| "Metric_msg_Data_bytes (Metric_msg_ExponentialHistogram None) = []"
| "Metric_msg_Data_bytes (Metric_msg_Summary (Some v)) = len_bytes [0x5a] (Summary_bytes v)"
| "Metric_msg_Data_bytes (Metric_msg_Summary None) = []"

fun Metric_msg_Data_wf :: "Metric_msg_Data \<Rightarrow> bool" where
  "Metric_msg_Data_wf Metric_msg_Data_None = True"
| "Metric_msg_Data_wf (Metric_msg_Gauge (Some v)) = Gauge_wf v"
| "Metric_msg_Data_wf (Metric_msg_Gauge None) = False"
| "Metric_msg_Data_wf (Metric_msg_Sum (Some v)) = Sum_msg_wf v"
| "Metric_msg_Data_wf (Metric_msg_Sum None) = False"
| "Metric_msg_Data_wf (Metric_msg_Histogram (Some v)) = Histogram_wf v"
| "Metric_msg_Data_wf (Metric_msg_Histogram None) = False"
| "Metric_msg_Data_wf (Metric_msg_ExponentialHistogram (Some v)) = ExponentialHistogram_wf v"
| "Metric_msg_Data_wf (Metric_msg_ExponentialHistogram None) = False"
| "Metric_msg_Data_wf (Metric_msg_Summary (Some v)) = Summary_wf v"
| "Metric_msg_Data_wf (Metric_msg_Summary None) = False"

record Metric_msg =
  Metric_msg_Name :: "byte list"
  Metric_msg_Description :: "byte list"
  Metric_msg_Unit :: "byte list"
  Metric_msg_Data :: Metric_msg_Data
  Metric_msg_Metadata :: "KeyValue list"

definition Metric_msg_zero :: Metric_msg where
  "Metric_msg_zero = \<lparr>Metric_msg_Name = [], Metric_msg_Description = [], Metric_msg_Unit = [], Metric_msg_Data = Metric_msg_Data_None, Metric_msg_Metadata = []\<rparr>"

definition Metric_msg_SizeProto :: "Metric_msg \<Rightarrow> nat" where
  "Metric_msg_SizeProto orig = sum_list [
     size_bytes 1 (Metric_msg_Name orig),
     size_bytes 1 (Metric_msg_Description orig),
     size_bytes 1 (Metric_msg_Unit orig),
     Metric_msg_Data_SizeProto (Metric_msg_Data orig),
     \<Sum>x\<leftarrow>Metric_msg_Metadata orig. size_len 1 (KeyValue_SizeProto x)]"

definition Metric_msg_MarshalProto :: "Metric_msg \<Rightarrow> writer" where
  "Metric_msg_MarshalProto orig = writes [
     w_bytes [0xa] (Metric_msg_Name orig),
     w_bytes [0x12] (Metric_msg_Description orig),
     w_bytes [0x1a] (Metric_msg_Unit orig),
     Metric_msg_Data_MarshalProto (Metric_msg_Data orig),
     w_repeated [0x62] KeyValue_MarshalProto (Metric_msg_Metadata orig)]"

definition Metric_msg_field :: "int \<Rightarrow> Metric_msg reader" where
  "Metric_msg_field fieldNum =
     (if fieldNum = 1 then r_bytes ''Name'' (\<lambda>s orig. orig\<lparr>Metric_msg_Name := s\<rparr>)
      else if fieldNum = 2 then r_bytes ''Description'' (\<lambda>s orig. orig\<lparr>Metric_msg_Description := s\<rparr>)
      else if fieldNum = 3 then r_bytes ''Unit'' (\<lambda>s orig. orig\<lparr>Metric_msg_Unit := s\<rparr>)
      else if fieldNum = 5 then r_message ''Gauge'' Gauge_UnmarshalProto (\<lambda>_. Gauge_zero) (\<lambda>v orig. orig\<lparr>Metric_msg_Data := Metric_msg_Gauge (Some v)\<rparr>)
      else if fieldNum = 7 then r_message ''Sum'' Sum_msg_UnmarshalProto (\<lambda>_. Sum_msg_zero) (\<lambda>v orig. orig\<lparr>Metric_msg_Data := Metric_msg_Sum (Some v)\<rparr>)
      else if fieldNum = 9 then r_message ''Histogram'' Histogram_UnmarshalProto (\<lambda>_. Histogram_zero) (\<lambda>v orig. orig\<lparr>Metric_msg_Data := Metric_msg_Histogram (Some v)\<rparr>)
      else if fieldNum = 10 then r_message ''ExponentialHistogram'' ExponentialHistogram_UnmarshalProto (\<lambda>_. ExponentialHistogram_zero) (\<lambda>v orig. orig\<lparr>Metric_msg_Data := Metric_msg_ExponentialHistogram (Some v)\<rparr>)
      else if fieldNum = 11 then r_message ''Summary'' Summary_UnmarshalProto (\<lambda>_. Summary_zero) (\<lambda>v orig. orig\<lparr>Metric_msg_Data := Metric_msg_Summary (Some v)\<rparr>)
      else if fieldNum = 12 then r_message ''Metadata'' KeyValue_UnmarshalProto (\<lambda>_. (KeyValue [] NoValue 0)) (\<lambda>v orig. orig\<lparr>Metric_msg_Metadata := Metric_msg_Metadata orig @ [v]\<rparr>)
      else r_unknown)"

definition Metric_msg_UnmarshalProto :: "byte list \<Rightarrow> Metric_msg \<Rightarrow> Metric_msg unmarshalled" where
  "Metric_msg_UnmarshalProto = unmarshal Metric_msg_field"

definition Metric_msg_bytes :: "Metric_msg \<Rightarrow> byte list" where
  "Metric_msg_bytes orig = concat (rev [
     b_bytes [0xa] (Metric_msg_Name orig),
     b_bytes [0x12] (Metric_msg_Description orig),
     b_bytes [0x1a] (Metric_msg_Unit orig),
     Metric_msg_Data_bytes (Metric_msg_Data orig),
     b_repeated [0x62] (map KeyValue_bytes (Metric_msg_Metadata orig))])"

definition Metric_msg_wf :: "Metric_msg \<Rightarrow> bool" where
  "Metric_msg_wf orig \<longleftrightarrow> Metric_msg_Data_wf (Metric_msg_Data orig) \<and>
     list_all KeyValue_wf (Metric_msg_Metadata orig)"

lemma emits_Metric_msg_Data [emits_intros]: "emits (Metric_msg_Data_MarshalProto d) (Metric_msg_Data_bytes d)"
  by (cases d rule: Metric_msg_Data_bytes.cases) (simp_all add: emits_intros)

lemma Metric_msg_Data_size [size_simps]: "length (Metric_msg_Data_bytes d) = Metric_msg_Data_SizeProto d"
  by (cases d rule: Metric_msg_Data_bytes.cases) (simp_all add: size_simps)

lemma emits_Metric_msg [emits_intros]: "emits (Metric_msg_MarshalProto orig) (Metric_msg_bytes orig)"
  unfolding Metric_msg_MarshalProto_def Metric_msg_bytes_def by (rule emits_writes) (simp add: emits_intros)

lemma Metric_msg_size [size_simps]: "length (Metric_msg_bytes orig) = Metric_msg_SizeProto orig"
  by (simp add: Metric_msg_bytes_def Metric_msg_SizeProto_def size_simps comp_def)

lemma Metric_msg_fields:
  "Metric_msg_field 1 = r_bytes ''Name'' (\<lambda>s orig. orig\<lparr>Metric_msg_Name := s\<rparr>)"
  "Metric_msg_field 2 = r_bytes ''Description'' (\<lambda>s orig. orig\<lparr>Metric_msg_Description := s\<rparr>)"
  "Metric_msg_field 3 = r_bytes ''Unit'' (\<lambda>s orig. orig\<lparr>Metric_msg_Unit := s\<rparr>)"
  "Metric_msg_field 5 = r_message ''Gauge'' Gauge_UnmarshalProto (\<lambda>_. Gauge_zero) (\<lambda>v orig. orig\<lparr>Metric_msg_Data := Metric_msg_Gauge (Some v)\<rparr>)"
  "Metric_msg_field 7 = r_message ''Sum'' Sum_msg_UnmarshalProto (\<lambda>_. Sum_msg_zero) (\<lambda>v orig. orig\<lparr>Metric_msg_Data := Metric_msg_Sum (Some v)\<rparr>)"
  "Metric_msg_field 9 = r_message ''Histogram'' Histogram_UnmarshalProto (\<lambda>_. Histogram_zero) (\<lambda>v orig. orig\<lparr>Metric_msg_Data := Metric_msg_Histogram (Some v)\<rparr>)"
  "Metric_msg_field 10 = r_message ''ExponentialHistogram'' ExponentialHistogram_UnmarshalProto (\<lambda>_. ExponentialHistogram_zero) (\<lambda>v orig. orig\<lparr>Metric_msg_Data := Metric_msg_ExponentialHistogram (Some v)\<rparr>)"
  "Metric_msg_field 11 = r_message ''Summary'' Summary_UnmarshalProto (\<lambda>_. Summary_zero) (\<lambda>v orig. orig\<lparr>Metric_msg_Data := Metric_msg_Summary (Some v)\<rparr>)"
  "Metric_msg_field 12 = r_message ''Metadata'' KeyValue_UnmarshalProto (\<lambda>_. (KeyValue [] NoValue 0)) (\<lambda>v orig. orig\<lparr>Metric_msg_Metadata := Metric_msg_Metadata orig @ [v]\<rparr>)"
  by (simp_all add: Metric_msg_field_def)

lemma Metric_msg_eta: "\<lparr>Metric_msg_Name = Metric_msg_Name orig, Metric_msg_Description = Metric_msg_Description orig, Metric_msg_Unit = Metric_msg_Unit orig, Metric_msg_Data = Metric_msg_Data orig, Metric_msg_Metadata = Metric_msg_Metadata orig\<rparr> = (orig :: Metric_msg)"
  by (cases orig) simp

lemma Metric_msg_Data_reads:
  assumes "Metric_msg_Data_wf d" "Metric_msg_Data m = Metric_msg_Data_None"
  shows "reads Metric_msg_field (Metric_msg_Data_bytes d) m (m\<lparr>Metric_msg_Data := d\<rparr>)"
proof (cases d rule: Metric_msg_Data_bytes.cases)
  case 1
  then show ?thesis using assms by (cases m) (simp add: reads_Nil)
next
  case (2 v)
  then show ?thesis using assms
      reads_submessage [where h = Metric_msg_field and f = 5 and tag = "[0x2a]" and b = Gauge_bytes and x = v and m = m, OF _ Metric_msg_fields(4)]
    by (simp add: Gauge_roundtrip)
next
  case 3
  then show ?thesis using assms by simp
next
  case (4 v)
  then show ?thesis using assms
      reads_submessage [where h = Metric_msg_field and f = 7 and tag = "[0x3a]" and b = Sum_msg_bytes and x = v and m = m, OF _ Metric_msg_fields(5)]
    by (simp add: Sum_msg_roundtrip)
next
  case 5
  then show ?thesis using assms by simp
next
  case (6 v)
  then show ?thesis using assms
      reads_submessage [where h = Metric_msg_field and f = 9 and tag = "[0x4a]" and b = Histogram_bytes and x = v and m = m, OF _ Metric_msg_fields(6)]
    by (simp add: Histogram_roundtrip)
next
  case 7
  then show ?thesis using assms by simp
next
  case (8 v)
  then show ?thesis using assms
      reads_submessage [where h = Metric_msg_field and f = 10 and tag = "[0x52]" and b = ExponentialHistogram_bytes and x = v and m = m, OF _ Metric_msg_fields(7)]
    by (simp add: ExponentialHistogram_roundtrip)
next
  case 9
  then show ?thesis using assms by simp
next
  case (10 v)
  then show ?thesis using assms
      reads_submessage [where h = Metric_msg_field and f = 11 and tag = "[0x5a]" and b = Summary_bytes and x = v and m = m, OF _ Metric_msg_fields(8)]
    by (simp add: Summary_roundtrip)
next
  case 11
  then show ?thesis using assms by simp
qed

lemmas Metric_msg_steps =
  reads_bytes [where h = Metric_msg_field and f = 1 and tag = "[0xa]", OF _ Metric_msg_fields(1), THEN reads_append]
  reads_bytes [where h = Metric_msg_field and f = 2 and tag = "[0x12]", OF _ Metric_msg_fields(2), THEN reads_append]
  reads_bytes [where h = Metric_msg_field and f = 3 and tag = "[0x1a]", OF _ Metric_msg_fields(3), THEN reads_append]
  Metric_msg_Data_reads [THEN reads_append]
  reads_submessages [where h = Metric_msg_field and f = 12 and tag = "[0x62]" and S = "\<lambda>x orig. orig\<lparr>Metric_msg_Metadata := x\<rparr>" and b = KeyValue_bytes, OF _ Metric_msg_fields(9), THEN reads_append]

lemma Metric_msg_reads: "Metric_msg_wf orig \<Longrightarrow> reads Metric_msg_field (Metric_msg_bytes orig) Metric_msg_zero orig"
  unfolding Metric_msg_bytes_def rev.simps append.simps concat.simps
  by (intro Metric_msg_steps reads_done)
    (simp_all add: Metric_msg_zero_def Metric_msg_eta Metric_msg_wf_def list_all_iff double_is_zero_def KeyValue_roundtrip split: option.splits)

lemma Metric_msg_roundtrip:
  "Metric_msg_wf orig \<Longrightarrow> length (Metric_msg_bytes orig) < 2 ^ 62 \<Longrightarrow> Metric_msg_UnmarshalProto (Metric_msg_bytes orig) Metric_msg_zero = Some (Ok orig)"
  by (simp add: Metric_msg_UnmarshalProto_def unmarshal_reads Metric_msg_reads)

lemma Metric_msg_safe [safe_intros]: "safe_unmarshal Metric_msg_UnmarshalProto"
  unfolding Metric_msg_UnmarshalProto_def by (rule safe_unmarshal_fields) (auto simp: Metric_msg_field_def intro!: safe_intros)

subsection \<open>ScopeMetrics\<close>

record ScopeMetrics =
  ScopeMetrics_SchemaUrl :: "byte list"
  ScopeMetrics_Metrics :: "Metric_msg list"
  ScopeMetrics_Scope :: InstrumentationScope

definition ScopeMetrics_zero :: ScopeMetrics where
  "ScopeMetrics_zero = \<lparr>ScopeMetrics_SchemaUrl = [], ScopeMetrics_Metrics = [], ScopeMetrics_Scope = InstrumentationScope_zero\<rparr>"

definition ScopeMetrics_SizeProto :: "ScopeMetrics \<Rightarrow> nat" where
  "ScopeMetrics_SizeProto orig = sum_list [
     size_len 1 (InstrumentationScope_SizeProto (ScopeMetrics_Scope orig)),
     \<Sum>x\<leftarrow>ScopeMetrics_Metrics orig. size_len 1 (Metric_msg_SizeProto x),
     size_bytes 1 (ScopeMetrics_SchemaUrl orig)]"

definition ScopeMetrics_MarshalProto :: "ScopeMetrics \<Rightarrow> writer" where
  "ScopeMetrics_MarshalProto orig = writes [
     w_message [0xa] (InstrumentationScope_MarshalProto (ScopeMetrics_Scope orig)),
     w_repeated [0x12] Metric_msg_MarshalProto (ScopeMetrics_Metrics orig),
     w_bytes [0x1a] (ScopeMetrics_SchemaUrl orig)]"

definition ScopeMetrics_field :: "int \<Rightarrow> ScopeMetrics reader" where
  "ScopeMetrics_field fieldNum =
     (if fieldNum = 1 then r_message ''Scope'' InstrumentationScope_UnmarshalProto ScopeMetrics_Scope (\<lambda>v orig. orig\<lparr>ScopeMetrics_Scope := v\<rparr>)
      else if fieldNum = 2 then r_message ''Metrics'' Metric_msg_UnmarshalProto (\<lambda>_. Metric_msg_zero) (\<lambda>v orig. orig\<lparr>ScopeMetrics_Metrics := ScopeMetrics_Metrics orig @ [v]\<rparr>)
      else if fieldNum = 3 then r_bytes ''SchemaUrl'' (\<lambda>s orig. orig\<lparr>ScopeMetrics_SchemaUrl := s\<rparr>)
      else r_unknown)"

definition ScopeMetrics_UnmarshalProto :: "byte list \<Rightarrow> ScopeMetrics \<Rightarrow> ScopeMetrics unmarshalled" where
  "ScopeMetrics_UnmarshalProto = unmarshal ScopeMetrics_field"

definition ScopeMetrics_bytes :: "ScopeMetrics \<Rightarrow> byte list" where
  "ScopeMetrics_bytes orig = concat (rev [
     len_bytes [0xa] (InstrumentationScope_bytes (ScopeMetrics_Scope orig)),
     b_repeated [0x12] (map Metric_msg_bytes (ScopeMetrics_Metrics orig)),
     b_bytes [0x1a] (ScopeMetrics_SchemaUrl orig)])"

definition ScopeMetrics_wf :: "ScopeMetrics \<Rightarrow> bool" where
  "ScopeMetrics_wf orig \<longleftrightarrow> InstrumentationScope_wf (ScopeMetrics_Scope orig) \<and>
     list_all Metric_msg_wf (ScopeMetrics_Metrics orig)"

lemma emits_ScopeMetrics [emits_intros]: "emits (ScopeMetrics_MarshalProto orig) (ScopeMetrics_bytes orig)"
  unfolding ScopeMetrics_MarshalProto_def ScopeMetrics_bytes_def by (rule emits_writes) (simp add: emits_intros)

lemma ScopeMetrics_size [size_simps]: "length (ScopeMetrics_bytes orig) = ScopeMetrics_SizeProto orig"
  by (simp add: ScopeMetrics_bytes_def ScopeMetrics_SizeProto_def size_simps comp_def)

lemma ScopeMetrics_fields:
  "ScopeMetrics_field 1 = r_message ''Scope'' InstrumentationScope_UnmarshalProto ScopeMetrics_Scope (\<lambda>v orig. orig\<lparr>ScopeMetrics_Scope := v\<rparr>)"
  "ScopeMetrics_field 2 = r_message ''Metrics'' Metric_msg_UnmarshalProto (\<lambda>_. Metric_msg_zero) (\<lambda>v orig. orig\<lparr>ScopeMetrics_Metrics := ScopeMetrics_Metrics orig @ [v]\<rparr>)"
  "ScopeMetrics_field 3 = r_bytes ''SchemaUrl'' (\<lambda>s orig. orig\<lparr>ScopeMetrics_SchemaUrl := s\<rparr>)"
  by (simp_all add: ScopeMetrics_field_def)

lemma ScopeMetrics_eta: "\<lparr>ScopeMetrics_SchemaUrl = ScopeMetrics_SchemaUrl orig, ScopeMetrics_Metrics = ScopeMetrics_Metrics orig, ScopeMetrics_Scope = ScopeMetrics_Scope orig\<rparr> = (orig :: ScopeMetrics)"
  by (cases orig) simp

lemmas ScopeMetrics_steps =
  reads_submessage [where h = ScopeMetrics_field and f = 1 and tag = "[0xa]" and b = InstrumentationScope_bytes, OF _ ScopeMetrics_fields(1), THEN reads_append]
  reads_submessages [where h = ScopeMetrics_field and f = 2 and tag = "[0x12]" and S = "\<lambda>x orig. orig\<lparr>ScopeMetrics_Metrics := x\<rparr>" and b = Metric_msg_bytes, OF _ ScopeMetrics_fields(2), THEN reads_append]
  reads_bytes [where h = ScopeMetrics_field and f = 3 and tag = "[0x1a]", OF _ ScopeMetrics_fields(3), THEN reads_append]

lemma ScopeMetrics_reads: "ScopeMetrics_wf orig \<Longrightarrow> reads ScopeMetrics_field (ScopeMetrics_bytes orig) ScopeMetrics_zero orig"
  unfolding ScopeMetrics_bytes_def rev.simps append.simps concat.simps
  by (intro ScopeMetrics_steps reads_done)
    (simp_all add: ScopeMetrics_zero_def ScopeMetrics_eta ScopeMetrics_wf_def list_all_iff double_is_zero_def InstrumentationScope_roundtrip Metric_msg_roundtrip split: option.splits)

lemma ScopeMetrics_roundtrip:
  "ScopeMetrics_wf orig \<Longrightarrow> length (ScopeMetrics_bytes orig) < 2 ^ 62 \<Longrightarrow> ScopeMetrics_UnmarshalProto (ScopeMetrics_bytes orig) ScopeMetrics_zero = Some (Ok orig)"
  by (simp add: ScopeMetrics_UnmarshalProto_def unmarshal_reads ScopeMetrics_reads)

lemma ScopeMetrics_safe [safe_intros]: "safe_unmarshal ScopeMetrics_UnmarshalProto"
  unfolding ScopeMetrics_UnmarshalProto_def by (rule safe_unmarshal_fields) (auto simp: ScopeMetrics_field_def intro!: safe_intros)

subsection \<open>ResourceMetrics\<close>

record ResourceMetrics =
  ResourceMetrics_Resource :: Resource
  ResourceMetrics_ScopeMetrics :: "ScopeMetrics list"
  ResourceMetrics_SchemaUrl :: "byte list"
  ResourceMetrics_DeprecatedScopeMetrics :: "ScopeMetrics list"

definition ResourceMetrics_zero :: ResourceMetrics where
  "ResourceMetrics_zero = \<lparr>ResourceMetrics_Resource = Resource_zero, ResourceMetrics_ScopeMetrics = [], ResourceMetrics_SchemaUrl = [], ResourceMetrics_DeprecatedScopeMetrics = []\<rparr>"

definition ResourceMetrics_SizeProto :: "ResourceMetrics \<Rightarrow> nat" where
  "ResourceMetrics_SizeProto orig = sum_list [
     size_len 1 (Resource_SizeProto (ResourceMetrics_Resource orig)),
     \<Sum>x\<leftarrow>ResourceMetrics_ScopeMetrics orig. size_len 1 (ScopeMetrics_SizeProto x),
     size_bytes 1 (ResourceMetrics_SchemaUrl orig),
     \<Sum>x\<leftarrow>ResourceMetrics_DeprecatedScopeMetrics orig. size_len 2 (ScopeMetrics_SizeProto x)]"

definition ResourceMetrics_MarshalProto :: "ResourceMetrics \<Rightarrow> writer" where
  "ResourceMetrics_MarshalProto orig = writes [
     w_message [0xa] (Resource_MarshalProto (ResourceMetrics_Resource orig)),
     w_repeated [0x12] ScopeMetrics_MarshalProto (ResourceMetrics_ScopeMetrics orig),
     w_bytes [0x1a] (ResourceMetrics_SchemaUrl orig),
     w_repeated [0xc2, 0x3e] ScopeMetrics_MarshalProto (ResourceMetrics_DeprecatedScopeMetrics orig)]"

definition ResourceMetrics_field :: "int \<Rightarrow> ResourceMetrics reader" where
  "ResourceMetrics_field fieldNum =
     (if fieldNum = 1 then r_message ''Resource'' Resource_UnmarshalProto ResourceMetrics_Resource (\<lambda>v orig. orig\<lparr>ResourceMetrics_Resource := v\<rparr>)
      else if fieldNum = 2 then r_message ''ScopeMetrics'' ScopeMetrics_UnmarshalProto (\<lambda>_. ScopeMetrics_zero) (\<lambda>v orig. orig\<lparr>ResourceMetrics_ScopeMetrics := ResourceMetrics_ScopeMetrics orig @ [v]\<rparr>)
      else if fieldNum = 3 then r_bytes ''SchemaUrl'' (\<lambda>s orig. orig\<lparr>ResourceMetrics_SchemaUrl := s\<rparr>)
      else if fieldNum = 1000 then r_message ''DeprecatedScopeMetrics'' ScopeMetrics_UnmarshalProto (\<lambda>_. ScopeMetrics_zero) (\<lambda>v orig. orig\<lparr>ResourceMetrics_DeprecatedScopeMetrics := ResourceMetrics_DeprecatedScopeMetrics orig @ [v]\<rparr>)
      else r_unknown)"

definition ResourceMetrics_UnmarshalProto :: "byte list \<Rightarrow> ResourceMetrics \<Rightarrow> ResourceMetrics unmarshalled" where
  "ResourceMetrics_UnmarshalProto = unmarshal ResourceMetrics_field"

definition ResourceMetrics_bytes :: "ResourceMetrics \<Rightarrow> byte list" where
  "ResourceMetrics_bytes orig = concat (rev [
     len_bytes [0xa] (Resource_bytes (ResourceMetrics_Resource orig)),
     b_repeated [0x12] (map ScopeMetrics_bytes (ResourceMetrics_ScopeMetrics orig)),
     b_bytes [0x1a] (ResourceMetrics_SchemaUrl orig),
     b_repeated [0xc2, 0x3e] (map ScopeMetrics_bytes (ResourceMetrics_DeprecatedScopeMetrics orig))])"

definition ResourceMetrics_wf :: "ResourceMetrics \<Rightarrow> bool" where
  "ResourceMetrics_wf orig \<longleftrightarrow> Resource_wf (ResourceMetrics_Resource orig) \<and>
     list_all ScopeMetrics_wf (ResourceMetrics_ScopeMetrics orig) \<and>
     list_all ScopeMetrics_wf (ResourceMetrics_DeprecatedScopeMetrics orig)"

lemma emits_ResourceMetrics [emits_intros]: "emits (ResourceMetrics_MarshalProto orig) (ResourceMetrics_bytes orig)"
  unfolding ResourceMetrics_MarshalProto_def ResourceMetrics_bytes_def by (rule emits_writes) (simp add: emits_intros)

lemma ResourceMetrics_size [size_simps]: "length (ResourceMetrics_bytes orig) = ResourceMetrics_SizeProto orig"
  by (simp add: ResourceMetrics_bytes_def ResourceMetrics_SizeProto_def size_simps comp_def numeral_2_eq_2)

lemma ResourceMetrics_fields:
  "ResourceMetrics_field 1 = r_message ''Resource'' Resource_UnmarshalProto ResourceMetrics_Resource (\<lambda>v orig. orig\<lparr>ResourceMetrics_Resource := v\<rparr>)"
  "ResourceMetrics_field 2 = r_message ''ScopeMetrics'' ScopeMetrics_UnmarshalProto (\<lambda>_. ScopeMetrics_zero) (\<lambda>v orig. orig\<lparr>ResourceMetrics_ScopeMetrics := ResourceMetrics_ScopeMetrics orig @ [v]\<rparr>)"
  "ResourceMetrics_field 3 = r_bytes ''SchemaUrl'' (\<lambda>s orig. orig\<lparr>ResourceMetrics_SchemaUrl := s\<rparr>)"
  "ResourceMetrics_field 1000 = r_message ''DeprecatedScopeMetrics'' ScopeMetrics_UnmarshalProto (\<lambda>_. ScopeMetrics_zero) (\<lambda>v orig. orig\<lparr>ResourceMetrics_DeprecatedScopeMetrics := ResourceMetrics_DeprecatedScopeMetrics orig @ [v]\<rparr>)"
  by (simp_all add: ResourceMetrics_field_def)

lemma ResourceMetrics_eta: "\<lparr>ResourceMetrics_Resource = ResourceMetrics_Resource orig, ResourceMetrics_ScopeMetrics = ResourceMetrics_ScopeMetrics orig, ResourceMetrics_SchemaUrl = ResourceMetrics_SchemaUrl orig, ResourceMetrics_DeprecatedScopeMetrics = ResourceMetrics_DeprecatedScopeMetrics orig\<rparr> = (orig :: ResourceMetrics)"
  by (cases orig) simp

lemmas ResourceMetrics_steps =
  reads_submessage [where h = ResourceMetrics_field and f = 1 and tag = "[0xa]" and b = Resource_bytes, OF _ ResourceMetrics_fields(1), THEN reads_append]
  reads_submessages [where h = ResourceMetrics_field and f = 2 and tag = "[0x12]" and S = "\<lambda>x orig. orig\<lparr>ResourceMetrics_ScopeMetrics := x\<rparr>" and b = ScopeMetrics_bytes, OF _ ResourceMetrics_fields(2), THEN reads_append]
  reads_bytes [where h = ResourceMetrics_field and f = 3 and tag = "[0x1a]", OF _ ResourceMetrics_fields(3), THEN reads_append]
  reads_submessages [where h = ResourceMetrics_field and f = 1000 and tag = "[0xc2, 0x3e]" and S = "\<lambda>x orig. orig\<lparr>ResourceMetrics_DeprecatedScopeMetrics := x\<rparr>" and b = ScopeMetrics_bytes, OF _ ResourceMetrics_fields(4), THEN reads_append]

lemma ResourceMetrics_reads: "ResourceMetrics_wf orig \<Longrightarrow> reads ResourceMetrics_field (ResourceMetrics_bytes orig) ResourceMetrics_zero orig"
  unfolding ResourceMetrics_bytes_def rev.simps append.simps concat.simps
  by (intro ResourceMetrics_steps reads_done)
    (simp_all add: ResourceMetrics_zero_def ResourceMetrics_eta ResourceMetrics_wf_def list_all_iff double_is_zero_def Resource_roundtrip ScopeMetrics_roundtrip split: option.splits)

lemma ResourceMetrics_roundtrip:
  "ResourceMetrics_wf orig \<Longrightarrow> length (ResourceMetrics_bytes orig) < 2 ^ 62 \<Longrightarrow> ResourceMetrics_UnmarshalProto (ResourceMetrics_bytes orig) ResourceMetrics_zero = Some (Ok orig)"
  by (simp add: ResourceMetrics_UnmarshalProto_def unmarshal_reads ResourceMetrics_reads)

lemma ResourceMetrics_safe [safe_intros]: "safe_unmarshal ResourceMetrics_UnmarshalProto"
  unfolding ResourceMetrics_UnmarshalProto_def by (rule safe_unmarshal_fields) (auto simp: ResourceMetrics_field_def intro!: safe_intros)

subsection \<open>MetricsData\<close>

record MetricsData =
  MetricsData_ResourceMetrics :: "ResourceMetrics list"

definition MetricsData_zero :: MetricsData where
  "MetricsData_zero = \<lparr>MetricsData_ResourceMetrics = []\<rparr>"

definition MetricsData_SizeProto :: "MetricsData \<Rightarrow> nat" where
  "MetricsData_SizeProto orig = sum_list [
     \<Sum>x\<leftarrow>MetricsData_ResourceMetrics orig. size_len 1 (ResourceMetrics_SizeProto x)]"

definition MetricsData_MarshalProto :: "MetricsData \<Rightarrow> writer" where
  "MetricsData_MarshalProto orig = writes [
     w_repeated [0xa] ResourceMetrics_MarshalProto (MetricsData_ResourceMetrics orig)]"

definition MetricsData_field :: "int \<Rightarrow> MetricsData reader" where
  "MetricsData_field fieldNum =
     (if fieldNum = 1 then r_message ''ResourceMetrics'' ResourceMetrics_UnmarshalProto (\<lambda>_. ResourceMetrics_zero) (\<lambda>v orig. orig\<lparr>MetricsData_ResourceMetrics := MetricsData_ResourceMetrics orig @ [v]\<rparr>)
      else r_unknown)"

definition MetricsData_UnmarshalProto :: "byte list \<Rightarrow> MetricsData \<Rightarrow> MetricsData unmarshalled" where
  "MetricsData_UnmarshalProto = unmarshal MetricsData_field"

definition MetricsData_bytes :: "MetricsData \<Rightarrow> byte list" where
  "MetricsData_bytes orig = concat (rev [
     b_repeated [0xa] (map ResourceMetrics_bytes (MetricsData_ResourceMetrics orig))])"

definition MetricsData_wf :: "MetricsData \<Rightarrow> bool" where
  "MetricsData_wf orig \<longleftrightarrow> list_all ResourceMetrics_wf (MetricsData_ResourceMetrics orig)"

lemma emits_MetricsData [emits_intros]: "emits (MetricsData_MarshalProto orig) (MetricsData_bytes orig)"
  unfolding MetricsData_MarshalProto_def MetricsData_bytes_def by (rule emits_writes) (simp add: emits_intros)

lemma MetricsData_size [size_simps]: "length (MetricsData_bytes orig) = MetricsData_SizeProto orig"
  by (simp add: MetricsData_bytes_def MetricsData_SizeProto_def size_simps comp_def)

lemma MetricsData_fields:
  "MetricsData_field 1 = r_message ''ResourceMetrics'' ResourceMetrics_UnmarshalProto (\<lambda>_. ResourceMetrics_zero) (\<lambda>v orig. orig\<lparr>MetricsData_ResourceMetrics := MetricsData_ResourceMetrics orig @ [v]\<rparr>)"
  by (simp_all add: MetricsData_field_def)

lemma MetricsData_eta: "\<lparr>MetricsData_ResourceMetrics = MetricsData_ResourceMetrics orig\<rparr> = (orig :: MetricsData)"
  by (cases orig) simp

lemmas MetricsData_steps =
  reads_submessages [where h = MetricsData_field and f = 1 and tag = "[0xa]" and S = "\<lambda>x orig. orig\<lparr>MetricsData_ResourceMetrics := x\<rparr>" and b = ResourceMetrics_bytes, OF _ MetricsData_fields, THEN reads_append]

lemma MetricsData_reads: "MetricsData_wf orig \<Longrightarrow> reads MetricsData_field (MetricsData_bytes orig) MetricsData_zero orig"
  unfolding MetricsData_bytes_def rev.simps append.simps concat.simps
  by (intro MetricsData_steps reads_done)
    (simp_all add: MetricsData_zero_def MetricsData_eta MetricsData_wf_def list_all_iff double_is_zero_def ResourceMetrics_roundtrip split: option.splits)

lemma MetricsData_roundtrip:
  "MetricsData_wf orig \<Longrightarrow> length (MetricsData_bytes orig) < 2 ^ 62 \<Longrightarrow> MetricsData_UnmarshalProto (MetricsData_bytes orig) MetricsData_zero = Some (Ok orig)"
  by (simp add: MetricsData_UnmarshalProto_def unmarshal_reads MetricsData_reads)

lemma MetricsData_safe [safe_intros]: "safe_unmarshal MetricsData_UnmarshalProto"
  unfolding MetricsData_UnmarshalProto_def by (rule safe_unmarshal_fields) (auto simp: MetricsData_field_def intro!: safe_intros)

subsection \<open>ExportMetricsServiceRequest\<close>

record ExportMetricsServiceRequest =
  ExportMetricsServiceRequest_ResourceMetrics :: "ResourceMetrics list"

definition ExportMetricsServiceRequest_zero :: ExportMetricsServiceRequest where
  "ExportMetricsServiceRequest_zero = \<lparr>ExportMetricsServiceRequest_ResourceMetrics = []\<rparr>"

definition ExportMetricsServiceRequest_SizeProto :: "ExportMetricsServiceRequest \<Rightarrow> nat" where
  "ExportMetricsServiceRequest_SizeProto orig = sum_list [
     \<Sum>x\<leftarrow>ExportMetricsServiceRequest_ResourceMetrics orig. size_len 1 (ResourceMetrics_SizeProto x)]"

definition ExportMetricsServiceRequest_MarshalProto :: "ExportMetricsServiceRequest \<Rightarrow> writer" where
  "ExportMetricsServiceRequest_MarshalProto orig = writes [
     w_repeated [0xa] ResourceMetrics_MarshalProto (ExportMetricsServiceRequest_ResourceMetrics orig)]"

definition ExportMetricsServiceRequest_field :: "int \<Rightarrow> ExportMetricsServiceRequest reader" where
  "ExportMetricsServiceRequest_field fieldNum =
     (if fieldNum = 1 then r_message ''ResourceMetrics'' ResourceMetrics_UnmarshalProto (\<lambda>_. ResourceMetrics_zero) (\<lambda>v orig. orig\<lparr>ExportMetricsServiceRequest_ResourceMetrics := ExportMetricsServiceRequest_ResourceMetrics orig @ [v]\<rparr>)
      else r_unknown)"

definition ExportMetricsServiceRequest_UnmarshalProto :: "byte list \<Rightarrow> ExportMetricsServiceRequest \<Rightarrow> ExportMetricsServiceRequest unmarshalled" where
  "ExportMetricsServiceRequest_UnmarshalProto = unmarshal ExportMetricsServiceRequest_field"

definition ExportMetricsServiceRequest_bytes :: "ExportMetricsServiceRequest \<Rightarrow> byte list" where
  "ExportMetricsServiceRequest_bytes orig = concat (rev [
     b_repeated [0xa] (map ResourceMetrics_bytes (ExportMetricsServiceRequest_ResourceMetrics orig))])"

definition ExportMetricsServiceRequest_wf :: "ExportMetricsServiceRequest \<Rightarrow> bool" where
  "ExportMetricsServiceRequest_wf orig \<longleftrightarrow> list_all ResourceMetrics_wf (ExportMetricsServiceRequest_ResourceMetrics orig)"

lemma emits_ExportMetricsServiceRequest [emits_intros]: "emits (ExportMetricsServiceRequest_MarshalProto orig) (ExportMetricsServiceRequest_bytes orig)"
  unfolding ExportMetricsServiceRequest_MarshalProto_def ExportMetricsServiceRequest_bytes_def by (rule emits_writes) (simp add: emits_intros)

lemma ExportMetricsServiceRequest_size [size_simps]: "length (ExportMetricsServiceRequest_bytes orig) = ExportMetricsServiceRequest_SizeProto orig"
  by (simp add: ExportMetricsServiceRequest_bytes_def ExportMetricsServiceRequest_SizeProto_def size_simps comp_def)

lemma ExportMetricsServiceRequest_fields:
  "ExportMetricsServiceRequest_field 1 = r_message ''ResourceMetrics'' ResourceMetrics_UnmarshalProto (\<lambda>_. ResourceMetrics_zero) (\<lambda>v orig. orig\<lparr>ExportMetricsServiceRequest_ResourceMetrics := ExportMetricsServiceRequest_ResourceMetrics orig @ [v]\<rparr>)"
  by (simp_all add: ExportMetricsServiceRequest_field_def)

lemma ExportMetricsServiceRequest_eta: "\<lparr>ExportMetricsServiceRequest_ResourceMetrics = ExportMetricsServiceRequest_ResourceMetrics orig\<rparr> = (orig :: ExportMetricsServiceRequest)"
  by (cases orig) simp

lemmas ExportMetricsServiceRequest_steps =
  reads_submessages [where h = ExportMetricsServiceRequest_field and f = 1 and tag = "[0xa]" and S = "\<lambda>x orig. orig\<lparr>ExportMetricsServiceRequest_ResourceMetrics := x\<rparr>" and b = ResourceMetrics_bytes, OF _ ExportMetricsServiceRequest_fields, THEN reads_append]

lemma ExportMetricsServiceRequest_reads: "ExportMetricsServiceRequest_wf orig \<Longrightarrow> reads ExportMetricsServiceRequest_field (ExportMetricsServiceRequest_bytes orig) ExportMetricsServiceRequest_zero orig"
  unfolding ExportMetricsServiceRequest_bytes_def rev.simps append.simps concat.simps
  by (intro ExportMetricsServiceRequest_steps reads_done)
    (simp_all add: ExportMetricsServiceRequest_zero_def ExportMetricsServiceRequest_eta ExportMetricsServiceRequest_wf_def list_all_iff double_is_zero_def ResourceMetrics_roundtrip split: option.splits)

lemma ExportMetricsServiceRequest_roundtrip:
  "ExportMetricsServiceRequest_wf orig \<Longrightarrow> length (ExportMetricsServiceRequest_bytes orig) < 2 ^ 62 \<Longrightarrow> ExportMetricsServiceRequest_UnmarshalProto (ExportMetricsServiceRequest_bytes orig) ExportMetricsServiceRequest_zero = Some (Ok orig)"
  by (simp add: ExportMetricsServiceRequest_UnmarshalProto_def unmarshal_reads ExportMetricsServiceRequest_reads)

lemma ExportMetricsServiceRequest_safe [safe_intros]: "safe_unmarshal ExportMetricsServiceRequest_UnmarshalProto"
  unfolding ExportMetricsServiceRequest_UnmarshalProto_def by (rule safe_unmarshal_fields) (auto simp: ExportMetricsServiceRequest_field_def intro!: safe_intros)

subsection \<open>ExportMetricsPartialSuccess\<close>

record ExportMetricsPartialSuccess =
  ExportMetricsPartialSuccess_ErrorMessage :: "byte list"
  ExportMetricsPartialSuccess_RejectedDataPoints :: u64

definition ExportMetricsPartialSuccess_zero :: ExportMetricsPartialSuccess where
  "ExportMetricsPartialSuccess_zero = \<lparr>ExportMetricsPartialSuccess_ErrorMessage = [], ExportMetricsPartialSuccess_RejectedDataPoints = 0\<rparr>"

definition ExportMetricsPartialSuccess_SizeProto :: "ExportMetricsPartialSuccess \<Rightarrow> nat" where
  "ExportMetricsPartialSuccess_SizeProto orig = sum_list [
     if ExportMetricsPartialSuccess_RejectedDataPoints orig \<noteq> 0 then 1 + Sov ((ExportMetricsPartialSuccess_RejectedDataPoints orig)) else 0,
     size_bytes 1 (ExportMetricsPartialSuccess_ErrorMessage orig)]"

definition ExportMetricsPartialSuccess_MarshalProto :: "ExportMetricsPartialSuccess \<Rightarrow> writer" where
  "ExportMetricsPartialSuccess_MarshalProto orig = writes [
     w_varint [0x8] (ExportMetricsPartialSuccess_RejectedDataPoints orig),
     w_bytes [0x12] (ExportMetricsPartialSuccess_ErrorMessage orig)]"

definition ExportMetricsPartialSuccess_field :: "int \<Rightarrow> ExportMetricsPartialSuccess reader" where
  "ExportMetricsPartialSuccess_field fieldNum =
     (if fieldNum = 1 then r_varint ''RejectedDataPoints'' (\<lambda>num orig. orig\<lparr>ExportMetricsPartialSuccess_RejectedDataPoints := num\<rparr>)
      else if fieldNum = 2 then r_bytes ''ErrorMessage'' (\<lambda>s orig. orig\<lparr>ExportMetricsPartialSuccess_ErrorMessage := s\<rparr>)
      else r_unknown)"

definition ExportMetricsPartialSuccess_UnmarshalProto :: "byte list \<Rightarrow> ExportMetricsPartialSuccess \<Rightarrow> ExportMetricsPartialSuccess unmarshalled" where
  "ExportMetricsPartialSuccess_UnmarshalProto = unmarshal ExportMetricsPartialSuccess_field"

definition ExportMetricsPartialSuccess_bytes :: "ExportMetricsPartialSuccess \<Rightarrow> byte list" where
  "ExportMetricsPartialSuccess_bytes orig = concat (rev [
     b_varint [0x8] (ExportMetricsPartialSuccess_RejectedDataPoints orig),
     b_bytes [0x12] (ExportMetricsPartialSuccess_ErrorMessage orig)])"

lemma emits_ExportMetricsPartialSuccess [emits_intros]: "emits (ExportMetricsPartialSuccess_MarshalProto orig) (ExportMetricsPartialSuccess_bytes orig)"
  unfolding ExportMetricsPartialSuccess_MarshalProto_def ExportMetricsPartialSuccess_bytes_def by (rule emits_writes) (simp add: emits_intros)

lemma ExportMetricsPartialSuccess_size [size_simps]: "length (ExportMetricsPartialSuccess_bytes orig) = ExportMetricsPartialSuccess_SizeProto orig"
  by (simp add: ExportMetricsPartialSuccess_bytes_def ExportMetricsPartialSuccess_SizeProto_def size_simps comp_def)

lemma ExportMetricsPartialSuccess_fields:
  "ExportMetricsPartialSuccess_field 1 = r_varint ''RejectedDataPoints'' (\<lambda>num orig. orig\<lparr>ExportMetricsPartialSuccess_RejectedDataPoints := num\<rparr>)"
  "ExportMetricsPartialSuccess_field 2 = r_bytes ''ErrorMessage'' (\<lambda>s orig. orig\<lparr>ExportMetricsPartialSuccess_ErrorMessage := s\<rparr>)"
  by (simp_all add: ExportMetricsPartialSuccess_field_def)

lemma ExportMetricsPartialSuccess_eta: "\<lparr>ExportMetricsPartialSuccess_ErrorMessage = ExportMetricsPartialSuccess_ErrorMessage orig, ExportMetricsPartialSuccess_RejectedDataPoints = ExportMetricsPartialSuccess_RejectedDataPoints orig\<rparr> = (orig :: ExportMetricsPartialSuccess)"
  by (cases orig) simp

lemmas ExportMetricsPartialSuccess_steps =
  reads_varint [where h = ExportMetricsPartialSuccess_field and f = 1 and tag = "[0x8]", OF _ ExportMetricsPartialSuccess_fields(1), THEN reads_append]
  reads_bytes [where h = ExportMetricsPartialSuccess_field and f = 2 and tag = "[0x12]", OF _ ExportMetricsPartialSuccess_fields(2), THEN reads_append]

lemma ExportMetricsPartialSuccess_reads: "reads ExportMetricsPartialSuccess_field (ExportMetricsPartialSuccess_bytes orig) ExportMetricsPartialSuccess_zero orig"
  unfolding ExportMetricsPartialSuccess_bytes_def rev.simps append.simps concat.simps
  by (intro ExportMetricsPartialSuccess_steps reads_done)
    (simp_all add: ExportMetricsPartialSuccess_zero_def ExportMetricsPartialSuccess_eta  split: option.splits)

lemma ExportMetricsPartialSuccess_roundtrip:
  "length (ExportMetricsPartialSuccess_bytes orig) < 2 ^ 62 \<Longrightarrow> ExportMetricsPartialSuccess_UnmarshalProto (ExportMetricsPartialSuccess_bytes orig) ExportMetricsPartialSuccess_zero = Some (Ok orig)"
  by (simp add: ExportMetricsPartialSuccess_UnmarshalProto_def unmarshal_reads ExportMetricsPartialSuccess_reads)

lemma ExportMetricsPartialSuccess_safe [safe_intros]: "safe_unmarshal ExportMetricsPartialSuccess_UnmarshalProto"
  unfolding ExportMetricsPartialSuccess_UnmarshalProto_def by (rule safe_unmarshal_fields) (auto simp: ExportMetricsPartialSuccess_field_def intro!: safe_intros)

subsection \<open>ExportMetricsServiceResponse\<close>

record ExportMetricsServiceResponse =
  ExportMetricsServiceResponse_PartialSuccess :: ExportMetricsPartialSuccess

definition ExportMetricsServiceResponse_zero :: ExportMetricsServiceResponse where
  "ExportMetricsServiceResponse_zero = \<lparr>ExportMetricsServiceResponse_PartialSuccess = ExportMetricsPartialSuccess_zero\<rparr>"

definition ExportMetricsServiceResponse_SizeProto :: "ExportMetricsServiceResponse \<Rightarrow> nat" where
  "ExportMetricsServiceResponse_SizeProto orig = sum_list [
     size_len 1 (ExportMetricsPartialSuccess_SizeProto (ExportMetricsServiceResponse_PartialSuccess orig))]"

definition ExportMetricsServiceResponse_MarshalProto :: "ExportMetricsServiceResponse \<Rightarrow> writer" where
  "ExportMetricsServiceResponse_MarshalProto orig = writes [
     w_message [0xa] (ExportMetricsPartialSuccess_MarshalProto (ExportMetricsServiceResponse_PartialSuccess orig))]"

definition ExportMetricsServiceResponse_field :: "int \<Rightarrow> ExportMetricsServiceResponse reader" where
  "ExportMetricsServiceResponse_field fieldNum =
     (if fieldNum = 1 then r_message ''PartialSuccess'' ExportMetricsPartialSuccess_UnmarshalProto ExportMetricsServiceResponse_PartialSuccess (\<lambda>v orig. orig\<lparr>ExportMetricsServiceResponse_PartialSuccess := v\<rparr>)
      else r_unknown)"

definition ExportMetricsServiceResponse_UnmarshalProto :: "byte list \<Rightarrow> ExportMetricsServiceResponse \<Rightarrow> ExportMetricsServiceResponse unmarshalled" where
  "ExportMetricsServiceResponse_UnmarshalProto = unmarshal ExportMetricsServiceResponse_field"

definition ExportMetricsServiceResponse_bytes :: "ExportMetricsServiceResponse \<Rightarrow> byte list" where
  "ExportMetricsServiceResponse_bytes orig = concat (rev [
     len_bytes [0xa] (ExportMetricsPartialSuccess_bytes (ExportMetricsServiceResponse_PartialSuccess orig))])"

lemma emits_ExportMetricsServiceResponse [emits_intros]: "emits (ExportMetricsServiceResponse_MarshalProto orig) (ExportMetricsServiceResponse_bytes orig)"
  unfolding ExportMetricsServiceResponse_MarshalProto_def ExportMetricsServiceResponse_bytes_def by (rule emits_writes) (simp add: emits_intros)

lemma ExportMetricsServiceResponse_size [size_simps]: "length (ExportMetricsServiceResponse_bytes orig) = ExportMetricsServiceResponse_SizeProto orig"
  by (simp add: ExportMetricsServiceResponse_bytes_def ExportMetricsServiceResponse_SizeProto_def size_simps comp_def)

lemma ExportMetricsServiceResponse_fields:
  "ExportMetricsServiceResponse_field 1 = r_message ''PartialSuccess'' ExportMetricsPartialSuccess_UnmarshalProto ExportMetricsServiceResponse_PartialSuccess (\<lambda>v orig. orig\<lparr>ExportMetricsServiceResponse_PartialSuccess := v\<rparr>)"
  by (simp_all add: ExportMetricsServiceResponse_field_def)

lemma ExportMetricsServiceResponse_eta: "\<lparr>ExportMetricsServiceResponse_PartialSuccess = ExportMetricsServiceResponse_PartialSuccess orig\<rparr> = (orig :: ExportMetricsServiceResponse)"
  by (cases orig) simp

lemmas ExportMetricsServiceResponse_steps =
  reads_submessage [where h = ExportMetricsServiceResponse_field and f = 1 and tag = "[0xa]" and b = ExportMetricsPartialSuccess_bytes, OF _ ExportMetricsServiceResponse_fields, THEN reads_append]

lemma ExportMetricsServiceResponse_reads: "reads ExportMetricsServiceResponse_field (ExportMetricsServiceResponse_bytes orig) ExportMetricsServiceResponse_zero orig"
  unfolding ExportMetricsServiceResponse_bytes_def rev.simps append.simps concat.simps
  by (intro ExportMetricsServiceResponse_steps reads_done)
    (simp_all add: ExportMetricsServiceResponse_zero_def ExportMetricsServiceResponse_eta ExportMetricsPartialSuccess_roundtrip split: option.splits)

lemma ExportMetricsServiceResponse_roundtrip:
  "length (ExportMetricsServiceResponse_bytes orig) < 2 ^ 62 \<Longrightarrow> ExportMetricsServiceResponse_UnmarshalProto (ExportMetricsServiceResponse_bytes orig) ExportMetricsServiceResponse_zero = Some (Ok orig)"
  by (simp add: ExportMetricsServiceResponse_UnmarshalProto_def unmarshal_reads ExportMetricsServiceResponse_reads)

lemma ExportMetricsServiceResponse_safe [safe_intros]: "safe_unmarshal ExportMetricsServiceResponse_UnmarshalProto"
  unfolding ExportMetricsServiceResponse_UnmarshalProto_def by (rule safe_unmarshal_fields) (auto simp: ExportMetricsServiceResponse_field_def intro!: safe_intros)

end
