(* ===== verification/ProtoProfiles.thy ===== *)
theory ProtoProfiles
  imports ProtoCommon
begin

text \<open>
  The messages of profiles and of their export. The messages \<^verbatim>\<open>Line\<close>, \<^verbatim>\<open>Function\<close> and \<^verbatim>\<open>Link\<close> are the records
  \<open>Line_msg\<close>, \<open>Function_msg\<close> and \<open>Link_msg\<close>.
\<close>

subsection \<open>ValueType\<close>

record ValueType =
  ValueType_TypeStrindex :: "32 word"
  ValueType_UnitStrindex :: "32 word"

definition ValueType_zero :: ValueType where
  "ValueType_zero = \<lparr>ValueType_TypeStrindex = 0, ValueType_UnitStrindex = 0\<rparr>"

definition ValueType_SizeProto :: "ValueType \<Rightarrow> nat" where
  "ValueType_SizeProto orig = sum_list [
     if ValueType_TypeStrindex orig \<noteq> 0 then 1 + Sov (scast (ValueType_TypeStrindex orig)) else 0,
     if ValueType_UnitStrindex orig \<noteq> 0 then 1 + Sov (scast (ValueType_UnitStrindex orig)) else 0]"

definition ValueType_MarshalProto :: "ValueType \<Rightarrow> writer" where
  "ValueType_MarshalProto orig = writes [
     w_varint [0x8] (scast (ValueType_TypeStrindex orig)),
     w_varint [0x10] (scast (ValueType_UnitStrindex orig))]"

definition ValueType_field :: "int \<Rightarrow> ValueType reader" where
  "ValueType_field fieldNum =
     (if fieldNum = 1 then r_varint ''TypeStrindex'' (\<lambda>num orig. orig\<lparr>ValueType_TypeStrindex := ucast num\<rparr>)
      else if fieldNum = 2 then r_varint ''UnitStrindex'' (\<lambda>num orig. orig\<lparr>ValueType_UnitStrindex := ucast num\<rparr>)
      else r_unknown)"

definition ValueType_UnmarshalProto :: "byte list \<Rightarrow> ValueType \<Rightarrow> ValueType unmarshalled" where
  "ValueType_UnmarshalProto = unmarshal ValueType_field"

definition ValueType_bytes :: "ValueType \<Rightarrow> byte list" where
  "ValueType_bytes orig = concat (rev [
     b_varint [0x8] (scast (ValueType_TypeStrindex orig)),
     b_varint [0x10] (scast (ValueType_UnitStrindex orig))])"

lemma emits_ValueType [emits_intros]: "emits (ValueType_MarshalProto orig) (ValueType_bytes orig)"
  unfolding ValueType_MarshalProto_def ValueType_bytes_def by (rule emits_writes) (simp add: emits_intros)

lemma ValueType_size [size_simps]: "length (ValueType_bytes orig) = ValueType_SizeProto orig"
  by (simp add: ValueType_bytes_def ValueType_SizeProto_def size_simps comp_def)

lemma ValueType_fields:
  "ValueType_field 1 = r_varint ''TypeStrindex'' (\<lambda>num orig. orig\<lparr>ValueType_TypeStrindex := ucast num\<rparr>)"
  "ValueType_field 2 = r_varint ''UnitStrindex'' (\<lambda>num orig. orig\<lparr>ValueType_UnitStrindex := ucast num\<rparr>)"
  by (simp_all add: ValueType_field_def)

lemma ValueType_eta: "\<lparr>ValueType_TypeStrindex = ValueType_TypeStrindex orig, ValueType_UnitStrindex = ValueType_UnitStrindex orig\<rparr> = (orig :: ValueType)"
  by (cases orig) simp

lemmas ValueType_steps =
  reads_varint [where h = ValueType_field and f = 1 and tag = "[0x8]", OF _ ValueType_fields(1), THEN reads_append]
  reads_varint [where h = ValueType_field and f = 2 and tag = "[0x10]", OF _ ValueType_fields(2), THEN reads_append]

lemma ValueType_reads: "reads ValueType_field (ValueType_bytes orig) ValueType_zero orig"
  unfolding ValueType_bytes_def rev.simps append.simps concat.simps
  by (intro ValueType_steps reads_done)
    (simp_all add: ValueType_zero_def ValueType_eta  split: option.splits)

lemma ValueType_roundtrip:
  "length (ValueType_bytes orig) < 2 ^ 62 \<Longrightarrow> ValueType_UnmarshalProto (ValueType_bytes orig) ValueType_zero = Some (Ok orig)"
  by (simp add: ValueType_UnmarshalProto_def unmarshal_reads ValueType_reads)

lemma ValueType_safe [safe_intros]: "safe_unmarshal ValueType_UnmarshalProto"
  unfolding ValueType_UnmarshalProto_def by (rule safe_unmarshal_fields) (auto simp: ValueType_field_def intro!: safe_intros)

subsection \<open>Sample\<close>

record Sample =
  Sample_AttributeIndices :: "32 word list"
  Sample_Values :: "u64 list"
  Sample_TimestampsUnixNano :: "u64 list"
  Sample_StackIndex :: "32 word"
  Sample_LinkIndex :: "32 word"

definition Sample_zero :: Sample where
  "Sample_zero = \<lparr>Sample_AttributeIndices = [], Sample_Values = [], Sample_TimestampsUnixNano = [], Sample_StackIndex = 0, Sample_LinkIndex = 0\<rparr>"

definition Sample_SizeProto :: "Sample \<Rightarrow> nat" where
  "Sample_SizeProto orig = sum_list [
     if Sample_StackIndex orig \<noteq> 0 then 1 + Sov (scast (Sample_StackIndex orig)) else 0,
     size_packed_varint 1 (map scast (Sample_AttributeIndices orig)),
     if Sample_LinkIndex orig \<noteq> 0 then 1 + Sov (scast (Sample_LinkIndex orig)) else 0,
     size_packed_varint 1 (Sample_Values orig),
     size_packed64 1 (Sample_TimestampsUnixNano orig)]"

definition Sample_MarshalProto :: "Sample \<Rightarrow> writer" where
  "Sample_MarshalProto orig = writes [
     w_varint [0x8] (scast (Sample_StackIndex orig)),
     w_packed_varint [0x12] (map scast (Sample_AttributeIndices orig)),
     w_varint [0x18] (scast (Sample_LinkIndex orig)),
     w_packed_varint [0x22] (Sample_Values orig),
     w_packed64 [0x2a] (Sample_TimestampsUnixNano orig)]"

definition Sample_field :: "int \<Rightarrow> Sample reader" where
  "Sample_field fieldNum =
     (if fieldNum = 1 then r_varint ''StackIndex'' (\<lambda>num orig. orig\<lparr>Sample_StackIndex := ucast num\<rparr>)
      else if fieldNum = 2 then r_packed_varint ''AttributeIndices'' (\<lambda>nums orig. orig\<lparr>Sample_AttributeIndices := Sample_AttributeIndices orig @ map ucast nums\<rparr>)
      else if fieldNum = 3 then r_varint ''LinkIndex'' (\<lambda>num orig. orig\<lparr>Sample_LinkIndex := ucast num\<rparr>)
      else if fieldNum = 4 then r_packed_varint ''Values'' (\<lambda>nums orig. orig\<lparr>Sample_Values := Sample_Values orig @ nums\<rparr>)
      else if fieldNum = 5 then r_packed64 ''TimestampsUnixNano'' (\<lambda>nums orig. orig\<lparr>Sample_TimestampsUnixNano := nums\<rparr>) (\<lambda>num orig. orig\<lparr>Sample_TimestampsUnixNano := Sample_TimestampsUnixNano orig @ [num]\<rparr>)
      else r_unknown)"

definition Sample_UnmarshalProto :: "byte list \<Rightarrow> Sample \<Rightarrow> Sample unmarshalled" where
  "Sample_UnmarshalProto = unmarshal Sample_field"

definition Sample_bytes :: "Sample \<Rightarrow> byte list" where
  "Sample_bytes orig = concat (rev [
     b_varint [0x8] (scast (Sample_StackIndex orig)),
     b_packed_varint [0x12] (map scast (Sample_AttributeIndices orig)),
     b_varint [0x18] (scast (Sample_LinkIndex orig)),
     b_packed_varint [0x22] (Sample_Values orig),
     b_packed64 [0x2a] (Sample_TimestampsUnixNano orig)])"

lemma emits_Sample [emits_intros]: "emits (Sample_MarshalProto orig) (Sample_bytes orig)"
  unfolding Sample_MarshalProto_def Sample_bytes_def by (rule emits_writes) (simp add: emits_intros)

lemma Sample_size [size_simps]: "length (Sample_bytes orig) = Sample_SizeProto orig"
  by (simp add: Sample_bytes_def Sample_SizeProto_def size_simps comp_def)

lemma Sample_fields:
  "Sample_field 1 = r_varint ''StackIndex'' (\<lambda>num orig. orig\<lparr>Sample_StackIndex := ucast num\<rparr>)"
  "Sample_field 2 = r_packed_varint ''AttributeIndices'' (\<lambda>nums orig. orig\<lparr>Sample_AttributeIndices := Sample_AttributeIndices orig @ map ucast nums\<rparr>)"
  "Sample_field 3 = r_varint ''LinkIndex'' (\<lambda>num orig. orig\<lparr>Sample_LinkIndex := ucast num\<rparr>)"
  "Sample_field 4 = r_packed_varint ''Values'' (\<lambda>nums orig. orig\<lparr>Sample_Values := Sample_Values orig @ nums\<rparr>)"
  "Sample_field 5 = r_packed64 ''TimestampsUnixNano'' (\<lambda>nums orig. orig\<lparr>Sample_TimestampsUnixNano := nums\<rparr>) (\<lambda>num orig. orig\<lparr>Sample_TimestampsUnixNano := Sample_TimestampsUnixNano orig @ [num]\<rparr>)"
  by (simp_all add: Sample_field_def)

lemma Sample_eta: "\<lparr>Sample_AttributeIndices = Sample_AttributeIndices orig, Sample_Values = Sample_Values orig, Sample_TimestampsUnixNano = Sample_TimestampsUnixNano orig, Sample_StackIndex = Sample_StackIndex orig, Sample_LinkIndex = Sample_LinkIndex orig\<rparr> = (orig :: Sample)"
  by (cases orig) simp

lemmas Sample_steps =
  reads_varint [where h = Sample_field and f = 1 and tag = "[0x8]", OF _ Sample_fields(1), THEN reads_append]
  reads_packed_varint [where h = Sample_field and f = 2 and tag = "[0x12]", OF _ Sample_fields(2), THEN reads_append]
  reads_varint [where h = Sample_field and f = 3 and tag = "[0x18]", OF _ Sample_fields(3), THEN reads_append]
  reads_packed_varint [where h = Sample_field and f = 4 and tag = "[0x22]", OF _ Sample_fields(4), THEN reads_append]
  reads_packed64 [where h = Sample_field and f = 5 and tag = "[0x2a]", OF _ Sample_fields(5), THEN reads_append]

lemma Sample_reads: "reads Sample_field (Sample_bytes orig) Sample_zero orig"
  unfolding Sample_bytes_def rev.simps append.simps concat.simps
  by (intro Sample_steps reads_done)
    (simp_all add: Sample_zero_def Sample_eta  split: option.splits)

lemma Sample_roundtrip:
  "length (Sample_bytes orig) < 2 ^ 62 \<Longrightarrow> Sample_UnmarshalProto (Sample_bytes orig) Sample_zero = Some (Ok orig)"
  by (simp add: Sample_UnmarshalProto_def unmarshal_reads Sample_reads)

lemma Sample_safe [safe_intros]: "safe_unmarshal Sample_UnmarshalProto"
  unfolding Sample_UnmarshalProto_def by (rule safe_unmarshal_fields) (auto simp: Sample_field_def intro!: safe_intros)

subsection \<open>Mapping\<close>

record Mapping =
  Mapping_AttributeIndices :: "32 word list"
  Mapping_MemoryStart :: u64
  Mapping_MemoryLimit :: u64
  Mapping_FileOffset :: u64
  Mapping_FilenameStrindex :: "32 word"

definition Mapping_zero :: Mapping where
  "Mapping_zero = \<lparr>Mapping_AttributeIndices = [], Mapping_MemoryStart = 0, Mapping_MemoryLimit = 0, Mapping_FileOffset = 0, Mapping_FilenameStrindex = 0\<rparr>"

definition Mapping_SizeProto :: "Mapping \<Rightarrow> nat" where
  "Mapping_SizeProto orig = sum_list [
     if Mapping_MemoryStart orig \<noteq> 0 then 1 + Sov ((Mapping_MemoryStart orig)) else 0,
     if Mapping_MemoryLimit orig \<noteq> 0 then 1 + Sov ((Mapping_MemoryLimit orig)) else 0,
     if Mapping_FileOffset orig \<noteq> 0 then 1 + Sov ((Mapping_FileOffset orig)) else 0,
     if Mapping_FilenameStrindex orig \<noteq> 0 then 1 + Sov (scast (Mapping_FilenameStrindex orig)) else 0,
     size_packed_varint 1 (map scast (Mapping_AttributeIndices orig))]"

definition Mapping_MarshalProto :: "Mapping \<Rightarrow> writer" where
  "Mapping_MarshalProto orig = writes [
     w_varint [0x8] (Mapping_MemoryStart orig),
     w_varint [0x10] (Mapping_MemoryLimit orig),
     w_varint [0x18] (Mapping_FileOffset orig),
     w_varint [0x20] (scast (Mapping_FilenameStrindex orig)),
     w_packed_varint [0x2a] (map scast (Mapping_AttributeIndices orig))]"

definition Mapping_field :: "int \<Rightarrow> Mapping reader" where
  "Mapping_field fieldNum =
     (if fieldNum = 1 then r_varint ''MemoryStart'' (\<lambda>num orig. orig\<lparr>Mapping_MemoryStart := num\<rparr>)
      else if fieldNum = 2 then r_varint ''MemoryLimit'' (\<lambda>num orig. orig\<lparr>Mapping_MemoryLimit := num\<rparr>)
      else if fieldNum = 3 then r_varint ''FileOffset'' (\<lambda>num orig. orig\<lparr>Mapping_FileOffset := num\<rparr>)
      else if fieldNum = 4 then r_varint ''FilenameStrindex'' (\<lambda>num orig. orig\<lparr>Mapping_FilenameStrindex := ucast num\<rparr>)
      else if fieldNum = 5 then r_packed_varint ''AttributeIndices'' (\<lambda>nums orig. orig\<lparr>Mapping_AttributeIndices := Mapping_AttributeIndices orig @ map ucast nums\<rparr>)
      else r_unknown)"

definition Mapping_UnmarshalProto :: "byte list \<Rightarrow> Mapping \<Rightarrow> Mapping unmarshalled" where
  "Mapping_UnmarshalProto = unmarshal Mapping_field"

definition Mapping_bytes :: "Mapping \<Rightarrow> byte list" where
  "Mapping_bytes orig = concat (rev [
     b_varint [0x8] (Mapping_MemoryStart orig),
     b_varint [0x10] (Mapping_MemoryLimit orig),
     b_varint [0x18] (Mapping_FileOffset orig),
     b_varint [0x20] (scast (Mapping_FilenameStrindex orig)),
     b_packed_varint [0x2a] (map scast (Mapping_AttributeIndices orig))])"

lemma emits_Mapping [emits_intros]: "emits (Mapping_MarshalProto orig) (Mapping_bytes orig)"
  unfolding Mapping_MarshalProto_def Mapping_bytes_def by (rule emits_writes) (simp add: emits_intros)

lemma Mapping_size [size_simps]: "length (Mapping_bytes orig) = Mapping_SizeProto orig"
  by (simp add: Mapping_bytes_def Mapping_SizeProto_def size_simps comp_def)

lemma Mapping_fields:
  "Mapping_field 1 = r_varint ''MemoryStart'' (\<lambda>num orig. orig\<lparr>Mapping_MemoryStart := num\<rparr>)"
  "Mapping_field 2 = r_varint ''MemoryLimit'' (\<lambda>num orig. orig\<lparr>Mapping_MemoryLimit := num\<rparr>)"
  "Mapping_field 3 = r_varint ''FileOffset'' (\<lambda>num orig. orig\<lparr>Mapping_FileOffset := num\<rparr>)"
  "Mapping_field 4 = r_varint ''FilenameStrindex'' (\<lambda>num orig. orig\<lparr>Mapping_FilenameStrindex := ucast num\<rparr>)"
  "Mapping_field 5 = r_packed_varint ''AttributeIndices'' (\<lambda>nums orig. orig\<lparr>Mapping_AttributeIndices := Mapping_AttributeIndices orig @ map ucast nums\<rparr>)"
  by (simp_all add: Mapping_field_def)

lemma Mapping_eta: "\<lparr>Mapping_AttributeIndices = Mapping_AttributeIndices orig, Mapping_MemoryStart = Mapping_MemoryStart orig, Mapping_MemoryLimit = Mapping_MemoryLimit orig, Mapping_FileOffset = Mapping_FileOffset orig, Mapping_FilenameStrindex = Mapping_FilenameStrindex orig\<rparr> = (orig :: Mapping)"
  by (cases orig) simp

lemmas Mapping_steps =
  reads_varint [where h = Mapping_field and f = 1 and tag = "[0x8]", OF _ Mapping_fields(1), THEN reads_append]
  reads_varint [where h = Mapping_field and f = 2 and tag = "[0x10]", OF _ Mapping_fields(2), THEN reads_append]
  reads_varint [where h = Mapping_field and f = 3 and tag = "[0x18]", OF _ Mapping_fields(3), THEN reads_append]
  reads_varint [where h = Mapping_field and f = 4 and tag = "[0x20]", OF _ Mapping_fields(4), THEN reads_append]
  reads_packed_varint [where h = Mapping_field and f = 5 and tag = "[0x2a]", OF _ Mapping_fields(5), THEN reads_append]

lemma Mapping_reads: "reads Mapping_field (Mapping_bytes orig) Mapping_zero orig"
  unfolding Mapping_bytes_def rev.simps append.simps concat.simps
  by (intro Mapping_steps reads_done)
    (simp_all add: Mapping_zero_def Mapping_eta  split: option.splits)

lemma Mapping_roundtrip:
  "length (Mapping_bytes orig) < 2 ^ 62 \<Longrightarrow> Mapping_UnmarshalProto (Mapping_bytes orig) Mapping_zero = Some (Ok orig)"
  by (simp add: Mapping_UnmarshalProto_def unmarshal_reads Mapping_reads)

lemma Mapping_safe [safe_intros]: "safe_unmarshal Mapping_UnmarshalProto"
  unfolding Mapping_UnmarshalProto_def by (rule safe_unmarshal_fields) (auto simp: Mapping_field_def intro!: safe_intros)

subsection \<open>Line\<close>

record Line_msg =
  Line_msg_FunctionIndex :: "32 word"
  Line_msg_Line :: u64
  Line_msg_Column :: u64

definition Line_msg_zero :: Line_msg where
  "Line_msg_zero = \<lparr>Line_msg_FunctionIndex = 0, Line_msg_Line = 0, Line_msg_Column = 0\<rparr>"

definition Line_msg_SizeProto :: "Line_msg \<Rightarrow> nat" where
  "Line_msg_SizeProto orig = sum_list [
     if Line_msg_FunctionIndex orig \<noteq> 0 then 1 + Sov (scast (Line_msg_FunctionIndex orig)) else 0,
     if Line_msg_Line orig \<noteq> 0 then 1 + Sov ((Line_msg_Line orig)) else 0,
     if Line_msg_Column orig \<noteq> 0 then 1 + Sov ((Line_msg_Column orig)) else 0]"

definition Line_msg_MarshalProto :: "Line_msg \<Rightarrow> writer" where
  "Line_msg_MarshalProto orig = writes [
     w_varint [0x8] (scast (Line_msg_FunctionIndex orig)),
     w_varint [0x10] (Line_msg_Line orig),
     w_varint [0x18] (Line_msg_Column orig)]"

definition Line_msg_field :: "int \<Rightarrow> Line_msg reader" where
  "Line_msg_field fieldNum =
     (if fieldNum = 1 then r_varint ''FunctionIndex'' (\<lambda>num orig. orig\<lparr>Line_msg_FunctionIndex := ucast num\<rparr>)
      else if fieldNum = 2 then r_varint ''Line'' (\<lambda>num orig. orig\<lparr>Line_msg_Line := num\<rparr>)
      else if fieldNum = 3 then r_varint ''Column'' (\<lambda>num orig. orig\<lparr>Line_msg_Column := num\<rparr>)
      else r_unknown)"

definition Line_msg_UnmarshalProto :: "byte list \<Rightarrow> Line_msg \<Rightarrow> Line_msg unmarshalled" where
  "Line_msg_UnmarshalProto = unmarshal Line_msg_field"

definition Line_msg_bytes :: "Line_msg \<Rightarrow> byte list" where
  "Line_msg_bytes orig = concat (rev [
     b_varint [0x8] (scast (Line_msg_FunctionIndex orig)),
     b_varint [0x10] (Line_msg_Line orig),
     b_varint [0x18] (Line_msg_Column orig)])"

lemma emits_Line_msg [emits_intros]: "emits (Line_msg_MarshalProto orig) (Line_msg_bytes orig)"
  unfolding Line_msg_MarshalProto_def Line_msg_bytes_def by (rule emits_writes) (simp add: emits_intros)

lemma Line_msg_size [size_simps]: "length (Line_msg_bytes orig) = Line_msg_SizeProto orig"
  by (simp add: Line_msg_bytes_def Line_msg_SizeProto_def size_simps comp_def)

lemma Line_msg_fields:
  "Line_msg_field 1 = r_varint ''FunctionIndex'' (\<lambda>num orig. orig\<lparr>Line_msg_FunctionIndex := ucast num\<rparr>)"
  "Line_msg_field 2 = r_varint ''Line'' (\<lambda>num orig. orig\<lparr>Line_msg_Line := num\<rparr>)"
  "Line_msg_field 3 = r_varint ''Column'' (\<lambda>num orig. orig\<lparr>Line_msg_Column := num\<rparr>)"
  by (simp_all add: Line_msg_field_def)

lemma Line_msg_eta: "\<lparr>Line_msg_FunctionIndex = Line_msg_FunctionIndex orig, Line_msg_Line = Line_msg_Line orig, Line_msg_Column = Line_msg_Column orig\<rparr> = (orig :: Line_msg)"
  by (cases orig) simp

lemmas Line_msg_steps =
  reads_varint [where h = Line_msg_field and f = 1 and tag = "[0x8]", OF _ Line_msg_fields(1), THEN reads_append]
  reads_varint [where h = Line_msg_field and f = 2 and tag = "[0x10]", OF _ Line_msg_fields(2), THEN reads_append]
  reads_varint [where h = Line_msg_field and f = 3 and tag = "[0x18]", OF _ Line_msg_fields(3), THEN reads_append]

lemma Line_msg_reads: "reads Line_msg_field (Line_msg_bytes orig) Line_msg_zero orig"
  unfolding Line_msg_bytes_def rev.simps append.simps concat.simps
  by (intro Line_msg_steps reads_done)
    (simp_all add: Line_msg_zero_def Line_msg_eta  split: option.splits)

lemma Line_msg_roundtrip:
  "length (Line_msg_bytes orig) < 2 ^ 62 \<Longrightarrow> Line_msg_UnmarshalProto (Line_msg_bytes orig) Line_msg_zero = Some (Ok orig)"
  by (simp add: Line_msg_UnmarshalProto_def unmarshal_reads Line_msg_reads)

lemma Line_msg_safe [safe_intros]: "safe_unmarshal Line_msg_UnmarshalProto"
  unfolding Line_msg_UnmarshalProto_def by (rule safe_unmarshal_fields) (auto simp: Line_msg_field_def intro!: safe_intros)

subsection \<open>Location\<close>

record Location =
  Location_Lines :: "Line_msg list"
  Location_AttributeIndices :: "32 word list"
  Location_Address :: u64
  Location_MappingIndex :: "32 word"

definition Location_zero :: Location where
  "Location_zero = \<lparr>Location_Lines = [], Location_AttributeIndices = [], Location_Address = 0, Location_MappingIndex = 0\<rparr>"

definition Location_SizeProto :: "Location \<Rightarrow> nat" where
  "Location_SizeProto orig = sum_list [
     if Location_MappingIndex orig \<noteq> 0 then 1 + Sov (scast (Location_MappingIndex orig)) else 0,
     if Location_Address orig \<noteq> 0 then 1 + Sov ((Location_Address orig)) else 0,
     \<Sum>x\<leftarrow>Location_Lines orig. size_len 1 (Line_msg_SizeProto x),
     size_packed_varint 1 (map scast (Location_AttributeIndices orig))]"

definition Location_MarshalProto :: "Location \<Rightarrow> writer" where
  "Location_MarshalProto orig = writes [
     w_varint [0x8] (scast (Location_MappingIndex orig)),
     w_varint [0x10] (Location_Address orig),
     w_repeated [0x1a] Line_msg_MarshalProto (Location_Lines orig),
     w_packed_varint [0x22] (map scast (Location_AttributeIndices orig))]"

definition Location_field :: "int \<Rightarrow> Location reader" where
  "Location_field fieldNum =
     (if fieldNum = 1 then r_varint ''MappingIndex'' (\<lambda>num orig. orig\<lparr>Location_MappingIndex := ucast num\<rparr>)
      else if fieldNum = 2 then r_varint ''Address'' (\<lambda>num orig. orig\<lparr>Location_Address := num\<rparr>)
      else if fieldNum = 3 then r_message ''Lines'' Line_msg_UnmarshalProto (\<lambda>_. Line_msg_zero) (\<lambda>v orig. orig\<lparr>Location_Lines := Location_Lines orig @ [v]\<rparr>)
      else if fieldNum = 4 then r_packed_varint ''AttributeIndices'' (\<lambda>nums orig. orig\<lparr>Location_AttributeIndices := Location_AttributeIndices orig @ map ucast nums\<rparr>)
      else r_unknown)"

definition Location_UnmarshalProto :: "byte list \<Rightarrow> Location \<Rightarrow> Location unmarshalled" where
  "Location_UnmarshalProto = unmarshal Location_field"

definition Location_bytes :: "Location \<Rightarrow> byte list" where
  "Location_bytes orig = concat (rev [
     b_varint [0x8] (scast (Location_MappingIndex orig)),
     b_varint [0x10] (Location_Address orig),
     b_repeated [0x1a] (map Line_msg_bytes (Location_Lines orig)),
     b_packed_varint [0x22] (map scast (Location_AttributeIndices orig))])"

lemma emits_Location [emits_intros]: "emits (Location_MarshalProto orig) (Location_bytes orig)"
  unfolding Location_MarshalProto_def Location_bytes_def by (rule emits_writes) (simp add: emits_intros)

lemma Location_size [size_simps]: "length (Location_bytes orig) = Location_SizeProto orig"
  by (simp add: Location_bytes_def Location_SizeProto_def size_simps comp_def)

lemma Location_fields:
  "Location_field 1 = r_varint ''MappingIndex'' (\<lambda>num orig. orig\<lparr>Location_MappingIndex := ucast num\<rparr>)"
  "Location_field 2 = r_varint ''Address'' (\<lambda>num orig. orig\<lparr>Location_Address := num\<rparr>)"
  "Location_field 3 = r_message ''Lines'' Line_msg_UnmarshalProto (\<lambda>_. Line_msg_zero) (\<lambda>v orig. orig\<lparr>Location_Lines := Location_Lines orig @ [v]\<rparr>)"
  "Location_field 4 = r_packed_varint ''AttributeIndices'' (\<lambda>nums orig. orig\<lparr>Location_AttributeIndices := Location_AttributeIndices orig @ map ucast nums\<rparr>)"
  by (simp_all add: Location_field_def)

lemma Location_eta: "\<lparr>Location_Lines = Location_Lines orig, Location_AttributeIndices = Location_AttributeIndices orig, Location_Address = Location_Address orig, Location_MappingIndex = Location_MappingIndex orig\<rparr> = (orig :: Location)"
  by (cases orig) simp

lemmas Location_steps =
  reads_varint [where h = Location_field and f = 1 and tag = "[0x8]", OF _ Location_fields(1), THEN reads_append]
  reads_varint [where h = Location_field and f = 2 and tag = "[0x10]", OF _ Location_fields(2), THEN reads_append]
  reads_submessages [where h = Location_field and f = 3 and tag = "[0x1a]" and S = "\<lambda>x orig. orig\<lparr>Location_Lines := x\<rparr>" and b = Line_msg_bytes, OF _ Location_fields(3), THEN reads_append]
  reads_packed_varint [where h = Location_field and f = 4 and tag = "[0x22]", OF _ Location_fields(4), THEN reads_append]

lemma Location_reads: "reads Location_field (Location_bytes orig) Location_zero orig"
  unfolding Location_bytes_def rev.simps append.simps concat.simps
  by (intro Location_steps reads_done)
    (simp_all add: Location_zero_def Location_eta Line_msg_roundtrip split: option.splits)

lemma Location_roundtrip:
  "length (Location_bytes orig) < 2 ^ 62 \<Longrightarrow> Location_UnmarshalProto (Location_bytes orig) Location_zero = Some (Ok orig)"
  by (simp add: Location_UnmarshalProto_def unmarshal_reads Location_reads)

lemma Location_safe [safe_intros]: "safe_unmarshal Location_UnmarshalProto"
  unfolding Location_UnmarshalProto_def by (rule safe_unmarshal_fields) (auto simp: Location_field_def intro!: safe_intros)

subsection \<open>Function\<close>

record Function_msg =
  Function_msg_NameStrindex :: "32 word"
  Function_msg_SystemNameStrindex :: "32 word"
  Function_msg_FilenameStrindex :: "32 word"
  Function_msg_StartLine :: u64

definition Function_msg_zero :: Function_msg where
  "Function_msg_zero = \<lparr>Function_msg_NameStrindex = 0, Function_msg_SystemNameStrindex = 0, Function_msg_FilenameStrindex = 0, Function_msg_StartLine = 0\<rparr>"

definition Function_msg_SizeProto :: "Function_msg \<Rightarrow> nat" where
  "Function_msg_SizeProto orig = sum_list [
     if Function_msg_NameStrindex orig \<noteq> 0 then 1 + Sov (scast (Function_msg_NameStrindex orig)) else 0,
     if Function_msg_SystemNameStrindex orig \<noteq> 0 then 1 + Sov (scast (Function_msg_SystemNameStrindex orig)) else 0,
     if Function_msg_FilenameStrindex orig \<noteq> 0 then 1 + Sov (scast (Function_msg_FilenameStrindex orig)) else 0,
     if Function_msg_StartLine orig \<noteq> 0 then 1 + Sov ((Function_msg_StartLine orig)) else 0]"

definition Function_msg_MarshalProto :: "Function_msg \<Rightarrow> writer" where
  "Function_msg_MarshalProto orig = writes [
     w_varint [0x8] (scast (Function_msg_NameStrindex orig)),
     w_varint [0x10] (scast (Function_msg_SystemNameStrindex orig)),
     w_varint [0x18] (scast (Function_msg_FilenameStrindex orig)),
     w_varint [0x20] (Function_msg_StartLine orig)]"

definition Function_msg_field :: "int \<Rightarrow> Function_msg reader" where
  "Function_msg_field fieldNum =
     (if fieldNum = 1 then r_varint ''NameStrindex'' (\<lambda>num orig. orig\<lparr>Function_msg_NameStrindex := ucast num\<rparr>)
      else if fieldNum = 2 then r_varint ''SystemNameStrindex'' (\<lambda>num orig. orig\<lparr>Function_msg_SystemNameStrindex := ucast num\<rparr>)
      else if fieldNum = 3 then r_varint ''FilenameStrindex'' (\<lambda>num orig. orig\<lparr>Function_msg_FilenameStrindex := ucast num\<rparr>)
      else if fieldNum = 4 then r_varint ''StartLine'' (\<lambda>num orig. orig\<lparr>Function_msg_StartLine := num\<rparr>)
      else r_unknown)"

definition Function_msg_UnmarshalProto :: "byte list \<Rightarrow> Function_msg \<Rightarrow> Function_msg unmarshalled" where
  "Function_msg_UnmarshalProto = unmarshal Function_msg_field"

definition Function_msg_bytes :: "Function_msg \<Rightarrow> byte list" where
  "Function_msg_bytes orig = concat (rev [
     b_varint [0x8] (scast (Function_msg_NameStrindex orig)),
     b_varint [0x10] (scast (Function_msg_SystemNameStrindex orig)),
     b_varint [0x18] (scast (Function_msg_FilenameStrindex orig)),
     b_varint [0x20] (Function_msg_StartLine orig)])"

lemma emits_Function_msg [emits_intros]: "emits (Function_msg_MarshalProto orig) (Function_msg_bytes orig)"
  unfolding Function_msg_MarshalProto_def Function_msg_bytes_def by (rule emits_writes) (simp add: emits_intros)

lemma Function_msg_size [size_simps]: "length (Function_msg_bytes orig) = Function_msg_SizeProto orig"
  by (simp add: Function_msg_bytes_def Function_msg_SizeProto_def size_simps comp_def)

lemma Function_msg_fields:
  "Function_msg_field 1 = r_varint ''NameStrindex'' (\<lambda>num orig. orig\<lparr>Function_msg_NameStrindex := ucast num\<rparr>)"
  "Function_msg_field 2 = r_varint ''SystemNameStrindex'' (\<lambda>num orig. orig\<lparr>Function_msg_SystemNameStrindex := ucast num\<rparr>)"
  "Function_msg_field 3 = r_varint ''FilenameStrindex'' (\<lambda>num orig. orig\<lparr>Function_msg_FilenameStrindex := ucast num\<rparr>)"
  "Function_msg_field 4 = r_varint ''StartLine'' (\<lambda>num orig. orig\<lparr>Function_msg_StartLine := num\<rparr>)"
  by (simp_all add: Function_msg_field_def)

lemma Function_msg_eta: "\<lparr>Function_msg_NameStrindex = Function_msg_NameStrindex orig, Function_msg_SystemNameStrindex = Function_msg_SystemNameStrindex orig, Function_msg_FilenameStrindex = Function_msg_FilenameStrindex orig, Function_msg_StartLine = Function_msg_StartLine orig\<rparr> = (orig :: Function_msg)"
  by (cases orig) simp

lemmas Function_msg_steps =
  reads_varint [where h = Function_msg_field and f = 1 and tag = "[0x8]", OF _ Function_msg_fields(1), THEN reads_append]
  reads_varint [where h = Function_msg_field and f = 2 and tag = "[0x10]", OF _ Function_msg_fields(2), THEN reads_append]
  reads_varint [where h = Function_msg_field and f = 3 and tag = "[0x18]", OF _ Function_msg_fields(3), THEN reads_append]
  reads_varint [where h = Function_msg_field and f = 4 and tag = "[0x20]", OF _ Function_msg_fields(4), THEN reads_append]

lemma Function_msg_reads: "reads Function_msg_field (Function_msg_bytes orig) Function_msg_zero orig"
  unfolding Function_msg_bytes_def rev.simps append.simps concat.simps
  by (intro Function_msg_steps reads_done)
    (simp_all add: Function_msg_zero_def Function_msg_eta  split: option.splits)

lemma Function_msg_roundtrip:
  "length (Function_msg_bytes orig) < 2 ^ 62 \<Longrightarrow> Function_msg_UnmarshalProto (Function_msg_bytes orig) Function_msg_zero = Some (Ok orig)"
  by (simp add: Function_msg_UnmarshalProto_def unmarshal_reads Function_msg_reads)

lemma Function_msg_safe [safe_intros]: "safe_unmarshal Function_msg_UnmarshalProto"
  unfolding Function_msg_UnmarshalProto_def by (rule safe_unmarshal_fields) (auto simp: Function_msg_field_def intro!: safe_intros)

subsection \<open>Link\<close>

record Link_msg =
  Link_msg_TraceId :: TraceID
  Link_msg_SpanId :: SpanID

definition Link_msg_zero :: Link_msg where
  "Link_msg_zero = \<lparr>Link_msg_TraceId = 0, Link_msg_SpanId = 0\<rparr>"

definition Link_msg_SizeProto :: "Link_msg \<Rightarrow> nat" where
  "Link_msg_SizeProto orig = sum_list [
     size_len 1 (TraceID_SizeProto (Link_msg_TraceId orig)),
     size_len 1 (SpanID_SizeProto (Link_msg_SpanId orig))]"

definition Link_msg_MarshalProto :: "Link_msg \<Rightarrow> writer" where
  "Link_msg_MarshalProto orig = writes [
     w_message [0xa] (TraceID_MarshalProto (Link_msg_TraceId orig)),
     w_message [0x12] (SpanID_MarshalProto (Link_msg_SpanId orig))]"

definition Link_msg_field :: "int \<Rightarrow> Link_msg reader" where
  "Link_msg_field fieldNum =
     (if fieldNum = 1 then r_message ''TraceId'' TraceID_UnmarshalProto Link_msg_TraceId (\<lambda>v orig. orig\<lparr>Link_msg_TraceId := v\<rparr>)
      else if fieldNum = 2 then r_message ''SpanId'' SpanID_UnmarshalProto Link_msg_SpanId (\<lambda>v orig. orig\<lparr>Link_msg_SpanId := v\<rparr>)
      else r_unknown)"

definition Link_msg_UnmarshalProto :: "byte list \<Rightarrow> Link_msg \<Rightarrow> Link_msg unmarshalled" where
  "Link_msg_UnmarshalProto = unmarshal Link_msg_field"

definition Link_msg_bytes :: "Link_msg \<Rightarrow> byte list" where
  "Link_msg_bytes orig = concat (rev [
     len_bytes [0xa] (TraceID_bytes (Link_msg_TraceId orig)),
     len_bytes [0x12] (SpanID_bytes (Link_msg_SpanId orig))])"

lemma emits_Link_msg [emits_intros]: "emits (Link_msg_MarshalProto orig) (Link_msg_bytes orig)"
  unfolding Link_msg_MarshalProto_def Link_msg_bytes_def by (rule emits_writes) (simp add: emits_intros)

lemma Link_msg_size [size_simps]: "length (Link_msg_bytes orig) = Link_msg_SizeProto orig"
  by (simp add: Link_msg_bytes_def Link_msg_SizeProto_def size_simps comp_def)

lemma Link_msg_fields:
  "Link_msg_field 1 = r_message ''TraceId'' TraceID_UnmarshalProto Link_msg_TraceId (\<lambda>v orig. orig\<lparr>Link_msg_TraceId := v\<rparr>)"
  "Link_msg_field 2 = r_message ''SpanId'' SpanID_UnmarshalProto Link_msg_SpanId (\<lambda>v orig. orig\<lparr>Link_msg_SpanId := v\<rparr>)"
  by (simp_all add: Link_msg_field_def)

lemma Link_msg_eta: "\<lparr>Link_msg_TraceId = Link_msg_TraceId orig, Link_msg_SpanId = Link_msg_SpanId orig\<rparr> = (orig :: Link_msg)"
  by (cases orig) simp

lemmas Link_msg_steps =
  reads_submessage [where h = Link_msg_field and f = 1 and tag = "[0xa]" and b = TraceID_bytes, OF _ Link_msg_fields(1), THEN reads_append]
  reads_submessage [where h = Link_msg_field and f = 2 and tag = "[0x12]" and b = SpanID_bytes, OF _ Link_msg_fields(2), THEN reads_append]

lemma Link_msg_reads: "reads Link_msg_field (Link_msg_bytes orig) Link_msg_zero orig"
  unfolding Link_msg_bytes_def rev.simps append.simps concat.simps
  by (intro Link_msg_steps reads_done)
    (simp_all add: Link_msg_zero_def Link_msg_eta SpanID_roundtrip TraceID_roundtrip split: option.splits)

lemma Link_msg_roundtrip:
  "length (Link_msg_bytes orig) < 2 ^ 62 \<Longrightarrow> Link_msg_UnmarshalProto (Link_msg_bytes orig) Link_msg_zero = Some (Ok orig)"
  by (simp add: Link_msg_UnmarshalProto_def unmarshal_reads Link_msg_reads)

lemma Link_msg_safe [safe_intros]: "safe_unmarshal Link_msg_UnmarshalProto"
  unfolding Link_msg_UnmarshalProto_def by (rule safe_unmarshal_fields) (auto simp: Link_msg_field_def intro!: safe_intros)

subsection \<open>KeyValueAndUnit\<close>

record KeyValueAndUnit =
  KeyValueAndUnit_Value :: AnyValue
  KeyValueAndUnit_KeyStrindex :: "32 word"
  KeyValueAndUnit_UnitStrindex :: "32 word"

definition KeyValueAndUnit_zero :: KeyValueAndUnit where
  "KeyValueAndUnit_zero = \<lparr>KeyValueAndUnit_Value = NoValue, KeyValueAndUnit_KeyStrindex = 0, KeyValueAndUnit_UnitStrindex = 0\<rparr>"

definition KeyValueAndUnit_SizeProto :: "KeyValueAndUnit \<Rightarrow> nat" where
  "KeyValueAndUnit_SizeProto orig = sum_list [
     if KeyValueAndUnit_KeyStrindex orig \<noteq> 0 then 1 + Sov (scast (KeyValueAndUnit_KeyStrindex orig)) else 0,
     size_len 1 (AnyValue_SizeProto (KeyValueAndUnit_Value orig)),
     if KeyValueAndUnit_UnitStrindex orig \<noteq> 0 then 1 + Sov (scast (KeyValueAndUnit_UnitStrindex orig)) else 0]"

definition KeyValueAndUnit_MarshalProto :: "KeyValueAndUnit \<Rightarrow> writer" where
  "KeyValueAndUnit_MarshalProto orig = writes [
     w_varint [0x8] (scast (KeyValueAndUnit_KeyStrindex orig)),
     w_message [0x12] (AnyValue_MarshalProto (KeyValueAndUnit_Value orig)),
     w_varint [0x18] (scast (KeyValueAndUnit_UnitStrindex orig))]"

definition KeyValueAndUnit_field :: "int \<Rightarrow> KeyValueAndUnit reader" where
  "KeyValueAndUnit_field fieldNum =
     (if fieldNum = 1 then r_varint ''KeyStrindex'' (\<lambda>num orig. orig\<lparr>KeyValueAndUnit_KeyStrindex := ucast num\<rparr>)
      else if fieldNum = 2 then r_message ''Value'' AnyValue_UnmarshalProto KeyValueAndUnit_Value (\<lambda>v orig. orig\<lparr>KeyValueAndUnit_Value := v\<rparr>)
      else if fieldNum = 3 then r_varint ''UnitStrindex'' (\<lambda>num orig. orig\<lparr>KeyValueAndUnit_UnitStrindex := ucast num\<rparr>)
      else r_unknown)"

definition KeyValueAndUnit_UnmarshalProto :: "byte list \<Rightarrow> KeyValueAndUnit \<Rightarrow> KeyValueAndUnit unmarshalled" where
  "KeyValueAndUnit_UnmarshalProto = unmarshal KeyValueAndUnit_field"

definition KeyValueAndUnit_bytes :: "KeyValueAndUnit \<Rightarrow> byte list" where
  "KeyValueAndUnit_bytes orig = concat (rev [
     b_varint [0x8] (scast (KeyValueAndUnit_KeyStrindex orig)),
     len_bytes [0x12] (AnyValue_bytes (KeyValueAndUnit_Value orig)),
     b_varint [0x18] (scast (KeyValueAndUnit_UnitStrindex orig))])"

definition KeyValueAndUnit_wf :: "KeyValueAndUnit \<Rightarrow> bool" where
  "KeyValueAndUnit_wf orig \<longleftrightarrow> AnyValue_wf (KeyValueAndUnit_Value orig)"

lemma emits_KeyValueAndUnit [emits_intros]: "emits (KeyValueAndUnit_MarshalProto orig) (KeyValueAndUnit_bytes orig)"
  unfolding KeyValueAndUnit_MarshalProto_def KeyValueAndUnit_bytes_def by (rule emits_writes) (simp add: emits_intros)

lemma KeyValueAndUnit_size [size_simps]: "length (KeyValueAndUnit_bytes orig) = KeyValueAndUnit_SizeProto orig"
  by (simp add: KeyValueAndUnit_bytes_def KeyValueAndUnit_SizeProto_def size_simps comp_def)

lemma KeyValueAndUnit_fields:
  "KeyValueAndUnit_field 1 = r_varint ''KeyStrindex'' (\<lambda>num orig. orig\<lparr>KeyValueAndUnit_KeyStrindex := ucast num\<rparr>)"
  "KeyValueAndUnit_field 2 = r_message ''Value'' AnyValue_UnmarshalProto KeyValueAndUnit_Value (\<lambda>v orig. orig\<lparr>KeyValueAndUnit_Value := v\<rparr>)"
  "KeyValueAndUnit_field 3 = r_varint ''UnitStrindex'' (\<lambda>num orig. orig\<lparr>KeyValueAndUnit_UnitStrindex := ucast num\<rparr>)"
  by (simp_all add: KeyValueAndUnit_field_def)

lemma KeyValueAndUnit_eta: "\<lparr>KeyValueAndUnit_Value = KeyValueAndUnit_Value orig, KeyValueAndUnit_KeyStrindex = KeyValueAndUnit_KeyStrindex orig, KeyValueAndUnit_UnitStrindex = KeyValueAndUnit_UnitStrindex orig\<rparr> = (orig :: KeyValueAndUnit)"
  by (cases orig) simp

lemmas KeyValueAndUnit_steps =
  reads_varint [where h = KeyValueAndUnit_field and f = 1 and tag = "[0x8]", OF _ KeyValueAndUnit_fields(1), THEN reads_append]
  reads_submessage [where h = KeyValueAndUnit_field and f = 2 and tag = "[0x12]" and b = AnyValue_bytes, OF _ KeyValueAndUnit_fields(2), THEN reads_append]
  reads_varint [where h = KeyValueAndUnit_field and f = 3 and tag = "[0x18]", OF _ KeyValueAndUnit_fields(3), THEN reads_append]

lemma KeyValueAndUnit_reads: "KeyValueAndUnit_wf orig \<Longrightarrow> reads KeyValueAndUnit_field (KeyValueAndUnit_bytes orig) KeyValueAndUnit_zero orig"
  unfolding KeyValueAndUnit_bytes_def rev.simps append.simps concat.simps
  by (intro KeyValueAndUnit_steps reads_done)
    (simp_all add: KeyValueAndUnit_zero_def KeyValueAndUnit_eta KeyValueAndUnit_wf_def list_all_iff double_is_zero_def AnyValue_roundtrip split: option.splits)

lemma KeyValueAndUnit_roundtrip:
  "KeyValueAndUnit_wf orig \<Longrightarrow> length (KeyValueAndUnit_bytes orig) < 2 ^ 62 \<Longrightarrow> KeyValueAndUnit_UnmarshalProto (KeyValueAndUnit_bytes orig) KeyValueAndUnit_zero = Some (Ok orig)"
  by (simp add: KeyValueAndUnit_UnmarshalProto_def unmarshal_reads KeyValueAndUnit_reads)

lemma KeyValueAndUnit_safe [safe_intros]: "safe_unmarshal KeyValueAndUnit_UnmarshalProto"
  unfolding KeyValueAndUnit_UnmarshalProto_def by (rule safe_unmarshal_fields) (auto simp: KeyValueAndUnit_field_def intro!: safe_intros)

subsection \<open>Stack\<close>

record Stack =
  Stack_LocationIndices :: "32 word list"

definition Stack_zero :: Stack where
  "Stack_zero = \<lparr>Stack_LocationIndices = []\<rparr>"

definition Stack_SizeProto :: "Stack \<Rightarrow> nat" where
  "Stack_SizeProto orig = sum_list [
     size_packed_varint 1 (map scast (Stack_LocationIndices orig))]"

definition Stack_MarshalProto :: "Stack \<Rightarrow> writer" where
  "Stack_MarshalProto orig = writes [
     w_packed_varint [0xa] (map scast (Stack_LocationIndices orig))]"

definition Stack_field :: "int \<Rightarrow> Stack reader" where
  "Stack_field fieldNum =
     (if fieldNum = 1 then r_packed_varint ''LocationIndices'' (\<lambda>nums orig. orig\<lparr>Stack_LocationIndices := Stack_LocationIndices orig @ map ucast nums\<rparr>)
      else r_unknown)"

definition Stack_UnmarshalProto :: "byte list \<Rightarrow> Stack \<Rightarrow> Stack unmarshalled" where
  "Stack_UnmarshalProto = unmarshal Stack_field"

definition Stack_bytes :: "Stack \<Rightarrow> byte list" where
  "Stack_bytes orig = concat (rev [
     b_packed_varint [0xa] (map scast (Stack_LocationIndices orig))])"

lemma emits_Stack [emits_intros]: "emits (Stack_MarshalProto orig) (Stack_bytes orig)"
  unfolding Stack_MarshalProto_def Stack_bytes_def by (rule emits_writes) (simp add: emits_intros)

lemma Stack_size [size_simps]: "length (Stack_bytes orig) = Stack_SizeProto orig"
  by (simp add: Stack_bytes_def Stack_SizeProto_def size_simps comp_def)

lemma Stack_fields:
  "Stack_field 1 = r_packed_varint ''LocationIndices'' (\<lambda>nums orig. orig\<lparr>Stack_LocationIndices := Stack_LocationIndices orig @ map ucast nums\<rparr>)"
  by (simp_all add: Stack_field_def)

lemma Stack_eta: "\<lparr>Stack_LocationIndices = Stack_LocationIndices orig\<rparr> = (orig :: Stack)"
  by (cases orig) simp

lemmas Stack_steps =
  reads_packed_varint [where h = Stack_field and f = 1 and tag = "[0xa]", OF _ Stack_fields, THEN reads_append]

lemma Stack_reads: "reads Stack_field (Stack_bytes orig) Stack_zero orig"
  unfolding Stack_bytes_def rev.simps append.simps concat.simps
  by (intro Stack_steps reads_done)
    (simp_all add: Stack_zero_def Stack_eta  split: option.splits)

lemma Stack_roundtrip:
  "length (Stack_bytes orig) < 2 ^ 62 \<Longrightarrow> Stack_UnmarshalProto (Stack_bytes orig) Stack_zero = Some (Ok orig)"
  by (simp add: Stack_UnmarshalProto_def unmarshal_reads Stack_reads)

lemma Stack_safe [safe_intros]: "safe_unmarshal Stack_UnmarshalProto"
  unfolding Stack_UnmarshalProto_def by (rule safe_unmarshal_fields) (auto simp: Stack_field_def intro!: safe_intros)

subsection \<open>ProfilesDictionary\<close>

record ProfilesDictionary =
  ProfilesDictionary_MappingTable :: "Mapping list"
  ProfilesDictionary_LocationTable :: "Location list"
  ProfilesDictionary_FunctionTable :: "Function_msg list"
  ProfilesDictionary_LinkTable :: "Link_msg list"
  ProfilesDictionary_StringTable :: "byte list list"
  ProfilesDictionary_AttributeTable :: "KeyValueAndUnit list"
  ProfilesDictionary_StackTable :: "Stack list"

definition ProfilesDictionary_zero :: ProfilesDictionary where
  "ProfilesDictionary_zero = \<lparr>ProfilesDictionary_MappingTable = [], ProfilesDictionary_LocationTable = [], ProfilesDictionary_FunctionTable = [], ProfilesDictionary_LinkTable = [], ProfilesDictionary_StringTable = [], ProfilesDictionary_AttributeTable = [], ProfilesDictionary_StackTable = []\<rparr>"

definition ProfilesDictionary_SizeProto :: "ProfilesDictionary \<Rightarrow> nat" where
  "ProfilesDictionary_SizeProto orig = sum_list [
     \<Sum>x\<leftarrow>ProfilesDictionary_MappingTable orig. size_len 1 (Mapping_SizeProto x),
     \<Sum>x\<leftarrow>ProfilesDictionary_LocationTable orig. size_len 1 (Location_SizeProto x),
     \<Sum>x\<leftarrow>ProfilesDictionary_FunctionTable orig. size_len 1 (Function_msg_SizeProto x),
     \<Sum>x\<leftarrow>ProfilesDictionary_LinkTable orig. size_len 1 (Link_msg_SizeProto x),
     \<Sum>s\<leftarrow>ProfilesDictionary_StringTable orig. size_len 1 (length s),
     \<Sum>x\<leftarrow>ProfilesDictionary_AttributeTable orig. size_len 1 (KeyValueAndUnit_SizeProto x),
     \<Sum>x\<leftarrow>ProfilesDictionary_StackTable orig. size_len 1 (Stack_SizeProto x)]"

definition ProfilesDictionary_MarshalProto :: "ProfilesDictionary \<Rightarrow> writer" where
  "ProfilesDictionary_MarshalProto orig = writes [
     w_repeated [0xa] Mapping_MarshalProto (ProfilesDictionary_MappingTable orig),
     w_repeated [0x12] Location_MarshalProto (ProfilesDictionary_LocationTable orig),
     w_repeated [0x1a] Function_msg_MarshalProto (ProfilesDictionary_FunctionTable orig),
     w_repeated [0x22] Link_msg_MarshalProto (ProfilesDictionary_LinkTable orig),
     w_repeated_bytes [0x2a] (ProfilesDictionary_StringTable orig),
     w_repeated [0x32] KeyValueAndUnit_MarshalProto (ProfilesDictionary_AttributeTable orig),
     w_repeated [0x3a] Stack_MarshalProto (ProfilesDictionary_StackTable orig)]"

definition ProfilesDictionary_field :: "int \<Rightarrow> ProfilesDictionary reader" where
  "ProfilesDictionary_field fieldNum =
     (if fieldNum = 1 then r_message ''MappingTable'' Mapping_UnmarshalProto (\<lambda>_. Mapping_zero) (\<lambda>v orig. orig\<lparr>ProfilesDictionary_MappingTable := ProfilesDictionary_MappingTable orig @ [v]\<rparr>)
      else if fieldNum = 2 then r_message ''LocationTable'' Location_UnmarshalProto (\<lambda>_. Location_zero) (\<lambda>v orig. orig\<lparr>ProfilesDictionary_LocationTable := ProfilesDictionary_LocationTable orig @ [v]\<rparr>)
      else if fieldNum = 3 then r_message ''FunctionTable'' Function_msg_UnmarshalProto (\<lambda>_. Function_msg_zero) (\<lambda>v orig. orig\<lparr>ProfilesDictionary_FunctionTable := ProfilesDictionary_FunctionTable orig @ [v]\<rparr>)
      else if fieldNum = 4 then r_message ''LinkTable'' Link_msg_UnmarshalProto (\<lambda>_. Link_msg_zero) (\<lambda>v orig. orig\<lparr>ProfilesDictionary_LinkTable := ProfilesDictionary_LinkTable orig @ [v]\<rparr>)
      else if fieldNum = 5 then r_bytes ''StringTable'' (\<lambda>s orig. orig\<lparr>ProfilesDictionary_StringTable := ProfilesDictionary_StringTable orig @ [s]\<rparr>)
      else if fieldNum = 6 then r_message ''AttributeTable'' KeyValueAndUnit_UnmarshalProto (\<lambda>_. KeyValueAndUnit_zero) (\<lambda>v orig. orig\<lparr>ProfilesDictionary_AttributeTable := ProfilesDictionary_AttributeTable orig @ [v]\<rparr>)
      else if fieldNum = 7 then r_message ''StackTable'' Stack_UnmarshalProto (\<lambda>_. Stack_zero) (\<lambda>v orig. orig\<lparr>ProfilesDictionary_StackTable := ProfilesDictionary_StackTable orig @ [v]\<rparr>)
      else r_unknown)"

definition ProfilesDictionary_UnmarshalProto :: "byte list \<Rightarrow> ProfilesDictionary \<Rightarrow> ProfilesDictionary unmarshalled" where
  "ProfilesDictionary_UnmarshalProto = unmarshal ProfilesDictionary_field"

definition ProfilesDictionary_bytes :: "ProfilesDictionary \<Rightarrow> byte list" where
  "ProfilesDictionary_bytes orig = concat (rev [
     b_repeated [0xa] (map Mapping_bytes (ProfilesDictionary_MappingTable orig)),
     b_repeated [0x12] (map Location_bytes (ProfilesDictionary_LocationTable orig)),
     b_repeated [0x1a] (map Function_msg_bytes (ProfilesDictionary_FunctionTable orig)),
     b_repeated [0x22] (map Link_msg_bytes (ProfilesDictionary_LinkTable orig)),
     b_repeated [0x2a] (ProfilesDictionary_StringTable orig),
     b_repeated [0x32] (map KeyValueAndUnit_bytes (ProfilesDictionary_AttributeTable orig)),
     b_repeated [0x3a] (map Stack_bytes (ProfilesDictionary_StackTable orig))])"

definition ProfilesDictionary_wf :: "ProfilesDictionary \<Rightarrow> bool" where
  "ProfilesDictionary_wf orig \<longleftrightarrow> list_all KeyValueAndUnit_wf (ProfilesDictionary_AttributeTable orig)"

lemma emits_ProfilesDictionary [emits_intros]: "emits (ProfilesDictionary_MarshalProto orig) (ProfilesDictionary_bytes orig)"
  unfolding ProfilesDictionary_MarshalProto_def ProfilesDictionary_bytes_def by (rule emits_writes) (simp add: emits_intros)

lemma ProfilesDictionary_size [size_simps]: "length (ProfilesDictionary_bytes orig) = ProfilesDictionary_SizeProto orig"
  by (simp add: ProfilesDictionary_bytes_def ProfilesDictionary_SizeProto_def size_simps comp_def)

lemma ProfilesDictionary_fields:
  "ProfilesDictionary_field 1 = r_message ''MappingTable'' Mapping_UnmarshalProto (\<lambda>_. Mapping_zero) (\<lambda>v orig. orig\<lparr>ProfilesDictionary_MappingTable := ProfilesDictionary_MappingTable orig @ [v]\<rparr>)"
  "ProfilesDictionary_field 2 = r_message ''LocationTable'' Location_UnmarshalProto (\<lambda>_. Location_zero) (\<lambda>v orig. orig\<lparr>ProfilesDictionary_LocationTable := ProfilesDictionary_LocationTable orig @ [v]\<rparr>)"
  "ProfilesDictionary_field 3 = r_message ''FunctionTable'' Function_msg_UnmarshalProto (\<lambda>_. Function_msg_zero) (\<lambda>v orig. orig\<lparr>ProfilesDictionary_FunctionTable := ProfilesDictionary_FunctionTable orig @ [v]\<rparr>)"
  "ProfilesDictionary_field 4 = r_message ''LinkTable'' Link_msg_UnmarshalProto (\<lambda>_. Link_msg_zero) (\<lambda>v orig. orig\<lparr>ProfilesDictionary_LinkTable := ProfilesDictionary_LinkTable orig @ [v]\<rparr>)"
  "ProfilesDictionary_field 5 = r_bytes ''StringTable'' (\<lambda>s orig. orig\<lparr>ProfilesDictionary_StringTable := ProfilesDictionary_StringTable orig @ [s]\<rparr>)"
  "ProfilesDictionary_field 6 = r_message ''AttributeTable'' KeyValueAndUnit_UnmarshalProto (\<lambda>_. KeyValueAndUnit_zero) (\<lambda>v orig. orig\<lparr>ProfilesDictionary_AttributeTable := ProfilesDictionary_AttributeTable orig @ [v]\<rparr>)"
  "ProfilesDictionary_field 7 = r_message ''StackTable'' Stack_UnmarshalProto (\<lambda>_. Stack_zero) (\<lambda>v orig. orig\<lparr>ProfilesDictionary_StackTable := ProfilesDictionary_StackTable orig @ [v]\<rparr>)"
  by (simp_all add: ProfilesDictionary_field_def)

lemma ProfilesDictionary_eta: "\<lparr>ProfilesDictionary_MappingTable = ProfilesDictionary_MappingTable orig, ProfilesDictionary_LocationTable = ProfilesDictionary_LocationTable orig, ProfilesDictionary_FunctionTable = ProfilesDictionary_FunctionTable orig, ProfilesDictionary_LinkTable = ProfilesDictionary_LinkTable orig, ProfilesDictionary_StringTable = ProfilesDictionary_StringTable orig, ProfilesDictionary_AttributeTable = ProfilesDictionary_AttributeTable orig, ProfilesDictionary_StackTable = ProfilesDictionary_StackTable orig\<rparr> = (orig :: ProfilesDictionary)"
  by (cases orig) simp

lemmas ProfilesDictionary_steps =
  reads_submessages [where h = ProfilesDictionary_field and f = 1 and tag = "[0xa]" and S = "\<lambda>x orig. orig\<lparr>ProfilesDictionary_MappingTable := x\<rparr>" and b = Mapping_bytes, OF _ ProfilesDictionary_fields(1), THEN reads_append]
  reads_submessages [where h = ProfilesDictionary_field and f = 2 and tag = "[0x12]" and S = "\<lambda>x orig. orig\<lparr>ProfilesDictionary_LocationTable := x\<rparr>" and b = Location_bytes, OF _ ProfilesDictionary_fields(2), THEN reads_append]
  reads_submessages [where h = ProfilesDictionary_field and f = 3 and tag = "[0x1a]" and S = "\<lambda>x orig. orig\<lparr>ProfilesDictionary_FunctionTable := x\<rparr>" and b = Function_msg_bytes, OF _ ProfilesDictionary_fields(3), THEN reads_append]
  reads_submessages [where h = ProfilesDictionary_field and f = 4 and tag = "[0x22]" and S = "\<lambda>x orig. orig\<lparr>ProfilesDictionary_LinkTable := x\<rparr>" and b = Link_msg_bytes, OF _ ProfilesDictionary_fields(4), THEN reads_append]
  reads_strings [where h = ProfilesDictionary_field and f = 5 and tag = "[0x2a]" and S = "\<lambda>x orig. orig\<lparr>ProfilesDictionary_StringTable := x\<rparr>", OF _ ProfilesDictionary_fields(5), THEN reads_append]
  reads_submessages [where h = ProfilesDictionary_field and f = 6 and tag = "[0x32]" and S = "\<lambda>x orig. orig\<lparr>ProfilesDictionary_AttributeTable := x\<rparr>" and b = KeyValueAndUnit_bytes, OF _ ProfilesDictionary_fields(6), THEN reads_append]
  reads_submessages [where h = ProfilesDictionary_field and f = 7 and tag = "[0x3a]" and S = "\<lambda>x orig. orig\<lparr>ProfilesDictionary_StackTable := x\<rparr>" and b = Stack_bytes, OF _ ProfilesDictionary_fields(7), THEN reads_append]

lemma ProfilesDictionary_reads: "ProfilesDictionary_wf orig \<Longrightarrow> reads ProfilesDictionary_field (ProfilesDictionary_bytes orig) ProfilesDictionary_zero orig"
  unfolding ProfilesDictionary_bytes_def rev.simps append.simps concat.simps
  by (intro ProfilesDictionary_steps reads_done)
    (simp_all add: ProfilesDictionary_zero_def ProfilesDictionary_eta ProfilesDictionary_wf_def list_all_iff double_is_zero_def Function_msg_roundtrip KeyValueAndUnit_roundtrip Link_msg_roundtrip Location_roundtrip Mapping_roundtrip Stack_roundtrip split: option.splits)

lemma ProfilesDictionary_roundtrip:
  "ProfilesDictionary_wf orig \<Longrightarrow> length (ProfilesDictionary_bytes orig) < 2 ^ 62 \<Longrightarrow> ProfilesDictionary_UnmarshalProto (ProfilesDictionary_bytes orig) ProfilesDictionary_zero = Some (Ok orig)"
  by (simp add: ProfilesDictionary_UnmarshalProto_def unmarshal_reads ProfilesDictionary_reads)

lemma ProfilesDictionary_safe [safe_intros]: "safe_unmarshal ProfilesDictionary_UnmarshalProto"
  unfolding ProfilesDictionary_UnmarshalProto_def by (rule safe_unmarshal_fields) (auto simp: ProfilesDictionary_field_def intro!: safe_intros)

subsection \<open>Profile\<close>

record Profile =
  Profile_OriginalPayloadFormat :: "byte list"
  Profile_Samples :: "Sample list"
  Profile_OriginalPayload :: "byte list"
  Profile_AttributeIndices :: "32 word list"
  Profile_TimeUnixNano :: u64
  Profile_DurationNano :: u64
  Profile_Period :: u64
  Profile_SampleType :: ValueType
  Profile_PeriodType :: ValueType
  Profile_DroppedAttributesCount :: "32 word"
  Profile_ProfileId :: ProfileID

definition Profile_zero :: Profile where
  "Profile_zero = \<lparr>Profile_OriginalPayloadFormat = [], Profile_Samples = [], Profile_OriginalPayload = [], Profile_AttributeIndices = [], Profile_TimeUnixNano = 0, Profile_DurationNano = 0, Profile_Period = 0, Profile_SampleType = ValueType_zero, Profile_PeriodType = ValueType_zero, Profile_DroppedAttributesCount = 0, Profile_ProfileId = 0\<rparr>"

definition Profile_SizeProto :: "Profile \<Rightarrow> nat" where
  "Profile_SizeProto orig = sum_list [
     size_len 1 (ValueType_SizeProto (Profile_SampleType orig)),
     \<Sum>x\<leftarrow>Profile_Samples orig. size_len 1 (Sample_SizeProto x),
     if Profile_TimeUnixNano orig \<noteq> 0 then 9 else 0,
     if Profile_DurationNano orig \<noteq> 0 then 1 + Sov ((Profile_DurationNano orig)) else 0,
     size_len 1 (ValueType_SizeProto (Profile_PeriodType orig)),
     if Profile_Period orig \<noteq> 0 then 1 + Sov ((Profile_Period orig)) else 0,
     size_len 1 (ProfileID_SizeProto (Profile_ProfileId orig)),
     if Profile_DroppedAttributesCount orig \<noteq> 0 then 1 + Sov (ucast (Profile_DroppedAttributesCount orig)) else 0,
     size_bytes 1 (Profile_OriginalPayloadFormat orig),
     size_bytes 1 (Profile_OriginalPayload orig),
     size_packed_varint 1 (map scast (Profile_AttributeIndices orig))]"

definition Profile_MarshalProto :: "Profile \<Rightarrow> writer" where
  "Profile_MarshalProto orig = writes [
     w_message [0xa] (ValueType_MarshalProto (Profile_SampleType orig)),
     w_repeated [0x12] Sample_MarshalProto (Profile_Samples orig),
     w_fixed64 [0x19] (Profile_TimeUnixNano orig),
     w_varint [0x20] (Profile_DurationNano orig),
     w_message [0x2a] (ValueType_MarshalProto (Profile_PeriodType orig)),
     w_varint [0x30] (Profile_Period orig),
     w_message [0x3a] (ProfileID_MarshalProto (Profile_ProfileId orig)),
     w_varint [0x40] (ucast (Profile_DroppedAttributesCount orig)),
     w_bytes [0x4a] (Profile_OriginalPayloadFormat orig),
     w_bytes [0x52] (Profile_OriginalPayload orig),
     w_packed_varint [0x5a] (map scast (Profile_AttributeIndices orig))]"

definition Profile_field :: "int \<Rightarrow> Profile reader" where
  "Profile_field fieldNum =
     (if fieldNum = 1 then r_message ''SampleType'' ValueType_UnmarshalProto Profile_SampleType (\<lambda>v orig. orig\<lparr>Profile_SampleType := v\<rparr>)
      else if fieldNum = 2 then r_message ''Samples'' Sample_UnmarshalProto (\<lambda>_. Sample_zero) (\<lambda>v orig. orig\<lparr>Profile_Samples := Profile_Samples orig @ [v]\<rparr>)
      else if fieldNum = 3 then r_fixed64 ''TimeUnixNano'' (\<lambda>num orig. orig\<lparr>Profile_TimeUnixNano := num\<rparr>)
      else if fieldNum = 4 then r_varint ''DurationNano'' (\<lambda>num orig. orig\<lparr>Profile_DurationNano := num\<rparr>)
      else if fieldNum = 5 then r_message ''PeriodType'' ValueType_UnmarshalProto Profile_PeriodType (\<lambda>v orig. orig\<lparr>Profile_PeriodType := v\<rparr>)
      else if fieldNum = 6 then r_varint ''Period'' (\<lambda>num orig. orig\<lparr>Profile_Period := num\<rparr>)
      else if fieldNum = 7 then r_message ''ProfileId'' ProfileID_UnmarshalProto Profile_ProfileId (\<lambda>v orig. orig\<lparr>Profile_ProfileId := v\<rparr>)
      else if fieldNum = 8 then r_varint ''DroppedAttributesCount'' (\<lambda>num orig. orig\<lparr>Profile_DroppedAttributesCount := ucast num\<rparr>)
      else if fieldNum = 9 then r_bytes ''OriginalPayloadFormat'' (\<lambda>s orig. orig\<lparr>Profile_OriginalPayloadFormat := s\<rparr>)
      else if fieldNum = 10 then r_bytes ''OriginalPayload'' (\<lambda>s orig. orig\<lparr>Profile_OriginalPayload := if s \<noteq> [] then s else Profile_OriginalPayload orig\<rparr>)
      else if fieldNum = 11 then r_packed_varint ''AttributeIndices'' (\<lambda>nums orig. orig\<lparr>Profile_AttributeIndices := Profile_AttributeIndices orig @ map ucast nums\<rparr>)
      else r_unknown)"

definition Profile_UnmarshalProto :: "byte list \<Rightarrow> Profile \<Rightarrow> Profile unmarshalled" where
  "Profile_UnmarshalProto = unmarshal Profile_field"

definition Profile_bytes :: "Profile \<Rightarrow> byte list" where
  "Profile_bytes orig = concat (rev [
     len_bytes [0xa] (ValueType_bytes (Profile_SampleType orig)),
     b_repeated [0x12] (map Sample_bytes (Profile_Samples orig)),
     b_fixed64 [0x19] (Profile_TimeUnixNano orig),
     b_varint [0x20] (Profile_DurationNano orig),
     len_bytes [0x2a] (ValueType_bytes (Profile_PeriodType orig)),
     b_varint [0x30] (Profile_Period orig),
     len_bytes [0x3a] (ProfileID_bytes (Profile_ProfileId orig)),
     b_varint [0x40] (ucast (Profile_DroppedAttributesCount orig)),
     b_bytes [0x4a] (Profile_OriginalPayloadFormat orig),
     b_bytes [0x52] (Profile_OriginalPayload orig),
     b_packed_varint [0x5a] (map scast (Profile_AttributeIndices orig))])"

lemma emits_Profile [emits_intros]: "emits (Profile_MarshalProto orig) (Profile_bytes orig)"
  unfolding Profile_MarshalProto_def Profile_bytes_def by (rule emits_writes) (simp add: emits_intros)

lemma Profile_size [size_simps]: "length (Profile_bytes orig) = Profile_SizeProto orig"
  by (simp add: Profile_bytes_def Profile_SizeProto_def size_simps comp_def)

lemma Profile_fields:
  "Profile_field 1 = r_message ''SampleType'' ValueType_UnmarshalProto Profile_SampleType (\<lambda>v orig. orig\<lparr>Profile_SampleType := v\<rparr>)"
  "Profile_field 2 = r_message ''Samples'' Sample_UnmarshalProto (\<lambda>_. Sample_zero) (\<lambda>v orig. orig\<lparr>Profile_Samples := Profile_Samples orig @ [v]\<rparr>)"
  "Profile_field 3 = r_fixed64 ''TimeUnixNano'' (\<lambda>num orig. orig\<lparr>Profile_TimeUnixNano := num\<rparr>)"
  "Profile_field 4 = r_varint ''DurationNano'' (\<lambda>num orig. orig\<lparr>Profile_DurationNano := num\<rparr>)"
  "Profile_field 5 = r_message ''PeriodType'' ValueType_UnmarshalProto Profile_PeriodType (\<lambda>v orig. orig\<lparr>Profile_PeriodType := v\<rparr>)"
  "Profile_field 6 = r_varint ''Period'' (\<lambda>num orig. orig\<lparr>Profile_Period := num\<rparr>)"
  "Profile_field 7 = r_message ''ProfileId'' ProfileID_UnmarshalProto Profile_ProfileId (\<lambda>v orig. orig\<lparr>Profile_ProfileId := v\<rparr>)"
  "Profile_field 8 = r_varint ''DroppedAttributesCount'' (\<lambda>num orig. orig\<lparr>Profile_DroppedAttributesCount := ucast num\<rparr>)"
  "Profile_field 9 = r_bytes ''OriginalPayloadFormat'' (\<lambda>s orig. orig\<lparr>Profile_OriginalPayloadFormat := s\<rparr>)"
  "Profile_field 10 = r_bytes ''OriginalPayload'' (\<lambda>s orig. orig\<lparr>Profile_OriginalPayload := if s \<noteq> [] then s else Profile_OriginalPayload orig\<rparr>)"
  "Profile_field 11 = r_packed_varint ''AttributeIndices'' (\<lambda>nums orig. orig\<lparr>Profile_AttributeIndices := Profile_AttributeIndices orig @ map ucast nums\<rparr>)"
  by (simp_all add: Profile_field_def)

lemma Profile_eta: "\<lparr>Profile_OriginalPayloadFormat = Profile_OriginalPayloadFormat orig, Profile_Samples = Profile_Samples orig, Profile_OriginalPayload = Profile_OriginalPayload orig, Profile_AttributeIndices = Profile_AttributeIndices orig, Profile_TimeUnixNano = Profile_TimeUnixNano orig, Profile_DurationNano = Profile_DurationNano orig, Profile_Period = Profile_Period orig, Profile_SampleType = Profile_SampleType orig, Profile_PeriodType = Profile_PeriodType orig, Profile_DroppedAttributesCount = Profile_DroppedAttributesCount orig, Profile_ProfileId = Profile_ProfileId orig\<rparr> = (orig :: Profile)"
  by (cases orig) simp

lemmas Profile_steps =
  reads_submessage [where h = Profile_field and f = 1 and tag = "[0xa]" and b = ValueType_bytes, OF _ Profile_fields(1), THEN reads_append]
  reads_submessages [where h = Profile_field and f = 2 and tag = "[0x12]" and S = "\<lambda>x orig. orig\<lparr>Profile_Samples := x\<rparr>" and b = Sample_bytes, OF _ Profile_fields(2), THEN reads_append]
  reads_fixed64 [where h = Profile_field and f = 3 and tag = "[0x19]", OF _ Profile_fields(3), THEN reads_append]
  reads_varint [where h = Profile_field and f = 4 and tag = "[0x20]", OF _ Profile_fields(4), THEN reads_append]
  reads_submessage [where h = Profile_field and f = 5 and tag = "[0x2a]" and b = ValueType_bytes, OF _ Profile_fields(5), THEN reads_append]
  reads_varint [where h = Profile_field and f = 6 and tag = "[0x30]", OF _ Profile_fields(6), THEN reads_append]
  reads_submessage [where h = Profile_field and f = 7 and tag = "[0x3a]" and b = ProfileID_bytes, OF _ Profile_fields(7), THEN reads_append]
  reads_varint [where h = Profile_field and f = 8 and tag = "[0x40]", OF _ Profile_fields(8), THEN reads_append]
  reads_bytes [where h = Profile_field and f = 9 and tag = "[0x4a]", OF _ Profile_fields(9), THEN reads_append]
  reads_bytes [where h = Profile_field and f = 10 and tag = "[0x52]", OF _ Profile_fields(10), THEN reads_append]
  reads_packed_varint [where h = Profile_field and f = 11 and tag = "[0x5a]", OF _ Profile_fields(11), THEN reads_append]

lemma Profile_reads: "reads Profile_field (Profile_bytes orig) Profile_zero orig"
  unfolding Profile_bytes_def rev.simps append.simps concat.simps
  by (intro Profile_steps reads_done)
    (simp_all add: Profile_zero_def Profile_eta ProfileID_roundtrip Sample_roundtrip ValueType_roundtrip split: option.splits)

lemma Profile_roundtrip:
  "length (Profile_bytes orig) < 2 ^ 62 \<Longrightarrow> Profile_UnmarshalProto (Profile_bytes orig) Profile_zero = Some (Ok orig)"
  by (simp add: Profile_UnmarshalProto_def unmarshal_reads Profile_reads)

lemma Profile_safe [safe_intros]: "safe_unmarshal Profile_UnmarshalProto"
  unfolding Profile_UnmarshalProto_def by (rule safe_unmarshal_fields) (auto simp: Profile_field_def intro!: safe_intros)

subsection \<open>ScopeProfiles\<close>

record ScopeProfiles =
  ScopeProfiles_SchemaUrl :: "byte list"
  ScopeProfiles_Profiles :: "Profile list"
  ScopeProfiles_Scope :: InstrumentationScope

definition ScopeProfiles_zero :: ScopeProfiles where
  "ScopeProfiles_zero = \<lparr>ScopeProfiles_SchemaUrl = [], ScopeProfiles_Profiles = [], ScopeProfiles_Scope = InstrumentationScope_zero\<rparr>"

definition ScopeProfiles_SizeProto :: "ScopeProfiles \<Rightarrow> nat" where
  "ScopeProfiles_SizeProto orig = sum_list [
     size_len 1 (InstrumentationScope_SizeProto (ScopeProfiles_Scope orig)),
     \<Sum>x\<leftarrow>ScopeProfiles_Profiles orig. size_len 1 (Profile_SizeProto x),
     size_bytes 1 (ScopeProfiles_SchemaUrl orig)]"

definition ScopeProfiles_MarshalProto :: "ScopeProfiles \<Rightarrow> writer" where
  "ScopeProfiles_MarshalProto orig = writes [
     w_message [0xa] (InstrumentationScope_MarshalProto (ScopeProfiles_Scope orig)),
     w_repeated [0x12] Profile_MarshalProto (ScopeProfiles_Profiles orig),
     w_bytes [0x1a] (ScopeProfiles_SchemaUrl orig)]"

definition ScopeProfiles_field :: "int \<Rightarrow> ScopeProfiles reader" where
  "ScopeProfiles_field fieldNum =
     (if fieldNum = 1 then r_message ''Scope'' InstrumentationScope_UnmarshalProto ScopeProfiles_Scope (\<lambda>v orig. orig\<lparr>ScopeProfiles_Scope := v\<rparr>)
      else if fieldNum = 2 then r_message ''Profiles'' Profile_UnmarshalProto (\<lambda>_. Profile_zero) (\<lambda>v orig. orig\<lparr>ScopeProfiles_Profiles := ScopeProfiles_Profiles orig @ [v]\<rparr>)
      else if fieldNum = 3 then r_bytes ''SchemaUrl'' (\<lambda>s orig. orig\<lparr>ScopeProfiles_SchemaUrl := s\<rparr>)
      else r_unknown)"

definition ScopeProfiles_UnmarshalProto :: "byte list \<Rightarrow> ScopeProfiles \<Rightarrow> ScopeProfiles unmarshalled" where
  "ScopeProfiles_UnmarshalProto = unmarshal ScopeProfiles_field"

definition ScopeProfiles_bytes :: "ScopeProfiles \<Rightarrow> byte list" where
  "ScopeProfiles_bytes orig = concat (rev [
     len_bytes [0xa] (InstrumentationScope_bytes (ScopeProfiles_Scope orig)),
     b_repeated [0x12] (map Profile_bytes (ScopeProfiles_Profiles orig)),
     b_bytes [0x1a] (ScopeProfiles_SchemaUrl orig)])"

definition ScopeProfiles_wf :: "ScopeProfiles \<Rightarrow> bool" where
  "ScopeProfiles_wf orig \<longleftrightarrow> InstrumentationScope_wf (ScopeProfiles_Scope orig)"

lemma emits_ScopeProfiles [emits_intros]: "emits (ScopeProfiles_MarshalProto orig) (ScopeProfiles_bytes orig)"
  unfolding ScopeProfiles_MarshalProto_def ScopeProfiles_bytes_def by (rule emits_writes) (simp add: emits_intros)

lemma ScopeProfiles_size [size_simps]: "length (ScopeProfiles_bytes orig) = ScopeProfiles_SizeProto orig"
  by (simp add: ScopeProfiles_bytes_def ScopeProfiles_SizeProto_def size_simps comp_def)

lemma ScopeProfiles_fields:
  "ScopeProfiles_field 1 = r_message ''Scope'' InstrumentationScope_UnmarshalProto ScopeProfiles_Scope (\<lambda>v orig. orig\<lparr>ScopeProfiles_Scope := v\<rparr>)"
  "ScopeProfiles_field 2 = r_message ''Profiles'' Profile_UnmarshalProto (\<lambda>_. Profile_zero) (\<lambda>v orig. orig\<lparr>ScopeProfiles_Profiles := ScopeProfiles_Profiles orig @ [v]\<rparr>)"
  "ScopeProfiles_field 3 = r_bytes ''SchemaUrl'' (\<lambda>s orig. orig\<lparr>ScopeProfiles_SchemaUrl := s\<rparr>)"
  by (simp_all add: ScopeProfiles_field_def)

lemma ScopeProfiles_eta: "\<lparr>ScopeProfiles_SchemaUrl = ScopeProfiles_SchemaUrl orig, ScopeProfiles_Profiles = ScopeProfiles_Profiles orig, ScopeProfiles_Scope = ScopeProfiles_Scope orig\<rparr> = (orig :: ScopeProfiles)"
  by (cases orig) simp

lemmas ScopeProfiles_steps =
  reads_submessage [where h = ScopeProfiles_field and f = 1 and tag = "[0xa]" and b = InstrumentationScope_bytes, OF _ ScopeProfiles_fields(1), THEN reads_append]
  reads_submessages [where h = ScopeProfiles_field and f = 2 and tag = "[0x12]" and S = "\<lambda>x orig. orig\<lparr>ScopeProfiles_Profiles := x\<rparr>" and b = Profile_bytes, OF _ ScopeProfiles_fields(2), THEN reads_append]
  reads_bytes [where h = ScopeProfiles_field and f = 3 and tag = "[0x1a]", OF _ ScopeProfiles_fields(3), THEN reads_append]

lemma ScopeProfiles_reads: "ScopeProfiles_wf orig \<Longrightarrow> reads ScopeProfiles_field (ScopeProfiles_bytes orig) ScopeProfiles_zero orig"
  unfolding ScopeProfiles_bytes_def rev.simps append.simps concat.simps
  by (intro ScopeProfiles_steps reads_done)
    (simp_all add: ScopeProfiles_zero_def ScopeProfiles_eta ScopeProfiles_wf_def list_all_iff double_is_zero_def InstrumentationScope_roundtrip Profile_roundtrip split: option.splits)

lemma ScopeProfiles_roundtrip:
  "ScopeProfiles_wf orig \<Longrightarrow> length (ScopeProfiles_bytes orig) < 2 ^ 62 \<Longrightarrow> ScopeProfiles_UnmarshalProto (ScopeProfiles_bytes orig) ScopeProfiles_zero = Some (Ok orig)"
  by (simp add: ScopeProfiles_UnmarshalProto_def unmarshal_reads ScopeProfiles_reads)

lemma ScopeProfiles_safe [safe_intros]: "safe_unmarshal ScopeProfiles_UnmarshalProto"
  unfolding ScopeProfiles_UnmarshalProto_def by (rule safe_unmarshal_fields) (auto simp: ScopeProfiles_field_def intro!: safe_intros)

subsection \<open>ResourceProfiles\<close>

record ResourceProfiles =
  ResourceProfiles_SchemaUrl :: "byte list"
  ResourceProfiles_Resource :: Resource
  ResourceProfiles_ScopeProfiles :: "ScopeProfiles list"

definition ResourceProfiles_zero :: ResourceProfiles where
  "ResourceProfiles_zero = \<lparr>ResourceProfiles_SchemaUrl = [], ResourceProfiles_Resource = Resource_zero, ResourceProfiles_ScopeProfiles = []\<rparr>"

definition ResourceProfiles_SizeProto :: "ResourceProfiles \<Rightarrow> nat" where
  "ResourceProfiles_SizeProto orig = sum_list [
     size_len 1 (Resource_SizeProto (ResourceProfiles_Resource orig)),
     \<Sum>x\<leftarrow>ResourceProfiles_ScopeProfiles orig. size_len 1 (ScopeProfiles_SizeProto x),
     size_bytes 1 (ResourceProfiles_SchemaUrl orig)]"

definition ResourceProfiles_MarshalProto :: "ResourceProfiles \<Rightarrow> writer" where
  "ResourceProfiles_MarshalProto orig = writes [
     w_message [0xa] (Resource_MarshalProto (ResourceProfiles_Resource orig)),
     w_repeated [0x12] ScopeProfiles_MarshalProto (ResourceProfiles_ScopeProfiles orig),
     w_bytes [0x1a] (ResourceProfiles_SchemaUrl orig)]"

definition ResourceProfiles_field :: "int \<Rightarrow> ResourceProfiles reader" where
  "ResourceProfiles_field fieldNum =
     (if fieldNum = 1 then r_message ''Resource'' Resource_UnmarshalProto ResourceProfiles_Resource (\<lambda>v orig. orig\<lparr>ResourceProfiles_Resource := v\<rparr>)
      else if fieldNum = 2 then r_message ''ScopeProfiles'' ScopeProfiles_UnmarshalProto (\<lambda>_. ScopeProfiles_zero) (\<lambda>v orig. orig\<lparr>ResourceProfiles_ScopeProfiles := ResourceProfiles_ScopeProfiles orig @ [v]\<rparr>)
      else if fieldNum = 3 then r_bytes ''SchemaUrl'' (\<lambda>s orig. orig\<lparr>ResourceProfiles_SchemaUrl := s\<rparr>)
      else r_unknown)"

definition ResourceProfiles_UnmarshalProto :: "byte list \<Rightarrow> ResourceProfiles \<Rightarrow> ResourceProfiles unmarshalled" where
  "ResourceProfiles_UnmarshalProto = unmarshal ResourceProfiles_field"

definition ResourceProfiles_bytes :: "ResourceProfiles \<Rightarrow> byte list" where
  "ResourceProfiles_bytes orig = concat (rev [
     len_bytes [0xa] (Resource_bytes (ResourceProfiles_Resource orig)),
     b_repeated [0x12] (map ScopeProfiles_bytes (ResourceProfiles_ScopeProfiles orig)),
     b_bytes [0x1a] (ResourceProfiles_SchemaUrl orig)])"

definition ResourceProfiles_wf :: "ResourceProfiles \<Rightarrow> bool" where
  "ResourceProfiles_wf orig \<longleftrightarrow> Resource_wf (ResourceProfiles_Resource orig) \<and>
     list_all ScopeProfiles_wf (ResourceProfiles_ScopeProfiles orig)"

lemma emits_ResourceProfiles [emits_intros]: "emits (ResourceProfiles_MarshalProto orig) (ResourceProfiles_bytes orig)"
  unfolding ResourceProfiles_MarshalProto_def ResourceProfiles_bytes_def by (rule emits_writes) (simp add: emits_intros)

lemma ResourceProfiles_size [size_simps]: "length (ResourceProfiles_bytes orig) = ResourceProfiles_SizeProto orig"
  by (simp add: ResourceProfiles_bytes_def ResourceProfiles_SizeProto_def size_simps comp_def)

lemma ResourceProfiles_fields:
  "ResourceProfiles_field 1 = r_message ''Resource'' Resource_UnmarshalProto ResourceProfiles_Resource (\<lambda>v orig. orig\<lparr>ResourceProfiles_Resource := v\<rparr>)"
  "ResourceProfiles_field 2 = r_message ''ScopeProfiles'' ScopeProfiles_UnmarshalProto (\<lambda>_. ScopeProfiles_zero) (\<lambda>v orig. orig\<lparr>ResourceProfiles_ScopeProfiles := ResourceProfiles_ScopeProfiles orig @ [v]\<rparr>)"
  "ResourceProfiles_field 3 = r_bytes ''SchemaUrl'' (\<lambda>s orig. orig\<lparr>ResourceProfiles_SchemaUrl := s\<rparr>)"
  by (simp_all add: ResourceProfiles_field_def)

lemma ResourceProfiles_eta: "\<lparr>ResourceProfiles_SchemaUrl = ResourceProfiles_SchemaUrl orig, ResourceProfiles_Resource = ResourceProfiles_Resource orig, ResourceProfiles_ScopeProfiles = ResourceProfiles_ScopeProfiles orig\<rparr> = (orig :: ResourceProfiles)"
  by (cases orig) simp

lemmas ResourceProfiles_steps =
  reads_submessage [where h = ResourceProfiles_field and f = 1 and tag = "[0xa]" and b = Resource_bytes, OF _ ResourceProfiles_fields(1), THEN reads_append]
  reads_submessages [where h = ResourceProfiles_field and f = 2 and tag = "[0x12]" and S = "\<lambda>x orig. orig\<lparr>ResourceProfiles_ScopeProfiles := x\<rparr>" and b = ScopeProfiles_bytes, OF _ ResourceProfiles_fields(2), THEN reads_append]
  reads_bytes [where h = ResourceProfiles_field and f = 3 and tag = "[0x1a]", OF _ ResourceProfiles_fields(3), THEN reads_append]

lemma ResourceProfiles_reads: "ResourceProfiles_wf orig \<Longrightarrow> reads ResourceProfiles_field (ResourceProfiles_bytes orig) ResourceProfiles_zero orig"
  unfolding ResourceProfiles_bytes_def rev.simps append.simps concat.simps
  by (intro ResourceProfiles_steps reads_done)
    (simp_all add: ResourceProfiles_zero_def ResourceProfiles_eta ResourceProfiles_wf_def list_all_iff double_is_zero_def Resource_roundtrip ScopeProfiles_roundtrip split: option.splits)

lemma ResourceProfiles_roundtrip:
  "ResourceProfiles_wf orig \<Longrightarrow> length (ResourceProfiles_bytes orig) < 2 ^ 62 \<Longrightarrow> ResourceProfiles_UnmarshalProto (ResourceProfiles_bytes orig) ResourceProfiles_zero = Some (Ok orig)"
  by (simp add: ResourceProfiles_UnmarshalProto_def unmarshal_reads ResourceProfiles_reads)

lemma ResourceProfiles_safe [safe_intros]: "safe_unmarshal ResourceProfiles_UnmarshalProto"
  unfolding ResourceProfiles_UnmarshalProto_def by (rule safe_unmarshal_fields) (auto simp: ResourceProfiles_field_def intro!: safe_intros)

subsection \<open>ProfilesData\<close>

record ProfilesData =
  ProfilesData_ResourceProfiles :: "ResourceProfiles list"
  ProfilesData_Dictionary :: ProfilesDictionary

definition ProfilesData_zero :: ProfilesData where
  "ProfilesData_zero = \<lparr>ProfilesData_ResourceProfiles = [], ProfilesData_Dictionary = ProfilesDictionary_zero\<rparr>"

definition ProfilesData_SizeProto :: "ProfilesData \<Rightarrow> nat" where
  "ProfilesData_SizeProto orig = sum_list [
     \<Sum>x\<leftarrow>ProfilesData_ResourceProfiles orig. size_len 1 (ResourceProfiles_SizeProto x),
     size_len 1 (ProfilesDictionary_SizeProto (ProfilesData_Dictionary orig))]"

definition ProfilesData_MarshalProto :: "ProfilesData \<Rightarrow> writer" where
  "ProfilesData_MarshalProto orig = writes [
     w_repeated [0xa] ResourceProfiles_MarshalProto (ProfilesData_ResourceProfiles orig),
     w_message [0x12] (ProfilesDictionary_MarshalProto (ProfilesData_Dictionary orig))]"

definition ProfilesData_field :: "int \<Rightarrow> ProfilesData reader" where
  "ProfilesData_field fieldNum =
     (if fieldNum = 1 then r_message ''ResourceProfiles'' ResourceProfiles_UnmarshalProto (\<lambda>_. ResourceProfiles_zero) (\<lambda>v orig. orig\<lparr>ProfilesData_ResourceProfiles := ProfilesData_ResourceProfiles orig @ [v]\<rparr>)
      else if fieldNum = 2 then r_message ''Dictionary'' ProfilesDictionary_UnmarshalProto ProfilesData_Dictionary (\<lambda>v orig. orig\<lparr>ProfilesData_Dictionary := v\<rparr>)
      else r_unknown)"

definition ProfilesData_UnmarshalProto :: "byte list \<Rightarrow> ProfilesData \<Rightarrow> ProfilesData unmarshalled" where
  "ProfilesData_UnmarshalProto = unmarshal ProfilesData_field"

definition ProfilesData_bytes :: "ProfilesData \<Rightarrow> byte list" where
  "ProfilesData_bytes orig = concat (rev [
     b_repeated [0xa] (map ResourceProfiles_bytes (ProfilesData_ResourceProfiles orig)),
     len_bytes [0x12] (ProfilesDictionary_bytes (ProfilesData_Dictionary orig))])"

definition ProfilesData_wf :: "ProfilesData \<Rightarrow> bool" where
  "ProfilesData_wf orig \<longleftrightarrow> list_all ResourceProfiles_wf (ProfilesData_ResourceProfiles orig) \<and>
     ProfilesDictionary_wf (ProfilesData_Dictionary orig)"

lemma emits_ProfilesData [emits_intros]: "emits (ProfilesData_MarshalProto orig) (ProfilesData_bytes orig)"
  unfolding ProfilesData_MarshalProto_def ProfilesData_bytes_def by (rule emits_writes) (simp add: emits_intros)

lemma ProfilesData_size [size_simps]: "length (ProfilesData_bytes orig) = ProfilesData_SizeProto orig"
  by (simp add: ProfilesData_bytes_def ProfilesData_SizeProto_def size_simps comp_def)

lemma ProfilesData_fields:
  "ProfilesData_field 1 = r_message ''ResourceProfiles'' ResourceProfiles_UnmarshalProto (\<lambda>_. ResourceProfiles_zero) (\<lambda>v orig. orig\<lparr>ProfilesData_ResourceProfiles := ProfilesData_ResourceProfiles orig @ [v]\<rparr>)"
  "ProfilesData_field 2 = r_message ''Dictionary'' ProfilesDictionary_UnmarshalProto ProfilesData_Dictionary (\<lambda>v orig. orig\<lparr>ProfilesData_Dictionary := v\<rparr>)"
  by (simp_all add: ProfilesData_field_def)

lemma ProfilesData_eta: "\<lparr>ProfilesData_ResourceProfiles = ProfilesData_ResourceProfiles orig, ProfilesData_Dictionary = ProfilesData_Dictionary orig\<rparr> = (orig :: ProfilesData)"
  by (cases orig) simp

lemmas ProfilesData_steps =
  reads_submessages [where h = ProfilesData_field and f = 1 and tag = "[0xa]" and S = "\<lambda>x orig. orig\<lparr>ProfilesData_ResourceProfiles := x\<rparr>" and b = ResourceProfiles_bytes, OF _ ProfilesData_fields(1), THEN reads_append]
  reads_submessage [where h = ProfilesData_field and f = 2 and tag = "[0x12]" and b = ProfilesDictionary_bytes, OF _ ProfilesData_fields(2), THEN reads_append]

lemma ProfilesData_reads: "ProfilesData_wf orig \<Longrightarrow> reads ProfilesData_field (ProfilesData_bytes orig) ProfilesData_zero orig"
  unfolding ProfilesData_bytes_def rev.simps append.simps concat.simps
  by (intro ProfilesData_steps reads_done)
    (simp_all add: ProfilesData_zero_def ProfilesData_eta ProfilesData_wf_def list_all_iff double_is_zero_def ProfilesDictionary_roundtrip ResourceProfiles_roundtrip split: option.splits)

lemma ProfilesData_roundtrip:
  "ProfilesData_wf orig \<Longrightarrow> length (ProfilesData_bytes orig) < 2 ^ 62 \<Longrightarrow> ProfilesData_UnmarshalProto (ProfilesData_bytes orig) ProfilesData_zero = Some (Ok orig)"
  by (simp add: ProfilesData_UnmarshalProto_def unmarshal_reads ProfilesData_reads)

lemma ProfilesData_safe [safe_intros]: "safe_unmarshal ProfilesData_UnmarshalProto"
  unfolding ProfilesData_UnmarshalProto_def by (rule safe_unmarshal_fields) (auto simp: ProfilesData_field_def intro!: safe_intros)

subsection \<open>ExportProfilesServiceRequest\<close>

record ExportProfilesServiceRequest =
  ExportProfilesServiceRequest_ResourceProfiles :: "ResourceProfiles list"
  ExportProfilesServiceRequest_Dictionary :: ProfilesDictionary

definition ExportProfilesServiceRequest_zero :: ExportProfilesServiceRequest where
  "ExportProfilesServiceRequest_zero = \<lparr>ExportProfilesServiceRequest_ResourceProfiles = [], ExportProfilesServiceRequest_Dictionary = ProfilesDictionary_zero\<rparr>"

definition ExportProfilesServiceRequest_SizeProto :: "ExportProfilesServiceRequest \<Rightarrow> nat" where
  "ExportProfilesServiceRequest_SizeProto orig = sum_list [
     \<Sum>x\<leftarrow>ExportProfilesServiceRequest_ResourceProfiles orig. size_len 1 (ResourceProfiles_SizeProto x),
     size_len 1 (ProfilesDictionary_SizeProto (ExportProfilesServiceRequest_Dictionary orig))]"

definition ExportProfilesServiceRequest_MarshalProto :: "ExportProfilesServiceRequest \<Rightarrow> writer" where
  "ExportProfilesServiceRequest_MarshalProto orig = writes [
     w_repeated [0xa] ResourceProfiles_MarshalProto (ExportProfilesServiceRequest_ResourceProfiles orig),
     w_message [0x12] (ProfilesDictionary_MarshalProto (ExportProfilesServiceRequest_Dictionary orig))]"

definition ExportProfilesServiceRequest_field :: "int \<Rightarrow> ExportProfilesServiceRequest reader" where
  "ExportProfilesServiceRequest_field fieldNum =
     (if fieldNum = 1 then r_message ''ResourceProfiles'' ResourceProfiles_UnmarshalProto (\<lambda>_. ResourceProfiles_zero) (\<lambda>v orig. orig\<lparr>ExportProfilesServiceRequest_ResourceProfiles := ExportProfilesServiceRequest_ResourceProfiles orig @ [v]\<rparr>)
      else if fieldNum = 2 then r_message ''Dictionary'' ProfilesDictionary_UnmarshalProto ExportProfilesServiceRequest_Dictionary (\<lambda>v orig. orig\<lparr>ExportProfilesServiceRequest_Dictionary := v\<rparr>)
      else r_unknown)"

definition ExportProfilesServiceRequest_UnmarshalProto :: "byte list \<Rightarrow> ExportProfilesServiceRequest \<Rightarrow> ExportProfilesServiceRequest unmarshalled" where
  "ExportProfilesServiceRequest_UnmarshalProto = unmarshal ExportProfilesServiceRequest_field"

definition ExportProfilesServiceRequest_bytes :: "ExportProfilesServiceRequest \<Rightarrow> byte list" where
  "ExportProfilesServiceRequest_bytes orig = concat (rev [
     b_repeated [0xa] (map ResourceProfiles_bytes (ExportProfilesServiceRequest_ResourceProfiles orig)),
     len_bytes [0x12] (ProfilesDictionary_bytes (ExportProfilesServiceRequest_Dictionary orig))])"

definition ExportProfilesServiceRequest_wf :: "ExportProfilesServiceRequest \<Rightarrow> bool" where
  "ExportProfilesServiceRequest_wf orig \<longleftrightarrow> list_all ResourceProfiles_wf (ExportProfilesServiceRequest_ResourceProfiles orig) \<and>
     ProfilesDictionary_wf (ExportProfilesServiceRequest_Dictionary orig)"

lemma emits_ExportProfilesServiceRequest [emits_intros]: "emits (ExportProfilesServiceRequest_MarshalProto orig) (ExportProfilesServiceRequest_bytes orig)"
  unfolding ExportProfilesServiceRequest_MarshalProto_def ExportProfilesServiceRequest_bytes_def by (rule emits_writes) (simp add: emits_intros)

lemma ExportProfilesServiceRequest_size [size_simps]: "length (ExportProfilesServiceRequest_bytes orig) = ExportProfilesServiceRequest_SizeProto orig"
  by (simp add: ExportProfilesServiceRequest_bytes_def ExportProfilesServiceRequest_SizeProto_def size_simps comp_def)

lemma ExportProfilesServiceRequest_fields:
  "ExportProfilesServiceRequest_field 1 = r_message ''ResourceProfiles'' ResourceProfiles_UnmarshalProto (\<lambda>_. ResourceProfiles_zero) (\<lambda>v orig. orig\<lparr>ExportProfilesServiceRequest_ResourceProfiles := ExportProfilesServiceRequest_ResourceProfiles orig @ [v]\<rparr>)"
  "ExportProfilesServiceRequest_field 2 = r_message ''Dictionary'' ProfilesDictionary_UnmarshalProto ExportProfilesServiceRequest_Dictionary (\<lambda>v orig. orig\<lparr>ExportProfilesServiceRequest_Dictionary := v\<rparr>)"
  by (simp_all add: ExportProfilesServiceRequest_field_def)

lemma ExportProfilesServiceRequest_eta: "\<lparr>ExportProfilesServiceRequest_ResourceProfiles = ExportProfilesServiceRequest_ResourceProfiles orig, ExportProfilesServiceRequest_Dictionary = ExportProfilesServiceRequest_Dictionary orig\<rparr> = (orig :: ExportProfilesServiceRequest)"
  by (cases orig) simp

lemmas ExportProfilesServiceRequest_steps =
  reads_submessages [where h = ExportProfilesServiceRequest_field and f = 1 and tag = "[0xa]" and S = "\<lambda>x orig. orig\<lparr>ExportProfilesServiceRequest_ResourceProfiles := x\<rparr>" and b = ResourceProfiles_bytes, OF _ ExportProfilesServiceRequest_fields(1), THEN reads_append]
  reads_submessage [where h = ExportProfilesServiceRequest_field and f = 2 and tag = "[0x12]" and b = ProfilesDictionary_bytes, OF _ ExportProfilesServiceRequest_fields(2), THEN reads_append]

lemma ExportProfilesServiceRequest_reads: "ExportProfilesServiceRequest_wf orig \<Longrightarrow> reads ExportProfilesServiceRequest_field (ExportProfilesServiceRequest_bytes orig) ExportProfilesServiceRequest_zero orig"
  unfolding ExportProfilesServiceRequest_bytes_def rev.simps append.simps concat.simps
  by (intro ExportProfilesServiceRequest_steps reads_done)
    (simp_all add: ExportProfilesServiceRequest_zero_def ExportProfilesServiceRequest_eta ExportProfilesServiceRequest_wf_def list_all_iff double_is_zero_def ProfilesDictionary_roundtrip ResourceProfiles_roundtrip split: option.splits)

lemma ExportProfilesServiceRequest_roundtrip:
  "ExportProfilesServiceRequest_wf orig \<Longrightarrow> length (ExportProfilesServiceRequest_bytes orig) < 2 ^ 62 \<Longrightarrow> ExportProfilesServiceRequest_UnmarshalProto (ExportProfilesServiceRequest_bytes orig) ExportProfilesServiceRequest_zero = Some (Ok orig)"
  by (simp add: ExportProfilesServiceRequest_UnmarshalProto_def unmarshal_reads ExportProfilesServiceRequest_reads)

lemma ExportProfilesServiceRequest_safe [safe_intros]: "safe_unmarshal ExportProfilesServiceRequest_UnmarshalProto"
  unfolding ExportProfilesServiceRequest_UnmarshalProto_def by (rule safe_unmarshal_fields) (auto simp: ExportProfilesServiceRequest_field_def intro!: safe_intros)

subsection \<open>ExportProfilesPartialSuccess\<close>

record ExportProfilesPartialSuccess =
  ExportProfilesPartialSuccess_ErrorMessage :: "byte list"
  ExportProfilesPartialSuccess_RejectedProfiles :: u64

definition ExportProfilesPartialSuccess_zero :: ExportProfilesPartialSuccess where
  "ExportProfilesPartialSuccess_zero = \<lparr>ExportProfilesPartialSuccess_ErrorMessage = [], ExportProfilesPartialSuccess_RejectedProfiles = 0\<rparr>"

definition ExportProfilesPartialSuccess_SizeProto :: "ExportProfilesPartialSuccess \<Rightarrow> nat" where
  "ExportProfilesPartialSuccess_SizeProto orig = sum_list [
     if ExportProfilesPartialSuccess_RejectedProfiles orig \<noteq> 0 then 1 + Sov ((ExportProfilesPartialSuccess_RejectedProfiles orig)) else 0,
     size_bytes 1 (ExportProfilesPartialSuccess_ErrorMessage orig)]"

definition ExportProfilesPartialSuccess_MarshalProto :: "ExportProfilesPartialSuccess \<Rightarrow> writer" where
  "ExportProfilesPartialSuccess_MarshalProto orig = writes [
     w_varint [0x8] (ExportProfilesPartialSuccess_RejectedProfiles orig),
     w_bytes [0x12] (ExportProfilesPartialSuccess_ErrorMessage orig)]"

definition ExportProfilesPartialSuccess_field :: "int \<Rightarrow> ExportProfilesPartialSuccess reader" where
  "ExportProfilesPartialSuccess_field fieldNum =
     (if fieldNum = 1 then r_varint ''RejectedProfiles'' (\<lambda>num orig. orig\<lparr>ExportProfilesPartialSuccess_RejectedProfiles := num\<rparr>)
      else if fieldNum = 2 then r_bytes ''ErrorMessage'' (\<lambda>s orig. orig\<lparr>ExportProfilesPartialSuccess_ErrorMessage := s\<rparr>)
      else r_unknown)"

definition ExportProfilesPartialSuccess_UnmarshalProto :: "byte list \<Rightarrow> ExportProfilesPartialSuccess \<Rightarrow> ExportProfilesPartialSuccess unmarshalled" where
  "ExportProfilesPartialSuccess_UnmarshalProto = unmarshal ExportProfilesPartialSuccess_field"

definition ExportProfilesPartialSuccess_bytes :: "ExportProfilesPartialSuccess \<Rightarrow> byte list" where
  "ExportProfilesPartialSuccess_bytes orig = concat (rev [
     b_varint [0x8] (ExportProfilesPartialSuccess_RejectedProfiles orig),
     b_bytes [0x12] (ExportProfilesPartialSuccess_ErrorMessage orig)])"

lemma emits_ExportProfilesPartialSuccess [emits_intros]: "emits (ExportProfilesPartialSuccess_MarshalProto orig) (ExportProfilesPartialSuccess_bytes orig)"
  unfolding ExportProfilesPartialSuccess_MarshalProto_def ExportProfilesPartialSuccess_bytes_def by (rule emits_writes) (simp add: emits_intros)

lemma ExportProfilesPartialSuccess_size [size_simps]: "length (ExportProfilesPartialSuccess_bytes orig) = ExportProfilesPartialSuccess_SizeProto orig"
  by (simp add: ExportProfilesPartialSuccess_bytes_def ExportProfilesPartialSuccess_SizeProto_def size_simps comp_def)

lemma ExportProfilesPartialSuccess_fields:
  "ExportProfilesPartialSuccess_field 1 = r_varint ''RejectedProfiles'' (\<lambda>num orig. orig\<lparr>ExportProfilesPartialSuccess_RejectedProfiles := num\<rparr>)"
  "ExportProfilesPartialSuccess_field 2 = r_bytes ''ErrorMessage'' (\<lambda>s orig. orig\<lparr>ExportProfilesPartialSuccess_ErrorMessage := s\<rparr>)"
  by (simp_all add: ExportProfilesPartialSuccess_field_def)

lemma ExportProfilesPartialSuccess_eta: "\<lparr>ExportProfilesPartialSuccess_ErrorMessage = ExportProfilesPartialSuccess_ErrorMessage orig, ExportProfilesPartialSuccess_RejectedProfiles = ExportProfilesPartialSuccess_RejectedProfiles orig\<rparr> = (orig :: ExportProfilesPartialSuccess)"
  by (cases orig) simp

lemmas ExportProfilesPartialSuccess_steps =
  reads_varint [where h = ExportProfilesPartialSuccess_field and f = 1 and tag = "[0x8]", OF _ ExportProfilesPartialSuccess_fields(1), THEN reads_append]
  reads_bytes [where h = ExportProfilesPartialSuccess_field and f = 2 and tag = "[0x12]", OF _ ExportProfilesPartialSuccess_fields(2), THEN reads_append]

lemma ExportProfilesPartialSuccess_reads: "reads ExportProfilesPartialSuccess_field (ExportProfilesPartialSuccess_bytes orig) ExportProfilesPartialSuccess_zero orig"
  unfolding ExportProfilesPartialSuccess_bytes_def rev.simps append.simps concat.simps
  by (intro ExportProfilesPartialSuccess_steps reads_done)
    (simp_all add: ExportProfilesPartialSuccess_zero_def ExportProfilesPartialSuccess_eta  split: option.splits)

lemma ExportProfilesPartialSuccess_roundtrip:
  "length (ExportProfilesPartialSuccess_bytes orig) < 2 ^ 62 \<Longrightarrow> ExportProfilesPartialSuccess_UnmarshalProto (ExportProfilesPartialSuccess_bytes orig) ExportProfilesPartialSuccess_zero = Some (Ok orig)"
  by (simp add: ExportProfilesPartialSuccess_UnmarshalProto_def unmarshal_reads ExportProfilesPartialSuccess_reads)

lemma ExportProfilesPartialSuccess_safe [safe_intros]: "safe_unmarshal ExportProfilesPartialSuccess_UnmarshalProto"
  unfolding ExportProfilesPartialSuccess_UnmarshalProto_def by (rule safe_unmarshal_fields) (auto simp: ExportProfilesPartialSuccess_field_def intro!: safe_intros)

subsection \<open>ExportProfilesServiceResponse\<close>

record ExportProfilesServiceResponse =
  ExportProfilesServiceResponse_PartialSuccess :: ExportProfilesPartialSuccess

definition ExportProfilesServiceResponse_zero :: ExportProfilesServiceResponse where
  "ExportProfilesServiceResponse_zero = \<lparr>ExportProfilesServiceResponse_PartialSuccess = ExportProfilesPartialSuccess_zero\<rparr>"

definition ExportProfilesServiceResponse_SizeProto :: "ExportProfilesServiceResponse \<Rightarrow> nat" where
  "ExportProfilesServiceResponse_SizeProto orig = sum_list [
     size_len 1 (ExportProfilesPartialSuccess_SizeProto (ExportProfilesServiceResponse_PartialSuccess orig))]"

definition ExportProfilesServiceResponse_MarshalProto :: "ExportProfilesServiceResponse \<Rightarrow> writer" where
  "ExportProfilesServiceResponse_MarshalProto orig = writes [
     w_message [0xa] (ExportProfilesPartialSuccess_MarshalProto (ExportProfilesServiceResponse_PartialSuccess orig))]"

definition ExportProfilesServiceResponse_field :: "int \<Rightarrow> ExportProfilesServiceResponse reader" where
  "ExportProfilesServiceResponse_field fieldNum =
     (if fieldNum = 1 then r_message ''PartialSuccess'' ExportProfilesPartialSuccess_UnmarshalProto ExportProfilesServiceResponse_PartialSuccess (\<lambda>v orig. orig\<lparr>ExportProfilesServiceResponse_PartialSuccess := v\<rparr>)
      else r_unknown)"

definition ExportProfilesServiceResponse_UnmarshalProto :: "byte list \<Rightarrow> ExportProfilesServiceResponse \<Rightarrow> ExportProfilesServiceResponse unmarshalled" where
  "ExportProfilesServiceResponse_UnmarshalProto = unmarshal ExportProfilesServiceResponse_field"

definition ExportProfilesServiceResponse_bytes :: "ExportProfilesServiceResponse \<Rightarrow> byte list" where
  "ExportProfilesServiceResponse_bytes orig = concat (rev [
     len_bytes [0xa] (ExportProfilesPartialSuccess_bytes (ExportProfilesServiceResponse_PartialSuccess orig))])"

lemma emits_ExportProfilesServiceResponse [emits_intros]: "emits (ExportProfilesServiceResponse_MarshalProto orig) (ExportProfilesServiceResponse_bytes orig)"
  unfolding ExportProfilesServiceResponse_MarshalProto_def ExportProfilesServiceResponse_bytes_def by (rule emits_writes) (simp add: emits_intros)

lemma ExportProfilesServiceResponse_size [size_simps]: "length (ExportProfilesServiceResponse_bytes orig) = ExportProfilesServiceResponse_SizeProto orig"
  by (simp add: ExportProfilesServiceResponse_bytes_def ExportProfilesServiceResponse_SizeProto_def size_simps comp_def)

lemma ExportProfilesServiceResponse_fields:
  "ExportProfilesServiceResponse_field 1 = r_message ''PartialSuccess'' ExportProfilesPartialSuccess_UnmarshalProto ExportProfilesServiceResponse_PartialSuccess (\<lambda>v orig. orig\<lparr>ExportProfilesServiceResponse_PartialSuccess := v\<rparr>)"
  by (simp_all add: ExportProfilesServiceResponse_field_def)

lemma ExportProfilesServiceResponse_eta: "\<lparr>ExportProfilesServiceResponse_PartialSuccess = ExportProfilesServiceResponse_PartialSuccess orig\<rparr> = (orig :: ExportProfilesServiceResponse)"
  by (cases orig) simp

lemmas ExportProfilesServiceResponse_steps =
  reads_submessage [where h = ExportProfilesServiceResponse_field and f = 1 and tag = "[0xa]" and b = ExportProfilesPartialSuccess_bytes, OF _ ExportProfilesServiceResponse_fields, THEN reads_append]

lemma ExportProfilesServiceResponse_reads: "reads ExportProfilesServiceResponse_field (ExportProfilesServiceResponse_bytes orig) ExportProfilesServiceResponse_zero orig"
  unfolding ExportProfilesServiceResponse_bytes_def rev.simps append.simps concat.simps
  by (intro ExportProfilesServiceResponse_steps reads_done)
    (simp_all add: ExportProfilesServiceResponse_zero_def ExportProfilesServiceResponse_eta ExportProfilesPartialSuccess_roundtrip split: option.splits)

lemma ExportProfilesServiceResponse_roundtrip:
  "length (ExportProfilesServiceResponse_bytes orig) < 2 ^ 62 \<Longrightarrow> ExportProfilesServiceResponse_UnmarshalProto (ExportProfilesServiceResponse_bytes orig) ExportProfilesServiceResponse_zero = Some (Ok orig)"
  by (simp add: ExportProfilesServiceResponse_UnmarshalProto_def unmarshal_reads ExportProfilesServiceResponse_reads)

lemma ExportProfilesServiceResponse_safe [safe_intros]: "safe_unmarshal ExportProfilesServiceResponse_UnmarshalProto"
  unfolding ExportProfilesServiceResponse_UnmarshalProto_def by (rule safe_unmarshal_fields) (auto simp: ExportProfilesServiceResponse_field_def intro!: safe_intros)

end
