(* ===== verification/ProtoRequests.thy ===== *)
theory ProtoRequests
  imports ProtoLogs ProtoTraces ProtoMetrics ProtoProfiles
begin

text \<open>
  The messages in which the persistent queue stores a request with its context: the data, the span context, the metadata and
  the address of the client.
\<close>

subsection \<open>SpanContext\<close>

record SpanContext =
  SpanContext_TraceState :: "byte list"
  SpanContext_TraceFlags :: "32 word"
  SpanContext_TraceID :: TraceID
  SpanContext_SpanID :: SpanID
  SpanContext_Remote :: bool

definition SpanContext_zero :: SpanContext where
  "SpanContext_zero = \<lparr>SpanContext_TraceState = [], SpanContext_TraceFlags = 0, SpanContext_TraceID = 0, SpanContext_SpanID = 0, SpanContext_Remote = False\<rparr>"

definition SpanContext_SizeProto :: "SpanContext \<Rightarrow> nat" where
  "SpanContext_SizeProto orig = sum_list [
     size_len 1 (TraceID_SizeProto (SpanContext_TraceID orig)),
     size_len 1 (SpanID_SizeProto (SpanContext_SpanID orig)),
     if SpanContext_TraceFlags orig \<noteq> 0 then 5 else 0,
     size_bytes 1 (SpanContext_TraceState orig),
     if SpanContext_Remote orig then 2 else 0]"

definition SpanContext_MarshalProto :: "SpanContext \<Rightarrow> writer" where
  "SpanContext_MarshalProto orig = writes [
     w_message [0xa] (TraceID_MarshalProto (SpanContext_TraceID orig)),
     w_message [0x12] (SpanID_MarshalProto (SpanContext_SpanID orig)),
     w_fixed32 [0x1d] (SpanContext_TraceFlags orig),
     w_bytes [0x22] (SpanContext_TraceState orig),
     w_bool [0x28] (SpanContext_Remote orig)]"

definition SpanContext_field :: "int \<Rightarrow> SpanContext reader" where
  "SpanContext_field fieldNum =
     (if fieldNum = 1 then r_message ''TraceID'' TraceID_UnmarshalProto SpanContext_TraceID (\<lambda>v orig. orig\<lparr>SpanContext_TraceID := v\<rparr>)
      else if fieldNum = 2 then r_message ''SpanID'' SpanID_UnmarshalProto SpanContext_SpanID (\<lambda>v orig. orig\<lparr>SpanContext_SpanID := v\<rparr>)
      else if fieldNum = 3 then r_fixed32 ''TraceFlags'' (\<lambda>num orig. orig\<lparr>SpanContext_TraceFlags := num\<rparr>)
      else if fieldNum = 4 then r_bytes ''TraceState'' (\<lambda>s orig. orig\<lparr>SpanContext_TraceState := s\<rparr>)
      else if fieldNum = 5 then r_varint ''Remote'' (\<lambda>num orig. orig\<lparr>SpanContext_Remote := num \<noteq> 0\<rparr>)
      else r_unknown)"

definition SpanContext_UnmarshalProto :: "byte list \<Rightarrow> SpanContext \<Rightarrow> SpanContext unmarshalled" where
  "SpanContext_UnmarshalProto = unmarshal SpanContext_field"

definition SpanContext_bytes :: "SpanContext \<Rightarrow> byte list" where
  "SpanContext_bytes orig = concat (rev [
     len_bytes [0xa] (TraceID_bytes (SpanContext_TraceID orig)),
     len_bytes [0x12] (SpanID_bytes (SpanContext_SpanID orig)),
     b_fixed32 [0x1d] (SpanContext_TraceFlags orig),
     b_bytes [0x22] (SpanContext_TraceState orig),
     b_bool [0x28] (SpanContext_Remote orig)])"

lemma emits_SpanContext [emits_intros]: "emits (SpanContext_MarshalProto orig) (SpanContext_bytes orig)"
  unfolding SpanContext_MarshalProto_def SpanContext_bytes_def by (rule emits_writes) (simp add: emits_intros)

lemma SpanContext_size [size_simps]: "length (SpanContext_bytes orig) = SpanContext_SizeProto orig"
  by (simp add: SpanContext_bytes_def SpanContext_SizeProto_def size_simps comp_def)

lemma SpanContext_fields:
  "SpanContext_field 1 = r_message ''TraceID'' TraceID_UnmarshalProto SpanContext_TraceID (\<lambda>v orig. orig\<lparr>SpanContext_TraceID := v\<rparr>)"
  "SpanContext_field 2 = r_message ''SpanID'' SpanID_UnmarshalProto SpanContext_SpanID (\<lambda>v orig. orig\<lparr>SpanContext_SpanID := v\<rparr>)"
  "SpanContext_field 3 = r_fixed32 ''TraceFlags'' (\<lambda>num orig. orig\<lparr>SpanContext_TraceFlags := num\<rparr>)"
  "SpanContext_field 4 = r_bytes ''TraceState'' (\<lambda>s orig. orig\<lparr>SpanContext_TraceState := s\<rparr>)"
  "SpanContext_field 5 = r_varint ''Remote'' (\<lambda>num orig. orig\<lparr>SpanContext_Remote := num \<noteq> 0\<rparr>)"
  by (simp_all add: SpanContext_field_def)

lemma SpanContext_eta: "\<lparr>SpanContext_TraceState = SpanContext_TraceState orig, SpanContext_TraceFlags = SpanContext_TraceFlags orig, SpanContext_TraceID = SpanContext_TraceID orig, SpanContext_SpanID = SpanContext_SpanID orig, SpanContext_Remote = SpanContext_Remote orig\<rparr> = (orig :: SpanContext)"
  by (cases orig) simp

lemmas SpanContext_steps =
  reads_submessage [where h = SpanContext_field and f = 1 and tag = "[0xa]" and b = TraceID_bytes, OF _ SpanContext_fields(1), THEN reads_append]
  reads_submessage [where h = SpanContext_field and f = 2 and tag = "[0x12]" and b = SpanID_bytes, OF _ SpanContext_fields(2), THEN reads_append]
  reads_fixed32 [where h = SpanContext_field and f = 3 and tag = "[0x1d]", OF _ SpanContext_fields(3), THEN reads_append]
  reads_bytes [where h = SpanContext_field and f = 4 and tag = "[0x22]", OF _ SpanContext_fields(4), THEN reads_append]
  reads_bool [where h = SpanContext_field and f = 5 and tag = "[0x28]" and put = "\<lambda>x orig. orig\<lparr>SpanContext_Remote := x\<rparr>", OF _ SpanContext_fields(5), THEN reads_append]

lemma SpanContext_reads: "reads SpanContext_field (SpanContext_bytes orig) SpanContext_zero orig"
  unfolding SpanContext_bytes_def rev.simps append.simps concat.simps
  by (intro SpanContext_steps reads_done)
    (simp_all add: SpanContext_zero_def SpanContext_eta SpanID_roundtrip TraceID_roundtrip split: option.splits)

lemma SpanContext_roundtrip:
  "length (SpanContext_bytes orig) < 2 ^ 62 \<Longrightarrow> SpanContext_UnmarshalProto (SpanContext_bytes orig) SpanContext_zero = Some (Ok orig)"
  by (simp add: SpanContext_UnmarshalProto_def unmarshal_reads SpanContext_reads)

lemma SpanContext_safe [safe_intros]: "safe_unmarshal SpanContext_UnmarshalProto"
  unfolding SpanContext_UnmarshalProto_def by (rule safe_unmarshal_fields) (auto simp: SpanContext_field_def intro!: safe_intros)

subsection \<open>IPAddr\<close>

record IPAddr =
  IPAddr_Zone :: "byte list"
  IPAddr_IP :: "byte list"

definition IPAddr_zero :: IPAddr where
  "IPAddr_zero = \<lparr>IPAddr_Zone = [], IPAddr_IP = []\<rparr>"

definition IPAddr_SizeProto :: "IPAddr \<Rightarrow> nat" where
  "IPAddr_SizeProto orig = sum_list [
     size_bytes 1 (IPAddr_IP orig),
     size_bytes 1 (IPAddr_Zone orig)]"

definition IPAddr_MarshalProto :: "IPAddr \<Rightarrow> writer" where
  "IPAddr_MarshalProto orig = writes [
     w_bytes [0xa] (IPAddr_IP orig),
     w_bytes [0x12] (IPAddr_Zone orig)]"

definition IPAddr_field :: "int \<Rightarrow> IPAddr reader" where
  "IPAddr_field fieldNum =
     (if fieldNum = 1 then r_bytes ''IP'' (\<lambda>s orig. orig\<lparr>IPAddr_IP := if s \<noteq> [] then s else IPAddr_IP orig\<rparr>)
      else if fieldNum = 2 then r_bytes ''Zone'' (\<lambda>s orig. orig\<lparr>IPAddr_Zone := s\<rparr>)
      else r_unknown)"

definition IPAddr_UnmarshalProto :: "byte list \<Rightarrow> IPAddr \<Rightarrow> IPAddr unmarshalled" where
  "IPAddr_UnmarshalProto = unmarshal IPAddr_field"

definition IPAddr_bytes :: "IPAddr \<Rightarrow> byte list" where
  "IPAddr_bytes orig = concat (rev [
     b_bytes [0xa] (IPAddr_IP orig),
     b_bytes [0x12] (IPAddr_Zone orig)])"

lemma emits_IPAddr [emits_intros]: "emits (IPAddr_MarshalProto orig) (IPAddr_bytes orig)"
  unfolding IPAddr_MarshalProto_def IPAddr_bytes_def by (rule emits_writes) (simp add: emits_intros)

lemma IPAddr_size [size_simps]: "length (IPAddr_bytes orig) = IPAddr_SizeProto orig"
  by (simp add: IPAddr_bytes_def IPAddr_SizeProto_def size_simps comp_def)

lemma IPAddr_fields:
  "IPAddr_field 1 = r_bytes ''IP'' (\<lambda>s orig. orig\<lparr>IPAddr_IP := if s \<noteq> [] then s else IPAddr_IP orig\<rparr>)"
  "IPAddr_field 2 = r_bytes ''Zone'' (\<lambda>s orig. orig\<lparr>IPAddr_Zone := s\<rparr>)"
  by (simp_all add: IPAddr_field_def)

lemma IPAddr_eta: "\<lparr>IPAddr_Zone = IPAddr_Zone orig, IPAddr_IP = IPAddr_IP orig\<rparr> = (orig :: IPAddr)"
  by (cases orig) simp

lemmas IPAddr_steps =
  reads_bytes [where h = IPAddr_field and f = 1 and tag = "[0xa]", OF _ IPAddr_fields(1), THEN reads_append]
  reads_bytes [where h = IPAddr_field and f = 2 and tag = "[0x12]", OF _ IPAddr_fields(2), THEN reads_append]

lemma IPAddr_reads: "reads IPAddr_field (IPAddr_bytes orig) IPAddr_zero orig"
  unfolding IPAddr_bytes_def rev.simps append.simps concat.simps
  by (intro IPAddr_steps reads_done)
    (simp_all add: IPAddr_zero_def IPAddr_eta  split: option.splits)

lemma IPAddr_roundtrip:
  "length (IPAddr_bytes orig) < 2 ^ 62 \<Longrightarrow> IPAddr_UnmarshalProto (IPAddr_bytes orig) IPAddr_zero = Some (Ok orig)"
  by (simp add: IPAddr_UnmarshalProto_def unmarshal_reads IPAddr_reads)

lemma IPAddr_safe [safe_intros]: "safe_unmarshal IPAddr_UnmarshalProto"
  unfolding IPAddr_UnmarshalProto_def by (rule safe_unmarshal_fields) (auto simp: IPAddr_field_def intro!: safe_intros)

subsection \<open>TCPAddr\<close>

record TCPAddr =
  TCPAddr_Zone :: "byte list"
  TCPAddr_IP :: "byte list"
  TCPAddr_Port :: u64

definition TCPAddr_zero :: TCPAddr where
  "TCPAddr_zero = \<lparr>TCPAddr_Zone = [], TCPAddr_IP = [], TCPAddr_Port = 0\<rparr>"

definition TCPAddr_SizeProto :: "TCPAddr \<Rightarrow> nat" where
  "TCPAddr_SizeProto orig = sum_list [
     size_bytes 1 (TCPAddr_IP orig),
     if TCPAddr_Port orig \<noteq> 0 then 1 + Sov ((TCPAddr_Port orig)) else 0,
     size_bytes 1 (TCPAddr_Zone orig)]"

definition TCPAddr_MarshalProto :: "TCPAddr \<Rightarrow> writer" where
  "TCPAddr_MarshalProto orig = writes [
     w_bytes [0xa] (TCPAddr_IP orig),
     w_varint [0x10] (TCPAddr_Port orig),
     w_bytes [0x1a] (TCPAddr_Zone orig)]"

definition TCPAddr_field :: "int \<Rightarrow> TCPAddr reader" where
  "TCPAddr_field fieldNum =
     (if fieldNum = 1 then r_bytes ''IP'' (\<lambda>s orig. orig\<lparr>TCPAddr_IP := if s \<noteq> [] then s else TCPAddr_IP orig\<rparr>)
      else if fieldNum = 2 then r_varint ''Port'' (\<lambda>num orig. orig\<lparr>TCPAddr_Port := num\<rparr>)
      else if fieldNum = 3 then r_bytes ''Zone'' (\<lambda>s orig. orig\<lparr>TCPAddr_Zone := s\<rparr>)
      else r_unknown)"

definition TCPAddr_UnmarshalProto :: "byte list \<Rightarrow> TCPAddr \<Rightarrow> TCPAddr unmarshalled" where
  "TCPAddr_UnmarshalProto = unmarshal TCPAddr_field"

definition TCPAddr_bytes :: "TCPAddr \<Rightarrow> byte list" where
  "TCPAddr_bytes orig = concat (rev [
     b_bytes [0xa] (TCPAddr_IP orig),
     b_varint [0x10] (TCPAddr_Port orig),
     b_bytes [0x1a] (TCPAddr_Zone orig)])"

lemma emits_TCPAddr [emits_intros]: "emits (TCPAddr_MarshalProto orig) (TCPAddr_bytes orig)"
  unfolding TCPAddr_MarshalProto_def TCPAddr_bytes_def by (rule emits_writes) (simp add: emits_intros)

lemma TCPAddr_size [size_simps]: "length (TCPAddr_bytes orig) = TCPAddr_SizeProto orig"
  by (simp add: TCPAddr_bytes_def TCPAddr_SizeProto_def size_simps comp_def)

lemma TCPAddr_fields:
  "TCPAddr_field 1 = r_bytes ''IP'' (\<lambda>s orig. orig\<lparr>TCPAddr_IP := if s \<noteq> [] then s else TCPAddr_IP orig\<rparr>)"
  "TCPAddr_field 2 = r_varint ''Port'' (\<lambda>num orig. orig\<lparr>TCPAddr_Port := num\<rparr>)"
  "TCPAddr_field 3 = r_bytes ''Zone'' (\<lambda>s orig. orig\<lparr>TCPAddr_Zone := s\<rparr>)"
  by (simp_all add: TCPAddr_field_def)

lemma TCPAddr_eta: "\<lparr>TCPAddr_Zone = TCPAddr_Zone orig, TCPAddr_IP = TCPAddr_IP orig, TCPAddr_Port = TCPAddr_Port orig\<rparr> = (orig :: TCPAddr)"
  by (cases orig) simp

lemmas TCPAddr_steps =
  reads_bytes [where h = TCPAddr_field and f = 1 and tag = "[0xa]", OF _ TCPAddr_fields(1), THEN reads_append]
  reads_varint [where h = TCPAddr_field and f = 2 and tag = "[0x10]", OF _ TCPAddr_fields(2), THEN reads_append]
  reads_bytes [where h = TCPAddr_field and f = 3 and tag = "[0x1a]", OF _ TCPAddr_fields(3), THEN reads_append]

lemma TCPAddr_reads: "reads TCPAddr_field (TCPAddr_bytes orig) TCPAddr_zero orig"
  unfolding TCPAddr_bytes_def rev.simps append.simps concat.simps
  by (intro TCPAddr_steps reads_done)
    (simp_all add: TCPAddr_zero_def TCPAddr_eta  split: option.splits)

lemma TCPAddr_roundtrip:
  "length (TCPAddr_bytes orig) < 2 ^ 62 \<Longrightarrow> TCPAddr_UnmarshalProto (TCPAddr_bytes orig) TCPAddr_zero = Some (Ok orig)"
  by (simp add: TCPAddr_UnmarshalProto_def unmarshal_reads TCPAddr_reads)

lemma TCPAddr_safe [safe_intros]: "safe_unmarshal TCPAddr_UnmarshalProto"
  unfolding TCPAddr_UnmarshalProto_def by (rule safe_unmarshal_fields) (auto simp: TCPAddr_field_def intro!: safe_intros)

subsection \<open>UDPAddr\<close>

record UDPAddr =
  UDPAddr_Zone :: "byte list"
  UDPAddr_IP :: "byte list"
  UDPAddr_Port :: u64

definition UDPAddr_zero :: UDPAddr where
  "UDPAddr_zero = \<lparr>UDPAddr_Zone = [], UDPAddr_IP = [], UDPAddr_Port = 0\<rparr>"

definition UDPAddr_SizeProto :: "UDPAddr \<Rightarrow> nat" where
  "UDPAddr_SizeProto orig = sum_list [
     size_bytes 1 (UDPAddr_IP orig),
     if UDPAddr_Port orig \<noteq> 0 then 1 + Sov ((UDPAddr_Port orig)) else 0,
     size_bytes 1 (UDPAddr_Zone orig)]"

definition UDPAddr_MarshalProto :: "UDPAddr \<Rightarrow> writer" where
  "UDPAddr_MarshalProto orig = writes [
     w_bytes [0xa] (UDPAddr_IP orig),
     w_varint [0x10] (UDPAddr_Port orig),
     w_bytes [0x1a] (UDPAddr_Zone orig)]"

definition UDPAddr_field :: "int \<Rightarrow> UDPAddr reader" where
  "UDPAddr_field fieldNum =
     (if fieldNum = 1 then r_bytes ''IP'' (\<lambda>s orig. orig\<lparr>UDPAddr_IP := if s \<noteq> [] then s else UDPAddr_IP orig\<rparr>)
      else if fieldNum = 2 then r_varint ''Port'' (\<lambda>num orig. orig\<lparr>UDPAddr_Port := num\<rparr>)
      else if fieldNum = 3 then r_bytes ''Zone'' (\<lambda>s orig. orig\<lparr>UDPAddr_Zone := s\<rparr>)
      else r_unknown)"

definition UDPAddr_UnmarshalProto :: "byte list \<Rightarrow> UDPAddr \<Rightarrow> UDPAddr unmarshalled" where
  "UDPAddr_UnmarshalProto = unmarshal UDPAddr_field"

definition UDPAddr_bytes :: "UDPAddr \<Rightarrow> byte list" where
  "UDPAddr_bytes orig = concat (rev [
     b_bytes [0xa] (UDPAddr_IP orig),
     b_varint [0x10] (UDPAddr_Port orig),
     b_bytes [0x1a] (UDPAddr_Zone orig)])"

lemma emits_UDPAddr [emits_intros]: "emits (UDPAddr_MarshalProto orig) (UDPAddr_bytes orig)"
  unfolding UDPAddr_MarshalProto_def UDPAddr_bytes_def by (rule emits_writes) (simp add: emits_intros)

lemma UDPAddr_size [size_simps]: "length (UDPAddr_bytes orig) = UDPAddr_SizeProto orig"
  by (simp add: UDPAddr_bytes_def UDPAddr_SizeProto_def size_simps comp_def)

lemma UDPAddr_fields:
  "UDPAddr_field 1 = r_bytes ''IP'' (\<lambda>s orig. orig\<lparr>UDPAddr_IP := if s \<noteq> [] then s else UDPAddr_IP orig\<rparr>)"
  "UDPAddr_field 2 = r_varint ''Port'' (\<lambda>num orig. orig\<lparr>UDPAddr_Port := num\<rparr>)"
  "UDPAddr_field 3 = r_bytes ''Zone'' (\<lambda>s orig. orig\<lparr>UDPAddr_Zone := s\<rparr>)"
  by (simp_all add: UDPAddr_field_def)

lemma UDPAddr_eta: "\<lparr>UDPAddr_Zone = UDPAddr_Zone orig, UDPAddr_IP = UDPAddr_IP orig, UDPAddr_Port = UDPAddr_Port orig\<rparr> = (orig :: UDPAddr)"
  by (cases orig) simp

lemmas UDPAddr_steps =
  reads_bytes [where h = UDPAddr_field and f = 1 and tag = "[0xa]", OF _ UDPAddr_fields(1), THEN reads_append]
  reads_varint [where h = UDPAddr_field and f = 2 and tag = "[0x10]", OF _ UDPAddr_fields(2), THEN reads_append]
  reads_bytes [where h = UDPAddr_field and f = 3 and tag = "[0x1a]", OF _ UDPAddr_fields(3), THEN reads_append]

lemma UDPAddr_reads: "reads UDPAddr_field (UDPAddr_bytes orig) UDPAddr_zero orig"
  unfolding UDPAddr_bytes_def rev.simps append.simps concat.simps
  by (intro UDPAddr_steps reads_done)
    (simp_all add: UDPAddr_zero_def UDPAddr_eta  split: option.splits)

lemma UDPAddr_roundtrip:
  "length (UDPAddr_bytes orig) < 2 ^ 62 \<Longrightarrow> UDPAddr_UnmarshalProto (UDPAddr_bytes orig) UDPAddr_zero = Some (Ok orig)"
  by (simp add: UDPAddr_UnmarshalProto_def unmarshal_reads UDPAddr_reads)

lemma UDPAddr_safe [safe_intros]: "safe_unmarshal UDPAddr_UnmarshalProto"
  unfolding UDPAddr_UnmarshalProto_def by (rule safe_unmarshal_fields) (auto simp: UDPAddr_field_def intro!: safe_intros)

subsection \<open>UnixAddr\<close>

record UnixAddr =
  UnixAddr_Name :: "byte list"
  UnixAddr_Net :: "byte list"

definition UnixAddr_zero :: UnixAddr where
  "UnixAddr_zero = \<lparr>UnixAddr_Name = [], UnixAddr_Net = []\<rparr>"

definition UnixAddr_SizeProto :: "UnixAddr \<Rightarrow> nat" where
  "UnixAddr_SizeProto orig = sum_list [
     size_bytes 1 (UnixAddr_Name orig),
     size_bytes 1 (UnixAddr_Net orig)]"

definition UnixAddr_MarshalProto :: "UnixAddr \<Rightarrow> writer" where
  "UnixAddr_MarshalProto orig = writes [
     w_bytes [0xa] (UnixAddr_Name orig),
     w_bytes [0x12] (UnixAddr_Net orig)]"

definition UnixAddr_field :: "int \<Rightarrow> UnixAddr reader" where
  "UnixAddr_field fieldNum =
     (if fieldNum = 1 then r_bytes ''Name'' (\<lambda>s orig. orig\<lparr>UnixAddr_Name := s\<rparr>)
      else if fieldNum = 2 then r_bytes ''Net'' (\<lambda>s orig. orig\<lparr>UnixAddr_Net := s\<rparr>)
      else r_unknown)"

definition UnixAddr_UnmarshalProto :: "byte list \<Rightarrow> UnixAddr \<Rightarrow> UnixAddr unmarshalled" where
  "UnixAddr_UnmarshalProto = unmarshal UnixAddr_field"

definition UnixAddr_bytes :: "UnixAddr \<Rightarrow> byte list" where
  "UnixAddr_bytes orig = concat (rev [
     b_bytes [0xa] (UnixAddr_Name orig),
     b_bytes [0x12] (UnixAddr_Net orig)])"

lemma emits_UnixAddr [emits_intros]: "emits (UnixAddr_MarshalProto orig) (UnixAddr_bytes orig)"
  unfolding UnixAddr_MarshalProto_def UnixAddr_bytes_def by (rule emits_writes) (simp add: emits_intros)

lemma UnixAddr_size [size_simps]: "length (UnixAddr_bytes orig) = UnixAddr_SizeProto orig"
  by (simp add: UnixAddr_bytes_def UnixAddr_SizeProto_def size_simps comp_def)

lemma UnixAddr_fields:
  "UnixAddr_field 1 = r_bytes ''Name'' (\<lambda>s orig. orig\<lparr>UnixAddr_Name := s\<rparr>)"
  "UnixAddr_field 2 = r_bytes ''Net'' (\<lambda>s orig. orig\<lparr>UnixAddr_Net := s\<rparr>)"
  by (simp_all add: UnixAddr_field_def)

lemma UnixAddr_eta: "\<lparr>UnixAddr_Name = UnixAddr_Name orig, UnixAddr_Net = UnixAddr_Net orig\<rparr> = (orig :: UnixAddr)"
  by (cases orig) simp

lemmas UnixAddr_steps =
  reads_bytes [where h = UnixAddr_field and f = 1 and tag = "[0xa]", OF _ UnixAddr_fields(1), THEN reads_append]
  reads_bytes [where h = UnixAddr_field and f = 2 and tag = "[0x12]", OF _ UnixAddr_fields(2), THEN reads_append]

lemma UnixAddr_reads: "reads UnixAddr_field (UnixAddr_bytes orig) UnixAddr_zero orig"
  unfolding UnixAddr_bytes_def rev.simps append.simps concat.simps
  by (intro UnixAddr_steps reads_done)
    (simp_all add: UnixAddr_zero_def UnixAddr_eta  split: option.splits)

lemma UnixAddr_roundtrip:
  "length (UnixAddr_bytes orig) < 2 ^ 62 \<Longrightarrow> UnixAddr_UnmarshalProto (UnixAddr_bytes orig) UnixAddr_zero = Some (Ok orig)"
  by (simp add: UnixAddr_UnmarshalProto_def unmarshal_reads UnixAddr_reads)

lemma UnixAddr_safe [safe_intros]: "safe_unmarshal UnixAddr_UnmarshalProto"
  unfolding UnixAddr_UnmarshalProto_def by (rule safe_unmarshal_fields) (auto simp: UnixAddr_field_def intro!: safe_intros)

subsection \<open>RequestContext\<close>

datatype RequestContext_ClientAddress =
    RequestContext_ClientAddress_None
  | RequestContext_IP "IPAddr option"
  | RequestContext_TCP "TCPAddr option"
  | RequestContext_UDP "UDPAddr option"
  | RequestContext_Unix "UnixAddr option"

fun RequestContext_ClientAddress_SizeProto :: "RequestContext_ClientAddress \<Rightarrow> nat" where
  "RequestContext_ClientAddress_SizeProto RequestContext_ClientAddress_None = 0"
| "RequestContext_ClientAddress_SizeProto (RequestContext_IP (Some v)) = size_len 1 (IPAddr_SizeProto v)"
| "RequestContext_ClientAddress_SizeProto (RequestContext_IP None) = 0"
| "RequestContext_ClientAddress_SizeProto (RequestContext_TCP (Some v)) = size_len 1 (TCPAddr_SizeProto v)"
| "RequestContext_ClientAddress_SizeProto (RequestContext_TCP None) = 0"
| "RequestContext_ClientAddress_SizeProto (RequestContext_UDP (Some v)) = size_len 1 (UDPAddr_SizeProto v)"
| "RequestContext_ClientAddress_SizeProto (RequestContext_UDP None) = 0"
| "RequestContext_ClientAddress_SizeProto (RequestContext_Unix (Some v)) = size_len 1 (UnixAddr_SizeProto v)"
| "RequestContext_ClientAddress_SizeProto (RequestContext_Unix None) = 0"

fun RequestContext_ClientAddress_MarshalProto :: "RequestContext_ClientAddress \<Rightarrow> writer" where
  "RequestContext_ClientAddress_MarshalProto RequestContext_ClientAddress_None = Some"
| "RequestContext_ClientAddress_MarshalProto (RequestContext_IP (Some v)) = w_message [0x1a] (IPAddr_MarshalProto v)"
| "RequestContext_ClientAddress_MarshalProto (RequestContext_IP None) = Some"
| "RequestContext_ClientAddress_MarshalProto (RequestContext_TCP (Some v)) = w_message [0x22] (TCPAddr_MarshalProto v)"
| "RequestContext_ClientAddress_MarshalProto (RequestContext_TCP None) = Some"
| "RequestContext_ClientAddress_MarshalProto (RequestContext_UDP (Some v)) = w_message [0x2a] (UDPAddr_MarshalProto v)"
| "RequestContext_ClientAddress_MarshalProto (RequestContext_UDP None) = Some"
| "RequestContext_ClientAddress_MarshalProto (RequestContext_Unix (Some v)) = w_message [0x32] (UnixAddr_MarshalProto v)"
| "RequestContext_ClientAddress_MarshalProto (RequestContext_Unix None) = Some"

fun RequestContext_ClientAddress_bytes :: "RequestContext_ClientAddress \<Rightarrow> byte list" where
  "RequestContext_ClientAddress_bytes RequestContext_ClientAddress_None = []"
| "RequestContext_ClientAddress_bytes (RequestContext_IP (Some v)) = len_bytes [0x1a] (IPAddr_bytes v)"
| "RequestContext_ClientAddress_bytes (RequestContext_IP None) = []"
| "RequestContext_ClientAddress_bytes (RequestContext_TCP (Some v)) = len_bytes [0x22] (TCPAddr_bytes v)"
| "RequestContext_ClientAddress_bytes (RequestContext_TCP None) = []"
| "RequestContext_ClientAddress_bytes (RequestContext_UDP (Some v)) = len_bytes [0x2a] (UDPAddr_bytes v)"
| "RequestContext_ClientAddress_bytes (RequestContext_UDP None) = []"
| "RequestContext_ClientAddress_bytes (RequestContext_Unix (Some v)) = len_bytes [0x32] (UnixAddr_bytes v)"
| "RequestContext_ClientAddress_bytes (RequestContext_Unix None) = []"

fun RequestContext_ClientAddress_wf :: "RequestContext_ClientAddress \<Rightarrow> bool" where
  "RequestContext_ClientAddress_wf RequestContext_ClientAddress_None = True"
| "RequestContext_ClientAddress_wf (RequestContext_IP (Some v)) = True"
| "RequestContext_ClientAddress_wf (RequestContext_IP None) = False"
| "RequestContext_ClientAddress_wf (RequestContext_TCP (Some v)) = True"
| "RequestContext_ClientAddress_wf (RequestContext_TCP None) = False"
| "RequestContext_ClientAddress_wf (RequestContext_UDP (Some v)) = True"
| "RequestContext_ClientAddress_wf (RequestContext_UDP None) = False"
| "RequestContext_ClientAddress_wf (RequestContext_Unix (Some v)) = True"
| "RequestContext_ClientAddress_wf (RequestContext_Unix None) = False"

record RequestContext =
  RequestContext_ClientAddress :: RequestContext_ClientAddress
  RequestContext_SpanContext :: "SpanContext option"
  RequestContext_ClientMetadata :: "KeyValue list"

definition RequestContext_zero :: RequestContext where
  "RequestContext_zero = \<lparr>RequestContext_ClientAddress = RequestContext_ClientAddress_None, RequestContext_SpanContext = None, RequestContext_ClientMetadata = []\<rparr>"

definition RequestContext_SizeProto :: "RequestContext \<Rightarrow> nat" where
  "RequestContext_SizeProto orig = sum_list [
     size_optional 1 SpanContext_SizeProto (RequestContext_SpanContext orig),
     \<Sum>x\<leftarrow>RequestContext_ClientMetadata orig. size_len 1 (KeyValue_SizeProto x),
     RequestContext_ClientAddress_SizeProto (RequestContext_ClientAddress orig)]"

definition RequestContext_MarshalProto :: "RequestContext \<Rightarrow> writer" where
  "RequestContext_MarshalProto orig = writes [
     w_optional_message [0xa] SpanContext_MarshalProto (RequestContext_SpanContext orig),
     w_repeated [0x12] KeyValue_MarshalProto (RequestContext_ClientMetadata orig),
     RequestContext_ClientAddress_MarshalProto (RequestContext_ClientAddress orig)]"

definition RequestContext_field :: "int \<Rightarrow> RequestContext reader" where
  "RequestContext_field fieldNum =
     (if fieldNum = 1 then r_message ''SpanContext'' SpanContext_UnmarshalProto (\<lambda>_. SpanContext_zero) (\<lambda>v orig. orig\<lparr>RequestContext_SpanContext := Some v\<rparr>)
      else if fieldNum = 2 then r_message ''ClientMetadata'' KeyValue_UnmarshalProto (\<lambda>_. (KeyValue [] NoValue 0)) (\<lambda>v orig. orig\<lparr>RequestContext_ClientMetadata := RequestContext_ClientMetadata orig @ [v]\<rparr>)
      else if fieldNum = 3 then r_message ''IP'' IPAddr_UnmarshalProto (\<lambda>_. IPAddr_zero) (\<lambda>v orig. orig\<lparr>RequestContext_ClientAddress := RequestContext_IP (Some v)\<rparr>)
      else if fieldNum = 4 then r_message ''TCP'' TCPAddr_UnmarshalProto (\<lambda>_. TCPAddr_zero) (\<lambda>v orig. orig\<lparr>RequestContext_ClientAddress := RequestContext_TCP (Some v)\<rparr>)
      else if fieldNum = 5 then r_message ''UDP'' UDPAddr_UnmarshalProto (\<lambda>_. UDPAddr_zero) (\<lambda>v orig. orig\<lparr>RequestContext_ClientAddress := RequestContext_UDP (Some v)\<rparr>)
      else if fieldNum = 6 then r_message ''Unix'' UnixAddr_UnmarshalProto (\<lambda>_. UnixAddr_zero) (\<lambda>v orig. orig\<lparr>RequestContext_ClientAddress := RequestContext_Unix (Some v)\<rparr>)
      else r_unknown)"

definition RequestContext_UnmarshalProto :: "byte list \<Rightarrow> RequestContext \<Rightarrow> RequestContext unmarshalled" where
  "RequestContext_UnmarshalProto = unmarshal RequestContext_field"

definition RequestContext_bytes :: "RequestContext \<Rightarrow> byte list" where
  "RequestContext_bytes orig = concat (rev [
     b_optional [0xa] SpanContext_bytes (RequestContext_SpanContext orig),
     b_repeated [0x12] (map KeyValue_bytes (RequestContext_ClientMetadata orig)),
     RequestContext_ClientAddress_bytes (RequestContext_ClientAddress orig)])"

definition RequestContext_wf :: "RequestContext \<Rightarrow> bool" where
  "RequestContext_wf orig \<longleftrightarrow> list_all KeyValue_wf (RequestContext_ClientMetadata orig) \<and>
     RequestContext_ClientAddress_wf (RequestContext_ClientAddress orig)"

lemma emits_RequestContext_ClientAddress [emits_intros]: "emits (RequestContext_ClientAddress_MarshalProto d) (RequestContext_ClientAddress_bytes d)"
  by (cases d rule: RequestContext_ClientAddress_bytes.cases) (simp_all add: emits_intros)

lemma RequestContext_ClientAddress_size [size_simps]: "length (RequestContext_ClientAddress_bytes d) = RequestContext_ClientAddress_SizeProto d"
  by (cases d rule: RequestContext_ClientAddress_bytes.cases) (simp_all add: size_simps)

lemma emits_RequestContext [emits_intros]: "emits (RequestContext_MarshalProto orig) (RequestContext_bytes orig)"
  unfolding RequestContext_MarshalProto_def RequestContext_bytes_def by (rule emits_writes) (simp add: emits_intros)

lemma RequestContext_size [size_simps]: "length (RequestContext_bytes orig) = RequestContext_SizeProto orig"
  by (simp add: RequestContext_bytes_def RequestContext_SizeProto_def size_simps comp_def)

lemma RequestContext_fields:
  "RequestContext_field 1 = r_message ''SpanContext'' SpanContext_UnmarshalProto (\<lambda>_. SpanContext_zero) (\<lambda>v orig. orig\<lparr>RequestContext_SpanContext := Some v\<rparr>)"
  "RequestContext_field 2 = r_message ''ClientMetadata'' KeyValue_UnmarshalProto (\<lambda>_. (KeyValue [] NoValue 0)) (\<lambda>v orig. orig\<lparr>RequestContext_ClientMetadata := RequestContext_ClientMetadata orig @ [v]\<rparr>)"
  "RequestContext_field 3 = r_message ''IP'' IPAddr_UnmarshalProto (\<lambda>_. IPAddr_zero) (\<lambda>v orig. orig\<lparr>RequestContext_ClientAddress := RequestContext_IP (Some v)\<rparr>)"
  "RequestContext_field 4 = r_message ''TCP'' TCPAddr_UnmarshalProto (\<lambda>_. TCPAddr_zero) (\<lambda>v orig. orig\<lparr>RequestContext_ClientAddress := RequestContext_TCP (Some v)\<rparr>)"
  "RequestContext_field 5 = r_message ''UDP'' UDPAddr_UnmarshalProto (\<lambda>_. UDPAddr_zero) (\<lambda>v orig. orig\<lparr>RequestContext_ClientAddress := RequestContext_UDP (Some v)\<rparr>)"
  "RequestContext_field 6 = r_message ''Unix'' UnixAddr_UnmarshalProto (\<lambda>_. UnixAddr_zero) (\<lambda>v orig. orig\<lparr>RequestContext_ClientAddress := RequestContext_Unix (Some v)\<rparr>)"
  by (simp_all add: RequestContext_field_def)

lemma RequestContext_eta: "\<lparr>RequestContext_ClientAddress = RequestContext_ClientAddress orig, RequestContext_SpanContext = RequestContext_SpanContext orig, RequestContext_ClientMetadata = RequestContext_ClientMetadata orig\<rparr> = (orig :: RequestContext)"
  by (cases orig) simp

lemma RequestContext_ClientAddress_reads:
  assumes "RequestContext_ClientAddress_wf d" "RequestContext_ClientAddress m = RequestContext_ClientAddress_None"
  shows "reads RequestContext_field (RequestContext_ClientAddress_bytes d) m (m\<lparr>RequestContext_ClientAddress := d\<rparr>)"
proof (cases d rule: RequestContext_ClientAddress_bytes.cases)
  case 1
  then show ?thesis using assms by (cases m) (simp add: reads_Nil)
next
  case (2 v)
  then show ?thesis using assms
      reads_submessage [where h = RequestContext_field and f = 3 and tag = "[0x1a]" and b = IPAddr_bytes and x = v and m = m, OF _ RequestContext_fields(3)]
    by (simp add: IPAddr_roundtrip)
next
  case 3
  then show ?thesis using assms by simp
next
  case (4 v)
  then show ?thesis using assms
      reads_submessage [where h = RequestContext_field and f = 4 and tag = "[0x22]" and b = TCPAddr_bytes and x = v and m = m, OF _ RequestContext_fields(4)]
    by (simp add: TCPAddr_roundtrip)
next
  case 5
  then show ?thesis using assms by simp
next
  case (6 v)
  then show ?thesis using assms
      reads_submessage [where h = RequestContext_field and f = 5 and tag = "[0x2a]" and b = UDPAddr_bytes and x = v and m = m, OF _ RequestContext_fields(5)]
    by (simp add: UDPAddr_roundtrip)
next
  case 7
  then show ?thesis using assms by simp
next
  case (8 v)
  then show ?thesis using assms
      reads_submessage [where h = RequestContext_field and f = 6 and tag = "[0x32]" and b = UnixAddr_bytes and x = v and m = m, OF _ RequestContext_fields(6)]
    by (simp add: UnixAddr_roundtrip)
next
  case 9
  then show ?thesis using assms by simp
qed

lemmas RequestContext_steps =
  reads_optional_message [where h = RequestContext_field and f = 1 and tag = "[0xa]" and put = "\<lambda>x orig. orig\<lparr>RequestContext_SpanContext := x\<rparr>" and b = SpanContext_bytes, OF _ RequestContext_fields(1), THEN reads_append]
  reads_submessages [where h = RequestContext_field and f = 2 and tag = "[0x12]" and S = "\<lambda>x orig. orig\<lparr>RequestContext_ClientMetadata := x\<rparr>" and b = KeyValue_bytes, OF _ RequestContext_fields(2), THEN reads_append]
  RequestContext_ClientAddress_reads [THEN reads_append]

lemma RequestContext_reads: "RequestContext_wf orig \<Longrightarrow> reads RequestContext_field (RequestContext_bytes orig) RequestContext_zero orig"
  unfolding RequestContext_bytes_def rev.simps append.simps concat.simps
  by (intro RequestContext_steps reads_done)
    (simp_all add: RequestContext_zero_def RequestContext_eta RequestContext_wf_def list_all_iff double_is_zero_def KeyValue_roundtrip SpanContext_roundtrip split: option.splits)

lemma RequestContext_roundtrip:
  "RequestContext_wf orig \<Longrightarrow> length (RequestContext_bytes orig) < 2 ^ 62 \<Longrightarrow> RequestContext_UnmarshalProto (RequestContext_bytes orig) RequestContext_zero = Some (Ok orig)"
  by (simp add: RequestContext_UnmarshalProto_def unmarshal_reads RequestContext_reads)

lemma RequestContext_safe [safe_intros]: "safe_unmarshal RequestContext_UnmarshalProto"
  unfolding RequestContext_UnmarshalProto_def by (rule safe_unmarshal_fields) (auto simp: RequestContext_field_def intro!: safe_intros)

subsection \<open>LogsRequest\<close>

record LogsRequest =
  LogsRequest_RequestContext :: "RequestContext option"
  LogsRequest_LogsData :: LogsData
  LogsRequest_FormatVersion :: "32 word"

definition LogsRequest_zero :: LogsRequest where
  "LogsRequest_zero = \<lparr>LogsRequest_RequestContext = None, LogsRequest_LogsData = LogsData_zero, LogsRequest_FormatVersion = 0\<rparr>"

definition LogsRequest_SizeProto :: "LogsRequest \<Rightarrow> nat" where
  "LogsRequest_SizeProto orig = sum_list [
     size_optional 1 RequestContext_SizeProto (LogsRequest_RequestContext orig),
     size_len 1 (LogsData_SizeProto (LogsRequest_LogsData orig)),
     if LogsRequest_FormatVersion orig \<noteq> 0 then 5 else 0]"

definition LogsRequest_MarshalProto :: "LogsRequest \<Rightarrow> writer" where
  "LogsRequest_MarshalProto orig = writes [
     w_optional_message [0x12] RequestContext_MarshalProto (LogsRequest_RequestContext orig),
     w_message [0x1a] (LogsData_MarshalProto (LogsRequest_LogsData orig)),
     w_fixed32 [0xd] (LogsRequest_FormatVersion orig)]"

definition LogsRequest_field :: "int \<Rightarrow> LogsRequest reader" where
  "LogsRequest_field fieldNum =
     (if fieldNum = 2 then r_message ''RequestContext'' RequestContext_UnmarshalProto (\<lambda>_. RequestContext_zero) (\<lambda>v orig. orig\<lparr>LogsRequest_RequestContext := Some v\<rparr>)
      else if fieldNum = 3 then r_message ''LogsData'' LogsData_UnmarshalProto LogsRequest_LogsData (\<lambda>v orig. orig\<lparr>LogsRequest_LogsData := v\<rparr>)
      else if fieldNum = 1 then r_fixed32 ''FormatVersion'' (\<lambda>num orig. orig\<lparr>LogsRequest_FormatVersion := num\<rparr>)
      else r_unknown)"

definition LogsRequest_UnmarshalProto :: "byte list \<Rightarrow> LogsRequest \<Rightarrow> LogsRequest unmarshalled" where
  "LogsRequest_UnmarshalProto = unmarshal LogsRequest_field"

definition LogsRequest_bytes :: "LogsRequest \<Rightarrow> byte list" where
  "LogsRequest_bytes orig = concat (rev [
     b_optional [0x12] RequestContext_bytes (LogsRequest_RequestContext orig),
     len_bytes [0x1a] (LogsData_bytes (LogsRequest_LogsData orig)),
     b_fixed32 [0xd] (LogsRequest_FormatVersion orig)])"

definition LogsRequest_wf :: "LogsRequest \<Rightarrow> bool" where
  "LogsRequest_wf orig \<longleftrightarrow> (case LogsRequest_RequestContext orig of None \<Rightarrow> True | Some v \<Rightarrow> RequestContext_wf v) \<and>
     LogsData_wf (LogsRequest_LogsData orig)"

lemma emits_LogsRequest [emits_intros]: "emits (LogsRequest_MarshalProto orig) (LogsRequest_bytes orig)"
  unfolding LogsRequest_MarshalProto_def LogsRequest_bytes_def by (rule emits_writes) (simp add: emits_intros)

lemma LogsRequest_size [size_simps]: "length (LogsRequest_bytes orig) = LogsRequest_SizeProto orig"
  by (simp add: LogsRequest_bytes_def LogsRequest_SizeProto_def size_simps comp_def)

lemma LogsRequest_fields:
  "LogsRequest_field 2 = r_message ''RequestContext'' RequestContext_UnmarshalProto (\<lambda>_. RequestContext_zero) (\<lambda>v orig. orig\<lparr>LogsRequest_RequestContext := Some v\<rparr>)"
  "LogsRequest_field 3 = r_message ''LogsData'' LogsData_UnmarshalProto LogsRequest_LogsData (\<lambda>v orig. orig\<lparr>LogsRequest_LogsData := v\<rparr>)"
  "LogsRequest_field 1 = r_fixed32 ''FormatVersion'' (\<lambda>num orig. orig\<lparr>LogsRequest_FormatVersion := num\<rparr>)"
  by (simp_all add: LogsRequest_field_def)

lemma LogsRequest_eta: "\<lparr>LogsRequest_RequestContext = LogsRequest_RequestContext orig, LogsRequest_LogsData = LogsRequest_LogsData orig, LogsRequest_FormatVersion = LogsRequest_FormatVersion orig\<rparr> = (orig :: LogsRequest)"
  by (cases orig) simp

lemmas LogsRequest_steps =
  reads_optional_message [where h = LogsRequest_field and f = 2 and tag = "[0x12]" and put = "\<lambda>x orig. orig\<lparr>LogsRequest_RequestContext := x\<rparr>" and b = RequestContext_bytes, OF _ LogsRequest_fields(1), THEN reads_append]
  reads_submessage [where h = LogsRequest_field and f = 3 and tag = "[0x1a]" and b = LogsData_bytes, OF _ LogsRequest_fields(2), THEN reads_append]
  reads_fixed32 [where h = LogsRequest_field and f = 1 and tag = "[0xd]", OF _ LogsRequest_fields(3), THEN reads_append]

lemma LogsRequest_reads: "LogsRequest_wf orig \<Longrightarrow> reads LogsRequest_field (LogsRequest_bytes orig) LogsRequest_zero orig"
  unfolding LogsRequest_bytes_def rev.simps append.simps concat.simps
  by (intro LogsRequest_steps reads_done)
    (simp_all add: LogsRequest_zero_def LogsRequest_eta LogsRequest_wf_def list_all_iff double_is_zero_def LogsData_roundtrip RequestContext_roundtrip split: option.splits)

lemma LogsRequest_roundtrip:
  "LogsRequest_wf orig \<Longrightarrow> length (LogsRequest_bytes orig) < 2 ^ 62 \<Longrightarrow> LogsRequest_UnmarshalProto (LogsRequest_bytes orig) LogsRequest_zero = Some (Ok orig)"
  by (simp add: LogsRequest_UnmarshalProto_def unmarshal_reads LogsRequest_reads)

lemma LogsRequest_safe [safe_intros]: "safe_unmarshal LogsRequest_UnmarshalProto"
  unfolding LogsRequest_UnmarshalProto_def by (rule safe_unmarshal_fields) (auto simp: LogsRequest_field_def intro!: safe_intros)

subsection \<open>TracesRequest\<close>

record TracesRequest =
  TracesRequest_RequestContext :: "RequestContext option"
  TracesRequest_TracesData :: TracesData
  TracesRequest_FormatVersion :: "32 word"

definition TracesRequest_zero :: TracesRequest where
  "TracesRequest_zero = \<lparr>TracesRequest_RequestContext = None, TracesRequest_TracesData = TracesData_zero, TracesRequest_FormatVersion = 0\<rparr>"

definition TracesRequest_SizeProto :: "TracesRequest \<Rightarrow> nat" where
  "TracesRequest_SizeProto orig = sum_list [
     size_optional 1 RequestContext_SizeProto (TracesRequest_RequestContext orig),
     size_len 1 (TracesData_SizeProto (TracesRequest_TracesData orig)),
     if TracesRequest_FormatVersion orig \<noteq> 0 then 5 else 0]"

definition TracesRequest_MarshalProto :: "TracesRequest \<Rightarrow> writer" where
  "TracesRequest_MarshalProto orig = writes [
     w_optional_message [0x12] RequestContext_MarshalProto (TracesRequest_RequestContext orig),
     w_message [0x1a] (TracesData_MarshalProto (TracesRequest_TracesData orig)),
     w_fixed32 [0xd] (TracesRequest_FormatVersion orig)]"

definition TracesRequest_field :: "int \<Rightarrow> TracesRequest reader" where
  "TracesRequest_field fieldNum =
     (if fieldNum = 2 then r_message ''RequestContext'' RequestContext_UnmarshalProto (\<lambda>_. RequestContext_zero) (\<lambda>v orig. orig\<lparr>TracesRequest_RequestContext := Some v\<rparr>)
      else if fieldNum = 3 then r_message ''TracesData'' TracesData_UnmarshalProto TracesRequest_TracesData (\<lambda>v orig. orig\<lparr>TracesRequest_TracesData := v\<rparr>)
      else if fieldNum = 1 then r_fixed32 ''FormatVersion'' (\<lambda>num orig. orig\<lparr>TracesRequest_FormatVersion := num\<rparr>)
      else r_unknown)"

definition TracesRequest_UnmarshalProto :: "byte list \<Rightarrow> TracesRequest \<Rightarrow> TracesRequest unmarshalled" where
  "TracesRequest_UnmarshalProto = unmarshal TracesRequest_field"

definition TracesRequest_bytes :: "TracesRequest \<Rightarrow> byte list" where
  "TracesRequest_bytes orig = concat (rev [
     b_optional [0x12] RequestContext_bytes (TracesRequest_RequestContext orig),
     len_bytes [0x1a] (TracesData_bytes (TracesRequest_TracesData orig)),
     b_fixed32 [0xd] (TracesRequest_FormatVersion orig)])"

definition TracesRequest_wf :: "TracesRequest \<Rightarrow> bool" where
  "TracesRequest_wf orig \<longleftrightarrow> (case TracesRequest_RequestContext orig of None \<Rightarrow> True | Some v \<Rightarrow> RequestContext_wf v) \<and>
     TracesData_wf (TracesRequest_TracesData orig)"

lemma emits_TracesRequest [emits_intros]: "emits (TracesRequest_MarshalProto orig) (TracesRequest_bytes orig)"
  unfolding TracesRequest_MarshalProto_def TracesRequest_bytes_def by (rule emits_writes) (simp add: emits_intros)

lemma TracesRequest_size [size_simps]: "length (TracesRequest_bytes orig) = TracesRequest_SizeProto orig"
  by (simp add: TracesRequest_bytes_def TracesRequest_SizeProto_def size_simps comp_def)

lemma TracesRequest_fields:
  "TracesRequest_field 2 = r_message ''RequestContext'' RequestContext_UnmarshalProto (\<lambda>_. RequestContext_zero) (\<lambda>v orig. orig\<lparr>TracesRequest_RequestContext := Some v\<rparr>)"
  "TracesRequest_field 3 = r_message ''TracesData'' TracesData_UnmarshalProto TracesRequest_TracesData (\<lambda>v orig. orig\<lparr>TracesRequest_TracesData := v\<rparr>)"
  "TracesRequest_field 1 = r_fixed32 ''FormatVersion'' (\<lambda>num orig. orig\<lparr>TracesRequest_FormatVersion := num\<rparr>)"
  by (simp_all add: TracesRequest_field_def)

lemma TracesRequest_eta: "\<lparr>TracesRequest_RequestContext = TracesRequest_RequestContext orig, TracesRequest_TracesData = TracesRequest_TracesData orig, TracesRequest_FormatVersion = TracesRequest_FormatVersion orig\<rparr> = (orig :: TracesRequest)"
  by (cases orig) simp

lemmas TracesRequest_steps =
  reads_optional_message [where h = TracesRequest_field and f = 2 and tag = "[0x12]" and put = "\<lambda>x orig. orig\<lparr>TracesRequest_RequestContext := x\<rparr>" and b = RequestContext_bytes, OF _ TracesRequest_fields(1), THEN reads_append]
  reads_submessage [where h = TracesRequest_field and f = 3 and tag = "[0x1a]" and b = TracesData_bytes, OF _ TracesRequest_fields(2), THEN reads_append]
  reads_fixed32 [where h = TracesRequest_field and f = 1 and tag = "[0xd]", OF _ TracesRequest_fields(3), THEN reads_append]

lemma TracesRequest_reads: "TracesRequest_wf orig \<Longrightarrow> reads TracesRequest_field (TracesRequest_bytes orig) TracesRequest_zero orig"
  unfolding TracesRequest_bytes_def rev.simps append.simps concat.simps
  by (intro TracesRequest_steps reads_done)
    (simp_all add: TracesRequest_zero_def TracesRequest_eta TracesRequest_wf_def list_all_iff double_is_zero_def RequestContext_roundtrip TracesData_roundtrip split: option.splits)

lemma TracesRequest_roundtrip:
  "TracesRequest_wf orig \<Longrightarrow> length (TracesRequest_bytes orig) < 2 ^ 62 \<Longrightarrow> TracesRequest_UnmarshalProto (TracesRequest_bytes orig) TracesRequest_zero = Some (Ok orig)"
  by (simp add: TracesRequest_UnmarshalProto_def unmarshal_reads TracesRequest_reads)

lemma TracesRequest_safe [safe_intros]: "safe_unmarshal TracesRequest_UnmarshalProto"
  unfolding TracesRequest_UnmarshalProto_def by (rule safe_unmarshal_fields) (auto simp: TracesRequest_field_def intro!: safe_intros)

subsection \<open>MetricsRequest\<close>

record MetricsRequest =
  MetricsRequest_RequestContext :: "RequestContext option"
  MetricsRequest_MetricsData :: MetricsData
  MetricsRequest_FormatVersion :: "32 word"

definition MetricsRequest_zero :: MetricsRequest where
  "MetricsRequest_zero = \<lparr>MetricsRequest_RequestContext = None, MetricsRequest_MetricsData = MetricsData_zero, MetricsRequest_FormatVersion = 0\<rparr>"

definition MetricsRequest_SizeProto :: "MetricsRequest \<Rightarrow> nat" where
  "MetricsRequest_SizeProto orig = sum_list [
     size_optional 1 RequestContext_SizeProto (MetricsRequest_RequestContext orig),
     size_len 1 (MetricsData_SizeProto (MetricsRequest_MetricsData orig)),
     if MetricsRequest_FormatVersion orig \<noteq> 0 then 5 else 0]"

definition MetricsRequest_MarshalProto :: "MetricsRequest \<Rightarrow> writer" where
  "MetricsRequest_MarshalProto orig = writes [
     w_optional_message [0x12] RequestContext_MarshalProto (MetricsRequest_RequestContext orig),
     w_message [0x1a] (MetricsData_MarshalProto (MetricsRequest_MetricsData orig)),
     w_fixed32 [0xd] (MetricsRequest_FormatVersion orig)]"

definition MetricsRequest_field :: "int \<Rightarrow> MetricsRequest reader" where
  "MetricsRequest_field fieldNum =
     (if fieldNum = 2 then r_message ''RequestContext'' RequestContext_UnmarshalProto (\<lambda>_. RequestContext_zero) (\<lambda>v orig. orig\<lparr>MetricsRequest_RequestContext := Some v\<rparr>)
      else if fieldNum = 3 then r_message ''MetricsData'' MetricsData_UnmarshalProto MetricsRequest_MetricsData (\<lambda>v orig. orig\<lparr>MetricsRequest_MetricsData := v\<rparr>)
      else if fieldNum = 1 then r_fixed32 ''FormatVersion'' (\<lambda>num orig. orig\<lparr>MetricsRequest_FormatVersion := num\<rparr>)
      else r_unknown)"

definition MetricsRequest_UnmarshalProto :: "byte list \<Rightarrow> MetricsRequest \<Rightarrow> MetricsRequest unmarshalled" where
  "MetricsRequest_UnmarshalProto = unmarshal MetricsRequest_field"

definition MetricsRequest_bytes :: "MetricsRequest \<Rightarrow> byte list" where
  "MetricsRequest_bytes orig = concat (rev [
     b_optional [0x12] RequestContext_bytes (MetricsRequest_RequestContext orig),
     len_bytes [0x1a] (MetricsData_bytes (MetricsRequest_MetricsData orig)),
     b_fixed32 [0xd] (MetricsRequest_FormatVersion orig)])"

definition MetricsRequest_wf :: "MetricsRequest \<Rightarrow> bool" where
  "MetricsRequest_wf orig \<longleftrightarrow> (case MetricsRequest_RequestContext orig of None \<Rightarrow> True | Some v \<Rightarrow> RequestContext_wf v) \<and>
     MetricsData_wf (MetricsRequest_MetricsData orig)"

lemma emits_MetricsRequest [emits_intros]: "emits (MetricsRequest_MarshalProto orig) (MetricsRequest_bytes orig)"
  unfolding MetricsRequest_MarshalProto_def MetricsRequest_bytes_def by (rule emits_writes) (simp add: emits_intros)

lemma MetricsRequest_size [size_simps]: "length (MetricsRequest_bytes orig) = MetricsRequest_SizeProto orig"
  by (simp add: MetricsRequest_bytes_def MetricsRequest_SizeProto_def size_simps comp_def)

lemma MetricsRequest_fields:
  "MetricsRequest_field 2 = r_message ''RequestContext'' RequestContext_UnmarshalProto (\<lambda>_. RequestContext_zero) (\<lambda>v orig. orig\<lparr>MetricsRequest_RequestContext := Some v\<rparr>)"
  "MetricsRequest_field 3 = r_message ''MetricsData'' MetricsData_UnmarshalProto MetricsRequest_MetricsData (\<lambda>v orig. orig\<lparr>MetricsRequest_MetricsData := v\<rparr>)"
  "MetricsRequest_field 1 = r_fixed32 ''FormatVersion'' (\<lambda>num orig. orig\<lparr>MetricsRequest_FormatVersion := num\<rparr>)"
  by (simp_all add: MetricsRequest_field_def)

lemma MetricsRequest_eta: "\<lparr>MetricsRequest_RequestContext = MetricsRequest_RequestContext orig, MetricsRequest_MetricsData = MetricsRequest_MetricsData orig, MetricsRequest_FormatVersion = MetricsRequest_FormatVersion orig\<rparr> = (orig :: MetricsRequest)"
  by (cases orig) simp

lemmas MetricsRequest_steps =
  reads_optional_message [where h = MetricsRequest_field and f = 2 and tag = "[0x12]" and put = "\<lambda>x orig. orig\<lparr>MetricsRequest_RequestContext := x\<rparr>" and b = RequestContext_bytes, OF _ MetricsRequest_fields(1), THEN reads_append]
  reads_submessage [where h = MetricsRequest_field and f = 3 and tag = "[0x1a]" and b = MetricsData_bytes, OF _ MetricsRequest_fields(2), THEN reads_append]
  reads_fixed32 [where h = MetricsRequest_field and f = 1 and tag = "[0xd]", OF _ MetricsRequest_fields(3), THEN reads_append]

lemma MetricsRequest_reads: "MetricsRequest_wf orig \<Longrightarrow> reads MetricsRequest_field (MetricsRequest_bytes orig) MetricsRequest_zero orig"
  unfolding MetricsRequest_bytes_def rev.simps append.simps concat.simps
  by (intro MetricsRequest_steps reads_done)
    (simp_all add: MetricsRequest_zero_def MetricsRequest_eta MetricsRequest_wf_def list_all_iff double_is_zero_def MetricsData_roundtrip RequestContext_roundtrip split: option.splits)

lemma MetricsRequest_roundtrip:
  "MetricsRequest_wf orig \<Longrightarrow> length (MetricsRequest_bytes orig) < 2 ^ 62 \<Longrightarrow> MetricsRequest_UnmarshalProto (MetricsRequest_bytes orig) MetricsRequest_zero = Some (Ok orig)"
  by (simp add: MetricsRequest_UnmarshalProto_def unmarshal_reads MetricsRequest_reads)

lemma MetricsRequest_safe [safe_intros]: "safe_unmarshal MetricsRequest_UnmarshalProto"
  unfolding MetricsRequest_UnmarshalProto_def by (rule safe_unmarshal_fields) (auto simp: MetricsRequest_field_def intro!: safe_intros)

subsection \<open>ProfilesRequest\<close>

record ProfilesRequest =
  ProfilesRequest_RequestContext :: "RequestContext option"
  ProfilesRequest_ProfilesData :: ProfilesData
  ProfilesRequest_FormatVersion :: "32 word"

definition ProfilesRequest_zero :: ProfilesRequest where
  "ProfilesRequest_zero = \<lparr>ProfilesRequest_RequestContext = None, ProfilesRequest_ProfilesData = ProfilesData_zero, ProfilesRequest_FormatVersion = 0\<rparr>"

definition ProfilesRequest_SizeProto :: "ProfilesRequest \<Rightarrow> nat" where
  "ProfilesRequest_SizeProto orig = sum_list [
     size_optional 1 RequestContext_SizeProto (ProfilesRequest_RequestContext orig),
     size_len 1 (ProfilesData_SizeProto (ProfilesRequest_ProfilesData orig)),
     if ProfilesRequest_FormatVersion orig \<noteq> 0 then 5 else 0]"

definition ProfilesRequest_MarshalProto :: "ProfilesRequest \<Rightarrow> writer" where
  "ProfilesRequest_MarshalProto orig = writes [
     w_optional_message [0x12] RequestContext_MarshalProto (ProfilesRequest_RequestContext orig),
     w_message [0x1a] (ProfilesData_MarshalProto (ProfilesRequest_ProfilesData orig)),
     w_fixed32 [0xd] (ProfilesRequest_FormatVersion orig)]"

definition ProfilesRequest_field :: "int \<Rightarrow> ProfilesRequest reader" where
  "ProfilesRequest_field fieldNum =
     (if fieldNum = 2 then r_message ''RequestContext'' RequestContext_UnmarshalProto (\<lambda>_. RequestContext_zero) (\<lambda>v orig. orig\<lparr>ProfilesRequest_RequestContext := Some v\<rparr>)
      else if fieldNum = 3 then r_message ''ProfilesData'' ProfilesData_UnmarshalProto ProfilesRequest_ProfilesData (\<lambda>v orig. orig\<lparr>ProfilesRequest_ProfilesData := v\<rparr>)
      else if fieldNum = 1 then r_fixed32 ''FormatVersion'' (\<lambda>num orig. orig\<lparr>ProfilesRequest_FormatVersion := num\<rparr>)
      else r_unknown)"

definition ProfilesRequest_UnmarshalProto :: "byte list \<Rightarrow> ProfilesRequest \<Rightarrow> ProfilesRequest unmarshalled" where
  "ProfilesRequest_UnmarshalProto = unmarshal ProfilesRequest_field"

definition ProfilesRequest_bytes :: "ProfilesRequest \<Rightarrow> byte list" where
  "ProfilesRequest_bytes orig = concat (rev [
     b_optional [0x12] RequestContext_bytes (ProfilesRequest_RequestContext orig),
     len_bytes [0x1a] (ProfilesData_bytes (ProfilesRequest_ProfilesData orig)),
     b_fixed32 [0xd] (ProfilesRequest_FormatVersion orig)])"

definition ProfilesRequest_wf :: "ProfilesRequest \<Rightarrow> bool" where
  "ProfilesRequest_wf orig \<longleftrightarrow> (case ProfilesRequest_RequestContext orig of None \<Rightarrow> True | Some v \<Rightarrow> RequestContext_wf v) \<and>
     ProfilesData_wf (ProfilesRequest_ProfilesData orig)"

lemma emits_ProfilesRequest [emits_intros]: "emits (ProfilesRequest_MarshalProto orig) (ProfilesRequest_bytes orig)"
  unfolding ProfilesRequest_MarshalProto_def ProfilesRequest_bytes_def by (rule emits_writes) (simp add: emits_intros)

lemma ProfilesRequest_size [size_simps]: "length (ProfilesRequest_bytes orig) = ProfilesRequest_SizeProto orig"
  by (simp add: ProfilesRequest_bytes_def ProfilesRequest_SizeProto_def size_simps comp_def)

lemma ProfilesRequest_fields:
  "ProfilesRequest_field 2 = r_message ''RequestContext'' RequestContext_UnmarshalProto (\<lambda>_. RequestContext_zero) (\<lambda>v orig. orig\<lparr>ProfilesRequest_RequestContext := Some v\<rparr>)"
  "ProfilesRequest_field 3 = r_message ''ProfilesData'' ProfilesData_UnmarshalProto ProfilesRequest_ProfilesData (\<lambda>v orig. orig\<lparr>ProfilesRequest_ProfilesData := v\<rparr>)"
  "ProfilesRequest_field 1 = r_fixed32 ''FormatVersion'' (\<lambda>num orig. orig\<lparr>ProfilesRequest_FormatVersion := num\<rparr>)"
  by (simp_all add: ProfilesRequest_field_def)

lemma ProfilesRequest_eta: "\<lparr>ProfilesRequest_RequestContext = ProfilesRequest_RequestContext orig, ProfilesRequest_ProfilesData = ProfilesRequest_ProfilesData orig, ProfilesRequest_FormatVersion = ProfilesRequest_FormatVersion orig\<rparr> = (orig :: ProfilesRequest)"
  by (cases orig) simp

lemmas ProfilesRequest_steps =
  reads_optional_message [where h = ProfilesRequest_field and f = 2 and tag = "[0x12]" and put = "\<lambda>x orig. orig\<lparr>ProfilesRequest_RequestContext := x\<rparr>" and b = RequestContext_bytes, OF _ ProfilesRequest_fields(1), THEN reads_append]
  reads_submessage [where h = ProfilesRequest_field and f = 3 and tag = "[0x1a]" and b = ProfilesData_bytes, OF _ ProfilesRequest_fields(2), THEN reads_append]
  reads_fixed32 [where h = ProfilesRequest_field and f = 1 and tag = "[0xd]", OF _ ProfilesRequest_fields(3), THEN reads_append]

lemma ProfilesRequest_reads: "ProfilesRequest_wf orig \<Longrightarrow> reads ProfilesRequest_field (ProfilesRequest_bytes orig) ProfilesRequest_zero orig"
  unfolding ProfilesRequest_bytes_def rev.simps append.simps concat.simps
  by (intro ProfilesRequest_steps reads_done)
    (simp_all add: ProfilesRequest_zero_def ProfilesRequest_eta ProfilesRequest_wf_def list_all_iff double_is_zero_def ProfilesData_roundtrip RequestContext_roundtrip split: option.splits)

lemma ProfilesRequest_roundtrip:
  "ProfilesRequest_wf orig \<Longrightarrow> length (ProfilesRequest_bytes orig) < 2 ^ 62 \<Longrightarrow> ProfilesRequest_UnmarshalProto (ProfilesRequest_bytes orig) ProfilesRequest_zero = Some (Ok orig)"
  by (simp add: ProfilesRequest_UnmarshalProto_def unmarshal_reads ProfilesRequest_reads)

lemma ProfilesRequest_safe [safe_intros]: "safe_unmarshal ProfilesRequest_UnmarshalProto"
  unfolding ProfilesRequest_UnmarshalProto_def by (rule safe_unmarshal_fields) (auto simp: ProfilesRequest_field_def intro!: safe_intros)

end
