(* ===== verification/ProtoMarshal.thy ===== *)
theory ProtoMarshal
  imports ProtoRequests
begin

text \<open>
  The entry points of the protobuf codec: \<^verbatim>\<open>ProtoMarshaler\<close> and \<^verbatim>\<open>ProtoUnmarshaler\<close> of \<^verbatim>\<open>pdata/plog/pb.go\<close>,
  \<^verbatim>\<open>pdata/ptrace/pb.go\<close> and \<^verbatim>\<open>pdata/pmetric/pb.go\<close>, the export requests of \<^verbatim>\<open>plogotlp\<close>, \<^verbatim>\<open>ptraceotlp\<close> and
  \<^verbatim>\<open>pmetricotlp\<close>, and the migration of deprecated fields in \<^verbatim>\<open>pdata/internal/otlp\<close>.
\<close>

section \<open>Marshalling into a new buffer\<close>

text \<open>\<^verbatim>\<open>buf := make([]byte, size); _ = orig.MarshalProto(buf); return buf, nil\<close>; \<open>None\<close> is an index out of range.\<close>

definition marshal_new :: "nat \<Rightarrow> writer \<Rightarrow> byte list option" where
  "marshal_new n w = map_option fst (w (replicate n 0, int n))"

lemma marshal_new_emits: "emits w bs \<Longrightarrow> marshal_new (length bs) w = Some bs"
  using emitsD [of w bs "int (length bs)" "replicate (length bs) 0"] by (simp add: marshal_new_def)

section \<open>Logs\<close>

definition plog_LogsSize :: "ExportLogsServiceRequest \<Rightarrow> nat" where
  "plog_LogsSize ld = ExportLogsServiceRequest_SizeProto ld"

definition plog_MarshalLogs :: "ExportLogsServiceRequest \<Rightarrow> byte list option" where
  "plog_MarshalLogs ld = marshal_new (ExportLogsServiceRequest_SizeProto ld) (ExportLogsServiceRequest_MarshalProto ld)"

definition plog_UnmarshalLogs :: "byte list \<Rightarrow> ExportLogsServiceRequest unmarshalled" where
  "plog_UnmarshalLogs buf = ExportLogsServiceRequest_UnmarshalProto buf ExportLogsServiceRequest_zero"

definition MigrateLogs :: "ResourceLogs list \<Rightarrow> ResourceLogs list" where
  "MigrateLogs rls = map (\<lambda>rl.
     (if length (ResourceLogs_ScopeLogs rl) = 0
      then rl\<lparr>ResourceLogs_ScopeLogs := ResourceLogs_DeprecatedScopeLogs rl\<rparr> else rl)\<lparr>ResourceLogs_DeprecatedScopeLogs := []\<rparr>) rls"

definition plogotlp_MarshalProto :: "ExportLogsServiceRequest \<Rightarrow> byte list option" where
  "plogotlp_MarshalProto ms = marshal_new (ExportLogsServiceRequest_SizeProto ms) (ExportLogsServiceRequest_MarshalProto ms)"

definition plogotlp_UnmarshalProto :: "byte list \<Rightarrow> ExportLogsServiceRequest \<Rightarrow> ExportLogsServiceRequest unmarshalled" where
  "plogotlp_UnmarshalProto data orig = map_option (map_sum id (\<lambda>ms.
     ms\<lparr>ExportLogsServiceRequest_ResourceLogs := MigrateLogs (ExportLogsServiceRequest_ResourceLogs ms)\<rparr>))
     (ExportLogsServiceRequest_UnmarshalProto data orig)"

section \<open>Traces\<close>

definition ptrace_TracesSize :: "ExportTraceServiceRequest \<Rightarrow> nat" where
  "ptrace_TracesSize td = ExportTraceServiceRequest_SizeProto td"

definition ptrace_MarshalTraces :: "ExportTraceServiceRequest \<Rightarrow> byte list option" where
  "ptrace_MarshalTraces td = marshal_new (ExportTraceServiceRequest_SizeProto td) (ExportTraceServiceRequest_MarshalProto td)"

definition ptrace_UnmarshalTraces :: "byte list \<Rightarrow> ExportTraceServiceRequest unmarshalled" where
  "ptrace_UnmarshalTraces buf = ExportTraceServiceRequest_UnmarshalProto buf ExportTraceServiceRequest_zero"

definition MigrateTraces :: "ResourceSpans list \<Rightarrow> ResourceSpans list" where
  "MigrateTraces rss = map (\<lambda>rs.
     (if length (ResourceSpans_ScopeSpans rs) = 0
      then rs\<lparr>ResourceSpans_ScopeSpans := ResourceSpans_DeprecatedScopeSpans rs\<rparr> else rs)\<lparr>ResourceSpans_DeprecatedScopeSpans := []\<rparr>) rss"

definition ptraceotlp_MarshalProto :: "ExportTraceServiceRequest \<Rightarrow> byte list option" where
  "ptraceotlp_MarshalProto ms = marshal_new (ExportTraceServiceRequest_SizeProto ms) (ExportTraceServiceRequest_MarshalProto ms)"

definition ptraceotlp_UnmarshalProto :: "byte list \<Rightarrow> ExportTraceServiceRequest \<Rightarrow> ExportTraceServiceRequest unmarshalled" where
  "ptraceotlp_UnmarshalProto data orig = map_option (map_sum id (\<lambda>ms.
     ms\<lparr>ExportTraceServiceRequest_ResourceSpans := MigrateTraces (ExportTraceServiceRequest_ResourceSpans ms)\<rparr>))
     (ExportTraceServiceRequest_UnmarshalProto data orig)"

section \<open>Metrics\<close>

definition pmetric_MetricsSize :: "ExportMetricsServiceRequest \<Rightarrow> nat" where
  "pmetric_MetricsSize md = ExportMetricsServiceRequest_SizeProto md"

definition pmetric_MarshalMetrics :: "ExportMetricsServiceRequest \<Rightarrow> byte list option" where
  "pmetric_MarshalMetrics md = marshal_new (ExportMetricsServiceRequest_SizeProto md) (ExportMetricsServiceRequest_MarshalProto md)"

definition pmetric_UnmarshalMetrics :: "byte list \<Rightarrow> ExportMetricsServiceRequest unmarshalled" where
  "pmetric_UnmarshalMetrics buf = ExportMetricsServiceRequest_UnmarshalProto buf ExportMetricsServiceRequest_zero"

definition MigrateMetrics :: "ResourceMetrics list \<Rightarrow> ResourceMetrics list" where
  "MigrateMetrics rms = map (\<lambda>rm.
     (if length (ResourceMetrics_ScopeMetrics rm) = 0
      then rm\<lparr>ResourceMetrics_ScopeMetrics := ResourceMetrics_DeprecatedScopeMetrics rm\<rparr> else rm)\<lparr>ResourceMetrics_DeprecatedScopeMetrics := []\<rparr>) rms"

definition pmetricotlp_MarshalProto :: "ExportMetricsServiceRequest \<Rightarrow> byte list option" where
  "pmetricotlp_MarshalProto ms = marshal_new (ExportMetricsServiceRequest_SizeProto ms) (ExportMetricsServiceRequest_MarshalProto ms)"

definition pmetricotlp_UnmarshalProto :: "byte list \<Rightarrow> ExportMetricsServiceRequest \<Rightarrow> ExportMetricsServiceRequest unmarshalled" where
  "pmetricotlp_UnmarshalProto data orig = map_option (map_sum id (\<lambda>ms.
     ms\<lparr>ExportMetricsServiceRequest_ResourceMetrics := MigrateMetrics (ExportMetricsServiceRequest_ResourceMetrics ms)\<rparr>))
     (ExportMetricsServiceRequest_UnmarshalProto data orig)"

section \<open>What is marshalled\<close>

lemma plog_MarshalLogs_bytes: "plog_MarshalLogs ld = Some (ExportLogsServiceRequest_bytes ld)"
  using marshal_new_emits [OF emits_ExportLogsServiceRequest, of ld]
  by (simp add: plog_MarshalLogs_def ExportLogsServiceRequest_size)

lemma ptrace_MarshalTraces_bytes: "ptrace_MarshalTraces td = Some (ExportTraceServiceRequest_bytes td)"
  using marshal_new_emits [OF emits_ExportTraceServiceRequest, of td]
  by (simp add: ptrace_MarshalTraces_def ExportTraceServiceRequest_size)

lemma pmetric_MarshalMetrics_bytes: "pmetric_MarshalMetrics md = Some (ExportMetricsServiceRequest_bytes md)"
  using marshal_new_emits [OF emits_ExportMetricsServiceRequest, of md]
  by (simp add: pmetric_MarshalMetrics_def ExportMetricsServiceRequest_size)

section \<open>Small sizes\<close>

lemma Sov_one_byte: "v < 0x80 \<Longrightarrow> Sov v = 1"
  using length_varint_bytes [of v] by (simp add: varint_bytes_small)

lemma size_len_small:
  assumes "l < 128"
  shows "size_len k l = k + 1 + l"
proof -
  have "(of_nat l :: u64) < 0x80" using assms by (simp add: word_less_nat_alt unsigned_of_nat take_bit_nat_eq_self)
  then show ?thesis by (simp add: size_len_def Sov_one_byte)
qed

lemma size_zero: "Resource_SizeProto Resource_zero = 0" "InstrumentationScope_SizeProto InstrumentationScope_zero = 0"
  by code_simp+

section \<open>Properties\<close>

text \<open>
  C9. Log data survives the wire: \<^verbatim>\<open>MarshalLogs\<close> fills a buffer of exactly \<^verbatim>\<open>LogsSize\<close> bytes without an index out of range,
  and \<^verbatim>\<open>UnmarshalLogs\<close> gives the same data back. The data has no nil pointers inside values, no value is nested deeper
  than the recursion limit allows, and the size is one that a buffer can have.
\<close>

theorem logs_proto_roundtrip:
  assumes "ExportLogsServiceRequest_wf ld" "plog_LogsSize ld < 2 ^ 62"
  shows "\<exists>buf. plog_MarshalLogs ld = Some buf \<and> length buf = plog_LogsSize ld \<and> plog_UnmarshalLogs buf = Some (Ok ld)"
  using assms
  by (simp add: plog_MarshalLogs_bytes plog_LogsSize_def plog_UnmarshalLogs_def ExportLogsServiceRequest_size
      ExportLogsServiceRequest_roundtrip)

text \<open>A log record with an attribute, a list as its body, a severity and a trace.\<close>

definition sample_record :: LogRecord where
  "sample_record = LogRecord_zero\<lparr>LogRecord_TimeUnixNano := 5, LogRecord_SeverityNumber := 9,
     LogRecord_Body := ArrayValue (Some (ArrayValues [IntValue 300, BoolValue True])),
     LogRecord_Attributes := [KeyValue [0x6b] (StringValue [0x76, 0x77]) 0], LogRecord_TraceId := 7\<rparr>"

definition sample_logs :: ExportLogsServiceRequest where
  "sample_logs = \<lparr>ExportLogsServiceRequest_ResourceLogs =
     [ResourceLogs_zero\<lparr>ResourceLogs_ScopeLogs := [ScopeLogs_zero\<lparr>ScopeLogs_LogRecords := [sample_record]\<rparr>]\<rparr>]\<rparr>"

lemma sample_record_size: "LogRecord_SizeProto sample_record = 55"
proof -
  have "Sov 300 = 2" by code_simp
  then show ?thesis
    by (simp add: LogRecord_SizeProto_def sample_record_def LogRecord_zero_def TraceID_SizeProto_def SpanID_SizeProto_def
        TraceID_IsEmpty_def SpanID_IsEmpty_def size_len_small size_bytes_def Sov_one_byte)
qed

lemma sample_logs_wf: "ExportLogsServiceRequest_wf sample_logs"
  by code_simp

lemma sample_logs_size: "plog_LogsSize sample_logs = 65"
  by (simp add: plog_LogsSize_def ExportLogsServiceRequest_SizeProto_def sample_logs_def ResourceLogs_SizeProto_def ScopeLogs_SizeProto_def
      sample_record_size ResourceLogs_zero_def ScopeLogs_zero_def size_zero size_len_small size_bytes_def)

theorem logs_proto_roundtrip_witness:
  "\<exists>buf. plog_MarshalLogs sample_logs = Some buf \<and> length buf = 65 \<and> plog_UnmarshalLogs buf = Some (Ok sample_logs)"
  using logs_proto_roundtrip [OF sample_logs_wf] by (simp add: sample_logs_size)

text \<open>
  C36. Metrics survive the wire in the same way, with every kind of data point; the numbers are kept bit by bit. In
  addition a summary value or a zero threshold is not the negative zero, which the code takes for an absent field.
\<close>

theorem metrics_proto_roundtrip:
  assumes "ExportMetricsServiceRequest_wf md" "pmetric_MetricsSize md < 2 ^ 62"
  shows "\<exists>buf. pmetric_MarshalMetrics md = Some buf \<and> length buf = pmetric_MetricsSize md \<and> pmetric_UnmarshalMetrics buf = Some (Ok md)"
  using assms
  by (simp add: pmetric_MarshalMetrics_bytes pmetric_MetricsSize_def pmetric_UnmarshalMetrics_def ExportMetricsServiceRequest_size
      ExportMetricsServiceRequest_roundtrip)

definition sample_point :: ExponentialHistogramDataPoint where
  "sample_point = ExponentialHistogramDataPoint_zero\<lparr>ExponentialHistogramDataPoint_Scale := -3,
     ExponentialHistogramDataPoint_Count := 4, ExponentialHistogramDataPoint_Sum := Some 0,
     ExponentialHistogramDataPoint_Positive := \<lparr>ExponentialHistogramDataPointBuckets_BucketCounts = [1, 300], ExponentialHistogramDataPointBuckets_Offset = -1\<rparr>\<rparr>"

definition sample_metrics :: ExportMetricsServiceRequest where
  "sample_metrics = \<lparr>ExportMetricsServiceRequest_ResourceMetrics =
     [ResourceMetrics_zero\<lparr>ResourceMetrics_ScopeMetrics := [ScopeMetrics_zero\<lparr>ScopeMetrics_Metrics :=
       [Metric_msg_zero\<lparr>Metric_msg_Name := [0x6d], Metric_msg_Data := Metric_msg_ExponentialHistogram
          (Some \<lparr>ExponentialHistogram_DataPoints = [sample_point], ExponentialHistogram_AggregationTemporality = 2\<rparr>)\<rparr>]\<rparr>]\<rparr>]\<rparr>"

lemma sample_metrics_wf: "ExportMetricsServiceRequest_wf sample_metrics"
  by code_simp

lemma sample_point_size: "ExponentialHistogramDataPoint_SizeProto sample_point = 31"
proof -
  have "ExponentialHistogramDataPointBuckets_SizeProto ExponentialHistogramDataPointBuckets_zero = 0"
    "ExponentialHistogramDataPointBuckets_SizeProto
      \<lparr>ExponentialHistogramDataPointBuckets_BucketCounts = [1, 300], ExponentialHistogramDataPointBuckets_Offset = -1\<rparr> = 7"
    "Soz (scast (-3 :: 32 word)) = 1"
    by code_simp+
  then show ?thesis
    by (simp add: ExponentialHistogramDataPoint_SizeProto_def sample_point_def ExponentialHistogramDataPoint_zero_def
        size_len_small double_is_zero_def)
qed

lemma sample_metrics_size: "pmetric_MetricsSize sample_metrics = 50"
  by (simp add: pmetric_MetricsSize_def ExportMetricsServiceRequest_SizeProto_def sample_metrics_def ResourceMetrics_SizeProto_def
      ScopeMetrics_SizeProto_def Metric_msg_SizeProto_def ExponentialHistogram_SizeProto_def sample_point_size ResourceMetrics_zero_def
      ScopeMetrics_zero_def Metric_msg_zero_def size_zero size_len_small size_bytes_def Sov_one_byte)

theorem metrics_proto_roundtrip_witness:
  "\<exists>buf. pmetric_MarshalMetrics sample_metrics = Some buf \<and> length buf = 50 \<and>
     pmetric_UnmarshalMetrics buf = Some (Ok sample_metrics)"
  using metrics_proto_roundtrip [OF sample_metrics_wf] by (simp add: sample_metrics_size)

text \<open>
  C12. Unmarshalling is safe on arbitrary input: on every buffer, the readers of logs, traces, metrics and profiles end with
  data or an error; no input makes them run forever or index out of range, however long the lengths in it claim to be
  and however deep it is nested.
\<close>

theorem unmarshal_is_total:
  assumes "length buf < 2 ^ 62"
  shows "(\<exists>r. plog_UnmarshalLogs buf = Some r \<and> r \<noteq> Err IndexPanic) \<and>
    (\<exists>r. ptrace_UnmarshalTraces buf = Some r \<and> r \<noteq> Err IndexPanic) \<and>
    (\<exists>r. pmetric_UnmarshalMetrics buf = Some r \<and> r \<noteq> Err IndexPanic) \<and>
    (\<exists>r. ExportProfilesServiceRequest_UnmarshalProto buf ExportProfilesServiceRequest_zero = Some r \<and> r \<noteq> Err IndexPanic)"
  using assms ExportLogsServiceRequest_safe ExportTraceServiceRequest_safe ExportMetricsServiceRequest_safe ExportProfilesServiceRequest_safe
  unfolding safe_unmarshal_def plog_UnmarshalLogs_def ptrace_UnmarshalTraces_def pmetric_UnmarshalMetrics_def by fastforce

text \<open>A field whose length is the largest one an \<^verbatim>\<open>int\<close> can hold, and a group that is never closed.\<close>

theorem unmarshal_is_total_witness:
  "(\<exists>r. plog_UnmarshalLogs [0xa, 0xff, 0xff, 0xff, 0xff, 0xff, 0xff, 0xff, 0xff, 0x7f] = Some r \<and> r \<noteq> Err IndexPanic) \<and>
   (\<exists>r. pmetric_UnmarshalMetrics [0x13, 0x13, 0x13] = Some r \<and> r \<noteq> Err IndexPanic)"
  using unmarshal_is_total [of "[0xa, 0xff, 0xff, 0xff, 0xff, 0xff, 0xff, 0xff, 0xff, 0x7f]"] unmarshal_is_total [of "[0x13, 0x13, 0x13]"]
  by simp

text \<open>
  C38. A payload that carries its logs in the deprecated field reads differently in the two readers: the export request moves
  them to where the accessors look, \<^verbatim>\<open>UnmarshalLogs\<close> leaves the resource without scope logs.
\<close>

theorem UnmarshalLogs_does_not_migrate:
  assumes "ExportLogsServiceRequest_wf ld" "plog_LogsSize ld < 2 ^ 62"
  shows "\<exists>buf. plog_MarshalLogs ld = Some buf \<and>
    map_option (map_sum id (map ResourceLogs_ScopeLogs \<circ> ExportLogsServiceRequest_ResourceLogs)) (plog_UnmarshalLogs buf) =
      Some (Ok (map ResourceLogs_ScopeLogs (ExportLogsServiceRequest_ResourceLogs ld))) \<and>
    map_option (map_sum id (map ResourceLogs_ScopeLogs \<circ> ExportLogsServiceRequest_ResourceLogs))
      (plogotlp_UnmarshalProto buf ExportLogsServiceRequest_zero) =
      Some (Ok (map (\<lambda>rl. if ResourceLogs_ScopeLogs rl = [] then ResourceLogs_DeprecatedScopeLogs rl else ResourceLogs_ScopeLogs rl)
        (ExportLogsServiceRequest_ResourceLogs ld)))"
  using assms
  by (simp add: plog_MarshalLogs_bytes plog_LogsSize_def plog_UnmarshalLogs_def plogotlp_UnmarshalProto_def MigrateLogs_def
      ExportLogsServiceRequest_size ExportLogsServiceRequest_roundtrip if_distrib comp_def cong: if_cong)

definition deprecated_logs :: ExportLogsServiceRequest where
  "deprecated_logs = \<lparr>ExportLogsServiceRequest_ResourceLogs =
     [ResourceLogs_zero\<lparr>ResourceLogs_DeprecatedScopeLogs := [ScopeLogs_zero]\<rparr>]\<rparr>"

lemma deprecated_logs_wf: "ExportLogsServiceRequest_wf deprecated_logs"
  by code_simp

lemma deprecated_logs_size: "plog_LogsSize deprecated_logs < 2 ^ 62"
  by (simp add: plog_LogsSize_def ExportLogsServiceRequest_SizeProto_def deprecated_logs_def ResourceLogs_SizeProto_def ScopeLogs_SizeProto_def
      ResourceLogs_zero_def ScopeLogs_zero_def size_zero size_len_small size_bytes_def)

theorem UnmarshalLogs_does_not_migrate_witness:
  "\<exists>buf. plog_MarshalLogs deprecated_logs = Some buf \<and>
    map_option (map_sum id (map ResourceLogs_ScopeLogs \<circ> ExportLogsServiceRequest_ResourceLogs)) (plog_UnmarshalLogs buf) =
      Some (Ok [[]]) \<and>
    map_option (map_sum id (map ResourceLogs_ScopeLogs \<circ> ExportLogsServiceRequest_ResourceLogs))
      (plogotlp_UnmarshalProto buf ExportLogsServiceRequest_zero) = Some (Ok [[ScopeLogs_zero]])"
  using UnmarshalLogs_does_not_migrate [OF deprecated_logs_wf deprecated_logs_size] by (simp add: deprecated_logs_def ResourceLogs_zero_def)

text \<open>
  C37. The recursion limit decides exactly which values can be read back: every value can be written, and reading it gives
  the value if it takes at most 100 nested calls and the recursion error otherwise.
\<close>

theorem value_read_iff_within_limit:
  assumes "AnyValue_no_nil v" "AnyValue_SizeProto v < 2 ^ 62"
  shows "\<exists>buf. marshal_new (AnyValue_SizeProto v) (AnyValue_MarshalProto v) = Some buf \<and>
    AnyValue_UnmarshalProto buf NoValue = Some (if AnyValue_depth v \<le> RecursionLimit then Ok v else Err ErrRecursionDepth)"
  using assms marshal_new_emits [OF emits_value(1), of v]
  by (simp add: value_size AnyValue_UnmarshalProto_def value_roundtrip)

text \<open>Fifty arrays inside each other are one too many.\<close>

fun nested :: "nat \<Rightarrow> AnyValue" where
  "nested 0 = BoolValue True"
| "nested (Suc n) = ArrayValue (Some (ArrayValues [nested n]))"

lemma nested_value: "AnyValue_no_nil (nested n)" "AnyValue_depth (nested n) = 2 * n + 1" "AnyValue_SizeProto (nested n) \<le> 22 * n + 2"
proof (induction n)
  case (Suc n)
  case 3
  have "size_len 1 l \<le> 11 + l" for l using Sov_bounds [of "of_nat l"] by (simp add: size_len_def)
  from this [of "AnyValue_SizeProto (nested n)"] this [of "size_len 1 (AnyValue_SizeProto (nested n))"] Suc(3) show ?case by simp
qed simp_all

theorem value_read_iff_within_limit_witness:
  "(\<exists>buf. marshal_new (AnyValue_SizeProto (nested 49)) (AnyValue_MarshalProto (nested 49)) = Some buf \<and>
      AnyValue_UnmarshalProto buf NoValue = Some (Ok (nested 49))) \<and>
   (\<exists>buf. marshal_new (AnyValue_SizeProto (nested 50)) (AnyValue_MarshalProto (nested 50)) = Some buf \<and>
      AnyValue_UnmarshalProto buf NoValue = Some (Err ErrRecursionDepth))"
proof -
  have "AnyValue_SizeProto (nested 49) < 2 ^ 62" "AnyValue_SizeProto (nested 50) < 2 ^ 62"
    by (rule le_less_trans [OF nested_value(3)], simp)+
  then show ?thesis
    using value_read_iff_within_limit [OF nested_value(1), of 49] value_read_iff_within_limit [OF nested_value(1), of 50]
    by (simp add: nested_value(2) RecursionLimit_def del: nested.simps)
qed

text \<open>
  A packed field that comes in two chunks: with fixed-size numbers the second chunk replaces the first, while numbers that
  are not packed, and packed varints, are appended.
\<close>

lemma packed_fixed64_chunks_replace:
  "map_option (map_sum id HistogramDataPoint_BucketCounts)
     (HistogramDataPoint_UnmarshalProto ([0x32, 8, 1, 0, 0, 0, 0, 0, 0, 0] @ [0x32, 8, 2, 0, 0, 0, 0, 0, 0, 0]) HistogramDataPoint_zero) = Some (Ok [2])"
  "map_option (map_sum id HistogramDataPoint_BucketCounts)
     (HistogramDataPoint_UnmarshalProto ([0x31, 1, 0, 0, 0, 0, 0, 0, 0] @ [0x31, 2, 0, 0, 0, 0, 0, 0, 0]) HistogramDataPoint_zero) = Some (Ok [1, 2])"
  "map_option (map_sum id ExponentialHistogramDataPointBuckets_BucketCounts)
     (ExponentialHistogramDataPointBuckets_UnmarshalProto ([0x12, 1, 1] @ [0x12, 1, 2]) ExponentialHistogramDataPointBuckets_zero) = Some (Ok [1, 2])"
  by code_simp+

end
