(* ===== verification/ProfilesReferences.thy ===== *)
theory ProfilesReferences
  imports ProtoMarshal "HOL-Library.Sublist"
begin

text \<open>
  The string references of profiles: \<^verbatim>\<open>pdata/internal/otlp/profiles_dictionary.go\<close>, which replaces the strings in the
  attributes of resources and scopes by indexes into the string table before profiles are marshalled, and back after
  they are unmarshalled; with \<^verbatim>\<open>pdata/pprofile/pb.go\<close>, which calls both.

  The Go map from strings to indexes is a map. An \<^verbatim>\<open>int32\<close> index is a 32-bit word. An error ends the call; what it
  leaves behind in the half-converted request is not modelled.
\<close>

section \<open>Converting\<close>

datatype dict_error =
    BothKeyAndIndex nat
  | InvalidKeyIndex nat int
  | InvalidValueIndex int
  | InAttributeValue nat dict_error
  | InArrayValue nat dict_error
  | InResource nat dict_error
  | InScope nat nat dict_error

record string_index =
  stringTable :: "byte list list"
  stringIndex :: "byte list \<rightharpoonup> 32 word"

text \<open>The loop that indexes the strings that are in the table already; an entry 0 that is not empty is left out.\<close>

fun index_strings :: "nat \<Rightarrow> byte list list \<Rightarrow> (byte list \<rightharpoonup> 32 word) \<Rightarrow> (byte list \<rightharpoonup> 32 word)" where
  "index_strings i [] m = m"
| "index_strings i (v # vs) m = index_strings (Suc i) vs
     (if i = 0 \<and> v \<noteq> [] then m else if m v = None then m(v \<mapsto> of_nat i) else m)"

definition getStringIndex :: "byte list \<Rightarrow> string_index \<Rightarrow> 32 word \<times> string_index" where
  "getStringIndex s st =
     (case stringIndex st s of
        Some index \<Rightarrow> (index, st)
      | None \<Rightarrow>
          let index = of_nat (length (stringTable st))
          in (index, st\<lparr>stringTable := stringTable st @ [s], stringIndex := (stringIndex st)(s \<mapsto> index)\<rparr>))"

fun ConvertProfilesAnyValueToReference :: "AnyValue \<Rightarrow> string_index \<Rightarrow> (dict_error, AnyValue \<times> string_index) result"
  and convert_array :: "AnyValue list \<Rightarrow> string_index \<Rightarrow> (dict_error, AnyValue list \<times> string_index) result"
  and ConvertProfilesKeyValuesToReferences :: "nat \<Rightarrow> KeyValue list \<Rightarrow> string_index \<Rightarrow> (dict_error, KeyValue list \<times> string_index) result"
  where
  "ConvertProfilesAnyValueToReference (StringValue s) st =
     (case getStringIndex s st of (index, st') \<Rightarrow> Ok (StringValueStrindex index, st'))"
| "ConvertProfilesAnyValueToReference (KvlistValue (Some (KeyValues kvs))) st =
     (case ConvertProfilesKeyValuesToReferences 0 kvs st of
        Inl e \<Rightarrow> Err e
      | Inr (kvs', st') \<Rightarrow> Ok (KvlistValue (Some (KeyValues kvs')), st'))"
| "ConvertProfilesAnyValueToReference (ArrayValue (Some (ArrayValues vs))) st =
     (case convert_array vs st of
        Inl e \<Rightarrow> Err e
      | Inr (vs', st') \<Rightarrow> Ok (ArrayValue (Some (ArrayValues vs')), st'))"
| "ConvertProfilesAnyValueToReference v st = Ok (v, st)"
| "convert_array [] st = Ok ([], st)"
| "convert_array (v # vs) st =
     (case ConvertProfilesAnyValueToReference v st of
        Inl e \<Rightarrow> Err e
      | Inr (v', st1) \<Rightarrow>
          (case convert_array vs st1 of Inl e \<Rightarrow> Err e | Inr (vs', st2) \<Rightarrow> Ok (v' # vs', st2)))"
| "ConvertProfilesKeyValuesToReferences i [] st = Ok ([], st)"
| "ConvertProfilesKeyValuesToReferences i (KeyValue k v ki # kvs) st =
     (if k \<noteq> [] \<and> ki \<noteq> 0 then Err (BothKeyAndIndex i)
      else
        let (k', ki', st1) =
          (if k \<noteq> [] then (case getStringIndex k st of (index, st') \<Rightarrow> ([], index, st')) else (k, ki, st))
        in case ConvertProfilesAnyValueToReference v st1 of
             Inl e \<Rightarrow> Err e
           | Inr (v', st2) \<Rightarrow>
               (case ConvertProfilesKeyValuesToReferences (Suc i) kvs st2 of
                  Inl e \<Rightarrow> Err e
                | Inr (kvs', st3) \<Rightarrow> Ok (KeyValue k' v' ki' # kvs', st3)))"

fun convert_scopes :: "nat \<Rightarrow> nat \<Rightarrow> ScopeProfiles list \<Rightarrow> string_index \<Rightarrow> (dict_error, ScopeProfiles list \<times> string_index) result" where
  "convert_scopes i j [] st = Ok ([], st)"
| "convert_scopes i j (sp # sps) st =
     (case ConvertProfilesKeyValuesToReferences 0 (InstrumentationScope_Attributes (ScopeProfiles_Scope sp)) st of
        Inl e \<Rightarrow> Err (InScope i j e)
      | Inr (attrs, st1) \<Rightarrow>
          (case convert_scopes i (Suc j) sps st1 of
             Inl e \<Rightarrow> Err e
           | Inr (sps', st2) \<Rightarrow>
               Ok (sp\<lparr>ScopeProfiles_Scope := (ScopeProfiles_Scope sp)\<lparr>InstrumentationScope_Attributes := attrs\<rparr>\<rparr> # sps', st2)))"

fun convert_resources :: "nat \<Rightarrow> ResourceProfiles list \<Rightarrow> string_index \<Rightarrow> (dict_error, ResourceProfiles list \<times> string_index) result" where
  "convert_resources i [] st = Ok ([], st)"
| "convert_resources i (rp # rps) st =
     (case ConvertProfilesKeyValuesToReferences 0 (Resource_Attributes (ResourceProfiles_Resource rp)) st of
        Inl e \<Rightarrow> Err (InResource i e)
      | Inr (attrs, st1) \<Rightarrow>
          (case convert_scopes i 0 (ResourceProfiles_ScopeProfiles rp) st1 of
             Inl e \<Rightarrow> Err e
           | Inr (sps, st2) \<Rightarrow>
               (case convert_resources (Suc i) rps st2 of
                  Inl e \<Rightarrow> Err e
                | Inr (rps', st3) \<Rightarrow>
                    Ok (rp\<lparr>ResourceProfiles_Resource := (ResourceProfiles_Resource rp)\<lparr>Resource_Attributes := attrs\<rparr>,
                        ResourceProfiles_ScopeProfiles := sps\<rparr> # rps', st3))))"

definition ConvertProfilesToReferences ::
  "ExportProfilesServiceRequest \<Rightarrow> (dict_error, ExportProfilesServiceRequest) result" where
  "ConvertProfilesToReferences request =
     (let dict = ExportProfilesServiceRequest_Dictionary request;
          table = (if length (ProfilesDictionary_StringTable dict) = 0 then [[]] else ProfilesDictionary_StringTable dict)
      in case convert_resources 0 (ExportProfilesServiceRequest_ResourceProfiles request)
                \<lparr>stringTable = table, stringIndex = index_strings 0 table Map.empty\<rparr> of
           Inl e \<Rightarrow> Err e
         | Inr (rps, st) \<Rightarrow>
             Ok (request\<lparr>ExportProfilesServiceRequest_ResourceProfiles := rps,
                 ExportProfilesServiceRequest_Dictionary := dict\<lparr>ProfilesDictionary_StringTable := stringTable st\<rparr>\<rparr>))"

section \<open>Resolving\<close>

fun ResolveProfilesAnyValueReference :: "byte list list \<Rightarrow> AnyValue \<Rightarrow> (dict_error, AnyValue) result"
  and resolve_array :: "byte list list \<Rightarrow> nat \<Rightarrow> AnyValue list \<Rightarrow> (dict_error, AnyValue list) result"
  and ResolveProfilesKeyValueReferences :: "byte list list \<Rightarrow> nat \<Rightarrow> KeyValue list \<Rightarrow> (dict_error, KeyValue list) result"
  where
  "ResolveProfilesAnyValueReference table (StringValueStrindex i) =
     (if sint i < 0 \<or> sint i \<ge> int (length table) then Err (InvalidValueIndex (sint i))
      else Ok (StringValue (table ! nat (sint i))))"
| "ResolveProfilesAnyValueReference table (KvlistValue (Some (KeyValues kvs))) =
     (case ResolveProfilesKeyValueReferences table 0 kvs of
        Inl e \<Rightarrow> Err e | Inr kvs' \<Rightarrow> Ok (KvlistValue (Some (KeyValues kvs'))))"
| "ResolveProfilesAnyValueReference table (ArrayValue (Some (ArrayValues vs))) =
     (case resolve_array table 0 vs of Inl e \<Rightarrow> Err e | Inr vs' \<Rightarrow> Ok (ArrayValue (Some (ArrayValues vs'))))"
| "ResolveProfilesAnyValueReference table v = Ok v"
| "resolve_array table i [] = Ok []"
| "resolve_array table i (v # vs) =
     (case ResolveProfilesAnyValueReference table v of
        Inl e \<Rightarrow> Err (InArrayValue i e)
      | Inr v' \<Rightarrow> (case resolve_array table (Suc i) vs of Inl e \<Rightarrow> Err e | Inr vs' \<Rightarrow> Ok (v' # vs')))"
| "ResolveProfilesKeyValueReferences table i [] = Ok []"
| "ResolveProfilesKeyValueReferences table i (KeyValue k v ki # kvs) =
     (if k \<noteq> [] \<and> ki \<noteq> 0 then Err (BothKeyAndIndex i)
      else if sint ki < 0 \<or> sint ki > 0 \<and> sint ki \<ge> int (length table) then Err (InvalidKeyIndex i (sint ki))
      else
        let (k', ki') = (if sint ki > 0 then (table ! nat (sint ki), 0) else (k, ki))
        in case ResolveProfilesAnyValueReference table v of
             Inl e \<Rightarrow> Err (InAttributeValue i e)
           | Inr v' \<Rightarrow>
               (case ResolveProfilesKeyValueReferences table (Suc i) kvs of
                  Inl e \<Rightarrow> Err e | Inr kvs' \<Rightarrow> Ok (KeyValue k' v' ki' # kvs')))"

fun resolve_scopes :: "byte list list \<Rightarrow> nat \<Rightarrow> nat \<Rightarrow> ScopeProfiles list \<Rightarrow> (dict_error, ScopeProfiles list) result" where
  "resolve_scopes table i j [] = Ok []"
| "resolve_scopes table i j (sp # sps) =
     (case ResolveProfilesKeyValueReferences table 0 (InstrumentationScope_Attributes (ScopeProfiles_Scope sp)) of
        Inl e \<Rightarrow> Err (InScope i j e)
      | Inr attrs \<Rightarrow>
          (case resolve_scopes table i (Suc j) sps of
             Inl e \<Rightarrow> Err e
           | Inr sps' \<Rightarrow> Ok (sp\<lparr>ScopeProfiles_Scope := (ScopeProfiles_Scope sp)\<lparr>InstrumentationScope_Attributes := attrs\<rparr>\<rparr> # sps')))"

fun resolve_resources :: "byte list list \<Rightarrow> nat \<Rightarrow> ResourceProfiles list \<Rightarrow> (dict_error, ResourceProfiles list) result" where
  "resolve_resources table i [] = Ok []"
| "resolve_resources table i (rp # rps) =
     (case ResolveProfilesKeyValueReferences table 0 (Resource_Attributes (ResourceProfiles_Resource rp)) of
        Inl e \<Rightarrow> Err (InResource i e)
      | Inr attrs \<Rightarrow>
          (case resolve_scopes table i 0 (ResourceProfiles_ScopeProfiles rp) of
             Inl e \<Rightarrow> Err e
           | Inr sps \<Rightarrow>
               (case resolve_resources table (Suc i) rps of
                  Inl e \<Rightarrow> Err e
                | Inr rps' \<Rightarrow>
                    Ok (rp\<lparr>ResourceProfiles_Resource := (ResourceProfiles_Resource rp)\<lparr>Resource_Attributes := attrs\<rparr>,
                        ResourceProfiles_ScopeProfiles := sps\<rparr> # rps'))))"

definition ResolveProfilesReferences ::
  "ExportProfilesServiceRequest \<Rightarrow> (dict_error, ExportProfilesServiceRequest) result" where
  "ResolveProfilesReferences request =
     (case resolve_resources (ProfilesDictionary_StringTable (ExportProfilesServiceRequest_Dictionary request)) 0
             (ExportProfilesServiceRequest_ResourceProfiles request) of
        Inl e \<Rightarrow> Err e
      | Inr rps \<Rightarrow> Ok (request\<lparr>ExportProfilesServiceRequest_ResourceProfiles := rps\<rparr>))"

section \<open>Marshalling\<close>

datatype profiles_error = ProtoError proto_error | DictError dict_error

text \<open>
  \<^verbatim>\<open>MarshalProfiles\<close> returns the bytes and leaves the profiles as the second component: converted in place, unless
  they are read-only.
\<close>

definition pprofile_MarshalProfiles ::
  "bool \<Rightarrow> ExportProfilesServiceRequest \<Rightarrow> (profiles_error, byte list \<times> ExportProfilesServiceRequest) result option" where
  "pprofile_MarshalProfiles readOnly pd =
     (case ConvertProfilesToReferences pd of
        Inl e \<Rightarrow> Some (Err (DictError e))
      | Inr pd' \<Rightarrow>
          map_option (\<lambda>buf. Ok (buf, if readOnly then pd else pd'))
            (marshal_new (ExportProfilesServiceRequest_SizeProto pd') (ExportProfilesServiceRequest_MarshalProto pd')))"

definition pprofile_UnmarshalProfiles :: "byte list \<Rightarrow> (profiles_error, ExportProfilesServiceRequest) result option" where
  "pprofile_UnmarshalProfiles buf =
     (case ExportProfilesServiceRequest_UnmarshalProto buf ExportProfilesServiceRequest_zero of
        None \<Rightarrow> None
      | Some (Inl e) \<Rightarrow> Some (Err (ProtoError e))
      | Some (Inr pd) \<Rightarrow>
          (case ResolveProfilesReferences pd of Inl e \<Rightarrow> Some (Err (DictError e)) | Inr pd' \<Rightarrow> Some (Ok pd')))"

section \<open>Values without references\<close>

fun inline_value :: "AnyValue \<Rightarrow> bool"
  and inline_array :: "AnyValue list \<Rightarrow> bool"
  and inline_attrs :: "KeyValue list \<Rightarrow> bool" where
  "inline_value (StringValueStrindex i) = False"
| "inline_value (KvlistValue (Some (KeyValues kvs))) = inline_attrs kvs"
| "inline_value (ArrayValue (Some (ArrayValues vs))) = inline_array vs"
| "inline_value _ = True"
| "inline_array [] = True"
| "inline_array (v # vs) \<longleftrightarrow> inline_value v \<and> inline_array vs"
| "inline_attrs [] = True"
| "inline_attrs (KeyValue k v ki # kvs) \<longleftrightarrow> ki = 0 \<and> inline_value v \<and> inline_attrs kvs"

definition inline_scope :: "ScopeProfiles \<Rightarrow> bool" where
  "inline_scope sp \<longleftrightarrow> inline_attrs (InstrumentationScope_Attributes (ScopeProfiles_Scope sp))"

definition inline_resource :: "ResourceProfiles \<Rightarrow> bool" where
  "inline_resource rp \<longleftrightarrow> inline_attrs (Resource_Attributes (ResourceProfiles_Resource rp)) \<and>
     list_all inline_scope (ResourceProfiles_ScopeProfiles rp)"

definition inline_request :: "ExportProfilesServiceRequest \<Rightarrow> bool" where
  "inline_request request \<longleftrightarrow> list_all inline_resource (ExportProfilesServiceRequest_ResourceProfiles request)"

section \<open>The string index\<close>

definition indexed :: "byte list list \<Rightarrow> (byte list \<rightharpoonup> 32 word) \<Rightarrow> bool" where
  "indexed table m \<longleftrightarrow> (\<forall>s i. m s = Some i \<longrightarrow>
     0 \<le> sint i \<and> nat (sint i) < length table \<and> table ! nat (sint i) = s \<and> (sint i = 0 \<longrightarrow> s = []))"

definition index_ok :: "string_index \<Rightarrow> bool" where
  "index_ok st \<longleftrightarrow> stringTable st \<noteq> [] \<and> indexed (stringTable st) (stringIndex st)"

lemma sint_of_nat32: "n < 2 ^ 31 \<Longrightarrow> sint (of_nat n :: 32 word) = int n"
  by (simp add: signed_of_nat signed_take_bit_int_eq_self)

lemma indexed_mono: "indexed table m \<Longrightarrow> prefix table table' \<Longrightarrow> indexed table' m"
  by (fastforce simp: indexed_def prefix_def nth_append)

lemma indexed_update:
  "indexed table m \<Longrightarrow> sint i = int n \<Longrightarrow> n < length table \<Longrightarrow> table ! n = s \<Longrightarrow> n = 0 \<longrightarrow> s = [] \<Longrightarrow> indexed table (m(s \<mapsto> i))"
  by (auto simp: indexed_def)

lemma indexed_index_strings:
  "indexed (take i table) m \<Longrightarrow> vs = drop i table \<Longrightarrow> length table < 2 ^ 31 \<Longrightarrow> indexed table (index_strings i vs m)"
proof (induction i vs m rule: index_strings.induct)
  case (2 i v vs m)
  have v: "i < length table" "table ! i = v" "vs = drop (Suc i) table"
    using "2.prems"(2) by (metis drop_all list.distinct(1) not_le, metis nth_via_drop, metis drop_Suc list.sel(3) tl_drop)
  have grow: "indexed (take (Suc i) table) m"
    by (rule indexed_mono [OF "2.prems"(1)]) (simp add: take_Suc_conv_app_nth v(1))
  have "sint (of_nat i :: 32 word) = int i" using v(1) "2.prems"(3) by (intro sint_of_nat32) simp
  then have "indexed (take (Suc i) table) (m(v \<mapsto> of_nat i))" if "i = 0 \<longrightarrow> v = []"
    using grow that v by (intro indexed_update [where n = i]) simp_all
  then have "indexed (take (Suc i) table) (if i = 0 \<and> v \<noteq> [] then m else if m v = None then m(v \<mapsto> of_nat i) else m)"
    using grow by (cases "i = 0 \<and> v \<noteq> []"; cases "m v") auto
  from "2.IH" [OF this v(3) "2.prems"(3)] show ?case by simp
qed (use indexed_mono take_is_prefix in \<open>auto\<close>)

lemma index_ok_initial: "table \<noteq> [] \<Longrightarrow> length table < 2 ^ 31 \<Longrightarrow>
  index_ok \<lparr>stringTable = table, stringIndex = index_strings 0 table Map.empty\<rparr>"
  using indexed_index_strings [of 0 table Map.empty table] by (simp add: index_ok_def) (simp add: indexed_def)

lemma getStringIndex_prefix: "getStringIndex s st = (i, st') \<Longrightarrow> prefix (stringTable st) (stringTable st')"
  by (auto simp: getStringIndex_def Let_def split: option.splits)

lemma getStringIndex_ok:
  assumes "getStringIndex s st = (i, st')" "index_ok st" "length (stringTable st') < 2 ^ 31"
  shows "index_ok st' \<and> (\<forall>table. prefix (stringTable st') table \<longrightarrow>
    0 \<le> sint i \<and> sint i < int (length table) \<and> table ! nat (sint i) = s \<and> (s \<noteq> [] \<longrightarrow> 0 < sint i))"
proof (cases "stringIndex st s")
  case (Some j)
  then have e: "i = j" "st' = st" using assms(1) by (simp_all add: getStringIndex_def)
  have "0 \<le> sint j \<and> nat (sint j) < length (stringTable st) \<and> stringTable st ! nat (sint j) = s \<and> (sint j = 0 \<longrightarrow> s = [])"
    using assms(2) Some by (simp add: index_ok_def indexed_def)
  then show ?thesis using e assms(2) by (auto simp: prefix_def nth_append)
next
  case None
  let ?n = "length (stringTable st)"
  have e: "i = of_nat ?n" "st' = st\<lparr>stringTable := stringTable st @ [s], stringIndex := (stringIndex st)(s \<mapsto> of_nat ?n)\<rparr>"
    using assms(1) None by (auto simp: getStringIndex_def Let_def)
  have n: "sint (of_nat ?n :: 32 word) = int ?n" using assms(3) unfolding e(2) by (intro sint_of_nat32) simp
  have "indexed (stringTable st @ [s]) (stringIndex st)"
    using assms(2) indexed_mono [of "stringTable st" "stringIndex st"] by (simp add: index_ok_def)
  moreover have "0 < ?n" using assms(2) by (simp add: index_ok_def)
  ultimately have "indexed (stringTable st @ [s]) ((stringIndex st)(s \<mapsto> of_nat ?n))"
    using n by (intro indexed_update [where n = ?n]) simp_all
  then have "index_ok st'" using e by (simp add: index_ok_def)
  moreover have "sint i = int ?n" "stringTable st' = stringTable st @ [s]" using e n by simp_all
  ultimately show ?thesis using \<open>0 < ?n\<close> by (auto simp: prefix_def nth_append)
qed

section \<open>Resolving undoes converting\<close>

text \<open>
  What a conversion promises for a value without references: it succeeds, it only adds strings to the table, and if the
  table still fits 31 bits then the converted value resolves to the original one, in the new table and in every table
  that extends it.
\<close>

definition carried ::
  "('a \<Rightarrow> string_index \<Rightarrow> (dict_error, 'b \<times> string_index) result) \<Rightarrow> (byte list list \<Rightarrow> 'b \<Rightarrow> (dict_error, 'a) result) \<Rightarrow>
   'a \<Rightarrow> string_index \<Rightarrow> bool" where
  "carried conv res x st \<longleftrightarrow> (\<exists>x' st'. conv x st = Ok (x', st') \<and> prefix (stringTable st) (stringTable st') \<and>
     (index_ok st \<longrightarrow> length (stringTable st') < 2 ^ 31 \<longrightarrow>
        index_ok st' \<and> (\<forall>table. prefix (stringTable st') table \<longrightarrow> res table x' = Ok x)))"

lemma carried_id: "conv x st = Ok (x', st) \<Longrightarrow> (\<And>table. res table x' = Ok x) \<Longrightarrow> carried conv res x st"
  by (simp add: carried_def)

lemma carried_map:
  assumes "carried c1 r1 x st"
    and "\<And>x' st'. c1 x st = Ok (x', st') \<Longrightarrow> c z st = Ok (g x', st')"
    and "\<And>table x'. r1 table x' = Ok x \<Longrightarrow> r table (g x') = Ok z"
  shows "carried c r z st"
  using assms unfolding carried_def by blast

lemma carried_seq:
  assumes x: "carried c1 r1 x st" and y: "\<And>st1. carried c2 r2 y st1"
    and c: "\<And>x' st1 y' st2. c1 x st = Ok (x', st1) \<Longrightarrow> c2 y st1 = Ok (y', st2) \<Longrightarrow> c z st = Ok (g x' y', st2)"
    and r: "\<And>table x' y'. r1 table x' = Ok x \<Longrightarrow> r2 table y' = Ok y \<Longrightarrow> r table (g x' y') = Ok z"
  shows "carried c r z st"
proof -
  obtain x' st1 where x': "c1 x st = Ok (x', st1)" "prefix (stringTable st) (stringTable st1)"
    "index_ok st \<Longrightarrow> length (stringTable st1) < 2 ^ 31 \<Longrightarrow>
       index_ok st1 \<and> (\<forall>table. prefix (stringTable st1) table \<longrightarrow> r1 table x' = Ok x)"
    using x unfolding carried_def by blast
  obtain y' st2 where y': "c2 y st1 = Ok (y', st2)" "prefix (stringTable st1) (stringTable st2)"
    "index_ok st1 \<Longrightarrow> length (stringTable st2) < 2 ^ 31 \<Longrightarrow>
       index_ok st2 \<and> (\<forall>table. prefix (stringTable st2) table \<longrightarrow> r2 table y' = Ok y)"
    using y [of st1] unfolding carried_def by blast
  have "index_ok st2 \<and> (\<forall>table. prefix (stringTable st2) table \<longrightarrow> r table (g x' y') = Ok z)"
    if "index_ok st" "length (stringTable st2) < 2 ^ 31"
  proof -
    have "length (stringTable st1) < 2 ^ 31" using that(2) prefix_length_le [OF y'(2)] by simp
    note 1 = x'(3) [OF that(1) this]
    note 2 = y'(3) [OF conjunct1 [OF 1] that(2)]
    show ?thesis using 1 2 r prefix_order.trans [OF y'(2)] by blast
  qed
  then show ?thesis using c [OF x'(1) y'(1)] prefix_order.trans [OF x'(2) y'(2)] unfolding carried_def by blast
qed

lemma carried_seq3:
  assumes "carried c1 r1 x st" "\<And>st1. carried c2 r2 y st1" "\<And>st2. carried c3 r3 w st2"
    and "\<And>x' st1 y' st2 w' st3. c1 x st = Ok (x', st1) \<Longrightarrow> c2 y st1 = Ok (y', st2) \<Longrightarrow> c3 w st2 = Ok (w', st3) \<Longrightarrow>
      c z st = Ok (g x' y' w', st3)"
    and "\<And>table x' y' w'. r1 table x' = Ok x \<Longrightarrow> r2 table y' = Ok y \<Longrightarrow> r3 table w' = Ok w \<Longrightarrow> r table (g x' y' w') = Ok z"
  shows "carried c r z st"
proof (rule carried_seq [where g = "\<lambda>x' (y', w'). g x' y' w'"])
  show "carried c1 r1 x st" by fact
  show "carried (\<lambda>(y, w) st. case c2 y st of Inl e \<Rightarrow> Err e | Inr (y', st') \<Rightarrow>
      (case c3 w st' of Inl e \<Rightarrow> Err e | Inr (w', st'') \<Rightarrow> Ok ((y', w'), st'')))
    (\<lambda>table (y', w'). case r2 table y' of Inl e \<Rightarrow> Err e | Inr y \<Rightarrow> (case r3 table w' of Inl e \<Rightarrow> Err e | Inr w \<Rightarrow> Ok (y, w)))
    (y, w) st1" for st1
    by (rule carried_seq [where g = Pair, OF assms(2,3)]) simp_all
qed (use assms(4,5) in \<open>auto split: sum.splits\<close>)

lemma carried_string:
  "carried (\<lambda>s st. Ok (getStringIndex s st))
     (\<lambda>table i. if sint i < 0 \<or> sint i \<ge> int (length table) then Err (InvalidValueIndex (sint i)) else Ok (table ! nat (sint i)))
     s st"
proof (cases "getStringIndex s st")
  case (Pair i st')
  then show ?thesis
    using getStringIndex_prefix [OF Pair] getStringIndex_ok [OF Pair] by (fastforce simp: carried_def)
qed

text \<open>The key of an attribute that has no index, and its index once it is in the table.\<close>

definition convert_key :: "byte list \<Rightarrow> string_index \<Rightarrow> (dict_error, (byte list \<times> 32 word) \<times> string_index) result" where
  "convert_key k st = (if k \<noteq> [] then (case getStringIndex k st of (index, st') \<Rightarrow> Ok (([], index), st')) else Ok ((k, 0), st))"

definition resolve_key :: "byte list list \<Rightarrow> byte list \<times> 32 word \<Rightarrow> (dict_error, byte list) result" where
  "resolve_key table = (\<lambda>(k, ki).
     if k = [] \<and> sint ki > 0 \<and> sint ki < int (length table) then Ok (table ! nat (sint ki))
     else if ki = 0 then Ok k else Err (InvalidKeyIndex 0 (sint ki)))"

lemma carried_key: "carried convert_key resolve_key k st"
proof (cases "getStringIndex k st")
  case (Pair i st')
  then show ?thesis
    using getStringIndex_prefix [OF Pair] getStringIndex_ok [OF Pair]
    by (auto simp: carried_def convert_key_def resolve_key_def)
qed

lemma carried_StringValue: "carried ConvertProfilesAnyValueToReference ResolveProfilesAnyValueReference (StringValue s) st"
  by (rule carried_map [where g = StringValueStrindex, OF carried_string]) (auto split: if_splits)

lemma carried_attr:
  assumes "\<And>st. carried ConvertProfilesAnyValueToReference ResolveProfilesAnyValueReference v st"
    and "\<And>st. carried (ConvertProfilesKeyValuesToReferences (Suc i)) (\<lambda>table. ResolveProfilesKeyValueReferences table (Suc j)) kvs st"
  shows "carried (ConvertProfilesKeyValuesToReferences i) (\<lambda>table. ResolveProfilesKeyValueReferences table j)
    (KeyValue k v 0 # kvs) st"
  by (rule carried_seq3 [where g = "\<lambda>(k, ki) v kvs. KeyValue k v ki # kvs", OF carried_key [where k = k] assms])
    (auto simp: convert_key_def resolve_key_def split: if_splits prod.splits)

lemma carried_value:
  "inline_value v \<Longrightarrow> carried ConvertProfilesAnyValueToReference ResolveProfilesAnyValueReference v st"
  "inline_array vs \<Longrightarrow> carried convert_array (\<lambda>table. resolve_array table j) vs st"
  "inline_attrs kvs \<Longrightarrow> carried (ConvertProfilesKeyValuesToReferences i) (\<lambda>table. ResolveProfilesKeyValueReferences table j) kvs st"
proof (induction v and vs and kvs arbitrary: st and st j and st i j rule: inline_value_inline_array_inline_attrs.induct)
  case (2 kvs)
  then show ?case by (intro carried_map [where g = "\<lambda>kvs. KvlistValue (Some (KeyValues kvs))", OF "2.IH" [of 0 0]]) simp_all
next
  case (3 vs)
  then show ?case by (intro carried_map [where g = "\<lambda>vs. ArrayValue (Some (ArrayValues vs))", OF "3.IH" [of 0]]) simp_all
next
  case (6 v vs)
  then show ?case
    by (intro carried_seq [where g = "(#)" and ?r2.0 = "\<lambda>table. resolve_array table (Suc j)", OF "6.IH"]) simp_all
next
  case (8 k v ki kvs)
  then show ?case using carried_attr [OF "8.IH"] by simp
qed (auto intro: carried_id carried_StringValue)

lemma carried_scopes:
  "list_all inline_scope sps \<Longrightarrow> carried (convert_scopes i j) (\<lambda>table. resolve_scopes table i' j') sps st"
proof (induction sps arbitrary: st j j')
  case (Cons sp sps)
  have "inline_attrs (InstrumentationScope_Attributes (ScopeProfiles_Scope sp))" using Cons.prems by (simp add: inline_scope_def)
  note attrs = carried_value(3) [OF this, where i = 0 and j = 0]
  have "carried (convert_scopes i (Suc j)) (\<lambda>table. resolve_scopes table i' (Suc j')) sps st" for st using Cons by simp
  with attrs show ?case
    by (rule carried_seq [where g = "\<lambda>attrs sps. sp\<lparr>ScopeProfiles_Scope :=
      (ScopeProfiles_Scope sp)\<lparr>InstrumentationScope_Attributes := attrs\<rparr>\<rparr> # sps"]) simp_all
qed (simp add: carried_id)

lemma carried_resources:
  "list_all inline_resource rps \<Longrightarrow> carried (convert_resources i) (\<lambda>table. resolve_resources table j) rps st"
proof (induction rps arbitrary: st i j)
  case (Cons rp rps)
  have i: "inline_attrs (Resource_Attributes (ResourceProfiles_Resource rp))" "list_all inline_scope (ResourceProfiles_ScopeProfiles rp)"
    using Cons.prems by (simp_all add: inline_resource_def)
  note attrs = carried_value(3) [OF i(1), where i = 0 and j = 0]
  note scopes = carried_scopes [OF i(2), where i = i and j = 0 and i' = j and j' = 0]
  have "carried (convert_resources (Suc i)) (\<lambda>table. resolve_resources table (Suc j)) rps st" for st using Cons by simp
  with attrs scopes show ?case
    by (rule carried_seq3 [where g = "\<lambda>attrs sps rps. rp\<lparr>ResourceProfiles_Resource :=
      (ResourceProfiles_Resource rp)\<lparr>Resource_Attributes := attrs\<rparr>, ResourceProfiles_ScopeProfiles := sps\<rparr> # rps"]) simp_all
qed (simp add: carried_id)

lemma references_roundtrip:
  assumes "inline_request pd"
  shows "\<exists>pd'. ConvertProfilesToReferences pd = Ok pd' \<and>
    prefix (ProfilesDictionary_StringTable (ExportProfilesServiceRequest_Dictionary pd))
      (ProfilesDictionary_StringTable (ExportProfilesServiceRequest_Dictionary pd')) \<and>
    (length (ProfilesDictionary_StringTable (ExportProfilesServiceRequest_Dictionary pd')) < 2 ^ 31 \<longrightarrow>
       ResolveProfilesReferences pd' =
         Ok (pd\<lparr>ExportProfilesServiceRequest_Dictionary := ExportProfilesServiceRequest_Dictionary pd'\<rparr>))"
proof -
  let ?given = "ProfilesDictionary_StringTable (ExportProfilesServiceRequest_Dictionary pd)"
  define table where "table = (if length ?given = 0 then [[]] else ?given)"
  let ?st = "\<lparr>stringTable = table, stringIndex = index_strings 0 table Map.empty\<rparr>"
  have table: "table \<noteq> []" "prefix ?given table" by (auto simp: table_def)
  from assms have "carried (convert_resources 0) (\<lambda>table. resolve_resources table 0) (ExportProfilesServiceRequest_ResourceProfiles pd) ?st"
    by (intro carried_resources) (simp add: inline_request_def)
  then obtain rps st' where r: "convert_resources 0 (ExportProfilesServiceRequest_ResourceProfiles pd) ?st = Ok (rps, st')"
    "prefix table (stringTable st')"
    "index_ok ?st \<Longrightarrow> length (stringTable st') < 2 ^ 31 \<Longrightarrow>
       resolve_resources (stringTable st') 0 rps = Ok (ExportProfilesServiceRequest_ResourceProfiles pd)"
    unfolding carried_def by auto
  have "resolve_resources (stringTable st') 0 rps = Ok (ExportProfilesServiceRequest_ResourceProfiles pd)"
    if "length (stringTable st') < 2 ^ 31"
    using that table(1) prefix_length_le [OF r(2)] by (intro r(3) index_ok_initial) simp_all
  with r(1,2) table(2) show ?thesis
    by (auto simp: ConvertProfilesToReferences_def ResolveProfilesReferences_def table_def Let_def)
qed

section \<open>Converting keeps the shape of values\<close>

lemma depth_array: "AnyValue_depth (ArrayValue (Some (ArrayValues vs))) = Suc (Suc (Max (insert 0 (set (map AnyValue_depth vs)))))"
  by simp

lemma depth_kvlist: "AnyValue_depth (KvlistValue (Some (KeyValues kvs))) = Suc (Suc (Max (insert 0 (set (map KeyValue_depth kvs)))))"
  by simp

lemma no_nil_array: "AnyValue_no_nil (ArrayValue (Some (ArrayValues vs))) = list_all (\<lambda>b. b) (map AnyValue_no_nil vs)"
  by (simp add: list_all_iff)

lemma no_nil_kvlist: "AnyValue_no_nil (KvlistValue (Some (KeyValues kvs))) = list_all (\<lambda>b. b) (map KeyValue_no_nil kvs)"
  by (simp add: list_all_iff)

lemma convert_shape:
  "ConvertProfilesAnyValueToReference v st = Ok (v', st') \<Longrightarrow>
     AnyValue_depth v' = AnyValue_depth v \<and> AnyValue_no_nil v' = AnyValue_no_nil v"
  "convert_array vs st = Ok (vs', st') \<Longrightarrow>
     map AnyValue_depth vs' = map AnyValue_depth vs \<and> map AnyValue_no_nil vs' = map AnyValue_no_nil vs"
  "ConvertProfilesKeyValuesToReferences i kvs st = Ok (kvs', st') \<Longrightarrow>
     map KeyValue_depth kvs' = map KeyValue_depth kvs \<and> map KeyValue_no_nil kvs' = map KeyValue_no_nil kvs"
proof (induction v and vs and kvs arbitrary: st v' st' and st vs' st' and i st kvs' st'
    rule: inline_value_inline_array_inline_attrs.induct)
  case (2 kvs)
  from "2.prems" obtain ws where "ConvertProfilesKeyValuesToReferences 0 kvs st = Ok (ws, st')" "v' = KvlistValue (Some (KeyValues ws))"
    by (auto split: sum.splits)
  then show ?case using "2.IH" by (simp only: depth_kvlist no_nil_kvlist)
next
  case (3 vs)
  from "3.prems" obtain ws where "convert_array vs st = Ok (ws, st')" "v' = ArrayValue (Some (ArrayValues ws))"
    by (auto split: sum.splits)
  then show ?case using "3.IH" by (simp only: depth_array no_nil_array)
next
  case (6 v vs)
  from "6.prems" obtain w st1 ws where "ConvertProfilesAnyValueToReference v st = Ok (w, st1)" "convert_array vs st1 = Ok (ws, st')" "vs' = w # ws"
    by (auto split: sum.splits)
  then show ?case using "6.IH"(1) [of st w st1] "6.IH"(2) [of st1 ws st'] by (simp only: list.map)
next
  case (8 k v ki kvs)
  from "8.prems" obtain k' ki' st1 w st2 ws where "ConvertProfilesAnyValueToReference v st1 = Ok (w, st2)"
    "ConvertProfilesKeyValuesToReferences (Suc i) kvs st2 = Ok (ws, st')" "kvs' = KeyValue k' w ki' # ws"
    by (auto simp: Let_def split: sum.splits prod.splits if_splits)
  then show ?case using "8.IH"(1) [of st1 w st2] "8.IH"(2) [of "Suc i" st2 ws st']
    by (simp only: list.map KeyValue_depth.simps KeyValue_no_nil.simps)
qed (auto split: sum.splits prod.splits)

lemma convert_attrs_wf:
  assumes "ConvertProfilesKeyValuesToReferences i kvs st = Ok (kvs', st')"
  shows "list_all KeyValue_wf kvs' = list_all KeyValue_wf kvs"
proof -
  have "map KeyValue_wf xs = map (\<lambda>(d, b). b \<and> d \<le> RecursionLimit) (zip (map KeyValue_depth xs) (map KeyValue_no_nil xs))" for xs
    by (induction xs) (simp_all add: KeyValue_wf_def)
  then have "map KeyValue_wf kvs' = map KeyValue_wf kvs" using convert_shape(3) [OF assms] by simp
  then have "list_all (\<lambda>b. b) (map KeyValue_wf kvs') = list_all (\<lambda>b. b) (map KeyValue_wf kvs)" by (rule arg_cong)
  then show ?thesis by (simp add: list_all_iff)
qed

lemma convert_scopes_wf:
  "convert_scopes i j sps st = Ok (sps', st') \<Longrightarrow> list_all ScopeProfiles_wf sps' = list_all ScopeProfiles_wf sps"
  by (induction i j sps st arbitrary: sps' st' rule: convert_scopes.induct)
    (auto simp: ScopeProfiles_wf_def InstrumentationScope_wf_def convert_attrs_wf split: sum.splits prod.splits)

lemma convert_resources_wf:
  "convert_resources i rps st = Ok (rps', st') \<Longrightarrow> list_all ResourceProfiles_wf rps' = list_all ResourceProfiles_wf rps"
  by (induction i rps st arbitrary: rps' st' rule: convert_resources.induct)
    (auto simp: ResourceProfiles_wf_def Resource_wf_def convert_attrs_wf convert_scopes_wf split: sum.splits prod.splits)

lemma convert_wf:
  "ConvertProfilesToReferences pd = Ok pd' \<Longrightarrow> ExportProfilesServiceRequest_wf pd' = ExportProfilesServiceRequest_wf pd"
  by (auto simp: ConvertProfilesToReferences_def ExportProfilesServiceRequest_wf_def ProfilesDictionary_wf_def Let_def
      convert_resources_wf split: sum.splits prod.splits)

section \<open>Properties\<close>

text \<open>
  C10. Profiles survive the wire although their strings travel as references: the conversion of profiles without references
  succeeds and only appends to the string table; if the result has a size that a buffer can have and the table stays
  within 31 bits, \<^verbatim>\<open>MarshalProfiles\<close> gives bytes that \<^verbatim>\<open>UnmarshalProfiles\<close> reads back as the same profiles with the grown
  table. Unless the profiles are read-only, they are left in their converted form.
\<close>

theorem profiles_proto_roundtrip:
  assumes "ExportProfilesServiceRequest_wf pd" "inline_request pd"
  shows "\<exists>pd'. ConvertProfilesToReferences pd = Ok pd' \<and>
    prefix (ProfilesDictionary_StringTable (ExportProfilesServiceRequest_Dictionary pd))
      (ProfilesDictionary_StringTable (ExportProfilesServiceRequest_Dictionary pd')) \<and>
    (ExportProfilesServiceRequest_SizeProto pd' < 2 ^ 62 \<longrightarrow>
     length (ProfilesDictionary_StringTable (ExportProfilesServiceRequest_Dictionary pd')) < 2 ^ 31 \<longrightarrow>
     (\<exists>buf. pprofile_MarshalProfiles readOnly pd = Some (Ok (buf, if readOnly then pd else pd')) \<and>
        pprofile_UnmarshalProfiles buf =
          Some (Ok (pd\<lparr>ExportProfilesServiceRequest_Dictionary := ExportProfilesServiceRequest_Dictionary pd'\<rparr>))))"
proof -
  obtain pd' where c: "ConvertProfilesToReferences pd = Ok pd'"
    "prefix (ProfilesDictionary_StringTable (ExportProfilesServiceRequest_Dictionary pd))
      (ProfilesDictionary_StringTable (ExportProfilesServiceRequest_Dictionary pd'))"
    "length (ProfilesDictionary_StringTable (ExportProfilesServiceRequest_Dictionary pd')) < 2 ^ 31 \<Longrightarrow>
       ResolveProfilesReferences pd' = Ok (pd\<lparr>ExportProfilesServiceRequest_Dictionary := ExportProfilesServiceRequest_Dictionary pd'\<rparr>)"
    using references_roundtrip [OF assms(2)] by blast
  have m: "pprofile_MarshalProfiles readOnly pd = Some (Ok (ExportProfilesServiceRequest_bytes pd', if readOnly then pd else pd'))"
    using marshal_new_emits [OF emits_ExportProfilesServiceRequest, of pd']
    by (simp add: pprofile_MarshalProfiles_def c(1) ExportProfilesServiceRequest_size)
  have "ExportProfilesServiceRequest_UnmarshalProto (ExportProfilesServiceRequest_bytes pd') ExportProfilesServiceRequest_zero = Some (Ok pd')"
    if "ExportProfilesServiceRequest_SizeProto pd' < 2 ^ 62"
    using that assms(1) convert_wf [OF c(1)]
    by (intro ExportProfilesServiceRequest_roundtrip) (simp_all add: ExportProfilesServiceRequest_size)
  then show ?thesis using c m by (auto simp: pprofile_UnmarshalProfiles_def)
qed

definition sample_profiles :: ExportProfilesServiceRequest where
  "sample_profiles = ExportProfilesServiceRequest_zero\<lparr>ExportProfilesServiceRequest_ResourceProfiles :=
     [ResourceProfiles_zero\<lparr>ResourceProfiles_Resource := Resource_zero\<lparr>Resource_Attributes :=
        [KeyValue [0x6b] (ArrayValue (Some (ArrayValues [StringValue [0x76], StringValue [], StringValue [0x6b]]))) 0]\<rparr>\<rparr>]\<rparr>"

definition sample_converted :: ExportProfilesServiceRequest where
  "sample_converted = sample_profiles\<lparr>ExportProfilesServiceRequest_ResourceProfiles :=
     [ResourceProfiles_zero\<lparr>ResourceProfiles_Resource := Resource_zero\<lparr>Resource_Attributes :=
        [KeyValue [] (ArrayValue (Some (ArrayValues [StringValueStrindex 2, StringValueStrindex 0, StringValueStrindex 1]))) 1]\<rparr>\<rparr>],
     ExportProfilesServiceRequest_Dictionary := ProfilesDictionary_zero\<lparr>ProfilesDictionary_StringTable := [[], [0x6b], [0x76]]\<rparr>\<rparr>"

lemma sample_converts: "ConvertProfilesToReferences sample_profiles = Ok sample_converted"
  by code_simp

lemma sample_profiles_ok: "ExportProfilesServiceRequest_wf sample_profiles" "inline_request sample_profiles"
  by code_simp+

lemma sample_converted_size: "ExportProfilesServiceRequest_SizeProto sample_converted < 2 ^ 62"
  by (simp add: ExportProfilesServiceRequest_SizeProto_def sample_converted_def sample_profiles_def ExportProfilesServiceRequest_zero_def
      ResourceProfiles_SizeProto_def ResourceProfiles_zero_def Resource_SizeProto_def Resource_zero_def ProfilesDictionary_SizeProto_def
      ProfilesDictionary_zero_def size_len_small size_bytes_def Sov_one_byte)

lemma sample_converted_dictionary: "ExportProfilesServiceRequest_Dictionary sample_converted =
    ProfilesDictionary_zero\<lparr>ProfilesDictionary_StringTable := [[], [0x6b], [0x76]]\<rparr>"
  by (simp add: sample_converted_def)

theorem profiles_proto_roundtrip_witness:
  "\<exists>buf. pprofile_MarshalProfiles True sample_profiles = Some (Ok (buf, sample_profiles)) \<and>
     pprofile_UnmarshalProfiles buf = Some (Ok (sample_profiles\<lparr>ExportProfilesServiceRequest_Dictionary :=
       ProfilesDictionary_zero\<lparr>ProfilesDictionary_StringTable := [[], [0x6b], [0x76]]\<rparr>\<rparr>))"
  using profiles_proto_roundtrip [OF sample_profiles_ok, of True] sample_converted_size
  by (auto simp: sample_converts sample_converted_dictionary)

end
