(* ===== verification/PartitionKey.thy ===== *)
theory PartitionKey
  imports Wire
begin

text \<open>
  Partitioning requests by client metadata: \<^verbatim>\<open>queuebatch/metadata_partitioner.go\<close> and the type \<^verbatim>\<open>Metadata\<close> of
  \<^verbatim>\<open>client/client.go\<close>. A string is its bytes. The metadata map is an association list without repeated
  keys; lower-casing, which depends on the Unicode tables, is the argument \<open>lower\<close>. \<^verbatim>\<open>binary.AppendUvarint\<close>
  appends the bytes of a varint. Go visits a map in any order, which is the order of the association
  list; it matters only where keys differ in case alone.
\<close>

type_synonym metadata = "(byte list \<times> byte list list) list"

definition Metadata_Get :: "(byte list \<Rightarrow> byte list) \<Rightarrow> metadata \<Rightarrow> byte list \<Rightarrow> byte list list" where
  "Metadata_Get lower m key =
     (if m = [] then [] else case map_of m (lower key) of None \<Rightarrow> [] | Some vals \<Rightarrow> vals)"

definition NewMetadata :: "(byte list \<Rightarrow> byte list) \<Rightarrow> metadata \<Rightarrow> metadata" where
  "NewMetadata lower md = foldl (\<lambda>c (k, v). (lower k, v) # filter (\<lambda>e. fst e \<noteq> lower k) c) [] md"

definition AppendUvarint :: "byte list \<Rightarrow> u64 \<Rightarrow> byte list" where
  "AppendUvarint kb v = kb @ varint_bytes v"

definition append_value :: "byte list \<Rightarrow> byte list \<Rightarrow> byte list" where
  "append_value kb v = AppendUvarint kb (of_nat (length v)) @ v"

definition append_values :: "byte list \<Rightarrow> byte list list \<Rightarrow> byte list" where
  "append_values kb values = foldl append_value (AppendUvarint kb (of_nat (length values))) values"

definition GetKey :: "(byte list \<Rightarrow> byte list) \<Rightarrow> byte list list \<Rightarrow> metadata \<Rightarrow> byte list" where
  "GetKey lower keys meta = foldl (\<lambda>kb k. append_values kb (Metadata_Get lower meta k)) [] keys"

definition NewMetadataKeysMergeCtx :: "(byte list \<Rightarrow> byte list) \<Rightarrow> byte list list \<Rightarrow> (metadata \<Rightarrow> metadata \<Rightarrow> metadata) option" where
  "NewMetadataKeysMergeCtx lower keys =
     (if keys = [] then None
      else Some (\<lambda>m1 _. NewMetadata lower
        (foldl (\<lambda>m k. let v1 = Metadata_Get lower m1 k
                      in if v1 \<noteq> [] then (k, v1) # filter (\<lambda>e. fst e \<noteq> k) m else m) [] keys)))"

section \<open>Client metadata\<close>

text \<open>Metadata that \<^verbatim>\<open>NewMetadata\<close> made: its keys are distinct and in lower case.\<close>

definition metadata_wf :: "(byte list \<Rightarrow> byte list) \<Rightarrow> metadata \<Rightarrow> bool" where
  "metadata_wf lower m \<longleftrightarrow> distinct (map fst m) \<and> list_all (\<lambda>(k, _). lower k = k) m"

lemma NewMetadata_wf:
  assumes "metadata_wf lower m"
  shows "NewMetadata lower m = rev m"
proof -
  have "foldl (\<lambda>c (k, v). (lower k, v) # filter (\<lambda>e. fst e \<noteq> lower k) c) c m = rev m @ c" if "fst ` set c \<inter> fst ` set m = {}" for c
    using assms that
  proof (induction m arbitrary: c)
    case (Cons e m)
    obtain k v where e: "e = (k, v)" by (cases e)
    have "filter (\<lambda>e. fst e \<noteq> k) c = c" using Cons.prems(2) by (auto simp: e filter_id_conv)
    moreover have "fst ` set ((k, v) # c) \<inter> fst ` set m = {}" "metadata_wf lower m" "lower k = k"
      using Cons.prems by (auto simp: e metadata_wf_def)
    ultimately show ?case using Cons.IH [of "(k, v) # c"] by (simp add: e)
  qed simp
  from this [of "[]"] show ?thesis by (simp add: NewMetadata_def)
qed

section \<open>The encoding is prefix free\<close>

lemma varint_bytes_prefix_free:
  assumes "varint_bytes v @ xs = varint_bytes w @ ys"
  shows "v = w \<and> xs = ys"
proof -
  have "ConsumeVarint (varint_bytes v @ xs) 0 = Inr (v, 0 + int (Sov v))" by (rule ConsumeVarint_bytes) simp_all
  moreover have "ConsumeVarint (varint_bytes v @ xs) 0 = Inr (w, 0 + int (Sov w))"
    unfolding assms by (rule ConsumeVarint_bytes) simp_all
  ultimately have "v = w" by simp
  then show ?thesis using assms by simp
qed

definition value_code :: "byte list \<Rightarrow> byte list" where
  "value_code v = varint_bytes (of_nat (length v)) @ v"

definition values_code :: "byte list list \<Rightarrow> byte list" where
  "values_code vs = varint_bytes (of_nat (length vs)) @ concat (map value_code vs)"

definition short :: "byte list list \<Rightarrow> bool" where
  "short vs \<longleftrightarrow> length vs < 2 ^ 64 \<and> list_all (\<lambda>v. length v < 2 ^ 64) vs"

lemma of_nat_u64_inject:
  assumes "m < 2 ^ 64" "n < 2 ^ 64" "(of_nat m :: u64) = of_nat n"
  shows "m = n"
proof -
  have cut: "unat (of_nat k :: u64) = take_bit 64 k" for k by (simp add: unsigned_of_nat)
  have "take_bit 64 m = take_bit 64 n" using arg_cong [OF assms(3), of unat] unfolding cut .
  from this [unfolded take_bit_nat_eq_self [OF assms(1)] take_bit_nat_eq_self [OF assms(2)]] show ?thesis .
qed

lemma value_code_prefix_free:
  assumes "length v < 2 ^ 64" "length w < 2 ^ 64" "value_code v @ xs = value_code w @ ys"
  shows "v = w \<and> xs = ys"
proof -
  have "(of_nat (length v) :: u64) = of_nat (length w)" "v @ xs = w @ ys"
    using varint_bytes_prefix_free assms(3) unfolding value_code_def append_assoc by blast+
  moreover from this(1) have "length v = length w" using assms(1,2) by (intro of_nat_u64_inject)
  ultimately show ?thesis by simp
qed

lemma value_list_prefix_free:
  assumes "length vs = length ws" "list_all (\<lambda>v. length v < 2 ^ 64) vs" "list_all (\<lambda>v. length v < 2 ^ 64) ws"
    and "concat (map value_code vs) @ xs = concat (map value_code ws) @ ys"
  shows "vs = ws \<and> xs = ys"
  using assms
proof (induction vs ws rule: list_induct2)
  case (Cons v vs w ws)
  have "v = w \<and> concat (map value_code vs) @ xs = concat (map value_code ws) @ ys"
    by (rule value_code_prefix_free) (use Cons.prems in simp_all)
  then show ?case using Cons.IH Cons.prems by simp
qed simp

lemma values_code_prefix_free:
  assumes "short vs" "short ws" "values_code vs @ xs = values_code ws @ ys"
  shows "vs = ws \<and> xs = ys"
proof -
  have "(of_nat (length vs) :: u64) = of_nat (length ws)"
    and rest: "concat (map value_code vs) @ xs = concat (map value_code ws) @ ys"
    using varint_bytes_prefix_free assms(3) unfolding values_code_def append_assoc by blast+
  then have "length vs = length ws" using assms(1,2) by (intro of_nat_u64_inject) (simp_all add: short_def)
  moreover have "list_all (\<lambda>v. length v < 2 ^ 64) vs" "list_all (\<lambda>v. length v < 2 ^ 64) ws"
    using assms(1,2) unfolding short_def by blast+
  ultimately show ?thesis using rest by (rule value_list_prefix_free)
qed

lemma append_values_code: "append_values kb vs = kb @ values_code vs"
proof -
  have "foldl append_value acc vs = acc @ concat (map value_code vs)" for acc
    by (induction vs arbitrary: acc) (simp_all add: append_value_def AppendUvarint_def value_code_def)
  then show ?thesis by (simp add: append_values_def AppendUvarint_def values_code_def)
qed

lemma GetKey_code: "GetKey lower keys meta = concat (map (\<lambda>k. values_code (Metadata_Get lower meta k)) keys)"
proof -
  have "foldl (\<lambda>kb k. append_values kb (Metadata_Get lower meta k)) acc keys =
      acc @ concat (map (\<lambda>k. values_code (Metadata_Get lower meta k)) keys)" for acc
    by (induction keys arbitrary: acc) (simp_all add: append_values_code)
  then show ?thesis by (simp add: GetKey_def)
qed

lemma code_list_inject:
  assumes "list_all (\<lambda>k. short (f k) \<and> short (g k)) keys"
    and "concat (map (\<lambda>k. values_code (f k)) keys) = concat (map (\<lambda>k. values_code (g k)) keys)"
  shows "map f keys = map g keys"
  using assms
proof (induction keys)
  case (Cons k keys)
  have "f k = g k \<and> concat (map (\<lambda>k. values_code (f k)) keys) = concat (map (\<lambda>k. values_code (g k)) keys)"
    by (rule values_code_prefix_free) (use Cons.prems in simp_all)
  then show ?case using Cons by simp
qed simp

section \<open>Properties\<close>

text \<open>
  C23. Two requests are in the same partition exactly if their clients sent the same values for every configured
  key: the counts and lengths in the partition key separate all values, so no choice of values can collide with
  another. The lengths are those of Go values, below \<open>2^64\<close>.
\<close>

theorem partition_key_separates_values:
  assumes "list_all (\<lambda>k. short (Metadata_Get lower m1 k) \<and> short (Metadata_Get lower m2 k)) keys"
  shows "GetKey lower keys m1 = GetKey lower keys m2 \<longleftrightarrow>
    map (Metadata_Get lower m1) keys = map (Metadata_Get lower m2) keys"
proof
  assume "GetKey lower keys m1 = GetKey lower keys m2"
  then show "map (Metadata_Get lower m1) keys = map (Metadata_Get lower m2) keys"
    using code_list_inject [OF assms] by (simp add: GetKey_code)
next
  assume "map (Metadata_Get lower m1) keys = map (Metadata_Get lower m2) keys"
  from arg_cong [OF this, of "\<lambda>vss. concat (map values_code vss)"]
  show "GetKey lower keys m1 = GetKey lower keys m2" unfolding GetKey_code map_map comp_def .
qed

theorem partition_key_separates_values_witness:
  "(GetKey id [[1]] [([1], [[2], [3]])] = GetKey id [[1]] [([1], [[2, 3]])]) =
   (map (Metadata_Get id [([1], [[2], [3]])]) [[1]] = map (Metadata_Get id [([1], [[2, 3]])]) [[1]])"
  by (rule partition_key_separates_values) (simp add: short_def Metadata_Get_def)

end
