(* ===== verification/RequestPayload.thy ===== *)
theory RequestPayload
  imports ProfilesReferences PartitionKey
begin

text \<open>
  What the persistent queue stores for a request: \<^verbatim>\<open>pdata/xpdata/request\<close>, which wraps the data of a signal and the
  context of the call into one message with a format version, and the \<^verbatim>\<open>Encoding\<close>s of \<^verbatim>\<open>queuebatch\<close> and
  \<^verbatim>\<open>xexporterhelper\<close> on top of it, which fall back to data without a context.

  The tracing package is a third-party one: span contexts are a type argument and its functions are the record
  \<open>trace_api\<close>; \<open>trace_laws\<close> states what the round trip relies on. A context holds a span context and what
  \<^verbatim>\<open>client.NewContext\<close> put into it. Metadata is as in \<open>PartitionKey\<close>. \<open>None\<close> in a decoded result is a dereference of nil.
\<close>

section \<open>Contexts\<close>

record ('sc, 'ts) trace_api =
  sc_IsValid :: "'sc \<Rightarrow> bool"
  sc_TraceID :: "'sc \<Rightarrow> TraceID"
  sc_SpanID :: "'sc \<Rightarrow> SpanID"
  sc_TraceFlags :: "'sc \<Rightarrow> byte"
  sc_TraceState :: "'sc \<Rightarrow> 'ts"
  sc_IsRemote :: "'sc \<Rightarrow> bool"
  ts_String :: "'ts \<Rightarrow> byte list"
  ParseTraceState :: "byte list \<Rightarrow> 'ts"
  NewSpanContext :: "TraceID \<Rightarrow> SpanID \<Rightarrow> byte \<Rightarrow> 'ts \<Rightarrow> bool \<Rightarrow> 'sc"
  no_span :: 'sc

definition trace_laws :: "('sc, 'ts) trace_api \<Rightarrow> bool" where
  "trace_laws T \<longleftrightarrow>
     (\<forall>sc. NewSpanContext T (sc_TraceID T sc) (sc_SpanID T sc) (sc_TraceFlags T sc) (sc_TraceState T sc) (sc_IsRemote T sc) = sc) \<and>
     (\<forall>ts. ParseTraceState T (ts_String T ts) = ts)"

datatype net_Addr =
    net_IPAddr "byte list" "byte list"
  | net_TCPAddr "byte list" u64 "byte list"
  | net_UDPAddr "byte list" u64 "byte list"
  | net_UnixAddr "byte list" "byte list"
  | net_other "byte list"

record 'a Info =
  Addr :: "net_Addr option"
  Auth :: "'a option"
  Metadata :: metadata

record ('sc, 'a) Context =
  ctx_span :: 'sc
  ctx_info :: "'a Info option"

definition Background :: "('sc, 'ts) trace_api \<Rightarrow> ('sc, 'a) Context" where
  "Background T = \<lparr>ctx_span = no_span T, ctx_info = None\<rparr>"

definition NewContext :: "('sc, 'a) Context \<Rightarrow> 'a Info \<Rightarrow> ('sc, 'a) Context" where
  "NewContext ctx c = ctx\<lparr>ctx_info := Some c\<rparr>"

definition FromContext :: "('sc, 'a) Context \<Rightarrow> 'a Info" where
  "FromContext ctx = (case ctx_info ctx of Some c \<Rightarrow> c | None \<Rightarrow> \<lparr>Addr = None, Auth = None, Metadata = []\<rparr>)"

definition encodeSpanContext :: "('sc, 'ts) trace_api \<Rightarrow> ('sc, 'a) Context \<Rightarrow> RequestContext \<Rightarrow> RequestContext" where
  "encodeSpanContext T ctx rc =
     (let spanCtx = ctx_span ctx
      in if \<not> sc_IsValid T spanCtx then rc
         else rc\<lparr>RequestContext_SpanContext := Some \<lparr>
           SpanContext_TraceState = ts_String T (sc_TraceState T spanCtx),
           SpanContext_TraceFlags = ucast (sc_TraceFlags T spanCtx),
           SpanContext_TraceID = sc_TraceID T spanCtx,
           SpanContext_SpanID = sc_SpanID T spanCtx,
           SpanContext_Remote = sc_IsRemote T spanCtx\<rparr>\<rparr>)"

definition encode_values :: "byte list \<Rightarrow> byte list list \<Rightarrow> KeyValue" where
  "encode_values k vals =
     (if length vals = 1 then KeyValue k (StringValue (vals ! 0)) 0
      else KeyValue k (ArrayValue (Some (ArrayValues (map StringValue vals)))) 0)"

definition encodeClientMetadata :: "(byte list \<Rightarrow> byte list) \<Rightarrow> ('sc, 'a) Context \<Rightarrow> RequestContext \<Rightarrow> RequestContext" where
  "encodeClientMetadata lower ctx rc =
     (let clientMetadata = Metadata (FromContext ctx)
      in rc\<lparr>RequestContext_ClientMetadata := RequestContext_ClientMetadata rc @
           map (\<lambda>k. encode_values k (Metadata_Get lower clientMetadata k)) (map fst clientMetadata)\<rparr>)"

definition encodeClientAddress :: "('sc, 'a) Context \<Rightarrow> RequestContext \<Rightarrow> RequestContext" where
  "encodeClientAddress ctx rc =
     (case Addr (FromContext ctx) of
        Some (net_IPAddr ip zone) \<Rightarrow>
          rc\<lparr>RequestContext_ClientAddress := RequestContext_IP (Some \<lparr>IPAddr_Zone = zone, IPAddr_IP = ip\<rparr>)\<rparr>
      | Some (net_TCPAddr ip port zone) \<Rightarrow>
          rc\<lparr>RequestContext_ClientAddress := RequestContext_TCP (Some \<lparr>TCPAddr_Zone = zone, TCPAddr_IP = ip, TCPAddr_Port = port\<rparr>)\<rparr>
      | Some (net_UDPAddr ip port zone) \<Rightarrow>
          rc\<lparr>RequestContext_ClientAddress := RequestContext_UDP (Some \<lparr>UDPAddr_Zone = zone, UDPAddr_IP = ip, UDPAddr_Port = port\<rparr>)\<rparr>
      | Some (net_UnixAddr name net) \<Rightarrow>
          rc\<lparr>RequestContext_ClientAddress := RequestContext_Unix (Some \<lparr>UnixAddr_Name = name, UnixAddr_Net = net\<rparr>)\<rparr>
      | Some (net_other _) \<Rightarrow> rc
      | None \<Rightarrow> rc)"

definition encodeContext :: "('sc, 'ts) trace_api \<Rightarrow> (byte list \<Rightarrow> byte list) \<Rightarrow> ('sc, 'a) Context \<Rightarrow> RequestContext" where
  "encodeContext T lower ctx = encodeClientAddress ctx (encodeClientMetadata lower ctx (encodeSpanContext T ctx RequestContext_zero))"

definition decodeSpanContext :: "('sc, 'ts) trace_api \<Rightarrow> ('sc, 'a) Context \<Rightarrow> SpanContext option \<Rightarrow> ('sc, 'a) Context" where
  "decodeSpanContext T ctx sc =
     (case sc of
        None \<Rightarrow> ctx
      | Some sc \<Rightarrow> (Background T)\<lparr>ctx_span := NewSpanContext T (SpanContext_TraceID sc) (SpanContext_SpanID sc)
          (ucast (SpanContext_TraceFlags sc)) (ParseTraceState T (SpanContext_TraceState sc)) (SpanContext_Remote sc)\<rparr>)"

definition GetStringValue :: "AnyValue \<Rightarrow> byte list" where
  "GetStringValue v = (case v of StringValue s \<Rightarrow> s | _ \<Rightarrow> [])"

fun decodeClientMetadata_loop :: "KeyValue list \<Rightarrow> metadata \<Rightarrow> metadata option" where
  "decodeClientMetadata_loop [] m = Some m"
| "decodeClientMetadata_loop (KeyValue k v i # kvs) m =
     (case v of
        StringValue s \<Rightarrow> decodeClientMetadata_loop kvs ((k, [s]) # filter (\<lambda>e. fst e \<noteq> k) m)
      | ArrayValue None \<Rightarrow> None
      | ArrayValue (Some (ArrayValues vs)) \<Rightarrow>
          decodeClientMetadata_loop kvs ((k, map GetStringValue vs) # filter (\<lambda>e. fst e \<noteq> k) m)
      | _ \<Rightarrow> decodeClientMetadata_loop kvs m)"

definition decodeClientMetadata :: "KeyValue list \<Rightarrow> metadata option" where
  "decodeClientMetadata kvs = (if length kvs = 0 then Some [] else decodeClientMetadata_loop kvs [])"

fun decodeClientAddress :: "RequestContext_ClientAddress \<Rightarrow> net_Addr option option" where
  "decodeClientAddress (RequestContext_IP (Some a)) = Some (Some (net_IPAddr (IPAddr_IP a) (IPAddr_Zone a)))"
| "decodeClientAddress (RequestContext_TCP (Some a)) = Some (Some (net_TCPAddr (TCPAddr_IP a) (TCPAddr_Port a) (TCPAddr_Zone a)))"
| "decodeClientAddress (RequestContext_UDP (Some a)) = Some (Some (net_UDPAddr (UDPAddr_IP a) (UDPAddr_Port a) (UDPAddr_Zone a)))"
| "decodeClientAddress (RequestContext_Unix (Some a)) = Some (Some (net_UnixAddr (UnixAddr_Name a) (UnixAddr_Net a)))"
| "decodeClientAddress RequestContext_ClientAddress_None = Some None"
| "decodeClientAddress _ = None"

definition decodeContext ::
  "('sc, 'ts) trace_api \<Rightarrow> (byte list \<Rightarrow> byte list) \<Rightarrow> ('sc, 'a) Context \<Rightarrow> RequestContext option \<Rightarrow> ('sc, 'a) Context option" where
  "decodeContext T lower ctx rc =
     (case rc of
        None \<Rightarrow> Some ctx
      | Some rc \<Rightarrow>
          let ctx1 = decodeSpanContext T ctx (RequestContext_SpanContext rc)
          in case decodeClientMetadata (RequestContext_ClientMetadata rc) of
               None \<Rightarrow> None
             | Some metadataMap \<Rightarrow>
                 (case decodeClientAddress (RequestContext_ClientAddress rc) of
                    None \<Rightarrow> None
                  | Some clientAddress \<Rightarrow>
                      if length metadataMap > 0 \<or> clientAddress \<noteq> None
                      then Some (NewContext ctx1 \<lparr>Addr = clientAddress, Auth = None, Metadata = NewMetadata lower metadataMap\<rparr>)
                      else Some ctx1))"

section \<open>Payloads\<close>

datatype payload_error = ErrInvalidFormat | FailedToUnmarshal proto_error | PayloadDict dict_error

definition requestFormatVersion :: "32 word" where
  "requestFormatVersion = 1"

definition isRequestPayloadV1 :: "byte list \<Rightarrow> bool" where
  "isRequestPayloadV1 data \<longleftrightarrow>
     (if length data < 5 then False
      else if data ! 0 \<noteq> 0x0D then False
      else of_nat (little_endian (take 4 (drop 1 data))) = requestFormatVersion)"

text \<open>
  Reading a payload with the message reader \<open>read\<close>, and the fallback of the encodings to data without a context, on
  \<^verbatim>\<open>errors.Is(err, pdatareq.ErrInvalidFormat)\<close>.
\<close>

definition read_payload ::
  "('sc, 'ts) trace_api \<Rightarrow> (byte list \<Rightarrow> byte list) \<Rightarrow> (byte list \<Rightarrow> (RequestContext option \<times> 'd) unmarshalled) \<Rightarrow> byte list \<Rightarrow>
   (payload_error, ('sc, 'a) Context \<times> 'd) result option" where
  "read_payload T lower read buf =
     (if \<not> isRequestPayloadV1 buf then Some (Err ErrInvalidFormat)
      else case read buf of
             None \<Rightarrow> None
           | Some (Inl e) \<Rightarrow> Some (Err (FailedToUnmarshal e))
           | Some (Inr (rc, v)) \<Rightarrow> map_option (\<lambda>ctx. Ok (ctx, v)) (decodeContext T lower (Background T) rc))"

definition fall_back ::
  "('sc, 'ts) trace_api \<Rightarrow> (payload_error, ('sc, 'a) Context \<times> 'd) result option \<Rightarrow> (payload_error, 'd) result option \<Rightarrow>
   (payload_error, ('sc, 'a) Context \<times> 'd) result option" where
  "fall_back T read bare =
     (if read = Some (Err ErrInvalidFormat) then map_option (map_sum id (Pair (Background T))) bare else read)"

subsection \<open>Logs\<close>

definition LogsToProto :: "ExportLogsServiceRequest \<Rightarrow> LogsData" where
  "LogsToProto ld = \<lparr>LogsData_ResourceLogs = ExportLogsServiceRequest_ResourceLogs ld\<rparr>"

definition LogsFromProto :: "LogsData \<Rightarrow> ExportLogsServiceRequest" where
  "LogsFromProto orig = \<lparr>ExportLogsServiceRequest_ResourceLogs = LogsData_ResourceLogs orig\<rparr>"

definition logs_request :: "RequestContext \<Rightarrow> ExportLogsServiceRequest \<Rightarrow> LogsRequest" where
  "logs_request rc ld = \<lparr>LogsRequest_RequestContext = Some rc, LogsRequest_LogsData = LogsToProto ld,
     LogsRequest_FormatVersion = requestFormatVersion\<rparr>"

definition write_logs :: "RequestContext \<Rightarrow> ExportLogsServiceRequest \<Rightarrow> byte list option" where
  "write_logs rc ld = marshal_new (LogsRequest_SizeProto (logs_request rc ld)) (LogsRequest_MarshalProto (logs_request rc ld))"

definition read_logs :: "byte list \<Rightarrow> (RequestContext option \<times> ExportLogsServiceRequest) unmarshalled" where
  "read_logs buf = map_option (map_sum id (\<lambda>r. (LogsRequest_RequestContext r, LogsFromProto (LogsRequest_LogsData r))))
     (LogsRequest_UnmarshalProto buf LogsRequest_zero)"

definition request_MarshalLogs ::
  "('sc, 'ts) trace_api \<Rightarrow> (byte list \<Rightarrow> byte list) \<Rightarrow> ('sc, 'a) Context \<Rightarrow> ExportLogsServiceRequest \<Rightarrow> byte list option" where
  "request_MarshalLogs T lower ctx ld = write_logs (encodeContext T lower ctx) ld"

definition request_UnmarshalLogs ::
  "('sc, 'ts) trace_api \<Rightarrow> (byte list \<Rightarrow> byte list) \<Rightarrow> byte list \<Rightarrow> (payload_error, ('sc, 'a) Context \<times> ExportLogsServiceRequest) result option" where
  "request_UnmarshalLogs T lower buf = read_payload T lower read_logs buf"

definition logsEncoding_Marshal ::
  "('sc, 'ts) trace_api \<Rightarrow> (byte list \<Rightarrow> byte list) \<Rightarrow> ('sc, 'a) Context \<Rightarrow> ExportLogsServiceRequest \<Rightarrow> byte list option" where
  "logsEncoding_Marshal T lower ctx ld = request_MarshalLogs T lower ctx ld"

definition logsEncoding_Unmarshal ::
  "('sc, 'ts) trace_api \<Rightarrow> (byte list \<Rightarrow> byte list) \<Rightarrow> byte list \<Rightarrow> (payload_error, ('sc, 'a) Context \<times> ExportLogsServiceRequest) result option" where
  "logsEncoding_Unmarshal T lower bytes = fall_back T (request_UnmarshalLogs T lower bytes)
     (map_option (map_sum FailedToUnmarshal id) (plog_UnmarshalLogs bytes))"

subsection \<open>Traces\<close>

definition TracesToProto :: "ExportTraceServiceRequest \<Rightarrow> TracesData" where
  "TracesToProto td = \<lparr>TracesData_ResourceSpans = ExportTraceServiceRequest_ResourceSpans td\<rparr>"

definition TracesFromProto :: "TracesData \<Rightarrow> ExportTraceServiceRequest" where
  "TracesFromProto orig = \<lparr>ExportTraceServiceRequest_ResourceSpans = TracesData_ResourceSpans orig\<rparr>"

definition traces_request :: "RequestContext \<Rightarrow> ExportTraceServiceRequest \<Rightarrow> TracesRequest" where
  "traces_request rc td = \<lparr>TracesRequest_RequestContext = Some rc, TracesRequest_TracesData = TracesToProto td,
     TracesRequest_FormatVersion = requestFormatVersion\<rparr>"

definition write_traces :: "RequestContext \<Rightarrow> ExportTraceServiceRequest \<Rightarrow> byte list option" where
  "write_traces rc td = marshal_new (TracesRequest_SizeProto (traces_request rc td)) (TracesRequest_MarshalProto (traces_request rc td))"

definition read_traces :: "byte list \<Rightarrow> (RequestContext option \<times> ExportTraceServiceRequest) unmarshalled" where
  "read_traces buf = map_option (map_sum id (\<lambda>r. (TracesRequest_RequestContext r, TracesFromProto (TracesRequest_TracesData r))))
     (TracesRequest_UnmarshalProto buf TracesRequest_zero)"

definition request_MarshalTraces ::
  "('sc, 'ts) trace_api \<Rightarrow> (byte list \<Rightarrow> byte list) \<Rightarrow> ('sc, 'a) Context \<Rightarrow> ExportTraceServiceRequest \<Rightarrow> byte list option" where
  "request_MarshalTraces T lower ctx td = write_traces (encodeContext T lower ctx) td"

definition request_UnmarshalTraces ::
  "('sc, 'ts) trace_api \<Rightarrow> (byte list \<Rightarrow> byte list) \<Rightarrow> byte list \<Rightarrow> (payload_error, ('sc, 'a) Context \<times> ExportTraceServiceRequest) result option" where
  "request_UnmarshalTraces T lower buf = read_payload T lower read_traces buf"

definition tracesEncoding_Marshal ::
  "('sc, 'ts) trace_api \<Rightarrow> (byte list \<Rightarrow> byte list) \<Rightarrow> ('sc, 'a) Context \<Rightarrow> ExportTraceServiceRequest \<Rightarrow> byte list option" where
  "tracesEncoding_Marshal T lower ctx td = request_MarshalTraces T lower ctx td"

definition tracesEncoding_Unmarshal ::
  "('sc, 'ts) trace_api \<Rightarrow> (byte list \<Rightarrow> byte list) \<Rightarrow> byte list \<Rightarrow> (payload_error, ('sc, 'a) Context \<times> ExportTraceServiceRequest) result option" where
  "tracesEncoding_Unmarshal T lower bytes = fall_back T (request_UnmarshalTraces T lower bytes)
     (map_option (map_sum FailedToUnmarshal id) (ptrace_UnmarshalTraces bytes))"

subsection \<open>Metrics\<close>

definition MetricsToProto :: "ExportMetricsServiceRequest \<Rightarrow> MetricsData" where
  "MetricsToProto md = \<lparr>MetricsData_ResourceMetrics = ExportMetricsServiceRequest_ResourceMetrics md\<rparr>"

definition MetricsFromProto :: "MetricsData \<Rightarrow> ExportMetricsServiceRequest" where
  "MetricsFromProto orig = \<lparr>ExportMetricsServiceRequest_ResourceMetrics = MetricsData_ResourceMetrics orig\<rparr>"

definition metrics_request :: "RequestContext \<Rightarrow> ExportMetricsServiceRequest \<Rightarrow> MetricsRequest" where
  "metrics_request rc md = \<lparr>MetricsRequest_RequestContext = Some rc, MetricsRequest_MetricsData = MetricsToProto md,
     MetricsRequest_FormatVersion = requestFormatVersion\<rparr>"

definition write_metrics :: "RequestContext \<Rightarrow> ExportMetricsServiceRequest \<Rightarrow> byte list option" where
  "write_metrics rc md = marshal_new (MetricsRequest_SizeProto (metrics_request rc md)) (MetricsRequest_MarshalProto (metrics_request rc md))"

definition read_metrics :: "byte list \<Rightarrow> (RequestContext option \<times> ExportMetricsServiceRequest) unmarshalled" where
  "read_metrics buf = map_option (map_sum id (\<lambda>r. (MetricsRequest_RequestContext r, MetricsFromProto (MetricsRequest_MetricsData r))))
     (MetricsRequest_UnmarshalProto buf MetricsRequest_zero)"

definition request_MarshalMetrics ::
  "('sc, 'ts) trace_api \<Rightarrow> (byte list \<Rightarrow> byte list) \<Rightarrow> ('sc, 'a) Context \<Rightarrow> ExportMetricsServiceRequest \<Rightarrow> byte list option" where
  "request_MarshalMetrics T lower ctx md = write_metrics (encodeContext T lower ctx) md"

definition request_UnmarshalMetrics ::
  "('sc, 'ts) trace_api \<Rightarrow> (byte list \<Rightarrow> byte list) \<Rightarrow> byte list \<Rightarrow> (payload_error, ('sc, 'a) Context \<times> ExportMetricsServiceRequest) result option" where
  "request_UnmarshalMetrics T lower buf = read_payload T lower read_metrics buf"

definition metricsEncoding_Marshal ::
  "('sc, 'ts) trace_api \<Rightarrow> (byte list \<Rightarrow> byte list) \<Rightarrow> ('sc, 'a) Context \<Rightarrow> ExportMetricsServiceRequest \<Rightarrow> byte list option" where
  "metricsEncoding_Marshal T lower ctx md = request_MarshalMetrics T lower ctx md"

definition metricsEncoding_Unmarshal ::
  "('sc, 'ts) trace_api \<Rightarrow> (byte list \<Rightarrow> byte list) \<Rightarrow> byte list \<Rightarrow> (payload_error, ('sc, 'a) Context \<times> ExportMetricsServiceRequest) result option" where
  "metricsEncoding_Unmarshal T lower bytes = fall_back T (request_UnmarshalMetrics T lower bytes)
     (map_option (map_sum FailedToUnmarshal id) (pmetric_UnmarshalMetrics bytes))"

subsection \<open>Profiles\<close>

definition ProfilesToProto :: "ExportProfilesServiceRequest \<Rightarrow> ProfilesData" where
  "ProfilesToProto pd = \<lparr>ProfilesData_ResourceProfiles = ExportProfilesServiceRequest_ResourceProfiles pd, ProfilesData_Dictionary = ExportProfilesServiceRequest_Dictionary pd\<rparr>"

definition ProfilesFromProto :: "ProfilesData \<Rightarrow> ExportProfilesServiceRequest" where
  "ProfilesFromProto orig = \<lparr>ExportProfilesServiceRequest_ResourceProfiles = ProfilesData_ResourceProfiles orig,
     ExportProfilesServiceRequest_Dictionary = ProfilesData_Dictionary orig\<rparr>"

definition profiles_request :: "RequestContext \<Rightarrow> ExportProfilesServiceRequest \<Rightarrow> ProfilesRequest" where
  "profiles_request rc pd = \<lparr>ProfilesRequest_RequestContext = Some rc, ProfilesRequest_ProfilesData = ProfilesToProto pd,
     ProfilesRequest_FormatVersion = requestFormatVersion\<rparr>"

definition write_profiles :: "RequestContext \<Rightarrow> ExportProfilesServiceRequest \<Rightarrow> byte list option" where
  "write_profiles rc pd = marshal_new (ProfilesRequest_SizeProto (profiles_request rc pd)) (ProfilesRequest_MarshalProto (profiles_request rc pd))"

definition read_profiles :: "byte list \<Rightarrow> (RequestContext option \<times> ExportProfilesServiceRequest) unmarshalled" where
  "read_profiles buf = map_option (map_sum id (\<lambda>r. (ProfilesRequest_RequestContext r, ProfilesFromProto (ProfilesRequest_ProfilesData r))))
     (ProfilesRequest_UnmarshalProto buf ProfilesRequest_zero)"

definition request_MarshalProfiles ::
  "('sc, 'ts) trace_api \<Rightarrow> (byte list \<Rightarrow> byte list) \<Rightarrow> ('sc, 'a) Context \<Rightarrow> ExportProfilesServiceRequest \<Rightarrow> byte list option" where
  "request_MarshalProfiles T lower ctx pd = write_profiles (encodeContext T lower ctx) pd"

definition request_UnmarshalProfiles ::
  "('sc, 'ts) trace_api \<Rightarrow> (byte list \<Rightarrow> byte list) \<Rightarrow> byte list \<Rightarrow> (payload_error, ('sc, 'a) Context \<times> ExportProfilesServiceRequest) result option" where
  "request_UnmarshalProfiles T lower buf = read_payload T lower read_profiles buf"

definition profilesEncoding_Marshal ::
  "('sc, 'ts) trace_api \<Rightarrow> (byte list \<Rightarrow> byte list) \<Rightarrow> ('sc, 'a) Context \<Rightarrow> ExportProfilesServiceRequest \<Rightarrow> byte list option" where
  "profilesEncoding_Marshal T lower ctx pd = request_MarshalProfiles T lower ctx pd"

definition profilesEncoding_Unmarshal ::
  "('sc, 'ts) trace_api \<Rightarrow> (byte list \<Rightarrow> byte list) \<Rightarrow> byte list \<Rightarrow> (payload_error, ('sc, 'a) Context \<times> ExportProfilesServiceRequest) result option" where
  "profilesEncoding_Unmarshal T lower bytes = fall_back T (request_UnmarshalProfiles T lower bytes)
     (map_option (map_sum (\<lambda>e. case e of ProtoError e \<Rightarrow> FailedToUnmarshal e | DictError e \<Rightarrow> PayloadDict e) id)
       (pprofile_UnmarshalProfiles bytes))"

section \<open>Contexts are restored\<close>

text \<open>
  What is left of a context: a valid span context, an address of one of the four known kinds and the metadata; the
  authentication data is not stored.
\<close>

definition known_addr :: "net_Addr option \<Rightarrow> net_Addr option" where
  "known_addr a = (case a of Some (net_other _) \<Rightarrow> None | _ \<Rightarrow> a)"

definition restored :: "('sc, 'ts) trace_api \<Rightarrow> (byte list \<Rightarrow> byte list) \<Rightarrow> ('sc, 'a) Context \<Rightarrow> ('sc, 'a) Context \<Rightarrow> bool" where
  "restored T lower ctx ctx' \<longleftrightarrow>
     ctx_span ctx' = (if sc_IsValid T (ctx_span ctx) then ctx_span ctx else no_span T) \<and>
     Addr (FromContext ctx') = known_addr (Addr (FromContext ctx)) \<and>
     Auth (FromContext ctx') = None \<and>
     Metadata_Get lower (Metadata (FromContext ctx')) = Metadata_Get lower (Metadata (FromContext ctx))"

lemma encodeContext_fields:
  "RequestContext_SpanContext (encodeContext T lower ctx) = RequestContext_SpanContext (encodeSpanContext T ctx RequestContext_zero)"
  "RequestContext_ClientMetadata (encodeContext T lower ctx) =
     map (\<lambda>k. encode_values k (Metadata_Get lower (Metadata (FromContext ctx)) k)) (map fst (Metadata (FromContext ctx)))"
  "RequestContext_ClientAddress (encodeContext T lower ctx) = RequestContext_ClientAddress (encodeClientAddress ctx RequestContext_zero)"
  by (auto simp: encodeContext_def encodeClientAddress_def encodeClientMetadata_def encodeSpanContext_def RequestContext_zero_def Let_def
      split: option.split net_Addr.split)

lemma encode_values_wf: "KeyValue_wf (encode_values k vals)"
  by (auto simp: encode_values_def KeyValue_wf_def RecursionLimit_def list_all_iff intro!: order_trans [OF Max.boundedI [of _ 1]])

lemma encodeContext_wf: "RequestContext_wf (encodeContext T lower ctx)"
  by (auto simp: RequestContext_wf_def encodeContext_fields list_all_iff encode_values_wf encodeClientAddress_def RequestContext_zero_def
      split: option.split net_Addr.split)

lemma decode_encoded_address:
  "decodeClientAddress (RequestContext_ClientAddress (encodeClientAddress ctx RequestContext_zero)) = Some (known_addr (Addr (FromContext ctx)))"
  by (auto simp: encodeClientAddress_def RequestContext_zero_def known_addr_def split: option.split net_Addr.split)

lemma flags_widened: "ucast (ucast (b :: byte) :: 32 word) = b"
  by (intro bit_word_eqI) (simp add: bit_ucast_iff)

lemma decode_encoded_span:
  "trace_laws T \<Longrightarrow> decodeSpanContext T (Background T) (RequestContext_SpanContext (encodeSpanContext T ctx RequestContext_zero)) =
     (Background T)\<lparr>ctx_span := if sc_IsValid T (ctx_span ctx) then ctx_span ctx else no_span T\<rparr>"
  by (simp add: decodeSpanContext_def encodeSpanContext_def trace_laws_def RequestContext_zero_def Background_def Let_def flags_widened)

lemma decode_values: "decodeClientMetadata_loop (encode_values k vals # kvs) m = decodeClientMetadata_loop kvs ((k, vals) # filter (\<lambda>e. fst e \<noteq> k) m)"
  by (cases vals rule: list.exhaust [case_names Nil Cons]; cases "tl vals")
    (auto simp: encode_values_def GetStringValue_def comp_def)

lemma decode_encoded_loop:
  assumes "distinct ks" "fst ` set m \<inter> set ks = {}"
  shows "decodeClientMetadata_loop (map (\<lambda>k. encode_values k (g k)) ks) m = Some (rev (map (\<lambda>k. (k, g k)) ks) @ m)"
  using assms
proof (induction ks arbitrary: m)
  case (Cons k ks)
  have "filter (\<lambda>e. fst e \<noteq> k) m = m" using Cons.prems(2) by (auto simp: filter_id_conv)
  then show ?case using Cons by (simp add: decode_values)
qed simp

lemma decode_encoded_metadata:
  assumes "distinct (map fst m)"
  shows "decodeClientMetadata (map (\<lambda>k. encode_values k (g k)) (map fst m)) = Some (rev (map (\<lambda>k. (k, g k)) (map fst m)))"
  using decode_encoded_loop [OF assms, of "[]" g] by (simp add: decodeClientMetadata_def)

lemma map_of_keys: "map_of (map (\<lambda>k. (k, g k)) (map fst m)) k = (if k \<in> fst ` set m then Some (g k) else None)"
  by (induction m) auto

lemma Metadata_Get_rebuilt:
  assumes "metadata_wf lower m"
  shows "Metadata_Get lower (map (\<lambda>k. (k, Metadata_Get lower m k)) (map fst m)) = Metadata_Get lower m"
proof
  fix key
  note map_of_keys [of "Metadata_Get lower m" m "lower key"]
  moreover have "lower (lower key) = lower key" if "lower key \<in> fst ` set m"
    using that assms by (auto simp: metadata_wf_def list_all_iff)
  moreover have "map_of m (lower key) = None" if "lower key \<notin> fst ` set m"
    using that by (simp add: map_of_eq_None_iff)
  ultimately show "Metadata_Get lower (map (\<lambda>k. (k, Metadata_Get lower m k)) (map fst m)) key = Metadata_Get lower m key"
    by (auto simp: Metadata_Get_def)
qed

lemma context_restored:
  assumes "trace_laws T" "metadata_wf lower (Metadata (FromContext ctx))"
  shows "\<exists>ctx'. decodeContext T lower (Background T) (Some (encodeContext T lower ctx)) = Some ctx' \<and> restored T lower ctx ctx'"
proof -
  define m where "m = Metadata (FromContext ctx)"
  define m' where "m' = map (\<lambda>k. (k, Metadata_Get lower m k)) (map fst m)"
  define ctx1 :: "('a, 'c) Context" where
    "ctx1 = (Background T)\<lparr>ctx_span := if sc_IsValid T (ctx_span ctx) then ctx_span ctx else no_span T\<rparr>"
  define a where "a = known_addr (Addr (FromContext ctx))"
  have wf: "metadata_wf lower m" using assms(2) by (simp add: m_def)
  then have d: "distinct (map fst m)" "metadata_wf lower (rev m')"
    by (auto simp: metadata_wf_def m'_def list_all_iff comp_def rev_map [symmetric])
  have dec: "decodeContext T lower (Background T) (Some (encodeContext T lower ctx)) =
      (if length (rev m') > 0 \<or> a \<noteq> None then Some (NewContext ctx1 \<lparr>Addr = a, Auth = None, Metadata = NewMetadata lower (rev m')\<rparr>) else Some ctx1)"
    using decode_encoded_metadata [OF d(1), of "Metadata_Get lower m"]
    by (simp add: decodeContext_def encodeContext_fields Let_def m_def m'_def ctx1_def a_def decode_encoded_span [OF assms(1)]
        decode_encoded_address)
  have "Metadata_Get lower (NewMetadata lower (rev m')) = Metadata_Get lower m"
    using Metadata_Get_rebuilt [OF wf, folded m'_def] by (simp add: NewMetadata_wf [OF d(2)])
  moreover have "Metadata_Get lower m = Metadata_Get lower []" if "m' = []"
    using that by (simp add: m'_def)
  ultimately show ?thesis
    using dec by (auto simp: restored_def FromContext_def NewContext_def ctx1_def Background_def a_def m_def)
qed

section \<open>The two formats are told apart\<close>

lemma payload_V1: "isRequestPayloadV1 (b_fixed32 [0xd] requestFormatVersion @ rest)"
  by (simp add: isRequestPayloadV1_def b_fixed32_def requestFormatVersion_def little_endian_word(2) [of 1, simplified])

lemma bare_not_V1:
  assumes "bs = [] \<or> hd bs = 0xa \<or> hd bs = 0x12"
  shows "\<not> isRequestPayloadV1 bs"
  using assms by (cases bs) (auto simp: isRequestPayloadV1_def)

text \<open>
  What the encodings rely on, for each signal: a reader that reads what the writer wrote, behind the format version; and
  for the data without a context, bytes that do not look like a payload.
\<close>

locale payload_format =
  fixes wr :: "RequestContext \<Rightarrow> 'd \<Rightarrow> byte list option"
    and rd :: "byte list \<Rightarrow> (RequestContext option \<times> 'd) unmarshalled"
    and wf :: "'d \<Rightarrow> bool"
  assumes written: "RequestContext_wf rc \<Longrightarrow> wf v \<Longrightarrow> \<exists>buf. wr rc v = Some buf \<and> isRequestPayloadV1 buf \<and>
    (length buf < 2 ^ 62 \<longrightarrow> rd buf = Some (Ok (Some rc, v)))"
begin

lemma payload_read_back:
  assumes "trace_laws T" "metadata_wf lower (Metadata (FromContext ctx))" "wf v"
  shows "\<exists>buf. wr (encodeContext T lower ctx) v = Some buf \<and>
    (length buf < 2 ^ 62 \<longrightarrow> (\<exists>ctx'. fall_back T (read_payload T lower rd buf) (bare buf) = Some (Ok (ctx', v)) \<and> restored T lower ctx ctx'))"
proof -
  obtain buf where b: "wr (encodeContext T lower ctx) v = Some buf" "isRequestPayloadV1 buf"
    "length buf < 2 ^ 62 \<Longrightarrow> rd buf = Some (Ok (Some (encodeContext T lower ctx), v))"
    using written [OF encodeContext_wf assms(3)] by blast
  obtain ctx' where "decodeContext T lower (Background T) (Some (encodeContext T lower ctx)) = Some ctx'" "restored T lower ctx ctx'"
    using context_restored [OF assms(1,2)] by blast
  then show ?thesis using b by (auto simp: fall_back_def read_payload_def)
qed

end

locale legacy_format = payload_format wr rd wf
  for wr :: "RequestContext \<Rightarrow> 'd \<Rightarrow> byte list option" and rd and wf +
  fixes write_bare :: "'d \<Rightarrow> byte list option" and read_bare :: "byte list \<Rightarrow> 'd unmarshalled"
  assumes bare: "wf v \<Longrightarrow> \<exists>buf. write_bare v = Some buf \<and> \<not> isRequestPayloadV1 buf \<and>
    (length buf < 2 ^ 62 \<longrightarrow> read_bare buf = Some (Ok v))"
begin

lemma bare_read_back:
  assumes "wf v"
  shows "\<exists>buf. write_bare v = Some buf \<and> (length buf < 2 ^ 62 \<longrightarrow>
    fall_back T (read_payload T lower rd buf) (map_option (map_sum FailedToUnmarshal id) (read_bare buf)) = Some (Ok (Background T, v)))"
  using bare [OF assms] by (auto simp: fall_back_def read_payload_def)

end

lemma hd_b_repeated: "b_repeated [t] bss = [] \<or> hd (b_repeated [t] bss) = t"
  by (cases bss) (simp_all add: b_repeated_def len_bytes_def)

lemma logs_written:
  assumes "RequestContext_wf rc" "ExportLogsServiceRequest_wf ld"
  shows "\<exists>buf. write_logs rc ld = Some buf \<and> isRequestPayloadV1 buf \<and>
    (length buf < 2 ^ 62 \<longrightarrow> read_logs buf = Some (Ok (Some rc, ld)))"
proof -
  have "LogsRequest_wf (logs_request rc ld)"
    using assms by (simp add: LogsRequest_wf_def logs_request_def LogsToProto_def LogsData_wf_def ExportLogsServiceRequest_wf_def)
  moreover have "isRequestPayloadV1 (LogsRequest_bytes (logs_request rc ld))"
    using payload_V1 by (simp add: LogsRequest_bytes_def logs_request_def)
  ultimately show ?thesis
    using marshal_new_emits [OF emits_LogsRequest, of "logs_request rc ld"]
    by (simp add: write_logs_def read_logs_def LogsRequest_size LogsRequest_roundtrip logs_request_def LogsFromProto_def LogsToProto_def)
qed

lemma traces_written:
  assumes "RequestContext_wf rc" "ExportTraceServiceRequest_wf td"
  shows "\<exists>buf. write_traces rc td = Some buf \<and> isRequestPayloadV1 buf \<and>
    (length buf < 2 ^ 62 \<longrightarrow> read_traces buf = Some (Ok (Some rc, td)))"
proof -
  have "TracesRequest_wf (traces_request rc td)"
    using assms by (simp add: TracesRequest_wf_def traces_request_def TracesToProto_def TracesData_wf_def ExportTraceServiceRequest_wf_def)
  moreover have "isRequestPayloadV1 (TracesRequest_bytes (traces_request rc td))"
    using payload_V1 by (simp add: TracesRequest_bytes_def traces_request_def)
  ultimately show ?thesis
    using marshal_new_emits [OF emits_TracesRequest, of "traces_request rc td"]
    by (simp add: write_traces_def read_traces_def TracesRequest_size TracesRequest_roundtrip traces_request_def TracesFromProto_def TracesToProto_def)
qed

lemma metrics_written:
  assumes "RequestContext_wf rc" "ExportMetricsServiceRequest_wf md"
  shows "\<exists>buf. write_metrics rc md = Some buf \<and> isRequestPayloadV1 buf \<and>
    (length buf < 2 ^ 62 \<longrightarrow> read_metrics buf = Some (Ok (Some rc, md)))"
proof -
  have "MetricsRequest_wf (metrics_request rc md)"
    using assms by (simp add: MetricsRequest_wf_def metrics_request_def MetricsToProto_def MetricsData_wf_def ExportMetricsServiceRequest_wf_def)
  moreover have "isRequestPayloadV1 (MetricsRequest_bytes (metrics_request rc md))"
    using payload_V1 by (simp add: MetricsRequest_bytes_def metrics_request_def)
  ultimately show ?thesis
    using marshal_new_emits [OF emits_MetricsRequest, of "metrics_request rc md"]
    by (simp add: write_metrics_def read_metrics_def MetricsRequest_size MetricsRequest_roundtrip metrics_request_def MetricsFromProto_def MetricsToProto_def)
qed

lemma profiles_written:
  assumes "RequestContext_wf rc" "ExportProfilesServiceRequest_wf pd"
  shows "\<exists>buf. write_profiles rc pd = Some buf \<and> isRequestPayloadV1 buf \<and>
    (length buf < 2 ^ 62 \<longrightarrow> read_profiles buf = Some (Ok (Some rc, pd)))"
proof -
  have "ProfilesRequest_wf (profiles_request rc pd)"
    using assms by (simp add: ProfilesRequest_wf_def profiles_request_def ProfilesToProto_def ProfilesData_wf_def ExportProfilesServiceRequest_wf_def)
  moreover have "isRequestPayloadV1 (ProfilesRequest_bytes (profiles_request rc pd))"
    using payload_V1 by (simp add: ProfilesRequest_bytes_def profiles_request_def)
  ultimately show ?thesis
    using marshal_new_emits [OF emits_ProfilesRequest, of "profiles_request rc pd"]
    by (simp add: write_profiles_def read_profiles_def ProfilesRequest_size ProfilesRequest_roundtrip profiles_request_def ProfilesFromProto_def ProfilesToProto_def)
qed

lemma bare_bytes:
  "\<not> isRequestPayloadV1 (ExportLogsServiceRequest_bytes ld)"
  "\<not> isRequestPayloadV1 (ExportTraceServiceRequest_bytes td)"
  "\<not> isRequestPayloadV1 (ExportMetricsServiceRequest_bytes md)"
  "\<not> isRequestPayloadV1 (ExportProfilesServiceRequest_bytes pd)"
  using hd_b_repeated
  by (auto simp: ExportLogsServiceRequest_bytes_def ExportTraceServiceRequest_bytes_def ExportMetricsServiceRequest_bytes_def
      ExportProfilesServiceRequest_bytes_def len_bytes_def intro!: bare_not_V1)

interpretation logs_format: legacy_format write_logs read_logs ExportLogsServiceRequest_wf plog_MarshalLogs plog_UnmarshalLogs
proof
  fix ld :: ExportLogsServiceRequest
  assume "ExportLogsServiceRequest_wf ld"
  then show "\<exists>buf. plog_MarshalLogs ld = Some buf \<and> \<not> isRequestPayloadV1 buf \<and>
    (length buf < 2 ^ 62 \<longrightarrow> plog_UnmarshalLogs buf = Some (Ok ld))"
    by (simp add: plog_MarshalLogs_bytes plog_UnmarshalLogs_def ExportLogsServiceRequest_roundtrip bare_bytes)
qed (rule logs_written)

interpretation traces_format: legacy_format write_traces read_traces ExportTraceServiceRequest_wf ptrace_MarshalTraces ptrace_UnmarshalTraces
proof
  fix td :: ExportTraceServiceRequest
  assume "ExportTraceServiceRequest_wf td"
  then show "\<exists>buf. ptrace_MarshalTraces td = Some buf \<and> \<not> isRequestPayloadV1 buf \<and>
    (length buf < 2 ^ 62 \<longrightarrow> ptrace_UnmarshalTraces buf = Some (Ok td))"
    by (simp add: ptrace_MarshalTraces_bytes ptrace_UnmarshalTraces_def ExportTraceServiceRequest_roundtrip bare_bytes)
qed (rule traces_written)

interpretation metrics_format: legacy_format write_metrics read_metrics ExportMetricsServiceRequest_wf pmetric_MarshalMetrics pmetric_UnmarshalMetrics
proof
  fix md :: ExportMetricsServiceRequest
  assume "ExportMetricsServiceRequest_wf md"
  then show "\<exists>buf. pmetric_MarshalMetrics md = Some buf \<and> \<not> isRequestPayloadV1 buf \<and>
    (length buf < 2 ^ 62 \<longrightarrow> pmetric_UnmarshalMetrics buf = Some (Ok md))"
    by (simp add: pmetric_MarshalMetrics_bytes pmetric_UnmarshalMetrics_def ExportMetricsServiceRequest_roundtrip bare_bytes)
qed (rule metrics_written)

interpretation profiles_format: payload_format write_profiles read_profiles ExportProfilesServiceRequest_wf
  by standard (rule profiles_written)

section \<open>No stored bytes make the decoder dereference nil\<close>

definition context_no_nil :: "RequestContext \<Rightarrow> bool" where
  "context_no_nil rc \<longleftrightarrow> RequestContext_ClientAddress_wf (RequestContext_ClientAddress rc) \<and>
     list_all (\<lambda>kv. KeyValue_Value kv \<noteq> ArrayValue None) (RequestContext_ClientMetadata rc)"

lemma decodeClientMetadata_no_nil:
  "list_all (\<lambda>kv. KeyValue_Value kv \<noteq> ArrayValue None) kvs \<Longrightarrow> decodeClientMetadata_loop kvs m \<noteq> None"
  by (induction kvs m rule: decodeClientMetadata_loop.induct) (auto split: AnyValue.splits option.splits ArrayValue.splits)

lemma decodeContext_no_nil:
  assumes "\<And>x. rc = Some x \<Longrightarrow> context_no_nil x"
  shows "decodeContext T lower ctx rc \<noteq> None"
proof (cases rc)
  case (Some x)
  then have "context_no_nil x" using assms by simp
  then have "decodeClientMetadata (RequestContext_ClientMetadata x) \<noteq> None" "decodeClientAddress (RequestContext_ClientAddress x) \<noteq> None"
    using decodeClientMetadata_no_nil [of "RequestContext_ClientMetadata x" "[]"]
    by (auto simp: context_no_nil_def decodeClientMetadata_def elim: RequestContext_ClientAddress_wf.elims)
  then show ?thesis using Some by (auto simp: decodeContext_def Let_def)
qed (simp add: decodeContext_def)

lemma RequestContext_read_no_nil:
  assumes "RequestContext_UnmarshalProto buf RequestContext_zero = Some (Ok rc)"
  shows "context_no_nil rc"
  using assms unfolding RequestContext_UnmarshalProto_def
  by (rule unmarshal_keeps)
    (auto simp: RequestContext_field_def context_no_nil_def RequestContext_zero_def KeyValue_UnmarshalProto_def
      intro!: keeps_intros dest: KeyValue_read_array)

text \<open>A result that is there, and is not an index out of range.\<close>

definition no_panic :: "(payload_error, 'x) result option \<Rightarrow> bool" where
  "no_panic r \<longleftrightarrow> r \<noteq> None \<and> r \<noteq> Some (Err (FailedToUnmarshal IndexPanic))"

lemma fall_back_no_panic:
  assumes "\<And>rc v. rd buf = Some (Ok (Some rc, v)) \<Longrightarrow> context_no_nil rc" "rd buf \<noteq> None" "rd buf \<noteq> Some (Err IndexPanic)" "no_panic bare"
  shows "no_panic (fall_back T (read_payload T lower rd buf) bare)"
proof -
  have "decodeContext T lower (Background T) rc \<noteq> None" if "rd buf = Some (Ok (rc, v))" for rc v
    using assms(1) that by (intro decodeContext_no_nil) simp
  then have "no_panic (read_payload T lower rd buf)"
    using assms(2,3) by (auto simp: read_payload_def no_panic_def split: option.splits sum.splits prod.splits)
  then show ?thesis using assms(4) by (auto simp: fall_back_def no_panic_def map_sum_def split: sum.splits)
qed

lemma map_unmarshalled: "map_option (map_sum id f) x = Some r \<longleftrightarrow> (\<exists>r'. x = Some r' \<and> map_sum id f r' = r)"
  by auto

lemma map_sum_Ok: "map_sum g f x = Ok y \<longleftrightarrow> (\<exists>z. x = Ok z \<and> y = f z)" "map_sum g f x = Err e \<longleftrightarrow> (\<exists>z. x = Err z \<and> e = g z)"
  by (cases x; auto)+

lemma requests_keep_no_nil:
  "keeps (\<lambda>r. pred_option context_no_nil (LogsRequest_RequestContext r)) (LogsRequest_field n)"
  "keeps (\<lambda>r. pred_option context_no_nil (TracesRequest_RequestContext r)) (TracesRequest_field n)"
  "keeps (\<lambda>r. pred_option context_no_nil (MetricsRequest_RequestContext r)) (MetricsRequest_field n)"
  "keeps (\<lambda>r. pred_option context_no_nil (ProfilesRequest_RequestContext r)) (ProfilesRequest_field n)"
  by (auto simp: LogsRequest_field_def TracesRequest_field_def MetricsRequest_field_def ProfilesRequest_field_def
      intro!: keeps_intros dest: RequestContext_read_no_nil)

lemma read_logs_no_nil:
  assumes "read_logs buf = Some (Ok (Some rc, v))"
  shows "context_no_nil rc"
proof -
  obtain r where "unmarshal LogsRequest_field buf LogsRequest_zero = Some (Ok r)" "LogsRequest_RequestContext r = Some rc"
    using assms by (auto simp: read_logs_def LogsRequest_UnmarshalProto_def map_sum_Ok)
  from unmarshal_keeps [OF this(1) requests_keep_no_nil(1)] this(2) show ?thesis by (simp add: LogsRequest_zero_def)
qed

lemma read_traces_no_nil:
  assumes "read_traces buf = Some (Ok (Some rc, v))"
  shows "context_no_nil rc"
proof -
  obtain r where "unmarshal TracesRequest_field buf TracesRequest_zero = Some (Ok r)" "TracesRequest_RequestContext r = Some rc"
    using assms by (auto simp: read_traces_def TracesRequest_UnmarshalProto_def map_sum_Ok)
  from unmarshal_keeps [OF this(1) requests_keep_no_nil(2)] this(2) show ?thesis by (simp add: TracesRequest_zero_def)
qed

lemma read_metrics_no_nil:
  assumes "read_metrics buf = Some (Ok (Some rc, v))"
  shows "context_no_nil rc"
proof -
  obtain r where "unmarshal MetricsRequest_field buf MetricsRequest_zero = Some (Ok r)" "MetricsRequest_RequestContext r = Some rc"
    using assms by (auto simp: read_metrics_def MetricsRequest_UnmarshalProto_def map_sum_Ok)
  from unmarshal_keeps [OF this(1) requests_keep_no_nil(3)] this(2) show ?thesis by (simp add: MetricsRequest_zero_def)
qed

lemma read_profiles_no_nil:
  assumes "read_profiles buf = Some (Ok (Some rc, v))"
  shows "context_no_nil rc"
proof -
  obtain r where "unmarshal ProfilesRequest_field buf ProfilesRequest_zero = Some (Ok r)" "ProfilesRequest_RequestContext r = Some rc"
    using assms by (auto simp: read_profiles_def ProfilesRequest_UnmarshalProto_def map_sum_Ok)
  from unmarshal_keeps [OF this(1) requests_keep_no_nil(4)] this(2) show ?thesis by (simp add: ProfilesRequest_zero_def)
qed

lemma reads_no_panic:
  assumes "length buf < 2 ^ 62"
  shows "read_logs buf \<noteq> None" "read_logs buf \<noteq> Some (Err IndexPanic)"
    "read_traces buf \<noteq> None" "read_traces buf \<noteq> Some (Err IndexPanic)"
    "read_metrics buf \<noteq> None" "read_metrics buf \<noteq> Some (Err IndexPanic)"
    "read_profiles buf \<noteq> None" "read_profiles buf \<noteq> Some (Err IndexPanic)"
  using assms LogsRequest_safe TracesRequest_safe MetricsRequest_safe ProfilesRequest_safe
  by (auto simp: safe_unmarshal_def read_logs_def read_traces_def read_metrics_def read_profiles_def map_sum_Ok)

lemma bare_no_panic:
  assumes "length buf < 2 ^ 62"
  shows "no_panic (map_option (map_sum FailedToUnmarshal id) (plog_UnmarshalLogs buf))"
    "no_panic (map_option (map_sum FailedToUnmarshal id) (ptrace_UnmarshalTraces buf))"
    "no_panic (map_option (map_sum FailedToUnmarshal id) (pmetric_UnmarshalMetrics buf))"
    "no_panic (map_option (map_sum (\<lambda>e. case e of ProtoError e \<Rightarrow> FailedToUnmarshal e | DictError e \<Rightarrow> PayloadDict e) id)
      (pprofile_UnmarshalProfiles buf))"
  using assms ExportLogsServiceRequest_safe ExportTraceServiceRequest_safe ExportMetricsServiceRequest_safe ExportProfilesServiceRequest_safe
  by (auto simp: safe_unmarshal_def no_panic_def plog_UnmarshalLogs_def ptrace_UnmarshalTraces_def pmetric_UnmarshalMetrics_def
      pprofile_UnmarshalProfiles_def map_sum_Ok split: sum.splits option.splits profiles_error.splits)

section \<open>Properties\<close>

text \<open>
  C11. What the queue stores for logs is restored: the encoding writes logs with their context, and reads them back with
  the valid span context, the known client address and the metadata of the context; the authentication data is lost.
  Logs that were stored without a context, by earlier versions, are read as well.
\<close>

theorem stored_logs_restored:
  assumes "trace_laws T" "metadata_wf lower (Metadata (FromContext ctx))" "ExportLogsServiceRequest_wf ld"
  shows "(\<exists>buf. logsEncoding_Marshal T lower ctx ld = Some buf \<and> (length buf < 2 ^ 62 \<longrightarrow>
      (\<exists>ctx'. logsEncoding_Unmarshal T lower buf = Some (Ok (ctx', ld)) \<and> restored T lower ctx ctx'))) \<and>
    (\<exists>buf. plog_MarshalLogs ld = Some buf \<and> (length buf < 2 ^ 62 \<longrightarrow>
      logsEncoding_Unmarshal T lower buf = Some (Ok (Background T, ld))))"
  unfolding logsEncoding_Marshal_def request_MarshalLogs_def logsEncoding_Unmarshal_def request_UnmarshalLogs_def
  by (intro conjI logs_format.payload_read_back [OF assms] logs_format.bare_read_back [OF assms(3)])

definition sample_api :: "(TraceID \<times> SpanID \<times> byte \<times> byte list \<times> bool, byte list) trace_api" where
  "sample_api = \<lparr>sc_IsValid = (\<lambda>(t, s, _). t \<noteq> 0 \<and> s \<noteq> 0), sc_TraceID = fst, sc_SpanID = (\<lambda>(_, s, _). s),
     sc_TraceFlags = (\<lambda>(_, _, f, _). f), sc_TraceState = (\<lambda>(_, _, _, ts, _). ts), sc_IsRemote = (\<lambda>(_, _, _, _, r). r),
     ts_String = id, ParseTraceState = id, NewSpanContext = (\<lambda>t s f ts r. (t, s, f, ts, r)), no_span = (0, 0, 0, [], False)\<rparr>"

definition sample_context :: "(TraceID \<times> SpanID \<times> byte \<times> byte list \<times> bool, unit) Context" where
  "sample_context = \<lparr>ctx_span = (7, 9, 1, [0x61], True),
     ctx_info = Some \<lparr>Addr = Some (net_TCPAddr [127, 0, 0, 1] 80 []), Auth = Some (), Metadata = [([0x6b], [[1], [2]]), ([0x6c], [[3]])]\<rparr>\<rparr>"

lemma sample_api_laws: "trace_laws sample_api"
  by (simp add: trace_laws_def sample_api_def split_beta)

lemma sample_values:
  "ctx_span sample_context = (7, 9, 1, [0x61], True)" "sc_IsValid sample_api (7, 9, 1, [0x61], True)"
  "known_addr (Addr (FromContext sample_context)) = Some (net_TCPAddr [127, 0, 0, 1] 80 [])"
  "Metadata_Get id (Metadata (FromContext sample_context)) [0x6b] = [[1], [2]]"
  by code_simp+

lemma sample_encoded: "encodeContext sample_api id sample_context = \<lparr>
    RequestContext_ClientAddress = RequestContext_TCP (Some \<lparr>TCPAddr_Zone = [], TCPAddr_IP = [127, 0, 0, 1], TCPAddr_Port = 80\<rparr>),
    RequestContext_SpanContext = Some \<lparr>SpanContext_TraceState = [0x61], SpanContext_TraceFlags = 1, SpanContext_TraceID = 7, SpanContext_SpanID = 9,
      SpanContext_Remote = True\<rparr>,
    RequestContext_ClientMetadata = [KeyValue [0x6b] (ArrayValue (Some (ArrayValues [StringValue [1], StringValue [2]]))) 0,
      KeyValue [0x6c] (StringValue [3]) 0]\<rparr>"
  by code_simp

lemma sample_payload_size:
  "length (LogsRequest_bytes (logs_request (encodeContext sample_api id sample_context) sample_logs)) < 2 ^ 62"
proof -
  have "LogsData_SizeProto (LogsToProto sample_logs) = 65"
    using sample_logs_size by (simp add: LogsData_SizeProto_def LogsToProto_def plog_LogsSize_def ExportLogsServiceRequest_SizeProto_def)
  then show ?thesis
    by (simp add: LogsRequest_size LogsRequest_SizeProto_def logs_request_def sample_encoded RequestContext_SizeProto_def SpanContext_SizeProto_def
        TCPAddr_SizeProto_def TraceID_SizeProto_def SpanID_SizeProto_def TraceID_IsEmpty_def SpanID_IsEmpty_def size_optional_def
        size_len_small size_bytes_def Sov_one_byte requestFormatVersion_def)
qed

theorem stored_logs_restored_witness:
  "\<exists>buf (ctx' :: (TraceID \<times> SpanID \<times> byte \<times> byte list \<times> bool, unit) Context).
     logsEncoding_Marshal sample_api id sample_context sample_logs = Some buf \<and>
     logsEncoding_Unmarshal sample_api id buf = Some (Ok (ctx', sample_logs)) \<and>
     ctx_span ctx' = (7, 9, 1, [0x61], True) \<and> Addr (FromContext ctx') = Some (net_TCPAddr [127, 0, 0, 1] 80 []) \<and>
     Auth (FromContext ctx') = None \<and> Metadata_Get id (Metadata (FromContext ctx')) [0x6b] = [[1], [2]]"
proof -
  have wf: "metadata_wf id (Metadata (FromContext sample_context))" by code_simp
  let ?buf = "LogsRequest_bytes (logs_request (encodeContext sample_api id sample_context) sample_logs)"
  have m: "logsEncoding_Marshal sample_api id sample_context sample_logs = Some ?buf"
    using marshal_new_emits [OF emits_LogsRequest] by (simp add: logsEncoding_Marshal_def request_MarshalLogs_def write_logs_def LogsRequest_size)
  then obtain ctx' where "logsEncoding_Unmarshal sample_api id ?buf = Some (Ok (ctx', sample_logs))" "restored sample_api id sample_context ctx'"
    using conjunct1 [OF stored_logs_restored [OF sample_api_laws wf sample_logs_wf]] sample_payload_size by auto
  then show ?thesis using m by (intro exI [of _ ?buf] exI [of _ ctx']) (simp add: restored_def sample_values)
qed

text \<open>
  No bytes in the storage make the encodings fail other than with an error: for each signal, unmarshalling ends, does
  not index out of range and does not dereference a nil pointer in the context that it decodes.
\<close>

theorem stored_bytes_never_panic:
  assumes "length bytes < 2 ^ 62"
  shows "no_panic (logsEncoding_Unmarshal T lower bytes) \<and> no_panic (tracesEncoding_Unmarshal T lower bytes) \<and>
    no_panic (metricsEncoding_Unmarshal T lower bytes) \<and> no_panic (profilesEncoding_Unmarshal T lower bytes)"
  unfolding logsEncoding_Unmarshal_def tracesEncoding_Unmarshal_def metricsEncoding_Unmarshal_def profilesEncoding_Unmarshal_def
    request_UnmarshalLogs_def request_UnmarshalTraces_def request_UnmarshalMetrics_def request_UnmarshalProfiles_def
  by (intro conjI fall_back_no_panic reads_no_panic [OF assms] bare_no_panic [OF assms])
    (blast intro: read_logs_no_nil read_traces_no_nil read_metrics_no_nil read_profiles_no_nil)+

theorem stored_bytes_never_panic_witness:
  "no_panic (logsEncoding_Unmarshal sample_api id [0xd, 1, 0, 0, 0, 0x12, 4, 0x12, 2, 0x12, 0] ::
     (payload_error, (TraceID \<times> SpanID \<times> byte \<times> byte list \<times> bool, unit) Context \<times> ExportLogsServiceRequest) result option)"
  by (rule stored_bytes_never_panic [THEN conjunct1]) simp

end
