(* ===== verification/TracesBatch.thy ===== *)
theory TracesBatch
  imports LogsBatch
begin

text \<open>
  Merging and splitting of trace requests: \<^verbatim>\<open>exporterhelper/internal/queuebatch/traces_batch.go\<close> and the
  request type of \<^verbatim>\<open>traces.go\<close>. The code repeats that of logs with spans for log records; the
  definitions are written from the traces code, and are then proved equal to those for logs,
  which carries the results over.
\<close>

section \<open>Requests\<close>

type_synonym ('res, 'sc, 'it) tracesRequest = "('res, 'sc, 'it) data_request"

definition newTracesRequest :: "('res, 'sc, 'it) Data \<Rightarrow> ('res, 'sc, 'it) tracesRequest" where
  "newTracesRequest td = \<lparr>data = td, sizes = NewSizeCache\<rparr>"

definition traces_ItemsCount :: "('res, 'sc, 'it) tracesRequest \<Rightarrow> int \<times> ('res, 'sc, 'it) tracesRequest" where
  "traces_ItemsCount req =
     (case SizeOf (sizes req) SizerTypeItems (SpanCount (data req)) of (n, c) \<Rightarrow>
        (n, req\<lparr>sizes := c\<rparr>))"

definition traces_size ::
  "('res, 'sc, 'it) tracesRequest \<Rightarrow> ('res, 'sc, 'it) data_sizer \<Rightarrow> SizerType \<Rightarrow>
     int \<times> ('res, 'sc, 'it) tracesRequest" where
  "traces_size req sz szt =
     (case SizeOf (sizes req) szt (DataSize sz (data req)) of (n, c) \<Rightarrow> (n, req\<lparr>sizes := c\<rparr>))"

definition traces_BytesSize ::
  "('res, 'sc, 'it) leaf_sizes \<Rightarrow> ('res, 'sc, 'it) tracesRequest \<Rightarrow> int \<times> ('res, 'sc, 'it) tracesRequest" where
  "traces_BytesSize L req =
     (case SizeOf (sizes req) SizerTypeBytes (Data_SizeProto (res_sz L) (scope_sz L) (item_sz L) (data req)) of
        (n, c) \<Rightarrow> (n, req\<lparr>sizes := c\<rparr>))"

section \<open>Extraction of spans\<close>

definition extractScopeSpans_span ::
  "('res, 'sc, 'it) data_sizer \<Rightarrow> int \<Rightarrow> (int \<times> int \<times> ('sc, 'it) ScopeItems, 'it) callback" where
  "extractScopeSpans_span sz maxSpanSize = (\<lambda>(capacityLeft, removedSize, destSS) srcSpan.
     if capacityLeft = 0 then (False, (capacityLeft, removedSize, destSS), srcSpan)
     else
       let spanSize = DeltaSize sz (ItemSize sz srcSpan) in
       if spanSize > maxSpanSize then (True, (capacityLeft, removedSize + spanSize, destSS), srcSpan)
       else if spanSize > capacityLeft then (False, (0, removedSize, destSS), srcSpan)
       else (True, (capacityLeft - spanSize, removedSize + spanSize,
                    destSS\<lparr>Items := Items destSS @ [srcSpan]\<rparr>), srcSpan))"

definition extractScopeSpans ::
  "('sc, 'it) ScopeItems \<Rightarrow> int \<Rightarrow> int \<Rightarrow> ('res, 'sc, 'it) data_sizer \<Rightarrow>
     ('sc, 'it) ScopeItems \<times> int \<times> ('sc, 'it) ScopeItems" where
  "extractScopeSpans srcSS capacity maxScopeSize sz =
     (let destSS = \<lparr>Scope = Scope srcSS, ScopeSchemaUrl = ScopeSchemaUrl srcSS, Items = []\<rparr>;
          capacityLeft = capacity - (DeltaSize sz capacity - capacity) - ScopeSize sz destSS;
          maxSpanSize = maxScopeSize - (DeltaSize sz maxScopeSize - maxScopeSize) - ScopeSize sz destSS
      in case RemoveIf (extractScopeSpans_span sz maxSpanSize) (capacityLeft, 0, destSS) (Items srcSS) of
           ((_, removedSize, destSS'), spans) \<Rightarrow> (destSS', removedSize, srcSS\<lparr>Items := spans\<rparr>))"

definition extractResourceSpans_scope ::
  "('res, 'sc, 'it) data_sizer \<Rightarrow> int \<Rightarrow>
     (int \<times> int \<times> ('res, 'sc, 'it) ResourceItems, ('sc, 'it) ScopeItems) callback" where
  "extractResourceSpans_scope sz maxScopeSize = (\<lambda>(capacityLeft, removedSize, destRS) srcSS.
     if capacityLeft = 0 then (False, (capacityLeft, removedSize, destRS), srcSS)
     else
       let rawSsSize = ScopeSize sz srcSS; ssSize = DeltaSize sz rawSsSize in
       if ssSize > capacityLeft then
         (case extractScopeSpans srcSS capacityLeft maxScopeSize sz of (extSrcSS, extSsSize, srcSS') \<Rightarrow>
            let destRS' = if length (Items extSrcSS) > 0
                          then destRS\<lparr>Scopes := Scopes destRS @ [extSrcSS]\<rparr> else destRS in
            if length (Items srcSS') = 0 then (True, (0, removedSize + ssSize, destRS'), srcSS')
            else (False, (0, removedSize + (ssSize - DeltaSize sz (rawSsSize - extSsSize)), destRS'), srcSS'))
       else (True, (capacityLeft - ssSize, removedSize + ssSize,
                    destRS\<lparr>Scopes := Scopes destRS @ [srcSS]\<rparr>), srcSS))"

definition extractResourceSpans ::
  "('res, 'sc, 'it) ResourceItems \<Rightarrow> int \<Rightarrow> int \<Rightarrow> ('res, 'sc, 'it) data_sizer \<Rightarrow>
     ('res, 'sc, 'it) ResourceItems \<times> int \<times> ('res, 'sc, 'it) ResourceItems" where
  "extractResourceSpans srcRS capacity maxSize sz =
     (let destRS = \<lparr>Resource = Resource srcRS, SchemaUrl = SchemaUrl srcRS, Scopes = [], DeprecatedScopes = []\<rparr>;
          capacityLeft = capacity - (DeltaSize sz capacity - capacity) - ResourceSize sz destRS;
          maxScopeSize = maxSize - (DeltaSize sz maxSize - maxSize) - ResourceSize sz destRS
      in case RemoveIf (extractResourceSpans_scope sz maxScopeSize) (capacityLeft, 0, destRS) (Scopes srcRS) of
           ((_, removedSize, destRS'), sss) \<Rightarrow> (destRS', removedSize, srcRS\<lparr>Scopes := sss\<rparr>))"

definition extractTraces_resource ::
  "('res, 'sc, 'it) data_sizer \<Rightarrow> int \<Rightarrow>
     (int \<times> int \<times> ('res, 'sc, 'it) Data, ('res, 'sc, 'it) ResourceItems) callback" where
  "extractTraces_resource sz capacity = (\<lambda>(capacityLeft, removedSize, destTraces) srcRS.
     if capacityLeft = 0 then (False, (capacityLeft, removedSize, destTraces), srcRS)
     else
       let rawRsSize = ResourceSize sz srcRS; rsSize = DeltaSize sz rawRsSize in
       if rsSize > capacityLeft then
         (case extractResourceSpans srcRS capacityLeft capacity sz of (extSrcRS, extRsSize, srcRS') \<Rightarrow>
            let destTraces' = if length (Scopes extSrcRS) > 0 then destTraces @ [extSrcRS] else destTraces in
            if length (Scopes srcRS') = 0 then (True, (0, removedSize + rsSize, destTraces'), srcRS')
            else (False, (0, removedSize + (rsSize - DeltaSize sz (rawRsSize - extRsSize)), destTraces'), srcRS'))
       else (True, (capacityLeft - rsSize, removedSize + rsSize, destTraces @ [srcRS]), srcRS))"

definition extractTraces ::
  "('res, 'sc, 'it) Data \<Rightarrow> int \<Rightarrow> ('res, 'sc, 'it) data_sizer \<Rightarrow>
     ('res, 'sc, 'it) Data \<times> int \<times> ('res, 'sc, 'it) Data" where
  "extractTraces srcTraces capacity sz =
     (let capacityLeft = capacity - DataSize sz []
      in case RemoveIf (extractTraces_resource sz capacity) (capacityLeft, 0, []) srcTraces of
           ((_, removedSize, destTraces), rss) \<Rightarrow> (destTraces, removedSize, rss))"

section \<open>Merge and split of traces\<close>

definition traces_mergeTo ::
  "('res, 'sc, 'it) tracesRequest \<Rightarrow> ('res, 'sc, 'it) tracesRequest \<Rightarrow>
     ('res, 'sc, 'it) data_sizer \<Rightarrow> SizerType \<Rightarrow> ('res, 'sc, 'it) tracesRequest \<times> ('res, 'sc, 'it) tracesRequest" where
  "traces_mergeTo req dst sz szt =
     (case traces_size dst sz szt of (dn, dst1) \<Rightarrow>
      case traces_size req sz szt of (rn, req1) \<Rightarrow>
      let dst2 = dst1\<lparr>sizes := SizeCache_Update (sizes dst1) szt (dn + rn)\<rparr>;
          req2 = req1\<lparr>sizes := SizeCache_Update (sizes req1) szt 0\<rparr>
      in case MoveAndAppendTo (data req2) (data dst2) of (rd, dd) \<Rightarrow>
           (req2\<lparr>data := rd\<rparr>, dst2\<lparr>data := dd\<rparr>))"

partial_function (option) traces_split_loop ::
  "int \<Rightarrow> ('res, 'sc, 'it) data_sizer \<Rightarrow> SizerType \<Rightarrow> ('res, 'sc, 'it) tracesRequest \<Rightarrow>
     ('res, 'sc, 'it) tracesRequest list \<Rightarrow> int \<Rightarrow>
     (('res, 'sc, 'it) tracesRequest list \<times> split_error option \<times> ('res, 'sc, 'it) tracesRequest) option" where
  "traces_split_loop maxSize sz szt req res droppedItems =
     (case traces_size req sz szt of (n, req1) \<Rightarrow>
      if n > maxSize then
        (case extractTraces (data req1) maxSize sz of (td, removedSize, src) \<Rightarrow>
           if removedSize = 0 then
             Some (res, Some (CannotSplitFurther (droppedItems + SpanCount src)), req1\<lparr>data := src\<rparr>)
           else
             (case traces_size (req1\<lparr>data := src\<rparr>) sz szt of (n2, req2) \<Rightarrow>
                traces_split_loop maxSize sz szt
                  (req2\<lparr>sizes := SizeCache_Update (sizes req2) szt (n2 - removedSize)\<rparr>)
                  (if SpanCount td > 0 then res @ [newTracesRequest td] else res)
                  (droppedItems + (SpanCount (data req1) - SpanCount src - SpanCount td))))
      else
        Some (if SpanCount (data req1) > 0 then res @ [req1] else res,
              if droppedItems > 0 then Some (OversizedItems droppedItems) else None, req1))"

definition traces_split ::
  "('res, 'sc, 'it) tracesRequest \<Rightarrow> int \<Rightarrow> ('res, 'sc, 'it) data_sizer \<Rightarrow> SizerType \<Rightarrow>
     (('res, 'sc, 'it) tracesRequest list \<times> split_error option \<times> ('res, 'sc, 'it) tracesRequest) option" where
  "traces_split req maxSize sz szt =
     (case traces_size req sz szt of (n, req1) \<Rightarrow>
      if n \<le> maxSize then Some ([req1], None, req1)
      else traces_split_loop maxSize sz szt req1 [] 0)"

definition traces_sizer :: "('res, 'sc, 'it) leaf_sizes \<Rightarrow> SizerType \<Rightarrow> ('res, 'sc, 'it) data_sizer option" where
  "traces_sizer L szt =
     (if szt = SizerTypeItems then Some TracesCountSizer
      else if szt = SizerTypeBytes then Some (TracesBytesSizer L)
      else None)"

definition traces_MergeSplit ::
  "('res, 'sc, 'it) leaf_sizes \<Rightarrow> ('res, 'sc, 'it) tracesRequest \<Rightarrow> int \<Rightarrow> SizerType \<Rightarrow>
     ('res, 'sc, 'it) tracesRequest request_arg \<Rightarrow>
     (('res, 'sc, 'it) tracesRequest list \<times> split_error option \<times> ('res, 'sc, 'it) tracesRequest) option" where
  "traces_MergeSplit L req maxSize szt r2 =
     (case traces_sizer L szt of
        None \<Rightarrow> Some ([], Some UnknownSizerType, req)
      | Some sz \<Rightarrow>
          (case r2 of
             OtherType \<Rightarrow> Some ([], Some InvalidInputType, req)
           | NilRequest \<Rightarrow> if maxSize = 0 then Some ([req], None, req) else traces_split req maxSize sz szt
           | SameType req2 \<Rightarrow>
               let req' = snd (traces_mergeTo req2 req sz szt) in
               if maxSize = 0 then Some ([req'], None, req') else traces_split req' maxSize sz szt))"


section \<open>The same algorithm as for logs\<close>

lemma span_count: "SpanCount = LogRecordCount"
  by (simp add: fun_eq_iff SpanCount_def LogRecordCount_def)

lemma traces_sizers: "TracesCountSizer = LogsCountSizer" "TracesBytesSizer = LogsBytesSizer"
  by (simp_all add: fun_eq_iff TracesCountSizer_def LogsCountSizer_def span_count TracesBytesSizer_def
      LogsBytesSizer_def)

lemma traces_request: "newTracesRequest = newLogsRequest" "traces_size = logs_size"
  by (simp_all add: fun_eq_iff newTracesRequest_def newLogsRequest_def traces_size_def logs_size_def)

lemma extract_spans: "extractScopeSpans = extractScopeLogs"
  by (simp add: fun_eq_iff extractScopeSpans_def extractScopeLogs_def extractScopeSpans_span_def
      extractScopeLogs_record_def)

lemma extract_resource_spans: "extractResourceSpans = extractResourceLogs"
  unfolding fun_eq_iff extractResourceSpans_def extractResourceLogs_def extractResourceSpans_scope_def
    extractResourceLogs_scope_def extract_spans by simp

lemma extract_traces: "extractTraces = extractLogs"
  unfolding fun_eq_iff extractTraces_def extractLogs_def extractTraces_resource_def
    extractLogs_resource_def extract_resource_spans by simp

lemma traces_split_loop: "traces_split_loop = logs_split_loop"
proof -
  have a: "traces_split_loop m sz szt req res n = Some y" if "logs_split_loop m sz szt req res n = Some y"
    for m sz szt req res n y
  proof (rule logs_split_loop.raw_induct [OF _ that], goal_cases)
    case (1 loop m sz szt req res n y)
    then show ?case
      by (cases y, subst traces_split_loop.simps) (auto simp: traces_request extract_traces span_count split: prod.splits if_splits)
  qed
  have b: "logs_split_loop m sz szt req res n = Some y" if "traces_split_loop m sz szt req res n = Some y"
    for m sz szt req res n y
  proof (rule traces_split_loop.raw_induct [OF _ that], goal_cases)
    case (1 loop m sz szt req res n y)
    then show ?case
      by (cases y, subst logs_split_loop.simps) (auto simp: traces_request extract_traces span_count split: prod.splits if_splits)
  qed
  show ?thesis
  proof (intro ext)
    show "traces_split_loop m sz szt req res n = logs_split_loop m sz szt req res n" for m sz szt req res n
      using a [of m sz szt req res n] b [of m sz szt req res n]
      by (cases "logs_split_loop m sz szt req res n"; cases "traces_split_loop m sz szt req res n") simp_all
  qed
qed

lemma traces_MergeSplit: "traces_MergeSplit = logs_MergeSplit"
  unfolding fun_eq_iff traces_MergeSplit_def logs_MergeSplit_def traces_sizer_def logs_sizer_def
    traces_split_def logs_split_def traces_mergeTo_def logs_mergeTo_def traces_request traces_sizers
    traces_split_loop by simp

section \<open>Properties\<close>

text \<open>
  C27. Merging two trace requests and splitting the result, by items or by bytes, always returns, and
  the returned requests partition the input: each is within the limit and has a right size cache;
  together they hold the spans of the two requests in order, each under its own resource and scope,
  without spans too big for a batch and, only when splitting is reported as stuck, without a remainder;
  and the error reports exactly how many spans are missing.
\<close>

theorem traces_MergeSplit_contract:
  assumes "traces_sizer L szt = Some sz"
    and "0 < maxSize" "maxSize < 2 ^ 63"
    and "request_ok SpanCount (bytes_of L) req" "request_ok SpanCount (bytes_of L) req2"
    and "DataSize sz (data req @ data req2) < 2 ^ 63"
  shows "\<exists>out err fin. traces_MergeSplit L req maxSize szt (SameType req2) = Some (out, err, fin) \<and>
    split_contract sz SpanCount (bytes_of L) maxSize
      (data_items (data req) @ data_items (data req2)) out err"
  unfolding traces_MergeSplit span_count
  by (rule logs_MergeSplit_spec)
    (use assms in \<open>simp_all add: span_count traces_sizer_def logs_sizer_def traces_sizers split: if_splits\<close>)

theorem traces_MergeSplit_contract_witness:
  "\<exists>out err fin. traces_MergeSplit sample_leaves (sample_request 0 [5, 6]) 20 SizerTypeBytes
       (SameType (sample_request 1 [7])) = Some (out, err, fin) \<and>
     split_contract (TracesBytesSizer sample_leaves) SpanCount (bytes_of sample_leaves) 20
       (data_items (data (sample_request 0 [5, 6])) @ data_items (data (sample_request 1 [7]))) out err"
proof -
  have "traces_sizer sample_leaves SizerTypeBytes = Some (TracesBytesSizer sample_leaves)"
    by (simp add: traces_sizer_def)
  moreover have "DataSize (TracesBytesSizer sample_leaves)
      (data (sample_request 0 [5, 6]) @ data (sample_request 1 [7])) < 2 ^ 63"
    using sample_request_bytes by (simp add: TracesBytesSizer_def bytes_of_def Data_SizeProto_def)
  ultimately show ?thesis
    using traces_MergeSplit_contract [of sample_leaves SizerTypeBytes "TracesBytesSizer sample_leaves" 20
        "sample_request 0 [5, 6]" "sample_request 1 [7]"] by simp
qed

text \<open>
  Splitting traces by items is exact: no span is lost and no error is reported, every request but
  the last holds exactly the maximal number of spans, and the last one at most that many.
\<close>

theorem traces_MergeSplit_items_exact:
  assumes "0 < maxSize" "maxSize < 2 ^ 63"
    and "request_ok SpanCount (bytes_of L) req" "request_ok SpanCount (bytes_of L) req2"
    and "SpanCount (data req @ data req2) < 2 ^ 63" and "data_items (data req @ data req2) \<noteq> []"
  shows "\<exists>out fin. traces_MergeSplit L req maxSize SizerTypeItems (SameType req2) = Some (out, None, fin) \<and>
    request_items out = data_items (data req) @ data_items (data req2) \<and>
    (\<forall>r \<in> set (butlast out). SpanCount (data r) = maxSize) \<and>
    0 < SpanCount (data (last out)) \<and> SpanCount (data (last out)) \<le> maxSize"
  unfolding traces_MergeSplit span_count
  by (rule logs_MergeSplit_items) (use assms in \<open>simp_all add: span_count\<close>)

theorem traces_MergeSplit_items_exact_witness:
  "\<exists>out fin. traces_MergeSplit sample_leaves (sample_request 0 [5, 6]) 2 SizerTypeItems
       (SameType (sample_request 1 [7])) = Some (out, None, fin) \<and>
     length (request_items out) = 3 \<and> list_all (\<lambda>r. SpanCount (data r) = 2) (butlast out)"
proof -
  have "SpanCount (data (sample_request 0 [5, 6]) @ data (sample_request 1 [7])) = 3"
    "length (data_items (data (sample_request 0 [5, 6]))) = 2" "length (data_items (data (sample_request 1 [7]))) = 1"
    by (simp_all add: sample_request_def newLogsRequest_def SpanCount_def data_items_def
        resource_items_def scope_items_def)
  moreover from this have "data_items (data (sample_request 0 [5, 6]) @ data (sample_request 1 [7])) \<noteq> []"
    by (auto simp: span_count LogRecordCount_items)
  ultimately show ?thesis
    using traces_MergeSplit_items_exact [of 2 sample_leaves "sample_request 0 [5, 6]" "sample_request 1 [7]"]
    by (auto simp: list_all_iff)
qed

end
