(* ===== verification/WireSizes.thy ===== *)
theory WireSizes
  imports TracesBatch ProtoMarshal
begin

text \<open>
  The sizes that batching works with are the sizes on the wire. The splitting code of \<open>LogsBatch\<close> and \<open>TracesBatch\<close>
  takes the encoded sizes of its leaves as arguments; here they are those of the generated messages, and the data
  that is split is translated into the messages that are marshalled.
\<close>

section \<open>From batching to messages\<close>

definition wire_string :: "string \<Rightarrow> byte list" where
  "wire_string s = map of_char s"

definition wire_ScopeLogs :: "(InstrumentationScope, LogRecord) ScopeItems \<Rightarrow> ScopeLogs" where
  "wire_ScopeLogs sl = \<lparr>ScopeLogs_SchemaUrl = wire_string (ScopeSchemaUrl sl), ScopeLogs_LogRecords = Items sl, ScopeLogs_Scope = Scope sl\<rparr>"

definition wire_ResourceLogs :: "(Resource, InstrumentationScope, LogRecord) ResourceItems \<Rightarrow> ResourceLogs" where
  "wire_ResourceLogs rl = \<lparr>ResourceLogs_Resource = Resource rl, ResourceLogs_ScopeLogs = map wire_ScopeLogs (Scopes rl),
     ResourceLogs_SchemaUrl = wire_string (SchemaUrl rl), ResourceLogs_DeprecatedScopeLogs = map wire_ScopeLogs (DeprecatedScopes rl)\<rparr>"

definition wire_logs :: "(Resource, InstrumentationScope, LogRecord) Data \<Rightarrow> ExportLogsServiceRequest" where
  "wire_logs ld = \<lparr>ExportLogsServiceRequest_ResourceLogs = map wire_ResourceLogs ld\<rparr>"

definition wire_ScopeSpans :: "(InstrumentationScope, Span) ScopeItems \<Rightarrow> ScopeSpans" where
  "wire_ScopeSpans ss = \<lparr>ScopeSpans_SchemaUrl = wire_string (ScopeSchemaUrl ss), ScopeSpans_Spans = Items ss, ScopeSpans_Scope = Scope ss\<rparr>"

definition wire_ResourceSpans :: "(Resource, InstrumentationScope, Span) ResourceItems \<Rightarrow> ResourceSpans" where
  "wire_ResourceSpans rs = \<lparr>ResourceSpans_Resource = Resource rs, ResourceSpans_ScopeSpans = map wire_ScopeSpans (Scopes rs),
     ResourceSpans_SchemaUrl = wire_string (SchemaUrl rs), ResourceSpans_DeprecatedScopeSpans = map wire_ScopeSpans (DeprecatedScopes rs)\<rparr>"

definition wire_traces :: "(Resource, InstrumentationScope, Span) Data \<Rightarrow> ExportTraceServiceRequest" where
  "wire_traces td = \<lparr>ExportTraceServiceRequest_ResourceSpans = map wire_ResourceSpans td\<rparr>"

definition log_leaves :: "(Resource, InstrumentationScope, LogRecord) leaf_sizes" where
  "log_leaves = \<lparr>res_sz = Resource_SizeProto, scope_sz = InstrumentationScope_SizeProto, item_sz = LogRecord_SizeProto\<rparr>"

definition span_leaves :: "(Resource, InstrumentationScope, Span) leaf_sizes" where
  "span_leaves = \<lparr>res_sz = Resource_SizeProto, scope_sz = InstrumentationScope_SizeProto, item_sz = Span_SizeProto\<rparr>"

section \<open>The sizes agree\<close>

lemma size_len_field: "int (size_len (Suc 0) n) = field_size (int n)" "int (size_len 2 n) = 1 + field_size (int n)"
  by (simp_all add: size_len_def field_size_def)

lemma size_bytes_string: "int (size_bytes (Suc 0) (wire_string s)) = string_size s"
  by (simp add: size_bytes_def string_size_def wire_string_def size_len_field Let_def)

lemma int_sum_list: "int (\<Sum>x\<leftarrow>xs. f x) = (\<Sum>x\<leftarrow>xs. int (f x))"
  by (induction xs) simp_all

lemmas wire_sizes = size_len_field size_bytes_string int_sum_list comp_def

lemma scope_logs_size: "int (ScopeLogs_SizeProto (wire_ScopeLogs sl)) = ScopeItems_SizeProto InstrumentationScope_SizeProto LogRecord_SizeProto sl"
  by (simp add: ScopeLogs_SizeProto_def wire_ScopeLogs_def ScopeItems_SizeProto_def wire_sizes)

lemma scope_spans_size: "int (ScopeSpans_SizeProto (wire_ScopeSpans ss)) = ScopeItems_SizeProto InstrumentationScope_SizeProto Span_SizeProto ss"
  by (simp add: ScopeSpans_SizeProto_def wire_ScopeSpans_def ScopeItems_SizeProto_def wire_sizes)

lemma resource_logs_size:
  "int (ResourceLogs_SizeProto (wire_ResourceLogs rl)) =
     ResourceItems_SizeProto Resource_SizeProto InstrumentationScope_SizeProto LogRecord_SizeProto rl"
  by (simp add: ResourceLogs_SizeProto_def wire_ResourceLogs_def ResourceItems_SizeProto_def wire_sizes scope_logs_size)

lemma resource_spans_size:
  "int (ResourceSpans_SizeProto (wire_ResourceSpans rs)) =
     ResourceItems_SizeProto Resource_SizeProto InstrumentationScope_SizeProto Span_SizeProto rs"
  by (simp add: ResourceSpans_SizeProto_def wire_ResourceSpans_def ResourceItems_SizeProto_def wire_sizes scope_spans_size)

lemma wire_logs_bytes: "\<exists>buf. plog_MarshalLogs (wire_logs ld) = Some buf \<and> int (length buf) = bytes_of log_leaves ld"
  by (simp add: plog_MarshalLogs_bytes ExportLogsServiceRequest_size ExportLogsServiceRequest_SizeProto_def wire_logs_def bytes_of_def
      Data_SizeProto_def log_leaves_def wire_sizes resource_logs_size)

lemma wire_traces_bytes: "\<exists>buf. ptrace_MarshalTraces (wire_traces td) = Some buf \<and> int (length buf) = bytes_of span_leaves td"
  by (simp add: ptrace_MarshalTraces_bytes ExportTraceServiceRequest_size ExportTraceServiceRequest_SizeProto_def wire_traces_def bytes_of_def
      Data_SizeProto_def span_leaves_def wire_sizes resource_spans_size)

section \<open>Properties\<close>

text \<open>
  C13. What batching by bytes hands to an exporter fits on the wire: merging two log requests and splitting them by bytes
  returns requests whose protobuf encodings, as \<^verbatim>\<open>MarshalLogs\<close> writes them, have at most the maximal size each.
\<close>

theorem split_logs_fit_on_wire:
  assumes "0 < maxSize" "maxSize < 2 ^ 63" "logs_request_ok log_leaves req" "logs_request_ok log_leaves req2"
    and "bytes_of log_leaves (data req @ data req2) < 2 ^ 63"
  shows "\<exists>out err fin. logs_MergeSplit log_leaves req maxSize SizerTypeBytes (SameType req2) = Some (out, err, fin) \<and>
    list_all (\<lambda>r. \<exists>buf. plog_MarshalLogs (wire_logs (data r)) = Some buf \<and> int (length buf) \<le> maxSize) out"
proof -
  have "\<exists>out err fin. logs_MergeSplit log_leaves req maxSize SizerTypeBytes (SameType req2) = Some (out, err, fin) \<and>
    split_contract (LogsBytesSizer log_leaves) LogRecordCount (bytes_of log_leaves) maxSize
      (data_items (data req) @ data_items (data req2)) out err"
    using assms by (intro logs_MergeSplit_spec) (simp_all add: logs_sizer_def LogsBytesSizer_def bytes_of_def)
  then obtain out err fin where out: "logs_MergeSplit log_leaves req maxSize SizerTypeBytes (SameType req2) = Some (out, err, fin)"
    "\<And>r. r \<in> set out \<Longrightarrow> DataSize (LogsBytesSizer log_leaves) (data r) \<le> maxSize"
    unfolding split_contract_def by blast
  have "\<exists>buf. plog_MarshalLogs (wire_logs (data r)) = Some buf \<and> int (length buf) \<le> maxSize" if "r \<in> set out" for r
    using wire_logs_bytes [of "data r"] out(2) [OF that] by (auto simp: LogsBytesSizer_def bytes_of_def)
  then show ?thesis using out(1) by (auto simp: list_all_iff)
qed

text \<open>The same holds for traces.\<close>

lemma split_traces_fit_on_wire:
  assumes "0 < maxSize" "maxSize < 2 ^ 63" "request_ok SpanCount (bytes_of span_leaves) req" "request_ok SpanCount (bytes_of span_leaves) req2"
    and "bytes_of span_leaves (data req @ data req2) < 2 ^ 63"
  shows "\<exists>out err fin. traces_MergeSplit span_leaves req maxSize SizerTypeBytes (SameType req2) = Some (out, err, fin) \<and>
    list_all (\<lambda>r. \<exists>buf. ptrace_MarshalTraces (wire_traces (data r)) = Some buf \<and> int (length buf) \<le> maxSize) out"
proof -
  have "\<exists>out err fin. logs_MergeSplit span_leaves req maxSize SizerTypeBytes (SameType req2) = Some (out, err, fin) \<and>
    split_contract (LogsBytesSizer span_leaves) LogRecordCount (bytes_of span_leaves) maxSize
      (data_items (data req) @ data_items (data req2)) out err"
    using assms by (intro logs_MergeSplit_spec) (simp_all add: span_count logs_sizer_def LogsBytesSizer_def bytes_of_def)
  then obtain out err fin where out: "traces_MergeSplit span_leaves req maxSize SizerTypeBytes (SameType req2) = Some (out, err, fin)"
    "\<And>r. r \<in> set out \<Longrightarrow> DataSize (LogsBytesSizer span_leaves) (data r) \<le> maxSize"
    unfolding split_contract_def traces_MergeSplit by blast
  have "\<exists>buf. ptrace_MarshalTraces (wire_traces (data r)) = Some buf \<and> int (length buf) \<le> maxSize" if "r \<in> set out" for r
    using wire_traces_bytes [of "data r"] out(2) [OF that] by (auto simp: LogsBytesSizer_def bytes_of_def)
  then show ?thesis using out(1) by (auto simp: list_all_iff)
qed

definition wire_sample :: "LogRecord list \<Rightarrow> (Resource, InstrumentationScope, LogRecord) logsRequest" where
  "wire_sample its = newLogsRequest
     [\<lparr>Resource = Resource_zero, SchemaUrl = [], Scopes = [\<lparr>Scope = InstrumentationScope_zero, ScopeSchemaUrl = [], Items = its\<rparr>],
       DeprecatedScopes = []\<rparr>]"

lemma wire_sample_ok: "logs_request_ok log_leaves (wire_sample its)"
  by (simp add: wire_sample_def)

lemma wire_sample_size: "bytes_of log_leaves (data (wire_sample [sample_record])) = 65"
  by (simp add: bytes_of_def log_leaves_def wire_sample_def newLogsRequest_def Data_SizeProto_def ResourceItems_SizeProto_def
      ScopeItems_SizeProto_def sample_record_size size_zero string_size_def field_size_DeltaSize)

theorem split_logs_fit_on_wire_witness:
  "\<exists>out err fin. logs_MergeSplit log_leaves (wire_sample [sample_record]) 70 SizerTypeBytes (SameType (wire_sample [sample_record])) =
      Some (out, err, fin) \<and>
    list_all (\<lambda>r. \<exists>buf. plog_MarshalLogs (wire_logs (data r)) = Some buf \<and> int (length buf) \<le> 70) out"
  by (rule split_logs_fit_on_wire [OF _ _ wire_sample_ok wire_sample_ok])
    (use wire_sample_size in \<open>simp_all add: bytes_of_def Data_SizeProto_def\<close>)

end
