(* ===== verification/BatchSplit.thy ===== *)
theory BatchSplit
  imports MetricsBatch
begin

text \<open>
  The pending data of the batch processor: \<^verbatim>\<open>processor/batchprocessor/splitlogs.go\<close>, \<^verbatim>\<open>splittraces.go\<close>,
  \<^verbatim>\<open>splitmetrics.go\<close> and the types \<^verbatim>\<open>batchLogs\<close>, \<^verbatim>\<open>batchTraces\<close> and \<^verbatim>\<open>batchMetrics\<close> of \<^verbatim>\<open>batch_processor.go\<close>.

  A split function moves the first \<open>sz\<close> items (\<^verbatim>\<open>size\<close> in the code) of its source to a new value and returns both. Its
  callbacks capture the number of items copied so far and the slice they append to. Copying a
  resource or a scope copies a leaf of the model. Reference counting of pooled messages
  (\<^verbatim>\<open>pref.RefLogs\<close>, \<^verbatim>\<open>pref.UnrefLogs\<close>) has no effect on the values and is left out.
\<close>

section \<open>Splitting logs\<close>

definition resourceLRC :: "('res, 'sc, 'it) ResourceItems \<Rightarrow> int" where
  "resourceLRC rs = (\<Sum>ill\<leftarrow>Scopes rs. int (length (Items ill)))"

definition splitLogs_record :: "int \<Rightarrow> (int \<times> 'it list, 'it) callback" where
  "splitLogs_record sz = (\<lambda>(totalCopiedLogRecords, destIll) srcRecord.
     if totalCopiedLogRecords = sz then (False, (totalCopiedLogRecords, destIll), srcRecord)
     else (True, (totalCopiedLogRecords + 1, destIll @ [srcRecord]), srcRecord))"

definition splitLogs_scope ::
  "int \<Rightarrow> (int \<times> ('sc, 'it) ScopeItems list, ('sc, 'it) ScopeItems) callback" where
  "splitLogs_scope sz = (\<lambda>(totalCopiedLogRecords, destRl) srcIll.
     if totalCopiedLogRecords = sz then (False, (totalCopiedLogRecords, destRl), srcIll)
     else
       let srcIllLRC = int (length (Items srcIll)) in
       if sz \<ge> srcIllLRC + totalCopiedLogRecords
       then (True, (totalCopiedLogRecords + srcIllLRC, destRl @ [srcIll]), srcIll)
       else
         case RemoveIf (splitLogs_record sz) (totalCopiedLogRecords, []) (Items srcIll) of
           ((totalCopied', records), left_over) \<Rightarrow>
             (False,
              (totalCopied',
               destRl @ [\<lparr>Scope = Scope srcIll, ScopeSchemaUrl = ScopeSchemaUrl srcIll, Items = records\<rparr>]),
              srcIll\<lparr>Items := left_over\<rparr>))"

definition splitLogs_resource ::
  "int \<Rightarrow> (int \<times> ('res, 'sc, 'it) Data, ('res, 'sc, 'it) ResourceItems) callback" where
  "splitLogs_resource sz = (\<lambda>(totalCopiedLogRecords, dest) srcRl.
     if totalCopiedLogRecords = sz then (False, (totalCopiedLogRecords, dest), srcRl)
     else
       let srcRlLRC = resourceLRC srcRl in
       if totalCopiedLogRecords + srcRlLRC \<le> sz
       then (True, (totalCopiedLogRecords + srcRlLRC, dest @ [srcRl]), srcRl)
       else
         case RemoveIf (splitLogs_scope sz) (totalCopiedLogRecords, []) (Scopes srcRl) of
           ((totalCopied', scopes), left_over) \<Rightarrow>
             (left_over = [],
              (totalCopied',
               dest @ [\<lparr>Resource = Resource srcRl, SchemaUrl = SchemaUrl srcRl, Scopes = scopes,
                        DeprecatedScopes = []\<rparr>]),
              srcRl\<lparr>Scopes := left_over\<rparr>))"

text \<open>The result and the source afterwards. The early return gives the source itself.\<close>

definition splitLogs ::
  "int \<Rightarrow> ('res, 'sc, 'it) Data \<Rightarrow> int \<Rightarrow> ('res, 'sc, 'it) Data \<times> ('res, 'sc, 'it) Data" where
  "splitLogs sz src logRecords =
     (if logRecords \<le> sz then (src, src)
      else case RemoveIf (splitLogs_resource sz) (0, []) src of ((_, dest), src') \<Rightarrow> (dest, src'))"

section \<open>Splitting traces\<close>

definition resourceSC :: "('res, 'sc, 'it) ResourceItems \<Rightarrow> int" where
  "resourceSC rs = (\<Sum>ils\<leftarrow>Scopes rs. int (length (Items ils)))"

definition splitTraces_span :: "int \<Rightarrow> (int \<times> 'it list, 'it) callback" where
  "splitTraces_span sz = (\<lambda>(totalCopiedSpans, destIls) srcSpan.
     if totalCopiedSpans = sz then (False, (totalCopiedSpans, destIls), srcSpan)
     else (True, (totalCopiedSpans + 1, destIls @ [srcSpan]), srcSpan))"

definition splitTraces_scope ::
  "int \<Rightarrow> (int \<times> ('sc, 'it) ScopeItems list, ('sc, 'it) ScopeItems) callback" where
  "splitTraces_scope sz = (\<lambda>(totalCopiedSpans, destRs) srcIls.
     if totalCopiedSpans = sz then (False, (totalCopiedSpans, destRs), srcIls)
     else
       let srcIlsSC = int (length (Items srcIls)) in
       if sz - totalCopiedSpans \<ge> srcIlsSC
       then (True, (totalCopiedSpans + srcIlsSC, destRs @ [srcIls]), srcIls)
       else
         case RemoveIf (splitTraces_span sz) (totalCopiedSpans, []) (Items srcIls) of
           ((totalCopied', spans), left_over) \<Rightarrow>
             (False,
              (totalCopied',
               destRs @ [\<lparr>Scope = Scope srcIls, ScopeSchemaUrl = ScopeSchemaUrl srcIls, Items = spans\<rparr>]),
              srcIls\<lparr>Items := left_over\<rparr>))"

definition splitTraces_resource ::
  "int \<Rightarrow> (int \<times> ('res, 'sc, 'it) Data, ('res, 'sc, 'it) ResourceItems) callback" where
  "splitTraces_resource sz = (\<lambda>(totalCopiedSpans, dest) srcRs.
     if totalCopiedSpans = sz then (False, (totalCopiedSpans, dest), srcRs)
     else
       let srcRsSC = resourceSC srcRs in
       if totalCopiedSpans + srcRsSC \<le> sz
       then (True, (totalCopiedSpans + srcRsSC, dest @ [srcRs]), srcRs)
       else
         case RemoveIf (splitTraces_scope sz) (totalCopiedSpans, []) (Scopes srcRs) of
           ((totalCopied', scopes), left_over) \<Rightarrow>
             (left_over = [],
              (totalCopied',
               dest @ [\<lparr>Resource = Resource srcRs, SchemaUrl = SchemaUrl srcRs, Scopes = scopes,
                        DeprecatedScopes = []\<rparr>]),
              srcRs\<lparr>Scopes := left_over\<rparr>))"

definition splitTraces ::
  "int \<Rightarrow> ('res, 'sc, 'it) Data \<Rightarrow> int \<Rightarrow> ('res, 'sc, 'it) Data \<times> ('res, 'sc, 'it) Data" where
  "splitTraces sz src spans =
     (if spans \<le> sz then (src, src)
      else case RemoveIf (splitTraces_resource sz) (0, []) src of ((_, dest), src') \<Rightarrow> (dest, src'))"

section \<open>Splitting metrics\<close>

definition metricDPC :: "('md, 'n, 'h, 'e, 's) Metric \<Rightarrow> int" where
  "metricDPC ms =
     (case MData ms of
        Gauge dps \<Rightarrow> int (length dps)
      | Sum dps _ _ \<Rightarrow> int (length dps)
      | Histogram dps _ \<Rightarrow> int (length dps)
      | ExponentialHistogram dps _ \<Rightarrow> int (length dps)
      | Summary dps \<Rightarrow> int (length dps)
      | EmptyData \<Rightarrow> 0)"

definition scopeMetricsDPC :: "('sc, ('md, 'n, 'h, 'e, 's) Metric) ScopeItems \<Rightarrow> int" where
  "scopeMetricsDPC ilm = (\<Sum>m\<leftarrow>Items ilm. metricDPC m)"

definition resourceMetricsDPC :: "('res, 'sc, ('md, 'n, 'h, 'e, 's) Metric) ResourceItems \<Rightarrow> int" where
  "resourceMetricsDPC rs = (\<Sum>ilm\<leftarrow>Scopes rs. scopeMetricsDPC ilm)"

text \<open>The callback of the four functions that follow, with the counter \<open>i\<close> and the points of \<open>dst\<close>.\<close>

definition splitDataPoint :: "int \<Rightarrow> (int \<times> 'd list, 'd) callback" where
  "splitDataPoint sz = (\<lambda>(i, dst) dp.
     if i < sz then (True, (i + 1, dst @ [dp]), dp) else (False, (i, dst), dp))"

text \<open>Each returns what the code returns, and the points of the destination and of the source.\<close>

definition splitNumberDataPoints :: "'n list \<Rightarrow> 'n list \<Rightarrow> int \<Rightarrow> (int \<times> bool) \<times> 'n list \<times> 'n list" where
  "splitNumberDataPoints src dst sz =
     (case RemoveIf (splitDataPoint sz) (0, dst) src of ((_, dst'), src') \<Rightarrow> ((sz, False), dst', src'))"

definition splitHistogramDataPoints :: "'h list \<Rightarrow> 'h list \<Rightarrow> int \<Rightarrow> (int \<times> bool) \<times> 'h list \<times> 'h list" where
  "splitHistogramDataPoints src dst sz =
     (case RemoveIf (splitDataPoint sz) (0, dst) src of ((_, dst'), src') \<Rightarrow> ((sz, False), dst', src'))"

definition splitExponentialHistogramDataPoints ::
  "'e list \<Rightarrow> 'e list \<Rightarrow> int \<Rightarrow> (int \<times> bool) \<times> 'e list \<times> 'e list" where
  "splitExponentialHistogramDataPoints src dst sz =
     (case RemoveIf (splitDataPoint sz) (0, dst) src of ((_, dst'), src') \<Rightarrow> ((sz, False), dst', src'))"

definition splitSummaryDataPoints :: "'s list \<Rightarrow> 's list \<Rightarrow> int \<Rightarrow> (int \<times> bool) \<times> 's list \<times> 's list" where
  "splitSummaryDataPoints src dst sz =
     (case RemoveIf (splitDataPoint sz) (0, dst) src of ((_, dst'), src') \<Rightarrow> ((sz, False), dst', src'))"

text \<open>\<^verbatim>\<open>splitMetric\<close>: what it returns, the destination and the source.\<close>

definition splitMetric ::
  "('md, 'n, 'h, 'e, 's) Metric \<Rightarrow> ('md, 'n, 'h, 'e, 's) Metric \<Rightarrow> int \<Rightarrow>
     (int \<times> bool) \<times> ('md, 'n, 'h, 'e, 's) Metric \<times> ('md, 'n, 'h, 'e, 's) Metric" where
  "splitMetric ms dest sz =
     (let dest = dest\<lparr>Name := Name ms, Description := Description ms, Unit := Unit ms\<rparr> in
      case MData ms of
        Gauge dps \<Rightarrow>
          (case splitNumberDataPoints dps [] sz of (res, dst, src) \<Rightarrow>
             (res, dest\<lparr>MData := Gauge dst\<rparr>, ms\<lparr>MData := Gauge src\<rparr>))
      | Sum dps t mon \<Rightarrow>
          (case splitNumberDataPoints dps [] sz of (res, dst, src) \<Rightarrow>
             (res, dest\<lparr>MData := Sum dst t mon\<rparr>, ms\<lparr>MData := Sum src t mon\<rparr>))
      | Histogram dps t \<Rightarrow>
          (case splitHistogramDataPoints dps [] sz of (res, dst, src) \<Rightarrow>
             (res, dest\<lparr>MData := Histogram dst t\<rparr>, ms\<lparr>MData := Histogram src t\<rparr>))
      | ExponentialHistogram dps t \<Rightarrow>
          (case splitExponentialHistogramDataPoints dps [] sz of (res, dst, src) \<Rightarrow>
             (res, dest\<lparr>MData := ExponentialHistogram dst t\<rparr>, ms\<lparr>MData := ExponentialHistogram src t\<rparr>))
      | Summary dps \<Rightarrow>
          (case splitSummaryDataPoints dps [] sz of (res, dst, src) \<Rightarrow>
             (res, dest\<lparr>MData := Summary dst\<rparr>, ms\<lparr>MData := Summary src\<rparr>))
      | EmptyData \<Rightarrow> ((sz, False), dest, ms))"

text \<open>The metric that \<^verbatim>\<open>AppendEmpty\<close> adds.\<close>

definition empty_metric :: "('md, 'n, 'h, 'e, 's) Metric" where
  "empty_metric = \<lparr>Name = [], Description = [], Unit = [], MData = EmptyData, Metadata = []\<rparr>"

definition splitMetrics_metric ::
  "int \<Rightarrow> (int \<times> ('md, 'n, 'h, 'e, 's) Metric list, ('md, 'n, 'h, 'e, 's) Metric) callback" where
  "splitMetrics_metric sz = (\<lambda>(totalCopiedDataPoints, destIlm) srcMetric.
     if totalCopiedDataPoints = sz then (False, (totalCopiedDataPoints, destIlm), srcMetric)
     else
       let srcMetricPointCount = metricDPC srcMetric in
       if srcMetricPointCount + totalCopiedDataPoints \<le> sz
       then (True, (totalCopiedDataPoints + srcMetricPointCount, destIlm @ [srcMetric]), srcMetric)
       else
         case splitMetric srcMetric empty_metric (sz - totalCopiedDataPoints) of
           ((copiedDataPoints, remove), destMetric, srcMetric') \<Rightarrow>
             (remove, (totalCopiedDataPoints + copiedDataPoints, destIlm @ [destMetric]), srcMetric'))"

definition splitMetrics_scope ::
  "int \<Rightarrow> (int \<times> ('sc, ('md, 'n, 'h, 'e, 's) Metric) ScopeItems list,
            ('sc, ('md, 'n, 'h, 'e, 's) Metric) ScopeItems) callback" where
  "splitMetrics_scope sz = (\<lambda>(totalCopiedDataPoints, destRs) srcIlm.
     if totalCopiedDataPoints = sz then (False, (totalCopiedDataPoints, destRs), srcIlm)
     else
       let srcIlmDataPointCount = scopeMetricsDPC srcIlm in
       if srcIlmDataPointCount + totalCopiedDataPoints \<le> sz
       then (True, (totalCopiedDataPoints + srcIlmDataPointCount, destRs @ [srcIlm]), srcIlm)
       else
         case RemoveIf (splitMetrics_metric sz) (totalCopiedDataPoints, []) (Items srcIlm) of
           ((totalCopied', metrics), left_over) \<Rightarrow>
             (False,
              (totalCopied',
               destRs @ [\<lparr>Scope = Scope srcIlm, ScopeSchemaUrl = ScopeSchemaUrl srcIlm, Items = metrics\<rparr>]),
              srcIlm\<lparr>Items := left_over\<rparr>))"

definition splitMetrics_resource ::
  "int \<Rightarrow> (int \<times> ('res, 'sc, ('md, 'n, 'h, 'e, 's) Metric) Data,
            ('res, 'sc, ('md, 'n, 'h, 'e, 's) Metric) ResourceItems) callback" where
  "splitMetrics_resource sz = (\<lambda>(totalCopiedDataPoints, dest) srcRs.
     if totalCopiedDataPoints = sz then (False, (totalCopiedDataPoints, dest), srcRs)
     else
       let srcRsDataPointCount = resourceMetricsDPC srcRs in
       if totalCopiedDataPoints + srcRsDataPointCount \<le> sz
       then (True, (totalCopiedDataPoints + srcRsDataPointCount, dest @ [srcRs]), srcRs)
       else
         case RemoveIf (splitMetrics_scope sz) (totalCopiedDataPoints, []) (Scopes srcRs) of
           ((totalCopied', scopes), left_over) \<Rightarrow>
             (left_over = [],
              (totalCopied',
               dest @ [\<lparr>Resource = Resource srcRs, SchemaUrl = SchemaUrl srcRs, Scopes = scopes,
                        DeprecatedScopes = []\<rparr>]),
              srcRs\<lparr>Scopes := left_over\<rparr>))"

definition splitMetrics ::
  "int \<Rightarrow> ('res, 'sc, ('md, 'n, 'h, 'e, 's) Metric) Data \<Rightarrow> int \<Rightarrow>
     ('res, 'sc, ('md, 'n, 'h, 'e, 's) Metric) Data \<times> ('res, 'sc, ('md, 'n, 'h, 'e, 's) Metric) Data" where
  "splitMetrics sz src dataPoints =
     (if dataPoints \<le> sz then (src, src)
      else case RemoveIf (splitMetrics_resource sz) (0, []) src of ((_, dest), src') \<Rightarrow> (dest, src'))"

section \<open>Pending batches\<close>

record ('res, 'sc, 'it) batchLogs =
  logData :: "('res, 'sc, 'it) Data"
  logCount :: int

definition newBatchLogs :: "('res, 'sc, 'it) batchLogs" where
  "newBatchLogs = \<lparr>logData = [], logCount = 0\<rparr>"

definition batchLogs_add :: "('res, 'sc, 'it) batchLogs \<Rightarrow> ('res, 'sc, 'it) Data \<Rightarrow> ('res, 'sc, 'it) batchLogs" where
  "batchLogs_add bl ld =
     (let newLogsCount = LogRecordCount ld in
      if newLogsCount = 0 then bl
      else bl\<lparr>logCount := logCount bl + newLogsCount, logData := snd (MoveAndAppendTo ld (logData bl))\<rparr>)"

definition batchLogs_itemCount :: "('res, 'sc, 'it) batchLogs \<Rightarrow> int" where
  "batchLogs_itemCount bl = logCount bl"

definition batchLogs_split ::
  "('res, 'sc, 'it) batchLogs \<Rightarrow> int \<Rightarrow> (int \<times> ('res, 'sc, 'it) Data) \<times> ('res, 'sc, 'it) batchLogs" where
  "batchLogs_split bl sendBatchMaxSize =
     (if sendBatchMaxSize > 0 \<and> logCount bl > sendBatchMaxSize then
        (case splitLogs sendBatchMaxSize (logData bl) (logCount bl) of (ld, src) \<Rightarrow>
           ((sendBatchMaxSize, ld), bl\<lparr>logData := src, logCount := logCount bl - sendBatchMaxSize\<rparr>))
      else ((logCount bl, logData bl), bl\<lparr>logData := [], logCount := 0\<rparr>))"

record ('res, 'sc, 'it) batchTraces =
  traceData :: "('res, 'sc, 'it) Data"
  spanCount :: int

definition newBatchTraces :: "('res, 'sc, 'it) batchTraces" where
  "newBatchTraces = \<lparr>traceData = [], spanCount = 0\<rparr>"

definition batchTraces_add ::
  "('res, 'sc, 'it) batchTraces \<Rightarrow> ('res, 'sc, 'it) Data \<Rightarrow> ('res, 'sc, 'it) batchTraces" where
  "batchTraces_add bt td =
     (let newSpanCount = SpanCount td in
      if newSpanCount = 0 then bt
      else bt\<lparr>spanCount := spanCount bt + newSpanCount, traceData := snd (MoveAndAppendTo td (traceData bt))\<rparr>)"

definition batchTraces_itemCount :: "('res, 'sc, 'it) batchTraces \<Rightarrow> int" where
  "batchTraces_itemCount bt = spanCount bt"

definition batchTraces_split ::
  "('res, 'sc, 'it) batchTraces \<Rightarrow> int \<Rightarrow> (int \<times> ('res, 'sc, 'it) Data) \<times> ('res, 'sc, 'it) batchTraces" where
  "batchTraces_split bt sendBatchMaxSize =
     (if sendBatchMaxSize > 0 \<and> batchTraces_itemCount bt > sendBatchMaxSize then
        (case splitTraces sendBatchMaxSize (traceData bt) (spanCount bt) of (td, src) \<Rightarrow>
           ((sendBatchMaxSize, td), bt\<lparr>traceData := src, spanCount := spanCount bt - sendBatchMaxSize\<rparr>))
      else ((spanCount bt, traceData bt), bt\<lparr>traceData := [], spanCount := 0\<rparr>))"

record ('res, 'sc, 'md, 'n, 'h, 'e, 's) batchMetrics =
  metricData :: "('res, 'sc, ('md, 'n, 'h, 'e, 's) Metric) Data"
  dataPointCount :: int

definition newMetricsBatch :: "('res, 'sc, 'md, 'n, 'h, 'e, 's) batchMetrics" where
  "newMetricsBatch = \<lparr>metricData = [], dataPointCount = 0\<rparr>"

definition batchMetrics_add ::
  "('res, 'sc, 'md, 'n, 'h, 'e, 's) batchMetrics \<Rightarrow> ('res, 'sc, ('md, 'n, 'h, 'e, 's) Metric) Data \<Rightarrow>
     ('res, 'sc, 'md, 'n, 'h, 'e, 's) batchMetrics" where
  "batchMetrics_add bm md =
     (let newDataPointCount = DataPointCount md in
      if newDataPointCount = 0 then bm
      else bm\<lparr>dataPointCount := dataPointCount bm + newDataPointCount,
              metricData := snd (MoveAndAppendTo md (metricData bm))\<rparr>)"

definition batchMetrics_itemCount :: "('res, 'sc, 'md, 'n, 'h, 'e, 's) batchMetrics \<Rightarrow> int" where
  "batchMetrics_itemCount bm = dataPointCount bm"

definition batchMetrics_split ::
  "('res, 'sc, 'md, 'n, 'h, 'e, 's) batchMetrics \<Rightarrow> int \<Rightarrow>
     (int \<times> ('res, 'sc, ('md, 'n, 'h, 'e, 's) Metric) Data) \<times> ('res, 'sc, 'md, 'n, 'h, 'e, 's) batchMetrics" where
  "batchMetrics_split bm sendBatchMaxSize =
     (if sendBatchMaxSize > 0 \<and> dataPointCount bm > sendBatchMaxSize then
        (case splitMetrics sendBatchMaxSize (metricData bm) (dataPointCount bm) of (md, src) \<Rightarrow>
           ((sendBatchMaxSize, md),
            bm\<lparr>metricData := src, dataPointCount := dataPointCount bm - sendBatchMaxSize\<rparr>))
      else ((dataPointCount bm, metricData bm), bm\<lparr>metricData := [], dataPointCount := 0\<rparr>))"

section \<open>A split takes the first items\<close>

text \<open>
  A callback that moves items until \<open>sz\<close> of them are copied: \<open>items\<close> are the items of an element,
  \<open>out\<close> those of the destination. It does nothing once \<open>sz\<close> items are copied, and keeps an element
  only when that is the case.
\<close>

definition takes_first ::
  "int \<Rightarrow> ('x \<Rightarrow> 'i list) \<Rightarrow> ('d \<Rightarrow> 'i list) \<Rightarrow> (int \<times> 'd, 'x) callback \<Rightarrow> bool" where
  "takes_first sz items out f \<longleftrightarrow>
     (\<forall>d x. f (sz, d) x = (False, (sz, d), x)) \<and>
     (\<forall>t d x b t' d' x'. t < sz \<longrightarrow> f (t, d) x = (b, (t', d'), x') \<longrightarrow>
        (\<exists>new. items x = new @ (if b then [] else items x') \<and> out d' = out d @ new \<and>
               t' = t + int (length new) \<and> t' \<le> sz \<and> (\<not> b \<longrightarrow> t' = sz)))"

lemma takes_first_stop: "takes_first sz items out f \<Longrightarrow> remove_if f (sz, d) xs = ((sz, d), xs)"
  by (rule remove_if_idle) (simp add: takes_first_def)

lemma takes_first_run:
  assumes f: "takes_first sz items out f"
    and run: "remove_if f (t, d) xs = ((t', d'), ys)" and t: "t \<le> sz"
  shows "\<exists>new. concat (map items xs) = new @ concat (map items ys) \<and> out d' = out d @ new \<and>
    t' = t + int (length new) \<and> t' \<le> sz \<and> (t' < sz \<longrightarrow> ys = [])"
  using run t
proof (induction xs arbitrary: t d ys)
  case (Cons x xs)
  show ?case
  proof (cases "t = sz")
    case True
    then show ?thesis using Cons.prems takes_first_stop [OF f, of d "x # xs"] by auto
  next
    case False
    obtain b t1 d1 x1 where fx: "f (t, d) x = (b, (t1, d1), x1)" by (metis prod.exhaust)
    then obtain new1 where n1: "items x = new1 @ (if b then [] else items x1)" "out d1 = out d @ new1"
      "t1 = t + int (length new1)" "t1 \<le> sz" "\<not> b \<longrightarrow> t1 = sz"
      using f False Cons.prems(2) unfolding takes_first_def by (metis order_less_le)
    then obtain zs where rest: "remove_if f (t1, d1) xs = ((t', d'), zs)" and res: "ys = (if b then zs else x1 # zs)"
      using Cons.prems(1) fx by (auto split: prod.splits)
    show ?thesis
    proof (cases b)
      case True
      then show ?thesis using Cons.IH [OF rest n1(4)] n1 res by fastforce
    next
      case False
      then have "remove_if f (t1, d1) xs = ((t1, d1), xs)" using takes_first_stop [OF f] n1(5) by simp
      then show ?thesis using False rest n1 res by auto
    qed
  qed
qed simp

text \<open>
  One level of the tree: an element that fits is moved whole, of another one the children are taken
  by \<open>g\<close> into a copy of its header. \<open>h\<close> labels the items of an element.
\<close>

lemma takes_first_level:
  assumes g: "takes_first sz child_items (\<lambda>cs. concat (map child_items cs)) g"
    and f: "\<And>t d x. f (t, d) x =
      (if t = sz then (False, (t, d), x)
       else if count x + t \<le> sz then (True, (t + count x, d @ [x]), x)
       else case RemoveIf g (t, []) (children x) of
         ((t', cs), rest) \<Rightarrow> (rem rest, (t', d @ [copy x cs]), upd x rest))"
    and items: "\<And>x. items x = map (Pair (h x)) (concat (map child_items (children x)))"
    and copies: "\<And>x cs. items (copy x cs) = map (Pair (h x)) (concat (map child_items cs))"
      "\<And>x cs. items (upd x cs) = map (Pair (h x)) (concat (map child_items cs))"
    and count: "\<And>x. count x = int (length (items x))"
    and rem: "\<And>rest. rem rest \<Longrightarrow> rest = []"
  shows "takes_first sz items (\<lambda>xs. concat (map items xs)) f"
  unfolding takes_first_def
proof (intro conjI allI impI)
  show "f (sz, d) x = (False, (sz, d), x)" for d x by (simp add: f)
  fix t d x b t' d' x' assume t: "t < sz" and fx: "f (t, d) x = (b, (t', d'), x')"
  show "\<exists>new. items x = new @ (if b then [] else items x') \<and> concat (map items d') = concat (map items d) @ new \<and>
      t' = t + int (length new) \<and> t' \<le> sz \<and> (\<not> b \<longrightarrow> t' = sz)"
  proof (cases "count x + t \<le> sz")
    case True
    then show ?thesis using t fx by (auto simp: f count)
  next
    case False
    obtain t1 cs rest where run: "remove_if g (t, []) (children x) = ((t1, cs), rest)" by (metis prod.exhaust)
    then obtain new where n: "concat (map child_items (children x)) = new @ concat (map child_items rest)"
      "concat (map child_items cs) = new" "t1 = t + int (length new)" "t1 \<le> sz" "t1 < sz \<longrightarrow> rest = []"
      using takes_first_run [OF g run] t by auto
    have full: "t1 = sz"
    proof (rule ccontr)
      assume "t1 \<noteq> sz"
      then have "rest = []" using n by simp
      then have "count x = int (length new)" using n(1) by (simp add: count items)
      then show False using False n(3,4) by simp
    qed
    have res: "b = rem rest" "t' = t1" "d' = d @ [copy x cs]" "x' = upd x rest"
      using fx t False run by (simp_all add: f)
    show ?thesis
    proof (rule exI [of _ "map (Pair (h x)) new"], cases b)
      case True
      then have "rest = []" using rem res(1) by simp
      then show "items x = map (Pair (h x)) new @ (if b then [] else items x') \<and>
          concat (map items d') = concat (map items d) @ map (Pair (h x)) new \<and>
          t' = t + int (length (map (Pair (h x)) new)) \<and> t' \<le> sz \<and> (\<not> b \<longrightarrow> t' = sz)"
        using True res(2-4) n full by (simp add: items [of x] copies)
    next
      case False
      then show "items x = map (Pair (h x)) new @ (if b then [] else items x') \<and>
          concat (map items d') = concat (map items d) @ map (Pair (h x)) new \<and>
          t' = t + int (length (map (Pair (h x)) new)) \<and> t' \<le> sz \<and> (\<not> b \<longrightarrow> t' = sz)"
        using res(2-4) n full by (simp add: items [of x] copies)
    qed
  qed
qed

text \<open>Log records and spans: the same shape, so the two callbacks of each level agree.\<close>

lemma splitTraces_span_same: "splitTraces_span = splitLogs_record"
  by (simp add: splitTraces_span_def splitLogs_record_def fun_eq_iff)

lemma splitTraces_scope_same: "splitTraces_scope = splitLogs_scope"
  unfolding splitTraces_scope_def splitLogs_scope_def splitTraces_span_same le_diff_eq by simp

lemma splitTraces_same: "splitTraces = splitLogs"
  unfolding splitTraces_def splitLogs_def splitTraces_resource_def splitLogs_resource_def
    splitTraces_scope_same resourceSC_def resourceLRC_def by simp

lemma splitLogs_record_takes: "takes_first sz (\<lambda>x. [x]) (\<lambda>xs. concat (map (\<lambda>x. [x]) xs)) (splitLogs_record sz)"
  by (simp add: takes_first_def splitLogs_record_def)

lemma splitLogs_scope_takes: "takes_first sz scope_items (\<lambda>xs. concat (map scope_items xs)) (splitLogs_scope sz)"
  by (rule takes_first_level [OF splitLogs_record_takes, where count = "\<lambda>x. int (length (Items x))"
      and children = Items and rem = "\<lambda>_. False" and h = "\<lambda>x. x\<lparr>Items := []\<rparr>"
      and copy = "\<lambda>x cs. \<lparr>Scope = Scope x, ScopeSchemaUrl = ScopeSchemaUrl x, Items = cs\<rparr>"
      and upd = "\<lambda>x cs. x\<lparr>Items := cs\<rparr>"])
    (simp_all add: splitLogs_scope_def Let_def scope_items_def)

lemma resourceLRC_items: "resourceLRC rl = int (length (resource_items rl))"
  unfolding resourceLRC_def resource_items_def length_map length_scope_items ..

lemma splitLogs_resource_takes:
  "takes_first sz resource_items (\<lambda>xs. concat (map resource_items xs)) (splitLogs_resource sz)"
  by (rule takes_first_level [OF splitLogs_scope_takes, where count = resourceLRC
      and children = Scopes and rem = "\<lambda>rest. rest = []" and h = "\<lambda>x. x\<lparr>Scopes := [], DeprecatedScopes := []\<rparr>"
      and copy = "\<lambda>x cs. \<lparr>Resource = Resource x, SchemaUrl = SchemaUrl x, Scopes = cs, DeprecatedScopes = []\<rparr>"
      and upd = "\<lambda>x cs. x\<lparr>Scopes := cs\<rparr>"])
    (simp_all add: splitLogs_resource_def Let_def resource_items_def resourceLRC_items add.commute)

lemma splitLogs_takes:
  assumes "splitLogs sz src (LogRecordCount src) = (dest, src')" "0 \<le> sz" "sz < LogRecordCount src"
  shows "data_items src = data_items dest @ data_items src' \<and> int (length (data_items dest)) = sz"
proof -
  obtain t where run: "remove_if (splitLogs_resource sz) (0, []) src = ((t, dest), src')"
    using assms(1,3) by (auto simp: splitLogs_def split: prod.splits)
  show ?thesis
    using takes_first_run [OF splitLogs_resource_takes run assms(2)] assms(3)
    by (auto simp: LogRecordCount_items data_items_def)
qed

text \<open>
  Data points, known with the headers of their resource, scope and metric, but without the metadata
  of the metric, which \<^verbatim>\<open>splitMetric\<close> does not copy.
\<close>

definition bare_metric_points where
  "bare_metric_points m = metric_points (m\<lparr>Metadata := []\<rparr>)"

definition bare_scope_points where
  "bare_scope_points sm = map (Pair (sm\<lparr>Items := []\<rparr>)) (concat (map bare_metric_points (Items sm)))"

definition bare_resource_points where
  "bare_resource_points rm =
     map (Pair (rm\<lparr>Scopes := [], DeprecatedScopes := []\<rparr>)) (concat (map bare_scope_points (Scopes rm)))"

definition bare_points where
  "bare_points md = concat (map bare_resource_points md)"

lemma metricDPC_points: "metricDPC m = int (data_points_len (MData m))"
  by (cases "MData m") (simp_all add: metricDPC_def)

lemma length_bare_metric_points: "int (length (bare_metric_points m)) = metricDPC m"
  by (simp add: bare_metric_points_def metricDPC_points)

lemma length_bare_scope_points: "int (length (bare_scope_points sm)) = scopeMetricsDPC sm"
  by (simp add: bare_scope_points_def scopeMetricsDPC_def int_length_concat_map length_bare_metric_points)

lemma length_bare_resource_points: "int (length (bare_resource_points rm)) = resourceMetricsDPC rm"
  by (simp add: bare_resource_points_def resourceMetricsDPC_def int_length_concat_map length_bare_scope_points)

lemma length_bare_points: "int (length (bare_points md)) = DataPointCount md"
  by (simp add: bare_points_def int_length_concat_map length_bare_resource_points)
    (simp add: DataPointCount_def resourceMetricsDPC_def scopeMetricsDPC_def metricDPC_points)

lemma splitDataPoint_run:
  "remove_if (splitDataPoint sz) (i, dst) src =
     ((i + int (length (take (nat (sz - i)) src)), dst @ take (nat (sz - i)) src), drop (nat (sz - i)) src)"
proof (induction src arbitrary: i dst)
  case (Cons d src)
  show ?case
  proof (cases "i < sz")
    case True
    then have "nat (sz - i) = Suc (nat (sz - (i + 1)))" by simp
    then show ?thesis using True Cons by (simp add: splitDataPoint_def)
  next
    case False
    then show ?thesis using Cons by (simp add: splitDataPoint_def)
  qed
qed simp

lemmas splitDataPoints_defs = splitNumberDataPoints_def splitHistogramDataPoints_def
  splitExponentialHistogramDataPoints_def splitSummaryDataPoints_def

lemma bare_header:
  "m\<lparr>Metadata := [], MData := d\<rparr> = \<lparr>Name = Name m, Description = Description m, Unit = Unit m, MData = d, Metadata = []\<rparr>"
  by simp

lemma splitMetric_takes:
  assumes "splitMetric m empty_metric sz = (res, dest, m')" "0 \<le> sz" "sz < metricDPC m"
  shows "res = (sz, False) \<and> bare_metric_points m = bare_metric_points dest @ bare_metric_points m' \<and>
    int (length (bare_metric_points dest)) = sz"
  using assms
  by (cases "MData m")
    (auto simp: splitMetric_def splitDataPoints_defs splitDataPoint_run empty_metric_def bare_metric_points_def
      metric_points_def metricDPC_def bare_header simp flip: map_append)

lemma splitMetrics_metric_takes:
  "takes_first sz bare_metric_points (\<lambda>ms. concat (map bare_metric_points ms)) (splitMetrics_metric sz)"
  unfolding takes_first_def
proof (intro conjI allI impI)
  show "splitMetrics_metric sz (sz, d) x = (False, (sz, d), x)" for d x by (simp add: splitMetrics_metric_def)
  fix t d x b t' d' x' assume t: "t < sz" and fx: "splitMetrics_metric sz (t, d) x = (b, (t', d'), x')"
  show "\<exists>new. bare_metric_points x = new @ (if b then [] else bare_metric_points x') \<and>
      concat (map bare_metric_points d') = concat (map bare_metric_points d) @ new \<and>
      t' = t + int (length new) \<and> t' \<le> sz \<and> (\<not> b \<longrightarrow> t' = sz)"
  proof (cases "metricDPC x + t \<le> sz")
    case True
    then show ?thesis using t fx by (auto simp: splitMetrics_metric_def length_bare_metric_points)
  next
    case False
    obtain res dest m where sp: "splitMetric x empty_metric (sz - t) = (res, dest, m)" by (metis prod.exhaust)
    have "res = (sz - t, False) \<and> bare_metric_points x = bare_metric_points dest @ bare_metric_points m \<and>
        int (length (bare_metric_points dest)) = sz - t"
      by (rule splitMetric_takes [OF sp]) (use t False in simp_all)
    then show ?thesis using t False fx sp by (auto simp: splitMetrics_metric_def Let_def)
  qed
qed

lemma splitMetrics_scope_takes:
  "takes_first sz bare_scope_points (\<lambda>xs. concat (map bare_scope_points xs)) (splitMetrics_scope sz)"
  by (rule takes_first_level [OF splitMetrics_metric_takes, where count = scopeMetricsDPC
      and children = Items and rem = "\<lambda>_. False" and h = "\<lambda>x. x\<lparr>Items := []\<rparr>"
      and copy = "\<lambda>x cs. \<lparr>Scope = Scope x, ScopeSchemaUrl = ScopeSchemaUrl x, Items = cs\<rparr>"
      and upd = "\<lambda>x cs. x\<lparr>Items := cs\<rparr>"])
    (simp_all add: splitMetrics_scope_def Let_def bare_scope_points_def flip: length_bare_scope_points)

lemma splitMetrics_resource_takes:
  "takes_first sz bare_resource_points (\<lambda>xs. concat (map bare_resource_points xs)) (splitMetrics_resource sz)"
  by (rule takes_first_level [OF splitMetrics_scope_takes, where count = resourceMetricsDPC
      and children = Scopes and rem = "\<lambda>rest. rest = []" and h = "\<lambda>x. x\<lparr>Scopes := [], DeprecatedScopes := []\<rparr>"
      and copy = "\<lambda>x cs. \<lparr>Resource = Resource x, SchemaUrl = SchemaUrl x, Scopes = cs, DeprecatedScopes = []\<rparr>"
      and upd = "\<lambda>x cs. x\<lparr>Scopes := cs\<rparr>"])
    (simp_all add: splitMetrics_resource_def Let_def bare_resource_points_def add.commute
      flip: length_bare_resource_points)

lemma splitMetrics_takes:
  assumes "splitMetrics sz src (DataPointCount src) = (dest, src')" "0 \<le> sz" "sz < DataPointCount src"
  shows "bare_points src = bare_points dest @ bare_points src' \<and> int (length (bare_points dest)) = sz"
proof -
  obtain t where run: "remove_if (splitMetrics_resource sz) (0, []) src = ((t, dest), src')"
    using assms(1,3) by (auto simp: splitMetrics_def split: prod.splits)
  show ?thesis
    using takes_first_run [OF splitMetrics_resource_takes run assms(2)] assms(3)
    by (auto simp: bare_points_def simp flip: length_bare_points)
qed

section \<open>The metadata of a split metric\<close>

lemma splitMetric_parts:
  assumes "splitMetric m empty_metric sz = (res, dest, m')"
  shows "Metadata dest = [] \<and> Metadata m' = Metadata m \<and> res = (sz, False) \<and>
    data_points (MData m) = data_points (MData dest) @ data_points (MData m')"
  using assms
  by (cases "MData m")
    (auto simp: splitMetric_def splitDataPoints_defs splitDataPoint_run empty_metric_def simp flip: map_append)

lemma extractMetricDataPoints_metadata: "Metadata (fst (extractMetricDataPoints m c sizer)) = Metadata m"
  by (cases "MData m")
    (auto simp: extractMetricDataPoints_def extractGaugeDataPoints_def extractSumDataPoints_def extractHistogramDataPoints_def
      extractExponentialHistogramDataPoints_def extractSummaryDataPoints_def Let_def split: prod.splits)



end
