(* ===== verification/BatchProcessor.thy ===== *)
theory BatchProcessor
  imports BatchSplit PartitionKey "HOL-Library.List_Lexorder"
begin

text \<open>
  The batch processor: \<^verbatim>\<open>processor/batchprocessor/batch_processor.go\<close>, \<^verbatim>\<open>config.go\<close> and the \<^verbatim>\<open>record\<close> function of
  \<^verbatim>\<open>metrics.go\<close>.

  Each shard is a goroutine that takes items from its channel, adds them to the pending batch and
  exports batches when enough items are pending, when its timer fires and at shutdown. The processor
  has one shard, or one for each combination of the values of the configured metadata keys.

  The body of a \<^verbatim>\<open>select\<close> case is one step. While it runs, others can only append to the channel and the
  timer can only fire, which the body does not see before \<^verbatim>\<open>stopTimer\<close>; both could as well have happened
  before it. The next consumer is an argument that decides, from what it received before, whether it
  fails; so is the number of processors, which is the capacity of a channel. The standard library
  has had two kinds of timer channels; \<open>asyncTimer\<close> says whether a value that was sent stays in the
  channel when the timer is stopped. Metadata keys and values are byte strings, and lower-casing
  is the argument \<open>lower\<close>.
\<close>

section \<open>Configuration\<close>

record BatchConfig =
  cfg_Timeout :: int
  cfg_SendBatchSize :: "32 word"
  cfg_SendBatchMaxSize :: "32 word"
  cfg_MetadataKeys :: "byte list list"
  cfg_MetadataCardinalityLimit :: "32 word"

datatype batch_config_error =
    MaxSizeBelowSize
  | DuplicateEntry "byte list"
  | NegativeTimeout

fun repeated_key :: "(byte list \<Rightarrow> byte list) \<Rightarrow> byte list list \<Rightarrow> byte list list \<Rightarrow> byte list option" where
  "repeated_key lower uniq [] = None"
| "repeated_key lower uniq (k # ks) =
     (let l = lower k in if l \<in> set uniq then Some l else repeated_key lower (l # uniq) ks)"

definition BatchConfig_Validate :: "(byte list \<Rightarrow> byte list) \<Rightarrow> BatchConfig \<Rightarrow> batch_config_error option" where
  "BatchConfig_Validate lower cfg =
     (if cfg_SendBatchMaxSize cfg > 0 \<and> cfg_SendBatchMaxSize cfg < cfg_SendBatchSize cfg then Some MaxSizeBelowSize
      else case repeated_key lower [] (cfg_MetadataKeys cfg) of
        Some l \<Rightarrow> Some (DuplicateEntry l)
      | None \<Rightarrow> if cfg_Timeout cfg < 0 then Some NegativeTimeout else None)"

definition createDefaultConfig :: BatchConfig where
  "createDefaultConfig = \<lparr>cfg_Timeout = 200 * 1000000, cfg_SendBatchSize = 8192, cfg_SendBatchMaxSize = 0,
     cfg_MetadataKeys = [], cfg_MetadataCardinalityLimit = 1000\<rparr>"

section \<open>Shards\<close>

text \<open>The interface \<^verbatim>\<open>batch\<close> without \<^verbatim>\<open>export\<close>, which calls the next consumer, and the factory \<^verbatim>\<open>batchFunc\<close>.\<close>

record ('b, 't) batch_type =
  new_batch :: 'b
  itemCount :: "'b \<Rightarrow> int"
  add :: "'b \<Rightarrow> 't \<Rightarrow> 'b"
  split :: "'b \<Rightarrow> int \<Rightarrow> (int \<times> 't) \<times> 'b"
  sizeBytes :: "'t \<Rightarrow> int"

record batchProcessor =
  timeout :: int
  sendBatchSize :: int
  sendBatchMaxSize :: int

text \<open>What the processor runs in.\<close>

record 't environment =
  nextFails :: "'t list \<Rightarrow> 't \<Rightarrow> bool"
  bytesEnabled :: bool
  numCPU :: nat
  asyncTimer :: bool

record timer =
  running :: bool
  value_waiting :: bool

datatype trigger = triggerTimeout | triggerBatchSize

record batchProcessorTelemetry =
  BatchSizeTriggerSend :: int
  TimeoutTriggerSend :: int
  BatchSendSize :: "int list"
  BatchSendSizeBytes :: "int list"

datatype phase = Running | Draining | Returned

text \<open>\<open>exports\<close> are the calls of the next consumer, in order; \<open>exportMetadata\<close> is the metadata of \<^verbatim>\<open>exportCtx\<close>.\<close>

record ('b, 't) shard =
  batch :: 'b
  newItem :: "'t list"
  timer :: "timer option"
  exportMetadata :: metadata
  telemetry :: batchProcessorTelemetry
  phase :: phase
  exports :: "'t list"

definition newTelemetry :: batchProcessorTelemetry where
  "newTelemetry = \<lparr>BatchSizeTriggerSend = 0, TimeoutTriggerSend = 0, BatchSendSize = [], BatchSendSizeBytes = []\<rparr>"

definition record_batch :: "trigger \<Rightarrow> int \<Rightarrow> int \<Rightarrow> batchProcessorTelemetry \<Rightarrow> batchProcessorTelemetry" where
  "record_batch tr sent bytes bpt =
     (let bpt = (case tr of
          triggerBatchSize \<Rightarrow> bpt\<lparr>BatchSizeTriggerSend := BatchSizeTriggerSend bpt + 1\<rparr>
        | triggerTimeout \<Rightarrow> bpt\<lparr>TimeoutTriggerSend := TimeoutTriggerSend bpt + 1\<rparr>)
      in bpt\<lparr>BatchSendSize := BatchSendSize bpt @ [sent], BatchSendSizeBytes := BatchSendSizeBytes bpt @ [bytes]\<rparr>)"

definition newShard :: "(byte list \<Rightarrow> byte list) \<Rightarrow> ('b, 't) batch_type \<Rightarrow> metadata \<Rightarrow> ('b, 't) shard" where
  "newShard lower B md =
     \<lparr>batch = new_batch B, newItem = [], timer = None, exportMetadata = NewMetadata lower md,
      telemetry = newTelemetry, phase = Running, exports = []\<rparr>"

text \<open>The start of \<^verbatim>\<open>startLoop\<close>.\<close>

definition start_timer :: "batchProcessor \<Rightarrow> ('b, 't) shard \<Rightarrow> ('b, 't) shard" where
  "start_timer bp b =
     (if timeout bp \<noteq> 0 \<and> sendBatchSize bp \<noteq> 0
      then b\<lparr>timer := Some \<lparr>running = True, value_waiting = False\<rparr>\<rparr> else b)"

definition hasTimer :: "('b, 't) shard \<Rightarrow> bool" where
  "hasTimer b \<longleftrightarrow> timer b \<noteq> None"

text \<open>\<^verbatim>\<open>Stop\<close> and \<^verbatim>\<open>Reset\<close> of \<^verbatim>\<open>time.Timer\<close>.\<close>

definition Timer_Stop :: "bool \<Rightarrow> timer \<Rightarrow> bool \<times> timer" where
  "Timer_Stop async tm =
     (if async then (running tm, tm\<lparr>running := False\<rparr>)
      else (running tm \<or> value_waiting tm, \<lparr>running = False, value_waiting = False\<rparr>))"

definition Timer_Reset :: "bool \<Rightarrow> timer \<Rightarrow> timer" where
  "Timer_Reset async tm =
     (if async then tm\<lparr>running := True\<rparr> else \<lparr>running = True, value_waiting = False\<rparr>)"

text \<open>\<open>None\<close>: the receive from an empty channel blocks.\<close>

definition stopTimer :: "'t environment \<Rightarrow> ('b, 't) shard \<Rightarrow> ('b, 't) shard option" where
  "stopTimer E b =
     (case timer b of
        None \<Rightarrow> Some b
      | Some tm \<Rightarrow>
          (case Timer_Stop (asyncTimer E) tm of (stopped, tm') \<Rightarrow>
             if stopped then Some (b\<lparr>timer := Some tm'\<rparr>)
             else if value_waiting tm' then Some (b\<lparr>timer := Some (tm'\<lparr>value_waiting := False\<rparr>)\<rparr>)
             else None))"

definition shard_resetTimer :: "'t environment \<Rightarrow> ('b, 't) shard \<Rightarrow> ('b, 't) shard" where
  "shard_resetTimer E b =
     (case timer b of
        None \<Rightarrow> b
      | Some tm \<Rightarrow> b\<lparr>timer := Some (Timer_Reset (asyncTimer E) tm)\<rparr>)"

text \<open>A batch whose export fails is logged and given up.\<close>

definition sendItems ::
  "'t environment \<Rightarrow> batchProcessor \<Rightarrow> ('b, 't) batch_type \<Rightarrow> trigger \<Rightarrow> ('b, 't) shard \<Rightarrow> ('b, 't) shard" where
  "sendItems E bp B tr b =
     (case split B (batch b) (sendBatchMaxSize bp) of ((sent, req), left_over) \<Rightarrow>
        let bytes = (if bytesEnabled E then sizeBytes B req else 0);
            failed = nextFails E (exports b) req;
            b = b\<lparr>batch := left_over, exports := exports b @ [req]\<rparr>
        in if failed then b else b\<lparr>telemetry := record_batch tr sent bytes (telemetry b)\<rparr>)"

partial_function (option) send_loop ::
  "'t environment \<Rightarrow> batchProcessor \<Rightarrow> ('b, 't) batch_type \<Rightarrow> bool \<Rightarrow> ('b, 't) shard \<Rightarrow> (bool \<times> ('b, 't) shard) option" where
  "send_loop E bp B sent b =
     (if itemCount B (batch b) > 0 \<and> (\<not> hasTimer b \<or> itemCount B (batch b) \<ge> sendBatchSize bp)
      then send_loop E bp B True (sendItems E bp B triggerBatchSize b)
      else Some (sent, b))"

declare send_loop.simps [code]

definition processItem ::
  "'t environment \<Rightarrow> batchProcessor \<Rightarrow> ('b, 't) batch_type \<Rightarrow> 't \<Rightarrow> ('b, 't) shard \<Rightarrow> ('b, 't) shard option" where
  "processItem E bp B item b =
     (case send_loop E bp B False (b\<lparr>batch := add B (batch b) item\<rparr>) of
        None \<Rightarrow> None
      | Some (sent, b) \<Rightarrow> if sent then map_option (shard_resetTimer E) (stopTimer E b) else Some b)"

text \<open>The cases of the \<^verbatim>\<open>select\<close> statements of \<^verbatim>\<open>startLoop\<close>: an item, the timer, and the end of draining.\<close>

definition item_case ::
  "'t environment \<Rightarrow> batchProcessor \<Rightarrow> ('b, 't) batch_type \<Rightarrow> ('b, 't) shard \<Rightarrow> ('b, 't) shard option" where
  "item_case E bp B b =
     (case newItem b of
        [] \<Rightarrow> None
      | item # items \<Rightarrow> processItem E bp B item (b\<lparr>newItem := items\<rparr>))"

definition timer_case ::
  "'t environment \<Rightarrow> batchProcessor \<Rightarrow> ('b, 't) batch_type \<Rightarrow> ('b, 't) shard \<Rightarrow> ('b, 't) shard" where
  "timer_case E bp B b =
     (let b = b\<lparr>timer := map_option (\<lambda>tm. tm\<lparr>value_waiting := False\<rparr>) (timer b)\<rparr>;
          b = (if itemCount B (batch b) > 0 then sendItems E bp B triggerTimeout b else b)
      in shard_resetTimer E b)"

definition drained_case ::
  "'t environment \<Rightarrow> batchProcessor \<Rightarrow> ('b, 't) batch_type \<Rightarrow> ('b, 't) shard \<Rightarrow> ('b, 't) shard" where
  "drained_case E bp B b =
     (let b = (if itemCount B (batch b) > 0 then sendItems E bp B triggerTimeout b else b)
      in b\<lparr>phase := Returned\<rparr>)"

text \<open>One step of the goroutine or of its timer; \<open>closed\<close> says that \<^verbatim>\<open>shutdownC\<close> is closed.\<close>

inductive shard_step ::
  "'t environment \<Rightarrow> batchProcessor \<Rightarrow> ('b, 't) batch_type \<Rightarrow> bool \<Rightarrow> ('b, 't) shard \<Rightarrow> ('b, 't) shard \<Rightarrow> bool"
  for E bp B where
  fire: "timer b = Some tm \<Longrightarrow> running tm \<Longrightarrow>
    shard_step E bp B closed b (b\<lparr>timer := Some \<lparr>running = False, value_waiting = True\<rparr>\<rparr>)"
| item: "phase b = Running \<Longrightarrow> item_case E bp B b = Some b' \<Longrightarrow> shard_step E bp B closed b b'"
| timer: "phase b = Running \<Longrightarrow> timer b = Some tm \<Longrightarrow> value_waiting tm \<Longrightarrow>
    shard_step E bp B closed b (timer_case E bp B b)"
| shutdown: "phase b = Running \<Longrightarrow> closed \<Longrightarrow> shard_step E bp B closed b (b\<lparr>phase := Draining\<rparr>)"
| drain: "phase b = Draining \<Longrightarrow> item_case E bp B b = Some b' \<Longrightarrow> shard_step E bp B closed b b'"
| drained: "phase b = Draining \<Longrightarrow> newItem b = [] \<Longrightarrow> shard_step E bp B closed b (drained_case E bp B b)"

text \<open>A send to the channel, which blocks while the channel is full.\<close>

definition send_item :: "'t environment \<Rightarrow> 't \<Rightarrow> ('b, 't) shard \<Rightarrow> ('b, 't) shard option" where
  "send_item E item b = (if length (newItem b) < numCPU E then Some (b\<lparr>newItem := newItem b @ [item]\<rparr>) else None)"

section \<open>The processor\<close>

definition newBatchProcessor :: "BatchConfig \<Rightarrow> batchProcessor" where
  "newBatchProcessor cfg = \<lparr>timeout = cfg_Timeout cfg, sendBatchSize = uint (cfg_SendBatchSize cfg),
     sendBatchMaxSize = uint (cfg_SendBatchMaxSize cfg)\<rparr>"

definition processor_metadataKeys :: "(byte list \<Rightarrow> byte list) \<Rightarrow> BatchConfig \<Rightarrow> byte list list" where
  "processor_metadataKeys lower cfg = sort (map lower (cfg_MetadataKeys cfg))"

text \<open>
  The processor without metadata keys: \<^verbatim>\<open>singleShardBatcher\<close>. The states it can reach from \<^verbatim>\<open>Start\<close>:
  whether \<^verbatim>\<open>Shutdown\<close> was called, the shard, and the data consumed so far.
\<close>

inductive single_run ::
  "(byte list \<Rightarrow> byte list) \<Rightarrow> 't environment \<Rightarrow> batchProcessor \<Rightarrow> ('b, 't) batch_type \<Rightarrow> bool \<Rightarrow>
     ('b, 't) shard \<Rightarrow> 't list \<Rightarrow> bool"
  for lower E bp B where
  single_start: "single_run lower E bp B False (start_timer bp (newShard lower B [])) []"
| single_consume: "single_run lower E bp B closed b ts \<Longrightarrow> send_item E item b = Some b' \<Longrightarrow>
    single_run lower E bp B closed b' (ts @ [item])"
| single_step: "single_run lower E bp B closed b ts \<Longrightarrow> shard_step E bp B closed b b' \<Longrightarrow>
    single_run lower E bp B closed b' ts"
| single_shutdown: "single_run lower E bp B False b ts \<Longrightarrow> single_run lower E bp B True b ts"

text \<open>
  The processor with metadata keys: \<^verbatim>\<open>multiShardBatcher\<close>. The attribute set of a client is made by the
  argument \<open>NewSet\<close>, the function \<^verbatim>\<open>attribute.NewSet\<close> of a library; it is used as a key of a map.
\<close>

datatype attribute_value = AttributeString "byte list" | AttributeStringSlice "byte list list"

record ('k, 'b, 't) multiShardBatcher =
  metadataKeys :: "byte list list"
  metadataLimit :: int
  batchers :: "'k \<Rightarrow> ('b, 't) shard option"
  batchers_size :: int

definition newMultiShardBatcher :: "(byte list \<Rightarrow> byte list) \<Rightarrow> BatchConfig \<Rightarrow> ('k, 'b, 't) multiShardBatcher" where
  "newMultiShardBatcher lower cfg =
     \<lparr>metadataKeys = processor_metadataKeys lower cfg, metadataLimit = uint (cfg_MetadataCardinalityLimit cfg),
      batchers = Map.empty, batchers_size = 0\<rparr>"

definition client_attrs ::
  "(byte list \<Rightarrow> byte list) \<Rightarrow> byte list list \<Rightarrow> metadata \<Rightarrow> (byte list \<times> attribute_value) list" where
  "client_attrs lower keys info =
     map (\<lambda>k. let vs = Metadata_Get lower info k in
              if length vs = 1 then (k, AttributeString (vs ! 0)) else (k, AttributeStringSlice vs)) keys"

definition client_set ::
  "(byte list \<Rightarrow> byte list) \<Rightarrow> ((byte list \<times> attribute_value) list \<Rightarrow> 'k) \<Rightarrow> byte list list \<Rightarrow> metadata \<Rightarrow> 'k" where
  "client_set lower NewSet keys info = NewSet (client_attrs lower keys info)"

definition client_metadata :: "(byte list \<Rightarrow> byte list) \<Rightarrow> byte list list \<Rightarrow> metadata \<Rightarrow> metadata" where
  "client_metadata lower keys info =
     foldl (\<lambda>md k. (k, Metadata_Get lower info k) # filter (\<lambda>e. fst e \<noteq> k) md) [] keys"

text \<open>The critical section of \<^verbatim>\<open>consume\<close>: whether the data is accepted, and the batcher afterwards.\<close>

definition consume_locked ::
  "(byte list \<Rightarrow> byte list) \<Rightarrow> ((byte list \<times> attribute_value) list \<Rightarrow> 'k) \<Rightarrow> batchProcessor \<Rightarrow> ('b, 't) batch_type \<Rightarrow>
     metadata \<Rightarrow> ('k, 'b, 't) multiShardBatcher \<Rightarrow> bool \<times> ('k, 'b, 't) multiShardBatcher" where
  "consume_locked lower NewSet bp B info mb =
     (let aset = client_set lower NewSet (metadataKeys mb) info in
      if metadataLimit mb \<noteq> 0 \<and> batchers_size mb \<ge> metadataLimit mb then (False, mb)
      else
        let md = client_metadata lower (metadataKeys mb) info in
        case batchers mb aset of
          Some _ \<Rightarrow> (True, mb)
        | None \<Rightarrow>
            (True, mb\<lparr>batchers := (batchers mb)(aset \<mapsto> start_timer bp (newShard lower B md)),
                      batchers_size := batchers_size mb + 1\<rparr>))"

text \<open>
  The interleavings of clients, goroutines and timers. A client first looks its set up; if that
  fails it waits for the lock (\<open>missed\<close>); then it waits for room in the channel of its shard
  (\<open>ready\<close>). \<open>sent\<close> and \<open>refused\<close> are the calls of \<^verbatim>\<open>consume\<close> that returned nil and \<^verbatim>\<open>errTooManyBatchers\<close>.
\<close>

record ('k, 'b, 't) multi_state =
  mb :: "('k, 'b, 't) multiShardBatcher"
  closed :: bool
  missed :: "(metadata \<times> 't) list"
  ready :: "(metadata \<times> 't) list"
  sent :: "(metadata \<times> 't) list"
  refused :: "(metadata \<times> 't) list"

definition put_shard :: "'k \<Rightarrow> ('b, 't) shard \<Rightarrow> ('k, 'b, 't) multi_state \<Rightarrow> ('k, 'b, 't) multi_state" where
  "put_shard k b st = st\<lparr>mb := (mb st)\<lparr>batchers := (batchers (mb st))(k \<mapsto> b)\<rparr>\<rparr>"

inductive multi_run ::
  "(byte list \<Rightarrow> byte list) \<Rightarrow> 't environment \<Rightarrow> ((byte list \<times> attribute_value) list \<Rightarrow> 'k) \<Rightarrow> BatchConfig \<Rightarrow>
     ('b, 't) batch_type \<Rightarrow> ('k, 'b, 't) multi_state \<Rightarrow> bool"
  for lower E NewSet cfg B where
  multi_start: "multi_run lower E NewSet cfg B
    \<lparr>mb = newMultiShardBatcher lower cfg, closed = False, missed = [], ready = [], sent = [], refused = []\<rparr>"
| multi_hit: "multi_run lower E NewSet cfg B st \<Longrightarrow> batchers (mb st) (client_set lower NewSet (metadataKeys (mb st)) info) \<noteq> None \<Longrightarrow>
    multi_run lower E NewSet cfg B (st\<lparr>ready := ready st @ [(info, t)]\<rparr>)"
| multi_miss: "multi_run lower E NewSet cfg B st \<Longrightarrow> batchers (mb st) (client_set lower NewSet (metadataKeys (mb st)) info) = None \<Longrightarrow>
    multi_run lower E NewSet cfg B (st\<lparr>missed := missed st @ [(info, t)]\<rparr>)"
| multi_accept: "multi_run lower E NewSet cfg B st \<Longrightarrow> missed st = xs @ (info, t) # ys \<Longrightarrow>
    consume_locked lower NewSet (newBatchProcessor cfg) B info (mb st) = (True, mb') \<Longrightarrow>
    multi_run lower E NewSet cfg B (st\<lparr>mb := mb', missed := xs @ ys, ready := ready st @ [(info, t)]\<rparr>)"
| multi_refuse: "multi_run lower E NewSet cfg B st \<Longrightarrow> missed st = xs @ (info, t) # ys \<Longrightarrow>
    consume_locked lower NewSet (newBatchProcessor cfg) B info (mb st) = (False, mb') \<Longrightarrow>
    multi_run lower E NewSet cfg B (st\<lparr>mb := mb', missed := xs @ ys, refused := refused st @ [(info, t)]\<rparr>)"
| multi_send: "multi_run lower E NewSet cfg B st \<Longrightarrow> ready st = xs @ (info, t) # ys \<Longrightarrow>
    batchers (mb st) (client_set lower NewSet (metadataKeys (mb st)) info) = Some b \<Longrightarrow> send_item E t b = Some b' \<Longrightarrow>
    multi_run lower E NewSet cfg B
      (put_shard (client_set lower NewSet (metadataKeys (mb st)) info) b' (st\<lparr>ready := xs @ ys, sent := sent st @ [(info, t)]\<rparr>))"
| multi_step: "multi_run lower E NewSet cfg B st \<Longrightarrow> batchers (mb st) k = Some b \<Longrightarrow>
    shard_step E (newBatchProcessor cfg) B (closed st) b b' \<Longrightarrow> multi_run lower E NewSet cfg B (put_shard k b' st)"
| multi_shutdown: "multi_run lower E NewSet cfg B st \<Longrightarrow> multi_run lower E NewSet cfg B (st\<lparr>closed := True\<rparr>)"

text \<open>The three kinds of batches; the arguments are the encoded sizes of the leaves.\<close>

definition logs_batch ::
  "('res, 'sc, 'it) leaf_sizes \<Rightarrow> (('res, 'sc, 'it) batchLogs, ('res, 'sc, 'it) Data) batch_type" where
  "logs_batch L =
     \<lparr>new_batch = newBatchLogs, itemCount = batchLogs_itemCount, add = batchLogs_add, split = batchLogs_split,
      sizeBytes = Data_SizeProto (res_sz L) (scope_sz L) (item_sz L)\<rparr>"

definition traces_batch ::
  "('res, 'sc, 'it) leaf_sizes \<Rightarrow> (('res, 'sc, 'it) batchTraces, ('res, 'sc, 'it) Data) batch_type" where
  "traces_batch L =
     \<lparr>new_batch = newBatchTraces, itemCount = batchTraces_itemCount, add = batchTraces_add, split = batchTraces_split,
      sizeBytes = Data_SizeProto (res_sz L) (scope_sz L) (item_sz L)\<rparr>"

definition metrics_batch ::
  "('res, 'sc, 'md, 'n, 'h, 'e, 's) metric_leaves \<Rightarrow>
     (('res, 'sc, 'md, 'n, 'h, 'e, 's) batchMetrics, ('res, 'sc, ('md, 'n, 'h, 'e, 's) Metric) Data) batch_type" where
  "metrics_batch L =
     \<lparr>new_batch = newMetricsBatch, itemCount = batchMetrics_itemCount, add = batchMetrics_add, split = batchMetrics_split,
      sizeBytes = Data_SizeProto (mres_sz L) (mscope_sz L) (metric_nat_size L)\<rparr>"

section \<open>The contract of a batch\<close>

text \<open>
  \<open>pending\<close> are the items of a batch and \<open>content\<close> those of a piece of data. The count is right,
  adding appends, and a split takes the first items, as many as allowed.
\<close>

locale batch_contract =
  fixes B :: "('b, 't) batch_type" and ok :: "'b \<Rightarrow> bool" and pending :: "'b \<Rightarrow> 'i list" and content :: "'t \<Rightarrow> 'i list"
  assumes new_ok: "ok (new_batch B)"
    and new_pending: "pending (new_batch B) = []"
    and count: "ok b \<Longrightarrow> itemCount B b = int (length (pending b))"
    and add_ok: "ok b \<Longrightarrow> ok (add B b t)"
    and add_pending: "ok b \<Longrightarrow> pending (add B b t) = pending b @ content t"
    and split_law: "ok b \<Longrightarrow> 0 \<le> m \<Longrightarrow> split B b m = ((n, req), b') \<Longrightarrow>
      ok b' \<and> pending b = content req @ pending b' \<and> n = int (length (content req)) \<and>
      n = (if m > 0 \<and> itemCount B b > m then m else itemCount B b)"

text \<open>The configurations that pass validation.\<close>

definition sane :: "batchProcessor \<Rightarrow> bool" where
  "sane bp \<longleftrightarrow> 0 \<le> sendBatchSize bp \<and> 0 \<le> sendBatchMaxSize bp \<and>
     (sendBatchMaxSize bp = 0 \<or> sendBatchSize bp \<le> sendBatchMaxSize bp)"

text \<open>The exports that did not fail.\<close>

definition delivered :: "('t list \<Rightarrow> 't \<Rightarrow> bool) \<Rightarrow> 't list \<Rightarrow> 't list" where
  "delivered fails ts = map (nth ts) (filter (\<lambda>i. \<not> fails (take i ts) (ts ! i)) [0..<length ts])"

lemma delivered_simps [simp]:
  "delivered fails [] = []"
  "delivered fails (ts @ [t]) = delivered fails ts @ (if fails ts t then [] else [t])"
proof -
  show "delivered fails [] = []" by (simp add: delivered_def)
  have "filter (\<lambda>i. \<not> fails (take i (ts @ [t])) ((ts @ [t]) ! i)) [0..<length ts] =
      filter (\<lambda>i. \<not> fails (take i ts) (ts ! i)) [0..<length ts]"
    by (rule filter_cong) (auto simp: nth_append)
  then show "delivered fails (ts @ [t]) = delivered fails ts @ (if fails ts t then [] else [t])"
    by (auto simp: delivered_def nth_append)
qed

definition timer_live :: "('b, 't) shard \<Rightarrow> bool" where
  "timer_live b \<longleftrightarrow> (case timer b of None \<Rightarrow> True | Some tm \<Rightarrow> running tm \<or> value_waiting tm)"

lemma stop_and_reset_timer:
  assumes "timer_live b"
  shows "\<exists>tm. map_option (shard_resetTimer E) (stopTimer E b) = Some (b\<lparr>timer := tm\<rparr>) \<and>
    (tm = None \<longleftrightarrow> timer b = None) \<and> timer_live (b\<lparr>timer := tm\<rparr>)"
  using assms
  by (cases "timer b")
    (auto simp: timer_live_def stopTimer_def shard_resetTimer_def Timer_Stop_def Timer_Reset_def intro: exI [of _ None])

context batch_contract
begin

text \<open>What holds while a shard works on an item, with the data consumed so far.\<close>

definition accounts :: "'t environment \<Rightarrow> batchProcessor \<Rightarrow> ('b, 't) shard \<Rightarrow> 't list \<Rightarrow> bool" where
  "accounts E bp b ts \<longleftrightarrow> ok (batch b) \<and>
     concat (map content (exports b)) @ pending (batch b) @ concat (map content (newItem b)) = concat (map content ts) \<and>
     list_all (\<lambda>req. content req \<noteq> [] \<and>
       (sendBatchMaxSize bp > 0 \<longrightarrow> int (length (content req)) \<le> sendBatchMaxSize bp)) (exports b) \<and>
     BatchSendSize (telemetry b) = map (\<lambda>req. int (length (content req))) (delivered (nextFails E) (exports b))"

text \<open>What holds between its steps.\<close>

definition shard_ok :: "'t environment \<Rightarrow> batchProcessor \<Rightarrow> ('b, 't) shard \<Rightarrow> 't list \<Rightarrow> bool" where
  "shard_ok E bp b ts \<longleftrightarrow> accounts E bp b ts \<and> timer_live b \<and>
     (if hasTimer b then int (length (pending (batch b))) < sendBatchSize bp else pending (batch b) = []) \<and>
     (phase b = Returned \<longrightarrow> pending (batch b) = [])"

lemma sendItems_accounts:
  fixes tr :: trigger
  assumes b: "accounts E bp b ts" and bp: "sane bp" and ne: "pending (batch b) \<noteq> []"
  defines "b' \<equiv> sendItems E bp B tr b"
  shows "accounts E bp b' ts" "timer b' = timer b" "phase b' = phase b" "newItem b' = newItem b"
    "exportMetadata b' = exportMetadata b" "length (pending (batch b')) < length (pending (batch b))"
    "sendBatchMaxSize bp = 0 \<or> int (length (pending (batch b))) \<le> sendBatchMaxSize bp \<Longrightarrow> pending (batch b') = []"
proof -
  obtain n req left_over where sp: "split B (batch b) (sendBatchMaxSize bp) = ((n, req), left_over)" by (metis prod.exhaust)
  have ok: "ok (batch b)" using b by (simp add: accounts_def)
  have law: "ok left_over" "pending (batch b) = content req @ pending left_over" "n = int (length (content req))"
    "n = (if sendBatchMaxSize bp > 0 \<and> itemCount B (batch b) > sendBatchMaxSize bp then sendBatchMaxSize bp else itemCount B (batch b))"
    using split_law [OF ok _ sp] bp by (simp_all add: sane_def)
  have size: "int (length (content req)) = (if sendBatchMaxSize bp > 0 \<and> int (length (pending (batch b))) > sendBatchMaxSize bp
      then sendBatchMaxSize bp else int (length (pending (batch b))))"
    using law(3,4) count [OF ok] by (auto split: if_splits)
  have b': "batch b' = left_over" "exports b' = exports b @ [req]" "timer b' = timer b" "phase b' = phase b"
    "newItem b' = newItem b" "exportMetadata b' = exportMetadata b"
    "BatchSendSize (telemetry b') = BatchSendSize (telemetry b) @ (if nextFails E (exports b) req then [] else [n])"
    unfolding b'_def by (auto simp: sendItems_def sp Let_def record_batch_def split: trigger.splits)
  then show "timer b' = timer b" "phase b' = phase b" "newItem b' = newItem b" "exportMetadata b' = exportMetadata b"
    by simp_all
  have nonempty: "content req \<noteq> []"
    using size ne bp by (auto simp: sane_def split: if_splits)
  show "accounts E bp b' ts"
    unfolding accounts_def
  proof (intro conjI)
    show "ok (batch b')" using law(1) b'(1) by simp
    show "concat (map content (exports b')) @ pending (batch b') @ concat (map content (newItem b')) = concat (map content ts)"
      using b law(2) b'(1,2,5) by (simp add: accounts_def)
    show "list_all (\<lambda>req. content req \<noteq> [] \<and> (sendBatchMaxSize bp > 0 \<longrightarrow> int (length (content req)) \<le> sendBatchMaxSize bp)) (exports b')"
      using b nonempty size b'(2) by (simp add: accounts_def)
    show "BatchSendSize (telemetry b') = map (\<lambda>req. int (length (content req))) (delivered (nextFails E) (exports b'))"
      using b law(3) b'(2,7) by (simp add: accounts_def)
  qed
  show "length (pending (batch b')) < length (pending (batch b))"
    using nonempty law(2) b'(1) by simp
  show "pending (batch b') = []" if "sendBatchMaxSize bp = 0 \<or> int (length (pending (batch b))) \<le> sendBatchMaxSize bp"
  proof -
    have "length (content req) = length (pending (batch b))" using that size by auto
    then show ?thesis using arg_cong [OF law(2), of length] b'(1) by simp
  qed
qed

lemma send_loop_returns:
  assumes "accounts E bp b ts" "sane bp"
  shows "\<exists>n b'. send_loop E bp B sent0 b = Some (n, b') \<and> accounts E bp b' ts \<and> timer b' = timer b \<and> phase b' = phase b \<and>
    newItem b' = newItem b \<and> exportMetadata b' = exportMetadata b \<and>
    (pending (batch b') = [] \<or> (hasTimer b \<and> int (length (pending (batch b'))) < sendBatchSize bp))"
  using assms(1)
proof (induction "length (pending (batch b))" arbitrary: b sent0 rule: less_induct)
  case less
  have cnt: "itemCount B (batch b) = int (length (pending (batch b)))"
    using less.prems count by (simp add: accounts_def)
  show ?case
  proof (cases "itemCount B (batch b) > 0 \<and> (\<not> hasTimer b \<or> itemCount B (batch b) \<ge> sendBatchSize bp)")
    case True
    then have "pending (batch b) \<noteq> []" by (auto simp: cnt)
    note s = sendItems_accounts [OF less.prems assms(2) this, of triggerBatchSize]
    show ?thesis
      using less.hyps [OF s(6) s(1), of True] True s(2-5) by (simp add: send_loop.simps [of E bp B sent0] hasTimer_def)
  next
    case False
    then show ?thesis using less.prems by (auto simp: send_loop.simps [of E bp B sent0] cnt)
  qed
qed

lemma item_case_ok:
  assumes b: "shard_ok E bp b ts" and bp: "sane bp" and ne: "newItem b \<noteq> []" and ph: "phase b \<noteq> Returned"
  shows "\<exists>b'. item_case E bp B b = Some b' \<and> shard_ok E bp b' ts \<and> exportMetadata b' = exportMetadata b \<and>
    newItem b' = tl (newItem b)"
proof -
  obtain item items where ni: "newItem b = item # items" using ne by (cases "newItem b") auto
  let ?b = "b\<lparr>newItem := items, batch := add B (batch b) item\<rparr>"
  have "accounts E bp ?b ts"
    using b ni by (simp add: shard_ok_def accounts_def add_ok add_pending)
  then obtain n b1 where run: "send_loop E bp B False ?b = Some (n, b1)" "accounts E bp b1 ts" "timer b1 = timer b"
      "phase b1 = phase b" "newItem b1 = items" "exportMetadata b1 = exportMetadata b"
      "pending (batch b1) = [] \<or> (hasTimer b \<and> int (length (pending (batch b1))) < sendBatchSize bp)"
    using send_loop_returns [OF _ bp, of E ?b ts False] by (auto simp: hasTimer_def)
  have size: "hasTimer b \<Longrightarrow> 0 < sendBatchSize bp" using b by (auto simp: shard_ok_def)
  have live: "timer_live b1" using b run(3) by (simp add: shard_ok_def timer_live_def)
  obtain tm where tm: "map_option (shard_resetTimer E) (stopTimer E b1) = Some (b1\<lparr>timer := tm\<rparr>)" "tm = None \<longleftrightarrow> timer b = None"
      "timer_live (b1\<lparr>timer := tm\<rparr>)"
    using stop_and_reset_timer [OF live, of E] run(3) by auto
  have rest: "shard_ok E bp (b1\<lparr>timer := tm'\<rparr>) ts" if "tm' = None \<longleftrightarrow> timer b = None" "timer_live (b1\<lparr>timer := tm'\<rparr>)" for tm'
    using that run(2,4,7) size ph by (auto simp: shard_ok_def accounts_def hasTimer_def)
  have "item_case E bp B b = Some (if n then b1\<lparr>timer := tm\<rparr> else b1)"
    using run(1) tm(1) by (simp add: item_case_def ni processItem_def)
  moreover have "shard_ok E bp (b1\<lparr>timer := timer b1\<rparr>) ts" by (rule rest) (use run(3) live in \<open>simp_all add: timer_live_def\<close>)
  ultimately show ?thesis
    using rest [OF tm(2,3)] run(5,6) ni by (intro exI [of _ "if n then b1\<lparr>timer := tm\<rparr> else b1"]) simp
qed

lemma rest_fits: "shard_ok E bp b ts \<Longrightarrow> sane bp \<Longrightarrow>
    sendBatchMaxSize bp = 0 \<or> int (length (pending (batch b))) \<le> sendBatchMaxSize bp"
  by (auto simp: shard_ok_def sane_def split: if_splits)

text \<open>What is pending between steps is sent at once.\<close>

lemma send_pending:
  assumes b: "shard_ok E bp b ts" and bp: "sane bp"
  shows "\<exists>b'. (if itemCount B (batch b) > 0 then sendItems E bp B tr b else b) = b' \<and> accounts E bp b' ts \<and>
    timer b' = timer b \<and> phase b' = phase b \<and> newItem b' = newItem b \<and> exportMetadata b' = exportMetadata b \<and>
    pending (batch b') = []"
proof -
  have acc: "accounts E bp b ts" using b by (simp add: shard_ok_def)
  then have cnt: "itemCount B (batch b) = int (length (pending (batch b)))" using count by (simp add: accounts_def)
  show ?thesis
  proof (cases "pending (batch b) = []")
    case False
    then show ?thesis using sendItems_accounts [OF acc bp False, of tr] rest_fits [OF b bp] cnt by simp
  qed (use cnt acc in simp)
qed

lemma shard_ok_timer:
  "shard_ok E bp b ts \<Longrightarrow> timer b = Some tm \<Longrightarrow> running tm' \<or> value_waiting tm' \<Longrightarrow> shard_ok E bp (b\<lparr>timer := Some tm'\<rparr>) ts"
  by (simp add: shard_ok_def accounts_def hasTimer_def timer_live_def)

lemma timer_case_ok:
  assumes b: "shard_ok E bp b ts" and bp: "sane bp" and tm: "timer b = Some tm" "value_waiting tm"
  shows "shard_ok E bp (timer_case E bp B b) ts \<and> exportMetadata (timer_case E bp B b) = exportMetadata b"
proof -
  let ?b = "b\<lparr>timer := Some (tm\<lparr>value_waiting := False\<rparr>)\<rparr>"
  have pos: "0 < sendBatchSize bp" using b tm by (auto simp: shard_ok_def hasTimer_def)
  have "shard_ok E bp (b\<lparr>timer := Some \<lparr>running = True, value_waiting = False\<rparr>\<rparr>) ts"
    using shard_ok_timer [OF b tm(1)] by simp
  then obtain b1 where b1: "(if itemCount B (batch b) > 0
        then sendItems E bp B triggerTimeout (b\<lparr>timer := Some \<lparr>running = True, value_waiting = False\<rparr>\<rparr>)
        else b\<lparr>timer := Some \<lparr>running = True, value_waiting = False\<rparr>\<rparr>) = b1"
      "accounts E bp b1 ts" "phase b1 = phase b" "exportMetadata b1 = exportMetadata b" "pending (batch b1) = []"
    using send_pending [OF _ bp, of E _ ts triggerTimeout] by fastforce
  have "sendItems E bp B triggerTimeout (b\<lparr>timer := t\<rparr>) = (sendItems E bp B triggerTimeout b)\<lparr>timer := t\<rparr>" for t
    by (simp add: sendItems_def Let_def split: prod.split)
  then have "timer_case E bp B b = b1\<lparr>timer := Some (Timer_Reset (asyncTimer E) (tm\<lparr>value_waiting := False\<rparr>))\<rparr>"
    using b1(1) tm(1) by (auto simp: timer_case_def Let_def shard_resetTimer_def)
  then show ?thesis
    using b1(2-5) pos by (simp add: shard_ok_def accounts_def timer_live_def hasTimer_def Timer_Reset_def)
qed

lemma drained_case_ok:
  assumes b: "shard_ok E bp b ts" and bp: "sane bp"
  shows "shard_ok E bp (drained_case E bp B b) ts \<and> exportMetadata (drained_case E bp B b) = exportMetadata b"
proof -
  obtain b1 where b1: "(if itemCount B (batch b) > 0 then sendItems E bp B triggerTimeout b else b) = b1"
      "accounts E bp b1 ts" "timer b1 = timer b" "exportMetadata b1 = exportMetadata b" "pending (batch b1) = []"
    using send_pending [OF b bp, of triggerTimeout] by blast
  have "hasTimer b \<Longrightarrow> 0 < sendBatchSize bp" using b by (auto simp: shard_ok_def)
  then show ?thesis
    using b b1 by (simp add: drained_case_def Let_def shard_ok_def accounts_def timer_live_def hasTimer_def)
qed

lemma shard_step_ok:
  assumes "shard_step E bp B cl b b'" "shard_ok E bp b ts" "sane bp"
  shows "shard_ok E bp b' ts \<and> exportMetadata b' = exportMetadata b"
  using assms
proof (cases rule: shard_step.cases)
  case (fire tm)
  then show ?thesis using shard_ok_timer [OF assms(2)] by simp
next
  case item
  then have "newItem b \<noteq> []" by (auto simp: item_case_def)
  then show ?thesis using item_case_ok [OF assms(2,3)] item by fastforce
next
  case drain
  then have "newItem b \<noteq> []" by (auto simp: item_case_def)
  then show ?thesis using item_case_ok [OF assms(2,3)] drain by fastforce
next
  case shutdown
  then show ?thesis using assms(2) by (simp add: shard_ok_def accounts_def timer_live_def hasTimer_def)
qed (use assms timer_case_ok drained_case_ok in blast)+

lemma send_item_ok:
  assumes "shard_ok E bp b ts" "send_item E t b = Some b'"
  shows "shard_ok E bp b' (ts @ [t]) \<and> exportMetadata b' = exportMetadata b"
  using assms by (auto simp: send_item_def shard_ok_def accounts_def timer_live_def hasTimer_def split: if_splits)

lemma newShard_ok: "sane bp \<Longrightarrow> shard_ok E bp (start_timer bp (newShard lower B md)) []"
  by (simp add: sane_def shard_ok_def accounts_def start_timer_def newShard_def newTelemetry_def new_ok new_pending timer_live_def hasTimer_def)

lemma single_run_ok: "single_run lower E bp B cl b ts \<Longrightarrow> sane bp \<Longrightarrow> shard_ok E bp b ts"
  by (induction rule: single_run.induct) (simp_all add: newShard_ok send_item_ok shard_step_ok)

text \<open>What holds of the processor with metadata keys.\<close>

definition shards_ok ::
  "(byte list \<Rightarrow> byte list) \<Rightarrow> 't environment \<Rightarrow> ((byte list \<times> attribute_value) list \<Rightarrow> 'k) \<Rightarrow> BatchConfig \<Rightarrow>
     ('k, 'b, 't) multi_state \<Rightarrow> bool" where
  "shards_ok lower E NewSet cfg st \<longleftrightarrow>
     (let keys = processor_metadataKeys lower cfg in
      (\<forall>c\<in>set (ready st) \<union> set (sent st). batchers (mb st) (client_set lower NewSet keys (fst c)) \<noteq> None) \<and>
      (\<forall>k b. batchers (mb st) k = Some b \<longrightarrow>
         (\<exists>info. client_set lower NewSet keys info = k \<and>
            exportMetadata b = NewMetadata lower (client_metadata lower keys info)) \<and>
         shard_ok E (newBatchProcessor cfg) b
           (map snd (filter (\<lambda>c. client_set lower NewSet keys (fst c) = k) (sent st)))))"

lemma shards_ok_put:
  assumes "shards_ok lower E NewSet cfg st" "batchers (mb st) k = Some b"
    "exportMetadata b' = exportMetadata b"
    "shard_ok E (newBatchProcessor cfg) b'
       (map snd (filter (\<lambda>c. client_set lower NewSet (processor_metadataKeys lower cfg) (fst c) = k) (sent st)))"
  shows "shards_ok lower E NewSet cfg (put_shard k b' st)"
  using assms by (auto simp: shards_ok_def Let_def put_shard_def)

lemma shards_ok_locked:
  assumes ok: "shards_ok lower E NewSet cfg st" and bp: "sane (newBatchProcessor cfg)"
    and keys: "metadataKeys (mb st) = processor_metadataKeys lower cfg"
    and run: "consume_locked lower NewSet (newBatchProcessor cfg) B info (mb st) = (True, mb')"
  shows "shards_ok lower E NewSet cfg (st\<lparr>mb := mb', missed := cs, ready := ready st @ [(info, t)]\<rparr>)"
proof (cases "batchers (mb st) (client_set lower NewSet (metadataKeys (mb st)) info)")
  case None
  let ?k = "client_set lower NewSet (processor_metadataKeys lower cfg) info"
  have mb': "batchers mb' = (batchers (mb st))(?k \<mapsto> start_timer (newBatchProcessor cfg)
      (newShard lower B (client_metadata lower (processor_metadataKeys lower cfg) info)))"
    using run None by (auto simp: consume_locked_def Let_def keys split: if_splits)
  have "batchers (mb st) (client_set lower NewSet (processor_metadataKeys lower cfg) (fst c)) \<noteq> None" if "c \<in> set (sent st)" for c
    using ok that unfolding shards_ok_def Let_def by blast
  then have "filter (\<lambda>c. client_set lower NewSet (processor_metadataKeys lower cfg) (fst c) = ?k) (sent st) = []"
    using None unfolding filter_empty_conv keys by metis
  then show ?thesis
    using ok newShard_ok [OF bp, of E lower "client_metadata lower (processor_metadataKeys lower cfg) info"]
    by (auto simp: shards_ok_def Let_def mb' start_timer_def newShard_def)
next
  case (Some b)
  then have "mb' = mb st" using run by (auto simp: consume_locked_def Let_def split: if_splits)
  then show ?thesis using ok Some by (auto simp: shards_ok_def Let_def keys)
qed

end

text \<open>The number of shards.\<close>

definition shards_counted :: "(byte list \<Rightarrow> byte list) \<Rightarrow> BatchConfig \<Rightarrow> ('k, 'b, 't) multi_state \<Rightarrow> bool" where
  "shards_counted lower cfg st \<longleftrightarrow>
     metadataKeys (mb st) = processor_metadataKeys lower cfg \<and>
     metadataLimit (mb st) = uint (cfg_MetadataCardinalityLimit cfg) \<and>
     finite (dom (batchers (mb st))) \<and> batchers_size (mb st) = int (card (dom (batchers (mb st)))) \<and>
     (metadataLimit (mb st) \<noteq> 0 \<longrightarrow> batchers_size (mb st) \<le> metadataLimit (mb st)) \<and>
     (refused st \<noteq> [] \<longrightarrow> metadataLimit (mb st) \<noteq> 0 \<and> batchers_size (mb st) = metadataLimit (mb st))"

lemma multi_run_counted: "multi_run lower E NewSet cfg B st \<Longrightarrow> shards_counted lower cfg st"
proof (induction rule: multi_run.induct)
  case (multi_accept st xs info t ys mb')
  then show ?case
    by (auto simp: shards_counted_def consume_locked_def Let_def domIff card_insert_if split: if_splits option.splits)
next
  case (multi_refuse st xs info t ys mb')
  then show ?case
    by (auto simp: shards_counted_def consume_locked_def Let_def split: if_splits option.splits)
qed (auto simp: shards_counted_def newMultiShardBatcher_def put_shard_def insert_absorb domI)

context batch_contract
begin

lemma multi_run_ok:
  assumes "multi_run lower E NewSet cfg B st" "sane (newBatchProcessor cfg)"
  shows "shards_ok lower E NewSet cfg st"
  using assms(1)
proof (induction rule: multi_run.induct)
  case (multi_hit st info t)
  then show ?case using multi_run_counted [OF multi_hit.hyps(1)] by (auto simp: shards_ok_def Let_def shards_counted_def)
next
  case (multi_accept st xs info t ys mb')
  have keys: "metadataKeys (mb st) = processor_metadataKeys lower cfg"
    using multi_run_counted [OF multi_accept.hyps(1)] by (simp add: shards_counted_def)
  show ?case by (rule shards_ok_locked [OF multi_accept.IH assms(2) keys multi_accept.hyps(3)])
next
  case (multi_refuse st xs info t ys mb')
  then show ?case by (auto simp: shards_ok_def consume_locked_def Let_def split: if_splits option.splits)
next
  case (multi_send st xs info t ys b b')
  let ?k = "client_set lower NewSet (metadataKeys (mb st)) info"
  have keys: "metadataKeys (mb st) = processor_metadataKeys lower cfg"
    using multi_run_counted [OF multi_send.hyps(1)] by (simp add: shards_counted_def)
  have old: "shard_ok E (newBatchProcessor cfg) b
      (map snd (filter (\<lambda>c. client_set lower NewSet (processor_metadataKeys lower cfg) (fst c) = ?k) (sent st)))"
    using multi_send.IH multi_send.hyps(3) by (simp add: shards_ok_def Let_def)
  show ?case
    using multi_send.IH multi_send.hyps(2,3) send_item_ok [OF old multi_send.hyps(4)]
    by (auto simp: shards_ok_def Let_def put_shard_def keys)
next
  case (multi_step st k b b')
  then have "shard_ok E (newBatchProcessor cfg) b
      (map snd (filter (\<lambda>c. client_set lower NewSet (processor_metadataKeys lower cfg) (fst c) = k) (sent st)))"
    by (simp add: shards_ok_def Let_def)
  then show ?case
    using shards_ok_put [OF multi_step.IH multi_step.hyps(2)] shard_step_ok [OF multi_step.hyps(3) _ assms(2)] by blast
qed (auto simp: shards_ok_def Let_def newMultiShardBatcher_def)

text \<open>What a shard between two steps promises.\<close>

lemma shard_promises:
  assumes b: "shard_ok E bp b ts" and bp: "sane bp"
  shows "concat (map content (exports b)) @ pending (batch b) @ concat (map content (newItem b)) = concat (map content ts)"
    "itemCount B (batch b) = int (length (pending (batch b)))"
    "list_all (\<lambda>req. content req \<noteq> [] \<and>
       (sendBatchMaxSize bp > 0 \<longrightarrow> int (length (content req)) \<le> sendBatchMaxSize bp)) (exports b)"
    "hasTimer b \<longrightarrow> int (length (pending (batch b))) < sendBatchSize bp" "\<not> hasTimer b \<longrightarrow> pending (batch b) = []"
    "phase b = Returned \<longrightarrow> pending (batch b) = []"
    "BatchSendSize (telemetry b) = map (\<lambda>req. int (length (content req))) (delivered (nextFails E) (exports b))"
    "newItem b \<noteq> [] \<and> phase b \<noteq> Returned \<longrightarrow> (\<exists>b'. item_case E bp B b = Some b')"
  using b count item_case_ok [OF b bp] by (auto simp: shard_ok_def accounts_def)

end

section \<open>Configurations and metadata\<close>

lemma repeated_key_None: "repeated_key lower uniq ks = None \<longleftrightarrow> distinct (map lower ks) \<and> set (map lower ks) \<inter> set uniq = {}"
  by (induction ks arbitrary: uniq) (auto simp: Let_def)

lemma valid_config_sane:
  assumes "BatchConfig_Validate lower cfg = None"
  shows "sane (newBatchProcessor cfg)"
proof -
  have "cfg_SendBatchMaxSize cfg = 0 \<or> cfg_SendBatchSize cfg \<le> cfg_SendBatchMaxSize cfg"
    using assms by (auto simp: BatchConfig_Validate_def word_gt_0 not_less split: if_splits)
  then show ?thesis by (auto simp: sane_def newBatchProcessor_def word_le_def)
qed

lemma default_config_valid: "BatchConfig_Validate lower createDefaultConfig = None"
  by (simp add: BatchConfig_Validate_def createDefaultConfig_def)

lemma newBatchProcessor_sizes:
  "0 < uint (cfg_SendBatchMaxSize cfg) \<longleftrightarrow> cfg_SendBatchMaxSize cfg \<noteq> 0"
  "sendBatchMaxSize (newBatchProcessor cfg) = uint (cfg_SendBatchMaxSize cfg)"
  "sendBatchSize (newBatchProcessor cfg) = uint (cfg_SendBatchSize cfg)"
  by (simp_all add: newBatchProcessor_def order_less_le uint_0_iff)

text \<open>
  What is documented of \<^verbatim>\<open>attribute.NewSet\<close>: of attributes with the same key the last one counts, their
  order does not matter, and two sets are equal as keys of a map exactly if their contents are.
\<close>

definition attribute_set_laws :: "((byte list \<times> attribute_value) list \<Rightarrow> 'k) \<Rightarrow> bool" where
  "attribute_set_laws NewSet \<longleftrightarrow> (\<forall>xs ys. NewSet xs = NewSet ys \<longleftrightarrow> map_of (rev xs) = map_of (rev ys))"

lemma map_of_client_attrs:
  "map_of (rev (client_attrs lower keys info)) k =
     (if k \<in> set keys
      then Some (let vs = Metadata_Get lower info k in if length vs = 1 then AttributeString (vs ! 0) else AttributeStringSlice vs)
      else None)"
  by (induction keys rule: rev_induct) (auto simp: client_attrs_def Let_def)

lemma same_client_set:
  assumes "attribute_set_laws NewSet"
  shows "client_set lower NewSet keys info = client_set lower NewSet keys info' \<longleftrightarrow>
    map (Metadata_Get lower info) keys = map (Metadata_Get lower info') keys"
proof -
  define attr where "attr = (\<lambda>vs :: byte list list. if length vs = 1 then AttributeString (vs ! 0) else AttributeStringSlice vs)"
  have inj: "attr vs = attr ws \<longleftrightarrow> vs = ws" for vs ws
    by (auto simp: attr_def length_Suc_conv)
  have attrs: "map_of (rev (client_attrs lower keys i)) = (\<lambda>k. if k \<in> set keys then Some (attr (Metadata_Get lower i k)) else None)" for i
    by (simp add: fun_eq_iff map_of_client_attrs attr_def Let_def)
  have "client_set lower NewSet keys info = client_set lower NewSet keys info' \<longleftrightarrow>
      map_of (rev (client_attrs lower keys info)) = map_of (rev (client_attrs lower keys info'))"
    using assms by (simp add: attribute_set_laws_def client_set_def)
  also have "\<dots> \<longleftrightarrow> (\<forall>k\<in>set keys. Metadata_Get lower info k = Metadata_Get lower info' k)"
    unfolding attrs by (auto simp: fun_eq_iff inj)
  finally show ?thesis by simp
qed

lemma client_metadata_map:
  "distinct (map fst (client_metadata lower keys info)) \<and> fst ` set (client_metadata lower keys info) = set keys \<and>
   (k \<in> set keys \<longrightarrow> map_of (client_metadata lower keys info) k = Some (Metadata_Get lower info k))"
proof (induction keys rule: rev_induct)
  case Nil
  then show ?case by (simp add: client_metadata_def)
next
  case (snoc k' keys)
  have step: "client_metadata lower (keys @ [k']) info =
      (k', Metadata_Get lower info k') # filter (\<lambda>e. fst e \<noteq> k') (client_metadata lower keys info)"
    by (simp add: client_metadata_def)
  have "map_of (filter (\<lambda>e. fst e \<noteq> k') m) k = map_of m k" if "k \<noteq> k'" for m :: metadata
    using that by (induction m) auto
  then show ?case
    using snoc by (auto simp: step distinct_map_filter)
qed

lemma exported_metadata:
  assumes idem: "\<And>s. lower (lower s) = lower s" and k: "k \<in> set (processor_metadataKeys lower cfg)"
  shows "Metadata_Get lower (NewMetadata lower (client_metadata lower (processor_metadataKeys lower cfg) info)) k = Metadata_Get lower info k"
proof -
  let ?m = "client_metadata lower (processor_metadataKeys lower cfg) info"
  have low: "lower j = j" if "j \<in> set (processor_metadataKeys lower cfg)" for j
    using that idem by (auto simp: processor_metadataKeys_def)
  note m = client_metadata_map [of lower "processor_metadataKeys lower cfg" info k]
  have "lower (fst e) = fst e" if "e \<in> set ?m" for e
    by (rule low) (use m that in \<open>metis image_eqI\<close>)
  then have "metadata_wf lower ?m"
    using m by (auto simp: metadata_wf_def list_all_iff)
  then have "NewMetadata lower ?m = rev ?m" by (rule NewMetadata_wf)
  moreover have "map_of (rev ?m) = map_of ?m" using m by (subst map_of_inject_set) (simp_all flip: rev_map)
  moreover have "?m \<noteq> []" "map_of ?m k = Some (Metadata_Get lower info k)" using m k by auto
  ultimately show ?thesis using low [OF k] by (simp add: Metadata_Get_def [of lower "rev _"])
qed

context batch_contract
begin

text \<open>A shard holds the data of the clients whose metadata it exports with.\<close>

lemma shard_serves:
  assumes "shards_ok lower E NewSet cfg st" "attribute_set_laws NewSet" "\<And>s. lower (lower s) = lower s"
    and b: "batchers (mb st) k = Some b"
  defines "keys \<equiv> processor_metadataKeys lower cfg"
  defines "serves \<equiv> \<lambda>c. map (Metadata_Get lower (fst c)) keys = map (Metadata_Get lower (exportMetadata b)) keys"
  shows "shard_ok E (newBatchProcessor cfg) b (map snd (filter serves (sent st)))"
    and "client_set lower NewSet keys info = k \<longleftrightarrow> serves (info, t)"
proof -
  obtain info0 where i: "client_set lower NewSet keys info0 = k" "exportMetadata b = NewMetadata lower (client_metadata lower keys info0)"
    and ok: "shard_ok E (newBatchProcessor cfg) b (map snd (filter (\<lambda>c. client_set lower NewSet keys (fst c) = k) (sent st)))"
    using assms(1) b unfolding shards_ok_def Let_def keys_def by blast
  have "map (Metadata_Get lower (exportMetadata b)) keys = map (Metadata_Get lower info0) keys"
    using exported_metadata [OF assms(3)] by (simp add: i(2) keys_def)
  then have same: "client_set lower NewSet keys j = k \<longleftrightarrow> serves (j, u)" for j u
    using same_client_set [OF assms(2), of lower keys j info0] i(1) by (simp add: serves_def)
  then have "(\<lambda>c. client_set lower NewSet keys (fst c) = k) = serves" by (auto simp: serves_def)
  then show "shard_ok E (newBatchProcessor cfg) b (map snd (filter serves (sent st)))" using ok by simp
  show "client_set lower NewSet keys info = k \<longleftrightarrow> serves (info, t)" by (rule same)
qed

end

section \<open>The three signals keep the contract\<close>

lemma data_items_append: "data_items (xs @ ys) = data_items xs @ data_items ys"
  by (simp add: data_items_def)

lemma bare_points_append: "bare_points (xs @ ys) = bare_points xs @ bare_points ys"
  by (simp add: bare_points_def)

lemma SpanCount_items: "SpanCount td = int (length (data_items td))"
  using LogRecordCount_items [of td] by (simp add: SpanCount_def LogRecordCount_def)

lemmas batch_defs =
  logs_batch_def newBatchLogs_def batchLogs_itemCount_def batchLogs_add_def batchLogs_split_def
  traces_batch_def newBatchTraces_def batchTraces_itemCount_def batchTraces_add_def batchTraces_split_def
  metrics_batch_def newMetricsBatch_def batchMetrics_itemCount_def batchMetrics_add_def batchMetrics_split_def
  MoveAndAppendTo_def Let_def

interpretation logs_pending: batch_contract "logs_batch L" "\<lambda>b. logCount b = LogRecordCount (logData b)"
  "\<lambda>b. data_items (logData b)" data_items
  for L
proof (unfold_locales, goal_cases)
  case (6 b m n req b')
  show ?case
  proof (cases "m > 0 \<and> logCount b > m")
    case True
    obtain dest src where sp: "splitLogs m (logData b) (LogRecordCount (logData b)) = (dest, src)" by (metis prod.exhaust)
    then have "data_items (logData b) = data_items dest @ data_items src \<and> int (length (data_items dest)) = m"
      by (rule splitLogs_takes) (use 6 True in simp_all)
    then show ?thesis using 6 True sp by (auto simp: batch_defs LogRecordCount_items)
  qed (use 6 in \<open>auto simp: batch_defs LogRecordCount_items data_items_def split: if_splits\<close>)
qed (auto simp: batch_defs LogRecordCount_items data_items_append, simp_all add: data_items_def)

interpretation traces_pending: batch_contract "traces_batch L" "\<lambda>b. spanCount b = SpanCount (traceData b)"
  "\<lambda>b. data_items (traceData b)" data_items
  for L
proof (unfold_locales, goal_cases)
  case (6 b m n req b')
  show ?case
  proof (cases "m > 0 \<and> spanCount b > m")
    case True
    obtain dest src where sp: "splitTraces m (traceData b) (SpanCount (traceData b)) = (dest, src)" by (metis prod.exhaust)
    then have "data_items (traceData b) = data_items dest @ data_items src \<and> int (length (data_items dest)) = m"
      by (intro splitLogs_takes) (use 6 True in \<open>simp_all add: splitTraces_same SpanCount_items LogRecordCount_items\<close>)
    then show ?thesis using 6 True sp by (auto simp: batch_defs SpanCount_items)
  qed (use 6 in \<open>auto simp: batch_defs SpanCount_items data_items_def split: if_splits\<close>)
qed (auto simp: batch_defs SpanCount_items data_items_append, simp_all add: data_items_def)

interpretation metrics_pending: batch_contract "metrics_batch L" "\<lambda>b. dataPointCount b = DataPointCount (metricData b)"
  "\<lambda>b. bare_points (metricData b)" bare_points
  for L
proof (unfold_locales, goal_cases)
  case (6 b m n req b')
  show ?case
  proof (cases "m > 0 \<and> dataPointCount b > m")
    case True
    obtain dest src where sp: "splitMetrics m (metricData b) (DataPointCount (metricData b)) = (dest, src)" by (metis prod.exhaust)
    then have "bare_points (metricData b) = bare_points dest @ bare_points src \<and> int (length (bare_points dest)) = m"
      by (rule splitMetrics_takes) (use 6 True in simp_all)
    then show ?thesis using 6 True sp by (auto simp: batch_defs simp flip: length_bare_points)
  qed (use 6 in \<open>auto simp: batch_defs bare_points_def split: if_splits simp flip: length_bare_points\<close>)
qed (auto simp: batch_defs bare_points_append simp flip: length_bare_points, simp_all add: bare_points_def)

section \<open>An example\<close>

text \<open>A run in which a shard without timer takes one item.\<close>

definition quiet_environment :: "'t environment" where
  "quiet_environment = \<lparr>nextFails = (\<lambda>_ _. False), bytesEnabled = True, numCPU = 1, asyncTimer = False\<rparr>"

definition small_batches :: BatchConfig where
  "small_batches = \<lparr>cfg_Timeout = 0, cfg_SendBatchSize = 2, cfg_SendBatchMaxSize = 2, cfg_MetadataKeys = [[1]],
     cfg_MetadataCardinalityLimit = 1\<rparr>"

lemma run_one_item:
  assumes "item_case quiet_environment bp B ((start_timer bp (newShard lower B []))\<lparr>newItem := [t]\<rparr>) = Some b"
  shows "single_run lower quiet_environment bp B False b [t]"
proof -
  have "newItem (start_timer bp (newShard lower B [])) = []" "phase (start_timer bp (newShard lower B [])) = Running"
    by (simp_all add: start_timer_def newShard_def)
  moreover from this have "single_run lower quiet_environment bp B False ((start_timer bp (newShard lower B []))\<lparr>newItem := [t]\<rparr>) ([] @ [t])"
    by (intro single_consume [OF single_start]) (simp add: send_item_def quiet_environment_def)
  ultimately show ?thesis using assms single_step [OF _ item] by fastforce
qed

definition three_records :: "(unit, unit, nat) Data" where
  "three_records =
     [\<lparr>Resource = (), SchemaUrl = [],
       Scopes = [\<lparr>Scope = (), ScopeSchemaUrl = [], Items = [7, 8, 9]\<rparr>], DeprecatedScopes = []\<rparr>]"

definition unit_leaves :: "(unit, unit, nat) leaf_sizes" where
  "unit_leaves = \<lparr>res_sz = (\<lambda>_. 0), scope_sz = (\<lambda>_. 0), item_sz = (\<lambda>_. 1)\<rparr>"

definition three_points :: "(unit, unit, (nat, nat, nat, nat, nat) Metric) Data" where
  "three_points =
     [\<lparr>Resource = (), SchemaUrl = [],
       Scopes = [\<lparr>Scope = (), ScopeSchemaUrl = [],
                  Items = [\<lparr>Name = [], Description = [], Unit = [], MData = Gauge [7, 8, 9], Metadata = [1]\<rparr>]\<rparr>],
       DeprecatedScopes = []\<rparr>]"

definition unit_points :: "(unit, unit, nat, nat, nat, nat, nat) metric_leaves" where
  "unit_points = \<lparr>metadata_sz = (\<lambda>_. 1), number_sz = (\<lambda>_. 1), histogram_sz = (\<lambda>_. 1), exponential_sz = (\<lambda>_. 1),
     summary_sz = (\<lambda>_. 1), mres_sz = (\<lambda>_. 0), mscope_sz = (\<lambda>_. 0)\<rparr>"

lemma send_to_new_shard:
  "send_item quiet_environment t (start_timer bp (newShard lower B md)) =
     Some ((start_timer bp (newShard lower B md))\<lparr>newItem := [t]\<rparr>)"
  by (simp add: send_item_def quiet_environment_def start_timer_def newShard_def)

text \<open>A client that is let in, and a second one that comes between its two steps.\<close>

lemma run_one_client:
  assumes "multi_run lower E NewSet cfg B st" "batchers (mb st) (client_set lower NewSet (metadataKeys (mb st)) info) = None"
    "batchers_size (mb st) + 1 = metadataLimit (mb st)"
  defines "k \<equiv> client_set lower NewSet (metadataKeys (mb st)) info"
  defines "mb' \<equiv> (mb st)\<lparr>batchers := (batchers (mb st))(k \<mapsto> start_timer (newBatchProcessor cfg)
      (newShard lower B (client_metadata lower (metadataKeys (mb st)) info))), batchers_size := metadataLimit (mb st)\<rparr>"
  shows "multi_run lower E NewSet cfg B (st\<lparr>mb := mb', missed := missed st, ready := ready st @ [(info, t)]\<rparr>)"
    and "0 \<le> batchers_size (mb st) \<Longrightarrow>
      multi_run lower E NewSet cfg B (st\<lparr>mb := mb', missed := missed st, ready := ready st @ [(info, t)], refused := refused st @ [(info, t')]\<rparr>)"
proof -
  have locked: "consume_locked lower NewSet (newBatchProcessor cfg) B info (mb st) = (True, mb')"
    using assms(2,3) by (simp add: consume_locked_def Let_def mb'_def k_def)
  have first: "multi_run lower E NewSet cfg B (st\<lparr>missed := missed st @ [(info, t)]\<rparr>)"
    by (rule multi_miss [OF assms(1,2)])
  show "multi_run lower E NewSet cfg B (st\<lparr>mb := mb', missed := missed st, ready := ready st @ [(info, t)]\<rparr>)"
    using multi_accept [OF first, of "missed st" info t "[]"] locked by simp
  assume nonneg: "0 \<le> batchers_size (mb st)"
  have "multi_run lower E NewSet cfg B (st\<lparr>missed := missed st @ [(info, t), (info, t')]\<rparr>)"
    using multi_miss [OF first, of info t'] assms(2) by simp
  from multi_accept [OF this, of "missed st" info t "[(info, t')]"] locked
  have both: "multi_run lower E NewSet cfg B (st\<lparr>mb := mb', missed := missed st @ [(info, t')], ready := ready st @ [(info, t)]\<rparr>)"
    by simp
  have "consume_locked lower NewSet (newBatchProcessor cfg) B info mb' = (False, mb')"
    using assms(3) nonneg by (simp add: consume_locked_def Let_def mb'_def)
  with multi_refuse [OF both, of "missed st" info t' "[]"]
  show "multi_run lower E NewSet cfg B (st\<lparr>mb := mb', missed := missed st, ready := ready st @ [(info, t)], refused := refused st @ [(info, t')]\<rparr>)"
    by (cases st) simp
qed

section \<open>Properties\<close>

text \<open>
  C14. The batch processor for logs, with one shard, in every interleaving of consumers, the goroutine, its
  timer and shutdown: the records exported, pending and in the channel are those consumed, in order;
  the count of pending records is right; no export is empty or larger than \<^verbatim>\<open>send_batch_max_size\<close>; between
  two steps fewer than \<^verbatim>\<open>send_batch_size\<close> records are pending, and none without a timer; nothing is pending
  once the goroutine has returned; the recorded sizes are those of the exports that did not fail; and
  processing an item always ends, without an endless loop and without blocking on the timer.
\<close>

theorem batch_processor_keeps_all_logs:
  assumes "BatchConfig_Validate lower cfg = None"
    and "single_run lower E (newBatchProcessor cfg) (logs_batch L) cl b ts"
  shows "concat (map data_items (exports b)) @ data_items (logData (batch b)) @ concat (map data_items (newItem b)) =
      concat (map data_items ts)
    \<and> logCount (batch b) = LogRecordCount (logData (batch b))
    \<and> list_all (\<lambda>ld. 0 < LogRecordCount ld \<and>
        (cfg_SendBatchMaxSize cfg \<noteq> 0 \<longrightarrow> LogRecordCount ld \<le> uint (cfg_SendBatchMaxSize cfg))) (exports b)
    \<and> (if hasTimer b then logCount (batch b) < uint (cfg_SendBatchSize cfg) else logCount (batch b) = 0)
    \<and> (phase b = Returned \<longrightarrow> logCount (batch b) = 0)
    \<and> BatchSendSize (telemetry b) = map LogRecordCount (delivered (nextFails E) (exports b))
    \<and> (newItem b \<noteq> [] \<and> phase b \<noteq> Returned \<longrightarrow>
         (\<exists>b'. item_case E (newBatchProcessor cfg) (logs_batch L) b = Some b'))"
proof -
  note bp = valid_config_sane [OF assms(1)]
  note ok = logs_pending.single_run_ok [OF assms(2) bp]
  have "logCount (batch b) = LogRecordCount (logData (batch b))"
    using ok by (simp add: logs_pending.shard_ok_def logs_pending.accounts_def)
  then show ?thesis
    using logs_pending.shard_promises [OF ok bp] unfolding newBatchProcessor_sizes by (simp add: LogRecordCount_items)
qed

lemma batch_processor_keeps_all_logs_witness:
  "BatchConfig_Validate id small_batches = None \<and>
   (\<exists>b. single_run id quiet_environment (newBatchProcessor small_batches) (logs_batch unit_leaves) False b [three_records] \<and>
      concat (map data_items (exports b)) @ data_items (logData (batch b)) @ concat (map data_items (newItem b)) =
        concat (map data_items [three_records]) \<and>
      map LogRecordCount (exports b) = [2, 1])"
proof -
  have valid: "BatchConfig_Validate id small_batches = None" by code_simp
  let ?b0 = "(start_timer (newBatchProcessor small_batches) (newShard id (logs_batch unit_leaves) []))\<lparr>newItem := [three_records]\<rparr>"
  have ev: "map_option (\<lambda>b. map LogRecordCount (exports b))
      (item_case quiet_environment (newBatchProcessor small_batches) (logs_batch unit_leaves) ?b0) = Some [2, 1]"
    by code_simp
  then obtain b where b: "item_case quiet_environment (newBatchProcessor small_batches) (logs_batch unit_leaves) ?b0 = Some b"
      "map LogRecordCount (exports b) = [2, 1]"
    by auto
  note run = run_one_item [OF b(1)]
  show ?thesis
    by (intro conjI exI [of _ b] valid run b(2)) (rule conjunct1 [OF batch_processor_keeps_all_logs [OF valid run]])
qed

text \<open>The same for spans.\<close>

lemma batch_processor_keeps_all_spans:
  assumes "BatchConfig_Validate lower cfg = None"
    and "single_run lower E (newBatchProcessor cfg) (traces_batch L) cl b ts"
  shows "concat (map data_items (exports b)) @ data_items (traceData (batch b)) @ concat (map data_items (newItem b)) =
      concat (map data_items ts)
    \<and> list_all (\<lambda>td. 0 < SpanCount td \<and>
        (cfg_SendBatchMaxSize cfg \<noteq> 0 \<longrightarrow> SpanCount td \<le> uint (cfg_SendBatchMaxSize cfg))) (exports b)
    \<and> (phase b = Returned \<longrightarrow> data_items (traceData (batch b)) = [])"
proof -
  note bp = valid_config_sane [OF assms(1)]
  note ok = traces_pending.single_run_ok [OF assms(2) bp]
  show ?thesis
    using traces_pending.shard_promises [OF ok bp] unfolding newBatchProcessor_sizes by (simp add: SpanCount_items)
qed

text \<open>
  C16. The batch processor for metrics, with one shard: in every interleaving the data points exported, pending
  and in the channel are those consumed, in order and under the same resource, scope and metric, the
  metadata of the metric excepted; no export has more data points than \<^verbatim>\<open>send_batch_max_size\<close>; fewer than
  \<^verbatim>\<open>send_batch_size\<close> are pending between two steps, none once the goroutine has returned; and processing an
  item always ends.
\<close>

theorem batch_processor_keeps_all_points:
  assumes "BatchConfig_Validate lower cfg = None"
    and "single_run lower E (newBatchProcessor cfg) (metrics_batch L) cl b ts"
  shows "concat (map bare_points (exports b)) @ bare_points (metricData (batch b)) @ concat (map bare_points (newItem b)) =
      concat (map bare_points ts)
    \<and> dataPointCount (batch b) = DataPointCount (metricData (batch b))
    \<and> list_all (\<lambda>md. 0 < DataPointCount md \<and>
        (cfg_SendBatchMaxSize cfg \<noteq> 0 \<longrightarrow> DataPointCount md \<le> uint (cfg_SendBatchMaxSize cfg))) (exports b)
    \<and> (if hasTimer b then dataPointCount (batch b) < uint (cfg_SendBatchSize cfg) else dataPointCount (batch b) = 0)
    \<and> (phase b = Returned \<longrightarrow> dataPointCount (batch b) = 0)
    \<and> (newItem b \<noteq> [] \<and> phase b \<noteq> Returned \<longrightarrow>
         (\<exists>b'. item_case E (newBatchProcessor cfg) (metrics_batch L) b = Some b'))"
proof -
  note bp = valid_config_sane [OF assms(1)]
  note ok = metrics_pending.single_run_ok [OF assms(2) bp]
  have "dataPointCount (batch b) = DataPointCount (metricData (batch b))"
    using ok by (simp add: metrics_pending.shard_ok_def metrics_pending.accounts_def)
  then show ?thesis
    using metrics_pending.shard_promises [OF ok bp] unfolding newBatchProcessor_sizes by (simp flip: length_bare_points)
qed

lemma batch_processor_keeps_all_points_witness:
  "BatchConfig_Validate id small_batches = None \<and>
   (\<exists>b. single_run id quiet_environment (newBatchProcessor small_batches) (metrics_batch unit_points) False b [three_points] \<and>
      concat (map bare_points (exports b)) @ bare_points (metricData (batch b)) @ concat (map bare_points (newItem b)) =
        concat (map bare_points [three_points]) \<and>
      map DataPointCount (exports b) = [2, 1])"
proof -
  have valid: "BatchConfig_Validate id small_batches = None" by code_simp
  let ?b0 = "(start_timer (newBatchProcessor small_batches) (newShard id (metrics_batch unit_points) []))\<lparr>newItem := [three_points]\<rparr>"
  have ev: "map_option (\<lambda>b. map DataPointCount (exports b))
      (item_case quiet_environment (newBatchProcessor small_batches) (metrics_batch unit_points) ?b0) = Some [2, 1]"
    by code_simp
  then obtain b where b: "item_case quiet_environment (newBatchProcessor small_batches) (metrics_batch unit_points) ?b0 = Some b"
      "map DataPointCount (exports b) = [2, 1]"
    by auto
  note run = run_one_item [OF b(1)]
  show ?thesis
    by (intro conjI exI [of _ b] valid run b(2)) (rule conjunct1 [OF batch_processor_keeps_all_points [OF valid run]])
qed

text \<open>
  C15. With metadata keys, in every interleaving: the number of shards is counted and stays within the
  limit; a client is refused only when the limit is reached; each shard exports, holds and
  has queued exactly the records of the clients that sent the values, for all configured keys, that it
  exports with, in the order in which they were accepted; every accepted client has such a shard; and
  a shard that has returned holds nothing.
\<close>

theorem batch_processor_separates_clients:
  fixes NewSet :: "(byte list \<times> attribute_value) list \<Rightarrow> 'k"
    and st :: "('k, ('res, 'sc, 'it) batchLogs, ('res, 'sc, 'it) Data) multi_state"
  assumes "BatchConfig_Validate lower cfg = None" "\<And>s. lower (lower s) = lower s" "attribute_set_laws NewSet"
    and run: "multi_run lower E NewSet cfg (logs_batch L) st"
  defines "values \<equiv> \<lambda>md. map (Metadata_Get lower md) (processor_metadataKeys lower cfg)"
  shows "batchers_size (mb st) = int (card (dom (batchers (mb st))))
    \<and> (cfg_MetadataCardinalityLimit cfg \<noteq> 0 \<longrightarrow> batchers_size (mb st) \<le> uint (cfg_MetadataCardinalityLimit cfg))
    \<and> (refused st \<noteq> [] \<longrightarrow> cfg_MetadataCardinalityLimit cfg \<noteq> 0 \<and>
         batchers_size (mb st) = uint (cfg_MetadataCardinalityLimit cfg))
    \<and> (\<forall>k b. batchers (mb st) k = Some b \<longrightarrow>
         concat (map data_items (exports b)) @ data_items (logData (batch b)) @ concat (map data_items (newItem b)) =
           concat (map data_items (map snd (filter (\<lambda>c. values (fst c) = values (exportMetadata b)) (sent st))))
         \<and> (phase b = Returned \<longrightarrow> data_items (logData (batch b)) = []))
    \<and> (\<forall>c\<in>set (sent st). \<exists>k b. batchers (mb st) k = Some b \<and> values (fst c) = values (exportMetadata b))"
proof -
  note bp = valid_config_sane [OF assms(1)]
  note ok = logs_pending.multi_run_ok [OF run bp]
  note serves = logs_pending.shard_serves [OF ok assms(3) assms(2)]
  have shards: "concat (map data_items (exports b)) @ data_items (logData (batch b)) @ concat (map data_items (newItem b)) =
        concat (map data_items (map snd (filter (\<lambda>c. values (fst c) = values (exportMetadata b)) (sent st))))
      \<and> (phase b = Returned \<longrightarrow> data_items (logData (batch b)) = [])" if "batchers (mb st) k = Some b" for k b
    using logs_pending.shard_promises [OF serves(1) [OF that] bp] unfolding values_def by blast
  have found: "\<exists>k b. batchers (mb st) k = Some b \<and> values (fst c) = values (exportMetadata b)" if c: "c \<in> set (sent st)" for c
  proof -
    obtain b where b: "batchers (mb st) (client_set lower NewSet (processor_metadataKeys lower cfg) (fst c)) = Some b"
      using ok c unfolding logs_pending.shards_ok_def Let_def by blast
    then show ?thesis using serves(2) [OF b, of "fst c" "snd c"] unfolding values_def by auto
  qed
  have "shards_counted lower cfg st" by (rule multi_run_counted [OF run])
  then show ?thesis
    using shards found by (auto simp: shards_counted_def uint_0_iff)
qed

lemma batch_processor_separates_clients_witness:
  "BatchConfig_Validate id small_batches = None \<and> attribute_set_laws (\<lambda>xs. map_of (rev xs)) \<and>
   (\<exists>st. multi_run id quiet_environment (\<lambda>xs. map_of (rev xs)) small_batches (logs_batch unit_leaves) st \<and>
      sent st = [([([1], [[2]])], three_records)] \<and>
      (\<exists>k b. batchers (mb st) k = Some b \<and>
         map (Metadata_Get id [([1], [[2]])]) [[1]] = map (Metadata_Get id (exportMetadata b)) [[1]]))"
proof -
  let ?B = "logs_batch unit_leaves" and ?N = "\<lambda>xs. map_of (rev xs)" and ?c = "([([1], [[2]])], three_records)"
  let ?st = "\<lparr>mb = newMultiShardBatcher id small_batches, closed = False, missed = [], ready = [], sent = [], refused = []\<rparr>
    :: (byte list \<Rightarrow> attribute_value option, (unit, unit, nat) batchLogs, (unit, unit, nat) Data) multi_state"
  have valid: "BatchConfig_Validate id small_batches = None" by code_simp
  have laws: "attribute_set_laws ?N" by (simp add: attribute_set_laws_def)
  have keys: "processor_metadataKeys id small_batches = [[1]]" by (simp add: processor_metadataKeys_def small_batches_def)
  have empty: "batchers_size (mb ?st) + 1 = metadataLimit (mb ?st)"
    by (simp add: newMultiShardBatcher_def small_batches_def)
  have run: "multi_run id quiet_environment ?N small_batches ?B ?st" by (rule multi_start)
  note one = run_one_client(1) [OF run _ empty, of "fst ?c" "snd ?c"]
  have "\<exists>st. multi_run id quiet_environment ?N small_batches ?B st \<and> sent st = [?c]"
    by (rule exI, rule conjI, rule multi_send [OF one _ _ send_to_new_shard, of "[]" "fst ?c" "snd ?c" "[]"])
      (simp_all add: newMultiShardBatcher_def put_shard_def)
  then obtain st where st: "multi_run id quiet_environment ?N small_batches ?B st" "sent st = [?c]" by blast
  have "\<exists>k b. batchers (mb st) k = Some b \<and> map (Metadata_Get id (fst ?c)) [[1]] = map (Metadata_Get id (exportMetadata b)) [[1]]"
    using batch_processor_separates_clients [OF valid _ laws st(1)] st(2) by (simp add: keys)
  then show ?thesis using valid laws st by auto
qed

text \<open>
  C39. The limit on combinations of metadata is checked before the map of shards is: when there is room for one
  more shard and two clients with the same new combination arrive together, one of them is refused
  as one combination too many although the shard of its combination exists, and would have taken its data.
\<close>

theorem batch_processor_refuses_known_client:
  assumes "multi_run lower E NewSet cfg B st" "batchers (mb st) (client_set lower NewSet (metadataKeys (mb st)) info) = None"
    "batchers_size (mb st) + 1 = metadataLimit (mb st)"
  shows "\<exists>st'. multi_run lower E NewSet cfg B st' \<and> refused st' = refused st @ [(info, t')] \<and> ready st' = ready st @ [(info, t)] \<and>
    batchers (mb st') (client_set lower NewSet (metadataKeys (mb st')) info) \<noteq> None"
proof -
  have "0 \<le> batchers_size (mb st)" using multi_run_counted [OF assms(1)] by (simp add: shards_counted_def)
  from run_one_client(2) [OF assms this] show ?thesis by (intro exI conjI) (assumption, simp_all)
qed

lemma batch_processor_refuses_known_client_witness:
  "\<exists>st'. multi_run id quiet_environment (\<lambda>xs. map_of (rev xs)) small_batches (logs_batch unit_leaves) st' \<and>
     refused st' = [([([1], [[2]])], three_records)] \<and>
     batchers (mb st') (client_set id (\<lambda>xs. map_of (rev xs)) (metadataKeys (mb st')) [([1], [[2]])]) \<noteq> None"
proof -
  let ?st = "\<lparr>mb = newMultiShardBatcher id small_batches, closed = False, missed = [], ready = [], sent = [], refused = []\<rparr>
    :: (byte list \<Rightarrow> attribute_value option, (unit, unit, nat) batchLogs, (unit, unit, nat) Data) multi_state"
  have run: "multi_run id quiet_environment (\<lambda>xs. map_of (rev xs)) small_batches (logs_batch unit_leaves) ?st" by (rule multi_start)
  have "\<exists>st'. multi_run id quiet_environment (\<lambda>xs. map_of (rev xs)) small_batches (logs_batch unit_leaves) st' \<and>
      refused st' = refused ?st @ [([([1], [[2]])], three_records)] \<and> ready st' = ready ?st @ [([([1], [[2]])], three_records)] \<and>
      batchers (mb st') (client_set id (\<lambda>xs. map_of (rev xs)) (metadataKeys (mb st')) [([1], [[2]])]) \<noteq> None"
    by (rule batch_processor_refuses_known_client [OF run])
      (simp_all add: newMultiShardBatcher_def small_batches_def)
  then show ?thesis by auto
qed

end
