(* ===== verification/Spec2Isabelle.thy ===== *)
theory Spec2Isabelle
  imports Status Featuregate Batching Cond MemoryQueue MemoryLimiter Fanout PersistentSafety RequestPayload WireSizes BatchProcessor
begin

text \<open>
  Verification development for the OpenTelemetry Collector.

  The Collector receives telemetry (logs, traces, metrics, profiles), passes it through processors and sends it to
  exporters. The development models the data on the wire and in memory, the queueing and batching between a pipeline and
  an exporter, and parts of the service around them. Paths are below \<^verbatim>\<open>src/\<close>; \<^verbatim>\<open>queuebatch/\<close>, \<^verbatim>\<open>queue/\<close>, \<^verbatim>\<open>request/\<close> and
  \<^verbatim>\<open>sizer/\<close> are directories of \<^verbatim>\<open>exporter/exporterhelper/internal/\<close>.

  \<^bold>\<open>How the parts fit together.\<close> An exporter helper turns data into requests (\<open>Requests\<close>), offers them to a memory queue
  (\<open>MemoryQueue\<close>) or a persistent queue (\<open>PersistentQueue\<close>), whose consumers hand them to a batcher (\<open>PartitionBatcher\<close>),
  one per partition key (\<open>PartitionKey\<close>); the batcher merges and splits requests (\<open>LogsBatch\<close>, \<open>TracesBatch\<close>,
  \<open>MetricsBatch\<close>) and calls the queue back when a request has been exported. The persistent queue stores what
  \<open>RequestPayload\<close> makes of a request, which is encoded by the protobuf code of \<open>ProtoCodec\<close> and the theories above it.
  The sizes that batching by bytes uses are those of the same code (\<open>WireSizes\<close>). The batch processor (\<open>BatchProcessor\<close>)
  collects data earlier in a pipeline, in the same tree of resources, scopes and items (\<open>Pdata\<close>).

  \<^bold>\<open>Conventions.\<close> A Go struct is a record, an interface with known implementations a datatype, a method the function of
  the same name, prefixed where names clash. A method that mutates its receiver returns the new one. An \<^verbatim>\<open>int\<close> is an
  integer, with \<open>wrap64\<close> where it can overflow, or a word of its width. Errors are values, \<open>Inl\<close> of a sum. A panic or a loop
  that does not end is \<open>None\<close>. A critical section under a mutex is one function; concurrent executions are the sequences
  of such functions that an inductive run relation allows. Third-party packages, clocks, Unicode tables and randomness
  are arguments.

  \<^bold>\<open>The theories, by component.\<close>

  \<^item> \<open>Prelude\<close>: 64-bit arithmetic, the string functions of the Go library that are used, lemmas on lists.

  \<^item> \<open>Identifiers\<close> (\<^verbatim>\<open>component/identifiable.go\<close>, \<^verbatim>\<open>pipeline/pipeline.go\<close>): parsing and printing of identifiers. The locale
    \<open>text_codec\<close> is the contract of the three types; parsing inverts printing and yields well-formed values only.

  \<^item> \<open>Status\<close> (\<^verbatim>\<open>component/componentstatus\<close>, \<^verbatim>\<open>service/internal/status\<close>): status events, the state machine of a component
    and the reporter. In every execution the announced statuses are a path of the state machine; the set of pipelines
    of an instance is encoded without loss.

  \<^item> \<open>Featuregate\<close> (\<^verbatim>\<open>featuregate/\<close>): the registry and the command-line flag, with the invariant of the registry and the
    round trip of the flag.

  \<^item> \<open>Wire\<close> (\<^verbatim>\<open>pdata/internal/proto\<close>): varints, fixed-size numbers, tags and skipping of unknown fields at the widths of the
    code. \<open>ProtoCodec\<close>: the blocks that the generated messages consist of, as writers and readers, with what a writer emits
    (\<open>emits\<close>), what a reader makes of it (\<open>reads\<close>), that readers are safe on every input (\<open>safe_reader\<close>), and what they keep
    (\<open>keeps\<close>). \<open>ProtoValues\<close>: attribute values, which contain each other and are read up to \<^verbatim>\<open>RecursionLimit\<close>. \<open>ProtoCommon\<close>,
    \<open>ProtoLogs\<close>, \<open>ProtoTraces\<close>, \<open>ProtoMetrics\<close>, \<open>ProtoProfiles\<close>, \<open>ProtoRequests\<close>: the messages of
    \<^verbatim>\<open>pdata/internal/generated_proto_*.go\<close>, each with its record, \<open>_zero\<close>, \<open>_SizeProto\<close>, \<open>_MarshalProto\<close>, the switch \<open>_field\<close> and
    \<open>_UnmarshalProto\<close>, its size and round-trip lemmas and its safety. \<open>_wf\<close> is the condition of the round trip: no nil
    inside values, values not too deep, no negative zero where the code takes it for absence.

  \<^item> \<open>ProtoMarshal\<close> (\<^verbatim>\<open>pdata/plog/pb.go\<close> and its siblings, the export requests, \<^verbatim>\<open>pdata/internal/otlp\<close>): the entry points. Logs
    and metrics survive the wire, unmarshalling is total on arbitrary bytes, the recursion limit decides exactly which
    values can be read, and the deprecated fields are migrated by one reader and not by the other.

  \<^item> \<open>ProfilesReferences\<close> (\<^verbatim>\<open>pdata/internal/otlp/profiles_dictionary.go\<close>, \<^verbatim>\<open>pdata/pprofile/pb.go\<close>): strings of profiles as
    references into the string table; resolving undoes converting.

  \<^item> \<open>RequestPayload\<close> (\<^verbatim>\<open>pdata/xpdata/request\<close>, the encodings of \<^verbatim>\<open>queuebatch/\<close>, \<^verbatim>\<open>client/client.go\<close>): what the persistent queue
    stores. The locales \<open>payload_format\<close> and \<open>legacy_format\<close> are interpreted for each signal; contexts and data are restored,
    and no stored bytes make the decoder panic.

  \<^item> \<open>Pdata\<close> (\<^verbatim>\<open>pdata/plog\<close>, \<^verbatim>\<open>pdata/ptrace\<close>, \<^verbatim>\<open>pdata/pmetric\<close>): the tree of resources, scopes and items with counts and sizes,
    and the in-place \<^verbatim>\<open>RemoveIf\<close> of the generated slices, equal to one pass over a list. \<open>Requests\<close> (\<^verbatim>\<open>request/\<close>, \<^verbatim>\<open>sizer/\<close>):
    sizers and size caches, with the locale \<open>sizer_laws\<close>. \<open>LogsBatch\<close>, \<open>TracesBatch\<close>, \<open>MetricsBatch\<close> (\<^verbatim>\<open>queuebatch/*_batch.go\<close>): merging
    and splitting keep every item in order under its resource and scope, within the limit, and report exactly what is
    dropped. \<open>WireSizes\<close>: the limit holds for the bytes on the wire.

  \<^item> \<open>QueueConfig\<close> (\<^verbatim>\<open>queuebatch/config.go\<close>), \<open>PartitionBatcher\<close> (\<^verbatim>\<open>queuebatch/partition_batcher.go\<close>), \<open>Batching\<close>: the batcher of
    one partition under the contract \<open>merge_split_contract\<close>. Every callback is called exactly once in every interleaving,
    and the exported data is the consumed data. \<open>PartitionKey\<close> (\<^verbatim>\<open>queuebatch/metadata_partitioner.go\<close>): equal keys exactly for
    equal metadata values.

  \<^item> \<open>Cond\<close> (\<^verbatim>\<open>queue/cond.go\<close>), \<open>LinkedQueue\<close> and \<open>MemoryQueue\<close> (\<^verbatim>\<open>queue/memory_queue.go\<close>): the pointer structure refines a list
    (locale \<open>fifo\<close>); sizes account for the elements; elements are delivered once, in order; a cancelled waiter proceeds.

  \<^item> \<open>PersistentQueue\<close>, \<open>PersistentRecovery\<close>, \<open>PersistentSafety\<close> (\<^verbatim>\<open>queue/persistent_queue.go\<close>, \<^verbatim>\<open>extension/xextension/storage\<close>,
    \<^verbatim>\<open>storagetest\<close>): over a storage that does not fail (locales \<open>storage_contract\<close>, \<open>reliable_queue\<close>) no accepted request is
    lost over any number of crashes between critical sections; whatever the storage does, the client is closed once,
    after its last use, and the metadata stay well-formed.

  \<^item> \<open>BatchSplit\<close> and \<open>BatchProcessor\<close> (\<^verbatim>\<open>processor/batchprocessor\<close>): splitting of the pending data of the three signals, and
    the shards that collect, split and export it, one or one per combination of client metadata. The locale
    \<open>batch_contract\<close> is what a shard relies on (the count is right, adding appends, a split takes the first items) and
    is interpreted for logs, traces and metrics. In every interleaving of clients, goroutines, timers and shutdown what is
    exported, pending and queued is what was consumed, in order, exports stay within the limit, processing an item
    ends, and a shard serves exactly the clients whose metadata it exports with. A split metric loses its metadata,
    and two clients that come together can have one of them refused.

  \<^item> \<open>MemoryLimiter\<close> (\<^verbatim>\<open>internal/memorylimiter\<close>): decisions follow the last measurement; intervals stay bounded.
    \<open>Fanout\<close> (\<^verbatim>\<open>internal/fanoutconsumer\<close>): consumers are isolated from each other.

  \<^bold>\<open>Bounds and fuel.\<close> No definition takes fuel. Loops that may not end are \<^theory_text>\<open>partial_function (option)\<close> (the loop over fields, the
  splitting loops, the sending loop of a shard, reading the queue), and that they return is proved. Buffers are shorter than \<open>2 ^ 62\<close> bytes where positions
  are added to lengths from the input, more than any memory holds; string tables of profiles stay below \<open>2 ^ 31\<close> entries,
  because an index is an \<^verbatim>\<open>int32\<close>. Limits on sizes are those of an \<^verbatim>\<open>int64\<close>.

  \<^bold>\<open>Not modelled.\<close> JSON encoding of the messages, which is done by a third-party package over the same fields; the copy
  functions and object pools of the generated messages, whose purpose is sharing of memory that values do not have; the
  accessors of \<^verbatim>\<open>pdata\<close>; input and output over gRPC and HTTP; logging and the Collector's own telemetry; the decoding of
  configuration by reflection; code generators. The persistent metadata message is taken from its \<^verbatim>\<open>.proto\<close> file, because its
  Go code is generated at build time. The retry sender, the service graph and the remaining batchers are not reached.
\<close>

end
